(* ===== verification/Prelude.thy ===== *)
theory Prelude
  imports "HOL-Library.List_Lexorder" "HOL-Library.Char_ord" "HOL-Library.AList" Complex_Main
begin

section \<open>Prelude: text, lists, dictionaries and rounding as Python has them\<close>

text \<open>
  This theory holds what every component of the development shares: the errors that the code
  raises, the string operations of the Python standard library, the list and dictionary
  idioms of the code (\<open>dict.fromkeys\<close>, \<open>d[k] = v\<close>, \<open>xs[:n]\<close>, \<open>xs[-n:]\<close>), rounding, and the
  collections of simplification rules that the component proofs use.

  Text. A Python string is a sequence of code points. Here it is a list of characters, that is of
  code points below 256, and on that range every predicate and case mapping below is the one of
  Python (\<open>str.isspace\<close>, \<open>str.lower\<close>, the classes of \<open>re\<close>). Text with code points above 255 is
  outside the model.

  Dictionaries are association lists in insertion order, with \<open>AList.update\<close> for \<open>d[k] = v\<close>
  (an existing key keeps its place) and \<open>map_of\<close> for lookup.
\<close>

named_theorems text_simps \<open>rewrite rules for the string operations\<close>
named_theorems component_defs \<open>unfolding equations of the operations of a component\<close>

subsection \<open>Errors\<close>

text \<open>
  An exception is a value: the class name and the message. The code inspects exceptions only
  through their class and through \<open>type(exc).__name__ + ": " + str(exc)\<close>. \<open>BudgetExceeded\<close> is a
  class of the program with its own fields, and it is a subclass of \<open>Exception\<close>, so every
  handler for \<open>Exception\<close> catches it too.
\<close>

datatype limit_name =
    MaxModelCalls | MaxToolCalls | MaxInputTokens | MaxOutputTokens
  | MaxCost | MaxWallTime | MaxRecoveryAttempts

datatype exn =
    BudgetExceeded limit_name rat rat
  | Raised string string

type_synonym 'a result = "exn + 'a"

subsection \<open>Characters below 256\<close>

definition ord_c :: "char \<Rightarrow> nat" where
  "ord_c c = of_char c"

definition is_upper_c :: "char \<Rightarrow> bool" where
  "is_upper_c c = (let n = ord_c c in (65 \<le> n \<and> n \<le> 90) \<or> (192 \<le> n \<and> n \<le> 222 \<and> n \<noteq> 215))"

definition lower_c :: "char \<Rightarrow> char" where
  "lower_c c = (if is_upper_c c then char_of (ord_c c + 32) else c)"

definition is_space_c :: "char \<Rightarrow> bool" where
  "is_space_c c =
     (let n = ord_c c in (9 \<le> n \<and> n \<le> 13) \<or> (28 \<le> n \<and> n \<le> 32) \<or> n = 133 \<or> n = 160)"

definition is_digit_c :: "char \<Rightarrow> bool" where
  "is_digit_c c = (let n = ord_c c in 48 \<le> n \<and> n \<le> 57)"

definition is_word_c :: "char \<Rightarrow> bool" where
  "is_word_c c =
     (let n = ord_c c in
        (48 \<le> n \<and> n \<le> 57) \<or> (65 \<le> n \<and> n \<le> 90) \<or> n = 95 \<or> (97 \<le> n \<and> n \<le> 122)
        \<or> n = 170 \<or> n = 178 \<or> n = 179 \<or> n = 181 \<or> n = 185 \<or> n = 186
        \<or> (188 \<le> n \<and> n \<le> 190) \<or> (192 \<le> n \<and> n \<noteq> 215 \<and> n \<noteq> 247))"

definition newline :: char where
  "newline = CHR 0x0A"

lemma ord_c_less: "ord_c c < 256"
  unfolding ord_c_def by (metis of_char_mod_256 mod_less_divisor zero_less_numeral)

lemma ord_c_inject [simp]: "ord_c c = ord_c d \<longleftrightarrow> c = d"
  by (simp add: ord_c_def)

lemma lower_c_idem [simp]: "lower_c (lower_c c) = lower_c c"
  by (auto simp: lower_c_def is_upper_c_def Let_def ord_c_def)

subsection \<open>String operations\<close>

definition py_lower :: "string \<Rightarrow> string" where
  "py_lower s = map lower_c s"

definition lstrip :: "string \<Rightarrow> string" where
  "lstrip s = dropWhile is_space_c s"

definition rstrip :: "string \<Rightarrow> string" where
  "rstrip s = rev (dropWhile is_space_c (rev s))"

definition strip :: "string \<Rightarrow> string" where
  "strip s = rstrip (lstrip s)"

definition lstrip_chars :: "string \<Rightarrow> string \<Rightarrow> string" where
  "lstrip_chars cs s = dropWhile (\<lambda>c. c \<in> set cs) s"

definition starts_with :: "string \<Rightarrow> string \<Rightarrow> bool" where
  "starts_with p s = (take (length p) s = p)"

definition ends_with :: "string \<Rightarrow> string \<Rightarrow> bool" where
  "ends_with p s = (length p \<le> length s \<and> drop (length s - length p) s = p)"

fun contains :: "string \<Rightarrow> string \<Rightarrow> bool" where
  "contains p [] = (p = [])"
| "contains p (c # cs) = (starts_with p (c # cs) \<or> contains p cs)"

fun split_on :: "char \<Rightarrow> string \<Rightarrow> string list" where
  "split_on d [] = [[]]"
| "split_on d (c # cs) =
     (if c = d then [] # split_on d cs
      else (case split_on d cs of [] \<Rightarrow> [[c]] | w # ws \<Rightarrow> (c # w) # ws))"

fun join :: "string \<Rightarrow> string list \<Rightarrow> string" where
  "join sep [] = []"
| "join sep [x] = x"
| "join sep (x # xs) = x @ sep @ join sep xs"

definition count_char :: "char \<Rightarrow> string \<Rightarrow> nat" where
  "count_char c s = length (filter (\<lambda>d. d = c) s)"

lemma starts_with_iff [text_simps]: "starts_with p s \<longleftrightarrow> (\<exists>v. s = p @ v)"
  unfolding starts_with_def by (metis append_eq_conv_conj)

lemma starts_with_Nil [simp]: "starts_with [] s"
  by (simp add: starts_with_def)

lemma ends_with_iff [text_simps]: "ends_with p s \<longleftrightarrow> (\<exists>u. s = u @ p)"
proof
  assume "ends_with p s"
  then have "s = take (length s - length p) s @ p"
    unfolding ends_with_def by (metis append_take_drop_id)
  then show "\<exists>u. s = u @ p" by blast
qed (auto simp: ends_with_def)

lemma contains_iff [text_simps]: "contains p s \<longleftrightarrow> (\<exists>u v. s = u @ p @ v)"
proof (induction s)
  case (Cons c cs)
  show ?case
  proof
    assume "contains p (c # cs)"
    then show "\<exists>u v. c # cs = u @ p @ v"
    proof (simp, elim disjE)
      assume "starts_with p (c # cs)"
      then show ?thesis by (metis starts_with_iff append_Nil)
    next
      assume "contains p cs"
      then show ?thesis using Cons by (metis append_Cons)
    qed
  next
    assume "\<exists>u v. c # cs = u @ p @ v"
    then obtain u v where uv: "c # cs = u @ p @ v" by blast
    show "contains p (c # cs)"
    proof (cases u)
      case Nil
      with uv have "starts_with p (c # cs)" by (simp add: starts_with_iff)
      then show ?thesis by simp
    next
      case (Cons a u')
      with uv have "cs = u' @ p @ v" by simp
      with Cons.IH show ?thesis by auto
    qed
  qed
qed auto

lemma contains_Nil [simp]: "contains [] s"
  by (cases s) simp_all

lemma contains_append: "contains p s \<Longrightarrow> contains p (u @ s @ v)"
  by (auto simp: contains_iff) (metis append.assoc)

lemma starts_with_contains: "starts_with p s \<Longrightarrow> contains p s"
  by (auto simp: contains_iff starts_with_iff)

lemma py_lower_append [simp]: "py_lower (s @ t) = py_lower s @ py_lower t"
  by (simp add: py_lower_def)

lemma py_lower_idem [simp]: "py_lower (py_lower s) = py_lower s"
  by (simp add: py_lower_def)

lemma split_on_nonempty [simp]: "split_on d s \<noteq> []"
  by (induction s) (auto split: list.splits)

lemma length_split_on: "length (split_on d s) = Suc (count_char d s)"
  by (induction s) (auto simp: count_char_def split: list.splits)

lemma join_Cons: "xs \<noteq> [] \<Longrightarrow> join sep (x # xs) = x @ sep @ join sep xs"
  by (cases xs) auto

lemma join_split_on: "join [d] (split_on d s) = s"
proof (induction s)
  case (Cons c s)
  show ?case
  proof (cases "c = d")
    case True
    with Cons show ?thesis by (simp add: join_Cons)
  next
    case False
    obtain w ws where w: "split_on d s = w # ws"
      by (cases "split_on d s") auto
    with Cons False show ?thesis by (cases ws) auto
  qed
qed simp

lemma split_on_pieces: "w \<in> set (split_on d s) \<Longrightarrow> d \<notin> set w"
  by (induction s arbitrary: w) (auto split: list.splits if_splits)

subsection \<open>Lists as Python uses them\<close>

text \<open>
  \<open>uniq\<close> is \<open>list(dict.fromkeys(xs))\<close>: the first occurrences, in order. \<open>last_n n xs\<close> is
  \<open>xs[-n:]\<close>. \<open>py_sorted\<close> is \<open>sorted\<close> on strings, which compares code points lexicographically,
  as the order on lists of \<open>List_Lexorder\<close> does.
\<close>

fun uniq :: "'a list \<Rightarrow> 'a list" where
  "uniq [] = []"
| "uniq (x # xs) = x # removeAll x (uniq xs)"

definition last_n :: "nat \<Rightarrow> 'a list \<Rightarrow> 'a list" where
  "last_n n xs = drop (length xs - n) xs"

definition py_sorted :: "string list \<Rightarrow> string list" where
  "py_sorted xs = sort xs"

lemma set_uniq [simp]: "set (uniq xs) = set xs"
  by (induction xs) auto

lemma distinct_uniq [simp]: "distinct (uniq xs)"
  by (induction xs) (auto simp: distinct_removeAll)

lemma uniq_distinct: "distinct xs \<Longrightarrow> uniq xs = xs"
  by (induction xs) (auto simp: removeAll_id)

lemma length_uniq_le: "length (uniq xs) \<le> length xs"
proof (induction xs)
  case (Cons x xs)
  have "length (removeAll x (uniq xs)) \<le> length (uniq xs)"
    by (rule length_removeAll_less_eq)
  also have "\<dots> \<le> length xs" by (rule Cons)
  finally show ?case by simp
qed simp

lemma length_last_n: "length (last_n n xs) = min n (length xs)"
  by (simp add: last_n_def)

lemma set_last_n: "set (last_n n xs) \<subseteq> set xs"
  by (simp add: last_n_def set_drop_subset)

lemma set_py_sorted [simp]: "set (py_sorted xs) = set xs"
  by (simp add: py_sorted_def)

lemma distinct_py_sorted [simp]: "distinct (py_sorted xs) = distinct xs"
  by (simp add: py_sorted_def)

lemma length_py_sorted [simp]: "length (py_sorted xs) = length xs"
  by (simp add: py_sorted_def)

lemma set_take_in: "x \<in> set (take n xs) \<Longrightarrow> x \<in> set xs"
  by (rule in_set_takeD)

subsection \<open>Dictionaries\<close>

text \<open>
  \<open>dict_set k v d\<close> is \<open>d[k] = v\<close>; \<open>dict_get d k v\<close> is \<open>d.get(k, v)\<close>; \<open>dict_keys\<close> lists the keys
  in insertion order; \<open>dict_pop k d\<close> removes a key. A dictionary built by these operations has
  distinct keys.
\<close>

type_synonym ('k, 'v) dict = "('k \<times> 'v) list"

definition dict_set :: "'k \<Rightarrow> 'v \<Rightarrow> ('k, 'v) dict \<Rightarrow> ('k, 'v) dict" where
  "dict_set k v d = AList.update k v d"

definition dict_get :: "('k, 'v) dict \<Rightarrow> 'k \<Rightarrow> 'v \<Rightarrow> 'v" where
  "dict_get d k v = (case map_of d k of None \<Rightarrow> v | Some w \<Rightarrow> w)"

definition dict_keys :: "('k, 'v) dict \<Rightarrow> 'k list" where
  "dict_keys d = map fst d"

definition dict_ok :: "('k, 'v) dict \<Rightarrow> bool" where
  "dict_ok d = distinct (dict_keys d)"

definition dict_bump :: "'k \<Rightarrow> ('k, nat) dict \<Rightarrow> ('k, nat) dict" where
  "dict_bump k d = dict_set k (dict_get d k 0 + 1) d"

lemma dict_set_lookup [simp]: "map_of (dict_set k v d) = (map_of d)(k \<mapsto> v)"
  by (simp add: dict_set_def update_conv')

lemma dict_set_ok [simp]: "dict_ok d \<Longrightarrow> dict_ok (dict_set k v d)"
  unfolding dict_ok_def dict_keys_def dict_set_def by (rule distinct_update)

lemma dict_ok_Nil [simp]: "dict_ok []"
  by (simp add: dict_ok_def dict_keys_def)

lemma dict_set_keys: "set (dict_keys (dict_set k v d)) = insert k (set (dict_keys d))"
  unfolding dict_keys_def dict_set_def by (induction d) auto

lemma dict_get_set: "dict_get (dict_set k v d) k' w = (if k' = k then v else dict_get d k' w)"
  by (simp add: dict_get_def)

lemma dict_get_Nil [simp]: "dict_get [] k v = v"
  by (simp add: dict_get_def)

lemma dict_get_bump: "dict_get (dict_bump k d) k' 0 = dict_get d k' 0 + (if k' = k then 1 else 0)"
  by (simp add: dict_bump_def dict_get_set)

lemma dict_bump_ok [simp]: "dict_ok d \<Longrightarrow> dict_ok (dict_bump k d)"
  by (simp add: dict_bump_def)

lemma dict_lookup_mem: "dict_ok d \<Longrightarrow> map_of d k = Some v \<longleftrightarrow> (k, v) \<in> set d"
  by (simp add: dict_ok_def dict_keys_def map_of_eq_Some_iff)

subsection \<open>Rounding\<close>

text \<open>
  Floats are exact rationals here: the arithmetic of the model carries no rounding error.
  \<open>py_round n x\<close> is \<open>round(x, n)\<close>, half to even on the last kept decimal.
\<close>

definition round_half_even :: "rat \<Rightarrow> int" where
  "round_half_even x =
     (let f = floor x; r = x - of_int f
      in if r < 1 / 2 then f else if r > 1 / 2 then f + 1 else if even f then f else f + 1)"

definition py_round :: "nat \<Rightarrow> rat \<Rightarrow> rat" where
  "py_round n x = of_int (round_half_even (x * 10 ^ n)) / 10 ^ n"

definition on_grid :: "nat \<Rightarrow> rat \<Rightarrow> bool" where
  "on_grid n x = (of_int (floor (x * 10 ^ n)) = x * 10 ^ n)"

lemma round_half_even_int [simp]: "round_half_even (of_int k) = k"
  by (simp add: round_half_even_def)

lemma round_half_even_mono: "x \<le> y \<Longrightarrow> round_half_even x \<le> round_half_even y"
proof -
  assume xy: "x \<le> y"
  then have fl: "floor x \<le> floor y" by (rule floor_mono)
  show ?thesis
  proof (cases "floor x = floor y")
    case True
    with xy show ?thesis by (auto simp: round_half_even_def Let_def)
  next
    case False
    with fl have "floor x + 1 \<le> floor y" by linarith
    then show ?thesis by (auto simp: round_half_even_def Let_def)
  qed
qed

lemma py_round_mono: "x \<le> y \<Longrightarrow> py_round n x \<le> py_round n y"
  unfolding py_round_def
  by (intro divide_right_mono) (auto intro!: round_half_even_mono mult_right_mono)

lemma py_round_nonneg: "0 \<le> x \<Longrightarrow> 0 \<le> py_round n x"
  using py_round_mono [of 0 x n] round_half_even_int [of 0] by (simp add: py_round_def)

lemma on_grid_iff: "on_grid n x \<longleftrightarrow> (\<exists>k::int. x * 10 ^ n = of_int k)"
  unfolding on_grid_def
proof
  assume "\<exists>k::int. x * 10 ^ n = of_int k"
  then obtain k :: int where k: "x * 10 ^ n = of_int k" by blast
  show "of_int (floor (x * 10 ^ n)) = x * 10 ^ n" unfolding k by simp
qed metis

lemma py_round_grid: "on_grid n x \<Longrightarrow> py_round n x = x"
proof -
  assume "on_grid n x"
  then obtain k :: int where k: "x * 10 ^ n = of_int k" by (auto simp: on_grid_iff)
  have "py_round n x = of_int k / 10 ^ n" by (simp add: py_round_def k)
  then show ?thesis by (simp flip: k)
qed

lemma on_grid_round [simp]: "on_grid n (py_round n x)"
  unfolding on_grid_iff py_round_def by auto

lemma on_grid_add: "on_grid n x \<Longrightarrow> on_grid n y \<Longrightarrow> on_grid n (x + y)"
  unfolding on_grid_iff by (auto simp: distrib_right) (metis of_int_add)

lemma on_grid_zero [simp]: "on_grid n 0"
  by (simp add: on_grid_def)

subsection \<open>Printing numbers\<close>

text \<open>
  \<open>show_pos\<close> prints the decimal digits of a non-negative integer and \<open>show_nat\<close> is \<open>str\<close> on a natural number. \<open>show_float\<close> prints a float the way \<open>str\<close> does for
  amounts with at most six decimals that are at least 0.0001 and below 10^16: the decimals without
  trailing zeros, and one decimal at least.
\<close>

function show_pos :: "int \<Rightarrow> string" where
  "show_pos k =
     (if k < 10 then [char_of (48 + nat k)] else show_pos (k div 10) @ [char_of (48 + nat (k mod 10))])"
  by pat_completeness auto
termination
  by (relation "measure nat") auto

declare show_pos.simps [simp del]

definition show_nat :: "nat \<Rightarrow> string" where
  "show_nat n = show_pos (int n)"

definition pad_zeros :: "nat \<Rightarrow> string \<Rightarrow> string" where
  "pad_zeros n s = replicate (n - length s) (CHR ''0'') @ s"

definition show_float :: "rat \<Rightarrow> string" where
  "show_float x =
     (let k = abs (round_half_even (x * 1000000));
          frac = rev (dropWhile (\<lambda>c. c = CHR ''0'') (rev (pad_zeros 6 (show_pos (k mod 1000000)))))
      in (if x < 0 then ''-'' else []) @ show_pos (k div 1000000) @ ''.'' @
         (if frac = [] then ''0'' else frac))"

definition bool_text :: "bool \<Rightarrow> string" where
  "bool_text b = (if b then ''True'' else ''False'')"

fun limit_text :: "limit_name \<Rightarrow> string" where
  "limit_text MaxModelCalls = ''max_model_calls''"
| "limit_text MaxToolCalls = ''max_tool_calls''"
| "limit_text MaxInputTokens = ''max_input_tokens''"
| "limit_text MaxOutputTokens = ''max_output_tokens''"
| "limit_text MaxCost = ''max_estimated_cost_usd''"
| "limit_text MaxWallTime = ''max_wall_time_seconds''"
| "limit_text MaxRecoveryAttempts = ''max_recovery_attempts''"

definition amount_text :: "limit_name \<Rightarrow> rat \<Rightarrow> string" where
  "amount_text l x =
     (if l = MaxCost \<or> l = MaxWallTime then show_float x else show_nat (nat (floor x)))"

definition limit_message :: "limit_name \<Rightarrow> rat \<Rightarrow> rat \<Rightarrow> string" where
  "limit_message l limit attempted =
     limit_text l @ '' limit='' @ amount_text l limit @ '' attempted='' @ amount_text l attempted"

text \<open>\<open>exn_text\<close> is \<open>type(exc).__name__ + ": " + str(exc)\<close>; \<open>exn_str\<close> is \<open>str(exc)\<close>.\<close>

fun exn_str :: "exn \<Rightarrow> string" where
  "exn_str (BudgetExceeded l limit attempted) =
     ''execution budget exceeded: '' @ limit_message l limit attempted"
| "exn_str (Raised c msg) = msg"

fun exn_class :: "exn \<Rightarrow> string" where
  "exn_class (BudgetExceeded l limit attempted) = ''BudgetExceeded''"
| "exn_class (Raised c msg) = c"

definition exn_text :: "exn \<Rightarrow> string" where
  "exn_text e = exn_class e @ '': '' @ exn_str e"

subsection \<open>Operations that may raise and change a state\<close>

text \<open>
  An operation on a state \<open>'s\<close> returns a result and the new state. A raise keeps the changes made
  before it: \<open>and_then m k\<close> runs \<open>m\<close> and then, unless it raised, \<open>k\<close> on its result.
\<close>

type_synonym ('s, 'a) action = "'s \<Rightarrow> 'a result \<times> 's"

definition and_then :: "('s, 'a) action \<Rightarrow> ('a \<Rightarrow> ('s, 'b) action) \<Rightarrow> ('s, 'b) action" where
  "and_then m k s = (case m s of (Inl e, s') \<Rightarrow> (Inl e, s') | (Inr x, s') \<Rightarrow> k x s')"

lemma and_then_simps [simp]:
  "m s = (Inl e, s') \<Longrightarrow> and_then m k s = (Inl e, s')"
  "m s = (Inr x, s') \<Longrightarrow> and_then m k s = k x s'"
  by (simp_all add: and_then_def)

lemma and_then_cases:
  assumes "and_then m k s = (r, t)"
  obtains (raised) e where "m s = (Inl e, t)" "r = Inl e"
  | (went_on) x s' where "m s = (Inr x, s')" "k x s' = (r, t)"
  using assms by (auto simp: and_then_def split: prod.splits sum.splits)

end
