(* ===== verification/Interfaces.thy ===== *)
theory Interfaces
  imports Prelude
begin

section \<open>Interfaces shared by several components\<close>

text \<open>
  Each locale of this theory is a contract between components: the operations a client calls and
  the laws their provider promises. The lemmas a client needs are proved once inside the locale;
  the theory of each provider interprets it on its own operations.

  \<^item> \<open>bounded_retry\<close>: the retry loops of the tool-calling loop, of the external-call policy and of
    the model execution policy;
  \<^item> \<open>event_log\<close>: the append-only records (model ledger, tool ledger, trace, call log of the
    external-call policy);
  \<^item> \<open>metered\<close>: a counter that is checked against a limit before it is consumed;
  \<^item> \<open>reducer\<close>: the merge functions of the shared graph state;
  \<^item> \<open>file_backend\<close>: the files of an execution backend, as the nodes that write edits rely on them;
  \<^item> \<open>guarded_machine\<close>: a step relation with an invariant and a rank that every step lowers.
\<close>

subsection \<open>Retry loops\<close>

text \<open>
  \<open>retry_from op again n s\<close> is the loop
  \<^verbatim>\<open>
      while True:
          attempt += 1
          outcome = op()
          if again(outcome, attempt): continue
          return outcome
  \<close>
  started with \<open>attempt = n - 1\<close>. The operation sees the number of the attempt and the state, and
  returns its outcome with the new state. The loop may run forever for an arbitrary \<open>again\<close>, so
  its result is an option; the locale bounds it.
\<close>

partial_function (option) retry_from ::
  "(nat \<Rightarrow> 's \<Rightarrow> 'r \<times> 's) \<Rightarrow> ('r \<Rightarrow> nat \<Rightarrow> bool) \<Rightarrow> nat \<Rightarrow> 's \<Rightarrow> ('r \<times> nat \<times> 's) option" where
  "retry_from op again n s =
     (case op n s of (r, s') \<Rightarrow>
        if again r n then retry_from op again (Suc n) s' else Some (r, n, s'))"

declare retry_from.simps [code]

locale bounded_retry =
  fixes op :: "nat \<Rightarrow> 's \<Rightarrow> 'r \<times> 's"
    and again :: "'r \<Rightarrow> nat \<Rightarrow> bool"
    and bound :: nat
  assumes again_bounded: "again r n \<Longrightarrow> n \<le> bound"
begin

lemma returns: "\<exists>r m s'. retry_from op again n s = Some (r, m, s')"
proof (induction "Suc bound - n" arbitrary: n s rule: less_induct)
  case less
  obtain r s' where o: "op n s = (r, s')" by (cases "op n s") auto
  show ?case
  proof (cases "again r n")
    case True
    then have "n \<le> bound" by (rule again_bounded)
    then have "Suc bound - Suc n < Suc bound - n" by simp
    then obtain r' m s'' where "retry_from op again (Suc n) s' = Some (r', m, s'')"
      using less.hyps by blast
    with o True show ?thesis by (subst retry_from.simps) simp
  next
    case False
    with o show ?thesis by (subst retry_from.simps) simp
  qed
qed

lemma result:
  assumes "retry_from op again n s = Some (r, m, s')"
  shows "n \<le> m \<and> m \<le> max n (Suc bound) \<and> \<not> again r m"
  using assms
proof (induction "Suc bound - n" arbitrary: n s rule: less_induct)
  case less
  obtain q t where o: "op n s = (q, t)" by (cases "op n s") auto
  show ?case
  proof (cases "again q n")
    case True
    then have n: "n \<le> bound" by (rule again_bounded)
    from less.prems o True have "retry_from op again (Suc n) t = Some (r, m, s')"
      by (subst (asm) retry_from.simps) simp
    moreover from n have "Suc bound - Suc n < Suc bound - n" by simp
    ultimately have "Suc n \<le> m \<and> m \<le> max (Suc n) (Suc bound) \<and> \<not> again r m"
      using less.hyps by blast
    with n show ?thesis by simp
  next
    case False
    with less.prems o show ?thesis by (subst (asm) retry_from.simps) simp
  qed
qed

lemma preserves:
  assumes "retry_from op again n s = Some (r, m, s')" and "P s"
    and step: "\<And>n s r s'. op n s = (r, s') \<Longrightarrow> P s \<Longrightarrow> P s'"
  shows "P s'"
  using assms(1,2)
proof (induction "Suc bound - n" arbitrary: n s rule: less_induct)
  case less
  obtain q t where o: "op n s = (q, t)" by (cases "op n s") auto
  with step less.prems(2) have "P t" by blast
  show ?case
  proof (cases "again q n")
    case True
    then have "n \<le> bound" by (rule again_bounded)
    then have "Suc bound - Suc n < Suc bound - n" by simp
    moreover from less.prems o True have "retry_from op again (Suc n) t = Some (r, m, s')"
      by (subst (asm) retry_from.simps) simp
    ultimately show ?thesis using less.hyps \<open>P t\<close> by blast
  next
    case False
    with less.prems o \<open>P t\<close> show ?thesis by (subst (asm) retry_from.simps) simp
  qed
qed

lemma attempts_le: "retry_from op again 1 s = Some (r, m, s') \<Longrightarrow> 1 \<le> m \<and> m \<le> Suc bound"
  using result [of 1 s r m s'] by simp

end

text \<open>
  A retry loop whose operation changes the state in a way that can be measured: each attempt adds
  a bounded amount to a measure of the state (entries logged, calls made, ...). The loop adds at
  most \<open>step\<close> for each attempt.
\<close>

locale measured_retry = bounded_retry op again bound
  for op :: "nat \<Rightarrow> 's \<Rightarrow> 'r \<times> 's" and again :: "'r \<Rightarrow> nat \<Rightarrow> bool" and bound :: nat +
  fixes size_of :: "'s \<Rightarrow> nat"
  assumes op_size: "op n s = (r, s') \<Longrightarrow> size_of s' = Suc (size_of s)"
begin

lemma total_size:
  assumes "retry_from op again n s = Some (r, m, s')"
  shows "size_of s' + n = Suc (size_of s + m)"
  using assms
proof (induction "Suc bound - n" arbitrary: n s rule: less_induct)
  case less
  obtain q t where o: "op n s = (q, t)" by (cases "op n s") auto
  show ?case
  proof (cases "again q n")
    case True
    then have n: "n \<le> bound" by (rule again_bounded)
    from less.prems o True have "retry_from op again (Suc n) t = Some (r, m, s')"
      by (subst (asm) retry_from.simps) simp
    moreover from n have "Suc bound - Suc n < Suc bound - n" by simp
    ultimately have "size_of s' + Suc n = Suc (size_of t + m)" using less.hyps by blast
    with op_size [OF o] show ?thesis by simp
  next
    case False
    with less.prems o have "t = s'" "m = n" by (subst (asm) retry_from.simps, simp)+
    with op_size [OF o] show ?thesis by simp
  qed
qed

end

text \<open>
  A retry loop that logs one entry for each attempt, made of the outcome and the number of the
  attempt. The log of a run names every attempt in order, and it is measured by its length.
\<close>

locale logged_retry = bounded_retry op again bound
  for op :: "nat \<Rightarrow> 's \<Rightarrow> 'r \<times> 's" and again :: "'r \<Rightarrow> nat \<Rightarrow> bool" and bound :: nat +
  fixes entries :: "'s \<Rightarrow> 'e list"
    and entry :: "'r \<Rightarrow> nat \<Rightarrow> 'e"
  assumes op_entries: "op n s = (r, s') \<Longrightarrow> entries s' = entries s @ [entry r n]"
begin

lemma log_result:
  assumes "retry_from op again n s = Some (r, m, s')"
  shows "\<exists>rs. entries s' = entries s @ map2 entry (rs @ [r]) [n..<Suc m] \<and> n + length rs = m \<and>
    (\<forall>(q, i) \<in> set (zip rs [n..<m]). again q i)"
  using assms
proof (induction "Suc bound - n" arbitrary: n s rule: less_induct)
  case less
  obtain q t where o: "op n s = (q, t)" by (cases "op n s") auto
  show ?case
  proof (cases "again q n")
    case True
    then have n: "n \<le> bound" by (rule again_bounded)
    from less.prems o True have "retry_from op again (Suc n) t = Some (r, m, s')"
      by (subst (asm) retry_from.simps) simp
    moreover from n have "Suc bound - Suc n < Suc bound - n" by simp
    ultimately obtain rs where rs:
      "entries s' = entries t @ map2 entry (rs @ [r]) [Suc n..<Suc m]" "Suc n + length rs = m"
      "\<forall>(q, i) \<in> set (zip rs [Suc n..<m]). again q i"
      using less.hyps by blast
    then have m: "n < m" "[n..<Suc m] = n # [Suc n..<Suc m]" "[n..<m] = n # [Suc n..<m]"
      by (simp_all add: upt_rec)
    have "entries s' = entries s @ map2 entry ((q # rs) @ [r]) [n..<Suc m]"
      unfolding m(2) using rs(1) op_entries [OF o] by (simp del: upt_Suc)
    moreover have "n + length (q # rs) = m" using rs(2) by simp
    moreover have "\<forall>(q, i) \<in> set (zip (q # rs) [n..<m]). again q i"
      unfolding m(3) using rs(3) True by simp
    ultimately show ?thesis by blast
  next
    case False
    with less.prems o have "t = s'" "m = n" "q = r" by (subst (asm) retry_from.simps, simp)+
    with op_entries [OF o] show ?thesis by (intro exI [of _ "[]"]) simp
  qed
qed

end

sublocale logged_retry \<subseteq> counted: measured_retry op again bound "\<lambda>s. length (entries s)"
  by unfold_locales (simp add: op_entries)

subsection \<open>Append-only logs\<close>

locale event_log =
  fixes entries :: "'s \<Rightarrow> 'e list"
    and put :: "'e \<Rightarrow> 's \<Rightarrow> 's"
  assumes entries_put: "entries (put e s) = entries s @ [e]"
begin

lemma entries_fold: "entries (fold put es s) = entries s @ es"
  by (induction es arbitrary: s) (simp_all add: entries_put)

lemma put_keeps: "\<exists>es. entries (fold put new s) = entries s @ es"
  by (simp add: entries_fold)

lemma count_put:
  "length (filter p (entries (put e s))) = length (filter p (entries s)) + (if p e then 1 else 0)"
  by (simp add: entries_put)

lemma old_entry: "i < length (entries s) \<Longrightarrow> entries (put e s) ! i = entries s ! i"
  by (simp add: entries_put nth_append)

end

subsection \<open>Checked counters\<close>

locale metered =
  fixes used :: "'s \<Rightarrow> int"
    and cap :: "'s \<Rightarrow> int option"
    and may :: "'s \<Rightarrow> bool"
    and consume :: "'s \<Rightarrow> 's"
  assumes may_below: "may s \<Longrightarrow> cap s = Some n \<Longrightarrow> used s + 1 \<le> n"
    and consume_used: "used (consume s) = used s + 1"
    and consume_cap: "cap (consume s) = cap s"
begin

definition in_cap :: "'s \<Rightarrow> bool" where
  "in_cap s \<longleftrightarrow> (\<forall>n. cap s = Some n \<longrightarrow> used s \<le> n)"

lemma checked_consume: "may s \<Longrightarrow> in_cap (consume s)"
  using may_below unfolding in_cap_def by (simp add: consume_used consume_cap)

lemma at_cap: "cap s = Some n \<Longrightarrow> n \<le> used s \<Longrightarrow> \<not> may s"
  using may_below by force

end

subsection \<open>Reducers of the shared state\<close>

locale reducer =
  fixes ok :: "'a \<Rightarrow> bool"
    and unit :: 'a
    and merge :: "'a \<Rightarrow> 'a \<Rightarrow> 'a"
  assumes unit_ok: "ok unit"
    and merge_ok: "ok x \<Longrightarrow> ok y \<Longrightarrow> ok (merge x y)"
    and merge_unit: "ok x \<Longrightarrow> merge x unit = x"
    and unit_merge: "ok x \<Longrightarrow> merge unit x = x"
    and merge_assoc: "ok x \<Longrightarrow> ok y \<Longrightarrow> ok z \<Longrightarrow> merge (merge x y) z = merge x (merge y z)"
begin

lemma foldl_ok: "ok x \<Longrightarrow> (\<forall>y \<in> set ys. ok y) \<Longrightarrow> ok (foldl merge x ys)"
  by (induction ys arbitrary: x) (auto simp: merge_ok)

lemma foldl_merge:
  "ok x \<Longrightarrow> (\<forall>y \<in> set ys. ok y) \<Longrightarrow> foldl merge x ys = merge x (foldl merge unit ys)"
proof (induction ys arbitrary: x)
  case Nil
  then show ?case by (simp add: merge_unit)
next
  case (Cons y ys)
  from Cons.prems have okx: "ok x" and oky: "ok y" and okf: "ok (foldl merge unit ys)"
    by (simp_all add: foldl_ok unit_ok)
  have "foldl merge x (y # ys) = foldl merge (merge x y) ys" by simp
  also have "\<dots> = merge (merge x y) (foldl merge unit ys)"
    by (rule Cons.IH) (use okx oky Cons.prems(2) in \<open>simp_all add: merge_ok\<close>)
  also have "\<dots> = merge x (merge y (foldl merge unit ys))"
    by (rule merge_assoc [OF okx oky okf])
  also have "merge y (foldl merge unit ys) = foldl merge y ys"
    by (rule Cons.IH [symmetric]) (use oky Cons.prems(2) in simp_all)
  also have "foldl merge y ys = foldl merge unit (y # ys)"
    using oky by (simp add: unit_merge)
  finally show ?case .
qed

lemma foldl_append:
  assumes "ok x" and "\<forall>y \<in> set (ys @ zs). ok y"
  shows "foldl merge x (ys @ zs) = merge (foldl merge x ys) (foldl merge unit zs)"
  unfolding List.foldl_append
  by (rule foldl_merge) (use assms in \<open>auto intro: foldl_ok\<close>)

end

subsection \<open>Files of an execution backend\<close>

text \<open>
  Two path texts may name one file, so a write changes either nothing or the file that is read.
  \<open>write_all\<close> is the loop of the implementation and recovery nodes: every edit is written, a failing
  write is reported and skipped.
\<close>

locale file_backend =
  fixes put :: "string \<Rightarrow> string \<Rightarrow> ('s, unit) action"
    and get :: "string \<Rightarrow> 's \<Rightarrow> exn + string"
    and seen :: "string \<Rightarrow> string"
  assumes get_put: "put p c s = (Inr (), s') \<Longrightarrow> get p s' = Inr (seen c)"
    and get_origin: "put p c s = (r, s') \<Longrightarrow> get q s' = Inr x \<Longrightarrow> get q s = Inr x \<or> (\<exists>n. x = seen (take n c))"
    and get_kept: "put p c s = (Inr (), s') \<Longrightarrow> get q s = Inr x \<Longrightarrow> get q s' = Inr x \<or> get q s' = Inr (seen c)"
begin

fun write_all :: "(string \<times> string) list \<Rightarrow> 's \<Rightarrow> 's" where
  "write_all [] s = s"
| "write_all ((p, c) # es) s = write_all es (snd (put p c s))"

text \<open>Whatever is read afterwards was there before, or is one of the contents, or the part of one that was written.\<close>

lemma write_all_result:
  "get q (write_all es s) = Inr x \<Longrightarrow> get q s = Inr x \<or> (\<exists>(p, c) \<in> set es. \<exists>n. x = seen (take n c))"
proof (induction es arbitrary: s)
  case (Cons e es)
  obtain p c where e: "e = (p, c)" by fastforce
  obtain r s' where w: "put p c s = (r, s')" by fastforce
  from Cons.prems e w have "get q (write_all es s') = Inr x" by simp
  from Cons.IH [OF this] show ?case
  proof
    assume "get q s' = Inr x"
    from get_origin [OF w this] e show ?thesis by auto
  next
    assume "\<exists>(p, c) \<in> set es. \<exists>n. x = seen (take n c)"
    then show ?thesis by auto
  qed
qed simp

lemma written_last: "put p c (write_all es s) = (Inr (), s') \<Longrightarrow> get p s' = Inr (seen c)"
  by (rule get_put)

end

subsection \<open>Guarded machines\<close>

locale guarded_machine =
  fixes init :: "'s \<Rightarrow> bool"
    and step :: "'s \<Rightarrow> 's \<Rightarrow> bool"
    and inv :: "'s \<Rightarrow> bool"
    and rank :: "'s \<Rightarrow> nat"
  assumes init_inv: "init s \<Longrightarrow> inv s"
    and step_inv: "step s t \<Longrightarrow> inv s \<Longrightarrow> inv t"
    and step_rank: "step s t \<Longrightarrow> inv s \<Longrightarrow> rank t < rank s"
begin

lemma path_inv: "step\<^sup>*\<^sup>* s t \<Longrightarrow> inv s \<Longrightarrow> inv t"
  by (induction rule: rtranclp_induct) (auto intro: step_inv)

lemma path_rank: "(step ^^ n) s t \<Longrightarrow> inv s \<Longrightarrow> rank t + n \<le> rank s \<and> inv t"
proof (induction n arbitrary: t)
  case (Suc n)
  then obtain u where u: "(step ^^ n) s u" "step u t" by auto
  with Suc have "rank u + n \<le> rank s" "inv u" by blast+
  with u(2) step_rank [of u t] step_inv [of u t] show ?case by linarith
qed simp

lemma path_bound: "init s \<Longrightarrow> (step ^^ n) s t \<Longrightarrow> n \<le> rank s"
  using path_rank [of n s t] init_inv by force

lemma no_infinite_run: "inv (f 0) \<Longrightarrow> \<not> (\<forall>i. step (f i) (f (Suc i)))"
proof
  assume i0: "inv (f 0)" and all: "\<forall>i. step (f i) (f (Suc i))"
  have "(step ^^ n) (f 0) (f n)" for n by (induction n) (use all in auto)
  from path_rank [OF this [of "Suc (rank (f 0))"] i0] show False by simp
qed

end

end
