(* ===== verification/Schemas.thy ===== *)
theory Schemas
  imports Interfaces
begin

section \<open>Structured-output schemas\<close>

text \<open>
  Models \<open>agent/sweforge/schemas.py\<close>: the enumerations, the Pydantic models as records and their
  validators as functions into \<open>exn + 'a\<close>. A validator that raises \<open>ValueError\<close> returns \<open>Inl\<close>;
  a validator that repairs a field returns the repaired record. Constructing a model in the code
  runs its validators, so the records here are read together with the validation predicates.
\<close>

subsection \<open>Enumerations and their orders\<close>

datatype complexity = Trivial | Simple | Moderate | Complex

datatype risk_level = LowRisk | MediumRisk | HighRisk

datatype severity = Info | Minor | Major | Blocker

datatype agent_role =
    ImplementationRole | TestRole | ReviewerRole | SecurityRole
  | DocumentationRole | FrontendRole | BackendRole | DatabaseRole

datatype failure_category =
    FSyntax | FType | FDependency | FTestAssertion | FRuntime | FConfiguration
  | FEnvironment | FLint | FTimeout | FUnknown

fun role_text :: "agent_role \<Rightarrow> string" where
  "role_text ImplementationRole = ''implementation_agent''"
| "role_text TestRole = ''test_agent''"
| "role_text ReviewerRole = ''reviewer_agent''"
| "role_text SecurityRole = ''security_agent''"
| "role_text DocumentationRole = ''documentation_agent''"
| "role_text FrontendRole = ''frontend_agent''"
| "role_text BackendRole = ''backend_agent''"
| "role_text DatabaseRole = ''database_agent''"

fun failure_text :: "failure_category \<Rightarrow> string" where
  "failure_text FSyntax = ''syntax''"
| "failure_text FType = ''type''"
| "failure_text FDependency = ''dependency''"
| "failure_text FTestAssertion = ''test_assertion''"
| "failure_text FRuntime = ''runtime''"
| "failure_text FConfiguration = ''configuration''"
| "failure_text FEnvironment = ''environment''"
| "failure_text FLint = ''lint''"
| "failure_text FTimeout = ''timeout''"
| "failure_text FUnknown = ''unknown''"

fun level_text :: "risk_level \<Rightarrow> string" where
  "level_text LowRisk = ''LOW''"
| "level_text MediumRisk = ''MEDIUM''"
| "level_text HighRisk = ''HIGH''"

fun severity_text :: "severity \<Rightarrow> string" where
  "severity_text Info = ''info''"
| "severity_text Minor = ''minor''"
| "severity_text Major = ''major''"
| "severity_text Blocker = ''blocker''"

fun complexity_order :: "complexity \<Rightarrow> nat" where
  "complexity_order Trivial = 0"
| "complexity_order Simple = 1"
| "complexity_order Moderate = 2"
| "complexity_order Complex = 3"

fun severity_order :: "severity \<Rightarrow> nat" where
  "severity_order Info = 0"
| "severity_order Minor = 1"
| "severity_order Major = 2"
| "severity_order Blocker = 3"

fun risk_order :: "risk_level \<Rightarrow> nat" where
  "risk_order LowRisk = 0"
| "risk_order MediumRisk = 1"
| "risk_order HighRisk = 2"

lemma complexity_order_inject [simp]: "complexity_order a = complexity_order b \<longleftrightarrow> a = b"
  by (cases a; cases b) simp_all

lemma severity_order_inject [simp]: "severity_order a = severity_order b \<longleftrightarrow> a = b"
  by (cases a; cases b) simp_all

lemma risk_order_inject [simp]: "risk_order a = risk_order b \<longleftrightarrow> a = b"
  by (cases a; cases b) simp_all

lemma role_text_inject [simp]: "role_text a = role_text b \<longleftrightarrow> a = b"
  by (cases a; cases b) simp_all

text \<open>The orders of the code (\<open>COMPLEXITY_ORDER\<close>, \<open>SEVERITY_ORDER\<close>) as instances of \<open>linorder\<close>.\<close>

instantiation complexity :: linorder
begin

definition less_eq_complexity :: "complexity \<Rightarrow> complexity \<Rightarrow> bool" where
  "a \<le> b \<longleftrightarrow> complexity_order a \<le> complexity_order b"

definition less_complexity :: "complexity \<Rightarrow> complexity \<Rightarrow> bool" where
  "a < b \<longleftrightarrow> complexity_order a < complexity_order b"

instance
  by standard (auto simp: less_eq_complexity_def less_complexity_def)

end

instantiation severity :: linorder
begin

definition less_eq_severity :: "severity \<Rightarrow> severity \<Rightarrow> bool" where
  "a \<le> b \<longleftrightarrow> severity_order a \<le> severity_order b"

definition less_severity :: "severity \<Rightarrow> severity \<Rightarrow> bool" where
  "a < b \<longleftrightarrow> severity_order a < severity_order b"

instance
  by standard (auto simp: less_eq_severity_def less_severity_def)

end

instantiation risk_level :: linorder
begin

definition less_eq_risk_level :: "risk_level \<Rightarrow> risk_level \<Rightarrow> bool" where
  "a \<le> b \<longleftrightarrow> risk_order a \<le> risk_order b"

definition less_risk_level :: "risk_level \<Rightarrow> risk_level \<Rightarrow> bool" where
  "a < b \<longleftrightarrow> risk_order a < risk_order b"

instance
  by standard (auto simp: less_eq_risk_level_def less_risk_level_def)

end

lemmas order_defs =
  less_eq_complexity_def less_complexity_def less_eq_severity_def less_severity_def
  less_eq_risk_level_def less_risk_level_def

subsection \<open>Subtasks and plans\<close>

record subtask =
  st_id :: string
  st_description :: string
  st_agent :: agent_role
  st_target_files :: "string list"
  st_depends_on :: "string list"

record task_plan =
  pl_complexity :: complexity
  pl_relevant_files :: "string list"
  pl_subtasks :: "subtask list"
  pl_required_agents :: "agent_role list"
  pl_testing_strategy :: string
  pl_risk_level :: risk_level
  pl_rationale :: string

text \<open>\<open>repr\<close> of a string that needs no escapes.\<close>

definition quoted :: "string \<Rightarrow> string" where
  "quoted s = [CHR 0x27] @ s @ [CHR 0x27]"

definition value_error :: "string \<Rightarrow> exn" where
  "value_error msg = Raised ''ValueError'' msg"

definition validate_subtask :: "subtask \<Rightarrow> subtask result" where
  "validate_subtask s =
     (if strip (st_id s) = [] then Inl (value_error ''subtask id must not be blank'')
      else let s' = s\<lparr>st_id := strip (st_id s)\<rparr>
           in if st_id s' \<in> set (st_depends_on s')
              then Inl (value_error (''subtask '' @ quoted (st_id s') @ '' depends on itself''))
              else Inr s')"

definition plan_ids :: "task_plan \<Rightarrow> string list" where
  "plan_ids p = map st_id (pl_subtasks p)"

text \<open>
  Kahn's algorithm as the validator runs it: the number of distinct dependencies of each subtask,
  the list of its dependents, a stack \<open>ready\<close> popped at its end, and a count of popped subtasks.
\<close>

fun unknown_dependency :: "string list \<Rightarrow> subtask list \<Rightarrow> subtask option" where
  "unknown_dependency known [] = None"
| "unknown_dependency known (s # ss) =
     (if filter (\<lambda>d. d \<notin> set known) (st_depends_on s) \<noteq> [] then Some s
      else unknown_dependency known ss)"

definition initial_indegree :: "subtask list \<Rightarrow> (string, int) dict" where
  "initial_indegree ss =
     foldl (\<lambda>d s. dict_set (st_id s) (int (length (uniq (st_depends_on s)))) d) [] ss"

definition dependents_of :: "subtask list \<Rightarrow> string \<Rightarrow> string list" where
  "dependents_of ss d = map st_id (filter (\<lambda>s. d \<in> set (st_depends_on s)) ss)"

fun relax :: "string list \<Rightarrow> (string, int) dict \<Rightarrow> string list \<Rightarrow> (string, int) dict \<times> string list" where
  "relax [] indeg ready = (indeg, ready)"
| "relax (x # xs) indeg ready =
     (let k = dict_get indeg x 0 - 1
      in relax xs (dict_set x k indeg) (if k = 0 then ready @ [x] else ready))"

partial_function (option) kahn_loop ::
  "(string \<Rightarrow> string list) \<Rightarrow> (string, int) dict \<Rightarrow> string list \<Rightarrow> nat \<Rightarrow> nat option" where
  "kahn_loop dependents indeg ready seen =
     (if ready = [] then Some seen
      else (case relax (dependents (last ready)) indeg (butlast ready) of
              (indeg', ready') \<Rightarrow> kahn_loop dependents indeg' ready' (Suc seen)))"

declare kahn_loop.simps [code]

definition kahn_seen :: "subtask list \<Rightarrow> nat option" where
  "kahn_seen ss =
     (let indeg = initial_indegree ss
      in kahn_loop (dependents_of ss) indeg
           (map fst (filter (\<lambda>(i, d). d = 0) indeg)) 0)"

definition merged_agents :: "task_plan \<Rightarrow> agent_role list" where
  "merged_agents p =
     sort_key role_text (uniq (map st_agent (pl_subtasks p) @ pl_required_agents p))"

definition validate_plan :: "task_plan \<Rightarrow> task_plan result" where
  "validate_plan p =
     (if pl_subtasks p = [] then Inl (value_error ''List should have at least 1 item after validation'')
      else if \<not> distinct (plan_ids p) then Inl (value_error ''duplicate subtask ids in plan'')
      else case unknown_dependency (plan_ids p) (pl_subtasks p) of
        Some s \<Rightarrow> Inl (value_error (''subtask '' @ quoted (st_id s) @ '' depends on unknown ids''))
      | None \<Rightarrow>
          (if kahn_seen (pl_subtasks p) \<noteq> Some (length (pl_subtasks p))
           then Inl (value_error ''subtask dependency graph contains a cycle'')
           else Inr (p\<lparr>pl_required_agents := merged_agents p\<rparr>)))"

text \<open>\<open>TaskPlan.execution_layers\<close>: the subtasks whose dependencies are done, sorted by id, repeatedly.\<close>

definition by_id :: "subtask list \<Rightarrow> subtask list" where
  "by_id ss = map snd (foldl (\<lambda>d s. dict_set (st_id s) s d) [] ss)"

definition ready_layer :: "string list \<Rightarrow> subtask list \<Rightarrow> subtask list" where
  "ready_layer dn remaining =
     filter (\<lambda>s. list_all (\<lambda>d. d \<in> set dn) (st_depends_on s)) remaining"

function layers_from :: "string list \<Rightarrow> subtask list \<Rightarrow> subtask list list result" where
  "layers_from dn remaining =
     (if remaining = [] then Inr []
      else let layer = sort_key st_id (ready_layer dn remaining)
           in if layer = [] then Inl (value_error ''cycle detected while layering subtasks'')
              else (case layers_from (dn @ map st_id layer)
                           (filter (\<lambda>s. st_id s \<notin> set (map st_id layer)) remaining) of
                      Inl e \<Rightarrow> Inl e
                    | Inr ls \<Rightarrow> Inr (layer # ls)))"
  by pat_completeness auto
termination
proof (relation "measure (\<lambda>(d, r). length r)", goal_cases)
  case (2 d r layer)
  then obtain s where "s \<in> set (ready_layer d r)"
    by (metis list.set_intros(1) neq_Nil_conv set_sort)
  then have "s \<in> set r" "s \<in> set layer" using 2 by (auto simp: ready_layer_def)
  then show ?case by (auto intro!: length_filter_less)
qed simp

declare layers_from.simps [simp del]

definition execution_layers :: "task_plan \<Rightarrow> subtask list list result" where
  "execution_layers p = layers_from [] (by_id (pl_subtasks p))"

subsection \<open>Edits and verification results\<close>

record file_edit =
  fe_path :: string
  fe_content :: string
  fe_summary :: string

text \<open>\<open>FileEdit._safe_path\<close>: the stripped path, or an error for a blank, absolute or climbing path.\<close>

definition safe_path :: "string \<Rightarrow> string result" where
  "safe_path value =
     (let cleaned = strip value
      in if cleaned = [] then Inl (value_error ''edit path must not be blank'')
         else if starts_with ''/'' cleaned \<or> ''..'' \<in> set (split_on (CHR ''/'') cleaned)
         then Inl (value_error (''edit path must be repository-relative: '' @ quoted value))
         else Inr cleaned)"

definition validate_edit :: "file_edit \<Rightarrow> file_edit result" where
  "validate_edit e =
     (case safe_path (fe_path e) of Inl x \<Rightarrow> Inl x | Inr p \<Rightarrow> Inr (e\<lparr>fe_path := p\<rparr>))"

record implementation_result =
  ir_subtask_id :: string
  ir_agent :: agent_role
  ir_edits :: "file_edit list"
  ir_notes :: string
  ir_succeeded :: bool

definition touched_files :: "implementation_result \<Rightarrow> string list" where
  "touched_files r = map fe_path (ir_edits r)"

record verification_result =
  vr_passed :: bool
  vr_tests_run :: int
  vr_tests_passed :: int
  vr_tests_failed :: int
  vr_lint_passed :: "bool option"
  vr_typecheck_passed :: "bool option"
  vr_errors :: "string list"
  vr_commands :: "string list"
  vr_output :: string
  vr_duration :: rat

definition consistent_counts :: "verification_result \<Rightarrow> verification_result" where
  "consistent_counts v =
     (if vr_tests_passed v + vr_tests_failed v > vr_tests_run v
      then v\<lparr>vr_tests_run := vr_tests_passed v + vr_tests_failed v\<rparr> else v)"

definition show_int :: "int \<Rightarrow> string" where
  "show_int k = (if k < 0 then ''-'' @ show_pos (- k) else show_pos k)"

definition verification_summary :: "verification_result \<Rightarrow> string" where
  "verification_summary v =
     join '', ''
       ([''tests '' @ show_int (vr_tests_passed v) @ ''/'' @ show_int (vr_tests_run v)] @
        (case vr_lint_passed v of None \<Rightarrow> []
         | Some b \<Rightarrow> [''lint '' @ (if b then ''ok'' else ''fail'')]) @
        (case vr_typecheck_passed v of None \<Rightarrow> []
         | Some b \<Rightarrow> [''types '' @ (if b then ''ok'' else ''fail'')]))"

subsection \<open>Diagnoses and recovery attempts\<close>

record failure_diagnosis =
  fd_category :: failure_category
  fd_root_cause :: string
  fd_suspect_files :: "string list"
  fd_strategy :: string
  fd_confidence :: rat

definition valid_diagnosis :: "failure_diagnosis \<Rightarrow> bool" where
  "valid_diagnosis d \<longleftrightarrow> 0 \<le> fd_confidence d \<and> fd_confidence d \<le> 1"

record recovery_attempt =
  ra_number :: nat
  ra_category :: failure_category
  ra_diagnosis :: string
  ra_strategy :: string
  ra_edits :: "file_edit list"
  ra_verification :: "verification_result option"

definition valid_attempt :: "recovery_attempt \<Rightarrow> bool" where
  "valid_attempt a \<longleftrightarrow> 1 \<le> ra_number a"

definition attempt_succeeded :: "recovery_attempt \<Rightarrow> bool" where
  "attempt_succeeded a = (case ra_verification a of None \<Rightarrow> False | Some v \<Rightarrow> vr_passed v)"

subsection \<open>Reviews\<close>

record review_finding =
  rf_severity :: severity
  rf_category :: string
  rf_file :: "string option"
  rf_message :: string
  rf_recommendation :: string

record review_result =
  rr_approved :: bool
  rr_severity :: severity
  rr_findings :: "review_finding list"
  rr_recommendations :: "string list"
  rr_summary :: string

definition reconcile_review :: "review_result \<Rightarrow> review_result" where
  "reconcile_review r =
     (if rr_findings r = [] then r
      else let worst = Max (set (map rf_severity (rr_findings r)));
               r' = r\<lparr>rr_severity := worst\<rparr>
           in if worst \<ge> Major then r'\<lparr>rr_approved := False\<rparr> else r')"

definition blocking_findings :: "review_result \<Rightarrow> review_finding list" where
  "blocking_findings r = filter (\<lambda>f. rf_severity f \<ge> Major) (rr_findings r)"

subsection \<open>Security and risk\<close>

record risk_factor =
  rk_code :: string
  rk_weight :: int
  rk_detail :: string

record security_finding =
  sf_rule :: string
  sf_severity :: severity
  sf_file :: "string option"
  sf_line :: "nat option"
  sf_message :: string

record risk_score =
  rs_score :: int
  rs_level :: risk_level
  rs_factors :: "risk_factor list"
  rs_recommendation :: string

definition valid_score :: "risk_score \<Rightarrow> bool" where
  "valid_score s \<longleftrightarrow> 0 \<le> rs_score s \<and> rs_score s \<le> 100"

definition requires_human_approval :: "risk_score \<Rightarrow> bool" where
  "requires_human_approval s = (rs_level s = HighRisk)"

subsection \<open>Telemetry and experience\<close>

record model_call_record =
  mc_node :: string
  mc_role :: string
  mc_tier :: string
  mc_model :: string
  mc_latency :: rat
  mc_input_tokens :: "int option"
  mc_output_tokens :: "int option"
  mc_cost :: rat
  mc_ok :: bool
  mc_error :: "string option"

record execution_metrics =
  em_node_transitions :: "string list"
  em_model_calls :: int
  em_tool_calls :: int
  em_input_tokens :: int
  em_output_tokens :: int
  em_cost :: rat
  em_wall_time :: rat
  em_recovery_attempts :: int
  em_review_rejections :: int
  em_security_gate :: bool
  em_verification_runs :: int

definition empty_metrics :: execution_metrics where
  "empty_metrics =
     \<lparr>em_node_transitions = [], em_model_calls = 0, em_tool_calls = 0, em_input_tokens = 0,
      em_output_tokens = 0, em_cost = 0, em_wall_time = 0, em_recovery_attempts = 0,
      em_review_rejections = 0, em_security_gate = False, em_verification_runs = 0\<rparr>"

record experience_record =
  xr_task :: string
  xr_repository :: string
  xr_task_type :: string
  xr_complexity :: complexity
  xr_languages :: "string list"
  xr_strategy :: string
  xr_relevant_files :: "string list"
  xr_models_used :: "string list"
  xr_tools_used :: "string list"
  xr_failure_categories :: "failure_category list"
  xr_recovery_strategies :: "string list"
  xr_final_status :: string
  xr_recovery_attempts :: nat
  xr_wall_time :: rat
  xr_lesson :: string

subsection \<open>Facts about the validators\<close>

lemma validate_subtask_result:
  "validate_subtask s = Inr t \<Longrightarrow>
     st_id t = strip (st_id s) \<and> st_id t \<noteq> [] \<and> st_id t \<notin> set (st_depends_on t)"
  by (auto simp: validate_subtask_def Let_def split: if_splits)

lemma safe_path_result:
  "safe_path v = Inr p \<Longrightarrow>
     p = strip v \<and> p \<noteq> [] \<and> \<not> starts_with ''/'' p \<and> ''..'' \<notin> set (split_on (CHR ''/'') p)"
  by (auto simp: safe_path_def Let_def split: if_splits)

lemma consistent_counts_le:
  "vr_tests_passed (consistent_counts v) + vr_tests_failed (consistent_counts v)
     \<le> vr_tests_run (consistent_counts v)"
  by (simp add: consistent_counts_def)

lemma consistent_counts_idem: "consistent_counts (consistent_counts v) = consistent_counts v"
  by (simp add: consistent_counts_def)

lemma reconcile_findings [simp]: "rr_findings (reconcile_review r) = rr_findings r"
  by (simp add: reconcile_review_def Let_def)

lemma reconcile_approved:
  assumes "rr_approved (reconcile_review r)"
  shows "\<forall>f \<in> set (rr_findings r). rf_severity f < Major"
proof (cases "rr_findings r = []")
  case False
  let ?S = "set (map rf_severity (rr_findings r))"
  from assms False have "\<not> Major \<le> Max ?S"
    by (auto simp: reconcile_review_def Let_def simp del: Max_ge_iff split: if_splits)
  then have "Max ?S < Major" by (simp only: not_le)
  moreover have "rf_severity f \<le> Max ?S" if "f \<in> set (rr_findings r)" for f
    using that by (intro Max_ge) auto
  ultimately show ?thesis by (blast intro: le_less_trans)
qed simp

lemma reconcile_severity:
  "rr_findings r \<noteq> [] \<Longrightarrow> rr_severity (reconcile_review r) = Max (set (map rf_severity (rr_findings r)))"
  by (simp add: reconcile_review_def Let_def)

lemma reconcile_idem: "reconcile_review (reconcile_review r) = reconcile_review r"
  by (simp add: reconcile_review_def Let_def)

subsection \<open>Properties\<close>

text \<open>After its validator has run, a review that is approved has no finding of severity major or
  blocker, and the recorded severity of a review with findings is the worst of them.\<close>

theorem approved_review_has_no_blocking_finding:
  assumes "rr_approved (reconcile_review r)"
  shows "blocking_findings (reconcile_review r) = [] \<and>
         (\<forall>f \<in> set (rr_findings r). rf_severity f \<le> rr_severity (reconcile_review r) \<and>
            rr_severity (reconcile_review r) < Major)"
proof -
  have low: "\<forall>f \<in> set (rr_findings r). rf_severity f < Major" by (rule reconcile_approved [OF assms])
  then have "blocking_findings (reconcile_review r) = []"
    by (auto simp: blocking_findings_def filter_empty_conv not_le)
  moreover have "rf_severity f \<le> rr_severity (reconcile_review r) \<and> rr_severity (reconcile_review r) < Major"
    if f: "f \<in> set (rr_findings r)" for f
  proof -
    from f have ne: "rr_findings r \<noteq> []" by auto
    show ?thesis unfolding reconcile_severity [OF ne] using f ne low by auto
  qed
  ultimately show ?thesis by blast
qed

definition minor_review :: review_result where
  "minor_review =
     \<lparr>rr_approved = True, rr_severity = Info,
      rr_findings = [\<lparr>rf_severity = Minor, rf_category = ''style'', rf_file = None,
                      rf_message = ''long line'', rf_recommendation = []\<rparr>],
      rr_recommendations = [], rr_summary = []\<rparr>"

theorem approved_review_has_no_blocking_finding_witness:
  "rr_approved (reconcile_review minor_review) \<and> blocking_findings (reconcile_review minor_review) = []"
proof -
  have h: "rr_approved (reconcile_review minor_review)"
    by (simp add: reconcile_review_def minor_review_def Let_def order_defs)
  then show ?thesis using approved_review_has_no_blocking_finding [OF h] by simp
qed

text \<open>The reconciliation looks at the findings only: a verdict that says approved, has severity
  blocker and lists no finding passes the validator and stays approved.\<close>

lemma approved_blocker_without_findings:
  "\<exists>r. rr_approved (reconcile_review r) \<and> rr_severity (reconcile_review r) = Blocker"
  by (rule exI [of _ "\<lparr>rr_approved = True, rr_severity = Blocker, rr_findings = [],
        rr_recommendations = [], rr_summary = []\<rparr>"]) (simp add: reconcile_review_def)

text \<open>An edit path that the schema accepts is relative and never climbs: it is not blank, does not
  start with a slash, and none of its components is the parent directory.\<close>

theorem accepted_edit_path_is_relative:
  assumes "validate_edit e = Inr e'"
  shows "fe_path e' = strip (fe_path e) \<and> fe_path e' \<noteq> [] \<and> \<not> starts_with ''/'' (fe_path e') \<and>
         ''..'' \<notin> set (split_on (CHR ''/'') (fe_path e')) \<and> fe_content e' = fe_content e"
proof -
  from assms obtain p where p: "safe_path (fe_path e) = Inr p" "e' = e\<lparr>fe_path := p\<rparr>"
    by (auto simp: validate_edit_def split: sum.splits)
  show ?thesis using safe_path_result [OF p(1)] by (auto simp: p(2))
qed

theorem accepted_edit_path_is_relative_witness:
  "\<exists>e'. validate_edit \<lparr>fe_path = '' src/a.py '', fe_content = ''x'', fe_summary = []\<rparr> = Inr e' \<and>
     \<not> starts_with ''/'' (fe_path e')"
proof -
  have h: "validate_edit \<lparr>fe_path = '' src/a.py '', fe_content = ''x'', fe_summary = []\<rparr> =
      Inr \<lparr>fe_path = ''src/a.py'', fe_content = ''x'', fe_summary = []\<rparr>"
    by code_simp
  show ?thesis using accepted_edit_path_is_relative [OF h] h by blast
qed

end
