(* ===== verification/Plan_Dag.thy ===== *)
theory Plan_Dag
  imports Schemas "HOL-Library.Multiset"
begin

section \<open>Validated plans are executable: Kahn's algorithm and the layers\<close>

text \<open>
  The proofs about \<open>TaskPlan._validate_dag\<close> and \<open>TaskPlan.execution_layers\<close>: the loop of the
  validator always ends, its count equals the number of subtasks exactly when the dependency
  relation of the plan is acyclic, and a plan it accepts is layered without an error, every
  subtask in exactly one layer and after everything it depends on.
\<close>

definition deps_of :: "subtask list \<Rightarrow> string \<Rightarrow> string set" where
  "deps_of ss x = (\<Union>s \<in> {s \<in> set ss. st_id s = x}. set (st_depends_on s))"

definition dep_rel :: "subtask list \<Rightarrow> (string \<times> string) set" where
  "dep_rel ss = {(d, st_id s) | d s. s \<in> set ss \<and> d \<in> set (st_depends_on s)}"

definition plan_ok :: "subtask list \<Rightarrow> bool" where
  "plan_ok ss \<longleftrightarrow> distinct (map st_id ss) \<and> (\<forall>s \<in> set ss. set (st_depends_on s) \<subseteq> st_id ` set ss)"

definition topo :: "subtask list \<Rightarrow> string list \<Rightarrow> bool" where
  "topo ss P \<longleftrightarrow> (\<forall>i < length P. deps_of ss (P ! i) \<subseteq> set (take i P))"

lemma deps_of_mem: "distinct (map st_id ss) \<Longrightarrow> s \<in> set ss \<Longrightarrow> deps_of ss (st_id s) = set (st_depends_on s)"
  by (auto simp: deps_of_def distinct_map inj_on_def)

lemma deps_of_finite [simp]: "finite (deps_of ss x)"
  by (simp add: deps_of_def)

lemma dep_rel_deps: "(d, x) \<in> dep_rel ss \<longleftrightarrow> d \<in> deps_of ss x"
  by (auto simp: dep_rel_def deps_of_def)

lemma unknown_dependency_None:
  "unknown_dependency known ss = None \<longleftrightarrow> (\<forall>s \<in> set ss. set (st_depends_on s) \<subseteq> set known)"
  by (induction known ss rule: unknown_dependency.induct) (auto simp: filter_empty_conv)

lemma update_new: "k \<notin> fst ` set d \<Longrightarrow> AList.update k v d = d @ [(k, v)]"
  by (induction d) auto

lemma foldl_dict_new:
  "distinct (map f ss) \<Longrightarrow> fst ` set d \<inter> f ` set ss = {} \<Longrightarrow>
     foldl (\<lambda>d s. dict_set (f s) (g s) d) d ss = d @ map (\<lambda>s. (f s, g s)) ss"
proof (induction ss arbitrary: d)
  case (Cons s ss)
  from Cons.prems have "f s \<notin> fst ` set d" by auto
  then have "dict_set (f s) (g s) d = d @ [(f s, g s)]" by (simp add: dict_set_def update_new)
  moreover from Cons.prems have "fst ` set (d @ [(f s, g s)]) \<inter> f ` set ss = {}" by auto
  ultimately show ?case using Cons.IH [of "d @ [(f s, g s)]"] Cons.prems by simp
qed simp

lemma initial_indegree_map:
  "distinct (map st_id ss) \<Longrightarrow>
     initial_indegree ss = map (\<lambda>s. (st_id s, int (card (set (st_depends_on s))))) ss"
  unfolding initial_indegree_def
  by (subst foldl_dict_new) (auto simp: distinct_card [symmetric])

lemma by_id_distinct: "distinct (map st_id ss) \<Longrightarrow> by_id ss = ss"
  unfolding by_id_def by (subst foldl_dict_new) (auto simp: comp_def)

lemma initial_indegree_get:
  assumes "distinct (map st_id ss)" and "x \<in> st_id ` set ss"
  shows "dict_get (initial_indegree ss) x 0 = int (card (deps_of ss x))"
proof -
  from assms(2) obtain s where s: "s \<in> set ss" "x = st_id s" by auto
  have "map_of (initial_indegree ss) x = Some (int (card (set (st_depends_on s))))"
    using assms s by (subst map_of_eq_Some_iff) (auto simp: initial_indegree_map comp_def)
  with s assms show ?thesis by (simp add: dict_get_def deps_of_mem)
qed

lemma relax_result:
  "distinct xs \<Longrightarrow> relax xs indeg ready = (indeg', ready') \<Longrightarrow>
     (\<forall>y. dict_get indeg' y 0 = dict_get indeg y 0 - (if y \<in> set xs then 1 else 0)) \<and>
     ready' = ready @ filter (\<lambda>x. dict_get indeg x 0 = 1) xs"
proof (induction xs indeg ready rule: relax.induct)
  case (2 x xs indeg ready)
  let ?d = "dict_set x (dict_get indeg x 0 - 1) indeg"
  have "\<forall>y. dict_get indeg' y 0 = dict_get ?d y 0 - (if y \<in> set xs then 1 else 0)"
    and r: "ready' = (if dict_get indeg x 0 - 1 = 0 then ready @ [x] else ready)
                 @ filter (\<lambda>y. dict_get ?d y 0 = 1) xs"
    using 2 by (auto simp: Let_def)
  moreover have "filter (\<lambda>y. dict_get ?d y 0 = 1) xs = filter (\<lambda>y. dict_get indeg y 0 = 1) xs"
    using "2.prems"(1) by (intro filter_cong) (auto simp: dict_get_set)
  ultimately show ?case using "2.prems"(1) by (auto simp: dict_get_set)
qed simp

subsection \<open>The invariant of the loop\<close>

definition kahn_inv :: "subtask list \<Rightarrow> string list \<Rightarrow> string list \<Rightarrow> (string, int) dict \<Rightarrow> bool" where
  "kahn_inv ss P ready indeg \<longleftrightarrow>
     distinct P \<and> set P \<subseteq> st_id ` set ss \<and> distinct ready \<and> topo ss P \<and>
     set ready = {x \<in> st_id ` set ss. x \<notin> set P \<and> deps_of ss x \<subseteq> set P} \<and>
     (\<forall>x \<in> st_id ` set ss. dict_get indeg x 0 = int (card (deps_of ss x - set P)))"

lemma kahn_inv_init:
  assumes "distinct (map st_id ss)"
  shows "kahn_inv ss [] (map fst (filter (\<lambda>(i, d). d = 0) (initial_indegree ss))) (initial_indegree ss)"
proof -
  let ?r = "map fst (filter (\<lambda>(i, d). d = 0) (initial_indegree ss))"
  have "?r = map st_id (filter (\<lambda>s. set (st_depends_on s) = {}) ss)"
    by (simp add: initial_indegree_map [OF assms] filter_map comp_def card_eq_0_iff)
  moreover have "distinct (map st_id (filter (\<lambda>s. set (st_depends_on s) = {}) ss))"
    using assms by (simp add: distinct_map_filter)
  ultimately show ?thesis
    unfolding kahn_inv_def topo_def using assms deps_of_mem [OF assms] initial_indegree_get [OF assms]
    by auto
qed

lemma topo_snoc: "topo ss P \<Longrightarrow> deps_of ss c \<subseteq> set P \<Longrightarrow> topo ss (P @ [c])"
  by (auto simp: topo_def nth_append less_Suc_eq)

lemma dependents_of_mem:
  assumes "distinct (map st_id ss)"
  shows "distinct (dependents_of ss c)"
    and "set (dependents_of ss c) = {x \<in> st_id ` set ss. c \<in> deps_of ss x}"
  using assms deps_of_mem [OF assms] by (auto simp: dependents_of_def distinct_map_filter)

lemma topo_closed: "topo ss P \<Longrightarrow> x \<in> set P \<Longrightarrow> deps_of ss x \<subseteq> set P"
  unfolding topo_def in_set_conv_nth by (metis set_take_subset subset_trans)

lemma butlast_distinct: "distinct xs \<Longrightarrow> xs \<noteq> [] \<Longrightarrow> set (butlast xs) = set xs - {last xs}"
  by (induction xs rule: rev_induct) auto

lemma kahn_inv_step:
  assumes d: "distinct (map st_id ss)" and inv: "kahn_inv ss P ready indeg" and ne: "ready \<noteq> []"
    and rel: "relax (dependents_of ss (last ready)) indeg (butlast ready) = (indeg', ready')"
  shows "kahn_inv ss (P @ [last ready]) ready' indeg'"
proof -
  let ?c = "last ready" and ?I = "st_id ` set ss"
  have c: "?c \<in> ?I" "?c \<notin> set P" "deps_of ss ?c \<subseteq> set P"
    using inv last_in_set [OF ne] unfolding kahn_inv_def by blast+
  have get: "dict_get indeg x 0 = int (card (deps_of ss x - set P))" if "x \<in> ?I" for x
    using inv that unfolding kahn_inv_def by blast
  note dep = dependents_of_mem [OF d, of ?c]
  note out = relax_result [OF dep(1) rel]
  have get': "dict_get indeg' x 0 = int (card (deps_of ss x - set (P @ [?c])))" if x: "x \<in> ?I" for x
  proof (cases "?c \<in> deps_of ss x")
    case True
    with c(2) have "deps_of ss x - set (P @ [?c]) = (deps_of ss x - set P) - {?c}"
      and "?c \<in> deps_of ss x - set P" by auto
    moreover from this(2) have "0 < card (deps_of ss x - set P)" by (auto simp: card_gt_0_iff)
    ultimately show ?thesis using out get [OF x] True x dep(2) by (simp add: of_nat_diff)
  next
    case False
    then have "deps_of ss x - set (P @ [?c]) = deps_of ss x - set P" by auto
    with out get [OF x] False dep(2) show ?thesis by simp
  qed
  have one: "dict_get indeg x 0 = 1 \<longleftrightarrow> deps_of ss x \<subseteq> set (P @ [?c])" if "x \<in> set (dependents_of ss ?c)" for x
  proof -
    from that dep(2) have x: "x \<in> ?I" "?c \<in> deps_of ss x" by auto
    with get' [OF x(1)] out that have "dict_get indeg x 0 - 1 = int (card (deps_of ss x - set (P @ [?c])))"
      by simp
    then have "dict_get indeg x 0 = 1 \<longleftrightarrow> card (deps_of ss x - set (P @ [?c])) = 0" by linarith
    then show ?thesis by (simp only: card_eq_0_iff) auto
  qed
  have rd: "set (butlast ready) = set ready - {?c}" "distinct (butlast ready)"
    using inv ne butlast_distinct unfolding kahn_inv_def by (blast, auto intro: distinct_butlast)
  have old: "set ready = {x \<in> ?I. x \<notin> set P \<and> deps_of ss x \<subseteq> set P}" and topo: "topo ss P"
    and P: "distinct P" "set P \<subseteq> ?I" using inv unfolding kahn_inv_def by blast+
  have r': "set ready' = (set ready - {?c}) \<union>
      {x \<in> ?I. ?c \<in> deps_of ss x \<and> deps_of ss x \<subseteq> set (P @ [?c])}"
    using out one dep(2) rd(1) by auto
  also have "\<dots> = {x \<in> ?I. x \<notin> set (P @ [?c]) \<and> deps_of ss x \<subseteq> set (P @ [?c])}"
    unfolding old using c topo_closed [OF topo] by auto
  finally have sr: "set ready' = {x \<in> ?I. x \<notin> set (P @ [?c]) \<and> deps_of ss x \<subseteq> set (P @ [?c])}" .
  have "distinct ready'"
    using out dep rd c(2) unfolding old by auto
  with sr c P get' topo_snoc [OF topo c(3)] show ?thesis unfolding kahn_inv_def by simp
qed

subsection \<open>The loop ends, and what its count says\<close>

lemma kahn_loop_result:
  assumes d: "distinct (map st_id ss)" and inv: "kahn_inv ss P ready indeg" and n: "n = length P"
  shows "\<exists>Q indeg'. kahn_loop (dependents_of ss) indeg ready n = Some (length Q) \<and>
           kahn_inv ss Q [] indeg'"
  using inv n
proof (induction "card (st_id ` set ss - set P)" arbitrary: P ready indeg n rule: less_induct)
  case less
  show ?case
  proof (cases "ready = []")
    case True
    with less.prems show ?thesis by (subst kahn_loop.simps) auto
  next
    case False
    obtain indeg' ready' where r: "relax (dependents_of ss (last ready)) indeg (butlast ready) = (indeg', ready')"
      by (cases "relax (dependents_of ss (last ready)) indeg (butlast ready)") auto
    have inv': "kahn_inv ss (P @ [last ready]) ready' indeg'"
      by (rule kahn_inv_step [OF d less.prems(1) False r])
    have "last ready \<in> st_id ` set ss - set P"
      using last_in_set [OF False] less.prems(1) unfolding kahn_inv_def by blast
    then have "card (st_id ` set ss - set (P @ [last ready])) < card (st_id ` set ss - set P)"
      by (intro psubset_card_mono) auto
    from less.hyps [OF this inv'] less.prems(2)
    obtain Q i where "kahn_loop (dependents_of ss) indeg' ready' (Suc n) = Some (length Q)" "kahn_inv ss Q [] i"
      by auto
    with False r show ?thesis by (subst kahn_loop.simps) auto
  qed
qed

lemma kahn_seen_result:
  assumes "distinct (map st_id ss)"
  shows "\<exists>Q indeg. kahn_seen ss = Some (length Q) \<and> kahn_inv ss Q [] indeg"
  unfolding kahn_seen_def Let_def
  by (rule kahn_loop_result [OF assms kahn_inv_init [OF assms]]) simp

lemma topo_acyclic:
  assumes t: "topo ss P" and dP: "distinct P" and all: "st_id ` set ss \<subseteq> set P"
  shows "acyclic (dep_rel ss)"
proof -
  define pos where "pos x = (LEAST i. i < length P \<and> P ! i = x)" for x
  have pos: "pos x < length P \<and> P ! pos x = x" if "x \<in> set P" for x
    using that unfolding pos_def in_set_conv_nth by (auto intro: LeastI2)
  have "dep_rel ss \<subseteq> measure pos"
  proof
    fix e assume "e \<in> dep_rel ss"
    then obtain d x where e: "e = (d, x)" "d \<in> deps_of ss x" "x \<in> st_id ` set ss"
      by (auto simp: dep_rel_def deps_of_def)
    with all have x: "x \<in> set P" by blast
    from pos [OF x] t have "deps_of ss x \<subseteq> set (take (pos x) P)" unfolding topo_def by metis
    with e(2) have "d \<in> set (take (pos x) P)" by blast
    then obtain i where i: "i < pos x" "i < length P" "P ! i = d"
      by (auto simp: in_set_conv_nth)
    then have "d \<in> set P" by auto
    with pos [OF this] i have "pos d = i"
      using nth_eq_iff_index_eq [OF dP, of "pos d" i] by simp
    with i e show "e \<in> measure pos" by simp
  qed
  then show ?thesis by (meson acyclic_subset wf_acyclic wf_measure)
qed

lemma kahn_complete_iff_acyclic:
  assumes ok: "plan_ok ss"
  shows "kahn_seen ss = Some (length ss) \<longleftrightarrow> acyclic (dep_rel ss)"
proof -
  from ok have d: "distinct (map st_id ss)" by (simp add: plan_ok_def)
  obtain Q i where Q: "kahn_seen ss = Some (length Q)" "kahn_inv ss Q [] i"
    using kahn_seen_result [OF d] by blast
  let ?I = "st_id ` set ss"
  have Qs: "distinct Q" "set Q \<subseteq> ?I" "topo ss Q" using Q(2) by (auto simp: kahn_inv_def)
  have card: "card ?I = length ss" using d by (metis distinct_card length_map list.set_map)
  have stuck: "\<not> deps_of ss x \<subseteq> set Q" if "x \<in> ?I - set Q" for x
    using Q(2) that unfolding kahn_inv_def by auto
  show ?thesis
  proof
    assume "kahn_seen ss = Some (length ss)"
    with Q Qs card have "set Q = ?I" by (metis card_subset_eq distinct_card finite_imageI finite_set option.inject)
    with Qs show "acyclic (dep_rel ss)" using topo_acyclic by blast
  next
    assume ac: "acyclic (dep_rel ss)"
    have "finite (dep_rel ss)"
      by (rule finite_subset [of _ "(\<Union>s \<in> set ss. set (st_depends_on s)) \<times> ?I"]) (auto simp: dep_rel_def)
    then have wf: "wf (dep_rel ss)" using ac by (rule finite_acyclic_wf)
    have "?I - set Q = {}"
    proof (rule ccontr)
      assume "?I - set Q \<noteq> {}"
      with wf obtain x where x: "x \<in> ?I - set Q" and min: "\<And>y. (y, x) \<in> dep_rel ss \<Longrightarrow> y \<notin> ?I - set Q"
        by (metis wf_eq_minimal all_not_in_conv)
      have "deps_of ss x \<subseteq> ?I" using ok unfolding plan_ok_def deps_of_def by blast
      with min have "deps_of ss x \<subseteq> set Q" by (auto simp: dep_rel_deps)
      with stuck [OF x] show False ..
    qed
    with Qs have "set Q = ?I" by blast
    with Q Qs card show "kahn_seen ss = Some (length ss)" by (metis distinct_card)
  qed
qed

subsection \<open>Validation\<close>

lemma validate_plan_ok:
  assumes "validate_plan p = Inr q"
  shows "plan_ok (pl_subtasks p) \<and> acyclic (dep_rel (pl_subtasks p)) \<and> pl_subtasks p \<noteq> [] \<and>
         q = p\<lparr>pl_required_agents := merged_agents p\<rparr>"
proof -
  from assms have u: "unknown_dependency (plan_ids p) (pl_subtasks p) = None"
    and d: "distinct (plan_ids p)" and k: "kahn_seen (pl_subtasks p) = Some (length (pl_subtasks p))"
    and r: "pl_subtasks p \<noteq> []" "q = p\<lparr>pl_required_agents := merged_agents p\<rparr>"
    by (auto simp: validate_plan_def split: if_splits option.splits)
  from u d have ok: "plan_ok (pl_subtasks p)"
    by (auto simp: plan_ok_def plan_ids_def unknown_dependency_None)
  with k have "acyclic (dep_rel (pl_subtasks p))" using kahn_complete_iff_acyclic by blast
  with ok r show ?thesis by blast
qed

lemma validate_plan_iff:
  "(\<exists>q. validate_plan p = Inr q) \<longleftrightarrow>
     pl_subtasks p \<noteq> [] \<and> plan_ok (pl_subtasks p) \<and> acyclic (dep_rel (pl_subtasks p))"
proof
  assume "\<exists>q. validate_plan p = Inr q"
  then show "pl_subtasks p \<noteq> [] \<and> plan_ok (pl_subtasks p) \<and> acyclic (dep_rel (pl_subtasks p))"
    using validate_plan_ok by blast
next
  assume r: "pl_subtasks p \<noteq> [] \<and> plan_ok (pl_subtasks p) \<and> acyclic (dep_rel (pl_subtasks p))"
  then have "unknown_dependency (plan_ids p) (pl_subtasks p) = None" "distinct (plan_ids p)"
    by (auto simp: plan_ok_def plan_ids_def unknown_dependency_None)
  with r show "\<exists>q. validate_plan p = Inr q"
    by (simp add: validate_plan_def kahn_complete_iff_acyclic)
qed

subsection \<open>Layers\<close>

fun layered :: "string list \<Rightarrow> subtask list list \<Rightarrow> bool" where
  "layered dn [] = True"
| "layered dn (l # ls) =
     (l \<noteq> [] \<and> sorted (map st_id l) \<and> (\<forall>s \<in> set l. set (st_depends_on s) \<subseteq> set dn) \<and>
      layered (dn @ map st_id l) ls)"

lemma layers_from_layered:
  "distinct (map st_id rem) \<Longrightarrow> layers_from dn rem = Inr ls \<Longrightarrow>
     layered dn ls \<and> mset (concat ls) = mset rem"
proof (induction dn rem arbitrary: ls rule: layers_from.induct)
  case (1 dn rem)
  show ?case
  proof (cases "rem = []")
    case True
    with "1.prems" show ?thesis by (subst (asm) layers_from.simps) simp
  next
    case False
    define L where "L = sort_key st_id (ready_layer dn rem)"
    define R where "R = filter (\<lambda>s. st_id s \<notin> set (map st_id L)) rem"
    from "1.prems"(2) False obtain ls' where L: "L \<noteq> []" and ls: "ls = L # ls'"
        and rec: "layers_from (dn @ map st_id L) R = Inr ls'"
      unfolding L_def R_def
      by (subst (asm) layers_from.simps) (auto simp: Let_def split: if_splits sum.splits)
    have dR: "distinct (map st_id R)"
      using "1.prems"(1) by (simp add: R_def distinct_map_filter)
    have IH: "layered (dn @ map st_id L) ls' \<and> mset (concat ls') = mset R"
      using "1.IH" [OF False L_def L] dR rec unfolding R_def by blast
    have mL: "mset L = mset (ready_layer dn rem)" by (simp add: L_def)
    have "R = filter (\<lambda>s. \<not> list_all (\<lambda>d. d \<in> set dn) (st_depends_on s)) rem"
      unfolding R_def
    proof (rule filter_cong [OF refl])
      fix s assume "s \<in> set rem"
      with "1.prems"(1) show "(st_id s \<notin> set (map st_id L)) = (\<not> list_all (\<lambda>d. d \<in> set dn) (st_depends_on s))"
        by (auto simp: L_def ready_layer_def distinct_map inj_on_def)
    qed
    then have "mset rem = mset L + mset R"
      by (simp add: mL ready_layer_def multiset_partition)
    with IH L show ?thesis
      by (auto simp: ls L_def ready_layer_def list_all_iff)
  qed
qed

lemma layers_from_returns:
  assumes wf: "wf (dep_rel ss)" and ok: "plan_ok ss"
  shows "set rem \<subseteq> set ss \<Longrightarrow> set dn = st_id ` set ss - st_id ` set rem \<Longrightarrow>
           \<exists>ls. layers_from dn rem = Inr ls"
proof (induction dn rem rule: layers_from.induct)
  case (1 dn rem)
  show ?case
  proof (cases "rem = []")
    case False
    define L where "L = sort_key st_id (ready_layer dn rem)"
    define R where "R = filter (\<lambda>s. st_id s \<notin> set (map st_id L)) rem"
    from False have "st_id ` set rem \<noteq> {}" by simp
    with wf obtain x where x: "x \<in> st_id ` set rem" and min: "\<And>y. (y, x) \<in> dep_rel ss \<Longrightarrow> y \<notin> st_id ` set rem"
      by (metis wf_eq_minimal all_not_in_conv)
    then obtain s where s: "s \<in> set rem" "x = st_id s" by auto
    have "set (st_depends_on s) \<subseteq> set dn"
      using min s "1.prems" ok unfolding plan_ok_def dep_rel_def by blast
    with s have "s \<in> set L" by (auto simp: L_def ready_layer_def list_all_iff)
    then have L: "L \<noteq> []" by auto
    have LR: "set L \<subseteq> set rem" by (auto simp: L_def ready_layer_def)
    have "st_id ` set R = st_id ` set rem - st_id ` set L" by (auto simp: R_def)
    with LR "1.prems" have "set (dn @ map st_id L) = st_id ` set ss - st_id ` set R" by auto
    moreover have "set R \<subseteq> set ss" using "1.prems"(1) by (auto simp: R_def)
    ultimately obtain ls where "layers_from (dn @ map st_id L) R = Inr ls"
      using "1.IH" [OF False L_def L] unfolding R_def by blast
    with False L show ?thesis
      unfolding L_def R_def by (subst layers_from.simps) (simp add: Let_def)
  qed (subst layers_from.simps, simp)
qed

lemma layered_earlier:
  "layered dn ls \<Longrightarrow> i < length ls \<Longrightarrow> s \<in> set (ls ! i) \<Longrightarrow> d \<in> set (st_depends_on s) \<Longrightarrow>
     d \<in> set dn \<or> (\<exists>j < i. d \<in> st_id ` set (ls ! j))"
proof (induction ls arbitrary: dn i)
  case (Cons l ls)
  show ?case
  proof (cases i)
    case 0
    with Cons.prems show ?thesis by auto
  next
    case (Suc k)
    with Cons.prems have "d \<in> set (dn @ map st_id l) \<or> (\<exists>j < k. d \<in> st_id ` set (ls ! j))"
      by (intro Cons.IH) auto
    with Suc show ?thesis
      by (metis Suc_less_eq Un_iff nth_Cons_0 nth_Cons_Suc set_append set_map zero_less_Suc)
  qed
qed simp

lemma layered_shape: "layered dn ls \<Longrightarrow> \<forall>l \<in> set ls. l \<noteq> [] \<and> sorted (map st_id l)"
  by (induction dn ls rule: layered.induct) auto

lemma accepted_layers:
  assumes "validate_plan p = Inr q"
  shows "\<exists>ls. execution_layers q = Inr ls \<and> layered [] ls \<and> mset (concat ls) = mset (pl_subtasks p)"
proof -
  let ?ss = "pl_subtasks p"
  from validate_plan_ok [OF assms] have ok: "plan_ok ?ss" and ac: "acyclic (dep_rel ?ss)"
    and q: "pl_subtasks q = ?ss" by auto
  have "finite (dep_rel ?ss)"
    by (rule finite_subset [of _ "(\<Union>s \<in> set ?ss. set (st_depends_on s)) \<times> st_id ` set ?ss"])
      (auto simp: dep_rel_def)
  then have "wf (dep_rel ?ss)" using ac by (rule finite_acyclic_wf)
  from layers_from_returns [OF this ok, of ?ss "[]"]
  obtain ls where ls: "layers_from [] ?ss = Inr ls" by auto
  moreover from ok have d: "distinct (map st_id ?ss)" by (simp add: plan_ok_def)
  ultimately show ?thesis
    using layers_from_layered [OF d ls] by (auto simp: execution_layers_def q by_id_distinct)
qed

subsection \<open>Properties\<close>

text \<open>C11. The plan validator accepts exactly the executable plans: at least one subtask, pairwise
  distinct ids, every declared dependency the id of some subtask, and no cycle in the dependency
  relation. In particular the stack-based loop of Kahn's algorithm ends on every plan, and it
  rejects every cycle and nothing else.\<close>

theorem plan_accepted_iff_executable:
  "(\<exists>q. validate_plan p = Inr q) \<longleftrightarrow>
     pl_subtasks p \<noteq> [] \<and> distinct (map st_id (pl_subtasks p)) \<and>
     (\<Union>s \<in> set (pl_subtasks p). set (st_depends_on s)) \<subseteq> st_id ` set (pl_subtasks p) \<and>
     acyclic {(d, st_id s) | d s. s \<in> set (pl_subtasks p) \<and> d \<in> set (st_depends_on s)}"
  unfolding validate_plan_iff plan_ok_def dep_rel_def by blast

text \<open>Layering a validated plan never raises. The layers hold every subtask exactly once, no layer
  is empty, each is sorted by id, and whatever a subtask depends on lies in a strictly earlier
  layer, so the subtasks of one layer may run concurrently.\<close>

theorem validated_plan_layers:
  assumes "validate_plan p = Inr q"
  shows "\<exists>ls. execution_layers q = Inr ls \<and>
           mset (concat ls) = mset (pl_subtasks p) \<and>
           (\<forall>l \<in> set ls. l \<noteq> [] \<and> sorted (map st_id l)) \<and>
           (\<forall>i < length ls. \<forall>s \<in> set (ls ! i). \<forall>d \<in> set (st_depends_on s).
              \<exists>j < i. \<exists>t \<in> set (ls ! j). st_id t = d)"
proof -
  obtain ls where ls: "execution_layers q = Inr ls" "layered [] ls"
      "mset (concat ls) = mset (pl_subtasks p)"
    using accepted_layers [OF assms] by blast
  have "\<forall>l \<in> set ls. l \<noteq> [] \<and> sorted (map st_id l)" by (rule layered_shape [OF ls(2)])
  moreover have "\<exists>j < i. \<exists>t \<in> set (ls ! j). st_id t = d"
    if "i < length ls" "s \<in> set (ls ! i)" "d \<in> set (st_depends_on s)" for i s d
    using layered_earlier [OF ls(2) that] by auto
  ultimately show ?thesis using ls by blast
qed

definition sample_subtask :: "string \<Rightarrow> agent_role \<Rightarrow> string list \<Rightarrow> subtask" where
  "sample_subtask i a ds =
     \<lparr>st_id = i, st_description = ''work'', st_agent = a, st_target_files = [], st_depends_on = ds\<rparr>"

definition sample_plan :: "subtask list \<Rightarrow> task_plan" where
  "sample_plan ss =
     \<lparr>pl_complexity = Moderate, pl_relevant_files = [], pl_subtasks = ss, pl_required_agents = [],
      pl_testing_strategy = [], pl_risk_level = LowRisk, pl_rationale = []\<rparr>"

definition diamond_plan :: task_plan where
  "diamond_plan = sample_plan
     [sample_subtask ''d'' TestRole [''b'', ''c''], sample_subtask ''b'' BackendRole [''a''],
      sample_subtask ''c'' FrontendRole [''a''], sample_subtask ''a'' ImplementationRole []]"

lemma kahn_seen_diamond: "kahn_seen (pl_subtasks diamond_plan) = Some 4"
  by (simp add: kahn_seen_def diamond_plan_def sample_plan_def sample_subtask_def Let_def
      initial_indegree_def dict_set_def dependents_of_def kahn_loop.simps dict_get_def)

lemma diamond_plan_accepted:
  "validate_plan diamond_plan =
     Inr (diamond_plan\<lparr>pl_required_agents := merged_agents diamond_plan\<rparr>)"
proof -
  have "distinct (plan_ids diamond_plan)" "pl_subtasks diamond_plan \<noteq> []"
    "unknown_dependency (plan_ids diamond_plan) (pl_subtasks diamond_plan) = None"
    "length (pl_subtasks diamond_plan) = 4"
    by (simp_all add: diamond_plan_def sample_plan_def sample_subtask_def plan_ids_def)
  then show ?thesis by (simp add: validate_plan_def kahn_seen_diamond)
qed

theorem validated_plan_layers_witness:
  "\<exists>ls. execution_layers (diamond_plan\<lparr>pl_required_agents := merged_agents diamond_plan\<rparr>) = Inr ls \<and>
     mset (concat ls) = mset (pl_subtasks diamond_plan)"
  using validated_plan_layers [OF diamond_plan_accepted] by blast

end
