(* ===== verification/Budget.thy ===== *)
theory Budget
  imports Interfaces
begin

section \<open>Execution budgets\<close>

text \<open>
  Models \<open>agent/sweforge/budget.py\<close>. \<open>BudgetLimits\<close> and \<open>ExecutionBudget\<close> are records; every
  check is an action that returns \<open>BudgetExceeded\<close> or nothing and may record a violation; the
  consumption operations are state updates. The injected clock is an argument \<open>now\<close>, its reading
  during the call. Counters are Python integers, amounts of money and time exact rationals.

  The lemmas show what each check accepts, that an accepting check changes nothing while a refusing
  one marks the budget exhausted, that exhaustion is final, and, through the interface \<open>metered\<close>,
  that a counter that is checked before it is consumed never passes its limit.
\<close>

record budget_limits =
  bl_model_calls :: "int option"
  bl_tool_calls :: "int option"
  bl_input_tokens :: "int option"
  bl_output_tokens :: "int option"
  bl_cost :: "rat option"
  bl_wall_time :: "rat option"
  bl_recovery_attempts :: int
  bl_review_cycles :: int

definition default_limits :: budget_limits where
  "default_limits =
     \<lparr>bl_model_calls = Some 40, bl_tool_calls = Some 60, bl_input_tokens = Some 2000000,
      bl_output_tokens = Some 400000, bl_cost = Some 5, bl_wall_time = Some 900,
      bl_recovery_attempts = 3, bl_review_cycles = 2\<rparr>"

definition generous_limits :: budget_limits where
  "generous_limits =
     default_limits\<lparr>bl_model_calls := Some 500, bl_tool_calls := Some 1000,
      bl_input_tokens := Some 50000000, bl_output_tokens := Some 10000000, bl_cost := Some 1000,
      bl_wall_time := Some 7200\<rparr>"

record budget =
  b_limits :: budget_limits
  b_started_at :: rat
  b_model_calls :: int
  b_tool_calls :: int
  b_input_tokens :: int
  b_output_tokens :: int
  b_cost :: rat
  b_exhausted :: "string option"
  b_violations :: "string list"

definition new_budget :: "budget_limits \<Rightarrow> rat \<Rightarrow> budget" where
  "new_budget limits now =
     \<lparr>b_limits = limits, b_started_at = now, b_model_calls = 0, b_tool_calls = 0,
      b_input_tokens = 0, b_output_tokens = 0, b_cost = 0, b_exhausted = None, b_violations = []\<rparr>"

definition elapsed :: "rat \<Rightarrow> budget \<Rightarrow> rat" where
  "elapsed now b = now - b_started_at b"

definition is_exhausted :: "budget \<Rightarrow> bool" where
  "is_exhausted b = (b_exhausted b \<noteq> None)"

subsection \<open>Checks\<close>

definition fail :: "limit_name \<Rightarrow> rat \<Rightarrow> rat \<Rightarrow> (budget, unit) action" where
  "fail name limit attempted b =
     (let message = limit_message name limit attempted;
          b1 = (if message \<in> set (b_violations b) then b
                else b\<lparr>b_violations := b_violations b @ [message]\<rparr>)
      in (Inl (BudgetExceeded name limit attempted), b1\<lparr>b_exhausted := Some message\<rparr>))"

definition check_wall_time :: "rat \<Rightarrow> (budget, unit) action" where
  "check_wall_time now b =
     (case bl_wall_time (b_limits b) of
        None \<Rightarrow> (Inr (), b)
      | Some limit \<Rightarrow>
          if limit \<le> elapsed now b then fail MaxWallTime limit (py_round 3 (elapsed now b)) b
          else (Inr (), b))"

definition check_cost :: "rat \<Rightarrow> (budget, unit) action" where
  "check_cost additional b =
     (case bl_cost (b_limits b) of
        None \<Rightarrow> (Inr (), b)
      | Some limit \<Rightarrow>
          if b_cost b + additional > limit
          then fail MaxCost limit (py_round 6 (b_cost b + additional)) b
          else (Inr (), b))"

definition check_model_count :: "int \<Rightarrow> (budget, unit) action" where
  "check_model_count count b =
     (case bl_model_calls (b_limits b) of
        None \<Rightarrow> (Inr (), b)
      | Some limit \<Rightarrow>
          if b_model_calls b + count > limit
          then fail MaxModelCalls (of_int limit) (of_int (b_model_calls b + count)) b
          else (Inr (), b))"

definition check_model_call :: "rat \<Rightarrow> int \<Rightarrow> (budget, unit) action" where
  "check_model_call now count =
     and_then (check_wall_time now) (\<lambda>_. and_then (check_model_count count) (\<lambda>_. check_cost 0))"

definition check_tool_call :: "rat \<Rightarrow> int \<Rightarrow> (budget, unit) action" where
  "check_tool_call now count =
     and_then (check_wall_time now) (\<lambda>_ b.
       case bl_tool_calls (b_limits b) of
         None \<Rightarrow> (Inr (), b)
       | Some limit \<Rightarrow>
           if b_tool_calls b + count > limit
           then fail MaxToolCalls (of_int limit) (of_int (b_tool_calls b + count)) b
           else (Inr (), b))"

definition check_tokens :: "(budget, unit) action" where
  "check_tokens =
     and_then (\<lambda>b. case bl_input_tokens (b_limits b) of
         None \<Rightarrow> (Inr (), b)
       | Some limit \<Rightarrow>
           if b_input_tokens b > limit
           then fail MaxInputTokens (of_int limit) (of_int (b_input_tokens b)) b
           else (Inr (), b))
     (\<lambda>_ b. case bl_output_tokens (b_limits b) of
         None \<Rightarrow> (Inr (), b)
       | Some limit \<Rightarrow>
           if b_output_tokens b > limit
           then fail MaxOutputTokens (of_int limit) (of_int (b_output_tokens b)) b
           else (Inr (), b))"

definition check_recovery :: "int \<Rightarrow> (budget, unit) action" where
  "check_recovery attempts b =
     (if attempts \<ge> bl_recovery_attempts (b_limits b)
      then fail MaxRecoveryAttempts (of_int (bl_recovery_attempts (b_limits b))) (of_int attempts) b
      else (Inr (), b))"

subsection \<open>Consumption\<close>

definition consume_model_call :: "int \<Rightarrow> int \<Rightarrow> rat \<Rightarrow> budget \<Rightarrow> budget" where
  "consume_model_call inp out cost b =
     b\<lparr>b_model_calls := b_model_calls b + 1,
       b_input_tokens := b_input_tokens b + max 0 inp,
       b_output_tokens := b_output_tokens b + max 0 out,
       b_cost := b_cost b + max 0 cost\<rparr>"

definition consume_tool_call :: "int \<Rightarrow> budget \<Rightarrow> budget" where
  "consume_tool_call count b = b\<lparr>b_tool_calls := b_tool_calls b + max 0 count\<rparr>"

definition sync_from_ledger :: "int \<Rightarrow> int \<Rightarrow> rat \<Rightarrow> budget \<Rightarrow> budget" where
  "sync_from_ledger inp out cost b =
     b\<lparr>b_input_tokens := inp, b_output_tokens := out, b_cost := cost\<rparr>"

subsection \<open>Reporting\<close>

datatype budget_kind = KModel | KTool | KTime | KCost | KOther

definition probe :: "budget_kind \<Rightarrow> rat \<Rightarrow> (budget, unit) action" where
  "probe kind now =
     (case kind of
        KModel \<Rightarrow> check_model_call now 1
      | KTool \<Rightarrow> check_tool_call now 1
      | KTime \<Rightarrow> check_wall_time now
      | KCost \<Rightarrow> check_cost 0
      | KOther \<Rightarrow> (\<lambda>b. (Inr (), b)))"

text \<open>\<open>would_exceed\<close>: the handler turns a raise into \<open>True\<close>; what the check wrote stays written.\<close>

definition would_exceed :: "budget_kind \<Rightarrow> rat \<Rightarrow> budget \<Rightarrow> bool \<times> budget" where
  "would_exceed kind now b =
     (case probe kind now b of (Inl e, b') \<Rightarrow> (True, b') | (Inr u, b') \<Rightarrow> (False, b'))"

definition remaining :: "int option \<Rightarrow> int \<Rightarrow> int option" where
  "remaining limit used = map_option (\<lambda>l. max 0 (l - used)) limit"

definition remaining_amount :: "rat option \<Rightarrow> rat \<Rightarrow> rat option" where
  "remaining_amount limit used = map_option (\<lambda>l. max 0 (l - used)) limit"

record budget_snapshot =
  bs_model_calls_used :: int
  bs_tool_calls_used :: int
  bs_input_tokens_used :: int
  bs_output_tokens_used :: int
  bs_cost_used :: rat
  bs_wall_time_used :: rat
  bs_model_calls_remaining :: "int option"
  bs_tool_calls_remaining :: "int option"
  bs_cost_remaining :: "rat option"
  bs_wall_time_remaining :: "rat option"
  bs_exhausted :: bool
  bs_exhausted_reason :: "string option"

definition snapshot :: "rat \<Rightarrow> budget \<Rightarrow> budget_snapshot" where
  "snapshot now b =
     \<lparr>bs_model_calls_used = b_model_calls b, bs_tool_calls_used = b_tool_calls b,
      bs_input_tokens_used = b_input_tokens b, bs_output_tokens_used = b_output_tokens b,
      bs_cost_used = b_cost b, bs_wall_time_used = elapsed now b,
      bs_model_calls_remaining = remaining (bl_model_calls (b_limits b)) (b_model_calls b),
      bs_tool_calls_remaining = remaining (bl_tool_calls (b_limits b)) (b_tool_calls b),
      bs_cost_remaining = remaining_amount (bl_cost (b_limits b)) (b_cost b),
      bs_wall_time_remaining = remaining_amount (bl_wall_time (b_limits b)) (elapsed now b),
      bs_exhausted = is_exhausted b, bs_exhausted_reason = b_exhausted b\<rparr>"

text \<open>\<open>BudgetSnapshot.to_dict\<close> rounds the amounts and keeps everything else.\<close>

definition snapshot_dict :: "budget_snapshot \<Rightarrow> budget_snapshot" where
  "snapshot_dict s =
     s\<lparr>bs_cost_used := py_round 6 (bs_cost_used s),
       bs_wall_time_used := py_round 3 (bs_wall_time_used s),
       bs_cost_remaining := map_option (py_round 6) (bs_cost_remaining s),
       bs_wall_time_remaining := map_option (py_round 3) (bs_wall_time_remaining s)\<rparr>"

subsection \<open>What the checks do to the budget\<close>

lemma fail_result:
  "fmr = fail n l a b \<Longrightarrow> fst fmr = Inl (BudgetExceeded n l a) \<and> is_exhausted (snd fmr)"
  by (simp add: fail_def is_exhausted_def Let_def)

text \<open>
  \<open>check_like m\<close>: an accepting call leaves the budget as it is, a refusing one raises
  \<open>BudgetExceeded\<close>, marks the budget exhausted and touches nothing but the two report fields.
\<close>

definition check_like :: "(budget, unit) action \<Rightarrow> bool" where
  "check_like m \<longleftrightarrow>
     (\<forall>b. (m b = (Inr (), b)) \<or>
          (\<exists>n l a v r. m b = (Inl (BudgetExceeded n l a),
                              b\<lparr>b_violations := v, b_exhausted := Some r\<rparr>)))"

lemma fail_check: "\<exists>v r. fail n l a b = (Inl (BudgetExceeded n l a), b\<lparr>b_violations := v, b_exhausted := Some r\<rparr>)"
proof (cases "limit_message n l a \<in> set (b_violations b)")
  case True
  then show ?thesis
    by (intro exI [of _ "b_violations b"] exI [of _ "limit_message n l a"]) (simp add: fail_def Let_def)
next
  case False
  then show ?thesis
    by (intro exI [of _ "b_violations b @ [limit_message n l a]"] exI [of _ "limit_message n l a"])
      (simp add: fail_def Let_def)
qed

lemma check_like_ok [simp]: "check_like (\<lambda>b. (Inr (), b))"
  by (simp add: check_like_def)

lemma check_like_and_then: "check_like m \<Longrightarrow> (\<And>u. check_like (k u)) \<Longrightarrow> check_like (and_then m k)"
  unfolding check_like_def by (metis and_then_simps)

lemma check_like_if: "check_like (\<lambda>b. if P b then fail n (l b) (a b) b else (Inr (), b))"
  unfolding check_like_def using fail_check by (metis (full_types))

lemma check_like_limit:
  "check_like (\<lambda>b. case f (b_limits b) of None \<Rightarrow> (Inr (), b)
     | Some l \<Rightarrow> if P l b then fail n (g l) (a l b) b else (Inr (), b))"
  unfolding check_like_def
proof
  fix b
  show "(case f (b_limits b) of None \<Rightarrow> (Inr (), b)
     | Some l \<Rightarrow> if P l b then fail n (g l) (a l b) b else (Inr (), b)) = (Inr (), b) \<or>
    (\<exists>n' l' a' v r. (case f (b_limits b) of None \<Rightarrow> (Inr (), b)
     | Some l \<Rightarrow> if P l b then fail n (g l) (a l b) b else (Inr (), b)) =
       (Inl (BudgetExceeded n' l' a'), b\<lparr>b_violations := v, b_exhausted := Some r\<rparr>))"
    using fail_check by (cases "f (b_limits b)") (auto, blast)
qed

lemma check_like_wall [simp]: "check_like (check_wall_time now)"
  unfolding check_wall_time_def [abs_def] by (rule check_like_limit)

lemma check_like_cost [simp]: "check_like (check_cost x)"
  unfolding check_cost_def [abs_def] by (rule check_like_limit)

lemma check_like_count [simp]: "check_like (check_model_count c)"
  unfolding check_model_count_def [abs_def] by (rule check_like_limit)

lemma check_like_model [simp]: "check_like (check_model_call now c)"
  unfolding check_model_call_def by (intro check_like_and_then) simp_all

lemma check_like_tool [simp]: "check_like (check_tool_call now c)"
  unfolding check_tool_call_def by (intro check_like_and_then check_like_limit) simp_all

lemma check_like_tokens [simp]: "check_like check_tokens"
  unfolding check_tokens_def by (intro check_like_and_then check_like_limit)

lemma check_like_recovery [simp]: "check_like (check_recovery k)"
  unfolding check_recovery_def [abs_def] by (rule check_like_if)

lemma check_like_probe [simp]: "check_like (probe kind now)"
  by (cases kind) (simp_all add: probe_def)

lemma check_accepts: "check_like m \<Longrightarrow> m b = (Inr u, b') \<Longrightarrow> b' = b"
  unfolding check_like_def by (metis Inl_Inr_False Pair_inject)

lemma check_refuses:
  assumes "check_like m" "m b = (Inl e, b')"
  obtains n l a v r where "e = BudgetExceeded n l a" "b' = b\<lparr>b_violations := v, b_exhausted := Some r\<rparr>"
  using assms unfolding check_like_def by (metis Inl_Inr_False Inl_inject Pair_inject)

subsection \<open>What the checks accept\<close>

definition below :: "'a::linorder option \<Rightarrow> 'a \<Rightarrow> bool" where
  "below limit x = (case limit of None \<Rightarrow> True | Some l \<Rightarrow> x \<le> l)"

lemma fail_not_ok [simp]: "fst (fail n l a b) \<noteq> Inr u"
  by (simp add: fail_def Let_def)

lemma wall_accepts:
  "fst (check_wall_time now b) = Inr () \<longleftrightarrow>
     (\<forall>l. bl_wall_time (b_limits b) = Some l \<longrightarrow> elapsed now b < l)"
  by (auto simp: check_wall_time_def not_le split: option.splits)

lemma cost_accepts: "fst (check_cost x b) = Inr () \<longleftrightarrow> below (bl_cost (b_limits b)) (b_cost b + x)"
  by (auto simp: check_cost_def below_def split: option.splits)

lemma and_then_accepts:
  assumes "check_like m"
  shows "fst (and_then m k b) = Inr () \<longleftrightarrow> fst (m b) = Inr () \<and> fst (k () b) = Inr ()"
proof (cases "m b")
  case (Pair r b')
  show ?thesis
  proof (cases r)
    case (Inl e)
    with Pair show ?thesis by simp
  next
    case (Inr u)
    with Pair have "m b = (Inr (), b)" using check_accepts [OF assms, of b u b'] by simp
    then show ?thesis by simp
  qed
qed

lemma count_accepts:
  "fst (check_model_count c b) = Inr () \<longleftrightarrow> below (bl_model_calls (b_limits b)) (b_model_calls b + c)"
  by (auto simp: check_model_count_def below_def split: option.splits)

lemma model_accepts:
  "fst (check_model_call now c b) = Inr () \<longleftrightarrow>
     fst (check_wall_time now b) = Inr () \<and>
     below (bl_model_calls (b_limits b)) (b_model_calls b + c) \<and>
     below (bl_cost (b_limits b)) (b_cost b)"
  by (simp add: check_model_call_def and_then_accepts count_accepts cost_accepts)

lemma tool_accepts:
  "fst (check_tool_call now c b) = Inr () \<longleftrightarrow>
     fst (check_wall_time now b) = Inr () \<and> below (bl_tool_calls (b_limits b)) (b_tool_calls b + c)"
  unfolding check_tool_call_def
  by (auto simp: and_then_accepts below_def split: option.splits)

lemma would_exceed_iff: "fst (would_exceed kind now b) \<longleftrightarrow> fst (probe kind now b) \<noteq> Inr ()"
  by (auto simp: would_exceed_def split: prod.splits sum.splits)

lemma would_exceed_state: "snd (would_exceed kind now b) = snd (probe kind now b)"
  by (auto simp: would_exceed_def split: prod.splits sum.splits)

text \<open>The fields that no check writes.\<close>

definition same_counters :: "budget \<Rightarrow> budget \<Rightarrow> bool" where
  "same_counters b b' \<longleftrightarrow>
     b_limits b' = b_limits b \<and> b_started_at b' = b_started_at b \<and>
     b_model_calls b' = b_model_calls b \<and> b_tool_calls b' = b_tool_calls b \<and>
     b_input_tokens b' = b_input_tokens b \<and> b_output_tokens b' = b_output_tokens b \<and>
     b_cost b' = b_cost b"

lemma check_same:
  assumes "check_like m"
  shows "same_counters b (snd (m b)) \<and> (is_exhausted b \<longrightarrow> is_exhausted (snd (m b)))"
proof (cases "m b")
  case (Pair r b')
  show ?thesis
  proof (cases r)
    case (Inl e)
    with Pair have "m b = (Inl e, b')" by simp
    with assms show ?thesis
      by (rule check_refuses) (simp add: Pair same_counters_def is_exhausted_def)
  next
    case (Inr u)
    with Pair show ?thesis using check_accepts [OF assms, of b u b'] by (simp add: same_counters_def)
  qed
qed

subsection \<open>Counters behind a check\<close>

interpretation model_meter: metered b_model_calls "\<lambda>b. bl_model_calls (b_limits b)"
  "\<lambda>b. fst (check_model_call now 1 b) = Inr ()" "consume_model_call inp out cost"
  for now inp out cost
  by unfold_locales (auto simp: model_accepts below_def consume_model_call_def)

interpretation tool_meter: metered b_tool_calls "\<lambda>b. bl_tool_calls (b_limits b)"
  "\<lambda>b. fst (check_tool_call now 1 b) = Inr ()" "consume_tool_call 1"
  for now
  by unfold_locales (auto simp: tool_accepts below_def consume_tool_call_def)

text \<open>
  What the components do to a budget: a model call and a tool call behind their checks, a probe,
  the other checks, and the adoption of the totals of the ledger.
\<close>

datatype budget_event =
    DoModel rat int int rat
  | DoTool rat
  | Probe budget_kind rat
  | CheckTokens
  | CheckRecovery int
  | Sync int int rat

fun budget_step :: "budget_event \<Rightarrow> budget \<Rightarrow> budget" where
  "budget_step (DoModel now inp out cost) b =
     (case check_model_call now 1 b of
        (Inl e, b') \<Rightarrow> b' | (Inr u, b') \<Rightarrow> consume_model_call inp out cost b')"
| "budget_step (DoTool now) b =
     (case check_tool_call now 1 b of
        (Inl e, b') \<Rightarrow> b' | (Inr u, b') \<Rightarrow> consume_tool_call 1 b')"
| "budget_step (Probe kind now) b = snd (would_exceed kind now b)"
| "budget_step CheckTokens b = snd (check_tokens b)"
| "budget_step (CheckRecovery k) b = snd (check_recovery k b)"
| "budget_step (Sync inp out cost) b = sync_from_ledger inp out cost b"

definition within_limits :: "budget \<Rightarrow> bool" where
  "within_limits b \<longleftrightarrow> below (bl_model_calls (b_limits b)) (b_model_calls b) \<and>
                     below (bl_tool_calls (b_limits b)) (b_tool_calls b)"

lemma in_cap_below: "model_meter.in_cap b \<longleftrightarrow> below (bl_model_calls (b_limits b)) (b_model_calls b)"
    "tool_meter.in_cap b \<longleftrightarrow> below (bl_tool_calls (b_limits b)) (b_tool_calls b)"
  by (auto simp: model_meter.in_cap_def tool_meter.in_cap_def below_def split: option.splits)

lemma same_within: "same_counters b b' \<Longrightarrow> within_limits b' = within_limits b"
  by (simp add: same_counters_def within_limits_def)

lemma check_within: "check_like m \<Longrightarrow> within_limits (snd (m b)) = within_limits b"
  using same_within check_same by blast

lemma checked_step:
  assumes "check_like m"
  shows "(fst (m b) = Inr () \<and> (case m b of (Inl e, b') \<Rightarrow> b' | (Inr u, b') \<Rightarrow> f b') = f b) \<or>
         ((case m b of (Inl e, b') \<Rightarrow> b' | (Inr u, b') \<Rightarrow> f b') = snd (m b) \<and> fst (m b) \<noteq> Inr ())"
  using check_accepts [OF assms] by (cases "m b"; cases "fst (m b)") auto

lemma budget_step_limits: "b_limits (budget_step e b) = b_limits b"
proof (cases e)
  case (DoModel now i o' c)
  then show ?thesis
    using checked_step [of "check_model_call now 1" b "consume_model_call i o' c"]
      check_same [of "check_model_call now 1" b]
    by (auto simp: consume_model_call_def same_counters_def)
next
  case (DoTool now)
  then show ?thesis
    using checked_step [of "check_tool_call now 1" b "consume_tool_call 1"]
      check_same [of "check_tool_call now 1" b]
    by (auto simp: consume_tool_call_def same_counters_def)
qed (use check_same in \<open>auto simp: would_exceed_state same_counters_def sync_from_ledger_def\<close>)

lemma budget_step_within: "within_limits b \<Longrightarrow> within_limits (budget_step e b)"
proof (cases e)
  case (DoModel now i o' c)
  assume b: "within_limits b"
  show ?thesis
    using checked_step [OF check_like_model, of now 1 b "consume_model_call i o' c"]
  proof (elim disjE conjE)
    assume ok: "fst (check_model_call now 1 b) = Inr ()"
      and eq: "(case check_model_call now 1 b of (Inl e, b') \<Rightarrow> b' | (Inr u, b') \<Rightarrow> consume_model_call i o' c b')
                 = consume_model_call i o' c b"
    from model_meter.checked_consume [OF ok] b show ?thesis
      by (simp add: DoModel eq within_limits_def in_cap_below)
        (simp add: consume_model_call_def)
  qed (use b in \<open>simp add: DoModel check_within\<close>)
next
  case (DoTool now)
  assume b: "within_limits b"
  show ?thesis
    using checked_step [OF check_like_tool, of now 1 b "consume_tool_call 1"]
  proof (elim disjE conjE)
    assume ok: "fst (check_tool_call now 1 b) = Inr ()"
      and eq: "(case check_tool_call now 1 b of (Inl e, b') \<Rightarrow> b' | (Inr u, b') \<Rightarrow> consume_tool_call 1 b')
                 = consume_tool_call 1 b"
    from tool_meter.checked_consume [OF ok] b show ?thesis
      by (simp add: DoTool eq within_limits_def in_cap_below) (simp add: consume_tool_call_def)
  qed (use b in \<open>simp add: DoTool check_within\<close>)
next
  case (Sync i o' c)
  assume "within_limits b"
  then show ?thesis by (simp add: Sync sync_from_ledger_def within_limits_def)
qed (simp_all add: would_exceed_state check_within)

lemma budget_step_exhausted: "is_exhausted b \<Longrightarrow> is_exhausted (budget_step e b)"
proof (cases e)
  case (DoModel now i o' c)
  assume b: "is_exhausted b"
  then show ?thesis
    using checked_step [of "check_model_call now 1" b "consume_model_call i o' c"]
      check_same [of "check_model_call now 1" b] DoModel
    by (auto simp: consume_model_call_def is_exhausted_def)
next
  case (DoTool now)
  assume b: "is_exhausted b"
  then show ?thesis
    using checked_step [of "check_tool_call now 1" b "consume_tool_call 1"]
      check_same [of "check_tool_call now 1" b] DoTool
    by (auto simp: consume_tool_call_def is_exhausted_def)
qed (use check_same in \<open>auto simp: would_exceed_state is_exhausted_def sync_from_ledger_def\<close>)

subsection \<open>Properties\<close>

text \<open>C14. Hard limits: whatever sequence of checked model calls, checked tool calls, probes, checks and
  ledger adoptions a run makes, the model and tool calls it has counted never pass the
  configured limits, and the limits themselves never change.\<close>

theorem budget_limits_hold:
  assumes "below (bl_model_calls l) 0" and "below (bl_tool_calls l) 0"
  shows "let b = fold budget_step es (new_budget l start)
         in below (bl_model_calls l) (b_model_calls b) \<and> below (bl_tool_calls l) (b_tool_calls b) \<and>
            b_limits b = l"
proof -
  let ?b = "fold budget_step es (new_budget l start)"
  have keep: "within_limits b \<Longrightarrow> within_limits (fold budget_step es b)" for b
    by (induction es arbitrary: b) (simp_all add: budget_step_within)
  have lim: "b_limits (fold budget_step es b) = b_limits b" for b
    by (induction es arbitrary: b) (simp_all add: budget_step_limits)
  from assms have "within_limits (new_budget l start)" by (simp add: within_limits_def new_budget_def)
  then have "within_limits ?b" by (rule keep)
  moreover have "b_limits ?b = l" by (simp add: lim) (simp add: new_budget_def)
  ultimately show ?thesis by (simp add: within_limits_def Let_def)
qed

theorem budget_limits_hold_witness:
  "let b = fold budget_step [DoModel 1 10 5 (1/100), Probe KTool 2, DoTool 2] (new_budget default_limits 0)
   in below (Some 40) (b_model_calls b) \<and> below (Some 60) (b_tool_calls b) \<and> b_limits b = default_limits"
  using budget_limits_hold [of default_limits "[DoModel 1 10 5 (1/100), Probe KTool 2, DoTool 2]" 0]
  by (simp add: default_limits_def below_def)

text \<open>Exhaustion is final and probing has an effect: the predicate \<open>would_exceed\<close> leaves the budget
  unchanged when it answers no, and marks the whole budget exhausted when it answers yes, and no
  later operation clears the mark.\<close>

theorem would_exceed_marks_exhausted:
  "(\<not> fst (would_exceed kind now b) \<longrightarrow> snd (would_exceed kind now b) = b) \<and>
   (fst (would_exceed kind now b) \<longrightarrow>
      is_exhausted (fold budget_step es (snd (would_exceed kind now b))))"
proof -
  have fin: "is_exhausted b \<Longrightarrow> is_exhausted (fold budget_step es b)" for b
    by (induction es arbitrary: b) (simp_all add: budget_step_exhausted)
  show ?thesis
  proof (cases "probe kind now b")
    case (Pair r b')
    show ?thesis
    proof (cases r)
      case (Inl e)
      with Pair have "probe kind now b = (Inl e, b')" by simp
      then have "is_exhausted b'"
        by (rule check_refuses [OF check_like_probe]) (simp add: is_exhausted_def)
      with Pair Inl fin show ?thesis by (simp add: would_exceed_def)
    next
      case (Inr u)
      with Pair show ?thesis
        using check_accepts [OF check_like_probe, of kind now b u b'] by (simp add: would_exceed_def)
    qed
  qed
qed

theorem would_exceed_marks_exhausted_witness:
  "fst (would_exceed KTime 900 (new_budget default_limits 0)) \<and>
   is_exhausted (budget_step (Sync 0 0 0) (snd (would_exceed KTime 900 (new_budget default_limits 0))))"
proof -
  have h: "fst (would_exceed KTime 900 (new_budget default_limits 0))"
    by (simp add: would_exceed_iff probe_def wall_accepts new_budget_def default_limits_def elapsed_def)
  then show ?thesis
    using would_exceed_marks_exhausted [of KTime 900 "new_budget default_limits 0" "[Sync 0 0 0]"] by simp
qed

text \<open>A model call is admitted exactly when time is left, the call keeps the count within its
  limit and the cost so far is within its limit; an admitted check changes nothing, and a refusal
  names a limit, keeps every counter and sets the exhaustion reason.\<close>

theorem model_call_admission:
  "(\<exists>b'. check_model_call now c b = (Inr (), b')) =
     ((\<forall>l. bl_wall_time (b_limits b) = Some l \<longrightarrow> elapsed now b < l) \<and>
      below (bl_model_calls (b_limits b)) (b_model_calls b + c) \<and>
      below (bl_cost (b_limits b)) (b_cost b)) \<and>
   (\<forall>b'. check_model_call now c b = (Inr (), b') \<longrightarrow> b' = b) \<and>
   (\<forall>e b'. check_model_call now c b = (Inl e, b') \<longrightarrow>
      (\<exists>n l a. e = BudgetExceeded n l a) \<and> is_exhausted b' \<and> same_counters b b')"
proof -
  have "(\<exists>b'. check_model_call now c b = (Inr (), b')) = (fst (check_model_call now c b) = Inr ())"
    by (cases "check_model_call now c b") auto
  moreover have "b' = b" if "check_model_call now c b = (Inr (), b')" for b'
    using check_accepts [OF check_like_model that] .
  moreover have "(\<exists>n l a. e = BudgetExceeded n l a) \<and> is_exhausted b' \<and> same_counters b b'"
    if "check_model_call now c b = (Inl e, b')" for e b'
    using check_like_model that
    by (rule check_refuses) (simp add: is_exhausted_def same_counters_def)
  ultimately show ?thesis by (auto simp: model_accepts wall_accepts)
qed

theorem model_call_admission_witness:
  "\<exists>b'. check_model_call 1 1 (new_budget default_limits 0) = (Inr (), b')"
  using model_call_admission [of 1 1 "new_budget default_limits 0"]
  by (simp add: new_budget_def default_limits_def elapsed_def below_def)

end
