(* ===== verification/Regex.thy ===== *)
theory Regex
  imports Interfaces
begin

section \<open>The regular expressions of the Python \<open>re\<close> module that the code uses\<close>

text \<open>
  The classifiers, the scanner and the selectors of the program are tables of compiled patterns.
  This theory models the part of \<open>re\<close> those tables use: a pattern is a value of \<open>rx\<close>, and \<open>rm r m\<close>
  lists the ways the backtracking matcher can match \<open>r\<close> from the point \<open>m\<close>, in the order in which
  it tries them (alternatives left to right, repetitions greedy). A point is the character before
  it, the text after it and the groups captured so far. The first element of the list is the match
  that Python returns; the list is empty when there is none.

  The body of every repetition in the patterns of the code consumes at least one character, so
  an iteration that consumes nothing is dropped here.
\<close>

type_synonym point = "char option \<times> string \<times> (nat, string) dict"

datatype rx =
    Eps
  | Cls "char \<Rightarrow> bool"
  | Lit string
  | LitI string
  | Cat rx rx
  | Alt rx rx
  | Rep nat "nat option" rx
  | Grp nat rx
  | Bol
  | BolM
  | EolS
  | Wb
  | NotAhead rx

abbreviation rest :: "point \<Rightarrow> string" where
  "rest m \<equiv> fst (snd m)"

abbreviation cat :: "rx list \<Rightarrow> rx" where
  "cat rs \<equiv> foldr Cat rs Eps"

fun alts :: "rx list \<Rightarrow> rx" where
  "alts [] = NotAhead Eps"
| "alts [r] = r"
| "alts (r # rs) = Alt r (alts rs)"

abbreviation star :: "rx \<Rightarrow> rx" where "star r \<equiv> Rep 0 None r"
abbreviation plus1 :: "rx \<Rightarrow> rx" where "plus1 r \<equiv> Rep 1 None r"
abbreviation opt :: "rx \<Rightarrow> rx" where "opt r \<equiv> Rep 0 (Some 1) r"
abbreviation at_least :: "nat \<Rightarrow> rx \<Rightarrow> rx" where "at_least n r \<equiv> Rep n None r"
abbreviation exactly :: "nat \<Rightarrow> rx \<Rightarrow> rx" where "exactly n r \<equiv> Rep n (Some n) r"

abbreviation dot :: rx where "dot \<equiv> Cls (\<lambda>c. c \<noteq> newline)"
abbreviation space :: rx where "space \<equiv> Cls is_space_c"
abbreviation nonspace :: rx where "nonspace \<equiv> Cls (\<lambda>c. \<not> is_space_c c)"
abbreviation digit :: rx where "digit \<equiv> Cls is_digit_c"
abbreviation wordc :: rx where "wordc \<equiv> Cls is_word_c"

definition in_range :: "char \<Rightarrow> char \<Rightarrow> char \<Rightarrow> bool" where
  "in_range a b c = (ord_c a \<le> ord_c c \<and> ord_c c \<le> ord_c b)"

definition upper_az :: "char \<Rightarrow> bool" where "upper_az c = in_range (CHR ''A'') (CHR ''Z'') c"
definition lower_az :: "char \<Rightarrow> bool" where "lower_az c = in_range (CHR ''a'') (CHR ''z'') c"
definition num_09 :: "char \<Rightarrow> bool" where "num_09 c = in_range (CHR ''0'') (CHR ''9'') c"

definition alnum :: "char \<Rightarrow> bool" where
  "alnum c = (upper_az c \<or> lower_az c \<or> num_09 c)"

subsection \<open>The matcher\<close>

fun lit :: "(char \<Rightarrow> char \<Rightarrow> bool) \<Rightarrow> string \<Rightarrow> point \<Rightarrow> point list" where
  "lit eq [] m = [m]"
| "lit eq (w # ws) (p, [], g) = []"
| "lit eq (w # ws) (p, c # cs, g) = (if eq w c then lit eq ws (Some c, cs, g) else [])"

fun rep :: "(point \<Rightarrow> point list) \<Rightarrow> nat \<Rightarrow> nat \<Rightarrow> nat option \<Rightarrow> point \<Rightarrow> point list" where
  "rep f 0 lo hi m = (if lo = 0 then [m] else [])"
| "rep f (Suc k) lo hi m =
     (if hi = Some 0 then (if lo = 0 then [m] else [])
      else concat (map (\<lambda>m'. if length (rest m') < length (rest m)
                             then rep f k (lo - 1) (map_option (\<lambda>h. h - 1) hi) m' else []) (f m))
           @ (if lo = 0 then [m] else []))"

definition is_word_opt :: "char option \<Rightarrow> bool" where
  "is_word_opt c = (case c of None \<Rightarrow> False | Some d \<Rightarrow> is_word_c d)"

definition next_char :: "string \<Rightarrow> char option" where
  "next_char s = (case s of [] \<Rightarrow> None | c # _ \<Rightarrow> Some c)"

primrec rm :: "rx \<Rightarrow> point \<Rightarrow> point list" where
  "rm Eps m = [m]"
| "rm (Cls P) m =
     (case m of (p, s, g) \<Rightarrow> (case s of [] \<Rightarrow> [] | c # cs \<Rightarrow> if P c then [(Some c, cs, g)] else []))"
| "rm (Lit w) m = lit (=) w m"
| "rm (LitI w) m = lit (\<lambda>a b. lower_c a = lower_c b) w m"
| "rm (Cat a b) m = concat (map (rm b) (rm a m))"
| "rm (Alt a b) m = rm a m @ rm b m"
| "rm (Rep lo hi r) m = rep (rm r) (Suc (length (rest m))) lo hi m"
| "rm (Grp n r) m =
     map (\<lambda>(q, t, h). (q, t, dict_set n (take (length (rest m) - length t) (rest m)) h)) (rm r m)"
| "rm Bol m = (if fst m = None then [m] else [])"
| "rm BolM m = (if fst m = None \<or> fst m = Some newline then [m] else [])"
| "rm EolS m = (if rest m = [] \<or> rest m = [newline] then [m] else [])"
| "rm Wb m = (if is_word_opt (fst m) \<noteq> is_word_opt (next_char (rest m)) then [m] else [])"
| "rm (NotAhead r) m = (if rm r m = [] then [m] else [])"

text \<open>
  \<open>search_at r p s\<close> is \<open>re.search\<close> from the point \<open>(p, s)\<close> on: the suffix at which the leftmost
  match starts and the point at which it ends. \<open>search\<close> starts at the beginning of the text, and
  \<open>find_all\<close> is \<open>re.findall\<close> (the captured groups of the successive matches).
\<close>

fun search_at :: "rx \<Rightarrow> char option \<Rightarrow> string \<Rightarrow> (string \<times> point) option" where
  "search_at r p s =
     (case rm r (p, s, []) of
        m # _ \<Rightarrow> Some (s, m)
      | [] \<Rightarrow> (case s of [] \<Rightarrow> None | c # cs \<Rightarrow> search_at r (Some c) cs))"

declare search_at.simps [simp del]

definition search :: "rx \<Rightarrow> string \<Rightarrow> (string \<times> point) option" where
  "search r s = search_at r None s"

definition matches :: "rx \<Rightarrow> string \<Rightarrow> bool" where
  "matches r s = (search r s \<noteq> None)"

definition match_text :: "string \<times> point \<Rightarrow> string" where
  "match_text h = take (length (fst h) - length (rest (snd h))) (fst h)"

definition match_start :: "string \<Rightarrow> string \<times> point \<Rightarrow> nat" where
  "match_start s h = length s - length (fst h)"

definition match_end :: "string \<Rightarrow> string \<times> point \<Rightarrow> nat" where
  "match_end s h = length s - length (rest (snd h))"

definition grp :: "nat \<Rightarrow> string \<times> point \<Rightarrow> string option" where
  "grp n h = map_of (snd (snd (snd h))) n"

subsection \<open>Matches end in a suffix of the text\<close>

lemma lit_suffix: "m' \<in> set (lit eq w m) \<Longrightarrow> \<exists>u. rest m = u @ rest m' \<and> length u = length w"
proof (induction eq w m rule: lit.induct)
  case (3 eq w ws p c cs g)
  then obtain u where "cs = u @ rest m'" "length u = length ws"
    by (auto split: if_splits)
  then show ?case by (intro exI [of _ "c # u"]) simp
qed auto

lemma rep_suffix:
  assumes f: "\<And>m m'. m' \<in> set (f m) \<Longrightarrow> \<exists>u. rest m = u @ rest m'"
  shows "m' \<in> set (rep f k lo hi m) \<Longrightarrow> \<exists>u. rest m = u @ rest m'"
proof (induction k arbitrary: lo hi m)
  case (Suc k)
  show ?case
  proof (cases "m' = m")
    case False
    with Suc.prems obtain n where n: "n \<in> set (f m)"
        "m' \<in> set (rep f k (lo - 1) (map_option (\<lambda>h. h - 1) hi) n)"
      by (auto split: if_splits)
    with Suc.IH obtain u where "rest n = u @ rest m'" by blast
    moreover from f [OF n(1)] obtain v where "rest m = v @ rest n" ..
    ultimately show ?thesis by simp
  qed simp
qed (auto split: if_splits)

lemma rm_suffix: "m' \<in> set (rm r m) \<Longrightarrow> \<exists>u. rest m = u @ rest m'"
proof (induction r arbitrary: m m')
  case (Cls P)
  then show ?case by (cases m; cases "rest m") (auto split: if_splits)
next
  case (Cat a b)
  then obtain n where n: "n \<in> set (rm a m)" "m' \<in> set (rm b n)" by auto
  from Cat.IH(1) [OF n(1)] obtain u where "rest m = u @ rest n" ..
  moreover from Cat.IH(2) [OF n(2)] obtain v where "rest n = v @ rest m'" ..
  ultimately show ?case by simp
next
  case (Rep lo hi r)
  have "\<exists>u. rest m = u @ rest m'"
    if "m' \<in> set (rep (rm r) k lo hi m)" for k
    using that by (rule rep_suffix [rotated]) (rule Rep.IH)
  with Rep.prems show ?case by (simp del: rep.simps)
next
  case (Grp n r)
  then obtain k where "k \<in> set (rm r m)" "rest m' = rest k" by auto
  with Grp.IH show ?case by metis
qed (auto dest: lit_suffix split: if_splits)

lemma rm_shorter: "m' \<in> set (rm r m) \<Longrightarrow> length (rest m') \<le> length (rest m)"
  by (drule rm_suffix) auto

text \<open>
  The fuel of a repetition is the length of the remaining text plus one, and more fuel never
  changes the result: every iteration that continues has consumed a character.
\<close>

lemma rep_fuel: "length (rest m) < k \<Longrightarrow> rep f (Suc k) lo hi m = rep f k lo hi m"
proof (induction k arbitrary: lo hi m)
  case (Suc k)
  have "rep f (Suc k) (lo - 1) (map_option (\<lambda>h. h - 1) hi) m'
      = rep f k (lo - 1) (map_option (\<lambda>h. h - 1) hi) m'"
    if "length (rest m') < length (rest m)" for m'
    using Suc.prems that by (intro Suc.IH) linarith
  then show ?case
    by (subst (1 2) rep.simps(2)) (auto simp del: rep.simps intro!: arg_cong [of _ _ concat])
qed simp

lemma search_at_result:
  "search_at r p s = Some (t, m) \<Longrightarrow>
     \<exists>u q. s = u @ t \<and> m \<in> set (rm r (q, t, [])) \<and> q = (if u = [] then p else Some (last u))"
proof (induction r p s rule: search_at.induct)
  case (1 r p s)
  show ?case
  proof (cases "rm r (p, s, [])")
    case (Cons k ks)
    with "1.prems" show ?thesis by (subst (asm) search_at.simps) auto
  next
    case Nil
    with "1.prems" obtain c cs where s: "s = c # cs" "search_at r (Some c) cs = Some (t, m)"
      by (subst (asm) search_at.simps) (auto split: list.splits)
    with "1.IH" [OF Nil s(1)] obtain u q where
        "cs = u @ t" "m \<in> set (rm r (q, t, []))" "q = (if u = [] then Some c else Some (last u))"
      by blast
    with s(1) show ?thesis by (intro exI [of _ "c # u"] exI [of _ q]) auto
  qed
qed

lemma search_at_shorter:
  "search_at r p s = Some (t, m) \<Longrightarrow> length t \<le> length s \<and> length (rest m) \<le> length t"
  by (drule search_at_result) (auto dest!: rm_shorter)

function find_all_from :: "rx \<Rightarrow> char option \<Rightarrow> string \<Rightarrow> (string \<times> point) list" where
  "find_all_from r p s =
     (case search_at r p s of
        None \<Rightarrow> []
      | Some (t, m) \<Rightarrow>
          (t, m) #
          (if length (rest m) < length t then find_all_from r (fst m) (rest m)
           else (case t of [] \<Rightarrow> [] | c # cs \<Rightarrow> find_all_from r (Some c) cs)))"
  by pat_completeness auto
termination
  by (relation "measure (\<lambda>(r, p, s). length s)") (auto dest!: search_at_shorter)

declare find_all_from.simps [simp del]

definition find_all :: "rx \<Rightarrow> string \<Rightarrow> (string \<times> point) list" where
  "find_all r s = find_all_from r None s"

subsection \<open>When a pattern matches somewhere in a text\<close>

lemma search_at_None:
  "search_at r p s = None \<longleftrightarrow>
     (\<forall>u v. s = u @ v \<longrightarrow> rm r (if u = [] then p else Some (last u), v, []) = [])"
proof (induction r p s rule: search_at.induct)
  case (1 r p s)
  show ?case
  proof (cases "rm r (p, s, [])")
    case (Cons k ks)
    then show ?thesis by (subst search_at.simps) (auto intro!: exI [of _ "[]"])
  next
    case Nil
    show ?thesis
    proof (cases s)
      case Nil': Nil
      with Nil show ?thesis by (subst search_at.simps) auto
    next
      case s: (Cons c cs)
      have "search_at r p s = search_at r (Some c) cs"
        using Nil s by (subst search_at.simps) simp
      moreover have "(\<forall>u v. s = u @ v \<longrightarrow> rm r (if u = [] then p else Some (last u), v, []) = [])
          \<longleftrightarrow> (\<forall>u v. cs = u @ v \<longrightarrow> rm r (if u = [] then Some c else Some (last u), v, []) = [])"
        (is "?L \<longleftrightarrow> ?R")
      proof
        assume L: ?L
        show ?R
        proof (intro allI impI)
          fix u v assume "cs = u @ v"
          with s have "s = (c # u) @ v" by simp
          with L have "rm r (if c # u = [] then p else Some (last (c # u)), v, []) = []"
            by blast
          then show "rm r (if u = [] then Some c else Some (last u), v, []) = []"
            by (simp split: if_splits)
        qed
      next
        assume R: ?R
        show ?L
        proof (intro allI impI)
          fix u v assume "s = u @ v"
          with s Nil R show "rm r (if u = [] then p else Some (last u), v, []) = []"
            by (cases u) (auto split: if_splits)
        qed
      qed
      ultimately show ?thesis using "1.IH" [OF Nil s] by simp
    qed
  qed
qed

lemma matches_iff:
  "matches r s \<longleftrightarrow>
     (\<exists>u v. s = u @ v \<and> rm r (if u = [] then None else Some (last u), v, []) \<noteq> [])"
  unfolding matches_def search_def using search_at_None [of r None s] by (auto split: if_splits)

lemma matches_Alt [text_simps]: "matches (Alt a b) s \<longleftrightarrow> matches a s \<or> matches b s"
  unfolding matches_iff by auto

lemma matches_alts: "rs \<noteq> [] \<Longrightarrow> matches (alts rs) s \<longleftrightarrow> (\<exists>r \<in> set rs. matches r s)"
  by (induction rs rule: alts.induct) (auto simp: matches_Alt)

lemma lit_eq_iff: "lit (=) w (p, s, g) \<noteq> [] \<longleftrightarrow> starts_with w s"
  by (induction "(=) :: char \<Rightarrow> char \<Rightarrow> bool" w "(p, s, g)" arbitrary: p s g rule: lit.induct)
    (auto simp: starts_with_def)

lemma lit_lower_iff:
  "lit (\<lambda>a b. lower_c a = lower_c b) w (p, s, g) \<noteq> [] \<longleftrightarrow> starts_with (py_lower w) (py_lower s)"
  by (induction "\<lambda>a b. lower_c a = lower_c b" w "(p, s, g)" arbitrary: p s g rule: lit.induct)
    (auto simp: starts_with_def py_lower_def)

lemma matches_Lit [text_simps]: "matches (Lit w) s \<longleftrightarrow> contains w s"
  unfolding matches_iff contains_iff by (auto simp: lit_eq_iff starts_with_iff)

lemma matches_LitI [text_simps]: "matches (LitI w) s \<longleftrightarrow> contains (py_lower w) (py_lower s)"
proof
  assume "matches (LitI w) s"
  then obtain u v where "s = u @ v" "starts_with (py_lower w) (py_lower v)"
    unfolding matches_iff by (auto simp: lit_lower_iff split: if_splits)
  then show "contains (py_lower w) (py_lower s)"
    by (auto simp: contains_iff starts_with_iff)
next
  assume "contains (py_lower w) (py_lower s)"
  then obtain u v where uv: "py_lower s = u @ py_lower w @ v" by (auto simp: contains_iff)
  have "starts_with (py_lower w) (py_lower (drop (length u) s))"
    using uv by (auto simp: starts_with_iff py_lower_def drop_map [symmetric])
  then have "rm (LitI w) (if take (length u) s = [] then None else Some (last (take (length u) s)),
      drop (length u) s, []) \<noteq> []"
    by (simp add: lit_lower_iff)
  then show "matches (LitI w) s" unfolding matches_iff by (metis append_take_drop_id)
qed

lemma rm_Cat_iff: "rm (Cat a b) m \<noteq> [] \<longleftrightarrow> (\<exists>m' \<in> set (rm a m). rm b m' \<noteq> [])"
  by auto

lemma matches_alts_mem: "r \<in> set rs \<Longrightarrow> matches r s \<Longrightarrow> matches (alts rs) s"
  by (cases rs) (auto simp: matches_alts simp del: alts.simps)

end
