(* ===== verification/Model_Router.thy ===== *)
theory Model_Router
  imports Schemas Regex
begin

section \<open>Adaptive model routing and the usage ledger\<close>

text \<open>
  Models \<open>agent/sweforge/routing/model_router.py\<close>: the tier tables, \<open>ModelRouter.resolve_tier\<close>,
  \<open>select\<close>, the price and cost functions, the context manager \<open>track\<close> (as the transformation of
  the router that leaving the block performs) and \<open>ModelUsageLedger\<close>. The environment is a
  dictionary of strings. Building a chat model (\<open>build_model\<close>) belongs to the injected factory or
  to LangChain and is not modelled.

  The lemmas show how the tier depends on complexity, failures and latency, that the ledger is an
  append-only log, and that the failure counters that drive escalation agree with the ledger.
\<close>

datatype tier = Fast | Balanced | Coding | Reasoning

fun tier_text :: "tier \<Rightarrow> string" where
  "tier_text Fast = ''fast''"
| "tier_text Balanced = ''balanced''"
| "tier_text Coding = ''coding''"
| "tier_text Reasoning = ''reasoning''"

fun tier_rank :: "tier \<Rightarrow> nat" where
  "tier_rank Fast = 0"
| "tier_rank Balanced = 1"
| "tier_rank Coding = 2"
| "tier_rank Reasoning = 3"

lemma tier_rank_inject [simp]: "tier_rank a = tier_rank b \<longleftrightarrow> a = b"
  by (cases a; cases b) simp_all

instantiation tier :: linorder
begin

definition less_eq_tier :: "tier \<Rightarrow> tier \<Rightarrow> bool" where
  "a \<le> b \<longleftrightarrow> tier_rank a \<le> tier_rank b"

definition less_tier :: "tier \<Rightarrow> tier \<Rightarrow> bool" where
  "a < b \<longleftrightarrow> tier_rank a < tier_rank b"

instance
  by standard (auto simp: less_eq_tier_def less_tier_def)

end

subsection \<open>Tables\<close>

fun tier_env_var :: "tier \<Rightarrow> string \<times> string" where
  "tier_env_var Fast = (''SWEFORGE_MODEL_FAST'', ''anthropic:claude-haiku-4-5-20251001'')"
| "tier_env_var Balanced = (''SWEFORGE_MODEL_BALANCED'', ''anthropic:claude-sonnet-4-5'')"
| "tier_env_var Coding = (''SWEFORGE_MODEL_CODING'', ''anthropic:claude-sonnet-4-5'')"
| "tier_env_var Reasoning = (''SWEFORGE_MODEL_REASONING'', ''anthropic:claude-opus-4-1'')"

fun default_price :: "tier \<Rightarrow> rat \<times> rat" where
  "default_price Fast = (1, 5)"
| "default_price Balanced = (3, 15)"
| "default_price Coding = (3, 15)"
| "default_price Reasoning = (15, 75)"

definition role_tier :: "(string, tier) dict" where
  "role_tier =
     [(''repository_analysis'', Fast), (''complexity_analysis'', Fast), (''planning'', Reasoning),
      (''agent_selection'', Fast), (''implementation'', Coding), (''test_authoring'', Coding),
      (''failure_analysis'', Balanced), (''recovery'', Coding), (''review'', Reasoning),
      (''security_analysis'', Reasoning), (''documentation'', Fast), (''summarisation'', Fast)]"

fun escalate :: "tier \<Rightarrow> tier" where
  "escalate Fast = Balanced"
| "escalate Balanced = Reasoning"
| "escalate Coding = Reasoning"
| "escalate Reasoning = Reasoning"

fun deescalate :: "tier \<Rightarrow> tier" where
  "deescalate Reasoning = Balanced"
| "deescalate Coding = Balanced"
| "deescalate Balanced = Fast"
| "deescalate Fast = Fast"

record model_spec =
  ms_role :: string
  ms_tier :: tier
  ms_model_id :: string
  ms_reason :: string

definition provider :: "model_spec \<Rightarrow> string" where
  "provider s =
     (if CHR '':'' \<in> set (ms_model_id s) then hd (split_on (CHR '':'') (ms_model_id s))
      else ''unknown'')"

record routing_decision =
  rd_spec :: model_spec
  rd_considered :: "string list"

subsection \<open>The ledger\<close>

type_synonym ledger = "model_call_record list"

definition ledger_record :: "model_call_record \<Rightarrow> ledger \<Rightarrow> ledger" where
  "ledger_record r l = l @ [r]"

definition total_calls :: "ledger \<Rightarrow> nat" where
  "total_calls l = length l"

definition total_cost :: "ledger \<Rightarrow> rat" where
  "total_cost l = py_round 8 (sum_list (map mc_cost l))"

definition total_input_tokens :: "ledger \<Rightarrow> int" where
  "total_input_tokens l =
     sum_list (map (\<lambda>r. case mc_input_tokens r of None \<Rightarrow> 0 | Some n \<Rightarrow> n) l)"

definition total_output_tokens :: "ledger \<Rightarrow> int" where
  "total_output_tokens l =
     sum_list (map (\<lambda>r. case mc_output_tokens r of None \<Rightarrow> 0 | Some n \<Rightarrow> n) l)"

definition by_tier :: "ledger \<Rightarrow> (string, nat) dict" where
  "by_tier l = foldl (\<lambda>d r. dict_bump (mc_tier r) d) [] l"

record ledger_summary =
  ls_calls :: nat
  ls_by_tier :: "(string, nat) dict"
  ls_input_tokens :: int
  ls_output_tokens :: int
  ls_cost :: rat
  ls_failures :: nat

definition summarise_ledger :: "ledger \<Rightarrow> ledger_summary" where
  "summarise_ledger l =
     \<lparr>ls_calls = total_calls l, ls_by_tier = by_tier l, ls_input_tokens = total_input_tokens l,
      ls_output_tokens = total_output_tokens l, ls_cost = total_cost l,
      ls_failures = length (filter (\<lambda>r. \<not> mc_ok r) l)\<rparr>"

subsection \<open>The router\<close>

record router =
  ro_env :: "(string, string) dict"
  ro_ledger :: ledger
  ro_failures :: "(string, nat) dict"
  ro_successes :: "(string, nat) dict"

definition new_router :: "(string, string) dict \<Rightarrow> router" where
  "new_router env = \<lparr>ro_env = env, ro_ledger = [], ro_failures = [], ro_successes = []\<rparr>"

definition complexity_roles :: "string list" where
  "complexity_roles =
     [''planning'', ''implementation'', ''review'', ''recovery'', ''security_analysis'']"

definition resolve_tier :: "router \<Rightarrow> string \<Rightarrow> complexity \<Rightarrow> bool \<Rightarrow> tier \<times> string" where
  "resolve_tier r role c latency_sensitive =
     (let base = dict_get role_tier role Balanced;
          reason = ''role '' @ quoted role @ '' base tier '' @ quoted (tier_text base);
          (base1, reason1) =
            (if role \<in> set complexity_roles then
               (if c = Trivial then (deescalate base, reason @ ''; de-escalated (trivial task)'')
                else if c = Complex then (escalate base, reason @ ''; escalated (complex task)'')
                else (base, reason))
             else (base, reason));
          fails = dict_get (ro_failures r) role 0;
          (base2, reason2) =
            (if 2 \<le> fails \<and> escalate base1 \<noteq> base1
             then (escalate base1, reason1 @ ''; escalated after '' @ show_nat fails @ '' failures'')
             else (base1, reason1))
      in if latency_sensitive \<and> base2 = Reasoning
         then (Balanced, reason2 @ ''; capped at balanced (latency sensitive)'')
         else (base2, reason2))"

definition tier_model :: "router \<Rightarrow> tier \<Rightarrow> string \<times> string" where
  "tier_model r t =
     (case tier_env_var t of (var, dflt) \<Rightarrow> (var, dict_get (ro_env r) var dflt))"

definition select :: "router \<Rightarrow> string \<Rightarrow> complexity \<Rightarrow> bool \<Rightarrow> routing_decision" where
  "select r role c latency_sensitive =
     (case resolve_tier r role c latency_sensitive of (t, reason) \<Rightarrow>
        \<lparr>rd_spec = \<lparr>ms_role = role, ms_tier = t,
                    ms_model_id = dict_get (ro_env r) (fst (tier_env_var t)) (snd (tier_env_var t)),
                    ms_reason = reason\<rparr>,
         rd_considered = py_sorted (map tier_text [Fast, Balanced, Coding, Reasoning])\<rparr>)"

subsection \<open>Prices\<close>

text \<open>
  \<open>py_float\<close> is \<open>float(s)\<close> on decimal literals (sign, digits with single underscores between them,
  fraction, exponent, surrounding space). The literals of the infinities and of NaN have no
  rational value: they are outside the model, and so is a price of that kind.
\<close>

definition digits_rx :: rx where
  "digits_rx = cat [digit, star (cat [opt (Lit ''_''), digit])]"

definition sign_rx :: rx where
  "sign_rx = opt (Cls (\<lambda>c. c = CHR ''+'' \<or> c = CHR ''-''))"

definition float_rx :: rx where
  "float_rx =
     cat [Bol, Grp 1 sign_rx,
          alts [cat [Grp 2 digits_rx, opt (cat [Lit ''.'', opt (Grp 3 digits_rx)])],
                cat [Lit ''.'', Grp 3 digits_rx]],
          opt (cat [LitI ''e'', Grp 4 sign_rx, Grp 5 digits_rx]),
          EolS]"

definition digits_value :: "string \<Rightarrow> int" where
  "digits_value s = foldl (\<lambda>a c. if is_digit_c c then a * 10 + int (ord_c c) - 48 else a) 0 s"

definition digit_count :: "string \<Rightarrow> nat" where
  "digit_count s = length (filter is_digit_c s)"

definition group_or_empty :: "nat \<Rightarrow> string \<times> point \<Rightarrow> string" where
  "group_or_empty n h = (case grp n h of None \<Rightarrow> [] | Some s \<Rightarrow> s)"

definition py_float :: "string \<Rightarrow> rat option" where
  "py_float s =
     (case search float_rx (strip s) of
        None \<Rightarrow> None
      | Some h \<Rightarrow>
          let fp = group_or_empty 3 h; ep = nat (digits_value (group_or_empty 5 h));
              m = of_int (digits_value (group_or_empty 2 h))
                  + of_int (digits_value fp) / 10 ^ digit_count fp;
              v = (if group_or_empty 4 h = ''-'' then m / 10 ^ ep else m * 10 ^ ep)
          in Some (if group_or_empty 1 h = ''-'' then - v else v))"

definition py_upper :: "string \<Rightarrow> string" where
  "py_upper s = map (\<lambda>c. if lower_az c then char_of (ord_c c - 32) else c) s"

definition price_for :: "(string, string) dict \<Rightarrow> tier \<Rightarrow> rat \<times> rat" where
  "price_for env t =
     (let raw = dict_get env (''SWEFORGE_PRICE_'' @ py_upper (tier_text t)) []
      in if raw \<noteq> [] then
           (case map py_float (split_on (CHR '','') raw) of
              [Some inp, Some out] \<Rightarrow> (inp, out)
            | _ \<Rightarrow> default_price t)
         else default_price t)"

definition estimate_cost :: "(string, string) dict \<Rightarrow> tier \<Rightarrow> int \<Rightarrow> int \<Rightarrow> rat" where
  "estimate_cost env t input_tokens output_tokens =
     (case price_for env t of (price_in, price_out) \<Rightarrow>
        py_round 8 (of_int input_tokens / 1000000 * price_in
                    + of_int output_tokens / 1000000 * price_out))"

subsection \<open>Tracking a call\<close>

text \<open>
  \<open>track node spec usage elapsed outcome r\<close> is what leaving the \<open>with router.track(node, spec)\<close>
  block does, for a body that ended with \<open>outcome\<close> after \<open>elapsed\<close> seconds and left \<open>usage\<close> in the
  yielded dictionary: the counters of the role, the ledger record, and the outcome passed on (an
  exception is raised again).
\<close>

definition or_zero :: "int option \<Rightarrow> int" where
  "or_zero x = (case x of None \<Rightarrow> 0 | Some n \<Rightarrow> n)"

definition call_record ::
  "string \<Rightarrow> model_spec \<Rightarrow> int option \<times> int option \<Rightarrow> rat \<Rightarrow> 'a result \<Rightarrow> (string, string) dict
   \<Rightarrow> model_call_record" where
  "call_record node spec usage elapsed outcome env =
     \<lparr>mc_node = node, mc_role = ms_role spec, mc_tier = tier_text (ms_tier spec),
      mc_model = ms_model_id spec, mc_latency = py_round 6 elapsed,
      mc_input_tokens = fst usage, mc_output_tokens = snd usage,
      mc_cost = estimate_cost env (ms_tier spec) (or_zero (fst usage)) (or_zero (snd usage)),
      mc_ok = \<not> isl outcome,
      mc_error = (case outcome of Inl e \<Rightarrow> Some (exn_text e) | Inr _ \<Rightarrow> None)\<rparr>"

definition put_record :: "model_call_record \<Rightarrow> router \<Rightarrow> router" where
  "put_record c r = r\<lparr>ro_ledger := ledger_record c (ro_ledger r)\<rparr>"

definition track ::
  "string \<Rightarrow> model_spec \<Rightarrow> int option \<times> int option \<Rightarrow> rat \<Rightarrow> 'a result \<Rightarrow> router
   \<Rightarrow> 'a result \<times> router" where
  "track node spec usage elapsed outcome r =
     (let r1 = (if isl outcome
                then r\<lparr>ro_failures := dict_bump (ms_role spec) (ro_failures r)\<rparr>
                else r\<lparr>ro_successes := dict_bump (ms_role spec) (ro_successes r)\<rparr>)
      in (outcome, put_record (call_record node spec usage elapsed outcome (ro_env r)) r1))"

text \<open>
  \<open>extract_usage\<close>: a response is given by its two optional metadata dictionaries, and \<open>a or b\<close> on
  them takes \<open>b\<close> when \<open>a\<close> is missing or empty (a count when it is missing or zero).
\<close>

type_synonym token_usage = "(string, int option) dict"

record response_meta =
  re_usage_metadata :: "token_usage option"
  re_response_metadata :: "(string, token_usage) dict option"

definition usage_get :: "token_usage \<Rightarrow> string \<Rightarrow> int option" where
  "usage_get d k = dict_get d k None"

definition or_count :: "int option \<Rightarrow> int option \<Rightarrow> int option" where
  "or_count a b = (if a = None \<or> a = Some 0 then b else a)"

definition or_empty :: "'a list option \<Rightarrow> 'a list" where
  "or_empty d = (case d of None \<Rightarrow> [] | Some xs \<Rightarrow> xs)"

definition extract_usage :: "response_meta \<Rightarrow> int option \<times> int option" where
  "extract_usage response =
     (let meta = or_empty (re_usage_metadata response);
          raw = or_empty (re_response_metadata response);
          usage = (if dict_get raw ''usage'' [] \<noteq> [] then dict_get raw ''usage'' []
                   else dict_get raw ''token_usage'' [])
      in if meta \<noteq> [] then (usage_get meta ''input_tokens'', usage_get meta ''output_tokens'')
         else if usage \<noteq> [] then
           (or_count (usage_get usage ''input_tokens'') (usage_get usage ''prompt_tokens''),
            or_count (usage_get usage ''output_tokens'') (usage_get usage ''completion_tokens''))
         else (None, None))"

subsection \<open>Routing\<close>

lemma complexity_role_tiers:
  "list_all (\<lambda>role. dict_get role_tier role Balanced \<in> {Reasoning, Coding}) complexity_roles"
  by code_simp

lemma role_tier_complexity:
  "role \<in> set complexity_roles \<Longrightarrow> dict_get role_tier role Balanced \<in> {Reasoning, Coding}"
  using complexity_role_tiers unfolding list_all_iff by (rule bspec)

lemma resolve_tier_fst:
  "fst (resolve_tier r role c ls) =
     (let base = dict_get role_tier role Balanced;
          t = (if role \<in> set complexity_roles
               then (if c = Trivial then deescalate base else if c = Complex then escalate base
                     else base) else base);
          u = (if 2 \<le> dict_get (ro_failures r) role 0 then escalate t else t)
      in if ls \<and> u = Reasoning then Balanced else u)"
  by (simp add: resolve_tier_def Let_def split: if_splits)

lemma escalate_le: "t \<le> escalate t"
  by (cases t) (simp_all add: less_eq_tier_def)

definition complexity_effect :: "complexity \<Rightarrow> tier \<Rightarrow> tier" where
  "complexity_effect c t =
     (if c = Trivial then deescalate t else if c = Complex then escalate t else t)"

lemma complexity_effect_mono:
  "c \<le> c' \<Longrightarrow> t \<in> {Reasoning, Coding} \<Longrightarrow> complexity_effect c t \<le> complexity_effect c' t"
  by (cases c; cases c')
     (auto simp: complexity_effect_def less_eq_tier_def less_eq_complexity_def)

lemma escalate_mono:
  "t \<le> u \<Longrightarrow> escalate t \<le> escalate u"
  by (cases t; cases u) (simp_all add: less_eq_tier_def)

text \<open>
  Routing follows the size of the task and the observed failures. For every role the tier does
  not fall when the task gets more complex; a role that has failed at least twice never gets a
  weaker tier than the same role without failures; a latency-sensitive call never gets the
  reasoning tier; and the roles outside the plan, implement and review path ignore complexity.
\<close>

theorem routing_policy:
  "(\<forall>c c'. c \<le> c' \<longrightarrow> fst (resolve_tier r role c False) \<le> fst (resolve_tier r role c' False)) \<and>
   (dict_get (ro_failures r) role 0 < 2 \<longrightarrow>
      fst (resolve_tier r role c False)
        \<le> fst (resolve_tier (r\<lparr>ro_failures := dict_set role n (ro_failures r)\<rparr>) role c False)) \<and>
   fst (resolve_tier r role c True) \<noteq> Reasoning \<and>
   (role \<notin> set complexity_roles \<longrightarrow> resolve_tier r role c ls = resolve_tier r role c' ls)"
proof (intro conjI allI impI)
  fix c c' :: complexity
  assume "c \<le> c'"
  then show "fst (resolve_tier r role c False) \<le> fst (resolve_tier r role c' False)"
    using complexity_effect_mono [OF _ role_tier_complexity, of c c' role]
    by (auto simp: resolve_tier_fst complexity_effect_def [symmetric] Let_def intro: escalate_mono)
next
  assume "dict_get (ro_failures r) role 0 < 2"
  then show "fst (resolve_tier r role c False)
      \<le> fst (resolve_tier (r\<lparr>ro_failures := dict_set role n (ro_failures r)\<rparr>) role c False)"
    by (simp add: resolve_tier_fst dict_get_set Let_def escalate_le)
next
  show "fst (resolve_tier r role c True) \<noteq> Reasoning"
    by (simp add: resolve_tier_fst Let_def)
next
  assume "role \<notin> set complexity_roles"
  then show "resolve_tier r role c ls = resolve_tier r role c' ls"
    by (simp add: resolve_tier_def Let_def)
qed


theorem routing_policy_witness:
  "Simple \<le> Complex \<and>
   fst (resolve_tier (new_router []) ''implementation'' Simple False) = Coding \<and>
   fst (resolve_tier (new_router []) ''implementation'' Complex False) = Reasoning \<and>
   fst (resolve_tier (new_router []) ''implementation'' Simple False)
     \<le> fst (resolve_tier (new_router []) ''implementation'' Complex False)"
proof -
  have c: "Simple \<le> Complex" by (simp add: less_eq_complexity_def)
  have "fst (resolve_tier (new_router []) ''implementation'' Simple False)
     \<le> fst (resolve_tier (new_router []) ''implementation'' Complex False)"
    using routing_policy [of "new_router []" "''implementation''" Simple 0 False Complex] c by blast
  moreover have "fst (resolve_tier (new_router []) ''implementation'' Simple False) = Coding"
    and "fst (resolve_tier (new_router []) ''implementation'' Complex False) = Reasoning"
    by code_simp+
  ultimately show ?thesis using c by blast
qed

text \<open>
  The cap for latency-sensitive calls is not monotone: with it a complex implementation task gets a
  weaker tier than a moderate one, since only the reasoning tier is capped, and to balanced.
\<close>

lemma latency_cap_inverts:
  "fst (resolve_tier (new_router []) ''implementation'' Complex True) = Balanced \<and>
   fst (resolve_tier (new_router []) ''implementation'' Moderate True) = Coding"
  by code_simp

subsection \<open>The ledger is an append-only log\<close>

interpretation model_ledger: event_log ro_ledger put_record
  by unfold_locales (simp add: put_record_def ledger_record_def)

lemma put_record_simps [simp]:
  "ro_failures (put_record c r) = ro_failures r" "ro_successes (put_record c r) = ro_successes r"
  "ro_env (put_record c r) = ro_env r"
  by (simp_all add: put_record_def)

record tracked_call =
  tc_node :: string
  tc_spec :: model_spec
  tc_usage :: "int option \<times> int option"
  tc_elapsed :: rat
  tc_outcome :: "unit result"

definition track_call :: "router \<Rightarrow> tracked_call \<Rightarrow> router" where
  "track_call r c =
     snd (track (tc_node c) (tc_spec c) (tc_usage c) (tc_elapsed c) (tc_outcome c) r)"

definition calls_of :: "bool \<Rightarrow> string \<Rightarrow> ledger \<Rightarrow> nat" where
  "calls_of good role l = length (filter (\<lambda>c. mc_role c = role \<and> mc_ok c = good) l)"

definition counters_agree :: "router \<Rightarrow> bool" where
  "counters_agree r \<longleftrightarrow>
     (\<forall>role. dict_get (ro_failures r) role 0 = calls_of False role (ro_ledger r) \<and>
             dict_get (ro_successes r) role 0 = calls_of True role (ro_ledger r))"

lemma track_call_ledger:
  "ro_ledger (track_call r c) =
     ro_ledger r @ [call_record (tc_node c) (tc_spec c) (tc_usage c) (tc_elapsed c) (tc_outcome c)
                      (ro_env r)]"
  by (simp add: track_call_def track_def model_ledger.entries_put Let_def)

lemma track_call_agree: "counters_agree r \<Longrightarrow> counters_agree (track_call r c)"
  unfolding counters_agree_def track_call_ledger
  by (auto simp: track_call_def track_def calls_of_def call_record_def dict_get_bump Let_def)

lemma tracked_agree: "counters_agree r \<Longrightarrow> counters_agree (foldl track_call r cs)"
  by (induction cs arbitrary: r) (simp_all add: track_call_agree)

lemma tracked_length: "length (ro_ledger (foldl track_call r cs)) = length (ro_ledger r) + length cs"
  by (induction cs arbitrary: r) (simp_all add: track_call_ledger)

lemma by_tier_get:
  "dict_get (foldl (\<lambda>d c. dict_bump (mc_tier c) d) d l) t 0 =
     dict_get d t 0 + length (filter (\<lambda>c. mc_tier c = t) l)"
  by (induction l arbitrary: d) (simp_all add: dict_get_bump)

lemma filter_split: "length (filter P l) + length (filter (\<lambda>x. \<not> P x) l) = length l"
  by (induction l) simp_all

text \<open>
  The escalation counters never disagree with the telemetry. After any sequence of tracked
  calls the ledger holds exactly one record for each call, the failure and success counters of every
  role equal the number of failed and successful records of that role, and the counts by tier of the
  summary equal the records of that tier.
\<close>

theorem tracked_calls_accounted:
  fixes cs :: "tracked_call list" and env :: "(string, string) dict"
  defines "r \<equiv> foldl track_call (new_router env) cs"
  shows "total_calls (ro_ledger r) = length cs \<and>
    dict_get (ro_failures r) role 0 = calls_of False role (ro_ledger r) \<and>
    dict_get (ro_successes r) role 0 = calls_of True role (ro_ledger r) \<and>
    dict_get (ls_by_tier (summarise_ledger (ro_ledger r))) t 0
      = length (filter (\<lambda>c. mc_tier c = t) (ro_ledger r)) \<and>
    ls_failures (summarise_ledger (ro_ledger r)) + length (filter mc_ok (ro_ledger r)) = length cs"
proof -
  have "counters_agree (new_router env)"
    by (simp add: counters_agree_def new_router_def calls_of_def)
  then have "counters_agree r" unfolding r_def by (rule tracked_agree)
  moreover have "length (ro_ledger r) = length cs"
    unfolding r_def by (simp add: tracked_length new_router_def)
  ultimately show ?thesis
    using filter_split [of mc_ok "ro_ledger r"]
    by (simp add: counters_agree_def total_calls_def summarise_ledger_def by_tier_def by_tier_get)
qed

lemma price_override:
  "price_for [(''SWEFORGE_PRICE_FAST'', ''0.5, 2'')] Fast = (1 / 2, 2) \<and>
   price_for [(''SWEFORGE_PRICE_FAST'', ''0.5;2'')] Fast = (1, 5) \<and>
   py_float ''-1_0.25e2'' = Some (- 1025)"
  by code_simp

lemma estimate_cost_nonneg:
  assumes "0 \<le> fst (price_for env t)" and "0 \<le> snd (price_for env t)"
    and "0 \<le> i" and "0 \<le> j"
  shows "0 \<le> estimate_cost env t i j"
  using assms
  by (auto simp: estimate_cost_def split: prod.splits intro!: py_round_nonneg add_nonneg_nonneg
        mult_nonneg_nonneg)

end
