(* ===== verification/Tool_Errors.thy ===== *)
theory Tool_Errors
  imports Regex
begin

section \<open>Tool error classification and response policy\<close>

text \<open>
  Models \<open>agent/sweforge/tools/errors.py\<close>: the ordered table of error patterns, the table of
  actions, and \<open>ToolErrorPolicy\<close>. A category of the code is a string of a closed set; here it is
  a constructor. The lemmas show that the two tables agree (what is flagged retryable is what the
  action table retries), that the bound on retries holds, and the priority of the table.
\<close>

datatype tool_action = ActNone | ReturnToAgent | Retry | Fallback | Skip | Escalate

datatype tool_category =
    ValidationErr | TimeoutErr | PermissionErr | NotFoundErr | TransientErr | PermanentErr

record tool_classification =
  tc_category :: tool_category
  tc_message :: string
  tc_retryable :: bool

record tool_decision =
  td_action :: tool_action
  td_reason :: string
  td_backoff :: rat

record tool_policy =
  tp_max_retries :: nat
  tp_base_backoff :: rat

fun category_text :: "tool_category \<Rightarrow> string" where
  "category_text ValidationErr = ''validation_error''"
| "category_text TimeoutErr = ''timeout''"
| "category_text PermissionErr = ''permission_error''"
| "category_text NotFoundErr = ''not_found''"
| "category_text TransientErr = ''transient_error''"
| "category_text PermanentErr = ''permanent_error''"

subsection \<open>The pattern table\<close>

definition validation_rx :: rx where
  "validation_rx = alts
     [LitI ''ValidationError'', LitI ''validation error'', LitI ''invalid argument'',
      LitI ''TypeError'', cat [LitI ''missing '', plus1 digit, LitI '' required'']]"

definition timeout_rx :: rx where
  "timeout_rx = alts
     [cat [Wb, LitI ''timeout'', Wb], LitI ''timed out'', LitI ''TimeoutError'',
      LitI ''deadline exceeded'']"

definition permission_rx :: rx where
  "permission_rx = alts
     [LitI ''PermissionError'', LitI ''permission denied'', LitI ''forbidden'', LitI ''401'',
      LitI ''403'', LitI ''unauthorized'', LitI ''not authorized'']"

definition not_found_rx :: rx where
  "not_found_rx = alts
     [LitI ''FileNotFoundError'', LitI ''not found'', LitI ''404'', LitI ''does not exist'',
      LitI ''no such file'']"

definition transient_rx :: rx where
  "transient_rx = alts
     [LitI ''ConnectionError'', LitI ''connection reset'', LitI ''temporarily unavailable'',
      LitI ''rate limit'', LitI ''429'',
      cat [LitI ''50'', Cls (\<lambda>c. c = CHR ''2'' \<or> c = CHR ''3'')],
      LitI ''EAGAIN'', LitI ''try again'']"

definition error_patterns :: "(tool_category \<times> rx \<times> bool) list" where
  "error_patterns =
     [(ValidationErr, validation_rx, False), (TimeoutErr, timeout_rx, True),
      (PermissionErr, permission_rx, False), (NotFoundErr, not_found_rx, False),
      (TransientErr, transient_rx, True)]"

definition error_actions :: "(tool_category, tool_action) dict" where
  "error_actions =
     [(ValidationErr, ReturnToAgent), (TimeoutErr, Retry), (TransientErr, Retry),
      (PermissionErr, Escalate), (NotFoundErr, Skip), (PermanentErr, Escalate)]"

subsection \<open>The policy\<close>

definition default_tool_policy :: tool_policy where
  "default_tool_policy = \<lparr>tp_max_retries = 2, tp_base_backoff = 0\<rparr>"

fun classify_with :: "(tool_category \<times> rx \<times> bool) list \<Rightarrow> string \<Rightarrow> tool_classification" where
  "classify_with [] t =
     \<lparr>tc_category = PermanentErr, tc_message = take 400 t, tc_retryable = False\<rparr>"
| "classify_with ((c, r, b) # ps) t =
     (if matches r t then \<lparr>tc_category = c, tc_message = take 400 t, tc_retryable = b\<rparr>
      else classify_with ps t)"

definition classify_text :: "string \<Rightarrow> tool_classification" where
  "classify_text t = classify_with error_patterns t"

definition classify_exception :: "exn \<Rightarrow> tool_classification" where
  "classify_exception e = classify_text (exn_text e)"

text \<open>
  The result of a tool: a dictionary, of which the policy and the loop read the keys \<open>ok\<close> and
  \<open>error\<close> and the printed form, or any other value, of which they read the printed form.
\<close>

datatype payload =
    PDict (p_ok: "bool option") (p_error: "string option") (p_repr: string)
  | POther (p_repr: string)

fun classify_payload :: "payload \<Rightarrow> tool_classification" where
  "classify_payload (PDict ok err s) =
     classify_text (case err of None \<Rightarrow> s | Some e \<Rightarrow> if e = [] then s else e)"
| "classify_payload (POther s) = classify_text s"

definition action_of :: "tool_category \<Rightarrow> tool_action" where
  "action_of c = dict_get error_actions c Escalate"

definition decide :: "tool_policy \<Rightarrow> tool_classification \<Rightarrow> nat \<Rightarrow> tool_decision" where
  "decide p c attempt =
     (let action = action_of (tc_category c); name = category_text (tc_category c)
      in if action = Retry then
           (if attempt > tp_max_retries p then
              \<lparr>td_action = Escalate,
               td_reason = name @ '' persisted after '' @ show_nat attempt @ '' attempts'',
               td_backoff = 0\<rparr>
            else
              \<lparr>td_action = Retry,
               td_reason = name @ '' is retryable (attempt '' @ show_nat attempt @ '')'',
               td_backoff = tp_base_backoff p * (2 ^ attempt / 2)\<rparr>)
         else \<lparr>td_action = action, td_reason = name @ '' is not retryable'', td_backoff = 0\<rparr>)"

subsection \<open>Facts about the tables\<close>

lemma action_of_simps [simp]:
  "action_of ValidationErr = ReturnToAgent" "action_of TimeoutErr = Retry"
  "action_of TransientErr = Retry" "action_of PermissionErr = Escalate"
  "action_of NotFoundErr = Skip" "action_of PermanentErr = Escalate"
  by (simp_all add: action_of_def error_actions_def dict_get_def)

lemma action_of_Retry: "action_of c = Retry \<longleftrightarrow> c = TimeoutErr \<or> c = TransientErr"
  by (cases c) simp_all

lemma classify_with_mem:
  "(tc_category (classify_with ps t), tc_retryable (classify_with ps t)) \<in>
     insert (PermanentErr, False) ((\<lambda>(c, r, b). (c, b)) ` set ps)"
  by (induction ps t rule: classify_with.induct) auto

lemma classify_text_cases:
  "(tc_category (classify_text t), tc_retryable (classify_text t)) \<in>
     {(PermanentErr, False), (ValidationErr, False), (TimeoutErr, True), (PermissionErr, False),
      (NotFoundErr, False), (TransientErr, True)}"
  using classify_with_mem [of error_patterns t] by (simp add: classify_text_def error_patterns_def)

lemma classify_text_category:
  "tc_category (classify_text t) =
     (if matches validation_rx t then ValidationErr
      else if matches timeout_rx t then TimeoutErr
      else if matches permission_rx t then PermissionErr
      else if matches not_found_rx t then NotFoundErr
      else if matches transient_rx t then TransientErr
      else PermanentErr)"
  by (simp add: classify_text_def error_patterns_def)

lemma decide_action:
  "td_action (decide p c n) =
     (if action_of (tc_category c) = Retry then (if n > tp_max_retries p then Escalate else Retry)
      else action_of (tc_category c))"
  by (simp add: decide_def Let_def)

lemma decide_Retry:
  "td_action (decide p c n) = Retry \<longleftrightarrow>
     (tc_category c = TimeoutErr \<or> tc_category c = TransientErr) \<and> n \<le> tp_max_retries p"
  by (auto simp: decide_action action_of_Retry split: if_splits)

lemma matches_validation:
  "contains ''validationerror'' (py_lower t) \<Longrightarrow> matches validation_rx t"
proof -
  assume "contains ''validationerror'' (py_lower t)"
  moreover have "py_lower ''ValidationError'' = ''validationerror''" by code_simp
  ultimately have "matches (LitI ''ValidationError'') t" by (simp add: matches_LitI)
  then show ?thesis unfolding validation_rx_def by (rule matches_alts_mem [rotated]) simp
qed

subsection \<open>Properties of the policy\<close>

text \<open>The table of patterns and the table of actions agree: a failure is flagged retryable
  exactly when the policy retries it at its first attempt (with at least one retry allowed),
  whatever the text of the error is.\<close>

theorem retryable_iff_retried:
  assumes "0 < tp_max_retries p"
  shows "tc_retryable (classify_text t) \<longleftrightarrow> td_action (decide p (classify_text t) 1) = Retry"
  using assms classify_text_cases [of t] by (auto simp: decide_action)

theorem retryable_iff_retried_witness:
  "tc_retryable (classify_text ''HTTP 429'') \<longleftrightarrow>
     td_action (decide default_tool_policy (classify_text ''HTTP 429'') 1) = Retry"
  by (rule retryable_iff_retried) (simp add: default_tool_policy_def)

end
