(* ===== verification/Execution_Policy.thy ===== *)
theory Execution_Policy
  imports Model_Router Budget "HOL-Library.Sublist"
begin

section \<open>Model execution policy: retry, then fall back\<close>

text \<open>
  Models \<open>agent/sweforge/routing/execution_policy.py\<close>: the two patterns, \<open>classify\<close>, the nested
  loops of \<open>ModelExecutionPolicy.execute\<close> with their attempt log, the reporting properties, and
  \<open>fallback_chain\<close>. The operation that is run against a model and the clock are parameters that
  act on a state \<open>'w\<close> of the outside world: an operation returns its result or raises, and may
  change the world either way.

  The lemmas show that the two tables agree, the exact shape of the attempt log (models in order,
  attempts numbered from one, at most \<open>max_retries_per_model + 1\<close> for each), when a fallback is
  spent, that a budget refusal ends the execution at once, and that a fallback chain never repeats a
  model.
\<close>

subsection \<open>Patterns and classification\<close>

definition timeout_parts :: "rx list" where
  "timeout_parts = [cat [Wb, LitI ''timeout'', Wb], LitI ''timed out'']"

definition rate_limit_parts :: "rx list" where
  "rate_limit_parts = [cat [LitI ''rate'', opt dot, LitI ''limit''], LitI ''429'']"

definition retryable_parts :: "rx list" where
  "retryable_parts =
     timeout_parts @ rate_limit_parts @
     [cat [LitI ''50'', Cls (\<lambda>c. c \<in> set ''0234'')], LitI ''overloaded'',
      LitI ''temporarily unavailable'',
      cat [LitI ''connection '', alts [LitI ''reset'', LitI ''error'', LitI ''aborted'']],
      LitI ''try again'']"

definition fallback_parts :: "rx list" where
  "fallback_parts =
     [cat [LitI ''context'', opt dot, LitI ''length''], LitI ''too many tokens'',
      LitI ''maximum context'', LitI ''model not found'', LitI ''does not exist'',
      LitI ''unsupported'', LitI ''not available'', LitI ''deprecated'', LitI ''overloaded'',
      cat [LitI ''50'', Cls (\<lambda>c. c \<in> set ''023'')]]"

datatype attempt_status = Success | Timeout | RateLimit | Transient | ErrorStatus

fun status_text :: "attempt_status \<Rightarrow> string" where
  "status_text Success = ''success''"
| "status_text Timeout = ''timeout''"
| "status_text RateLimit = ''rate_limit''"
| "status_text Transient = ''transient''"
| "status_text ErrorStatus = ''error''"

definition classify :: "exn \<Rightarrow> attempt_status" where
  "classify e =
     (let t = exn_text e
      in if matches (alts timeout_parts) t then Timeout
         else if matches (alts rate_limit_parts) t then RateLimit
         else if matches (alts retryable_parts) t then Transient
         else ErrorStatus)"

definition is_retryable :: "exn \<Rightarrow> bool" where
  "is_retryable e = matches (alts retryable_parts) (exn_text e)"

definition should_fallback :: "exn \<Rightarrow> bool" where
  "should_fallback e =
     (matches (alts fallback_parts) (exn_text e) \<or> matches (alts retryable_parts) (exn_text e))"

subsection \<open>The attempt log\<close>

record model_attempt =
  at_model :: string
  at_tier :: tier
  at_attempt :: nat
  at_status :: attempt_status
  at_latency :: rat
  at_error :: "string option"
  at_was_fallback :: bool

definition attempt_dict :: "model_attempt \<Rightarrow> model_attempt" where
  "attempt_dict a = a\<lparr>at_latency := py_round 4 (at_latency a)\<rparr>"

definition all_models_failed :: "model_attempt list \<Rightarrow> exn" where
  "all_models_failed as =
     Raised ''AllModelsFailed''
       (''all models failed after '' @ show_nat (length as) @ '' attempt(s): '' @
        join ''; '' (map (\<lambda>a. at_model a @ ''#'' @ show_nat (at_attempt a) @ ''=''
                              @ status_text (at_status a)) as))"

record execution_policy =
  ep_max_retries :: nat
  ep_base_backoff :: rat

definition default_execution_policy :: execution_policy where
  "default_execution_policy = \<lparr>ep_max_retries = 2, ep_base_backoff = 0\<rparr>"

subsection \<open>Execution\<close>

record 'w platform =
  cw_now :: "'w \<Rightarrow> rat"
  cw_sleep :: "rat \<Rightarrow> 'w \<Rightarrow> 'w"

record 'w exec_state =
  xs_attempts :: "model_attempt list"
  xs_budget :: "budget option"
  xs_world :: 'w

definition admit :: "'w platform \<Rightarrow> ('w exec_state, unit) action" where
  "admit cw s =
     (case xs_budget s of
        None \<Rightarrow> (Inr (), s)
      | Some b \<Rightarrow>
          (case check_model_call (cw_now cw (xs_world s)) 1 b of
             (r, b') \<Rightarrow> (r, s\<lparr>xs_budget := Some b'\<rparr>)))"

definition log_attempt :: "model_attempt \<Rightarrow> 'w exec_state \<Rightarrow> 'w exec_state" where
  "log_attempt a s = s\<lparr>xs_attempts := xs_attempts s @ [a]\<rparr>"

text \<open>
  \<open>one_attempt\<close> is the body of the \<open>while\<close> loop for attempt \<open>n\<close>: it leaves the loop (with a
  result, by propagating an exception, or by \<open>break\<close>), or it continues after a failure that is worth
  retrying. \<open>model_loop\<close> is the loop; it moves on with the last exception seen.
\<close>

datatype 'a loop_exit = Returned 'a | Propagated exn | MovedOn "exn option"

datatype 'a attempt_exit = Leave "'a loop_exit" | Continue exn

definition one_attempt ::
  "execution_policy \<Rightarrow> 'w platform \<Rightarrow> (model_spec \<Rightarrow> ('w, 'a) action) \<Rightarrow> model_spec \<Rightarrow> bool
   \<Rightarrow> nat \<Rightarrow> 'w exec_state \<Rightarrow> 'a attempt_exit \<times> 'w exec_state" where
  "one_attempt p cw op spec fb n s =
     (case admit cw s of
        (Inl e, s1) \<Rightarrow> (Leave (Propagated e), s1)
      | (Inr _, s1) \<Rightarrow>
          (case op spec (xs_world s1) of
             (outcome, w) \<Rightarrow>
               let elapsed = cw_now cw w - cw_now cw (xs_world s1);
                   s2 = s1\<lparr>xs_world := w\<rparr>;
                   entry = \<lparr>at_model = ms_model_id spec, at_tier = ms_tier spec, at_attempt = n,
                            at_status = Success, at_latency = elapsed, at_error = None,
                            at_was_fallback = fb\<rparr>
               in (case outcome of
                     Inr x \<Rightarrow> (Leave (Returned x), log_attempt entry s2)
                   | Inl (BudgetExceeded l a b) \<Rightarrow> (Leave (Propagated (BudgetExceeded l a b)), s2)
                   | Inl (Raised c m) \<Rightarrow>
                       let e = Raised c m;
                           s3 = log_attempt (entry\<lparr>at_status := classify e,
                                                  at_error := Some (take 300 (exn_text e))\<rparr>) s2
                       in if is_retryable e \<and> n \<le> ep_max_retries p
                          then (Continue e,
                                if ep_base_backoff p \<noteq> 0
                                then s3\<lparr>xs_world :=
                                          cw_sleep cw (ep_base_backoff p * 2 ^ (n - 1)) (xs_world s3)\<rparr>
                                else s3)
                          else (Leave (MovedOn (Some e)), s3))))"

function model_loop ::
  "execution_policy \<Rightarrow> 'w platform \<Rightarrow> (model_spec \<Rightarrow> ('w, 'a) action) \<Rightarrow> model_spec \<Rightarrow> bool
   \<Rightarrow> nat \<Rightarrow> exn option \<Rightarrow> 'w exec_state \<Rightarrow> 'a loop_exit \<times> 'w exec_state" where
  "model_loop p cw op spec fb attempt last_exc s =
     (if attempt < ep_max_retries p + 1 then
        (case one_attempt p cw op spec fb (attempt + 1) s of
           (Leave r, s') \<Rightarrow> (r, s')
         | (Continue e, s') \<Rightarrow> model_loop p cw op spec fb (attempt + 1) (Some e) s')
      else (MovedOn last_exc, s))"
  by pat_completeness auto
termination
  by (relation "measure (\<lambda>(p, cw, op, spec, fb, attempt, l, s). ep_max_retries p + 1 - attempt)") auto

declare model_loop.simps [simp del]

text \<open>All models, in order; \<open>fb\<close> is \<open>index > 0\<close>.\<close>

fun models_loop ::
  "execution_policy \<Rightarrow> 'w platform \<Rightarrow> (model_spec \<Rightarrow> ('w, 'a) action) \<Rightarrow> model_spec list \<Rightarrow> bool
   \<Rightarrow> exn option \<Rightarrow> ('w exec_state, 'a) action" where
  "models_loop p cw op [] fb last_exc s = (Inl (all_models_failed (xs_attempts s)), s)"
| "models_loop p cw op (spec # specs) fb last_exc s =
     (case model_loop p cw op spec fb 0 last_exc s of
        (Returned x, s') \<Rightarrow> (Inr x, s')
      | (Propagated e, s') \<Rightarrow> (Inl e, s')
      | (MovedOn l, s') \<Rightarrow>
          if (case l of None \<Rightarrow> False | Some e \<Rightarrow> \<not> should_fallback e)
          then (Inl (all_models_failed (xs_attempts s')), s')
          else models_loop p cw op specs True l s')"

definition execute ::
  "execution_policy \<Rightarrow> 'w platform \<Rightarrow> (model_spec \<Rightarrow> ('w, 'a) action) \<Rightarrow> model_spec list
   \<Rightarrow> ('w exec_state, 'a) action" where
  "execute p cw op specs s =
     (if specs = [] then (Inl (Raised ''ValueError'' ''no model specs supplied''), s)
      else models_loop p cw op specs False None s)"

definition fallback_used :: "model_attempt list \<Rightarrow> bool" where
  "fallback_used as = list_ex at_was_fallback as"

definition retry_count :: "model_attempt list \<Rightarrow> nat" where
  "retry_count as = length (filter (\<lambda>a. 1 < at_attempt a) as)"

record execution_summary =
  es_attempts :: "model_attempt list"
  es_total :: nat
  es_fallback_used :: bool
  es_retry_count :: nat
  es_succeeded :: bool

definition execution_summary_of :: "model_attempt list \<Rightarrow> execution_summary" where
  "execution_summary_of as =
     \<lparr>es_attempts = map attempt_dict as, es_total = length as, es_fallback_used = fallback_used as,
      es_retry_count = retry_count as,
      es_succeeded = list_ex (\<lambda>a. at_status a = Success) as\<rparr>"

subsection \<open>The fallback chain\<close>

definition tier_order :: "tier list" where
  "tier_order = [Reasoning, Coding, Balanced, Fast]"

fun extend_chain ::
  "router \<Rightarrow> string \<Rightarrow> tier list \<Rightarrow> string list \<Rightarrow> model_spec list \<Rightarrow> model_spec list" where
  "extend_chain r role [] seen chain = chain"
| "extend_chain r role (t # ts) seen chain =
     (let model = snd (tier_model r t)
      in if model \<in> set seen then extend_chain r role ts seen chain
         else extend_chain r role ts (model # seen)
                (chain @ [\<lparr>ms_role = role, ms_tier = t, ms_model_id = model,
                           ms_reason = ''fallback tier '' @ quoted (tier_text t) @ '' for role ''
                                       @ quoted role\<rparr>]))"

definition fallback_chain :: "router \<Rightarrow> string \<Rightarrow> complexity \<Rightarrow> model_spec list" where
  "fallback_chain r role c =
     (let primary = rd_spec (select r role c False)
      in extend_chain r role (tl (dropWhile (\<lambda>t. t \<noteq> ms_tier primary) tier_order))
           [ms_model_id primary] [primary])"

subsection \<open>The tables agree\<close>

lemma matches_alts_subset:
  assumes "matches (alts rs) t" and "set rs \<subseteq> set qs" and "rs \<noteq> []"
  shows "matches (alts qs) t"
  using assms matches_alts [of rs t] by (meson matches_alts_mem subsetD)

lemma classify_error_iff: "classify e = ErrorStatus \<longleftrightarrow> \<not> is_retryable e"
proof -
  have "matches (alts timeout_parts) (exn_text e) \<Longrightarrow> is_retryable e"
    unfolding is_retryable_def
    by (erule matches_alts_subset) (auto simp: retryable_parts_def timeout_parts_def)
  moreover have "matches (alts rate_limit_parts) (exn_text e) \<Longrightarrow> is_retryable e"
    unfolding is_retryable_def
    by (erule matches_alts_subset) (auto simp: retryable_parts_def rate_limit_parts_def)
  ultimately show ?thesis
    by (auto simp: classify_def Let_def is_retryable_def [symmetric])
qed

lemma classify_not_Success [simp]: "classify e \<noteq> Success"
  by (simp add: classify_def Let_def)

lemma retryable_falls_back: "is_retryable e \<Longrightarrow> should_fallback e"
  by (simp add: is_retryable_def should_fallback_def)

subsection \<open>The shape of the attempt log\<close>

definition attempt_tag :: "model_attempt \<Rightarrow> string \<times> nat \<times> bool" where
  "attempt_tag a = (at_model a, at_attempt a, at_was_fallback a)"

definition attempts_from :: "model_spec \<Rightarrow> bool \<Rightarrow> nat \<Rightarrow> nat \<Rightarrow> (string \<times> nat \<times> bool) list" where
  "attempts_from spec fb k n = map (\<lambda>i. (ms_model_id spec, i, fb)) [Suc k..<Suc (k + n)]"

fun log_shape :: "nat \<Rightarrow> bool \<Rightarrow> model_spec list \<Rightarrow> (string \<times> nat \<times> bool) list \<Rightarrow> bool" where
  "log_shape m fb [] ts \<longleftrightarrow> ts = []"
| "log_shape m fb (spec # specs) ts \<longleftrightarrow>
     (\<exists>k \<le> Suc m. take k ts = attempts_from spec fb 0 k \<and> log_shape m True specs (drop k ts))"

fun succeeded_last :: "bool \<Rightarrow> model_attempt list \<Rightarrow> bool" where
  "succeeded_last ok [] \<longleftrightarrow> \<not> ok"
| "succeeded_last ok (a # as) \<longleftrightarrow>
     (if as = [] then (at_status a = Success) = ok
      else at_status a \<noteq> Success \<and> succeeded_last ok as)"

lemma attempts_from_0 [simp]: "attempts_from spec fb k 0 = []"
  by (simp add: attempts_from_def)

lemma attempts_from_Suc:
  "attempts_from spec fb k (Suc n) = (ms_model_id spec, Suc k, fb) # attempts_from spec fb (Suc k) n"
  by (simp add: attempts_from_def upt_conv_Cons del: upt_Suc)

lemma length_attempts_from [simp]: "length (attempts_from spec fb k n) = n"
  by (simp add: attempts_from_def)

lemma succeeded_last_Cons_fail:
  "at_status a \<noteq> Success \<Longrightarrow> succeeded_last ok as \<Longrightarrow> succeeded_last ok (a # as)"
  by (cases as) auto

lemma succeeded_last_append:
  "succeeded_last False as \<Longrightarrow> succeeded_last ok bs \<Longrightarrow> succeeded_last ok (as @ bs)"
  by (induction as) (auto split: if_splits intro: succeeded_last_Cons_fail)

lemma succeeded_last_iff: "succeeded_last ok as \<longleftrightarrow>
    (\<forall>a \<in> set (butlast as). at_status a \<noteq> Success) \<and>
    (if as = [] then \<not> ok else (at_status (last as) = Success) = ok)"
  by (induction as) auto

lemma log_shape_Nil [simp]: "log_shape m fb specs []"
  by (induction specs arbitrary: fb) (auto intro!: exI [of _ 0])

lemma admit_simps [simp]:
  assumes "admit cw s = (r, s')"
  shows "xs_attempts s' = xs_attempts s" and "xs_world s' = xs_world s"
  using assms by (auto simp: admit_def split: option.splits prod.splits)

lemma admit_raises: "admit cw s = (Inl e, s') \<Longrightarrow> \<exists>l x y. e = BudgetExceeded l x y"
proof (cases "xs_budget s")
  case (Some b)
  assume "admit cw s = (Inl e, s')"
  with Some obtain b' where "check_model_call (cw_now cw (xs_world s)) 1 b = (Inl e, b')"
    by (cases "check_model_call (cw_now cw (xs_world s)) 1 b") (simp add: admit_def)
  then show ?thesis by (rule check_refuses [OF check_like_model]) blast
qed (simp add: admit_def)

text \<open>
  \<open>loop_log\<close> is what one model adds to the log: attempts numbered from \<open>Suc k\<close>, all of the same
  model, of which only the last may be successful, and only when the loop returns.
\<close>

definition loop_log ::
  "execution_policy \<Rightarrow> model_spec \<Rightarrow> bool \<Rightarrow> nat \<Rightarrow> 'a loop_exit \<Rightarrow> model_attempt list \<Rightarrow> bool" where
  "loop_log p spec fb k r new \<longleftrightarrow>
     k + length new \<le> Suc (ep_max_retries p) \<and>
     map attempt_tag new = attempts_from spec fb k (length new) \<and>
     succeeded_last (case r of Returned x \<Rightarrow> True | _ \<Rightarrow> False) new \<and>
     (\<forall>e. r = Propagated e \<longrightarrow> (\<exists>l x y. e = BudgetExceeded l x y))"

lemma one_attempt_log:
  assumes "one_attempt p cw op spec fb (Suc k) s = (r, s')" and "k \<le> ep_max_retries p"
  shows "\<exists>new. xs_attempts s' = xs_attempts s @ new \<and>
    (case r of
       Leave x \<Rightarrow> loop_log p spec fb k x new
     | Continue e \<Rightarrow> k < ep_max_retries p \<and>
         (\<exists>a. new = [a] \<and> attempt_tag a = (ms_model_id spec, Suc k, fb) \<and> at_status a \<noteq> Success))"
proof -
  obtain g s1 where g: "admit cw s = (g, s1)" by fastforce
  obtain out w where o: "op spec (xs_world s1) = (out, w)" by fastforce
  from g have att: "xs_attempts s1 = xs_attempts s" by simp
  consider e where "g = Inl e" | x where "g = Inr ()" "out = Inr x"
    | l a b where "g = Inr ()" "out = Inl (BudgetExceeded l a b)"
    | c m where "g = Inr ()" "out = Inl (Raised c m)"
    by (metis exn.exhaust old.unit.exhaust sum.exhaust)
  then show ?thesis
  proof cases
    case 1
    with g assms admit_raises [of cw s _ s1] att show ?thesis
      by (auto simp: one_attempt_def loop_log_def)
  next
    case 2
    with g o assms att show ?thesis
      by (auto simp: one_attempt_def loop_log_def log_attempt_def attempt_tag_def attempts_from_Suc)
  next
    case 3
    with g o assms att show ?thesis by (auto simp: one_attempt_def loop_log_def)
  next
    case 4
    with g o assms att show ?thesis
      by (auto simp: one_attempt_def loop_log_def log_attempt_def attempt_tag_def attempts_from_Suc
          Let_def split: if_splits)
  qed
qed

lemma loop_log_Cons:
  "attempt_tag a = (ms_model_id spec, Suc k, fb) \<Longrightarrow> at_status a \<noteq> Success \<Longrightarrow>
   loop_log p spec fb (Suc k) r new \<Longrightarrow> loop_log p spec fb k r (a # new)"
  by (auto simp: loop_log_def attempts_from_Suc)

lemma model_loop_log:
  "model_loop p cw op spec fb k l s = (r, s') \<Longrightarrow> k \<le> Suc (ep_max_retries p) \<Longrightarrow>
   \<exists>new. xs_attempts s' = xs_attempts s @ new \<and> loop_log p spec fb k r new"
proof (induction "Suc (ep_max_retries p) - k" arbitrary: k l s rule: less_induct)
  case less
  show ?case
  proof (cases "k < ep_max_retries p + 1")
    case False
    with less.prems show ?thesis
      by (subst (asm) model_loop.simps) (auto simp: loop_log_def)
  next
    case k: True
    obtain q s1 where q: "one_attempt p cw op spec fb (Suc k) s = (q, s1)" by fastforce
    note run = less.prems(1) [unfolded model_loop.simps [of p cw op spec fb k]]
    show ?thesis
    proof (cases q)
      case (Leave x)
      with run q k have "x = r" "s1 = s'" by simp_all
      with one_attempt_log [OF q] Leave k show ?thesis by auto
    next
      case (Continue e)
      with run q k have again: "model_loop p cw op spec fb (Suc k) (Some e) s1 = (r, s')" by simp
      from one_attempt_log [OF q] Continue k obtain a where a: "k < ep_max_retries p"
        "xs_attempts s1 = xs_attempts s @ [a]" "attempt_tag a = (ms_model_id spec, Suc k, fb)"
        "at_status a \<noteq> Success" by auto
      have "Suc (ep_max_retries p) - Suc k < Suc (ep_max_retries p) - k" using k by simp
      from less.hyps [OF this again] a(1) obtain new where
        "xs_attempts s' = xs_attempts s1 @ new" "loop_log p spec fb (Suc k) r new" by auto
      with a(2-4) show ?thesis by (auto intro: loop_log_Cons)
    qed
  qed
qed

subsection \<open>Execution\<close>

lemma loop_log_facts:
  assumes "loop_log p spec fb 0 r new"
  shows "length new \<le> Suc (ep_max_retries p)"
    and "map attempt_tag new = attempts_from spec fb 0 (length new)"
    and "succeeded_last (case r of Returned x \<Rightarrow> True | _ \<Rightarrow> False) new"
    and "r = Propagated e \<Longrightarrow> \<exists>l x y. e = BudgetExceeded l x y"
  using assms by (simp_all add: loop_log_def)

lemma log_shape_append:
  assumes "map attempt_tag new = attempts_from spec fb 0 (length new)"
    and "length new \<le> Suc m" and "log_shape m True specs ts"
  shows "log_shape m fb (spec # specs) (map attempt_tag new @ ts)"
  using assms by (auto intro!: exI [of _ "length new"])

definition stop_reason :: "exn \<Rightarrow> model_attempt list \<Rightarrow> bool" where
  "stop_reason e as \<longleftrightarrow> (\<exists>l x y. e = BudgetExceeded l x y) \<or> e = all_models_failed as"

lemma models_loop_log:
  "models_loop p cw op specs fb l s = (r, s') \<Longrightarrow>
   \<exists>new. xs_attempts s' = xs_attempts s @ new \<and>
     log_shape (ep_max_retries p) fb specs (map attempt_tag new) \<and>
     length new \<le> length specs * Suc (ep_max_retries p) \<and>
     succeeded_last (\<not> isl r) new \<and> (\<forall>e. r = Inl e \<longrightarrow> stop_reason e (xs_attempts s'))"
proof (induction specs arbitrary: fb l s)
  case Nil
  then show ?case by (auto simp: stop_reason_def)
next
  case (Cons spec specs)
  obtain q s1 where q: "model_loop p cw op spec fb 0 l s = (q, s1)" by fastforce
  from model_loop_log [OF q] obtain new where new: "xs_attempts s1 = xs_attempts s @ new"
    "loop_log p spec fb 0 q new" by auto
  note facts = loop_log_facts [OF new(2)]
  have here: "log_shape (ep_max_retries p) fb (spec # specs) (map attempt_tag new)"
    using log_shape_append [OF facts(2,1) log_shape_Nil] by simp
  have stop: ?case if "s' = s1" "succeeded_last (\<not> isl r) new"
    "\<forall>e. r = Inl e \<longrightarrow> stop_reason e (xs_attempts s')"
    using that new(1) here facts(1) by (intro exI [of _ new]) simp
  show ?case
  proof (cases q)
    case (Returned x)
    with Cons.prems q facts(3) show ?thesis by (intro stop) auto
  next
    case (Propagated e)
    with Cons.prems q facts(3,4) show ?thesis by (intro stop) (auto simp: stop_reason_def)
  next
    case (MovedOn m)
    show ?thesis
    proof (cases "case m of None \<Rightarrow> False | Some e \<Rightarrow> \<not> should_fallback e")
      case True
      with MovedOn Cons.prems q facts(3) show ?thesis
        by (intro stop) (auto simp: stop_reason_def)
    next
      case False
      with MovedOn Cons.prems q have "models_loop p cw op specs True m s1 = (r, s')" by simp
      from Cons.IH [OF this] obtain more where more: "xs_attempts s' = xs_attempts s1 @ more"
        "log_shape (ep_max_retries p) True specs (map attempt_tag more)"
        "length more \<le> length specs * Suc (ep_max_retries p)" "succeeded_last (\<not> isl r) more"
        "\<forall>e. r = Inl e \<longrightarrow> stop_reason e (xs_attempts s')" by blast
      from MovedOn facts(3) have "succeeded_last False new" by simp
      with more new(1) facts(1) log_shape_append [OF facts(2,1) more(2)] show ?thesis
        by (intro exI [of _ "new @ more"]) (simp add: succeeded_last_append)
    qed
  qed
qed

text \<open>
  C16. Retry, then fall back, always bounded. Whatever the models do, an execution appends to the
  attempt log a sequence that runs through the given models in order, numbers the attempts of each
  from one, makes at most \<open>max_retries_per_model + 1\<close> of them per model, and flags as fallback exactly
  the attempts on a model after the first. The call returns exactly when its last attempt succeeded,
  no earlier attempt did, and otherwise it raises either a refusal of the budget or
  \<open>AllModelsFailed\<close> for the whole log.
\<close>

theorem execute_attempts:
  assumes "specs \<noteq> []" and "execute p cw op specs s = (r, s')"
  shows "\<exists>new. xs_attempts s' = xs_attempts s @ new \<and>
    log_shape (ep_max_retries p) False specs (map attempt_tag new) \<and>
    length new \<le> length specs * (ep_max_retries p + 1) \<and>
    (\<forall>a \<in> set (butlast new). at_status a \<noteq> Success) \<and>
    (\<not> isl r \<longleftrightarrow> new \<noteq> [] \<and> at_status (last new) = Success) \<and>
    (\<forall>e. r = Inl e \<longrightarrow>
       (\<exists>l x y. e = BudgetExceeded l x y) \<or> e = all_models_failed (xs_attempts s'))"
proof -
  from assms have "models_loop p cw op specs False None s = (r, s')" by (simp add: execute_def)
  from models_loop_log [OF this] obtain new where new: "xs_attempts s' = xs_attempts s @ new"
    "log_shape (ep_max_retries p) False specs (map attempt_tag new)"
    "length new \<le> length specs * Suc (ep_max_retries p)" "succeeded_last (\<not> isl r) new"
    "\<forall>e. r = Inl e \<longrightarrow> stop_reason e (xs_attempts s')" by blast
  from new(4) have "\<forall>a \<in> set (butlast new). at_status a \<noteq> Success"
    "\<not> isl r \<longleftrightarrow> new \<noteq> [] \<and> at_status (last new) = Success"
    by (auto simp: succeeded_last_iff split: if_splits)
  with new show ?thesis by (intro exI [of _ new]) (auto simp: stop_reason_def)
qed

definition flaky_spec :: "string \<Rightarrow> tier \<Rightarrow> model_spec" where
  "flaky_spec m t = \<lparr>ms_role = ''planning'', ms_tier = t, ms_model_id = m, ms_reason = []\<rparr>"

definition ticks :: "rat platform" where
  "ticks = \<lparr>cw_now = (\<lambda>w. w), cw_sleep = (+)\<rparr>"

text \<open>An operation that is rate limited on the first model and answers on any other.\<close>

definition first_model_down :: "model_spec \<Rightarrow> (rat, string) action" where
  "first_model_down spec w =
     (if ms_model_id spec = ''a'' then (Inl (Raised ''E'' ''429''), w + 1)
      else (Inr ''ok'', w + 1))"

definition fresh_exec :: "rat exec_state" where
  "fresh_exec = \<lparr>xs_attempts = [], xs_budget = Some (new_budget default_limits 0), xs_world = 0\<rparr>"

theorem execute_attempts_witness:
  "\<exists>new. map attempt_tag new =
     [(''a'', 1, False), (''a'', 2, False), (''a'', 3, False), (''b'', 1, True)] \<and>
   log_shape 2 False [flaky_spec ''a'' Reasoning, flaky_spec ''b'' Fast] (map attempt_tag new)"
proof -
  let ?specs = "[flaky_spec ''a'' Reasoning, flaky_spec ''b'' Fast]"
  let ?run = "execute default_execution_policy ticks first_model_down ?specs fresh_exec"
  have tags: "map attempt_tag (xs_attempts (snd ?run)) =
      [(''a'', 1, False), (''a'', 2, False), (''a'', 3, False), (''b'', 1, True)]"
    by code_simp
  obtain r s' where run: "?run = (r, s')" by fastforce
  have m: "ep_max_retries default_execution_policy = 2" by code_simp
  from execute_attempts [OF _ run] obtain new where "xs_attempts s' = xs_attempts fresh_exec @ new"
    "log_shape 2 False ?specs (map attempt_tag new)" unfolding m by blast
  with tags run show ?thesis by (intro exI [of _ new]) (simp add: fresh_exec_def del: log_shape.simps)
qed

text \<open>
  C15. A deterministic failure costs one attempt. When the failure of the first model matches neither
  table, no retry is made, no other model is called and no time is slept: the execution stops with the
  world as that single call left it and one record of status \<open>error\<close>.
\<close>

theorem deterministic_failure_stops:
  assumes "admit cw s = (Inr (), s)"
    and "op spec (xs_world s) = (Inl (Raised c m), w)"
    and "\<not> should_fallback (Raised c m)"
  shows "\<exists>a. execute p cw op (spec # specs) s =
      (Inl (all_models_failed (xs_attempts s @ [a])),
       s\<lparr>xs_world := w, xs_attempts := xs_attempts s @ [a]\<rparr>) \<and>
    at_status a = ErrorStatus \<and> attempt_tag a = (ms_model_id spec, 1, False)"
proof -
  define a where "a = \<lparr>at_model = ms_model_id spec, at_tier = ms_tier spec, at_attempt = 1,
    at_status = classify (Raised c m), at_latency = cw_now cw w - cw_now cw (xs_world s),
    at_error = Some (take 300 (exn_text (Raised c m))), at_was_fallback = False\<rparr>"
  let ?t = "s\<lparr>xs_world := w, xs_attempts := xs_attempts s @ [a]\<rparr>"
  have nr: "\<not> is_retryable (Raised c m)" using assms(3) retryable_falls_back by blast
  then have "one_attempt p cw op spec False 1 s = (Leave (MovedOn (Some (Raised c m))), ?t)"
    unfolding one_attempt_def assms(1) log_attempt_def a_def by (simp add: assms(2) Let_def)
  then have "model_loop p cw op spec False 0 None s = (MovedOn (Some (Raised c m)), ?t)"
    unfolding model_loop.simps [of p cw op spec False 0 None s] by simp
  with assms(3) have "execute p cw op (spec # specs) s
      = (Inl (all_models_failed (xs_attempts s @ [a])), ?t)"
    by (simp add: execute_def)
  moreover have "at_status a = ErrorStatus" using nr classify_error_iff by (simp add: a_def)
  ultimately show ?thesis by (intro exI [of _ a]) (simp add: attempt_tag_def a_def)
qed

definition bad_prompt :: "model_spec \<Rightarrow> (rat, string) action" where
  "bad_prompt spec w = (Inl (Raised ''E'' ''bad''), w + 1)"

theorem deterministic_failure_stops_witness:
  "\<exists>a. snd (execute default_execution_policy ticks bad_prompt
           [flaky_spec ''a'' Reasoning, flaky_spec ''b'' Fast] fresh_exec)
     = fresh_exec\<lparr>xs_world := 1, xs_attempts := [a]\<rparr> \<and> at_status a = ErrorStatus"
proof -
  have ok: "admit ticks fresh_exec = (Inr (), fresh_exec)" by code_simp
  have op: "bad_prompt (flaky_spec ''a'' Reasoning) (xs_world fresh_exec)
      = (Inl (Raised ''E'' ''bad''), 1)"
    by (simp add: bad_prompt_def fresh_exec_def)
  have no: "\<not> should_fallback (Raised ''E'' ''bad'')" by code_simp
  from deterministic_failure_stops [of ticks fresh_exec bad_prompt "flaky_spec ''a'' Reasoning",
      OF ok op no, of default_execution_policy "[flaky_spec ''b'' Fast]"]
  show ?thesis by (auto simp: fresh_exec_def)
qed

subsection \<open>Fallback chains\<close>

interpretation attempt_log: event_log xs_attempts log_attempt
  by unfold_locales (simp add: log_attempt_def)

lemma extend_chain_distinct:
  "set (map ms_model_id chain) = set seen \<Longrightarrow> distinct (map ms_model_id chain) \<Longrightarrow>
   distinct (map ms_model_id (extend_chain r role ts seen chain))"
  by (induction r role ts seen chain rule: extend_chain.induct) (auto simp: Let_def)

lemma extend_chain_tiers:
  "\<exists>more. extend_chain r role ts seen chain = chain @ more \<and> subseq (map ms_tier more) ts"
proof (induction r role ts seen chain rule: extend_chain.induct)
  case (2 r role t ts seen chain)
  show ?case
  proof (cases "snd (tier_model r t) \<in> set seen")
    case True
    with 2(1) show ?thesis by (auto simp: Let_def)
  next
    case False
    with 2(2) show ?thesis by (force simp: Let_def)
  qed
qed simp

lemma chain_start: "ms_tier s # tl (dropWhile (\<lambda>t. t \<noteq> ms_tier s) tier_order)
    = dropWhile (\<lambda>t. t \<noteq> ms_tier s) tier_order"
  by (cases "ms_tier s") (simp_all add: tier_order_def)

lemma subseq_dropWhile: "subseq (dropWhile P xs) xs"
  by (induction xs) auto

text \<open>
  A fallback chain starts with the model the router selects, never offers the same model twice
  even when the environment maps several tiers to one model, and its tiers strictly descend from the
  selected one: they are a subsequence of reasoning, coding, balanced, fast.
\<close>

theorem fallback_chain_distinct_descending:
  "hd (fallback_chain r role c) = rd_spec (select r role c False) \<and>
   distinct (map ms_model_id (fallback_chain r role c)) \<and>
   subseq (map ms_tier (fallback_chain r role c)) tier_order"
proof -
  define s where "s = rd_spec (select r role c False)"
  define ts where "ts = tl (dropWhile (\<lambda>t. t \<noteq> ms_tier s) tier_order)"
  have chain: "fallback_chain r role c = extend_chain r role ts [ms_model_id s] [s]"
    by (simp add: fallback_chain_def s_def ts_def Let_def)
  obtain more where more: "fallback_chain r role c = s # more" "subseq (map ms_tier more) ts"
    using extend_chain_tiers [of r role ts "[ms_model_id s]" "[s]"] unfolding chain by auto
  have "subseq (map ms_tier (s # more)) (ms_tier s # ts)" using more(2) by simp
  also have "subseq (ms_tier s # ts) tier_order"
    unfolding ts_def chain_start by (rule subseq_dropWhile)
  finally have "subseq (map ms_tier (s # more)) tier_order" .
  moreover have "distinct (map ms_model_id (fallback_chain r role c))"
    unfolding chain by (rule extend_chain_distinct) simp_all
  ultimately show ?thesis using more(1) by (simp add: s_def [symmetric])
qed

end
