(* ===== verification/Risk.thy ===== *)
theory Risk
  imports Schemas Regex "HOL-Library.Multiset"
begin

section \<open>Security scanning and change-risk scoring\<close>

text \<open>
  Models \<open>agent/sweforge/security/risk.py\<close>: the rule tables, \<open>ChangeSet\<close>, \<open>SecurityScanner.scan\<close>
  and \<open>RiskEngine.assess\<close>. A scanner is the list of its extra rules; such a rule is taken not to be
  one of \<open>SECRET_RULES\<close>. The lemmas show that the score is a valid one, that it never falls when
  findings are added, which facts a LOW score guarantees, and that a credential in a scanned file
  reaches the human approval gate.
\<close>

subsection \<open>Rules\<close>

record security_rule =
  sr_name :: string
  sr_pattern :: rx
  sr_severity :: severity
  sr_message :: string

abbreviation squote :: char where "squote \<equiv> CHR 0x27"
abbreviation dquote :: char where "dquote \<equiv> CHR 0x22"

definition quote_rx :: rx where
  "quote_rx = Cls (\<lambda>c. c = squote \<or> c = dquote)"

definition not_close_paren :: rx where
  "not_close_paren = Cls (\<lambda>c. c \<noteq> CHR '')'')"

definition not_slash :: rx where
  "not_slash = Cls (\<lambda>c. c \<noteq> CHR ''/'')"

definition path_start :: rx where
  "path_start = alts [Bol, Lit ''/'']"

definition secret_rules :: "security_rule list" where
  "secret_rules =
     [\<lparr>sr_name = ''aws_access_key'',
       sr_pattern = cat [Wb, Lit ''AKIA'', exactly 16 (Cls (\<lambda>c. num_09 c \<or> upper_az c)), Wb],
       sr_severity = Blocker, sr_message = ''Possible AWS access key id committed''\<rparr>,
      \<lparr>sr_name = ''anthropic_key'',
       sr_pattern = cat [Wb, Lit ''sk-ant-'',
                         at_least 20 (Cls (\<lambda>c. alnum c \<or> c = CHR ''_'' \<or> c = CHR ''-''))],
       sr_severity = Blocker, sr_message = ''Possible Anthropic API key committed''\<rparr>,
      \<lparr>sr_name = ''openai_key'',
       sr_pattern = cat [Wb, Lit ''sk-'', opt (Lit ''proj-''), at_least 32 (Cls alnum), Wb],
       sr_severity = Blocker, sr_message = ''Possible OpenAI API key committed''\<rparr>,
      \<lparr>sr_name = ''github_token'',
       sr_pattern = cat [Wb, Lit ''gh'', Cls (\<lambda>c. c \<in> set ''pousr''), Lit ''_'',
                         at_least 30 (Cls alnum), Wb],
       sr_severity = Blocker, sr_message = ''Possible GitHub token committed''\<rparr>,
      \<lparr>sr_name = ''slack_token'',
       sr_pattern = cat [Wb, Lit ''xox'', Cls (\<lambda>c. c \<in> set ''abprs''), Lit ''-'',
                         at_least 10 (Cls (\<lambda>c. alnum c \<or> c = CHR ''-'')), Wb],
       sr_severity = Blocker, sr_message = ''Possible Slack token committed''\<rparr>,
      \<lparr>sr_name = ''private_key'',
       sr_pattern = cat [Lit ''-----BEGIN '',
                         opt (alts [Lit ''RSA '', Lit ''EC '', Lit ''OPENSSH '', Lit ''PGP '']),
                         Lit ''PRIVATE KEY-----''],
       sr_severity = Blocker, sr_message = ''Private key material committed''\<rparr>,
      \<lparr>sr_name = ''hardcoded_password'',
       sr_pattern = cat [Wb, alts [LitI ''password'', LitI ''passwd'', LitI ''secret'', LitI ''api_key'',
                                   LitI ''apikey'', LitI ''token''], Wb,
                         star space, Cls (\<lambda>c. c \<in> set '':=''), star space, quote_rx,
                         at_least 8 (Cls (\<lambda>c. c \<noteq> squote \<and> c \<noteq> dquote \<and> \<not> is_space_c c)),
                         quote_rx],
       sr_severity = Major, sr_message = ''Hardcoded credential-looking literal''\<rparr>]"

definition dangerous_rules :: "security_rule list" where
  "dangerous_rules =
     [\<lparr>sr_name = ''destructive_shell'',
       sr_pattern = alts
         [cat [Lit ''rm'', plus1 space, Lit ''-r'', opt (Lit ''f''), plus1 space,
               Cls (\<lambda>c. c \<in> set ''/~'')],
          cat [Lit ''shutil.rmtree('', star space, opt quote_rx, Lit ''/''],
          cat [Lit '':'', star space, Lit ''>'', star space, Lit ''/dev/sd'']],
       sr_severity = Blocker,
       sr_message = ''Destructive filesystem operation on an absolute path''\<rparr>,
      \<lparr>sr_name = ''force_push'',
       sr_pattern = alts
         [cat [Lit ''git'', plus1 space, Lit ''push'', plus1 space,
               alts [Lit ''--force'', Lit ''-f''], Wb],
          cat [Lit ''git'', plus1 space, Lit ''reset'', plus1 space, Lit ''--hard'', plus1 space,
               Lit ''origin'']],
       sr_severity = Major, sr_message = ''Force push or hard reset against a remote''\<rparr>,
      \<lparr>sr_name = ''shell_injection'',
       sr_pattern = alts
         [cat [Lit ''subprocess.'', alts [Lit ''run'', Lit ''call'', Lit ''Popen''], Lit ''('',
               star not_close_paren, Lit ''shell'', star space, Lit ''='', star space, Lit ''True''],
          Lit ''os.system(''],
       sr_severity = Major, sr_message = ''Shell execution with shell=True or os.system''\<rparr>,
      \<lparr>sr_name = ''eval_exec'',
       sr_pattern = alts
         [cat [Wb, alts [Lit ''eval'', Lit ''exec''], star space, Lit ''(''],
          Lit ''pickle.loads('',
          cat [Lit ''yaml.load('', NotAhead (cat [star not_close_paren, Lit ''Loader''])]],
       sr_severity = Major, sr_message = ''Dynamic evaluation or unsafe deserialisation''\<rparr>,
      \<lparr>sr_name = ''verify_disabled'',
       sr_pattern = alts
         [cat [Lit ''verify'', star space, Lit ''='', star space, Lit ''False''],
          cat [Lit ''CURL_CA_BUNDLE'', star space, Lit ''='', star space, exactly 2 quote_rx],
          Lit ''ssl._create_unverified''],
       sr_severity = Major, sr_message = ''TLS verification disabled''\<rparr>,
      \<lparr>sr_name = ''auth_weakened'',
       sr_pattern = cat
         [LitI ''def'', plus1 space, star wordc,
          alts [LitI ''auth'', LitI ''permission'', LitI ''verify'', LitI ''validate''],
          star wordc, star space, Lit ''('', star not_close_paren, Lit '')'', star space, Lit '':'',
          star space, opt (cat [Lit [newline], plus1 space]), LitI ''return'', plus1 space,
          LitI ''True''],
       sr_severity = Blocker,
       sr_message = ''Authorisation function unconditionally returns True''\<rparr>]"

definition sensitive_patterns :: "(string \<times> rx \<times> int) list" where
  "sensitive_patterns =
     [(''ci_workflow'', cat [Bol, Lit ''.github/'', alts [Lit ''workflows'', Lit ''actions''], Lit ''/''], 30),
      (''dependency_manifest'',
       cat [path_start,
            alts [cat [Lit ''requirements'', star not_slash, Lit ''.txt''], Lit ''pyproject.toml'',
                  Lit ''package.json'', Lit ''pnpm-lock.yaml'', Lit ''uv.lock'', Lit ''poetry.lock'',
                  Lit ''Cargo.toml'', Lit ''go.mod''],
            EolS], 18),
      (''container'',
       cat [path_start,
            alts [cat [Lit ''Dockerfile'', star not_slash],
                  cat [Lit ''docker-compose'', star not_slash, Lit ''.y'', opt (Lit ''a''), Lit ''ml'']],
            EolS], 18),
      (''auth_code'',
       cat [path_start,
            alts [LitI ''auth'', LitI ''authn'', LitI ''authz'', LitI ''login'', LitI ''session'',
                  LitI ''permission'', LitI ''rbac''],
            star not_slash, Lit ''.'', plus1 wordc, EolS], 22),
      (''security_code'',
       cat [path_start,
            alts [LitI ''security'', LitI ''crypt'', LitI ''encryption'', LitI ''secret'',
                  LitI ''token'', LitI ''credential''],
            star not_slash, Lit ''.'', plus1 wordc, EolS], 22),
      (''infra_as_code'',
       cat [path_start,
            alts [cat [star dot, Lit ''.tf''], cat [star dot, Lit ''.tfvars''],
                  cat [Lit ''helm/'', star dot], cat [Lit ''k8s/'', star dot],
                  cat [Lit ''kustomization.y'', opt (Lit ''a''), Lit ''ml'']],
            EolS], 20),
      (''env_file'', cat [path_start, Lit ''.env'', opt (cat [Lit ''.'', plus1 dot]), EolS], 35),
      (''build_script'',
       cat [path_start,
            alts [Lit ''Makefile'', Lit ''setup.py'', Lit ''build.gradle'', cat [star dot, Lit ''.sh'']],
            EolS], 12)]"

definition binary_suffixes :: "string list" where
  "binary_suffixes =
     [''.png'', ''.jpg'', ''.jpeg'', ''.gif'', ''.pdf'', ''.zip'', ''.tar'', ''.gz'', ''.whl'',
      ''.so'', ''.dylib'', ''.dll'']"

definition threshold_medium :: int where "threshold_medium = 25"
definition threshold_high :: int where "threshold_high = 55"

subsection \<open>Scanning\<close>

record change_set =
  cs_files :: "(string, string) dict"
  cs_deleted :: "string list option"

definition change_paths :: "change_set \<Rightarrow> string list" where
  "change_paths cs = py_sorted (dict_keys (cs_files cs))"

definition total_lines :: "change_set \<Rightarrow> int" where
  "total_lines cs = sum_list (map (\<lambda>(p, c). int (count_char newline c) + 1) (cs_files cs))"

definition is_binary :: "string \<Rightarrow> bool" where
  "is_binary path = list_ex (\<lambda>s. ends_with s path) binary_suffixes"

definition is_example :: "string \<Rightarrow> bool" where
  "is_example path =
     matches (alts
       [cat [path_start, Lit ''.env.example'', EolS],
        cat [path_start,
             alts [cat [Lit ''example'', opt (Lit ''s'')], cat [Lit ''fixture'', opt (Lit ''s'')],
                   cat [Lit ''doc'', opt (Lit ''s'')]],
             Lit ''/'']]) path"

definition scanner_rules :: "security_rule list \<Rightarrow> (bool \<times> security_rule) list" where
  "scanner_rules extra =
     map (Pair True) secret_rules @ map (Pair False) dangerous_rules @ map (Pair False) extra"

definition scan_rule ::
  "string \<Rightarrow> string \<Rightarrow> bool \<times> security_rule \<Rightarrow> security_finding list" where
  "scan_rule path content tagged =
     (case tagged of (is_secret, rule) \<Rightarrow>
        (case search (sr_pattern rule) content of
           None \<Rightarrow> []
         | Some h \<Rightarrow>
             [\<lparr>sf_rule = sr_name rule,
               sf_severity = (if is_example path \<and> is_secret then Info else sr_severity rule),
               sf_file = Some path,
               sf_line = Some (count_char newline (take (match_start content h) content) + 1),
               sf_message = sr_message rule\<rparr>]))"

definition scan_file :: "security_rule list \<Rightarrow> string \<times> string \<Rightarrow> security_finding list" where
  "scan_file extra pc =
     (case pc of (path, content) \<Rightarrow>
        if is_binary path then []
        else concat (map (scan_rule path content) (scanner_rules extra)))"

definition scan :: "security_rule list \<Rightarrow> change_set \<Rightarrow> security_finding list" where
  "scan extra cs = concat (map (scan_file extra) (sort_key fst (cs_files cs)))"

subsection \<open>Scoring\<close>

record risk_engine =
  eng_large_diff :: int
  eng_many_files :: int
  eng_extra_rules :: "security_rule list"

definition default_engine :: risk_engine where
  "default_engine = \<lparr>eng_large_diff = 400, eng_many_files = 15, eng_extra_rules = []\<rparr>"

definition factor :: "string \<Rightarrow> int \<Rightarrow> string \<Rightarrow> risk_factor" where
  "factor code weight detail = \<lparr>rk_code = code, rk_weight = weight, rk_detail = detail\<rparr>"

definition with_severity :: "severity \<Rightarrow> security_finding list \<Rightarrow> security_finding list" where
  "with_severity s fs = filter (\<lambda>f. sf_severity f = s) fs"

definition rule_names :: "security_finding list \<Rightarrow> string" where
  "rule_names fs = join '', '' (py_sorted (uniq (map sf_rule fs)))"

definition finding_factors :: "security_finding list \<Rightarrow> risk_factor list" where
  "finding_factors fs =
     (let blockers = with_severity Blocker fs; majors = with_severity Major fs
      in (if blockers \<noteq> []
          then [factor ''security_blocker'' 60
                  (show_nat (length blockers) @ '' blocker finding(s): '' @ rule_names blockers)]
          else []) @
         (if majors \<noteq> []
          then [factor ''security_major'' (min 30 (12 * int (length majors)))
                  (show_nat (length majors) @ '' major finding(s): '' @ rule_names majors)]
          else []))"

definition path_factors :: "change_set \<Rightarrow> risk_factor list" where
  "path_factors cs =
     concat (map (\<lambda>(code, pattern, weight).
         let hits = filter (matches pattern) (change_paths cs)
         in if hits \<noteq> []
            then [factor (''sensitive_'' @ code) weight
                    (''modified '' @ show_nat (length hits) @ '' '' @ code @ '' file(s): '' @
                     join '', '' (take 3 hits))]
            else []) sensitive_patterns)"

definition deletion_factors :: "change_set \<Rightarrow> risk_factor list" where
  "deletion_factors cs =
     (let deletions = filter (\<lambda>p. \<not> (starts_with ''test'' p \<or> starts_with ''tests/'' p))
                        (case cs_deleted cs of None \<Rightarrow> [] | Some ds \<Rightarrow> ds)
      in if deletions \<noteq> []
         then [factor ''file_deletion'' (min 25 (8 * int (length deletions)))
                 (''deletes '' @ show_nat (length deletions) @ '' file(s): '' @
                  join '', '' (take 3 deletions))]
         else [])"

definition size_factors :: "risk_engine \<Rightarrow> change_set \<Rightarrow> risk_factor list" where
  "size_factors eng cs =
     (let ls = total_lines cs; files = length (change_paths cs)
      in (if ls > eng_large_diff eng
          then [factor ''large_diff'' (min 20 (10 + ls div 400))
                  (show_int ls @ '' lines across '' @ show_nat files @ '' files'')]
          else []) @
         (if int files > eng_many_files eng
          then [factor ''many_files'' 12 (show_nat files @ '' files touched'')]
          else []))"

definition verification_factors :: "verification_result option \<Rightarrow> risk_factor list" where
  "verification_factors v =
     (case v of
        Some r \<Rightarrow>
          if \<not> vr_passed r
          then [factor ''verification_failed'' 40
                  (''verification not green ('' @ verification_summary r @ '')'')]
          else []
      | None \<Rightarrow> [factor ''unverified'' 25 ''no verification result available''])"

definition assurance_factors :: "bool \<Rightarrow> int \<Rightarrow> risk_factor list" where
  "assurance_factors review_rejected recovery_attempts =
     (if review_rejected
      then [factor ''review_rejected'' 30 ''independent reviewer withheld approval''] else []) @
     (if 2 \<le> recovery_attempts
      then [factor ''repeated_recovery'' (10 + 5 * (recovery_attempts - 2))
              (''required '' @ show_int recovery_attempts @ '' recovery attempts'')]
      else [])"

definition level_of :: "int \<Rightarrow> risk_level" where
  "level_of score =
     (if score \<ge> threshold_high then HighRisk
      else if score \<ge> threshold_medium then MediumRisk else LowRisk)"

definition recommendation :: "risk_level \<Rightarrow> risk_factor list \<Rightarrow> string" where
  "recommendation level factors =
     (let top = join '', '' (map rk_code (take 3 (sort_key (\<lambda>f. - rk_weight f) factors)))
      in case level of
           HighRisk \<Rightarrow> ''Require human approval before opening a PR. Drivers: '' @
                       (if top = [] then ''n/a'' else top) @ ''.''
         | MediumRisk \<Rightarrow> ''Open a draft PR with enhanced review and reviewer notes. Drivers: '' @
                         top @ ''.''
         | LowRisk \<Rightarrow> ''Safe to open a PR automatically under the configured policy.'')"

definition risk_factors ::
  "risk_engine \<Rightarrow> change_set \<Rightarrow> verification_result option \<Rightarrow> security_finding list \<Rightarrow> bool \<Rightarrow> int
   \<Rightarrow> risk_factor list" where
  "risk_factors eng cs v fs rejected attempts =
     finding_factors fs @ path_factors cs @ deletion_factors cs @ size_factors eng cs @
     verification_factors v @ assurance_factors rejected attempts"

definition assess ::
  "risk_engine \<Rightarrow> change_set \<Rightarrow> verification_result option \<Rightarrow> security_finding list option \<Rightarrow> bool
   \<Rightarrow> int \<Rightarrow> risk_score" where
  "assess eng cs v findings rejected attempts =
     (let fs = (case findings of Some fs \<Rightarrow> fs | None \<Rightarrow> scan (eng_extra_rules eng) cs);
          factors = risk_factors eng cs v fs rejected attempts;
          score = min 100 (sum_list (map rk_weight factors));
          level = level_of score
      in \<lparr>rs_score = score, rs_level = level, rs_factors = factors,
          rs_recommendation = recommendation level factors\<rparr>)"

subsection \<open>Weights\<close>

definition weight_of :: "risk_factor list \<Rightarrow> int" where
  "weight_of fs = sum_list (map rk_weight fs)"

lemma weight_of_simps [simp]:
  "weight_of [] = 0" "weight_of (f # fs) = rk_weight f + weight_of fs"
  "weight_of (fs @ gs) = weight_of fs + weight_of gs"
  by (simp_all add: weight_of_def)

lemma weight_of_nonneg: "(\<And>f. f \<in> set fs \<Longrightarrow> 0 \<le> rk_weight f) \<Longrightarrow> 0 \<le> weight_of fs"
  by (induction fs) simp_all

lemma rk_weight_factor [simp]: "rk_weight (factor c w d) = w"
  by (simp add: factor_def)

lemma finding_weight:
  "weight_of (finding_factors fs) =
     (if with_severity Blocker fs \<noteq> [] then 60 else 0) +
     (if with_severity Major fs \<noteq> [] then min 30 (12 * int (length (with_severity Major fs))) else 0)"
  by (simp add: finding_factors_def Let_def)

lemma sensitive_weights: "list_all (\<lambda>(c, r, w). 0 \<le> w) sensitive_patterns"
  by (simp add: sensitive_patterns_def)

lemma path_weight_nonneg: "0 \<le> weight_of (path_factors cs)"
proof (rule weight_of_nonneg)
  fix f assume "f \<in> set (path_factors cs)"
  then obtain c r w where crw: "(c, r, w) \<in> set sensitive_patterns" and f: "rk_weight f = w"
    by (auto simp: path_factors_def Let_def split: if_splits)
  from crw sensitive_weights have "0 \<le> w" unfolding list_all_iff by blast
  with f show "0 \<le> rk_weight f" by simp
qed

lemma total_lines_nonneg: "0 \<le> total_lines cs"
  unfolding total_lines_def by (rule sum_list_nonneg) auto

lemma other_weights_nonneg:
  "0 \<le> weight_of (finding_factors fs)" "0 \<le> weight_of (deletion_factors cs)"
  "0 \<le> weight_of (size_factors eng cs)" "0 \<le> weight_of (verification_factors v)"
  "0 \<le> weight_of (assurance_factors rejected attempts)"
  using total_lines_nonneg [of cs]
  by (auto simp: finding_weight deletion_factors_def size_factors_def verification_factors_def
      assurance_factors_def Let_def pos_imp_zdiv_nonneg_iff split: option.splits)

lemma risk_weight:
  "weight_of (risk_factors eng cs v fs rejected attempts) =
     weight_of (finding_factors fs) + weight_of (path_factors cs) + weight_of (deletion_factors cs) +
     weight_of (size_factors eng cs) + weight_of (verification_factors v) +
     weight_of (assurance_factors rejected attempts)"
  by (simp add: risk_factors_def)

lemma part_le_risk:
  fixes fs eng cs v rejected attempts
  defines "tot \<equiv> weight_of (risk_factors eng cs v fs rejected attempts)"
  shows "weight_of (finding_factors fs) \<le> tot" "weight_of (path_factors cs) \<le> tot"
    "weight_of (deletion_factors cs) \<le> tot" "weight_of (verification_factors v) \<le> tot"
    "weight_of (assurance_factors rejected attempts) \<le> tot"
  unfolding tot_def risk_weight using path_weight_nonneg [of cs] other_weights_nonneg(1) [of fs]
    other_weights_nonneg(2) [of cs] other_weights_nonneg(3) [of eng cs]
    other_weights_nonneg(4) [of v] other_weights_nonneg(5) [of rejected attempts]
  by linarith+

definition used_findings ::
  "risk_engine \<Rightarrow> change_set \<Rightarrow> security_finding list option \<Rightarrow> security_finding list" where
  "used_findings eng cs findings =
     (case findings of Some fs \<Rightarrow> fs | None \<Rightarrow> scan (eng_extra_rules eng) cs)"

lemma assess_score:
  "rs_score (assess eng cs v findings rejected attempts) =
     min 100 (weight_of (risk_factors eng cs v (used_findings eng cs findings) rejected attempts))"
  by (simp add: assess_def used_findings_def Let_def weight_of_def)

lemma assess_level:
  "rs_level (assess eng cs v findings rejected attempts) =
     level_of (rs_score (assess eng cs v findings rejected attempts))"
  by (simp add: assess_def Let_def)

lemma assess_valid: "valid_score (assess eng cs v findings rejected attempts)"
  using other_weights_nonneg path_weight_nonneg
  by (simp add: valid_score_def assess_score risk_weight add_nonneg_nonneg)

lemma level_high_iff: "level_of n = HighRisk \<longleftrightarrow> 55 \<le> n"
  by (simp add: level_of_def threshold_high_def threshold_medium_def)

lemma level_low_iff: "level_of n = LowRisk \<longleftrightarrow> n < 25"
  by (simp add: level_of_def threshold_high_def threshold_medium_def)

lemma needs_human_iff:
  "requires_human_approval (assess eng cs v findings rejected attempts) \<longleftrightarrow>
     55 \<le> weight_of (risk_factors eng cs v (used_findings eng cs findings) rejected attempts)"
  by (simp add: requires_human_approval_def assess_level level_high_iff assess_score)

subsection \<open>Findings never lower the score\<close>

lemma with_severity_mono:
  "mset fs \<subseteq># mset gs \<Longrightarrow> length (with_severity s fs) \<le> length (with_severity s gs)"
  unfolding with_severity_def
  by (metis mset_filter multiset_filter_mono size_mset size_mset_mono)

lemma finding_weight_mono:
  assumes "mset fs \<subseteq># mset gs"
  shows "weight_of (finding_factors fs) \<le> weight_of (finding_factors gs)"
  using with_severity_mono [OF assms, of Blocker] with_severity_mono [OF assms, of Major]
  by (auto simp: finding_weight)

text \<open>
  An opinion can only raise the gate. Adding findings to those an assessment is based on, in any
  order, never lowers the score and never turns a change that needs human approval into one that does
  not; and every score is one the schema accepts.
\<close>

theorem findings_never_lower_gate:
  assumes "mset fs \<subseteq># mset gs"
  shows "rs_score (assess eng cs v (Some fs) rejected attempts)
           \<le> rs_score (assess eng cs v (Some gs) rejected attempts) \<and>
         (requires_human_approval (assess eng cs v (Some fs) rejected attempts) \<longrightarrow>
          requires_human_approval (assess eng cs v (Some gs) rejected attempts)) \<and>
         valid_score (assess eng cs v (Some gs) rejected attempts)"
  using finding_weight_mono [OF assms]
  by (auto simp: assess_score needs_human_iff risk_weight used_findings_def assess_valid)

definition model_opinion :: "severity \<Rightarrow> security_finding" where
  "model_opinion s =
     \<lparr>sf_rule = ''opinion'', sf_severity = s, sf_file = None, sf_line = None, sf_message = []\<rparr>"

theorem findings_never_lower_gate_witness:
  "mset [model_opinion Blocker] \<subseteq># mset [model_opinion Info, model_opinion Blocker] \<and>
   requires_human_approval (assess default_engine \<lparr>cs_files = [], cs_deleted = None\<rparr> None
     (Some [model_opinion Info, model_opinion Blocker]) False 0)"
proof -
  have sub: "mset [model_opinion Blocker] \<subseteq># mset [model_opinion Info, model_opinion Blocker]"
    by simp
  have "requires_human_approval (assess default_engine \<lparr>cs_files = [], cs_deleted = None\<rparr> None
     (Some [model_opinion Blocker]) False 0)" by code_simp
  with findings_never_lower_gate [OF sub] sub show ?thesis by blast
qed

subsection \<open>What LOW means\<close>

lemma sensitive_hit:
  assumes "(c, r, w) \<in> set sensitive_patterns" and "path \<in> set (dict_keys (cs_files cs))"
    and "matches r path"
  shows "w \<le> weight_of (path_factors cs)"
proof -
  define part where "part = (\<lambda>(code, pattern, weight).
      let hits = filter (matches pattern) (change_paths cs)
      in if hits \<noteq> []
         then [factor (''sensitive_'' @ code) weight
                 (''modified '' @ show_nat (length hits) @ '' '' @ code @ '' file(s): '' @
                  join '', '' (take 3 hits))]
         else [])"
  have parts: "path_factors cs = concat (map part sensitive_patterns)"
    by (simp add: path_factors_def part_def)
  obtain xs ys where s: "sensitive_patterns = xs @ (c, r, w) # ys"
    using split_list [OF assms(1)] by blast
  have nonneg: "0 \<le> weight_of (concat (map part zs))" if "set zs \<subseteq> set sensitive_patterns" for zs
  proof (rule weight_of_nonneg)
    fix f assume "f \<in> set (concat (map part zs))"
    then obtain c' r' w' where "(c', r', w') \<in> set zs" "rk_weight f = w'"
      by (auto simp: part_def Let_def split: if_splits)
    with that sensitive_weights show "0 \<le> rk_weight f" unfolding list_all_iff by auto
  qed
  have "filter (matches r) (change_paths cs) \<noteq> []"
    using assms(2,3) by (auto simp: change_paths_def filter_empty_conv)
  then have "weight_of (part (c, r, w)) = w" by (simp add: part_def Let_def)
  moreover have "0 \<le> weight_of (concat (map part xs))" by (rule nonneg) (auto simp add: s)
  moreover have "0 \<le> weight_of (concat (map part ys))" by (rule nonneg) (auto simp add: s)
  ultimately show ?thesis unfolding parts s by simp
qed

definition pattern_of :: "string \<Rightarrow> rx" where
  "pattern_of code = fst (hd (map snd (filter (\<lambda>(c, r, w). c = code) sensitive_patterns)))"

lemma pattern_of_mem:
  "(''ci_workflow'', pattern_of ''ci_workflow'', 30) \<in> set sensitive_patterns"
  "(''env_file'', pattern_of ''env_file'', 35) \<in> set sensitive_patterns"
  by (simp_all add: pattern_of_def sensitive_patterns_def)

text \<open>
  What a LOW score guarantees. A change opens a pull request without a human only when its
  verification exists and is green, the reviewer did not withhold approval, there were at most four
  recovery attempts, no finding is a blocker and at most two are major, no CI workflow or environment
  file is touched, and at most three files outside the tests are deleted.
\<close>

theorem low_risk_guarantees:
  assumes "rs_level (assess eng cs v findings rejected attempts) = LowRisk"
  shows "(\<exists>r. v = Some r \<and> vr_passed r) \<and> \<not> rejected \<and> attempts \<le> 4 \<and>
    with_severity Blocker (used_findings eng cs findings) = [] \<and>
    length (with_severity Major (used_findings eng cs findings)) \<le> 2 \<and>
    list_all (\<lambda>p. \<not> matches (pattern_of ''ci_workflow'') p \<and> \<not> matches (pattern_of ''env_file'') p)
      (dict_keys (cs_files cs)) \<and>
    length (filter (\<lambda>p. \<not> (starts_with ''test'' p \<or> starts_with ''tests/'' p))
      (case cs_deleted cs of None \<Rightarrow> [] | Some ds \<Rightarrow> ds)) \<le> 3"
proof -
  let ?fs = "used_findings eng cs findings"
  have tot: "weight_of (risk_factors eng cs v ?fs rejected attempts) < 25"
    using assms by (simp add: assess_level level_low_iff assess_score min_less_iff_disj)
  note parts = part_le_risk [where fs = ?fs and eng = eng and cs = cs and v = v
      and rejected = rejected and attempts = attempts, THEN le_less_trans, OF tot]
  note f = parts(1) and p = parts(2) and d = parts(3) and v = parts(4) and a = parts(5)
  have "\<exists>r. v = Some r \<and> vr_passed r"
    using v by (simp add: verification_factors_def split: option.splits if_splits)
  moreover have "\<not> rejected \<and> attempts \<le> 4"
    using a by (simp add: assurance_factors_def split: if_splits)
  moreover have "with_severity Blocker ?fs = []" and "length (with_severity Major ?fs) \<le> 2"
    using f by (auto simp: finding_weight split: if_splits)
  moreover have "list_all (\<lambda>p. \<not> matches (pattern_of ''ci_workflow'') p \<and>
      \<not> matches (pattern_of ''env_file'') p) (dict_keys (cs_files cs))"
    using p sensitive_hit [OF pattern_of_mem(1), of _ cs] sensitive_hit [OF pattern_of_mem(2), of _ cs]
    by (force simp: list_all_iff)
  moreover have "length (filter (\<lambda>p. \<not> (starts_with ''test'' p \<or> starts_with ''tests/'' p))
      (case cs_deleted cs of None \<Rightarrow> [] | Some ds \<Rightarrow> ds)) \<le> 3"
    using d by (simp add: deletion_factors_def Let_def split: if_splits)
  ultimately show ?thesis by blast
qed

definition green_run :: verification_result where
  "green_run =
     \<lparr>vr_passed = True, vr_tests_run = 3, vr_tests_passed = 3, vr_tests_failed = 0,
      vr_lint_passed = None, vr_typecheck_passed = None, vr_errors = [], vr_commands = [],
      vr_output = [], vr_duration = 0\<rparr>"

theorem low_risk_guarantees_witness:
  "rs_level (assess default_engine \<lparr>cs_files = [(''a.py'', ''x'')], cs_deleted = None\<rparr>
     (Some green_run) None False 0) = LowRisk \<and>
   list_all (\<lambda>p. \<not> matches (pattern_of ''ci_workflow'') p \<and> \<not> matches (pattern_of ''env_file'') p)
     [''a.py'']"
proof -
  have low: "rs_level (assess default_engine \<lparr>cs_files = [(''a.py'', ''x'')], cs_deleted = None\<rparr>
     (Some green_run) None False 0) = LowRisk" by code_simp
  with low_risk_guarantees [OF low] show ?thesis by (simp add: dict_keys_def)
qed

subsection \<open>From a scanned file to the gate\<close>

lemma scan_hit:
  assumes "(path, content) \<in> set (cs_files cs)" and "\<not> is_binary path"
    and "(is_secret, rule) \<in> set (scanner_rules extra)" and "matches (sr_pattern rule) content"
  shows "\<exists>f \<in> set (scan extra cs). sf_rule f = sr_name rule \<and> sf_file f = Some path \<and>
    sf_severity f = (if is_example path \<and> is_secret then Info else sr_severity rule)"
proof -
  obtain h where h: "search (sr_pattern rule) content = Some h"
    using assms(4) by (auto simp: matches_def)
  then have "\<exists>f \<in> set (scan_rule path content (is_secret, rule)). sf_rule f = sr_name rule \<and>
      sf_file f = Some path \<and>
      sf_severity f = (if is_example path \<and> is_secret then Info else sr_severity rule)"
    by (simp add: scan_rule_def)
  with assms(1-3) show ?thesis
    by (force simp: scan_def scan_file_def)
qed

lemma blocker_weight: "f \<in> set fs \<Longrightarrow> sf_severity f = Blocker \<Longrightarrow> 60 \<le> weight_of (finding_factors fs)"
  by (auto simp: finding_weight with_severity_def filter_empty_conv)

text \<open>
  A scanned blocker reaches a human. When the content of a changed file that is not binary
  matches a blocker rule (of the secret rules only outside example, fixture and documentation paths),
  an assessment that scans the change requires human approval, whatever the verification, the review
  and the size of the change say.
\<close>

theorem scanned_blocker_needs_human:
  assumes "(path, content) \<in> set (cs_files cs)" and "\<not> is_binary path"
    and "(is_secret, rule) \<in> set (scanner_rules (eng_extra_rules eng))"
    and "sr_severity rule = Blocker" and "matches (sr_pattern rule) content"
    and "\<not> (is_example path \<and> is_secret)"
  shows "requires_human_approval (assess eng cs v None rejected attempts) \<and>
    list_ex (\<lambda>f. sf_rule f = sr_name rule \<and> sf_file f = Some path) (scan (eng_extra_rules eng) cs)"
proof -
  obtain f where f: "f \<in> set (scan (eng_extra_rules eng) cs)" "sf_rule f = sr_name rule"
      "sf_file f = Some path" "sf_severity f = Blocker"
    using scan_hit [OF assms(1-3,5)] assms(4,6) by auto
  from blocker_weight [OF f(1,4)]
    part_le_risk(1) [of "scan (eng_extra_rules eng) cs" eng cs v rejected attempts]
  have "requires_human_approval (assess eng cs v None rejected attempts)"
    unfolding needs_human_iff used_findings_def by simp
  with f show ?thesis by (auto simp: list_ex_iff)
qed

theorem scanned_blocker_needs_human_witness:
  "requires_human_approval (assess default_engine
     \<lparr>cs_files = [(''m.py'', ''AKIA0123456789ABCDEF'')], cs_deleted = None\<rparr>
     (Some green_run) None False 0)"
proof -
  let ?cs = "\<lparr>cs_files = [(''m.py'', ''AKIA0123456789ABCDEF'')], cs_deleted = None\<rparr>"
  have f: "(''m.py'', ''AKIA0123456789ABCDEF'') \<in> set (cs_files ?cs)" by simp
  have b: "\<not> is_binary ''m.py''" by code_simp
  have r: "(True, hd secret_rules) \<in> set (scanner_rules (eng_extra_rules default_engine))"
    by (simp add: scanner_rules_def secret_rules_def)
  have s: "sr_severity (hd secret_rules) = Blocker" by (simp add: secret_rules_def)
  have m: "matches (sr_pattern (hd secret_rules)) ''AKIA0123456789ABCDEF''" by code_simp
  have e: "\<not> (is_example ''m.py'' \<and> True)" by code_simp
  show ?thesis using scanned_blocker_needs_human [OF f b r s m e] by blast
qed

end
