(* ===== verification/Classifier.thy ===== *)
theory Classifier
  imports Schemas Regex
begin

section \<open>Deterministic failure classification\<close>

text \<open>
  Models \<open>agent/sweforge/recovery/classifier.py\<close>: the ordered rule table, the three extraction
  patterns, and \<open>FailureClassifier\<close>, whose only state is the optional set of known files. The lemmas
  show that the first matching rule decides, the bounds on the confidence and on everything
  extracted, and that the suspect files are distinct repository files.
\<close>

record classification_rule =
  cr_category :: failure_category
  cr_pattern :: rx
  cr_description :: string
  cr_weight :: int

definition words :: "string list \<Rightarrow> rx" where
  "words ws = cat [Wb, alts (map Lit ws), Wb]"

definition az_upper :: rx where "az_upper = Cls upper_az"

definition classification_rules :: "classification_rule list" where
  "classification_rules =
     [\<lparr>cr_category = FSyntax, cr_pattern = words [''SyntaxError'', ''IndentationError'', ''TabError''],
       cr_description = ''Python failed to parse the source'', cr_weight = 5\<rparr>,
      \<lparr>cr_category = FDependency,
       cr_pattern = alts [words [''ModuleNotFoundError'', ''ImportError''], Lit ''No module named''],
       cr_description = ''A module could not be imported'', cr_weight = 4\<rparr>,
      \<lparr>cr_category = FTimeout,
       cr_pattern = alts [LitI ''timed out after'', cat [Wb, LitI ''TimeoutError'', Wb],
                          cat [LitI ''Timeout >'', plus1 digit]],
       cr_description = ''Execution exceeded its time budget'', cr_weight = 4\<rparr>,
      \<lparr>cr_category = FType,
       cr_pattern = alts [cat [Wb, Lit ''TypeError'', Wb], cat [Wb, Lit ''AttributeError'', Wb],
                          cat [Lit ''error: Argument '', star dot, Lit '' has incompatible type'']],
       cr_description = ''Type or attribute contract violated'', cr_weight = 3\<rparr>,
      \<lparr>cr_category = FConfiguration,
       cr_pattern = alts
         [cat [Lit ''KeyError:'', star space, Lit [CHR 0x27],
               at_least 3 (Cls (\<lambda>c. upper_az c \<or> c = CHR ''_'')), Lit [CHR 0x27]],
          words [''ConfigError'', ''ValidationError''],
          Lit ''pydantic_core._pydantic_core.ValidationError'',
          cat [Lit ''missing required '', alts [Lit ''environment'', Lit ''config'']]],
       cr_description = ''Configuration or schema validation problem'', cr_weight = 3\<rparr>,
      \<lparr>cr_category = FEnvironment,
       cr_pattern = alts
         [words [''PermissionError'', ''FileNotFoundError'', ''OSError'', ''ConnectionError'',
                 ''executable not found''],
          Lit ''command not found''],
       cr_description = ''Environment, filesystem or network problem'', cr_weight = 3\<rparr>,
      \<lparr>cr_category = FRuntime,
       cr_pattern = words [''ValueError'', ''IndexError'', ''ZeroDivisionError'', ''RuntimeError'',
                           ''RecursionError'', ''KeyError''],
       cr_description = ''Unhandled runtime exception'', cr_weight = 2\<rparr>,
      \<lparr>cr_category = FTestAssertion,
       cr_pattern = alts [cat [Wb, Lit ''AssertionError'', Wb],
                          cat [BolM, Lit ''E'', plus1 space, Lit ''assert'', Wb]],
       cr_description = ''A test assertion did not hold'', cr_weight = 2\<rparr>,
      \<lparr>cr_category = FLint,
       cr_pattern = cat [BolM, plus1 nonspace, Lit ''.py:'', plus1 digit, Lit '':'', plus1 digit,
                         Lit '': '', plus1 az_upper, plus1 digit, Lit '' ''],
       cr_description = ''Lint rule violation'', cr_weight = 1\<rparr>]"

definition traceback_file_rx :: rx where
  "traceback_file_rx =
     cat [Lit (''File '' @ [CHR 0x22]),
          Grp 1 (cat [plus1 (Cls (\<lambda>c. c \<noteq> CHR 0x22)), Lit ''.py'']),
          Lit ([CHR 0x22] @ '', line ''), Grp 2 (plus1 digit)]"

definition pytest_failed_rx :: rx where
  "pytest_failed_rx =
     cat [Lit ''FAILED'', plus1 space,
          Grp 1 (cat [plus1 (Cls (\<lambda>c. \<not> is_space_c c \<and> c \<noteq> CHR '':'')), Lit ''.py'']),
          opt (Grp 2 (cat [Lit ''::'', plus1 nonspace]))]"

definition tool_file_rx :: rx where
  "tool_file_rx =
     cat [BolM, Grp 1 (cat [plus1 (Cls (\<lambda>c. is_word_c c \<or> c \<in> set ''./-'')), Lit ''.py'']),
          Lit '':'', Grp 2 (plus1 digit)]"

record classification =
  cl_category :: failure_category
  cl_evidence :: "string list"
  cl_matched_rules :: "failure_category list"
  cl_suspect_files :: "string list"
  cl_failing_tests :: "string list"
  cl_confidence :: rat

definition describe :: "classification \<Rightarrow> string" where
  "describe c =
     failure_text (cl_category c) @ '' failure'' @
     (case cl_evidence c of [] \<Rightarrow> [] | e # _ \<Rightarrow> '': '' @ take 200 e)"

definition failure_report :: "verification_result \<Rightarrow> string" where
  "failure_report r = join [newline] (vr_errors r @ [vr_output r])"

definition matched_rules :: "string \<Rightarrow> classification_rule list" where
  "matched_rules t = filter (\<lambda>r. matches (cr_pattern r) t) classification_rules"

definition confidence_of :: "classification_rule list \<Rightarrow> rat" where
  "confidence_of rs =
     (case rs of
        [] \<Rightarrow> 1 / 5
      | r # _ \<Rightarrow>
          let kinds = length (uniq (map cr_category rs))
          in max (1 / 4)
               (py_round 3 (min (19 / 20)
                  (1 / 2 + 1 / 10 * of_int (cr_weight r) - 1 / 10 * (of_nat kinds - 1)))))"

definition pipe_lines :: "string \<Rightarrow> string" where
  "pipe_lines s = join '' | '' (split_on newline s)"

fun evidence_of :: "string \<Rightarrow> classification_rule list \<Rightarrow> string list" where
  "evidence_of t [] = []"
| "evidence_of t (r # rs) =
     (case search (cr_pattern r) t of
        None \<Rightarrow> evidence_of t rs
      | Some h \<Rightarrow>
          let start = match_start t h - 60;
              stop = match_end t h + 140
          in take 300 (pipe_lines (strip (drop start (take stop t)))) # evidence_of t rs)"

definition group_text :: "nat \<Rightarrow> string \<times> point \<Rightarrow> string" where
  "group_text n h = (case grp n h of None \<Rightarrow> [] | Some s \<Rightarrow> s)"

definition candidate_files :: "string \<Rightarrow> string list" where
  "candidate_files t =
     rev (map (group_text 1) (find_all traceback_file_rx t)) @
     map (group_text 1) (find_all pytest_failed_rx t) @
     map (group_text 1) (find_all tool_file_rx t)"

definition foreign_path :: "string \<Rightarrow> bool" where
  "foreign_path raw =
     (contains ''site-packages'' raw \<or> contains ''dist-packages'' raw \<or>
      starts_with ''/usr/'' raw \<or> starts_with ''/lib/'' raw \<or> starts_with ''/opt/'' raw \<or>
      contains ''/python3.'' raw)"

fun clean_candidates :: "string list option \<Rightarrow> string list \<Rightarrow> string list \<Rightarrow> string list" where
  "clean_candidates known [] cleaned = cleaned"
| "clean_candidates known (raw # raws) cleaned =
     (if foreign_path raw then clean_candidates known raws cleaned
      else
        let path = lstrip_chars ''./'' raw
        in if (case known of None \<Rightarrow> False | Some ks \<Rightarrow> path \<notin> set ks)
           then clean_candidates known raws cleaned
           else clean_candidates known raws (if path \<in> set cleaned then cleaned else cleaned @ [path]))"

definition suspect_files :: "string list option \<Rightarrow> string \<Rightarrow> string list" where
  "suspect_files known t = take 8 (clean_candidates known (candidate_files t) [])"

definition failing_tests :: "string \<Rightarrow> string list" where
  "failing_tests t =
     take 10 (uniq (map (\<lambda>h. group_text 1 h @ group_text 2 h) (find_all pytest_failed_rx t)))"

definition classify :: "string list option \<Rightarrow> verification_result \<Rightarrow> classification" where
  "classify known result =
     (let t = failure_report result; matched = matched_rules t
      in if vr_passed result
         then \<lparr>cl_category = FUnknown, cl_evidence = [''verification passed''], cl_matched_rules = [],
               cl_suspect_files = [], cl_failing_tests = [], cl_confidence = 0\<rparr>
         else
           \<lparr>cl_category = (case matched of [] \<Rightarrow> FUnknown | r # _ \<Rightarrow> cr_category r),
            cl_evidence = evidence_of t (take 3 matched),
            cl_matched_rules = map cr_category matched,
            cl_suspect_files = suspect_files known t,
            cl_failing_tests = failing_tests t,
            cl_confidence = confidence_of matched\<rparr>)"

subsection \<open>Extraction\<close>

lemma clean_candidates_distinct:
  "distinct cleaned \<Longrightarrow> distinct (clean_candidates known raws cleaned)"
  by (induction known raws cleaned rule: clean_candidates.induct) (auto simp: Let_def)

lemma clean_candidates_from:
  "p \<in> set (clean_candidates known raws cleaned) \<Longrightarrow>
     p \<in> set cleaned \<or>
     (\<exists>raw \<in> set raws. \<not> foreign_path raw \<and> p = lstrip_chars ''./'' raw \<and>
        (\<forall>ks. known = Some ks \<longrightarrow> p \<in> set ks))"
  by (induction known raws cleaned rule: clean_candidates.induct)
    (auto simp: Let_def split: if_splits option.splits)

lemma lstrip_chars_suffix: "\<exists>u. s = u @ lstrip_chars cs s"
  unfolding lstrip_chars_def by (metis takeWhile_dropWhile_id)

lemma lstrip_chars_hd: "lstrip_chars cs s \<noteq> [] \<Longrightarrow> hd (lstrip_chars cs s) \<notin> set cs"
  unfolding lstrip_chars_def by (induction s) auto

lemma lstrip_contains: "contains w (lstrip_chars cs s) \<Longrightarrow> contains w s"
  by (metis contains_append append_Nil2 lstrip_chars_suffix)

lemma length_evidence_of: "length (evidence_of t rs) \<le> length rs"
  by (induction t rs rule: evidence_of.induct) (auto simp: Let_def split: option.splits)

lemma evidence_of_short: "e \<in> set (evidence_of t rs) \<Longrightarrow> length e \<le> 300"
  by (induction t rs rule: evidence_of.induct) (auto simp: Let_def split: option.splits)

lemma distinct_failing_tests: "distinct (failing_tests t)"
  by (simp add: failing_tests_def)

subsection \<open>Confidence\<close>

lemma confidence_bounds: "1 / 5 \<le> confidence_of rs \<and> confidence_of rs \<le> 19 / 20"
proof (cases rs)
  case Nil
  then show ?thesis by (simp add: confidence_of_def)
next
  case (Cons r rs')
  define x :: rat where "x = min (19 / 20)
    (1 / 2 + 1 / 10 * of_int (cr_weight r) - 1 / 10 * (of_nat (length (uniq (map cr_category rs))) - 1))"
  have c: "confidence_of rs = max (1 / 4) (py_round 3 x)"
    by (simp add: confidence_of_def Cons x_def Let_def)
  have "on_grid 3 (19 / 20)" by (simp add: on_grid_def)
  then have "py_round 3 (19 / 20) = 19 / 20" by (rule py_round_grid)
  moreover have "py_round 3 x \<le> py_round 3 (19 / 20)" by (rule py_round_mono) (simp only: x_def min.cobounded1)
  ultimately have "py_round 3 x \<le> 19 / 20" by simp
  then show ?thesis unfolding c by (simp only: max_def split: if_split) simp
qed

subsection \<open>Rule order\<close>

lemma rule_categories: "map cr_category classification_rules =
    [FSyntax, FDependency, FTimeout, FType, FConfiguration, FEnvironment, FRuntime, FTestAssertion,
     FLint]"
  by (simp add: classification_rules_def)

lemma distinct_rule_categories: "distinct (map cr_category classification_rules)"
  unfolding rule_categories by simp

lemma hd_filter_find: "(case filter P xs of [] \<Rightarrow> d | x # _ \<Rightarrow> f x) =
    (case find P xs of None \<Rightarrow> d | Some x \<Rightarrow> f x)"
  by (induction xs) auto

lemma matched_category:
  assumes "\<not> vr_passed r"
  shows "cl_category (classify known r) =
     (case find (\<lambda>q. matches (cr_pattern q) (failure_report r)) classification_rules of
        None \<Rightarrow> FUnknown | Some q \<Rightarrow> cr_category q)"
  using assms hd_filter_find [where d = FUnknown and f = cr_category
      and P = "\<lambda>q. matches (cr_pattern q) (failure_report r)" and xs = classification_rules]
  by (simp add: classify_def matched_rules_def Let_def)

definition rule_hits :: "verification_result \<Rightarrow> nat \<Rightarrow> bool" where
  "rule_hits r i = matches (cr_pattern (classification_rules ! i)) (failure_report r)"

lemma category_index:
  "i < length classification_rules \<Longrightarrow> j < length classification_rules \<Longrightarrow>
   cr_category (classification_rules ! i) = cr_category (classification_rules ! j) \<longleftrightarrow> i = j"
  using nth_eq_iff_index_eq [OF distinct_rule_categories, of i j] by simp

lemma category_known: "i < length classification_rules \<Longrightarrow>
    cr_category (classification_rules ! i) \<noteq> FUnknown"
proof -
  assume "i < length classification_rules"
  then have "cr_category (classification_rules ! i) \<in> set (map cr_category classification_rules)"
    by simp
  then show ?thesis unfolding rule_categories by auto
qed

text \<open>
  C22. The first matching rule decides. A failing verification is classified with the category of rule
  \<open>i\<close> exactly when rule \<open>i\<close> matches the report and no earlier rule does, so a syntax or import error
  wins over the assertion that pytest echoes, and a named exception wins over a test assertion; it is
  unknown exactly when no rule matches.
\<close>

theorem first_rule_decides:
  assumes "\<not> vr_passed r"
  shows "(cl_category (classify known r) = FUnknown \<longleftrightarrow>
            \<not> (\<exists>i < length classification_rules. rule_hits r i)) \<and>
    (\<forall>i < length classification_rules.
       cl_category (classify known r) = cr_category (classification_rules ! i) \<longleftrightarrow>
       rule_hits r i \<and> (\<forall>j < i. \<not> rule_hits r j))"
proof (cases "find (\<lambda>q. matches (cr_pattern q) (failure_report r)) classification_rules")
  case None
  then have "\<not> (\<exists>i < length classification_rules. rule_hits r i)"
    by (auto simp: find_None_iff rule_hits_def)
  with None category_known show ?thesis
    by (auto simp: matched_category [OF assms] dest: sym)
next
  case (Some q)
  then obtain k where k: "k < length classification_rules" "rule_hits r k"
      "q = classification_rules ! k" "\<forall>j < k. \<not> rule_hits r j"
    by (auto simp: find_Some_iff rule_hits_def)
  from Some k(3) have cat: "cl_category (classify known r) = cr_category (classification_rules ! k)"
    by (simp add: matched_category [OF assms])
  have "cl_category (classify known r) = cr_category (classification_rules ! i) \<longleftrightarrow>
      rule_hits r i \<and> (\<forall>j < i. \<not> rule_hits r j)" if "i < length classification_rules" for i
    using k(2,4) that category_index [OF k(1) that] unfolding cat by (metis nat_neq_iff)
  with k(1,2) category_known [OF k(1)] cat show ?thesis by metis
qed

definition import_failure :: verification_result where
  "import_failure =
     \<lparr>vr_passed = False, vr_tests_run = 1, vr_tests_passed = 0, vr_tests_failed = 1,
      vr_lint_passed = None, vr_typecheck_passed = None, vr_errors = [''AssertionError''],
      vr_commands = [], vr_output = ''ImportError'', vr_duration = 0\<rparr>"

theorem first_rule_decides_witness:
  "cl_category (classify None import_failure) = FDependency \<and> rule_hits import_failure 7"
proof -
  have no: "\<not> vr_passed import_failure" by (simp add: import_failure_def)
  have len: "1 < length classification_rules" by (simp add: classification_rules_def)
  have hits: "rule_hits import_failure 1" "\<not> rule_hits import_failure 0" "rule_hits import_failure 7"
    by code_simp+
  have "cr_category (classification_rules ! 1) = FDependency"
    by (simp add: classification_rules_def)
  with first_rule_decides [OF no, of None] hits len show ?thesis by (auto simp: less_Suc_eq)
qed

subsection \<open>Everything extracted is bounded\<close>

lemma suspect_facts:
  "distinct (suspect_files known t) \<and> length (suspect_files known t) \<le> 8 \<and>
   list_all (\<lambda>p. p = [] \<or> hd p \<notin> set ''./'') (suspect_files known t) \<and>
   list_all (\<lambda>p. \<not> contains ''site-packages'' p) (suspect_files known t) \<and>
   (case known of None \<Rightarrow> True | Some ks \<Rightarrow> list_all (\<lambda>p. p \<in> set ks) (suspect_files known t))"
proof -
  have src: "\<exists>raw. \<not> foreign_path raw \<and> p = lstrip_chars ''./'' raw \<and>
      (\<forall>ks. known = Some ks \<longrightarrow> p \<in> set ks)" if "p \<in> set (suspect_files known t)" for p
    using clean_candidates_from [of p known "candidate_files t" "[]"] that
    by (auto simp: suspect_files_def dest: in_set_takeD)
  have "p = [] \<or> hd p \<notin> set ''./''" if "p \<in> set (suspect_files known t)" for p
    using src [OF that] lstrip_chars_hd by metis
  moreover have "\<not> contains ''site-packages'' p" if "p \<in> set (suspect_files known t)" for p
    using src [OF that] lstrip_contains unfolding foreign_path_def by metis
  moreover have "case known of None \<Rightarrow> True
      | Some ks \<Rightarrow> list_all (\<lambda>p. p \<in> set ks) (suspect_files known t)"
    using src by (auto simp: list_all_iff split: option.splits)
  moreover have "distinct (suspect_files known t)" "length (suspect_files known t) \<le> 8"
    using clean_candidates_distinct [of "[]"] by (simp_all add: suspect_files_def)
  ultimately show ?thesis by (simp add: list_all_iff)
qed

lemma first_char: "p = [] \<or> hd p \<notin> A \<Longrightarrow> set (take 1 p) \<inter> A = {}"
  by (cases p) auto

text \<open>
  A classification is always a usable one. Its confidence lies between 0 and 0.95 as the diagnosis
  schema requires; it holds at most three pieces of evidence of at most 300 characters, at most ten
  distinct failing tests, and at most eight distinct suspect files, each a known file when the
  repository map is given, none from site-packages and none starting with a dot or a slash.
\<close>

theorem classification_bounded:
  "0 \<le> cl_confidence (classify known r) \<and> cl_confidence (classify known r) \<le> 19 / 20 \<and>
   length (cl_evidence (classify known r)) \<le> 3 \<and>
   list_all (\<lambda>e. length e \<le> 300) (cl_evidence (classify known r)) \<and>
   distinct (cl_failing_tests (classify known r)) \<and>
   length (cl_failing_tests (classify known r)) \<le> 10 \<and>
   distinct (cl_suspect_files (classify known r)) \<and>
   length (cl_suspect_files (classify known r)) \<le> 8 \<and>
   list_all (\<lambda>p. set (take 1 p) \<inter> set ''./'' = {}) (cl_suspect_files (classify known r)) \<and>
   list_all (\<lambda>p. \<not> contains ''site-packages'' p) (cl_suspect_files (classify known r)) \<and>
   (case known of None \<Rightarrow> True
    | Some ks \<Rightarrow> list_all (\<lambda>p. p \<in> set ks) (cl_suspect_files (classify known r)))"
proof (cases "vr_passed r")
  case True
  then show ?thesis by (simp add: classify_def Let_def split: option.split)
next
  case False
  let ?t = "failure_report r"
  have "length (evidence_of ?t (take 3 (matched_rules ?t))) \<le> 3"
    using length_evidence_of [of ?t "take 3 (matched_rules ?t)"] by simp
  moreover have "list_all (\<lambda>e. length e \<le> 300) (evidence_of ?t (take 3 (matched_rules ?t)))"
    by (auto simp: list_all_iff dest: evidence_of_short)
  moreover have "length (failing_tests ?t) \<le> 10" by (simp add: failing_tests_def)
  moreover have "list_all (\<lambda>p. set (take 1 p) \<inter> set ''./'' = {}) (suspect_files known ?t)"
    unfolding list_all_iff
  proof
    fix p assume "p \<in> set (suspect_files known ?t)"
    with suspect_facts [of known ?t] have "p = [] \<or> hd p \<notin> set ''./''"
      unfolding list_all_iff by blast
    then show "set (take 1 p) \<inter> set ''./'' = {}" by (rule first_char)
  qed
  ultimately show ?thesis
    using False suspect_facts [of known ?t] confidence_bounds [of "matched_rules ?t"]
      distinct_failing_tests [of ?t]
    by (simp add: classify_def Let_def split: option.splits)
qed

text \<open>
  Stripping the characters \<open>./\<close> from the left also strips the leading dot of a hidden directory, so
  such a file is dropped when the repository map is given.
\<close>

lemma hidden_directory_dropped:
  "clean_candidates (Some [''.github/x.py'']) [''.github/x.py''] [] = [] \<and>
   clean_candidates None [''.github/x.py''] [] = [''github/x.py'']"
  by code_simp

end
