(* ===== verification/Repo_Analyzer.thy ===== *)
theory Repo_Analyzer
  imports Interfaces
begin

section \<open>Static repository analysis\<close>

text \<open>
  Models \<open>agent/sweforge/repository/analyzer.py\<close>: the path predicates, the syntax-tree visitor, the
  directory walk and \<open>RepositoryAnalyzer.analyze\<close>. A directory tree is a value of \<open>fs_node\<close>, a Python
  syntax tree a value of \<open>py_node\<close> with the nodes the visitor tells apart and their children in
  source order. The parser \<open>ast.parse\<close> is a parameter: it returns the tree with its docstring, or
  the text of a syntax error.

  The lemmas show that one pass of the visitor collects exactly the definitions and imports of the
  tree, and the bounds and bookkeeping of an analysis.
\<close>

subsection \<open>Tables and path predicates\<close>

definition language_by_suffix :: "(string, string) dict" where
  "language_by_suffix =
     [(''.py'', ''python''), (''.pyi'', ''python''), (''.ts'', ''typescript''),
      (''.tsx'', ''typescript''), (''.js'', ''javascript''), (''.jsx'', ''javascript''),
      (''.go'', ''go''), (''.rs'', ''rust''), (''.java'', ''java''), (''.rb'', ''ruby''),
      (''.md'', ''markdown''), (''.json'', ''json''), (''.toml'', ''toml''), (''.yml'', ''yaml''),
      (''.yaml'', ''yaml''), (''.sh'', ''shell''), (''.sql'', ''sql'')]"

definition default_skip_dirs :: "string list" where
  "default_skip_dirs =
     [''.git'', ''.hg'', ''node_modules'', ''__pycache__'', ''.venv'', ''venv'', ''.mypy_cache'',
      ''.pytest_cache'', ''.ruff_cache'', ''dist'', ''build'', ''.next'', ''.turbo'',
      ''site-packages'', ''.eggs'']"

definition sensitive_path_markers :: "string list" where
  "sensitive_path_markers =
     [''.github/workflows'', ''dockerfile'', ''docker-compose'', ''requirements.txt'',
      ''pyproject.toml'', ''package.json'', ''pnpm-lock.yaml'', ''uv.lock'', ''makefile'', ''.env'',
      ''auth'', ''security'', ''secret'', ''credential'', ''token'', ''permission'', ''middleware'']"

definition base_name :: "string \<Rightarrow> string" where
  "base_name p = last (split_on (CHR ''/'') p)"

text \<open>
  \<open>name_suffix\<close> is \<open>Path.suffix\<close> of a file name: from the last dot on, unless that dot is the first
  or the last character.
\<close>

definition name_suffix :: "string \<Rightarrow> string" where
  "name_suffix n =
     (let parts = split_on (CHR ''.'') n; stem = join ''.'' (butlast parts)
      in if length parts < 2 \<or> stem = [] \<or> last parts = [] then [] else CHR ''.'' # last parts)"

definition drop_name_suffix :: "string \<Rightarrow> string" where
  "drop_name_suffix n = take (length n - length (name_suffix n)) n"

definition is_test_path :: "string \<Rightarrow> bool" where
  "is_test_path rel =
     (let lowered = py_lower rel; name = base_name lowered
      in starts_with ''test_'' name \<or> ends_with ''_test.py'' name \<or> ends_with ''.test.ts'' name \<or>
         ends_with ''.test.tsx'' name \<or> ends_with ''.spec.ts'' name \<or>
         contains ''/tests/'' (''/'' @ lowered) \<or> starts_with ''tests/'' lowered)"

definition is_sensitive_path :: "string \<Rightarrow> bool" where
  "is_sensitive_path rel = list_ex (\<lambda>marker. contains marker (py_lower rel)) sensitive_path_markers"

definition module_of :: "string \<Rightarrow> string option" where
  "module_of rel =
     (if \<not> (ends_with ''.py'' rel \<or> ends_with ''.pyi'' rel) then None
      else
        let comps = split_on (CHR ''/'') rel;
            parts = butlast comps @ [drop_name_suffix (last comps)];
            parts' = (if last parts = ''__init__'' then butlast parts else parts)
        in if parts' = [] then None else Some (join ''.'' parts'))"

subsection \<open>Records\<close>

datatype symbol_kind = KClass | KFunction | KAsyncFunction | KMethod

record symbol_info =
  sy_name :: string
  sy_kind :: symbol_kind
  sy_lineno :: nat
  sy_parent :: "string option"
  sy_docstring :: string

definition qualified_name :: "symbol_info \<Rightarrow> string" where
  "qualified_name s =
     (case sy_parent s of
        None \<Rightarrow> sy_name s
      | Some p \<Rightarrow> if p = [] then sy_name s else p @ ''.'' @ sy_name s)"

record file_info =
  fi_path :: string
  fi_language :: string
  fi_loc :: nat
  fi_is_test :: bool
  fi_is_sensitive :: bool
  fi_module :: "string option"
  fi_symbols :: "symbol_info list"
  fi_imports :: "string list"
  fi_parse_error :: "string option"
  fi_docstring :: string

definition symbol_names :: "file_info \<Rightarrow> string list" where
  "symbol_names f = map sy_name (fi_symbols f)"

record repository_map =
  rp_root :: string
  rp_files :: "(string, file_info) dict"
  rp_languages :: "(string, nat) dict"
  rp_seconds :: rat
  rp_skipped :: nat
  rp_truncated :: bool

definition file_count :: "repository_map \<Rightarrow> nat" where
  "file_count m = length (rp_files m)"

definition symbol_count :: "repository_map \<Rightarrow> nat" where
  "symbol_count m = sum_list (map (\<lambda>(p, f). length (fi_symbols f)) (rp_files m))"

definition test_files :: "repository_map \<Rightarrow> string list" where
  "test_files m = py_sorted (map fst (filter (\<lambda>(p, f). fi_is_test f) (rp_files m)))"

definition module_index :: "repository_map \<Rightarrow> (string, string) dict" where
  "module_index m =
     foldl (\<lambda>d (p, f). case fi_module f of
              None \<Rightarrow> d
            | Some name \<Rightarrow> if name = [] then d else dict_set name p d) [] (rp_files m)"

record repository_summary =
  su_root :: string
  su_file_count :: nat
  su_symbol_count :: nat
  su_languages :: "(string, nat) dict"
  su_test_file_count :: nat
  su_seconds :: rat
  su_truncated :: bool

definition to_summary :: "repository_map \<Rightarrow> repository_summary" where
  "to_summary m =
     \<lparr>su_root = rp_root m, su_file_count = file_count m, su_symbol_count = symbol_count m,
      su_languages = sort_key (\<lambda>kv. - int (snd kv)) (rp_languages m),
      su_test_file_count = length (test_files m), su_seconds = py_round 4 (rp_seconds m),
      su_truncated = rp_truncated m\<rparr>"

subsection \<open>The syntax-tree visitor\<close>

datatype py_node =
    ClassDef string nat string "py_node list"
  | FunctionDef bool string nat string "py_node list"
  | Import "string list"
  | ImportFrom nat string
  | OtherNode "py_node list"

text \<open>
  \<open>ClassDef name lineno docstring children\<close>, \<open>FunctionDef is_async name lineno docstring children\<close>,
  \<open>Import names\<close> and \<open>ImportFrom level module\<close> (the empty module when there is none).
\<close>

record visitor =
  vi_symbols :: "symbol_info list"
  vi_imports :: "string list"
  vi_class_stack :: "string list"

definition stack_top :: "string list \<Rightarrow> string option" where
  "stack_top st = (if st = [] then None else Some (last st))"

definition function_symbol :: "bool \<Rightarrow> string \<Rightarrow> nat \<Rightarrow> string \<Rightarrow> string option \<Rightarrow> symbol_info" where
  "function_symbol is_async name line doc parent =
     \<lparr>sy_name = name,
      sy_kind = (if parent \<noteq> None \<and> parent \<noteq> Some [] then KMethod
                 else if is_async then KAsyncFunction else KFunction),
      sy_lineno = line, sy_parent = parent, sy_docstring = take 300 doc\<rparr>"

definition class_symbol :: "string \<Rightarrow> nat \<Rightarrow> string \<Rightarrow> string option \<Rightarrow> symbol_info" where
  "class_symbol name line doc parent =
     \<lparr>sy_name = name, sy_kind = KClass, sy_lineno = line, sy_parent = parent,
      sy_docstring = take 300 doc\<rparr>"

definition import_text :: "nat \<Rightarrow> string \<Rightarrow> string" where
  "import_text level base = replicate level (CHR ''.'') @ base"

fun visit :: "py_node \<Rightarrow> visitor \<Rightarrow> visitor" where
  "visit (ClassDef name line doc body) v =
     (let v1 = v\<lparr>vi_symbols := vi_symbols v @ [class_symbol name line doc (stack_top (vi_class_stack v))],
                vi_class_stack := vi_class_stack v @ [name]\<rparr>;
          v2 = fold visit body v1
      in v2\<lparr>vi_class_stack := butlast (vi_class_stack v2)\<rparr>)"
| "visit (FunctionDef is_async name line doc body) v =
     fold visit body
       (v\<lparr>vi_symbols := vi_symbols v @
            [function_symbol is_async name line doc (stack_top (vi_class_stack v))]\<rparr>)"
| "visit (Import names) v = v\<lparr>vi_imports := vi_imports v @ names\<rparr>"
| "visit (ImportFrom level base) v = v\<lparr>vi_imports := vi_imports v @ [import_text level base]\<rparr>"
| "visit (OtherNode body) v = fold visit body v"

definition new_visitor :: visitor where
  "new_visitor = \<lparr>vi_symbols = [], vi_imports = [], vi_class_stack = []\<rparr>"

subsection \<open>Walking and analysing\<close>

datatype file_data = Unreadable | Readable (fd_bytes: nat) (fd_text: string)

datatype fs_node = FileNode file_data | DirNode "(string \<times> fs_node) list"

fun is_dir :: "fs_node \<Rightarrow> bool" where
  "is_dir (DirNode es) = True"
| "is_dir (FileNode d) = False"

definition child_path :: "string \<Rightarrow> string \<Rightarrow> string" where
  "child_path prefix n = (if prefix = [] then n else prefix @ ''/'' @ n)"

definition sub_files :: "(string \<times> fs_node) list \<Rightarrow> (string \<times> fs_node) list" where
  "sub_files es = sort_key fst (filter (\<lambda>(n, x). \<not> is_dir x) es)"

definition sub_dirs :: "string list \<Rightarrow> (string \<times> fs_node) list \<Rightarrow> (string \<times> fs_node) list" where
  "sub_dirs skip es =
     sort_key fst (filter (\<lambda>(n, x). is_dir x \<and> n \<notin> set skip \<and> \<not> starts_with ''.egg'' n) es)"

function iter_files :: "string list \<Rightarrow> string \<Rightarrow> fs_node \<Rightarrow> (string \<times> file_data) list" where
  "iter_files skip prefix (FileNode d) = [(prefix, d)]"
| "iter_files skip prefix (DirNode es) =
     concat (map (\<lambda>(n, x). iter_files skip (child_path prefix n) x) (sub_files es)) @
     concat (map (\<lambda>(n, x). iter_files skip (child_path prefix n) x) (sub_dirs skip es))"
  by pat_completeness auto
termination
proof (relation "measure (\<lambda>(skip, prefix, x). size x)")
  have small: "size x < size (DirNode es)" if "(n, x) \<in> set es" for n x es
    using that by (induction es) auto
  show "((skip, child_path prefix n, x), skip, prefix, DirNode es)
      \<in> measure (\<lambda>(skip, prefix, x). size x)"
    if "p \<in> set (sub_files es)" "(n, x) = p" for skip prefix n x es p
    using that small by (auto simp: sub_files_def)
  show "((skip, child_path prefix n, x), skip, prefix, DirNode es)
      \<in> measure (\<lambda>(skip, prefix, x). size x)"
    if "p \<in> set (sub_dirs skip es)" "(n, x) = p" for skip prefix n x es p
    using that small by (auto simp: sub_dirs_def)
qed simp

record analyzer =
  an_max_files :: nat
  an_max_file_bytes :: nat
  an_skip_dirs :: "string list"

definition default_analyzer :: analyzer where
  "default_analyzer =
     \<lparr>an_max_files = 4000, an_max_file_bytes = 400000, an_skip_dirs = default_skip_dirs\<rparr>"

type_synonym py_parser = "string \<Rightarrow> string + (string \<times> py_node)"

definition analyze_file ::
  "py_parser \<Rightarrow> analyzer \<Rightarrow> string \<Rightarrow> file_data \<Rightarrow> file_info option" where
  "analyze_file parse an rel d =
     (case map_of language_by_suffix (py_lower (name_suffix (base_name rel))) of
        None \<Rightarrow> None
      | Some language \<Rightarrow>
          (case d of
             Unreadable \<Rightarrow> None
           | Readable bytes t \<Rightarrow>
               if bytes > an_max_file_bytes an then None
               else
                 let info = \<lparr>fi_path = rel, fi_language = language,
                             fi_loc = (if t = [] then 0 else count_char newline t + 1),
                             fi_is_test = is_test_path rel, fi_is_sensitive = is_sensitive_path rel,
                             fi_module = module_of rel, fi_symbols = [], fi_imports = [],
                             fi_parse_error = None, fi_docstring = []\<rparr>
                 in if language = ''python''
                    then (case parse t of
                            Inl err \<Rightarrow> Some (info\<lparr>fi_parse_error := Some err\<rparr>)
                          | Inr (doc, tree) \<Rightarrow>
                              let v = visit tree new_visitor
                              in Some (info\<lparr>fi_symbols := vi_symbols v, fi_imports := vi_imports v,
                                            fi_docstring := take 400 doc\<rparr>))
                    else Some info))"

fun analyze_files ::
  "py_parser \<Rightarrow> analyzer \<Rightarrow> (string \<times> file_data) list \<Rightarrow> repository_map \<Rightarrow> repository_map" where
  "analyze_files parse an [] m = m"
| "analyze_files parse an ((rel, d) # fs) m =
     (if file_count m \<ge> an_max_files an then m\<lparr>rp_truncated := True\<rparr>
      else
        (case analyze_file parse an rel d of
           None \<Rightarrow> analyze_files parse an fs (m\<lparr>rp_skipped := rp_skipped m + 1\<rparr>)
         | Some info \<Rightarrow>
             analyze_files parse an fs
               (m\<lparr>rp_files := dict_set rel info (rp_files m),
                  rp_languages := dict_bump (fi_language info) (rp_languages m)\<rparr>)))"

definition empty_map :: "string \<Rightarrow> repository_map" where
  "empty_map root_dir =
     \<lparr>rp_root = root_dir, rp_files = [], rp_languages = [], rp_seconds = 0, rp_skipped = 0,
      rp_truncated = False\<rparr>"

definition analyze ::
  "py_parser \<Rightarrow> analyzer \<Rightarrow> string \<Rightarrow> fs_node option \<Rightarrow> rat \<Rightarrow> repository_map result" where
  "analyze parse an root_dir tree seconds =
     (case tree of
        Some (DirNode es) \<Rightarrow>
          Inr (analyze_files parse an (iter_files (an_skip_dirs an) [] (DirNode es)) (empty_map root_dir)
                 \<lparr>rp_seconds := seconds\<rparr>)
      | _ \<Rightarrow> Inl (Raised ''NotADirectoryError'' (''repository root not found: '' @ root_dir)))"

subsection \<open>One pass of the visitor\<close>

text \<open>
  \<open>symbols_under parent n\<close> lists the definitions below a node in source order, each with the innermost
  enclosing class as its parent; \<open>imports_under\<close> lists the imports.
\<close>

fun symbols_under :: "string option \<Rightarrow> py_node \<Rightarrow> symbol_info list" where
  "symbols_under parent (ClassDef name line doc body) =
     class_symbol name line doc parent # concat (map (symbols_under (Some name)) body)"
| "symbols_under parent (FunctionDef is_async name line doc body) =
     function_symbol is_async name line doc parent # concat (map (symbols_under parent) body)"
| "symbols_under parent (OtherNode body) = concat (map (symbols_under parent) body)"
| "symbols_under parent n = []"

fun imports_under :: "py_node \<Rightarrow> string list" where
  "imports_under (ClassDef name line doc body) = concat (map imports_under body)"
| "imports_under (FunctionDef is_async name line doc body) = concat (map imports_under body)"
| "imports_under (Import names) = names"
| "imports_under (ImportFrom level base) = [import_text level base]"
| "imports_under (OtherNode body) = concat (map imports_under body)"

definition visited :: "py_node list \<Rightarrow> visitor \<Rightarrow> visitor" where
  "visited body v =
     v\<lparr>vi_symbols := vi_symbols v @ concat (map (symbols_under (stack_top (vi_class_stack v))) body),
       vi_imports := vi_imports v @ concat (map imports_under body)\<rparr>"

lemma fold_visited:
  assumes "\<And>n v. n \<in> set body \<Longrightarrow> visit n v = visited [n] v"
  shows "fold visit body v = visited body v"
  using assms by (induction body arbitrary: v) (simp_all add: visited_def)

lemma stack_top_snoc [simp]: "stack_top (st @ [c]) = Some c"
  by (simp add: stack_top_def)

lemma visit_visited: "visit n v = visited [n] v"
proof (induction n arbitrary: v)
  case (ClassDef name line doc body)
  define v1 where "v1 = v\<lparr>vi_symbols := vi_symbols v @
      [class_symbol name line doc (stack_top (vi_class_stack v))],
    vi_class_stack := vi_class_stack v @ [name]\<rparr>"
  have "fold visit body v1 = visited body v1" by (rule fold_visited) (rule ClassDef)
  then show ?case by (simp add: v1_def [symmetric] Let_def) (simp add: v1_def visited_def)
next
  case (FunctionDef is_async name line doc body)
  have "fold visit body w = visited body w" for w by (rule fold_visited) (rule FunctionDef)
  then show ?case by (simp add: visited_def)
next
  case (OtherNode body)
  have "fold visit body w = visited body w" for w by (rule fold_visited) (rule OtherNode)
  then show ?case by (simp add: visited_def)
qed (simp_all add: visited_def)

text \<open>
  One pass of the visitor collects exactly the definitions and imports of a syntax tree, in
  source order: every class and function once with its innermost enclosing class as parent (also for
  a function nested in a method), every import once, and the stack of classes is empty again.
\<close>

theorem visitor_collects_tree:
  "visit tree new_visitor =
     \<lparr>vi_symbols = symbols_under None tree, vi_imports = imports_under tree, vi_class_stack = []\<rparr>"
  unfolding visit_visited by (simp add: visited_def new_visitor_def stack_top_def)

subsection \<open>The bookkeeping of an analysis\<close>

definition language_total :: "repository_map \<Rightarrow> nat" where
  "language_total m = sum_list (map snd (rp_languages m))"

lemma sum_dict_bump: "sum_list (map snd (dict_bump k d)) = Suc (sum_list (map snd d))"
proof -
  have "sum_list (map snd (AList.update k (v + n) d)) + dict_get d k n
      = sum_list (map snd d) + v + n" if "n = 0" "v = dict_get d k 0 + 1" for v n :: nat
    using that by (induction d) (auto simp: dict_get_def)
  from this [of 0 "dict_get d k 0 + 1"] show ?thesis
    by (simp add: dict_bump_def dict_set_def)
qed

lemma length_dict_set:
  "length (dict_set k v d) = (if k \<in> set (dict_keys d) then length d else Suc (length d))"
  unfolding dict_set_def dict_keys_def by (induction d) auto

definition map_ok :: "analyzer \<Rightarrow> repository_map \<Rightarrow> bool" where
  "map_ok an m \<longleftrightarrow>
     file_count m \<le> an_max_files an \<and> dict_ok (rp_files m) \<and> dict_ok (rp_languages m) \<and>
     file_count m \<le> language_total m \<and>
     list_all (\<lambda>(p, f). fi_path f = p \<and> fi_is_test f = is_test_path p \<and>
                        fi_is_sensitive f = is_sensitive_path p \<and> fi_module f = module_of p)
       (rp_files m)"

lemma analyze_file_facts:
  assumes "analyze_file parse an rel d = Some info"
  shows "fi_path info = rel \<and> fi_is_test info = is_test_path rel \<and>
    fi_is_sensitive info = is_sensitive_path rel \<and> fi_module info = module_of rel"
  using assms by (auto simp: analyze_file_def Let_def split: option.splits file_data.splits
      if_splits sum.splits prod.splits)

lemma list_all_dict_set:
  "list_all P d \<Longrightarrow> P (k, v) \<Longrightarrow> list_all P (dict_set k v d)"
  unfolding dict_set_def by (induction d) auto

lemma add_file_ok:
  assumes "map_ok an m" and "file_count m < an_max_files an"
    and "analyze_file parse an rel d = Some info"
  shows "map_ok an (m\<lparr>rp_files := dict_set rel info (rp_files m),
    rp_languages := dict_bump (fi_language info) (rp_languages m)\<rparr>)"
  using assms(1,2) analyze_file_facts [OF assms(3)]
  by (auto simp: map_ok_def file_count_def language_total_def sum_dict_bump length_dict_set
      intro!: list_all_dict_set)

lemma analyze_files_ok: "map_ok an m \<Longrightarrow> map_ok an (analyze_files parse an fs m)"
proof (induction parse an fs m rule: analyze_files.induct)
  case (2 parse an rel d fs m)
  show ?case
  proof (cases "an_max_files an \<le> file_count m")
    case True
    with 2(3) show ?thesis by (simp add: map_ok_def file_count_def language_total_def)
  next
    case False
    have skip: "map_ok an (m\<lparr>rp_skipped := rp_skipped m + 1\<rparr>)"
      using 2(3) by (simp add: map_ok_def file_count_def language_total_def)
    show ?thesis
      using 2(1) [OF False _ skip] 2(2) [OF False] add_file_ok [OF 2(3)] False
      by (cases "analyze_file parse an rel d") (simp_all add: not_le)
  qed
qed simp

subsection \<open>Skipped directories are never entered\<close>

fun wf_fs :: "fs_node \<Rightarrow> bool" where
  "wf_fs (FileNode d) \<longleftrightarrow> True"
| "wf_fs (DirNode es) \<longleftrightarrow>
     (\<forall>(n, x) \<in> set es. n \<noteq> [] \<and> CHR ''/'' \<notin> set n \<and> wf_fs x)"

definition dirs_of :: "string \<Rightarrow> string list" where
  "dirs_of p = butlast (split_on (CHR ''/'') p)"

lemma split_on_sep: "split_on d (s @ d # t) = split_on d s @ split_on d t"
  by (induction s) (auto split: list.splits)

lemma split_on_plain: "d \<notin> set n \<Longrightarrow> split_on d n = [n]"
  by (induction n) auto

definition clear_of :: "string list \<Rightarrow> string \<Rightarrow> bool" where
  "clear_of skip prefix \<longleftrightarrow>
     prefix = [] \<or> (\<forall>c \<in> set (split_on (CHR ''/'') prefix). c \<notin> set skip)"

lemma child_split:
  "CHR ''/'' \<notin> set n \<Longrightarrow> split_on (CHR ''/'') (child_path prefix n) =
     (if prefix = [] then [n] else split_on (CHR ''/'') prefix @ [n])"
  by (simp add: child_path_def split_on_sep split_on_plain)

lemma child_clear:
  "clear_of skip prefix \<Longrightarrow> CHR ''/'' \<notin> set n \<Longrightarrow> n \<notin> set skip \<Longrightarrow>
   clear_of skip (child_path prefix n)"
  by (auto simp: clear_of_def child_split)

lemma child_dirs:
  "clear_of skip prefix \<Longrightarrow> CHR ''/'' \<notin> set n \<Longrightarrow>
   \<forall>c \<in> set (dirs_of (child_path prefix n)). c \<notin> set skip"
  by (auto simp: clear_of_def dirs_of_def child_split butlast_append)

lemma iter_files_clear:
  "(p, d) \<in> set (iter_files skip prefix x) \<Longrightarrow> wf_fs x \<Longrightarrow> is_dir x \<Longrightarrow> clear_of skip prefix \<Longrightarrow>
   \<forall>c \<in> set (dirs_of p). c \<notin> set skip"
proof (induction skip prefix x rule: iter_files.induct)
  case (2 skip prefix es)
  from 2(3) consider
      (plain) n x where "(n, x) \<in> set (sub_files es)" "(p, d) \<in> set (iter_files skip (child_path prefix n) x)"
    | (sub) n x where "(n, x) \<in> set (sub_dirs skip es)"
        "(p, d) \<in> set (iter_files skip (child_path prefix n) x)"
    by auto
  then show ?case
  proof cases
    case plain
    then have "\<not> is_dir x" "CHR ''/'' \<notin> set n" using 2(4) by (auto simp: sub_files_def)
    with plain(2) 2(6) show ?thesis by (cases x) (simp_all add: child_dirs)
  next
    case sub
    then have x: "is_dir x" "n \<notin> set skip" "CHR ''/'' \<notin> set n" "wf_fs x"
      using 2(4) by (auto simp: sub_dirs_def)
    from 2(2) [OF sub(1) refl sub(2)] x child_clear [OF 2(6) x(3,2)] show ?thesis by blast
  qed
qed simp

lemma analyze_files_paths:
  "set (dict_keys (rp_files (analyze_files parse an fs m)))
     \<subseteq> set (dict_keys (rp_files m)) \<union> set (map fst fs)"
proof (induction parse an fs m rule: analyze_files.induct)
  case (2 parse an rel d fs m)
  show ?case
  proof (cases "an_max_files an \<le> file_count m")
    case False
    then show ?thesis
      using 2(1) [OF False] 2(2) [OF False]
      by (cases "analyze_file parse an rel d") (fastforce simp: dict_set_keys)+
  qed auto
qed simp

text \<open>
  What an analysis promises. It holds at most \<open>max_files\<close> files, each once, under the path its
  record carries and with the flags and module name that path determines; the language counts cover
  every file; and no analysed file lies below a directory that is to be skipped.
\<close>

theorem analysis_sound:
  assumes "wf_fs (DirNode es)"
    and "analyze parse an root_dir (Some (DirNode es)) seconds = Inr m"
  shows "map_ok an m \<and>
    (\<forall>p \<in> set (dict_keys (rp_files m)). \<forall>c \<in> set (dirs_of p). c \<notin> set (an_skip_dirs an))"
proof
  let ?walk = "iter_files (an_skip_dirs an) [] (DirNode es)"
  have m: "m = (analyze_files parse an ?walk (empty_map root_dir))\<lparr>rp_seconds := seconds\<rparr>"
    using assms(2) by (simp add: analyze_def)
  have "map_ok an (empty_map root_dir)"
    by (simp add: map_ok_def empty_map_def file_count_def language_total_def)
  then have "map_ok an (analyze_files parse an ?walk (empty_map root_dir))"
    by (rule analyze_files_ok)
  then show "map_ok an m"
    by (simp add: m map_ok_def file_count_def language_total_def)
  show "\<forall>p \<in> set (dict_keys (rp_files m)). \<forall>c \<in> set (dirs_of p). c \<notin> set (an_skip_dirs an)"
  proof
    fix p assume "p \<in> set (dict_keys (rp_files m))"
    then have "p \<in> set (map fst ?walk)"
      using analyze_files_paths [of parse an ?walk "empty_map root_dir"]
      by (auto simp: m empty_map_def dict_keys_def)
    then obtain q where q: "q \<in> set ?walk" "p = fst q" unfolding set_map by blast
    then have "(p, snd q) \<in> set ?walk" by (simp del: iter_files.simps)
    from iter_files_clear [OF this assms(1)]
    show "\<forall>c \<in> set (dirs_of p). c \<notin> set (an_skip_dirs an)" by (simp add: clear_of_def)
  qed
qed

definition sample_tree :: "(string \<times> fs_node) list" where
  "sample_tree =
     [(''src'', DirNode [(''a.py'', FileNode (Readable 3 ''x'')), (''b.bin'', FileNode Unreadable)]),
      (''build'', DirNode [(''c.py'', FileNode (Readable 3 ''y''))])]"

definition sample_parser :: py_parser where
  "sample_parser t = Inr ([], OtherNode [FunctionDef False t 1 [] []])"

definition small_analyzer :: analyzer where
  "small_analyzer =
     \<lparr>an_max_files = 5, an_max_file_bytes = 9, an_skip_dirs = default_skip_dirs\<rparr>"

theorem analysis_sound_witness:
  "\<exists>m. analyze sample_parser small_analyzer ''/r'' (Some (DirNode sample_tree)) 0 = Inr m \<and>
     dict_keys (rp_files m) = [''src/a.py''] \<and> map_ok small_analyzer m"
proof -
  have wf: "wf_fs (DirNode sample_tree)" by (simp add: sample_tree_def)
  let ?run = "analyze sample_parser small_analyzer ''/r'' (Some (DirNode sample_tree)) 0"
  obtain m where run: "?run = Inr m" by (simp add: analyze_def)
  have "(case ?run of Inl e \<Rightarrow> [] | Inr m \<Rightarrow> dict_keys (rp_files m)) = [''src/a.py'']"
    by code_simp
  with run analysis_sound [OF wf run] show ?thesis by simp
qed

end
