(* ===== verification/Repo_Graph.thy ===== *)
theory Repo_Graph
  imports Repo_Analyzer Regex Schemas "HOL-Library.Product_Lexorder"
begin

section \<open>The repository dependency graph and its queries\<close>

text \<open>
  Models \<open>agent/sweforge/repository/graph_index.py\<close>: the tokenizer, \<open>RepositoryGraph\<close> with its build
  loop and import resolution, and every query. A Python set of strings is a list without duplicates
  in insertion order; the queries sort before they return, so the order of insertion never shows.
  The neighbours of a seed are visited in sorted order, which changes no score, no reason and no rank.

  The lemmas show that the two edge tables are converse to each other and mention only analysed
  files, that an import resolves to the longest known prefix of its absolute name, and the order and
  bounds of the ranking.
\<close>

subsection \<open>Tokens\<close>

definition stopwords :: "string list" where
  "stopwords =
     [''the'', ''and'', ''for'', ''with'', ''that'', ''this'', ''from'', ''into'', ''when'',
      ''should'', ''add'', ''fix'', ''make'', ''use'', ''using'', ''get'', ''set'', ''not'', ''are'',
      ''was'', ''has'', ''have'', ''but'', ''all'', ''any'', ''can'', ''will'', ''must'', ''then'',
      ''than'', ''them'', ''there'', ''their'', ''also'', ''does'', ''did'', ''you'', ''your'',
      ''our'', ''its'', ''it'' @ [CHR 0x27] @ ''s'', ''file'', ''files'', ''code'', ''please'', ''need'',
      ''needs'', ''want'', ''test'', ''tests'', ''function'', ''class'', ''method'', ''module'',
      ''repo'', ''repository'', ''python'', ''new'']"

definition token_rx :: rx where
  "token_rx =
     cat [Cls (\<lambda>c. upper_az c \<or> lower_az c \<or> c = CHR ''_''), plus1 (Cls (\<lambda>c. alnum c \<or> c = CHR ''_''))]"

definition camel_rx :: rx where
  "camel_rx =
     alts [cat [plus1 (Cls upper_az), NotAhead (Cls lower_az)],
           cat [Cls upper_az, star (Cls (\<lambda>c. lower_az c \<or> num_09 c))],
           plus1 (Cls (\<lambda>c. lower_az c \<or> num_09 c))]"

definition sub_tokens :: "string \<Rightarrow> string list" where
  "sub_tokens piece =
     filter (\<lambda>w. 2 < length w \<and> w \<notin> set stopwords)
       (map (\<lambda>h. py_lower (match_text h)) (find_all camel_rx piece))"

definition tokenize :: "string \<Rightarrow> string list" where
  "tokenize t =
     concat (map (\<lambda>h. concat (map sub_tokens
                       (filter (\<lambda>p. p \<noteq> []) (split_on (CHR ''_'') (match_text h)))))
       (find_all token_rx t))"

definition slash_to_space :: "string \<Rightarrow> string" where
  "slash_to_space p = map (\<lambda>c. if c = CHR ''/'' then CHR '' '' else c) p"

subsection \<open>Sets of strings and the graph\<close>

definition add_to :: "'a \<Rightarrow> 'a list \<Rightarrow> 'a list" where
  "add_to x xs = (if x \<in> set xs then xs else xs @ [x])"

definition dict_add :: "'k \<Rightarrow> 'v \<Rightarrow> ('k, 'v list) dict \<Rightarrow> ('k, 'v list) dict" where
  "dict_add k v d = dict_set k (add_to v (dict_get d k [])) d"

record repo_graph =
  rg_map :: repository_map
  rg_modules :: "(string, string) dict"
  rg_edges :: "(string, string list) dict"
  rg_reverse :: "(string, string list) dict"
  rg_owners :: "(string, string list) dict"
  rg_tokens :: "(string, string list) dict"

function longest_known :: "(string, string) dict \<Rightarrow> string list \<Rightarrow> string option" where
  "longest_known modules comps =
     (let candidate = join ''.'' comps
      in if candidate = [] then None
         else (case map_of modules candidate of
                 Some p \<Rightarrow> Some p
               | None \<Rightarrow> if length comps < 2 then None else longest_known modules (butlast comps)))"
  by pat_completeness auto
termination
  by (relation "measure (\<lambda>(m, comps). length comps)") auto

declare longest_known.simps [simp del]

text \<open>
  \<open>absolute_name\<close> is the dotted name an import stands for: a relative one is resolved against the
  importing module, of which each leading dot drops one component.
\<close>

definition absolute_name :: "string \<Rightarrow> string option \<Rightarrow> string option" where
  "absolute_name raw importer =
     (if starts_with ''.'' raw then
        (case importer of
           None \<Rightarrow> None
         | Some m \<Rightarrow>
             if m = [] then None
             else
               let suffix = lstrip_chars ''.'' raw;
                   level = length raw - length suffix;
                   parts = split_on (CHR ''.'') m;
                   base = take (length parts - level) parts
               in Some (join ''.'' (if suffix \<noteq> [] then base @ [suffix] else base)))
      else Some raw)"

definition resolve_import :: "(string, string) dict \<Rightarrow> string \<Rightarrow> string option \<Rightarrow> string option" where
  "resolve_import modules raw importer =
     (if raw = [] then None
      else (case absolute_name raw importer of
              None \<Rightarrow> None
            | Some name \<Rightarrow> longest_known modules (split_on (CHR ''.'') name)))"

definition add_edge :: "string \<Rightarrow> string option \<Rightarrow> repo_graph \<Rightarrow> repo_graph" where
  "add_edge path target g =
     (case target of
        None \<Rightarrow> g
      | Some q \<Rightarrow>
          if q \<noteq> [] \<and> q \<noteq> path
          then g\<lparr>rg_edges := dict_add path q (rg_edges g),
                 rg_reverse := dict_add q path (rg_reverse g)\<rparr>
          else g)"

definition file_tokens :: "string \<Rightarrow> file_info \<Rightarrow> string list" where
  "file_tokens path info =
     uniq (tokenize (slash_to_space path) @ concat (map (\<lambda>s. tokenize (sy_name s)) (fi_symbols info)) @
           tokenize (fi_docstring info))"

definition build_file :: "repo_graph \<Rightarrow> string \<times> file_info \<Rightarrow> repo_graph" where
  "build_file g pf =
     (case pf of (path, info) \<Rightarrow>
        let g1 = g\<lparr>rg_owners := fold (\<lambda>s. dict_add (sy_name s) path) (fi_symbols info) (rg_owners g),
                  rg_tokens := dict_set path (file_tokens path info) (rg_tokens g)\<rparr>
        in fold (\<lambda>raw. add_edge path (resolve_import (rg_modules g) raw (fi_module info)))
             (fi_imports info) g1)"

definition build_graph :: "repository_map \<Rightarrow> repo_graph" where
  "build_graph m =
     foldl build_file
       \<lparr>rg_map = m, rg_modules = module_index m, rg_edges = [], rg_reverse = [], rg_owners = [],
        rg_tokens = []\<rparr> (rp_files m)"

subsection \<open>Queries\<close>

definition find_dependencies :: "repo_graph \<Rightarrow> string \<Rightarrow> string list" where
  "find_dependencies g file = py_sorted (dict_get (rg_edges g) file [])"

definition find_dependents :: "repo_graph \<Rightarrow> string \<Rightarrow> string list" where
  "find_dependents g file = py_sorted (dict_get (rg_reverse g) file [])"

definition find_callers :: "repo_graph \<Rightarrow> string \<Rightarrow> string list" where
  "find_callers g symbol =
     py_sorted (uniq (concat (map (\<lambda>owner. dict_get (rg_reverse g) owner [])
                                (dict_get (rg_owners g) symbol []))))"

definition find_definition :: "repo_graph \<Rightarrow> string \<Rightarrow> string list" where
  "find_definition g symbol = py_sorted (dict_get (rg_owners g) symbol [])"

text \<open>\<open>stem_of\<close> is \<open>p.rsplit("/", 1)[-1].rsplit(".", 1)[0]\<close>.\<close>

definition stem_of :: "string \<Rightarrow> string" where
  "stem_of p =
     (let parts = split_on (CHR ''.'') (base_name p)
      in if length parts < 2 then base_name p else join ''.'' (butlast parts))"

definition is_test_file :: "repo_graph \<Rightarrow> string \<Rightarrow> bool" where
  "is_test_file g p = (case map_of (rp_files (rg_map g)) p of None \<Rightarrow> False | Some f \<Rightarrow> fi_is_test f)"

definition find_tests_for_file :: "repo_graph \<Rightarrow> string \<Rightarrow> string list" where
  "find_tests_for_file g file =
     (let linked = filter (is_test_file g) (dict_get (rg_reverse g) file []);
          stem = stem_of file;
          named = (if stem = [] then []
                   else map fst (filter (\<lambda>(path, info).
                          fi_is_test info \<and>
                          (let ts = stem_of path
                           in ts = ''test_'' @ stem \<or> ts = stem @ ''_test'' \<or> contains stem ts))
                        (rp_files (rg_map g))))
      in py_sorted (uniq (linked @ named)))"

record file_score =
  fs_path :: string
  fs_score :: rat
  fs_reasons :: "string list"

definition list_repr :: "string list \<Rightarrow> string" where
  "list_repr xs = ''['' @ join '', '' (map quoted xs) @ '']''"

definition score_file :: "string list \<Rightarrow> string \<Rightarrow> file_info \<Rightarrow> file_score option" where
  "score_file task_tokens path info =
     (let path_hits = filter (\<lambda>t. t \<in> set (tokenize (slash_to_space path))) task_tokens;
          symbol_hits = filter (\<lambda>t. t \<in> set (concat (map (\<lambda>s. tokenize (sy_name s)) (fi_symbols info))))
                          task_tokens;
          doc_hits = filter (\<lambda>t. t \<in> set (tokenize (fi_docstring info))) task_tokens;
          score = 3 * of_nat (length path_hits) + 2 * of_nat (length symbol_hits)
                  + of_nat (length doc_hits) :: rat;
          score' = (if fi_is_test info then score else score * (115 / 100));
          reasons =
            (if path_hits \<noteq> [] then [''path matches '' @ list_repr (py_sorted path_hits)] else []) @
            (if symbol_hits \<noteq> [] then [''defines '' @ list_repr (py_sorted symbol_hits)] else []) @
            (if doc_hits \<noteq> [] then [''docstring mentions '' @ list_repr (py_sorted doc_hits)] else [])
      in if score \<le> 0 then None
         else Some \<lparr>fs_path = path, fs_score = py_round 4 score', fs_reasons = reasons\<rparr>)"

definition rank :: "file_score list \<Rightarrow> file_score list" where
  "rank fs = sort_key (\<lambda>f. (- fs_score f, fs_path f)) fs"

definition lexical_scores :: "repo_graph \<Rightarrow> string list \<Rightarrow> bool \<Rightarrow> (string, file_score) dict" where
  "lexical_scores g task_tokens include_tests =
     foldl (\<lambda>d (path, info).
         if \<not> include_tests \<and> fi_is_test info then d
         else (case score_file task_tokens path info of None \<Rightarrow> d | Some f \<Rightarrow> dict_set path f d))
       [] (rp_files (rg_map g))"

definition add_neighbour ::
  "repo_graph \<Rightarrow> bool \<Rightarrow> string \<Rightarrow> (string, file_score) dict \<Rightarrow> string \<Rightarrow> (string, file_score) dict" where
  "add_neighbour g include_tests seed d n =
     (case map_of (rp_files (rg_map g)) n of
        None \<Rightarrow> d
      | Some info \<Rightarrow>
          if \<not> include_tests \<and> fi_is_test info then d
          else (case map_of d n of
                  Some f \<Rightarrow>
                    dict_set n (f\<lparr>fs_score := py_round 4 (fs_score f + 1 / 2),
                                  fs_reasons := fs_reasons f @ [''imports/imported-by '' @ seed]\<rparr>) d
                | None \<Rightarrow>
                    dict_set n \<lparr>fs_path = n, fs_score = 3 / 2,
                                fs_reasons = [''graph neighbour of '' @ seed]\<rparr> d))"

definition neighbours :: "repo_graph \<Rightarrow> string \<Rightarrow> string list" where
  "neighbours g seed = py_sorted (uniq (find_dependencies g seed @ find_dependents g seed))"

definition expand_seed ::
  "repo_graph \<Rightarrow> bool \<Rightarrow> (string, file_score) dict \<Rightarrow> file_score \<Rightarrow> (string, file_score) dict" where
  "expand_seed g include_tests d seed =
     foldl (add_neighbour g include_tests (fs_path seed)) d (neighbours g (fs_path seed))"

definition find_related_files :: "repo_graph \<Rightarrow> string \<Rightarrow> nat \<Rightarrow> bool \<Rightarrow> bool \<Rightarrow> file_score list" where
  "find_related_files g task limit include_tests expand =
     (let task_tokens = uniq (tokenize task)
      in if task_tokens = [] then []
         else
           let scored = lexical_scores g task_tokens include_tests;
               scored' = (if expand \<and> scored \<noteq> []
                          then foldl (expand_seed g include_tests) scored
                                 (take 3 (rank (map snd scored)))
                          else scored)
           in take limit (rank (map snd scored')))"

definition find_relevant_modules :: "repo_graph \<Rightarrow> string \<Rightarrow> nat \<Rightarrow> string list" where
  "find_relevant_modules g task limit =
     (let counts = foldl (\<lambda>d h. let key = hd (split_on (CHR ''/'') (fs_path h))
                              in dict_set key (dict_get d key 0 + fs_score h) d)
                     [] (find_related_files g task (limit * 4) True True)
      in map fst (take limit (sort_key (\<lambda>kv. (- snd kv, fst kv)) counts)))"

record graph_stats =
  gs_files :: nat
  gs_import_edges :: nat
  gs_symbols :: nat
  gs_symbol_names :: nat
  gs_test_files :: nat

definition stats :: "repo_graph \<Rightarrow> graph_stats" where
  "stats g =
     \<lparr>gs_files = file_count (rg_map g),
      gs_import_edges = sum_list (map (\<lambda>(k, v). length v) (rg_edges g)),
      gs_symbols = symbol_count (rg_map g), gs_symbol_names = length (rg_owners g),
      gs_test_files = length (test_files (rg_map g))\<rparr>"

subsection \<open>Import resolution\<close>

lemma longest_known_Some:
  assumes "longest_known ms comps = Some p"
  shows "\<exists>k. 0 < k \<and> k \<le> length comps \<and> map_of ms (join ''.'' (take k comps)) = Some p \<and>
    (\<forall>j. k < j \<longrightarrow> j \<le> length comps \<longrightarrow> map_of ms (join ''.'' (take j comps)) = None)"
  using assms
proof (induction ms comps rule: longest_known.induct)
  case (1 ms comps)
  then have ne: "join ''.'' comps \<noteq> []"
    by (subst (asm) (2) longest_known.simps) (auto split: if_splits)
  then have pos: "0 < length comps" by (cases comps) auto
  show ?case
  proof (cases "map_of ms (join ''.'' comps)")
    case (Some q)
    with 1(2) ne have "q = p" by (subst (asm) longest_known.simps) simp
    with Some pos show ?thesis by (intro exI [of _ "length comps"]) simp
  next
    case None
    with 1(2) ne have two: "\<not> length comps < 2" and "longest_known ms (butlast comps) = Some p"
      by (subst (asm) longest_known.simps, auto split: if_splits)+
    from 1(1) [OF refl ne None two this(2)] obtain k where k: "0 < k" "k \<le> length comps - 1"
      "map_of ms (join ''.'' (take k (butlast comps))) = Some p"
      "\<forall>j. k < j \<longrightarrow> j \<le> length comps - 1 \<longrightarrow> map_of ms (join ''.'' (take j (butlast comps))) = None"
      by auto
    have tk: "take j (butlast comps) = take j comps" if "j \<le> length comps - 1" for j
      using that by (simp add: butlast_conv_take)
    have "map_of ms (join ''.'' (take j comps)) = None" if "k < j" "j \<le> length comps" for j
    proof (cases "j = length comps")
      case True
      with None show ?thesis by simp
    next
      case False
      with that have "j \<le> length comps - 1" by simp
      with k(4) that(1) tk show ?thesis by metis
    qed
    with k pos tk [OF k(2)] show ?thesis by (intro exI [of _ k]) auto
  qed
qed

lemma longest_known_ran: "longest_known ms comps = Some p \<Longrightarrow> p \<in> ran (map_of ms)"
  by (drule longest_known_Some) (auto simp: ran_def)

lemma longest_known_exact:
  "map_of ms (join ''.'' comps) = Some p \<Longrightarrow> join ''.'' comps \<noteq> [] \<Longrightarrow> longest_known ms comps = Some p"
  by (subst longest_known.simps) simp

text \<open>
  Import resolution picks the longest known prefix. When an import resolves, the answer is the
  file of a known module whose name is a prefix of the absolute name of the import, and no longer
  prefix is known; and an absolute import of a known module resolves to exactly that module.
\<close>

theorem import_resolution:
  assumes "resolve_import modules raw importer = Some p"
  shows "(\<exists>name k. absolute_name raw importer = Some name \<and>
      0 < k \<and> k \<le> length (split_on (CHR ''.'') name) \<and>
      map_of modules (join ''.'' (take k (split_on (CHR ''.'') name))) = Some p \<and>
      (\<forall>j. k < j \<longrightarrow> j \<le> length (split_on (CHR ''.'') name) \<longrightarrow>
         map_of modules (join ''.'' (take j (split_on (CHR ''.'') name))) = None)) \<and>
    (\<not> starts_with ''.'' raw \<and> map_of modules raw = Some q \<longrightarrow> p = q)"
proof -
  from assms obtain name where name: "absolute_name raw importer = Some name"
      "longest_known modules (split_on (CHR ''.'') name) = Some p"
    by (auto simp: resolve_import_def split: if_splits option.splits)
  from assms have raw: "raw \<noteq> []" by (simp add: resolve_import_def split: if_splits)
  have "p = q" if "\<not> starts_with ''.'' raw" "map_of modules raw = Some q"
  proof -
    from that(1) name(1) have "name = raw" by (simp add: absolute_name_def)
    with that(2) raw longest_known_exact [of modules "split_on (CHR ''.'') raw" q]
    have "longest_known modules (split_on (CHR ''.'') name) = Some q" by (simp add: join_split_on)
    with name(2) show "p = q" by simp
  qed
  with longest_known_Some [OF name(2)] name(1) show ?thesis by blast
qed

definition sample_modules :: "(string, string) dict" where
  "sample_modules = [(''p'', ''p/__init__.py''), (''p.a'', ''p/a.py''), (''p.b'', ''p/b.py'')]"

theorem import_resolution_witness:
  "resolve_import sample_modules ''.a.f'' (Some ''p.b'') = Some ''p/a.py'' \<and>
   (\<exists>name. absolute_name ''.a.f'' (Some ''p.b'') = Some name \<and> name = ''p.a.f'')"
proof -
  have r: "resolve_import sample_modules ''.a.f'' (Some ''p.b'') = Some ''p/a.py''" by code_simp
  have "absolute_name ''.a.f'' (Some ''p.b'') = Some ''p.a.f''" by code_simp
  with import_resolution [OF r] r show ?thesis by blast
qed

text \<open>
  A relative import in the \<open>__init__\<close> file of a package is resolved one level too high: the module
  name of that file is the package itself, of which the first dot drops the last component.
\<close>

lemma package_relative_import_lost:
  "resolve_import sample_modules ''.a'' (Some ''p'') = None \<and>
   resolve_import sample_modules ''.a'' (Some ''p.b'') = Some ''p/a.py''"
  by code_simp

subsection \<open>The edge tables\<close>

lemma set_add_to [simp]: "set (add_to x xs) = insert x (set xs)"
  by (auto simp: add_to_def)

lemma distinct_add_to [simp]: "distinct xs \<Longrightarrow> distinct (add_to x xs)"
  by (simp add: add_to_def)

lemma dict_get_add: "dict_get (dict_add k v d) j [] = (if j = k then add_to v (dict_get d k []) else dict_get d j [])"
  by (simp add: dict_add_def dict_get_set)

definition edges_ok :: "string set \<Rightarrow> repo_graph \<Rightarrow> bool" where
  "edges_ok files g \<longleftrightarrow>
     (\<forall>p q. q \<in> set (dict_get (rg_edges g) p []) \<longleftrightarrow> p \<in> set (dict_get (rg_reverse g) q [])) \<and>
     (\<forall>p q. q \<in> set (dict_get (rg_edges g) p []) \<longrightarrow> p \<noteq> q \<and> p \<in> files \<and> q \<in> files) \<and>
     (\<forall>p. distinct (dict_get (rg_edges g) p []) \<and> distinct (dict_get (rg_reverse g) p []))"

lemma edges_ok_iff:
  "edges_ok files g \<Longrightarrow>
   q \<in> set (dict_get (rg_edges g) p []) \<longleftrightarrow> p \<in> set (dict_get (rg_reverse g) q [])"
  by (simp add: edges_ok_def)

lemma edges_ok_edge:
  assumes "edges_ok files g" and "q \<in> set (dict_get (rg_edges g) p [])"
  shows "p \<noteq> q" and "p \<in> files" and "q \<in> files"
  using assms unfolding edges_ok_def by blast+

lemma edges_ok_distinct:
  "edges_ok files g \<Longrightarrow> distinct (dict_get (rg_edges g) p [])"
  "edges_ok files g \<Longrightarrow> distinct (dict_get (rg_reverse g) p [])"
  by (simp_all add: edges_ok_def)

lemma add_edge_ok:
  assumes "edges_ok files g" and "p \<in> files" and "\<And>q. target = Some q \<Longrightarrow> q \<in> files"
  shows "edges_ok files (add_edge p target g)"
proof (cases target)
  case (Some q)
  with assms(3) have "q \<in> files" by simp
  with assms(1,2) Some show ?thesis
    by (auto simp: add_edge_def edges_ok_def dict_get_add)
qed (use assms(1) in \<open>simp add: add_edge_def\<close>)

lemma add_edge_keeps [simp]:
  "rg_modules (add_edge p t g) = rg_modules g" "rg_map (add_edge p t g) = rg_map g"
  by (simp_all add: add_edge_def split: option.splits)

lemma resolve_import_ran: "resolve_import ms raw importer = Some q \<Longrightarrow> q \<in> ran (map_of ms)"
  by (auto simp: resolve_import_def split: if_splits option.splits dest: longest_known_ran)

lemma add_imports_ok:
  assumes "edges_ok files g" and "p \<in> files" and "ran (map_of (rg_modules g)) \<subseteq> files"
    and "ms = rg_modules g"
  shows "edges_ok files (fold (\<lambda>raw. add_edge p (resolve_import ms raw importer)) raws g) \<and>
    rg_modules (fold (\<lambda>raw. add_edge p (resolve_import ms raw importer)) raws g) = rg_modules g \<and>
    rg_map (fold (\<lambda>raw. add_edge p (resolve_import ms raw importer)) raws g) = rg_map g"
  using assms
proof (induction raws arbitrary: g)
  case (Cons raw raws)
  let ?g = "add_edge p (resolve_import ms raw importer) g"
  have "edges_ok files ?g"
    using Cons.prems by (intro add_edge_ok) (auto dest: resolve_import_ran)
  from Cons.IH [OF this] Cons.prems show ?case by simp
qed simp

lemma build_file_ok:
  assumes "edges_ok files g" and "fst pf \<in> files" and "ran (map_of (rg_modules g)) \<subseteq> files"
  shows "edges_ok files (build_file g pf) \<and> rg_modules (build_file g pf) = rg_modules g \<and>
    rg_map (build_file g pf) = rg_map g"
proof -
  obtain path info where pf: "pf = (path, info)" by fastforce
  let ?g = "g\<lparr>rg_owners := fold (\<lambda>s. dict_add (sy_name s) path) (fi_symbols info) (rg_owners g),
    rg_tokens := dict_set path (file_tokens path info) (rg_tokens g)\<rparr>"
  have "edges_ok files ?g" using assms(1) by (simp add: edges_ok_def)
  moreover have "path \<in> files" using assms(2) pf by simp
  moreover have "ran (map_of (rg_modules ?g)) \<subseteq> files" using assms(3) by simp
  moreover have "rg_modules g = rg_modules ?g" by simp
  ultimately have "edges_ok files (build_file g pf) \<and>
      rg_modules (build_file g pf) = rg_modules ?g \<and> rg_map (build_file g pf) = rg_map ?g"
    unfolding pf build_file_def prod.case Let_def by (rule add_imports_ok)
  then show ?thesis by simp
qed

lemma build_files_ok:
  "edges_ok files g \<Longrightarrow> \<forall>pf \<in> set pfs. fst pf \<in> files \<Longrightarrow> ran (map_of (rg_modules g)) \<subseteq> files \<Longrightarrow>
   edges_ok files (foldl build_file g pfs) \<and> rg_map (foldl build_file g pfs) = rg_map g"
proof (induction pfs arbitrary: g)
  case (Cons pf pfs)
  from Cons.prems have "edges_ok files (build_file g pf)"
      "rg_modules (build_file g pf) = rg_modules g" "rg_map (build_file g pf) = rg_map g"
    using build_file_ok [of files g pf] by simp_all
  with Cons.IH [of "build_file g pf"] Cons.prems show ?case by simp
qed simp

lemma module_index_paths: "ran (map_of (module_index m)) \<subseteq> set (dict_keys (rp_files m))"
proof -
  define f where "f = (\<lambda>d (p, f :: file_info). case fi_module f of
      None \<Rightarrow> d | Some name \<Rightarrow> if name = [] then d else dict_set name p (d :: (string, string) dict))"
  have "ran (map_of (foldl f d fs)) \<subseteq> ran (map_of d) \<union> fst ` set fs" for d fs
  proof (induction fs arbitrary: d)
    case (Cons x fs)
    have "ran (map_of (f d x)) \<subseteq> ran (map_of d) \<union> {fst x}"
      by (auto simp: f_def ran_def split: prod.splits option.splits if_splits)
    with Cons.IH [of "f d x"] show ?case by auto
  qed simp
  from this [of "[]" "rp_files m"] show ?thesis
    by (simp add: module_index_def f_def dict_keys_def ran_def)
qed

lemma build_graph_ok:
  "edges_ok (set (dict_keys (rp_files m))) (build_graph m) \<and> rg_map (build_graph m) = m"
  using build_files_ok [of "set (dict_keys (rp_files m))"
      "\<lparr>rg_map = m, rg_modules = module_index m, rg_edges = [], rg_reverse = [], rg_owners = [],
        rg_tokens = []\<rparr>" "rp_files m"] module_index_paths [of m]
  by (simp add: build_graph_def edges_ok_def dict_keys_def)

text \<open>
  The two edge tables of a graph are converse to each other: a file is a dependency of another
  exactly when that one is its dependent. Every edge joins two different analysed files, so no query
  looks up a file the map lacks, and the lists of both queries are sorted and without duplicates.
\<close>

theorem import_graph_converse:
  "(q \<in> set (find_dependencies (build_graph m) p) \<longleftrightarrow> p \<in> set (find_dependents (build_graph m) q)) \<and>
   p \<notin> set (find_dependencies (build_graph m) p) \<and>
   set (find_dependencies (build_graph m) p) \<subseteq> set (dict_keys (rp_files m)) \<and>
   set (find_dependents (build_graph m) p) \<subseteq> set (dict_keys (rp_files m)) \<and>
   sorted_wrt (<) (find_dependencies (build_graph m) p) \<and>
   sorted_wrt (<) (find_dependents (build_graph m) p)"
proof -
  let ?g = "build_graph m"
  from build_graph_ok [of m] have ok: "edges_ok (set (dict_keys (rp_files m))) ?g" by simp
  have "sorted_wrt (<) (py_sorted xs)" if "distinct xs" for xs :: "string list"
    using that by (simp add: py_sorted_def strict_sorted_iff)
  then have "sorted_wrt (<) (find_dependencies ?g p)" "sorted_wrt (<) (find_dependents ?g p)"
    using edges_ok_distinct [OF ok] by (simp_all add: find_dependencies_def find_dependents_def)
  moreover have "q \<in> set (find_dependencies ?g p) \<longleftrightarrow> p \<in> set (find_dependents ?g q)" for p q
    using edges_ok_iff [OF ok] by (simp add: find_dependencies_def find_dependents_def)
  moreover have "p \<noteq> q \<and> p \<in> set (dict_keys (rp_files m)) \<and> q \<in> set (dict_keys (rp_files m))"
    if "q \<in> set (find_dependencies ?g p)" for p q
    using edges_ok_edge [OF ok] that by (simp add: find_dependencies_def)
  ultimately show ?thesis by blast
qed

subsection \<open>Ranking\<close>

lemma set_dict_set: "set (dict_set k v d) \<subseteq> insert (k, v) (set d)"
  unfolding dict_set_def by (induction d) auto

definition listed :: "repo_graph \<Rightarrow> bool \<Rightarrow> string \<Rightarrow> bool" where
  "listed g include_tests p \<longleftrightarrow>
     list_ex (\<lambda>(q, info). q = p \<and> (include_tests \<or> \<not> fi_is_test info)) (rp_files (rg_map g))"

definition score_ok :: "repo_graph \<Rightarrow> bool \<Rightarrow> string \<times> file_score \<Rightarrow> bool" where
  "score_ok g it kf \<longleftrightarrow>
     fs_path (snd kf) = fst kf \<and> 1 \<le> fs_score (snd kf) \<and> listed g it (fst kf)"

definition scores_ok :: "repo_graph \<Rightarrow> bool \<Rightarrow> (string, file_score) dict \<Rightarrow> bool" where
  "scores_ok g it d \<longleftrightarrow> dict_ok d \<and> (\<forall>kf \<in> set d. score_ok g it kf)"

lemma scores_ok_set: "scores_ok g it d \<Longrightarrow> score_ok g it (k, f) \<Longrightarrow> scores_ok g it (dict_set k f d)"
  unfolding scores_ok_def using set_dict_set by fastforce

lemma on_grid_one: "on_grid 4 1" "on_grid 4 (3 / 2)"
  by (simp_all add: on_grid_def)

lemma py_round_ge_one: "1 \<le> x \<Longrightarrow> 1 \<le> py_round 4 x"
  using py_round_mono [of 1 x 4] py_round_grid [OF on_grid_one(1)] by simp

lemma score_file_ok:
  assumes "score_file ts path info = Some f"
  shows "fs_path f = path \<and> 1 \<le> fs_score f"
proof -
  define n where "n = 3 * length (filter (\<lambda>t. t \<in> set (tokenize (slash_to_space path))) ts)
    + 2 * length (filter (\<lambda>t. t \<in> set (concat (map (\<lambda>s. tokenize (sy_name s)) (fi_symbols info)))) ts)
    + length (filter (\<lambda>t. t \<in> set (tokenize (fi_docstring info))) ts)"
  from assms have pos: "0 < (of_nat n :: rat)" and path: "fs_path f = path"
    and score: "fs_score f = py_round 4 (if fi_is_test info then of_nat n else of_nat n * (115 / 100))"
    by (auto simp: score_file_def Let_def n_def split: if_splits)
  from pos have "1 \<le> (of_nat n :: rat)" by simp
  then have "1 \<le> (if fi_is_test info then of_nat n else of_nat n * (115 / 100) :: rat)" by simp
  then show ?thesis unfolding score by (simp only: path py_round_ge_one simp_thms)
qed

lemma lexical_scores_ok: "scores_ok g it (lexical_scores g ts it)"
proof -
  define f where "f = (\<lambda>d (path, info). if \<not> it \<and> fi_is_test info then d
      else (case score_file ts path info of None \<Rightarrow> d | Some x \<Rightarrow> dict_set path x d))"
  have "scores_ok g it d \<Longrightarrow> set fs \<subseteq> set (rp_files (rg_map g)) \<Longrightarrow> scores_ok g it (foldl f d fs)"
    for d fs
  proof (induction fs arbitrary: d)
    case (Cons x fs)
    obtain path info where x: "x = (path, info)" by fastforce
    have "listed g it path" if "\<not> (\<not> it \<and> fi_is_test info)"
      using Cons.prems(2) that x by (auto simp: listed_def list_ex_iff)
    then have "scores_ok g it (f d x)"
      using Cons.prems(1) score_file_ok [of ts path info]
      by (auto simp: f_def x score_ok_def split: option.split intro!: scores_ok_set)
    with Cons show ?case by simp
  qed simp
  from this [of "[]" "rp_files (rg_map g)"] show ?thesis
    by (simp add: lexical_scores_def f_def scores_ok_def)
qed

lemma map_of_score_ok: "scores_ok g it d \<Longrightarrow> map_of d k = Some f \<Longrightarrow> score_ok g it (k, f)"
  unfolding scores_ok_def by (auto dest: map_of_SomeD)

lemma add_neighbour_ok:
  assumes "scores_ok g it d"
  shows "scores_ok g it (add_neighbour g it seed d n)"
proof (cases "map_of (rp_files (rg_map g)) n")
  case (Some info)
  then have mem: "(n, info) \<in> set (rp_files (rg_map g))" by (rule map_of_SomeD)
  show ?thesis
  proof (cases "\<not> it \<and> fi_is_test info")
    case False
    with mem have l: "listed g it n" by (auto simp: listed_def list_ex_iff)
    show ?thesis
    proof (cases "map_of d n")
      case None
      with Some False l assms show ?thesis
        by (auto simp: add_neighbour_def score_ok_def intro!: scores_ok_set)
    next
      case (Some f)
      from map_of_score_ok [OF assms Some] have "1 \<le> fs_score f" "fs_path f = n"
        by (simp_all add: score_ok_def)
      then have "score_ok g it (n, f\<lparr>fs_score := py_round 4 (fs_score f + 1 / 2),
          fs_reasons := fs_reasons f @ [''imports/imported-by '' @ seed]\<rparr>)"
        using l by (simp add: score_ok_def py_round_ge_one)
      from scores_ok_set [OF assms this] show ?thesis
        using \<open>map_of (rp_files (rg_map g)) n = Some info\<close> Some False
        by (simp only: add_neighbour_def option.case if_False)
    qed
  qed (use Some assms in \<open>simp add: add_neighbour_def\<close>)
qed (use assms in \<open>simp add: add_neighbour_def\<close>)

lemma expand_seeds_ok: "scores_ok g it d \<Longrightarrow> scores_ok g it (foldl (expand_seed g it) d seeds)"
proof -
  have step: "scores_ok g it d \<Longrightarrow> scores_ok g it (foldl (add_neighbour g it s) d ns)" for d s ns
    by (induction ns arbitrary: d) (simp_all add: add_neighbour_ok)
  show "scores_ok g it d \<Longrightarrow> scores_ok g it (foldl (expand_seed g it) d seeds)"
    by (induction seeds arbitrary: d) (simp_all add: expand_seed_def step)
qed

lemma ranked_ok:
  assumes "scores_ok g it d"
  shows "distinct (map fs_path (take limit (rank (map snd d)))) \<and>
    length (take limit (rank (map snd d))) \<le> limit \<and>
    sorted (map (\<lambda>f. (- fs_score f, fs_path f)) (take limit (rank (map snd d)))) \<and>
    list_all (\<lambda>f. 1 \<le> fs_score f \<and> listed g it (fs_path f)) (take limit (rank (map snd d)))"
proof -
  have keys: "map fs_path (map snd d) = dict_keys d"
    using assms by (auto simp: scores_ok_def score_ok_def dict_keys_def)
  have "distinct (map fs_path (map snd d))"
    unfolding keys using assms by (simp add: scores_ok_def dict_ok_def)
  then have "distinct (map fs_path (rank (map snd d)))"
    by (simp only: rank_def distinct_map distinct_sort set_sort)
  moreover have "sorted (map (\<lambda>f. (- fs_score f, fs_path f)) (rank (map snd d)))"
    by (simp add: rank_def)
  moreover have "\<forall>f \<in> set (rank (map snd d)). 1 \<le> fs_score f \<and> listed g it (fs_path f)"
    using assms by (fastforce simp: rank_def scores_ok_def score_ok_def)
  ultimately show ?thesis
    by (auto simp: list_all_iff take_map [symmetric] distinct_take sorted_wrt_take
        dest: in_set_takeD)
qed

lemma related_files_facts:
  "distinct (map fs_path (find_related_files g task limit it expand)) \<and>
   length (find_related_files g task limit it expand) \<le> limit \<and>
   sorted (map (\<lambda>f. (- fs_score f, fs_path f)) (find_related_files g task limit it expand)) \<and>
   list_all (\<lambda>f. 1 \<le> fs_score f \<and> listed g it (fs_path f))
     (find_related_files g task limit it expand)"
proof (cases "uniq (tokenize task) = []")
  case True
  then show ?thesis by (simp add: find_related_files_def)
next
  case False
  define scored where "scored = (let d = lexical_scores g (uniq (tokenize task)) it in
    if expand \<and> d \<noteq> [] then foldl (expand_seed g it) d (take 3 (rank (map snd d))) else d)"
  have "find_related_files g task limit it expand = take limit (rank (map snd scored))"
    using False by (simp only: find_related_files_def scored_def Let_def if_False)
  moreover have "scores_ok g it scored"
    unfolding scored_def Let_def by (simp add: lexical_scores_ok expand_seeds_ok)
  ultimately show ?thesis using ranked_ok [of g it scored limit] by simp
qed

text \<open>
  The ranking of related files is bounded and deterministic: at most \<open>limit\<close> different files of
  the map, in the order of descending score with ties broken by path, each with a score of at least
  one, and no test file among them when tests are excluded.
\<close>

theorem related_files_ranked:
  "distinct (map fs_path (find_related_files g task limit it expand)) \<and>
   length (find_related_files g task limit it expand) \<le> limit \<and>
   sorted (map (\<lambda>f. (- fs_score f, fs_path f)) (find_related_files g task limit it expand)) \<and>
   list_all (\<lambda>f. 1 \<le> fs_score f \<and> listed g it (fs_path f))
     (find_related_files g task limit it expand)"
  by (rule related_files_facts)

end
