(* ===== verification/Memory_Store.thy ===== *)
theory Memory_Store
  imports Repo_Graph
begin

section \<open>Experience memory\<close>

text \<open>
  Models \<open>agent/sweforge/memory/store.py\<close>: the append-only JSONL log with its in-memory index
  (\<open>ExperienceStore\<close>), BM25 retrieval and the rendering of retrieved records. The file is its text,
  or nothing when it does not exist. Encoding and decoding one record (\<open>model_dump_json\<close> and
  \<open>model_validate_json\<close> of pydantic) are the parameters \<open>enc\<close> and \<open>dec\<close>, and \<open>math.log\<close> is the
  parameter \<open>lg\<close>; the lemmas that use them name what they need of them. The lock orders appends: an
  append is one step here. The optional embedding hook has no caller and is not modelled.

  The lemmas show that the log is append-only, that a restart finds exactly the records that were
  written, what retrieval returns and in which order.
\<close>

subsection \<open>Lines of a text\<close>

definition line_break :: "char \<Rightarrow> bool" where
  "line_break c = (let n = ord_c c in (10 \<le> n \<and> n \<le> 13) \<or> (28 \<le> n \<and> n \<le> 30) \<or> n = 133)"

fun lines_from :: "string \<Rightarrow> string \<Rightarrow> string list" where
  "lines_from cur [] = (if cur = [] then [] else [cur])"
| "lines_from cur (c # cs) =
     (if line_break c then
        cur # lines_from [] (if ord_c c = 13 \<and> cs \<noteq> [] \<and> hd cs = newline then tl cs else cs)
      else lines_from (cur @ [c]) cs)"

definition splitlines :: "string \<Rightarrow> string list" where
  "splitlines s = lines_from [] s"

subsection \<open>The store\<close>

record store =
  es_file :: "string option"
  es_records :: "experience_record list"
  es_docs :: "string list list"
  es_loaded :: bool

record bm25 =
  bm_k1 :: rat
  bm_b :: rat

definition default_bm25 :: bm25 where
  "default_bm25 = \<lparr>bm_k1 = 3 / 2, bm_b = 3 / 4\<rparr>"

definition new_store :: "string option \<Rightarrow> store" where
  "new_store file = \<lparr>es_file = file, es_records = [], es_docs = [], es_loaded = False\<rparr>"

definition document_terms :: "experience_record \<Rightarrow> string list" where
  "document_terms r =
     tokenize (join '' ''
       [xr_task r, xr_task_type r, xr_repository r, xr_strategy r, xr_lesson r,
        join '' '' (xr_relevant_files r), join '' '' (xr_languages r),
        join '' '' (map failure_text (xr_failure_categories r)),
        join '' '' (xr_recovery_strategies r)])"

type_synonym decoder = "string \<Rightarrow> experience_record option"

definition decode_lines :: "decoder \<Rightarrow> string \<Rightarrow> experience_record list" where
  "decode_lines dec t =
     List.map_filter dec (filter (\<lambda>l. l \<noteq> []) (map strip (splitlines t)))"

definition load :: "decoder \<Rightarrow> store \<Rightarrow> store" where
  "load dec s =
     (let rs = (case es_file s of None \<Rightarrow> [] | Some t \<Rightarrow> decode_lines dec t)
      in s\<lparr>es_records := rs, es_docs := map document_terms rs, es_loaded := True\<rparr>)"

definition ensure_loaded :: "decoder \<Rightarrow> store \<Rightarrow> store" where
  "ensure_loaded dec s = (if es_loaded s then s else load dec s)"

definition add_record :: "(experience_record \<Rightarrow> string) \<Rightarrow> decoder \<Rightarrow> experience_record \<Rightarrow> store \<Rightarrow> store" where
  "add_record enc dec r s =
     (let s1 = ensure_loaded dec s;
          old = (case es_file s1 of None \<Rightarrow> [] | Some t \<Rightarrow> t)
      in s1\<lparr>es_file := Some (old @ enc r @ [newline]), es_records := es_records s1 @ [r],
            es_docs := es_docs s1 @ [document_terms r]\<rparr>)"

definition store_records :: "decoder \<Rightarrow> store \<Rightarrow> experience_record list" where
  "store_records dec s = es_records (ensure_loaded dec s)"

definition store_length :: "decoder \<Rightarrow> store \<Rightarrow> nat" where
  "store_length dec s = length (store_records dec s)"

subsection \<open>Retrieval\<close>

record retrieved =
  re_record :: experience_record
  re_score :: rat
  re_matched :: "string list"

definition was_completed :: "experience_record \<Rightarrow> bool" where
  "was_completed r = starts_with ''completed'' (xr_final_status r)"

definition doc_frequency :: "string list list \<Rightarrow> string \<Rightarrow> nat" where
  "doc_frequency docs term = length (filter (\<lambda>d. term \<in> set d) docs)"

definition term_weight ::
  "(rat \<Rightarrow> rat) \<Rightarrow> bm25 \<Rightarrow> string list list \<Rightarrow> rat \<Rightarrow> string list \<Rightarrow> string \<Rightarrow> rat" where
  "term_weight lg p docs avg_len terms term =
     (let n = of_nat (length docs); df = of_nat (doc_frequency docs term);
          idf = lg (1 + (n - df + 1 / 2) / (df + 1 / 2));
          tf = of_nat (length (filter (\<lambda>t. t = term) terms));
          denom = tf + bm_k1 p * (1 - bm_b p + bm_b p * of_nat (length terms) / avg_len)
      in idf * (tf * (bm_k1 p + 1)) / denom)"

definition average_length :: "string list list \<Rightarrow> rat" where
  "average_length docs =
     (let a = of_nat (sum_list (map length docs)) / of_nat (length docs) in if a = 0 then 1 else a)"

definition score_record ::
  "(rat \<Rightarrow> rat) \<Rightarrow> bm25 \<Rightarrow> string list list \<Rightarrow> string list \<Rightarrow> string option
   \<Rightarrow> experience_record \<times> string list \<Rightarrow> retrieved option" where
  "score_record lg p docs query_terms repository rd =
     (case rd of (r, terms) \<Rightarrow>
        let matched = filter (\<lambda>t. t \<in> set terms) (uniq query_terms);
            score = sum_list (map (term_weight lg p docs (average_length docs) terms) matched);
            score1 = (if repository \<noteq> None \<and> repository \<noteq> Some [] \<and> repository = Some (xr_repository r)
                      then score * (125 / 100) else score);
            score2 = (if was_completed r then score1 * (11 / 10) else score1)
        in if terms = [] \<or> score \<le> 0 then None
           else Some \<lparr>re_record = r, re_score = py_round 5 score2, re_matched = py_sorted matched\<rparr>)"

definition candidates :: "bool \<Rightarrow> store \<Rightarrow> (experience_record \<times> string list) list" where
  "candidates successful_only s =
     filter (\<lambda>(r, d). \<not> (successful_only \<and> \<not> was_completed r)) (zip (es_records s) (es_docs s))"

definition rank_retrieved :: "retrieved list \<Rightarrow> retrieved list" where
  "rank_retrieved rs = sort_key (\<lambda>r. (- re_score r, xr_task (re_record r))) rs"

definition retrieve ::
  "(rat \<Rightarrow> rat) \<Rightarrow> bm25 \<Rightarrow> decoder \<Rightarrow> string \<Rightarrow> nat \<Rightarrow> string option \<Rightarrow> bool \<Rightarrow> rat \<Rightarrow> store
   \<Rightarrow> retrieved list \<times> store" where
  "retrieve lg p dec query limit repository successful_only min_score s =
     (let s1 = ensure_loaded dec s; query_terms = tokenize query;
          cs = candidates successful_only s1
      in if query_terms = [] \<or> es_records s1 = [] \<or> cs = [] then ([], s1)
         else (take limit (filter (\<lambda>r. min_score \<le> re_score r)
                 (rank_retrieved
                   (List.map_filter (score_record lg p (map snd cs) query_terms repository) cs))),
               s1))"

subsection \<open>Rendering\<close>

fun complexity_text :: "complexity \<Rightarrow> string" where
  "complexity_text Trivial = ''trivial''"
| "complexity_text Simple = ''simple''"
| "complexity_text Moderate = ''moderate''"
| "complexity_text Complex = ''complex''"

definition render_item :: "retrieved \<Rightarrow> string list" where
  "render_item item =
     (let r = re_record item
      in [''- task: '' @ take 160 (xr_task r) @ [newline] @ ''  repo: '' @ xr_repository r @
          '' | complexity: '' @ complexity_text (xr_complexity r) @ '' | outcome: '' @
          xr_final_status r @ '' | recovery_attempts: '' @ show_nat (xr_recovery_attempts r)] @
         (if xr_relevant_files r \<noteq> []
          then [''  files that mattered: '' @ join '', '' (take 5 (xr_relevant_files r))] else []) @
         (if xr_failure_categories r \<noteq> []
          then [''  failures seen: '' @ join '', '' (map failure_text (uniq (xr_failure_categories r)))]
          else []) @
         (if xr_lesson r \<noteq> [] then [''  lesson: '' @ take 200 (xr_lesson r)] else []))"

definition render_context :: "retrieved list \<Rightarrow> nat \<Rightarrow> string" where
  "render_context rs max_chars =
     (if rs = [] then []
      else take max_chars (join [newline]
        ((''Relevant prior experience from this system'' @ [CHR 0x27] @ ''s own history:'') # concat (map render_item rs))))"

record store_stats =
  ss_records :: nat
  ss_outcomes :: "(string, nat) dict"
  ss_average_recovery :: rat

definition store_stats_of :: "decoder \<Rightarrow> store \<Rightarrow> store_stats" where
  "store_stats_of dec s =
     (let rs = store_records dec s
      in \<lparr>ss_records = length rs,
          ss_outcomes = foldl (\<lambda>d r. dict_bump (xr_final_status r) d) [] rs,
          ss_average_recovery =
            py_round 3 (of_nat (sum_list (map xr_recovery_attempts rs)) / of_nat (max 1 (length rs)))\<rparr>)"

subsection \<open>Persistence\<close>

lemma store_records_add:
  "store_records dec (add_record enc dec r s) = store_records dec s @ [r]"
proof -
  have "es_loaded (ensure_loaded dec s)" by (simp add: ensure_loaded_def load_def Let_def)
  then have "es_loaded (add_record enc dec r s)" by (simp add: add_record_def Let_def)
  then show ?thesis by (simp add: store_records_def ensure_loaded_def) (simp add: add_record_def
      Let_def ensure_loaded_def)
qed

interpretation memory_log: event_log "store_records dec" "add_record enc dec"
  by unfold_locales (rule store_records_add)

lemma lines_from_complete:
  "lines_from cur (a @ newline # v) = lines_from cur (a @ [newline]) @ lines_from [] v"
proof (induction cur a rule: lines_from.induct)
  case (1 cur)
  show ?case by (simp add: line_break_def newline_def ord_c_def)
next
  case (2 cur c cs)
  have nl: "line_break newline" "ord_c newline \<noteq> 13"
    by (simp_all add: line_break_def newline_def ord_c_def)
  show ?case
  proof (cases "line_break c")
    case True
    with 2(1) show ?thesis
      by (cases cs) (auto simp: nl)
  next
    case False
    with 2(2) show ?thesis by simp
  qed
qed

lemma lines_from_plain:
  "list_all (\<lambda>c. \<not> line_break c) u \<Longrightarrow> lines_from cur (u @ [newline]) = [cur @ u]"
  by (induction u arbitrary: cur) (simp_all add: line_break_def newline_def ord_c_def)

definition complete_text :: "string \<Rightarrow> bool" where
  "complete_text t \<longleftrightarrow> t = [] \<or> last t = newline"

lemma splitlines_append:
  assumes "complete_text t" and "list_all (\<lambda>c. \<not> line_break c) u"
  shows "splitlines (t @ u @ [newline]) = splitlines t @ [u]"
proof (cases "t = []")
  case True
  with assms(2) lines_from_plain [of u "[]"] show ?thesis by (simp add: splitlines_def)
next
  case False
  with assms(1) have "t = butlast t @ [newline]"
    unfolding complete_text_def by (metis append_butlast_last_id)
  with lines_from_complete [of "[]" "butlast t" "u @ [newline]"] lines_from_plain [OF assms(2), of "[]"]
  show ?thesis unfolding splitlines_def by (metis append.assoc append_Cons append_Nil)
qed

definition line_codec :: "(experience_record \<Rightarrow> string) \<Rightarrow> decoder \<Rightarrow> experience_record \<Rightarrow> bool" where
  "line_codec enc dec r \<longleftrightarrow>
     dec (enc r) = Some r \<and> enc r \<noteq> [] \<and> strip (enc r) = enc r \<and>
     list_all (\<lambda>c. \<not> line_break c) (enc r)"

definition text_of :: "string option \<Rightarrow> string" where
  "text_of file = (case file of None \<Rightarrow> [] | Some t \<Rightarrow> t)"

lemma decode_lines_append:
  assumes "complete_text t" and "line_codec enc dec r"
  shows "decode_lines dec (t @ enc r @ [newline]) = decode_lines dec t @ [r]"
  using assms by (simp add: decode_lines_def splitlines_append line_codec_def List.map_filter_def)

lemma load_file: "store_records dec (new_store file) = decode_lines dec (text_of file)"
  by (simp add: store_records_def ensure_loaded_def new_store_def load_def text_of_def Let_def
      decode_lines_def splitlines_def List.map_filter_def split: option.split)

lemma add_record_file:
  "es_file (add_record enc dec r s) = Some (text_of (es_file s) @ enc r @ [newline])"
  by (simp add: add_record_def ensure_loaded_def load_def text_of_def Let_def split: option.split)

lemma file_after_adds:
  "\<forall>r \<in> set rs. line_codec enc dec r \<Longrightarrow> complete_text (text_of (es_file s)) \<Longrightarrow>
   decode_lines dec (text_of (es_file (fold (add_record enc dec) rs s)))
     = decode_lines dec (text_of (es_file s)) @ rs"
proof (induction rs arbitrary: s)
  case (Cons r rs)
  let ?s = "add_record enc dec r s"
  have now: "text_of (es_file ?s) = text_of (es_file s) @ enc r @ [newline]"
    by (simp add: add_record_file) (simp add: text_of_def)
  then have "complete_text (text_of (es_file ?s))" by (simp add: complete_text_def)
  with Cons have "decode_lines dec (text_of (es_file (fold (add_record enc dec) rs ?s)))
      = decode_lines dec (text_of (es_file ?s)) @ rs" by simp
  with decode_lines_append [of "text_of (es_file s)" enc dec r] Cons.prems now show ?case by simp
qed simp

text \<open>
  A restart finds what was written. When the log file ends in a complete line and the records
  encode to one line each, appending any records and then opening the file again yields the old
  records followed by the new ones in order, which is also what the running store holds.
\<close>

theorem experience_survives_restart:
  assumes "complete_text (text_of file)" and "\<forall>r \<in> set rs. line_codec enc dec r"
  shows "store_records dec (new_store (es_file (fold (add_record enc dec) rs (new_store file))))
      = store_records dec (new_store file) @ rs \<and>
    store_records dec (fold (add_record enc dec) rs (new_store file))
      = store_records dec (new_store file) @ rs"
  using file_after_adds [OF assms(2), of "new_store file"] assms(1)
  by (simp add: memory_log.entries_fold load_file) (simp add: new_store_def)

definition sample_experience :: "string \<Rightarrow> experience_record" where
  "sample_experience task =
     \<lparr>xr_task = task, xr_repository = ''r'', xr_task_type = ''general'', xr_complexity = Simple,
      xr_languages = [], xr_strategy = [], xr_relevant_files = [], xr_models_used = [],
      xr_tools_used = [], xr_failure_categories = [], xr_recovery_strategies = [],
      xr_final_status = ''completed'', xr_recovery_attempts = 0, xr_wall_time = 0, xr_lesson = []\<rparr>"

theorem experience_survives_restart_witness:
  "store_records (\<lambda>l. Some (sample_experience l))
     (new_store (es_file (fold (add_record xr_task (\<lambda>l. Some (sample_experience l)))
        [sample_experience ''fix'', sample_experience ''bug''] (new_store None))))
   = [sample_experience ''fix'', sample_experience ''bug'']"
proof -
  let ?dec = "\<lambda>l. Some (sample_experience l)"
  have "complete_text (text_of None)" by (simp add: complete_text_def text_of_def)
  moreover have "\<forall>r \<in> set [sample_experience ''fix'', sample_experience ''bug''].
      line_codec xr_task ?dec r"
    by (simp add: line_codec_def sample_experience_def strip_def lstrip_def rstrip_def
        is_space_c_def line_break_def ord_c_def Let_def)
  moreover have "store_records ?dec (new_store None) = []"
    by (simp add: load_file text_of_def decode_lines_def splitlines_def List.map_filter_def)
  ultimately show ?thesis
    using experience_survives_restart [of None "[sample_experience ''fix'', sample_experience ''bug'']"
        xr_task ?dec] by simp
qed

text \<open>
  A truncated tail is tolerated by \<open>load\<close> but not by \<open>add\<close>: the next record is written on the same
  line as the tail, and both are lost when the file is read again.
\<close>

lemma record_after_truncated_tail_lost:
  assumes "list_all (\<lambda>c. \<not> line_break c) (tail @ enc r)" and "dec (strip (tail @ enc r)) = None"
  shows "store_records dec (new_store (es_file (add_record enc dec r (new_store (Some tail))))) = []"
proof -
  have "splitlines (tail @ enc r @ [newline]) = [tail @ enc r]"
    using lines_from_plain [OF assms(1), of "[]"] by (simp add: splitlines_def)
  then show ?thesis
    using assms(2) by (simp add: load_file add_record_file text_of_def)
      (simp add: text_of_def new_store_def decode_lines_def List.map_filter_def)
qed

subsection \<open>Retrieval\<close>

definition docs_aligned :: "store \<Rightarrow> bool" where
  "docs_aligned s \<longleftrightarrow> es_docs s = map document_terms (es_records s)"

lemma ensure_loaded_aligned: "docs_aligned s \<Longrightarrow> docs_aligned (ensure_loaded dec s)"
  by (simp add: docs_aligned_def ensure_loaded_def load_def Let_def)

lemma adds_aligned: "docs_aligned s \<Longrightarrow> docs_aligned (fold (add_record enc dec) rs s)"
proof (induction rs arbitrary: s)
  case (Cons r rs)
  then have "docs_aligned (add_record enc dec r s)"
    using ensure_loaded_aligned [of s dec] by (simp add: add_record_def docs_aligned_def Let_def)
  with Cons show ?case by simp
qed simp

definition bm25_ok :: "(rat \<Rightarrow> rat) \<Rightarrow> bm25 \<Rightarrow> bool" where
  "bm25_ok lg p \<longleftrightarrow> (\<forall>x > 1. 0 < lg x) \<and> 0 \<le> bm_k1 p \<and> 0 \<le> bm_b p \<and> bm_b p \<le> 1"

lemma average_length_pos: "0 < average_length docs"
proof (cases "sum_list (map length docs) = 0 \<or> docs = []")
  case False
  then have "0 < (of_nat (sum_list (map length docs)) :: rat)" and "0 < (of_nat (length docs) :: rat)"
    by (simp_all only: of_nat_0_less_iff neq0_conv [symmetric] length_0_conv de_Morgan_disj simp_thms)
  then have "0 < (of_nat (sum_list (map length docs)) / of_nat (length docs) :: rat)"
    by (rule divide_pos_pos)
  then show ?thesis by (simp add: average_length_def Let_def)
qed (auto simp: average_length_def)

lemma term_weight_pos:
  assumes "bm25_ok lg p" and "term \<in> set terms"
  shows "0 < term_weight lg p docs (average_length docs) terms term"
proof -
  let ?n = "of_nat (length docs) :: rat" and ?df = "of_nat (doc_frequency docs term) :: rat"
  let ?tf = "of_nat (length (filter (\<lambda>t. t = term) terms)) :: rat"
  have "?df \<le> ?n" by (simp add: doc_frequency_def)
  then have "0 < (?n - ?df + 1 / 2) / (?df + 1 / 2)" by (simp add: divide_pos_pos)
  then have idf: "0 < lg (1 + (?n - ?df + 1 / 2) / (?df + 1 / 2))"
    using assms(1) by (simp add: bm25_ok_def)
  have "filter (\<lambda>t. t = term) terms \<noteq> []" using assms(2) by (auto simp: filter_empty_conv)
  then have tf: "0 < ?tf" by simp
  have k: "0 \<le> bm_k1 p" "0 \<le> bm_b p" "bm_b p \<le> 1" using assms(1) by (simp_all add: bm25_ok_def)
  then have "0 \<le> bm_k1 p * (1 - bm_b p + bm_b p * of_nat (length terms) / average_length docs)"
    using average_length_pos [of docs] by (simp add: add_nonneg_nonneg)
  with tf have "0 < ?tf + bm_k1 p * (1 - bm_b p + bm_b p * of_nat (length terms) / average_length docs)"
    by linarith
  moreover have "0 < ?tf * (bm_k1 p + 1)" using tf k(1) by (intro mult_pos_pos) linarith+
  ultimately show ?thesis
    unfolding term_weight_def Let_def by (intro divide_pos_pos mult_pos_pos [OF idf])
qed

lemma score_record_iff:
  assumes "bm25_ok lg p"
  shows "score_record lg p docs qs repository (r, terms) \<noteq> None \<longleftrightarrow> set terms \<inter> set qs \<noteq> {}"
proof -
  let ?m = "filter (\<lambda>t. t \<in> set terms) (uniq qs)"
  let ?w = "term_weight lg p docs (average_length docs) terms"
  have pos: "0 < sum_list (map ?w ts)" if "ts \<noteq> []" "set ts \<subseteq> set terms" for ts
    using that
  proof (induction ts)
    case (Cons t ts)
    then have "0 < ?w t" using term_weight_pos [OF assms] by simp
    with Cons show ?case by (cases ts) auto
  qed simp
  have m: "?m \<noteq> [] \<longleftrightarrow> set terms \<inter> set qs \<noteq> {}" by (auto simp: filter_empty_conv)
  show ?thesis
  proof (cases "?m = []")
    case True
    with m show ?thesis by (simp add: score_record_def)
  next
    case False
    moreover have "set ?m \<subseteq> set terms" by auto
    ultimately have "0 < sum_list (map ?w ?m)" by (rule pos)
    moreover have "terms \<noteq> []" using False by auto
    ultimately show ?thesis using m False by (simp add: score_record_def Let_def)
  qed
qed

lemma score_record_facts:
  assumes "score_record lg p docs qs repository (r, terms) = Some x" and "bm25_ok lg p"
  shows "re_record x = r \<and> 0 \<le> re_score x \<and> set (re_matched x) \<subseteq> set qs \<inter> set terms"
  using assms by (auto simp: score_record_def Let_def split: if_splits intro!: py_round_nonneg)

lemma set_candidates:
  "docs_aligned s \<Longrightarrow> set (candidates succ s) =
     (\<lambda>r. (r, document_terms r)) ` {r \<in> set (es_records s). \<not> succ \<or> was_completed r}"
  by (auto simp: candidates_def docs_aligned_def zip_map2 zip_same_conv_map)

text \<open>
  Retrieval finds exactly the related experience. For a store that any sequence of appends has
  led to and with room for all its records, the records returned are those that share a search term
  with the query (and were completed, when that is asked for), in the order of descending score with
  ties broken by the task; a smaller limit only cuts this list off.
\<close>

theorem retrieval_exact:
  assumes "bm25_ok lg p" and "min_score \<le> 0"
    and "store_length dec (fold (add_record enc dec) rs (new_store file)) \<le> limit"
  shows "set (map re_record (fst (retrieve lg p dec query limit repository succ min_score
            (fold (add_record enc dec) rs (new_store file))))) =
      {r \<in> set (store_records dec (fold (add_record enc dec) rs (new_store file))).
         (\<not> succ \<or> was_completed r) \<and> set (document_terms r) \<inter> set (tokenize query) \<noteq> {}} \<and>
    sorted (map (\<lambda>x. (- re_score x, xr_task (re_record x)))
      (fst (retrieve lg p dec query limit repository succ min_score
            (fold (add_record enc dec) rs (new_store file)))))"
proof -
  define s where "s = ensure_loaded dec (fold (add_record enc dec) rs (new_store file))"
  have aligned: "docs_aligned s"
    unfolding s_def by (intro ensure_loaded_aligned adds_aligned) (simp add: docs_aligned_def new_store_def)
  have recs: "store_records dec (fold (add_record enc dec) rs (new_store file)) = es_records s"
    by (simp add: store_records_def s_def)
  define cs where "cs = candidates succ s"
  define f where "f = score_record lg p (map snd cs) (tokenize query) repository"
  have f_iff: "f (r, d) \<noteq> None \<longleftrightarrow> set d \<inter> set (tokenize query) \<noteq> {}" for r d
    unfolding f_def by (rule score_record_iff [OF assms(1)])
  have f_facts: "re_record x = fst c \<and> 0 \<le> re_score x" if "f c = Some x" for c x
    using score_record_facts [OF _ assms(1)] that unfolding f_def by (metis prod.collapse)
  have len: "length (List.map_filter f cs) \<le> limit"
  proof -
    have "length (List.map_filter f cs) \<le> length cs" by (simp add: List.map_filter_def)
    also have "\<dots> \<le> length (es_records s)"
      unfolding cs_def candidates_def using aligned
      by (intro order_trans [OF length_filter_le]) (simp add: docs_aligned_def)
    finally show ?thesis using assms(3) by (simp add: store_length_def recs)
  qed
  have keep: "filter (\<lambda>r. min_score \<le> re_score r) (rank_retrieved (List.map_filter f cs))
      = rank_retrieved (List.map_filter f cs)"
    using f_facts assms(2) by (auto simp: filter_id_conv rank_retrieved_def List.map_filter_def
        intro: order_trans)
  define out where "out = fst (retrieve lg p dec query limit repository succ min_score
      (fold (add_record enc dec) rs (new_store file)))"
  have out: "out = (if tokenize query = [] \<or> es_records s = [] \<or> cs = [] then []
      else rank_retrieved (List.map_filter f cs))"
    using len unfolding out_def retrieve_def Let_def s_def [symmetric] cs_def [symmetric]
      f_def [symmetric] keep by (simp add: rank_retrieved_def)
  have "set (map re_record (List.map_filter f cs)) =
      {r \<in> set (es_records s). (\<not> succ \<or> was_completed r) \<and>
         set (document_terms r) \<inter> set (tokenize query) \<noteq> {}}" (is "?L = ?R")
  proof -
    have "?L = {re_record x | x c. c \<in> set cs \<and> f c = Some x}"
      by (force simp: List.map_filter_def)
    also have "\<dots> = {fst c | c. c \<in> set cs \<and> f c \<noteq> None}"
      using f_facts by auto metis
    also have "\<dots> = ?R"
      unfolding cs_def set_candidates [OF aligned] using f_iff by auto
    finally show ?thesis .
  qed
  moreover have "?thesis \<longleftrightarrow> set (map re_record out) =
      {r \<in> set (es_records s). (\<not> succ \<or> was_completed r) \<and>
         set (document_terms r) \<inter> set (tokenize query) \<noteq> {}} \<and>
      sorted (map (\<lambda>x. (- re_score x, xr_task (re_record x))) out)"
    by (simp add: out_def recs)
  ultimately show ?thesis
    using out set_candidates [OF aligned, of succ]
    by (cases "tokenize query = [] \<or> es_records s = [] \<or> cs = []")
      (auto simp: rank_retrieved_def cs_def)
qed

theorem retrieval_exact_witness:
  "set (map re_record (fst (retrieve (\<lambda>x. x - 1) default_bm25 (\<lambda>l. None) ''parser'' 2 None True 0
      (fold (add_record xr_task (\<lambda>l. None)) [sample_experience ''parser'', sample_experience ''lexer'']
         (new_store None)))))
   = {sample_experience ''parser''}"
proof -
  let ?dec = "\<lambda>l. None :: experience_record option"
  let ?rs = "[sample_experience ''parser'', sample_experience ''lexer'']"
  let ?s = "fold (add_record xr_task ?dec) ?rs (new_store None)"
  have ok: "bm25_ok (\<lambda>x. x - 1) default_bm25" by (simp add: bm25_ok_def default_bm25_def)
  have recs: "store_records ?dec ?s = ?rs"
    by (simp only: memory_log.entries_fold)
      (simp add: load_file text_of_def decode_lines_def splitlines_def List.map_filter_def)
  then have len: "store_length ?dec ?s \<le> 2" by (simp add: store_length_def)
  have terms: "document_terms (sample_experience ''parser'') = [''parser'', ''general'']"
    "document_terms (sample_experience ''lexer'') = [''lexer'', ''general'']"
    "tokenize ''parser'' = [''parser'']" by code_simp+
  have done_ok: "was_completed (sample_experience x)" for x
    by (simp add: was_completed_def sample_experience_def starts_with_def)
  have "set (map re_record (fst (retrieve (\<lambda>x. x - 1) default_bm25 ?dec ''parser'' 2 None True 0 ?s)))
      = {r \<in> set (store_records ?dec ?s). (\<not> True \<or> was_completed r) \<and>
           set (document_terms r) \<inter> set (tokenize ''parser'') \<noteq> {}}"
    using retrieval_exact [where min_score = 0, OF ok _ len] by blast
  also have "\<dots> = {sample_experience ''parser''}"
    using terms done_ok unfolding recs by auto
  finally show ?thesis .
qed

end
