(* ===== verification/Planner.thy ===== *)
theory Planner
  imports Plan_Dag Memory_Store Model_Router
begin

section \<open>The task planner\<close>

text \<open>
  Models \<open>agent/sweforge/planning/planner.py\<close>: the evidence gathered from the repository graph, the
  complexity prior, \<open>TaskPlanner.plan\<close> with its fallback, the filter for invented paths, and
  \<open>select_agents\<close>. The chat model is a parameter: building it may raise, and invoking it returns a raw
  plan, which the schema validators then accept or refuse, or raises. The prompt is handed over as the
  data it is rendered from; its wording (\<open>PlanningEvidence.render\<close>, \<open>_render_prompt\<close>) holds characters
  outside the character type and is not modelled.

  The lemmas show that planning survives any answer of the model with a plan that can be layered,
  that no path is invented, and what the roster of agents contains.
\<close>

subsection \<open>Evidence and the complexity prior\<close>

record planning_evidence =
  ev_candidates :: "file_score list"
  ev_modules :: "string list"
  ev_languages :: "(string, nat) dict"
  ev_file_count :: nat
  ev_test_files :: "string list"

definition gather_evidence :: "repo_graph option \<Rightarrow> string \<Rightarrow> nat \<Rightarrow> planning_evidence" where
  "gather_evidence graph task limit =
     (case graph of
        None \<Rightarrow> \<lparr>ev_candidates = [], ev_modules = [], ev_languages = [], ev_file_count = 0,
                ev_test_files = []\<rparr>
      | Some g \<Rightarrow>
          let hits = find_related_files g task limit True True;
              tests = concat (map (\<lambda>h. find_tests_for_file g (fs_path h)) (take 4 hits))
          in \<lparr>ev_candidates = hits, ev_modules = find_relevant_modules g task 5,
              ev_languages = rp_languages (rg_map g), ev_file_count = file_count (rg_map g),
              ev_test_files = py_sorted (uniq tests)\<rparr>)"

definition word_count :: "string \<Rightarrow> nat" where
  "word_count s =
     length (filter (\<lambda>w. w \<noteq> [])
       (split_on (CHR '' '') (map (\<lambda>c. if is_space_c c then CHR '' '' else c) s)))"

definition mentions :: "string \<Rightarrow> string list \<Rightarrow> bool" where
  "mentions lowered ks = list_ex (\<lambda>k. contains k lowered) ks"

definition complexity_signals :: "string \<Rightarrow> planning_evidence \<Rightarrow> int" where
  "complexity_signals task evidence =
     (let lowered = py_lower task
      in (if word_count task > 45 then 1 else 0) +
         (if length (ev_candidates evidence) > 8 then 1 else 0) +
         (if mentions lowered [''refactor'', ''migrate'', ''redesign'', ''across'', ''all ''] then 2 else 0) +
         (if mentions lowered [''auth'', ''security'', ''migration'', ''schema'', ''concurren''] then 1
          else 0) -
         (if mentions lowered [''typo'', ''rename'', ''bump'', ''comment'', ''docstring''] then 2 else 0))"

definition estimate_complexity :: "string \<Rightarrow> planning_evidence \<Rightarrow> complexity" where
  "estimate_complexity task evidence =
     (let signals = complexity_signals task evidence
      in if signals \<le> -1 then Trivial else if signals = 0 then Simple
         else if signals \<le> 2 then Moderate else Complex)"

subsection \<open>Plans\<close>

fun validate_subtasks :: "subtask list \<Rightarrow> subtask list result" where
  "validate_subtasks [] = Inr []"
| "validate_subtasks (s # ss) =
     (case validate_subtask s of
        Inl e \<Rightarrow> Inl e
      | Inr t \<Rightarrow> (case validate_subtasks ss of Inl e \<Rightarrow> Inl e | Inr ts \<Rightarrow> Inr (t # ts)))"

definition parse_plan :: "task_plan \<Rightarrow> task_plan result" where
  "parse_plan raw =
     (case validate_subtasks (pl_subtasks raw) of
        Inl e \<Rightarrow> Inl e
      | Inr ss \<Rightarrow> validate_plan (raw\<lparr>pl_subtasks := ss\<rparr>))"

definition parent_dir :: "string \<Rightarrow> string" where
  "parent_dir p = join ''/'' (butlast (split_on (CHR ''/'') p))"

definition keep_path :: "string list \<Rightarrow> string \<Rightarrow> bool" where
  "keep_path known path =
     (path \<in> set known \<or>
      (parent_dir path \<noteq> [] \<and> list_ex (starts_with (parent_dir path @ ''/'')) known))"

definition sanitise :: "repo_graph option \<Rightarrow> task_plan \<Rightarrow> planning_evidence \<Rightarrow> task_plan" where
  "sanitise graph plan evidence =
     (case graph of
        None \<Rightarrow> plan
      | Some g \<Rightarrow>
          let known = dict_keys (rp_files (rg_map g));
              kept = filter (keep_path known) (pl_relevant_files plan);
              relevant = (if kept = [] then map fs_path (take 5 (ev_candidates evidence)) else kept)
          in if known = [] then plan
             else plan\<lparr>pl_relevant_files := relevant,
                      pl_subtasks := map (\<lambda>s. s\<lparr>st_target_files :=
                                       filter (keep_path known) (st_target_files s)\<rparr>)
                                     (pl_subtasks plan)\<rparr>)"

definition fallback_plan :: "string \<Rightarrow> planning_evidence \<Rightarrow> complexity \<Rightarrow> task_plan" where
  "fallback_plan task evidence prior =
     (let files = map fs_path (take 3 (ev_candidates evidence));
          st1 = \<lparr>st_id = ''st1'', st_description = ''Implement: '' @ take 300 task,
                 st_agent = ImplementationRole, st_target_files = files, st_depends_on = []\<rparr>;
          st2 = \<lparr>st_id = ''st2'', st_description = ''Update or add tests covering the change'',
                 st_agent = TestRole, st_target_files = take 2 (ev_test_files evidence),
                 st_depends_on = [''st1'']\<rparr>
      in \<lparr>pl_complexity = prior, pl_relevant_files = files,
          pl_subtasks = st1 # (if ev_test_files evidence \<noteq> [] then [st2] else []),
          pl_required_agents = [],
          pl_testing_strategy = ''Run tests covering the changed files, then lint.'',
          pl_risk_level = MediumRisk,
          pl_rationale = ''Deterministic fallback plan: structured planning was unavailable.''\<rparr>)"

subsection \<open>Planning\<close>

record memory_library =
  ml_log :: "rat \<Rightarrow> rat"
  ml_bm25 :: bm25
  ml_decode :: decoder

record plan_prompt =
  pp_task :: string
  pp_repository :: string
  pp_evidence :: planning_evidence
  pp_experience :: "retrieved list"
  pp_prior :: complexity

record ('m, 'w) plan_model =
  pm_build :: "model_spec \<Rightarrow> ('w, 'm) action"
  pm_invoke :: "'m \<Rightarrow> plan_prompt \<Rightarrow> ('w, task_plan) action"
  pm_usage :: "'m \<Rightarrow> 'w \<Rightarrow> int option \<times> int option"
  pm_now :: "'w \<Rightarrow> rat"

record 'w plan_state =
  ps_router :: router
  ps_memory :: "store option"
  ps_world :: 'w

definition retrieve_experience ::
  "memory_library \<Rightarrow> string \<Rightarrow> string \<Rightarrow> store option \<Rightarrow> retrieved list \<times> store option" where
  "retrieve_experience lib task repository memory =
     (case memory of
        None \<Rightarrow> ([], None)
      | Some s \<Rightarrow>
          (case retrieve (ml_log lib) (ml_bm25 lib) (ml_decode lib) task 3 (Some repository) False 0 s of
             (rs, s') \<Rightarrow> (rs, Some s')))"

definition plan_task ::
  "memory_library \<Rightarrow> ('m, 'w) plan_model \<Rightarrow> repo_graph option \<Rightarrow> string \<Rightarrow> string
   \<Rightarrow> ('w plan_state, task_plan \<times> planning_evidence \<times> string) action" where
  "plan_task lib pm graph task repository s =
     (let evidence = gather_evidence graph task 12;
          (experience, memory) = retrieve_experience lib task repository (ps_memory s);
          prior = estimate_complexity task evidence;
          spec = rd_spec (select (ps_router s) ''planning'' prior False);
          prompt = \<lparr>pp_task = task, pp_repository = repository, pp_evidence = evidence,
                    pp_experience = experience, pp_prior = prior\<rparr>;
          s1 = s\<lparr>ps_memory := memory\<rparr>
      in case pm_build pm spec (ps_world s1) of
           (Inl e, w) \<Rightarrow> (Inl e, s1\<lparr>ps_world := w\<rparr>)
         | (Inr m, w) \<Rightarrow>
             (case pm_invoke pm m prompt w of
                (raw, w') \<Rightarrow>
                  let outcome = (case raw of Inl e \<Rightarrow> Inl e | Inr p \<Rightarrow> parse_plan p);
                      usage = (if isl outcome then (None, None) else pm_usage pm m w');
                      router = snd (track ''planning'' spec usage (pm_now pm w' - pm_now pm w) outcome
                                      (ps_router s1));
                      s2 = s1\<lparr>ps_router := router, ps_world := w'\<rparr>
                  in (case outcome of
                        Inr p \<Rightarrow> (Inr (sanitise graph p evidence, evidence, ms_reason spec), s2)
                      | Inl _ \<Rightarrow>
                          (case parse_plan (fallback_plan task evidence prior) of
                             Inl e \<Rightarrow> (Inl e, s2)
                           | Inr p \<Rightarrow> (Inr (p, evidence, ms_reason spec), s2)))))"

definition select_agents :: "task_plan \<Rightarrow> bool \<Rightarrow> agent_role list" where
  "select_agents plan always_review =
     (let roster = uniq (pl_required_agents plan);
          roster1 = (if always_review \<and> ReviewerRole \<notin> set roster then roster @ [ReviewerRole]
                     else roster);
          needs_security = (pl_risk_level plan = HighRisk \<or> 3 \<le> complexity_order (pl_complexity plan))
      in if needs_security \<and> SecurityRole \<notin> set roster1 then roster1 @ [SecurityRole] else roster1)"

subsection \<open>Plans that can be executed\<close>

definition executable_plan :: "task_plan \<Rightarrow> bool" where
  "executable_plan p \<longleftrightarrow>
     pl_subtasks p \<noteq> [] \<and> plan_ok (pl_subtasks p) \<and> acyclic (dep_rel (pl_subtasks p))"

lemma executable_iff: "executable_plan p \<longleftrightarrow> (\<exists>q. validate_plan p = Inr q)"
  by (simp add: executable_plan_def validate_plan_iff)

lemma executable_layers:
  assumes "executable_plan p"
  shows "\<exists>ls. execution_layers p = Inr ls \<and> layered [] ls \<and> mset (concat ls) = mset (pl_subtasks p)"
proof -
  from assms obtain q where q: "validate_plan p = Inr q" unfolding executable_iff by blast
  then have "pl_subtasks q = pl_subtasks p" using validate_plan_ok by fastforce
  with accepted_layers [OF q] show ?thesis by (simp add: execution_layers_def)
qed

lemma parse_plan_executable: "parse_plan raw = Inr p \<Longrightarrow> executable_plan p"
proof -
  assume "parse_plan raw = Inr p"
  then obtain p0 where "validate_plan p0 = Inr p"
    by (auto simp: parse_plan_def split: sum.splits)
  with validate_plan_ok [OF this] show ?thesis by (simp add: executable_plan_def)
qed

definition same_dag :: "subtask \<Rightarrow> subtask \<Rightarrow> bool" where
  "same_dag s t \<longleftrightarrow> st_id s = st_id t \<and> st_depends_on s = st_depends_on t \<and> st_agent s = st_agent t"

lemma dep_rel_UN: "dep_rel ss = (\<Union>s \<in> set ss. (\<lambda>d. (d, st_id s)) ` set (st_depends_on s))"
  by (auto simp: dep_rel_def)

lemma executable_map:
  assumes "executable_plan p" and "pl_subtasks q = map f (pl_subtasks p)"
    and "\<And>s. same_dag (f s) s"
  shows "executable_plan q"
proof -
  have f: "st_id (f s) = st_id s" "st_depends_on (f s) = st_depends_on s" for s
    using assms(3) by (simp_all add: same_dag_def)
  have "dep_rel (map f ss) = dep_rel ss" for ss by (simp add: dep_rel_UN f)
  moreover have "plan_ok (map f ss) = plan_ok ss" for ss
    by (simp add: plan_ok_def comp_def f image_image)
  ultimately show ?thesis using assms(1,2) by (simp add: executable_plan_def)
qed

lemma sanitise_executable: "executable_plan p \<Longrightarrow> executable_plan (sanitise graph p evidence)"
proof (cases graph)
  case (Some g)
  assume ok: "executable_plan p"
  show ?thesis
  proof (cases "dict_keys (rp_files (rg_map g)) = []")
    case False
    let ?f = "\<lambda>s. s\<lparr>st_target_files :=
      filter (keep_path (dict_keys (rp_files (rg_map g)))) (st_target_files s)\<rparr>"
    have "pl_subtasks (sanitise graph p evidence) = map ?f (pl_subtasks p)"
      using Some False by (simp add: sanitise_def Let_def)
    with ok show ?thesis by (rule executable_map) (simp add: same_dag_def)
  qed (use ok Some in \<open>simp add: sanitise_def\<close>)
qed (simp add: sanitise_def)

lemma acyclic_single: "x \<noteq> y \<Longrightarrow> acyclic {(x, y)}"
  by (rule acyclicI) (auto elim!: tranclE converse_tranclE simp: trancl_insert)

lemma fallback_plan_valid: "\<exists>q. parse_plan (fallback_plan task evidence prior) = Inr q"
proof -
  let ?p = "fallback_plan task evidence prior"
  have "strip ''st1'' = ''st1''" "strip ''st2'' = ''st2''" by code_simp+
  then have "validate_subtasks (pl_subtasks ?p) = Inr (pl_subtasks ?p)"
    by (simp add: fallback_plan_def validate_subtask_def Let_def)
  moreover have "executable_plan ?p"
  proof -
    have "dep_rel (pl_subtasks ?p) \<subseteq> {(''st1'', ''st2'')}"
      by (auto simp: fallback_plan_def dep_rel_def Let_def split: if_splits)
    then have "acyclic (dep_rel (pl_subtasks ?p))"
      by (rule acyclic_subset [rotated]) (rule acyclic_single, simp)
    moreover have "plan_ok (pl_subtasks ?p)" "pl_subtasks ?p \<noteq> []"
      by (simp_all add: fallback_plan_def plan_ok_def Let_def)
    ultimately show ?thesis by (simp add: executable_plan_def)
  qed
  ultimately show ?thesis by (simp add: parse_plan_def executable_iff)
qed

text \<open>
  Planning survives every answer of the model. Once the chat model is built, whatever it returns
  or raises, planning returns a plan, and that plan can be executed: layering it succeeds, with every
  subtask in exactly one layer after the layers of its dependencies. The ledger grows by one record,
  which is marked failed exactly when the fallback was used.
\<close>

theorem planning_yields_executable_plan:
  assumes "pm_build pm (rd_spec (select (ps_router s) ''planning''
      (estimate_complexity task (gather_evidence graph task 12)) False)) (ps_world s) = (Inr m, w)"
  shows "\<exists>plan evidence reason t ls c. plan_task lib pm graph task repository s
        = (Inr (plan, evidence, reason), t) \<and>
      execution_layers plan = Inr ls \<and> layered [] ls \<and> mset (concat ls) = mset (pl_subtasks plan) \<and>
      ro_ledger (ps_router t) = ro_ledger (ps_router s) @ [c] \<and>
      (mc_ok c \<or>
       parse_plan (fallback_plan task evidence (estimate_complexity task evidence)) = Inr plan)"
proof -
  let ?ev = "gather_evidence graph task 12"
  let ?spec = "rd_spec (select (ps_router s) ''planning'' (estimate_complexity task ?ev) False)"
  obtain experience memory where mem: "retrieve_experience lib task repository (ps_memory s)
      = (experience, memory)" by fastforce
  define prompt where "prompt = \<lparr>pp_task = task, pp_repository = repository, pp_evidence = ?ev,
    pp_experience = experience, pp_prior = estimate_complexity task ?ev\<rparr>"
  obtain raw w' where raw: "pm_invoke pm m prompt w = (raw, w')" by fastforce
  define outcome where "outcome = (case raw of Inl e \<Rightarrow> Inl e | Inr p \<Rightarrow> parse_plan p)"
  define usage where "usage = (if isl outcome then (None, None) else pm_usage pm m w')"
  define router where "router = snd (track ''planning'' ?spec usage (pm_now pm w' - pm_now pm w)
    outcome (ps_router s))"
  obtain c where c: "ro_ledger router = ro_ledger (ps_router s) @ [c]" "mc_ok c = (\<not> isl outcome)"
    by (simp add: router_def track_def model_ledger.entries_put Let_def call_record_def)
  define t where "t = s\<lparr>ps_memory := memory, ps_router := router, ps_world := w'\<rparr>"
  obtain q where q: "parse_plan (fallback_plan task ?ev (estimate_complexity task ?ev)) = Inr q"
    using fallback_plan_valid by blast
  define plan where "plan = (case outcome of Inl e \<Rightarrow> q | Inr p \<Rightarrow> sanitise graph p ?ev)"
  have run: "plan_task lib pm graph task repository s = (Inr (plan, ?ev, ms_reason ?spec), t)"
    using assms mem raw q
    by (cases outcome) (simp_all add: plan_task_def Let_def prompt_def [symmetric]
        outcome_def [symmetric] usage_def router_def t_def plan_def)
  have "executable_plan plan"
    using parse_plan_executable [OF q]
    by (auto simp: plan_def outcome_def split: sum.split
        intro!: sanitise_executable dest: parse_plan_executable)
  then obtain ls where "execution_layers plan = Inr ls" "layered [] ls"
      "mset (concat ls) = mset (pl_subtasks plan)"
    using executable_layers by blast
  moreover have "mc_ok c \<or> plan = q"
    using c(2) by (auto simp: plan_def split: sum.splits)
  ultimately show ?thesis using run c(1) q by (fastforce simp: t_def)
qed

text \<open>A model whose structured output is not a valid plan.\<close>

definition cyclic_plan :: task_plan where
  "cyclic_plan = sample_plan [sample_subtask ''a'' TestRole [''b''], sample_subtask ''b'' TestRole [''a'']]"

definition confused_model :: "(unit, rat) plan_model" where
  "confused_model =
     \<lparr>pm_build = (\<lambda>spec w. (Inr (), w)), pm_invoke = (\<lambda>m prompt w. (Inr cyclic_plan, w + 1)),
      pm_usage = (\<lambda>m w. (None, None)), pm_now = (\<lambda>w. w)\<rparr>"

definition small_library :: memory_library where
  "small_library = \<lparr>ml_log = (\<lambda>x. x - 1), ml_bm25 = default_bm25, ml_decode = (\<lambda>l. None)\<rparr>"

definition fresh_planner :: "rat plan_state" where
  "fresh_planner = \<lparr>ps_router = new_router [], ps_memory = None, ps_world = 0\<rparr>"

theorem planning_yields_executable_plan_witness:
  "\<exists>plan evidence reason t ls. plan_task small_library confused_model None ''fix'' ''r'' fresh_planner
      = (Inr (plan, evidence, reason), t) \<and> execution_layers plan = Inr ls"
proof -
  have b: "pm_build confused_model (rd_spec (select (ps_router fresh_planner) ''planning''
      (estimate_complexity ''fix'' (gather_evidence None ''fix'' 12)) False)) (ps_world fresh_planner)
    = (Inr (), 0)"
    by (simp add: confused_model_def fresh_planner_def)
  from planning_yields_executable_plan [OF b, of small_library "''r''"] show ?thesis by blast
qed

subsection \<open>No invented paths\<close>

definition plausible :: "string list \<Rightarrow> string \<Rightarrow> bool" where
  "plausible known p \<longleftrightarrow>
     p \<in> set known \<or> (\<exists>k \<in> set known. \<exists>rest. parent_dir p \<noteq> [] \<and> k = parent_dir p @ ''/'' @ rest)"

lemma keep_path_plausible: "keep_path known p \<longleftrightarrow> plausible known p"
  by (auto simp: keep_path_def plausible_def list_ex_iff starts_with_iff)

lemma candidates_known:
  "list_all (\<lambda>f. fs_path f \<in> set (dict_keys (rp_files (rg_map g))))
     (ev_candidates (gather_evidence (Some g) task limit))"
proof -
  have "list_all (\<lambda>f. listed g True (fs_path f)) (find_related_files g task limit True True)"
    using related_files_facts [of g task limit True True] by (auto simp: list_all_iff)
  then show ?thesis
    by (force simp: gather_evidence_def Let_def list_all_iff listed_def list_ex_iff dict_keys_def)
qed

text \<open>
  The planner invents no path. With a repository graph that holds files, every relevant file and
  every target file of a sanitised plan is a file of the map or lies in a directory that holds one;
  the relevant files are never emptied while there are candidates; and subtask ids, agents and
  dependencies are untouched.
\<close>

theorem sanitised_plan_grounded:
  assumes "known = dict_keys (rp_files (rg_map g))" and "known \<noteq> []"
    and "p' = sanitise (Some g) p (gather_evidence (Some g) task limit)"
  shows "(\<forall>f \<in> set (pl_relevant_files p'). plausible known f) \<and>
    (\<forall>s \<in> set (pl_subtasks p'). \<forall>f \<in> set (st_target_files s). plausible known f) \<and>
    (pl_relevant_files p' = [] \<longrightarrow> ev_candidates (gather_evidence (Some g) task limit) = []) \<and>
    list_all2 same_dag (pl_subtasks p') (pl_subtasks p)"
proof -
  let ?ev = "gather_evidence (Some g) task limit"
  define kept where "kept = filter (keep_path known) (pl_relevant_files p)"
  have rel: "pl_relevant_files p' = (if kept = [] then map fs_path (take 5 (ev_candidates ?ev)) else kept)"
    and subs: "pl_subtasks p' = map (\<lambda>s. s\<lparr>st_target_files := filter (keep_path known)
      (st_target_files s)\<rparr>) (pl_subtasks p)"
    using assms(2) unfolding assms(3) by (simp_all add: sanitise_def Let_def assms(1) kept_def)
  have "plausible known (fs_path f)" if "f \<in> set (take 5 (ev_candidates ?ev))" for f
    using candidates_known [of g task limit] in_set_takeD [OF that]
    by (auto simp: plausible_def assms(1) list_all_iff)
  then have "\<forall>f \<in> set (pl_relevant_files p'). plausible known f"
    by (auto simp: rel kept_def keep_path_plausible)
  moreover have "\<forall>s \<in> set (pl_subtasks p'). \<forall>f \<in> set (st_target_files s). plausible known f"
    by (auto simp: subs keep_path_plausible)
  moreover have "pl_relevant_files p' = [] \<longrightarrow> ev_candidates ?ev = []" by (auto simp: rel)
  moreover have "list_all2 same_dag (pl_subtasks p') (pl_subtasks p)"
    by (simp add: subs list_all2_map1 same_dag_def list_all2_same)
  ultimately show ?thesis by blast
qed

definition tiny_map :: repository_map where
  "tiny_map = (empty_map ''/r'')\<lparr>rp_files :=
     [(''src/a.py'', \<lparr>fi_path = ''src/a.py'', fi_language = ''python'', fi_loc = 1, fi_is_test = False,
        fi_is_sensitive = False, fi_module = Some ''src.a'', fi_symbols = [], fi_imports = [],
        fi_parse_error = None, fi_docstring = []\<rparr>)]\<rparr>"

definition wild_plan :: task_plan where
  "wild_plan = (sample_plan [sample_subtask ''a'' TestRole []])\<lparr>pl_relevant_files :=
     [''src/b.py'', ''lib/x.py'', ''README.md'']\<rparr>"

theorem sanitised_plan_grounded_witness:
  "list_all (plausible [''src/a.py''])
     (pl_relevant_files (sanitise (Some (build_graph tiny_map)) wild_plan
        (gather_evidence (Some (build_graph tiny_map)) [] 5)))"
proof -
  have known: "[''src/a.py''] = dict_keys (rp_files (rg_map (build_graph tiny_map)))"
    using build_graph_ok [of tiny_map] by (simp add: tiny_map_def dict_keys_def)
  from sanitised_plan_grounded [OF known _ refl] show ?thesis unfolding list_all_iff by blast
qed

text \<open>A new file at the top of the repository is dropped, although a new file is meant to be kept.\<close>

lemma new_top_level_file_dropped:
  "keep_path [''src/a.py''] ''README.md'' = False \<and> keep_path [''src/a.py''] ''src/b.py'' = True"
  by code_simp

subsection \<open>The roster\<close>

text \<open>
  The roster of a validated plan is complete: it lists nobody twice, holds the agent of every
  subtask, the reviewer whenever review is enabled whatever the planner asked for, and the security
  agent for every plan of high risk or complex work; and it starts with the required agents of the
  plan in their order.
\<close>

theorem roster_complete:
  assumes "validate_plan p = Inr q"
  shows "distinct (select_agents q always_review) \<and>
    (\<forall>s \<in> set (pl_subtasks q). st_agent s \<in> set (select_agents q always_review)) \<and>
    (always_review \<longrightarrow> ReviewerRole \<in> set (select_agents q always_review)) \<and>
    (pl_risk_level q = HighRisk \<or> pl_complexity q = Complex \<longrightarrow>
       SecurityRole \<in> set (select_agents q always_review)) \<and>
    take (length (pl_required_agents q)) (select_agents q always_review) = pl_required_agents q"
proof -
  have q: "q = p\<lparr>pl_required_agents := merged_agents p\<rparr>" using validate_plan_ok [OF assms] by simp
  have d: "distinct (pl_required_agents q)" by (simp add: q merged_agents_def)
  have m: "\<forall>s \<in> set (pl_subtasks q). st_agent s \<in> set (pl_required_agents q)"
    by (simp add: q merged_agents_def)
  have u: "uniq (pl_required_agents q) = pl_required_agents q" by (rule uniq_distinct [OF d])
  show ?thesis
    using d m by (auto simp: select_agents_def u Let_def)
qed

theorem roster_complete_witness:
  "ReviewerRole \<in> set (select_agents
     (diamond_plan\<lparr>pl_required_agents := merged_agents diamond_plan\<rparr>) True) \<and>
   BackendRole \<in> set (select_agents
     (diamond_plan\<lparr>pl_required_agents := merged_agents diamond_plan\<rparr>) True)"
  using roster_complete [OF diamond_plan_accepted, of True]
  by (auto simp: diamond_plan_def sample_plan_def sample_subtask_def)

end
