(* ===== verification/Backends.thy ===== *)
theory Backends
  imports Schemas
begin

section \<open>Execution backends\<close>

text \<open>
  Models \<open>agent/sweforge/verification/backends.py\<close>: \<open>ExecResult\<close>, the gated \<open>LocalSubprocessBackend\<close>
  and the adapter \<open>OpenSWESandboxBackend\<close>. The files of a backend are a dictionary from paths, lists of
  names below \<open>/\<close>, to directories, text files and symbolic links, as a POSIX file system has them.
  \<open>Path.resolve\<close> follows links; one that leads back to itself is a \<open>RuntimeError\<close>, as in Python 3.11
  and 3.12. What the host may refuse beyond the shape of the tree (permissions, a full disk) is the
  parameter \<open>host_files\<close>, starting a process (\<open>subprocess.run\<close>) and the sandbox object are parameters
  as well: the former gives one of the outcomes the code tells apart, the latter the names of the
  methods it has and what calling them gives.

  The lemmas show that host execution needs the explicit opt-in, that an edit path the schema accepts
  never leaves the root, what a write changes and when it fails, what links and sibling directories do
  to the check of the root, and what the adapter makes of a result without an exit code.
\<close>

subsection \<open>Results\<close>

record exec_result =
  er_command :: string
  er_exit_code :: int
  er_stdout :: string
  er_stderr :: string
  er_duration :: rat
  er_timed_out :: bool

definition exec_ok :: "exec_result \<Rightarrow> bool" where
  "exec_ok r = (er_exit_code r = 0 \<and> \<not> er_timed_out r)"

definition combined_output :: "exec_result \<Rightarrow> string" where
  "combined_output r = strip (er_stdout r @ [newline] @ er_stderr r)"

subsection \<open>The local backend\<close>

definition local_exec_env :: string where
  "local_exec_env = ''SWEFORGE_ALLOW_LOCAL_EXEC''"

type_synonym path = "string list"

datatype file_node = Folder | Plain string | Link string

record local_backend =
  lb_root :: path
  lb_env :: "(string, string) dict"
  lb_files :: "(path, file_node) dict"

definition path_str :: "path \<Rightarrow> string" where
  "path_str cs = ''/'' @ join ''/'' cs"

definition is_link :: "file_node \<Rightarrow> bool" where
  "is_link n = (case n of Link t \<Rightarrow> True | _ \<Rightarrow> False)"

text \<open>
  \<open>walk k files cur cs\<close>: the real path of the components \<open>cs\<close> under the real path \<open>cur\<close>, with at most
  \<open>k\<close> links inside one another. As many as there are links is enough: with more, one of them leads back
  to itself. A component that is missing, or below a text file, is taken as it is. A loop of links raises, as
  in Python 3.11 and 3.12; later versions leave the rest of such a path as it is.
\<close>

fun walk :: "nat \<Rightarrow> (path, file_node) dict \<Rightarrow> path \<Rightarrow> string list \<Rightarrow> path option" where
  "walk k files cur [] = Some cur"
| "walk k files cur (c # cs) =
     (if c = [] \<or> c = ''.'' then walk k files cur cs
      else if c = ''..'' then walk k files (butlast cur) cs
      else (case map_of files (cur @ [c]) of
          Some (Link t) \<Rightarrow>
            (case k of
               0 \<Rightarrow> None
             | Suc j \<Rightarrow>
                 (case walk j files (if starts_with ''/'' t then [] else cur) (split_on (CHR ''/'') t) of
                    None \<Rightarrow> None
                  | Some cur' \<Rightarrow> walk k files cur' cs))
        | _ \<Rightarrow> walk k files (cur @ [c]) cs))"

definition link_count :: "(path, file_node) dict \<Rightarrow> nat" where
  "link_count files = length (filter (\<lambda>(p, n). is_link n) files)"

definition path_resolve :: "(path, file_node) dict \<Rightarrow> path \<Rightarrow> string \<Rightarrow> path result" where
  "path_resolve files base p =
     (if CHR 0x00 \<in> set p then Inl (value_error ''embedded null byte'')
      else (case walk (link_count files) files [] ((if starts_with ''/'' p then [] else base) @ split_on (CHR ''/'') p) of
         None \<Rightarrow> Inl (Raised ''RuntimeError'' (''Symlink loop from '' @ quoted p))
       | Some t \<Rightarrow> Inr t))"

definition new_local_backend ::
  "path \<Rightarrow> string \<Rightarrow> (string, string) dict \<Rightarrow> (path, file_node) dict \<Rightarrow> local_backend result" where
  "new_local_backend cwd root_path env files =
     (if map_of env local_exec_env \<noteq> Some ''1''
      then Inl (Raised ''LocalExecutionForbidden''
             (''Refusing to execute repository code on the host. Set '' @ local_exec_env @
              ''=1 only for SWE-Forge'' @ [CHR 0x27] @ ''s own evaluation fixtures; '' @
              ''use OpenSWESandboxBackend for real repositories.''))
      else (case path_resolve files cwd root_path of
         Inl e \<Rightarrow> Inl e
       | Inr base \<Rightarrow> Inr \<lparr>lb_root = base, lb_env = env, lb_files = files\<rparr>))"

definition resolve :: "local_backend \<Rightarrow> string \<Rightarrow> path result" where
  "resolve b p =
     (case path_resolve (lb_files b) (lb_root b) p of
        Inl e \<Rightarrow> Inl e
      | Inr target \<Rightarrow>
          (if \<not> starts_with (path_str (lb_root b)) (path_str target)
           then Inl (value_error (''path escapes fixture root: '' @ quoted p))
           else Inr target))"

datatype process_outcome =
    Completed int string string
  | TimeoutExpired string
  | NotFound string
  | OtherError exn

definition local_run ::
  "(string \<Rightarrow> 'w \<Rightarrow> process_outcome \<times> rat \<times> 'w) \<Rightarrow> string \<Rightarrow> nat \<Rightarrow> ('w, exec_result) action" where
  "local_run proc command timeout w =
     (case proc command w of
        (out, duration, w') \<Rightarrow>
          (case out of
             Completed code stdout stderr \<Rightarrow>
               Inr \<lparr>er_command = command, er_exit_code = code, er_stdout = stdout,
                    er_stderr = stderr, er_duration = duration, er_timed_out = False\<rparr>
           | TimeoutExpired stdout \<Rightarrow>
               Inr \<lparr>er_command = command, er_exit_code = 124, er_stdout = stdout,
                    er_stderr = ''command timed out after '' @ show_nat timeout @ ''s'',
                    er_duration = duration, er_timed_out = True\<rparr>
           | NotFound e \<Rightarrow>
               Inr \<lparr>er_command = command, er_exit_code = 127, er_stdout = [],
                    er_stderr = ''executable not found: '' @ e, er_duration = duration,
                    er_timed_out = False\<rparr>
           | OtherError e \<Rightarrow> Inl e,
           w'))"

text \<open>
  What the host may refuse: making a directory, opening a file for writing or for reading, and writing
  the text, of which some of the characters may have been written.
\<close>

record host_files =
  hf_mkdir :: "path \<Rightarrow> exn option"
  hf_open :: "path \<Rightarrow> exn option"
  hf_write :: "path \<Rightarrow> string \<Rightarrow> (exn \<times> nat) option"
  hf_read :: "path \<Rightarrow> exn option"

definition below_file :: "(path, file_node) dict \<Rightarrow> path \<Rightarrow> bool" where
  "below_file files t =
     list_ex (\<lambda>n. case map_of files (take n t) of Some (Plain s) \<Rightarrow> True | _ \<Rightarrow> False) [1..<length t]"

text \<open>\<open>mkdir(parents=True, exist_ok=True)\<close>, on a path given from its last component.\<close>

fun make_dirs ::
  "host_files \<Rightarrow> string list \<Rightarrow> (path, file_node) dict \<Rightarrow> unit result \<times> (path, file_node) dict" where
  "make_dirs host [] files = (Inr (), files)"
| "make_dirs host (c # cs) files =
     (let d = rev (c # cs)
      in case map_of files d of
           Some Folder \<Rightarrow> (Inr (), files)
         | Some n \<Rightarrow> (Inl (Raised ''FileExistsError'' (path_str d)), files)
         | None \<Rightarrow>
             (if below_file files d then (Inl (Raised ''NotADirectoryError'' (path_str d)), files)
              else (case make_dirs host cs files of
                  (Inl e, files1) \<Rightarrow> (Inl e, files1)
                | (Inr u, files1) \<Rightarrow>
                    (case hf_mkdir host d of
                       Some e \<Rightarrow> (Inl e, files1)
                     | None \<Rightarrow> (Inr (), dict_set d Folder files1)))))"

definition write_text_file ::
  "host_files \<Rightarrow> path \<Rightarrow> string \<Rightarrow> (path, file_node) dict \<Rightarrow> unit result \<times> (path, file_node) dict" where
  "write_text_file host t content files =
     (if t = [] \<or> map_of files t = Some Folder
      then (Inl (Raised ''IsADirectoryError'' (path_str t)), files)
      else (case hf_open host t of
          Some e \<Rightarrow> (Inl e, files)
        | None \<Rightarrow>
            (case hf_write host t content of
               Some (e, n) \<Rightarrow> (Inl e, dict_set t (Plain (take n content)) files)
             | None \<Rightarrow> (Inr (), dict_set t (Plain content) files))))"

definition local_write :: "host_files \<Rightarrow> string \<Rightarrow> string \<Rightarrow> (local_backend, unit) action" where
  "local_write host p content b =
     (case resolve b p of
        Inl e \<Rightarrow> (Inl e, b)
      | Inr t \<Rightarrow>
          (case make_dirs host (rev (butlast t)) (lb_files b) of
             (Inl e, files) \<Rightarrow> (Inl e, b\<lparr>lb_files := files\<rparr>)
           | (Inr u, files) \<Rightarrow>
               (case write_text_file host t content files of
                  (out, files') \<Rightarrow> (out, b\<lparr>lb_files := files'\<rparr>))))"

text \<open>Text mode reads every end of line as \<open>\n\<close>; the flag says that the last character was a \<open>\r\<close>.\<close>

fun universal :: "bool \<Rightarrow> string \<Rightarrow> string" where
  "universal cr [] = []"
| "universal cr (c # cs) =
     (if c = CHR 0x0D then newline # universal True cs
      else if c = newline \<and> cr then universal False cs
      else c # universal False cs)"

definition local_read :: "host_files \<Rightarrow> string \<Rightarrow> local_backend \<Rightarrow> exn + string" where
  "local_read host p b =
     (case resolve b p of
        Inl e \<Rightarrow> Inl e
      | Inr t \<Rightarrow>
          (if t = [] then Inl (Raised ''IsADirectoryError'' (path_str t))
           else (case map_of (lb_files b) t of
               None \<Rightarrow>
                 Inl (Raised (if below_file (lb_files b) t then ''NotADirectoryError'' else ''FileNotFoundError'')
                   (path_str t))
             | Some (Plain s) \<Rightarrow> (case hf_read host t of Some e \<Rightarrow> Inl e | None \<Rightarrow> Inr (universal False s))
             | Some Folder \<Rightarrow> Inl (Raised ''IsADirectoryError'' (path_str t))
             | Some (Link l) \<Rightarrow> Inl (Raised ''OSError'' (path_str t)))))"

subsection \<open>The sandbox adapter\<close>

text \<open>
  What a sandbox returns: a string, or an object of which the adapter reads four attributes. An
  attribute that is missing is \<open>None\<close>, one that is present may hold no value.
\<close>

datatype raw_result =
    RawStr string
  | RawObj (raw_exit_code: "int option option") (raw_returncode: "int option option")
      (raw_stdout: "string option") (raw_stderr: "string option")

type_synonym 'w sandbox_call = "string \<Rightarrow> string \<Rightarrow> nat option \<Rightarrow> ('w, raw_result) action"

fun first_method :: "string list \<Rightarrow> string list \<Rightarrow> string option" where
  "first_method available [] = None"
| "first_method available (m # ms) = (if m \<in> set available then Some m else first_method available ms)"

definition sandbox_exec ::
  "string list \<Rightarrow> 'w sandbox_call \<Rightarrow> string \<Rightarrow> nat \<Rightarrow> ('w, raw_result) action" where
  "sandbox_exec available call command timeout w =
     (case first_method available [''execute'', ''exec'', ''run_command'', ''run''] of
        None \<Rightarrow> (Inl (Raised ''AttributeError''
                   (''sandbox backend exposes no known execute method '' @
                    ''(tried execute/exec/run_command/run)'')), w)
      | Some m \<Rightarrow> call m command (if m \<noteq> ''run'' then Some timeout else None) w)"

definition raw_code :: "raw_result \<Rightarrow> int" where
  "raw_code raw =
     (case raw of
        RawStr s \<Rightarrow> 0
      | RawObj code rcode out err \<Rightarrow>
          (case (case code of Some c \<Rightarrow> c | None \<Rightarrow> (case rcode of Some r \<Rightarrow> r | None \<Rightarrow> Some 0)) of
             None \<Rightarrow> 0 | Some n \<Rightarrow> n))"

definition raw_text :: "string option \<Rightarrow> string" where
  "raw_text t = (case t of None \<Rightarrow> [] | Some s \<Rightarrow> s)"

definition sandbox_run ::
  "string list \<Rightarrow> 'w sandbox_call \<Rightarrow> ('w \<Rightarrow> rat) \<Rightarrow> string \<Rightarrow> nat \<Rightarrow> ('w, exec_result) action" where
  "sandbox_run available call now command timeout w =
     (case sandbox_exec available call command timeout w of
        (Inl e, w') \<Rightarrow> (Inl e, w')
      | (Inr raw, w') \<Rightarrow>
          (Inr \<lparr>er_command = command, er_exit_code = raw_code raw,
                er_stdout = (case raw of RawStr s \<Rightarrow> s | RawObj c r out err \<Rightarrow> raw_text out),
                er_stderr = (case raw of RawStr s \<Rightarrow> [] | RawObj c r out err \<Rightarrow> raw_text err),
                er_duration = now w' - now w, er_timed_out = False\<rparr>, w'))"

definition sandbox_write ::
  "string list \<Rightarrow> (string \<Rightarrow> string \<Rightarrow> string \<Rightarrow> ('w, unit) action) \<Rightarrow> string \<Rightarrow> string
   \<Rightarrow> ('w, unit) action" where
  "sandbox_write available call p content w =
     (case first_method available [''write_file'', ''write'', ''put_file''] of
        None \<Rightarrow> (Inl (Raised ''AttributeError'' ''sandbox backend exposes no write_file method''), w)
      | Some m \<Rightarrow> call m p content w)"

definition sandbox_read ::
  "string list \<Rightarrow> (string \<Rightarrow> string \<Rightarrow> ('w, string) action) \<Rightarrow> string \<Rightarrow> ('w, string) action" where
  "sandbox_read available call p w =
     (case first_method available [''read_file'', ''read'', ''get_file''] of
        None \<Rightarrow> (Inl (Raised ''AttributeError'' ''sandbox backend exposes no read_file method''), w)
      | Some m \<Rightarrow> call m p w)"

subsection \<open>Real paths\<close>

text \<open>
  \<open>real_path files t\<close>: no link on the way to \<open>t\<close>. \<open>plain_names t\<close>: its components are names.
  \<open>root_settled b\<close>: the root of the backend is such a path, as the constructor leaves it.
\<close>

definition real_path :: "(path, file_node) dict \<Rightarrow> path \<Rightarrow> bool" where
  "real_path files t \<longleftrightarrow> (\<forall>q cs l. t = q @ cs \<longrightarrow> q \<noteq> [] \<longrightarrow> map_of files q \<noteq> Some (Link l))"

definition plain_names :: "path \<Rightarrow> bool" where
  "plain_names t \<longleftrightarrow> (\<forall>c \<in> set t. c \<noteq> [] \<and> c \<noteq> ''.'' \<and> c \<noteq> ''..'')"

definition root_settled :: "local_backend \<Rightarrow> bool" where
  "root_settled b \<longleftrightarrow> real_path (lb_files b) (lb_root b) \<and> plain_names (lb_root b)"

definition same_links :: "(path, file_node) dict \<Rightarrow> (path, file_node) dict \<Rightarrow> bool" where
  "same_links fs fs' \<longleftrightarrow>
     link_count fs' = link_count fs \<and> (\<forall>q l. map_of fs' q = Some (Link l) \<longleftrightarrow> map_of fs q = Some (Link l))"

lemma real_path_Nil [simp]: "real_path files []"
  by (simp add: real_path_def)

lemma real_path_snoc:
  "real_path files (t @ [c]) \<longleftrightarrow> real_path files t \<and> (\<forall>l. map_of files (t @ [c]) \<noteq> Some (Link l))"
proof
  assume r: "real_path files (t @ [c])"
  have "map_of files q \<noteq> Some (Link l)" if "t = q @ cs" "q \<noteq> []" for q cs l
    using r that unfolding real_path_def by (metis append_assoc)
  moreover have "map_of files (t @ [c]) \<noteq> Some (Link l)" for l
    using r unfolding real_path_def by (metis append_is_Nil_conv append_Nil2 list.discI)
  ultimately show "real_path files t \<and> (\<forall>l. map_of files (t @ [c]) \<noteq> Some (Link l))"
    unfolding real_path_def by blast
next
  assume r: "real_path files t \<and> (\<forall>l. map_of files (t @ [c]) \<noteq> Some (Link l))"
  show "real_path files (t @ [c])"
    unfolding real_path_def
  proof (intro allI impI)
    fix q cs l
    assume q: "t @ [c] = q @ cs" "q \<noteq> []"
    show "map_of files q \<noteq> Some (Link l)"
    proof (cases cs rule: rev_cases)
      case Nil
      with q(1) have "q = t @ [c]" by simp
      with r show ?thesis by blast
    next
      case (snoc ds d)
      with q(1) have "t = q @ ds" by simp
      with r q(2) show ?thesis unfolding real_path_def by blast
    qed
  qed
qed

lemma real_path_butlast: "real_path files t \<Longrightarrow> real_path files (butlast t)"
  by (cases t rule: rev_cases) (simp_all add: real_path_snoc)

lemma plain_names_simps [simp]:
  "plain_names []" "plain_names (t @ u) \<longleftrightarrow> plain_names t \<and> plain_names u"
  "plain_names (c # t) \<longleftrightarrow> c \<noteq> [] \<and> c \<noteq> ''.'' \<and> c \<noteq> ''..'' \<and> plain_names t"
  by (auto simp: plain_names_def)

lemma plain_names_butlast: "plain_names t \<Longrightarrow> plain_names (butlast t)"
  by (auto simp: plain_names_def dest: in_set_butlastD)

lemma walk_name:
  assumes "c \<noteq> []" "c \<noteq> ''.''" "c \<noteq> ''..''" "\<And>l. map_of files (cur @ [c]) \<noteq> Some (Link l)"
  shows "walk k files cur (c # cs) = walk k files (cur @ [c]) cs"
  using assms by (auto split: option.split file_node.split)

lemma walk_link:
  assumes "c \<noteq> []" "c \<noteq> ''.''" "c \<noteq> ''..''" "map_of files (cur @ [c]) = Some (Link l)"
  shows "walk k files cur (c # cs) =
    (case k of 0 \<Rightarrow> None
     | Suc j \<Rightarrow> Option.bind (walk j files (if starts_with ''/'' l then [] else cur) (split_on (CHR ''/'') l))
         (\<lambda>cur'. walk k files cur' cs))"
  using assms by (simp split: nat.split option.split)

lemma walk_dots:
  "c = [] \<or> c = ''.'' \<Longrightarrow> walk k files cur (c # cs) = walk k files cur cs"
  "walk k files cur (''..'' # cs) = walk k files (butlast cur) cs"
  by auto

declare walk.simps [simp del]

lemma walk_Nil [simp]: "walk k files cur [] = Some cur"
  by (simp add: walk.simps)

lemma walk_real:
  "walk k files cur cs = Some t \<Longrightarrow> real_path files cur \<and> plain_names cur \<Longrightarrow>
     real_path files t \<and> plain_names t"
proof (induction k arbitrary: cur cs t rule: less_induct)
  case (less k)
  show ?case using less.prems
  proof (induction cs arbitrary: cur)
    case (Cons c cs)
    consider (dot) "c = [] \<or> c = ''.''" | (up) "c = ''..''"
      | (link) l where "c \<noteq> []" "c \<noteq> ''.''" "c \<noteq> ''..''" "map_of files (cur @ [c]) = Some (Link l)"
      | (name) "c \<noteq> []" "c \<noteq> ''.''" "c \<noteq> ''..''" "\<And>l. map_of files (cur @ [c]) \<noteq> Some (Link l)"
      by blast
    then show ?case
    proof cases
      case dot
      with Cons walk_dots(1) show ?thesis by metis
    next
      case up
      with Cons.prems have "walk k files (butlast cur) cs = Some t" by (simp only: walk_dots(2))
      with Cons.IH [OF this] Cons.prems(2) real_path_butlast plain_names_butlast show ?thesis by blast
    next
      case link
      from Cons.prems(1) obtain j cur' where j: "k = Suc j"
        "walk j files (if starts_with ''/'' l then [] else cur) (split_on (CHR ''/'') l) = Some cur'"
        "walk k files cur' cs = Some t"
        unfolding walk_link [OF link] by (auto split: nat.splits simp: Option.bind_eq_Some_conv)
      have "real_path files cur' \<and> plain_names cur'"
        using less.IH [of j] j(1,2) Cons.prems(2) by auto
      with Cons.IH j(3) show ?thesis by blast
    next
      case name
      have "walk k files (cur @ [c]) cs = Some t"
        using Cons.prems(1) unfolding walk_name [OF name] .
      moreover have "real_path files (cur @ [c]) \<and> plain_names (cur @ [c])"
        using name Cons.prems(2) by (simp add: real_path_snoc)
      ultimately show ?thesis using Cons.IH by blast
    qed
  qed simp
qed

lemma walk_same_links:
  "(\<And>q l. map_of fs' q = Some (Link l) \<longleftrightarrow> map_of fs q = Some (Link l)) \<Longrightarrow>
     walk k fs' cur cs = walk k fs cur cs"
proof (induction k arbitrary: cur cs rule: less_induct)
  case (less k)
  show ?case
  proof (induction cs arbitrary: cur)
    case (Cons c cs)
    consider (dot) "c = [] \<or> c = ''.''" | (up) "c = ''..''"
      | (link) l where "c \<noteq> []" "c \<noteq> ''.''" "c \<noteq> ''..''" "map_of fs (cur @ [c]) = Some (Link l)"
      | (name) "c \<noteq> []" "c \<noteq> ''.''" "c \<noteq> ''..''" "\<And>l. map_of fs (cur @ [c]) \<noteq> Some (Link l)"
      by blast
    then show ?case
    proof cases
      case dot
      then show ?thesis using Cons.IH walk_dots(1) by metis
    next
      case up
      then show ?thesis using Cons.IH by (simp only: walk_dots(2))
    next
      case link
      with less.prems have "map_of fs' (cur @ [c]) = Some (Link l)" by blast
      from walk_link [OF link] walk_link [OF link(1-3) this] less.IH [OF _ less.prems] Cons.IH
      show ?thesis by (auto split: nat.split intro!: Option.bind_cong)
    next
      case name
      with less.prems have "map_of fs' (cur @ [c]) \<noteq> Some (Link l)" for l by blast
      from walk_name [OF name(1-4)] walk_name [OF name(1-3) this] Cons.IH show ?thesis by metis
    qed
  qed simp
qed

text \<open>Without links on the way a climb-free walk only drops the empty components and the dots.\<close>

definition names_of :: "string list \<Rightarrow> path" where
  "names_of cs = filter (\<lambda>c. c \<noteq> [] \<and> c \<noteq> ''.'') cs"

lemma walk_free:
  assumes "\<And>q l. map_of files (cur @ q) \<noteq> Some (Link l) \<or> q = []" "''..'' \<notin> set cs"
  shows "walk k files cur cs = Some (cur @ names_of cs)"
  using assms
proof (induction cs arbitrary: cur)
  case (Cons c cs)
  show ?case
  proof (cases "c = [] \<or> c = ''.''")
    case True
    with Cons.IH [OF Cons.prems(1)] Cons.prems(2) show ?thesis
      unfolding walk_dots(1) [OF True] by (auto simp: names_of_def)
  next
    case False
    have f: "map_of files ((cur @ [c]) @ q) \<noteq> Some (Link l) \<or> q = []" for q l
      using Cons.prems(1) [of "c # q" l] by simp
    have "map_of files (cur @ [c]) \<noteq> Some (Link l)" for l
      using Cons.prems(1) [of "[c]" l] by simp
    from walk_name [OF _ _ _ this] False Cons.prems(2)
    have "walk k files cur (c # cs) = walk k files (cur @ [c]) cs" by auto
    with Cons.IH [OF f] Cons.prems(2) False show ?thesis by (simp add: names_of_def)
  qed
qed (simp add: names_of_def)

lemma walk_along:
  "real_path files (cur @ t) \<Longrightarrow> plain_names t \<Longrightarrow> walk k files cur (t @ cs) = walk k files (cur @ t) cs"
proof (induction t arbitrary: cur)
  case (Cons c t)
  have r: "real_path files ((cur @ [c]) @ t)" using Cons.prems(1) by simp
  have "map_of files (cur @ [c]) \<noteq> Some (Link l)" for l
    using r unfolding real_path_def by (metis append_is_Nil_conv list.discI)
  from walk_name [OF _ _ _ this] Cons.prems(2)
  have "walk k files cur (c # t @ cs) = walk k files (cur @ [c]) (t @ cs)" by simp
  with Cons.IH [OF r] Cons.prems(2) show ?case by simp
qed simp

lemma new_backend_root:
  assumes "new_local_backend cwd base env files = Inr b" "real_path files cwd" "plain_names cwd"
  shows "root_settled b \<and> lb_files b = files"
  using assms walk_real [of "link_count files" files "[]"]
  by (fastforce simp: new_local_backend_def path_resolve_def root_settled_def split: if_splits option.splits sum.splits)

subsection \<open>What a write changes\<close>

lemma link_count_set:
  "\<not> is_link n \<Longrightarrow> (\<And>l. map_of fs t \<noteq> Some (Link l)) \<Longrightarrow> link_count (dict_set t n fs) = link_count fs"
  unfolding dict_set_def link_count_def
proof (induction fs)
  case (Cons e fs)
  obtain q m where e: "e = (q, m)" by fastforce
  show ?case
  proof (cases "q = t")
    case True
    with Cons.prems(2) e have "\<not> is_link m" by (cases m) (auto simp: is_link_def)
    with True e Cons.prems(1) show ?thesis by simp
  next
    case False
    with Cons e show ?thesis by simp
  qed
qed simp

lemma same_links_set:
  "\<not> is_link n \<Longrightarrow> (\<And>l. map_of fs t \<noteq> Some (Link l)) \<Longrightarrow> same_links fs (dict_set t n fs)"
  by (auto simp: same_links_def link_count_set is_link_def)

lemma same_links_refl [simp]: "same_links fs fs"
  by (simp add: same_links_def)

lemma same_links_trans: "same_links a b \<Longrightarrow> same_links b c \<Longrightarrow> same_links a c"
  by (simp add: same_links_def)

lemma same_links_resolve:
  "same_links (lb_files b) fs \<Longrightarrow> resolve (b\<lparr>lb_files := fs\<rparr>) p = resolve b p"
proof -
  assume s: "same_links (lb_files b) fs"
  then have "walk k fs cur cs = walk k (lb_files b) cur cs" for k cur cs
    by (intro walk_same_links) (simp add: same_links_def)
  note same = this
  from s have "link_count fs = link_count (lb_files b)" by (simp add: same_links_def)
  then have "path_resolve fs base q = path_resolve (lb_files b) base q" for base q
    unfolding path_resolve_def same by (simp only:)
  then show ?thesis
    by (cases "path_resolve (lb_files b) (lb_root b) p") (simp_all add: resolve_def)
qed

text \<open>
  \<open>tree_grown t fs fs'\<close>: apart from the entry at \<open>t\<close>, the files are as before, and new directories stand above
  \<open>t\<close>. \<open>can_write fs t\<close>: \<open>t\<close> is not a directory and what stands above it are directories.
\<close>

definition tree_grown :: "path \<Rightarrow> (path, file_node) dict \<Rightarrow> (path, file_node) dict \<Rightarrow> bool" where
  "tree_grown t fs fs' \<longleftrightarrow>
     (\<forall>q. q \<noteq> t \<longrightarrow> map_of fs' q = map_of fs q \<or>
        map_of fs q = None \<and> map_of fs' q = Some Folder \<and> (\<exists>c cs. t = q @ c # cs))"

definition can_write :: "(path, file_node) dict \<Rightarrow> path \<Rightarrow> bool" where
  "can_write fs t \<longleftrightarrow>
     t \<noteq> [] \<and> map_of fs t \<noteq> Some Folder \<and>
     (\<forall>q c cs. t = q @ c # cs \<longrightarrow> q \<noteq> [] \<longrightarrow> map_of fs q = None \<or> map_of fs q = Some Folder)"

definition willing :: "host_files \<Rightarrow> path \<Rightarrow> string \<Rightarrow> bool" where
  "willing host t content \<longleftrightarrow>
     (\<forall>q. hf_mkdir host q = None) \<and> hf_open host t = None \<and> hf_write host t content = None"

definition readable :: "host_files \<Rightarrow> host_files" where
  "readable host = host\<lparr>hf_read := \<lambda>t. None\<rparr>"

lemma below_file_iff:
  "below_file files t \<longleftrightarrow> (\<exists>q c cs s. t = q @ c # cs \<and> q \<noteq> [] \<and> map_of files q = Some (Plain s))"
proof
  assume "below_file files t"
  then obtain n where n0: "1 \<le> n" "n < length t"
    "case map_of files (take n t) of Some (Plain s) \<Rightarrow> True | _ \<Rightarrow> False"
    by (auto simp: below_file_def list_ex_iff)
  then obtain s where "map_of files (take n t) = Some (Plain s)"
    by (cases "map_of files (take n t)"; cases "the (map_of files (take n t))") auto
  note n = n0(1,2) this
  have "t = take n t @ t ! n # drop (Suc n) t" using n(2) by (simp add: Cons_nth_drop_Suc)
  moreover have "take n t \<noteq> []" using n(1,2) by auto
  ultimately show "\<exists>q c cs s. t = q @ c # cs \<and> q \<noteq> [] \<and> map_of files q = Some (Plain s)"
    using n(3) by blast
next
  assume "\<exists>q c cs s. t = q @ c # cs \<and> q \<noteq> [] \<and> map_of files q = Some (Plain s)"
  then obtain q c cs s where q: "t = q @ c # cs" "q \<noteq> []" "map_of files q = Some (Plain s)" by blast
  then have "length q \<in> set [1..<length t]" "take (length q) t = q" by (auto simp: Suc_le_eq)
  with q(3) show "below_file files t" unfolding below_file_def list_ex_iff by force
qed

lemma make_dirs_changes:
  assumes "make_dirs host cs fs = (r, fs')"
  shows "same_links fs fs' \<and>
    (\<forall>q. map_of fs' q = map_of fs q \<or>
       map_of fs q = None \<and> map_of fs' q = Some Folder \<and> (\<exists>ds. rev cs = q @ ds))"
  using assms
proof (induction cs arbitrary: r fs')
  case (Cons c cs)
  let ?d = "rev (c # cs)"
  obtain r1 fs1 where m: "make_dirs host cs fs = (r1, fs1)" by fastforce
  note ih = Cons.IH [OF m]
  consider "fs' = fs" | "map_of fs ?d = None" "fs' = fs1" | "map_of fs ?d = None" "fs' = dict_set ?d Folder fs1"
    using Cons.prems m by (auto simp: Let_def split: option.splits file_node.splits if_splits sum.splits)
  then show ?case
  proof cases
    case 2
    with ih show ?thesis by (metis append_assoc rev.simps(2))
  next
    case 3
    have "map_of fs1 ?d \<noteq> Some (Link l)" for l using ih 3(1) by (metis option.distinct(1) same_links_def)
    then have "same_links fs1 fs'" using 3(2) same_links_set by (simp add: is_link_def)
    moreover have "map_of fs' q = map_of fs q \<or>
       map_of fs q = None \<and> map_of fs' q = Some Folder \<and> (\<exists>ds. ?d = q @ ds)" for q
    proof (cases "q = ?d")
      case True
      with 3 show ?thesis by simp
    next
      case False
      then have "map_of fs' q = map_of fs1 q" using 3(2) by simp
      with ih show ?thesis by (metis append_assoc rev.simps(2))
    qed
    ultimately show ?thesis using ih same_links_trans by blast
  qed simp
qed simp

lemma make_dirs_succeeds:
  assumes "\<And>q. hf_mkdir host q = None"
    and "\<And>q ds. rev cs = q @ ds \<Longrightarrow> q \<noteq> [] \<Longrightarrow> map_of fs q = None \<or> map_of fs q = Some Folder"
  shows "fst (make_dirs host cs fs) = Inr ()"
  using assms(2)
proof (induction cs)
  case (Cons c cs)
  have above: "map_of fs q = None \<or> map_of fs q = Some Folder" if "rev cs = q @ ds" "q \<noteq> []" for q ds
    using Cons.prems [of q "ds @ [c]"] that by simp
  have "\<not> below_file fs (rev (c # cs))"
    unfolding below_file_iff using Cons.prems by fastforce
  moreover have "map_of fs (rev (c # cs)) = None \<or> map_of fs (rev (c # cs)) = Some Folder"
    using Cons.prems [of "rev (c # cs)" "[]"] by simp
  moreover have "fst (make_dirs host cs fs) = Inr ()" by (rule Cons.IH [OF above])
  ultimately show ?case
    using assms(1) by (auto simp: Let_def split: prod.split sum.split)
qed simp

definition tree_shaped :: "(path, file_node) dict \<Rightarrow> bool" where
  "tree_shaped fs \<longleftrightarrow> (\<forall>q c. map_of fs (q @ [c]) \<noteq> None \<longrightarrow> q \<noteq> [] \<longrightarrow> map_of fs q = Some Folder)"

lemma tree_above:
  assumes "tree_shaped fs"
  shows "map_of fs (q @ ds) \<noteq> None \<Longrightarrow> q \<noteq> [] \<Longrightarrow> ds \<noteq> [] \<Longrightarrow> map_of fs q = Some Folder"
proof (induction ds rule: rev_induct)
  case (snoc d ds)
  then have "map_of fs (q @ ds) = Some Folder"
    using assms unfolding tree_shaped_def by (metis append_assoc append_is_Nil_conv)
  with snoc show ?case by (cases "ds = []") auto
qed simp

lemma make_dirs_refuses:
  assumes "tree_shaped fs" "fst (make_dirs host cs fs) = Inr ()" "rev cs = q @ ds" "q \<noteq> []"
    "real_path fs (rev cs)"
  shows "map_of fs q = None \<or> map_of fs q = Some Folder"
proof (cases cs)
  case (Cons c cs')
  have nolink: "map_of fs q \<noteq> Some (Link l)" for l
    using assms(3-5) unfolding real_path_def by blast
  have "map_of fs q \<noteq> Some (Plain s)" for s
  proof (cases "map_of fs (rev cs) = Some Folder")
    case True
    with tree_above [OF assms(1), of q ds] assms(3,4) show ?thesis by (cases "ds = []") auto
  next
    case False
    show ?thesis
    proof (cases "ds = []")
      case True
      with assms(2,3) False Cons show ?thesis by (auto simp: Let_def split: option.splits)
    next
      case ds: False
      from False assms(2) Cons have "\<not> below_file fs (rev cs)"
        by (auto simp: Let_def split: option.splits file_node.splits if_splits)
      with assms(3,4) ds show ?thesis unfolding below_file_iff by (metis neq_Nil_conv)
    qed
  qed
  with nolink show ?thesis by (metis file_node.exhaust option.exhaust)
qed (use assms in simp)

lemma resolve_real:
  assumes "resolve b p = Inr t"
  shows "real_path (lb_files b) t"
  using assms walk_real [of "link_count (lb_files b)" "lb_files b" "[]"]
  by (fastforce simp: resolve_def path_resolve_def split: if_splits option.splits sum.splits)

lemma local_write_cases:
  assumes "local_write host p content b = (out, b')" "resolve b p = Inr t"
  obtains r fs1 fs2 where "make_dirs host (rev (butlast t)) (lb_files b) = (r, fs1)"
    "b' = b\<lparr>lb_files := fs2\<rparr>"
    "isl r \<and> out = r \<and> fs2 = fs1 \<or> r = Inr () \<and> write_text_file host t content fs1 = (out, fs2)"
  using assms that unfolding local_write_def
  by (auto split: sum.splits prod.splits)

text \<open>
  A write changes at most the entry of its target, to a text file with the content (a part of it when
  the host stops the write), and makes directories above it.
\<close>

lemma write_changes:
  assumes "local_write host p content b = (out, b')" "resolve b p = Inr t"
  shows "same_links (lb_files b) (lb_files b')" "lb_root b' = lb_root b"
    "tree_grown t (lb_files b) (lb_files b')"
    "map_of (lb_files b') t = map_of (lb_files b) t \<or>
       (\<exists>n. map_of (lb_files b') t = Some (Plain (take n content)))"
    "out = Inr () \<Longrightarrow> map_of (lb_files b') t = Some (Plain content) \<and> t \<noteq> []"
proof -
  obtain r fs1 fs2 where w: "make_dirs host (rev (butlast t)) (lb_files b) = (r, fs1)"
    "b' = b\<lparr>lb_files := fs2\<rparr>"
    "isl r \<and> out = r \<and> fs2 = fs1 \<or> r = Inr () \<and> write_text_file host t content fs1 = (out, fs2)"
    by (rule local_write_cases [OF assms])
  note m = make_dirs_changes [OF w(1)]
  have m2: "map_of fs1 q = map_of (lb_files b) q \<or>
       map_of (lb_files b) q = None \<and> map_of fs1 q = Some Folder \<and> (\<exists>ds. butlast t = q @ ds)" for q
    using m by simp
  have at_t: "map_of fs1 t = map_of (lb_files b) t"
  proof (cases "t = []")
    case True
    with w(1) show ?thesis by simp
  next
    case False
    then have "length (butlast t) < length t" by simp
    have "\<not> (\<exists>ds. butlast t = t @ ds)"
    proof
      assume "\<exists>ds. butlast t = t @ ds"
      then obtain ds where "length (butlast t) = length (t @ ds)" by metis
      with \<open>length (butlast t) < length t\<close> show False by simp
    qed
    with m2 [of t] show ?thesis by blast
  qed
  have above: "\<exists>c cs. t = q @ c # cs" if "butlast t = q @ ds" "q \<noteq> t" for q ds
  proof (cases "t = []")
    case False
    then have "t = q @ (ds @ [last t])" using that(1) by (metis append_assoc append_butlast_last_id)
    then show ?thesis by (cases ds) auto
  qed (use that in simp)
  have grow1: "tree_grown t (lb_files b) fs1" unfolding tree_grown_def using m2 above by blast
  have set: "fs2 = fs1 \<and> out \<noteq> Inr () \<or>
      t \<noteq> [] \<and> (\<exists>n. fs2 = dict_set t (Plain (take n content)) fs1) \<and> out \<noteq> Inr () \<or>
      t \<noteq> [] \<and> fs2 = dict_set t (Plain content) fs1"
    using w(3) by (auto simp: write_text_file_def split: if_splits option.splits)
  have nolink: "map_of fs1 t \<noteq> Some (Link l)" if "t \<noteq> []" for l
    unfolding at_t using resolve_real [OF assms(2)] that unfolding real_path_def by (metis append_Nil2)
  show "lb_root b' = lb_root b" by (simp add: w(2))
  show "same_links (lb_files b) (lb_files b')"
    using set m same_links_trans same_links_set [of _ fs1 t] nolink by (fastforce simp: w(2) is_link_def)
  show "tree_grown t (lb_files b) (lb_files b')"
    using set grow1 by (auto simp: w(2) tree_grown_def)
  show "map_of (lb_files b') t = map_of (lb_files b) t \<or>
       (\<exists>n. map_of (lb_files b') t = Some (Plain (take n content)))"
    using set at_t by (auto simp: w(2) intro: exI [of _ "length content"])
  show "map_of (lb_files b') t = Some (Plain content) \<and> t \<noteq> []" if "out = Inr ()"
    using set that by (auto simp: w(2))
qed

lemma write_failure:
  "local_write host p content b = (out, b') \<Longrightarrow> resolve b p = Inl e \<Longrightarrow> out = Inl e \<and> b' = b"
  by (simp add: local_write_def)

lemma write_succeeds_iff:
  assumes "resolve b p = Inr t" "willing host t content" "tree_shaped (lb_files b)"
  shows "fst (local_write host p content b) = Inr () \<longleftrightarrow> can_write (lb_files b) t"
proof -
  obtain out b' where w: "local_write host p content b = (out, b')" by fastforce
  obtain r fs1 fs2 where m: "make_dirs host (rev (butlast t)) (lb_files b) = (r, fs1)"
    "b' = b\<lparr>lb_files := fs2\<rparr>"
    "isl r \<and> out = r \<and> fs2 = fs1 \<or> r = Inr () \<and> write_text_file host t content fs1 = (out, fs2)"
    by (rule local_write_cases [OF w assms(1)])
  have r: "real_path (lb_files b) (butlast t)" using resolve_real [OF assms(1)] by (rule real_path_butlast)
  have split: "(\<exists>ds. butlast t = q @ ds) \<longleftrightarrow> (\<exists>c cs. t = q @ c # cs)" if "t \<noteq> []" for q
  proof
    assume "\<exists>ds. butlast t = q @ ds"
    then obtain ds where "butlast t = q @ ds" by blast
    then have "butlast t @ [last t] = q @ (ds @ [last t])" by simp
    then have "t = q @ (ds @ [last t])" unfolding append_butlast_last_id [OF that] .
    moreover have "\<exists>c cs. ds @ [last t] = c # cs" by (cases ds) auto
    ultimately show "\<exists>c cs. t = q @ c # cs" by metis
  next
    assume "\<exists>c cs. t = q @ c # cs"
    then obtain c cs where "t = q @ c # cs" by blast
    then have "butlast t = q @ butlast (c # cs)" by (simp only: butlast_append) simp
    then show "\<exists>ds. butlast t = q @ ds" by blast
  qed
  have at_t: "map_of fs1 t = map_of (lb_files b) t" if "t \<noteq> []"
  proof -
    have "\<not> (\<exists>ds. butlast t = t @ ds)" unfolding split [OF that] by simp
    with make_dirs_changes [OF m(1)] show ?thesis by (metis rev_rev_ident)
  qed
  have written: "fst (write_text_file host t content fs1) = Inr () \<longleftrightarrow> t \<noteq> [] \<and> map_of (lb_files b) t \<noteq> Some Folder"
    using assms(2) at_t by (cases "t = []") (simp_all add: write_text_file_def willing_def)
  show ?thesis
  proof
    assume ok: "fst (local_write host p content b) = Inr ()"
    with w m(3) have "r = Inr ()" "fst (write_text_file host t content fs1) = Inr ()" by auto
    with written have t: "t \<noteq> []" "map_of (lb_files b) t \<noteq> Some Folder" by auto
    have "map_of (lb_files b) q = None \<or> map_of (lb_files b) q = Some Folder" if q: "t = q @ c # cs" "q \<noteq> []" for q c cs
    proof -
      from split [OF t(1), of q] q(1) obtain ds where "butlast t = q @ ds" by blast
      with make_dirs_refuses [OF assms(3), of host "rev (butlast t)" q ds] m(1) r \<open>r = Inr ()\<close> q(2)
      show ?thesis by simp
    qed
    with t show "can_write (lb_files b) t" unfolding can_write_def by blast
  next
    assume can: "can_write (lb_files b) t"
    have "fst (make_dirs host (rev (butlast t)) (lb_files b)) = Inr ()"
    proof (rule make_dirs_succeeds)
      show "hf_mkdir host q = None" for q using assms(2) by (simp add: willing_def)
      show "map_of (lb_files b) q = None \<or> map_of (lb_files b) q = Some Folder"
        if "rev (rev (butlast t)) = q @ ds" "q \<noteq> []" for q ds
        using can that split [of q] unfolding can_write_def by auto
    qed
    with m written can w show "fst (local_write host p content b) = Inr ()"
      by (auto simp: can_write_def)
  qed
qed

subsection \<open>The files of the local backend\<close>

lemma read_text_file:
  "resolve b p = Inr t \<Longrightarrow>
     local_read (readable host) p b = Inr x \<longleftrightarrow>
       t \<noteq> [] \<and> (\<exists>s. map_of (lb_files b) t = Some (Plain s) \<and> x = universal False s)"
  by (auto simp: local_read_def readable_def split: option.splits file_node.splits)

lemma resolve_after_write:
  assumes "local_write host p content b = (out, b')"
  shows "resolve b' q = resolve b q"
proof (cases "resolve b p")
  case (Inl e)
  with write_failure [OF assms] show ?thesis by simp
next
  case (Inr t)
  obtain r fs1 fs2 where "b' = b\<lparr>lb_files := fs2\<rparr>"
    by (rule local_write_cases [OF assms Inr])
  with same_links_resolve [of b fs2 q] write_changes(1) [OF assms Inr] show ?thesis by simp
qed

interpretation local_files: file_backend "local_write host" "local_read (readable host)" "universal False"
proof unfold_locales
  fix p c b b'
  assume w: "local_write host p c b = (Inr (), b')"
  then obtain t where t: "resolve b p = Inr t" by (cases "resolve b p") (auto simp: local_write_def)
  from write_changes(5) [OF w t refl] resolve_after_write [OF w, of p] t
  show "local_read (readable host) p b' = Inr (universal False c)" by (simp add: read_text_file)
next
  fix p c r b b' q x
  assume w: "local_write host p c b = (r, b')" and x: "local_read (readable host) q b' = Inr x"
  show "local_read (readable host) q b = Inr x \<or> (\<exists>n. x = universal False (take n c))"
  proof (cases "resolve b p")
    case (Inl e)
    with write_failure [OF w] x show ?thesis by simp
  next
    case (Inr t)
    obtain u where u: "resolve b q = Inr u" "resolve b' q = Inr u"
      using x resolve_after_write [OF w, of q] by (cases "resolve b q") (auto simp: local_read_def)
    with x obtain s where s: "u \<noteq> []" "map_of (lb_files b') u = Some (Plain s)" "x = universal False s"
      by (auto simp: read_text_file)
    show ?thesis
    proof (cases "u = t")
      case True
      from write_changes(4) [OF w Inr] show ?thesis
      proof
        assume "map_of (lb_files b') t = map_of (lb_files b) t"
        with s True have "local_read (readable host) q b = Inr x"
          unfolding read_text_file [OF u(1)] by metis
        then show ?thesis ..
      next
        assume "\<exists>n. map_of (lb_files b') t = Some (Plain (take n c))"
        with s True show ?thesis by auto
      qed
    next
      case False
      with write_changes(3) [OF w Inr] s(2) have "map_of (lb_files b) u = Some (Plain s)"
        unfolding tree_grown_def by fastforce
      with s u(1) show ?thesis by (simp add: read_text_file)
    qed
  qed
next
  fix p c b b' q x
  assume w: "local_write host p c b = (Inr (), b')" and x: "local_read (readable host) q b = Inr x"
  then obtain t where t: "resolve b p = Inr t" by (cases "resolve b p") (auto simp: local_write_def)
  obtain u where u: "resolve b q = Inr u" "resolve b' q = Inr u"
    using x resolve_after_write [OF w, of q] by (cases "resolve b q") (auto simp: local_read_def)
  with x obtain s where s: "u \<noteq> []" "map_of (lb_files b) u = Some (Plain s)" "x = universal False s"
    by (auto simp: read_text_file)
  show "local_read (readable host) q b' = Inr x \<or> local_read (readable host) q b' = Inr (universal False c)"
  proof (cases "u = t")
    case True
    with write_changes(5) [OF w t refl] u(2) show ?thesis by (simp add: read_text_file)
  next
    case False
    with write_changes(3) [OF w t] s(2) have "map_of (lb_files b') u = Some (Plain s)"
      unfolding tree_grown_def by fastforce
    with s u(2) show ?thesis by (simp add: read_text_file)
  qed
qed

lemma universal_plain: "CHR 0x0D \<notin> set s \<Longrightarrow> universal False s = s"
  by (induction s) auto

subsection \<open>Containment\<close>

lemma join_append: "xs \<noteq> [] \<Longrightarrow> ys \<noteq> [] \<Longrightarrow> join sep (xs @ ys) = join sep xs @ sep @ join sep ys"
proof (induction xs)
  case (Cons x xs)
  then show ?case by (cases "xs = []") (simp_all add: join_Cons)
qed simp

lemma path_str_prefix: "starts_with (path_str xs) (path_str (xs @ ys))"
  by (cases "xs = [] \<or> ys = []") (auto simp: path_str_def starts_with_iff join_append)

lemma resolve_free:
  assumes "root_settled b" "\<And>q l. map_of (lb_files b) (lb_root b @ q) \<noteq> Some (Link l)"
    and "CHR 0x00 \<notin> set p" "\<not> starts_with ''/'' p" "''..'' \<notin> set (split_on (CHR ''/'') p)"
  shows "resolve b p = Inr (lb_root b @ names_of (split_on (CHR ''/'') p))"
proof -
  have s: "real_path (lb_files b) ([] @ lb_root b)" "plain_names (lb_root b)"
    using assms(1) by (simp_all add: root_settled_def)
  have "walk k (lb_files b) [] (lb_root b @ split_on (CHR ''/'') p) =
      Some (lb_root b @ names_of (split_on (CHR ''/'') p))" for k
    using walk_along [OF s, of k] walk_free [of "lb_files b" "lb_root b"] assms(2,5) by simp
  with assms(3,4) show ?thesis by (simp add: resolve_def path_resolve_def path_str_prefix)
qed

text \<open>
  C17. An edit the schema accepts stays inside the root. With no symbolic link at or below the root of the
  backend, every path that \<open>FileEdit\<close> accepts (without a null byte) resolves to the root followed by the
  names of the path. Writing the edit changes at most the entry of that path and makes directories above
  it; all other files stay as they are. On a host that refuses nothing the write goes through exactly
  when the path is not a directory and nothing but directories stand above it, and then reading it back
  gives the content, with its ends of line as text mode reads them.
\<close>

theorem accepted_edit_stays_inside:
  fixes b host e'
  defines "t \<equiv> lb_root b @ names_of (split_on (CHR ''/'') (fe_path e'))"
  assumes "validate_edit e = Inr e'" "CHR 0x00 \<notin> set (fe_path e')"
    and "root_settled b" "tree_shaped (lb_files b)"
    and "\<And>q l. map_of (lb_files b) (lb_root b @ q) \<noteq> Some (Link l)"
  shows "resolve b (fe_path e') = Inr t \<and>
    (case local_write host (fe_path e') (fe_content e') b of
       (out, b') \<Rightarrow>
         lb_root b' = lb_root b \<and> tree_grown t (lb_files b) (lb_files b') \<and>
         (willing host t (fe_content e') \<longrightarrow> (out = Inr () \<longleftrightarrow> can_write (lb_files b) t)) \<and>
         (out = Inr () \<longrightarrow>
            map_of (lb_files b') t = Some (Plain (fe_content e')) \<and>
            local_read (readable host) (fe_path e') b' = Inr (universal False (fe_content e'))))"
proof -
  from assms(2) obtain p where p: "safe_path (fe_path e) = Inr p" "fe_path e' = p"
    by (auto simp: validate_edit_def split: sum.splits)
  have rel: "\<not> starts_with ''/'' (fe_path e')" "''..'' \<notin> set (split_on (CHR ''/'') (fe_path e'))"
    using safe_path_result [OF p(1)] unfolding p(2) by auto
  from resolve_free [OF assms(4,6,3) rel] have r: "resolve b (fe_path e') = Inr t" by (simp add: t_def)
  obtain out b' where w: "local_write host (fe_path e') (fe_content e') b = (out, b')" by fastforce
  note ch = write_changes [OF w r]
  have "willing host t (fe_content e') \<longrightarrow> (out = Inr () \<longleftrightarrow> can_write (lb_files b) t)"
    using write_succeeds_iff [OF r _ assms(5), of host "fe_content e'"] w by simp
  moreover have "local_read (readable host) (fe_path e') b' = Inr (universal False (fe_content e'))" if "out = Inr ()"
    using local_files.get_put w that by simp
  ultimately show ?thesis using r w ch(2,3,5) by simp
qed

definition sample_edit :: "string \<Rightarrow> file_edit" where
  "sample_edit p = \<lparr>fe_path = p, fe_content = ''x'' @ [CHR 0x0D, newline], fe_summary = []\<rparr>"

definition sample_backend :: local_backend where
  "sample_backend =
     \<lparr>lb_root = [''srv'', ''app''], lb_env = [(local_exec_env, ''1'')],
      lb_files = [([''srv''], Folder), ([''srv'', ''app''], Folder), ([''www''], Link ''srv/app'')]\<rparr>"

definition kind_host :: host_files where
  "kind_host =
     \<lparr>hf_mkdir = \<lambda>t. None, hf_open = \<lambda>t. None, hf_write = \<lambda>t s. None, hf_read = \<lambda>t. None\<rparr>"

lemma sample_root: "root_settled sample_backend" "tree_shaped (lb_files sample_backend)"
  "map_of (lb_files sample_backend) (lb_root sample_backend @ q) \<noteq> Some (Link l)"
proof -
  have n: "new_local_backend [''srv''] ''/www/../app/.'' (lb_env sample_backend) (lb_files sample_backend) =
      Inr sample_backend" by code_simp
  have "real_path (lb_files sample_backend) [''srv'']"
    by (auto simp: real_path_def sample_backend_def Cons_eq_append_conv)
  then show "root_settled sample_backend" using new_backend_root [OF n] by simp
  show "tree_shaped (lb_files sample_backend)"
    by (auto simp: tree_shaped_def sample_backend_def append_eq_Cons_conv split: if_splits)
  show "map_of (lb_files sample_backend) (lb_root sample_backend @ q) \<noteq> Some (Link l)"
    by (auto simp: sample_backend_def)
qed

theorem accepted_edit_stays_inside_witness:
  "resolve sample_backend ''src/./a.py'' = Inr [''srv'', ''app'', ''src'', ''a.py''] \<and>
   (\<exists>b'. local_write kind_host ''src/./a.py'' (''x'' @ [CHR 0x0D, newline]) sample_backend = (Inr (), b') \<and>
      local_read (readable kind_host) ''src/./a.py'' b' = Inr (''x'' @ [newline]))"
proof -
  have v: "validate_edit (sample_edit ''src/./a.py'') = Inr (sample_edit ''src/./a.py'')" by code_simp
  have z: "CHR 0x00 \<notin> set (fe_path (sample_edit ''src/./a.py''))" by (simp add: sample_edit_def)
  obtain out b' where w: "local_write kind_host ''src/./a.py'' (''x'' @ [CHR 0x0D, newline]) sample_backend = (out, b')"
    by fastforce
  have "fst (local_write kind_host ''src/./a.py'' (''x'' @ [CHR 0x0D, newline]) sample_backend) = Inr ()"
    by code_simp
  moreover have "universal False (''x'' @ [CHR 0x0D, newline]) = ''x'' @ [newline]" by code_simp
  moreover have "lb_root sample_backend @ names_of (split_on (CHR ''/'') ''src/./a.py'') =
      [''srv'', ''app'', ''src'', ''a.py'']" by code_simp
  ultimately show ?thesis
    using accepted_edit_stays_inside [OF v z sample_root, of kind_host] w by (simp add: sample_edit_def)
qed

text \<open>
  The check of the backend alone is weaker: it compares the texts of the two paths without a
  separator, so the path of a sibling directory whose name extends that of the root passes.
\<close>

lemma sibling_directory_escapes:
  "resolve sample_backend ''../app-evil/x'' = Inr [''srv'', ''app-evil'', ''x''] \<and>
   isl (resolve sample_backend ''../other/x'')"
  by code_simp

text \<open>
  Links below the root: one that leads out of it is refused by the check, one that leads to itself is an
  error, and one to a sibling directory whose name extends that of the root is followed.
\<close>

definition linked_backend :: local_backend where
  "linked_backend =
     sample_backend\<lparr>lb_files := lb_files sample_backend @
       [([''srv'', ''app'', ''out''], Link ''/etc''), ([''srv'', ''app'', ''here''], Link ''src/./lib''),
        ([''srv'', ''app'', ''a''], Link ''b''), ([''srv'', ''app'', ''b''], Link ''a''),
        ([''srv'', ''app'', ''next''], Link ''../app-evil'')]\<rparr>"

lemma links_below_the_root:
  "resolve linked_backend ''out/passwd'' = Inl (value_error (''path escapes fixture root: '' @ quoted ''out/passwd''))"
  "resolve linked_backend ''here/x.py'' = Inr [''srv'', ''app'', ''src'', ''lib'', ''x.py'']"
  "resolve linked_backend ''a/x'' = Inl (Raised ''RuntimeError'' (''Symlink loop from '' @ quoted ''a/x''))"
  "resolve linked_backend ''next/x'' = Inr [''srv'', ''app-evil'', ''x'']"
  by code_simp+

text \<open>
  Host execution needs the explicit opt-in, and only a process that ended with exit code 0 counts
  as success: a timeout and a missing executable are never reported as a success.
\<close>

lemma local_execution_gated:
  "(new_local_backend cwd base env files = Inr b \<longrightarrow> map_of env local_exec_env = Some ''1'') \<and>
   (case local_run proc command timeout w of
      (Inr r, w') \<Rightarrow> exec_ok r \<longleftrightarrow> (\<exists>out err. fst (proc command w) = Completed 0 out err)
    | (Inl e, w') \<Rightarrow> fst (proc command w) = OtherError e)"
  by (auto simp: new_local_backend_def local_run_def exec_ok_def split: process_outcome.split prod.split if_splits)

text \<open>
  The adapter reports success for a result without an exit code: an object whose code is \<open>None\<close>, an
  object with neither attribute, or a bare string.
\<close>

lemma missing_exit_code_is_success:
  "raw_code (RawObj (Some None) (Some (Some 1)) None None) = 0 \<and>
   raw_code (RawObj None None None None) = 0 \<and> raw_code (RawStr ''boom'') = 0"
  by (simp add: raw_code_def)

end
