(* ===== verification/Verifier.thy ===== *)
theory Verifier
  imports Backends Repo_Graph Memory_Store Model_Router
begin

section \<open>Verification of a change\<close>

text \<open>
  Models \<open>agent/sweforge/verification/verifier.py\<close>: the choice of the commands, the loop over the test
  commands, the lint and type gates, and the reading of their output. The execution backend is the
  parameter \<open>run\<close> (a command and a timeout give a result, or the backend raises) and the clock is
  \<open>now\<close>, both on a world \<open>'w\<close>. The state is the \<open>Verifier\<close> object with its \<open>last_result\<close>.

  In a pattern with \<open>re.MULTILINE\<close> the end \<open>.*$\<close> of the summary pattern always matches at the end of
  the line that \<open>.*\<close> reaches, so \<open>$\<close> is left out.

  The lemmas show which commands are run, that a result is green exactly when every test command
  ended_well and every gate ended_well or was skipped, and what the counts and errors say.
\<close>

subsection \<open>The plan\<close>

record verification_plan =
  vp_test_commands :: "string list"
  vp_lint :: "string option"
  vp_typecheck :: "string option"
  vp_targeted :: bool

definition opt_list :: "'a option \<Rightarrow> 'a list" where
  "opt_list x = (case x of None \<Rightarrow> [] | Some y \<Rightarrow> [y])"

definition all_commands :: "verification_plan \<Rightarrow> string list" where
  "all_commands p = vp_test_commands p @ opt_list (vp_lint p) @ opt_list (vp_typecheck p)"

record verifier =
  vf_graph :: "repo_graph option"
  vf_timeout :: nat
  vf_enable_lint :: bool
  vf_enable_typecheck :: bool
  vf_last :: "verification_result option"

definition python_changes :: "string list \<Rightarrow> string list" where
  "python_changes changed = filter (ends_with ''.py'') changed"

definition related_tests :: "repo_graph \<Rightarrow> string list \<Rightarrow> string list" where
  "related_tests g changed =
     concat (map (\<lambda>p. (if is_test_file g p then [p] else []) @ find_tests_for_file g p) changed)"

definition pytest_command :: "string list \<Rightarrow> string" where
  "pytest_command tests = ''python -m pytest '' @ join '' '' tests @ '' -q --no-header''"

definition full_suite_command :: string where
  "full_suite_command = ''python -m pytest -q --no-header''"

definition tool_command :: "string \<Rightarrow> string list \<Rightarrow> string" where
  "tool_command tool files = ''python -m '' @ tool @ '' '' @ join '' '' files"

definition selected_tests :: "verifier \<Rightarrow> string list \<Rightarrow> bool \<Rightarrow> string list" where
  "selected_tests vf changed full =
     (case vf_graph vf of
        None \<Rightarrow> []
      | Some g \<Rightarrow> if full then [] else py_sorted (uniq (related_tests g (python_changes changed))))"

definition build_plan :: "verifier \<Rightarrow> string list \<Rightarrow> bool \<Rightarrow> verification_plan" where
  "build_plan vf changed full =
     (let py = python_changes changed; tests = selected_tests vf changed full
      in \<lparr>vp_test_commands = (if tests = [] then [full_suite_command] else [pytest_command tests]),
          vp_lint = (if vf_enable_lint vf \<and> py \<noteq> [] then Some (tool_command ''ruff check'' py) else None),
          vp_typecheck = (if vf_enable_typecheck vf \<and> py \<noteq> [] then Some (tool_command ''mypy'' py)
                          else None),
          vp_targeted = (tests \<noteq> [])\<rparr>)"

subsection \<open>Reading the output of a tool\<close>

definition summary_line_rx :: rx where
  "summary_line_rx =
     cat [BolM, star (Cls (\<lambda>c. c = CHR ''='')), star space,
          plus1 (cat [plus1 digit, plus1 space, plus1 wordc, opt (cat [Lit '','', star space])]),
          plus1 space, Lit ''in'', plus1 space,
          plus1 (Cls (\<lambda>c. is_digit_c c \<or> c = CHR ''.'')), Lit ''s'', star dot]"

definition count_rx :: rx where
  "count_rx =
     cat [Grp 1 (plus1 digit), plus1 space,
          Grp 2 (alts [Lit ''passed'', Lit ''failed'', Lit ''error'', Lit ''errors'', Lit ''skipped'',
                       Lit ''xfailed'', Lit ''xpassed''])]"

definition module_missing_rx :: rx where
  "module_missing_rx = cat [Lit ''No module named '', Grp 1 (plus1 nonspace)]"

definition collect_error_rx :: rx where
  "collect_error_rx =
     alts [Lit ''ERROR collecting'', Lit ''INTERNALERROR'', Lit ''ImportError while importing'']"

definition ruff_line_rx :: rx where
  "ruff_line_rx =
     cat [Bol, plus1 nonspace, Lit ''.py:'', plus1 digit, Lit '':'', plus1 digit, Lit '': '',
          Cls upper_az, plus1 digit]"

definition mypy_line_rx :: rx where
  "mypy_line_rx = cat [Bol, plus1 nonspace, Lit ''.py:'', plus1 digit, Lit '': error:'']"

record counts =
  ct_run :: int
  ct_passed :: int
  ct_failed :: int

text \<open>\<open>labelled\<close> reads the counts of a summary line; \<open>count_of\<close> adds those with a label.\<close>

definition labelled :: "string \<Rightarrow> (string \<times> int) list" where
  "labelled scope =
     map (\<lambda>h. (let l = group_or_empty 2 h in if starts_with ''error'' l then ''error'' else l,
               digits_value (group_or_empty 1 h)))
       (find_all count_rx scope)"

definition count_of :: "string list \<Rightarrow> (string \<times> int) list \<Rightarrow> int" where
  "count_of keys ls = sum_list (map snd (filter (\<lambda>(l, n). l \<in> set keys) ls))"

definition summary_scope :: "string \<Rightarrow> string" where
  "summary_scope t =
     (let hits = find_all summary_line_rx t in if hits = [] then [] else match_text (last hits))"

definition parse_pytest :: "exec_result \<Rightarrow> counts" where
  "parse_pytest r =
     (let ls = labelled (summary_scope (combined_output r));
          passed = count_of [''passed'', ''xfailed'', ''xpassed''] ls;
          failed0 = count_of [''failed''] ls + count_of [''error''] ls;
          failed = (if passed = 0 \<and> failed0 = 0 \<and> \<not> exec_ok r then 1 else failed0)
      in \<lparr>ct_run = passed + failed + count_of [''skipped''] ls, ct_passed = passed,
          ct_failed = failed\<rparr>)"

definition interesting_line :: "string \<Rightarrow> bool" where
  "interesting_line l =
     (starts_with ''E   '' l \<or> starts_with ''FAILED'' l \<or> starts_with ''ERROR'' l \<or>
      matches collect_error_rx l \<or> matches ruff_line_rx l \<or> matches mypy_line_rx l)"

fun collect_lines :: "nat \<Rightarrow> string list \<Rightarrow> string list \<Rightarrow> string list" where
  "collect_lines limit acc [] = acc"
| "collect_lines limit acc (l # ls) =
     (let s = strip l
      in if s = [] then collect_lines limit acc ls
         else let acc' = (if interesting_line s then acc @ [take 400 s] else acc)
              in if limit \<le> length acc' then acc' else collect_lines limit acc' ls)"

definition extract_errors :: "nat \<Rightarrow> exec_result \<Rightarrow> string list" where
  "extract_errors limit r =
     (let found = collect_lines limit [] (splitlines (combined_output r))
      in if found = [] \<and> \<not> exec_ok r
         then map (\<lambda>l. take 400 (strip l))
                (filter (\<lambda>l. strip l \<noteq> []) (last_n 3 (splitlines (strip (combined_output r)))))
         else found)"

subsection \<open>Running the plan\<close>

type_synonym 'w runner = "string \<Rightarrow> nat \<Rightarrow> ('w, exec_result) action"

record tally =
  ty_outputs :: "string list"
  ty_errors :: "string list"
  ty_run :: int
  ty_passed :: int
  ty_failed :: int
  ty_ok :: bool

definition empty_tally :: tally where
  "empty_tally = \<lparr>ty_outputs = [], ty_errors = [], ty_run = 0, ty_passed = 0, ty_failed = 0, ty_ok = True\<rparr>"

definition command_output :: "string \<Rightarrow> string \<Rightarrow> string" where
  "command_output command text = ''$ '' @ command @ [newline] @ text"

definition count_result :: "string \<Rightarrow> exec_result \<Rightarrow> tally \<Rightarrow> tally" where
  "count_result command r t =
     (let c = parse_pytest r
      in t\<lparr>ty_outputs := ty_outputs t @ [command_output command (combined_output r)],
           ty_run := ty_run t + ct_run c, ty_passed := ty_passed t + ct_passed c,
           ty_failed := ty_failed t + ct_failed c,
           ty_ok := (ty_ok t \<and> exec_ok r),
           ty_errors := ty_errors t @ (if exec_ok r then [] else extract_errors 12 r)\<rparr>)"

fun run_tests :: "'w runner \<Rightarrow> nat \<Rightarrow> string list \<Rightarrow> tally \<Rightarrow> ('w, tally) action" where
  "run_tests run timeout [] t w = (Inr t, w)"
| "run_tests run timeout (c # cs) t w =
     and_then (run c timeout) (\<lambda>r. run_tests run timeout cs (count_result c r t)) w"

definition tool_missing :: "exec_result \<Rightarrow> bool" where
  "tool_missing r =
     (er_exit_code r = 127 \<or> er_exit_code r = 1 \<and> matches module_missing_rx (combined_output r))"

definition skip_note :: "exec_result \<Rightarrow> string" where
  "skip_note r =
     ''[sweforge] gate skipped: '' @
     (case search module_missing_rx (combined_output r) of
        Some h \<Rightarrow> group_or_empty 1 h @ '' not installed''
      | None \<Rightarrow> ''executable not found'')"

definition gate_result :: "string \<Rightarrow> exec_result \<Rightarrow> tally \<Rightarrow> bool option \<times> tally" where
  "gate_result command r t =
     (if tool_missing r
      then (None, t\<lparr>ty_outputs := ty_outputs t @ [command_output command (skip_note r)]\<rparr>)
      else (Some (exec_ok r),
            t\<lparr>ty_outputs := ty_outputs t @ [command_output command (combined_output r)],
              ty_errors := ty_errors t @ (if exec_ok r then [] else extract_errors 5 r)\<rparr>))"

definition run_gate ::
  "'w runner \<Rightarrow> nat \<Rightarrow> string option \<Rightarrow> tally \<Rightarrow> ('w, bool option \<times> tally) action" where
  "run_gate run timeout command t w =
     (case command of
        None \<Rightarrow> (Inr (None, t), w)
      | Some c \<Rightarrow> and_then (run c timeout) (\<lambda>r w'. (Inr (gate_result c r t), w')) w)"

definition finish ::
  "verification_plan \<Rightarrow> tally \<Rightarrow> bool option \<Rightarrow> bool option \<Rightarrow> rat \<Rightarrow> verification_result" where
  "finish plan t lint types duration =
     consistent_counts
       \<lparr>vr_passed = (ty_ok t \<and> lint \<noteq> Some False \<and> types \<noteq> Some False),
        vr_tests_run = ty_run t, vr_tests_passed = ty_passed t, vr_tests_failed = ty_failed t,
        vr_lint_passed = lint, vr_typecheck_passed = types,
        vr_errors = take 20 (ty_errors t), vr_commands = all_commands plan,
        vr_output = last_n 12000 (join [newline, newline] (ty_outputs t)),
        vr_duration = py_round 4 duration\<rparr>"

definition run_plan ::
  "'w runner \<Rightarrow> ('w \<Rightarrow> rat) \<Rightarrow> nat \<Rightarrow> verification_plan \<Rightarrow> ('w, verification_result) action" where
  "run_plan run now timeout plan w =
     and_then (run_tests run timeout (vp_test_commands plan) empty_tally)
       (\<lambda>t. and_then (run_gate run timeout (vp_lint plan) t)
         (\<lambda>(lint, t1). and_then (run_gate run timeout (vp_typecheck plan) t1)
           (\<lambda>(types, t2) w'. (Inr (finish plan t2 lint types (now w' - now w)), w')))) w"

definition verify ::
  "'w runner \<Rightarrow> ('w \<Rightarrow> rat) \<Rightarrow> string list \<Rightarrow> bool \<Rightarrow> (verifier \<times> 'w, verification_result) action" where
  "verify run now changed full = (\<lambda>(vf, w).
     case run_plan run now (vf_timeout vf) (build_plan vf changed full) w of
       (Inl e, w') \<Rightarrow> (Inl e, (vf, w'))
     | (Inr v, w') \<Rightarrow> (Inr v, (vf\<lparr>vf_last := Some v\<rparr>, w')))"

subsection \<open>The verdict and the commands it rests on\<close>

text \<open>\<open>run_all\<close> is the reference: the commands run in order, up to the first that raises.\<close>

fun run_all :: "'w runner \<Rightarrow> nat \<Rightarrow> string list \<Rightarrow> ('w, exec_result list) action" where
  "run_all run timeout [] w = (Inr [], w)"
| "run_all run timeout (c # cs) w =
     and_then (run c timeout)
       (\<lambda>r. and_then (run_all run timeout cs) (\<lambda>rs w'. (Inr (r # rs), w'))) w"

lemma run_all_append:
  assumes "run_all run timeout cs w = (Inr rs, u)" "run_all run timeout ds u = (Inr ss, w')"
  shows "run_all run timeout (cs @ ds) w = (Inr (rs @ ss), w')"
  using assms
proof (induction cs arbitrary: w rs)
  case (Cons c cs)
  then show ?case by (auto elim!: and_then_cases simp: and_then_def split: prod.splits sum.splits)
qed simp

lemma run_all_raise:
  assumes "run_all run timeout cs w = (Inl e, u)"
  shows "run_all run timeout (cs @ ds) w = (Inl e, u)"
  using assms
proof (induction cs arbitrary: w)
  case (Cons c cs)
  from Cons.prems show ?case
    by (auto simp: and_then_def Cons.IH split: prod.splits sum.splits)
qed simp

lemma run_all_then:
  assumes "run_all run timeout cs w = (Inr rs, u)" "run_all run timeout ds u = (Inl e, w')"
  shows "run_all run timeout (cs @ ds) w = (Inl e, w')"
  using assms
proof (induction cs arbitrary: w rs)
  case (Cons c cs)
  then show ?case by (auto elim!: and_then_cases simp: and_then_def split: prod.splits sum.splits)
qed simp

lemma run_all_length: "run_all run timeout cs w = (Inr rs, w') \<Longrightarrow> length rs = length cs"
  by (induction cs arbitrary: w rs) (auto elim!: and_then_cases)

lemma run_tests_run_all:
  "run_tests run timeout cs t w =
     (case run_all run timeout cs w of
        (Inl e, w') \<Rightarrow> (Inl e, w')
      | (Inr rs, w') \<Rightarrow> (Inr (fold (\<lambda>(c, r). count_result c r) (zip cs rs) t), w'))"
  by (induction cs arbitrary: t w) (auto simp: and_then_def split: prod.splits sum.splits)

text \<open>
  What a report must say, as equations over the results of the commands. \<open>gate_verdict\<close>: a gate whose
  tool is missing has no verdict; the other gates go by exit code and time limit, as the tests do.
\<close>

definition ended_well :: "exec_result \<Rightarrow> bool" where
  "ended_well r \<longleftrightarrow> er_exit_code r = 0 \<and> \<not> er_timed_out r"

definition gate_verdict :: "exec_result \<Rightarrow> bool option" where
  "gate_verdict r =
     (if er_exit_code r = 127 then None
      else if er_exit_code r = 1 \<and> matches module_missing_rx (combined_output r) then None
      else Some (ended_well r))"

definition gate_text :: "exec_result \<Rightarrow> string" where
  "gate_text r = (if gate_verdict r = None then skip_note r else combined_output r)"

definition test_errors :: "exec_result \<Rightarrow> string list" where
  "test_errors r = (if ended_well r then [] else extract_errors 12 r)"

definition gate_errors :: "exec_result \<Rightarrow> string list" where
  "gate_errors r = (if gate_verdict r = Some False then extract_errors 5 r else [])"

definition verdict_of :: "string option \<Rightarrow> exec_result list \<Rightarrow> bool option" where
  "verdict_of command rs = (if command = None then None else gate_verdict (hd rs))"

definition reports ::
  "verification_plan \<Rightarrow> exec_result list \<Rightarrow> exec_result list \<Rightarrow> rat \<Rightarrow> verification_result \<Rightarrow> bool" where
  "reports plan tests gates seconds v \<longleftrightarrow>
     (vr_passed v \<longleftrightarrow> (\<forall>r \<in> set tests. ended_well r) \<and> (\<forall>r \<in> set gates. gate_verdict r \<noteq> Some False)) \<and>
     vr_tests_run v = sum_list (map (\<lambda>r. ct_run (parse_pytest r)) tests) \<and>
     vr_tests_passed v = sum_list (map (\<lambda>r. ct_passed (parse_pytest r)) tests) \<and>
     vr_tests_failed v = sum_list (map (\<lambda>r. ct_failed (parse_pytest r)) tests) \<and>
     vr_lint_passed v = verdict_of (vp_lint plan) gates \<and>
     vr_typecheck_passed v = verdict_of (vp_typecheck plan) (rev gates) \<and>
     vr_errors v = take 20 (concat (map test_errors tests) @ concat (map gate_errors gates)) \<and>
     vr_commands v = vp_test_commands plan @ opt_list (vp_lint plan) @ opt_list (vp_typecheck plan) \<and>
     vr_output v = last_n 12000 (join [newline, newline]
       (map2 command_output (vr_commands v) (map combined_output tests @ map gate_text gates))) \<and>
     vr_duration v = py_round 4 seconds"

lemma ended_well_iff: "exec_ok r \<longleftrightarrow> ended_well r"
  by (simp add: ended_well_def exec_ok_def)

lemma tool_missing_iff: "tool_missing r \<longleftrightarrow> gate_verdict r = None"
  by (auto simp: tool_missing_def gate_verdict_def)

lemma gate_verdict_not_missing: "gate_verdict r \<noteq> None \<Longrightarrow> gate_verdict r = Some (ended_well r)"
  by (auto simp: gate_verdict_def split: if_splits)

lemma fold_count:
  assumes "length cs = length rs"
  shows "fold (\<lambda>(c, r). count_result c r) (zip cs rs) t =
    t\<lparr>ty_outputs := ty_outputs t @ map2 command_output cs (map combined_output rs),
      ty_errors := ty_errors t @ concat (map test_errors rs),
      ty_run := ty_run t + sum_list (map (\<lambda>r. ct_run (parse_pytest r)) rs),
      ty_passed := ty_passed t + sum_list (map (\<lambda>r. ct_passed (parse_pytest r)) rs),
      ty_failed := ty_failed t + sum_list (map (\<lambda>r. ct_failed (parse_pytest r)) rs),
      ty_ok := (ty_ok t \<and> (\<forall>r \<in> set rs. ended_well r))\<rparr>"
  using assms
  by (induction cs rs arbitrary: t rule: list_induct2)
     (simp_all add: count_result_def Let_def ended_well_iff test_errors_def add.assoc)

lemma gate_result_eq:
  "gate_result c r t =
     (gate_verdict r, t\<lparr>ty_outputs := ty_outputs t @ [command_output c (gate_text r)],
        ty_errors := ty_errors t @ gate_errors r\<rparr>)"
proof (cases "gate_verdict r")
  case None
  then show ?thesis by (simp add: gate_result_def tool_missing_iff gate_text_def gate_errors_def)
next
  case (Some b)
  with gate_verdict_not_missing [of r] have "b = ended_well r" by simp
  with Some show ?thesis
    by (simp add: gate_result_def tool_missing_iff gate_text_def gate_errors_def ended_well_iff)
qed

lemma run_gate_run_all:
  assumes "run_gate run timeout c t w = (Inr (g, t'), w')"
  obtains rs where "run_all run timeout (opt_list c) w = (Inr rs, w')" "length rs = length (opt_list c)"
    "g = verdict_of c rs"
    "t' = t\<lparr>ty_outputs := ty_outputs t @ map2 command_output (opt_list c) (map gate_text rs),
            ty_errors := ty_errors t @ concat (map gate_errors rs)\<rparr>"
proof (cases c)
  case None
  with assms that [of "[]"] show ?thesis by (simp add: run_gate_def opt_list_def verdict_of_def)
next
  case (Some d)
  with assms obtain r where r: "run d timeout w = (Inr r, w')" "gate_result d r t = (g, t')"
    by (auto simp: run_gate_def elim: and_then_cases)
  from that [of "[r]"] r(2) [unfolded gate_result_eq] r(1) Some show ?thesis
    by (simp add: opt_list_def verdict_of_def and_then_def)
qed

lemma run_gate_raise:
  "run_gate run timeout c t w = (Inl e, w') \<Longrightarrow>
     run_all run timeout (opt_list c) w = (Inl e, w')"
  by (cases c) (auto simp: run_gate_def opt_list_def elim!: and_then_cases)

lemma run_plan_raise:
  assumes "run_plan run now timeout plan w = (Inl e, w')"
  shows "run_all run timeout (all_commands plan) w = (Inl e, w')"
proof -
  let ?cs = "vp_test_commands plan"
  from assms show ?thesis unfolding run_plan_def
  proof (cases rule: and_then_cases)
    case (raised e')
    then have "run_all run timeout ?cs w = (Inl e, w')"
      by (auto simp: run_tests_run_all split: prod.splits sum.splits)
    from run_all_raise [OF this] show ?thesis by (simp add: all_commands_def)
  next
    case (went_on t u)
    then obtain rs where rs: "run_all run timeout ?cs w = (Inr rs, u)"
      by (auto simp: run_tests_run_all split: prod.splits sum.splits)
    from went_on(2) show ?thesis
    proof (cases rule: and_then_cases)
      case (raised e')
      then have "run_all run timeout (opt_list (vp_lint plan)) u = (Inl e, w')"
        by (auto dest: run_gate_raise)
      from run_all_then [OF rs run_all_raise [OF this]] show ?thesis
        by (simp add: all_commands_def)
    next
      case (went_on x v)
      obtain l t1 where x: "x = (l, t1)" by fastforce
      from went_on(1) x obtain ls where ls: "run_all run timeout (opt_list (vp_lint plan)) u = (Inr ls, v)"
        by (auto elim: run_gate_run_all)
      from went_on(2) x have "run_gate run timeout (vp_typecheck plan) t1 v = (Inl e, w')"
        by (auto elim: and_then_cases)
      then have "run_all run timeout (opt_list (vp_typecheck plan)) v = (Inl e, w')"
        by (rule run_gate_raise)
      from run_all_then [OF rs run_all_then [OF ls this]] show ?thesis
        by (simp add: all_commands_def)
    qed
  qed
qed

subsection \<open>Counts\<close>

lemma digits_value_nonneg: "0 \<le> digits_value s"
proof -
  have "0 \<le> a \<Longrightarrow> 0 \<le> foldl (\<lambda>a c. if is_digit_c c then a * 10 + int (ord_c c) - 48 else a) a s" for a
    by (induction s arbitrary: a) (auto simp: is_digit_c_def Let_def)
  then show ?thesis by (simp add: digits_value_def)
qed

lemma count_of_nonneg: "0 \<le> count_of keys (labelled scope)"
  unfolding count_of_def labelled_def
  by (intro sum_list_nonneg) (auto simp: Let_def digits_value_nonneg)

lemma parse_pytest_counts:
  "0 \<le> ct_passed (parse_pytest r)" "0 \<le> ct_failed (parse_pytest r)"
  "ct_passed (parse_pytest r) + ct_failed (parse_pytest r) \<le> ct_run (parse_pytest r)"
  "\<not> exec_ok r \<Longrightarrow> 1 \<le> ct_passed (parse_pytest r) + ct_failed (parse_pytest r)"
proof -
  define n where "n keys = count_of keys (labelled (summary_scope (combined_output r)))" for keys
  have nn: "0 \<le> n keys" for keys by (simp add: n_def count_of_nonneg)
  have p: "ct_passed (parse_pytest r) = n [''passed'', ''xfailed'', ''xpassed'']"
    by (simp add: parse_pytest_def n_def Let_def)
  have f: "ct_failed (parse_pytest r) =
      (if n [''passed'', ''xfailed'', ''xpassed''] = 0 \<and> n [''failed''] + n [''error''] = 0 \<and> \<not> exec_ok r
       then 1 else n [''failed''] + n [''error''])"
    by (simp add: parse_pytest_def n_def Let_def)
  have t: "ct_run (parse_pytest r) =
      ct_passed (parse_pytest r) + ct_failed (parse_pytest r) + n [''skipped'']"
    by (simp add: parse_pytest_def n_def Let_def)
  note ps = nn [of "[''passed'', ''xfailed'', ''xpassed'']"] nn [of "[''failed'']"]
    nn [of "[''error'']"] nn [of "[''skipped'']"]
  show "0 \<le> ct_passed (parse_pytest r)" using ps p by simp
  show "0 \<le> ct_failed (parse_pytest r)" using ps f by simp
  show "ct_passed (parse_pytest r) + ct_failed (parse_pytest r) \<le> ct_run (parse_pytest r)"
    using ps t by simp
  show "1 \<le> ct_passed (parse_pytest r) + ct_failed (parse_pytest r)" if "\<not> exec_ok r"
    using ps p f that by (simp split: if_splits; linarith)
qed

lemma run_plan_result:
  assumes "run_plan run now timeout plan w = (Inr v, w')"
  obtains tests gates where
    "run_all run timeout (all_commands plan) w = (Inr (tests @ gates), w')"
    "length tests = length (vp_test_commands plan)"
    "reports plan tests gates (now w' - now w) v"
proof -
  let ?cs = "vp_test_commands plan"
  from assms obtain t u l t1 u1 y t2 where
    t: "run_tests run timeout ?cs empty_tally w = (Inr t, u)" and
    l: "run_gate run timeout (vp_lint plan) t u = (Inr (l, t1), u1)" and
    y: "run_gate run timeout (vp_typecheck plan) t1 u1 = (Inr (y, t2), w')" and
    v: "v = finish plan t2 l y (now w' - now w)"
    unfolding run_plan_def by (fastforce elim!: and_then_cases)
  from t obtain rs where rs: "run_all run timeout ?cs w = (Inr rs, u)" and
    fold: "t = fold (\<lambda>(c, r). count_result c r) (zip ?cs rs) empty_tally"
    by (auto simp: run_tests_run_all split: prod.splits sum.splits)
  from l obtain ls where ls: "run_all run timeout (opt_list (vp_lint plan)) u = (Inr ls, u1)"
    "length ls = length (opt_list (vp_lint plan))" "l = verdict_of (vp_lint plan) ls"
    "t1 = t\<lparr>ty_outputs := ty_outputs t @ map2 command_output (opt_list (vp_lint plan)) (map gate_text ls),
            ty_errors := ty_errors t @ concat (map gate_errors ls)\<rparr>"
    by (rule run_gate_run_all)
  from y obtain ys where ys: "run_all run timeout (opt_list (vp_typecheck plan)) u1 = (Inr ys, w')"
    "length ys = length (opt_list (vp_typecheck plan))" "y = verdict_of (vp_typecheck plan) ys"
    "t2 = t1\<lparr>ty_outputs := ty_outputs t1 @ map2 command_output (opt_list (vp_typecheck plan)) (map gate_text ys),
            ty_errors := ty_errors t1 @ concat (map gate_errors ys)\<rparr>"
    by (rule run_gate_run_all)
  have len: "length ?cs = length rs" using run_all_length [OF rs] by simp
  have one: "verdict_of c (rs @ ss) = verdict_of c rs" "verdict_of c (rev (ss @ rs)) = verdict_of c rs"
    "(verdict_of c rs = Some False) = (\<exists>r \<in> set rs. gate_verdict r = Some False)"
    if "length rs = length (opt_list c)" for c and rs ss :: "exec_result list"
    using that by (cases c; cases rs; auto simp: verdict_of_def opt_list_def)+
  have le: "sum_list (map (\<lambda>r. ct_passed (parse_pytest r)) rs) + sum_list (map (\<lambda>r. ct_failed (parse_pytest r)) rs)
      \<le> sum_list (map (\<lambda>r. ct_run (parse_pytest r)) rs)"
    using parse_pytest_counts(3) by (induction rs) (simp_all add: add_mono add.commute add.left_commute, smt (verit))
  have outs: "ty_outputs t2 = map2 command_output (all_commands plan) (map combined_output rs @ map gate_text (ls @ ys))"
    using len ls(2) by (simp add: ys(4) ls(4) fold fold_count [OF len] empty_tally_def all_commands_def)
  have errs: "ty_errors t2 = concat (map test_errors rs) @ concat (map gate_errors (ls @ ys))"
    by (simp add: ys(4) ls(4) fold fold_count [OF len] empty_tally_def)
  have nums: "ty_ok t2 \<longleftrightarrow> (\<forall>r \<in> set rs. ended_well r)"
    "ty_run t2 = sum_list (map (\<lambda>r. ct_run (parse_pytest r)) rs)"
    "ty_passed t2 = sum_list (map (\<lambda>r. ct_passed (parse_pytest r)) rs)"
    "ty_failed t2 = sum_list (map (\<lambda>r. ct_failed (parse_pytest r)) rs)"
    by (simp_all add: ys(4) ls(4) fold fold_count [OF len] empty_tally_def)
  have gates: "verdict_of (vp_lint plan) (ls @ ys) = l" "verdict_of (vp_typecheck plan) (rev (ls @ ys)) = y"
    "l \<noteq> Some False \<and> y \<noteq> Some False \<longleftrightarrow> (\<forall>r \<in> set (ls @ ys). gate_verdict r \<noteq> Some False)"
    using one(1) [OF ls(2)] one(2) [OF ys(2)] one(3) [OF ls(2)] one(3) [OF ys(2)] ls(3) ys(3) by auto
  have v': "v = \<lparr>vr_passed = (ty_ok t2 \<and> l \<noteq> Some False \<and> y \<noteq> Some False),
        vr_tests_run = ty_run t2, vr_tests_passed = ty_passed t2, vr_tests_failed = ty_failed t2,
        vr_lint_passed = l, vr_typecheck_passed = y,
        vr_errors = take 20 (ty_errors t2), vr_commands = all_commands plan,
        vr_output = last_n 12000 (join [newline, newline] (ty_outputs t2)),
        vr_duration = py_round 4 (now w' - now w)\<rparr>"
    using le by (simp add: v finish_def consistent_counts_def nums del: last_n_def)
  have rep: "reports plan rs (ls @ ys) (now w' - now w) v"
    unfolding reports_def gates(1,2) gates(3) [symmetric] errs [symmetric] nums [symmetric]
    by (simp add: v' all_commands_def outs [unfolded all_commands_def] del: last_n_def)
  show ?thesis
  proof (rule that [OF _ _ rep])
    show "run_all run timeout (all_commands plan) w = (Inr (rs @ ls @ ys), w')"
      unfolding all_commands_def by (rule run_all_append [OF rs run_all_append [OF ls(1) ys(1)]])
  qed (use len in simp)
qed

lemma sum_list_bound:
  fixes f :: "'a \<Rightarrow> int"
  assumes "x \<in> set xs" "\<And>y. 0 \<le> f y"
  shows "f x \<le> sum_list (map f xs)"
proof -
  have "0 \<le> sum_list (map f ys)" for ys using assms(2) by (auto intro!: sum_list_nonneg)
  with assms show ?thesis by (induction xs) (auto intro: order_trans add_increasing)
qed

lemma report_counts:
  assumes "reports plan tests gates seconds v"
  shows "0 \<le> vr_tests_passed v" "0 \<le> vr_tests_failed v"
    "vr_tests_passed v + vr_tests_failed v \<le> vr_tests_run v"
    "r \<in> set tests \<Longrightarrow> \<not> ended_well r \<Longrightarrow> 1 \<le> vr_tests_passed v + vr_tests_failed v"
    "vr_passed v \<Longrightarrow> vr_errors v = []"
proof -
  let ?p = "\<lambda>r. ct_passed (parse_pytest r)" and ?f = "\<lambda>r. ct_failed (parse_pytest r)"
    and ?n = "\<lambda>r. ct_run (parse_pytest r)"
  have v: "vr_tests_passed v = sum_list (map ?p tests)" "vr_tests_failed v = sum_list (map ?f tests)"
    "vr_tests_run v = sum_list (map ?n tests)"
    using assms by (simp_all add: reports_def)
  show pf: "0 \<le> vr_tests_passed v" "0 \<le> vr_tests_failed v"
    unfolding v using parse_pytest_counts(1,2) by (auto intro!: sum_list_nonneg)
  have both: "vr_tests_passed v + vr_tests_failed v = sum_list (map (\<lambda>r. ?p r + ?f r) tests)"
    by (simp add: v sum_list_addf)
  show "vr_tests_passed v + vr_tests_failed v \<le> vr_tests_run v"
    unfolding both v(3) by (rule sum_list_mono) (rule parse_pytest_counts(3))
  show "1 \<le> vr_tests_passed v + vr_tests_failed v" if "r \<in> set tests" "\<not> ended_well r"
  proof -
    have "?p r + ?f r \<le> sum_list (map (\<lambda>r. ?p r + ?f r) tests)"
      by (rule sum_list_bound [OF that(1)]) (simp add: parse_pytest_counts)
    with parse_pytest_counts(4) [of r] that(2) both show ?thesis by (simp add: ended_well_iff)
  qed
  show "vr_errors v = []" if "vr_passed v"
    using assms that by (auto simp: reports_def test_errors_def gate_errors_def)
qed

text \<open>
  C13. The verdict is that of the exit codes. \<open>verify\<close> runs the commands of its plan in order, once each,
  and nothing else; it raises exactly when a command raises and then leaves \<open>last_result\<close> alone.
  Otherwise its result is the report of those very runs: green exactly when every test command ended
  with exit code 0 in time and no gate has a red verdict, where a gate has none if it ended with exit
  code 127, or with exit code 1 and a report that says \<open>No module named\<close> somewhere, and else is judged
  by exit code and time limit; the counts are the sums of the parsed summaries, with the verdicts of
  the gates, the first 20 error lines, the commands, the end of the output and the time. A green
  result has no errors, the counts add up, and a failed test command never yields a report without a
  test. The counts do not decide: a summary with failures next to exit code 0 is green (the last lemma).
\<close>

theorem green_iff_commands_succeed:
  "case verify run now changed full (vf, w) of
     (Inl e, (vf', w')) \<Rightarrow>
       vf' = vf \<and> run_all run (vf_timeout vf) (all_commands (build_plan vf changed full)) w = (Inl e, w')
   | (Inr v, (vf', w')) \<Rightarrow>
       vf' = vf\<lparr>vf_last := Some v\<rparr> \<and>
       (\<exists>tests gates.
          run_all run (vf_timeout vf) (all_commands (build_plan vf changed full)) w
            = (Inr (tests @ gates), w') \<and>
          length tests = length (vp_test_commands (build_plan vf changed full)) \<and>
          reports (build_plan vf changed full) tests gates (now w' - now w) v \<and>
          (vr_passed v \<longrightarrow> vr_errors v = []) \<and>
          0 \<le> vr_tests_failed v \<and> vr_tests_passed v + vr_tests_failed v \<le> vr_tests_run v \<and>
          ((\<forall>r \<in> set tests. ended_well r) \<or> 1 \<le> vr_tests_run v))"
proof -
  let ?p = "build_plan vf changed full"
  obtain q w' where q: "run_plan run now (vf_timeout vf) ?p w = (q, w')" by fastforce
  show ?thesis
  proof (cases q)
    case (Inl e)
    with run_plan_raise q show ?thesis by (fastforce simp: verify_def)
  next
    case (Inr v)
    with q have "run_plan run now (vf_timeout vf) ?p w = (Inr v, w')" by simp
    then obtain tests gates where r:
      "run_all run (vf_timeout vf) (all_commands ?p) w = (Inr (tests @ gates), w')"
      "length tests = length (vp_test_commands ?p)" "reports ?p tests gates (now w' - now w) v"
      by (rule run_plan_result)
    have "(\<forall>r \<in> set tests. ended_well r) \<or> 1 \<le> vr_tests_run v"
      using report_counts(3,4) [OF r(3)] by force
    with r report_counts(2,3,5) [OF r(3)] q Inr show ?thesis
      unfolding verify_def by simp blast
  qed
qed

definition red_run :: "nat runner" where
  "red_run c timeout n =
     (Inr \<lparr>er_command = c, er_exit_code = 2, er_stdout = [], er_stderr = [], er_duration = 1,
           er_timed_out = False\<rparr>, Suc n)"

definition bare_verifier :: verifier where
  "bare_verifier =
     \<lparr>vf_graph = None, vf_timeout = 300, vf_enable_lint = True, vf_enable_typecheck = False,
      vf_last = None\<rparr>"

lemma run_all_one:
  "run_all red_run timeout [c] 0 =
     (Inr [\<lparr>er_command = c, er_exit_code = 2, er_stdout = [], er_stderr = [], er_duration = 1,
            er_timed_out = False\<rparr>], 1)"
  by (simp add: red_run_def and_then_def)

theorem green_iff_commands_succeed_witness:
  "\<exists>v. fst (verify red_run of_nat [] True (bare_verifier, 0)) = Inr v \<and> \<not> vr_passed v \<and>
     1 \<le> vr_tests_run v"
proof -
  have plan: "vp_test_commands (build_plan bare_verifier [] True) = [full_suite_command]"
    "all_commands (build_plan bare_verifier [] True) = [full_suite_command]"
    by (simp_all add: build_plan_def selected_tests_def bare_verifier_def python_changes_def
        all_commands_def opt_list_def)
  obtain r :: exec_result where r: "\<not> ended_well r" and
    run: "run_all red_run (vf_timeout bare_verifier) [full_suite_command] 0 = (Inr [r], 1)"
    by (rule that [OF _ run_all_one]) (simp add: ended_well_def)
  obtain q vf' w' where q: "verify red_run of_nat [] True (bare_verifier, 0) = (q, (vf', w'))"
    by (metis prod.exhaust)
  from green_iff_commands_succeed
      [where run = red_run and now = of_nat and changed = "[]" and full = True
       and vf = bare_verifier and w = 0] q plan run r
  show ?thesis by (cases q) (auto simp: Cons_eq_append_conv reports_def)
qed

subsection \<open>Which tests a change selects\<close>

text \<open>
  The plan runs the related tests, or everything. A targeted plan is one pytest command whose
  files are, sorted and without repetition, exactly the changed test files and the tests that the
  repository graph relates to a changed Python file; the plan is targeted exactly when there is such
  a test and the full suite was not asked for, and otherwise the whole suite runs.
\<close>

theorem plan_covers_related_tests:
  fixes vf changed full
  defines "p \<equiv> build_plan vf changed full"
  defines "wanted \<equiv> (case vf_graph vf of None \<Rightarrow> {} | Some g \<Rightarrow>
     (\<Union>path \<in> {q \<in> set changed. ends_with ''.py'' q}.
        set (find_tests_for_file g path) \<union> {q. q = path \<and> is_test_file g q}))"
  shows "(vp_targeted p \<longleftrightarrow> wanted \<noteq> {} \<and> \<not> full) \<and>
    (if vp_targeted p
     then \<exists>tests. vp_test_commands p = [pytest_command tests] \<and> set tests = wanted \<and>
            sorted tests \<and> distinct tests
     else vp_test_commands p = [full_suite_command])"
proof -
  have sel: "set (selected_tests vf changed full) = (if full then {} else wanted)"
    by (auto simp: selected_tests_def wanted_def related_tests_def python_changes_def
        split: option.splits)
  have ord: "sorted (selected_tests vf changed full) \<and> distinct (selected_tests vf changed full)"
    by (auto simp: selected_tests_def py_sorted_def split: option.splits)
  have tg: "vp_targeted p \<longleftrightarrow> selected_tests vf changed full \<noteq> []"
    by (simp add: p_def build_plan_def Let_def)
  show ?thesis
  proof (cases "selected_tests vf changed full = []")
    case True
    with sel tg show ?thesis by (auto simp: p_def build_plan_def Let_def split: if_splits)
  next
    case False
    with sel have w: "set (selected_tests vf changed full) = wanted" "\<not> full" "wanted \<noteq> {}"
      by (auto split: if_splits)
    have "vp_test_commands p = [pytest_command (selected_tests vf changed full)]"
      using False by (simp add: p_def build_plan_def Let_def)
    with False w ord tg show ?thesis by auto
  qed
qed

text \<open>
  A gate whose output mentions a missing module is skipped when it ends with exit code 1, whatever
  else it reports: a lint run that found violations, one of them quoting such a message, counts as
  not installed.
\<close>

lemma quoted_message_skips_gate:
  "gate_result ''g''
     \<lparr>er_command = ''g'', er_exit_code = 1,
      er_stdout = ''a.py:1:1: E1 No module named x'', er_stderr = [], er_duration = 0,
      er_timed_out = False\<rparr> empty_tally
   = (None, empty_tally\<lparr>ty_outputs :=
       [command_output ''g'' ''[sweforge] gate skipped: x not installed'']\<rparr>)"
  by code_simp

text \<open>
  The verdict rests on the exit code alone: a summary that reports failures next to exit code 0 is
  counted and does not turn the run red.
\<close>

lemma summary_not_cross_checked:
  "let r = \<lparr>er_command = ''t'', er_exit_code = 0, er_stdout = ''1 failed in 0.1s'', er_stderr = [],
           er_duration = 0, er_timed_out = False\<rparr>;
       t = count_result ''t'' r empty_tally
   in ty_failed t = 1 \<and> ty_ok t"
  by code_simp

end
