(* ===== verification/Trace.thy ===== *)
theory Trace
  imports Interfaces
begin

section \<open>Local traces and tracing metadata\<close>

text \<open>
  Models \<open>agent/sweforge/observability/trace.py\<close> (redaction, trace events, the recorder) and
  \<open>agent/sweforge/observability/tracing.py\<close> (the LangSmith switch, node metadata, the context
  managers). The values that reach the trace are of type \<open>pyval\<close>: the JSON values of Python, tuples,
  and any other object as its class and its text. Dictionaries have string keys. Encoding an event
  (\<open>json.dumps\<close>) and appending a line to the trace file are parameters; both may fail. The lock makes
  a record one step.

  The lemmas show that what is recorded holds no value under a secret-looking key and no long text,
  at any depth, and that the events are numbered in order and never changed.
\<close>

subsection \<open>Values\<close>

datatype pyval =
    VNone | VBool bool | VInt int | VFloat rat | VStr string
  | VList "pyval list" | VTuple "pyval list" | VDict "(string \<times> pyval) list" | VObj string string

type_synonym kwargs = "(string, pyval) dict"

subsection \<open>Redaction\<close>

definition secret_key_hints :: "string list" where
  "secret_key_hints =
     [''key'', ''token'', ''secret'', ''password'', ''passwd'', ''credential'', ''authorization'',
      ''auth_header'']"

definition max_value_chars :: nat where
  "max_value_chars = 500"

definition redacted :: string where
  "redacted = ''<redacted>''"

definition looks_secret :: "string \<Rightarrow> bool" where
  "looks_secret name =
     (let lowered = py_lower name
      in if list_ex (\<lambda>s. ends_with s lowered) [''_configured'', ''_present'', ''_set''] then False
         else list_ex (\<lambda>h. contains h lowered) secret_key_hints)"

definition truncate :: "string \<Rightarrow> string" where
  "truncate s =
     (if max_value_chars < length s
      then take max_value_chars s @ ''... [truncated, '' @ show_nat (length s) @ '' chars]''
      else s)"

function redact :: "nat \<Rightarrow> pyval \<Rightarrow> pyval" where
  "redact d v =
     (if 6 < d then VStr ''<max-depth>''
      else (case v of
          VDict items \<Rightarrow>
            VDict (map (\<lambda>(k, x). (k, if looks_secret k then VStr redacted else redact (Suc d) x)) items)
        | VList vs \<Rightarrow> VList (map (redact (Suc d)) (take 50 vs))
        | VTuple vs \<Rightarrow> VList (map (redact (Suc d)) (take 50 vs))
        | VStr s \<Rightarrow> VStr (truncate s)
        | VObj c t \<Rightarrow> VStr (take max_value_chars t)
        | _ \<Rightarrow> v))"
  by pat_completeness auto
termination
  by (relation "measure (\<lambda>(d, v). 7 - d)") auto

declare redact.simps [simp del]

subsection \<open>What a recorded value may hold\<close>

text \<open>
  The specification of a recorded value is independent of the code's tables. \<open>names_secret k\<close>: some
  part of the lower-cased name is one of eight words and the name does not end like the name of a
  flag. \<open>neat p n v\<close>: no key that names a secret has a value other than the redaction mark, lists
  have at most 50 entries, texts satisfy \<open>p\<close>, no tuple and no foreign object occurs, and \<open>v\<close> nests
  at most \<open>n\<close> deep.
\<close>

definition names_secret :: "string \<Rightarrow> bool" where
  "names_secret k \<longleftrightarrow>
     (\<exists>u h v. py_lower k = u @ h @ v \<and>
        h \<in> {''key'', ''token'', ''secret'', ''password'', ''passwd'', ''credential'',
             ''authorization'', ''auth_header''}) \<and>
     \<not> (\<exists>u h. py_lower k = u @ h \<and> h \<in> {''_configured'', ''_present'', ''_set''})"

definition fits_trace :: "string \<Rightarrow> bool" where
  "fits_trace s \<longleftrightarrow> length s \<le> 500"

definition short_text :: "string \<Rightarrow> bool" where
  "short_text s \<longleftrightarrow>
     length s \<le> 500 \<or>
     (\<exists>t n. length t = 500 \<and> s = t @ ''... [truncated, '' @ show_nat n @ '' chars]'')"

fun neat :: "(string \<Rightarrow> bool) \<Rightarrow> nat \<Rightarrow> pyval \<Rightarrow> bool" where
  "neat p n (VStr s) = p s"
| "neat p n (VDict items) =
     (case n of 0 \<Rightarrow> False
      | Suc m \<Rightarrow> (\<forall>(k, x) \<in> set items. (names_secret k \<longrightarrow> x = VStr ''<redacted>'') \<and> neat p m x))"
| "neat p n (VList vs) =
     (case n of 0 \<Rightarrow> False | Suc m \<Rightarrow> length vs \<le> 50 \<and> (\<forall>x \<in> set vs. neat p m x))"
| "neat p n (VTuple vs) = False"
| "neat p n (VObj c t) = False"
| "neat p n v = True"

lemma looks_secret_iff: "looks_secret k \<longleftrightarrow> names_secret k"
proof -
  let ?hints = "{''key'', ''token'', ''secret'', ''password'', ''passwd'', ''credential'',
       ''authorization'', ''auth_header''}"
  let ?flags = "{''_configured'', ''_present'', ''_set''}"
  have hints: "list_ex p secret_key_hints \<longleftrightarrow> (\<exists>h \<in> ?hints. p h)" for p
    by (simp add: secret_key_hints_def)
  have flags: "list_ex p [''_configured'', ''_present'', ''_set''] \<longleftrightarrow> (\<exists>h \<in> ?flags. p h)" for p
    by simp
  have part: "(\<exists>h \<in> H. contains h l) \<longleftrightarrow> (\<exists>u h v. l = u @ h @ v \<and> h \<in> H)" for H l
    unfolding contains_iff by blast
  have ending: "(\<exists>h \<in> H. ends_with h l) \<longleftrightarrow> (\<exists>u h. l = u @ h \<and> h \<in> H)" for H l
    unfolding ends_with_iff by blast
  have gate: "(if a then False else b) \<longleftrightarrow> b \<and> \<not> a" for a b by simp
  show ?thesis
    unfolding looks_secret_def names_secret_def Let_def hints flags part ending
    by (simp only: gate)
qed

lemma short_truncate: "short_text (truncate s)"
proof (cases "length s \<le> 500")
  case False
  then have "length (take 500 s) = 500"
    "truncate s = take 500 s @ ''... [truncated, '' @ show_nat (length s) @ '' chars]''"
    by (simp_all add: truncate_def max_value_chars_def)
  then show ?thesis unfolding short_text_def by blast
qed (simp add: short_text_def truncate_def max_value_chars_def)

lemma short_marks: "short_text redacted" "short_text ''<max-depth>''"
  by (simp_all add: short_text_def redacted_def)

lemma short_take: "short_text (take max_value_chars s)"
  by (simp add: short_text_def max_value_chars_def)

lemma redact_neat: "neat short_text (7 - d) (redact d v)"
proof (induction d v rule: redact.induct)
  case (1 d v)
  show ?case
  proof (cases "6 < d")
    case True
    then show ?thesis by (subst redact.simps) (simp add: short_marks)
  next
    case False
    then have d: "7 - d = Suc (7 - Suc d)" by simp
    show ?thesis
    proof (cases v)
      case (VStr s)
      with False show ?thesis by (subst redact.simps) (simp add: short_truncate)
    next
      case (VObj c t)
      with False show ?thesis by (subst redact.simps) (simp add: short_take)
    next
      case (VList vs)
      with False d "1.IH" show ?thesis by (subst redact.simps) simp
    next
      case (VTuple vs)
      with False d "1.IH" show ?thesis by (subst redact.simps) simp
    next
      case (VDict items)
      with False d "1.IH" short_marks(1) show ?thesis
        by (subst redact.simps) (auto simp: looks_secret_iff redacted_def)
    qed (use False in \<open>subst redact.simps, simp\<close>)+
  qed
qed

text \<open>A value that fits already is recorded as it is.\<close>

lemma redact_fits: "neat fits_trace m v \<Longrightarrow> d + m \<le> 6 \<Longrightarrow> redact d v = v"
proof (induction fits_trace m v arbitrary: d rule: neat.induct)
  case (1 n s)
  then show ?case
    by (subst redact.simps) (simp add: fits_trace_def truncate_def max_value_chars_def)
next
  case (2 n items)
  then obtain m where n: "n = Suc m" by (cases n) auto
  have "(k, if looks_secret k then VStr redacted else redact (Suc d) x) = (k, x)"
    if "(k, x) \<in> set items" for k x
  proof -
    from that 2(2) n have "names_secret k \<longrightarrow> x = VStr ''<redacted>''" "neat fits_trace m x" by auto
    moreover from that 2(1) [OF n, of "(k, x)" k x "Suc d"] 2(3) n \<open>neat fits_trace m x\<close>
    have "redact (Suc d) x = x" by simp
    ultimately show ?thesis by (auto simp: looks_secret_iff redacted_def)
  qed
  then have "map (\<lambda>(k, x). (k, if looks_secret k then VStr redacted else redact (Suc d) x)) items = items"
    by (auto intro!: map_idI)
  with 2(3) n show ?case by (subst redact.simps) simp
next
  case (3 n vs)
  then obtain m where n: "n = Suc m" by (cases n) auto
  with 3 have "map (redact (Suc d)) vs = vs" by (auto intro!: map_idI)
  with 3(2,3) n show ?case by (subst redact.simps) simp
qed (subst redact.simps, simp)+

subsection \<open>Events\<close>

record event_fields =
  ef_node :: "string option"
  ef_agent :: "string option"
  ef_model :: "string option"
  ef_tier :: "string option"
  ef_tool :: "string option"
  ef_attempt :: "int option"
  ef_recovery_attempt :: "int option"
  ef_status :: "string option"
  ef_duration :: "rat option"
  ef_budget :: kwargs
  ef_risk_score :: "int option"
  ef_security_findings :: "int option"
  ef_final_status :: "string option"
  ef_detail :: kwargs

definition no_fields :: event_fields where
  "no_fields =
     \<lparr>ef_node = None, ef_agent = None, ef_model = None, ef_tier = None,
      ef_tool = None, ef_attempt = None, ef_recovery_attempt = None, ef_status = None,
      ef_duration = None, ef_budget = [], ef_risk_score = None, ef_security_findings = None,
      ef_final_status = None, ef_detail = []\<rparr>"

record trace_event =
  te_run_id :: string
  te_seq :: nat
  te_timestamp :: rat
  te_event :: string
  te_task_id :: "string option"
  te_fields :: event_fields

definition opt_val :: "('a \<Rightarrow> pyval) \<Rightarrow> 'a option \<Rightarrow> pyval" where
  "opt_val f x = (case x of None \<Rightarrow> VNone | Some y \<Rightarrow> f y)"

definition event_dict :: "trace_event \<Rightarrow> kwargs" where
  "event_dict e =
     (let f = te_fields e
      in filter (\<lambda>(k, v). v \<noteq> VNone \<and> v \<noteq> VDict [])
        [(''run_id'', VStr (te_run_id e)), (''seq'', VInt (int (te_seq e))),
         (''timestamp'', VFloat (py_round 6 (te_timestamp e))), (''event'', VStr (te_event e)),
         (''task_id'', opt_val VStr (te_task_id e)), (''node'', opt_val VStr (ef_node f)),
         (''agent'', opt_val VStr (ef_agent f)), (''model'', opt_val VStr (ef_model f)),
         (''tier'', opt_val VStr (ef_tier f)), (''tool'', opt_val VStr (ef_tool f)),
         (''attempt'', opt_val VInt (ef_attempt f)),
         (''recovery_attempt'', opt_val VInt (ef_recovery_attempt f)),
         (''status'', opt_val VStr (ef_status f)),
         (''duration_seconds'', opt_val VFloat (ef_duration f)),
         (''budget'', VDict (ef_budget f)), (''risk_score'', opt_val VInt (ef_risk_score f)),
         (''security_findings'', opt_val VInt (ef_security_findings f)),
         (''final_status'', opt_val VStr (ef_final_status f)), (''detail'', VDict (ef_detail f))])"

subsection \<open>The recorder\<close>

record recorder =
  tr_run_id :: string
  tr_task_id :: "string option"
  tr_enabled :: bool
  tr_has_path :: bool
  tr_events :: "trace_event list"
  tr_seq :: nat
  tr_started :: rat

definition new_recorder :: "string \<Rightarrow> string option \<Rightarrow> bool \<Rightarrow> bool \<Rightarrow> rat \<Rightarrow> recorder" where
  "new_recorder run_id task_id has_path enabled now =
     \<lparr>tr_run_id = run_id, tr_task_id = task_id, tr_enabled = enabled, tr_has_path = has_path,
      tr_events = [], tr_seq = 0, tr_started = now\<rparr>"

definition redact_dict :: "kwargs \<Rightarrow> kwargs" where
  "redact_dict d = (case redact 0 (VDict d) of VDict items \<Rightarrow> items | _ \<Rightarrow> [])"

definition put_event :: "trace_event \<Rightarrow> recorder \<Rightarrow> recorder" where
  "put_event e tr = tr\<lparr>tr_seq := te_seq e, tr_events := tr_events tr @ [e]\<rparr>"

definition new_event ::
  "rat \<Rightarrow> string \<Rightarrow> string option option \<Rightarrow> event_fields \<Rightarrow> recorder \<Rightarrow> trace_event" where
  "new_event now event task f tr =
     \<lparr>te_run_id = tr_run_id tr, te_seq = Suc (tr_seq tr), te_timestamp = now - tr_started tr,
      te_event = event, te_task_id = (case task of None \<Rightarrow> tr_task_id tr | Some t \<Rightarrow> t),
      te_fields = f\<lparr>ef_budget := redact_dict (ef_budget f), ef_detail := redact_dict (ef_detail f)\<rparr>\<rparr>"

text \<open>
  \<open>record_event\<close> is \<open>TraceRecorder.record\<close>. The event is in memory before its line is encoded and
  written, and an exception there only turns the answer into \<open>None\<close>.
\<close>

definition record_event ::
  "(kwargs \<Rightarrow> string result) \<Rightarrow> (string \<Rightarrow> ('w, unit) action) \<Rightarrow> rat \<Rightarrow> string \<Rightarrow> string option option
   \<Rightarrow> event_fields \<Rightarrow> recorder \<times> 'w \<Rightarrow> trace_event option \<times> recorder \<times> 'w" where
  "record_event dumps sink now event task f = (\<lambda>(tr, w).
     if \<not> tr_enabled tr then (None, tr, w)
     else let e = new_event now event task f tr; tr' = put_event e tr
          in if \<not> tr_has_path tr then (Some e, tr', w)
             else (case dumps (event_dict e) of
                 Inl x \<Rightarrow> (None, tr', w)
               | Inr line \<Rightarrow>
                   (case sink (line @ [newline]) w of
                      (Inl x, w') \<Rightarrow> (None, tr', w')
                    | (Inr u, w') \<Rightarrow> (Some e, tr', w'))))"

definition node_event :: "string \<Rightarrow> event_fields \<Rightarrow> event_fields" where
  "node_event name f = f\<lparr>ef_node := Some name\<rparr>"

definition tool_event :: "string \<Rightarrow> string \<Rightarrow> event_fields \<Rightarrow> event_fields" where
  "tool_event name status f = f\<lparr>ef_tool := Some name, ef_status := Some status\<rparr>"

definition model_event :: "string \<Rightarrow> string option \<Rightarrow> event_fields \<Rightarrow> event_fields" where
  "model_event model tier f = f\<lparr>ef_model := Some model, ef_tier := tier\<rparr>"

definition final_event :: "string \<Rightarrow> event_fields \<Rightarrow> event_fields" where
  "final_event status f = f\<lparr>ef_final_status := Some status\<rparr>"

definition to_jsonl :: "(kwargs \<Rightarrow> string) \<Rightarrow> recorder \<Rightarrow> string" where
  "to_jsonl dumps tr = join [newline] (map (\<lambda>e. dumps (event_dict e)) (tr_events tr))"

definition write_text :: "(kwargs \<Rightarrow> string) \<Rightarrow> recorder \<Rightarrow> string" where
  "write_text dumps tr = to_jsonl dumps tr @ (if tr_events tr \<noteq> [] then [newline] else [])"

record trace_summary =
  ts_run_id :: string
  ts_task_id :: "string option"
  ts_event_counts :: "(string, nat) dict"
  ts_total :: nat
  ts_nodes :: "string list"
  ts_tools :: "string list"
  ts_agents :: "string list"
  ts_final_status :: "string option"
  ts_wall_time :: rat

definition given :: "string option \<Rightarrow> string list" where
  "given x = (case x of None \<Rightarrow> [] | Some s \<Rightarrow> if s = [] then [] else [s])"

definition summarise_trace :: "recorder \<Rightarrow> trace_summary" where
  "summarise_trace tr =
     (let es = tr_events tr
      in \<lparr>ts_run_id = tr_run_id tr, ts_task_id = tr_task_id tr,
          ts_event_counts = foldl (\<lambda>d e. dict_bump (te_event e) d) [] es,
          ts_total = length es,
          ts_nodes = concat (map (\<lambda>e. given (ef_node (te_fields e)))
                       (filter (\<lambda>e. te_event e = ''node'') es)),
          ts_tools = concat (map (\<lambda>e. given (ef_tool (te_fields e)))
                       (filter (\<lambda>e. te_event e = ''tool'') es)),
          ts_agents = py_sorted (uniq (concat (map (\<lambda>e. given (ef_agent (te_fields e))) es))),
          ts_final_status =
            (case concat (map (\<lambda>e. given (ef_final_status (te_fields e))) (rev es)) of
               [] \<Rightarrow> None | s # _ \<Rightarrow> Some s),
          ts_wall_time = py_round 4 (if es = [] then 0 else te_timestamp (last es))\<rparr>)"

interpretation trace_log: event_log tr_events put_event
  by unfold_locales (simp add: put_event_def)

subsection \<open>What a run of records leaves behind\<close>

text \<open>A record that is asked for: its kind, an optional task, its fields, and the time.\<close>

type_synonym trace_request = "rat \<times> string \<times> string option option \<times> event_fields"

fun record_all ::
  "(kwargs \<Rightarrow> string result) \<Rightarrow> (string \<Rightarrow> ('w, unit) action) \<Rightarrow> trace_request list
   \<Rightarrow> recorder \<times> 'w \<Rightarrow> recorder \<times> 'w" where
  "record_all dumps sink [] s = s"
| "record_all dumps sink ((now, event, task, f) # rs) s =
     record_all dumps sink rs (snd (record_event dumps sink now event task f s))"

definition event_clean :: "trace_event \<Rightarrow> bool" where
  "event_clean e \<longleftrightarrow>
     neat short_text 7 (VDict (ef_budget (te_fields e))) \<and>
     neat short_text 7 (VDict (ef_detail (te_fields e)))"

text \<open>
  \<open>recorded_as now0 task0 r e\<close>: the event \<open>e\<close> reports the request \<open>r\<close> on a recorder that started at
  \<open>now0\<close> for the task \<open>task0\<close>. All fields are those of the request, apart from the values in the
  budget and the detail; these have the same keys, and are unchanged where nothing needs redaction.
\<close>

definition shown_as :: "kwargs \<Rightarrow> kwargs \<Rightarrow> bool" where
  "shown_as d d' \<longleftrightarrow>
     map fst d' = map fst d \<and> (neat fits_trace 6 (VDict d) \<longrightarrow> d' = d)"

definition recorded_as :: "rat \<Rightarrow> string option \<Rightarrow> trace_request \<Rightarrow> trace_event \<Rightarrow> bool" where
  "recorded_as now0 task0 r e \<longleftrightarrow>
     (case r of (now, event, task, f) \<Rightarrow>
        te_event e = event \<and> te_timestamp e = now - now0 \<and>
        te_task_id e = (case task of None \<Rightarrow> task0 | Some t \<Rightarrow> t) \<and>
        shown_as (ef_budget f) (ef_budget (te_fields e)) \<and>
        shown_as (ef_detail f) (ef_detail (te_fields e)) \<and>
        te_fields e = f\<lparr>ef_budget := ef_budget (te_fields e), ef_detail := ef_detail (te_fields e)\<rparr>)"

definition trace_ok :: "recorder \<Rightarrow> bool" where
  "trace_ok tr \<longleftrightarrow>
     (\<forall>e \<in> set (tr_events tr). event_clean e) \<and>
     map te_seq (tr_events tr) = [1..<Suc (length (tr_events tr))] \<and>
     tr_seq tr = length (tr_events tr)"

lemma redact_dict_eq: "redact 0 (VDict d) = VDict (redact_dict d)"
  unfolding redact_dict_def by (subst (1 2) redact.simps) simp

lemma redact_dict_clean: "neat short_text 7 (VDict (redact_dict d))"
  using redact_neat [of 0 "VDict d"] by (simp add: redact_dict_eq del: neat.simps)

lemma redact_dict_shown: "shown_as d (redact_dict d)"
proof -
  have "VDict (redact_dict d) = VDict d" if "neat fits_trace 6 (VDict d)"
    using redact_fits [OF that, of 0] by (simp only: redact_dict_eq)
  moreover have "map fst (redact_dict d) = map fst d"
    unfolding redact_dict_def by (subst redact.simps) (auto simp: comp_def split_def)
  ultimately show ?thesis by (simp add: shown_as_def del: neat.simps)
qed

lemma new_event_recorded:
  "recorded_as (tr_started tr) (tr_task_id tr) (now, event, task, f) (new_event now event task f tr)"
  by (simp add: recorded_as_def new_event_def redact_dict_shown)

lemma record_event_state:
  "fst (snd (record_event dumps sink now event task f (tr, w))) =
     (if tr_enabled tr then put_event (new_event now event task f tr) tr else tr)"
  by (simp add: record_event_def Let_def split: sum.split prod.split)

lemma put_new_ok: "trace_ok tr \<Longrightarrow> trace_ok (put_event (new_event now event task f tr) tr)"
  by (auto simp: trace_ok_def put_event_def new_event_def event_clean_def redact_dict_clean
      simp del: neat.simps)

lemma record_event_ok:
  "trace_ok tr \<Longrightarrow> trace_ok (fst (snd (record_event dumps sink now event task f (tr, w))))"
  by (simp add: record_event_state put_new_ok)

lemma record_event_enabled:
  "tr_enabled (fst (snd (record_event dumps sink now event task f (tr, w)))) = tr_enabled tr"
  by (simp add: record_event_state put_event_def)

lemma record_all_result:
  assumes "trace_ok (fst s)" "tr_enabled (fst s)" "tr_started (fst s) = now0" "tr_task_id (fst s) = task0"
  shows "trace_ok (fst (record_all dumps sink rs s)) \<and>
    (\<exists>es. tr_events (fst (record_all dumps sink rs s)) = tr_events (fst s) @ es \<and>
      list_all2 (recorded_as now0 task0) rs es \<and> (\<forall>e \<in> set es. te_run_id e = tr_run_id (fst s)))"
  using assms
proof (induction rs arbitrary: s)
  case (Cons r rs)
  obtain now event task f where r: "r = (now, event, task, f)" by (cases r) auto
  obtain tr w where s: "s = (tr, w)" by fastforce
  define s' where "s' = snd (record_event dumps sink now event task f s)"
  define e where "e = new_event now event task f tr"
  have st: "fst s' = put_event e tr"
    using Cons.prems(2) by (simp add: s'_def s e_def record_event_state)
  have ok: "trace_ok (fst s')" using Cons.prems(1) by (simp add: s'_def s record_event_ok)
  have rec: "recorded_as now0 task0 r e"
    using new_event_recorded [of tr now event task f] Cons.prems(3,4) by (simp add: r e_def s)
  have kept: "tr_enabled (fst s')" "tr_started (fst s') = now0" "tr_task_id (fst s') = task0"
      "tr_run_id (fst s') = tr_run_id tr" "te_run_id e = tr_run_id tr"
    using Cons.prems by (simp_all add: st put_event_def s e_def new_event_def)
  from Cons.IH [OF ok kept(1-3)] obtain es where es:
    "tr_events (fst (record_all dumps sink rs s')) = tr_events (fst s') @ es"
    "list_all2 (recorded_as now0 task0) rs es" "\<forall>e \<in> set es. te_run_id e = tr_run_id tr"
    "trace_ok (fst (record_all dumps sink rs s'))"
    using kept(4) by auto
  have "record_all dumps sink (r # rs) s = record_all dumps sink rs s'" by (simp add: r s'_def)
  moreover have "tr_events (fst s') = tr_events (fst s) @ [e]"
    by (simp add: st s trace_log.entries_put)
  ultimately show ?case
    using es rec kept(5) by (intro conjI exI [of _ "e # es"]) (simp_all add: s)
qed simp


text \<open>
  The key test works on parts of a name, so the token counters of a budget snapshot are redacted
  too, in every trace event of a node.
\<close>

lemma budget_counters_redacted:
  "list_all looks_secret [''input_tokens_used'', ''output_tokens_used'']"
  by code_simp

text \<open>A secret in a text is recorded as it is, when no key names it.\<close>

lemma secret_in_text_recorded:
  "redact 0 (VDict [(''args'', VDict [(''files'', VDict [(''.env'', VStr ''API_KEY=s3cret'')])])])
   = VDict [(''args'', VDict [(''files'', VDict [(''.env'', VStr ''API_KEY=s3cret'')])])]"
  by code_simp

subsection \<open>LangSmith\<close>

type_synonym env = "(string, string) dict"

definition tracing_env_vars :: "string list" where
  "tracing_env_vars = [''LANGSMITH_TRACING'', ''LANGCHAIN_TRACING_V2'']"

definition api_key_env_vars :: "string list" where
  "api_key_env_vars = [''LANGSMITH_API_KEY'', ''LANGCHAIN_API_KEY'']"

definition tracing_enabled :: "env \<Rightarrow> bool" where
  "tracing_enabled env =
     (list_ex (\<lambda>v. py_lower (strip (dict_get env v [])) \<in> {''1'', ''true'', ''yes''}) tracing_env_vars
      \<and> list_ex (\<lambda>v. dict_get env v [] \<noteq> []) api_key_env_vars)"

definition project_name :: "env \<Rightarrow> string" where
  "project_name env =
     (if dict_get env ''LANGSMITH_PROJECT'' [] \<noteq> [] then dict_get env ''LANGSMITH_PROJECT'' []
      else if dict_get env ''LANGCHAIN_PROJECT'' [] \<noteq> [] then dict_get env ''LANGCHAIN_PROJECT'' []
      else ''sweforge'')"

definition metadata_looks_secret :: "string \<Rightarrow> bool" where
  "metadata_looks_secret name =
     list_ex (\<lambda>h. contains h (py_lower name))
       [''key'', ''token'', ''secret'', ''password'', ''credential'', ''authorization'']"

definition node_metadata :: "kwargs \<Rightarrow> kwargs" where
  "node_metadata flds =
     map (\<lambda>(k, v). (''sweforge.'' @ k, v))
       (filter (\<lambda>(k, v). v \<noteq> VNone \<and> \<not> metadata_looks_secret k) flds)"

definition run_metadata :: "string \<Rightarrow> string \<Rightarrow> kwargs \<Rightarrow> kwargs" where
  "run_metadata variant repository extra =
     foldl (\<lambda>d (k, v). dict_set (''sweforge.'' @ k) v d)
       [(''sweforge.variant'', VStr variant), (''sweforge.repository'', VStr repository)] extra"

definition describe_configuration :: "env \<Rightarrow> kwargs" where
  "describe_configuration env =
     [(''enabled'', VBool (tracing_enabled env)), (''project'', VStr (project_name env)),
      (''api_key_configured'', VBool (list_ex (\<lambda>v. dict_get env v [] \<noteq> []) api_key_env_vars)),
      (''endpoint'', VStr (dict_get env ''LANGSMITH_ENDPOINT'' ''default''))]"

text \<open>
  \<open>trace_run\<close> and \<open>trace_node\<close> are generators under \<open>contextlib.contextmanager\<close>. \<open>traced\<close> gives the
  outcome of a \<open>with\<close> statement over them: \<open>enter\<close> and \<open>leave\<close> are the outcomes of importing and
  entering, and of leaving, the context of LangSmith, and \<open>body\<close> is that of the statement. An
  exception in the body is thrown into the generator at its first \<open>yield\<close>, inside the \<open>try\<close>, where
  the handler yields a second time; \<open>contextlib\<close> answers a generator that does not stop with a
  \<open>RuntimeError\<close>.
\<close>

definition traced :: "env \<Rightarrow> unit result \<Rightarrow> unit result \<Rightarrow> 'a result \<Rightarrow> 'a result" where
  "traced env enter leave body =
     (if \<not> tracing_enabled env \<or> isl enter then body
      else (case body of
          Inl e \<Rightarrow> Inl (Raised ''RuntimeError'' (''generator didn'' @ [CHR 0x27] @ ''t stop after throw()''))
        | Inr x \<Rightarrow>
            (case leave of
               Inl e \<Rightarrow> Inl (Raised ''RuntimeError'' (''generator didn'' @ [CHR 0x27] @ ''t stop''))
             | Inr u \<Rightarrow> Inr x)))"

text \<open>
  Tracing never changes what a successful run returns, and metadata carries no key-like field:
  without a switch or without a key the run is untouched, with both a result is passed on unless
  leaving the context fails, and every metadata field of a node comes from a field that has a value
  and no key-like name.
\<close>

theorem tracing_is_optional:
  "(\<not> tracing_enabled env \<longrightarrow> traced env enter leave body = body) \<and>
   (\<not> isl body \<and> \<not> isl leave \<longrightarrow> traced env enter leave body = body) \<and>
   (\<forall>(k, v) \<in> set (node_metadata flds). v \<noteq> VNone \<and>
      (\<exists>name. k = ''sweforge.'' @ name \<and> (name, v) \<in> set flds \<and> \<not> metadata_looks_secret name))"
  by (auto simp: traced_def node_metadata_def split: sum.split)

definition tracing_env :: env where
  "tracing_env = [(''LANGSMITH_TRACING'', ''true''), (''LANGSMITH_API_KEY'', ''k'')]"

theorem tracing_is_optional_witness:
  "traced [] (Inr ()) (Inr ()) (Inr ''ok'') = Inr ''ok'' \<and>
   traced tracing_env (Inr ()) (Inr ()) (Inr ''ok'') = Inr ''ok'' \<and>
   node_metadata [(''node'', VStr ''n''), (''api_key'', VStr ''k'')] = [(''sweforge.node'', VStr ''n'')]"
proof -
  have off: "\<not> tracing_enabled []" by code_simp
  have meta: "node_metadata [(''node'', VStr ''n''), (''api_key'', VStr ''k'')] =
      [(''sweforge.node'', VStr ''n'')]" by code_simp
  from tracing_is_optional [of "[]" "Inr ()" "Inr ()" "Inr ''ok''" "[]"] off
    tracing_is_optional [of tracing_env "Inr ()" "Inr ()" "Inr ''ok''" "[]"] meta
  show ?thesis by simp
qed

text \<open>
  With tracing on, an error of the task is replaced: the caller sees a \<open>RuntimeError\<close> of \<open>contextlib\<close>
  instead of the exception that the body raised, and a context that fails on leaving fails the run.
\<close>

lemma tracing_replaces_error:
  "traced tracing_env (Inr ()) leave (Inl (Raised ''ValueError'' ''boom'') :: string result)
     = Inl (Raised ''RuntimeError'' (''generator didn'' @ [CHR 0x27] @ ''t stop after throw()'')) \<and>
   isl (traced tracing_env (Inr ()) (Inl e) (Inr ''ok''))"
proof -
  have "tracing_enabled tracing_env" by code_simp
  then show ?thesis by (simp add: traced_def)
qed

text \<open>The metadata filter drops the fields whose name ends in \<open>_configured\<close> as well.\<close>

lemma configured_flag_dropped:
  "node_metadata [(''api_key_configured'', VBool True)] = [] \<and> \<not> looks_secret ''api_key_configured''"
  by code_simp

end
