(* ===== verification/Tool_Loop.thy ===== *)
theory Tool_Loop
  imports Budget Model_Router Tool_Errors Trace
begin

section \<open>The tool-calling loop\<close>

text \<open>
  Models \<open>agent/sweforge/agents/tool_loop.py\<close>: running one tool under the error policy, the
  conversation with the model that has tools bound, and the final structured answer. The model and
  the tools are parameters on a world \<open>'w\<close>: \<open>te_chat\<close> answers a conversation, \<open>te_extract\<close> gives the
  structured output, \<open>te_invoke\<close> runs a tool, \<open>te_usage\<close> reads \<open>last_usage\<close>, \<open>te_attribute\<close> sets the
  attribution of the shared tool context, \<open>te_now\<close> is the clock; each call may raise.

  The retry loop of a tool is \<open>retry_from\<close> of the interfaces; its interpretation shows that it always
  returns and logs one entry for each attempt. The lemmas show that the loop is bounded, that the
  budget is checked before every call, and which tool calls get an answer.
\<close>

subsection \<open>State and environment\<close>

record tool_request =
  tq_name :: string
  tq_id :: "string option"
  tq_args :: kwargs

datatype message =
    Prompt string
  | AiMessage string "tool_request list"
  | ToolMessage (tm_content: string) (tm_call_id: string)

record tool_invocation =
  ti_tool :: string
  ti_status :: string
  ti_attempt :: nat
  ti_action :: tool_action
  ti_node :: string
  ti_agent :: string

record loop_config =
  lc_node :: string
  lc_agent :: string
  lc_policy :: tool_policy
  lc_max_iterations :: nat

definition default_iterations :: nat where
  "default_iterations = 4"

definition new_loop :: "string \<Rightarrow> string \<Rightarrow> loop_config" where
  "new_loop node agent =
     \<lparr>lc_node = node, lc_agent = agent, lc_policy = default_tool_policy,
      lc_max_iterations = default_iterations\<rparr>"

record 'w loop_state =
  ls_router :: router
  ls_budget :: "budget option"
  ls_invocations :: "tool_invocation list"
  ls_iterations :: nat
  ls_tool_phase :: bool
  ls_conversation :: "message list"
  ls_world :: 'w

record reply =
  re_text :: string
  re_calls :: "tool_request list"
  re_is_ai :: bool

record ('w, 'o) loop_env =
  le_tools :: "string list"
  le_bind :: "unit result option"
  le_chat :: "message list \<Rightarrow> ('w, reply) action"
  le_extract :: "message list \<Rightarrow> ('w, 'o) action"
  le_invoke :: "string \<Rightarrow> kwargs \<Rightarrow> ('w, payload) action"
  le_usage :: "'w \<Rightarrow> int option \<times> int option"
  le_attribute :: "string \<Rightarrow> string \<Rightarrow> 'w \<Rightarrow> 'w"
  le_now :: "'w \<Rightarrow> rat"

subsection \<open>Running one tool\<close>

datatype tool_outcome = Failed tool_classification string | Succeeded string

definition status_of :: "tool_outcome \<Rightarrow> string" where
  "status_of r = (case r of Failed c t \<Rightarrow> category_text (tc_category c) | Succeeded t \<Rightarrow> ''ok'')"

definition outcome_action :: "tool_policy \<Rightarrow> tool_outcome \<Rightarrow> nat \<Rightarrow> tool_action" where
  "outcome_action p r n = (case r of Failed c t \<Rightarrow> td_action (decide p c n) | Succeeded t \<Rightarrow> ActNone)"

definition tool_outcome_of :: "payload result \<Rightarrow> tool_outcome" where
  "tool_outcome_of out =
     (case out of
        Inl e \<Rightarrow>
          (let c = classify_exception e
           in Failed c (''TOOL ERROR ('' @ category_text (tc_category c) @ ''): '' @ tc_message c))
      | Inr (PDict (Some False) err s) \<Rightarrow>
          Failed (classify_payload (PDict (Some False) err s)) s
      | Inr p \<Rightarrow> Succeeded (take 4000 (p_repr p)))"

definition invocation :: "loop_config \<Rightarrow> string \<Rightarrow> tool_outcome \<Rightarrow> nat \<Rightarrow> tool_invocation" where
  "invocation cfg name r n =
     \<lparr>ti_tool = name, ti_status = status_of r, ti_attempt = n,
      ti_action = outcome_action (lc_policy cfg) r n, ti_node = lc_node cfg, ti_agent = lc_agent cfg\<rparr>"

definition attempt_tool ::
  "loop_config \<Rightarrow> (kwargs \<Rightarrow> ('w, payload) action) \<Rightarrow> string \<Rightarrow> kwargs \<Rightarrow> nat \<Rightarrow> 'w loop_state
   \<Rightarrow> tool_outcome \<times> 'w loop_state" where
  "attempt_tool cfg invoke name args n s =
     (case invoke args (ls_world s) of
        (out, w) \<Rightarrow>
          (let r = tool_outcome_of out
           in (r, s\<lparr>ls_invocations := ls_invocations s @ [invocation cfg name r n], ls_world := w\<rparr>)))"

definition retry_tool :: "loop_config \<Rightarrow> tool_outcome \<Rightarrow> nat \<Rightarrow> bool" where
  "retry_tool cfg r n = (outcome_action (lc_policy cfg) r n = Retry)"

definition outcome_text :: "tool_outcome \<Rightarrow> string" where
  "outcome_text r = (case r of Failed c t \<Rightarrow> t | Succeeded t \<Rightarrow> t)"

definition succeeded :: "tool_outcome \<Rightarrow> bool" where
  "succeeded r = (case r of Failed c t \<Rightarrow> False | Succeeded t \<Rightarrow> True)"

text \<open>
  \<open>run_tool\<close> is \<open>_run_tool\<close>. The loop always returns (\<open>tool_retry.returns\<close> below), so \<open>the\<close> is total
  here.
\<close>

definition run_tool ::
  "loop_config \<Rightarrow> (kwargs \<Rightarrow> ('w, payload) action) \<Rightarrow> string \<Rightarrow> kwargs \<Rightarrow> 'w loop_state
   \<Rightarrow> (string \<times> bool) \<times> 'w loop_state" where
  "run_tool cfg invoke name args s =
     (case the (retry_from (attempt_tool cfg invoke name args) (retry_tool cfg) 1 s) of
        (r, n, s') \<Rightarrow> ((outcome_text r, succeeded r), s'))"

interpretation tool_retry: logged_retry
  "attempt_tool cfg invoke name args" "retry_tool cfg" "tp_max_retries (lc_policy cfg)"
  ls_invocations "invocation cfg name" for cfg invoke name args
proof unfold_locales
  show "retry_tool cfg r n \<Longrightarrow> n \<le> tp_max_retries (lc_policy cfg)" for r n
    by (cases r) (auto simp: retry_tool_def outcome_action_def decide_Retry)
  show "attempt_tool cfg invoke name args n s = (r, s') \<Longrightarrow>
      ls_invocations s' = ls_invocations s @ [invocation cfg name r n]" for n s r s'
    by (auto simp: attempt_tool_def Let_def split: prod.splits)
qed

subsection \<open>Budget and ledger\<close>

definition with_budget ::
  "(budget \<Rightarrow> 'a result \<times> budget) \<Rightarrow> 'a \<Rightarrow> ('w loop_state, 'a) action" where
  "with_budget check x s =
     (case ls_budget s of
        None \<Rightarrow> (Inr x, s)
      | Some b \<Rightarrow> (case check b of (r, b') \<Rightarrow> (r, s\<lparr>ls_budget := Some b'\<rparr>)))"

definition consume_in :: "(budget \<Rightarrow> budget) \<Rightarrow> 'w loop_state \<Rightarrow> 'w loop_state" where
  "consume_in f s = s\<lparr>ls_budget := map_option f (ls_budget s)\<rparr>"

text \<open>
  \<open>tracked\<close> is a call of the model inside \<open>router.track\<close>; the usage is read only after the call
  returned.
\<close>

definition tracked ::
  "('w, 'o) loop_env \<Rightarrow> string \<Rightarrow> model_spec \<Rightarrow> ('w, 'a) action \<Rightarrow> ('w loop_state, 'a) action" where
  "tracked env node spec call s =
     (case call (ls_world s) of
        (out, w) \<Rightarrow>
          (let usage = (if isl out then (None, None) else le_usage env w);
               r = snd (track node spec usage (le_now env w - le_now env (ls_world s)) out (ls_router s))
           in (out, s\<lparr>ls_router := r, ls_world := w\<rparr>)))"

definition say :: "message \<Rightarrow> 'w loop_state \<Rightarrow> 'w loop_state" where
  "say m s = s\<lparr>ls_conversation := ls_conversation s @ [m]\<rparr>"

subsection \<open>The conversation\<close>

definition call_id :: "tool_request \<Rightarrow> string" where
  "call_id c = (case tq_id c of None \<Rightarrow> tq_name c | Some i \<Rightarrow> if i = [] then tq_name c else i)"

fun answer_calls ::
  "loop_config \<Rightarrow> ('w, 'o) loop_env \<Rightarrow> tool_request list \<Rightarrow> 'w loop_state \<Rightarrow> 'w loop_state" where
  "answer_calls cfg env [] s = s"
| "answer_calls cfg env (c # cs) s0 =
     (let s = s0\<lparr>ls_world := le_attribute env (lc_agent cfg) (lc_node cfg) (ls_world s0)\<rparr>
      in if tq_name c \<notin> set (le_tools env)
         then answer_calls cfg env cs
                (say (ToolMessage (''TOOL ERROR (not_found): no tool named '' @ quoted (tq_name c))
                        (call_id c)) s)
         else
           (case with_budget (check_tool_call (le_now env (ls_world s)) 1) () s of
              (Inl e, s1) \<Rightarrow> say (ToolMessage (''TOOL BUDGET EXHAUSTED: '' @ exn_str e) (call_id c)) s1
            | (Inr u, s1) \<Rightarrow>
                (case run_tool cfg (le_invoke env (tq_name c)) (tq_name c) (tq_args c)
                        (consume_in (consume_tool_call 1) s1) of
                   ((content, good), s2) \<Rightarrow>
                     answer_calls cfg env cs (say (ToolMessage content (call_id c)) s2))))"

fun tool_rounds ::
  "loop_config \<Rightarrow> ('w, 'o) loop_env \<Rightarrow> model_spec \<Rightarrow> nat \<Rightarrow> ('w loop_state, unit) action" where
  "tool_rounds cfg env spec 0 s = (Inr (), s)"
| "tool_rounds cfg env spec (Suc k) s =
     (case with_budget (check_model_call (le_now env (ls_world s)) 1) () s of
        (Inl e, s1) \<Rightarrow> (Inr (), s1)
      | (Inr u, s1) \<Rightarrow>
          (case tracked env (lc_node cfg) spec (le_chat env (ls_conversation s1)) s1 of
             (Inl e, s2) \<Rightarrow> (Inl e, s2)
           | (Inr r, s2) \<Rightarrow>
               (let s3 = consume_in (consume_model_call 0 0 0)
                           (s2\<lparr>ls_iterations := Suc (ls_iterations s2)\<rparr>);
                    m = AiMessage (re_text r) (re_calls r)
                in if re_calls r = [] then (Inr (), if re_is_ai r then say m s3 else s3)
                   else tool_rounds cfg env spec k (answer_calls cfg env (re_calls r) (say m s3)))))"

text \<open>
  \<open>bind_tools\<close> is \<open>_bind\<close> with its guard: no tools or no method mean no tool phase, and so does a
  model that refuses.
\<close>

definition bind_tools :: "('w, 'o) loop_env \<Rightarrow> bool result" where
  "bind_tools env =
     (if le_tools env = [] then Inr False
      else (case le_bind env of
          None \<Rightarrow> Inr False
        | Some (Inr u) \<Rightarrow> Inr True
        | Some (Inl e) \<Rightarrow>
            if exn_class e \<in> {''NotImplementedError'', ''TypeError'', ''AttributeError''}
            then Inr False else Inl e))"

definition extraction ::
  "loop_config \<Rightarrow> ('w, 'o) loop_env \<Rightarrow> model_spec \<Rightarrow> ('w loop_state, 'o) action" where
  "extraction cfg env spec s =
     and_then (\<lambda>s. with_budget (check_model_call (le_now env (ls_world s)) 1) () s)
       (\<lambda>_ s1. and_then (tracked env (lc_node cfg) spec (le_extract env (ls_conversation s1)))
         (\<lambda>out s2. (Inr out, consume_in (consume_model_call 0 0 0) s2)) s1) s"

definition run_loop ::
  "loop_config \<Rightarrow> ('w, 'o) loop_env \<Rightarrow> ('w, unit) action \<Rightarrow> model_spec \<Rightarrow> message list
   \<Rightarrow> ('w loop_state, 'o) action" where
  "run_loop cfg env build spec messages s =
     (case build (ls_world s) of
        (Inl e, w) \<Rightarrow> (Inl e, s\<lparr>ls_world := w\<rparr>)
      | (Inr u, w) \<Rightarrow>
          (let s1 = s\<lparr>ls_world := w, ls_conversation := messages\<rparr>
           in (case bind_tools env of
                 Inl e \<Rightarrow> (Inl e, s1)
               | Inr bound \<Rightarrow>
                   and_then
                     (\<lambda>s. if bound then tool_rounds cfg env spec (lc_max_iterations cfg) s else (Inr (), s))
                     (\<lambda>_. extraction cfg env spec) (s1\<lparr>ls_tool_phase := bound\<rparr>))))"

subsection \<open>One tool call\<close>

lemma run_tool_returns:
  obtains r m s' where
    "retry_from (attempt_tool cfg invoke name args) (retry_tool cfg) 1 s = Some (r, m, s')"
    "run_tool cfg invoke name args s = ((outcome_text r, succeeded r), s')"
  using tool_retry.returns [of cfg invoke name args 1 s] by (auto simp: run_tool_def)

definition talk_state ::
  "'w loop_state \<Rightarrow> router \<times> budget option \<times> nat \<times> bool \<times> message list" where
  "talk_state s = (ls_router s, ls_budget s, ls_iterations s, ls_tool_phase s, ls_conversation s)"

lemma run_tool_keeps: "talk_state (snd (run_tool cfg invoke name args s)) = talk_state s"
proof -
  obtain r m s' where
    "retry_from (attempt_tool cfg invoke name args) (retry_tool cfg) 1 s = Some (r, m, s')"
    "run_tool cfg invoke name args s = ((outcome_text r, succeeded r), s')"
    by (rule run_tool_returns)
  moreover from this(1) have "talk_state s' = talk_state s"
  proof (rule tool_retry.preserves)
    show "attempt_tool cfg invoke name args n t = (q, t') \<Longrightarrow> talk_state t = talk_state s \<Longrightarrow>
        talk_state t' = talk_state s" for n t q t'
      by (auto simp: attempt_tool_def talk_state_def Let_def split: prod.splits)
  qed simp
  ultimately show ?thesis by simp
qed

lemma category_not_ok: "category_text c \<noteq> ''ok''"
  by (cases c) simp_all

lemma status_ok: "status_of r = ''ok'' \<longleftrightarrow> succeeded r"
  by (cases r) (simp_all add: status_of_def succeeded_def category_not_ok)

text \<open>
  A tool call returns after at most one attempt more than the policy allows retries, whatever
  the tool does, and logs every attempt: they are numbered from 1, every attempt but the last was
  answered by a retry and the last was not, and the call counts as good exactly when the last attempt
  is logged as ok. Router, budget and conversation are untouched.
\<close>

theorem tool_call_is_bounded_and_logged:
  "\<exists>es e. ls_invocations (snd (run_tool cfg invoke name args s)) = ls_invocations s @ es @ [e] \<and>
     length es \<le> tp_max_retries (lc_policy cfg) \<and>
     map ti_attempt (es @ [e]) = [1..<Suc (Suc (length es))] \<and>
     list_all (\<lambda>x. ti_action x = Retry) es \<and> ti_action e \<noteq> Retry \<and>
     (snd (fst (run_tool cfg invoke name args s)) \<longleftrightarrow> ti_status e = ''ok'') \<and>
     talk_state (snd (run_tool cfg invoke name args s)) = talk_state s"
proof -
  obtain r m s' where
    run: "retry_from (attempt_tool cfg invoke name args) (retry_tool cfg) 1 s = Some (r, m, s')" and
    res: "run_tool cfg invoke name args s = ((outcome_text r, succeeded r), s')"
    by (rule run_tool_returns)
  from tool_retry.log_result [OF run] obtain rs where
    log: "ls_invocations s' = ls_invocations s @ map2 (invocation cfg name) (rs @ [r]) [1..<Suc m]" and
    len: "1 + length rs = m" and again: "\<forall>(q, i) \<in> set (zip rs [1..<m]). retry_tool cfg q i"
    by blast
  from tool_retry.result [OF run] have m: "m \<le> Suc (tp_max_retries (lc_policy cfg))"
    "\<not> retry_tool cfg r m" by auto
  define es where "es = map2 (invocation cfg name) rs [1..<m]"
  have up: "[1..<Suc m] = [1..<m] @ [m]" using len by simp
  have "ls_invocations s' = ls_invocations s @ es @ [invocation cfg name r m]"
    using log len by (simp add: up es_def)
  moreover have les: "length es = length rs" using len by (simp add: es_def)
  moreover have "map ti_attempt es = [1..<m]"
    using len by (simp add: es_def case_prod_unfold invocation_def comp_def flip: snd_def)
  moreover have "list_all (\<lambda>x. ti_action x = Retry) es"
    using again by (auto simp: es_def list_all_iff invocation_def retry_tool_def)
  ultimately show ?thesis
    using m len run_tool_keeps [of cfg invoke name args s]
    by (intro exI [of _ es] exI [of _ "invocation cfg name r m"])
      (simp add: res invocation_def retry_tool_def status_ok)
qed

subsection \<open>The whole loop\<close>

text \<open>
  \<open>spends s s'\<close>: what the loop did to the budget is a sequence of the abstract steps of the budget,
  where every call is behind its check.
\<close>

definition spends :: "'w loop_state \<Rightarrow> 'w loop_state \<Rightarrow> bool" where
  "spends s s' \<longleftrightarrow> (\<exists>es. ls_budget s' = map_option (fold budget_step es) (ls_budget s))"

lemma spends_refl: "ls_budget s' = ls_budget s \<Longrightarrow> spends s s'"
  unfolding spends_def by (intro exI [of _ "[]"]) (simp add: option.map_id)

lemma spends_step: "ls_budget s' = map_option (budget_step e) (ls_budget s) \<Longrightarrow> spends s s'"
  unfolding spends_def by (intro exI [of _ "[e]"]) simp

lemma spends_trans: "spends s t \<Longrightarrow> spends t u \<Longrightarrow> spends s u"
  unfolding spends_def by (metis fold_append option.map_comp)

lemma model_check_cases:
  assumes "with_budget (check_model_call now 1) () s = (q, s1)"
  obtains (refused) e where "q = Inl e" "s1 = s\<lparr>ls_budget := ls_budget s1\<rparr>" "spends s s1"
  | (admitted) "q = Inr ()" "s1 = s"
    "\<And>s2. ls_budget s2 = map_option (consume_model_call 0 0 0) (ls_budget s) \<Longrightarrow> spends s s2"
proof (cases "ls_budget s")
  case None
  with assms show ?thesis by (intro admitted) (auto simp: with_budget_def intro: spends_refl)
next
  case (Some b)
  obtain r b' where c: "check_model_call now 1 b = (r, b')" by fastforce
  show ?thesis
  proof (cases r)
    case (Inl e)
    have "spends s (s\<lparr>ls_budget := Some b'\<rparr>)"
      by (rule spends_step [of _ "DoModel now 0 0 0"]) (simp add: Some c Inl)
    with assms Some c Inl show ?thesis by (intro refused [of e]) (auto simp: with_budget_def)
  next
    case (Inr u)
    with c check_accepts [OF check_like_model, of now 1 b u b'] have b: "b' = b" by simp
    show ?thesis
    proof (rule admitted)
      show "q = Inr ()" using assms Some c Inr by (simp add: with_budget_def)
      show "s1 = s" using assms Some c Inr b by (auto simp: with_budget_def)
      fix s2 :: "'a loop_state"
      assume "ls_budget s2 = map_option (consume_model_call 0 0 0) (ls_budget s)"
      then show "spends s s2"
        by (intro spends_step [of _ "DoModel now 0 0 0"]) (simp add: Some c Inr b)
    qed
  qed
qed

lemma tool_check_cases:
  assumes "with_budget (check_tool_call now 1) () s = (q, s1)"
  obtains (refused) e where "q = Inl e" "s1 = s\<lparr>ls_budget := ls_budget s1\<rparr>" "spends s s1"
  | (admitted) "q = Inr ()" "s1 = s"
    "\<And>s2. ls_budget s2 = map_option (consume_tool_call 1) (ls_budget s) \<Longrightarrow> spends s s2"
proof (cases "ls_budget s")
  case None
  with assms show ?thesis by (intro admitted) (auto simp: with_budget_def intro: spends_refl)
next
  case (Some b)
  obtain r b' where c: "check_tool_call now 1 b = (r, b')" by fastforce
  show ?thesis
  proof (cases r)
    case (Inl e)
    have "spends s (s\<lparr>ls_budget := Some b'\<rparr>)"
      by (rule spends_step [of _ "DoTool now"]) (simp add: Some c Inl)
    with assms Some c Inl show ?thesis by (intro refused [of e]) (auto simp: with_budget_def)
  next
    case (Inr u)
    with c check_accepts [OF check_like_tool, of now 1 b u b'] have b: "b' = b" by simp
    show ?thesis
    proof (rule admitted)
      show "q = Inr ()" using assms Some c Inr by (simp add: with_budget_def)
      show "s1 = s" using assms Some c Inr b by (auto simp: with_budget_def)
      fix s2 :: "'a loop_state"
      assume "ls_budget s2 = map_option (consume_tool_call 1) (ls_budget s)"
      then show "spends s s2"
        by (intro spends_step [of _ "DoTool now"]) (simp add: Some c Inr b)
    qed
  qed
qed

definition calls_kept :: "'w loop_state \<Rightarrow> 'w loop_state \<Rightarrow> bool" where
  "calls_kept s s' \<longleftrightarrow> ls_router s' = ls_router s \<and> ls_iterations s' = ls_iterations s"

lemma calls_kept_trans: "calls_kept s t \<Longrightarrow> calls_kept t u \<Longrightarrow> calls_kept s u"
  by (simp add: calls_kept_def)

lemma answer_calls_effect:
  "spends s (answer_calls cfg env cs s) \<and> calls_kept s (answer_calls cfg env cs s)"
proof (induction cs arbitrary: s)
  case Nil
  then show ?case by (simp add: spends_refl calls_kept_def)
next
  case (Cons c cs)
  define s0 where "s0 = s\<lparr>ls_world := le_attribute env (lc_agent cfg) (lc_node cfg) (ls_world s)\<rparr>"
  have s0: "spends s t" "calls_kept s t" if "spends s0 t" "calls_kept s0 t" for t
    using that by (auto simp: s0_def spends_def calls_kept_def)
  show ?case
  proof (cases "tq_name c \<in> set (le_tools env)")
    case False
    define m where "m = ToolMessage (''TOOL ERROR (not_found): no tool named '' @ quoted (tq_name c)) (call_id c)"
    have "answer_calls cfg env (c # cs) s = answer_calls cfg env cs (say m s0)"
      using False by (simp add: s0_def m_def Let_def)
    moreover have "spends s0 (say m s0)" "calls_kept s0 (say m s0)"
      by (simp_all add: spends_refl say_def calls_kept_def)
    ultimately show ?thesis
      using Cons [of "say m s0"] by (auto intro!: s0 intro: spends_trans calls_kept_trans)
  next
    case True
    obtain q s1 where ch: "with_budget (check_tool_call (le_now env (ls_world s0)) 1) () s0 = (q, s1)"
      by fastforce
    from ch show ?thesis
    proof (cases rule: tool_check_cases)
      case (refused e)
      have k: "calls_kept s0 s1"
        unfolding calls_kept_def by (subst (1 2) refused(2)) simp
      from True ch refused(1) have
        "answer_calls cfg env (c # cs) s =
           say (ToolMessage (''TOOL BUDGET EXHAUSTED: '' @ exn_str e) (call_id c)) s1"
        by (simp add: s0_def Let_def)
      moreover have "spends s0 (say m s1)" "calls_kept s0 (say m s1)" for m
        using k refused(3) by (simp_all add: say_def spends_def calls_kept_def)
      ultimately show ?thesis by (simp add: s0)
    next
      case admitted
      define s2 where "s2 = consume_in (consume_tool_call 1) s0"
      obtain x good s3 where r: "run_tool cfg (le_invoke env (tq_name c)) (tq_name c) (tq_args c) s2
          = ((x, good), s3)" by (metis prod.exhaust)
      have t3: "talk_state s3 = talk_state s2"
        using run_tool_keeps [of cfg "le_invoke env (tq_name c)" "tq_name c" "tq_args c" s2] r by simp
      then have "spends s0 (say (ToolMessage x (call_id c)) s3)"
        by (intro admitted(3)) (simp add: say_def talk_state_def s2_def consume_in_def)
      moreover have "calls_kept s0 (say (ToolMessage x (call_id c)) s3)"
        using t3 by (simp add: calls_kept_def say_def talk_state_def s2_def consume_in_def)
      moreover have "answer_calls cfg env (c # cs) s =
          answer_calls cfg env cs (say (ToolMessage x (call_id c)) s3)"
        using True ch admitted r by (simp add: s0_def s2_def Let_def)
      ultimately show ?thesis
        using Cons [of "say (ToolMessage x (call_id c)) s3"]
        by (auto intro!: s0 intro: spends_trans calls_kept_trans)
    qed
  qed
qed

lemma tracked_effect:
  assumes "tracked env node spec call s = (out, s')"
  shows "ls_budget s' = ls_budget s" "ls_iterations s' = ls_iterations s"
    "length (ro_ledger (ls_router s')) = Suc (length (ro_ledger (ls_router s)))"
  using assms by (auto simp: tracked_def track_def put_record_def ledger_record_def Let_def split: prod.splits)

lemma tool_rounds_effect:
  assumes "tool_rounds cfg env spec k s = (r, s')"
  shows "spends s s' \<and> (\<exists>n \<le> k. ls_iterations s' = ls_iterations s + n \<and>
    length (ro_ledger (ls_router s')) = length (ro_ledger (ls_router s)) + n + (if isl r then 1 else 0))"
  using assms
proof (induction k arbitrary: s)
  case 0
  then show ?case by (auto simp: spends_refl)
next
  case (Suc k)
  obtain q s1 where ch: "with_budget (check_model_call (le_now env (ls_world s)) 1) () s = (q, s1)"
    by fastforce
  from ch show ?case
  proof (cases rule: model_check_cases)
    case (refused e)
    with Suc.prems ch have "s' = s1" "\<not> isl r" by auto
    moreover have "ls_router s1 = ls_router s" "ls_iterations s1 = ls_iterations s"
      by (subst refused(2), simp)+
    ultimately show ?thesis using refused(3) by auto
  next
    case admitted
    obtain out s2 where tr: "tracked env (lc_node cfg) spec (le_chat env (ls_conversation s)) s = (out, s2)"
      by fastforce
    note eff = tracked_effect [OF tr]
    show ?thesis
    proof (cases out)
      case (Inl e)
      with Suc.prems ch admitted(1,2) tr have "s' = s2" "isl r" by auto
      with eff show ?thesis by (auto intro: spends_refl)
    next
      case (Inr x)
      define s3 where "s3 = consume_in (consume_model_call 0 0 0)
          (s2\<lparr>ls_iterations := Suc (ls_iterations s2)\<rparr>)"
      have s3: "spends s s3" "ls_iterations s3 = Suc (ls_iterations s)" "ls_router s3 = ls_router s2"
        using admitted(3) [of s3] eff by (simp_all add: s3_def consume_in_def)
      show ?thesis
      proof (cases "re_calls x = []")
        case True
        with Suc.prems ch admitted(1,2) tr Inr
        have "r = Inr ()" "s' = (if re_is_ai x then say (AiMessage (re_text x) (re_calls x)) s3 else s3)"
          by (auto simp: s3_def Let_def)
        with s3 eff show ?thesis by (auto intro!: exI [of _ 1] simp: say_def spends_def)
      next
        case False
        define s4 where "s4 = answer_calls cfg env (re_calls x) (say (AiMessage (re_text x) (re_calls x)) s3)"
        have s4: "spends s s4" "ls_iterations s4 = Suc (ls_iterations s)" "ls_router s4 = ls_router s2"
        proof -
          let ?t = "say (AiMessage (re_text x) (re_calls x)) s3"
          from answer_calls_effect [of ?t cfg env "re_calls x"]
          have t: "spends ?t s4" "calls_kept ?t s4" by (simp_all add: s4_def)
          moreover have "spends s3 ?t" by (simp add: say_def spends_refl)
          ultimately show "spends s s4" using s3(1) spends_trans by blast
          show "ls_iterations s4 = Suc (ls_iterations s)" "ls_router s4 = ls_router s2"
            using t(2) s3(2,3) by (simp_all add: calls_kept_def say_def)
        qed
        have "tool_rounds cfg env spec k s4 = (r, s')"
          using Suc.prems ch admitted(1,2) tr Inr False by (simp add: s3_def s4_def Let_def)
        from Suc.IH [OF this] obtain n where "spends s4 s'" "n \<le> k"
          "ls_iterations s' = ls_iterations s4 + n"
          "length (ro_ledger (ls_router s')) = length (ro_ledger (ls_router s4)) + n + (if isl r then 1 else 0)"
          by blast
        note n = this
        have "spends s s'" by (rule spends_trans [OF s4(1) n(1)])
        moreover have "ls_iterations s' = ls_iterations s + Suc n" using n(3) s4(2) by simp
        moreover have "length (ro_ledger (ls_router s')) =
            length (ro_ledger (ls_router s)) + Suc n + (if isl r then 1 else 0)"
          using n(4) s4(3) eff(3) by simp
        ultimately show ?thesis using n(2) by (intro conjI exI [of _ "Suc n"]) simp_all
      qed
    qed
  qed
qed

lemma extraction_effect:
  assumes "extraction cfg env spec s = (r, s')"
  shows "spends s s' \<and> ls_iterations s' = ls_iterations s \<and>
    (\<exists>k \<le> 1. length (ro_ledger (ls_router s')) = length (ro_ledger (ls_router s)) + k \<and> (isl r \<or> k = 1))"
proof -
  obtain q s1 where ch: "with_budget (check_model_call (le_now env (ls_world s)) 1) () s = (q, s1)"
    by fastforce
  from ch show ?thesis
  proof (cases rule: model_check_cases)
    case (refused e)
    with assms ch have "s' = s1" "isl r" by (auto simp: extraction_def and_then_def)
    moreover have "ls_router s1 = ls_router s" "ls_iterations s1 = ls_iterations s"
      by (subst refused(2), simp)+
    ultimately show ?thesis using refused(3) by auto
  next
    case admitted
    obtain out s2 where tr: "tracked env (lc_node cfg) spec (le_extract env (ls_conversation s)) s = (out, s2)"
      by fastforce
    note eff = tracked_effect [OF tr]
    show ?thesis
    proof (cases out)
      case (Inl e)
      with assms ch admitted(1,2) tr have "s' = s2" "isl r"
        by (auto simp: extraction_def and_then_def)
      with eff show ?thesis by (auto intro: spends_refl)
    next
      case (Inr x)
      with assms ch admitted(1,2) tr have "s' = consume_in (consume_model_call 0 0 0) s2"
        by (auto simp: extraction_def and_then_def)
      with eff admitted(3) [of s'] show ?thesis by (auto simp: consume_in_def)
    qed
  qed
qed

lemma spends_within:
  assumes "spends s s'" "ls_budget s = Some b" "within_limits b"
  obtains b' where "ls_budget s' = Some b'" "within_limits b'" "b_limits b' = b_limits b"
proof -
  from assms(1,2) obtain es where "ls_budget s' = Some (fold budget_step es b)"
    by (auto simp: spends_def)
  moreover have "within_limits (fold budget_step es b) \<and> b_limits (fold budget_step es b) = b_limits b"
    using assms(3) by (induction es arbitrary: b) (simp_all add: budget_step_within budget_step_limits)
  ultimately show ?thesis using that by blast
qed

lemma run_loop_effect:
  assumes "run_loop cfg env build spec messages s = (r, s')"
  shows "spends s s' \<and> (\<exists>n k. n \<le> lc_max_iterations cfg \<and> k \<le> 1 \<and>
    ls_iterations s' = ls_iterations s + n \<and> (isl r \<or> k = 1) \<and>
    length (ro_ledger (ls_router s')) = length (ro_ledger (ls_router s)) + n + k)"
proof -
  obtain q w where b: "build (ls_world s) = (q, w)" by fastforce
  show ?thesis
  proof (cases q)
    case (Inl e)
    with assms b have "s' = s\<lparr>ls_world := w\<rparr>" "isl r" by (auto simp: run_loop_def)
    then show ?thesis by (auto simp: spends_refl)
  next
    case (Inr u)
    define s1 where "s1 = s\<lparr>ls_world := w, ls_conversation := messages\<rparr>"
    show ?thesis
    proof (cases "bind_tools env")
      case (Inl e)
      with assms b Inr have "s' = s1" "isl r" by (auto simp: run_loop_def s1_def Let_def)
      then show ?thesis by (auto simp: spends_refl s1_def)
    next
      case bound: (Inr x)
      define s2 where "s2 = s1\<lparr>ls_tool_phase := x\<rparr>"
      have s2: "ls_budget s2 = ls_budget s" "ls_iterations s2 = ls_iterations s" "ls_router s2 = ls_router s"
        by (simp_all add: s2_def s1_def)
      obtain q s3 where t: "(if x then tool_rounds cfg env spec (lc_max_iterations cfg) s2 else (Inr (), s2)) = (q, s3)"
        by fastforce
      have rounds: "spends s2 s3 \<and> (\<exists>n \<le> lc_max_iterations cfg. ls_iterations s3 = ls_iterations s2 + n \<and>
          length (ro_ledger (ls_router s3)) = length (ro_ledger (ls_router s2)) + n + (if isl q then 1 else 0))"
        using t by (cases x) (auto dest: tool_rounds_effect simp: spends_refl)
      have "run_loop cfg env build spec messages s =
          and_then (\<lambda>s. if x then tool_rounds cfg env spec (lc_max_iterations cfg) s else (Inr (), s))
            (\<lambda>_. extraction cfg env spec) s2"
        using b Inr bound by (simp add: run_loop_def s1_def s2_def Let_def)
      with assms have run: "(case (q, s3) of (Inl e, t) \<Rightarrow> (Inl e, t) | (Inr u, t) \<Rightarrow> extraction cfg env spec t) = (r, s')"
        unfolding and_then_def t by simp
      show ?thesis
      proof (cases q)
        case (Inl e)
        with run rounds s2 show ?thesis by (auto simp: spends_def)
      next
        case (Inr v)
        with run have "extraction cfg env spec s3 = (r, s')" by simp
        note ex = extraction_effect [OF this]
        with rounds Inr s2 have "spends s2 s'" by (auto intro: spends_trans)
        with ex rounds Inr s2 show ?thesis by (auto simp: spends_def)
      qed
    qed
  qed
qed

text \<open>
  C19. The tool-calling loop is bounded by construction. It runs at most the configured number of
  rounds, makes at most one model call more than it runs rounds, and every model call is in the
  ledger; a run that returns a result made the final extraction call. A budget whose call counters
  are within their limits stays so: no tool and no model is called beyond them.
\<close>

theorem tool_loop_is_bounded:
  assumes "run_loop cfg env build spec messages s = (r, s')"
  shows "\<exists>n k. n \<le> lc_max_iterations cfg \<and> k \<le> 1 \<and> ls_iterations s' = ls_iterations s + n \<and>
    length (ro_ledger (ls_router s')) = length (ro_ledger (ls_router s)) + n + k \<and> (isl r \<or> k = 1) \<and>
    (\<forall>b. ls_budget s = Some b \<and> within_limits b \<longrightarrow>
       (\<exists>b'. ls_budget s' = Some b' \<and> within_limits b' \<and> b_limits b' = b_limits b))"
proof -
  from run_loop_effect [OF assms] have sp: "spends s s'" by blast
  have "\<forall>b. ls_budget s = Some b \<and> within_limits b \<longrightarrow>
       (\<exists>b'. ls_budget s' = Some b' \<and> within_limits b' \<and> b_limits b' = b_limits b)"
    using spends_within [OF sp] by metis
  with run_loop_effect [OF assms] show ?thesis by blast
qed

definition quiet_env :: "(nat, string) loop_env" where
  "quiet_env =
     \<lparr>le_tools = [''t''], le_bind = Some (Inr ()),
      le_chat = (\<lambda>conv w. (Inr \<lparr>re_text = ''hm'', re_calls = [\<lparr>tq_name = ''u'', tq_id = None, tq_args = []\<rparr>],
                                 re_is_ai = True\<rparr>, Suc w)),
      le_extract = (\<lambda>conv w. (Inr ''answer'', Suc w)),
      le_invoke = (\<lambda>t args w. (Inr (POther ''r''), Suc w)),
      le_usage = (\<lambda>w. (Some 1, Some 1)), le_attribute = (\<lambda>a n w. w), le_now = of_nat\<rparr>"

definition fresh_loop :: "budget option \<Rightarrow> nat loop_state" where
  "fresh_loop b =
     \<lparr>ls_router = new_router [], ls_budget = b, ls_invocations = [], ls_iterations = 0,
      ls_tool_phase = False, ls_conversation = [], ls_world = 0\<rparr>"

definition two_calls :: budget where
  "two_calls = new_budget (default_limits\<lparr>bl_model_calls := Some 2, bl_tool_calls := Some 0\<rparr>) 0"

definition cheap_spec :: model_spec where
  "cheap_spec = rd_spec (select (new_router []) ''review'' Simple False)"

theorem tool_loop_is_bounded_witness:
  "\<exists>r s'. run_loop (new_loop ''n'' ''a'') quiet_env (\<lambda>w. (Inr (), w)) cheap_spec [] (fresh_loop (Some two_calls))
     = (r, s') \<and> length (ro_ledger (ls_router s')) \<le> 5"
proof -
  obtain r s' where run: "run_loop (new_loop ''n'' ''a'') quiet_env (\<lambda>w. (Inr (), w)) cheap_spec []
      (fresh_loop (Some two_calls)) = (r, s')" by fastforce
  from tool_loop_is_bounded [OF run] have "length (ro_ledger (ls_router s')) \<le> 5"
    by (auto simp: new_loop_def default_iterations_def fresh_loop_def new_router_def)
  with run show ?thesis by blast
qed

subsection \<open>Which calls get an answer\<close>

definition answers :: "tool_request \<Rightarrow> message \<Rightarrow> bool" where
  "answers c m \<longleftrightarrow> (\<exists>t. m = ToolMessage t (call_id c))"

definition budget_note :: string where
  "budget_note = ''TOOL BUDGET EXHAUSTED: ''"

definition all_answered :: "tool_request list \<Rightarrow> message list \<Rightarrow> bool \<Rightarrow> bool" where
  "all_answered cs ms limited \<longleftrightarrow>
     list_all2 answers (take (length ms) cs) ms \<and>
     (length ms = length cs \<or>
      limited \<and> ms \<noteq> [] \<and> starts_with budget_note (tm_content (last ms)))"

lemma all_answered_Cons:
  "answers c m \<Longrightarrow> all_answered cs ms limited \<Longrightarrow> all_answered (c # cs) (m # ms) limited"
  by (cases ms) (auto simp: all_answered_def)

lemma answer_calls_answers:
  "\<exists>ms. ls_conversation (answer_calls cfg env cs s) = ls_conversation s @ ms \<and>
     all_answered cs ms (ls_budget s \<noteq> None)"
proof (induction cs arbitrary: s)
  case Nil
  then show ?case by (simp add: all_answered_def)
next
  case (Cons c cs)
  define s0 where "s0 = s\<lparr>ls_world := le_attribute env (lc_agent cfg) (lc_node cfg) (ls_world s)\<rparr>"
  have s0: "ls_conversation s0 = ls_conversation s" "ls_budget s0 = ls_budget s" by (simp_all add: s0_def)
  have step: ?case
    if "answer_calls cfg env (c # cs) s = answer_calls cfg env cs t" "answers c m"
      "ls_conversation t = ls_conversation s @ [m]" "(ls_budget t \<noteq> None) = (ls_budget s \<noteq> None)" for t m
  proof -
    from Cons [of t] obtain ms where
      "ls_conversation (answer_calls cfg env cs t) = ls_conversation t @ ms"
      "all_answered cs ms (ls_budget t \<noteq> None)" by blast
    with that show ?thesis by (intro exI [of _ "m # ms"]) (simp add: all_answered_Cons)
  qed
  show ?case
  proof (cases "tq_name c \<in> set (le_tools env)")
    case False
    define m where "m = ToolMessage (''TOOL ERROR (not_found): no tool named '' @ quoted (tq_name c)) (call_id c)"
    have run: "answer_calls cfg env (c # cs) s = answer_calls cfg env cs (say m s0)"
      using False by (simp add: s0_def m_def Let_def)
    show ?thesis
      by (rule step [OF run, of m]) (simp_all add: m_def answers_def say_def s0)
  next
    case True
    obtain q s1 where ch: "with_budget (check_tool_call (le_now env (ls_world s0)) 1) () s0 = (q, s1)"
      by fastforce
    from ch show ?thesis
    proof (cases rule: tool_check_cases)
      case (refused e)
      define m where "m = ToolMessage (budget_note @ exn_str e) (call_id c)"
      have "answer_calls cfg env (c # cs) s = say m s1"
        using True ch refused(1) by (simp add: s0_def m_def budget_note_def Let_def)
      moreover have "ls_conversation s1 = ls_conversation s"
        by (subst refused(2)) (simp add: s0)
      moreover have "ls_budget s \<noteq> None"
      proof
        assume "ls_budget s = None"
        with ch s0 refused(1) show False by (simp add: with_budget_def)
      qed
      ultimately show ?thesis
        by (intro exI [of _ "[m]"])
          (auto simp: say_def all_answered_def answers_def m_def starts_with_iff)
    next
      case admitted
      define s2 where "s2 = consume_in (consume_tool_call 1) s0"
      obtain x good s3 where r: "run_tool cfg (le_invoke env (tq_name c)) (tq_name c) (tq_args c) s2
          = ((x, good), s3)" by (metis prod.exhaust)
      have t3: "talk_state s3 = talk_state s2"
        using run_tool_keeps [of cfg "le_invoke env (tq_name c)" "tq_name c" "tq_args c" s2] r by simp
      have run: "answer_calls cfg env (c # cs) s =
          answer_calls cfg env cs (say (ToolMessage x (call_id c)) s3)"
        using True ch admitted(1,2) r by (simp add: s0_def s2_def Let_def)
      show ?thesis
        by (rule step [OF run, of "ToolMessage x (call_id c)"])
          (use t3 in \<open>auto simp: answers_def say_def talk_state_def s2_def consume_in_def s0\<close>)
    qed
  qed
qed

text \<open>
  Requested tool calls are answered in order. The calls of one reply get one tool message each,
  with the call's own id and in the order of the calls, whether the tool exists, succeeds or fails;
  only a spent tool budget ends this early, and then the last message says so.
\<close>

theorem calls_answered_in_order:
  "\<exists>ms. ls_conversation (answer_calls cfg env cs s) = ls_conversation s @ ms \<and>
     list_all2 answers (take (length ms) cs) ms \<and>
     (ls_budget s = None \<longrightarrow> length ms = length cs) \<and>
     (length ms \<noteq> length cs \<longrightarrow> ms \<noteq> [] \<and> starts_with budget_note (tm_content (last ms)))"
proof -
  from answer_calls_answers [of cfg env cs s] obtain ms where
    "ls_conversation (answer_calls cfg env cs s) = ls_conversation s @ ms"
    "all_answered cs ms (ls_budget s \<noteq> None)" by blast
  then show ?thesis by (intro exI [of _ ms]) (auto simp: all_answered_def)
qed

definition ask :: "string \<Rightarrow> tool_request" where
  "ask t = \<lparr>tq_name = t, tq_id = None, tq_args = []\<rparr>"

theorem calls_answered_in_order_witness:
  "\<exists>ms. ls_conversation (answer_calls (new_loop ''n'' ''a'') quiet_env [ask ''t'', ask ''u''] (fresh_loop None))
     = ms \<and> length ms = 2"
  using calls_answered_in_order [of "new_loop ''n'' ''a''" quiet_env "[ask ''t'', ask ''u'']" "fresh_loop None"]
  by (simp del: answer_calls.simps) (simp add: fresh_loop_def del: answer_calls.simps)

text \<open>
  After the refusal the loop goes on to ask the model, so a reply whose second call was cut off leaves
  a request without a tool message in the conversation.
\<close>

lemma later_calls_unanswered:
  "length (ls_conversation (answer_calls (new_loop ''n'' ''a'') quiet_env [ask ''t'', ask ''t'']
     (fresh_loop (Some two_calls)))) = 1"
  by (simp add: fresh_loop_def quiet_env_def ask_def two_calls_def new_budget_def with_budget_def
      check_tool_call_def check_wall_time_def and_then_def fail_def elapsed_def default_limits_def
      say_def Let_def)

end
