(* ===== verification/Pull_Request.thy ===== *)
theory Pull_Request
  imports Risk Memory_Store
begin

section \<open>The risk-gated pull request\<close>

text \<open>
  Models \<open>agent/sweforge/github/finalization.py\<close>: whether a change may become a pull request, the
  plan and its body, and the hand-over to the injected creator. The creator is a parameter on a world
  \<open>'w\<close>; it may raise. Risk, verification and review may be absent, as in the code.

  The lemmas show when the creator is called and what the decision says about risk, verification and
  review.
\<close>

subsection \<open>Plans\<close>

datatype pr_decision = PrOpen | PrDraft | PrBlocked

record 'r pr_plan =
  pp_decision :: pr_decision
  pp_title :: string
  pp_body :: string
  pp_draft :: bool
  pp_files :: "string list"
  pp_reason :: string
  pp_created :: bool
  pp_unavailable :: "string option"
  pp_result :: "'r option"

definition or_dash :: "string option \<Rightarrow> string" where
  "or_dash f = (case f of None \<Rightarrow> ''-'' | Some s \<Rightarrow> if s = [] then ''-'' else s)"

subsection \<open>The body\<close>

definition verification_line :: "verification_result option \<Rightarrow> string" where
  "verification_line v =
     (case v of None \<Rightarrow> ''- no verification result available''
      | Some r \<Rightarrow> ''- passed: **'' @ bool_text (vr_passed r) @ ''** ('' @ verification_summary r @ '')'')"

definition review_lines :: "review_result option \<Rightarrow> string list" where
  "review_lines r =
     (case r of None \<Rightarrow> [''- review not run'']
      | Some rv \<Rightarrow>
          (''- approved: **'' @ bool_text (rr_approved rv) @ ''** (severity: '' @
             severity_text (rr_severity rv) @ '')'') #
          map (\<lambda>f. ''  - ['' @ severity_text (rf_severity f) @ ''] '' @ or_dash (rf_file f) @ '': '' @
                     rf_message f) (take 6 (rr_findings rv)))"

definition risk_lines :: "risk_score option \<Rightarrow> string list" where
  "risk_lines r =
     (case r of None \<Rightarrow> [''- risk not assessed'']
      | Some s \<Rightarrow>
          (''- score: **'' @ show_int (rs_score s) @ ''/100 ('' @ level_text (rs_level s) @ '')**'') #
          map (\<lambda>f. ''  - +'' @ show_int (rk_weight f) @ '' '' @ rk_code f @ '': '' @ rk_detail f)
            (take 6 (rs_factors s)))"

definition render_body ::
  "string \<Rightarrow> verification_result option \<Rightarrow> risk_score option \<Rightarrow> review_result option \<Rightarrow> nat \<Rightarrow> string" where
  "render_body task v risk review attempts =
     join [newline]
       ([''## Task'', if strip task = [] then ''(none)'' else strip task, [], ''## Verification'',
         verification_line v, [], ''## Independent review''] @ review_lines review @
        [[], ''## Risk assessment''] @ risk_lines risk @
        [[], ''Recovery attempts required: '' @ show_nat attempts, [], ''---'',
         ''_Prepared by SWE-Forge. Risk assessment is pattern-based screening, not a '' @
         ''substitute for human review._''])"

subsection \<open>The decision\<close>

definition blocked :: "string list \<Rightarrow> string \<Rightarrow> 'r pr_plan" where
  "blocked files reason =
     \<lparr>pp_decision = PrBlocked, pp_title = [], pp_body = [], pp_draft = False,
      pp_files = py_sorted files, pp_reason = reason, pp_created = False, pp_unavailable = None,
      pp_result = None\<rparr>"

definition permitted_plan ::
  "string \<Rightarrow> string list \<Rightarrow> risk_score option \<Rightarrow> verification_result option \<Rightarrow> review_result option
   \<Rightarrow> nat \<Rightarrow> 'r pr_plan" where
  "permitted_plan task files risk v review attempts =
     (let draft = (map_option rs_level risk = Some MediumRisk)
      in \<lparr>pp_decision = (if draft then PrDraft else PrOpen),
          pp_title = take 70 (if strip task = [] then ''SWE-Forge change'' else hd (splitlines (strip task))),
          pp_body = render_body task v risk review attempts,
          pp_draft = draft, pp_files = py_sorted files,
          pp_reason = (if draft then ''MEDIUM risk: draft PR with enhanced review notes''
                       else ''LOW risk: eligible for automatic PR''),
          pp_created = False, pp_unavailable = None, pp_result = None\<rparr>)"

type_synonym ('w, 'r) creator = "string \<Rightarrow> string \<Rightarrow> bool \<Rightarrow> string list \<Rightarrow> ('w, 'r) action"

definition submit :: "('w, 'r) creator option \<Rightarrow> bool \<Rightarrow> 'r pr_plan \<Rightarrow> 'w \<Rightarrow> 'r pr_plan \<times> 'w" where
  "submit creator allow p w =
     (if \<not> allow
      then (p\<lparr>pp_unavailable :=
                Some ''creation not requested (allow_creation=False); plan prepared only''\<rparr>, w)
      else (case creator of
          None \<Rightarrow>
            (p\<lparr>pp_unavailable :=
                 Some (''no upstream GitHub creator supplied; live GitHub integration requires an '' @
                       ''Open SWE App installation and is UNAVAILABLE in this environment'')\<rparr>, w)
        | Some create \<Rightarrow>
            (case create (pp_title p) (pp_body p) (pp_draft p) (pp_files p) w of
               (Inl e, w') \<Rightarrow> (p\<lparr>pp_unavailable := Some (exn_text e)\<rparr>, w')
             | (Inr x, w') \<Rightarrow> (p\<lparr>pp_result := Some x, pp_created := True\<rparr>, w'))))"

definition high_score :: "risk_score option \<Rightarrow> int option" where
  "high_score risk =
     (case risk of None \<Rightarrow> None | Some s \<Rightarrow> if rs_level s = HighRisk then Some (rs_score s) else None)"

definition withheld :: "('a \<Rightarrow> bool) \<Rightarrow> 'a option \<Rightarrow> bool" where
  "withheld granted x = (case x of None \<Rightarrow> False | Some y \<Rightarrow> \<not> granted y)"

definition prepare_pull_request ::
  "string \<Rightarrow> string list \<Rightarrow> risk_score option \<Rightarrow> verification_result option \<Rightarrow> review_result option
   \<Rightarrow> nat \<Rightarrow> ('w, 'r) creator option \<Rightarrow> bool \<Rightarrow> 'w \<Rightarrow> 'r pr_plan \<times> 'w" where
  "prepare_pull_request task files risk v review attempts creator allow w =
     (case high_score risk of
        Some score \<Rightarrow>
          (blocked files (''risk gate returned HIGH ('' @ show_int score @
             ''/100); human approval required before a PR may be opened''), w)
      | None \<Rightarrow>
          if withheld vr_passed v
          then (blocked files ''verification is not green; a red change must not become a PR'', w)
          else if withheld rr_approved review
          then (blocked files ''independent reviewer withheld approval'', w)
          else submit creator allow (permitted_plan task files risk v review attempts) w)"

subsection \<open>The gate\<close>

lemma submit_result:
  assumes "submit creator allow p w = (q, w')" "\<not> pp_created p"
  shows "pp_decision q = pp_decision p" "pp_draft q = pp_draft p"
    "pp_created q \<longleftrightarrow> allow \<and> (\<exists>create x. creator = Some create \<and>
       create (pp_title p) (pp_body p) (pp_draft p) (pp_files p) w = (Inr x, w'))"
    "\<not> allow \<Longrightarrow> w' = w"
  using assms by (auto simp: submit_def split: if_splits option.splits prod.splits sum.splits)

lemma permitted_facts:
  "\<not> pp_created (permitted_plan task files risk v review attempts)"
  "pp_decision (permitted_plan task files risk v review attempts) =
     (if map_option rs_level risk = Some MediumRisk then PrDraft else PrOpen)"
  "pp_draft (permitted_plan task files risk v review attempts) \<longleftrightarrow> map_option rs_level risk = Some MediumRisk"
  by (simp_all add: permitted_plan_def Let_def)

text \<open>
  C20. The gate decides who may open a pull request. The plan is blocked exactly when the risk level
  is high, the verification is red or the review is not approved, and then the creator is never
  called: the world is as before. An unblocked plan is a draft exactly at medium risk. Nothing is
  created unless creation was allowed and the creator returned.
\<close>

theorem pull_request_gate:
  assumes "prepare_pull_request task files risk v review attempts creator allow w = (p, w')"
  shows "(pp_decision p = PrBlocked \<longleftrightarrow>
      map_option rs_level risk = Some HighRisk \<or> map_option vr_passed v = Some False \<or>
      map_option rr_approved review = Some False) \<and>
    (pp_decision p = PrBlocked \<longrightarrow> w' = w \<and> \<not> pp_created p) \<and>
    (pp_decision p \<noteq> PrBlocked \<longrightarrow>
      (pp_decision p = PrDraft \<longleftrightarrow> map_option rs_level risk = Some MediumRisk) \<and>
      (pp_draft p \<longleftrightarrow> pp_decision p = PrDraft)) \<and>
    (pp_created p \<longrightarrow> allow \<and> creator \<noteq> None) \<and> (\<not> allow \<longrightarrow> w' = w)"
proof -
  have hs: "(\<exists>n. high_score risk = Some n) \<longleftrightarrow> map_option rs_level risk = Some HighRisk"
    by (auto simp: high_score_def split: option.splits)
  have wv: "withheld vr_passed v \<longleftrightarrow> map_option vr_passed v = Some False"
    by (auto simp: withheld_def split: option.splits)
  have wr: "withheld rr_approved review \<longleftrightarrow> map_option rr_approved review = Some False"
    by (auto simp: withheld_def split: option.splits)
  show ?thesis
  proof (cases "(\<exists>n. high_score risk = Some n) \<or> withheld vr_passed v \<or> withheld rr_approved review")
    case True
    with assms have "w' = w" "pp_decision p = PrBlocked" "\<not> pp_created p"
      by (auto simp: prepare_pull_request_def blocked_def split: option.splits if_splits)
    with True hs wv wr show ?thesis by auto
  next
    case False
    from False assms have sub:
      "submit creator allow (permitted_plan task files risk v review attempts) w = (p, w')"
      by (auto simp: prepare_pull_request_def split: option.splits)
    note sr = submit_result [OF sub permitted_facts(1)]
    have d: "pp_decision p = (if map_option rs_level risk = Some MediumRisk then PrDraft else PrOpen)"
      "pp_draft p \<longleftrightarrow> map_option rs_level risk = Some MediumRisk"
      by (simp_all add: sr(1,2) permitted_facts)
    have c: "pp_created p \<Longrightarrow> allow \<and> creator \<noteq> None" using sr(3) by blast
    have red: "\<not> (map_option rs_level risk = Some HighRisk \<or> map_option vr_passed v = Some False \<or>
        map_option rr_approved review = Some False)"
      using False hs wv wr by blast
    from red d c sr(4) show ?thesis by (simp split: if_splits)
  qed
qed

definition open_anything :: "(string list, string) creator" where
  "open_anything title body draft files made = (Inr title, made @ [title])"

theorem pull_request_gate_witness:
  "\<exists>p w'. prepare_pull_request ''t'' [] (Some \<lparr>rs_score = 60, rs_level = HighRisk, rs_factors = [],
        rs_recommendation = []\<rparr>) None None 0 (Some open_anything) True [] = (p, w') \<and>
     w' = [] \<and> pp_decision p = PrBlocked"
proof -
  define risk where "risk = \<lparr>rs_score = 60, rs_level = HighRisk, rs_factors = [], rs_recommendation = []\<rparr>"
  obtain p w' where p: "prepare_pull_request ''t'' [] (Some risk) None None 0 (Some open_anything) True []
      = (p, w')" by fastforce
  from pull_request_gate [OF p] have "pp_decision p = PrBlocked" "w' = []"
    by (auto simp: risk_def)
  with p show ?thesis by (auto simp: risk_def)
qed

text \<open>
  The gate fails open: without a risk score, a verification and a review, the plan is open and calls
  itself low risk.
\<close>

lemma unassessed_change_is_open:
  "fst (prepare_pull_request ''fix'' [] None None None 0 (Some open_anything) True [])
   = \<lparr>pp_decision = PrOpen, pp_title = ''fix'', pp_body = render_body ''fix'' None None None 0,
      pp_draft = False, pp_files = [], pp_reason = ''LOW risk: eligible for automatic PR'',
      pp_created = True, pp_unavailable = None, pp_result = Some ''fix''\<rparr>"
  by code_simp

end
