(* ===== verification/Mcp.thy ===== *)
theory Mcp
  imports Budget Tool_Errors Trace Model_Router
begin

section \<open>Orchestration of external capabilities\<close>

text \<open>
  Models \<open>agent/sweforge/mcp/orchestration.py\<close>: the registry of capabilities, the selector that reads
  external references in the task, and the policy every external call goes through. An adapter (an
  MCP client) is a parameter: the tools it lists and what a call gives, both on a world \<open>'w\<close> and both
  may raise. The clock is \<open>now\<close>. The patterns are those of the code.

  The retry loop is \<open>retry_from\<close> of the interfaces, interpreted as a bounded one. The lemmas show that
  nothing outside the allowlist is called, that calls and attempts are bounded, that the budget is
  respected, and what the selector may ask for.
\<close>

subsection \<open>Capabilities\<close>

datatype capability_kind = IssueTracker | Documentation | Observability | CodeHost | Research

fun kind_text :: "capability_kind \<Rightarrow> string" where
  "kind_text IssueTracker = ''issue_tracker''"
| "kind_text Documentation = ''documentation''"
| "kind_text Observability = ''observability''"
| "kind_text CodeHost = ''code_host''"
| "kind_text Research = ''research''"

definition all_kinds :: "capability_kind list" where
  "all_kinds = [IssueTracker, Documentation, Observability, CodeHost, Research]"

record capability =
  ca_name :: string
  ca_kind :: capability_kind
  ca_server :: string
  ca_description :: string
  ca_schema :: kwargs

record tool_listing =
  tl_name :: string
  tl_kind :: "string option"
  tl_description :: string
  tl_input_schema :: kwargs
  tl_inputSchema :: kwargs

record 'w adapter =
  ad_name :: string
  ad_list :: "('w, tool_listing list) action"
  ad_call :: "string \<Rightarrow> kwargs \<Rightarrow> ('w, pyval) action"

record 'w registry =
  mg_adapters :: "(string, 'w adapter) dict"
  mg_capabilities :: "(string, capability) dict"
  mg_errors :: "(string, string) dict"

definition new_registry :: "'w registry" where
  "new_registry = \<lparr>mg_adapters = [], mg_capabilities = [], mg_errors = []\<rparr>"

definition register :: "'w adapter \<Rightarrow> 'w registry \<Rightarrow> 'w registry" where
  "register a g = g\<lparr>mg_adapters := dict_set (ad_name a) a (mg_adapters g)\<rparr>"

definition kind_hints :: "(string \<times> capability_kind) list" where
  "kind_hints =
     [(''issue'', IssueTracker), (''ticket'', IssueTracker), (''linear'', IssueTracker),
      (''jira'', IssueTracker), (''pull_request'', CodeHost), (''github'', CodeHost),
      (''commit'', CodeHost), (''doc'', Documentation), (''notion'', Documentation),
      (''wiki'', Documentation), (''metric'', Observability), (''log'', Observability),
      (''datadog'', Observability), (''trace'', Observability), (''search'', Research),
      (''browse'', Research)]"

definition classify_kind :: "string \<Rightarrow> string option \<Rightarrow> capability_kind" where
  "classify_kind tool declared =
     (case (case declared of None \<Rightarrow> None | Some d \<Rightarrow> List.find (\<lambda>k. kind_text k = d) all_kinds) of
        Some k \<Rightarrow> k
      | None \<Rightarrow>
          (case List.find (\<lambda>(h, k). contains h (py_lower tool)) kind_hints of
             Some (h, k) \<Rightarrow> k | None \<Rightarrow> Research))"

definition add_listing ::
  "string \<Rightarrow> (string, capability) dict \<Rightarrow> tool_listing \<Rightarrow> (string, capability) dict" where
  "add_listing server caps t =
     (let name = strip (tl_name t)
      in if name = [] then caps
         else dict_set name
                \<lparr>ca_name = name, ca_kind = classify_kind name (tl_kind t), ca_server = server,
                 ca_description = take 400 (tl_description t),
                 ca_schema = (if tl_input_schema t \<noteq> [] then tl_input_schema t else tl_inputSchema t)\<rparr>
                caps)"

fun discover_from :: "(string \<times> 'w adapter) list \<Rightarrow> 'w registry \<Rightarrow> 'w \<Rightarrow> 'w registry \<times> 'w" where
  "discover_from [] g w = (g, w)"
| "discover_from ((name, a) # as) g w =
     (case ad_list a w of
        (Inl e, w') \<Rightarrow> discover_from as (g\<lparr>mg_errors := dict_set name (exn_text e) (mg_errors g)\<rparr>) w'
      | (Inr tools, w') \<Rightarrow>
          discover_from as
            (g\<lparr>mg_capabilities := foldl (add_listing name) (mg_capabilities g) tools\<rparr>) w')"

definition discover :: "'w registry \<Rightarrow> 'w \<Rightarrow> 'w registry \<times> 'w" where
  "discover g w =
     discover_from (sort_key fst (mg_adapters g)) (g\<lparr>mg_capabilities := [], mg_errors := []\<rparr>) w"

definition capabilities :: "'w registry \<Rightarrow> capability list" where
  "capabilities g = map snd (mg_capabilities g)"

definition adapter_for :: "'w registry \<Rightarrow> string \<Rightarrow> 'w adapter option" where
  "adapter_for g c =
     (case map_of (mg_capabilities g) c of
        None \<Rightarrow> None | Some found \<Rightarrow> map_of (mg_adapters g) (ca_server found))"

definition by_kind :: "'w registry \<Rightarrow> capability_kind \<Rightarrow> capability list" where
  "by_kind g k = filter (\<lambda>c. ca_kind c = k) (capabilities g)"

subsection \<open>The selector\<close>

record selection =
  se_needed :: bool
  se_capability :: "string option"
  se_kind :: "capability_kind option"
  se_arguments :: kwargs
  se_rationale :: string

definition issue_rx :: rx where
  "issue_rx =
     Alt (cat [Lit ''#'', Grp 1 (Rep 1 (Some 6) digit), Wb])
         (cat [LitI ''issue'', opt (Cls (\<lambda>c. c = CHR '' '' \<or> c = CHR ''-'')),
               Grp 2 (Rep 1 (Some 6) digit)])"

definition url_rx :: rx where
  "url_rx =
     cat [Lit ''http'', opt (Lit ''s''), Lit ''://'',
          plus1 (Cls (\<lambda>c. \<not> is_space_c c \<and> c \<noteq> CHR '')''))]"

definition doc_hint_rx :: rx where
  "doc_hint_rx =
     cat [Wb, alts [LitI ''runbook'', LitI ''design doc'', cat [LitI ''spec'', opt (LitI ''ification'')],
                    LitI ''wiki'', LitI ''confluence'', LitI ''notion''], Wb]"

definition obs_hint_rx :: rx where
  "obs_hint_rx =
     cat [Wb, alts [LitI ''alert'', LitI ''incident'', LitI ''dashboard'', LitI ''error rate'',
                    LitI ''latency spike'', LitI ''p99'', LitI ''traceback in prod''], Wb]"

definition issue_id :: "string \<times> point \<Rightarrow> string" where
  "issue_id h = (if group_or_empty 1 h = [] then group_or_empty 2 h else group_or_empty 1 h)"

definition ask_for :: "capability \<Rightarrow> capability_kind \<Rightarrow> kwargs \<Rightarrow> string \<Rightarrow> selection" where
  "ask_for c k args why =
     \<lparr>se_needed = True, se_capability = Some (ca_name c), se_kind = Some k, se_arguments = args,
      se_rationale = why\<rparr>"

definition no_selection :: "bool \<Rightarrow> string \<Rightarrow> selection" where
  "no_selection needed why =
     \<lparr>se_needed = needed, se_capability = None, se_kind = None, se_arguments = [], se_rationale = why\<rparr>"

definition select_issue :: "'w registry \<Rightarrow> string \<Rightarrow> selection" where
  "select_issue g i =
     (let args = [(''issue_id'', VStr i)]; why = ''task references issue #'' @ i
      in case by_kind g IssueTracker of
           c # _ \<Rightarrow> ask_for c IssueTracker args why
         | [] \<Rightarrow>
             (case by_kind g CodeHost of
                c # _ \<Rightarrow> ask_for c CodeHost args why
              | [] \<Rightarrow> no_selection True (why @ '' but no issue-tracker capability is registered'')))"

definition select_document :: "'w registry \<Rightarrow> string \<Rightarrow> selection" where
  "select_document g text =
     (if matches doc_hint_rx text \<or> matches url_rx text
      then (case by_kind g Documentation of
          c # _ \<Rightarrow>
            ask_for c Documentation
              (case search url_rx text of
                 Some h \<Rightarrow> [(''url'', VStr (match_text h))]
               | None \<Rightarrow> [(''query'', VStr (take 200 text))])
              ''task references external documentation''
        | [] \<Rightarrow> no_selection False ''no external reference detected; repository context is sufficient'')
      else no_selection False ''no external reference detected; repository context is sufficient'')"

definition select_capability :: "'w registry \<Rightarrow> string \<Rightarrow> selection" where
  "select_capability g text =
     (case search issue_rx text of
        Some h \<Rightarrow> select_issue g (issue_id h)
      | None \<Rightarrow>
          if matches obs_hint_rx text
          then (case by_kind g Observability of
              c # _ \<Rightarrow>
                ask_for c Observability [(''query'', VStr (take 200 text))]
                  ''task references production signals''
            | [] \<Rightarrow> select_document g text)
          else select_document g text)"

subsection \<open>The invocation policy\<close>

record mcp_result =
  mr_capability :: string
  mr_server :: string
  mr_ok :: bool
  mr_content :: pyval
  mr_error :: "string option"
  mr_category :: "string option"
  mr_latency :: rat
  mr_attempts :: nat

record mcp_policy =
  mp_allowlist :: "string list"
  mp_timeout :: rat
  mp_max_calls :: nat
  mp_policy :: tool_policy
  mp_budget :: "budget option"
  mp_calls :: "mcp_result list"

definition is_allowed :: "mcp_policy \<Rightarrow> string \<Rightarrow> bool" where
  "is_allowed m c = (c \<in> set (mp_allowlist m))"

definition refusal :: "string \<Rightarrow> string \<Rightarrow> string \<Rightarrow> string \<Rightarrow> mcp_result" where
  "refusal c server err category =
     \<lparr>mr_capability = c, mr_server = server, mr_ok = False, mr_content = VNone, mr_error = Some err,
      mr_category = Some category, mr_latency = 0, mr_attempts = 1\<rparr>"

definition put_call :: "mcp_result \<Rightarrow> mcp_policy \<Rightarrow> mcp_policy" where
  "put_call r m = m\<lparr>mp_calls := mp_calls m @ [r]\<rparr>"

definition call_again :: "tool_policy \<Rightarrow> pyval result \<Rightarrow> nat \<Rightarrow> bool" where
  "call_again p r n =
     (case r of Inl e \<Rightarrow> td_action (decide p (classify_exception e) n) = Retry | Inr v \<Rightarrow> False)"

interpretation mcp_retry: bounded_retry "\<lambda>n. ad_call a c args" "call_again p" "tp_max_retries p"
  for a c args p
  by unfold_locales (auto simp: call_again_def decide_Retry split: sum.splits)

definition probe_budget :: "rat \<Rightarrow> mcp_policy \<Rightarrow> bool \<times> mcp_policy" where
  "probe_budget now m =
     (case mp_budget m of
        None \<Rightarrow> (False, m)
      | Some b \<Rightarrow>
          (case would_exceed KTool now b of (x, b') \<Rightarrow> (x, m\<lparr>mp_budget := Some b'\<rparr>)))"

definition call_adapter ::
  "('w \<Rightarrow> rat) \<Rightarrow> 'w adapter \<Rightarrow> string \<Rightarrow> kwargs \<Rightarrow> mcp_policy \<Rightarrow> 'w \<Rightarrow> mcp_result \<times> mcp_policy \<times> 'w" where
  "call_adapter now a c args m w =
     (case the (retry_from (\<lambda>n. ad_call a c args) (call_again (mp_policy m)) 1 w) of
        (Inl e, n, w') \<Rightarrow>
          (let cl = classify_exception e
           in (\<lparr>mr_capability = c, mr_server = ad_name a, mr_ok = False, mr_content = VNone,
                mr_error = Some (tc_message cl), mr_category = Some (category_text (tc_category cl)),
                mr_latency = now w' - now w, mr_attempts = n\<rparr>, m, w'))
      | (Inr v, n, w') \<Rightarrow>
          (\<lparr>mr_capability = c, mr_server = ad_name a, mr_ok = True, mr_content = v, mr_error = None,
            mr_category = None, mr_latency = now w' - now w, mr_attempts = n\<rparr>,
           m\<lparr>mp_budget := map_option (consume_tool_call 1) (mp_budget m)\<rparr>, w'))"

definition decide_call ::
  "('w \<Rightarrow> rat) \<Rightarrow> 'w registry \<Rightarrow> string \<Rightarrow> kwargs \<Rightarrow> mcp_policy \<Rightarrow> 'w \<Rightarrow> mcp_result \<times> mcp_policy \<times> 'w" where
  "decide_call now g c args m w =
     (if \<not> is_allowed m c
      then (refusal c ''-'' (''capability '' @ quoted c @ '' is not on the allowlist'')
              ''permission_error'', m, w)
      else if mp_max_calls m \<le> length (mp_calls m)
      then (refusal c ''-'' (''MCP call budget exhausted ('' @ show_nat (mp_max_calls m) @ '' per run)'')
              ''budget'', m, w)
      else (case adapter_for g c of
          None \<Rightarrow> (refusal c ''-'' (''no adapter provides capability '' @ quoted c) ''not_found'', m, w)
        | Some a \<Rightarrow>
            (case probe_budget (now w) m of
               (True, m') \<Rightarrow> (refusal c (ad_name a) ''execution budget exhausted'' ''budget'', m', w)
             | (False, m') \<Rightarrow> call_adapter now a c args m' w)))"

definition invoke ::
  "('w \<Rightarrow> rat) \<Rightarrow> 'w registry \<Rightarrow> string \<Rightarrow> kwargs \<Rightarrow> mcp_policy \<Rightarrow> 'w \<Rightarrow> mcp_result \<times> mcp_policy \<times> 'w" where
  "invoke now g c args m w =
     (case decide_call now g c args m w of (r, m', w') \<Rightarrow> (r, put_call r m', w'))"

record mcp_summary =
  ms_calls :: "mcp_result list"
  ms_tot :: nat
  ms_successes :: nat
  ms_failures :: nat

definition summarise_calls :: "mcp_policy \<Rightarrow> mcp_summary" where
  "summarise_calls m =
     \<lparr>ms_calls = map (\<lambda>r. r\<lparr>mr_latency := py_round 4 (mr_latency r)\<rparr>) (mp_calls m),
      ms_tot = length (mp_calls m), ms_successes = length (filter mr_ok (mp_calls m)),
      ms_failures = length (filter (\<lambda>r. \<not> mr_ok r) (mp_calls m))\<rparr>"

interpretation call_log: event_log mp_calls put_call
  by unfold_locales (simp add: put_call_def)

subsection \<open>Gated calls\<close>

lemma call_adapter_result:
  assumes "call_adapter now a c args m w = (r, m', w')"
  shows "mp_calls m' = mp_calls m" "mp_max_calls m' = mp_max_calls m" "mp_allowlist m' = mp_allowlist m"
    "mp_policy m' = mp_policy m" "mr_attempts r \<le> Suc (tp_max_retries (mp_policy m))"
    "mr_ok r \<longleftrightarrow> mr_error r = None"
    "mp_budget m' = mp_budget m \<or> mp_budget m' = map_option (consume_tool_call 1) (mp_budget m)"
proof -
  obtain x n u where run: "retry_from (\<lambda>n. ad_call a c args) (call_again (mp_policy m)) 1 w = Some (x, n, u)"
    using mcp_retry.returns [of a c args "mp_policy m" 1 w] by auto
  have n: "n \<le> Suc (tp_max_retries (mp_policy m))"
    using mcp_retry.attempts_le [OF run] by blast
  show "mp_calls m' = mp_calls m" "mp_max_calls m' = mp_max_calls m" "mp_allowlist m' = mp_allowlist m"
    "mp_policy m' = mp_policy m" "mr_attempts r \<le> Suc (tp_max_retries (mp_policy m))"
    "mr_ok r \<longleftrightarrow> mr_error r = None"
    "mp_budget m' = mp_budget m \<or> mp_budget m' = map_option (consume_tool_call 1) (mp_budget m)"
    using assms n unfolding call_adapter_def run option.sel by (auto simp: Let_def split: sum.splits)
qed

lemma probe_budget_state:
  "mp_calls (snd (probe_budget now m)) = mp_calls m \<and> mp_max_calls (snd (probe_budget now m)) = mp_max_calls m \<and>
   mp_allowlist (snd (probe_budget now m)) = mp_allowlist m \<and> mp_policy (snd (probe_budget now m)) = mp_policy m"
  by (simp add: probe_budget_def split: option.split prod.split)

lemma probe_budget_admits:
  assumes "probe_budget now m = (False, m')"
  shows "m' = m \<and> (\<forall>b. mp_budget m = Some b \<longrightarrow> fst (check_tool_call now 1 b) = Inr ())"
proof (cases "mp_budget m")
  case (Some b)
  obtain x b' where wb: "would_exceed KTool now b = (x, b')" by fastforce
  with assms Some have x: "\<not> x" "m' = m\<lparr>mp_budget := Some b'\<rparr>" by (auto simp: probe_budget_def)
  with wb would_exceed_iff [of KTool now b] have acc: "fst (probe KTool now b) = Inr ()" by simp
  moreover have "snd (probe KTool now b) = b"
    using acc check_accepts [OF check_like_probe, of KTool now b "()"] by (metis eq_fst_iff snd_conv)
  ultimately show ?thesis
    using x Some wb would_exceed_state [of KTool now b] by (simp add: probe_def)
qed (use assms in \<open>auto simp: probe_budget_def\<close>)

lemma probe_budget_within:
  "mp_budget m = Some b \<Longrightarrow> within_limits b \<Longrightarrow>
     \<exists>b'. mp_budget (snd (probe_budget now m)) = Some b' \<and> within_limits b'"
  using check_within [OF check_like_probe, of KTool now b]
  by (auto simp: probe_budget_def would_exceed_state [symmetric] split: prod.split)

definition contacted :: "('w \<Rightarrow> rat) \<Rightarrow> 'w registry \<Rightarrow> string \<Rightarrow> mcp_policy \<Rightarrow> 'w \<Rightarrow> bool" where
  "contacted now g c m w \<longleftrightarrow>
     is_allowed m c \<and> length (mp_calls m) < mp_max_calls m \<and> adapter_for g c \<noteq> None \<and>
     \<not> fst (probe_budget (now w) m)"

lemma decide_call_cases:
  assumes "decide_call now g c args m w = (r, m', w')"
  obtains (refused) "\<not> contacted now g c m w" "w' = w" "\<not> mr_ok r" "mr_error r \<noteq> None"
    "mr_attempts r = 1" "m' = m \<or> m' = snd (probe_budget (now w) m)"
    "is_allowed m c \<and> length (mp_calls m) < mp_max_calls m \<or> mr_server r = ''-''"
  | (called) a where "contacted now g c m w" "adapter_for g c = Some a"
    "call_adapter now a c args m w = (r, m', w')"
proof (cases "contacted now g c m w")
  case True
  then obtain a where a: "adapter_for g c = Some a" and p: "\<not> fst (probe_budget (now w) m)"
    "is_allowed m c" "length (mp_calls m) < mp_max_calls m" by (auto simp: contacted_def)
  then have "probe_budget (now w) m = (False, m)"
    using probe_budget_admits by (metis (full_types) prod.collapse)
  with True assms a p show ?thesis by (intro called) (auto simp: decide_call_def)
next
  case False
  with assms show ?thesis
    by (intro refused) (auto simp: decide_call_def contacted_def refusal_def
        split: if_splits option.splits prod.splits bool.splits)
qed

lemma invoke_frame:
  assumes "invoke now g c args m w = (r, m', w')"
  shows "mp_calls m' = mp_calls m @ [r]" "mp_max_calls m' = mp_max_calls m" "mp_allowlist m' = mp_allowlist m"
proof -
  from assms obtain m1 where d: "decide_call now g c args m w = (r, m1, w')" and m': "m' = put_call r m1"
    by (auto simp: invoke_def split: prod.splits)
  from d have "mp_calls m1 = mp_calls m \<and> mp_max_calls m1 = mp_max_calls m \<and> mp_allowlist m1 = mp_allowlist m"
    by (cases rule: decide_call_cases) (use probe_budget_state call_adapter_result in auto)
  then show "mp_calls m' = mp_calls m @ [r]" "mp_max_calls m' = mp_max_calls m" "mp_allowlist m' = mp_allowlist m"
    by (simp_all add: m' call_log.entries_put) (simp_all add: put_call_def)
qed

text \<open>
  External calls are denied by default and gated. \<open>invoke\<close> answers every request with one
  recorded result and never raises. An adapter is reached only for a capability on the allowlist,
  below the call limit, with an adapter, and with tool budget left; a refused request leaves the
  world as it was. A result says whether it is good by having no error, needs at most one attempt
  more than the retries of the policy, and a budget within its limits stays within them.
\<close>

theorem external_calls_are_gated:
  assumes "invoke now g c args m w = (r, m', w')"
  shows "mp_calls m' = mp_calls m @ [r] \<and>
    (w' \<noteq> w \<or> mr_ok r \<longrightarrow>
       is_allowed m c \<and> length (mp_calls m) < mp_max_calls m \<and> adapter_for g c \<noteq> None \<and>
       (\<forall>b. mp_budget m = Some b \<longrightarrow> fst (check_tool_call (now w) 1 b) = Inr ())) \<and>
    (mr_ok r \<longleftrightarrow> mr_error r = None) \<and> mr_attempts r \<le> Suc (tp_max_retries (mp_policy m)) \<and>
    (\<forall>b. mp_budget m = Some b \<and> within_limits b \<longrightarrow>
       (\<exists>b'. mp_budget m' = Some b' \<and> within_limits b'))"
proof -
  from assms obtain m1 where d: "decide_call now g c args m w = (r, m1, w')" and m': "m' = put_call r m1"
    by (auto simp: invoke_def split: prod.splits)
  have bud: "mp_budget m' = mp_budget m1" by (simp add: m' put_call_def)
  from d show ?thesis
  proof (cases rule: decide_call_cases)
    case refused
    then show ?thesis
      using invoke_frame [OF assms] probe_budget_within bud by auto
  next
    case (called a)
    then have adm: "\<forall>b. mp_budget m = Some b \<longrightarrow> fst (check_tool_call (now w) 1 b) = Inr ()"
      using probe_budget_admits by (metis (full_types) contacted_def prod.collapse)
    have "\<exists>b'. mp_budget m' = Some b' \<and> within_limits b'" if b: "mp_budget m = Some b" "within_limits b" for b
    proof -
      obtain u where "check_tool_call (now w) 1 b = (Inr (), u)" using adm b(1) by (metis eq_fst_iff)
      then have "budget_step (DoTool (now w)) b = consume_tool_call 1 b"
        using check_accepts [OF check_like_tool] by fastforce
      then have "within_limits (consume_tool_call 1 b)"
        using budget_step_within [OF b(2), of "DoTool (now w)"] by simp
      with call_adapter_result(7) [OF called(3)] b bud show ?thesis by auto
    qed
    with invoke_frame [OF assms] called(1) adm call_adapter_result [OF called(3)] show ?thesis
      by (auto simp: contacted_def)
  qed
qed

definition echo_adapter :: "nat adapter" where
  "echo_adapter =
     \<lparr>ad_name = ''docs'',
      ad_list = (\<lambda>w. (Inr [\<lparr>tl_name = ''doc_lookup'', tl_kind = None, tl_description = [],
                             tl_input_schema = [], tl_inputSchema = []\<rparr>], w)),
      ad_call = (\<lambda>c args w. (Inr (VStr c), Suc w))\<rparr>"

definition echo_registry :: "nat registry" where
  "echo_registry = fst (discover (register echo_adapter new_registry) 0)"

definition policy_for :: "string list \<Rightarrow> mcp_policy" where
  "policy_for allow =
     \<lparr>mp_allowlist = allow, mp_timeout = 20, mp_max_calls = 3, mp_policy = default_tool_policy,
      mp_budget = None, mp_calls = []\<rparr>"

theorem external_calls_are_gated_witness:
  "snd (snd (invoke of_nat echo_registry ''mail'' [] (policy_for [''doc_lookup'']) 0)) = 0"
proof -
  obtain r m' w' where i: "invoke of_nat echo_registry ''mail'' [] (policy_for [''doc_lookup'']) 0
      = (r, m', w')" by (metis prod.exhaust)
  have "\<not> is_allowed (policy_for [''doc_lookup'']) ''mail''" by code_simp
  with external_calls_are_gated [OF i] i show ?thesis by auto
qed

subsection \<open>Sequences of requests\<close>

fun invoke_all ::
  "('w \<Rightarrow> rat) \<Rightarrow> 'w registry \<Rightarrow> (string \<times> kwargs) list \<Rightarrow> mcp_policy \<times> 'w \<Rightarrow> mcp_policy \<times> 'w" where
  "invoke_all now g [] s = s"
| "invoke_all now g ((c, args) # rs) s =
     invoke_all now g rs (snd (invoke now g c args (fst s) (snd s)))"

definition refused_outright :: "mcp_result \<Rightarrow> bool" where
  "refused_outright r \<longleftrightarrow> \<not> mr_ok r \<and> mr_server r = ''-'' \<and> mr_attempts r = 1"

definition calls_in_limit :: "mcp_policy \<Rightarrow> bool" where
  "calls_in_limit m \<longleftrightarrow> list_all refused_outright (drop (mp_max_calls m) (mp_calls m))"

lemma invoke_in_limit:
  assumes "invoke now g c args m w = (r, m', w')" "calls_in_limit m"
  shows "calls_in_limit m'"
proof (cases "length (mp_calls m) < mp_max_calls m")
  case True
  with invoke_frame [OF assms(1)] show ?thesis by (simp add: calls_in_limit_def)
next
  case False
  from assms(1) obtain m1 where d: "decide_call now g c args m w = (r, m1, w')"
    by (auto simp: invoke_def split: prod.splits)
  have "\<not> contacted now g c m w" using False by (simp add: contacted_def)
  from d have "refused_outright r"
    by (cases rule: decide_call_cases)
      (use False \<open>\<not> contacted now g c m w\<close> in \<open>auto simp: refused_outright_def\<close>)
  with False assms(2) invoke_frame [OF assms(1)] show ?thesis by (simp add: calls_in_limit_def)
qed

lemma invoke_all_in_limit: "calls_in_limit (fst s) \<Longrightarrow> calls_in_limit (fst (invoke_all now g rs s))"
proof (induction rs arbitrary: s)
  case (Cons q rs)
  obtain c args where q: "q = (c, args)" by fastforce
  obtain r m' w' where i: "invoke now g c args (fst s) (snd s) = (r, m', w')" by (metis prod.exhaust)
  from invoke_in_limit [OF i Cons.prems] Cons.IH [of "(m', w')"] show ?case by (simp add: q i)
qed simp

lemma invoke_all_calls:
  "length (mp_calls (fst (invoke_all now g rs s))) = length (mp_calls (fst s)) + length rs \<and>
   mp_max_calls (fst (invoke_all now g rs s)) = mp_max_calls (fst s) \<and>
   mp_allowlist (fst (invoke_all now g rs s)) = mp_allowlist (fst s)"
proof (induction rs arbitrary: s)
  case (Cons q rs)
  obtain c args where q: "q = (c, args)" by fastforce
  obtain r m' w' where i: "invoke now g c args (fst s) (snd s) = (r, m', w')" by (metis prod.exhaust)
  from invoke_frame [OF i] Cons.IH [of "(m', w')"] show ?case by (simp add: q i)
qed simp

text \<open>
  C34. A run makes a bounded number of external calls. Starting without calls, any sequence of
  requests is recorded one result each, and every result after the first \<open>max_calls_per_run\<close> ones is a
  refusal that reached no server; the good results are at most that many.
\<close>

theorem external_calls_are_bounded:
  fixes now g rs m w
  assumes "mp_calls m = []"
  defines "calls \<equiv> mp_calls (fst (invoke_all now g rs (m, w)))"
  shows "length calls = length rs \<and> list_all refused_outright (drop (mp_max_calls m) calls) \<and>
    length (filter mr_ok calls) \<le> mp_max_calls m"
proof -
  have "calls_in_limit (fst (m, w))" using assms(1) by (simp add: calls_in_limit_def)
  from invoke_all_in_limit [OF this, of now g rs] invoke_all_calls [of now g rs "(m, w)"]
  have d: "list_all refused_outright (drop (mp_max_calls m) calls)"
    by (simp add: calls_in_limit_def calls_def)
  then have "filter mr_ok (drop (mp_max_calls m) calls) = []"
    by (auto simp: list_all_iff filter_empty_conv refused_outright_def)
  then have "filter mr_ok calls = filter mr_ok (take (mp_max_calls m) calls)"
    by (metis append_Nil2 append_take_drop_id filter_append)
  then have "length (filter mr_ok calls) \<le> length (take (mp_max_calls m) calls)"
    by (metis length_filter_le)
  with d invoke_all_calls [of now g rs "(m, w)"] assms(1) show ?thesis by (simp add: calls_def)
qed

theorem external_calls_are_bounded_witness:
  "length (mp_calls (fst (invoke_all of_nat echo_registry (replicate 5 (''doc_lookup'', []))
     (policy_for [''doc_lookup''], 0)))) = 5"
  using external_calls_are_bounded [of "policy_for [''doc_lookup'']" of_nat echo_registry
      "replicate 5 (''doc_lookup'', [])" 0]
  by (simp add: policy_for_def)

text \<open>Refused requests count: three of them leave nothing for a request that is allowed.\<close>

lemma refusals_spend_the_limit:
  assumes "mp_calls m = []" "is_allowed m c" "\<not> is_allowed m x"
    and "invoke now g c args (fst (invoke_all now g (replicate (mp_max_calls m) (x, [])) (m, w))) w' = (r, m', u)"
  shows "\<not> mr_ok r \<and> mr_category r = Some ''budget''"
proof -
  let ?m = "fst (invoke_all now g (replicate (mp_max_calls m) (x, [])) (m, w))"
  have "length (mp_calls ?m) = mp_max_calls m" "mp_max_calls ?m = mp_max_calls m" "is_allowed ?m c"
    using invoke_all_calls [of now g "replicate (mp_max_calls m) (x, [])" "(m, w)"] assms(1,2)
    by (simp_all add: is_allowed_def)
  with assms(4) show ?thesis by (auto simp: invoke_def decide_call_def refusal_def)
qed

subsection \<open>Selection\<close>

lemma by_kind_mem: "by_kind g k = c # cs \<Longrightarrow> c \<in> set (capabilities g) \<and> ca_kind c = k"
proof -
  assume "by_kind g k = c # cs"
  then have "c \<in> set (by_kind g k)" by simp
  then show ?thesis by (simp add: by_kind_def)
qed

definition sound_selection :: "'w registry \<Rightarrow> selection \<Rightarrow> bool" where
  "sound_selection g s \<longleftrightarrow>
     (case se_capability s of
        None \<Rightarrow> se_kind s = None \<and> se_arguments s = []
      | Some n \<Rightarrow> se_needed s \<and> (\<exists>c. c \<in> set (capabilities g) \<and> ca_name c = n \<and> se_kind s = Some (ca_kind c)))"

lemma sound_simps:
  "sound_selection g (no_selection b why)"
  "by_kind g k = c # cs \<Longrightarrow> sound_selection g (ask_for c k args why)"
  using by_kind_mem by (fastforce simp: sound_selection_def no_selection_def ask_for_def)+

lemma select_sound: "sound_selection g (select_capability g text)"
  unfolding select_capability_def select_issue_def select_document_def Let_def
  by (auto simp: sound_simps split: option.split list.split)

definition registry_ok :: "'w registry \<Rightarrow> bool" where
  "registry_ok g \<longleftrightarrow>
     (\<forall>(n, c) \<in> set (mg_capabilities g). n = ca_name c \<and> map_of (mg_adapters g) (ca_server c) \<noteq> None) \<and>
     dict_ok (mg_capabilities g)"

lemma dict_set_mem: "x \<in> set (dict_set k v d) \<Longrightarrow> x = (k, v) \<or> x \<in> set d"
  unfolding dict_set_def by (induction d) (auto split: if_splits)

lemma add_listing_ok:
  assumes "\<forall>(n, c) \<in> set caps. n = ca_name c \<and> map_of as (ca_server c) \<noteq> None" "dict_ok caps"
    and "map_of as server \<noteq> None"
  shows "(\<forall>(n, c) \<in> set (foldl (add_listing server) caps ts).
      n = ca_name c \<and> map_of as (ca_server c) \<noteq> None) \<and> dict_ok (foldl (add_listing server) caps ts)"
  using assms(1,2)
proof (induction ts arbitrary: caps)
  case (Cons t ts)
  have step: "(\<forall>(n, c) \<in> set (add_listing server caps t). n = ca_name c \<and> map_of as (ca_server c) \<noteq> None) \<and>
      dict_ok (add_listing server caps t)"
    using Cons.prems assms(3) by (auto simp: add_listing_def Let_def dest!: dict_set_mem)
  show ?case unfolding foldl_Cons by (rule Cons.IH [OF conjunct1 [OF step] conjunct2 [OF step]])
qed simp

lemma discover_from_ok:
  assumes "registry_ok g" "\<forall>(n, a) \<in> set as. map_of (mg_adapters g) n \<noteq> None"
  shows "registry_ok (fst (discover_from as g w)) \<and> mg_adapters (fst (discover_from as g w)) = mg_adapters g"
  using assms
proof (induction as arbitrary: g w)
  case (Cons x as)
  obtain n a where x: "x = (n, a)" by fastforce
  obtain q w' where q: "ad_list a w = (q, w')" by fastforce
  show ?case
  proof (cases q)
    case (Inl e)
    define g' where "g' = g\<lparr>mg_errors := dict_set n (exn_text e) (mg_errors g)\<rparr>"
    from Cons.prems have "registry_ok g'" "\<forall>(n, a) \<in> set as. map_of (mg_adapters g') n \<noteq> None"
      by (auto simp: g'_def registry_ok_def)
    from Cons.IH [OF this, of w'] show ?thesis by (simp add: x q Inl g'_def)
  next
    case (Inr ts)
    define g' where "g' = g\<lparr>mg_capabilities := foldl (add_listing n) (mg_capabilities g) ts\<rparr>"
    have "map_of (mg_adapters g) n \<noteq> None" using Cons.prems(2) x by auto
    with Cons.prems add_listing_ok [of "mg_capabilities g" "mg_adapters g" n ts]
    have "registry_ok g'" "\<forall>(n, a) \<in> set as. map_of (mg_adapters g') n \<noteq> None"
      by (auto simp: g'_def registry_ok_def)
    from Cons.IH [OF this, of w'] show ?thesis by (simp add: x q Inr g'_def)
  qed
qed simp

lemma discover_ok: "registry_ok (fst (discover g w)) \<and> mg_adapters (fst (discover g w)) = mg_adapters g"
proof -
  let ?g = "g\<lparr>mg_capabilities := [], mg_errors := []\<rparr>"
  have "registry_ok ?g" by (simp add: registry_ok_def)
  moreover have "\<forall>(n, a) \<in> set (sort_key fst (mg_adapters g)). map_of (mg_adapters ?g) n \<noteq> None"
    by (auto simp: map_of_eq_None_iff image_iff) (metis fst_conv)
  ultimately show ?thesis unfolding discover_def using discover_from_ok [of ?g] by auto
qed

text \<open>
  C21. What the selector asks for can be called. After discovery, whatever the servers list or
  whichever of them fail, a selected capability is a discovered one of the selected kind and has an
  adapter; without a selected capability there are no arguments.
\<close>

theorem selected_capability_has_adapter:
  fixes g w task
  defines "d \<equiv> fst (discover g w)"
  shows "case se_capability (select_capability d task) of
      None \<Rightarrow> se_arguments (select_capability d task) = []
    | Some n \<Rightarrow> se_needed (select_capability d task) \<and> adapter_for d n \<noteq> None \<and>
        se_kind (select_capability d task) = map_option ca_kind (map_of (mg_capabilities d) n)"
proof (cases "se_capability (select_capability d task)")
  case None
  with select_sound [of d task] show ?thesis by (simp add: sound_selection_def)
next
  case (Some n)
  with select_sound [of d task] obtain c where c: "c \<in> set (capabilities d)" "ca_name c = n"
    "se_kind (select_capability d task) = Some (ca_kind c)" "se_needed (select_capability d task)"
    by (auto simp: sound_selection_def)
  from discover_ok [of g w] have ok: "registry_ok d" by (simp add: d_def)
  with c(1,2) have "(n, c) \<in> set (mg_capabilities d)"
    by (auto simp: capabilities_def registry_ok_def)
  with ok have "map_of (mg_capabilities d) n = Some c" "map_of (mg_adapters d) (ca_server c) \<noteq> None"
    by (auto simp: registry_ok_def dict_lookup_mem)
  with Some c show ?thesis by (simp add: adapter_for_def)
qed

end
