(* ===== verification/Tool_Registry.thy ===== *)
theory Tool_Registry
  imports Verifier Trace Tool_Errors Risk Classifier Memory_Store Planner
begin

section \<open>The tool registry\<close>

text \<open>
  Models \<open>agent/sweforge/tools/registry.py\<close>: the tool context, the ledger of tool calls, the guard
  around every tool, and the twelve tools. The context holds the live subsystems; the objects that
  the runtime of the workflow shares with it (verifier, repository graph, classifier, memory) exist
  once, here. Services are a record of parameters on a world \<open>'w\<close>: the clock, encoding and appending a
  trace line, the analysis of the repository in the world (\<open>RepositoryAnalyzer(n).analyze\<close>), running a
  command, and the library of the memory store. A tool returns its payload as a record; the key \<open>ok\<close>
  of the payload dictionary is the constructor of \<open>tool_reply\<close>. Validating the arguments against the
  pydantic schema of a tool belongs to langchain and pydantic and happens before the guard.

  The lemmas show that every guarded call is in the ledger and in the trace exactly once and agrees
  with its reply, and that the ledger depends on the shape of the arguments only.
\<close>

subsection \<open>The ledger\<close>

record tool_call =
  tk_tool :: string
  tk_duration :: rat
  tk_ok :: bool
  tk_error :: "string option"
  tk_node :: "string option"
  tk_agent :: "string option"
  tk_model :: "string option"
  tk_args_summary :: string
  tk_status :: string

definition record_call :: "tool_call \<Rightarrow> tool_call list \<Rightarrow> tool_call list" where
  "record_call c l = l @ [c]"

definition total_tool_calls :: "tool_call list \<Rightarrow> nat" where
  "total_tool_calls l = length l"

definition by_tool :: "tool_call list \<Rightarrow> (string, nat) dict" where
  "by_tool l = foldl (\<lambda>d c. dict_bump (tk_tool c) d) [] l"

interpretation tool_ledger: event_log "\<lambda>l. l" record_call
  by unfold_locales (simp add: record_call_def)

fun type_name :: "pyval \<Rightarrow> string" where
  "type_name VNone = ''NoneType''"
| "type_name (VBool b) = ''bool''"
| "type_name (VInt n) = ''int''"
| "type_name (VFloat x) = ''float''"
| "type_name (VStr s) = ''str''"
| "type_name (VList vs) = ''list''"
| "type_name (VTuple vs) = ''tuple''"
| "type_name (VDict d) = ''dict''"
| "type_name (VObj c t) = c"

fun shape_of :: "pyval \<Rightarrow> string" where
  "shape_of (VStr s) = ''str['' @ show_nat (length s) @ '']''"
| "shape_of (VDict d) = ''dict['' @ show_nat (length d) @ '']''"
| "shape_of (VList vs) = ''list['' @ show_nat (length vs) @ '']''"
| "shape_of v = type_name v"

definition summarize_args :: "kwargs \<Rightarrow> string" where
  "summarize_args args =
     join '', '' (map (\<lambda>(k, v). k @ ''='' @ shape_of v) (sort_key fst args))"

subsection \<open>The context\<close>

record 'w services =
  sv_now :: "'w \<Rightarrow> rat"
  sv_dumps :: "kwargs \<Rightarrow> string result"
  sv_sink :: "string \<Rightarrow> ('w, unit) action"
  sv_analyze :: "nat \<Rightarrow> string \<Rightarrow> 'w \<Rightarrow> repository_map result"
  sv_run :: "'w runner"
  sv_memory :: memory_library

record 'w tool_context =
  tx_root :: string
  tx_graph :: "repo_graph option"
  tx_verifier :: "verifier option"
  tx_memory :: "store option"
  tx_engine :: "risk_engine option"
  tx_scanner :: "security_rule list option"
  tx_classifier :: "string list option option"
  tx_ledger :: "tool_call list"
  tx_node :: "string option"
  tx_agent :: "string option"
  tx_model :: "string option"
  tx_tracer :: "recorder option"
  tx_world :: 'w

type_synonym ('w, 'a) tool = "('w tool_context, 'a) action"

definition ensure_graph :: "'w services \<Rightarrow> ('w, repo_graph) tool" where
  "ensure_graph sv cx =
     (case tx_graph cx of
        Some g \<Rightarrow> (Inr g, cx)
      | None \<Rightarrow>
          (case sv_analyze sv 4000 (tx_root cx) (tx_world cx) of
             Inl e \<Rightarrow> (Inl e, cx)
           | Inr m \<Rightarrow> (Inr (build_graph m), cx\<lparr>tx_graph := Some (build_graph m)\<rparr>)))"

subsection \<open>The guard\<close>

datatype 'a tool_reply =
    ToolOk 'a
  | ToolError string tool_category

definition reply_status :: "'a tool_reply \<Rightarrow> string" where
  "reply_status r = (case r of ToolOk x \<Rightarrow> ''ok'' | ToolError m c \<Rightarrow> category_text c)"

definition reply_ok :: "'a tool_reply \<Rightarrow> bool" where
  "reply_ok r = (case r of ToolOk x \<Rightarrow> True | ToolError m c \<Rightarrow> False)"

definition reply_error :: "'a tool_reply \<Rightarrow> string option" where
  "reply_error r = (case r of ToolOk x \<Rightarrow> None | ToolError m c \<Rightarrow> Some m)"

definition reply_of :: "'a result \<Rightarrow> 'a tool_reply" where
  "reply_of out =
     (case out of Inr x \<Rightarrow> ToolOk x
      | Inl e \<Rightarrow> ToolError (exn_text e) (tc_category (classify_exception e)))"

definition trace_tool ::
  "'w services \<Rightarrow> string \<Rightarrow> rat \<Rightarrow> kwargs \<Rightarrow> 'a tool_reply \<Rightarrow> 'w tool_context \<Rightarrow> 'w tool_context" where
  "trace_tool sv name seconds args r cx =
     (case tx_tracer cx of
        None \<Rightarrow> cx
      | Some tr \<Rightarrow>
          (let detail = (''args'', VDict args) #
                 (case reply_error r of None \<Rightarrow> [] | Some m \<Rightarrow> [(''error'', VStr m)]);
               f = tool_event name (reply_status r)
                     (no_fields\<lparr>ef_node := tx_node cx, ef_agent := tx_agent cx,
                                ef_duration := Some seconds, ef_detail := detail\<rparr>)
           in case record_event (sv_dumps sv) (sv_sink sv) (sv_now sv (tx_world cx)) ''tool'' None f
                     (tr, tx_world cx) of
                (e, tr', w') \<Rightarrow> cx\<lparr>tx_tracer := Some tr', tx_world := w'\<rparr>))"

definition call_entry ::
  "string \<Rightarrow> rat \<Rightarrow> kwargs \<Rightarrow> 'a tool_reply \<Rightarrow> 'w tool_context \<Rightarrow> tool_call" where
  "call_entry name seconds args r cx =
     \<lparr>tk_tool = name, tk_duration = seconds, tk_ok = reply_ok r, tk_error = reply_error r,
      tk_node = tx_node cx, tk_agent = tx_agent cx, tk_model = tx_model cx,
      tk_args_summary = summarize_args args, tk_status = reply_status r\<rparr>"

definition guard ::
  "'w services \<Rightarrow> string \<Rightarrow> kwargs \<Rightarrow> ('w, 'a) tool \<Rightarrow> 'w tool_context \<Rightarrow> 'a tool_reply \<times> 'w tool_context" where
  "guard sv name args f cx =
     (case f cx of
        (out, c1) \<Rightarrow>
          (let seconds = py_round 6 (sv_now sv (tx_world c1) - sv_now sv (tx_world cx));
               r = reply_of out;
               c2 = c1\<lparr>tx_ledger := record_call (call_entry name seconds args r c1) (tx_ledger c1)\<rparr>
           in (r, trace_tool sv name seconds args r c2)))"

subsection \<open>Repository tools\<close>

record inventory =
  iv_summary :: repository_summary
  iv_stats :: graph_stats
  iv_parse_errors :: "(string \<times> string) list"

definition analyze_repository :: "'w services \<Rightarrow> nat \<Rightarrow> ('w, inventory) tool" where
  "analyze_repository sv max_files cx =
     (case sv_analyze sv max_files (tx_root cx) (tx_world cx) of
        Inl e \<Rightarrow> (Inl e, cx)
      | Inr m \<Rightarrow>
          (let g = build_graph m
           in (Inr \<lparr>iv_summary = to_summary m, iv_stats = stats g,
                    iv_parse_errors = take 10 (List.map_filter (\<lambda>(p, f).
                      case fi_parse_error f of None \<Rightarrow> None
                      | Some e \<Rightarrow> if e = [] then None else Some (p, e)) (rp_files m))\<rparr>,
               cx\<lparr>tx_graph := Some g\<rparr>)))"

definition with_graph :: "'w services \<Rightarrow> (repo_graph \<Rightarrow> 'a) \<Rightarrow> ('w, 'a) tool" where
  "with_graph sv f = and_then (ensure_graph sv) (\<lambda>g cx. (Inr (f g), cx))"

definition build_repository_graph :: "'w services \<Rightarrow> ('w, graph_stats \<times> string list) tool" where
  "build_repository_graph sv = with_graph sv (\<lambda>g. (stats g, find_relevant_modules g [] 0))"

record relevant_files =
  rf_task :: string
  rf_results :: "(string \<times> rat \<times> string list) list"
  rf_modules :: "string list"

definition find_relevant_files_tool ::
  "'w services \<Rightarrow> string \<Rightarrow> nat \<Rightarrow> bool \<Rightarrow> ('w, relevant_files) tool" where
  "find_relevant_files_tool sv task limit include_tests =
     with_graph sv (\<lambda>g.
       \<lparr>rf_task = task,
        rf_results = map (\<lambda>h. (fs_path h, fs_score h, take 3 (fs_reasons h)))
          (find_related_files g task limit include_tests True),
        rf_modules = find_relevant_modules g task 5\<rparr>)"

record dependencies =
  dp_file :: string
  dp_known :: bool
  dp_imports :: "string list"
  dp_imported_by :: "string list"

definition find_dependencies_tool :: "'w services \<Rightarrow> string \<Rightarrow> ('w, dependencies) tool" where
  "find_dependencies_tool sv file =
     with_graph sv (\<lambda>g.
       if map_of (rp_files (rg_map g)) file = None
       then \<lparr>dp_file = file, dp_known = False, dp_imports = [], dp_imported_by = []\<rparr>
       else \<lparr>dp_file = file, dp_known = True, dp_imports = find_dependencies g file,
             dp_imported_by = find_dependents g file\<rparr>)"

record callers =
  cr_symbol :: string
  cr_defined_in :: "string list"
  cr_referencing :: "string list"

definition find_callers_tool :: "'w services \<Rightarrow> string \<Rightarrow> ('w, callers) tool" where
  "find_callers_tool sv symbol =
     with_graph sv (\<lambda>g.
       \<lparr>cr_symbol = symbol, cr_defined_in = find_definition g symbol,
        cr_referencing = find_callers g symbol\<rparr>)"

definition find_related_tests_tool :: "'w services \<Rightarrow> string \<Rightarrow> ('w, string \<times> string list) tool" where
  "find_related_tests_tool sv file = with_graph sv (\<lambda>g. (file, find_tests_for_file g file))"

subsection \<open>Verification and diagnosis tools\<close>

definition run_verifier :: "'w services \<Rightarrow> verifier \<Rightarrow> string list \<Rightarrow> bool \<Rightarrow> ('w, verification_result) tool" where
  "run_verifier sv vf changed full cx =
     (case verify (sv_run sv) (sv_now sv) changed full (vf, tx_world cx) of
        (out, (vf', w')) \<Rightarrow> (out, cx\<lparr>tx_verifier := Some vf', tx_world := w'\<rparr>))"

text \<open>The payload of \<open>run_validation\<close> leaves the output out: \<open>result.model_dump(exclude={"output"})\<close>.\<close>

definition run_validation ::
  "'w services \<Rightarrow> string list \<Rightarrow> bool \<Rightarrow> ('w, verification_result \<times> string) tool" where
  "run_validation sv changed full cx =
     (case tx_verifier cx of
        None \<Rightarrow>
          (Inl (Raised ''RuntimeError''
             ''no verifier configured; verification requires an execution backend''), cx)
      | Some vf \<Rightarrow>
          and_then (run_verifier sv vf changed full)
            (\<lambda>r c. (Inr (r\<lparr>vr_output := []\<rparr>, verification_summary r), c)) cx)"

definition failure_stub :: "string \<Rightarrow> string list \<Rightarrow> verification_result" where
  "failure_stub output errors =
     \<lparr>vr_passed = False, vr_tests_run = 1, vr_tests_passed = 0, vr_tests_failed = 1,
      vr_lint_passed = None, vr_typecheck_passed = None, vr_errors = errors, vr_commands = [],
      vr_output = output, vr_duration = 0\<rparr>"

definition known_files :: "'w tool_context \<Rightarrow> string list option" where
  "known_files cx =
     (case tx_classifier cx of
        Some known \<Rightarrow> known
      | None \<Rightarrow> map_option (\<lambda>g. dict_keys (rp_files (rg_map g))) (tx_graph cx))"

definition analyze_failure :: "string \<Rightarrow> string list \<Rightarrow> ('w, classification) tool" where
  "analyze_failure output errors cx =
     (Inr (Classifier.classify (known_files cx) (failure_stub output errors)), cx)"

record git_diff =
  gd_base :: string
  gd_stat :: string
  gd_changed :: "string list"
  gd_exit_code :: int

definition diff_command :: "string \<Rightarrow> string \<Rightarrow> string list \<Rightarrow> string" where
  "diff_command flag base paths =
     strip (''git --no-pager diff '' @ flag @ '' '' @ base @ '' -- '' @ join '' '' paths)"

definition run_in_context :: "'w services \<Rightarrow> string \<Rightarrow> nat \<Rightarrow> ('w, exec_result) tool" where
  "run_in_context sv command timeout cx =
     (case sv_run sv command timeout (tx_world cx) of (out, w') \<Rightarrow> (out, cx\<lparr>tx_world := w'\<rparr>))"

definition inspect_git_diff :: "'w services \<Rightarrow> string \<Rightarrow> string list \<Rightarrow> ('w, git_diff) tool" where
  "inspect_git_diff sv base paths cx =
     (if tx_verifier cx = None
      then (Inl (Raised ''RuntimeError'' ''git inspection requires an execution backend''), cx)
      else and_then (run_in_context sv (diff_command ''--stat'' base paths) 60)
             (\<lambda>r. and_then (run_in_context sv (diff_command ''--name-only'' base paths) 60)
               (\<lambda>names c.
                 (Inr \<lparr>gd_base = base, gd_stat = last_n 4000 (er_stdout r),
                       gd_changed = filter (\<lambda>p. strip p \<noteq> []) (split_on newline (er_stdout names)),
                       gd_exit_code = er_exit_code r\<rparr>, c))) cx)"

subsection \<open>Risk, security and memory tools\<close>

definition bare_verification :: "bool \<Rightarrow> verification_result" where
  "bare_verification passed =
     \<lparr>vr_passed = passed, vr_tests_run = 0, vr_tests_passed = 0, vr_tests_failed = 0,
      vr_lint_passed = None, vr_typecheck_passed = None, vr_errors = [], vr_commands = [],
      vr_output = [], vr_duration = 0\<rparr>"

definition engine_of :: "'w tool_context \<Rightarrow> risk_engine" where
  "engine_of cx = (case tx_engine cx of None \<Rightarrow> default_engine | Some eng \<Rightarrow> eng)"

definition calculate_change_risk ::
  "(string, string) dict \<Rightarrow> string list \<Rightarrow> bool option \<Rightarrow> ('w, risk_score \<times> bool) tool" where
  "calculate_change_risk files deleted passed cx =
     (let score = assess (engine_of cx) \<lparr>cs_files = files, cs_deleted = Some deleted\<rparr>
                    (map_option bare_verification passed) None False 0
      in (Inr (score, requires_human_approval score), cx))"

definition security_scan :: "(string, string) dict \<Rightarrow> ('w, security_finding list) tool" where
  "security_scan files cx =
     (Inr (scan (case tx_scanner cx of None \<Rightarrow> [] | Some extra \<Rightarrow> extra)
             \<lparr>cs_files = files, cs_deleted = None\<rparr>), cx)"

record similar_task =
  si_task :: string
  si_outcome :: string
  si_score :: rat
  si_files :: "string list"
  si_lesson :: string
  si_terms :: "string list"

definition similar_of :: "retrieved \<Rightarrow> similar_task" where
  "similar_of r =
     \<lparr>si_task = xr_task (re_record r), si_outcome = xr_final_status (re_record r),
      si_score = re_score r, si_files = take 5 (xr_relevant_files (re_record r)),
      si_lesson = xr_lesson (re_record r), si_terms = take 8 (re_matched r)\<rparr>"

definition retrieve_similar_tasks ::
  "'w services \<Rightarrow> string \<Rightarrow> nat \<Rightarrow> ('w, similar_task list \<times> nat option) tool" where
  "retrieve_similar_tasks sv task limit cx =
     (case tx_memory cx of
        None \<Rightarrow> (Inr ([], None), cx)
      | Some st \<Rightarrow>
          (let lib = sv_memory sv;
               (rs, st') = retrieve (ml_log lib) (ml_bm25 lib) (ml_decode lib) task limit None False 0 st
           in (Inr (map similar_of rs, Some (store_length (ml_decode lib) st')),
               cx\<lparr>tx_memory := Some st'\<rparr>)))"

definition tool_names :: "string list" where
  "tool_names =
     [''analyze_repository'', ''build_repository_graph'', ''find_relevant_files'',
      ''find_dependencies'', ''find_callers'', ''find_related_tests'', ''run_validation'',
      ''analyze_failure'', ''inspect_git_diff'', ''calculate_change_risk'', ''security_scan'',
      ''retrieve_similar_tasks'']"

subsection \<open>Every guarded call is accounted\<close>

text \<open>\<open>quiet f\<close>: the tool \<open>f\<close> itself writes neither the ledger nor the trace nor the attribution.\<close>

definition books :: "'w tool_context \<Rightarrow> tool_call list \<times> recorder option \<times> string option \<times> string option \<times> string option" where
  "books cx = (tx_ledger cx, tx_tracer cx, tx_node cx, tx_agent cx, tx_model cx)"

definition quiet :: "('w, 'a) tool \<Rightarrow> bool" where
  "quiet f \<longleftrightarrow> (\<forall>cx. books (snd (f cx)) = books cx)"

lemma quiet_and_then: "quiet f \<Longrightarrow> (\<And>x. quiet (g x)) \<Longrightarrow> quiet (and_then f g)"
  unfolding quiet_def by (auto simp: and_then_def split: prod.split sum.split) (metis snd_conv)+

lemma quiet_ensure_graph [simp]: "quiet (ensure_graph sv)"
  by (simp add: quiet_def ensure_graph_def books_def split: option.split sum.split)

lemma quiet_pure [simp]: "quiet (\<lambda>cx. (Inr x, cx))"
  by (simp add: quiet_def)

lemma quiet_with_graph [simp]: "quiet (with_graph sv f)"
  unfolding with_graph_def by (rule quiet_and_then) simp_all

lemma quiet_run_verifier [simp]: "quiet (run_verifier sv vf changed full)"
  by (simp add: quiet_def run_verifier_def books_def split: prod.split)

lemma quiet_run_in_context [simp]: "quiet (run_in_context sv c t)"
  by (simp add: quiet_def run_in_context_def books_def split: prod.split)

lemma quiet_tools [simp]:
  "quiet (analyze_repository sv n)" "quiet (build_repository_graph sv)"
  "quiet (find_relevant_files_tool sv task limit it)" "quiet (find_dependencies_tool sv file)"
  "quiet (find_callers_tool sv symbol)" "quiet (find_related_tests_tool sv file)"
  "quiet (run_validation sv changed full)" "quiet (analyze_failure output errors)"
  "quiet (inspect_git_diff sv base paths)" "quiet (calculate_change_risk files deleted passed)"
  "quiet (security_scan files)" "quiet (retrieve_similar_tasks sv task limit)"
proof -
  show "quiet (analyze_repository sv n)"
    by (simp add: quiet_def analyze_repository_def books_def Let_def split: sum.split)
  show "quiet (build_repository_graph sv)" "quiet (find_relevant_files_tool sv task limit it)"
    "quiet (find_dependencies_tool sv file)" "quiet (find_callers_tool sv symbol)"
    "quiet (find_related_tests_tool sv file)"
    by (simp_all add: build_repository_graph_def find_relevant_files_tool_def
        find_dependencies_tool_def find_callers_tool_def find_related_tests_tool_def)
  show "quiet (run_validation sv changed full)"
  proof -
    have "quiet (and_then (run_verifier sv vf changed full)
        (\<lambda>r c. (Inr (r\<lparr>vr_output := []\<rparr>, verification_summary r), c)))" for vf
      by (intro quiet_and_then) simp_all
    then show ?thesis
      by (simp add: quiet_def run_validation_def split: option.split)
  qed
  show "quiet (analyze_failure output errors)" by (simp add: quiet_def analyze_failure_def)
  have "quiet (and_then (run_in_context sv c1 60) (\<lambda>r. and_then (run_in_context sv c2 60)
      (\<lambda>n c. (Inr (f r n), c))))" for c1 c2 :: string and f :: "exec_result \<Rightarrow> exec_result \<Rightarrow> git_diff"
    by (intro quiet_and_then) simp_all
  then show "quiet (inspect_git_diff sv base paths)"
    unfolding quiet_def inspect_git_diff_def by simp
  show "quiet (calculate_change_risk files deleted passed)"
    by (simp add: quiet_def calculate_change_risk_def Let_def)
  show "quiet (security_scan files)" by (simp add: quiet_def security_scan_def)
  show "quiet (retrieve_similar_tasks sv task limit)"
    by (simp add: quiet_def retrieve_similar_tasks_def books_def Let_def split: option.split prod.split)
qed

definition agrees :: "string \<Rightarrow> 'a tool_reply \<Rightarrow> 'w tool_context \<Rightarrow> tool_call \<Rightarrow> bool" where
  "agrees name r cx c \<longleftrightarrow>
     tk_tool c = name \<and> (tk_ok c \<longleftrightarrow> reply_ok r) \<and> tk_status c = reply_status r \<and>
     tk_error c = reply_error r \<and> tk_node c = tx_node cx \<and> tk_agent c = tx_agent cx"

definition traced_as :: "string \<Rightarrow> 'a tool_reply \<Rightarrow> 'w tool_context \<Rightarrow> trace_event \<Rightarrow> bool" where
  "traced_as name r cx e \<longleftrightarrow>
     te_event e = ''tool'' \<and> ef_tool (te_fields e) = Some name \<and>
     ef_status (te_fields e) = Some (reply_status r) \<and> ef_node (te_fields e) = tx_node cx \<and>
     ef_agent (te_fields e) = tx_agent cx"

definition trace_of :: "'w tool_context \<Rightarrow> trace_event list" where
  "trace_of cx = (case tx_tracer cx of None \<Rightarrow> [] | Some tr \<Rightarrow> tr_events tr)"

definition tracing_on :: "'w tool_context \<Rightarrow> bool" where
  "tracing_on cx = (case tx_tracer cx of None \<Rightarrow> False | Some tr \<Rightarrow> tr_enabled tr)"

lemma trace_tool_effect:
  "tx_ledger (trace_tool sv name seconds args r cx) = tx_ledger cx \<and>
   (\<exists>es. trace_of (trace_tool sv name seconds args r cx) = trace_of cx @ es \<and>
      (if tracing_on cx then \<exists>e. es = [e] \<and> traced_as name r cx e else es = []))"
proof (cases "tx_tracer cx")
  case None
  then show ?thesis by (simp add: trace_tool_def trace_of_def tracing_on_def)
next
  case (Some tr)
  define f where "f = tool_event name (reply_status r)
     (no_fields\<lparr>ef_node := tx_node cx, ef_agent := tx_agent cx, ef_duration := Some seconds,
        ef_detail := (''args'', VDict args) #
          (case reply_error r of None \<Rightarrow> [] | Some m \<Rightarrow> [(''error'', VStr m)])\<rparr>)"
  obtain e tr' w' where rec: "record_event (sv_dumps sv) (sv_sink sv) (sv_now sv (tx_world cx)) ''tool''
      None f (tr, tx_world cx) = (e, tr', w')" by (metis prod.exhaust)
  have tr': "tr' = (if tr_enabled tr then put_event (new_event (sv_now sv (tx_world cx)) ''tool'' None f tr) tr
      else tr)"
    using record_event_state [of "sv_dumps sv" "sv_sink sv" "sv_now sv (tx_world cx)" "''tool''" None f tr
        "tx_world cx"] rec by simp
  have "trace_tool sv name seconds args r cx = cx\<lparr>tx_tracer := Some tr', tx_world := w'\<rparr>"
    using Some rec by (simp add: trace_tool_def f_def Let_def)
  moreover have "traced_as name r cx (new_event (sv_now sv (tx_world cx)) ''tool'' None f tr)"
    by (simp add: traced_as_def new_event_def f_def tool_event_def no_fields_def)
  ultimately show ?thesis
    using Some tr' by (auto simp: trace_of_def tracing_on_def trace_log.entries_put)
qed

lemma guard_ledger:
  assumes "quiet f" "guard sv name args f cx = (r, cx')"
  shows "\<exists>c. tx_ledger cx' = tx_ledger cx @ [c] \<and> agrees name r cx c \<and> tk_args_summary c = summarize_args args"
proof -
  obtain out c1 where f: "f cx = (out, c1)" by fastforce
  with assms(1) have b: "books c1 = books cx" unfolding quiet_def by (metis snd_conv)
  define seconds where "seconds = py_round 6 (sv_now sv (tx_world c1) - sv_now sv (tx_world cx))"
  define c2 where "c2 = c1\<lparr>tx_ledger := record_call (call_entry name seconds args r c1) (tx_ledger c1)\<rparr>"
  from assms(2) f have "cx' = trace_tool sv name seconds args r c2"
    by (auto simp: guard_def seconds_def c2_def Let_def)
  then have "tx_ledger cx' = tx_ledger c1 @ [call_entry name seconds args r c1]"
    by (simp add: trace_tool_effect c2_def tool_ledger.entries_put)
  moreover have "agrees name r cx (call_entry name seconds args r c1)"
    using b by (simp add: agrees_def call_entry_def books_def)
  ultimately show ?thesis using b by (simp add: books_def call_entry_def)
qed

text \<open>
  Every guarded tool call is accounted. Whatever a tool does, raise included, the guard answers
  with a reply: the payload, or the text and the category of the exception. It adds exactly one entry
  to the ledger and, when tracing is on, exactly one trace event; both carry the name of the tool, the
  status of the reply and the attribution of the context.
\<close>

theorem tool_calls_are_accounted:
  assumes "quiet f" "guard sv name args f cx = (r, cx')"
  shows "r = reply_of (fst (f cx)) \<and>
    (\<exists>c. tx_ledger cx' = tx_ledger cx @ [c] \<and> agrees name r cx c \<and> tk_args_summary c = summarize_args args) \<and>
    (\<exists>es. trace_of cx' = trace_of cx @ es \<and>
       (if tracing_on cx then \<exists>e. es = [e] \<and> traced_as name r cx e else es = []))"
proof -
  obtain out c1 where f: "f cx = (out, c1)" by fastforce
  with assms(1) have b: "books c1 = books cx" unfolding quiet_def by (metis snd_conv)
  define seconds where "seconds = py_round 6 (sv_now sv (tx_world c1) - sv_now sv (tx_world cx))"
  define c2 where "c2 = c1\<lparr>tx_ledger := record_call (call_entry name seconds args (reply_of out) c1) (tx_ledger c1)\<rparr>"
  from assms(2) f have r: "r = reply_of out" and cx': "cx' = trace_tool sv name seconds args r c2"
    by (auto simp: guard_def seconds_def c2_def Let_def)
  have same: "trace_of c2 = trace_of cx" "tracing_on c2 = tracing_on cx"
    "traced_as name r c2 = traced_as name r cx"
    using b by (auto simp: c2_def books_def trace_of_def tracing_on_def traced_as_def)
  have "\<exists>es. trace_of cx' = trace_of cx @ es \<and>
      (if tracing_on cx then \<exists>e. es = [e] \<and> traced_as name r cx e else es = [])"
    using trace_tool_effect [of sv name seconds args r c2] same unfolding cx'
    by (cases "tracing_on cx") simp_all
  with guard_ledger [OF assms] r f show ?thesis by simp
qed

definition demo_services :: "unit services" where
  "demo_services =
     \<lparr>sv_now = (\<lambda>w. 0), sv_dumps = (\<lambda>k. Inr []), sv_sink = (\<lambda>l w. (Inr (), w)),
      sv_analyze = (\<lambda>n r w. Inl (Raised ''OSError'' ''gone'')),
      sv_run = (\<lambda>c t w. (Inl (Raised ''OSError'' ''gone''), w)), sv_memory = small_library\<rparr>"

definition demo_context :: "unit tool_context" where
  "demo_context =
     \<lparr>tx_root = ''/repo'', tx_graph = None, tx_verifier = None, tx_memory = None, tx_engine = None,
      tx_scanner = None, tx_classifier = None, tx_ledger = [], tx_node = Some ''planning'',
      tx_agent = None, tx_model = None, tx_tracer = None, tx_world = ()\<rparr>"

lemma tool_calls_are_accounted_witness:
  "\<exists>c. tx_ledger (snd (guard demo_services ''inspect_git_diff'' [(''base'', VStr ''HEAD'')]
          (inspect_git_diff demo_services ''HEAD'' []) demo_context)) = [c] \<and>
     \<not> tk_ok c \<and> tk_node c = Some ''planning''"
proof -
  obtain r cx where g: "guard demo_services ''inspect_git_diff'' [(''base'', VStr ''HEAD'')]
      (inspect_git_diff demo_services ''HEAD'' []) demo_context = (r, cx)" by fastforce
  have "fst (inspect_git_diff demo_services ''HEAD'' [] demo_context) =
      Inl (Raised ''RuntimeError'' ''git inspection requires an execution backend'')"
    by (simp add: inspect_git_diff_def demo_context_def)
  with tool_calls_are_accounted [OF _ g] have
    "\<exists>c. tx_ledger cx = tx_ledger demo_context @ [c] \<and> agrees ''inspect_git_diff'' r demo_context c"
    "\<not> reply_ok r"
    by (auto simp: reply_of_def reply_ok_def)
  then show ?thesis
    unfolding g by (auto simp: agrees_def demo_context_def)
qed

text \<open>Two argument lists of the same keys and shapes leave the same summary: no value is kept.\<close>

lemma sort_key_map: "(\<And>x. h (g x) = k x) \<Longrightarrow> sort_key h (map g xs) = map g (sort_key k xs)"
proof (induction xs)
  case (Cons x xs)
  have "insort_key h (g y) (map g ys) = map g (insort_key k y ys)" for y ys
    by (induction ys) (simp_all add: Cons.prems)
  with Cons show ?case by simp
qed simp

lemma summary_from_shapes:
  "summarize_args args =
     join '', '' (map (\<lambda>(k, v). k @ ''='' @ v) (sort_key fst (map (\<lambda>(k, v). (k, shape_of v)) args)))"
proof -
  have "sort_key fst (map (\<lambda>(k, v). (k, shape_of v)) args) = map (\<lambda>(k, v). (k, shape_of v)) (sort_key fst args)"
    by (rule sort_key_map) auto
  then show ?thesis by (simp add: summarize_args_def comp_def case_prod_unfold)
qed

lemma summary_hides_values:
  "map (\<lambda>(k, v). (k, shape_of v)) args = map (\<lambda>(k, v). (k, shape_of v)) args' \<Longrightarrow>
   summarize_args args = summarize_args args'"
  by (simp add: summary_from_shapes)


end
