(* ===== verification/Agents.thy ===== *)
theory Agents
  imports Tool_Loop Repo_Graph Memory_Store Classifier
begin

section \<open>The agents\<close>

text \<open>
  Models \<open>agent/sweforge/agents/roles.py\<close> and \<open>agent/sweforge/agents/specialized.py\<close>: the general
  implementation agent, the six specialised agents, the independent reviewer and the diagnostician.
  Models are the environments \<open>loop_env\<close> of the tool-calling loop, one for each contract; \<open>ae_build\<close>
  is \<open>router.build_model\<close>, \<open>ae_read\<close> reads a file through the backend and \<open>ae_system\<close> gives the wording
  of the system prompts, which no code reads. A structured answer is validated as pydantic does when
  it builds the output model: an invalid edit path makes the call raise.

  The lemmas show that an agent answers every subtask without raising, that a failing agent reports
  failure and writes nothing, that it only reaches the tools of its contract, and that the reviewer
  never approves by failing.
\<close>

subsection \<open>File contents\<close>

definition max_file_chars :: nat where
  "max_file_chars = 8000"

definition render_files :: "nat \<Rightarrow> (string, string) dict \<Rightarrow> string" where
  "render_files max_chars files =
     (if files = [] then ''(no file contents available)''
      else join [newline, newline] (map (\<lambda>(path, content).
             ''--- '' @ path @ '' ---'' @ [newline] @
             (if max_chars < length content
              then take max_chars content @ [newline] @ ''... [truncated, '' @
                   show_nat (length content) @ '' chars total]''
              else content)) (sort_key fst files)))"

fun read_paths ::
  "(string \<Rightarrow> ('w, string) action) \<Rightarrow> string list \<Rightarrow> 'w \<Rightarrow> (string, string) dict \<times> 'w" where
  "read_paths rd [] w = ([], w)"
| "read_paths rd (p # ps) w =
     (case rd p w of
        (out, w1) \<Rightarrow>
          (case read_paths rd ps w1 of
             (cs, w2) \<Rightarrow> (case out of Inl e \<Rightarrow> cs | Inr c \<Rightarrow> (p, c) # cs, w2)))"

definition read_files ::
  "(string \<Rightarrow> ('w, string) action) \<Rightarrow> string list \<Rightarrow> 'w \<Rightarrow> (string, string) dict \<times> 'w" where
  "read_files rd paths = read_paths rd (uniq paths)"

subsection \<open>Contracts\<close>

datatype agent_class =
    GeneralAgent | TestAgent | BackendAgent | FrontendAgent | DatabaseAgent
  | DocumentationAgent | SecurityAgent

definition agent_classes :: "(agent_role, agent_class) dict" where
  "agent_classes =
     [(TestRole, TestAgent), (BackendRole, BackendAgent), (FrontendRole, FrontendAgent),
      (DatabaseRole, DatabaseAgent), (DocumentationRole, DocumentationAgent),
      (SecurityRole, SecurityAgent)]"

definition build_agent :: "agent_role \<Rightarrow> agent_class" where
  "build_agent role = dict_get agent_classes role GeneralAgent"

record contract =
  ac_name :: string
  ac_role :: agent_role
  ac_model_role :: string
  ac_tools :: "string list"
  ac_node :: string

definition general_contract :: contract where
  "general_contract =
     \<lparr>ac_name = ''ImplementationAgent'', ac_role = ImplementationRole, ac_model_role = ''implementation'',
      ac_tools = [''find_relevant_files'', ''find_dependencies''], ac_node = ''implementation''\<rparr>"

definition test_contract :: contract where
  "test_contract =
     \<lparr>ac_name = ''TestAgent'', ac_role = TestRole, ac_model_role = ''test_authoring'',
      ac_tools = [''find_related_tests'', ''find_relevant_files''], ac_node = ''test_authoring''\<rparr>"

definition backend_contract :: contract where
  "backend_contract =
     \<lparr>ac_name = ''BackendAgent'', ac_role = BackendRole, ac_model_role = ''implementation'',
      ac_tools = [''find_dependencies'', ''find_callers'', ''find_relevant_files''],
      ac_node = ''backend_implementation''\<rparr>"

definition frontend_contract :: contract where
  "frontend_contract =
     \<lparr>ac_name = ''FrontendAgent'', ac_role = FrontendRole, ac_model_role = ''implementation'',
      ac_tools = [''find_relevant_files''], ac_node = ''frontend_implementation''\<rparr>"

definition database_contract :: contract where
  "database_contract =
     \<lparr>ac_name = ''DatabaseAgent'', ac_role = DatabaseRole, ac_model_role = ''implementation'',
      ac_tools = [''find_dependencies'', ''find_callers''], ac_node = ''database_implementation''\<rparr>"

definition documentation_contract :: contract where
  "documentation_contract =
     \<lparr>ac_name = ''DocumentationAgent'', ac_role = DocumentationRole, ac_model_role = ''documentation'',
      ac_tools = [''find_relevant_files''], ac_node = ''documentation''\<rparr>"

definition security_contract :: contract where
  "security_contract =
     \<lparr>ac_name = ''SecurityAgent'', ac_role = SecurityRole, ac_model_role = ''security_analysis'',
      ac_tools = [''security_scan'', ''calculate_change_risk''], ac_node = ''security_agent''\<rparr>"

fun contract_of :: "agent_class \<Rightarrow> contract" where
  "contract_of GeneralAgent = general_contract"
| "contract_of TestAgent = test_contract"
| "contract_of BackendAgent = backend_contract"
| "contract_of FrontendAgent = frontend_contract"
| "contract_of DatabaseAgent = database_contract"
| "contract_of DocumentationAgent = documentation_contract"
| "contract_of SecurityAgent = security_contract"

lemmas contract_defs =
  general_contract_def test_contract_def backend_contract_def frontend_contract_def database_contract_def documentation_contract_def security_contract_def

definition granted_tools :: "agent_class \<Rightarrow> string list \<Rightarrow> string list" where
  "granted_tools c available = filter (\<lambda>t. t \<in> set available) (ac_tools (contract_of c))"

subsection \<open>Structured outputs\<close>

datatype agent_output =
    ImplementationOutput "file_edit list" string bool
  | TestChanges "file_edit list" "string list" string bool
  | BackendChanges "file_edit list" "string list" bool string
  | FrontendChanges "file_edit list" "string list" bool string
  | MigrationChanges "file_edit list" bool "string list" bool string
  | DocChanges "file_edit list" "string list" string
  | SecurityAssessment "security_finding list" "string list" bool string

fun edits_of :: "agent_output \<Rightarrow> file_edit list" where
  "edits_of (ImplementationOutput es notes confident) = es"
| "edits_of (TestChanges es added behaviour fails) = es"
| "edits_of (BackendChanges es callers changed notes) = es"
| "edits_of (FrontendChanges es comps a11y notes) = es"
| "edits_of (MigrationChanges es reversible destructive backfill notes) = es"
| "edits_of (DocChanges es docs behaviour) = es"
| "edits_of (SecurityAssessment findings paths review summary) = []"

fun with_edits :: "agent_output \<Rightarrow> file_edit list \<Rightarrow> agent_output" where
  "with_edits (ImplementationOutput es notes confident) fs = ImplementationOutput fs notes confident"
| "with_edits (TestChanges es added behaviour fails) fs = TestChanges fs added behaviour fails"
| "with_edits (BackendChanges es callers changed notes) fs = BackendChanges fs callers changed notes"
| "with_edits (FrontendChanges es comps a11y notes) fs = FrontendChanges fs comps a11y notes"
| "with_edits (MigrationChanges es reversible destructive backfill notes) fs =
     MigrationChanges fs reversible destructive backfill notes"
| "with_edits (DocChanges es docs behaviour) fs = DocChanges fs docs behaviour"
| "with_edits (SecurityAssessment findings paths review summary) fs =
     SecurityAssessment findings paths review summary"

definition or_none :: "string list \<Rightarrow> string" where
  "or_none xs = (let s = join '', '' xs in if s = [] then ''none'' else s)"

fun summarize :: "agent_output \<Rightarrow> string" where
  "summarize (ImplementationOutput es notes confident) = notes"
| "summarize (TestChanges es added behaviour fails) =
     ''tests added: '' @ or_none added @ ''; covers: '' @ take 160 behaviour @
     ''; fails_before_fix='' @ bool_text fails"
| "summarize (BackendChanges es callers changed notes) =
     ''contract_changed='' @ bool_text changed @ ''; affected callers: '' @ or_none (take 5 callers) @
     ''; '' @ take 160 notes"
| "summarize (FrontendChanges es comps a11y notes) =
     ''components: '' @ or_none (take 5 comps) @ ''; a11y_considered='' @ bool_text a11y @
     ''; '' @ take 160 notes"
| "summarize (MigrationChanges es reversible destructive backfill notes) =
     ''reversible='' @ bool_text reversible @ ''; destructive='' @ or_none (take 4 destructive) @
     ''; backfill='' @ bool_text backfill @ ''; '' @ take 120 notes"
| "summarize (DocChanges es docs behaviour) =
     ''docs updated: '' @ or_none (take 5 docs) @ ''; '' @ take 160 behaviour"
| "summarize (SecurityAssessment findings paths review summary) =
     show_nat (length findings) @ '' finding(s); requires_human_review='' @ bool_text review @
     ''; '' @ take 160 summary"

fun validate_edits :: "file_edit list \<Rightarrow> file_edit list result" where
  "validate_edits [] = Inr []"
| "validate_edits (e # es) =
     (case validate_edit e of
        Inl x \<Rightarrow> Inl x
      | Inr f \<Rightarrow> (case validate_edits es of Inl x \<Rightarrow> Inl x | Inr fs \<Rightarrow> Inr (f # fs)))"

definition validate_output :: "agent_output \<Rightarrow> agent_output result" where
  "validate_output out =
     (case validate_edits (edits_of out) of Inl x \<Rightarrow> Inl x | Inr fs \<Rightarrow> Inr (with_edits out fs))"

text \<open>
  \<open>structured v call\<close>: the structured answer of \<open>call\<close>, validated by \<open>v\<close>. The text of the error is
  the message of the validator; pydantic adds a heading to it.
\<close>

definition structured :: "('a \<Rightarrow> 'a result) \<Rightarrow> ('w, 'a) action \<Rightarrow> ('w, 'a) action" where
  "structured v call =
     and_then call (\<lambda>x w.
       (case v x of Inl e \<Rightarrow> Inl (Raised ''ValidationError'' (exn_str e)) | Inr y \<Rightarrow> Inr y, w))"

subsection \<open>Prompts of the implementing agents\<close>

definition or_choose :: "string list \<Rightarrow> string" where
  "or_choose xs = (let s = join '', '' xs in if s = [] then ''you must choose'' else s)"

definition general_prompt :: "subtask \<Rightarrow> task_plan \<Rightarrow> string \<Rightarrow> string" where
  "general_prompt st plan contents =
     join [newline]
       [''Overall task complexity: '' @ complexity_text (pl_complexity plan),
        ''Testing strategy: '' @ pl_testing_strategy plan, [],
        ''Your subtask ('' @ st_id st @ '', agent='' @ role_text (st_agent st) @ ''):'', st_description st, [],
        ''Target files: '' @ or_choose (st_target_files st), [],
        ''Current file contents:'', contents]"

definition specialized_prompt :: "subtask \<Rightarrow> task_plan \<Rightarrow> string \<Rightarrow> string \<Rightarrow> string" where
  "specialized_prompt st plan extra contents =
     join [newline]
       [''Task complexity: '' @ complexity_text (pl_complexity plan) @ '' | risk: '' @
          level_text (pl_risk_level plan),
        ''Testing strategy: '' @ pl_testing_strategy plan, [],
        ''Your subtask ('' @ st_id st @ ''):'', st_description st, [],
        ''Target files: '' @ or_choose (st_target_files st), extra, [],
        ''Current file contents:'', contents]"

text \<open>The code writes a dash in the first text below; characters here stop at 255, so it is a hyphen.\<close>

definition test_context :: "repo_graph \<Rightarrow> subtask \<Rightarrow> task_plan \<Rightarrow> string" where
  "test_context g st plan =
     (let found = py_sorted (uniq (concat (map (find_tests_for_file g)
                    (take 4 (st_target_files st @ pl_relevant_files plan)))))
      in [newline, newline] @
         (if found = [] then ''No existing tests cover these files - you are creating first coverage.''
          else ''Existing tests covering these files: '' @ join '', '' (take 6 found)))"

definition backend_context :: "repo_graph \<Rightarrow> subtask \<Rightarrow> string" where
  "backend_context g st =
     (let ls = map (\<lambda>p. ''  '' @ p @ '' is imported by: '' @ join '', '' (take 5 (find_dependents g p)))
                 (filter (\<lambda>p. find_dependents g p \<noteq> []) (take 4 (st_target_files st)))
      in if ls = [] then []
         else [newline, newline] @ ''Static blast radius:'' @ [newline] @ join [newline] ls)"

definition extra_prompt_context :: "agent_class \<Rightarrow> repo_graph option \<Rightarrow> subtask \<Rightarrow> task_plan \<Rightarrow> string" where
  "extra_prompt_context c graph st plan =
     (case graph of
        None \<Rightarrow> []
      | Some g \<Rightarrow>
          if c = TestAgent then test_context g st plan
          else if c = BackendAgent then backend_context g st else [])"

definition context_paths :: "agent_class \<Rightarrow> subtask \<Rightarrow> task_plan \<Rightarrow> string list" where
  "context_paths c st plan =
     (if c = GeneralAgent then uniq (st_target_files st)
      else take 8 (uniq (st_target_files st @ pl_relevant_files plan)))"

definition agent_prompt ::
  "agent_class \<Rightarrow> repo_graph option \<Rightarrow> subtask \<Rightarrow> task_plan \<Rightarrow> string \<Rightarrow> string" where
  "agent_prompt c graph st plan contents =
     (if c = GeneralAgent then general_prompt st plan contents
      else specialized_prompt st plan (extra_prompt_context c graph st plan) contents)"

subsection \<open>Running an agent\<close>

datatype prompt_owner = Implementer agent_class | Reviewer | Diagnostician

record repair_output =
  ro_diagnosis :: failure_diagnosis
  ro_edits :: "file_edit list"
  ro_strategy :: string

record 'w agent_env =
  ae_agent :: "agent_class \<Rightarrow> model_spec \<Rightarrow> ('w, agent_output) loop_env"
  ae_review :: "model_spec \<Rightarrow> ('w, review_result) loop_env"
  ae_repair :: "model_spec \<Rightarrow> ('w, repair_output) loop_env"
  ae_build :: "model_spec \<Rightarrow> ('w, unit) action"
  ae_read :: "string \<Rightarrow> ('w, string) action"
  ae_tools :: "string list"
  ae_system :: "prompt_owner \<Rightarrow> string"

record 'w agent_state =
  ag_router :: router
  ag_budget :: "budget option"
  ag_world :: 'w

definition loop_start :: "'w agent_state \<Rightarrow> 'w loop_state" where
  "loop_start s =
     \<lparr>ls_router = ag_router s, ls_budget = ag_budget s, ls_invocations = [], ls_iterations = 0,
      ls_tool_phase = False, ls_conversation = [], ls_world = ag_world s\<rparr>"

definition loop_end :: "'w loop_state \<Rightarrow> 'w agent_state" where
  "loop_end l = \<lparr>ag_router = ls_router l, ag_budget = ls_budget l, ag_world = ls_world l\<rparr>"

definition agent_loop_env :: "'w agent_env \<Rightarrow> agent_class \<Rightarrow> model_spec \<Rightarrow> ('w, agent_output) loop_env" where
  "agent_loop_env env c spec =
     (let base = ae_agent env c spec
      in base\<lparr>le_tools := granted_tools c (ae_tools env),
              le_extract := (\<lambda>m. structured validate_output (le_extract base m))\<rparr>)"

definition agent_loop ::
  "'w agent_env \<Rightarrow> agent_class \<Rightarrow> repo_graph option \<Rightarrow> subtask \<Rightarrow> task_plan \<Rightarrow> 'w agent_state
   \<Rightarrow> agent_output result \<times> 'w loop_state" where
  "agent_loop env c graph st plan s =
     (case read_files (ae_read env) (context_paths c st plan) (ag_world s) of
        (contents, w) \<Rightarrow>
          (let k = contract_of c;
               spec = rd_spec (select (ag_router s) (ac_model_role k) (pl_complexity plan) False);
               prompt = [Prompt (ae_system env (Implementer c)),
                         Prompt (agent_prompt c graph st plan (render_files max_file_chars contents))]
           in run_loop (new_loop (ac_node k) (role_text (ac_role k))) (agent_loop_env env c spec)
                (ae_build env spec) spec prompt (loop_start (s\<lparr>ag_world := w\<rparr>))))"

definition failed_result :: "agent_class \<Rightarrow> subtask \<Rightarrow> exn \<Rightarrow> implementation_result" where
  "failed_result c st e =
     \<lparr>ir_subtask_id = st_id st,
      ir_agent = (if c = GeneralAgent then st_agent st else ac_role (contract_of c)), ir_edits = [],
      ir_notes = (if c = GeneralAgent then ''implementation'' else ac_name (contract_of c)) @
                 '' failed: '' @ exn_text e,
      ir_succeeded = False\<rparr>"

definition to_result :: "agent_class \<Rightarrow> subtask \<Rightarrow> agent_output \<Rightarrow> implementation_result" where
  "to_result c st out =
     (let es = (if c = SecurityAgent then [] else edits_of out)
      in \<lparr>ir_subtask_id = st_id st,
          ir_agent = (if c = GeneralAgent then st_agent st else ac_role (contract_of c)), ir_edits = es,
          ir_notes = summarize out, ir_succeeded = (c = SecurityAgent \<or> es \<noteq> [])\<rparr>)"

definition run_agent ::
  "'w agent_env \<Rightarrow> agent_class \<Rightarrow> repo_graph option \<Rightarrow> subtask \<Rightarrow> task_plan \<Rightarrow> 'w agent_state
   \<Rightarrow> implementation_result \<times> 'w agent_state" where
  "run_agent env c graph st plan s =
     (case agent_loop env c graph st plan s of
        (Inl e, l) \<Rightarrow> (failed_result c st e, loop_end l)
      | (Inr out, l) \<Rightarrow> (to_result c st out, loop_end l))"

subsection \<open>Tools an agent reaches\<close>

definition only_tools :: "string list \<Rightarrow> 'w loop_state \<Rightarrow> bool" where
  "only_tools ts l \<longleftrightarrow> (\<forall>i \<in> set (ls_invocations l). ti_tool i \<in> set ts)"

lemma only_tools_say [simp]: "only_tools ts (say m l) = only_tools ts l"
  by (simp add: only_tools_def say_def)

lemma only_tools_consume [simp]: "only_tools ts (consume_in f l) = only_tools ts l"
  by (simp add: only_tools_def consume_in_def)

lemma only_tools_budget: "with_budget check x l = (r, l') \<Longrightarrow> only_tools ts l' = only_tools ts l"
  by (auto simp: only_tools_def with_budget_def split: option.splits prod.splits)

lemma only_tools_tracked: "tracked env node spec call l = (r, l') \<Longrightarrow> only_tools ts l' = only_tools ts l"
  by (auto simp: only_tools_def tracked_def Let_def split: prod.splits)

lemma only_tools_run_tool:
  assumes "name \<in> set ts" "only_tools ts l"
  shows "only_tools ts (snd (run_tool cfg invoke name args l))"
proof -
  obtain r m l' where
    run: "retry_from (attempt_tool cfg invoke name args) (retry_tool cfg) 1 l = Some (r, m, l')"
      "run_tool cfg invoke name args l = ((outcome_text r, succeeded r), l')"
    by (rule run_tool_returns)
  from run(1) have "only_tools ts l'"
  proof (rule tool_retry.preserves)
    show "attempt_tool cfg invoke name args n t = (q, t') \<Longrightarrow> only_tools ts t \<Longrightarrow> only_tools ts t'"
      for n t q t'
      using assms(1) by (auto simp: attempt_tool_def only_tools_def invocation_def Let_def split: prod.splits)
  qed (rule assms(2))
  with run(2) show ?thesis by simp
qed

lemma only_tools_answer_calls:
  "only_tools (le_tools env) l \<Longrightarrow> only_tools (le_tools env) (answer_calls cfg env cs l)"
proof (induction cs arbitrary: l)
  case (Cons c cs)
  define l0 where "l0 = l\<lparr>ls_world := le_attribute env (lc_agent cfg) (lc_node cfg) (ls_world l)\<rparr>"
  have l0: "only_tools (le_tools env) l0" using Cons.prems by (simp add: l0_def only_tools_def)
  obtain q l1 where ch: "with_budget (check_tool_call (le_now env (ls_world l0)) 1) () l0 = (q, l1)"
    by fastforce
  have l1: "only_tools (le_tools env) l1" using only_tools_budget [OF ch] l0 by blast
  obtain x l2 where run: "run_tool cfg (le_invoke env (tq_name c)) (tq_name c) (tq_args c)
      (consume_in (consume_tool_call 1) l1) = (x, l2)" by fastforce
  have "only_tools (le_tools env) l2" if "tq_name c \<in> set (le_tools env)"
    using only_tools_run_tool [OF that, of "consume_in (consume_tool_call 1) l1"] l1 run
    by (metis only_tools_consume snd_conv)
  with Cons.IH l0 l1 ch run show ?case
    by (cases "tq_name c \<in> set (le_tools env)"; cases q) (auto simp: Let_def simp flip: l0_def split: prod.split)
qed simp

lemma only_tools_rounds:
  "tool_rounds cfg env spec k l = (r, l') \<Longrightarrow> only_tools (le_tools env) l \<Longrightarrow> only_tools (le_tools env) l'"
proof (induction k arbitrary: l)
  case (Suc k)
  obtain q l1 where ch: "with_budget (check_model_call (le_now env (ls_world l)) 1) () l = (q, l1)"
    by fastforce
  obtain out l2 where tr: "tracked env (lc_node cfg) spec (le_chat env (ls_conversation l1)) l1 = (out, l2)"
    by fastforce
  have l12: "only_tools (le_tools env) l1" "only_tools (le_tools env) l2"
    using only_tools_budget [OF ch] only_tools_tracked [OF tr] Suc.prems(2) by auto
  define l3 where "l3 = consume_in (consume_model_call 0 0 0) (l2\<lparr>ls_iterations := Suc (ls_iterations l2)\<rparr>)"
  have l3: "only_tools (le_tools env) l3" using l12 by (simp add: l3_def only_tools_def consume_in_def)
  show ?case
  proof (cases q)
    case (Inl e)
    with Suc.prems(1) ch l12 show ?thesis by simp
  next
    case (Inr u)
    show ?thesis
    proof (cases out)
      case (Inl e)
      with Suc.prems(1) ch Inr tr l12 show ?thesis by simp
    next
      case out: (Inr x)
      let ?m = "AiMessage (re_text x) (re_calls x)"
      from Suc.prems(1) ch Inr tr out have
        "(if re_calls x = [] then (Inr (), if re_is_ai x then say ?m l3 else l3)
          else tool_rounds cfg env spec k (answer_calls cfg env (re_calls x) (say ?m l3))) = (r, l')"
        by (cases "re_calls x = []"; cases "re_is_ai x") (simp_all add: l3_def Let_def)
      then show ?thesis
        using Suc.IH only_tools_answer_calls [of env "say ?m l3" cfg "re_calls x"] l3
        by (auto split: if_splits)
    qed
  qed
qed simp

lemma only_tools_loop:
  assumes "run_loop cfg env build spec messages l = (r, l')" "only_tools (le_tools env) l"
  shows "only_tools (le_tools env) l'"
proof -
  obtain q w where b: "build (ls_world l) = (q, w)" by fastforce
  define l1 where "l1 = l\<lparr>ls_world := w, ls_conversation := messages\<rparr>"
  show ?thesis
  proof (cases "isl q \<or> isl (bind_tools env)")
    case True
    with assms b have "ls_invocations l' = ls_invocations l"
      by (cases q; cases "bind_tools env") (auto simp: run_loop_def Let_def)
    with assms(2) show ?thesis by (simp add: only_tools_def)
  next
    case False
    then obtain x where x: "bind_tools env = Inr x" by (cases "bind_tools env") auto
    define l2 where "l2 = l1\<lparr>ls_tool_phase := x\<rparr>"
    have l2: "only_tools (le_tools env) l2" using assms(2) by (simp add: l1_def l2_def only_tools_def)
    obtain y l3 where t: "(if x then tool_rounds cfg env spec (lc_max_iterations cfg) l2 else (Inr (), l2)) = (y, l3)"
      by fastforce
    then have l3: "only_tools (le_tools env) l3"
      using l2 only_tools_rounds by (cases x) auto
    have "run_loop cfg env build spec messages l =
        and_then (\<lambda>s. if x then tool_rounds cfg env spec (lc_max_iterations cfg) s else (Inr (), s))
          (\<lambda>_. extraction cfg env spec) l2"
      using False b x by (cases q) (simp_all add: run_loop_def l1_def l2_def Let_def)
    with assms(1) t have run: "(case (y, l3) of (Inl e, t) \<Rightarrow> (Inl e, t) | (Inr u, t) \<Rightarrow> extraction cfg env spec t) = (r, l')"
      unfolding and_then_def by simp
    show ?thesis
    proof (cases y)
      case (Inl e)
      with run l3 show ?thesis by simp
    next
      case (Inr u)
      with run have ex: "extraction cfg env spec l3 = (r, l')" by simp
      obtain q1 m1 where ch: "with_budget (check_model_call (le_now env (ls_world l3)) 1) () l3 = (q1, m1)"
        by fastforce
      obtain q2 m2 where tr: "tracked env (lc_node cfg) spec (le_extract env (ls_conversation m1)) m1 = (q2, m2)"
        by fastforce
      from ex ch tr have "l' \<in> {m1, m2, consume_in (consume_model_call 0 0 0) m2}"
        by (cases q1; cases q2) (auto simp: extraction_def and_then_def)
      with l3 only_tools_budget [OF ch] only_tools_tracked [OF tr] show ?thesis by auto
    qed
  qed
qed

text \<open>A result of the loop is an answer of the structured call.\<close>

lemma tracked_out: "tracked env node spec call l = (out, l') \<Longrightarrow> out = fst (call (ls_world l))"
  by (auto simp: tracked_def Let_def split: prod.splits)

lemma run_loop_answer:
  assumes "run_loop cfg env build spec messages l = (Inr out, l')"
  shows "\<exists>m w. fst (le_extract env m w) = Inr out"
proof -
  from assms obtain m where "extraction cfg env spec m = (Inr out, l')"
    by (auto simp: run_loop_def and_then_def Let_def split: prod.splits sum.splits if_splits)
  then obtain a b c where "tracked env (lc_node cfg) spec (le_extract env a) b = (Inr out, c)"
    by (auto simp: extraction_def and_then_def split: prod.splits sum.splits)
  from tracked_out [OF this] show ?thesis by metis
qed

text \<open>
  Least privilege of agents. Whatever the model asks for, every tool an agent runs is in the
  contract of its class and in the tool set of the runtime; the loop makes at most five model calls
  for a subtask, each of them in the ledger of the router.
\<close>

theorem agent_reaches_contract_tools:
  "list_all (\<lambda>i. ti_tool i \<in> set (ac_tools (contract_of c)) \<inter> set (ae_tools env))
     (ls_invocations (snd (agent_loop env c graph st plan s))) \<and>
   (\<exists>n \<le> 5. length (ro_ledger (ls_router (snd (agent_loop env c graph st plan s)))) =
      length (ro_ledger (ag_router s)) + n)"
proof -
  obtain contents w where rd: "read_files (ae_read env) (context_paths c st plan) (ag_world s) = (contents, w)"
    by fastforce
  define l where "l = loop_start (s\<lparr>ag_world := w\<rparr>)"
  obtain spec prompt r l' where
    run: "run_loop (new_loop (ac_node (contract_of c)) (role_text (ac_role (contract_of c))))
      (agent_loop_env env c spec) (ae_build env spec) spec prompt l = (r, l')" and
    l': "snd (agent_loop env c graph st plan s) = l'"
    using rd unfolding agent_loop_def by (auto simp: l_def Let_def) (metis prod.collapse)
  have ts: "le_tools (agent_loop_env env c spec) = granted_tools c (ae_tools env)"
    by (simp add: agent_loop_env_def Let_def)
  have "only_tools (granted_tools c (ae_tools env)) l'"
    using only_tools_loop [OF run] unfolding ts by (simp add: l_def loop_start_def only_tools_def)
  then have "list_all (\<lambda>i. ti_tool i \<in> set (ac_tools (contract_of c)) \<inter> set (ae_tools env)) (ls_invocations l')"
    by (auto simp: only_tools_def granted_tools_def list_all_iff)
  moreover from run_loop_effect [OF run] obtain n k where
    "n \<le> 4" "k \<le> 1" "length (ro_ledger (ls_router l')) = length (ro_ledger (ls_router l)) + n + k"
    by (auto simp: new_loop_def default_iterations_def)
  then have "\<exists>n \<le> 5. length (ro_ledger (ls_router l')) = length (ro_ledger (ag_router s)) + n"
    by (intro exI [of _ "n + k"]) (simp add: l_def loop_start_def)
  ultimately show ?thesis unfolding l' by blast
qed

subsection \<open>What an agent returns\<close>

definition safe_edit :: "file_edit \<Rightarrow> bool" where
  "safe_edit e \<longleftrightarrow>
     fe_path e \<noteq> [] \<and> \<not> starts_with ''/'' (fe_path e) \<and> ''..'' \<notin> set (split_on (CHR ''/'') (fe_path e))"

lemma validate_edits_safe: "validate_edits es = Inr fs \<Longrightarrow> list_all safe_edit fs"
proof (induction es arbitrary: fs)
  case (Cons e es)
  then obtain f gs where f: "validate_edit e = Inr f" "validate_edits es = Inr gs" "fs = f # gs"
    by (auto split: sum.splits)
  from f(1) obtain p where p: "safe_path (fe_path e) = Inr p" "f = e\<lparr>fe_path := p\<rparr>"
    by (auto simp: validate_edit_def split: sum.splits)
  have "safe_edit f" using safe_path_result [OF p(1)] by (auto simp: safe_edit_def p(2))
  with Cons.IH f show ?case by simp
qed simp

lemma edits_with_edits: "edits_of (with_edits out fs) = (if \<exists>a b c d. out = SecurityAssessment a b c d then [] else fs)"
  by (cases out) auto

lemma validate_output_safe: "validate_output raw = Inr out \<Longrightarrow> list_all safe_edit (edits_of out)"
  using validate_edits_safe by (auto simp: validate_output_def edits_with_edits split: sum.splits)

lemma structured_out:
  "fst (structured v call w) = Inr y \<Longrightarrow> \<exists>x. v x = Inr y"
  by (auto simp: structured_def and_then_def split: prod.splits sum.splits)

lemma agent_loop_out:
  assumes "agent_loop env c graph st plan s = (Inr out, l)"
  shows "list_all safe_edit (edits_of out)"
proof -
  from assms obtain cfg build spec prompt l0 where
    "run_loop cfg (agent_loop_env env c spec) build spec prompt l0 = (Inr out, l)"
    by (auto simp: agent_loop_def Let_def split: prod.splits)
  from run_loop_answer [OF this] obtain m w where
    "fst (le_extract (agent_loop_env env c spec) m w) = Inr out" by blast
  then have "fst (structured validate_output (le_extract (ae_agent env c spec) m) w) = Inr out"
    by (simp add: agent_loop_env_def Let_def)
  from structured_out [OF this] show ?thesis using validate_output_safe by blast
qed

lemma build_agent_role:
  "build_agent r \<noteq> GeneralAgent \<Longrightarrow> ac_role (contract_of (build_agent r)) = r"
  "build_agent r = SecurityAgent \<longleftrightarrow> r = SecurityRole"
  by (cases r; simp add: build_agent_def agent_classes_def dict_get_def contract_defs)+

lemma agent_loop_spends:
  "spends (loop_start s) (snd (agent_loop env c graph st plan s))"
proof -
  obtain contents w where rd: "read_files (ae_read env) (context_paths c st plan) (ag_world s) = (contents, w)"
    by fastforce
  obtain cfg spec build prompt r l where
    "run_loop cfg (agent_loop_env env c spec) build spec prompt (loop_start (s\<lparr>ag_world := w\<rparr>)) = (r, l)"
    "snd (agent_loop env c graph st plan s) = l"
    using rd unfolding agent_loop_def by (auto simp: Let_def) (metis prod.collapse)
  with run_loop_effect [OF this(1)] show ?thesis by (auto simp: spends_def loop_start_def)
qed

text \<open>
  C22. An agent answers its subtask whatever happens: a model that fails, a budget that refuses and
  an invalid answer give a result for the same subtask and role that has no edits and did not
  succeed. A result succeeds only with edits, the security agent apart, which never edits. Every
  edit stays inside the repository, and a budget within its limits stays within them.
\<close>

theorem agent_answers_its_subtask:
  assumes "run_agent env (build_agent (st_agent st)) graph st plan s = (r, s')"
  shows "ir_subtask_id r = st_id st \<and> ir_agent r = st_agent st \<and> list_all safe_edit (ir_edits r) \<and>
    (ir_succeeded r \<longleftrightarrow> ir_edits r \<noteq> [] \<or>
       st_agent st = SecurityRole \<and> \<not> isl (fst (agent_loop env (build_agent (st_agent st)) graph st plan s))) \<and>
    (st_agent st = SecurityRole \<longrightarrow> ir_edits r = []) \<and>
    (\<forall>b. ag_budget s = Some b \<and> within_limits b \<longrightarrow>
       (\<exists>b'. ag_budget s' = Some b' \<and> within_limits b' \<and> b_limits b' = b_limits b))"
proof -
  let ?c = "build_agent (st_agent st)"
  obtain out l where loop: "agent_loop env ?c graph st plan s = (out, l)" by fastforce
  with assms have s': "s' = loop_end l" by (auto simp: run_agent_def split: sum.splits)
  have "\<forall>b. ag_budget s = Some b \<and> within_limits b \<longrightarrow>
       (\<exists>b'. ag_budget s' = Some b' \<and> within_limits b' \<and> b_limits b' = b_limits b)"
    using agent_loop_spends [of s env ?c graph st plan] spends_within loop
    unfolding s' by (fastforce simp: loop_start_def loop_end_def)
  moreover have role: "(if ?c = GeneralAgent then st_agent st else ac_role (contract_of ?c)) = st_agent st"
    using build_agent_role(1) by simp
  ultimately show ?thesis
  proof (cases out)
    case (Inl e)
    with assms loop have "r = failed_result ?c st e" by (simp add: run_agent_def)
    with role Inl loop \<open>\<forall>b. _\<close> show ?thesis by (simp add: failed_result_def)
  next
    case (Inr o1)
    with assms loop have r: "r = to_result ?c st o1" by (simp add: run_agent_def)
    have "list_all safe_edit (edits_of o1)" using agent_loop_out loop Inr by metis
    with role r Inr loop \<open>\<forall>b. _\<close> show ?thesis
      by (auto simp: to_result_def Let_def build_agent_role(2))
  qed
qed

definition demo_env :: "nat agent_env" where
  "demo_env =
     \<lparr>ae_agent = (\<lambda>c spec.
        \<lparr>le_tools = [], le_bind = None, le_chat = (\<lambda>m w. (Inl (Raised ''ValueError'' ''no chat''), w)),
         le_extract = (\<lambda>m w. (Inr (SecurityAssessment [] [] True ''clean''), Suc w)),
         le_invoke = (\<lambda>t args w. (Inr (POther ''r''), w)), le_usage = (\<lambda>w. (None, None)),
         le_attribute = (\<lambda>a n w. w), le_now = of_nat\<rparr>),
      ae_review = (\<lambda>spec.
        \<lparr>le_tools = [], le_bind = None, le_chat = (\<lambda>m w. (Inl (Raised ''ValueError'' ''no chat''), w)),
         le_extract = (\<lambda>m w. (Inl (Raised ''TimeoutError'' ''slow''), Suc w)),
         le_invoke = (\<lambda>t args w. (Inr (POther ''r''), w)), le_usage = (\<lambda>w. (None, None)),
         le_attribute = (\<lambda>a n w. w), le_now = of_nat\<rparr>),
      ae_repair = (\<lambda>spec.
        \<lparr>le_tools = [], le_bind = None, le_chat = (\<lambda>m w. (Inl (Raised ''ValueError'' ''no chat''), w)),
         le_extract = (\<lambda>m w. (Inl (Raised ''TimeoutError'' ''slow''), Suc w)),
         le_invoke = (\<lambda>t args w. (Inr (POther ''r''), w)), le_usage = (\<lambda>w. (None, None)),
         le_attribute = (\<lambda>a n w. w), le_now = of_nat\<rparr>),
      ae_build = (\<lambda>spec w. (Inr (), w)), ae_read = (\<lambda>p w. (Inl (Raised ''FileNotFoundError'' p), w)),
      ae_tools = [''security_scan''], ae_system = (\<lambda>p. ''system'')\<rparr>"

definition demo_agent_state :: "nat agent_state" where
  "demo_agent_state = \<lparr>ag_router = new_router [], ag_budget = Some two_calls, ag_world = 0\<rparr>"

definition demo_subtask :: subtask where
  "demo_subtask =
     \<lparr>st_id = ''st1'', st_description = ''check the change'', st_agent = SecurityRole,
      st_target_files = [], st_depends_on = []\<rparr>"

definition demo_plan :: task_plan where
  "demo_plan =
     \<lparr>pl_complexity = Simple, pl_relevant_files = [], pl_subtasks = [demo_subtask],
      pl_required_agents = [SecurityRole], pl_testing_strategy = ''pytest'',
      pl_risk_level = LowRisk, pl_rationale = []\<rparr>"

theorem agent_answers_its_subtask_witness:
  "\<exists>r s'. run_agent demo_env (build_agent (st_agent demo_subtask)) None demo_subtask demo_plan demo_agent_state
      = (r, s') \<and> ir_agent r = SecurityRole \<and> ir_edits r = []"
proof -
  obtain r s' where run: "run_agent demo_env (build_agent (st_agent demo_subtask)) None demo_subtask demo_plan
      demo_agent_state = (r, s')" by fastforce
  from agent_answers_its_subtask [OF run] run show ?thesis by (auto simp: demo_subtask_def)
qed

subsection \<open>The independent reviewer\<close>

definition review_node :: string where
  "review_node = ''independent_review''"

text \<open>
  \<open>ask\<close> is one structured call as reviewer and diagnostician make it: the model is built outside the
  \<open>try\<close>, the call is tracked inside it, and an exception of the call is turned into a result by \<open>h\<close>.
\<close>

definition ask ::
  "'w agent_env \<Rightarrow> ('w, 'a) loop_env \<Rightarrow> ('a \<Rightarrow> 'a result) \<Rightarrow> string \<Rightarrow> model_spec \<Rightarrow> message list
   \<Rightarrow> (exn \<Rightarrow> 'a) \<Rightarrow> ('w agent_state, 'a) action" where
  "ask env menv v node spec prompt h s =
     (case ae_build env spec (ag_world s) of
        (Inl e, w) \<Rightarrow> (Inl e, s\<lparr>ag_world := w\<rparr>)
      | (Inr u, w) \<Rightarrow>
          (case tracked menv node spec (structured v (le_extract menv prompt)) (loop_start (s\<lparr>ag_world := w\<rparr>)) of
             (Inl e, l) \<Rightarrow> (Inr (h e), loop_end l)
           | (Inr x, l) \<Rightarrow> (Inr x, loop_end l)))"

definition radius_line :: "repo_graph \<Rightarrow> string \<Rightarrow> string list" where
  "radius_line g p =
     (let ds = find_dependents g p; ts = find_tests_for_file g p
      in if ds = [] \<and> ts = [] then []
         else [''  '' @ p @ '': imported by '' @ show_nat (length ds) @ '' file(s)'' @
               (if ds = [] then [] else '' (e.g. '' @ join '', '' (take 3 ds) @ '')'') @
               (if ts = [] then ''; NO covering tests found''
                else ''; covering tests: '' @ join '', '' (take 3 ts))])"

definition blast_radius :: "repo_graph option \<Rightarrow> string list \<Rightarrow> string" where
  "blast_radius graph paths =
     (case graph of None \<Rightarrow> []
      | Some g \<Rightarrow> join [newline] (concat (map (radius_line g) (take 6 paths))))"

definition or_else :: "string \<Rightarrow> string \<Rightarrow> string" where
  "or_else d s = (if s = [] then d else s)"

definition verification_block :: "verification_result option \<Rightarrow> string" where
  "verification_block v =
     (case v of None \<Rightarrow> ''no verification result available''
      | Some r \<Rightarrow>
          ''passed='' @ bool_text (vr_passed r) @ ''; '' @ verification_summary r @ [newline] @
          ''errors: '' @ or_else ''none'' (join ''; '' (take 5 (vr_errors r))))"

definition review_prompt ::
  "string \<Rightarrow> task_plan \<Rightarrow> string \<Rightarrow> verification_result option \<Rightarrow> string list \<Rightarrow> string \<Rightarrow> string" where
  "review_prompt task plan diff v changed radius =
     join [newline]
       [''Original task:'', task, [],
        ''Plan complexity: '' @ complexity_text (pl_complexity plan) @ ''; risk level: '' @
          level_text (pl_risk_level plan),
        ''Stated testing strategy: '' @ pl_testing_strategy plan, [],
        ''Files changed: '' @ or_none changed, [],
        ''Static blast radius:'', or_else ''  (unavailable)'' radius, [],
        ''Verification:'', verification_block v, [],
        ''Change under review:'', diff]"

definition failed_review :: "exn \<Rightarrow> review_result" where
  "failed_review e =
     \<lparr>rr_approved = False, rr_severity = Major, rr_findings = [],
      rr_recommendations = [''Re-run review or escalate to a human reviewer.''],
      rr_summary = ''review could not be completed: '' @ exn_text e\<rparr>"

definition review ::
  "'w agent_env \<Rightarrow> repo_graph option \<Rightarrow> string \<Rightarrow> task_plan \<Rightarrow> string \<Rightarrow> verification_result option
   \<Rightarrow> string list \<Rightarrow> ('w agent_state, review_result) action" where
  "review env graph task plan diff v changed s =
     (let spec = rd_spec (select (ag_router s) ''review'' (pl_complexity plan) False)
      in ask env (ae_review env spec) (\<lambda>r. Inr (reconcile_review r)) review_node spec
           [Prompt (ae_system env Reviewer),
            Prompt (review_prompt task plan diff v changed (blast_radius graph changed))]
           failed_review s)"

subsection \<open>The diagnostician\<close>

definition repair_node :: string where
  "repair_node = ''recovery''"

definition repair_history :: "string list \<Rightarrow> string" where
  "repair_history previous =
     (if previous = [] then ''This is the first repair attempt.''
      else ''Approaches already tried (do not repeat them):'' @ [newline] @
           join [newline] (map2 (\<lambda>i s. ''  attempt '' @ show_nat i @ '': '' @ s) [1..<Suc (length previous)] previous))"

definition repair_prompt ::
  "string \<Rightarrow> classification \<Rightarrow> verification_result \<Rightarrow> nat \<Rightarrow> string list \<Rightarrow> string \<Rightarrow> string" where
  "repair_prompt task c v n previous contents =
     join [newline]
       [''Original task:'', task, [],
        ''Repair attempt number: '' @ show_nat n, repair_history previous, [],
        ''Deterministic classification: '' @ failure_text (cl_category c) @ '' (confidence '' @
          show_float (cl_confidence c) @ '')'',
        ''Matched rules: '' @ or_none (map failure_text (cl_matched_rules c)),
        ''Failing tests: '' @ or_else ''unknown'' (join '', '' (cl_failing_tests c)), [],
        ''Verification summary: '' @ verification_summary v,
        ''Error lines:'', join [newline] (map (\<lambda>e. ''  '' @ e) (take 12 (vr_errors v))), [],
        ''Failing output (tail):'', last_n 3000 (vr_output v), [],
        ''Current contents of suspect files:'', contents]"

definition validate_repair :: "repair_output \<Rightarrow> repair_output result" where
  "validate_repair out =
     (if \<not> valid_diagnosis (ro_diagnosis out)
      then Inl (value_error ''confidence is not between 0 and 1'')
      else (case validate_edits (ro_edits out) of
              Inl e \<Rightarrow> Inl e | Inr fs \<Rightarrow> Inr (out\<lparr>ro_edits := fs\<rparr>)))"

definition failed_repair :: "classification \<Rightarrow> exn \<Rightarrow> repair_output" where
  "failed_repair c e =
     \<lparr>ro_diagnosis =
        \<lparr>fd_category = cl_category c, fd_root_cause = ''diagnosis failed: '' @ exn_text e,
         fd_suspect_files = cl_suspect_files c, fd_strategy = ''none'', fd_confidence = 0\<rparr>,
      ro_edits = [], ro_strategy = ''none''\<rparr>"

definition diagnose_and_repair ::
  "'w agent_env \<Rightarrow> string \<Rightarrow> classification \<Rightarrow> verification_result \<Rightarrow> complexity \<Rightarrow> nat \<Rightarrow> string list
   \<Rightarrow> string list \<Rightarrow> ('w agent_state, repair_output) action" where
  "diagnose_and_repair env task c v complexity n previous wanted s =
     (let paths = take 6 (uniq (cl_suspect_files c @ wanted))
      in case read_files (ae_read env) paths (ag_world s) of
           (contents, w) \<Rightarrow>
             (let spec = rd_spec (select (ag_router s) ''recovery'' complexity False)
              in ask env (ae_repair env spec) validate_repair repair_node spec
                   [Prompt (ae_system env Diagnostician),
                    Prompt (repair_prompt task c v n previous (render_files max_file_chars contents))]
                   (failed_repair c) (s\<lparr>ag_world := w\<rparr>)))"

subsection \<open>A structured call\<close>

lemma ask_effect:
  assumes "ask env menv v node spec prompt h s = (out, s')"
  shows "ag_budget s' = ag_budget s"
    "\<exists>k \<le> 1. length (ro_ledger (ag_router s')) = length (ro_ledger (ag_router s)) + k \<and> (isl out \<or> k = 1)"
    "isl out \<Longrightarrow> \<exists>w. isl (fst (ae_build env spec w))"
    "out = Inr x \<Longrightarrow> (\<exists>y. v y = Inr x) \<or> (\<exists>e. x = h e)"
proof -
  obtain q w where b: "ae_build env spec (ag_world s) = (q, w)" by fastforce
  obtain z l where t: "tracked menv node spec (structured v (le_extract menv prompt))
      (loop_start (s\<lparr>ag_world := w\<rparr>)) = (z, l)" by fastforce
  note eff = tracked_effect [OF t]
  have z: "\<exists>y. v y = Inr a" if "z = Inr a" for a
    using tracked_out [OF t] structured_out that by metis
  have cases: "(\<exists>e. q = Inl e \<and> out = Inl e \<and> s' = s\<lparr>ag_world := w\<rparr>) \<or>
      (\<exists>u. q = Inr u \<and> s' = loop_end l \<and> out = (case z of Inl e \<Rightarrow> Inr (h e) | Inr a \<Rightarrow> Inr a))"
    using assms b t by (auto simp: ask_def split: sum.splits)
  show "ag_budget s' = ag_budget s"
    using cases eff(1) by (auto simp: loop_end_def loop_start_def)
  show "\<exists>k \<le> 1. length (ro_ledger (ag_router s')) = length (ro_ledger (ag_router s)) + k \<and> (isl out \<or> k = 1)"
    using cases eff(3) by (auto simp: loop_end_def loop_start_def)
  show "isl out \<Longrightarrow> \<exists>w. isl (fst (ae_build env spec w))"
    using cases b by (metis fst_conv sum.disc(1) sum.disc(2) sum.case_eq_if)
  show "out = Inr x \<Longrightarrow> (\<exists>y. v y = Inr x) \<or> (\<exists>e. x = h e)"
    using cases z by (auto split: sum.splits)
qed

lemma ask_answer:
  assumes "ask env menv v node spec prompt h s = (Inr x, s')"
  shows "case fst (structured v (le_extract menv prompt) (snd (ae_build env spec (ag_world s)))) of
    Inl e \<Rightarrow> x = h e | Inr y \<Rightarrow> x = y"
proof -
  obtain q w where b: "ae_build env spec (ag_world s) = (q, w)" by fastforce
  obtain z l where t: "tracked menv node spec (structured v (le_extract menv prompt))
      (loop_start (s\<lparr>ag_world := w\<rparr>)) = (z, l)" by fastforce
  from tracked_out [OF t] have "fst (structured v (le_extract menv prompt) w) = z"
    by (simp add: loop_start_def)
  with assms b t show ?thesis by (auto simp: ask_def split: sum.splits)
qed

lemma structured_answer:
  "fst (structured (\<lambda>x. Inr (f x)) call w) = (case fst (call w) of Inl e \<Rightarrow> Inl e | Inr x \<Rightarrow> Inr (f x))"
  by (auto simp: structured_def and_then_def split: prod.splits sum.splits)

lemma reconcile_cases:
  "rr_approved (reconcile_review raw) \<longleftrightarrow>
     rr_approved raw \<and> (\<forall>f \<in> set (rr_findings raw). rf_severity f < Major)"
  "rr_severity (reconcile_review raw) =
     (if rr_findings raw = [] then rr_severity raw else Max (rf_severity ` set (rr_findings raw)))"
proof -
  have "(\<forall>x \<in> S. x < Major) \<longleftrightarrow> \<not> Major \<le> Max S" if "finite S" "S \<noteq> {}" for S :: "severity set"
    using that by (simp add: not_le)
  from this [of "rf_severity ` set (rr_findings raw)"]
  show "rr_approved (reconcile_review raw) \<longleftrightarrow>
     rr_approved raw \<and> (\<forall>f \<in> set (rr_findings raw). rf_severity f < Major)"
    by (auto simp: reconcile_review_def Let_def)
  show "rr_severity (reconcile_review raw) =
     (if rr_findings raw = [] then rr_severity raw else Max (rf_severity ` set (rr_findings raw)))"
    by (simp add: reconcile_review_def Let_def)
qed

text \<open>
  C23. The reviewer fails closed. When it returns at all (building the model is the only step that
  may raise), its result is decided by the answer of the model to this very prompt. Where the model
  answers, the findings are its own, the result is an approval exactly when the model approved and
  none of the findings has severity major or blocker, and the severity is the worst one of the
  findings. Where the call raises, the result is a rejection of severity major without findings. The
  call is in the ledger once and the budget is not touched.
\<close>

theorem reviewer_fails_closed:
  fixes env graph task plan diff v changed s
  defines "spec \<equiv> rd_spec (select (ag_router s) ''review'' (pl_complexity plan) False)"
  defines "prompt \<equiv> [Prompt (ae_system env Reviewer),
            Prompt (review_prompt task plan diff v changed (blast_radius graph changed))]"
  assumes "review env graph task plan diff v changed s = (Inr r, s')"
  shows "(case fst (le_extract (ae_review env spec) prompt (snd (ae_build env spec (ag_world s)))) of
        Inr raw \<Rightarrow>
          rr_findings r = rr_findings raw \<and>
          (rr_approved r \<longleftrightarrow> rr_approved raw \<and> (\<forall>f \<in> set (rr_findings raw). rf_severity f < Major)) \<and>
          rr_severity r = (if rr_findings raw = [] then rr_severity raw
                           else Max (rf_severity ` set (rr_findings raw)))
      | Inl e \<Rightarrow> \<not> rr_approved r \<and> rr_severity r = Major \<and> rr_findings r = []) \<and>
    ag_budget s' = ag_budget s \<and>
    length (ro_ledger (ag_router s')) = Suc (length (ro_ledger (ag_router s)))"
proof -
  from assms(3) have
    a: "ask env (ae_review env spec) (\<lambda>r. Inr (reconcile_review r)) review_node spec prompt failed_review s = (Inr r, s')"
    by (simp add: review_def Let_def spec_def prompt_def)
  note ans = ask_answer [OF a, unfolded structured_answer]
  show ?thesis
  proof (cases "fst (le_extract (ae_review env spec) prompt (snd (ae_build env spec (ag_world s))))")
    case (Inl e)
    with ans ask_effect(1,2) [OF a] show ?thesis by (auto simp: failed_review_def)
  next
    case (Inr raw)
    with ans ask_effect(1,2) [OF a] show ?thesis by (auto simp: reconcile_cases)
  qed
qed

theorem reviewer_fails_closed_witness:
  "\<exists>r s'. review demo_env None ''fix it'' demo_plan ''diff'' None [] demo_agent_state = (Inr r, s') \<and>
     length (ro_ledger (ag_router s')) = 1"
proof -
  obtain out s' where run: "review demo_env None ''fix it'' demo_plan ''diff'' None [] demo_agent_state = (out, s')"
    by fastforce
  have "\<not> isl out"
  proof
    assume "isl out"
    from run obtain spec prompt where "ask demo_env (ae_review demo_env spec) (\<lambda>r. Inr (reconcile_review r))
        review_node spec prompt failed_review demo_agent_state = (out, s')"
      by (auto simp: review_def Let_def)
    from ask_effect(3) [OF this \<open>isl out\<close>] show False by (simp add: demo_env_def)
  qed
  then obtain r where r: "out = Inr r" by (cases out) auto
  from reviewer_fails_closed [OF run [unfolded r]] run r show ?thesis
    by (auto simp: demo_agent_state_def new_router_def)
qed

lemma repair_is_contained:
  assumes "diagnose_and_repair env task c v complexity n previous wanted s = (Inr out, s')"
  shows "list_all safe_edit (ro_edits out) \<and> valid_diagnosis (ro_diagnosis out) \<and>
    (ro_edits out = [] \<or> (\<exists>raw. validate_repair raw = Inr out)) \<and> ag_budget s' = ag_budget s"
proof -
  obtain contents w where rd: "read_files (ae_read env) (take 6 (uniq (cl_suspect_files c @ wanted)))
      (ag_world s) = (contents, w)" by fastforce
  with assms obtain spec prompt where
    a: "ask env (ae_repair env spec) validate_repair repair_node spec prompt (failed_repair c)
          (s\<lparr>ag_world := w\<rparr>) = (Inr out, s')"
    by (auto simp: diagnose_and_repair_def Let_def)
  have "list_all safe_edit (ro_edits out) \<and> valid_diagnosis (ro_diagnosis out) \<and>
    (ro_edits out = [] \<or> (\<exists>raw. validate_repair raw = Inr out))"
    using ask_effect(4) [OF a refl] validate_edits_safe
    by (auto simp: validate_repair_def failed_repair_def valid_diagnosis_def split: if_splits sum.splits)
  with ask_effect(1) [OF a] show ?thesis by simp
qed

end
