(* ===== verification/Graph_State.thy ===== *)
theory Graph_State
  imports Mcp Tool_Registry
begin

section \<open>The state of the workflow graph\<close>

text \<open>
  Models \<open>agent/sweforge/state/graph_state.py\<close>: the typed state of the graph, the reducers of its
  channels and the starting state. A node returns a partial dictionary; here it is a record whose
  single-writer fields are options, \<open>None\<close> for an absent key, and whose appended fields are lists,
  empty for an absent key. \<open>merge_update\<close> is what the graph runtime does with it: the last write wins,
  or the reducer of the channel applies.

  The lemmas show that the reducers are monoids on the values the workflow produces, so the state
  after a run is the starting state with all updates reduced, however the run is cut.
\<close>

subsection \<open>Final statuses\<close>

datatype final_status =
    Pending | BudgetExhausted | Completed | CompletedWithFindings | AwaitingApproval
  | EscalatedRecovery | EscalatedReview | FailedRun

fun status_text :: "final_status \<Rightarrow> string" where
  "status_text Pending = ''pending''"
| "status_text BudgetExhausted = ''budget_exhausted''"
| "status_text Completed = ''completed''"
| "status_text CompletedWithFindings = ''completed_with_findings''"
| "status_text AwaitingApproval = ''awaiting_human_approval''"
| "status_text EscalatedRecovery = ''escalated_recovery_exhausted''"
| "status_text EscalatedReview = ''escalated_review_rejected''"
| "status_text FailedRun = ''failed''"

lemma status_text_inject [simp]: "status_text a = status_text b \<longleftrightarrow> a = b"
  by (cases a; cases b) simp_all

subsection \<open>Metrics\<close>

definition merge_metrics :: "execution_metrics \<Rightarrow> execution_metrics \<Rightarrow> execution_metrics" where
  "merge_metrics l r =
     \<lparr>em_node_transitions = em_node_transitions l @ em_node_transitions r,
      em_model_calls = em_model_calls l + em_model_calls r,
      em_tool_calls = em_tool_calls l + em_tool_calls r,
      em_input_tokens = em_input_tokens l + em_input_tokens r,
      em_output_tokens = em_output_tokens l + em_output_tokens r,
      em_cost = py_round 8 (em_cost l + em_cost r),
      em_wall_time = max (em_wall_time l) (em_wall_time r),
      em_recovery_attempts = max (em_recovery_attempts l) (em_recovery_attempts r),
      em_review_rejections = max (em_review_rejections l) (em_review_rejections r),
      em_security_gate = (em_security_gate l \<or> em_security_gate r),
      em_verification_runs = em_verification_runs l + em_verification_runs r\<rparr>"

definition reduce_metrics :: "execution_metrics option \<Rightarrow> execution_metrics option \<Rightarrow> execution_metrics" where
  "reduce_metrics l r =
     (case l of
        None \<Rightarrow> (case r of None \<Rightarrow> empty_metrics | Some y \<Rightarrow> y)
      | Some x \<Rightarrow> (case r of None \<Rightarrow> x | Some y \<Rightarrow> merge_metrics x y))"

text \<open>Metrics the workflow produces: nothing negative, and a cost the reducer has rounded.\<close>

definition metrics_ok :: "execution_metrics \<Rightarrow> bool" where
  "metrics_ok m \<longleftrightarrow>
     on_grid 8 (em_cost m) \<and> 0 \<le> em_wall_time m \<and> 0 \<le> em_recovery_attempts m \<and>
     0 \<le> em_review_rejections m"

interpretation metrics: reducer metrics_ok empty_metrics merge_metrics
proof unfold_locales
  show "metrics_ok empty_metrics" by (simp add: metrics_ok_def empty_metrics_def)
  show "metrics_ok (merge_metrics x y)" if "metrics_ok x" "metrics_ok y" for x y
    using that by (auto simp: metrics_ok_def merge_metrics_def)
  show "merge_metrics x empty_metrics = x" if "metrics_ok x" for x
    using that by (simp add: metrics_ok_def merge_metrics_def empty_metrics_def py_round_grid)
  show "merge_metrics empty_metrics x = x" if "metrics_ok x" for x
    using that by (simp add: metrics_ok_def merge_metrics_def empty_metrics_def py_round_grid)
  show "merge_metrics (merge_metrics x y) z = merge_metrics x (merge_metrics y z)"
    if "metrics_ok x" "metrics_ok y" "metrics_ok z" for x y z
    using that by (simp add: metrics_ok_def merge_metrics_def py_round_grid on_grid_add ac_simps)
qed

interpretation appended: reducer "\<lambda>xs. True" "[]" "(@)"
  by unfold_locales auto

subsection \<open>State and updates\<close>

text \<open>
  \<open>call_reply\<close> is what \<open>SWEForgeRuntime.call_tool\<close> returns: the reply of the tool, the refusal of the
  budget, or the answer that no tool has the name. \<open>repository_view\<close> is the summary that repository analysis keeps of the replies it got.
\<close>

datatype 'a call_reply = Answered "'a tool_reply" | BudgetRefused | NotRegistered

definition answer_of :: "'a call_reply \<Rightarrow> 'a option" where
  "answer_of r = (case r of Answered (ToolOk x) \<Rightarrow> Some x | _ \<Rightarrow> None)"

datatype repository_view =
    NoMap
  | InventoryOnly repository_summary
  | FullMap "inventory call_reply" "(graph_stats \<times> string list) call_reply"
      (fm_dependencies: "(string, string list \<times> string list) dict")
      (fm_callers: "(string, string list) dict") (fm_tests: "(string, string list) dict")

record flow_state =
  sw_task :: string
  sw_repository :: string
  sw_repo_root :: string
  sw_repository_map :: repository_view
  sw_relevant_files :: "string list"
  sw_complexity :: complexity
  sw_plan :: "task_plan option"
  sw_selected_agents :: "agent_role list"
  sw_memory_context :: "experience_record list"
  sw_implementation_results :: "implementation_result list"
  sw_agents_executed :: "agent_role list"
  sw_model_attempts :: "kwargs list"
  sw_budget_snapshot :: "budget_snapshot option"
  sw_external_context :: "(selection \<times> mcp_result) list"
  sw_test_results :: "verification_result option"
  sw_failures :: "failure_diagnosis list"
  sw_recovery_attempts :: "recovery_attempt list"
  sw_review_results :: "review_result option"
  sw_security_findings :: "security_finding list"
  sw_risk_score :: "risk_score option"
  sw_model_usage :: "model_call_record list"
  sw_metrics :: "execution_metrics option"
  sw_node_trace :: "string list"
  sw_errors :: "string list"
  sw_final_status :: final_status
  sw_final_summary :: string

definition initial_state :: "string \<Rightarrow> string \<Rightarrow> string \<Rightarrow> flow_state" where
  "initial_state task repository repo_root =
     \<lparr>sw_task = task, sw_repository = repository, sw_repo_root = repo_root, sw_repository_map = NoMap,
      sw_relevant_files = [], sw_complexity = Moderate, sw_plan = None, sw_selected_agents = [],
      sw_memory_context = [], sw_implementation_results = [], sw_agents_executed = [],
      sw_model_attempts = [], sw_budget_snapshot = None, sw_external_context = [],
      sw_test_results = None, sw_failures = [], sw_recovery_attempts = [], sw_review_results = None,
      sw_security_findings = [], sw_risk_score = None, sw_model_usage = [],
      sw_metrics = Some empty_metrics, sw_node_trace = [], sw_errors = [], sw_final_status = Pending,
      sw_final_summary = []\<rparr>"

record flow_update =
  su_repo_root :: "string option"
  su_repository_map :: "repository_view option"
  su_relevant_files :: "string list option"
  su_complexity :: "complexity option"
  su_plan :: "task_plan option option"
  su_selected_agents :: "agent_role list option"
  su_memory_context :: "experience_record list option"
  su_implementation_results :: "implementation_result list"
  su_agents_executed :: "agent_role list"
  su_model_attempts :: "kwargs list"
  su_budget_snapshot :: "budget_snapshot option"
  su_external_context :: "(selection \<times> mcp_result) list option"
  su_test_results :: "verification_result option option"
  su_failures :: "failure_diagnosis list"
  su_recovery_attempts :: "recovery_attempt list option"
  su_review_results :: "review_result option"
  su_security_findings :: "security_finding list option"
  su_risk_score :: "risk_score option"
  su_model_usage :: "model_call_record list"
  su_metrics :: "execution_metrics option"
  su_node_trace :: "string list"
  su_errors :: "string list"
  su_final_status :: "final_status option"
  su_final_summary :: "string option"

definition no_update :: flow_update where
  "no_update =
     \<lparr>su_repo_root = None, su_repository_map = None, su_relevant_files = None, su_complexity = None,
      su_plan = None, su_selected_agents = None, su_memory_context = None,
      su_implementation_results = [], su_agents_executed = [], su_model_attempts = [],
      su_budget_snapshot = None, su_external_context = None, su_test_results = None,
      su_failures = [], su_recovery_attempts = None, su_review_results = None,
      su_security_findings = None, su_risk_score = None, su_model_usage = [], su_metrics = None,
      su_node_trace = [], su_errors = [], su_final_status = None, su_final_summary = None\<rparr>"

definition last_write :: "'a option \<Rightarrow> 'a \<Rightarrow> 'a" where
  "last_write u x = (case u of None \<Rightarrow> x | Some y \<Rightarrow> y)"

definition last_some :: "'a option \<Rightarrow> 'a option \<Rightarrow> 'a option" where
  "last_some u x = (case u of None \<Rightarrow> x | Some y \<Rightarrow> Some y)"

definition merge_update :: "flow_update \<Rightarrow> flow_state \<Rightarrow> flow_state" where
  "merge_update u s =
     \<lparr>sw_task = sw_task s, sw_repository = sw_repository s,
      sw_repo_root = last_write (su_repo_root u) (sw_repo_root s),
      sw_repository_map = last_write (su_repository_map u) (sw_repository_map s),
      sw_relevant_files = last_write (su_relevant_files u) (sw_relevant_files s),
      sw_complexity = last_write (su_complexity u) (sw_complexity s),
      sw_plan = last_write (su_plan u) (sw_plan s),
      sw_selected_agents = last_write (su_selected_agents u) (sw_selected_agents s),
      sw_memory_context = last_write (su_memory_context u) (sw_memory_context s),
      sw_implementation_results = sw_implementation_results s @ su_implementation_results u,
      sw_agents_executed = sw_agents_executed s @ su_agents_executed u,
      sw_model_attempts = sw_model_attempts s @ su_model_attempts u,
      sw_budget_snapshot = last_some (su_budget_snapshot u) (sw_budget_snapshot s),
      sw_external_context = last_write (su_external_context u) (sw_external_context s),
      sw_test_results = last_write (su_test_results u) (sw_test_results s),
      sw_failures = sw_failures s @ su_failures u,
      sw_recovery_attempts = last_write (su_recovery_attempts u) (sw_recovery_attempts s),
      sw_review_results = last_some (su_review_results u) (sw_review_results s),
      sw_security_findings = last_write (su_security_findings u) (sw_security_findings s),
      sw_risk_score = last_some (su_risk_score u) (sw_risk_score s),
      sw_model_usage = sw_model_usage s @ su_model_usage u,
      sw_metrics = (case su_metrics u of None \<Rightarrow> sw_metrics s
                    | Some m \<Rightarrow> Some (reduce_metrics (sw_metrics s) (Some m))),
      sw_node_trace = sw_node_trace s @ su_node_trace u,
      sw_errors = sw_errors s @ su_errors u,
      sw_final_status = last_write (su_final_status u) (sw_final_status s),
      sw_final_summary = last_write (su_final_summary u) (sw_final_summary s)\<rparr>"

definition merge_updates :: "flow_update list \<Rightarrow> flow_state \<Rightarrow> flow_state" where
  "merge_updates us s = fold merge_update us s"

subsection \<open>Runs of updates\<close>

definition metrics_of :: "flow_update list \<Rightarrow> execution_metrics list" where
  "metrics_of us = List.map_filter su_metrics us"

lemma merge_update_fields [simp]:
  "sw_node_trace (merge_update u s) = sw_node_trace s @ su_node_trace u"
  "sw_errors (merge_update u s) = sw_errors s @ su_errors u"
  "sw_failures (merge_update u s) = sw_failures s @ su_failures u"
  "sw_agents_executed (merge_update u s) = sw_agents_executed s @ su_agents_executed u"
  "sw_implementation_results (merge_update u s) = sw_implementation_results s @ su_implementation_results u"
  "sw_task (merge_update u s) = sw_task s"
  "sw_repository (merge_update u s) = sw_repository s"
  "sw_plan (merge_update u s) = last_write (su_plan u) (sw_plan s)"
  "sw_complexity (merge_update u s) = last_write (su_complexity u) (sw_complexity s)"
  "sw_relevant_files (merge_update u s) = last_write (su_relevant_files u) (sw_relevant_files s)"
  "sw_test_results (merge_update u s) = last_write (su_test_results u) (sw_test_results s)"
  "sw_recovery_attempts (merge_update u s) = last_write (su_recovery_attempts u) (sw_recovery_attempts s)"
  "sw_review_results (merge_update u s) = last_some (su_review_results u) (sw_review_results s)"
  "sw_security_findings (merge_update u s) = last_write (su_security_findings u) (sw_security_findings s)"
  "sw_risk_score (merge_update u s) = last_some (su_risk_score u) (sw_risk_score s)"
  "sw_budget_snapshot (merge_update u s) = last_some (su_budget_snapshot u) (sw_budget_snapshot s)"
  "sw_final_status (merge_update u s) = last_write (su_final_status u) (sw_final_status s)"
  "sw_final_summary (merge_update u s) = last_write (su_final_summary u) (sw_final_summary s)"
  by (simp_all add: merge_update_def)

lemma last_write_simps [simp]: "last_write None x = x" "last_write (Some y) x = y"
    "last_some None z = z" "last_some (Some y) z = Some y"
  by (simp_all add: last_write_def last_some_def)

lemma merge_update_metrics:
  "sw_metrics s = Some m \<Longrightarrow> sw_metrics (merge_update u s) =
     Some (case su_metrics u of None \<Rightarrow> m | Some d \<Rightarrow> merge_metrics m d)"
  by (simp add: merge_update_def reduce_metrics_def split: option.split)

lemma merge_updates_metrics:
  "sw_metrics s = Some m \<Longrightarrow> sw_metrics (merge_updates us s) = Some (foldl merge_metrics m (metrics_of us))"
  unfolding merge_updates_def
proof (induction us arbitrary: s m)
  case Nil
  then show ?case by (simp add: metrics_of_def map_filter_simps)
next
  case (Cons u us)
  from merge_update_metrics [OF Cons.prems, of u] Cons.IH show ?case
    by (auto simp: metrics_of_def map_filter_simps split: option.splits)
qed

lemma merge_updates_appended:
  "sw_node_trace (merge_updates us s) = sw_node_trace s @ concat (map su_node_trace us)"
  "sw_errors (merge_updates us s) = sw_errors s @ concat (map su_errors us)"
  "sw_failures (merge_updates us s) = sw_failures s @ concat (map su_failures us)"
  "sw_implementation_results (merge_updates us s) =
     sw_implementation_results s @ concat (map su_implementation_results us)"
  unfolding merge_updates_def by (induction us arbitrary: s) simp_all

lemma counters_kept:
  "\<forall>x \<in> set ms. em_review_rejections x \<le> em_review_rejections (foldl merge_metrics n ms) \<and>
      em_recovery_attempts x \<le> em_recovery_attempts (foldl merge_metrics n ms)"
proof (induction ms rule: rev_induct)
  case (snoc x xs)
  then show ?case by (auto simp: merge_metrics_def intro: max.coboundedI1)
qed simp

text \<open>
  No update is lost. After any sequence of node updates the appended channels hold what every
  node reported, in order; the metrics are the starting metrics merged with the reduction of all
  reported metrics, the same for every way of cutting the run in two; a node that runs after
  another never undoes its counters.
\<close>

theorem updates_accumulate:
  assumes "sw_metrics s = Some m" "metrics_ok m" "list_all metrics_ok (metrics_of (us @ vs))"
  shows "sw_node_trace (merge_updates (us @ vs) s) = sw_node_trace s @ concat (map su_node_trace (us @ vs)) \<and>
    sw_errors (merge_updates (us @ vs) s) = sw_errors s @ concat (map su_errors (us @ vs)) \<and>
    sw_implementation_results (merge_updates (us @ vs) s) =
      sw_implementation_results s @ concat (map su_implementation_results (us @ vs)) \<and>
    sw_metrics (merge_updates (us @ vs) s) =
      Some (merge_metrics (foldl merge_metrics m (metrics_of us))
              (foldl merge_metrics empty_metrics (metrics_of vs))) \<and>
    (\<forall>x \<in> set (metrics_of (us @ vs)).
       em_review_rejections x \<le> em_review_rejections (foldl merge_metrics m (metrics_of (us @ vs))) \<and>
       em_recovery_attempts x \<le> em_recovery_attempts (foldl merge_metrics m (metrics_of (us @ vs))))"
proof -
  have split: "metrics_of (us @ vs) = metrics_of us @ metrics_of vs"
    by (simp add: metrics_of_def map_filter_def)
  have eq: "foldl merge_metrics m (metrics_of us @ metrics_of vs) =
      merge_metrics (foldl merge_metrics m (metrics_of us)) (foldl merge_metrics empty_metrics (metrics_of vs))"
    by (rule metrics.foldl_append) (use assms(2,3) split in \<open>auto simp: list_all_iff\<close>)
  have "sw_metrics (merge_updates (us @ vs) s) =
      Some (merge_metrics (foldl merge_metrics m (metrics_of us)) (foldl merge_metrics empty_metrics (metrics_of vs)))"
    by (simp only: merge_updates_metrics [OF assms(1)] split eq)
  with counters_kept [of _ m] show ?thesis
    by (intro conjI) (simp_all only: merge_updates_appended)
qed

definition tool_update :: "string \<Rightarrow> int \<Rightarrow> flow_update" where
  "tool_update name n =
     no_update\<lparr>su_node_trace := [name], su_metrics := Some (empty_metrics\<lparr>em_tool_calls := n\<rparr>)\<rparr>"

theorem updates_accumulate_witness:
  "sw_node_trace (merge_updates ([tool_update ''a'' 2] @ [tool_update ''b'' 3]) (initial_state ''t'' [] []))
     = [''a'', ''b'']"
proof -
  have "sw_metrics (initial_state ''t'' [] []) = Some empty_metrics" by (simp add: initial_state_def)
  moreover have "metrics_ok empty_metrics" by (rule metrics.unit_ok)
  moreover have "list_all metrics_ok (metrics_of ([tool_update ''a'' 2] @ [tool_update ''b'' 3]))"
    by (simp add: metrics_of_def map_filter_simps tool_update_def no_update_def metrics_ok_def empty_metrics_def)
  ultimately show ?thesis
    by (subst updates_accumulate [THEN conjunct1])
      (simp_all add: initial_state_def tool_update_def no_update_def)
qed

text \<open>
  The reducer keeps the maximum of the rejections, and a review reports one rejection or none: the
  count of the state stays at most one however often the reviewer rejects.
\<close>

lemma rejections_stay_one:
  "em_review_rejections m \<le> 1 \<Longrightarrow> list_all (\<lambda>x. em_review_rejections x \<le> 1) ms \<Longrightarrow>
     em_review_rejections (foldl merge_metrics m ms) \<le> 1"
  by (induction ms arbitrary: m) (simp_all add: merge_metrics_def)

end
