(* ===== verification/Runtime.thy ===== *)
theory Runtime
  imports Agents Graph_State
begin

section \<open>The runtime of a run\<close>

text \<open>
  Models the first part of \<open>agent/sweforge/graph/workflow.py\<close>: the configuration, the runtime that the
  nodes share and \<open>call_tool\<close>. The runtime and its tool context hold references to one verifier,
  one memory, one classifier, one risk engine, one scanner and one trace recorder; each exists once
  here, in the tool context. The repository graph is kept twice because the code rebinds one
  reference without the other. \<open>rt_mcp_shared\<close> says that the MCP policy was built with the budget of
  the run.

  Agents run on the tool context as their world: the tools they call by name go through the same
  guard. Decoding the arguments of such a call (pydantic) and printing its payload (\<open>repr\<close>) are
  parameters. The tool context of a runtime always has a classifier, as the runtime itself does.
\<close>

subsection \<open>Configuration\<close>

record workflow_config =
  wc_intelligence :: bool
  wc_recovery :: bool
  wc_review :: bool
  wc_gate :: bool
  wc_memory :: bool
  wc_max_recovery :: nat
  wc_max_reviews :: nat
  wc_full_suite :: bool
  wc_workers :: nat
  wc_variant :: string

definition default_max_recovery :: nat where
  "default_max_recovery = 3"

definition default_max_reviews :: nat where
  "default_max_reviews = 2"

definition default_config :: workflow_config where
  "default_config =
     \<lparr>wc_intelligence = True, wc_recovery = True, wc_review = True, wc_gate = True, wc_memory = True,
      wc_max_recovery = default_max_recovery, wc_max_reviews = default_max_reviews,
      wc_full_suite = False, wc_workers = 1, wc_variant = ''full''\<rparr>"

definition baseline_config :: workflow_config where
  "baseline_config =
     default_config\<lparr>wc_intelligence := False, wc_recovery := False, wc_review := False,
       wc_gate := False, wc_memory := False, wc_variant := ''baseline''\<rparr>"

subsection \<open>Tools by name\<close>

datatype tool_args =
    AnalyzeArgs nat
  | NoArgs
  | TaskArgs string nat bool
  | DependencyArgs string
  | SymbolArgs string
  | TestArgs string
  | ValidationArgs "string list" bool
  | FailureArgs string "string list"
  | DiffArgs string "string list"
  | RiskArgs "(string, string) dict" "string list" "bool option"
  | ScanArgs "(string, string) dict"
  | SimilarArgs string nat

datatype tool_payload =
    Inventory inventory
  | GraphStats graph_stats "string list"
  | Relevant relevant_files
  | Dependencies dependencies
  | Callers callers
  | RelatedTests string "string list"
  | Validated verification_result string
  | Failure classification
  | Diff git_diff
  | Risk risk_score bool
  | Findings "security_finding list"
  | Similar "similar_task list" "nat option"

definition tool_then :: "('w, 'a) tool \<Rightarrow> ('a \<Rightarrow> tool_payload) \<Rightarrow> ('w, tool_payload) tool" where
  "tool_then f p = and_then f (\<lambda>x cx. (Inr (p x), cx))"

fun tool_body :: "'w services \<Rightarrow> tool_args \<Rightarrow> ('w, tool_payload) tool" where
  "tool_body sv (AnalyzeArgs n) = tool_then (analyze_repository sv n) Inventory"
| "tool_body sv NoArgs = tool_then (build_repository_graph sv) (\<lambda>(a, b). GraphStats a b)"
| "tool_body sv (TaskArgs t n it) = tool_then (find_relevant_files_tool sv t n it) Relevant"
| "tool_body sv (DependencyArgs f) = tool_then (find_dependencies_tool sv f) Dependencies"
| "tool_body sv (SymbolArgs s) = tool_then (find_callers_tool sv s) Callers"
| "tool_body sv (TestArgs f) = tool_then (find_related_tests_tool sv f) (\<lambda>(a, b). RelatedTests a b)"
| "tool_body sv (ValidationArgs c full) = tool_then (run_validation sv c full) (\<lambda>(a, b). Validated a b)"
| "tool_body sv (FailureArgs out errors) = tool_then (analyze_failure out errors) Failure"
| "tool_body sv (DiffArgs base paths) = tool_then (inspect_git_diff sv base paths) Diff"
| "tool_body sv (RiskArgs files deleted passed) =
     tool_then (calculate_change_risk files deleted passed) (\<lambda>(a, b). Risk a b)"
| "tool_body sv (ScanArgs files) = tool_then (security_scan files) Findings"
| "tool_body sv (SimilarArgs task n) = tool_then (retrieve_similar_tasks sv task n) (\<lambda>(a, b). Similar a b)"

lemma quiet_tool_body: "quiet (tool_body sv args)"
  by (cases args) (auto simp: tool_then_def intro!: quiet_and_then)

type_synonym arg_decoder = "string \<Rightarrow> kwargs \<Rightarrow> tool_args result"

definition invoke_tool ::
  "'w services \<Rightarrow> arg_decoder \<Rightarrow> (tool_payload tool_reply \<Rightarrow> string) \<Rightarrow> string \<Rightarrow> kwargs
   \<Rightarrow> ('w tool_context, payload) action" where
  "invoke_tool sv decode printed name args cx =
     (case decode name args of
        Inl e \<Rightarrow> (Inl e, cx)
      | Inr a \<Rightarrow>
          (case guard sv name args (tool_body sv a) cx of
             (r, cx') \<Rightarrow> (Inr (PDict (Some (reply_ok r)) (reply_error r) (printed r)), cx')))"

subsection \<open>Models on the tool context\<close>

record ('w, 'o) chat_model =
  cm_bind :: "unit result option"
  cm_chat :: "message list \<Rightarrow> ('w, reply) action"
  cm_answer :: "message list \<Rightarrow> ('w, 'o) action"
  cm_usage :: "'w \<Rightarrow> int option \<times> int option"

definition in_world :: "('w, 'a) action \<Rightarrow> ('w tool_context, 'a) action" where
  "in_world f cx = (case f (tx_world cx) of (out, w) \<Rightarrow> (out, cx\<lparr>tx_world := w\<rparr>))"

definition attribute :: "string \<Rightarrow> string \<Rightarrow> 'w tool_context \<Rightarrow> 'w tool_context" where
  "attribute agent node cx = cx\<lparr>tx_agent := Some agent, tx_node := Some node\<rparr>"

record ('m, 'w) flow_env =
  en_services :: "'w services"
  en_planner :: "('m, 'w) plan_model"
  en_build :: "model_spec \<Rightarrow> ('w, unit) action"
  en_agent :: "agent_class \<Rightarrow> model_spec \<Rightarrow> ('w, agent_output) chat_model"
  en_review :: "model_spec \<Rightarrow> ('w, review_result) chat_model"
  en_repair :: "model_spec \<Rightarrow> ('w, repair_output) chat_model"
  en_system :: "prompt_owner \<Rightarrow> string"
  en_decode :: arg_decoder
  en_repr :: "tool_payload tool_reply \<Rightarrow> string"
  en_read :: "string \<Rightarrow> ('w, string) action"
  en_write :: "string \<Rightarrow> string \<Rightarrow> ('w, unit) action"
  en_encode :: "experience_record \<Rightarrow> string"

definition model_env :: "('m, 'w) flow_env \<Rightarrow> ('w, 'o) chat_model \<Rightarrow> ('w tool_context, 'o) loop_env" where
  "model_env env cm =
     \<lparr>le_tools = tool_names, le_bind = cm_bind cm, le_chat = (\<lambda>m. in_world (cm_chat cm m)),
      le_extract = (\<lambda>m. in_world (cm_answer cm m)),
      le_invoke = invoke_tool (en_services env) (en_decode env) (en_repr env),
      le_usage = (\<lambda>cx. cm_usage cm (tx_world cx)), le_attribute = attribute,
      le_now = (\<lambda>cx. sv_now (en_services env) (tx_world cx))\<rparr>"

definition agents_of :: "('m, 'w) flow_env \<Rightarrow> 'w tool_context agent_env" where
  "agents_of env =
     \<lparr>ae_agent = (\<lambda>c spec. model_env env (en_agent env c spec)),
      ae_review = (\<lambda>spec. model_env env (en_review env spec)),
      ae_repair = (\<lambda>spec. model_env env (en_repair env spec)),
      ae_build = (\<lambda>spec. in_world (en_build env spec)), ae_read = (\<lambda>p. in_world (en_read env p)),
      ae_tools = tool_names, ae_system = en_system env\<rparr>"

subsection \<open>The runtime\<close>

record 'w runtime =
  rt_repo_root :: string
  rt_config :: workflow_config
  rt_router :: router
  rt_graph :: "repo_graph option"
  rt_context :: "'w tool_context"
  rt_started_at :: rat
  rt_budget :: budget
  rt_budget_error :: "string option"
  rt_registry :: "'w registry option"
  rt_policy :: "mcp_policy option"
  rt_mcp_shared :: bool
  rt_written :: "(string, string) dict"

definition now_of :: "('m, 'w) flow_env \<Rightarrow> 'w runtime \<Rightarrow> rat" where
  "now_of env rt = sv_now (en_services env) (tx_world (rt_context rt))"

definition run_elapsed :: "('m, 'w) flow_env \<Rightarrow> 'w runtime \<Rightarrow> rat" where
  "run_elapsed env rt = py_round 6 (now_of env rt - rt_started_at rt)"

definition metrics_delta :: "('m, 'w) flow_env \<Rightarrow> 'w runtime \<Rightarrow> execution_metrics" where
  "metrics_delta env rt = empty_metrics\<lparr>em_wall_time := run_elapsed env rt\<rparr>"

definition tool_budget_exceeded :: "('m, 'w) flow_env \<Rightarrow> 'w runtime \<Rightarrow> bool \<times> 'w runtime" where
  "tool_budget_exceeded env rt =
     (case would_exceed KTool (now_of env rt) (rt_budget rt) of (x, b) \<Rightarrow> (x, rt\<lparr>rt_budget := b\<rparr>))"

definition call_tool ::
  "('m, 'w) flow_env \<Rightarrow> string \<Rightarrow> kwargs \<Rightarrow> ('w, 'a) tool \<Rightarrow> string \<Rightarrow> 'w runtime
   \<Rightarrow> 'a call_reply \<times> 'w runtime" where
  "call_tool env name args f node rt0 =
     (if name \<notin> set tool_names then (NotRegistered, rt0)
      else (let rt = rt0\<lparr>rt_context := (rt_context rt0)\<lparr>tx_node := Some node, tx_agent := None\<rparr>\<rparr>
        in case tool_budget_exceeded env rt of
             (True, rt1) \<Rightarrow> (BudgetRefused, rt1)
           | (False, rt1) \<Rightarrow>
               (case guard (en_services env) name args f (rt_context rt1) of
                  (r, cx) \<Rightarrow> (Answered r, rt1\<lparr>rt_context := cx, rt_budget := consume_tool_call 1 (rt_budget rt1)\<rparr>))))"

lemma call_tool_unregistered: "name \<notin> set tool_names \<Longrightarrow> call_tool env name args f node rt = (NotRegistered, rt)"
  by (simp add: call_tool_def)

definition tool_calls :: "'w runtime \<Rightarrow> nat" where
  "tool_calls rt = total_tool_calls (tx_ledger (rt_context rt))"

subsection \<open>What a step of the run spends\<close>

text \<open>
  \<open>lawful rt rt'\<close>: the configuration is kept, the budget moved by budget steps only, each a call
  behind its check or a probe, and the files the run has written stay inside the repository.
\<close>

definition safe_written :: "(string, string) dict \<Rightarrow> bool" where
  "safe_written d = list_all (\<lambda>(p, c). safe_edit \<lparr>fe_path = p, fe_content = c, fe_summary = []\<rparr>) d"

lemma safe_written_set: "safe_edit e \<Longrightarrow> safe_written d \<Longrightarrow> safe_written (dict_set (fe_path e) (fe_content e) d)"
proof (induction d)
  case (Cons a d)
  then show ?case by (cases a) (auto simp: safe_written_def dict_set_def safe_edit_def)
qed (simp add: safe_written_def dict_set_def safe_edit_def)

definition lawful :: "'w runtime \<Rightarrow> 'w runtime \<Rightarrow> bool" where
  "lawful rt rt' \<longleftrightarrow>
     rt_config rt' = rt_config rt \<and> (\<exists>es. rt_budget rt' = fold budget_step es (rt_budget rt)) \<and>
     (safe_written (rt_written rt) \<longrightarrow> safe_written (rt_written rt'))"

lemma lawful_same:
  "rt_config rt' = rt_config rt \<Longrightarrow> rt_budget rt' = rt_budget rt \<Longrightarrow> rt_written rt' = rt_written rt \<Longrightarrow>
     lawful rt rt'"
  unfolding lawful_def by (metis fold_simps(1))

lemma lawful_refl [simp]: "lawful rt rt"
  by (rule lawful_same) simp_all

lemma lawful_trans: "lawful a b \<Longrightarrow> lawful b c \<Longrightarrow> lawful a c"
  unfolding lawful_def by (metis fold_append comp_apply)

lemma lawful_step:
  "rt_config rt' = rt_config rt \<Longrightarrow> rt_budget rt' = budget_step e (rt_budget rt) \<Longrightarrow>
     rt_written rt' = rt_written rt \<Longrightarrow> lawful rt rt'"
  unfolding lawful_def by (intro conjI exI [of _ "[e]"]) simp_all

lemma lawful_limits:
  assumes "lawful rt rt'"
  shows "rt_config rt' = rt_config rt" "b_limits (rt_budget rt') = b_limits (rt_budget rt)"
    "within_limits (rt_budget rt) \<Longrightarrow> within_limits (rt_budget rt')"
    "is_exhausted (rt_budget rt) \<Longrightarrow> is_exhausted (rt_budget rt')"
proof -
  from assms obtain es where es: "rt_budget rt' = fold budget_step es (rt_budget rt)"
    by (auto simp: lawful_def)
  show "rt_config rt' = rt_config rt" using assms by (simp add: lawful_def)
  show "b_limits (rt_budget rt') = b_limits (rt_budget rt)"
    unfolding es by (induction es rule: rev_induct) (simp_all add: budget_step_limits)
  show "within_limits (rt_budget rt')" if "within_limits (rt_budget rt)"
    using that unfolding es by (induction es rule: rev_induct) (simp_all add: budget_step_within)
  show "is_exhausted (rt_budget rt')" if "is_exhausted (rt_budget rt)"
    using that unfolding es by (induction es rule: rev_induct) (simp_all add: budget_step_exhausted)
qed

lemma call_tool_lawful: "lawful rt (snd (call_tool env name args f node rt))"
proof (cases "name \<in> set tool_names")
  case False
  then show ?thesis by (simp add: call_tool_unregistered)
next
  case True
  define rt0 where "rt0 = rt\<lparr>rt_context := (rt_context rt)\<lparr>tx_node := Some node, tx_agent := None\<rparr>\<rparr>"
  have rt0: "rt_config rt0 = rt_config rt" "rt_budget rt0 = rt_budget rt" by (simp_all add: rt0_def)
  obtain r b where ch: "check_tool_call (now_of env rt0) 1 (rt_budget rt) = (r, b)" by fastforce
  have "rt_budget (snd (call_tool env name args f node rt)) =
      budget_step (DoTool (now_of env rt0)) (rt_budget rt)"
    using ch True by (cases r) (simp_all add: call_tool_def tool_budget_exceeded_def would_exceed_def probe_def
        Let_def rt0 split: prod.split flip: rt0_def)
  moreover have "rt_config (snd (call_tool env name args f node rt)) = rt_config rt"
    "rt_written (snd (call_tool env name args f node rt)) = rt_written rt"
    by (auto simp: call_tool_def tool_budget_exceeded_def Let_def split: prod.split bool.split)
  ultimately show ?thesis by (intro lawful_step)
qed

text \<open>Nothing of the runtime but the context and the budget changes in a tool call.\<close>

definition same_shell :: "'w runtime \<Rightarrow> 'w runtime \<Rightarrow> bool" where
  "same_shell rt rt' \<longleftrightarrow>
     rt_repo_root rt' = rt_repo_root rt \<and> rt_router rt' = rt_router rt \<and> rt_graph rt' = rt_graph rt \<and>
     rt_written rt' = rt_written rt"

lemma call_tool_shell: "same_shell rt (snd (call_tool env name args f node rt))"
  by (auto simp: same_shell_def call_tool_def tool_budget_exceeded_def Let_def split: prod.split bool.split)


definition mute_model :: "(unit, 'o) chat_model" where
  "mute_model =
     \<lparr>cm_bind = None, cm_chat = (\<lambda>m w. (Inl (Raised ''TimeoutError'' ''slow''), w)),
      cm_answer = (\<lambda>m w. (Inl (Raised ''TimeoutError'' ''slow''), w)), cm_usage = (\<lambda>w. (None, None))\<rparr>"

definition mute_planner :: "(unit, unit) plan_model" where
  "mute_planner =
     \<lparr>pm_build = (\<lambda>spec w. (Inr (), w)), pm_invoke = (\<lambda>m p w. (Inl (Raised ''TimeoutError'' ''slow''), w)),
      pm_usage = (\<lambda>m w. (None, None)), pm_now = (\<lambda>w. 0)\<rparr>"

text \<open>An environment in which every model fails and the repository cannot be read.\<close>

definition mute_env :: "(unit, unit) flow_env" where
  "mute_env =
     \<lparr>en_services = demo_services, en_planner = mute_planner, en_build = (\<lambda>spec w. (Inr (), w)),
      en_agent = (\<lambda>c spec. mute_model), en_review = (\<lambda>spec. mute_model), en_repair = (\<lambda>spec. mute_model),
      en_system = (\<lambda>p. ''system''), en_decode = (\<lambda>name args. Inl (Raised ''ValidationError'' name)),
      en_repr = (\<lambda>r. ''r''), en_read = (\<lambda>p w. (Inl (Raised ''FileNotFoundError'' p), w)),
      en_write = (\<lambda>p c w. (Inr (), w)), en_encode = (\<lambda>r. ''record'')\<rparr>"

definition demo_runtime :: "workflow_config \<Rightarrow> unit runtime" where
  "demo_runtime cfg =
     \<lparr>rt_repo_root = ''/repo'', rt_config = cfg, rt_router = new_router [], rt_graph = None,
      rt_context = demo_context\<lparr>tx_classifier := Some None\<rparr>, rt_started_at = 0, rt_budget = new_budget default_limits 0,
      rt_budget_error = None, rt_registry = None, rt_policy = None, rt_mcp_shared = False,
      rt_written = []\<rparr>"

lemma demo_within [simp]: "within_limits (rt_budget (demo_runtime cfg))"
  by (simp add: within_limits_def demo_runtime_def new_budget_def default_limits_def below_def)


end
