(* ===== verification/Nodes.thy ===== *)
theory Nodes
  imports Runtime
begin

section \<open>The nodes of the workflow\<close>

text \<open>
  Models the node functions of \<open>agent/sweforge/graph/workflow.py\<close>. A node reads the state of the graph
  and returns a partial update; it changes the runtime, and an exception that leaves it ends the
  run. Subtasks of a layer run one after the other, as with the default of one worker; running them
  in a thread pool (\<open>subtask_workers\<close> above one) is not modelled. Agents never raise
  (\<open>Agents.run_agent\<close> is total), so the branch of \<open>implementation\<close> for a budget exception of an agent
  is unreachable and has no counterpart here.

  The lemmas show what each node leaves alone: the configuration, the limits, and every field of
  the state it does not own.
\<close>

subsection \<open>Helpers\<close>

definition list_val :: "string list \<Rightarrow> pyval" where
  "list_val xs = VList (map VStr xs)"

definition dict_val :: "(string, string) dict \<Rightarrow> pyval" where
  "dict_val d = VDict (map (\<lambda>(k, v). (k, VStr v)) d)"

definition node_update ::
  "('m, 'w) flow_env \<Rightarrow> 'w runtime \<Rightarrow> string \<Rightarrow> (execution_metrics \<Rightarrow> execution_metrics) \<Rightarrow> flow_update" where
  "node_update env rt name f =
     no_update\<lparr>su_node_trace := [name], su_metrics := Some (f (metrics_delta env rt))\<rparr>"

fun change_blocks :: "int \<Rightarrow> (string \<times> string) list \<Rightarrow> string list" where
  "change_blocks left [] = []"
| "change_blocks left ((path, content) # others) =
     (let body = (if int (length content) \<le> left then content
                  else take (nat left) content @ [newline] @ ''... [truncated]'');
          block = ''--- '' @ path @ '' ('' @ show_nat (count_char newline content + 1) @ '' lines) ---'' @
                  [newline] @ body;
          left' = left - int (length body)
      in if left' \<le> 0 then [block, ''... [remaining files omitted for prompt budget]'']
         else block # change_blocks left' others)"

definition render_change_summary :: "(string, string) dict \<Rightarrow> string" where
  "render_change_summary written =
     (if written = [] then ''(no files were changed)''
      else join [newline, newline] (change_blocks 6000 (sort_key fst written)))"

definition languages_of :: "repository_view \<Rightarrow> string list" where
  "languages_of v =
     (case v of
        NoMap \<Rightarrow> []
      | InventoryOnly s \<Rightarrow> dict_keys (su_languages s)
      | FullMap ivr st d c t \<Rightarrow>
          (case answer_of ivr of None \<Rightarrow> [] | Some i \<Rightarrow> dict_keys (su_languages (iv_summary i))))"

definition is_green :: "flow_state \<Rightarrow> bool" where
  "is_green s = (case sw_test_results s of None \<Rightarrow> False | Some v \<Rightarrow> vr_passed v)"

definition is_rejected :: "flow_state \<Rightarrow> bool" where
  "is_rejected s = (case sw_review_results s of None \<Rightarrow> False | Some r \<Rightarrow> \<not> rr_approved r)"

definition used_memory :: "'w runtime \<Rightarrow> store option" where
  "used_memory rt = (if wc_memory (rt_config rt) then tx_memory (rt_context rt) else None)"

definition planner_graph :: "'w runtime \<Rightarrow> repo_graph option" where
  "planner_graph rt = (if wc_intelligence (rt_config rt) then rt_graph rt else None)"

definition with_context :: "('w tool_context \<Rightarrow> 'w tool_context) \<Rightarrow> 'w runtime \<Rightarrow> 'w runtime" where
  "with_context f rt = rt\<lparr>rt_context := f (rt_context rt)\<rparr>"

definition experience_of ::
  "('m, 'w) flow_env \<Rightarrow> flow_state \<Rightarrow> final_status \<Rightarrow> 'w runtime \<Rightarrow> experience_record" where
  "experience_of env s status rt =
     (let attempts = sw_recovery_attempts s
      in \<lparr>xr_task = sw_task s, xr_repository = sw_repository s, xr_task_type = ''general'',
          xr_complexity = (case sw_plan s of None \<Rightarrow> sw_complexity s | Some p \<Rightarrow> pl_complexity p),
          xr_languages = py_sorted (languages_of (sw_repository_map s)),
          xr_strategy = (case sw_plan s of None \<Rightarrow> [] | Some p \<Rightarrow> pl_testing_strategy p),
          xr_relevant_files = (if rt_written rt = [] then sw_relevant_files s
                               else py_sorted (dict_keys (rt_written rt))),
          xr_models_used = py_sorted (uniq (map mc_model (sw_model_usage s))),
          xr_tools_used = py_sorted (dict_keys (by_tool (tx_ledger (rt_context rt)))),
          xr_failure_categories = map ra_category attempts,
          xr_recovery_strategies = filter (\<lambda>x. x \<noteq> []) (map ra_strategy attempts),
          xr_final_status = status_text status, xr_recovery_attempts = length attempts,
          xr_wall_time = run_elapsed env rt,
          xr_lesson = ''verification '' @ (if is_green s then ''passed'' else ''failed'') @ '' after '' @
            show_nat (length attempts) @ '' recovery attempt(s)''\<rparr>)"

definition record_experience ::
  "('m, 'w) flow_env \<Rightarrow> flow_state \<Rightarrow> final_status \<Rightarrow> 'w runtime \<Rightarrow> 'w runtime" where
  "record_experience env s status rt =
     (case used_memory rt of
        None \<Rightarrow> rt
      | Some st \<Rightarrow>
          with_context (\<lambda>cx. cx\<lparr>tx_memory := Some (add_record (en_encode env)
            (ml_decode (sv_memory (en_services env))) (experience_of env s status rt) st)\<rparr>) rt)"

text \<open>
  \<open>apply_edits\<close> writes edits through the backend; a failing write is reported and skipped. It returns
  the number of files written and the errors.
\<close>

fun apply_edits ::
  "('m, 'w) flow_env \<Rightarrow> (string \<Rightarrow> exn \<Rightarrow> string) \<Rightarrow> file_edit list \<Rightarrow> 'w runtime
   \<Rightarrow> nat \<times> string list \<times> 'w runtime" where
  "apply_edits env msg [] rt = (0, [], rt)"
| "apply_edits env msg (e # es) rt =
     (case en_write env (fe_path e) (fe_content e) (tx_world (rt_context rt)) of
        (out, w) \<Rightarrow>
          (let rt1 = with_context (\<lambda>cx. cx\<lparr>tx_world := w\<rparr>) rt
           in case out of
                Inl x \<Rightarrow>
                  (case apply_edits env msg es rt1 of
                     (n, errors, rt2) \<Rightarrow> (n, msg (fe_path e) x # errors, rt2))
              | Inr u \<Rightarrow>
                  (case apply_edits env msg es
                          (rt1\<lparr>rt_written := dict_set (fe_path e) (fe_content e) (rt_written rt1)\<rparr>) of
                     (n, errors, rt2) \<Rightarrow> (Suc n, errors, rt2))))"

subsection \<open>Intake and repository analysis\<close>

type_synonym 'w node_fun = "flow_state \<Rightarrow> ('w runtime, flow_update) action"

definition task_intake :: "('m, 'w) flow_env \<Rightarrow> 'w node_fun" where
  "task_intake env s rt =
     (let u = node_update env rt ''task_intake'' (\<lambda>m. m)
      in (Inr (if strip (sw_task s) = []
               then u\<lparr>su_errors := [''empty task: nothing to do''], su_final_status := Some FailedRun,
                      su_final_summary := Some ''Task was empty.''\<rparr>
               else u\<lparr>su_repo_root := Some (or_else (rt_repo_root rt) (sw_repo_root s))\<rparr>), rt))"

definition inventory_only :: "('m, 'w) flow_env \<Rightarrow> 'w node_fun" where
  "inventory_only env s rt =
     (case sv_analyze (en_services env) 4000 (or_else (rt_repo_root rt) (sw_repo_root s))
             (tx_world (rt_context rt)) of
        Inl e \<Rightarrow> (Inl e, rt)
      | Inr m \<Rightarrow>
          (Inr ((node_update env rt ''repository_analysis(inventory-only)'' (\<lambda>m. m))
             \<lparr>su_repository_map := Some (InventoryOnly (to_summary m)), su_relevant_files := Some []\<rparr>), rt))"

definition adopt_graph :: "'w runtime \<Rightarrow> 'w runtime" where
  "adopt_graph rt =
     (case tx_graph (rt_context rt) of
        None \<Rightarrow> rt\<lparr>rt_graph := None\<rparr>
      | Some g \<Rightarrow>
          with_context (\<lambda>cx. cx\<lparr>tx_classifier := Some (Some (dict_keys (rp_files (rg_map g)))),
              tx_verifier := map_option (\<lambda>v. v\<lparr>vf_graph := Some g\<rparr>) (tx_verifier cx)\<rparr>)
            (rt\<lparr>rt_graph := Some g\<rparr>))"

definition central_files :: "repo_graph \<Rightarrow> string list" where
  "central_files g =
     take 5 (map snd (sort_key (\<lambda>(n, p). (- int n, p))
       (map (\<lambda>(p, i). (length (find_dependents g p), p))
         (filter (\<lambda>(p, i). \<not> fi_is_test i \<and> fi_language i = ''python'') (rp_files (rg_map g))))))"

type_synonym file_evidence = "(string, string list \<times> string list) dict \<times> (string, string list) dict"

fun probe_files ::
  "('m, 'w) flow_env \<Rightarrow> string list \<Rightarrow> file_evidence \<Rightarrow> 'w runtime \<Rightarrow> file_evidence \<times> 'w runtime" where
  "probe_files env [] ev rt = (ev, rt)"
| "probe_files env (p # ps) (deps, tests) rt =
     (let sv = en_services env;
          (d, rt1) = call_tool env ''find_dependencies'' [(''file'', VStr p)] (find_dependencies_tool sv p)
                       ''repository_analysis'' rt;
          (t, rt2) = call_tool env ''find_related_tests'' [(''file'', VStr p)] (find_related_tests_tool sv p)
                       ''repository_analysis'' rt1;
          deps' = (case answer_of d of None \<Rightarrow> deps
                   | Some x \<Rightarrow> dict_set p (take 8 (dp_imports x), take 8 (dp_imported_by x)) deps);
          tests' = (case answer_of t of None \<Rightarrow> tests | Some (f, ts) \<Rightarrow> dict_set p (take 6 ts) tests)
      in probe_files env ps (deps', tests') rt2)"

definition top_symbol :: "repo_graph option \<Rightarrow> string list \<Rightarrow> string option" where
  "top_symbol graph hits =
     (case (graph, hits) of
        (Some g, h # _) \<Rightarrow>
          (case map_of (rp_files (rg_map g)) h of
             None \<Rightarrow> None
           | Some i \<Rightarrow> (case fi_symbols i of [] \<Rightarrow> None | y # _ \<Rightarrow> Some (sy_name y)))
      | _ \<Rightarrow> None)"

definition probe_callers ::
  "('m, 'w) flow_env \<Rightarrow> string list \<Rightarrow> 'w runtime \<Rightarrow> ((string, string list) dict \<times> nat) \<times> 'w runtime" where
  "probe_callers env hits rt =
     (case top_symbol (rt_graph rt) hits of
        None \<Rightarrow> (([], 0), rt)
      | Some y \<Rightarrow>
          (case call_tool env ''find_callers'' [(''symbol'', VStr y)] (find_callers_tool (en_services env) y)
                  ''repository_analysis'' rt of
             (r, rt') \<Rightarrow>
               ((case answer_of r of None \<Rightarrow> [] | Some c \<Rightarrow> [(y, take 8 (cr_referencing c))], 1), rt')))"

definition full_analysis :: "('m, 'w) flow_env \<Rightarrow> 'w node_fun" where
  "full_analysis env s rt =
     (let sv = en_services env; node = ''repository_analysis'';
          (ivr, rt1) = call_tool env ''analyze_repository'' [(''max_files'', VInt 4000)]
                         (analyze_repository sv 4000) node rt;
          rt2 = adopt_graph rt1;
          (st, rt3) = call_tool env ''build_repository_graph'' [] (build_repository_graph sv) node rt2;
          (ranked, rt4) = call_tool env ''find_relevant_files''
                            [(''task'', VStr (sw_task s)), (''limit'', VInt 12), (''include_tests'', VBool True)]
                            (find_relevant_files_tool sv (sw_task s) 12 True) node rt3;
          found = (case answer_of ranked of None \<Rightarrow> [] | Some r \<Rightarrow> map fst (rf_results r));
          hits = (if found \<noteq> [] then found
                  else case rt_graph rt4 of None \<Rightarrow> [] | Some g \<Rightarrow> central_files g);
          ((deps, tests), rt5) = probe_files env (take 3 hits) ([], []) rt4;
          ((callers, n), rt6) = probe_callers env hits rt5;
          count = 3 + 2 * length (take 3 hits) + n
      in (Inr ((node_update env rt6 (''repository_analysis('' @ show_nat (length hits) @ '' candidates)'')
                 (\<lambda>m. m\<lparr>em_tool_calls := int count\<rparr>))
               \<lparr>su_repository_map := Some (FullMap ivr st deps callers tests),
                su_relevant_files := Some hits\<rparr>), rt6))"

definition repository_analysis :: "('m, 'w) flow_env \<Rightarrow> 'w node_fun" where
  "repository_analysis env s rt =
     (if wc_intelligence (rt_config rt) then full_analysis env s rt else inventory_only env s rt)"

subsection \<open>External context, complexity, planning, selection\<close>

definition mcp_call ::
  "('m, 'w) flow_env \<Rightarrow> 'w registry \<Rightarrow> mcp_policy \<Rightarrow> string \<Rightarrow> kwargs \<Rightarrow> 'w runtime \<Rightarrow> mcp_result \<times> 'w runtime" where
  "mcp_call env g m c args rt =
     (let m1 = (if rt_mcp_shared rt then m\<lparr>mp_budget := Some (rt_budget rt)\<rparr> else m)
      in case invoke (sv_now (en_services env)) g c args m1 (tx_world (rt_context rt)) of
           (r, m2, w) \<Rightarrow>
             (r, with_context (\<lambda>cx. cx\<lparr>tx_world := w\<rparr>)
                   (rt\<lparr>rt_policy := Some m2,
                       rt_budget := (if rt_mcp_shared rt
                         then (case mp_budget m2 of Some b \<Rightarrow> b | None \<Rightarrow> rt_budget rt)
                         else rt_budget rt)\<rparr>)))"

definition external_context :: "('m, 'w) flow_env \<Rightarrow> 'w node_fun" where
  "external_context env s rt =
     (case (rt_registry rt, rt_policy rt) of
        (Some g, Some m) \<Rightarrow>
          (let sel = select_capability g (sw_task s)
           in case se_capability sel of
                Some (c0 # cs) \<Rightarrow>
                  if \<not> se_needed sel
                  then (Inr (node_update env rt (''external_context(not needed: '' @
                          take 60 (se_rationale sel) @ '')'') (\<lambda>m. m)), rt)
                  else (case mcp_call env g m (c0 # cs) (se_arguments sel) rt of
                     (r, rt') \<Rightarrow>
                       (Inr ((node_update env rt'
                            (''external_context('' @ (c0 # cs) @ '': '' @
                             (if mr_ok r then ''ok''
                              else case mr_category r of None \<Rightarrow> ''None'' | Some k \<Rightarrow> k) @ '')'')
                            (\<lambda>m. m\<lparr>em_tool_calls := 1\<rparr>))
                          \<lparr>su_external_context := Some [(sel, r)]\<rparr>), rt'))
              | _ \<Rightarrow> (Inr (node_update env rt (''external_context(not needed: '' @
                       take 60 (se_rationale sel) @ '')'') (\<lambda>m. m)), rt))
      | _ \<Rightarrow> (Inr (node_update env rt ''external_context(skipped: no MCP configured)'' (\<lambda>m. m)), rt))"

definition complexity_analysis :: "('m, 'w) flow_env \<Rightarrow> 'w node_fun" where
  "complexity_analysis env s rt =
     (let sv = en_services env; task = sw_task s;
          prior = estimate_complexity task (gather_evidence (planner_graph rt) task 12);
          (experience, n, rt1) =
            (if wc_memory (rt_config rt)
             then (case call_tool env ''retrieve_similar_tasks''
                     [(''task'', VStr task), (''limit'', VInt 3)] (retrieve_similar_tasks sv task 3)
                     ''task_complexity_analysis'' rt of
                     (r, rt1) \<Rightarrow>
                       (case retrieve_experience (sv_memory sv) task (sw_repository s) (used_memory rt1) of
                          (rs, st) \<Rightarrow> (rs, 1, with_context (\<lambda>cx. cx\<lparr>tx_memory := st\<rparr>) rt1)))
             else ([], 0, rt))
      in (Inr ((node_update env rt1 ''task_complexity_analysis'' (\<lambda>m. m\<lparr>em_tool_calls := n\<rparr>))
               \<lparr>su_complexity := Some prior, su_memory_context := Some (map re_record experience)\<rparr>), rt1))"

definition planning :: "('m, 'w) flow_env \<Rightarrow> 'w node_fun" where
  "planning env s rt =
     (let ps = \<lparr>ps_router = rt_router rt, ps_memory = used_memory rt, ps_world = tx_world (rt_context rt)\<rparr>
      in case plan_task (sv_memory (en_services env)) (en_planner env) (planner_graph rt) (sw_task s)
                (sw_repository s) ps of
           (out, ps') \<Rightarrow>
             (let rt' = with_context (\<lambda>cx. cx\<lparr>tx_world := ps_world ps',
                            tx_memory := (if wc_memory (rt_config rt) then ps_memory ps' else tx_memory cx)\<rparr>)
                          (rt\<lparr>rt_router := ps_router ps'\<rparr>)
              in case out of
                   Inl e \<Rightarrow> (Inl e, rt')
                 | Inr (plan, evidence, reason) \<Rightarrow>
                     (Inr ((node_update env rt' ''planning'' (\<lambda>m. m\<lparr>em_model_calls := 1\<rparr>))
                        \<lparr>su_plan := Some (Some plan), su_complexity := Some (pl_complexity plan),
                         su_relevant_files := Some (if pl_relevant_files plan = [] then sw_relevant_files s
                                                    else pl_relevant_files plan),
                         su_final_summary := Some (''planner routing: '' @ reason)\<rparr>), rt')))"

definition agent_selection :: "('m, 'w) flow_env \<Rightarrow> 'w node_fun" where
  "agent_selection env s rt =
     (let u = node_update env rt ''dynamic_agent_selection'' (\<lambda>m. m)
      in (Inr (case sw_plan s of
                 None \<Rightarrow> u\<lparr>su_errors := [''no plan available for agent selection'']\<rparr>
               | Some plan \<Rightarrow>
                   u\<lparr>su_selected_agents := Some (select_agents plan (wc_review (rt_config rt)))\<rparr>), rt))"

subsection \<open>Implementation\<close>

definition agent_start :: "'w runtime \<Rightarrow> 'w tool_context agent_state" where
  "agent_start rt = \<lparr>ag_router = rt_router rt, ag_budget = Some (rt_budget rt), ag_world = rt_context rt\<rparr>"

definition agent_finish :: "'w tool_context agent_state \<Rightarrow> 'w runtime \<Rightarrow> 'w runtime" where
  "agent_finish a rt =
     rt\<lparr>rt_router := ag_router a,
        rt_budget := (case ag_budget a of None \<Rightarrow> rt_budget rt | Some b \<Rightarrow> b), rt_context := ag_world a\<rparr>"

fun run_subtasks ::
  "('m, 'w) flow_env \<Rightarrow> task_plan \<Rightarrow> subtask list \<Rightarrow> 'w runtime \<Rightarrow> implementation_result list \<times> 'w runtime" where
  "run_subtasks env plan [] rt = ([], rt)"
| "run_subtasks env plan (st # sts) rt =
     (case run_agent (agents_of env) (build_agent (st_agent st)) (rt_graph rt) st plan (agent_start rt) of
        (r, a) \<Rightarrow>
          (case run_subtasks env plan sts (agent_finish a rt) of (rs, rt') \<Rightarrow> (r # rs, rt')))"

fun run_layers ::
  "('m, 'w) flow_env \<Rightarrow> task_plan \<Rightarrow> subtask list list \<Rightarrow> 'w runtime \<Rightarrow> implementation_result list \<times> 'w runtime" where
  "run_layers env plan [] rt = ([], rt)"
| "run_layers env plan (l # ls) rt =
     (case run_subtasks env plan l rt of
        (rs, rt1) \<Rightarrow>
          (case run_layers env plan ls rt1 of
             (rss, rt2) \<Rightarrow> (sort_key ir_subtask_id rs @ rss, rt2)))"

definition write_error :: "string \<Rightarrow> exn \<Rightarrow> string" where
  "write_error path e = ''failed to write '' @ path @ '': '' @ exn_text e"

definition implementation :: "('m, 'w) flow_env \<Rightarrow> 'w node_fun" where
  "implementation env s rt =
     (case sw_plan s of
        None \<Rightarrow>
          (Inr ((node_update env rt ''implementation'' (\<lambda>m. m))\<lparr>su_errors := [''no plan to implement'']\<rparr>), rt)
      | Some plan \<Rightarrow>
          (case execution_layers plan of
             Inl e \<Rightarrow> (Inl e, rt)
           | Inr layers \<Rightarrow>
               (let (results, rt1) = run_layers env plan layers rt;
                    (n, errors, rt2) = apply_edits env write_error (concat (map ir_edits results)) rt1;
                    names = map (\<lambda>st. role_text (st_agent st) @ '':'' @ st_id st) (concat layers)
                in (Inr ((node_update env rt2 (''implementation('' @ or_none names @ '')'')
                           (\<lambda>m. m\<lparr>em_model_calls := int (length (concat layers))\<rparr>))
                         \<lparr>su_implementation_results := results, su_agents_executed := map ir_agent results,
                          su_errors := errors\<rparr>), rt2))))"

subsection \<open>Verification and failure analysis\<close>

definition changed_files :: "flow_state \<Rightarrow> 'w runtime \<Rightarrow> string list" where
  "changed_files s rt =
     (if rt_written rt = [] then sw_relevant_files s else py_sorted (dict_keys (rt_written rt)))"

definition verify_directly ::
  "('m, 'w) flow_env \<Rightarrow> verifier \<Rightarrow> string list \<Rightarrow> ('w runtime, verification_result) action" where
  "verify_directly env vf changed rt =
     (case run_verifier (en_services env) vf changed (wc_full_suite (rt_config rt)) (rt_context rt) of
        (out, cx) \<Rightarrow> (out, rt\<lparr>rt_context := cx\<rparr>))"

definition verify_now ::
  "('m, 'w) flow_env \<Rightarrow> verifier \<Rightarrow> string list \<Rightarrow> ('w runtime, verification_result) action" where
  "verify_now env vf0 changed rt =
     (let full = wc_full_suite (rt_config rt);
          (r, rt1) = call_tool env ''run_validation''
                       [(''changed_files'', list_val changed), (''full_suite'', VBool full)]
                       (run_validation (en_services env) changed full) ''verification'' rt;
          vf1 = (case tx_verifier (rt_context rt1) of None \<Rightarrow> vf0 | Some v \<Rightarrow> v)
      in case answer_of r of
           Some (v, summary) \<Rightarrow> (Inr (case vf_last vf1 of Some v1 \<Rightarrow> v1 | None \<Rightarrow> v), rt1)
         | None \<Rightarrow> verify_directly env vf1 changed rt1)"

definition verification :: "('m, 'w) flow_env \<Rightarrow> 'w node_fun" where
  "verification env s rt =
     (case tx_verifier (rt_context rt) of
        None \<Rightarrow>
          (Inr ((node_update env rt ''verification(skipped: no backend)'' (\<lambda>m. m))
             \<lparr>su_test_results := Some None,
              su_errors := [''verification unavailable: no execution backend configured'']\<rparr>), rt)
      | Some vf0 \<Rightarrow>
          (case verify_now env vf0 (changed_files s rt) rt of
             (Inl e, rt1) \<Rightarrow> (Inl e, rt1)
           | (Inr v, rt1) \<Rightarrow>
               (Inr ((node_update env rt1 (''verification('' @ (if vr_passed v then ''PASS'' else ''FAIL'') @ '')'')
                       (\<lambda>m. m\<lparr>em_verification_runs := 1, em_tool_calls := 1\<rparr>))
                     \<lparr>su_test_results := Some (Some v)\<rparr>), rt1)))"

definition no_result_diagnosis :: failure_diagnosis where
  "no_result_diagnosis =
     \<lparr>fd_category = FEnvironment, fd_root_cause = ''verification produced no result'',
      fd_suspect_files = [], fd_strategy = ''escalate'', fd_confidence = 0\<rparr>"

definition tool_diagnosis :: "classification \<Rightarrow> failure_diagnosis" where
  "tool_diagnosis c =
     \<lparr>fd_category = cl_category c,
      fd_root_cause = or_else (failure_text (cl_category c) @ '' failure'')
                        (take 400 (join ''; '' (cl_evidence c))),
      fd_suspect_files = cl_suspect_files c, fd_strategy = [], fd_confidence = cl_confidence c\<rparr>"

definition direct_diagnosis :: "classification \<Rightarrow> failure_diagnosis" where
  "direct_diagnosis c =
     \<lparr>fd_category = cl_category c, fd_root_cause = describe c, fd_suspect_files = cl_suspect_files c,
      fd_strategy = [], fd_confidence = cl_confidence c\<rparr>"

definition classify_now :: "'w runtime \<Rightarrow> verification_result \<Rightarrow> classification" where
  "classify_now rt v = Classifier.classify (known_files (rt_context rt)) v"

definition failure_analysis :: "('m, 'w) flow_env \<Rightarrow> 'w node_fun" where
  "failure_analysis env s rt =
     (case sw_test_results s of
        None \<Rightarrow>
          (Inr ((node_update env rt ''failure_analysis(no result)'' (\<lambda>m. m))
             \<lparr>su_failures := [no_result_diagnosis]\<rparr>), rt)
      | Some v \<Rightarrow>
          (let (r, rt1) = call_tool env ''analyze_failure''
                 [(''output'', VStr (vr_output v)), (''errors'', list_val (vr_errors v))]
                 (analyze_failure (vr_output v) (vr_errors v)) ''failure_analysis'' rt;
               d = (case answer_of r of
                      Some c \<Rightarrow> tool_diagnosis c | None \<Rightarrow> direct_diagnosis (classify_now rt1 v))
           in (Inr ((node_update env rt1 (''failure_analysis('' @ failure_text (fd_category d) @ '')'')
                      (\<lambda>m. m\<lparr>em_tool_calls := 1\<rparr>))\<lparr>su_failures := [d]\<rparr>), rt1)))"

subsection \<open>Recovery\<close>

definition empty_attempt :: "nat \<Rightarrow> recovery_attempt" where
  "empty_attempt n =
     \<lparr>ra_number = n, ra_category = FEnvironment,
      ra_diagnosis = ''no verification result available to diagnose'', ra_strategy = ''none'',
      ra_edits = [], ra_verification = None\<rparr>"

definition attempt_of :: "nat \<Rightarrow> repair_output \<Rightarrow> recovery_attempt" where
  "attempt_of n out =
     \<lparr>ra_number = n, ra_category = fd_category (ro_diagnosis out),
      ra_diagnosis = fd_root_cause (ro_diagnosis out),
      ra_strategy = or_else (fd_strategy (ro_diagnosis out)) (ro_strategy out),
      ra_edits = ro_edits out, ra_verification = None\<rparr>"

definition repair_files :: "flow_state \<Rightarrow> string list" where
  "repair_files s =
     filter (\<lambda>f. f \<noteq> [])
       ((case sw_review_results s of
           None \<Rightarrow> []
         | Some r \<Rightarrow> if rr_approved r then [] else List.map_filter rf_file (rr_findings r)) @
        take 4 (sw_relevant_files s))"

definition repair_error :: "string \<Rightarrow> exn \<Rightarrow> string" where
  "repair_error path e = ''recovery failed to write '' @ path @ '': '' @ exn_str e"

definition recovery :: "('m, 'w) flow_env \<Rightarrow> 'w node_fun" where
  "recovery env s rt =
     (let attempts = sw_recovery_attempts s; n = length attempts + 1
      in case sw_test_results s of
           None \<Rightarrow>
             (Inr ((node_update env rt ''recovery(aborted: nothing to diagnose)''
                      (\<lambda>m. m\<lparr>em_recovery_attempts := int n\<rparr>))
                    \<lparr>su_recovery_attempts := Some (attempts @ [empty_attempt n])\<rparr>), rt)
         | Some v \<Rightarrow>
             (case diagnose_and_repair (agents_of env) (sw_task s) (classify_now rt v) v (sw_complexity s) n
                     (filter (\<lambda>x. x \<noteq> []) (map ra_strategy attempts)) (repair_files s) (agent_start rt) of
                (Inl e, a) \<Rightarrow> (Inl e, agent_finish a rt)
              | (Inr out, a) \<Rightarrow>
                  (case apply_edits env repair_error (ro_edits out) (agent_finish a rt) of
                     (k, errors, rt1) \<Rightarrow>
                       (Inr ((node_update env rt1 (''recovery(attempt '' @ show_nat n @ '', '' @ show_nat k @ '' files)'')
                               (\<lambda>m. m\<lparr>em_model_calls := 1, em_recovery_attempts := int n\<rparr>))
                             \<lparr>su_recovery_attempts := Some (attempts @ [attempt_of n out]),
                              su_errors := errors\<rparr>), rt1))))"

subsection \<open>Review, security and risk\<close>

definition review_diff :: "git_diff option \<Rightarrow> (string, string) dict \<Rightarrow> string" where
  "review_diff d written =
     (case d of
        None \<Rightarrow> render_change_summary written
      | Some g \<Rightarrow>
          (if gd_stat g = [] then render_change_summary written
           else ''git diff --stat vs '' @ gd_base g @ '':'' @ [newline] @ gd_stat g @ [newline, newline] @
                render_change_summary written))"

definition independent_review :: "('m, 'w) flow_env \<Rightarrow> 'w node_fun" where
  "independent_review env s rt =
     (case sw_plan s of
        None \<Rightarrow> (Inr (node_update env rt ''independent_review(skipped)'' (\<lambda>m. m)), rt)
      | Some plan \<Rightarrow>
          (let (d, rt1) = call_tool env ''inspect_git_diff'' [(''base'', VStr ''HEAD''), (''paths'', VList [])]
                 (inspect_git_diff (en_services env) ''HEAD'' []) ''independent_review'' rt
           in case review (agents_of env) (rt_graph rt1) (sw_task s) plan
                     (review_diff (answer_of d) (rt_written rt1)) (sw_test_results s)
                     (py_sorted (dict_keys (rt_written rt1))) (agent_start rt1) of
                (Inl e, a) \<Rightarrow> (Inl e, agent_finish a rt1)
              | (Inr r, a) \<Rightarrow>
                  (let rt2 = agent_finish a rt1
                   in (Inr ((node_update env rt2
                             (''independent_review('' @ (if rr_approved r then ''APPROVED'' else ''REJECTED'') @ '')'')
                             (\<lambda>m. m\<lparr>em_model_calls := 1, em_review_rejections := (if rr_approved r then 0 else 1)\<rparr>))
                           \<lparr>su_review_results := Some r\<rparr>), rt2))))"

definition security_analysis :: "('m, 'w) flow_env \<Rightarrow> 'w node_fun" where
  "security_analysis env s rt =
     (let (r, rt1) = call_tool env ''security_scan'' [(''files'', dict_val (rt_written rt))]
            (security_scan (rt_written rt)) ''security_analysis'' rt;
          findings = (case answer_of r of
             Some fs \<Rightarrow> fs
           | None \<Rightarrow> scan (case tx_scanner (rt_context rt1) of None \<Rightarrow> [] | Some extra \<Rightarrow> extra)
                       \<lparr>cs_files = rt_written rt1, cs_deleted = None\<rparr>)
      in (Inr ((node_update env rt1 (''security_analysis('' @ show_nat (length findings) @ '' findings)'')
                 (\<lambda>m. m\<lparr>em_tool_calls := 1\<rparr>))\<lparr>su_security_findings := Some findings\<rparr>), rt1))"

definition risk_gate :: "('m, 'w) flow_env \<Rightarrow> 'w node_fun" where
  "risk_gate env s rt =
     (let files = rt_written rt;
          (r, rt1) = call_tool env ''calculate_change_risk''
            [(''files'', dict_val files), (''deleted'', VList []), (''verification_passed'', VBool (is_green s))]
            (calculate_change_risk files [] (Some (is_green s))) ''risk_gate'' rt;
          score = assess (engine_of (rt_context rt1)) \<lparr>cs_files = rt_written rt1, cs_deleted = None\<rparr>
                    (sw_test_results s) (Some (sw_security_findings s)) (is_rejected s)
                    (int (length (sw_recovery_attempts s)))
      in (Inr ((node_update env rt1 (''risk_gate('' @ level_text (rs_level score) @ '', score='' @
                   show_int (rs_score score) @ '')'')
                 (\<lambda>m. m\<lparr>em_security_gate := (rs_level score = HighRisk), em_tool_calls := 1\<rparr>))
               \<lparr>su_risk_score := Some score\<rparr>), rt1))"

subsection \<open>Terminal nodes\<close>

definition finish_run ::
  "('m, 'w) flow_env \<Rightarrow> flow_state \<Rightarrow> string \<Rightarrow> final_status \<Rightarrow> string \<Rightarrow> 'w runtime \<Rightarrow> flow_update \<times> 'w runtime" where
  "finish_run env s name status summary rt =
     (let rt1 = record_experience env s status rt
      in ((node_update env rt1 name (\<lambda>m. m\<lparr>em_tool_calls := int (tool_calls rt1)\<rparr>))
            \<lparr>su_final_status := Some status, su_final_summary := Some summary\<rparr>, rt1))"

definition final_verdict :: "flow_state \<Rightarrow> final_status" where
  "final_verdict s =
     (if \<not> is_green s then FailedRun
      else if sw_security_findings s \<noteq> [] \<or>
              (case sw_review_results s of None \<Rightarrow> False | Some r \<Rightarrow> rr_findings r \<noteq> [])
      then CompletedWithFindings else Completed)"

definition verdict_summary :: "flow_state \<Rightarrow> string" where
  "verdict_summary s =
     ''status='' @ status_text (final_verdict s) @
     ''; verification='' @ (if is_green s then ''green'' else ''red'') @
     ''; risk='' @ (case sw_risk_score s of None \<Rightarrow> ''n/a'' | Some r \<Rightarrow> level_text (rs_level r)) @
     ''; review='' @ (case sw_review_results s of None \<Rightarrow> ''n/a''
                      | Some r \<Rightarrow> if rr_approved r then ''approved'' else ''rejected'') @
     ''; recovery_attempts='' @ show_nat (length (sw_recovery_attempts s))"

definition finalization :: "('m, 'w) flow_env \<Rightarrow> 'w node_fun" where
  "finalization env s rt =
     (case finish_run env s ''finalization'' (final_verdict s) (verdict_summary s) rt of
        (u, rt') \<Rightarrow> (Inr u, rt'))"

definition approval_summary :: "flow_state \<Rightarrow> string" where
  "approval_summary s =
     ''HIGH risk ('' @ (case sw_risk_score s of None \<Rightarrow> ''n/a'' | Some r \<Rightarrow> show_int (rs_score r)) @
     ''): human approval required. '' @
     (case sw_risk_score s of None \<Rightarrow> [] | Some r \<Rightarrow> rs_recommendation r)"

definition human_approval :: "('m, 'w) flow_env \<Rightarrow> 'w node_fun" where
  "human_approval env s rt =
     (case finish_run env s ''human_approval'' AwaitingApproval (approval_summary s) rt of
        (u, rt') \<Rightarrow> (Inr u, rt'))"

definition escalated_status :: "flow_state \<Rightarrow> final_status" where
  "escalated_status s = (if is_rejected s then EscalatedReview else EscalatedRecovery)"

definition escalation_summary :: "flow_state \<Rightarrow> string" where
  "escalation_summary s =
     (let attempts = sw_recovery_attempts s
      in ''Escalated to a human after '' @ show_nat (length attempts) @ '' recovery attempt(s). '' @
         (if attempts = [] then []
          else ''Last diagnosis: '' @ take 200 (ra_diagnosis (last attempts))) @
         (case sw_review_results s of
            None \<Rightarrow> []
          | Some r \<Rightarrow> if rr_approved r then []
                      else '' Reviewer findings: '' @ show_nat (length (blocking_findings r)) @ '' blocking.''))"

definition escalation :: "('m, 'w) flow_env \<Rightarrow> 'w node_fun" where
  "escalation env s rt =
     (case finish_run env s ''escalation'' (escalated_status s) (escalation_summary s) rt of
        (u, rt') \<Rightarrow> (Inr u, rt'))"

definition show_money :: "rat \<Rightarrow> string" where
  "show_money x =
     (let k = round_half_even (x * 10000)
      in show_int (k div 10000) @ ''.'' @ pad_zeros 4 (show_pos (k mod 10000)))"

definition none_text :: "string option \<Rightarrow> string" where
  "none_text x = (case x of None \<Rightarrow> ''None'' | Some t \<Rightarrow> t)"

definition halt_reason :: "budget_snapshot \<Rightarrow> 'w runtime \<Rightarrow> string" where
  "halt_reason b rt =
     (case bs_exhausted_reason b of
        Some (c # cs) \<Rightarrow> c # cs | _ \<Rightarrow> none_text (rt_budget_error rt))"

definition budget_stop :: "('m, 'w) flow_env \<Rightarrow> 'w node_fun" where
  "budget_stop env s rt =
     (let b = snapshot (now_of env rt) (rt_budget rt)
      in case finish_run env s (''budget_exhausted('' @ none_text (bs_exhausted_reason b) @ '')'') BudgetExhausted
             (''Halted by execution budget: '' @ halt_reason b rt @ ''. Used '' @
              show_int (bs_model_calls_used b) @ '' model call(s), '' @
              show_int (bs_tool_calls_used b) @ '' tool call(s), $'' @ show_money (bs_cost_used b) @
              '' estimated.'') rt of
           (u, rt') \<Rightarrow> (Inr (u\<lparr>su_budget_snapshot := Some (snapshot_dict b)\<rparr>), rt'))"

subsection \<open>The node table\<close>

datatype node_name =
    TaskIntake | RepositoryAnalysis | ExternalContext | ComplexityAnalysis | Planning | AgentSelection
  | Implementation | Verification | FailureAnalysis | Recovery | IndependentReview | SecurityAnalysis
  | RiskGate | Finalization | HumanApproval | Escalation | BudgetStop

fun node_text :: "node_name \<Rightarrow> string" where
  "node_text TaskIntake = ''task_intake''"
| "node_text RepositoryAnalysis = ''repository_analysis''"
| "node_text ExternalContext = ''external_context''"
| "node_text ComplexityAnalysis = ''task_complexity_analysis''"
| "node_text Planning = ''planning''"
| "node_text AgentSelection = ''dynamic_agent_selection''"
| "node_text Implementation = ''implementation''"
| "node_text Verification = ''verification''"
| "node_text FailureAnalysis = ''failure_analysis''"
| "node_text Recovery = ''recovery''"
| "node_text IndependentReview = ''independent_review''"
| "node_text SecurityAnalysis = ''security_analysis''"
| "node_text RiskGate = ''risk_gate''"
| "node_text Finalization = ''finalization''"
| "node_text HumanApproval = ''human_approval''"
| "node_text Escalation = ''escalation''"
| "node_text BudgetStop = ''budget_exhausted''"

fun node_body :: "('m, 'w) flow_env \<Rightarrow> node_name \<Rightarrow> 'w node_fun" where
  "node_body env TaskIntake = task_intake env"
| "node_body env RepositoryAnalysis = repository_analysis env"
| "node_body env ExternalContext = external_context env"
| "node_body env ComplexityAnalysis = complexity_analysis env"
| "node_body env Planning = planning env"
| "node_body env AgentSelection = agent_selection env"
| "node_body env Implementation = implementation env"
| "node_body env Verification = verification env"
| "node_body env FailureAnalysis = failure_analysis env"
| "node_body env Recovery = recovery env"
| "node_body env IndependentReview = independent_review env"
| "node_body env SecurityAnalysis = security_analysis env"
| "node_body env RiskGate = risk_gate env"
| "node_body env Finalization = finalization env"
| "node_body env HumanApproval = human_approval env"
| "node_body env Escalation = escalation env"
| "node_body env BudgetStop = budget_stop env"

definition snapshot_kwargs :: "budget_snapshot \<Rightarrow> kwargs" where
  "snapshot_kwargs s =
     [(''model_calls_used'', VInt (bs_model_calls_used s)), (''tool_calls_used'', VInt (bs_tool_calls_used s)),
      (''input_tokens_used'', VInt (bs_input_tokens_used s)),
      (''output_tokens_used'', VInt (bs_output_tokens_used s)),
      (''cost_used_usd'', VFloat (bs_cost_used s)), (''wall_time_used_seconds'', VFloat (bs_wall_time_used s)),
      (''model_calls_remaining'', opt_val VInt (bs_model_calls_remaining s)),
      (''tool_calls_remaining'', opt_val VInt (bs_tool_calls_remaining s)),
      (''cost_remaining_usd'', opt_val VFloat (bs_cost_remaining s)),
      (''wall_time_remaining_seconds'', opt_val VFloat (bs_wall_time_remaining s)),
      (''exhausted'', VBool (bs_exhausted s)), (''exhausted_reason'', opt_val VStr (bs_exhausted_reason s))]"

definition trace_node ::
  "('m, 'w) flow_env \<Rightarrow> node_name \<Rightarrow> rat \<Rightarrow> flow_update \<Rightarrow> 'w runtime \<Rightarrow> 'w runtime" where
  "trace_node env n started u rt =
     (case tx_tracer (rt_context rt) of
        None \<Rightarrow> rt
      | Some tr \<Rightarrow>
          (let sv = en_services env; now = now_of env rt;
               k = (case su_recovery_attempts u of None \<Rightarrow> 0 | Some xs \<Rightarrow> length xs);
               f = node_event (node_text n)
                     (no_fields\<lparr>ef_status := Some (case su_final_status u of None \<Rightarrow> ''ok'' | Some st \<Rightarrow> status_text st),
                        ef_duration := Some (py_round 6 (now - started)),
                        ef_recovery_attempt := (if k = 0 then None else Some (int k)),
                        ef_budget := snapshot_kwargs (snapshot_dict (snapshot now (rt_budget rt))),
                        ef_detail := [(''trace'', list_val (su_node_trace u))]\<rparr>)
           in case record_event (sv_dumps sv) (sv_sink sv) now ''node'' (Some (tr_task_id tr)) f
                     (tr, tx_world (rt_context rt)) of
                (e, tr', w) \<Rightarrow> with_context (\<lambda>cx. cx\<lparr>tx_tracer := Some tr', tx_world := w\<rparr>) rt))"

definition run_node :: "('m, 'w) flow_env \<Rightarrow> node_name \<Rightarrow> 'w node_fun" where
  "run_node env n s rt =
     (case node_body env n s rt of
        (Inl e, rt') \<Rightarrow> (Inl e, rt')
      | (Inr u, rt') \<Rightarrow> (Inr u, trace_node env n (now_of env rt) u rt'))"

subsection \<open>What a node leaves alone\<close>

lemma node_update_fields [simp]:
  "su_repo_root (node_update env rt name f) = None" "su_repository_map (node_update env rt name f) = None"
  "su_relevant_files (node_update env rt name f) = None" "su_complexity (node_update env rt name f) = None"
  "su_plan (node_update env rt name f) = None" "su_selected_agents (node_update env rt name f) = None"
  "su_test_results (node_update env rt name f) = None" "su_failures (node_update env rt name f) = []"
  "su_recovery_attempts (node_update env rt name f) = None" "su_review_results (node_update env rt name f) = None"
  "su_security_findings (node_update env rt name f) = None" "su_risk_score (node_update env rt name f) = None"
  "su_final_status (node_update env rt name f) = None" "su_node_trace (node_update env rt name f) = [name]"
  "su_metrics (node_update env rt name f) = Some (f (metrics_delta env rt))"
  "su_errors (node_update env rt name f) = []"
  by (simp_all add: node_update_def no_update_def)

definition terminal :: "node_name \<Rightarrow> bool" where
  "terminal n \<longleftrightarrow> n \<in> {Finalization, HumanApproval, Escalation, BudgetStop}"

definition owned_update :: "node_name \<Rightarrow> flow_state \<Rightarrow> flow_update \<Rightarrow> bool" where
  "owned_update n s u \<longleftrightarrow>
     (n \<noteq> Planning \<longrightarrow> su_plan u = None) \<and>
     (n \<noteq> Verification \<longrightarrow> su_test_results u = None) \<and>
     (n \<noteq> IndependentReview \<longrightarrow> su_review_results u = None) \<and>
     (n \<noteq> SecurityAnalysis \<longrightarrow> su_security_findings u = None) \<and>
     (n \<noteq> RiskGate \<longrightarrow> su_risk_score u = None) \<and>
     (if n = Recovery
      then \<exists>a. su_recovery_attempts u = Some (sw_recovery_attempts s @ [a]) \<and>
             ra_number a = Suc (length (sw_recovery_attempts s))
      else su_recovery_attempts u = None) \<and>
     (n \<noteq> TaskIntake \<longrightarrow> \<not> terminal n \<longrightarrow> su_final_status u = None)"

lemmas node_defs =
  task_intake_def repository_analysis_def full_analysis_def inventory_only_def external_context_def
  complexity_analysis_def planning_def agent_selection_def implementation_def verification_def
  failure_analysis_def recovery_def independent_review_def security_analysis_def risk_gate_def
  finalization_def human_approval_def escalation_def budget_stop_def finish_run_def

lemma node_body_owned: "node_body env n s rt = (Inr u, rt') \<Longrightarrow> owned_update n s u"
  by (cases n) (auto simp: owned_update_def terminal_def node_defs Let_def empty_attempt_def attempt_of_def
      split: prod.splits sum.splits option.splits if_splits list.splits)

lemma run_node_owned: "run_node env n s rt = (Inr u, rt') \<Longrightarrow> owned_update n s u"
  using node_body_owned by (fastforce simp: run_node_def split: prod.splits sum.splits)

subsection \<open>What a node pays\<close>

lemma lawful_with_context [simp]: "lawful rt (with_context f rt)"
  by (rule lawful_same) (simp_all add: with_context_def)

lemma lawful_record_experience [simp]: "lawful rt (record_experience env s status rt)"
  by (simp add: record_experience_def split: option.split)

lemma lawful_apply_edits:
  "apply_edits env msg es rt = (n, errors, rt') \<Longrightarrow> list_all safe_edit es \<Longrightarrow> lawful rt rt'"
proof (induction es arbitrary: rt n errors rt')
  case (Cons e es)
  obtain out w where wr: "en_write env (fe_path e) (fe_content e) (tx_world (rt_context rt)) = (out, w)"
    by fastforce
  define rt1 where "rt1 = with_context (\<lambda>cx. cx\<lparr>tx_world := w\<rparr>) rt"
  define rt2 where "rt2 = (if isl out then rt1
      else rt1\<lparr>rt_written := dict_set (fe_path e) (fe_content e) (rt_written rt1)\<rparr>)"
  from Cons.prems(1) wr obtain k errs where "apply_edits env msg es rt2 = (k, errs, rt')"
    by (cases out) (auto simp: rt1_def rt2_def Let_def split: prod.splits)
  from Cons.IH [OF this] Cons.prems(2) have "lawful rt2 rt'" by simp
  moreover have "lawful rt rt1" by (simp add: rt1_def)
  moreover have "safe_written (rt_written rt1) \<Longrightarrow> safe_written (rt_written rt2)"
    using safe_written_set [of e] Cons.prems(2) by (simp add: rt2_def)
  then have "lawful rt1 rt2"
    unfolding lawful_def by (intro conjI exI [of _ "[]"]) (simp_all add: rt2_def)
  ultimately show ?case using lawful_trans by blast
qed simp

lemma lawful_agent:
  assumes "ag_budget a = map_option (fold budget_step es) (Some (rt_budget rt))"
  shows "lawful rt (agent_finish a rt)"
  using assms by (auto simp: lawful_def agent_finish_def)

lemma run_agent_effect:
  assumes "run_agent env c graph st plan s = (r, a)"
  shows "\<exists>es. ag_budget a = map_option (fold budget_step es) (ag_budget s)" "list_all safe_edit (ir_edits r)"
proof -
  obtain out l where l: "agent_loop env c graph st plan s = (out, l)" by fastforce
  with assms agent_loop_spends [of s env c graph st plan]
  show "\<exists>es. ag_budget a = map_option (fold budget_step es) (ag_budget s)"
    by (auto simp: run_agent_def spends_def loop_start_def loop_end_def split: sum.splits)
  show "list_all safe_edit (ir_edits r)"
    using assms l agent_loop_out [of env c graph st plan s]
    by (auto simp: run_agent_def failed_result_def to_result_def Let_def split: sum.splits)
qed

lemma run_subtasks_effect:
  "run_subtasks env plan sts rt = (rs, rt') \<Longrightarrow>
     lawful rt rt' \<and> list_all (\<lambda>r. list_all safe_edit (ir_edits r)) rs"
proof (induction sts arbitrary: rt rs rt')
  case (Cons st sts)
  obtain r a where ag: "run_agent (agents_of env) (build_agent (st_agent st)) (rt_graph rt) st plan (agent_start rt) = (r, a)"
    by fastforce
  have "lawful rt (agent_finish a rt)"
    using run_agent_effect(1) [OF ag] by (auto simp: agent_start_def intro: lawful_agent)
  moreover from Cons.prems ag obtain rs1 where
    rs: "run_subtasks env plan sts (agent_finish a rt) = (rs1, rt')" "rs = r # rs1"
    by (auto split: prod.splits)
  ultimately have "lawful rt rt'" using Cons.IH lawful_trans by blast
  with Cons.IH [OF rs(1)] rs(2) run_agent_effect(2) [OF ag] show ?case by simp
qed simp

lemma run_layers_effect:
  "run_layers env plan ls rt = (rs, rt') \<Longrightarrow>
     lawful rt rt' \<and> list_all safe_edit (concat (map ir_edits rs))"
proof (induction ls arbitrary: rt rs rt')
  case (Cons l ls)
  then obtain r1 rt1 r2 where l: "run_subtasks env plan l rt = (r1, rt1)" "run_layers env plan ls rt1 = (r2, rt')"
    "rs = sort_key ir_subtask_id r1 @ r2"
    by (auto split: prod.splits)
  with Cons.IH [OF l(2)] run_subtasks_effect [OF l(1)] show ?case
    by (auto simp: list_all_iff intro: lawful_trans)
qed simp

lemma lawful_probe_files: "probe_files env ps ev rt = (ev', rt') \<Longrightarrow> lawful rt rt'"
proof (induction ps arbitrary: ev rt)
  case (Cons p ps)
  obtain deps tests where ev: "ev = (deps, tests)" by fastforce
  obtain d rt1 where d: "call_tool env ''find_dependencies'' [(''file'', VStr p)]
      (find_dependencies_tool (en_services env) p) ''repository_analysis'' rt = (d, rt1)" by fastforce
  obtain t rt2 where t: "call_tool env ''find_related_tests'' [(''file'', VStr p)]
      (find_related_tests_tool (en_services env) p) ''repository_analysis'' rt1 = (t, rt2)" by fastforce
  have "lawful rt rt1" "lawful rt1 rt2" using call_tool_lawful d t by (metis snd_conv)+
  moreover from Cons.prems ev d t obtain ev2 where "probe_files env ps ev2 rt2 = (ev', rt')"
    by (auto simp: Let_def)
  ultimately show ?case using Cons.IH lawful_trans by blast
qed simp

lemma call_tool_pays: "call_tool env name args f node rt = (r, rt') \<Longrightarrow> lawful rt rt'"
  using call_tool_lawful by (metis snd_conv)

lemma lawful_probe_callers: "probe_callers env hits rt = (x, rt') \<Longrightarrow> lawful rt rt'"
  by (auto simp: probe_callers_def split: option.splits prod.splits dest: call_tool_pays)

lemma mcp_budget_steps:
  assumes "invoke now g c args m w = (r, m', w')" "mp_budget m = Some b"
  shows "\<exists>es. mp_budget m' = Some (fold budget_step es b)"
proof -
  from assms(1) obtain m1 where d: "decide_call now g c args m w = (r, m1, w')" and m': "m' = put_call r m1"
    by (auto simp: invoke_def split: prod.splits)
  have bud: "mp_budget m' = mp_budget m1" by (simp add: m' put_call_def)
  from d show ?thesis
  proof (cases rule: decide_call_cases)
    case refused
    have "mp_budget (snd (probe_budget (now w) m)) = Some (fold budget_step [Probe KTool (now w)] b)"
      using assms(2) by (simp add: probe_budget_def split: prod.split)
    moreover have "mp_budget m = Some (fold budget_step [] b)" using assms(2) by simp
    ultimately show ?thesis using refused(6) bud by metis
  next
    case (called a)
    from called(1) have "\<not> fst (probe_budget (now w) m)" by (simp add: contacted_def)
    then have "probe_budget (now w) m = (False, snd (probe_budget (now w) m))"
      by (metis (full_types) prod.collapse)
    from probe_budget_admits [OF this] assms(2) have "fst (check_tool_call (now w) 1 b) = Inr ()" by blast
    then obtain b1 where ok: "check_tool_call (now w) 1 b = (Inr (), b1)" by (metis eq_fst_iff)
    then have "b1 = b" using check_accepts [OF check_like_tool] by blast
    with ok have "mp_budget m = Some (fold budget_step [] b)"
      "map_option (consume_tool_call 1) (mp_budget m) = Some (fold budget_step [DoTool (now w)] b)"
      using assms(2) by simp_all
    with call_adapter_result(7) [OF called(3)] bud show ?thesis by metis
  qed
qed

lemma lawful_mcp_call:
  assumes "mcp_call env g m c args rt = (r, rt')"
  shows "lawful rt rt'"
proof -
  define m1 where "m1 = (if rt_mcp_shared rt then m\<lparr>mp_budget := Some (rt_budget rt)\<rparr> else m)"
  obtain r1 m2 w where inv: "invoke (sv_now (en_services env)) g c args m1 (tx_world (rt_context rt)) = (r1, m2, w)"
    by (metis prod.exhaust)
  from assms inv have rt': "rt' = with_context (\<lambda>cx. cx\<lparr>tx_world := w\<rparr>)
      (rt\<lparr>rt_policy := Some m2, rt_budget := (if rt_mcp_shared rt
         then (case mp_budget m2 of Some b \<Rightarrow> b | None \<Rightarrow> rt_budget rt) else rt_budget rt)\<rparr>)"
    by (simp add: mcp_call_def Let_def flip: m1_def)
  show ?thesis
  proof (cases "rt_mcp_shared rt")
    case True
    then have "mp_budget m1 = Some (rt_budget rt)" by (simp add: m1_def)
    from mcp_budget_steps [OF inv this] True show ?thesis by (auto simp: lawful_def rt' with_context_def)
  next
    case False
    then show ?thesis by (simp add: rt' with_context_def lawful_same)
  qed
qed

lemma lawful_adopt_graph [simp]: "lawful rt (adopt_graph rt)"
  by (auto simp: adopt_graph_def with_context_def intro: lawful_same split: option.split)

lemma lawful_after:
  "lawful a b \<Longrightarrow> lawful a (with_context f b)" "lawful a b \<Longrightarrow> lawful a (record_experience env s st b)"
  "lawful a b \<Longrightarrow> lawful a (adopt_graph b)"
  using lawful_trans lawful_with_context lawful_record_experience lawful_adopt_graph by blast+

lemma full_analysis_pays:
  assumes "full_analysis env s rt = (out, rt')"
  shows "lawful rt rt'"
proof -
  define sv where "sv = en_services env"
  obtain ivr rt1 where 1: "call_tool env ''analyze_repository'' [(''max_files'', VInt 4000)]
      (analyze_repository sv 4000) ''repository_analysis'' rt = (ivr, rt1)" by fastforce
  obtain st rt3 where 3: "call_tool env ''build_repository_graph'' [] (build_repository_graph sv)
      ''repository_analysis'' (adopt_graph rt1) = (st, rt3)" by fastforce
  obtain ranked rt4 where 4: "call_tool env ''find_relevant_files''
      [(''task'', VStr (sw_task s)), (''limit'', VInt 12), (''include_tests'', VBool True)]
      (find_relevant_files_tool sv (sw_task s) 12 True) ''repository_analysis'' rt3 = (ranked, rt4)" by fastforce
  define hits where "hits =
      (let found = (case answer_of ranked of None \<Rightarrow> [] | Some r \<Rightarrow> map fst (rf_results r))
       in if found \<noteq> [] then found else case rt_graph rt4 of None \<Rightarrow> [] | Some g \<Rightarrow> central_files g)"
  obtain deps tests rt5 where 5: "probe_files env (take 3 hits) ([], []) rt4 = ((deps, tests), rt5)"
    by (metis prod.exhaust)
  obtain callers n rt6 where 6: "probe_callers env hits rt5 = ((callers, n), rt6)"
    by (metis prod.exhaust)
  have "rt' = rt6"
    using assms 1 3 4 5 6 by (auto simp: full_analysis_def Let_def simp flip: sv_def hits_def [unfolded Let_def])
  moreover have "lawful rt (adopt_graph rt1)" using call_tool_pays [OF 1] lawful_after(3) by blast
  moreover note call_tool_pays [OF 3] call_tool_pays [OF 4] lawful_probe_files [OF 5] lawful_probe_callers [OF 6]
  ultimately show ?thesis using lawful_trans by metis
qed

lemma external_pays: "external_context env s rt = (out, rt') \<Longrightarrow> lawful rt rt'"
  by (auto simp: external_context_def Let_def dest: lawful_mcp_call
      split: option.splits list.splits if_splits prod.splits)

lemma complexity_pays: "complexity_analysis env s rt = (out, rt') \<Longrightarrow> lawful rt rt'"
  by (auto simp: complexity_analysis_def Let_def dest!: call_tool_pays intro: lawful_after
      split: if_splits prod.splits)

lemma planning_pays: "planning env s rt = (out, rt') \<Longrightarrow> lawful rt rt'"
  by (auto simp: planning_def Let_def with_context_def intro!: lawful_same split: prod.splits sum.splits)

lemma implementation_pays:
  assumes "implementation env s rt = (out, rt')"
  shows "lawful rt rt'"
proof (cases "sw_plan s")
  case None
  with assms show ?thesis by (simp add: implementation_def)
next
  case (Some plan)
  show ?thesis
  proof (cases "execution_layers plan")
    case (Inl e)
    with assms Some show ?thesis by (simp add: implementation_def)
  next
    case (Inr layers)
    obtain results rt1 where l: "run_layers env plan layers rt = (results, rt1)" by fastforce
    obtain n errors rt2 where e: "apply_edits env write_error (concat (map ir_edits results)) rt1 = (n, errors, rt2)"
      by (metis prod.exhaust)
    from assms Some Inr l e have "rt' = rt2" by (simp add: implementation_def Let_def)
    with run_layers_effect [OF l] lawful_apply_edits [OF e] lawful_trans show ?thesis by blast
  qed
qed

lemma verify_directly_pays: "verify_directly env vf changed rt = (out, rt') \<Longrightarrow> lawful rt rt'"
  by (auto simp: verify_directly_def intro: lawful_same split: prod.splits)

lemma verify_now_pays:
  assumes "verify_now env vf0 changed rt = (out, rt')"
  shows "lawful rt rt'"
proof -
  obtain r rt1 where c: "call_tool env ''run_validation''
      [(''changed_files'', list_val changed), (''full_suite'', VBool (wc_full_suite (rt_config rt)))]
      (run_validation (en_services env) changed (wc_full_suite (rt_config rt))) ''verification'' rt = (r, rt1)"
    by fastforce
  have "lawful rt1 rt'"
    using assms c by (auto simp: verify_now_def Let_def split: option.splits dest: verify_directly_pays)
  with call_tool_pays [OF c] show ?thesis by (rule lawful_trans)
qed

lemma verification_pays: "verification env s rt = (out, rt') \<Longrightarrow> lawful rt rt'"
  by (auto simp: verification_def split: option.splits prod.splits sum.splits dest: verify_now_pays)

lemma failure_pays: "failure_analysis env s rt = (out, rt') \<Longrightarrow> lawful rt rt'"
  by (auto simp: failure_analysis_def Let_def dest: call_tool_pays split: option.splits prod.splits)

lemma ask_agent_pays:
  assumes "ask env menv v node spec prompt h s = (out, a)" "ag_budget s = Some (rt_budget rt)"
  shows "lawful rt (agent_finish a rt)"
proof -
  have "ag_budget a = map_option (fold budget_step []) (Some (rt_budget rt))"
    using ask_effect(1) [OF assms(1)] assms(2) by simp
  then show ?thesis by (rule lawful_agent)
qed

lemma repair_pays:
  assumes "diagnose_and_repair env task c v complexity n previous wanted (agent_start rt) = (out, a)"
  shows "lawful rt (agent_finish a rt)"
proof -
  obtain contents w where rd: "read_files (ae_read env) (take 6 (uniq (cl_suspect_files c @ wanted)))
      (ag_world (agent_start rt)) = (contents, w)" by fastforce
  obtain spec prompt where
    "ask env (ae_repair env spec) validate_repair repair_node spec prompt (failed_repair c)
       ((agent_start rt)\<lparr>ag_world := w\<rparr>) = (out, a)"
    using assms unfolding diagnose_and_repair_def rd Let_def prod.case by blast
  then show ?thesis by (rule ask_agent_pays) (simp add: agent_start_def)
qed

lemma recovery_pays:
  assumes "recovery env s rt = (out, rt')"
  shows "lawful rt rt'"
proof (cases "sw_test_results s")
  case None
  with assms show ?thesis by (simp add: recovery_def Let_def)
next
  case (Some v)
  define n where "n = length (sw_recovery_attempts s) + 1"
  obtain q a where d: "diagnose_and_repair (agents_of env) (sw_task s) (classify_now rt v) v (sw_complexity s) n
      (filter (\<lambda>x. x \<noteq> []) (map ra_strategy (sw_recovery_attempts s))) (repair_files s) (agent_start rt) = (q, a)"
    by fastforce
  show ?thesis
  proof (cases q)
    case (Inl e)
    with assms Some d repair_pays [OF d] show ?thesis by (simp add: recovery_def Let_def n_def)
  next
    case (Inr x)
    obtain k errors rt1 where e: "apply_edits env repair_error (ro_edits x) (agent_finish a rt) = (k, errors, rt1)"
      by (metis prod.exhaust)
    from assms Some d Inr e have "rt' = rt1" by (simp add: recovery_def Let_def n_def)
    moreover have "list_all safe_edit (ro_edits x)" using repair_is_contained [OF d [unfolded Inr]] by blast
    ultimately show ?thesis using repair_pays [OF d] lawful_apply_edits [OF e] lawful_trans by blast
  qed
qed

lemma review_pays:
  assumes "review env graph task plan diff v changed (agent_start rt) = (out, a)"
  shows "lawful rt (agent_finish a rt)"
proof -
  from assms obtain spec prompt where
    "ask env (ae_review env spec) (\<lambda>r. Inr (reconcile_review r)) review_node spec prompt failed_review
       (agent_start rt) = (out, a)"
    by (auto simp: review_def Let_def)
  then show ?thesis by (rule ask_agent_pays) (simp add: agent_start_def)
qed

lemma independent_review_pays: "independent_review env s rt = (out, rt') \<Longrightarrow> lawful rt rt'"
  by (auto simp: independent_review_def Let_def split: option.splits sum.splits prod.splits
      dest!: call_tool_pays review_pays intro: lawful_trans)

lemma gate_pays:
  "security_analysis env s rt = (out, rt') \<Longrightarrow> lawful rt rt'"
  "risk_gate env s rt = (out, rt') \<Longrightarrow> lawful rt rt'"
  by (auto simp: security_analysis_def risk_gate_def Let_def dest: call_tool_pays split: prod.splits)

lemma terminal_pays:
  "finalization env s rt = (out, rt') \<Longrightarrow> lawful rt rt'"
  "human_approval env s rt = (out, rt') \<Longrightarrow> lawful rt rt'"
  "escalation env s rt = (out, rt') \<Longrightarrow> lawful rt rt'"
  "budget_stop env s rt = (out, rt') \<Longrightarrow> lawful rt rt'"
  by (auto simp: finalization_def human_approval_def escalation_def budget_stop_def finish_run_def Let_def)

lemma node_body_pays: "node_body env n s rt = (out, rt') \<Longrightarrow> lawful rt rt'"
  by (cases n) (auto simp: task_intake_def repository_analysis_def inventory_only_def agent_selection_def
      Let_def split: if_splits sum.splits
      dest: full_analysis_pays external_pays complexity_pays planning_pays implementation_pays
        verification_pays failure_pays recovery_pays independent_review_pays gate_pays terminal_pays)

lemma trace_node_pays [simp]: "lawful rt (trace_node env n t u rt)"
  by (auto simp: trace_node_def Let_def split: option.split prod.split)

lemma run_node_pays:
  assumes "run_node env n s rt = (out, rt')"
  shows "lawful rt rt'"
proof -
  obtain o1 rt1 where "node_body env n s rt = (o1, rt1)" by fastforce
  with assms node_body_pays [OF this] lawful_trans [OF _ trace_node_pays] show ?thesis
    by (auto simp: run_node_def split: sum.splits)
qed

end
