(* ===== verification/Workflow.thy ===== *)
theory Workflow
  imports Nodes
begin

section \<open>The workflow\<close>

text \<open>
  Models the routing functions and the graph of \<open>agent/sweforge/graph/workflow.py\<close>. A configuration of
  the machine is a position, the state and the runtime; a step runs the node, merges its update and
  asks the router. An exception of a node ends the run. The routers of verification and of failure
  analysis read the budget; the latter probes it, which may mark it exhausted.

  \<open>control_step\<close> is the abstract specification: the control graph over the verdicts the routers
  read. The concrete machine refines it, and the facts of the machine locale are proved on it:
  every run ends within a bound given by the configuration, and its final status is earned.
\<close>

subsection \<open>Routers\<close>

definition route_after_intake :: "flow_state \<Rightarrow> node_name" where
  "route_after_intake s = (if sw_final_status s = FailedRun then Finalization else RepositoryAnalysis)"

definition review_budget_left :: "workflow_config \<Rightarrow> flow_state \<Rightarrow> bool" where
  "review_budget_left cfg s =
     ((case sw_metrics s of None \<Rightarrow> 0 | Some m \<Rightarrow> em_review_rejections m) < int (wc_max_reviews cfg))"

definition after_green :: "workflow_config \<Rightarrow> node_name" where
  "after_green cfg = (if wc_gate cfg then SecurityAnalysis else Finalization)"

definition route_after_verification :: "workflow_config \<Rightarrow> budget \<Rightarrow> flow_state \<Rightarrow> node_name" where
  "route_after_verification cfg b s =
     (if is_exhausted b \<and> \<not> is_green s then BudgetStop
      else if is_green s
      then (if wc_review cfg \<and> review_budget_left cfg s then IndependentReview else after_green cfg)
      else if wc_recovery cfg then FailureAnalysis else Finalization)"

definition route_after_failure ::
  "workflow_config \<Rightarrow> rat \<Rightarrow> flow_state \<Rightarrow> budget \<Rightarrow> node_name \<times> budget" where
  "route_after_failure cfg now s b =
     (if is_exhausted b then (BudgetStop, b)
      else case would_exceed KModel now b of
        (True, b1) \<Rightarrow> (BudgetStop, b1)
      | (False, b1) \<Rightarrow>
          (case would_exceed KTime now b1 of
             (True, b2) \<Rightarrow> (BudgetStop, b2)
           | (False, b2) \<Rightarrow>
               (if length (sw_recovery_attempts s) < wc_max_recovery cfg then Recovery else Escalation, b2)))"

definition route_after_review :: "workflow_config \<Rightarrow> flow_state \<Rightarrow> node_name" where
  "route_after_review cfg s =
     (if \<not> is_rejected s then after_green cfg
      else if wc_recovery cfg \<and> length (sw_recovery_attempts s) < wc_max_recovery cfg then Recovery
      else Escalation)"

definition needs_approval :: "flow_state \<Rightarrow> bool" where
  "needs_approval s = (case sw_risk_score s of None \<Rightarrow> False | Some r \<Rightarrow> requires_human_approval r)"

definition route_after_risk_gate :: "flow_state \<Rightarrow> node_name" where
  "route_after_risk_gate s = (if needs_approval s then HumanApproval else Finalization)"

subsection \<open>The graph\<close>

datatype position = At node_name | Ended | Crashed exn

type_synonym 'w flow = "position \<times> flow_state \<times> 'w runtime"

fun route ::
  "('m, 'w) flow_env \<Rightarrow> node_name \<Rightarrow> flow_state \<Rightarrow> 'w runtime \<Rightarrow> position \<times> 'w runtime" where
  "route env TaskIntake s rt = (At (route_after_intake s), rt)"
| "route env RepositoryAnalysis s rt = (At ExternalContext, rt)"
| "route env ExternalContext s rt = (At ComplexityAnalysis, rt)"
| "route env ComplexityAnalysis s rt = (At Planning, rt)"
| "route env Planning s rt = (At AgentSelection, rt)"
| "route env AgentSelection s rt = (At Implementation, rt)"
| "route env Implementation s rt = (At Verification, rt)"
| "route env Verification s rt = (At (route_after_verification (rt_config rt) (rt_budget rt) s), rt)"
| "route env FailureAnalysis s rt =
     (case route_after_failure (rt_config rt) (now_of env rt) s (rt_budget rt) of
        (n, b) \<Rightarrow> (At n, rt\<lparr>rt_budget := b\<rparr>))"
| "route env Recovery s rt = (At Verification, rt)"
| "route env IndependentReview s rt = (At (route_after_review (rt_config rt) s), rt)"
| "route env SecurityAnalysis s rt = (At RiskGate, rt)"
| "route env RiskGate s rt = (At (route_after_risk_gate s), rt)"
| "route env Finalization s rt = (Ended, rt)"
| "route env HumanApproval s rt = (Ended, rt)"
| "route env Escalation s rt = (Ended, rt)"
| "route env BudgetStop s rt = (Ended, rt)"

definition advance :: "('m, 'w) flow_env \<Rightarrow> node_name \<Rightarrow> flow_state \<Rightarrow> 'w runtime \<Rightarrow> 'w flow" where
  "advance env n s rt =
     (case run_node env n s rt of
        (Inl e, rt1) \<Rightarrow> (Crashed e, s, rt1)
      | (Inr u, rt1) \<Rightarrow>
          (let s1 = merge_update u s
           in case route env n s1 rt1 of (p, rt2) \<Rightarrow> (p, s1, rt2)))"

inductive flow_step :: "('m, 'w) flow_env \<Rightarrow> 'w flow \<Rightarrow> 'w flow \<Rightarrow> bool" for env where
  step: "flow_step env (At n, s, rt) (advance env n s rt)"

inductive_cases flow_stepE: "flow_step env (At n, s, rt) c"
inductive_simps flow_step_simps: "flow_step env (p, s, rt) c"

text \<open>
  \<open>run_flow\<close> executes the graph; its fuel is the \<open>recursion_limit\<close> of the graph runtime, which raises
  when the limit is reached before the end.
\<close>

fun run_flow :: "('m, 'w) flow_env \<Rightarrow> nat \<Rightarrow> 'w flow \<Rightarrow> 'w flow option" where
  "run_flow env k (Ended, s, rt) = Some (Ended, s, rt)"
| "run_flow env k (Crashed e, s, rt) = Some (Crashed e, s, rt)"
| "run_flow env 0 (At n, s, rt) = None"
| "run_flow env (Suc k) (At n, s, rt) = run_flow env k (advance env n s rt)"

definition start_flow :: "string \<Rightarrow> string \<Rightarrow> 'w runtime \<Rightarrow> 'w flow" where
  "start_flow task repository rt = (At TaskIntake, initial_state task repository (rt_repo_root rt), rt)"

subsection \<open>The abstract control graph\<close>

record control =
  ct_pos :: position
  ct_green :: bool
  ct_rejected :: bool
  ct_attempts :: nat
  ct_scored :: bool
  ct_high :: bool
  ct_exhausted :: bool
  ct_status :: final_status

definition node_effect :: "node_name \<Rightarrow> control \<Rightarrow> control \<Rightarrow> bool" where
  "node_effect n c d \<longleftrightarrow>
     (n \<noteq> Verification \<longrightarrow> ct_green d = ct_green c) \<and>
     (n \<noteq> IndependentReview \<longrightarrow> ct_rejected d = ct_rejected c) \<and>
     ct_attempts d = (if n = Recovery then Suc (ct_attempts c) else ct_attempts c) \<and>
     (if n = RiskGate then ct_scored d else ct_scored d = ct_scored c \<and> ct_high d = ct_high c) \<and>
     (ct_exhausted c \<longrightarrow> ct_exhausted d) \<and>
     (case n of
        TaskIntake \<Rightarrow> ct_status d \<in> {ct_status c, FailedRun}
      | Finalization \<Rightarrow>
          if ct_green c then ct_status d \<in> {Completed, CompletedWithFindings} else ct_status d = FailedRun
      | HumanApproval \<Rightarrow> ct_status d = AwaitingApproval
      | Escalation \<Rightarrow> ct_status d = (if ct_rejected c then EscalatedReview else EscalatedRecovery)
      | BudgetStop \<Rightarrow> ct_status d = BudgetExhausted
      | _ \<Rightarrow> ct_status d = ct_status c)"

fun successor :: "workflow_config \<Rightarrow> node_name \<Rightarrow> control \<Rightarrow> position \<Rightarrow> bool" where
  "successor cfg TaskIntake d p = (p = At (if ct_status d = FailedRun then Finalization else RepositoryAnalysis))"
| "successor cfg RepositoryAnalysis d p = (p = At ExternalContext)"
| "successor cfg ExternalContext d p = (p = At ComplexityAnalysis)"
| "successor cfg ComplexityAnalysis d p = (p = At Planning)"
| "successor cfg Planning d p = (p = At AgentSelection)"
| "successor cfg AgentSelection d p = (p = At Implementation)"
| "successor cfg Implementation d p = (p = At Verification)"
| "successor cfg Verification d p =
     (if ct_green d then p = At (after_green cfg) \<or> wc_review cfg \<and> p = At IndependentReview
      else if ct_exhausted d then p = At BudgetStop
      else p = At (if wc_recovery cfg then FailureAnalysis else Finalization))"
| "successor cfg FailureAnalysis d p =
     (if ct_exhausted d then p = At BudgetStop
      else p = At (if ct_attempts d < wc_max_recovery cfg then Recovery else Escalation))"
| "successor cfg Recovery d p = (p = At Verification)"
| "successor cfg IndependentReview d p =
     (p = At (if \<not> ct_rejected d then after_green cfg
              else if wc_recovery cfg \<and> ct_attempts d < wc_max_recovery cfg then Recovery
              else Escalation))"
| "successor cfg SecurityAnalysis d p = (p = At RiskGate)"
| "successor cfg RiskGate d p = (p = At (if ct_high d then HumanApproval else Finalization))"
| "successor cfg Finalization d p = (p = Ended)"
| "successor cfg HumanApproval d p = (p = Ended)"
| "successor cfg Escalation d p = (p = Ended)"
| "successor cfg BudgetStop d p = (p = Ended)"

inductive control_step :: "workflow_config \<Rightarrow> control \<Rightarrow> control \<Rightarrow> bool" for cfg where
  normal: "ct_pos c = At n \<Longrightarrow> node_effect n c d \<Longrightarrow> successor cfg n d (ct_pos d) \<Longrightarrow> control_step cfg c d"
| raised: "ct_pos c = At n \<Longrightarrow> (ct_exhausted c \<longrightarrow> x) \<Longrightarrow>
    control_step cfg c (c\<lparr>ct_pos := Crashed e, ct_exhausted := x\<rparr>)"

inductive_cases control_stepE: "control_step cfg c d"

definition verdicts :: "'w flow \<Rightarrow> control" where
  "verdicts = (\<lambda>(p, s, rt).
     \<lparr>ct_pos = p, ct_green = is_green s, ct_rejected = is_rejected s,
      ct_attempts = length (sw_recovery_attempts s), ct_scored = (sw_risk_score s \<noteq> None),
      ct_high = needs_approval s, ct_exhausted = is_exhausted (rt_budget rt),
      ct_status = sw_final_status s\<rparr>)"

definition config_of :: "'w flow \<Rightarrow> workflow_config" where
  "config_of = (\<lambda>(p, s, rt). rt_config rt)"

subsection \<open>Refinement\<close>

lemma route_lawful: "route env n s rt = (p, rt') \<Longrightarrow> lawful rt rt'"
proof (cases "n = FailureAnalysis")
  case True
  assume r: "route env n s rt = (p, rt')"
  obtain m b where f: "route_after_failure (rt_config rt) (now_of env rt) s (rt_budget rt) = (m, b)" by fastforce
  obtain x1 b1 where 1: "would_exceed KModel (now_of env rt) (rt_budget rt) = (x1, b1)" by fastforce
  obtain x2 b2 where 2: "would_exceed KTime (now_of env rt) b1 = (x2, b2)" by fastforce
  have "b = fold budget_step [] (rt_budget rt) \<or>
      b = fold budget_step [Probe KModel (now_of env rt)] (rt_budget rt) \<or>
      b = fold budget_step [Probe KModel (now_of env rt), Probe KTime (now_of env rt)] (rt_budget rt)"
    using f 1 2 by (auto simp: route_after_failure_def split: if_splits bool.splits)
  then have "\<exists>es. b = fold budget_step es (rt_budget rt)" by blast
  with True r f show ?thesis by (auto simp: lawful_def)
next
  case False
  assume "route env n s rt = (p, rt')"
  with False show ?thesis by (cases n) auto
qed

lemma would_exceed_exhausts: "would_exceed k now b = (True, b') \<Longrightarrow> is_exhausted b'"
proof -
  assume "would_exceed k now b = (True, b')"
  then obtain e where "probe k now b = (Inl e, b')"
    by (auto simp: would_exceed_def split: prod.splits sum.splits)
  then show ?thesis by (rule check_refuses [OF check_like_probe]) (simp add: is_exhausted_def)
qed

lemma would_exceed_accepts: "would_exceed k now b = (False, b') \<Longrightarrow> b' = b"
proof -
  assume "would_exceed k now b = (False, b')"
  then obtain u where "probe k now b = (Inr u, b')"
    by (auto simp: would_exceed_def split: prod.splits sum.splits)
  then show ?thesis by (rule check_accepts [OF check_like_probe])
qed

lemma route_successor:
  assumes "route env n s rt = (p, rt')"
  shows "successor (rt_config rt) n (verdicts (p, s, rt')) p"
proof (cases n)
  case Verification
  with assms show ?thesis by (auto simp: verdicts_def route_after_verification_def split: if_splits)
next
  case FailureAnalysis
  with assms obtain m b where
    f: "route_after_failure (rt_config rt) (now_of env rt) s (rt_budget rt) = (m, b)" "p = At m"
      "rt' = rt\<lparr>rt_budget := b\<rparr>" by (auto split: prod.splits)
  from f(1) have "if is_exhausted b then m = BudgetStop
      else m = (if length (sw_recovery_attempts s) < wc_max_recovery (rt_config rt) then Recovery else Escalation)"
    by (auto simp: route_after_failure_def dest: would_exceed_exhausts would_exceed_accepts
        split: if_splits prod.splits bool.splits)
  with FailureAnalysis f show ?thesis by (simp add: verdicts_def split: if_splits)
qed (use assms in \<open>auto simp: verdicts_def route_after_intake_def route_after_review_def
  route_after_risk_gate_def\<close>)

lemma run_node_status:
  assumes "run_node env n s rt = (Inr u, rt')"
  shows "n = TaskIntake \<Longrightarrow> su_final_status u \<in> {None, Some FailedRun}"
    "n = RiskGate \<Longrightarrow> su_risk_score u \<noteq> None"
    "n = Finalization \<Longrightarrow> su_final_status u = Some (final_verdict s)"
    "n = HumanApproval \<Longrightarrow> su_final_status u = Some AwaitingApproval"
    "n = Escalation \<Longrightarrow> su_final_status u = Some (escalated_status s)"
    "n = BudgetStop \<Longrightarrow> su_final_status u = Some BudgetExhausted"
proof -
  from assms obtain rt1 where b: "node_body env n s rt = (Inr u, rt1)"
    by (auto simp: run_node_def split: prod.splits sum.splits)
  show "n = TaskIntake \<Longrightarrow> su_final_status u \<in> {None, Some FailedRun}"
    using b by (auto simp: task_intake_def Let_def split: if_splits)
  show "n = RiskGate \<Longrightarrow> su_risk_score u \<noteq> None"
    using b by (auto simp: risk_gate_def Let_def split: prod.splits)
  show "n = Finalization \<Longrightarrow> su_final_status u = Some (final_verdict s)"
    using b by (auto simp: finalization_def finish_run_def Let_def)
  show "n = HumanApproval \<Longrightarrow> su_final_status u = Some AwaitingApproval"
    using b by (auto simp: human_approval_def finish_run_def Let_def)
  show "n = Escalation \<Longrightarrow> su_final_status u = Some (escalated_status s)"
    using b by (auto simp: escalation_def finish_run_def Let_def)
  show "n = BudgetStop \<Longrightarrow> su_final_status u = Some BudgetExhausted"
    using b by (auto simp: budget_stop_def finish_run_def Let_def)
qed

lemma merge_verdicts:
  "su_test_results u = None \<Longrightarrow> is_green (merge_update u s) = is_green s"
  "su_review_results u = None \<Longrightarrow> is_rejected (merge_update u s) = is_rejected s"
  "su_risk_score u = None \<Longrightarrow> needs_approval (merge_update u s) = needs_approval s"
  by (simp_all add: is_green_def is_rejected_def needs_approval_def)

lemma node_refines_effect:
  assumes r: "run_node env n s rt = (Inr u, rt1)" and l: "lawful rt1 rt2"
  shows "node_effect n (verdicts (At n, s, rt)) (verdicts (p, merge_update u s, rt2))"
proof -
  note own = run_node_owned [OF r, unfolded owned_update_def]
  have green: "n \<noteq> Verification \<Longrightarrow> is_green (merge_update u s) = is_green s"
    and rej: "n \<noteq> IndependentReview \<Longrightarrow> is_rejected (merge_update u s) = is_rejected s"
    and risk: "n \<noteq> RiskGate \<Longrightarrow> needs_approval (merge_update u s) = needs_approval s \<and>
      sw_risk_score (merge_update u s) = sw_risk_score s"
    using own by (simp_all add: merge_verdicts)
  have att: "length (sw_recovery_attempts (merge_update u s)) =
      (if n = Recovery then Suc (length (sw_recovery_attempts s)) else length (sw_recovery_attempts s))"
    using own by (auto split: if_splits)
  have scored: "n = RiskGate \<Longrightarrow> sw_risk_score (merge_update u s) \<noteq> None"
    using run_node_status(2) [OF r] by auto
  have ex: "is_exhausted (rt_budget rt) \<Longrightarrow> is_exhausted (rt_budget rt2)"
    using lawful_limits(4) run_node_pays [OF r] l by blast
  have "case n of
        TaskIntake \<Rightarrow> sw_final_status (merge_update u s) \<in> {sw_final_status s, FailedRun}
      | Finalization \<Rightarrow>
          if is_green s then sw_final_status (merge_update u s) \<in> {Completed, CompletedWithFindings}
          else sw_final_status (merge_update u s) = FailedRun
      | HumanApproval \<Rightarrow> sw_final_status (merge_update u s) = AwaitingApproval
      | Escalation \<Rightarrow> sw_final_status (merge_update u s) = (if is_rejected s then EscalatedReview else EscalatedRecovery)
      | BudgetStop \<Rightarrow> sw_final_status (merge_update u s) = BudgetExhausted
      | _ \<Rightarrow> sw_final_status (merge_update u s) = sw_final_status s"
    using own run_node_status [OF r]
    by (cases n) (auto simp: terminal_def final_verdict_def escalated_status_def)
  with green rej risk att scored ex show ?thesis
    unfolding node_effect_def verdicts_def by (cases n; cases "is_green s") simp_all
qed

lemma step_refines:
  assumes "flow_step env c d"
  shows "control_step (config_of c) (verdicts c) (verdicts d)" "config_of d = config_of c"
    "lawful (snd (snd c)) (snd (snd d))"
proof -
  obtain n s rt where c: "c = (At n, s, rt)" and d: "d = advance env n s rt"
    using assms by (cases rule: flow_step.cases) auto
  obtain out rt1 where r: "run_node env n s rt = (out, rt1)" by fastforce
  have l1: "lawful rt rt1" using run_node_pays [OF r] .
  have all: "control_step (config_of c) (verdicts c) (verdicts d) \<and> config_of d = config_of c \<and> lawful rt (snd (snd d))"
  proof (cases out)
    case (Inl e)
    with r d have d': "d = (Crashed e, s, rt1)" by (simp add: advance_def)
    have "verdicts d = (verdicts c)\<lparr>ct_pos := Crashed e, ct_exhausted := is_exhausted (rt_budget rt1)\<rparr>"
      by (simp add: c d' verdicts_def)
    moreover have "ct_exhausted (verdicts c) \<longrightarrow> is_exhausted (rt_budget rt1)"
      using lawful_limits(4) [OF l1] by (simp add: c verdicts_def)
    ultimately have "control_step (config_of c) (verdicts c) (verdicts d)"
      using control_step.raised [of "verdicts c" n] by (simp add: c verdicts_def)
    then show ?thesis using l1 by (simp add: c d' config_of_def lawful_def)
  next
    case (Inr u)
    obtain p rt2 where t: "route env n (merge_update u s) rt1 = (p, rt2)" by fastforce
    with r d Inr have d': "d = (p, merge_update u s, rt2)" by (simp add: advance_def Let_def)
    have l2: "lawful rt1 rt2" using route_lawful [OF t] .
    have cfg: "rt_config rt1 = rt_config rt" "rt_config rt2 = rt_config rt"
      using l1 l2 by (simp_all add: lawful_def)
    have "control_step (config_of c) (verdicts c) (verdicts d)"
    proof (rule control_step.normal [of _ n])
      show "ct_pos (verdicts c) = At n" by (simp add: c verdicts_def)
      show "node_effect n (verdicts c) (verdicts d)"
        using node_refines_effect [OF r [unfolded Inr] l2] by (simp add: c d')
      show "successor (config_of c) n (verdicts d) (ct_pos (verdicts d))"
        using route_successor [OF t] cfg by (simp add: c d' config_of_def) (simp add: verdicts_def)
    qed
    then show ?thesis using lawful_trans [OF l1 l2] cfg by (simp add: c d' config_of_def)
  qed
  then show "control_step (config_of c) (verdicts c) (verdicts d)" "config_of d = config_of c"
    "lawful (snd (snd c)) (snd (snd d))"
    by (simp_all add: c)
qed

text \<open>
  C5. The graph refines its abstract control graph. Every run of the workflow is a run of the
  specification on the verdicts: a node changes only what it owns, its successor is one that the
  control graph allows for the verdicts after the node, and the only other outcome is an exception of
  the node, which ends the run. The configuration never changes.
\<close>

theorem workflow_refines_control_graph:
  assumes "(flow_step env)\<^sup>*\<^sup>* c d"
  shows "(control_step (config_of c))\<^sup>*\<^sup>* (verdicts c) (verdicts d) \<and> config_of d = config_of c"
  using assms
proof (induction rule: rtranclp_induct)
  case (step d e)
  with step_refines [OF step.hyps(2)] show ?case by (auto intro: rtranclp.rtrancl_into_rtrancl)
qed simp

subsection \<open>Invariant and rank of the control graph\<close>

definition control_start :: "control \<Rightarrow> bool" where
  "control_start c \<longleftrightarrow> ct_pos c = At TaskIntake \<and> ct_attempts c = 0 \<and> ct_status c = Pending \<and>
     \<not> ct_green c \<and> \<not> ct_rejected c \<and> \<not> ct_scored c \<and> \<not> ct_high c"

definition gated :: "workflow_config \<Rightarrow> control \<Rightarrow> bool" where
  "gated cfg c \<longleftrightarrow> (wc_gate cfg \<and> ct_green c \<longrightarrow> ct_scored c \<and> \<not> ct_high c)"

definition earned :: "workflow_config \<Rightarrow> control \<Rightarrow> bool" where
  "earned cfg c \<longleftrightarrow>
     (case ct_status c of
        Pending \<Rightarrow> False
      | Completed \<Rightarrow> ct_green c \<and> gated cfg c
      | CompletedWithFindings \<Rightarrow> ct_green c \<and> gated cfg c
      | FailedRun \<Rightarrow> \<not> ct_green c
      | AwaitingApproval \<Rightarrow> wc_gate cfg \<and> ct_green c \<and> ct_high c
      | BudgetExhausted \<Rightarrow> ct_exhausted c \<and> \<not> ct_green c
      | EscalatedReview \<Rightarrow> ct_rejected c \<and> (wc_recovery cfg \<longrightarrow> ct_attempts c = wc_max_recovery cfg)
      | EscalatedRecovery \<Rightarrow> \<not> ct_green c \<and> wc_recovery cfg \<and> ct_attempts c = wc_max_recovery cfg)"

definition position_ok :: "workflow_config \<Rightarrow> control \<Rightarrow> bool" where
  "position_ok cfg c \<longleftrightarrow>
     (case ct_pos c of
        Crashed e \<Rightarrow> True
      | Ended \<Rightarrow> earned cfg c
      | At n \<Rightarrow>
          (case n of
             FailureAnalysis \<Rightarrow> wc_recovery cfg \<and> \<not> ct_green c \<and> ct_status c = Pending
           | Recovery \<Rightarrow> wc_recovery cfg \<and> ct_attempts c < wc_max_recovery cfg \<and> ct_status c = Pending
           | IndependentReview \<Rightarrow> wc_review cfg \<and> ct_green c \<and> ct_status c = Pending
           | SecurityAnalysis \<Rightarrow> wc_gate cfg \<and> ct_green c \<and> ct_status c = Pending
           | RiskGate \<Rightarrow> wc_gate cfg \<and> ct_green c \<and> ct_status c = Pending
           | Finalization \<Rightarrow> gated cfg c
           | HumanApproval \<Rightarrow> wc_gate cfg \<and> ct_green c \<and> ct_high c
           | Escalation \<Rightarrow>
               if ct_rejected c then (wc_recovery cfg \<longrightarrow> ct_attempts c = wc_max_recovery cfg)
               else \<not> ct_green c \<and> wc_recovery cfg \<and> ct_attempts c = wc_max_recovery cfg
           | BudgetStop \<Rightarrow> ct_exhausted c \<and> \<not> ct_green c
           | Verification \<Rightarrow> ct_status c = Pending
           | _ \<Rightarrow> ct_status c = Pending \<and> \<not> ct_green c))"

definition control_inv :: "workflow_config \<Rightarrow> control \<Rightarrow> bool" where
  "control_inv cfg c \<longleftrightarrow> ct_attempts c \<le> wc_max_recovery cfg \<and> position_ok cfg c"

fun node_rank :: "node_name \<Rightarrow> nat \<Rightarrow> nat" where
  "node_rank TaskIntake a = 13 + 3 * a"
| "node_rank RepositoryAnalysis a = 12 + 3 * a"
| "node_rank ExternalContext a = 11 + 3 * a"
| "node_rank ComplexityAnalysis a = 10 + 3 * a"
| "node_rank Planning a = 9 + 3 * a"
| "node_rank AgentSelection a = 8 + 3 * a"
| "node_rank Implementation a = 7 + 3 * a"
| "node_rank Verification a = 6 + 3 * a"
| "node_rank FailureAnalysis a = 5 + 3 * a"
| "node_rank IndependentReview a = 5 + 3 * a"
| "node_rank Recovery a = 4 + 3 * a"
| "node_rank SecurityAnalysis a = 3"
| "node_rank RiskGate a = 2"
| "node_rank Finalization a = 1"
| "node_rank HumanApproval a = 1"
| "node_rank Escalation a = 1"
| "node_rank BudgetStop a = 1"

definition control_rank :: "workflow_config \<Rightarrow> control \<Rightarrow> nat" where
  "control_rank cfg c =
     (case ct_pos c of At n \<Rightarrow> node_rank n (wc_max_recovery cfg - ct_attempts c) | _ \<Rightarrow> 0)"

lemma node_rank_pos [simp]: "0 < node_rank n a" "node_rank n a \<noteq> 0"
  by (cases n; simp)+

lemma normal_step_inv:
  assumes pos: "ct_pos c = At n" and eff: "node_effect n c d" and suc: "successor cfg n d (ct_pos d)"
    and inv: "control_inv cfg c"
  shows "control_inv cfg d"
proof -
  note defs = control_inv_def position_ok_def node_effect_def gated_def earned_def after_green_def
  show ?thesis
    using assms by (cases n) (auto simp: defs split: if_splits)
qed

lemma normal_step_rank:
  assumes pos: "ct_pos c = At n" and eff: "node_effect n c d" and suc: "successor cfg n d (ct_pos d)"
    and inv: "control_inv cfg c"
  shows "control_rank cfg d < control_rank cfg c"
  using assms
  by (cases n) (auto simp: control_rank_def control_inv_def position_ok_def node_effect_def after_green_def
      split: if_splits)

lemma raised_inv: "control_inv cfg c \<Longrightarrow> control_inv cfg (c\<lparr>ct_pos := Crashed e, ct_exhausted := x\<rparr>)"
  by (simp add: control_inv_def position_ok_def)

lemma raised_rank:
  "ct_pos c = At n \<Longrightarrow> control_rank cfg (c\<lparr>ct_pos := Crashed e, ct_exhausted := x\<rparr>) < control_rank cfg c"
  by (simp add: control_rank_def)

interpretation control_graph: guarded_machine control_start "control_step cfg" "control_inv cfg" "control_rank cfg"
  for cfg
proof unfold_locales
  show "control_start c \<Longrightarrow> control_inv cfg c" for c
    by (simp add: control_start_def control_inv_def position_ok_def)
  show "control_step cfg c d \<Longrightarrow> control_inv cfg c \<Longrightarrow> control_inv cfg d" for c d
    by (auto elim!: control_step.cases intro: normal_step_inv raised_inv)
  show "control_step cfg c d \<Longrightarrow> control_inv cfg c \<Longrightarrow> control_rank cfg d < control_rank cfg c" for c d
    by (auto elim!: control_step.cases intro: normal_step_rank raised_rank)
qed

subsection \<open>The workflow as a guarded machine\<close>

definition fresh :: "'w flow \<Rightarrow> bool" where
  "fresh c \<longleftrightarrow> (\<exists>task repository rt. c = start_flow task repository rt)"

definition flow_inv :: "'w flow \<Rightarrow> bool" where
  "flow_inv c = control_inv (config_of c) (verdicts c)"

definition flow_rank :: "'w flow \<Rightarrow> nat" where
  "flow_rank c = control_rank (config_of c) (verdicts c)"

lemma fresh_start: "fresh c \<Longrightarrow> control_start (verdicts c)"
  by (auto simp: fresh_def start_flow_def control_start_def verdicts_def initial_state_def is_green_def
      is_rejected_def needs_approval_def)

interpretation workflow: guarded_machine fresh "flow_step env" flow_inv flow_rank for env
proof unfold_locales
  show "fresh c \<Longrightarrow> flow_inv c" for c :: "'a flow"
    by (simp add: flow_inv_def fresh_start control_graph.init_inv)
  show "flow_step env c d \<Longrightarrow> flow_inv c \<Longrightarrow> flow_inv d" for c d
    using step_refines(1,2) control_graph.step_inv unfolding flow_inv_def by metis
  show "flow_step env c d \<Longrightarrow> flow_inv c \<Longrightarrow> flow_rank d < flow_rank c" for c d
    using step_refines(1,2) control_graph.step_rank unfolding flow_inv_def flow_rank_def by metis
qed

definition stopped :: "'w flow \<Rightarrow> bool" where
  "stopped c \<longleftrightarrow> (\<forall>n. fst c \<noteq> At n)"

lemma run_flow_total: "flow_inv c \<Longrightarrow> flow_rank c \<le> k \<Longrightarrow>
    \<exists>d. run_flow env k c = Some d \<and> (flow_step env)\<^sup>*\<^sup>* c d \<and> stopped d"
proof (induction env k c rule: run_flow.induct)
  case (3 env n s rt)
  then show ?case
    by (simp add: flow_rank_def control_rank_def verdicts_def)
next
  case (4 env k n s rt)
  have st: "flow_step env (At n, s, rt) (advance env n s rt)" by (rule flow_step.step)
  have "flow_inv (advance env n s rt)" "flow_rank (advance env n s rt) \<le> k"
    using workflow.step_inv [OF st 4(2)] workflow.step_rank [OF st 4(2)] 4(3) by simp_all
  from 4(1) [OF this] st show ?case by (auto intro: converse_rtranclp_into_rtranclp)
qed (auto simp: stopped_def)

lemma run_flow_path: "run_flow env k c = Some d \<Longrightarrow> (flow_step env)\<^sup>*\<^sup>* c d"
proof (induction env k c rule: run_flow.induct)
  case (4 env k n s rt)
  have "flow_step env (At n, s, rt) (advance env n s rt)" by (rule flow_step.step)
  with 4 show ?case by (auto intro: converse_rtranclp_into_rtranclp)
qed simp_all

lemma fresh_rank: "fresh c \<Longrightarrow> flow_rank c = 13 + 3 * wc_max_recovery (config_of c)"
  by (auto simp: fresh_def start_flow_def flow_rank_def control_rank_def verdicts_def initial_state_def)

lemma runs_of_fresh:
  assumes "fresh c" "(flow_step env)\<^sup>*\<^sup>* c d"
  shows "flow_inv d" "config_of d = config_of c" "lawful (snd (snd c)) (snd (snd d))"
proof -
  show "flow_inv d" using workflow.path_inv [OF assms(2)] workflow.init_inv [OF assms(1)] by blast
  from assms(2) show "config_of d = config_of c"
    by (induction rule: rtranclp_induct) (simp_all add: step_refines(2))
  from assms(2) show "lawful (snd (snd c)) (snd (snd d))"
    by (induction rule: rtranclp_induct) (use step_refines(3) lawful_trans in \<open>simp, blast\<close>)
qed

lemma ended_earned:
  assumes "(flow_step env)\<^sup>*\<^sup>* (start_flow task repository rt) (Ended, s, rt')"
  shows "earned (rt_config rt) (verdicts (Ended, s, rt'))"
proof -
  have fr: "fresh (start_flow task repository rt)" by (auto simp: fresh_def)
  have "config_of (start_flow task repository rt) = rt_config rt" by (simp add: start_flow_def config_of_def)
  with runs_of_fresh(1,2) [OF fr assms] show ?thesis
    by (simp add: flow_inv_def control_inv_def position_ok_def) (simp add: verdicts_def)
qed

definition numbered :: "flow_state \<Rightarrow> bool" where
  "numbered s \<longleftrightarrow> map ra_number (sw_recovery_attempts s) = [1..<Suc (length (sw_recovery_attempts s))]"

lemma numbered_step:
  assumes "flow_step env c d" "numbered (fst (snd c))"
  shows "numbered (fst (snd d))"
proof -
  obtain n s rt where c: "c = (At n, s, rt)" and d: "d = advance env n s rt"
    using assms(1) by (cases rule: flow_step.cases) auto
  obtain out rt1 where r: "run_node env n s rt = (out, rt1)" by fastforce
  show ?thesis
  proof (cases out)
    case (Inl e)
    with assms(2) c d r show ?thesis by (simp add: advance_def)
  next
    case (Inr u)
    have "numbered (merge_update u s)"
      using run_node_owned [OF r [unfolded Inr]] assms(2) c
      by (cases "n = Recovery") (auto simp: owned_update_def numbered_def)
    with r Inr d show ?thesis by (auto simp: advance_def Let_def split: prod.split)
  qed
qed

lemma run_numbered:
  assumes "(flow_step env)\<^sup>*\<^sup>* (start_flow task repository rt) c"
  shows "numbered (fst (snd c))"
  using assms
proof (induction rule: rtranclp_induct)
  case base
  then show ?case by (simp add: start_flow_def numbered_def initial_state_def)
next
  case (step c d)
  then show ?case using numbered_step by blast
qed

subsection \<open>Properties\<close>

text \<open>
  C3. Every run ends. Whatever the models, the tools and the backend answer, a run from the start
  reaches its end (or an exception of a node) after at most 13 + 3 * max_recovery_attempts nodes; a
  recursion limit of at least that many steps is never hit, and no run goes on for ever. For the
  default of three attempts that is 22 nodes, below the limit of 60 that the runner sets.
\<close>

theorem every_run_ends:
  assumes "13 + 3 * wc_max_recovery (rt_config rt) \<le> limit"
  shows "\<exists>d. run_flow env limit (start_flow task repository rt) = Some d \<and> stopped d \<and>
      (flow_step env)\<^sup>*\<^sup>* (start_flow task repository rt) d \<and>
    (\<forall>n e. (flow_step env ^^ n) (start_flow task repository rt) e \<longrightarrow>
       n \<le> 13 + 3 * wc_max_recovery (rt_config rt)) \<and>
    \<not> (\<exists>f. f 0 = start_flow task repository rt \<and> (\<forall>i. flow_step env (f i) (f (Suc i))))"
proof -
  let ?c = "start_flow task repository rt"
  have fr: "fresh ?c" by (auto simp: fresh_def)
  have inv: "flow_inv ?c" using workflow.init_inv [OF fr] .
  have rank: "flow_rank ?c = 13 + 3 * wc_max_recovery (rt_config rt)"
    using fresh_rank [OF fr] by (simp add: start_flow_def config_of_def)
  have "\<exists>d. run_flow env limit ?c = Some d \<and> stopped d \<and> (flow_step env)\<^sup>*\<^sup>* ?c d"
    using run_flow_total [OF inv, of limit env] assms rank by auto
  moreover have "(flow_step env ^^ n) ?c e \<Longrightarrow> n \<le> 13 + 3 * wc_max_recovery (rt_config rt)" for n e
    using workflow.path_bound [OF fr] rank by metis
  moreover have "\<not> (\<exists>f. f 0 = ?c \<and> (\<forall>i. flow_step env (f i) (f (Suc i))))"
    using workflow.no_infinite_run inv by metis
  ultimately show ?thesis by blast
qed

theorem every_run_ends_witness:
  "\<exists>d. run_flow mute_env 60 (start_flow ''fix the parser'' ''repo'' (demo_runtime default_config)) = Some d \<and>
     stopped d"
proof -
  have "13 + 3 * wc_max_recovery (rt_config (demo_runtime default_config)) \<le> 60"
    by (simp add: demo_runtime_def default_config_def default_max_recovery_def)
  from every_run_ends [OF this] show ?thesis by blast
qed

text \<open>
  C2. A final status is earned. A run that ends has a status other than pending, and the status
  tells the truth about the run: completed means that the last verification was green and, with the
  security gate on, that a risk score below HIGH was given; failed means that it was not green;
  awaiting approval means green and HIGH; budget exhausted means an exhausted budget and no green
  verification; escalation means that the attempts were used up, or that recovery is off and the
  reviewer rejected the change.
\<close>

theorem final_status_is_earned:
  assumes "(flow_step env)\<^sup>*\<^sup>* (start_flow task repository rt) (Ended, s, rt')"
  shows "(case sw_final_status s of
       Pending \<Rightarrow> False
     | Completed \<Rightarrow> is_green s \<and> (wc_gate (rt_config rt) \<longrightarrow> sw_risk_score s \<noteq> None \<and> \<not> needs_approval s)
     | CompletedWithFindings \<Rightarrow>
         is_green s \<and> (wc_gate (rt_config rt) \<longrightarrow> sw_risk_score s \<noteq> None \<and> \<not> needs_approval s)
     | FailedRun \<Rightarrow> \<not> is_green s
     | AwaitingApproval \<Rightarrow> wc_gate (rt_config rt) \<and> is_green s \<and> needs_approval s
     | BudgetExhausted \<Rightarrow> is_exhausted (rt_budget rt') \<and> \<not> is_green s
     | EscalatedReview \<Rightarrow> is_rejected s \<and>
         (wc_recovery (rt_config rt) \<longrightarrow> length (sw_recovery_attempts s) = wc_max_recovery (rt_config rt))
     | EscalatedRecovery \<Rightarrow> \<not> is_green s \<and> wc_recovery (rt_config rt) \<and>
         length (sw_recovery_attempts s) = wc_max_recovery (rt_config rt))"
  using ended_earned [OF assms]
  by (cases "sw_final_status s") (simp_all add: earned_def gated_def verdicts_def)

text \<open>
  C4. Recovery is bounded and numbered. At every point of a run there are at most
  max_recovery_attempts attempts, numbered from one without a gap, whatever verification and review
  say; the loop is entered only with an attempt left and with recovery on. The gate nodes are
  reached with a green verification only.
\<close>

theorem recovery_is_bounded:
  assumes "(flow_step env)\<^sup>*\<^sup>* (start_flow task repository rt) (p, s, rt')"
  shows "length (sw_recovery_attempts s) \<le> wc_max_recovery (rt_config rt) \<and>
    map ra_number (sw_recovery_attempts s) = [1..<Suc (length (sw_recovery_attempts s))] \<and>
    (p = At Recovery \<longrightarrow> wc_recovery (rt_config rt) \<and> length (sw_recovery_attempts s) < wc_max_recovery (rt_config rt)) \<and>
    (p = At SecurityAnalysis \<or> p = At RiskGate \<or> p = At HumanApproval \<longrightarrow> is_green s)"
proof -
  have fr: "fresh (start_flow task repository rt)" by (auto simp: fresh_def)
  note run = runs_of_fresh [OF fr assms]
  have "config_of (start_flow task repository rt) = rt_config rt" by (simp add: start_flow_def config_of_def)
  with run(1,2) have "control_inv (rt_config rt) (verdicts (p, s, rt'))" by (simp add: flow_inv_def)
  moreover have "map ra_number (sw_recovery_attempts s) = [1..<Suc (length (sw_recovery_attempts s))]"
    using run_numbered [OF assms] by (simp add: numbered_def)
  ultimately show ?thesis
    by (cases p) (auto simp: control_inv_def position_ok_def verdicts_def)
qed

text \<open>
  C8. A run stays within its limits. At every point of a run, ended or not, the counted model and
  tool calls are within the limits of the budget, which are those it started with; every file the
  run has written has a path inside the repository; an exhausted budget stays exhausted.
\<close>

theorem run_stays_within_limits:
  assumes "(flow_step env)\<^sup>*\<^sup>* (start_flow task repository rt) (p, s, rt')"
    and "within_limits (rt_budget rt)" "safe_written (rt_written rt)"
  shows "within_limits (rt_budget rt') \<and> b_limits (rt_budget rt') = b_limits (rt_budget rt) \<and>
    safe_written (rt_written rt') \<and> (is_exhausted (rt_budget rt) \<longrightarrow> is_exhausted (rt_budget rt'))"
proof -
  have fr: "fresh (start_flow task repository rt)" by (auto simp: fresh_def)
  from runs_of_fresh(3) [OF fr assms(1)] have "lawful rt rt'" by (simp add: start_flow_def)
  with lawful_limits [OF this] assms(2,3) show ?thesis by (simp add: lawful_def)
qed

subsection \<open>Runs that cannot crash\<close>

text \<open>
  \<open>reliable env\<close>: the services a node calls outside any handler do not raise, as the code relies on:
  building a model, walking the repository, and running a command, which reports its failure as an
  exit code. Models and tools may still fail in every way.
\<close>

definition reliable :: "('m, 'w) flow_env \<Rightarrow> bool" where
  "reliable env \<longleftrightarrow>
     (\<forall>spec w. \<not> isl (fst (pm_build (en_planner env) spec w))) \<and>
     (\<forall>spec w. \<not> isl (fst (en_build env spec w))) \<and>
     (\<forall>n root w. \<not> isl (sv_analyze (en_services env) n root w)) \<and>
     (\<forall>c t w. \<not> isl (fst (sv_run (en_services env) c t w)))"

definition plan_ready :: "flow_state \<Rightarrow> bool" where
  "plan_ready s = (case sw_plan s of None \<Rightarrow> True | Some p \<Rightarrow> executable_plan p)"

lemma run_all_reliable:
  "(\<And>c t w. \<not> isl (fst (run c t w))) \<Longrightarrow> \<not> isl (fst (run_all run timeout cs w))"
proof (induction cs arbitrary: w)
  case (Cons c cs)
  obtain r u where r: "run c timeout w = (Inr r, u)" using Cons.prems by (metis isl_def prod.exhaust_sel sum.collapse(2))
  obtain rs v where "run_all run timeout cs u = (Inr rs, v)"
    using Cons by (metis isl_def prod.exhaust_sel sum.collapse(2))
  with r show ?case by simp
qed simp

lemma verify_reliable:
  assumes "\<And>c t w. \<not> isl (fst (run c t w))"
  shows "\<not> isl (fst (verify run now changed full (vf, w)))"
proof
  assume "isl (fst (verify run now changed full (vf, w)))"
  then obtain e u where "run_plan run now (vf_timeout vf) (build_plan vf changed full) w = (Inl e, u)"
    by (auto simp: verify_def isl_def split: prod.splits sum.splits)
  from run_plan_raise [OF this] run_all_reliable [of run, OF assms] show False by (metis fst_conv sum.disc(1))
qed

lemma plan_task_reliable:
  assumes "\<And>spec w. \<not> isl (fst (pm_build pm spec w))"
  shows "\<exists>plan ev why t. plan_task lib pm graph task repository ps = (Inr (plan, ev, why), t) \<and> executable_plan plan"
proof -
  define ev where "ev = gather_evidence graph task 12"
  obtain rs mem where m: "retrieve_experience lib task repository (ps_memory ps) = (rs, mem)" by fastforce
  define spec where "spec = rd_spec (select (ps_router ps) ''planning'' (estimate_complexity task ev) False)"
  obtain m w where b: "pm_build pm spec (ps_world ps) = (Inr m, w)"
    using assms by (metis isl_def prod.exhaust_sel sum.collapse(2))
  obtain raw w' where i: "pm_invoke pm m \<lparr>pp_task = task, pp_repository = repository, pp_evidence = ev,
      pp_experience = rs, pp_prior = estimate_complexity task ev\<rparr> w = (raw, w')" by fastforce
  define outcome where "outcome = (case raw of Inl e \<Rightarrow> Inl e | Inr p \<Rightarrow> parse_plan p)"
  obtain q where q: "parse_plan (fallback_plan task ev (estimate_complexity task ev)) = Inr q"
    using fallback_plan_valid by blast
  have out: "outcome = Inr p \<Longrightarrow> executable_plan (sanitise graph p ev)" for p
    using parse_plan_executable sanitise_executable by (auto simp: outcome_def split: sum.splits)
  show ?thesis
  proof (cases outcome)
    case (Inl e)
    then show ?thesis
      using m b i q parse_plan_executable [OF q]
      by (simp add: plan_task_def Let_def flip: ev_def spec_def outcome_def)
  next
    case (Inr p)
    then show ?thesis
      using m b i out by (simp add: plan_task_def Let_def flip: ev_def spec_def outcome_def)
  qed
qed

lemma reliable_build: "reliable env \<Longrightarrow> \<not> isl (fst (ae_build (agents_of env) spec cx))"
  by (auto simp: reliable_def agents_of_def in_world_def split: prod.split) (metis fst_conv)

lemma ask_reliable:
  "reliable env \<Longrightarrow> \<not> isl (fst (ask (agents_of env) menv v node spec prompt h s))"
  using ask_effect(3) [of "agents_of env" menv v node spec prompt h s, OF surjective_pairing]
    reliable_build by metis

lemma verify_now_reliable:
  assumes "reliable env"
  shows "\<not> isl (fst (verify_now env vf changed rt))"
proof -
  have run: "\<not> isl (fst (sv_run (en_services env) c t w))" for c t w
    using assms by (simp add: reliable_def)
  have "\<not> isl (fst (verify_directly env vf1 changed rt1))" for vf1 rt1
    using verify_reliable [of "sv_run (en_services env)" _ changed "wc_full_suite (rt_config rt1)" vf1, OF run]
    by (auto simp: verify_directly_def run_verifier_def split: prod.split) (metis fst_conv)
  then show ?thesis by (auto simp: verify_now_def Let_def split: prod.split option.split)
qed

lemma node_reliable:
  assumes ok: "reliable env" and plan: "plan_ready s"
  shows "\<not> isl (fst (node_body env n s rt))"
proof (cases n)
  case RepositoryAnalysis
  obtain m where "sv_analyze (en_services env) 4000 (or_else (rt_repo_root rt) (sw_repo_root s))
      (tx_world (rt_context rt)) = Inr m"
    using ok unfolding reliable_def by (metis sum.collapse(2))
  then have "\<not> isl (fst (inventory_only env s rt))" by (simp add: inventory_only_def)
  moreover have "\<not> isl (fst (full_analysis env s rt))"
    by (simp add: full_analysis_def Let_def split: prod.split)
  ultimately show ?thesis using RepositoryAnalysis by (simp add: repository_analysis_def)
next
  case Planning
  define ps where "ps = \<lparr>ps_router = rt_router rt, ps_memory = used_memory rt, ps_world = tx_world (rt_context rt)\<rparr>"
  obtain plan ev why t where "plan_task (sv_memory (en_services env)) (en_planner env) (planner_graph rt)
      (sw_task s) (sw_repository s) ps = (Inr (plan, ev, why), t)"
    using plan_task_reliable [of "en_planner env"] ok by (metis reliable_def)
  with Planning show ?thesis by (simp add: planning_def Let_def flip: ps_def)
next
  case Implementation
  have "\<exists>ls. execution_layers p = Inr ls" if "sw_plan s = Some p" for p
    using plan executable_layers [of p] that by (auto simp: plan_ready_def)
  with Implementation show ?thesis
    by (auto simp: implementation_def Let_def split: option.split prod.split sum.split)
next
  case Verification
  then show ?thesis
    using verify_now_reliable [OF ok] by (auto simp: verification_def split: option.split prod.split sum.split)
      (metis fst_conv sum.disc(1))
next
  case Recovery
  have "\<not> isl (fst (diagnose_and_repair (agents_of env) task c v x k previous wanted a))"
    for task c v x k previous wanted a
    by (simp add: diagnose_and_repair_def Let_def ask_reliable [OF ok] split: prod.split)
  with Recovery show ?thesis
    by (auto simp: recovery_def Let_def split: option.split prod.split sum.split)
      (metis fst_conv sum.disc(1))
next
  case IndependentReview
  have "\<not> isl (fst (review (agents_of env) graph task p diff v changed a))"
    for graph task p diff v changed a
    by (simp add: review_def Let_def ask_reliable [OF ok])
  with IndependentReview show ?thesis
    by (auto simp: independent_review_def Let_def split: option.split prod.split sum.split)
      (metis fst_conv sum.disc(1))
qed (auto simp: task_intake_def external_context_def complexity_analysis_def agent_selection_def
  failure_analysis_def security_analysis_def risk_gate_def finalization_def human_approval_def
  escalation_def budget_stop_def Let_def split: prod.split option.split list.split if_splits)

lemma planning_plan:
  assumes "planning env s rt = (Inr u, rt')" "reliable env"
  shows "\<exists>p. su_plan u = Some (Some p) \<and> executable_plan p"
proof -
  define ps where "ps = \<lparr>ps_router = rt_router rt, ps_memory = used_memory rt, ps_world = tx_world (rt_context rt)\<rparr>"
  obtain plan ev why t where "plan_task (sv_memory (en_services env)) (en_planner env) (planner_graph rt)
      (sw_task s) (sw_repository s) ps = (Inr (plan, ev, why), t)" "executable_plan plan"
    using plan_task_reliable [of "en_planner env"] assms(2) by (metis reliable_def)
  with assms(1) show ?thesis by (auto simp: planning_def Let_def simp flip: ps_def)
qed

lemma reliable_step:
  assumes ok: "reliable env" and st: "flow_step env c d" and plan: "plan_ready (fst (snd c))"
  shows "(\<forall>e. fst d \<noteq> Crashed e) \<and> plan_ready (fst (snd d))"
proof -
  obtain n s rt where c: "c = (At n, s, rt)" and d: "d = advance env n s rt"
    using st by (cases rule: flow_step.cases) auto
  obtain out rt0 where b: "node_body env n s rt = (out, rt0)" by fastforce
  with node_reliable [OF ok, of s n rt] plan c obtain u where u: "out = Inr u" by (cases out) auto
  define rt1 where "rt1 = trace_node env n (now_of env rt) u rt0"
  have r: "run_node env n s rt = (Inr u, rt1)" using b u by (simp add: run_node_def rt1_def)
  obtain p rt2 where t: "route env n (merge_update u s) rt1 = (p, rt2)" by fastforce
  have "p \<noteq> Crashed e" for e
    using t by (cases n) (auto split: prod.splits)
  moreover have "plan_ready (merge_update u s)"
  proof (cases "n = Planning")
    case True
    with planning_plan [of env s rt u rt0] b u ok show ?thesis by (auto simp: plan_ready_def)
  next
    case False
    with run_node_owned [OF r] have "su_plan u = None" by (simp add: owned_update_def)
    with plan c show ?thesis by (simp add: plan_ready_def)
  qed
  ultimately show ?thesis using r t by (simp add: d advance_def Let_def)
qed

lemma reliable_run:
  assumes "reliable env" "13 + 3 * wc_max_recovery (rt_config rt) \<le> limit"
  shows "\<exists>s rt'. run_flow env limit (start_flow task repository rt) = Some (Ended, s, rt') \<and>
    (flow_step env)\<^sup>*\<^sup>* (start_flow task repository rt) (Ended, s, rt')"
proof -
  let ?c = "start_flow task repository rt"
  have fr: "fresh ?c" by (auto simp: fresh_def)
  have inv: "flow_inv ?c" using workflow.init_inv [OF fr] .
  have "flow_rank ?c \<le> limit"
    using fresh_rank [OF fr] assms(2) by (simp add: start_flow_def config_of_def)
  from run_flow_total [OF inv this] obtain d where
    d: "run_flow env limit ?c = Some d" "(flow_step env)\<^sup>*\<^sup>* ?c d" "stopped d" by blast
  from d(2) have "(\<forall>e. fst d \<noteq> Crashed e) \<and> plan_ready (fst (snd d))"
  proof (induction rule: rtranclp_induct)
    case base
    then show ?case by (simp add: start_flow_def plan_ready_def initial_state_def)
  next
    case (step y z)
    then show ?case using reliable_step [OF assms(1)] by blast
  qed
  with d(3) obtain s rt' where "d = (Ended, s, rt')"
    by (cases d; cases "fst d") (auto simp: stopped_def)
  with d show ?thesis by blast
qed

text \<open>
  C6. A run reports. When building a model, walking the repository and running a command do not
  raise, a run reaches the end of the graph within the limit and has a final status: no failure of a
  model, of a tool, of a file access or of the budget crashes it or leaves it pending.
\<close>

theorem every_run_reports:
  assumes "reliable env" "13 + 3 * wc_max_recovery (rt_config rt) \<le> limit"
  shows "\<exists>s rt'. run_flow env limit (start_flow task repository rt) = Some (Ended, s, rt') \<and>
    sw_final_status s \<noteq> Pending"
proof -
  from reliable_run [OF assms] obtain s rt' where
    d: "run_flow env limit (start_flow task repository rt) = Some (Ended, s, rt')"
    "(flow_step env)\<^sup>*\<^sup>* (start_flow task repository rt) (Ended, s, rt')" by blast
  from ended_earned [OF d(2)] have "sw_final_status s \<noteq> Pending" by (auto simp: earned_def verdicts_def)
  with d(1) show ?thesis by blast
qed

definition calm_env :: "(unit, unit) flow_env" where
  "calm_env = mute_env\<lparr>en_services := demo_services
     \<lparr>sv_analyze := (\<lambda>n root w. Inr tiny_map), sv_run := (\<lambda>c t w.
       (Inr \<lparr>er_command = c, er_exit_code = 2, er_stdout = [], er_stderr = [], er_duration = 1,
             er_timed_out = False\<rparr>, w))\<rparr>\<rparr>"

lemma calm_reliable: "reliable calm_env"
  by (simp add: reliable_def calm_env_def mute_env_def mute_planner_def)

lemma demo_limit: "13 + 3 * wc_max_recovery (rt_config (demo_runtime default_config)) \<le> 60"
  by (simp add: demo_runtime_def default_config_def default_max_recovery_def)

abbreviation demo_flow :: "unit flow" where
  "demo_flow \<equiv> start_flow ''fix the parser'' ''repo'' (demo_runtime default_config)"

lemma calm_run:
  obtains s rt' where "run_flow calm_env 60 demo_flow = Some (Ended, s, rt')"
    "(flow_step calm_env)\<^sup>*\<^sup>* demo_flow (Ended, s, rt')"
  using reliable_run [OF calm_reliable demo_limit] by blast

theorem every_run_reports_witness:
  "\<exists>s rt'. run_flow calm_env 60 demo_flow =
     Some (Ended, s, rt') \<and> sw_final_status s \<noteq> Pending"
  by (rule every_run_reports [OF calm_reliable demo_limit])

theorem workflow_refines_control_graph_witness:
  "\<exists>d. run_flow mute_env 60 demo_flow = Some d \<and>
     config_of d = default_config"
proof -
  let ?c = "demo_flow"
  have fr: "fresh ?c" by (auto simp: fresh_def)
  have "flow_rank ?c \<le> 60" using fresh_rank [OF fr] demo_limit by (simp add: start_flow_def config_of_def)
  from run_flow_total [OF workflow.init_inv [OF fr] this, of mute_env] obtain d where
    d: "run_flow mute_env 60 ?c = Some d" "(flow_step mute_env)\<^sup>*\<^sup>* ?c d" by blast
  from workflow_refines_control_graph [OF d(2)] d(1) show ?thesis
    by (auto simp: start_flow_def config_of_def demo_runtime_def)
qed

text \<open>A run to the end: the baseline on an environment whose models fail and whose tests pass.\<close>

definition green_env :: "(unit, unit) flow_env" where
  "green_env = mute_env\<lparr>en_services := demo_services
     \<lparr>sv_analyze := (\<lambda>n root w. Inr tiny_map), sv_run := (\<lambda>c t w.
       (Inr \<lparr>er_command = c, er_exit_code = 0, er_stdout = [], er_stderr = [], er_duration = 1,
             er_timed_out = False\<rparr>, w))\<rparr>\<rparr>"

definition bare_runtime :: "unit runtime" where
  "bare_runtime = (demo_runtime baseline_config)
     \<lparr>rt_context := demo_context\<lparr>tx_classifier := Some None, tx_verifier := Some bare_verifier\<rparr>\<rparr>"

abbreviation bare_flow :: "unit flow" where
  "bare_flow \<equiv> start_flow ''fix the parser'' ''repo'' bare_runtime"

lemma bare_run:
  "map_option (\<lambda>(p, s, rt). (p, sw_final_status s)) (run_flow green_env 60 bare_flow) = Some (Ended, Completed)"
  by code_simp

theorem final_status_is_earned_witness:
  "\<exists>s rt'. run_flow green_env 60 bare_flow = Some (Ended, s, rt') \<and>
     sw_final_status s = Completed \<and> is_green s"
proof -
  from bare_run obtain s rt' where r: "run_flow green_env 60 bare_flow = Some (Ended, s, rt')"
    "sw_final_status s = Completed" by (auto simp del: run_flow.simps)
  from final_status_is_earned [OF run_flow_path [OF r(1)]] r show ?thesis by simp
qed

theorem recovery_is_bounded_witness:
  "\<exists>p s rt'. run_flow calm_env 60 demo_flow =
     Some (p, s, rt') \<and> length (sw_recovery_attempts s) \<le> 3"
proof -
  obtain s rt' where d: "run_flow calm_env 60 demo_flow = Some (Ended, s, rt')"
    "(flow_step calm_env)\<^sup>*\<^sup>* demo_flow (Ended, s, rt')" by (rule calm_run)
  from recovery_is_bounded [OF d(2)] d(1) show ?thesis
    by (auto simp: demo_runtime_def default_config_def default_max_recovery_def)
qed

theorem run_stays_within_limits_witness:
  "\<exists>p s rt'. run_flow calm_env 60 demo_flow =
     Some (p, s, rt') \<and> within_limits (rt_budget rt') \<and> b_limits (rt_budget rt') = default_limits"
proof -
  obtain s rt' where d: "run_flow calm_env 60 demo_flow = Some (Ended, s, rt')"
    "(flow_step calm_env)\<^sup>*\<^sup>* demo_flow (Ended, s, rt')" by (rule calm_run)
  have "safe_written (rt_written (demo_runtime default_config))"
    by (simp add: safe_written_def demo_runtime_def)
  from run_stays_within_limits [OF d(2) demo_within this] d(1) show ?thesis
    by (auto simp: demo_runtime_def new_budget_def)
qed

end
