(* ===== verification/Run_Books.thy ===== *)
theory Run_Books
  imports Workflow
begin

section \<open>What a run keeps of its books\<close>

text \<open>
  A relation on the tool context that every tool, every agent and every node of the workflow moves
  along: the ledger of tool calls only grows, and a context without a verifier never gets one. The
  first part is the contract of an operation that an agent calls, stated as a locale for any
  reflexive and transitive relation on the world of the tool-calling loop; the second interprets it
  on the models and tools of the workflow and follows the nodes.
\<close>

subsection \<open>Relations along the tool-calling loop\<close>

locale loop_relation =
  fixes env :: "('w, 'o) loop_env"
    and R :: "'w \<Rightarrow> 'w \<Rightarrow> bool"
  assumes rel_refl: "R w w"
    and rel_trans: "R u v \<Longrightarrow> R v w \<Longrightarrow> R u w"
    and rel_chat: "R w (snd (le_chat env m w))"
    and rel_extract: "R w (snd (le_extract env m w))"
    and rel_invoke: "R w (snd (le_invoke env name args w))"
    and rel_attribute: "R w (le_attribute env agent node w)"
begin

lemma rel_run_tool: "R (ls_world s) (ls_world (snd (run_tool cfg (le_invoke env name) name args s)))"
proof -
  obtain r m s' where
    t: "retry_from (attempt_tool cfg (le_invoke env name) name args) (retry_tool cfg) 1 s = Some (r, m, s')"
    "run_tool cfg (le_invoke env name) name args s = ((outcome_text r, succeeded r), s')"
    by (rule run_tool_returns)
  from t(1) have "R (ls_world s) (ls_world s')"
  proof (rule tool_retry.preserves)
    show "attempt_tool cfg (le_invoke env name) name args n t = (q, t') \<Longrightarrow> R (ls_world s) (ls_world t) \<Longrightarrow>
        R (ls_world s) (ls_world t')" for n t q t'
      using rel_invoke [of "ls_world t" name args] rel_trans
      by (auto simp: attempt_tool_def Let_def split: prod.splits)
  qed (rule rel_refl)
  with t(2) show ?thesis by simp
qed

lemma rel_budget: "with_budget check x s = (r, s') \<Longrightarrow> ls_world s' = ls_world s"
  by (auto simp: with_budget_def split: option.splits prod.splits)

lemma rel_answer_calls: "R (ls_world s) (ls_world (answer_calls cfg env cs s))"
proof (induction cs arbitrary: s)
  case (Cons c cs)
  define s0 where "s0 = s\<lparr>ls_world := le_attribute env (lc_agent cfg) (lc_node cfg) (ls_world s)\<rparr>"
  have s0: "R (ls_world s) (ls_world s0)" by (simp add: s0_def rel_attribute)
  have "R (ls_world s0) (ls_world (answer_calls cfg env (c # cs) s))"
  proof (cases "tq_name c \<in> set (le_tools env)")
    case False
    then show ?thesis using Cons [of "say m s0" for m] by (simp add: s0_def Let_def say_def)
  next
    case True
    obtain q s1 where ch: "with_budget (check_tool_call (le_now env (ls_world s0)) 1) () s0 = (q, s1)"
      by fastforce
    have w1: "ls_world s1 = ls_world s0" using rel_budget [OF ch] .
    show ?thesis
    proof (cases q)
      case (Inl e)
      with True ch w1 show ?thesis by (simp add: s0_def Let_def say_def rel_refl)
    next
      case (Inr u)
      define s2 where "s2 = consume_in (consume_tool_call 1) s1"
      obtain x good s3 where r: "run_tool cfg (le_invoke env (tq_name c)) (tq_name c) (tq_args c) s2
          = ((x, good), s3)" by (metis prod.exhaust)
      have "R (ls_world s0) (ls_world s3)"
        using rel_run_tool [of s2 cfg "tq_name c" "tq_args c"] r w1 by (simp add: s2_def consume_in_def)
      moreover have "answer_calls cfg env (c # cs) s = answer_calls cfg env cs (say (ToolMessage x (call_id c)) s3)"
        using True ch Inr r by (simp add: s0_def s2_def Let_def)
      ultimately show ?thesis
        using Cons [of "say (ToolMessage x (call_id c)) s3"] rel_trans by (simp add: say_def)
    qed
  qed
  with s0 show ?case by (rule rel_trans)
qed (simp add: rel_refl)

lemma rel_tracked:
  assumes "tracked env node spec call s = (out, s')" "R (ls_world s) (snd (call (ls_world s)))"
  shows "R (ls_world s) (ls_world s')"
  using assms by (auto simp: tracked_def Let_def split: prod.splits)

lemma rel_rounds: "tool_rounds cfg env spec k s = (out, s') \<Longrightarrow> R (ls_world s) (ls_world s')"
proof (induction k arbitrary: s)
  case (Suc k)
  obtain q s1 where ch: "with_budget (check_model_call (le_now env (ls_world s)) 1) () s = (q, s1)" by fastforce
  have w1: "ls_world s1 = ls_world s" using rel_budget [OF ch] .
  obtain z s2 where t: "tracked env (lc_node cfg) spec (le_chat env (ls_conversation s1)) s1 = (z, s2)" by fastforce
  have w2: "R (ls_world s) (ls_world s2)" using rel_tracked [OF t rel_chat] w1 by simp
  show ?case
  proof (cases "\<exists>u r. q = Inr u \<and> z = Inr r \<and> re_calls r \<noteq> []")
    case True
    then obtain r where r: "q = Inr ()" "z = Inr r" "re_calls r \<noteq> []" by auto
    define s3 where "s3 = say (AiMessage (re_text r) (re_calls r))
      (consume_in (consume_model_call 0 0 0) (s2\<lparr>ls_iterations := Suc (ls_iterations s2)\<rparr>))"
    have w3: "ls_world s3 = ls_world s2" by (simp add: s3_def say_def consume_in_def)
    from Suc.prems ch t r have "tool_rounds cfg env spec k (answer_calls cfg env (re_calls r) s3) = (out, s')"
      by (simp add: s3_def Let_def)
    from Suc.IH [OF this] rel_answer_calls [of s3 cfg "re_calls r"] w2 w3 show ?thesis
      by (metis rel_trans)
  next
    case False
    with Suc.prems ch t w1 w2 show ?thesis
      by (auto simp: Let_def say_def consume_in_def rel_refl split: sum.splits if_splits)
  qed
qed (simp add: rel_refl)

lemma rel_extraction:
  assumes "extraction cfg env spec s = (out, s')"
  shows "R (ls_world s) (ls_world s')"
proof -
  obtain q s1 where ch: "with_budget (check_model_call (le_now env (ls_world s)) 1) () s = (q, s1)" by fastforce
  have w1: "ls_world s1 = ls_world s" using rel_budget [OF ch] .
  obtain z s2 where t: "tracked env (lc_node cfg) spec (le_extract env (ls_conversation s1)) s1 = (z, s2)" by fastforce
  have "R (ls_world s) (ls_world s2)" using rel_tracked [OF t rel_extract] w1 by simp
  with assms ch t w1 show ?thesis
    by (auto simp: extraction_def and_then_def consume_in_def rel_refl split: sum.splits)
qed

lemma rel_loop:
  assumes "run_loop cfg env build spec messages s = (out, s')" "R (ls_world s) (snd (build (ls_world s)))"
  shows "R (ls_world s) (ls_world s')"
proof -
  obtain q w where b: "build (ls_world s) = (q, w)" by fastforce
  with assms(2) have w: "R (ls_world s) w" by simp
  show ?thesis
  proof (cases "\<exists>u bound. q = Inr u \<and> bind_tools env = Inr bound")
    case True
    then obtain bound where r: "q = Inr ()" "bind_tools env = Inr bound" by auto
    define s1 where "s1 = s\<lparr>ls_world := w, ls_conversation := messages, ls_tool_phase := bound\<rparr>"
    obtain z s2 where z: "(if bound then tool_rounds cfg env spec (lc_max_iterations cfg) s1 else (Inr (), s1)) = (z, s2)"
      by fastforce
    then have w2: "R w (ls_world s2)" using rel_rounds rel_refl by (auto simp: s1_def split: if_splits) fastforce
    from assms(1) b r have "and_then (\<lambda>s. if bound then tool_rounds cfg env spec (lc_max_iterations cfg) s
        else (Inr (), s)) (\<lambda>_. extraction cfg env spec) s1 = (out, s')"
      by (simp add: run_loop_def s1_def)
    with z have "s' = s2 \<or> extraction cfg env spec s2 = (out, s')"
      unfolding and_then_def by (cases z) auto
    then have "R w (ls_world s')"
    proof
      assume "extraction cfg env spec s2 = (out, s')"
      from rel_extraction [OF this] w2 show ?thesis using rel_trans by blast
    qed (use w2 in simp)
    with w show ?thesis by (rule rel_trans)
  next
    case False
    with assms(1) b w show ?thesis by (auto simp: run_loop_def Let_def split: sum.splits)
  qed
qed

end

subsection \<open>The tool context\<close>

definition grown :: "'w tool_context \<Rightarrow> 'w tool_context \<Rightarrow> bool" where
  "grown cx cx' \<longleftrightarrow>
     (tx_verifier cx = None \<longrightarrow> tx_verifier cx' = None) \<and> (\<exists>es. tx_ledger cx' = tx_ledger cx @ es)"

lemma grown_refl [simp]: "grown cx cx"
  by (simp add: grown_def)

lemma grown_trans: "grown a b \<Longrightarrow> grown b c \<Longrightarrow> grown a c"
  by (auto simp: grown_def)

lemma grown_same: "tx_verifier cx' = tx_verifier cx \<Longrightarrow> tx_ledger cx' = tx_ledger cx \<Longrightarrow> grown cx cx'"
  by (simp add: grown_def)

definition modest :: "('w, 'a) tool \<Rightarrow> bool" where
  "modest f \<longleftrightarrow> (\<forall>cx. grown cx (snd (f cx)))"

lemma modest_run: "modest f \<Longrightarrow> grown cx (snd (f cx))"
  by (simp add: modest_def)

lemma modestD: "modest f \<Longrightarrow> f cx = (out, cx') \<Longrightarrow> grown cx cx'"
  unfolding modest_def by (metis snd_conv)

lemma modest_and_then: "modest f \<Longrightarrow> (\<And>x. modest (g x)) \<Longrightarrow> modest (and_then f g)"
  unfolding modest_def
  by (auto simp: and_then_def split: prod.split sum.split) (metis snd_conv grown_trans)+

lemma modest_in_world [simp]: "modest (in_world f)"
  by (simp add: modest_def in_world_def grown_same split: prod.split)

lemma modest_pure [simp]: "modest (\<lambda>cx. (r, cx))"
  by (simp add: modest_def)

lemma modest_ensure_graph [simp]: "modest (ensure_graph sv)"
  by (simp add: modest_def ensure_graph_def grown_same split: option.split sum.split)

lemma modest_with_graph [simp]: "modest (with_graph sv f)"
  unfolding with_graph_def by (rule modest_and_then) simp_all

lemma modest_run_in_context [simp]: "modest (run_in_context sv c t)"
  by (simp add: modest_def run_in_context_def grown_same split: prod.split)

lemma modest_run_validation [simp]: "modest (run_validation sv changed full)"
  unfolding modest_def
proof
  fix cx
  show "grown cx (snd (run_validation sv changed full cx))"
    by (auto simp: run_validation_def run_verifier_def and_then_def grown_def
        split: option.split prod.split sum.split)
qed

lemma modest_inspect [simp]: "modest (inspect_git_diff sv base paths)"
proof -
  have "modest (and_then (run_in_context sv c1 60) (\<lambda>r. and_then (run_in_context sv c2 60)
      (\<lambda>n c. (Inr (f r n), c))))" for c1 c2 :: string and f :: "exec_result \<Rightarrow> exec_result \<Rightarrow> git_diff"
    by (intro modest_and_then) simp_all
  then show ?thesis unfolding modest_def inspect_git_diff_def by simp
qed

lemma modest_tools [simp]:
  "modest (analyze_repository sv n)" "modest (build_repository_graph sv)"
  "modest (find_relevant_files_tool sv task limit it)" "modest (find_dependencies_tool sv file)"
  "modest (find_callers_tool sv symbol)" "modest (find_related_tests_tool sv file)"
  "modest (analyze_failure output errors)" "modest (calculate_change_risk files deleted passed)"
  "modest (security_scan files)" "modest (retrieve_similar_tasks sv task limit)"
  by (simp_all add: build_repository_graph_def find_relevant_files_tool_def find_dependencies_tool_def
      find_callers_tool_def find_related_tests_tool_def)
    (simp_all add: modest_def analyze_repository_def analyze_failure_def calculate_change_risk_def
      security_scan_def retrieve_similar_tasks_def grown_same Let_def split: sum.split option.split prod.split)

lemma modest_tool_body: "modest (tool_body sv args)"
  by (cases args) (auto simp: tool_then_def intro!: modest_and_then)

lemma guard_grown:
  assumes "modest f" "guard sv name args f cx = (r, cx')"
  shows "grown cx cx'"
proof -
  obtain out c1 where f: "f cx = (out, c1)" by fastforce
  have "grown c1 cx'"
    using assms(2) f by (auto simp: guard_def trace_tool_def grown_def record_call_def Let_def
        split: option.splits prod.splits)
  with modestD [OF assms(1) f] show ?thesis by (rule grown_trans)
qed

lemma invoke_tool_grown: "grown cx (snd (invoke_tool sv decode printed name args cx))"
  by (auto simp: invoke_tool_def split: sum.split prod.split dest: guard_grown [OF modest_tool_body])

interpretation grown_model: loop_relation "model_env env cm" grown for env cm
proof unfold_locales
  show "grown w (snd (le_chat (model_env env cm) m w))" "grown w (snd (le_extract (model_env env cm) m w))"
    for m w
    using modest_in_world by (auto simp: model_env_def modest_def)
  show "grown w (snd (le_invoke (model_env env cm) name args w))" for name args w
    by (simp add: model_env_def invoke_tool_grown)
  show "grown w (le_attribute (model_env env cm) agent node w)" for agent node w
    by (simp add: model_env_def attribute_def grown_same)
qed (auto intro: grown_trans)

lemma modest_structured [simp]: "modest call \<Longrightarrow> modest (structured v call)"
  unfolding structured_def by (rule modest_and_then) simp_all

interpretation grown_agent: loop_relation "agent_loop_env (agents_of env) c spec" grown for env c spec
proof unfold_locales
  show "grown w (snd (le_extract (agent_loop_env (agents_of env) c spec) m w))" for m w
    by (simp add: modest_run agent_loop_env_def agents_of_def model_env_def Let_def)
  show "grown w (snd (le_chat (agent_loop_env (agents_of env) c spec) m w))"
    "grown w (snd (le_invoke (agent_loop_env (agents_of env) c spec) name args w))"
    "grown w (le_attribute (agent_loop_env (agents_of env) c spec) agent node w)" for m name args agent node w
    using grown_model.rel_chat grown_model.rel_invoke grown_model.rel_attribute
    by (simp_all add: agent_loop_env_def agents_of_def Let_def)
qed (auto intro: grown_trans)

subsection \<open>Agents\<close>

lemma read_paths_grown: "read_paths (ae_read (agents_of env)) ps w = (cs, w') \<Longrightarrow> grown w w'"
proof (induction ps arbitrary: w cs)
  case (Cons p ps)
  obtain out w1 where r: "ae_read (agents_of env) p w = (out, w1)" by fastforce
  have "grown w w1" using r modest_run [OF modest_in_world, of w "en_read env p"] by (simp add: agents_of_def)
  moreover from Cons.prems r obtain ds where "read_paths (ae_read (agents_of env)) ps w1 = (ds, w')"
    by (auto split: prod.splits)
  ultimately show ?case using Cons.IH grown_trans by blast
qed simp

lemma read_files_grown: "read_files (ae_read (agents_of env)) ps w = (cs, w') \<Longrightarrow> grown w w'"
  unfolding read_files_def by (rule read_paths_grown)

lemma build_grown: "grown w (snd (ae_build (agents_of env) spec w))"
  by (simp add: agents_of_def modest_run)

lemma run_agent_grown:
  assumes "run_agent (agents_of env) c graph st plan a = (r, a')"
  shows "grown (ag_world a) (ag_world a')"
proof -
  obtain contents w where rd: "read_files (ae_read (agents_of env)) (context_paths c st plan) (ag_world a) = (contents, w)"
    by fastforce
  obtain out l where l: "agent_loop (agents_of env) c graph st plan a = (out, l)" by fastforce
  then obtain spec prompt where
    "run_loop (new_loop (ac_node (contract_of c)) (role_text (ac_role (contract_of c))))
       (agent_loop_env (agents_of env) c spec) (ae_build (agents_of env) spec) spec prompt
       (loop_start (a\<lparr>ag_world := w\<rparr>)) = (out, l)"
    unfolding agent_loop_def rd Let_def prod.case by blast
  from grown_agent.rel_loop [OF this build_grown] have "grown w (ls_world l)" by (simp add: loop_start_def)
  with read_files_grown [OF rd] have "grown (ag_world a) (ls_world l)" by (rule grown_trans)
  with assms l show ?thesis by (auto simp: run_agent_def loop_end_def split: sum.splits)
qed

lemma ask_grown:
  assumes "ask (agents_of env) (model_env env cm) v node spec prompt h a = (out, a')"
  shows "grown (ag_world a) (ag_world a')"
proof -
  obtain q w where b: "ae_build (agents_of env) spec (ag_world a) = (q, w)" by fastforce
  have w: "grown (ag_world a) w" using build_grown [of "ag_world a" env spec] b by simp
  obtain z l where t: "tracked (model_env env cm) node spec (structured v (le_extract (model_env env cm) prompt))
      (loop_start (a\<lparr>ag_world := w\<rparr>)) = (z, l)" by fastforce
  have "grown w (ls_world l)"
    using grown_model.rel_tracked [OF t] by (simp add: loop_start_def model_env_def modest_run)
  with w have "grown (ag_world a) (ls_world l)" by (rule grown_trans)
  with assms b t w show ?thesis by (auto simp: ask_def loop_end_def split: sum.splits)
qed

lemma repair_grown:
  assumes "diagnose_and_repair (agents_of env) task c v complexity n previous wanted a = (out, a')"
  shows "grown (ag_world a) (ag_world a')"
proof -
  obtain contents w where rd: "read_files (ae_read (agents_of env)) (take 6 (uniq (cl_suspect_files c @ wanted)))
      (ag_world a) = (contents, w)" by fastforce
  obtain spec prompt where
    "ask (agents_of env) (model_env env (en_repair env spec)) validate_repair repair_node spec prompt (failed_repair c)
       (a\<lparr>ag_world := w\<rparr>) = (out, a')"
    using assms unfolding diagnose_and_repair_def rd Let_def prod.case by (auto simp: agents_of_def)
  from ask_grown [OF this] have "grown w (ag_world a')" by simp
  with read_files_grown [OF rd] show ?thesis by (rule grown_trans)
qed

lemma review_grown:
  "review (agents_of env) graph task plan diff v changed a = (out, a') \<Longrightarrow> grown (ag_world a) (ag_world a')"
  unfolding review_def Let_def by (rule ask_grown) (simp add: agents_of_def)

subsection \<open>Nodes and runs\<close>

definition along :: "'w runtime \<Rightarrow> 'w runtime \<Rightarrow> bool" where
  "along rt rt' \<longleftrightarrow> grown (rt_context rt) (rt_context rt')"

lemma along_refl [simp]: "along rt rt"
  by (simp add: along_def)

lemma along_trans: "along a b \<Longrightarrow> along b c \<Longrightarrow> along a c"
  unfolding along_def by (rule grown_trans)

lemma along_same: "rt_context rt' = rt_context rt \<Longrightarrow> along rt rt'"
  by (simp add: along_def)

lemma along_agent: "grown (rt_context rt) (ag_world a) \<Longrightarrow> along rt (agent_finish a rt)"
  by (simp add: along_def agent_finish_def)

lemma along_agent_then:
  "grown (rt_context rt) (ag_world a) \<Longrightarrow> along (agent_finish a rt) rt' \<Longrightarrow> along rt rt'"
  by (simp add: along_def agent_finish_def grown_trans)

lemma call_tool_along:
  assumes "modest f" "call_tool env name args f node rt = (r, rt')"
  shows "along rt rt'"
proof -
  define cx where "cx = (rt_context rt)\<lparr>tx_node := Some node, tx_agent := None\<rparr>"
  have cx: "grown (rt_context rt) cx" by (simp add: cx_def grown_same)
  obtain q cx' where g: "guard (en_services env) name args f cx = (q, cx')" by fastforce
  have "rt' = rt \<or> rt_context rt' = cx \<or> rt_context rt' = cx'"
    using assms(2) g by (auto simp: call_tool_def tool_budget_exceeded_def Let_def simp flip: cx_def
        split: prod.splits bool.splits if_splits)
  with cx guard_grown [OF assms(1) g] grown_trans show ?thesis unfolding along_def by (metis grown_same)
qed

lemma run_subtasks_along: "run_subtasks env plan sts rt = (rs, rt') \<Longrightarrow> along rt rt'"
proof (induction sts arbitrary: rt rs)
  case (Cons st sts)
  obtain r a where ag: "run_agent (agents_of env) (build_agent (st_agent st)) (rt_graph rt) st plan (agent_start rt) = (r, a)"
    by fastforce
  have "along rt (agent_finish a rt)"
    using run_agent_grown [OF ag] by (intro along_agent) (simp add: agent_start_def)
  moreover from Cons.prems ag obtain rs1 where "run_subtasks env plan sts (agent_finish a rt) = (rs1, rt')"
    by (auto split: prod.splits)
  ultimately show ?case using Cons.IH along_trans by blast
qed simp

lemma run_layers_along: "run_layers env plan ls rt = (rs, rt') \<Longrightarrow> along rt rt'"
proof (induction ls arbitrary: rt rs)
  case (Cons l ls)
  then obtain r1 rt1 r2 where l: "run_subtasks env plan l rt = (r1, rt1)" "run_layers env plan ls rt1 = (r2, rt')"
    by (auto split: prod.splits)
  with Cons.IH run_subtasks_along along_trans show ?case by blast
qed simp

lemma apply_edits_along: "apply_edits env msg es rt = (n, errors, rt') \<Longrightarrow> along rt rt'"
proof (induction es arbitrary: rt n errors)
  case (Cons e es)
  obtain out w where wr: "en_write env (fe_path e) (fe_content e) (tx_world (rt_context rt)) = (out, w)"
    by fastforce
  define rt1 where "rt1 = with_context (\<lambda>cx. cx\<lparr>tx_world := w\<rparr>) rt"
  have "along rt rt1" by (simp add: rt1_def along_def with_context_def grown_same)
  moreover from Cons.prems wr obtain k errs rt2 where "apply_edits env msg es rt2 = (k, errs, rt')"
    "rt_context rt2 = rt_context rt1"
    by (cases out) (auto simp: rt1_def Let_def split: prod.splits)
  ultimately show ?case using Cons.IH along_trans along_same by metis
qed simp

lemma probe_files_along: "probe_files env ps ev rt = (ev', rt') \<Longrightarrow> along rt rt'"
proof (induction ps arbitrary: ev rt)
  case (Cons p ps)
  obtain deps tests where ev: "ev = (deps, tests)" by fastforce
  obtain d rt1 where d: "call_tool env ''find_dependencies'' [(''file'', VStr p)]
      (find_dependencies_tool (en_services env) p) ''repository_analysis'' rt = (d, rt1)" by fastforce
  obtain t rt2 where t: "call_tool env ''find_related_tests'' [(''file'', VStr p)]
      (find_related_tests_tool (en_services env) p) ''repository_analysis'' rt1 = (t, rt2)" by fastforce
  have "along rt rt1" "along rt1 rt2" using call_tool_along d t by (metis modest_tools(4) modest_tools(6))+
  moreover from Cons.prems ev d t obtain ev2 where "probe_files env ps ev2 rt2 = (ev', rt')"
    by (auto simp: Let_def)
  ultimately show ?case using Cons.IH along_trans by blast
qed simp

lemma probe_callers_along: "probe_callers env hits rt = (x, rt') \<Longrightarrow> along rt rt'"
  by (auto simp: probe_callers_def split: option.splits prod.splits dest: call_tool_along [rotated])

lemma adopt_graph_along: "along rt (adopt_graph rt)"
  by (auto simp: along_def adopt_graph_def with_context_def grown_def split: option.split)

lemma full_analysis_along:
  assumes "full_analysis env s rt = (out, rt')"
  shows "along rt rt'"
proof -
  define sv where "sv = en_services env"
  obtain ivr rt1 where 1: "call_tool env ''analyze_repository'' [(''max_files'', VInt 4000)]
      (analyze_repository sv 4000) ''repository_analysis'' rt = (ivr, rt1)" by fastforce
  obtain st rt3 where 3: "call_tool env ''build_repository_graph'' [] (build_repository_graph sv)
      ''repository_analysis'' (adopt_graph rt1) = (st, rt3)" by fastforce
  obtain ranked rt4 where 4: "call_tool env ''find_relevant_files''
      [(''task'', VStr (sw_task s)), (''limit'', VInt 12), (''include_tests'', VBool True)]
      (find_relevant_files_tool sv (sw_task s) 12 True) ''repository_analysis'' rt3 = (ranked, rt4)" by fastforce
  define hits where "hits =
      (let found = (case answer_of ranked of None \<Rightarrow> [] | Some r \<Rightarrow> map fst (rf_results r))
       in if found \<noteq> [] then found else case rt_graph rt4 of None \<Rightarrow> [] | Some g \<Rightarrow> central_files g)"
  obtain deps tests rt5 where 5: "probe_files env (take 3 hits) ([], []) rt4 = ((deps, tests), rt5)"
    by (metis prod.exhaust)
  obtain callers n rt6 where 6: "probe_callers env hits rt5 = ((callers, n), rt6)"
    by (metis prod.exhaust)
  have "rt' = rt6"
    using assms 1 3 4 5 6 by (auto simp: full_analysis_def Let_def simp flip: sv_def hits_def [unfolded Let_def])
  moreover note call_tool_along [OF modest_tools(1) 1] adopt_graph_along [of rt1]
    call_tool_along [OF modest_tools(2) 3] call_tool_along [OF modest_tools(3) 4]
    probe_files_along [OF 5] probe_callers_along [OF 6]
  ultimately show ?thesis using along_trans by metis
qed

lemma with_context_along: "(\<And>cx. grown cx (f cx)) \<Longrightarrow> along rt rt1 \<Longrightarrow> along rt (with_context f rt1)"
  unfolding along_def with_context_def by (auto intro: grown_trans)

lemma record_experience_along: "along rt (record_experience env s st rt)"
  unfolding record_experience_def
  by (auto intro!: with_context_along grown_same split: option.split)

lemma verify_now_along:
  assumes "verify_now env vf0 changed rt = (out, rt')" "tx_verifier (rt_context rt) \<noteq> None"
  shows "along rt rt'"
proof -
  obtain r rt1 where c: "call_tool env ''run_validation''
      [(''changed_files'', list_val changed), (''full_suite'', VBool (wc_full_suite (rt_config rt)))]
      (run_validation (en_services env) changed (wc_full_suite (rt_config rt))) ''verification'' rt = (r, rt1)"
    by fastforce
  have "tx_ledger (rt_context rt') = tx_ledger (rt_context rt1)"
    using assms(1) c by (auto simp: verify_now_def verify_directly_def run_verifier_def Let_def
        split: option.splits prod.splits)
  moreover have "along rt rt1" using call_tool_along [OF modest_run_validation c] .
  ultimately show ?thesis using assms(2) by (auto simp: along_def grown_def)
qed

lemma node_body_along:
  assumes "node_body env n s rt = (out, rt')"
  shows "along rt rt'"
proof (cases n)
  case RepositoryAnalysis
  with assms full_analysis_along [of env s rt] show ?thesis
    by (auto simp: repository_analysis_def inventory_only_def split: if_splits sum.splits)
next
  case ExternalContext
  with assms show ?thesis
    by (auto simp: external_context_def mcp_call_def Let_def along_def with_context_def grown_same
        split: option.splits list.splits if_splits prod.splits)
next
  case ComplexityAnalysis
  with assms show ?thesis
    by (auto simp: complexity_analysis_def Let_def split: if_splits prod.splits
        intro!: with_context_along grown_same dest!: call_tool_along [OF modest_tools(10)])
next
  case Planning
  with assms show ?thesis
    by (auto simp: planning_def Let_def along_def with_context_def intro!: grown_same split: prod.splits sum.splits)
next
  case Implementation
  with assms show ?thesis
    by (auto simp: implementation_def Let_def split: option.splits sum.splits prod.splits
        dest!: run_layers_along apply_edits_along intro: along_trans)
next
  case Verification
  with assms show ?thesis
    by (auto simp: verification_def split: option.splits prod.splits sum.splits dest!: verify_now_along)
next
  case FailureAnalysis
  with assms show ?thesis
    by (auto simp: failure_analysis_def Let_def dest!: call_tool_along [OF modest_tools(7)]
        split: option.splits prod.splits)
next
  case Recovery
  with assms show ?thesis
    by (auto simp: recovery_def Let_def agent_start_def split: option.splits sum.splits prod.splits
        dest!: repair_grown apply_edits_along intro: along_agent along_agent_then)
next
  case IndependentReview
  with assms show ?thesis
    by (auto simp: independent_review_def Let_def agent_start_def split: option.splits sum.splits prod.splits
        dest!: review_grown call_tool_along [OF modest_inspect] intro: along_trans [OF _ along_agent])
next
  case SecurityAnalysis
  with assms show ?thesis
    by (auto simp: security_analysis_def Let_def dest!: call_tool_along [OF modest_tools(9)] split: prod.splits)
next
  case RiskGate
  with assms show ?thesis
    by (auto simp: risk_gate_def Let_def dest!: call_tool_along [OF modest_tools(8)] split: prod.splits)
qed (use assms in \<open>auto simp: task_intake_def agent_selection_def finalization_def human_approval_def
  escalation_def budget_stop_def finish_run_def Let_def record_experience_along\<close>)

lemma trace_node_along: "along rt (trace_node env n t u rt)"
  by (auto simp: trace_node_def Let_def intro!: with_context_along grown_same split: option.split prod.split)

lemma run_node_along: "run_node env n s rt = (out, rt') \<Longrightarrow> along rt rt'"
  by (auto simp: run_node_def split: prod.splits sum.splits
      dest!: node_body_along intro: along_trans trace_node_along)

lemma step_along:
  assumes "flow_step env c d"
  shows "along (snd (snd c)) (snd (snd d))"
proof -
  obtain n s rt where c: "c = (At n, s, rt)" and d: "d = advance env n s rt"
    using assms by (cases rule: flow_step.cases) auto
  obtain out rt1 where r: "run_node env n s rt = (out, rt1)" by fastforce
  have same: "rt_context rt2 = rt_context rt1" if "route env n s1 rt1 = (p, rt2)" for s1 p rt2
    using that by (cases n) (auto split: prod.splits)
  have "rt_context (snd (snd d)) = rt_context rt1"
    using r same by (auto simp: d advance_def Let_def split: sum.split prod.split)
  with run_node_along [OF r] show ?thesis by (simp add: c along_def)
qed

lemma run_along: "(flow_step env)\<^sup>*\<^sup>* c d \<Longrightarrow> along (snd (snd c)) (snd (snd d))"
  by (induction rule: rtranclp_induct) (auto intro: along_trans step_along)

subsection \<open>Properties\<close>

text \<open>
  The ledger of tool calls is append-only. Along every run, whatever the models and tools do, no
  recorded call is lost, changed or reordered: the ledger at a later point is the ledger at an
  earlier point with entries behind it, and a run without a verifier never gets one.
\<close>

theorem ledger_only_grows:
  assumes "(flow_step env)\<^sup>*\<^sup>* (p, s, rt) (p', s', rt')"
  shows "(\<exists>es. tx_ledger (rt_context rt') = tx_ledger (rt_context rt) @ es) \<and>
    tool_calls rt \<le> tool_calls rt' \<and> (tx_verifier (rt_context rt) = None \<longrightarrow> tx_verifier (rt_context rt') = None)"
  using run_along [OF assms] by (auto simp: along_def grown_def tool_calls_def total_tool_calls_def)

theorem ledger_only_grows_witness:
  "\<exists>p s rt'. run_flow green_env 60 bare_flow = Some (p, s, rt') \<and>
     take (tool_calls bare_runtime) (tx_ledger (rt_context rt')) = tx_ledger (rt_context bare_runtime)"
proof -
  from bare_run obtain s rt' where r: "run_flow green_env 60 bare_flow = Some (Ended, s, rt')"
    by (auto simp del: run_flow.simps)
  from ledger_only_grows [OF run_flow_path [OF r, unfolded start_flow_def]]
  have "take (tool_calls bare_runtime) (tx_ledger (rt_context rt')) = tx_ledger (rt_context bare_runtime)"
    by (auto simp: tool_calls_def total_tool_calls_def)
  with r show ?thesis by blast
qed

definition untested :: "'w flow \<Rightarrow> bool" where
  "untested = (\<lambda>(p, s, rt). sw_test_results s = None \<and> sw_review_results s = None)"

lemma untested_step:
  assumes "flow_step env c d" "flow_inv c" "untested c" "tx_verifier (rt_context (snd (snd c))) = None"
  shows "untested d"
proof -
  obtain n s rt where c: "c = (At n, s, rt)" and d: "d = advance env n s rt"
    using assms(1) by (cases rule: flow_step.cases) auto
  obtain out rt1 where r: "run_node env n s rt = (out, rt1)" by fastforce
  have "n \<noteq> IndependentReview"
    using assms(2,3) by (auto simp: c flow_inv_def control_inv_def position_ok_def verdicts_def untested_def is_green_def)
  show ?thesis
  proof (cases out)
    case (Inl e)
    with assms(3) c d r show ?thesis by (simp add: advance_def untested_def)
  next
    case (Inr u)
    note own = run_node_owned [OF r [unfolded Inr], unfolded owned_update_def]
    have "sw_test_results (merge_update u s) = None"
    proof (cases "n = Verification")
      case True
      with r Inr assms(4) c show ?thesis by (auto simp: run_node_def verification_def)
    qed (use own assms(3) c in \<open>simp add: untested_def\<close>)
    with r Inr d c assms(3) own \<open>n \<noteq> IndependentReview\<close> show ?thesis
      by (auto simp: advance_def untested_def Let_def split: prod.split)
  qed
qed

text \<open>
  C7. Without a verifier nothing completes. A run whose runtime has no execution backend, as the graph
  registered for deployment has, holds no verification result and no review, and never ends as
  completed, with or without findings, nor waits for an approval: it fails, escalates or runs out of
  budget.
\<close>

theorem unverified_run_never_completes:
  assumes "(flow_step env)\<^sup>*\<^sup>* (start_flow task repository rt) (Ended, s, rt')"
    and "tx_verifier (rt_context rt) = None"
  shows "sw_test_results s = None \<and> sw_review_results s = None \<and>
    sw_final_status s \<in> {FailedRun, EscalatedRecovery, BudgetExhausted}"
proof -
  have "untested d \<and> flow_inv d \<and> tx_verifier (rt_context (snd (snd d))) = None"
    if "(flow_step env)\<^sup>*\<^sup>* (start_flow task repository rt) d" for d
    using that
  proof (induction rule: rtranclp_induct)
    case base
    have "fresh (start_flow task repository rt)" by (auto simp: fresh_def)
    from workflow.init_inv [OF this] assms(2) show ?case
      by (simp add: untested_def start_flow_def initial_state_def)
  next
    case (step c d)
    with untested_step workflow.step_inv step_along show ?case
      unfolding along_def grown_def by blast
  qed
  from this [OF assms(1)] have u: "sw_test_results s = None" "sw_review_results s = None"
    by (auto simp: untested_def)
  moreover have "sw_final_status s \<in> {FailedRun, EscalatedRecovery, BudgetExhausted}"
    using ended_earned [OF assms(1)] u
    by (cases "sw_final_status s") (auto simp: earned_def verdicts_def is_green_def is_rejected_def)
  ultimately show ?thesis by blast
qed

theorem unverified_run_never_completes_witness:
  "\<exists>s rt'. run_flow calm_env 60 demo_flow = Some (Ended, s, rt') \<and> sw_final_status s \<noteq> Completed"
proof -
  obtain s rt' where d: "run_flow calm_env 60 demo_flow = Some (Ended, s, rt')"
    "(flow_step calm_env)\<^sup>*\<^sup>* demo_flow (Ended, s, rt')" by (rule calm_run)
  have "tx_verifier (rt_context (demo_runtime default_config)) = None"
    by (simp add: demo_runtime_def demo_context_def)
  from unverified_run_never_completes [OF d(2) this] have "sw_final_status s \<noteq> Completed" by auto
  with d(1) show ?thesis by blast
qed

end
