(* ===== verification/Runner.thy ===== *)
theory Runner
  imports Run_Books
begin

section \<open>The runner and the registered graph\<close>

text \<open>
  Models \<open>agent/sweforge/runner.py\<close> and \<open>agent/sweforge/graph/entrypoint.py\<close>: assembling a runtime,
  running the graph under the tracing switch and the recursion limit, the outcome of a run with its
  metrics, and the graph that is registered for deployment, with its declared nodes and edges. What a
  host provides (environment variables, the store behind a path, the local trace recorder) is a
  parameter; so are the outcomes of entering and leaving the LangSmith context.

  The lemmas show that a task of a reliable host always gets an outcome, that the outcome tells the
  truth about the run, and that the routers stay inside the declared edges.
\<close>

subsection \<open>Outcomes\<close>

record run_outcome =
  oc_state :: flow_state
  oc_wall_time :: rat
  oc_variant :: string

definition outcome_status :: "run_outcome \<Rightarrow> string" where
  "outcome_status oc = status_text (sw_final_status (oc_state oc))"

definition verification_passed :: "run_outcome \<Rightarrow> bool" where
  "verification_passed oc =
     (case sw_test_results (oc_state oc) of None \<Rightarrow> False | Some v \<Rightarrow> vr_passed v)"

definition outcome_attempts :: "run_outcome \<Rightarrow> nat" where
  "outcome_attempts oc = length (sw_recovery_attempts (oc_state oc))"

definition recovered :: "run_outcome \<Rightarrow> bool" where
  "recovered oc \<longleftrightarrow> 0 < outcome_attempts oc \<and> verification_passed oc"

definition outcome_trace :: "run_outcome \<Rightarrow> string list" where
  "outcome_trace oc = sw_node_trace (oc_state oc)"

definition or_zero :: "('a \<Rightarrow> int) \<Rightarrow> 'a option \<Rightarrow> pyval" where
  "or_zero f x = VInt (case x of None \<Rightarrow> 0 | Some y \<Rightarrow> f y)"

definition outcome_metrics :: "run_outcome \<Rightarrow> kwargs" where
  "outcome_metrics oc =
     (let s = oc_state oc; m = sw_metrics s; v = sw_test_results s
      in [(''variant'', VStr (oc_variant oc)), (''final_status'', VStr (outcome_status oc)),
          (''verification_passed'', VBool (verification_passed oc)),
          (''first_attempt_success'', VBool (verification_passed oc \<and> outcome_attempts oc = 0)),
          (''recovery_attempts'', VInt (int (outcome_attempts oc))), (''recovered'', VBool (recovered oc)),
          (''tests_run'', or_zero vr_tests_run v), (''tests_passed'', or_zero vr_tests_passed v),
          (''tests_failed'', or_zero vr_tests_failed v),
          (''model_calls'', or_zero em_model_calls m), (''tool_calls'', or_zero em_tool_calls m),
          (''input_tokens'', or_zero em_input_tokens m), (''output_tokens'', or_zero em_output_tokens m),
          (''estimated_cost_usd'', VFloat (case m of None \<Rightarrow> 0 | Some x \<Rightarrow> em_cost x)),
          (''verification_runs'', or_zero em_verification_runs m),
          (''review_approved'', opt_val (\<lambda>r. VBool (rr_approved r)) (sw_review_results s)),
          (''review_rejections'', or_zero em_review_rejections m),
          (''risk_level'', opt_val (\<lambda>r. VStr (level_text (rs_level r))) (sw_risk_score s)),
          (''risk_score'', opt_val (\<lambda>r. VInt (rs_score r)) (sw_risk_score s)),
          (''security_gate_triggered'', VBool (case m of None \<Rightarrow> False | Some x \<Rightarrow> em_security_gate x)),
          (''security_findings'', VInt (int (length (sw_security_findings s)))),
          (''wall_time_seconds'', VFloat (py_round 4 (oc_wall_time oc))),
          (''node_count'', VInt (int (length (outcome_trace oc))))])"

subsection \<open>Assembling a runtime\<close>

record host =
  ho_environ :: env
  ho_store :: "string \<Rightarrow> store"
  ho_tracer :: recorder

record launch =
  la_config :: "workflow_config option"
  la_router :: "router option"
  la_backend :: bool
  la_kind :: string
  la_memory_path :: "string option"
  la_lint :: bool

definition launch_config :: "launch \<Rightarrow> workflow_config" where
  "launch_config l = (case la_config l of None \<Rightarrow> default_config | Some c \<Rightarrow> c)"

definition memory_path :: "launch \<Rightarrow> string \<Rightarrow> string" where
  "memory_path l dir =
     (case la_memory_path l of
        Some (c # cs) \<Rightarrow> c # cs | _ \<Rightarrow> dir @ ''/.sweforge/experience.jsonl'')"

definition index_of :: "('m, 'w) flow_env \<Rightarrow> workflow_config \<Rightarrow> string \<Rightarrow> 'w \<Rightarrow> repo_graph option result" where
  "index_of env cfg dir w =
     (if wc_intelligence cfg
      then (case sv_analyze (en_services env) 4000 dir w of
              Inl e \<Rightarrow> Inl e | Inr m \<Rightarrow> Inr (Some (build_graph m)))
      else Inr None)"

definition build_runtime ::
  "('m, 'w) flow_env \<Rightarrow> host \<Rightarrow> launch \<Rightarrow> string \<Rightarrow> 'w \<Rightarrow> 'w runtime result" where
  "build_runtime env host l dir w =
     (if \<not> la_backend l \<and> la_kind l \<noteq> ''local''
      then Inl (value_error (''sandbox backend must be supplied explicitly via '' @
             ''OpenSWESandboxBackend.for_thread(thread_id); it requires a live Open SWE thread.''))
      else (case index_of env (launch_config l) dir w of
              Inl e \<Rightarrow> Inl e
            | Inr graph \<Rightarrow>
                (let cfg = launch_config l; now = sv_now (en_services env) w
                 in Inr \<lparr>rt_repo_root = dir, rt_config = cfg,
                     rt_router = (case la_router l of None \<Rightarrow> new_router (ho_environ host) | Some r \<Rightarrow> r),
                     rt_graph = graph,
                     rt_context = \<lparr>tx_root = dir, tx_graph = graph,
                       tx_verifier = Some \<lparr>vf_graph = graph, vf_timeout = 300, vf_enable_lint = la_lint l,
                         vf_enable_typecheck = False, vf_last = None\<rparr>,
                       tx_memory = (if wc_memory cfg then Some (ho_store host (memory_path l dir)) else None),
                       tx_engine = Some default_engine, tx_scanner = Some [],
                       tx_classifier = Some (map_option (\<lambda>g. dict_keys (rp_files (rg_map g))) graph),
                       tx_ledger = [], tx_node = None, tx_agent = None, tx_model = None,
                       tx_tracer = Some (ho_tracer host), tx_world = w\<rparr>,
                     rt_started_at = now, rt_budget = new_budget default_limits now,
                     rt_budget_error = None, rt_registry = None, rt_policy = None,
                     rt_mcp_shared = False, rt_written = []\<rparr>)))"

subsection \<open>Running a task\<close>

text \<open>The graph runtime raises \<open>limit_error\<close> when the recursion limit is reached before the end.\<close>

definition invoke_graph ::
  "('m, 'w) flow_env \<Rightarrow> exn \<Rightarrow> nat \<Rightarrow> 'w flow \<Rightarrow> (flow_state \<times> 'w runtime) result" where
  "invoke_graph env limit_error limit c =
     (case run_flow env limit c of
        None \<Rightarrow> Inl limit_error
      | Some (p, s, rt) \<Rightarrow> (case p of Crashed e \<Rightarrow> Inl e | _ \<Rightarrow> Inr (s, rt)))"

definition fold_totals :: "'w runtime \<Rightarrow> execution_metrics \<Rightarrow> execution_metrics" where
  "fold_totals rt m =
     (let l = ro_ledger (rt_router rt)
      in m\<lparr>em_tool_calls := max (em_tool_calls m) (int (tool_calls rt)),
           em_input_tokens := total_input_tokens l, em_output_tokens := total_output_tokens l,
           em_cost := total_cost l, em_model_calls := max (em_model_calls m) (int (total_calls l))\<rparr>)"

definition run_task ::
  "('m, 'w) flow_env \<Rightarrow> host \<Rightarrow> unit result \<Rightarrow> unit result \<Rightarrow> exn \<Rightarrow> launch \<Rightarrow> nat
   \<Rightarrow> string \<Rightarrow> string \<Rightarrow> string \<Rightarrow> 'w \<Rightarrow> run_outcome result" where
  "run_task env host enter leave limit_error l limit task dir repository w =
     (case build_runtime env host (l\<lparr>la_lint := True\<rparr>) dir w of
        Inl e \<Rightarrow> Inl e
      | Inr rt \<Rightarrow>
          (case traced (ho_environ host) enter leave
                  (invoke_graph env limit_error limit (start_flow task (or_else dir repository) rt)) of
             Inl e \<Rightarrow> Inl e
           | Inr (s, rt') \<Rightarrow>
               Inr \<lparr>oc_state = s\<lparr>sw_metrics := map_option (fold_totals rt') (sw_metrics s)\<rparr>,
                    oc_wall_time = now_of env rt' - now_of env rt,
                    oc_variant = wc_variant (launch_config l)\<rparr>))"

definition default_limit :: nat where
  "default_limit = 60"

subsection \<open>The registered graph\<close>

definition registered_runtime ::
  "host \<Rightarrow> router option \<Rightarrow> workflow_config option \<Rightarrow> string \<Rightarrow> rat \<Rightarrow> 'w \<Rightarrow> 'w runtime" where
  "registered_runtime host router config dir now w =
     \<lparr>rt_repo_root = dir,
      rt_config = (case config of None \<Rightarrow> default_config | Some c \<Rightarrow> c),
      rt_router = (case router of None \<Rightarrow> new_router (ho_environ host) | Some r \<Rightarrow> r), rt_graph = None,
      rt_context = \<lparr>tx_root = dir, tx_graph = None, tx_verifier = None, tx_memory = None,
        tx_engine = Some default_engine, tx_scanner = Some [], tx_classifier = Some None, tx_ledger = [],
        tx_node = None, tx_agent = None, tx_model = None, tx_tracer = Some (ho_tracer host),
        tx_world = w\<rparr>,
      rt_started_at = now, rt_budget = new_budget default_limits now, rt_budget_error = None,
      rt_registry = None, rt_policy = None, rt_mcp_shared = False, rt_written = []\<rparr>"

text \<open>
  The nodes and edges that \<open>build_workflow\<close> declares; \<open>None\<close> stands for START as a source and for END
  as a target. \<open>describe_graph\<close> reads them off the compiled graph.
\<close>

definition graph_nodes :: "node_name list" where
  "graph_nodes =
     [TaskIntake, RepositoryAnalysis, ExternalContext, ComplexityAnalysis, Planning, AgentSelection,
      Implementation, Verification, FailureAnalysis, Recovery, IndependentReview, SecurityAnalysis,
      RiskGate, Finalization, HumanApproval, Escalation, BudgetStop]"

fun targets :: "node_name \<Rightarrow> node_name option list" where
  "targets TaskIntake = [Some RepositoryAnalysis, Some Finalization]"
| "targets RepositoryAnalysis = [Some ExternalContext]"
| "targets ExternalContext = [Some ComplexityAnalysis]"
| "targets ComplexityAnalysis = [Some Planning]"
| "targets Planning = [Some AgentSelection]"
| "targets AgentSelection = [Some Implementation]"
| "targets Implementation = [Some Verification]"
| "targets Verification =
     [Some IndependentReview, Some SecurityAnalysis, Some FailureAnalysis, Some Finalization, Some BudgetStop]"
| "targets FailureAnalysis = [Some Recovery, Some Escalation, Some BudgetStop]"
| "targets Recovery = [Some Verification]"
| "targets IndependentReview =
     [Some SecurityAnalysis, Some Finalization, Some Recovery, Some Escalation]"
| "targets SecurityAnalysis = [Some RiskGate]"
| "targets RiskGate = [Some HumanApproval, Some Finalization]"
| "targets Finalization = [None]"
| "targets HumanApproval = [None]"
| "targets Escalation = [None]"
| "targets BudgetStop = [None]"

definition graph_edges :: "(node_name option \<times> node_name option) list" where
  "graph_edges =
     (None, Some TaskIntake) # concat (map (\<lambda>n. map (\<lambda>m. (Some n, m)) (targets n)) graph_nodes)"

record graph_description =
  gr_nodes :: "string list"
  gr_node_count :: nat
  gr_edge_count :: nat
  gr_terminal_nodes :: "string list"

definition describe_graph :: graph_description where
  "describe_graph =
     \<lparr>gr_nodes = py_sorted (map node_text graph_nodes), gr_node_count = length graph_nodes,
      gr_edge_count = length graph_edges,
      gr_terminal_nodes = py_sorted (uniq (List.map_filter (\<lambda>(a, b).
        case (a, b) of (Some n, None) \<Rightarrow> Some (node_text n) | _ \<Rightarrow> None) graph_edges))\<rparr>"

text \<open>
  The routers stay inside the declared graph. Whatever state and budget it reads, the router of a
  node answers a declared successor of that node, or the end exactly at a node that has no other
  successor; so the path map of a conditional edge never misses an answer. The declared graph has 17
  nodes, each once, 29 edges and four terminal nodes.
\<close>

theorem routers_follow_declared_edges:
  "(case fst (route env n s rt) of
      At m \<Rightarrow> (Some n, Some m) \<in> set graph_edges
    | Ended \<Rightarrow> (Some n, None) \<in> set graph_edges
    | Crashed e \<Rightarrow> False) \<and>
   distinct graph_nodes \<and> set graph_nodes = UNIV \<and> length graph_nodes = 17 \<and> length graph_edges = 29 \<and>
   gr_terminal_nodes describe_graph =
     [''budget_exhausted'', ''escalation'', ''finalization'', ''human_approval'']"
proof -
  have all: "n \<in> set graph_nodes" for n by (cases n) (simp_all add: graph_nodes_def)
  have "case fst (route env n s rt) of
      At m \<Rightarrow> Some m \<in> set (targets n) | Ended \<Rightarrow> None \<in> set (targets n) | Crashed e \<Rightarrow> False"
    by (cases n) (auto simp: route_after_intake_def route_after_verification_def route_after_failure_def
        route_after_review_def route_after_risk_gate_def after_green_def split: prod.split bool.split)
  then have "case fst (route env n s rt) of
      At m \<Rightarrow> (Some n, Some m) \<in> set graph_edges
    | Ended \<Rightarrow> (Some n, None) \<in> set graph_edges
    | Crashed e \<Rightarrow> False"
    using all by (cases "fst (route env n s rt)") (auto simp: graph_edges_def)
  moreover have "distinct graph_nodes" "length graph_nodes = 17" by (simp_all add: graph_nodes_def)
  moreover have "set graph_nodes = UNIV" using all by blast
  moreover have "length graph_edges = 29" by (simp add: graph_edges_def graph_nodes_def)
  moreover have "gr_terminal_nodes describe_graph =
      [''budget_exhausted'', ''escalation'', ''finalization'', ''human_approval'']" by code_simp
  ultimately show ?thesis by blast
qed

subsection \<open>The trace of a run\<close>

lemma node_body_trace: "node_body env n s rt = (Inr u, rt') \<Longrightarrow> length (su_node_trace u) = 1"
  by (cases n) (auto simp: node_defs Let_def split: prod.splits sum.splits option.splits if_splits list.splits)

lemma node_body_metrics: "node_body env n s rt = (Inr u, rt') \<Longrightarrow> su_metrics u \<noteq> None"
  by (cases n) (auto simp: node_defs Let_def split: prod.splits sum.splits option.splits if_splits list.splits)

definition reported :: "'w flow \<Rightarrow> bool" where
  "reported = (\<lambda>(p, s, rt). sw_metrics s \<noteq> None)"

lemma step_trace:
  assumes "flow_step env c d"
  shows "length (sw_node_trace (fst (snd d))) \<le> Suc (length (sw_node_trace (fst (snd c))))"
    "reported c \<Longrightarrow> reported d"
proof -
  obtain n s rt where c: "c = (At n, s, rt)" and d: "d = advance env n s rt"
    using assms by (cases rule: flow_step.cases) auto
  obtain out rt1 where r: "run_node env n s rt = (out, rt1)" by fastforce
  have "length (sw_node_trace (fst (snd d))) \<le> Suc (length (sw_node_trace (fst (snd c)))) \<and>
    (reported c \<longrightarrow> reported d)"
  proof (cases out)
    case (Inl e)
    with r show ?thesis by (simp add: c d advance_def reported_def)
  next
    case (Inr u)
    with r obtain rt0 where b: "node_body env n s rt = (Inr u, rt0)"
      by (auto simp: run_node_def split: prod.splits sum.splits)
    obtain q rt2 where "route env n (merge_update u s) rt1 = (q, rt2)" by fastforce
    with r Inr have "advance env n s rt = (q, merge_update u s, rt2)" by (simp add: advance_def Let_def)
    with node_body_trace [OF b] node_body_metrics [OF b] show ?thesis
      by (auto simp: c d reported_def merge_update_def)
  qed
  then show "length (sw_node_trace (fst (snd d))) \<le> Suc (length (sw_node_trace (fst (snd c))))"
    "reported c \<Longrightarrow> reported d" by auto
qed

lemma run_trace:
  assumes "(flow_step env)\<^sup>*\<^sup>* c d" "flow_inv c"
  shows "length (sw_node_trace (fst (snd d))) + flow_rank d \<le> length (sw_node_trace (fst (snd c))) + flow_rank c"
    "flow_inv d" "reported c \<longrightarrow> reported d"
proof -
  have "length (sw_node_trace (fst (snd d))) + flow_rank d \<le> length (sw_node_trace (fst (snd c))) + flow_rank c \<and>
    flow_inv d \<and> (reported c \<longrightarrow> reported d)"
    using assms
  proof (induction rule: rtranclp_induct)
    case (step d e)
    then have "flow_inv d" by blast
    from step workflow.step_rank [OF step.hyps(2) this] workflow.step_inv [OF step.hyps(2) this]
      step_trace [OF step.hyps(2)] show ?case by auto
  qed simp
  then show "length (sw_node_trace (fst (snd d))) + flow_rank d \<le> length (sw_node_trace (fst (snd c))) + flow_rank c"
    "flow_inv d" "reported c \<longrightarrow> reported d" by auto
qed

subsection \<open>A task gets an outcome\<close>

lemma build_runtime_fresh:
  assumes "build_runtime env host l dir w = Inr rt"
  shows "rt_config rt = launch_config l" "within_limits (rt_budget rt)" "rt_written rt = []"
    "tx_verifier (rt_context rt) \<noteq> None" "tool_calls rt = 0"
  using assms
  by (auto simp: build_runtime_def Let_def tool_calls_def total_tool_calls_def within_limits_def new_budget_def
      default_limits_def below_def split: if_splits sum.splits)

lemma traced_success: "\<not> isl leave \<Longrightarrow> traced e enter leave (Inr x) = Inr x"
  by (auto simp: traced_def split: sum.split)

text \<open>
  A task gets an honest outcome. On a reliable host, with a runtime that can be built, a recursion
  limit of at least 13 + 3 * max_recovery_attempts and a tracing context that can be left, running a
  task returns an outcome: its status is not pending, it says completed only with a green
  verification, its attempts and its trace are within their bounds, and its counts are those of the
  run: model and tool calls not below the ledgers, tokens and cost as the router's ledger has them.
\<close>

theorem task_gets_honest_outcome:
  assumes "reliable env" "build_runtime env host (l\<lparr>la_lint := True\<rparr>) dir w = Inr rt"
    and "13 + 3 * wc_max_recovery (launch_config l) \<le> limit" "\<not> isl leave"
  shows "\<exists>oc s rt'. run_flow env limit (start_flow task (or_else dir repository) rt) = Some (Ended, s, rt') \<and>
    run_task env host enter leave limit_error l limit task dir repository w = Inr oc \<and>
    outcome_status oc \<noteq> ''pending'' \<and>
    (outcome_status oc \<in> {''completed'', ''completed_with_findings''} \<longrightarrow> verification_passed oc) \<and>
    outcome_attempts oc \<le> wc_max_recovery (launch_config l) \<and>
    length (outcome_trace oc) \<le> 13 + 3 * wc_max_recovery (launch_config l) \<and>
    (\<exists>m. sw_metrics (oc_state oc) = Some m \<and> int (tool_calls rt') \<le> em_tool_calls m \<and>
       int (total_calls (ro_ledger (rt_router rt'))) \<le> em_model_calls m \<and>
       em_input_tokens m = total_input_tokens (ro_ledger (rt_router rt')) \<and>
       em_cost m = total_cost (ro_ledger (rt_router rt')))"
proof -
  have cfg: "rt_config rt = launch_config l"
    using build_runtime_fresh(1) [OF assms(2)] by (simp add: launch_config_def)
  let ?c = "start_flow task (or_else dir repository) rt"
  have "13 + 3 * wc_max_recovery (rt_config rt) \<le> limit" using assms(3) cfg by simp
  from reliable_run [OF assms(1) this] obtain s rt' where
    r: "run_flow env limit ?c = Some (Ended, s, rt')" "(flow_step env)\<^sup>*\<^sup>* ?c (Ended, s, rt')" by blast
  have fr: "fresh ?c" by (auto simp: fresh_def)
  have inv: "flow_inv ?c" using workflow.init_inv [OF fr] .
  have tr: "length (sw_node_trace s) \<le> 13 + 3 * wc_max_recovery (launch_config l)"
    using run_trace(1) [OF r(2) inv] fresh_rank [OF fr] cfg
    by (simp add: start_flow_def initial_state_def config_of_def)
  have "sw_metrics s \<noteq> None"
    using run_trace(3) [OF r(2) inv] by (simp add: reported_def start_flow_def initial_state_def)
  then obtain m where m: "sw_metrics s = Some m" by blast
  define oc where "oc = \<lparr>oc_state = s\<lparr>sw_metrics := map_option (fold_totals rt') (sw_metrics s)\<rparr>,
      oc_wall_time = now_of env rt' - now_of env rt, oc_variant = wc_variant (launch_config l)\<rparr>"
  have out: "run_task env host enter leave limit_error l limit task dir repository w = Inr oc"
    using assms(2,4) r(1) by (simp add: run_task_def invoke_graph_def traced_success oc_def)
  have att: "length (sw_recovery_attempts s) \<le> wc_max_recovery (launch_config l)"
    using runs_of_fresh(1,2) [OF fr r(2)] cfg
    by (simp add: flow_inv_def control_inv_def verdicts_def start_flow_def config_of_def)
  have "outcome_status oc \<noteq> status_text Pending"
    "outcome_status oc = status_text Completed \<or> outcome_status oc = status_text CompletedWithFindings \<Longrightarrow>
       verification_passed oc"
    using ended_earned [OF r(2)]
    by (auto simp: earned_def verdicts_def is_green_def outcome_status_def verification_passed_def oc_def
        simp del: status_text.simps)
  then have st: "outcome_status oc \<noteq> ''pending''"
    "outcome_status oc \<in> {''completed'', ''completed_with_findings''} \<Longrightarrow> verification_passed oc" by auto
  have counts: "\<exists>m. sw_metrics (oc_state oc) = Some m \<and> int (tool_calls rt') \<le> em_tool_calls m \<and>
       int (total_calls (ro_ledger (rt_router rt'))) \<le> em_model_calls m \<and>
       em_input_tokens m = total_input_tokens (ro_ledger (rt_router rt')) \<and>
       em_cost m = total_cost (ro_ledger (rt_router rt'))"
    using m by (simp add: oc_def fold_totals_def Let_def)
  show ?thesis
    using out st att tr counts r(1) by (intro exI [of _ oc] exI [of _ s] exI [of _ rt'])
      (auto simp: outcome_attempts_def outcome_trace_def oc_def)
qed

definition demo_host :: host where
  "demo_host =
     \<lparr>ho_environ = [], ho_store = (\<lambda>p. \<lparr>es_file = None, es_records = [], es_docs = [], es_loaded = False\<rparr>),
      ho_tracer = new_recorder ''run'' None False True 0\<rparr>"

definition demo_launch :: launch where
  "demo_launch =
     \<lparr>la_config = None, la_router = None, la_backend = False, la_kind = ''local'', la_memory_path = None,
      la_lint = True\<rparr>"

theorem task_gets_honest_outcome_witness:
  "\<exists>oc. run_task calm_env demo_host (Inr ()) (Inr ()) (Raised ''GraphRecursionError'' []) demo_launch
       default_limit ''fix the parser'' ''/repo'' [] () = Inr oc \<and>
     length (outcome_trace oc) \<le> 22 \<and> outcome_status oc \<noteq> ''pending''"
proof -
  have "isl (build_runtime calm_env demo_host (demo_launch\<lparr>la_lint := True\<rparr>) ''/repo'' ()) = False"
    by (simp add: build_runtime_def index_of_def launch_config_def demo_launch_def default_config_def
        calm_env_def Let_def)
  then obtain rt where b: "build_runtime calm_env demo_host (demo_launch\<lparr>la_lint := True\<rparr>) ''/repo'' () = Inr rt"
    by (metis isl_def sum.exhaust)
  have "13 + 3 * wc_max_recovery (launch_config demo_launch) \<le> default_limit" "\<not> isl (Inr () :: unit result)"
    by (simp_all add: launch_config_def demo_launch_def default_config_def default_max_recovery_def default_limit_def)
  from task_gets_honest_outcome [OF calm_reliable b this, of "''fix the parser''" "[]" "Inr ()"
      "Raised ''GraphRecursionError'' []"]
  obtain oc where "run_task calm_env demo_host (Inr ()) (Inr ()) (Raised ''GraphRecursionError'' []) demo_launch
       default_limit ''fix the parser'' ''/repo'' [] () = Inr oc"
    "length (outcome_trace oc) \<le> 13 + 3 * wc_max_recovery (launch_config demo_launch)"
    "outcome_status oc \<noteq> ''pending''" by blast
  moreover have "13 + 3 * wc_max_recovery (launch_config demo_launch) = 22"
    by (simp add: launch_config_def demo_launch_def default_config_def default_max_recovery_def)
  ultimately show ?thesis by auto
qed

text \<open>The registered graph has no verifier, so \<open>unverified_run_never_completes\<close> applies to its runs.\<close>

lemma registered_unverified: "tx_verifier (rt_context (registered_runtime host router config dir now w)) = None"
  by (simp add: registered_runtime_def)

end
