(* ===== verification/Review_Diff.thy ===== *)
theory Review_Diff
  imports Verifier
begin

section \<open>Diffs of a pull request\<close>

text \<open>
  Models the pure part of \<open>agent/review/diff.py\<close>: parsing a unified diff into hunks, the lines of each
  side that a diff covers, the check that a finding is anchored inside the diff, the hunk that is kept
  with a finding, the commit range of a review, and writing the diff into the sandbox. SHA-256 and the
  sandbox are parameters; the requests to the GitHub API are not modelled.

  The two regular expressions are written as the functions they compute: the lazy groups of the file
  header take the first \<open>" b/"\<close> that leaves a path behind it. A diff is parsed line by line; the outer
  loop looks for a file header and the inner loop collects hunks up to the next one.
\<close>

subsection \<open>Headers\<close>

fun header_path :: "string \<Rightarrow> string option" where
  "header_path [] = None"
| "header_path (c # cs) =
     (if starts_with '' b/'' cs \<and> drop 3 cs \<noteq> [] then Some (drop 3 cs) else header_path cs)"

definition file_header :: "string \<Rightarrow> string option" where
  "file_header l = (if starts_with ''diff --git a/'' l then header_path (drop 13 l) else None)"

definition hunk_range :: "string \<Rightarrow> (int \<times> int \<times> string) option" where
  "hunk_range s =
     (let d = takeWhile is_digit_c s; r = dropWhile is_digit_c s
      in if d = [] then None
         else (case r of
                 [] \<Rightarrow> Some (digits_value d, 1, [])
               | c # cs \<Rightarrow>
                   if c = CHR '','' \<and> takeWhile is_digit_c cs \<noteq> []
                   then Some (digits_value d, digits_value (takeWhile is_digit_c cs), dropWhile is_digit_c cs)
                   else Some (digits_value d, 1, r)))"

definition hunk_header :: "string \<Rightarrow> (int \<times> int \<times> int \<times> int) option" where
  "hunk_header l =
     (if \<not> starts_with ''@@ -'' l then None
      else (case hunk_range (drop 4 l) of
          None \<Rightarrow> None
        | Some (old, old_count, r) \<Rightarrow>
            if \<not> starts_with '' +'' r then None
            else (case hunk_range (drop 2 r) of
                None \<Rightarrow> None
              | Some (new, new_count, q) \<Rightarrow>
                  if starts_with '' @@'' q
                  then Some (old, old + max (old_count - 1) 0, new, new + max (new_count - 1) 0)
                  else None)))"

subsection \<open>Parsing\<close>

record diff_hunk =
  dh_file :: string
  dh_new_start :: int
  dh_new_end :: int
  dh_old_start :: int
  dh_old_end :: int
  dh_body :: string

record file_diff =
  df_file :: string
  df_hunks :: "diff_hunk list"

definition close_hunk ::
  "string \<Rightarrow> (int \<times> int \<times> int \<times> int) option \<Rightarrow> string list \<Rightarrow> diff_hunk list" where
  "close_hunk f meta cur =
     (case meta of
        None \<Rightarrow> []
      | Some (os, oe, ns, ne) \<Rightarrow>
          (if cur = [] then []
           else [\<lparr>dh_file = f, dh_new_start = ns, dh_new_end = ne, dh_old_start = os, dh_old_end = oe,
                  dh_body = join [newline] cur\<rparr>]))"

fun collect_hunks ::
  "string \<Rightarrow> (int \<times> int \<times> int \<times> int) option \<Rightarrow> string list \<Rightarrow> string list \<Rightarrow> diff_hunk list \<times> string list" where
  "collect_hunks f meta cur [] = (close_hunk f meta cur, [])"
| "collect_hunks f meta cur (l # ls) =
     (if file_header l \<noteq> None then (close_hunk f meta cur, l # ls)
      else (case hunk_header l of
          Some m \<Rightarrow>
            (case collect_hunks f (Some m) [l] ls of (hs, ls') \<Rightarrow> (close_hunk f meta cur @ hs, ls'))
        | None \<Rightarrow> collect_hunks f meta (if meta = None then cur else cur @ [l]) ls))"

lemma collect_hunks_shorter: "collect_hunks f meta cur ls = (hs, ls') \<Longrightarrow> length ls' \<le> length ls"
proof (induction f meta cur ls arbitrary: hs ls' rule: collect_hunks.induct)
  case (2 f meta cur l ls)
  then show ?case by (fastforce split: if_splits option.splits prod.splits)
qed simp

function parse_lines :: "string list \<Rightarrow> file_diff list" where
  "parse_lines [] = []"
| "parse_lines (l # ls) =
     (case file_header l of
        None \<Rightarrow> parse_lines ls
      | Some f \<Rightarrow>
          (case collect_hunks f None [] ls of
             (hs, ls') \<Rightarrow>
               (if hs = [] then [] else [\<lparr>df_file = f, df_hunks = hs\<rparr>]) @ parse_lines ls'))"
  by pat_completeness auto
termination
  by (relation "measure length") (auto dest!: sym [THEN collect_hunks_shorter])

definition parse_unified_diff :: "string \<Rightarrow> file_diff list" where
  "parse_unified_diff text = parse_lines (splitlines text)"

definition changed_files :: "string \<Rightarrow> string list" where
  "changed_files text = uniq (List.map_filter file_header (splitlines text))"

subsection \<open>Lines of a side and anchors\<close>

datatype side = LeftSide | RightSide

type_synonym side_lines = "int list \<times> int list"

definition hunk_lines :: "side \<Rightarrow> diff_hunk \<Rightarrow> int list" where
  "hunk_lines d h =
     (case d of RightSide \<Rightarrow> [dh_new_start h..dh_new_end h] | LeftSide \<Rightarrow> [dh_old_start h..dh_old_end h])"

definition add_lines :: "(string, side_lines) dict \<Rightarrow> file_diff \<Rightarrow> (string, side_lines) dict" where
  "add_lines out fd =
     (case dict_get out (df_file fd) ([], []) of
        (right, left) \<Rightarrow>
          dict_set (df_file fd)
            (right @ concat (map (hunk_lines RightSide) (df_hunks fd)),
             left @ concat (map (hunk_lines LeftSide) (df_hunks fd))) out)"

definition compute_diff_line_set :: "string \<Rightarrow> (string, side_lines) dict" where
  "compute_diff_line_set text = foldl add_lines [] (parse_unified_diff text)"

definition lines_of_side :: "side \<Rightarrow> side_lines \<Rightarrow> int list" where
  "lines_of_side d s = (case d of RightSide \<Rightarrow> fst s | LeftSide \<Rightarrow> snd s)"

definition is_range_in_diff ::
  "(string, side_lines) dict \<Rightarrow> string \<Rightarrow> int option \<Rightarrow> int option \<Rightarrow> side \<Rightarrow> bool" where
  "is_range_in_diff line_set f first final d =
     (case (first, final) of
        (None, None) \<Rightarrow> True
      | (Some a, Some b) \<Rightarrow>
          (case map_of line_set f of
             None \<Rightarrow> False
           | Some s \<Rightarrow>
               lines_of_side d s \<noteq> [] \<and> list_all (\<lambda>l. l \<in> set (lines_of_side d s)) [a..b])
      | _ \<Rightarrow> False)"

fun overlapping :: "int \<Rightarrow> int \<Rightarrow> diff_hunk list \<Rightarrow> string option" where
  "overlapping a b [] = None"
| "overlapping a b (h # hs) =
     (if dh_new_start h \<le> b \<and> a \<le> dh_new_end h then Some (dh_body h) else overlapping a b hs)"

definition extract_diff_hunk :: "string \<Rightarrow> string \<Rightarrow> int option \<Rightarrow> int option \<Rightarrow> string option" where
  "extract_diff_hunk text f first final =
     (case filter (\<lambda>fd. df_file fd = f) (parse_unified_diff text) of
        [] \<Rightarrow> None
      | fd # fds \<Rightarrow>
          (case df_hunks fd of
             [] \<Rightarrow> None
           | h # hs \<Rightarrow>
               (case (first, final) of
                  (Some a, Some b) \<Rightarrow> overlapping a b (h # hs)
                | _ \<Rightarrow> Some (dh_body h))))"

subsection \<open>The range of a review and its file in the sandbox\<close>

definition is_hex_c :: "char \<Rightarrow> bool" where
  "is_hex_c c =
     (is_digit_c c \<or> 65 \<le> ord_c c \<and> ord_c c \<le> 70 \<or> 97 \<le> ord_c c \<and> ord_c c \<le> 102)"

definition valid_sha :: "string \<Rightarrow> bool" where
  "valid_sha s = (7 \<le> length s \<and> length s \<le> 64 \<and> list_all is_hex_c s)"

definition review_diff_range ::
  "string \<Rightarrow> string \<Rightarrow> string \<Rightarrow> bool \<Rightarrow> (string \<times> string \<times> bool) result" where
  "review_diff_range base head last_reviewed re_review =
     (let b = (if re_review \<and> last_reviewed \<noteq> [] then last_reviewed else base)
      in if \<not> valid_sha b \<or> \<not> valid_sha head
         then Inl (value_error ''review diff requires valid Git commit SHAs'')
         else Inr (py_lower b, py_lower head, \<not> re_review))"

definition range_operator :: "bool \<Rightarrow> string" where
  "range_operator merge_base = (if merge_base then ''...'' else ''..'')"

definition review_diff_path ::
  "(string \<Rightarrow> string) \<Rightarrow> string \<Rightarrow> string \<Rightarrow> string \<Rightarrow> bool \<Rightarrow> string" where
  "review_diff_path sha256 work_dir base head merge_base =
     rev (dropWhile (\<lambda>c. c = CHR ''/'') (rev work_dir)) @ ''/review-diff-'' @
     take 16 (sha256 (base @ range_operator merge_base @ head)) @ ''.patch''"

record 'w review_box =
  rb_download :: "string \<Rightarrow> ('w, string option) action"
  rb_upload :: "string \<Rightarrow> string \<Rightarrow> ('w, string option) action"
  rb_execute :: "string \<Rightarrow> ('w, int option \<times> string) action"

definition diff_shell_command :: "string \<Rightarrow> string \<Rightarrow> string \<Rightarrow> bool \<Rightarrow> string" where
  "diff_shell_command work_dir base head merge_base =
     ''cd '' @ work_dir @ '' && git diff --no-color '' @ base @ range_operator merge_base @ head"

definition compute_diff_in_sandbox ::
  "'w review_box \<Rightarrow> string \<Rightarrow> string \<Rightarrow> string \<Rightarrow> bool \<Rightarrow> ('w, string) action" where
  "compute_diff_in_sandbox box work_dir base head merge_base =
     and_then (rb_execute box (diff_shell_command work_dir base head merge_base))
       (\<lambda>(code, out) w.
          (if code \<noteq> None \<and> code \<noteq> Some 0
           then Inl (Raised ''RuntimeError'' (''git diff failed (exit '' @ show_int (the code) @ '') for '' @
                  base @ range_operator merge_base @ head @ '' in '' @ work_dir @ ''. Output:'' @
                  [newline] @ out))
           else Inr out, w))"

record materialized =
  mz_path :: string
  mz_text :: string
  mz_base :: string
  mz_head :: string
  mz_merge_base :: bool
  mz_cached :: bool

definition upload_diff ::
  "'w review_box \<Rightarrow> string \<Rightarrow> string \<Rightarrow> string \<Rightarrow> bool \<Rightarrow> string \<Rightarrow> ('w, materialized) action" where
  "upload_diff box path base head merge_base text =
     and_then (rb_upload box path text)
       (\<lambda>err w.
          (case err of
             Some (c # cs) \<Rightarrow> Inl (Raised ''RuntimeError'' (''failed to materialize review diff: '' @ c # cs))
           | _ \<Rightarrow> Inr \<lparr>mz_path = path, mz_text = text, mz_base = base, mz_head = head,
                       mz_merge_base = merge_base, mz_cached = False\<rparr>, w))"

definition materialize_review_diff ::
  "(string \<Rightarrow> string) \<Rightarrow> 'w review_box \<Rightarrow> string \<Rightarrow> string \<Rightarrow> string \<Rightarrow> bool \<Rightarrow> string option
   \<Rightarrow> ('w, materialized) action" where
  "materialize_review_diff sha256 box work_dir base head merge_base given =
     (let path = review_diff_path sha256 work_dir base head merge_base
      in case given of
           Some text \<Rightarrow> upload_diff box path base head merge_base text
         | None \<Rightarrow>
             and_then (rb_download box path)
               (\<lambda>cached. case cached of
                  Some text \<Rightarrow>
                    (\<lambda>w. (Inr \<lparr>mz_path = path, mz_text = text, mz_base = base, mz_head = head,
                               mz_merge_base = merge_base, mz_cached = True\<rparr>, w))
                | None \<Rightarrow>
                    and_then (compute_diff_in_sandbox box work_dir base head merge_base)
                      (upload_diff box path base head merge_base)))"

subsection \<open>Printing and parsing\<close>

text \<open>
  The printer is the reference: a file is its header and the lines of its hunks. A printable file has
  a path without \<open>" b/"\<close>, at least one hunk, and hunks whose first line is a header that gives their
  ranges and whose other lines are no headers.
\<close>

definition plain_path :: "string \<Rightarrow> bool" where
  "plain_path f = (f \<noteq> [] \<and> \<not> contains '' b/'' f)"

definition body_lines :: "diff_hunk \<Rightarrow> string list" where
  "body_lines h = split_on newline (dh_body h)"

definition no_header :: "string \<Rightarrow> bool" where
  "no_header l = (file_header l = None \<and> hunk_header l = None)"

definition hunk_ok :: "string \<Rightarrow> diff_hunk \<Rightarrow> bool" where
  "hunk_ok f h =
     (dh_file h = f \<and>
      hunk_header (hd (body_lines h)) =
        Some (dh_old_start h, dh_old_end h, dh_new_start h, dh_new_end h) \<and>
      list_all no_header (tl (body_lines h)))"

definition file_ok :: "file_diff \<Rightarrow> bool" where
  "file_ok fd = (plain_path (df_file fd) \<and> df_hunks fd \<noteq> [] \<and> list_all (hunk_ok (df_file fd)) (df_hunks fd))"

definition file_line :: "string \<Rightarrow> string" where
  "file_line f = ''diff --git a/'' @ f @ '' b/'' @ f"

definition render_file :: "file_diff \<Rightarrow> string list" where
  "render_file fd = file_line (df_file fd) # concat (map body_lines (df_hunks fd))"

definition text_of_lines :: "string list \<Rightarrow> string" where
  "text_of_lines ls = concat (map (\<lambda>l. l @ [newline]) ls)"

definition render_diff :: "file_diff list \<Rightarrow> string" where
  "render_diff fds = text_of_lines (concat (map render_file fds))"

definition unbroken :: "string \<Rightarrow> bool" where
  "unbroken l = list_all (\<lambda>c. \<not> line_break c) l"

lemma header_path_split:
  assumes "u \<noteq> []" "\<not> contains '' b/'' u" "v \<noteq> []"
  shows "header_path (u @ '' b/'' @ v) = Some v"
  using assms
proof (induction u)
  case (Cons c u)
  show ?case
  proof (cases u)
    case Nil
    with Cons.prems show ?thesis by (simp add: starts_with_def)
  next
    case (Cons d w)
    have "\<not> contains '' b/'' u" using Cons.prems(2) by simp
    with Cons.IH Cons Cons.prems have "header_path (u @ '' b/'' @ v) = Some v" by simp
    moreover have "\<not> starts_with '' b/'' (u @ '' b/'' @ v)"
    proof
      assume s: "starts_with '' b/'' (u @ '' b/'' @ v)"
      show False
      proof (cases "3 \<le> length u")
        case True
        with s have "starts_with '' b/'' u" by (simp add: starts_with_def)
        then show False using \<open>\<not> contains '' b/'' u\<close> starts_with_contains by blast
      next
        case False
        then consider x where "u = [x]" | x y where "u = [x, y]"
          using Cons by (cases w; cases "tl w") auto
        then show False using s by cases (simp_all add: starts_with_def)
      qed
    qed
    ultimately show ?thesis by simp
  qed
qed simp

lemma file_header_line: "plain_path f \<Longrightarrow> file_header (file_line f) = Some f"
  using header_path_split [of f f] by (simp add: file_header_def file_line_def plain_path_def starts_with_def)

lemma hunk_no_file: "hunk_header l = Some m \<Longrightarrow> file_header l = None"
  by (cases l) (auto simp: hunk_header_def file_header_def starts_with_def split: if_splits)

lemma collect_body:
  "list_all no_header ls \<Longrightarrow>
     collect_hunks f (Some m) cur (ls @ others) = collect_hunks f (Some m) (cur @ ls) others"
  by (induction ls arbitrary: cur) (simp_all add: no_header_def)

lemma body_lines_Cons: "body_lines h = hd (body_lines h) # tl (body_lines h)"
  by (simp add: body_lines_def)

lemma close_body:
  assumes "hunk_ok f h"
  shows "close_hunk f (Some (dh_old_start h, dh_old_end h, dh_new_start h, dh_new_end h)) (body_lines h) = [h]"
proof -
  have "join [newline] (body_lines h) = dh_body h" by (simp add: body_lines_def join_split_on)
  with assms show ?thesis by (simp add: close_hunk_def hunk_ok_def body_lines_def)
qed

lemma collect_hunk:
  assumes "hunk_ok f h" "collect_hunks f (Some (dh_old_start h, dh_old_end h, dh_new_start h, dh_new_end h))
     (body_lines h) others = (hs, ls)"
  shows "collect_hunks f meta cur (body_lines h @ others) = (close_hunk f meta cur @ hs, ls)"
proof -
  let ?m = "(dh_old_start h, dh_old_end h, dh_new_start h, dh_new_end h)"
  obtain x xs where b: "body_lines h = x # xs" using body_lines_Cons by blast
  with assms(1) have x: "hunk_header x = Some ?m" "list_all no_header xs" by (simp_all add: hunk_ok_def)
  with b assms(2) collect_body [OF x(2), of f ?m "[x]" others] hunk_no_file [OF x(1)] show ?thesis by simp
qed

definition at_boundary :: "string list \<Rightarrow> bool" where
  "at_boundary ls = (case ls of [] \<Rightarrow> True | l # _ \<Rightarrow> file_header l \<noteq> None)"

lemma collect_boundary: "at_boundary ls \<Longrightarrow> collect_hunks f meta cur ls = (close_hunk f meta cur, ls)"
  by (cases ls) (auto simp: at_boundary_def)

lemma collect_rendered:
  "list_all (hunk_ok f) hs \<Longrightarrow> at_boundary others \<Longrightarrow>
     collect_hunks f meta cur (concat (map body_lines hs) @ others) = (close_hunk f meta cur @ hs, others)"
proof (induction hs arbitrary: meta cur)
  case Nil
  then show ?case by (simp add: collect_boundary)
next
  case (Cons h hs)
  let ?m = "Some (dh_old_start h, dh_old_end h, dh_new_start h, dh_new_end h)"
  have h: "hunk_ok f h" using Cons.prems by simp
  have "collect_hunks f ?m (body_lines h) (concat (map body_lines hs) @ others) = ([h] @ hs, others)"
    using Cons close_body [OF h] by simp
  from collect_hunk [OF h this] show ?case by simp
qed

lemma parse_rendered: "list_all file_ok fds \<Longrightarrow> parse_lines (concat (map render_file fds)) = fds"
proof (induction fds)
  case (Cons fd fds)
  have fd: "plain_path (df_file fd)" "df_hunks fd \<noteq> []" "list_all (hunk_ok (df_file fd)) (df_hunks fd)"
    using Cons.prems by (simp_all add: file_ok_def)
  have "at_boundary (concat (map render_file fds))"
    using Cons.prems by (cases fds) (auto simp: at_boundary_def render_file_def file_ok_def file_header_line)
  note collect_rendered [OF fd(3) this, of None "[]"]
  moreover have "concat (map render_file (fd # fds)) =
      file_line (df_file fd) # concat (map body_lines (df_hunks fd)) @ concat (map render_file fds)"
    by (simp add: render_file_def)
  moreover have "parse_lines (concat (map render_file fds)) = fds" using Cons by simp
  ultimately show ?case using fd(1,2) by (simp add: file_header_line close_hunk_def)
qed simp

lemma lines_from_unbroken: "unbroken l \<Longrightarrow> lines_from cur (l @ newline # others) = (cur @ l) # lines_from [] others"
  by (induction l arbitrary: cur) (simp_all add: unbroken_def line_break_def newline_def ord_c_def)

lemma splitlines_text: "list_all unbroken ls \<Longrightarrow> splitlines (text_of_lines ls) = ls"
  by (induction ls) (simp_all add: splitlines_def text_of_lines_def lines_from_unbroken)

text \<open>
  C32. Parsing gives back what was printed. A diff printed from file records with a plain path, at least
  one hunk, and hunks that open with the header of their ranges and hold no other header, parses to
  exactly these records: no hunk is lost, merged or moved to another file.
\<close>

theorem diff_round_trip:
  assumes "list_all file_ok fds" "list_all unbroken (concat (map render_file fds))"
  shows "parse_unified_diff (render_diff fds) = fds"
  using assms by (simp add: parse_unified_diff_def render_diff_def splitlines_text parse_rendered)

definition small_diff :: "file_diff list" where
  "small_diff =
     [\<lparr>df_file = ''a.py'', df_hunks =
        [\<lparr>dh_file = ''a.py'', dh_new_start = 3, dh_new_end = 4, dh_old_start = 3, dh_old_end = 3,
          dh_body = ''@@ -3 +3,2 @@'' @ [newline] @ '' x'' @ [newline] @ ''+y''\<rparr>]\<rparr>]"

theorem diff_round_trip_witness: "parse_unified_diff (render_diff small_diff) = small_diff"
proof (rule diff_round_trip)
  show "list_all file_ok small_diff" by code_simp
  show "list_all unbroken (concat (map render_file small_diff))" by code_simp
qed

subsection \<open>Anchors\<close>

definition covers :: "file_diff list \<Rightarrow> string \<Rightarrow> side \<Rightarrow> int \<Rightarrow> bool" where
  "covers fds f d l = list_ex (\<lambda>fd. df_file fd = f \<and> list_ex (\<lambda>h. l \<in> set (hunk_lines d h)) (df_hunks fd)) fds"

lemma dict_get_map_of: "dict_get d k v = (case map_of d k of None \<Rightarrow> v | Some w \<Rightarrow> w)"
  by (simp add: dict_get_def)

lemma add_lines_side:
  "set (lines_of_side d (dict_get (add_lines out fd) f ([], []))) =
     set (lines_of_side d (dict_get out f ([], []))) \<union>
     (if df_file fd = f then (\<Union>h \<in> set (df_hunks fd). set (hunk_lines d h)) else {})"
  by (cases d; cases "dict_get out (df_file fd) ([], [])")
    (auto simp: add_lines_def lines_of_side_def dict_get_set)

lemma line_set_side:
  "set (lines_of_side d (dict_get (foldl add_lines out fds) f ([], []))) =
     set (lines_of_side d (dict_get out f ([], []))) \<union> {l. covers fds f d l}"
proof (induction fds arbitrary: out)
  case (Cons fd fds)
  show ?case
    unfolding foldl_Cons Cons add_lines_side by (auto simp: covers_def list_ex_iff) blast+
qed (auto simp: covers_def)

lemma line_set_covers:
  "l \<in> set (lines_of_side d (dict_get (compute_diff_line_set text) f ([], []))) \<longleftrightarrow>
     covers (parse_unified_diff text) f d l"
  by (simp add: compute_diff_line_set_def line_set_side) (simp add: lines_of_side_def split: side.split)

lemma range_in_diff_iff:
  assumes "a \<le> b"
  shows "is_range_in_diff (compute_diff_line_set text) f (Some a) (Some b) d \<longleftrightarrow>
    (\<forall>l. a \<le> l \<and> l \<le> b \<longrightarrow> covers (parse_unified_diff text) f d l)"
proof -
  let ?s = "lines_of_side d (dict_get (compute_diff_line_set text) f ([], []))"
  have "is_range_in_diff (compute_diff_line_set text) f (Some a) (Some b) d \<longleftrightarrow>
      (\<forall>l. a \<le> l \<and> l \<le> b \<longrightarrow> l \<in> set ?s)"
  proof (cases "map_of (compute_diff_line_set text) f")
    case None
    with assms show ?thesis by (auto simp: is_range_in_diff_def dict_get_def lines_of_side_def split: side.splits)
  next
    case (Some s)
    moreover have "(\<forall>l. a \<le> l \<and> l \<le> b \<longrightarrow> l \<in> set (lines_of_side d s)) \<Longrightarrow> lines_of_side d s \<noteq> []"
      using assms by fastforce
    ultimately show ?thesis by (auto simp: is_range_in_diff_def dict_get_def list_all_iff)
  qed
  then show ?thesis by (simp add: line_set_covers)
qed

lemma overlapping_hit:
  "h \<in> set hs \<Longrightarrow> dh_new_start h \<le> b \<Longrightarrow> a \<le> dh_new_end h \<Longrightarrow>
     \<exists>k \<in> set hs. overlapping a b hs = Some (dh_body k) \<and> dh_new_start k \<le> b \<and> a \<le> dh_new_end k"
  by (induction hs) auto

lemma distinct_filter_file:
  "distinct (map df_file fds) \<Longrightarrow> fd \<in> set fds \<Longrightarrow> filter (\<lambda>x. df_file x = df_file fd) fds = [fd]"
proof (induction fds)
  case (Cons x fds)
  show ?case
  proof (cases "x = fd")
    case True
    with Cons.prems(1) have "filter (\<lambda>x. df_file x = df_file fd) fds = []"
      by (auto simp: filter_empty_conv image_iff)
    with True show ?thesis by simp
  next
    case False
    with Cons have "df_file x \<noteq> df_file fd" by (auto simp: image_iff)
    with Cons False show ?thesis by simp
  qed
qed simp

text \<open>
  An accepted anchor lies in the diff. A range of lines of one side is accepted exactly when every
  line of it is covered by a hunk of that file on that side; and for an accepted range of the new side,
  in a diff that lists the file once, the hunk that is kept with the finding exists and overlaps the
  range.
\<close>

theorem accepted_anchor_lies_in_diff:
  assumes "a \<le> b" "distinct (map df_file (parse_unified_diff text))"
  shows "(is_range_in_diff (compute_diff_line_set text) f (Some a) (Some b) d \<longleftrightarrow>
      (\<forall>l. a \<le> l \<and> l \<le> b \<longrightarrow> covers (parse_unified_diff text) f d l)) \<and>
    (is_range_in_diff (compute_diff_line_set text) f (Some a) (Some b) RightSide \<longrightarrow>
      (\<exists>fd \<in> set (parse_unified_diff text). df_file fd = f \<and>
         (\<exists>h \<in> set (df_hunks fd). extract_diff_hunk text f (Some a) (Some b) = Some (dh_body h) \<and>
            dh_new_start h \<le> b \<and> a \<le> dh_new_end h)))"
proof (intro conjI impI)
  show "is_range_in_diff (compute_diff_line_set text) f (Some a) (Some b) d \<longleftrightarrow>
      (\<forall>l. a \<le> l \<and> l \<le> b \<longrightarrow> covers (parse_unified_diff text) f d l)"
    using range_in_diff_iff [OF assms(1)] .
  assume "is_range_in_diff (compute_diff_line_set text) f (Some a) (Some b) RightSide"
  with assms(1) have "covers (parse_unified_diff text) f RightSide a" by (simp add: range_in_diff_iff)
  then obtain fd h where h: "fd \<in> set (parse_unified_diff text)" "df_file fd = f" "h \<in> set (df_hunks fd)"
    "dh_new_start h \<le> a" "a \<le> dh_new_end h"
    by (auto simp: covers_def list_ex_iff hunk_lines_def)
  with assms(1) overlapping_hit [of h "df_hunks fd" b a] obtain k where
    k: "k \<in> set (df_hunks fd)" "overlapping a b (df_hunks fd) = Some (dh_body k)"
      "dh_new_start k \<le> b" "a \<le> dh_new_end k" by auto
  have "filter (\<lambda>x. df_file x = f) (parse_unified_diff text) = [fd]"
    using distinct_filter_file [OF assms(2) h(1)] h(2) by simp
  with k have "extract_diff_hunk text f (Some a) (Some b) = Some (dh_body k)"
    by (cases "df_hunks fd") (simp_all add: extract_diff_hunk_def)
  with h k show "\<exists>fd \<in> set (parse_unified_diff text). df_file fd = f \<and>
         (\<exists>h \<in> set (df_hunks fd). extract_diff_hunk text f (Some a) (Some b) = Some (dh_body h) \<and>
            dh_new_start h \<le> b \<and> a \<le> dh_new_end h)" by blast
qed

theorem accepted_anchor_lies_in_diff_witness:
  "covers small_diff ''a.py'' RightSide 4 \<and>
   is_range_in_diff (compute_diff_line_set (render_diff small_diff)) ''a.py'' (Some 4) (Some 4) RightSide"
proof -
  have p: "parse_unified_diff (render_diff small_diff) = small_diff" by code_simp
  have d: "distinct (map df_file (parse_unified_diff (render_diff small_diff)))"
    unfolding p by (simp add: small_diff_def)
  have c: "covers small_diff ''a.py'' RightSide 4" by code_simp
  have "\<forall>l. 4 \<le> l \<and> l \<le> (4::int) \<longrightarrow> covers (parse_unified_diff (render_diff small_diff)) ''a.py'' RightSide l"
    using c p by (metis order_antisym)
  with accepted_anchor_lies_in_diff [OF order_refl d, where a = 4 and f = "''a.py''" and d = RightSide] c show ?thesis by blast
qed

text \<open>
  The two ways in which the check says more than the diff: a range that is turned around is accepted
  for any file with lines on that side, and a hunk that only adds lines covers the old line before it.
  The hunk of a finding on the old side is looked up by the lines of the new side.
\<close>

lemma inverted_range_accepted:
  "is_range_in_diff (compute_diff_line_set (render_diff small_diff)) ''a.py'' (Some 90) (Some 80) RightSide"
  by code_simp

definition adding_diff :: string where
  "adding_diff =
     text_of_lines [''diff --git a/a.py b/a.py'', ''@@ -10,0 +11,2 @@'', ''+x'', ''+y'']"

lemma untouched_line_accepted:
  "is_range_in_diff (compute_diff_line_set adding_diff) ''a.py'' (Some 10) (Some 10) LeftSide"
  "extract_diff_hunk adding_diff ''a.py'' (Some 10) (Some 10) = None"
  by code_simp+

subsection \<open>The range of a review is safe\<close>

definition commit_id :: "string \<Rightarrow> bool" where
  "commit_id s = (valid_sha s \<and> py_lower s = s)"

lemma lower_hex: "is_hex_c c \<Longrightarrow> is_hex_c (lower_c c)"
  by (auto simp: is_hex_c_def is_digit_c_def lower_c_def is_upper_c_def Let_def ord_c_def)

lemma commit_id_lower: "valid_sha s \<Longrightarrow> commit_id (py_lower s)"
  using lower_hex by (auto simp: commit_id_def valid_sha_def py_lower_def list_all_iff)

text \<open>
  The refs of a review command are commit ids. A range that is resolved has two refs of 7 to 64
  hexadecimal digits in lower case, so the shell command of the sandbox holds nothing of the model's
  or the user's text in their place; a first review takes the merge base and a re-review the commit
  that was reviewed last. Anything else than commit ids is refused.
\<close>

theorem review_refs_are_commit_ids:
  "case review_diff_range base head last_reviewed re_review of
     Inl e \<Rightarrow> \<not> (valid_sha (if re_review \<and> last_reviewed \<noteq> [] then last_reviewed else base) \<and> valid_sha head)
   | Inr (b, h, merge_base) \<Rightarrow>
       commit_id b \<and> commit_id h \<and> merge_base = (\<not> re_review) \<and> h = py_lower head \<and>
       b = py_lower (if re_review \<and> last_reviewed \<noteq> [] then last_reviewed else base)"
  by (simp add: review_diff_range_def Let_def commit_id_lower)

subsection \<open>Writing the diff is idempotent\<close>

text \<open>
  A sandbox that keeps its files: what was uploaded without an error is what is downloaded next, and a
  download that finds a text finds it again.
\<close>

definition keeps_files :: "'w review_box \<Rightarrow> bool" where
  "keeps_files box \<longleftrightarrow>
     (\<forall>path text w w' e. rb_upload box path text w = (Inr e, w') \<and> e \<in> {None, Some []} \<longrightarrow>
        rb_download box path w' = (Inr (Some text), w')) \<and>
     (\<forall>path text w w'. rb_download box path w = (Inr (Some text), w') \<longrightarrow>
        rb_download box path w' = (Inr (Some text), w'))"

lemma upload_diff_result:
  assumes "upload_diff box path base head merge_base text w = (Inr m, w')"
  shows "mz_path m = path \<and> mz_text m = text \<and> (\<exists>e. rb_upload box path text w = (Inr e, w') \<and> e \<in> {None, Some []})"
  using assms by (auto simp: upload_diff_def elim!: and_then_cases split: option.splits list.splits)

lemma materialize_again:
  assumes "materialize_review_diff sha256 box work_dir base head merge_base given w = (Inr m, w1)"
    and "rb_download box (mz_path m) w1 = (Inr (Some (mz_text m)), w1)"
  shows "materialize_review_diff sha256 box work_dir base head merge_base None w1 =
    (Inr (m\<lparr>mz_base := base, mz_head := head, mz_merge_base := merge_base, mz_cached := True\<rparr>), w1)"
proof -
  have "mz_path m = review_diff_path sha256 work_dir base head merge_base"
    using assms(1) by (auto simp: materialize_review_diff_def Let_def elim!: and_then_cases
        dest!: upload_diff_result split: option.splits)
  with assms(2) show ?thesis by (cases m) (simp add: materialize_review_diff_def and_then_def Let_def)
qed

lemma materialized_is_kept:
  assumes "keeps_files box" "materialize_review_diff sha256 box work_dir base head merge_base given w = (Inr m, w1)"
  shows "rb_download box (mz_path m) w1 = (Inr (Some (mz_text m)), w1)"
proof -
  have up: "rb_download box (mz_path m) w1 = (Inr (Some (mz_text m)), w1)"
    if "upload_diff box path base head merge_base t v = (Inr m, w1)" for path t v
    using upload_diff_result [OF that] assms(1) unfolding keeps_files_def by metis
  let ?path = "review_diff_path sha256 work_dir base head merge_base"
  show ?thesis
  proof (cases given)
    case (Some t)
    with assms(2) show ?thesis by (auto simp: materialize_review_diff_def Let_def intro: up)
  next
    case None
    with assms(2) obtain r v where r: "rb_download box ?path w = (Inr r, v)"
      by (auto simp: materialize_review_diff_def Let_def elim: and_then_cases)
    show ?thesis
    proof (cases r)
      case None
      with \<open>given = None\<close> r assms(2) show ?thesis
        by (auto simp: materialize_review_diff_def Let_def and_then_def split: prod.splits sum.splits intro: up)
    next
      case (Some t)
      with \<open>given = None\<close> r assms(2)
      have "v = w1" "mz_path m = ?path" "mz_text m = t"
        by (auto simp: materialize_review_diff_def Let_def and_then_def)
      moreover from assms(1) r Some have "rb_download box ?path v = (Inr (Some t), v)"
        unfolding keeps_files_def by blast
      ultimately show ?thesis by simp
    qed
  qed
qed

text \<open>
  Writing a review diff is idempotent. On a sandbox that keeps its files, a diff that was
  materialized, freshly computed or handed over, is found by the next request for the same range: the
  request runs no command, writes nothing and returns the same text from the same path.
\<close>

theorem review_diff_is_written_once:
  assumes "keeps_files box"
    and "materialize_review_diff sha256 box work_dir base head merge_base given w = (Inr m, w1)"
  shows "materialize_review_diff sha256 box work_dir base head merge_base None w1 =
    (Inr (m\<lparr>mz_base := base, mz_head := head, mz_merge_base := merge_base, mz_cached := True\<rparr>), w1)"
  by (rule materialize_again [OF assms(2) materialized_is_kept [OF assms]])

definition small_box :: "(string, string) dict review_box" where
  "small_box =
     \<lparr>rb_download = (\<lambda>path w. (Inr (map_of w path), w)),
      rb_upload = (\<lambda>path text w. (Inr None, dict_set path text w)),
      rb_execute = (\<lambda>cmd w. (Inr (Some 0, ''diff''), w))\<rparr>"

theorem review_diff_is_written_once_witness:
  "snd (materialize_review_diff (\<lambda>s. s) small_box ''/work/'' ''aaaaaaa'' ''bbbbbbb'' False None []) =
     [(''/work/review-diff-aaaaaaa..bbbbbbb.patch'', ''diff'')] \<and>
   materialize_review_diff (\<lambda>s. s) small_box ''/work/'' ''aaaaaaa'' ''bbbbbbb'' False None
       [(''/work/review-diff-aaaaaaa..bbbbbbb.patch'', ''diff'')] =
     (Inr \<lparr>mz_path = ''/work/review-diff-aaaaaaa..bbbbbbb.patch'', mz_text = ''diff'', mz_base = ''aaaaaaa'',
          mz_head = ''bbbbbbb'', mz_merge_base = False, mz_cached = True\<rparr>,
      [(''/work/review-diff-aaaaaaa..bbbbbbb.patch'', ''diff'')])"
proof -
  have k: "keeps_files small_box" by (auto simp: keeps_files_def small_box_def)
  have m: "materialize_review_diff (\<lambda>s. s) small_box ''/work/'' ''aaaaaaa'' ''bbbbbbb'' False None [] =
      (Inr \<lparr>mz_path = ''/work/review-diff-aaaaaaa..bbbbbbb.patch'', mz_text = ''diff'', mz_base = ''aaaaaaa'',
          mz_head = ''bbbbbbb'', mz_merge_base = False, mz_cached = False\<rparr>,
       [(''/work/review-diff-aaaaaaa..bbbbbbb.patch'', ''diff'')])" by code_simp
  from review_diff_is_written_once [OF k m] m show ?thesis by simp
qed

end
