(* ===== verification/Json.thy ===== *)
theory Json
  imports Memory_Store
begin

section \<open>JSON values and the text operations of the review and guard components\<close>

text \<open>
  The metadata of a thread, the configuration of a run and the messages of the agents are JSON values,
  and the code reads them defensively: \<open>d.get(k)\<close> with \<open>isinstance\<close> checks. This theory has the values
  and the readings: \<open>jget\<close> is \<open>d.get(k)\<close> on a value that was checked to be a dictionary, \<open>as_str\<close>,
  \<open>as_int\<close>, \<open>as_list\<close> and \<open>as_dict\<close> are the \<open>isinstance\<close> checks (a Boolean is an integer in Python),
  \<open>truthy\<close> is the truth value. It also has the string operations these components add to those of
  the prelude: \<open>str.split\<close> on white space, \<open>" ".join(s.split())\<close>, \<open>str.casefold\<close> and \<open>str.upper\<close> on ASCII
  names. U+03BC, to which \<open>casefold\<close> sends the micro sign, is outside the alphabet; no other character of
  the alphabet goes there, so the micro sign stands for it.
\<close>

subsection \<open>Values\<close>

datatype json =
    JNull
  | JBool bool
  | JInt int
  | JFloat rat
  | JStr string
  | JList "json list"
  | JDict "(string \<times> json) list"

type_synonym fields = "(string, json) dict"

definition field :: "fields \<Rightarrow> string \<Rightarrow> json" where
  "field d k = dict_get d k JNull"

definition has_field :: "fields \<Rightarrow> string \<Rightarrow> bool" where
  "has_field d k = (map_of d k \<noteq> None)"

fun jget :: "json \<Rightarrow> string \<Rightarrow> json" where
  "jget (JDict d) k = field d k"
| "jget v k = JNull"

fun as_str :: "json \<Rightarrow> string option" where
  "as_str (JStr s) = Some s"
| "as_str v = None"

fun as_int :: "json \<Rightarrow> int option" where
  "as_int (JInt n) = Some n"
| "as_int (JBool b) = Some (if b then 1 else 0)"
| "as_int v = None"

fun as_list :: "json \<Rightarrow> json list option" where
  "as_list (JList xs) = Some xs"
| "as_list v = None"

fun as_dict :: "json \<Rightarrow> fields option" where
  "as_dict (JDict d) = Some d"
| "as_dict v = None"

fun truthy :: "json \<Rightarrow> bool" where
  "truthy JNull = False"
| "truthy (JBool b) = b"
| "truthy (JInt n) = (n \<noteq> 0)"
| "truthy (JFloat x) = (x \<noteq> 0)"
| "truthy (JStr s) = (s \<noteq> [])"
| "truthy (JList xs) = (xs \<noteq> [])"
| "truthy (JDict d) = (d \<noteq> [])"

definition nonempty_str :: "json \<Rightarrow> string option" where
  "nonempty_str v = (case as_str v of Some (c # cs) \<Rightarrow> Some (c # cs) | _ \<Rightarrow> None)"

definition str_or :: "string \<Rightarrow> json \<Rightarrow> string" where
  "str_or s v = (case as_str v of Some t \<Rightarrow> t | None \<Rightarrow> s)"

definition opt_str :: "string option \<Rightarrow> json" where
  "opt_str v = (case v of None \<Rightarrow> JNull | Some s \<Rightarrow> JStr s)"

definition opt_int :: "int option \<Rightarrow> json" where
  "opt_int v = (case v of None \<Rightarrow> JNull | Some n \<Rightarrow> JInt n)"

definition merge_fields :: "fields \<Rightarrow> fields \<Rightarrow> fields" where
  "merge_fields d updates = foldl (\<lambda>d (k, v). dict_set k v d) d updates"

lemma field_set [simp]: "field (dict_set k v d) k' = (if k' = k then v else field d k')"
  by (simp add: field_def dict_get_set)

lemma has_field_set [simp]: "has_field (dict_set k v d) k' \<longleftrightarrow> k' = k \<or> has_field d k'"
  by (simp add: has_field_def)

lemma merge_fields_Nil [simp]: "merge_fields d [] = d"
  by (simp add: merge_fields_def)

lemma merge_fields_Cons [simp]: "merge_fields d ((k, v) # us) = merge_fields (dict_set k v d) us"
  by (simp add: merge_fields_def)

lemma field_merge_other: "k \<notin> set (dict_keys us) \<Longrightarrow> field (merge_fields d us) k = field d k"
  by (induction us arbitrary: d) (auto simp: dict_keys_def)

lemma field_merge: "dict_ok us \<Longrightarrow> k \<in> set (dict_keys us) \<Longrightarrow> field (merge_fields d us) k = field us k"
proof (induction us arbitrary: d)
  case (Cons u us)
  obtain a v where u: "u = (a, v)" by (cases u)
  show ?case
  proof (cases "k = a")
    case True
    with u Cons.prems(1) have "k \<notin> set (dict_keys us)" by (auto simp: dict_ok_def dict_keys_def)
    with u True show ?thesis by (simp add: field_merge_other) (simp add: field_def dict_get_def)
  next
    case False
    with u Cons show ?thesis by (auto simp: dict_ok_def dict_keys_def field_def dict_get_def)
  qed
qed (simp add: dict_keys_def)

subsection \<open>White space\<close>

fun words_from :: "string \<Rightarrow> string \<Rightarrow> string list" where
  "words_from cur [] = (if cur = [] then [] else [cur])"
| "words_from cur (c # cs) =
     (if is_space_c c then (if cur = [] then words_from [] cs else cur # words_from [] cs)
      else words_from (cur @ [c]) cs)"

definition words_of :: "string \<Rightarrow> string list" where
  "words_of s = words_from [] s"

definition squeeze :: "string \<Rightarrow> string" where
  "squeeze s = join '' '' (words_of s)"

definition casefold :: "string \<Rightarrow> string" where
  "casefold s = concat (map (\<lambda>c. if ord_c c = 223 then ''ss'' else [lower_c c]) s)"

lemma words_from_words:
  "list_all (\<lambda>c. \<not> is_space_c c) cur \<Longrightarrow> w \<in> set (words_from cur s) \<Longrightarrow>
     w \<noteq> [] \<and> list_all (\<lambda>c. \<not> is_space_c c) w"
proof (induction s arbitrary: cur)
  case (Cons c s)
  show ?case
  proof (cases "is_space_c c \<and> cur \<noteq> []")
    case True
    with Cons.prems(2) consider "w = cur" | "w \<in> set (words_from [] s)" by auto
    then show ?thesis using Cons.IH [of "[]"] Cons.prems(1) True by cases auto
  next
    case False
    show ?thesis
    proof (cases "is_space_c c")
      case True
      with False Cons.prems(2) have "w \<in> set (words_from [] s)" by simp
      with Cons.IH [of "[]"] show ?thesis by simp
    next
      case False
      with Cons.prems(2) have "w \<in> set (words_from (cur @ [c]) s)" by simp
      with Cons.IH [of "cur @ [c]"] Cons.prems(1) False show ?thesis by simp
    qed
  qed
qed (simp split: if_splits)

lemma words_of_words: "w \<in> set (words_of s) \<Longrightarrow> w \<noteq> [] \<and> list_all (\<lambda>c. \<not> is_space_c c) w"
  by (rule words_from_words) (auto simp: words_of_def)

lemma words_from_word:
  "list_all (\<lambda>c. \<not> is_space_c c) w \<Longrightarrow> words_from cur (w @ s) = words_from (cur @ w) s"
  by (induction w arbitrary: cur) simp_all

lemma space_is_space [simp]: "is_space_c CHR '' ''"
  by (simp add: is_space_c_def ord_c_def Let_def)

lemma words_of_join:
  "\<forall>w \<in> set ws. w \<noteq> [] \<and> list_all (\<lambda>c. \<not> is_space_c c) w \<Longrightarrow> words_of (join '' '' ws) = ws"
proof (induction ws rule: induct_list012)
  case (2 w)
  then show ?case using words_from_word [of w "[]" "[]"] by (simp add: words_of_def)
next
  case (3 v w ws)
  then show ?case using words_from_word [of v "[]" "CHR '' '' # join '' '' (w # ws)"]
    by (simp add: words_of_def)
qed (simp add: words_of_def)

lemma words_of_squeeze: "words_of (squeeze s) = words_of s"
  unfolding squeeze_def by (rule words_of_join) (use words_of_words in blast)

lemma squeeze_idem [simp]: "squeeze (squeeze s) = squeeze s"
  by (simp add: squeeze_def [of "squeeze s"] words_of_squeeze) (simp add: squeeze_def)

subsection \<open>Errors of a service\<close>

text \<open>
  A handler \<open>except Exception\<close> and a handler for one class of errors. An action that raised keeps the
  changes it made before.
\<close>

definition catch_all :: "('w, 'a) action \<Rightarrow> (exn \<Rightarrow> ('w, 'a) action) \<Rightarrow> ('w, 'a) action" where
  "catch_all m handler w = (case m w of (Inl e, w') \<Rightarrow> handler e w' | (Inr x, w') \<Rightarrow> (Inr x, w'))"

definition catch_class :: "string \<Rightarrow> ('w, 'a) action \<Rightarrow> (exn \<Rightarrow> ('w, 'a) action) \<Rightarrow> ('w, 'a) action" where
  "catch_class cls m handler w =
     (case m w of
        (Inl e, w') \<Rightarrow> (if exn_class e = cls then handler e w' else (Inl e, w'))
      | (Inr x, w') \<Rightarrow> (Inr x, w'))"

definition give :: "'a \<Rightarrow> ('w, 'a) action" where
  "give x w = (Inr x, w)"

definition fail :: "exn \<Rightarrow> ('w, 'a) action" where
  "fail e w = (Inl e, w)"

lemma give_then [simp]: "and_then (give x) k = k x"
  by (rule ext) (simp add: and_then_def give_def)

lemma fail_then [simp]: "and_then (fail e) k = fail e"
  by (rule ext) (simp add: and_then_def fail_def)

lemma and_then_assoc: "and_then (and_then m k) h = and_then m (\<lambda>x. and_then (k x) h)"
  by (rule ext) (simp add: and_then_def split: prod.split sum.split)

end
