(* ===== verification/Review_Groups.thy ===== *)
theory Review_Groups
  imports Review_Diff Json
begin

section \<open>Grouping the files of a pull request\<close>

text \<open>
  Models \<open>agent/review/groups.py\<close>: the prompt of the grouping pass with its budget of characters, the
  normalization of the model's answer into a partition of the changed files, and the background task
  that generates the groups once per diff and stores them on the thread. The structured-output model,
  SHA-256, the clock and the thread service are parameters. The wording of the prompt template is a
  parameter that gets the number of groups, the list of files and the diffs. The note on an omitted
  diff has a dash in the code and a hyphen here, as characters stop at 255.
\<close>

subsection \<open>The prompt\<close>

definition max_prompt_chars :: nat where
  "max_prompt_chars = 48000"

definition max_file_hunk_chars :: nat where
  "max_file_hunk_chars = 4000"

definition max_groups :: nat where
  "max_groups = 8"

definition diff_files :: "string \<Rightarrow> string list" where
  "diff_files diff_text = map df_file (parse_unified_diff diff_text)"

definition hunk_segment :: "diff_hunk \<Rightarrow> string" where
  "hunk_segment h =
     (let body = (if length (dh_body h) > max_file_hunk_chars
                  then take max_file_hunk_chars (dh_body h) @ [newline] @ ''... (truncated)''
                  else dh_body h)
      in ''```diff'' @ [newline] @ body @ [newline] @ ''```'')"

definition file_block :: "file_diff \<Rightarrow> string" where
  "file_block fd =
     ''### '' @ df_file fd @ [newline] @ join [newline] (map hunk_segment (df_hunks fd)) @ [newline]"

definition omitted_block :: "file_diff \<Rightarrow> string" where
  "omitted_block fd = ''### '' @ df_file fd @ [newline] @ ''(diff omitted - prompt budget reached)'' @ [newline]"

fun prompt_parts :: "nat \<Rightarrow> file_diff list \<Rightarrow> string list" where
  "prompt_parts budget [] = []"
| "prompt_parts budget (fd # fds) =
     (if budget < length (file_block fd) then omitted_block fd # prompt_parts budget fds
      else file_block fd # prompt_parts (budget - length (file_block fd)) fds)"

definition build_prompt :: "(nat \<Rightarrow> string \<Rightarrow> string \<Rightarrow> string) \<Rightarrow> string \<Rightarrow> string list \<Rightarrow> string" where
  "build_prompt template diff_text files =
     template max_groups (join [newline] (map (\<lambda>path. ''- '' @ path) files))
       (join [newline] (prompt_parts max_prompt_chars (parse_unified_diff diff_text)))"

subsection \<open>Normalizing the answer\<close>

record diff_group =
  dg_title :: string
  dg_summary :: string
  dg_files :: "string list"

fun pick :: "string list \<Rightarrow> string list \<Rightarrow> string list \<Rightarrow> string list \<times> string list" where
  "pick valid seen [] = ([], seen)"
| "pick valid seen (p # ps) =
     (if p \<in> set valid \<and> p \<notin> set seen
      then (case pick valid (p # seen) ps of (picked, seen') \<Rightarrow> (p # picked, seen'))
      else pick valid seen ps)"

fun normalize_from :: "nat \<Rightarrow> string list \<Rightarrow> string list \<Rightarrow> diff_group list \<Rightarrow> diff_group list" where
  "normalize_from free valid seen [] = []"
| "normalize_from free valid seen (g # gs) =
     (case pick valid seen (dg_files g) of
        (picked, seen') \<Rightarrow>
          (if strip (dg_title g) = [] \<or> picked = [] then normalize_from free valid seen' gs
           else \<lparr>dg_title = strip (dg_title g), dg_summary = strip (dg_summary g), dg_files = picked\<rparr> #
                (if free \<le> 1 then [] else normalize_from (free - 1) valid seen' gs)))"

definition normalize_groups :: "diff_group list \<Rightarrow> string list \<Rightarrow> diff_group list" where
  "normalize_groups answer files = normalize_from max_groups files [] answer"

subsection \<open>Generating and storing\<close>

text \<open>
  The model answers with the parsed structure or with a value of another type (\<open>None\<close>). The thread
  service reads the metadata of a thread and merges fields into it.
\<close>

record 'w group_service =
  gs_model :: "string \<Rightarrow> ('w, diff_group list option) action"
  gs_metadata :: "string \<Rightarrow> ('w, json) action"
  gs_store :: "string \<Rightarrow> fields \<Rightarrow> ('w, unit) action"
  gs_now :: "('w, string) action"

definition generate_diff_groups ::
  "(nat \<Rightarrow> string \<Rightarrow> string \<Rightarrow> string) \<Rightarrow> 'w group_service \<Rightarrow> string \<Rightarrow> ('w, diff_group list option) action" where
  "generate_diff_groups template svc diff_text =
     (let files = diff_files diff_text
      in if files = [] then give (Some [])
         else and_then
           (catch_all (gs_model svc (build_prompt template diff_text files)) (\<lambda>e. give None))
           (\<lambda>answer. give (map_option (\<lambda>gs. normalize_groups gs files) answer)))"

definition group_json :: "diff_group \<Rightarrow> json" where
  "group_json g =
     JDict [(''title'', JStr (dg_title g)), (''summary'', JStr (dg_summary g)),
       (''files'', JList (map JStr (dg_files g)))]"

definition groups_payload :: "string \<Rightarrow> string \<Rightarrow> string \<Rightarrow> diff_group list \<Rightarrow> json" where
  "groups_payload head_sha signature now groups =
     JDict [(''head_sha'', JStr head_sha), (''signature'', JStr signature), (''generated_at'', JStr now),
       (''groups'', JList (map group_json groups))]"

definition groups_current :: "string \<Rightarrow> json \<Rightarrow> bool" where
  "groups_current signature metadata =
     (case as_dict (jget metadata ''diff_groups'') of
        None \<Rightarrow> False
      | Some d \<Rightarrow>
          field d ''signature'' = JStr signature \<and>
          (case as_list (field d ''groups'') of None \<Rightarrow> False | Some gs \<Rightarrow> gs \<noteq> []))"

definition maybe_generate_and_store_diff_groups ::
  "(string \<Rightarrow> string) \<Rightarrow> (nat \<Rightarrow> string \<Rightarrow> string \<Rightarrow> string) \<Rightarrow> 'w group_service \<Rightarrow> string \<Rightarrow> string \<Rightarrow> string
   \<Rightarrow> ('w, unit) action" where
  "maybe_generate_and_store_diff_groups sha256 template svc thread_id head_sha diff_text =
     catch_all
       (if thread_id = [] \<or> diff_text = [] then give ()
        else and_then (gs_metadata svc thread_id)
          (\<lambda>metadata.
             if groups_current (sha256 diff_text) metadata then give ()
             else and_then (generate_diff_groups template svc diff_text)
               (\<lambda>groups. case groups of
                  None \<Rightarrow> give ()
                | Some gs \<Rightarrow>
                    and_then (gs_now svc)
                      (\<lambda>now. gs_store svc thread_id
                         [(''diff_groups'', groups_payload head_sha (sha256 diff_text) now gs)]))))
       (\<lambda>e. give ())"

subsection \<open>The prompt stays within its budget\<close>

lemma prompt_parts_budget:
  "\<exists>shown. length shown = length fds \<and>
     prompt_parts budget fds = map2 (\<lambda>fd s. if s then file_block fd else omitted_block fd) fds shown \<and>
     sum_list (map2 (\<lambda>fd s. if s then length (file_block fd) else 0) fds shown) \<le> budget"
proof (induction budget fds rule: prompt_parts.induct)
  case (2 budget fd fds)
  show ?case
  proof (cases "budget < length (file_block fd)")
    case True
    with 2 obtain shown where "length shown = length fds \<and>
      prompt_parts budget fds = map2 (\<lambda>fd s. if s then file_block fd else omitted_block fd) fds shown \<and>
      sum_list (map2 (\<lambda>fd s. if s then length (file_block fd) else 0) fds shown) \<le> budget" by blast
    with True show ?thesis by (intro exI [of _ "False # shown"]) simp
  next
    case False
    with 2 obtain shown where "length shown = length fds \<and>
      prompt_parts (budget - length (file_block fd)) fds =
        map2 (\<lambda>fd s. if s then file_block fd else omitted_block fd) fds shown \<and>
      sum_list (map2 (\<lambda>fd s. if s then length (file_block fd) else 0) fds shown) \<le>
        budget - length (file_block fd)" by blast
    with False show ?thesis by (intro exI [of _ "True # shown"]) (simp, linarith)
  qed
qed simp

subsection \<open>The groups partition the changed files\<close>

lemma pick_facts:
  "pick valid seen ps = (picked, seen') \<Longrightarrow>
     distinct picked \<and> set picked \<subseteq> set valid - set seen \<and> set seen' = set seen \<union> set picked \<and>
     set picked = (set ps \<inter> set valid) - set seen"
proof (induction ps arbitrary: seen picked)
  case (Cons p ps)
  show ?case
  proof (cases "p \<in> set valid \<and> p \<notin> set seen")
    case True
    with Cons.prems obtain q where q: "pick valid (p # seen) ps = (q, seen')" "picked = p # q"
      by (auto split: prod.splits)
    from Cons.IH [OF q(1)] q(2) True show ?thesis by auto
  next
    case False
    with Cons show ?thesis by auto
  qed
qed simp

definition group_ok :: "string list \<Rightarrow> diff_group \<Rightarrow> bool" where
  "group_ok files g = (dg_title g \<noteq> [] \<and> dg_files g \<noteq> [] \<and> set (dg_files g) \<subseteq> set files)"

lemma normalize_from_facts:
  assumes "0 < free"
  shows "length (normalize_from free files seen gs) \<le> free"
    and "list_all (group_ok files) (normalize_from free files seen gs)"
    and "distinct (concat (map dg_files (normalize_from free files seen gs))) \<and>
         set seen \<inter> set (concat (map dg_files (normalize_from free files seen gs))) = {}"
proof -
  have *: "length (normalize_from free files seen gs) \<le> free \<and>
      list_all (group_ok files) (normalize_from free files seen gs) \<and>
      distinct (concat (map dg_files (normalize_from free files seen gs))) \<and>
      set seen \<inter> set (concat (map dg_files (normalize_from free files seen gs))) = {}"
    using assms
  proof (induction gs arbitrary: free seen)
    case (Cons g gs)
    obtain picked seen' where p: "pick files seen (dg_files g) = (picked, seen')" by fastforce
    note f = pick_facts [OF p]
    show ?case
    proof (cases "strip (dg_title g) = [] \<or> picked = []")
      case True
      with Cons.IH [OF Cons.prems, of seen'] p f show ?thesis by auto
    next
      case False
      show ?thesis
      proof (cases "free \<le> 1")
        case True
        with False p f Cons.prems show ?thesis by (auto simp: group_ok_def)
      next
        case gt: False
        then have "0 < free - 1" by simp
        from Cons.IH [OF this, of seen'] False gt p f show ?thesis by (auto simp: group_ok_def)
      qed
    qed
  qed simp
  from * show "length (normalize_from free files seen gs) \<le> free"
    and "list_all (group_ok files) (normalize_from free files seen gs)"
    and "distinct (concat (map dg_files (normalize_from free files seen gs))) \<and>
         set seen \<inter> set (concat (map dg_files (normalize_from free files seen gs))) = {}" by blast+
qed

text \<open>
  Groups are a clean partition. Whatever the model answers, at most 8 groups are shown, each has a
  title and at least one file, only changed files are shown, and no file is shown twice.
\<close>

theorem groups_partition_files:
  "length (normalize_groups answer files) \<le> 8 \<and>
   list_all (group_ok files) (normalize_groups answer files) \<and>
   distinct (concat (map dg_files (normalize_groups answer files)))"
  using normalize_from_facts [of max_groups files "[]" answer] by (simp add: normalize_groups_def max_groups_def)

text \<open>
  The files of a group that is dropped for its empty title count as assigned, so a later group with a
  title loses them too.
\<close>

lemma untitled_group_consumes_files:
  "normalize_groups [\<lparr>dg_title = ''  '', dg_summary = [], dg_files = [''a.py'', ''b.py'']\<rparr>,
      \<lparr>dg_title = ''Feature'', dg_summary = [], dg_files = [''a.py'']\<rparr>] [''a.py'', ''b.py''] = []"
  by code_simp

subsection \<open>Grouping never disturbs a review\<close>

lemma catch_all_inr: "(\<And>e. handler e = give x) \<Longrightarrow> \<exists>y. fst (catch_all m handler w) = Inr y"
  by (auto simp: catch_all_def give_def split: prod.splits sum.splits)

text \<open>
  Grouping never breaks a review and is not repeated. The background task returns normally whatever
  the model, the thread service and the clock do; without a thread or a diff it touches nothing; and
  when the thread holds groups for this very diff it only reads the metadata.
\<close>

theorem grouping_never_breaks_a_review:
  "fst (maybe_generate_and_store_diff_groups sha256 template svc thread_id head_sha diff_text w) = Inr () \<and>
   maybe_generate_and_store_diff_groups sha256 template svc thread_id head_sha [] w = (Inr (), w) \<and>
   (thread_id \<noteq> [] \<and> gs_metadata svc thread_id w = (Inr metadata, w') \<and>
      groups_current (sha256 diff_text) metadata \<longrightarrow>
    snd (maybe_generate_and_store_diff_groups sha256 template svc thread_id head_sha diff_text w) \<in> {w, w'})"
proof (intro conjI impI)
  show "fst (maybe_generate_and_store_diff_groups sha256 template svc thread_id head_sha diff_text w) = Inr ()"
    by (simp add: maybe_generate_and_store_diff_groups_def catch_all_def give_def split: prod.split sum.split)
qed (auto simp: maybe_generate_and_store_diff_groups_def catch_all_def give_def and_then_def)

definition quiet_service :: "json group_service" where
  "quiet_service =
     \<lparr>gs_model = (\<lambda>prompt. fail (Raised ''TimeoutError'' [])), gs_metadata = (\<lambda>t w. (Inr w, w)),
      gs_store = (\<lambda>t extra w. (Inr (), JDict extra)), gs_now = give ''2026''\<rparr>"

theorem grouping_never_breaks_a_review_witness:
  "groups_current ''d'' (JDict [(''diff_groups'', groups_payload [] ''d'' [] [\<lparr>dg_title = ''t'', dg_summary = [], dg_files = []\<rparr>])]) \<and>
   snd (maybe_generate_and_store_diff_groups (\<lambda>s. s) (\<lambda>n s t. s) quiet_service ''r'' [] ''d''
      (JDict [(''diff_groups'', groups_payload [] ''d'' [] [\<lparr>dg_title = ''t'', dg_summary = [], dg_files = []\<rparr>])])) =
     JDict [(''diff_groups'', groups_payload [] ''d'' [] [\<lparr>dg_title = ''t'', dg_summary = [], dg_files = []\<rparr>])]"
proof -
  let ?m = "JDict [(''diff_groups'', groups_payload [] ''d'' [] [\<lparr>dg_title = ''t'', dg_summary = [], dg_files = []\<rparr>])]"
  have c: "groups_current ''d'' ?m" by code_simp
  have m: "gs_metadata quiet_service ''r'' ?m = (Inr ?m, ?m)" by (simp add: quiet_service_def)
  from grouping_never_breaks_a_review [of "\<lambda>s. s" "\<lambda>n s t. s" quiet_service "''r''" "[]" "''d''" ?m ?m ?m] c m
  show ?thesis by simp
qed

end
