(* ===== verification/Review_Findings.thy ===== *)
theory Review_Findings
  imports Json Review_Diff "HOL-Library.Product_Lexorder"
begin

section \<open>Findings of a review\<close>

text \<open>
  Models \<open>agent/review/findings.py\<close>: building a finding, its fingerprint, the metadata store of a
  reviewer thread with its read-modify-write operations, and the choice of the findings that are
  published. A finding is the dictionary the code stores, with its keys: old records may lack some of
  them, and the code reads them with defaults. SHA-256 over the canonical JSON text, the service that
  keeps the threads and the usage telemetry are parameters.

  The lock of a thread makes each read-modify-write one atomic step here. Concurrency is then the order
  of the steps, and a snapshot that was read before other steps ran is an argument of
  \<open>replace_findings\<close>.
\<close>

subsection \<open>Building a finding\<close>

definition max_suggestion_lines :: nat where
  "max_suggestion_lines = 4"

definition max_finding_title_length :: nat where
  "max_finding_title_length = 120"

definition default_finding_title :: string where
  "default_finding_title = ''Code review finding''"

definition review_finding_cap :: nat where
  "review_finding_cap = 6"

definition clip_suggestion :: "string option \<Rightarrow> string option \<times> bool" where
  "clip_suggestion suggestion =
     (case suggestion of
        None \<Rightarrow> (None, False)
      | Some s \<Rightarrow>
          (if s = [] then (Some s, False)
           else if count_char newline s + 1 > max_suggestion_lines then (None, True)
           else (Some s, False)))"

definition normalize_finding_title :: "string option \<Rightarrow> string \<Rightarrow> string" where
  "normalize_finding_title title description =
     (let given = (case title of None \<Rightarrow> [] | Some t \<Rightarrow> strip t);
          raw = (if given = [] \<and> description \<noteq> [] then strip (hd (split_on newline (strip description)))
                 else given);
          compact = squeeze raw
      in if compact = [] then default_finding_title
         else if length compact > max_finding_title_length
              then rstrip (take (max_finding_title_length - 3) compact) @ ''...''
         else compact)"

definition fingerprint_of ::
  "(json \<Rightarrow> string) \<Rightarrow> json \<Rightarrow> json \<Rightarrow> json \<Rightarrow> json \<Rightarrow> string \<Rightarrow> string" where
  "fingerprint_of digest f side start_line end_line description =
     ''v1:'' @ digest (JDict [(''version'', JInt 1), (''file'', f), (''side'', side),
       (''start_line'', start_line), (''end_line'', end_line),
       (''description'', JStr (squeeze (casefold description)))])"

record finding_args =
  fa_severity :: string
  fa_category :: string
  fa_file :: string
  fa_start_line :: "int option"
  fa_end_line :: "int option"
  fa_description :: string
  fa_sha :: string
  fa_title :: "string option"
  fa_confidence :: string
  fa_side :: string
  fa_suggestion :: "string option"
  fa_diff_hunk :: "string option"
  fa_in_diff :: bool

definition new_surface :: "string \<Rightarrow> fields" where
  "new_surface fid =
     [(''finding_id'', JStr fid), (''state'', JStr ''not_surfaced''), (''github_review_id'', JNull),
      (''github_review_comment_id'', JNull), (''github_review_thread_id'', JNull),
      (''severity_threshold_at_publish'', JNull), (''surfaced_at_sha'', JNull),
      (''last_github_sync_at'', JNull), (''last_error'', JNull)]"

definition new_finding :: "(json \<Rightarrow> string) \<Rightarrow> string \<Rightarrow> finding_args \<Rightarrow> fields" where
  "new_finding digest fid a =
     [(''id'', JStr fid), (''severity'', JStr (fa_severity a)), (''confidence'', JStr (fa_confidence a)),
      (''category'', JStr (fa_category a)),
      (''title'', JStr (normalize_finding_title (fa_title a) (fa_description a))),
      (''file'', JStr (fa_file a)), (''start_line'', opt_int (fa_start_line a)),
      (''end_line'', opt_int (fa_end_line a)), (''side'', JStr (fa_side a)),
      (''in_diff'', JBool (fa_in_diff a)), (''description'', JStr (fa_description a)),
      (''suggestion'', opt_str (fa_suggestion a)), (''status'', JStr ''open''),
      (''first_seen_sha'', JStr (fa_sha a)), (''last_confirmed_sha'', JStr (fa_sha a)),
      (''github_review_id'', JNull), (''github_review_comment_id'', JNull),
      (''github_review_comment_ids'', JList []), (''github_review_thread_id'', JNull),
      (''github_review_thread_ids'', JList []), (''github_review_run_id'', JNull),
      (''github_thread_resolved'', JBool False), (''github_resolved_thread_ids'', JList []),
      (''github_posted_resolution_comment_ids'', JList []), (''last_human_reply_at'', JNull),
      (''last_human_reply_author'', JNull), (''last_human_reply_body'', JNull),
      (''last_reconciliation_note'', JNull), (''resolution_note'', JNull),
      (''diff_hunk'', opt_str (fa_diff_hunk a)),
      (''fingerprint'', JStr (fingerprint_of digest (JStr (fa_file a)) (JStr (fa_side a))
         (opt_int (fa_start_line a)) (opt_int (fa_end_line a)) (fa_description a))),
      (''anchor'', JDict [(''file'', JStr (fa_file a)), (''start_line'', opt_int (fa_start_line a)),
         (''end_line'', opt_int (fa_end_line a)), (''side'', JStr (fa_side a))]),
      (''surface'', JDict (new_surface fid)), (''interactions'', JList [])]"

subsection \<open>Reading what is stored\<close>

definition coerce_finding :: "json \<Rightarrow> fields option" where
  "coerce_finding v =
     (case as_dict v of
        None \<Rightarrow> None
      | Some d \<Rightarrow> (case as_str (field d ''id'') of None \<Rightarrow> None | Some s \<Rightarrow> Some d))"

definition coerce_findings_list :: "json \<Rightarrow> fields list" where
  "coerce_findings_list v =
     (case as_list v of None \<Rightarrow> [] | Some xs \<Rightarrow> List.map_filter coerce_finding xs)"

definition id_of :: "fields \<Rightarrow> string" where
  "id_of f = str_or [] (field f ''id'')"

definition key_error :: "string \<Rightarrow> exn" where
  "key_error k = Raised ''KeyError'' (CHR 0x27 # k @ [CHR 0x27])"

definition current_fingerprint :: "(json \<Rightarrow> string) \<Rightarrow> fields \<Rightarrow> string result" where
  "current_fingerprint digest f =
     (if \<not> has_field f ''file'' then Inl (key_error ''file'')
      else if \<not> has_field f ''description'' then Inl (key_error ''description'')
      else (case as_str (field f ''description'') of
              None \<Rightarrow> Inl (Raised ''AttributeError'' ''casefold'')
            | Some d \<Rightarrow>
                Inr (fingerprint_of digest (field f ''file'') (dict_get f ''side'' (JStr ''RIGHT''))
                  (field f ''start_line'') (field f ''end_line'') d)))"

text \<open>
  The service of the threads: reading a thread, merging fields into its metadata, and the telemetry of a
  finding. An unknown thread is a \<open>NotFoundError\<close> of the client library.
\<close>

record 'w thread_client =
  tc_get :: "string \<Rightarrow> ('w, json) action"
  tc_update :: "string \<Rightarrow> fields \<Rightarrow> ('w, unit) action"
  tc_record :: "string \<Rightarrow> fields \<Rightarrow> ('w, unit) action"

definition thread_missing :: "string \<Rightarrow> exn \<Rightarrow> exn" where
  "thread_missing thread_id e =
     Raised ''ReviewerThreadMissingError''
       (''Reviewer thread '' @ quoted thread_id @ '' not found: '' @ exn_str e)"

definition get_thread_metadata_strict :: "'w thread_client \<Rightarrow> string \<Rightarrow> ('w, fields) action" where
  "get_thread_metadata_strict client thread_id =
     and_then (catch_class ''NotFoundError'' (tc_get client thread_id) (\<lambda>e. fail (thread_missing thread_id e)))
       (\<lambda>thread. give (case as_dict (jget thread ''metadata'') of None \<Rightarrow> [] | Some d \<Rightarrow> d))"

definition get_thread_metadata :: "'w thread_client \<Rightarrow> string \<Rightarrow> ('w, fields) action" where
  "get_thread_metadata client thread_id =
     catch_all (get_thread_metadata_strict client thread_id)
       (\<lambda>e. if exn_class e = ''ReviewerThreadMissingError'' then fail e else give [])"

definition resolve_review_head_sha :: "'w thread_client \<Rightarrow> string \<Rightarrow> json \<Rightarrow> ('w, string) action" where
  "resolve_review_head_sha client thread_id configurable =
     (let config_head = str_or [] (jget configurable ''head_sha'')
      in if thread_id = [] then give config_head
         else and_then (get_thread_metadata client thread_id)
           (\<lambda>metadata. give (case nonempty_str (field metadata ''head_sha'') of
              None \<Rightarrow> config_head | Some s \<Rightarrow> s)))"

definition list_findings :: "'w thread_client \<Rightarrow> string \<Rightarrow> ('w, fields list) action" where
  "list_findings client thread_id =
     and_then (get_thread_metadata client thread_id)
       (\<lambda>metadata. give (coerce_findings_list (field metadata ''findings'')))"

definition get_finding :: "'w thread_client \<Rightarrow> string \<Rightarrow> string \<Rightarrow> ('w, fields option) action" where
  "get_finding client thread_id fid =
     and_then (list_findings client thread_id) (\<lambda>fs. give (find (\<lambda>f. id_of f = fid) fs))"

subsection \<open>Writing\<close>

fun record_all :: "'w thread_client \<Rightarrow> string \<Rightarrow> fields list \<Rightarrow> ('w, unit) action" where
  "record_all client thread_id [] w = (Inr (), w)"
| "record_all client thread_id (f # fs) w =
     record_all client thread_id fs (snd (tc_record client thread_id f w))"

definition write_findings :: "'w thread_client \<Rightarrow> string \<Rightarrow> fields list \<Rightarrow> ('w, unit) action" where
  "write_findings client thread_id findings =
     and_then
       (catch_class ''NotFoundError''
         (tc_update client thread_id [(''findings'', JList (map JDict findings))])
         (\<lambda>e. fail (thread_missing thread_id e)))
       (\<lambda>u. record_all client thread_id findings)"

type_synonym 'a mutator = "fields list \<Rightarrow> (bool \<times> fields list \<times> 'a) result"

definition mutate_findings ::
  "'w thread_client \<Rightarrow> string \<Rightarrow> 'a mutator \<Rightarrow> ('w, fields list \<times> 'a) action" where
  "mutate_findings client thread_id mutator =
     and_then (get_thread_metadata_strict client thread_id)
       (\<lambda>metadata. case mutator (coerce_findings_list (field metadata ''findings'')) of
          Inl e \<Rightarrow> fail e
        | Inr (changed, findings, captured) \<Rightarrow>
            (if changed
             then and_then (write_findings client thread_id findings) (\<lambda>u. give (findings, captured))
             else give (findings, captured)))"

fun merge_latest :: "(string, fields) dict \<Rightarrow> fields list \<Rightarrow> fields list" where
  "merge_latest incoming [] = map snd incoming"
| "merge_latest incoming (f # fs) =
     dict_get incoming (id_of f) f # merge_latest (AList.delete (id_of f) incoming) fs"

definition incoming_by_id :: "fields list \<Rightarrow> (string, fields) dict" where
  "incoming_by_id findings = foldl (\<lambda>d f. dict_set (id_of f) f d) [] findings"

definition replace_findings :: "'w thread_client \<Rightarrow> string \<Rightarrow> fields list \<Rightarrow> ('w, unit) action" where
  "replace_findings client thread_id findings =
     and_then (get_thread_metadata_strict client thread_id)
       (\<lambda>metadata. write_findings client thread_id
          (merge_latest (incoming_by_id findings) (coerce_findings_list (field metadata ''findings''))))"

fun open_duplicate :: "(json \<Rightarrow> string) \<Rightarrow> string \<Rightarrow> fields list \<Rightarrow> fields option result" where
  "open_duplicate digest fp [] = Inr None"
| "open_duplicate digest fp (f # fs) =
     (if dict_get f ''status'' (JStr ''open'') \<noteq> JStr ''open'' then open_duplicate digest fp fs
      else (case current_fingerprint digest f of
              Inl e \<Rightarrow> Inl e
            | Inr g \<Rightarrow> (if g = fp then Inr (Some f) else open_duplicate digest fp fs)))"

definition append_step :: "(json \<Rightarrow> string) \<Rightarrow> string \<Rightarrow> fields \<Rightarrow> fields mutator" where
  "append_step digest fp finding findings =
     (case open_duplicate digest fp findings of
        Inl e \<Rightarrow> Inl e
      | Inr (Some f) \<Rightarrow> Inr (False, findings, f)
      | Inr None \<Rightarrow> Inr (True, findings @ [finding], finding))"

definition append_finding ::
  "(json \<Rightarrow> string) \<Rightarrow> 'w thread_client \<Rightarrow> string \<Rightarrow> fields \<Rightarrow> ('w, fields \<times> bool) action" where
  "append_finding digest client thread_id finding =
     (case current_fingerprint digest finding of
        Inl e \<Rightarrow> fail e
      | Inr fp \<Rightarrow>
          and_then (mutate_findings client thread_id (append_step digest fp finding))
            (\<lambda>(findings, persisted). give (persisted, id_of persisted = id_of finding)))"

fun change_first :: "('a \<Rightarrow> bool) \<Rightarrow> ('a \<Rightarrow> 'a) \<Rightarrow> 'a list \<Rightarrow> 'a list" where
  "change_first P f [] = []"
| "change_first P f (x # xs) = (if P x then f x # xs else x # change_first P f xs)"

definition change_step :: "string \<Rightarrow> (fields \<Rightarrow> bool \<times> fields) \<Rightarrow> fields option mutator" where
  "change_step fid change findings =
     (case find (\<lambda>f. id_of f = fid) findings of
        None \<Rightarrow> Inr (False, findings, None)
      | Some f \<Rightarrow>
          Inr (fst (change f), change_first (\<lambda>f. id_of f = fid) (\<lambda>f. snd (change f)) findings,
            Some (snd (change f))))"

definition update_finding_fields ::
  "'w thread_client \<Rightarrow> string \<Rightarrow> string \<Rightarrow> fields \<Rightarrow> ('w, fields option) action" where
  "update_finding_fields client thread_id fid updates =
     and_then (mutate_findings client thread_id
         (change_step fid (\<lambda>f. (True, merge_fields f updates))))
       (\<lambda>(findings, captured). give captured)"

definition set_default :: "string \<Rightarrow> json \<Rightarrow> fields \<Rightarrow> fields" where
  "set_default k v d = (if has_field d k then d else dict_set k v d)"

definition coerce_surface :: "fields \<Rightarrow> string \<Rightarrow> fields" where
  "coerce_surface finding fid =
     (let base = (case as_dict (field finding ''surface'') of
            Some d \<Rightarrow> d | None \<Rightarrow> [(''finding_id'', JStr fid)]);
          stated = (if truthy (field base ''state'') then base
            else dict_set ''state''
              (JStr (if truthy (field finding ''github_thread_resolved'') then ''resolved''
                 else if as_int (field finding ''github_review_comment_id'') \<noteq> None then ''surfaced''
                 else ''not_surfaced'')) base)
      in set_default ''last_error'' JNull
         (set_default ''last_github_sync_at'' JNull
         (set_default ''surfaced_at_sha'' JNull
         (set_default ''severity_threshold_at_publish'' JNull
         (set_default ''github_review_thread_id'' (field finding ''github_review_thread_id'')
         (set_default ''github_review_comment_id'' (field finding ''github_review_comment_id'')
         (set_default ''github_review_id'' (field finding ''github_review_id'') stated)))))))"

definition int_or_null :: "json \<Rightarrow> bool" where
  "int_or_null v = (as_int v \<noteq> None \<or> v = JNull)"

definition str_or_null :: "json \<Rightarrow> bool" where
  "str_or_null v = (as_str v \<noteq> None \<or> v = JNull)"

definition sync_legacy_surface_fields :: "fields \<Rightarrow> fields \<Rightarrow> fields" where
  "sync_legacy_surface_fields finding surface =
     (let f1 = (if int_or_null (field surface ''github_review_id'')
                then dict_set ''github_review_id'' (field surface ''github_review_id'') finding else finding);
          f2 = (if int_or_null (field surface ''github_review_comment_id'')
                then dict_set ''github_review_comment_id'' (field surface ''github_review_comment_id'') f1
                else f1);
          f3 = (if str_or_null (field surface ''github_review_thread_id'')
                then dict_set ''github_review_thread_id'' (field surface ''github_review_thread_id'') f2
                else f2)
      in if field surface ''state'' = JStr ''resolved'' then dict_set ''github_thread_resolved'' (JBool True) f3
         else f3)"

definition surfaced :: "string \<Rightarrow> fields \<Rightarrow> fields \<Rightarrow> fields" where
  "surfaced fid updates f =
     (let surface = merge_fields (coerce_surface f fid) updates
      in sync_legacy_surface_fields (dict_set ''surface'' (JDict surface) f) surface)"

definition update_finding_surface ::
  "'w thread_client \<Rightarrow> string \<Rightarrow> string \<Rightarrow> fields \<Rightarrow> ('w, fields option) action" where
  "update_finding_surface client thread_id fid updates =
     and_then (mutate_findings client thread_id (change_step fid (\<lambda>f. (True, surfaced fid updates f))))
       (\<lambda>(findings, captured). give captured)"

fun num_of :: "json \<Rightarrow> rat option" where
  "num_of (JInt n) = Some (of_int n)"
| "num_of (JBool b) = Some (if b then 1 else 0)"
| "num_of (JFloat x) = Some x"
| "num_of v = None"

definition mentions_comment :: "int \<Rightarrow> json list \<Rightarrow> bool" where
  "mentions_comment n interactions =
     list_ex (\<lambda>item. num_of (jget item ''github_comment_id'') = Some (of_int n)) interactions"

definition add_interaction :: "fields \<Rightarrow> fields \<Rightarrow> bool \<times> fields" where
  "add_interaction interaction f =
     (let known = (case as_list (field f ''interactions'') of None \<Rightarrow> [] | Some xs \<Rightarrow> xs)
      in case as_int (field interaction ''github_comment_id'') of
           Some n \<Rightarrow>
             (if mentions_comment n known then (False, f)
              else (True, dict_set ''interactions'' (JList (known @ [JDict interaction])) f))
         | None \<Rightarrow> (True, dict_set ''interactions'' (JList (known @ [JDict interaction])) f))"

definition append_finding_interaction ::
  "'w thread_client \<Rightarrow> string \<Rightarrow> string \<Rightarrow> fields \<Rightarrow> ('w, fields option) action" where
  "append_finding_interaction client thread_id fid interaction =
     and_then (mutate_findings client thread_id (change_step fid (add_interaction interaction)))
       (\<lambda>(findings, captured). give captured)"

record thread_fields =
  tf_pr :: "json option"
  tf_last_reviewed_sha :: "string option"
  tf_head_sha :: "string option"
  tf_watch :: "bool option"
  tf_findings :: "fields list option"
  tf_slack_thread :: "json option"
  tf_extra :: fields

definition opt_field :: "string \<Rightarrow> json option \<Rightarrow> fields \<Rightarrow> fields" where
  "opt_field k v d = (case v of None \<Rightarrow> d | Some x \<Rightarrow> dict_set k x d)"

definition reviewer_metadata :: "thread_fields \<Rightarrow> fields" where
  "reviewer_metadata t =
     merge_fields
       (opt_field ''slack_thread'' (tf_slack_thread t)
       (opt_field ''findings'' (map_option (\<lambda>fs. JList (map JDict fs)) (tf_findings t))
       (opt_field ''watch'' (map_option JBool (tf_watch t))
       (opt_field ''head_sha'' (map_option JStr (tf_head_sha t))
       (opt_field ''last_reviewed_sha'' (map_option JStr (tf_last_reviewed_sha t))
       (opt_field ''pr'' (tf_pr t) [(''kind'', JStr ''reviewer'')])))))) (tf_extra t)"

definition set_reviewer_thread_metadata :: "'w thread_client \<Rightarrow> string \<Rightarrow> thread_fields \<Rightarrow> ('w, unit) action" where
  "set_reviewer_thread_metadata client thread_id t =
     catch_class ''NotFoundError'' (tc_update client thread_id (reviewer_metadata t))
       (\<lambda>e. fail (thread_missing thread_id e))"

definition thread_missing_tool_result :: "string \<Rightarrow> exn \<Rightarrow> fields" where
  "thread_missing_tool_result thread_id e =
     [(''success'', JBool False), (''error'', JStr ''thread_not_found''), (''thread_id'', JStr thread_id),
      (''note'', JStr (''Reviewer findings storage is unavailable. Do not retry; report the '' @
         ''blocker and include intended findings inline in the final message.'')),
      (''detail'', JStr (exn_str e))]"

definition get_thread_watch_flag :: "fields \<Rightarrow> bool" where
  "get_thread_watch_flag metadata = truthy (field metadata ''watch'')"

definition get_thread_last_reviewed_sha :: "fields \<Rightarrow> string option" where
  "get_thread_last_reviewed_sha metadata = nonempty_str (field metadata ''last_reviewed_sha'')"

definition get_thread_pr_meta :: "fields \<Rightarrow> fields option" where
  "get_thread_pr_meta metadata = as_dict (field metadata ''pr'')"

definition get_thread_slack_ref :: "fields \<Rightarrow> fields option" where
  "get_thread_slack_ref metadata =
     (case as_dict (field metadata ''slack_thread'') of
        None \<Rightarrow> None
      | Some d \<Rightarrow>
          (if nonempty_str (field d ''channel_id'') \<noteq> None \<and> nonempty_str (field d ''thread_ts'') \<noteq> None
           then Some d else None))"

subsection \<open>The findings that are published\<close>

definition severity_order :: "(string, nat) dict" where
  "severity_order = [(''low'', 0), (''medium'', 1), (''high'', 2), (''critical'', 3)]"

definition finding_rank :: "fields \<Rightarrow> nat" where
  "finding_rank f =
     (case as_str (dict_get f ''severity'' (JStr ''low'')) of
        None \<Rightarrow> 0 | Some s \<Rightarrow> dict_get severity_order s 0)"

definition publish_key :: "fields \<Rightarrow> int \<times> string \<times> int" where
  "publish_key f =
     (- int (finding_rank f), str_or [] (field f ''file''),
      (case as_int (field f ''start_line'') of None \<Rightarrow> 0 | Some n \<Rightarrow> n))"

definition is_eligible :: "nat \<Rightarrow> fields \<Rightarrow> bool" where
  "is_eligible bar f =
     (dict_get f ''status'' (JStr ''open'') = JStr ''open'' \<and> bar \<le> finding_rank f)"

definition filter_findings_for_publish :: "fields list \<Rightarrow> string \<Rightarrow> nat \<Rightarrow> fields list result" where
  "filter_findings_for_publish findings threshold cap =
     (case map_of severity_order threshold of
        None \<Rightarrow> Inl (key_error threshold)
      | Some bar \<Rightarrow> Inr (take cap (sort_key publish_key (filter (is_eligible bar) findings))))"

subsection \<open>What is published\<close>

lemma sorted_key_split:
  "sorted (map k (xs @ ys)) \<Longrightarrow> x \<in> set xs \<Longrightarrow> y \<in> set ys \<Longrightarrow> k x \<le> (k y :: 'b :: linorder)"
  by (auto simp: sorted_append)

text \<open>
  The most severe findings are published. For a valid threshold the published findings are open, at or
  above the threshold, ordered by severity, file and line, and as many as there are up to the cap; an
  eligible finding that is left out does not come before any that is published.
\<close>

theorem most_severe_are_published:
  assumes "filter_findings_for_publish findings threshold cap = Inr out"
  shows "\<exists>bar. map_of severity_order threshold = Some bar \<and>
    list_all (\<lambda>f. f \<in> set findings \<and> is_eligible bar f) out \<and> sorted (map publish_key out) \<and>
    length out = min cap (length (filter (is_eligible bar) findings)) \<and>
    list_all (\<lambda>f. is_eligible bar f \<and> f \<notin> set out \<longrightarrow> list_all (\<lambda>g. publish_key g \<le> publish_key f) out) findings"
proof -
  from assms obtain bar where bar: "map_of severity_order threshold = Some bar"
    and out: "out = take cap (sort_key publish_key (filter (is_eligible bar) findings))"
    by (auto simp: filter_findings_for_publish_def split: option.splits)
  let ?s = "sort_key publish_key (filter (is_eligible bar) findings)"
  have s: "set ?s = {f \<in> set findings. is_eligible bar f}" by auto
  have split: "out @ drop cap ?s = ?s" using out by simp
  then have sorted: "sorted (map publish_key (out @ drop cap ?s))" by simp
  have left: "publish_key g \<le> publish_key f"
    if "f \<in> set findings" "is_eligible bar f" "f \<notin> set out" "g \<in> set out" for f g
  proof -
    from that s have "f \<in> set ?s" by simp
    with split that(3) have "f \<in> set (drop cap ?s)" by (metis Un_iff set_append)
    with that(4) show ?thesis by (rule sorted_key_split [OF sorted])
  qed
  have "set out \<subseteq> set ?s" unfolding out by (rule set_take_subset)
  then have "list_all (\<lambda>f. f \<in> set findings \<and> is_eligible bar f) out"
    using s unfolding list_all_iff by blast
  moreover have "sorted (map publish_key out)" using sorted by (simp add: sorted_append)
  moreover have "length out = min cap (length (filter (is_eligible bar) findings))" using out by auto
  moreover have "list_all (\<lambda>f. is_eligible bar f \<and> f \<notin> set out \<longrightarrow>
      list_all (\<lambda>g. publish_key g \<le> publish_key f) out) findings"
    using left by (auto simp: list_all_iff)
  ultimately show ?thesis using bar by blast
qed

definition sample_finding :: "string \<Rightarrow> string \<Rightarrow> string \<Rightarrow> fields" where
  "sample_finding fid sev status =
     [(''id'', JStr fid), (''severity'', JStr sev), (''file'', JStr ''a.py''), (''status'', JStr status)]"

theorem most_severe_are_published_witness:
  "filter_findings_for_publish
     [sample_finding ''f1'' ''medium'' ''open'', sample_finding ''f2'' ''critical'' ''open'',
      sample_finding ''f3'' ''critical'' ''resolved''] ''medium'' 1 = Inr [sample_finding ''f2'' ''critical'' ''open''] \<and>
   publish_key (sample_finding ''f2'' ''critical'' ''open'') \<le> publish_key (sample_finding ''f1'' ''medium'' ''open'')"
proof -
  let ?fs = "[sample_finding ''f1'' ''medium'' ''open'', sample_finding ''f2'' ''critical'' ''open'',
      sample_finding ''f3'' ''critical'' ''resolved'']"
  have f: "filter_findings_for_publish ?fs ''medium'' 1 = Inr [sample_finding ''f2'' ''critical'' ''open'']"
    by code_simp
  have e: "is_eligible 1 (sample_finding ''f1'' ''medium'' ''open'')" by code_simp
  have b: "map_of severity_order ''medium'' = Some 1" by (simp add: severity_order_def)
  have "sample_finding ''f1'' ''medium'' ''open'' \<noteq> sample_finding ''f2'' ''critical'' ''open''"
    by (simp add: sample_finding_def)
  with most_severe_are_published [OF f] e b f show ?thesis by simp
qed

subsection \<open>No finding is lost\<close>

text \<open>
  \<open>record_step\<close> is the contract of a read-modify-write operation: it keeps the records in their order and
  may add records behind them, and when it says that it changed nothing, it changed nothing.
\<close>

definition extends_ids :: "fields list \<Rightarrow> fields list \<Rightarrow> bool" where
  "extends_ids fs fs' \<longleftrightarrow> (\<exists>new. map id_of fs' = map id_of fs @ new)"

lemma extends_ids_refl [simp]: "extends_ids fs fs"
  by (simp add: extends_ids_def)

lemma extends_ids_trans: "extends_ids fs gs \<Longrightarrow> extends_ids gs hs \<Longrightarrow> extends_ids fs hs"
  by (auto simp: extends_ids_def)

definition applied :: "'a mutator \<Rightarrow> fields list \<Rightarrow> fields list" where
  "applied step fs = (case step fs of Inr (True, fs', x) \<Rightarrow> fs' | _ \<Rightarrow> fs)"

locale record_step =
  fixes step :: "fields list \<Rightarrow> (bool \<times> fields list \<times> 'a) result"
  assumes keeps_ids: "step fs = Inr (changed, fs', x) \<Longrightarrow> extends_ids fs fs'"
    and unchanged: "step fs = Inr (False, fs', x) \<Longrightarrow> fs' = fs"
begin

lemma applied_extends: "extends_ids fs (applied step fs)"
  using keeps_ids by (auto simp: applied_def split: sum.split prod.split bool.split)

lemma returned_is_applied: "step fs = Inr (changed, fs', x) \<Longrightarrow> fs' = applied step fs"
  using unchanged by (cases changed) (auto simp: applied_def)

end

lemma append_step_ids: "append_step digest fp finding fs = Inr (changed, fs', x) \<Longrightarrow> extends_ids fs fs'"
  by (auto simp: append_step_def extends_ids_def split: sum.splits option.splits)

interpretation appending: record_step "append_step digest fp finding"
  by unfold_locales (auto simp: append_step_ids, auto simp: append_step_def split: sum.splits option.splits)

definition keeps_id :: "(fields \<Rightarrow> bool \<times> fields) \<Rightarrow> bool" where
  "keeps_id change \<longleftrightarrow> (\<forall>f. field (snd (change f)) ''id'' = field f ''id'' \<and> (\<not> fst (change f) \<longrightarrow> snd (change f) = f))"

lemma change_first_ids: "(\<And>f. id_of (g f) = id_of f) \<Longrightarrow> map id_of (change_first P g fs) = map id_of fs"
  by (induction fs) auto

lemma change_first_same: "find P fs = Some f \<Longrightarrow> g f = f \<Longrightarrow> change_first P g fs = fs"
  by (induction fs) (auto split: if_splits)

lemma change_step_contract: "keeps_id change \<Longrightarrow> record_step (change_step fid change)"
  by unfold_locales
    (auto simp: change_step_def keeps_id_def id_of_def extends_ids_def change_first_ids change_first_same
      split: option.splits)

lemma merge_keeps_id: "''id'' \<notin> set (dict_keys updates) \<Longrightarrow> keeps_id (\<lambda>f. (True, merge_fields f updates))"
  by (simp add: keeps_id_def field_merge_other)

lemma surfaced_keeps_id: "keeps_id (\<lambda>f. (True, surfaced fid updates f))"
  by (simp add: keeps_id_def surfaced_def sync_legacy_surface_fields_def Let_def)

lemma interaction_keeps_id: "keeps_id (add_interaction interaction)"
  by (auto simp: keeps_id_def add_interaction_def Let_def split: option.split)

interpretation surfacing: record_step "change_step fid (\<lambda>f. (True, surfaced fid updates f))"
  by (rule change_step_contract [OF surfaced_keeps_id])

interpretation interacting: record_step "change_step fid (add_interaction interaction)"
  by (rule change_step_contract [OF interaction_keeps_id])

lemma incoming_ids:
  "map_of (foldl (\<lambda>d f. dict_set (id_of f) f d) d fs) k = Some f \<Longrightarrow>
     (\<And>k f. map_of d k = Some f \<Longrightarrow> id_of f = k) \<Longrightarrow> id_of f = k"
proof (induction fs arbitrary: d)
  case (Cons g gs)
  have *: "id_of f' = k'" if "map_of (dict_set (id_of g) g d) k' = Some f'" for k' f'
  proof (cases "k' = id_of g")
    case True
    with that show ?thesis by simp
  next
    case False
    with that have "map_of d k' = Some f'" by simp
    then show ?thesis by (rule Cons.prems(2))
  qed
  show ?case
  proof (rule Cons.IH)
    show "map_of (foldl (\<lambda>d f. dict_set (id_of f) f d) (dict_set (id_of g) g d) gs) k = Some f"
      using Cons.prems(1) by simp
  qed (rule *)
qed simp

lemma incoming_keyed: "map_of (incoming_by_id fs) k = Some f \<Longrightarrow> id_of f = k"
  unfolding incoming_by_id_def by (erule incoming_ids) simp

lemma merge_latest_ids:
  "(\<And>k f. map_of incoming k = Some f \<Longrightarrow> id_of f = k) \<Longrightarrow> extends_ids fs (merge_latest incoming fs)"
proof (induction incoming fs rule: merge_latest.induct)
  case (2 incoming f fs)
  have "extends_ids fs (merge_latest (AList.delete (id_of f) incoming) fs)"
    by (rule 2(1)) (use 2(2) in \<open>auto simp: delete_conv' split: if_splits\<close>)
  moreover have "id_of (dict_get incoming (id_of f) f) = id_of f"
    using 2(2) [of "id_of f"] by (auto simp: dict_get_def split: option.split)
  ultimately show ?case by (auto simp: extends_ids_def)
qed (simp add: extends_ids_def)

text \<open>
  The steps of the store of one thread, in whatever order the tools, the webhooks and a reconciliation
  take them; a snapshot may be of any age.
\<close>

inductive store_step :: "(json \<Rightarrow> string) \<Rightarrow> fields list \<Rightarrow> fields list \<Rightarrow> bool" for digest where
  append_one: "store_step digest fs (applied (append_step digest fp f) fs)"
| update_one: "''id'' \<notin> set (dict_keys updates) \<Longrightarrow>
    store_step digest fs (applied (change_step fid (\<lambda>f. (True, merge_fields f updates))) fs)"
| surface_one: "store_step digest fs (applied (change_step fid (\<lambda>f. (True, surfaced fid updates f))) fs)"
| interact: "store_step digest fs (applied (change_step fid (add_interaction interaction)) fs)"
| snapshot: "store_step digest fs (merge_latest (incoming_by_id snap) fs)"

lemma store_step_extends: "store_step digest fs fs' \<Longrightarrow> extends_ids fs fs'"
proof (induction rule: store_step.induct)
  case (update_one updates fs fid)
  then show ?case by (intro record_step.applied_extends change_step_contract merge_keeps_id)
next
  case (snapshot fs snap)
  show ?case by (rule merge_latest_ids) (rule incoming_keyed)
qed (simp_all add: appending.applied_extends surfacing.applied_extends interacting.applied_extends)

text \<open>
  C28. No finding is lost. After any sequence of appends, updates, publications, replies and merged
  snapshots, however stale, the thread still has every finding it had, in the same order, and new
  findings stand behind them.
\<close>

theorem findings_are_never_lost:
  assumes "(store_step digest)\<^sup>*\<^sup>* fs fs'"
  shows "\<exists>new. map id_of fs' = map id_of fs @ new"
  using assms
proof (induction rule: rtranclp_induct)
  case (step gs hs)
  then show ?case using extends_ids_trans store_step_extends unfolding extends_ids_def by metis
qed simp

theorem findings_are_never_lost_witness:
  "map id_of (merge_latest (incoming_by_id [sample_finding ''f2'' ''low'' ''open''])
       (applied (append_step (\<lambda>j. []) [] (sample_finding ''f2'' ''high'' ''open'')) [sample_finding ''f1'' ''high'' ''resolved''])) =
     [''f1'', ''f2''] \<and>
   (\<exists>new. [''f1'', ''f2''] = map id_of [sample_finding ''f1'' ''high'' ''resolved''] @ new)"
proof -
  let ?fs = "[sample_finding ''f1'' ''high'' ''resolved'']"
  let ?gs = "applied (append_step (\<lambda>j. []) [] (sample_finding ''f2'' ''high'' ''open'')) ?fs"
  let ?hs = "merge_latest (incoming_by_id [sample_finding ''f2'' ''low'' ''open'']) ?gs"
  have ids: "map id_of ?hs = [''f1'', ''f2'']" by code_simp
  have "(store_step (\<lambda>j. []))\<^sup>*\<^sup>* ?fs ?hs"
  proof (rule rtranclp.rtrancl_into_rtrancl)
    show "(store_step (\<lambda>j. []))\<^sup>*\<^sup>* ?fs ?gs" by (rule r_into_rtranclp) (rule store_step.append_one)
  qed (rule store_step.snapshot)
  from findings_are_never_lost [OF this] ids show ?thesis by simp
qed

text \<open>
  A snapshot replaces whole records, so what another operation wrote to a record after the snapshot was
  read is undone: here a finding that was resolved meanwhile is open again.
\<close>

lemma stale_snapshot_reverts_update:
  "merge_latest (incoming_by_id [sample_finding ''f1'' ''high'' ''open'']) [sample_finding ''f1'' ''high'' ''resolved''] =
     [sample_finding ''f1'' ''high'' ''open'']"
  by code_simp

subsection \<open>A finding is stored once\<close>

lemma new_finding_fields:
  "id_of (new_finding digest fid a) = fid"
  "dict_get (new_finding digest fid a) ''status'' (JStr ''open'') = JStr ''open''"
  "current_fingerprint digest (new_finding digest fid a) =
     Inr (fingerprint_of digest (JStr (fa_file a)) (JStr (fa_side a)) (opt_int (fa_start_line a))
       (opt_int (fa_end_line a)) (fa_description a))"
  "coerce_finding (JDict (new_finding digest fid a)) = Some (new_finding digest fid a)"
  by (simp_all add: new_finding_def id_of_def current_fingerprint_def coerce_finding_def field_def
      has_field_def dict_get_def str_or_def)

lemma open_duplicate_append:
  "open_duplicate digest fp fs = Inr None \<Longrightarrow>
     open_duplicate digest fp (fs @ gs) = open_duplicate digest fp gs"
  by (induction fs) (auto split: if_splits sum.splits)

lemma append_step_again:
  assumes "append_step digest fp f fs = Inr (changed, fs', p)"
    and "dict_get f ''status'' (JStr ''open'') = JStr ''open''" "current_fingerprint digest f = Inr fp"
  shows "append_step digest fp g fs' = Inr (False, fs', p)"
proof (cases "open_duplicate digest fp fs")
  case (Inr d)
  show ?thesis
  proof (cases d)
    case None
    with Inr assms show ?thesis by (auto simp: append_step_def open_duplicate_append)
  qed (use Inr assms(1) in \<open>auto simp: append_step_def\<close>)
qed (use assms(1) in \<open>simp add: append_step_def\<close>)

definition same_issue :: "finding_args \<Rightarrow> finding_args \<Rightarrow> bool" where
  "same_issue a b =
     (fa_file a = fa_file b \<and> fa_side a = fa_side b \<and> fa_start_line a = fa_start_line b \<and>
      fa_end_line a = fa_end_line b \<and>
      squeeze (casefold (fa_description a)) = squeeze (casefold (fa_description b)))"

subsection \<open>The operations refine the steps\<close>

text \<open>
  A client that keeps what it is given: \<open>stored\<close> reads the findings of the thread from the world. Reading
  changes nothing, an update of the findings is what is read next, telemetry does not touch them.
\<close>

definition faithful_client :: "'w thread_client \<Rightarrow> string \<Rightarrow> ('w \<Rightarrow> fields list) \<Rightarrow> bool" where
  "faithful_client client thread_id stored \<longleftrightarrow>
     (\<forall>w. \<exists>thread. tc_get client thread_id w = (Inr thread, w) \<and>
        coerce_findings_list (jget (jget thread ''metadata'') ''findings'') = stored w) \<and>
     (\<forall>w fs. \<exists>w'. tc_update client thread_id [(''findings'', JList (map JDict fs))] w = (Inr (), w') \<and>
        stored w' = coerce_findings_list (JList (map JDict fs))) \<and>
     (\<forall>w f. stored (snd (tc_record client thread_id f w)) = stored w)"

definition all_have_ids :: "fields list \<Rightarrow> bool" where
  "all_have_ids fs = list_all (\<lambda>f. coerce_finding (JDict f) = Some f) fs"

lemma coerce_stored: "all_have_ids fs \<Longrightarrow> coerce_findings_list (JList (map JDict fs)) = fs"
  by (induction fs) (simp_all add: all_have_ids_def coerce_findings_list_def List.map_filter_def)

lemma coerced_have_ids: "all_have_ids (coerce_findings_list v)"
  by (auto simp: all_have_ids_def coerce_findings_list_def list_all_iff map_filter_def coerce_finding_def
      split: option.splits)

lemma stored_have_ids: "faithful_client client t stored \<Longrightarrow> all_have_ids (stored w)"
  unfolding faithful_client_def by (metis coerced_have_ids)

lemma record_all_keeps:
  "faithful_client client t stored \<Longrightarrow> fst (record_all client t fs w) = Inr () \<and>
     stored (snd (record_all client t fs w)) = stored w"
  by (induction fs arbitrary: w) (simp_all add: faithful_client_def)

lemma read_stored:
  assumes "faithful_client client t stored"
  obtains metadata where "get_thread_metadata_strict client t w = (Inr metadata, w)"
    "coerce_findings_list (field metadata ''findings'') = stored w"
proof -
  from assms obtain thread where thread: "tc_get client t w = (Inr thread, w)"
    "coerce_findings_list (jget (jget thread ''metadata'') ''findings'') = stored w"
    unfolding faithful_client_def by blast
  let ?m = "case as_dict (jget thread ''metadata'') of None \<Rightarrow> [] | Some d \<Rightarrow> d"
  have "get_thread_metadata_strict client t w = (Inr ?m, w)"
    by (simp add: get_thread_metadata_strict_def and_then_def catch_class_def thread(1) give_def)
  moreover have "field ?m ''findings'' = jget (jget thread ''metadata'') ''findings''"
    by (cases "jget thread ''metadata''") (simp_all add: field_def)
  ultimately show ?thesis using thread(2) that by metis
qed

lemma write_stored:
  assumes "faithful_client client t stored" "all_have_ids fs"
  obtains w' where "write_findings client t fs w = (Inr (), w')" "stored w' = fs"
proof -
  from assms(1) obtain v where v: "tc_update client t [(''findings'', JList (map JDict fs))] w = (Inr (), v)"
    "stored v = coerce_findings_list (JList (map JDict fs))" unfolding faithful_client_def by blast
  have "write_findings client t fs w = record_all client t fs v"
    by (simp add: write_findings_def and_then_def catch_class_def v(1))
  moreover note record_all_keeps [OF assms(1), of fs v] coerce_stored [OF assms(2)] v(2)
  ultimately show ?thesis using that by (metis prod.collapse)
qed

definition writes_ids :: "'a mutator \<Rightarrow> bool" where
  "writes_ids step \<longleftrightarrow>
     (\<forall>fs changed fs' x. all_have_ids fs \<longrightarrow> step fs = Inr (changed, fs', x) \<longrightarrow> all_have_ids fs')"

lemma mutate_refines:
  assumes "faithful_client client t stored" "writes_ids step" "record_step step"
  obtains w' where
    "mutate_findings client t step w =
       (case step (stored w) of Inl e \<Rightarrow> Inl e | Inr (changed, fs, x) \<Rightarrow> Inr (applied step (stored w), x), w')"
    "stored w' = applied step (stored w)"
proof -
  obtain metadata where m: "get_thread_metadata_strict client t w = (Inr metadata, w)"
    "coerce_findings_list (field metadata ''findings'') = stored w" by (rule read_stored [OF assms(1)])
  show ?thesis
  proof (cases "step (stored w)")
    case (Inl e)
    with m that [of w] show ?thesis by (simp add: mutate_findings_def and_then_def fail_def applied_def)
  next
    case (Inr r)
    then obtain changed fs x where r: "step (stored w) = Inr (changed, fs, x)" by (cases r) auto
    then have a: "fs = applied step (stored w)" by (rule record_step.returned_is_applied [OF assms(3)])
    show ?thesis
    proof (cases changed)
      case True
      have "all_have_ids fs" using assms(2) stored_have_ids [OF assms(1)] r unfolding writes_ids_def by blast
      then obtain w' where "write_findings client t fs w = (Inr (), w')" "stored w' = fs"
        by (rule write_stored [OF assms(1)])
      with m r a True that [of w'] show ?thesis by (simp add: mutate_findings_def and_then_def give_def)
    next
      case False
      with r have "step (stored w) = Inr (False, fs, x)" by simp
      then have "fs = stored w" by (rule record_step.unchanged [OF assms(3)])
      with m r a False that [of w] show ?thesis by (simp add: mutate_findings_def and_then_def give_def)
    qed
  qed
qed

lemma has_id_iff: "coerce_finding (JDict f) = Some f \<longleftrightarrow> as_str (field f ''id'') \<noteq> None"
  by (auto simp: coerce_finding_def split: option.splits)

lemma append_writes_ids: "coerce_finding (JDict f) = Some f \<Longrightarrow> writes_ids (append_step digest fp f)"
  by (auto simp: writes_ids_def append_step_def all_have_ids_def split: sum.splits option.splits)

lemma change_first_all: "(\<And>x. Q x \<Longrightarrow> Q (g x)) \<Longrightarrow> list_all Q fs \<Longrightarrow> list_all Q (change_first P g fs)"
  by (induction fs) auto

lemma change_writes_ids: "keeps_id change \<Longrightarrow> writes_ids (change_step fid change)"
  by (auto simp: writes_ids_def change_step_def all_have_ids_def has_id_iff keeps_id_def
      intro!: change_first_all split: option.splits)

lemmas change_refines = mutate_refines [OF _ change_writes_ids change_step_contract]

lemma merge_latest_set: "set (merge_latest incoming fs) \<subseteq> snd ` set incoming \<union> set fs"
proof (induction incoming fs rule: merge_latest.induct)
  case (2 incoming f fs)
  have "dict_get incoming (id_of f) f \<in> snd ` set incoming \<union> {f}"
    by (cases "map_of incoming (id_of f)") (force simp: dict_get_def dest: map_of_SomeD)+
  moreover have "snd ` set (AList.delete (id_of f) incoming) \<subseteq> snd ` set incoming"
    by (auto simp: AList.delete_eq)
  ultimately show ?case using 2 by auto
qed auto

lemma incoming_set: "snd ` set (foldl (\<lambda>d f. dict_set (id_of f) f d) d fs) \<subseteq> snd ` set d \<union> set fs"
proof (induction fs arbitrary: d)
  case (Cons f fs)
  have "snd ` set (dict_set (id_of f) f d) \<subseteq> snd ` set d \<union> {f}"
    unfolding dict_set_def by (induction d) auto
  with Cons [of "dict_set (id_of f) f d"] show ?case by auto
qed simp

lemma merged_have_ids:
  assumes "all_have_ids snap" "all_have_ids fs"
  shows "all_have_ids (merge_latest (incoming_by_id snap) fs)"
proof -
  have "set (merge_latest (incoming_by_id snap) fs) \<subseteq> set snap \<union> set fs"
    using merge_latest_set [of "incoming_by_id snap" fs] incoming_set [of "[]" snap]
    by (auto simp: incoming_by_id_def)
  with assms show ?thesis by (auto simp: all_have_ids_def list_all_iff)
qed

lemma append_refines:
  assumes "faithful_client client t stored" "coerce_finding (JDict f) = Some f"
    and "current_fingerprint digest f = Inr fp"
  obtains w' where
    "append_finding digest client t f w =
       (case append_step digest fp f (stored w) of
          Inl e \<Rightarrow> Inl e | Inr (changed, fs, p) \<Rightarrow> Inr (p, id_of p = id_of f), w')"
    "stored w' = applied (append_step digest fp f) (stored w)"
proof -
  have r: "record_step (append_step digest fp f)" ..
  obtain w' where "mutate_findings client t (append_step digest fp f) w =
       (case append_step digest fp f (stored w) of Inl e \<Rightarrow> Inl e
        | Inr (changed, fs, x) \<Rightarrow> Inr (applied (append_step digest fp f) (stored w), x), w')"
    "stored w' = applied (append_step digest fp f) (stored w)"
    by (rule mutate_refines [OF assms(1) append_writes_ids [OF assms(2)] r])
  with assms(3) that [of w'] show ?thesis
    by (auto simp: append_finding_def and_then_def give_def split: sum.splits prod.splits)
qed

text \<open>A client that holds the findings of one thread in memory.\<close>

definition memory_client :: "fields list thread_client" where
  "memory_client =
     \<lparr>tc_get = (\<lambda>t w. (Inr (JDict [(''metadata'', JDict [(''findings'', JList (map JDict w))])]), w)),
      tc_update = (\<lambda>t d w. (Inr (), coerce_findings_list (field d ''findings''))),
      tc_record = (\<lambda>t f w. (Inr (), w))\<rparr>"

definition held :: "fields list \<Rightarrow> fields list" where
  "held w = coerce_findings_list (JList (map JDict w))"

lemma memory_client_faithful: "faithful_client memory_client t held"
proof -
  have "coerce_findings_list (JList (map JDict (coerce_findings_list v))) = coerce_findings_list v" for v
    by (rule coerce_stored [OF coerced_have_ids])
  then show ?thesis
    by (simp add: faithful_client_def memory_client_def held_def field_def dict_get_def)
qed

definition leak :: "string \<Rightarrow> finding_args" where
  "leak description =
     \<lparr>fa_severity = ''high'', fa_category = ''correctness'', fa_file = ''a.py'', fa_start_line = Some 3,
      fa_end_line = Some 3, fa_description = description, fa_sha = ''abc'', fa_title = Some ''Leak'',
      fa_confidence = ''high'', fa_side = ''RIGHT'', fa_suggestion = None, fa_diff_hunk = None,
      fa_in_diff = True\<rparr>"

text \<open>
  C29. The store operations implement the steps. On a client that keeps what it is given, appending a
  finding, updating its fields or its publication, adding a reply and merging a snapshot change the
  stored findings by exactly the step of the abstract store, and a missing finding changes nothing.
\<close>

theorem store_operations_refine:
  assumes "faithful_client client t stored" "coerce_finding (JDict f) = Some f" "all_have_ids snap"
    and "current_fingerprint digest f = Inr fp" "''id'' \<notin> set (dict_keys updates)"
  shows "stored (snd (append_finding digest client t f w)) = applied (append_step digest fp f) (stored w) \<and>
    stored (snd (update_finding_fields client t fid updates w)) =
      applied (change_step fid (\<lambda>f. (True, merge_fields f updates))) (stored w) \<and>
    stored (snd (update_finding_surface client t fid surface w)) =
      applied (change_step fid (\<lambda>f. (True, surfaced fid surface f))) (stored w) \<and>
    stored (snd (append_finding_interaction client t fid reply w)) =
      applied (change_step fid (add_interaction reply)) (stored w) \<and>
    stored (snd (replace_findings client t snap w)) = merge_latest (incoming_by_id snap) (stored w)"
proof (intro conjI)
  show "stored (snd (append_finding digest client t f w)) = applied (append_step digest fp f) (stored w)"
    by (rule append_refines [OF assms(1,2,4), of w]) simp
  have change: "stored (snd (and_then (mutate_findings client t (change_step fid change))
       (\<lambda>(findings, captured). give captured) w)) = applied (change_step fid change) (stored w)"
    if "keeps_id change" for change
    by (rule change_refines [OF assms(1) that that, where w = w and fid = fid])
      (auto simp: and_then_def give_def split: sum.splits prod.splits)
  show "stored (snd (update_finding_fields client t fid updates w)) =
      applied (change_step fid (\<lambda>f. (True, merge_fields f updates))) (stored w)"
    unfolding update_finding_fields_def by (rule change [OF merge_keeps_id [OF assms(5)]])
  show "stored (snd (update_finding_surface client t fid surface w)) =
      applied (change_step fid (\<lambda>f. (True, surfaced fid surface f))) (stored w)"
    unfolding update_finding_surface_def by (rule change [OF surfaced_keeps_id])
  show "stored (snd (append_finding_interaction client t fid reply w)) =
      applied (change_step fid (add_interaction reply)) (stored w)"
    unfolding append_finding_interaction_def by (rule change [OF interaction_keeps_id])
  obtain metadata where m: "get_thread_metadata_strict client t w = (Inr metadata, w)"
    "coerce_findings_list (field metadata ''findings'') = stored w" by (rule read_stored [OF assms(1)])
  obtain w' where "write_findings client t (merge_latest (incoming_by_id snap) (stored w)) w = (Inr (), w')"
    "stored w' = merge_latest (incoming_by_id snap) (stored w)"
    by (rule write_stored [OF assms(1) merged_have_ids [OF assms(3) stored_have_ids [OF assms(1)]]])
  with m show "stored (snd (replace_findings client t snap w)) = merge_latest (incoming_by_id snap) (stored w)"
    by (simp add: replace_findings_def and_then_def)
qed

theorem store_operations_refine_witness:
  "held (snd (update_finding_fields memory_client ''t'' ''f1'' [(''status'', JStr ''resolved'')]
      [sample_finding ''f1'' ''high'' ''open''])) = [sample_finding ''f1'' ''high'' ''resolved'']"
proof -
  let ?n = "new_finding (\<lambda>j. []) ''f2'' (leak ''x'')"
  have k: "''id'' \<notin> set (dict_keys [(''status'', JStr ''resolved'')])" by (simp add: dict_keys_def)
  have e: "all_have_ids []" by (simp add: all_have_ids_def)
  have "applied (change_step ''f1'' (\<lambda>f. (True, merge_fields f [(''status'', JStr ''resolved'')])))
      (held [sample_finding ''f1'' ''high'' ''open'']) = [sample_finding ''f1'' ''high'' ''resolved'']"
    by code_simp
  with store_operations_refine [OF memory_client_faithful new_finding_fields(4) e new_finding_fields(3) k]
  show ?thesis by simp
qed

text \<open>
  An issue is recorded once. When a finding was recorded, as new or as the duplicate of an open one,
  a finding of the same file, side, lines and description, up to case and white space, is answered with
  the same record and changes nothing in the store.
\<close>

theorem issue_recorded_once:
  assumes "faithful_client client t stored" "same_issue a b"
    and "append_finding digest client t (new_finding digest i a) w = (Inr (p, created), w1)"
  shows "\<exists>w2. append_finding digest client t (new_finding digest j b) w1 = (Inr (p, id_of p = j), w2) \<and>
    stored w2 = stored w1 \<and> (created \<longleftrightarrow> id_of p = i)"
proof -
  let ?fp = "fingerprint_of digest (JStr (fa_file a)) (JStr (fa_side a)) (opt_int (fa_start_line a))
       (opt_int (fa_end_line a)) (fa_description a)"
  have fp: "current_fingerprint digest (new_finding digest i a) = Inr ?fp"
    "current_fingerprint digest (new_finding digest j b) = Inr ?fp"
    using assms(2) by (simp_all add: new_finding_fields same_issue_def fingerprint_of_def)
  obtain w' where w': "append_finding digest client t (new_finding digest i a) w =
       (case append_step digest ?fp (new_finding digest i a) (stored w) of
          Inl e \<Rightarrow> Inl e | Inr (changed, fs, p) \<Rightarrow> Inr (p, id_of p = id_of (new_finding digest i a)), w')"
    "stored w' = applied (append_step digest ?fp (new_finding digest i a)) (stored w)"
    by (rule append_refines [OF assms(1) new_finding_fields(4) fp(1)])
  with assms(3) obtain changed fs where
    s: "append_step digest ?fp (new_finding digest i a) (stored w) = Inr (changed, fs, p)" and
    c: "created = (id_of p = i)" "w' = w1"
    by (auto simp: new_finding_fields(1) split: sum.splits)
  have "fs = stored w1" using w'(2) c(2) appending.returned_is_applied [OF s] by simp
  then have again: "append_step digest ?fp (new_finding digest j b) (stored w1) = Inr (False, stored w1, p)"
    using append_step_again [OF s new_finding_fields(2) fp(1)] by simp
  obtain w2 where "append_finding digest client t (new_finding digest j b) w1 =
       (case append_step digest ?fp (new_finding digest j b) (stored w1) of
          Inl e \<Rightarrow> Inl e | Inr (changed, fs, p) \<Rightarrow> Inr (p, id_of p = id_of (new_finding digest j b)), w2)"
    "stored w2 = applied (append_step digest ?fp (new_finding digest j b)) (stored w1)"
    by (rule append_refines [OF assms(1) new_finding_fields(4) fp(2)])
  with again c show ?thesis by (simp add: new_finding_fields(1) applied_def)
qed

theorem issue_recorded_once_witness:
  "\<exists>w2. append_finding (\<lambda>j. []) memory_client ''t'' (new_finding (\<lambda>j. []) ''f2'' (leak ''a  LEAK''))
       [new_finding (\<lambda>j. []) ''f1'' (leak ''A leak'')] =
     (Inr (new_finding (\<lambda>j. []) ''f1'' (leak ''A leak''), False), w2)"
proof -
  let ?f = "new_finding (\<lambda>j. []) ''f1'' (leak ''A leak'')"
  have s: "same_issue (leak ''A leak'') (leak ''a  LEAK'')" by code_simp
  have a: "append_finding (\<lambda>j. []) memory_client ''t'' ?f [] = (Inr (?f, True), [?f])" by code_simp
  from issue_recorded_once [OF memory_client_faithful s a, of "''f2''"] show ?thesis
    by (simp add: new_finding_fields(1)) blast
qed

end
