(* ===== verification/Review_Reconcile.thy ===== *)
theory Review_Reconcile
  imports Review_Findings
begin

section \<open>Findings and the review threads on GitHub\<close>

text \<open>
  Models \<open>agent/review/reconcile.py\<close> and the marker of \<open>agent/review/publish.py\<close>: every inline comment
  of a review starts with a marker that names its finding; a reconciliation reads the review threads of
  a pull request, finds the threads of each finding, and syncs the identity of the publication, the last
  human reply and the status. A review thread and its comments are the dictionaries the code reads.
  The encoder and decoder of JSON are parameters (\<open>dumps\<close>, \<open>loads\<close>), as in the rest of the development.
\<close>

subsection \<open>The marker\<close>

definition marker_head :: string where
  "marker_head = ''open-swe-review-comment''"

fun close_marker :: "string \<Rightarrow> string option" where
  "close_marker [] = None"
| "close_marker (c # cs) =
     (if c = CHR ''}'' \<and> starts_with ''-->'' (lstrip cs) then Some [c]
      else map_option (\<lambda>r. c # r) (close_marker cs))"

definition match_marker :: "string \<Rightarrow> string option" where
  "match_marker s =
     (if \<not> starts_with ''<!--'' s then None
      else let a = lstrip (drop 4 s) in
        if \<not> starts_with marker_head a then None
        else let b = drop (length marker_head) a; c = lstrip b in
          if b = c \<or> c = [] \<or> hd c \<noteq> CHR ''{'' then None else close_marker c)"

fun search_marker :: "string \<Rightarrow> string option" where
  "search_marker [] = None"
| "search_marker (c # cs) =
     (case match_marker (c # cs) of Some r \<Rightarrow> Some r | None \<Rightarrow> search_marker cs)"

definition side_field :: "fields \<Rightarrow> json" where
  "side_field f = dict_get f ''side'' (JStr ''RIGHT'')"

definition optional_int :: "json \<Rightarrow> json" where
  "optional_int v = (if as_int v = None then JNull else v)"

definition marker_of_payload :: "json \<Rightarrow> fields option" where
  "marker_of_payload payload =
     (case as_dict payload of
        None \<Rightarrow> None
      | Some d \<Rightarrow>
          (if nonempty_str (field d ''id'') = None \<or> nonempty_str (field d ''file_path'') = None \<or>
              side_field d \<notin> {JStr ''LEFT'', JStr ''RIGHT''}
           then None
           else Some [(''id'', field d ''id''), (''file_path'', field d ''file_path''),
             (''start_line'', optional_int (field d ''start_line'')),
             (''end_line'', optional_int (field d ''end_line'')), (''side'', side_field d)]))"

definition parse_review_comment_marker :: "(string \<Rightarrow> json option) \<Rightarrow> string \<Rightarrow> fields option" where
  "parse_review_comment_marker loads body =
     (case search_marker body of
        None \<Rightarrow> None
      | Some t \<Rightarrow> (case loads t of None \<Rightarrow> None | Some payload \<Rightarrow> marker_of_payload payload))"

definition marker_payload :: "fields \<Rightarrow> json" where
  "marker_payload f =
     JDict [(''id'', dict_get f ''id'' (JStr [])), (''file_path'', dict_get f ''file'' (JStr [])),
       (''start_line'', field f ''start_line''), (''end_line'', field f ''end_line''), (''side'', side_field f)]"

definition comment_marker :: "(json \<Rightarrow> string) \<Rightarrow> fields \<Rightarrow> string" where
  "comment_marker dumps f = ''<!-- '' @ marker_head @ '' '' @ dumps (marker_payload f) @ '' -->''"

subsection \<open>Finding the threads of a finding\<close>

type_synonym thread_match = "fields \<times> int option"

definition bot_names :: "json list" where
  "bot_names = [JStr ''open-swe'', JStr ''open-swe[bot]'']"

definition is_bot_comment :: "fields \<Rightarrow> bool" where
  "is_bot_comment c = (field c ''author'' \<in> set bot_names)"

definition int_list :: "json \<Rightarrow> int list" where
  "int_list v = (case as_list v of None \<Rightarrow> [] | Some xs \<Rightarrow> List.map_filter as_int xs)"

definition str_list :: "json \<Rightarrow> string list" where
  "str_list v = (case as_list v of None \<Rightarrow> [] | Some xs \<Rightarrow> List.map_filter nonempty_str xs)"

definition comments_of :: "fields \<Rightarrow> fields list" where
  "comments_of thread =
     (case as_list (field thread ''comments'') of None \<Rightarrow> [] | Some cs \<Rightarrow> List.map_filter as_dict cs)"

fun replies_after :: "int \<Rightarrow> bool \<Rightarrow> fields list \<Rightarrow> fields list" where
  "replies_after parent seen [] = []"
| "replies_after parent seen (c # cs) =
     (if num_of (field c ''id'') = Some (of_int parent) then replies_after parent True cs
      else if seen \<and> \<not> is_bot_comment c then c # replies_after parent seen cs
      else replies_after parent seen cs)"

definition human_replies :: "fields \<Rightarrow> int \<Rightarrow> fields list" where
  "human_replies thread parent = replies_after parent False (comments_of thread)"

record thread_index =
  ix_threads :: "(string, fields) dict"
  ix_comments :: "(int, fields) dict"
  ix_markers :: "(string, thread_match list) dict"

definition index_comment :: "(string \<Rightarrow> json option) \<Rightarrow> fields \<Rightarrow> thread_index \<Rightarrow> fields \<Rightarrow> thread_index" where
  "index_comment loads thread ix c =
     (case as_int (field c ''id'') of
        None \<Rightarrow> ix
      | Some n \<Rightarrow>
          (let ix1 = ix\<lparr>ix_comments := dict_set n thread (ix_comments ix)\<rparr>
           in case as_str (field c ''body'') of
                None \<Rightarrow> ix1
              | Some body \<Rightarrow>
                  (if \<not> is_bot_comment c then ix1
                   else (case parse_review_comment_marker loads body of
                      None \<Rightarrow> ix1
                    | Some marker \<Rightarrow>
                        (let k = str_or [] (field marker ''id'')
                         in ix1\<lparr>ix_markers :=
                              dict_set k (dict_get (ix_markers ix1) k [] @ [(thread, Some n)]) (ix_markers ix1)\<rparr>)))))"

definition index_thread :: "(string \<Rightarrow> json option) \<Rightarrow> thread_index \<Rightarrow> fields \<Rightarrow> thread_index" where
  "index_thread loads ix thread =
     (let ix1 = (case nonempty_str (field thread ''id'') of
            None \<Rightarrow> ix | Some k \<Rightarrow> ix\<lparr>ix_threads := dict_set k thread (ix_threads ix)\<rparr>)
      in foldl (index_comment loads thread) ix1 (comments_of thread))"

definition index_review_threads :: "(string \<Rightarrow> json option) \<Rightarrow> fields list \<Rightarrow> thread_index" where
  "index_review_threads loads threads =
     foldl (index_thread loads) \<lparr>ix_threads = [], ix_comments = [], ix_markers = []\<rparr> threads"

definition matches_of :: "thread_index \<Rightarrow> fields \<Rightarrow> thread_match list" where
  "matches_of ix f =
     (let by_comment = (case as_int (field f ''github_review_comment_id'') of
            None \<Rightarrow> []
          | Some n \<Rightarrow> (case map_of (ix_comments ix) n of None \<Rightarrow> [] | Some t \<Rightarrow> [(t, Some n)]));
          by_thread = (case nonempty_str (field f ''github_review_thread_id'') of
            None \<Rightarrow> by_comment
          | Some k \<Rightarrow> (case map_of (ix_threads ix) k of
              None \<Rightarrow> by_comment
            | Some t \<Rightarrow> [(t, as_int (field f ''github_review_comment_id''))]))
      in case as_str (field f ''id'') of
           None \<Rightarrow> by_thread
         | Some k \<Rightarrow> (case dict_get (ix_markers ix) k [] of [] \<Rightarrow> by_thread | m # ms \<Rightarrow> m # ms))"

subsection \<open>Syncing one finding\<close>

text \<open>Each step returns the finding and whether the code counts it as updated.\<close>

definition sync_comment :: "int option \<Rightarrow> fields \<Rightarrow> fields \<times> bool" where
  "sync_comment comment_id f =
     (case comment_id of
        None \<Rightarrow> (f, False)
      | Some n \<Rightarrow>
          (let (f1, u1) = (if as_int (field f ''github_review_comment_id'') = None
                 then (dict_set ''github_review_comment_id'' (JInt n) f, True) else (f, False));
               ids = int_list (field f1 ''github_review_comment_ids'')
           in if n \<in> set ids then (f1, u1)
              else (dict_set ''github_review_comment_ids'' (JList (map JInt (ids @ [n]))) f1, True)))"

definition sync_thread_id :: "string option \<Rightarrow> fields \<Rightarrow> fields \<times> bool" where
  "sync_thread_id thread_id f =
     (case thread_id of
        None \<Rightarrow> (f, False)
      | Some k \<Rightarrow>
          (let (f1, u1) = (if nonempty_str (field f ''github_review_thread_id'') = None
                 then (dict_set ''github_review_thread_id'' (JStr k) f, True) else (f, False));
               ids = str_list (field f1 ''github_review_thread_ids'')
           in if k \<in> set ids then (f1, u1)
              else (dict_set ''github_review_thread_ids'' (JList (map JStr (ids @ [k]))) f1, True)))"

definition sync_surface :: "fields \<Rightarrow> int option \<Rightarrow> fields \<Rightarrow> fields \<times> bool" where
  "sync_surface thread comment_id f =
     (case as_str (field f ''id'') of
        None \<Rightarrow> (f, False)
      | Some fid \<Rightarrow>
          (let s0 = coerce_surface f fid;
               s1 = (case comment_id of None \<Rightarrow> s0 | Some n \<Rightarrow> dict_set ''github_review_comment_id'' (JInt n) s0);
               s2 = (case nonempty_str (field thread ''id'') of
                      None \<Rightarrow> s1 | Some k \<Rightarrow> dict_set ''github_review_thread_id'' (JStr k) s1);
               s3 = (if field s2 ''state'' \<in> {JNull, JStr ''not_surfaced''}
                     then dict_set ''state'' (JStr ''surfaced'') s2 else s2)
           in (dict_set ''surface'' (JDict s3) f, True)))"

definition sync_publication_identity :: "fields \<Rightarrow> int option \<Rightarrow> fields \<Rightarrow> fields \<times> bool" where
  "sync_publication_identity thread comment_id f =
     (let (f1, u1) = sync_comment comment_id f;
          (f2, u2) = sync_thread_id (nonempty_str (field thread ''id'')) f1;
          (f3, u3) = sync_surface thread comment_id f2
      in (f3, u1 \<or> u2 \<or> u3))"

definition is_terminal_thread :: "fields \<Rightarrow> bool" where
  "is_terminal_thread thread = (truthy (field thread ''is_resolved'') \<or> truthy (field thread ''is_outdated''))"

fun resolved_ids :: "string list \<Rightarrow> thread_match list \<Rightarrow> string list \<times> bool" where
  "resolved_ids ids [] = (ids, True)"
| "resolved_ids ids ((thread, c) # ms) =
     (case (truthy (field thread ''is_resolved''), nonempty_str (field thread ''id'')) of
        (True, Some k) \<Rightarrow> resolved_ids (if k \<in> set ids then ids else ids @ [k]) ms
      | _ \<Rightarrow> (case resolved_ids ids ms of (ids', ok') \<Rightarrow> (ids', False)))"

definition close_finding :: "fields \<Rightarrow> fields \<times> bool" where
  "close_finding f =
     (let (f1, u1) = (if field f ''status'' = JStr ''open'' then (dict_set ''status'' (JStr ''resolved'') f, True)
            else (f, False));
          (f2, u2) = (if truthy (field f1 ''github_thread_resolved'') then (f1, u1)
            else (dict_set ''github_thread_resolved'' (JBool True) f1, True))
      in case as_str (field f2 ''id'') of
           None \<Rightarrow> (f2, u2)
         | Some fid \<Rightarrow>
             (dict_set ''surface'' (JDict (dict_set ''state'' (JStr ''resolved'') (coerce_surface f2 fid))) f2, True))"

definition sync_thread_status :: "thread_match list \<Rightarrow> fields \<Rightarrow> fields \<times> bool" where
  "sync_thread_status ms f =
     (if ms = [] \<or> \<not> list_all (\<lambda>m. is_terminal_thread (fst m)) ms then (f, False)
      else
        (let known = str_list (field f ''github_resolved_thread_ids'');
             (ids, all_resolved) = resolved_ids known ms;
             f1 = (if ids = known then f
                   else dict_set ''github_resolved_thread_ids'' (JList (map JStr ids)) f)
         in if \<not> all_resolved then (f1, ids \<noteq> known)
            else (case close_finding f1 of (f2, u) \<Rightarrow> (f2, ids \<noteq> known \<or> u))))"

definition clipped_reply :: "fields \<Rightarrow> string" where
  "clipped_reply c =
     (let body = str_or [] (field c ''body'')
      in if length body > 1000 then take 1000 body @ [newline] @ ''...[truncated]'' else body)"

definition reply_interaction :: "int \<Rightarrow> fields \<Rightarrow> fields" where
  "reply_interaction parent c =
     [(''kind'', JStr ''human_reply''), (''github_comment_id'', optional_int (field c ''id'')),
      (''github_parent_comment_id'', JInt parent), (''author'', JStr (str_or [] (field c ''author''))),
      (''body'', JStr (clipped_reply c)), (''created_at'', JStr (str_or [] (field c ''created_at''))),
      (''needs_reassessment'', JBool True)]"

definition record_reply :: "int \<Rightarrow> fields \<Rightarrow> fields \<Rightarrow> fields" where
  "record_reply parent c f =
     snd (add_interaction (reply_interaction parent c)
       (dict_set ''last_reconciliation_note''
          (JStr ''Human replied to this review thread; reassess before taking action.'')
       (dict_set ''last_human_reply_body'' (JStr (clipped_reply c))
       (dict_set ''last_human_reply_author'' (JStr (str_or [] (field c ''author'')))
       (dict_set ''last_human_reply_at'' (JStr (str_or [] (field c ''created_at''))) f)))))"

definition sync_latest_human_reply :: "fields \<Rightarrow> int option \<Rightarrow> fields \<Rightarrow> fields \<times> bool" where
  "sync_latest_human_reply thread comment_id f =
     (case (case comment_id of Some n \<Rightarrow> Some n | None \<Rightarrow> as_int (field f ''github_review_comment_id'')) of
        None \<Rightarrow> (f, False)
      | Some n \<Rightarrow>
          (let replies = human_replies thread n
           in if replies = [] then (f, False)
              else if field f ''last_human_reply_at'' = JStr (str_or [] (field (last replies) ''created_at''))
              then (f, False)
              else (record_reply n (last replies) f, True)))"

fun sync_matches :: "thread_match list \<Rightarrow> fields \<Rightarrow> fields \<times> bool" where
  "sync_matches [] f = (f, False)"
| "sync_matches ((thread, comment_id) # ms) f =
     (let (f1, u1) = sync_publication_identity thread comment_id f;
          (f2, u2) = sync_latest_human_reply thread comment_id f1;
          (f3, u3) = sync_matches ms f2
      in (f3, u1 \<or> u2 \<or> u3))"

definition reconcile_finding :: "thread_index \<Rightarrow> fields \<Rightarrow> fields \<times> bool" where
  "reconcile_finding ix f =
     (let ms = matches_of ix f;
          (f1, u1) = sync_matches ms f;
          (f2, u2) = sync_thread_status ms f1
      in (f2, u1 \<or> u2))"

definition reconcile_findings_with_review_threads ::
  "(string \<Rightarrow> json option) \<Rightarrow> 'w thread_client \<Rightarrow> string \<Rightarrow> fields list \<Rightarrow> ('w, fields list) action" where
  "reconcile_findings_with_review_threads loads client thread_id threads =
     and_then (list_findings client thread_id)
       (\<lambda>findings.
          if findings = [] then give findings
          else let ix = index_review_threads loads threads;
                   synced = map (reconcile_finding ix) findings
               in if list_ex snd synced
                  then and_then (replace_findings client thread_id (map fst synced)) (\<lambda>u. give (map fst synced))
                  else give (map fst synced))"

subsection \<open>The marker comes back\<close>

lemma arrow_before_brace: "starts_with ''-->'' (x @ CHR ''}'' # y) \<Longrightarrow> starts_with ''-->'' x"
  by (cases x; cases "tl x"; cases "tl (tl x)") (auto simp: starts_with_def)

lemma lstrip_append: "lstrip (u @ CHR ''}'' # v) = lstrip u @ CHR ''}'' # v"
  by (induction u) (simp_all add: lstrip_def is_space_c_def ord_c_def Let_def)

lemma contains_lstrip: "contains p (lstrip u) \<Longrightarrow> contains p u"
  unfolding lstrip_def by (metis append_Nil2 contains_append takeWhile_dropWhile_id)

lemma close_marker_end:
  "\<not> contains ''-->'' u \<Longrightarrow> close_marker (u @ ''} -->'' @ others) = Some (u @ ''}'')"
proof (induction u)
  case Nil
  show ?case by (simp add: starts_with_def lstrip_def is_space_c_def ord_c_def Let_def)
next
  case (Cons c u)
  have n: "\<not> contains ''-->'' u" using Cons.prems by simp
  have "\<not> starts_with ''-->'' (lstrip (u @ ''} -->'' @ others))"
    using n contains_lstrip starts_with_contains arrow_before_brace
    by (metis append_Cons lstrip_append)
  with Cons.IH [OF n] show ?case by simp
qed

lemma search_marker_found: "match_marker s = Some r \<Longrightarrow> search_marker s = Some r"
  by (cases s) (simp_all add: match_marker_def starts_with_def)

lemma match_comment:
  assumes "\<not> contains ''-->'' u"
  shows "match_marker (''<!-- '' @ marker_head @ '' '' @ (CHR ''{'' # u @ ''}'') @ '' -->'' @ others) =
    Some (CHR ''{'' # u @ ''}'')"
  using close_marker_end [OF assms, of others]
  by (simp add: match_marker_def marker_head_def starts_with_def lstrip_def is_space_c_def ord_c_def Let_def)

text \<open>
  A comment names its finding. The marker that is put in front of an inline comment is read back from
  the comment, whatever follows it: the finding with its file, lines and side, as long as the finding has
  an id and a file and its encoded text does not close the comment.
\<close>

theorem comment_names_its_finding:
  assumes "loads (dumps (marker_payload f)) = Some (marker_payload f)"
    and "dumps (marker_payload f) = CHR ''{'' # u @ ''}''" "\<not> contains ''-->'' u"
    and "field f ''id'' = JStr (a # fid)" "field f ''file'' = JStr (b # path)"
    and "side_field f = JStr d" "d = ''LEFT'' \<or> d = ''RIGHT''"
  shows "parse_review_comment_marker loads (comment_marker dumps f @ others) =
    Some [(''id'', JStr (a # fid)), (''file_path'', JStr (b # path)),
      (''start_line'', optional_int (field f ''start_line'')),
      (''end_line'', optional_int (field f ''end_line'')), (''side'', JStr d)]"
proof -
  have "search_marker (comment_marker dumps f @ others) = Some (dumps (marker_payload f))"
    using search_marker_found [OF match_comment [OF assms(3), of others]] assms(2)
    by (simp add: comment_marker_def)
  moreover have "dict_get f ''id'' (JStr []) = JStr (a # fid)" "dict_get f ''file'' (JStr []) = JStr (b # path)"
    using assms(4,5) by (auto simp: field_def dict_get_def split: option.splits)
  ultimately show ?thesis using assms(1,6,7)
    by (simp add: parse_review_comment_marker_def marker_of_payload_def marker_payload_def field_def
        dict_get_def nonempty_str_def side_field_def)
qed

theorem comment_names_its_finding_witness:
  "parse_review_comment_marker (\<lambda>t. Some (marker_payload (sample_finding ''f1'' ''high'' ''open'')))
     (comment_marker (\<lambda>v. ''{..}'') (sample_finding ''f1'' ''high'' ''open'') @ ''Title'') =
   Some [(''id'', JStr ''f1''), (''file_path'', JStr ''a.py''), (''start_line'', JNull), (''end_line'', JNull),
     (''side'', JStr ''RIGHT'')]"
proof -
  let ?f = "sample_finding ''f1'' ''high'' ''open''"
  from comment_names_its_finding [where loads = "\<lambda>t. Some (marker_payload ?f)" and dumps = "\<lambda>v. ''{..}''"
      and f = ?f and u = "''..''" and a = "CHR ''f''" and fid = "''1''" and b = "CHR ''a''" and path = "''.py''"
      and d = "''RIGHT''" and others = "''Title''"]
  show ?thesis by (simp add: sample_finding_def field_def dict_get_def side_field_def starts_with_def optional_int_def)
qed

subsection \<open>A reconciliation only resolves\<close>

definition sync_keys :: "string list" where
  "sync_keys =
     [''github_review_comment_id'', ''github_review_comment_ids'', ''github_review_thread_id'',
      ''github_review_thread_ids'', ''surface'', ''last_human_reply_at'', ''last_human_reply_author'',
      ''last_human_reply_body'', ''last_reconciliation_note'', ''interactions'',
      ''github_resolved_thread_ids'', ''github_thread_resolved'']"

text \<open>
  Outside the keys of the publication record, the replies and the status nothing changes; the status is
  treated apart.
\<close>

definition same_elsewhere :: "string list \<Rightarrow> fields \<Rightarrow> fields \<Rightarrow> bool" where
  "same_elsewhere ks f f' \<longleftrightarrow> (\<forall>k. k \<notin> set ks \<longrightarrow> field f' k = field f k)"

lemma same_refl [simp]: "same_elsewhere ks f f"
  by (simp add: same_elsewhere_def)

lemma same_trans: "same_elsewhere ks f g \<Longrightarrow> same_elsewhere ks g h \<Longrightarrow> same_elsewhere ks f h"
  by (simp add: same_elsewhere_def)

lemma same_set [simp]: "k \<in> set ks \<Longrightarrow> same_elsewhere ks f (dict_set k v g) \<longleftrightarrow> same_elsewhere ks f g"
  by (auto simp: same_elsewhere_def)

definition sync_ok :: "fields \<Rightarrow> fields \<times> bool \<Rightarrow> bool" where
  "sync_ok f r \<longleftrightarrow> same_elsewhere sync_keys f (fst r) \<and> (\<not> snd r \<longrightarrow> fst r = f)"

lemma sync_ok_same [simp]: "sync_ok f (f, u)"
  by (simp add: sync_ok_def)

lemma sync_ok_then: "sync_ok f (g, u) \<Longrightarrow> sync_ok g (h, v) \<Longrightarrow> sync_ok f (h, u \<or> v)"
  by (auto simp: sync_ok_def intro: same_trans)

lemma sync_comment_ok: "sync_ok f (sync_comment comment_id f)"
  by (simp add: sync_comment_def sync_ok_def sync_keys_def Let_def split: option.split)

lemma sync_thread_id_ok: "sync_ok f (sync_thread_id thread_id f)"
  by (simp add: sync_thread_id_def sync_ok_def sync_keys_def Let_def split: option.split)

lemma sync_surface_ok: "sync_ok f (sync_surface thread comment_id f)"
  by (simp add: sync_surface_def sync_ok_def sync_keys_def Let_def split: option.split)

lemma sync_identity_ok: "sync_ok f (sync_publication_identity thread comment_id f)"
proof -
  obtain f1 u1 where 1: "sync_comment comment_id f = (f1, u1)" by fastforce
  obtain f2 u2 where 2: "sync_thread_id (nonempty_str (field thread ''id'')) f1 = (f2, u2)" by fastforce
  obtain f3 u3 where 3: "sync_surface thread comment_id f2 = (f3, u3)" by fastforce
  have "sync_ok f (f1, u1)" "sync_ok f1 (f2, u2)" "sync_ok f2 (f3, u3)"
    using sync_comment_ok [of f comment_id] sync_thread_id_ok [of f1 "nonempty_str (field thread ''id'')"]
      sync_surface_ok [of f2 thread comment_id] 1 2 3 by simp_all
  then have "sync_ok f (f3, u1 \<or> u2 \<or> u3)" by (intro sync_ok_then)
  then show ?thesis by (simp add: sync_publication_identity_def 1 2 3)
qed

lemma sync_reply_ok: "sync_ok f (sync_latest_human_reply thread comment_id f)"
  by (simp add: sync_latest_human_reply_def sync_ok_def record_reply_def add_interaction_def sync_keys_def Let_def
      split: option.split)

lemma sync_matches_ok: "sync_ok f (sync_matches ms f)"
proof (induction ms f rule: sync_matches.induct)
  case (2 thread comment_id ms f)
  obtain f1 u1 where 1: "sync_publication_identity thread comment_id f = (f1, u1)" by fastforce
  obtain f2 u2 where 2: "sync_latest_human_reply thread comment_id f1 = (f2, u2)" by fastforce
  obtain f3 u3 where 3: "sync_matches ms f2 = (f3, u3)" by fastforce
  have "sync_ok f (f1, u1)" "sync_ok f1 (f2, u2)" "sync_ok f2 (f3, u3)"
    using sync_identity_ok [of f thread comment_id] sync_reply_ok [of f1 thread comment_id] "2.IH" 1 2 3
    by auto
  then have "sync_ok f (f3, u1 \<or> u2 \<or> u3)" by (intro sync_ok_then)
  with 1 2 3 show ?case by simp
qed simp

definition resolved_match :: "thread_match \<Rightarrow> bool" where
  "resolved_match m = (truthy (field (fst m) ''is_resolved'') \<and> nonempty_str (field (fst m) ''id'') \<noteq> None)"

lemma resolved_ids_all: "snd (resolved_ids ids ms) \<longleftrightarrow> list_all resolved_match ms"
  by (induction ids ms rule: resolved_ids.induct)
    (auto simp: resolved_match_def split: prod.splits bool.splits option.splits)

lemma close_finding_facts:
  "same_elsewhere (''status'' # sync_keys) f (fst (close_finding f))"
  "field (fst (close_finding f)) ''status'' =
     (if field f ''status'' = JStr ''open'' then JStr ''resolved'' else field f ''status'')"
  "\<not> snd (close_finding f) \<Longrightarrow> fst (close_finding f) = f"
  by (auto simp: close_finding_def sync_keys_def Let_def split: option.splits)

definition only_resolves :: "thread_match list \<Rightarrow> fields \<Rightarrow> fields \<Rightarrow> bool" where
  "only_resolves ms f f' \<longleftrightarrow>
     same_elsewhere (''status'' # sync_keys) f f' \<and>
     (field f' ''status'' = field f ''status'' \<or>
      field f ''status'' = JStr ''open'' \<and> field f' ''status'' = JStr ''resolved'' \<and>
        ms \<noteq> [] \<and> list_all resolved_match ms)"

lemma sync_status_ok:
  "only_resolves ms f (fst (sync_thread_status ms f)) \<and>
     (\<not> snd (sync_thread_status ms f) \<longrightarrow> fst (sync_thread_status ms f) = f)"
proof (cases "ms = [] \<or> \<not> list_all (\<lambda>m. is_terminal_thread (fst m)) ms")
  case True
  then show ?thesis by (simp add: sync_thread_status_def only_resolves_def)
next
  case False
  obtain ids every where r: "resolved_ids (str_list (field f ''github_resolved_thread_ids'')) ms = (ids, every)"
    by fastforce
  let ?f1 = "if ids = str_list (field f ''github_resolved_thread_ids'') then f
     else dict_set ''github_resolved_thread_ids'' (JList (map JStr ids)) f"
  have f1: "same_elsewhere (''status'' # sync_keys) f ?f1" "field ?f1 ''status'' = field f ''status''"
    by (simp_all add: sync_keys_def)
  have every: "every = list_all resolved_match ms" using resolved_ids_all [of _ ms] r by (metis snd_conv)
  show ?thesis
  proof (cases every)
    case True
    have s: "sync_thread_status ms f =
       (fst (close_finding ?f1), ids \<noteq> str_list (field f ''github_resolved_thread_ids'') \<or> snd (close_finding ?f1))"
      using False r True by (simp add: sync_thread_status_def Let_def split_beta)
    show ?thesis
      using same_trans [OF f1(1) close_finding_facts(1)] close_finding_facts(2,3) [of ?f1] f1(2) False True every
      unfolding s only_resolves_def by (auto split: if_splits)
  next
    case no: False
    have "sync_thread_status ms f = (?f1, ids \<noteq> str_list (field f ''github_resolved_thread_ids''))"
      using False r no by (simp add: sync_thread_status_def Let_def)
    with f1 show ?thesis by (simp add: only_resolves_def)
  qed
qed

lemma reconcile_finding_ok:
  "only_resolves (matches_of ix f) f (fst (reconcile_finding ix f))"
  "\<not> snd (reconcile_finding ix f) \<Longrightarrow> fst (reconcile_finding ix f) = f"
proof -
  obtain f1 u1 where 1: "sync_matches (matches_of ix f) f = (f1, u1)" by fastforce
  have r: "reconcile_finding ix f = (fst (sync_thread_status (matches_of ix f) f1),
      u1 \<or> snd (sync_thread_status (matches_of ix f) f1))"
    by (simp add: reconcile_finding_def 1 Let_def split_beta)
  have m: "same_elsewhere sync_keys f f1" "\<not> u1 \<Longrightarrow> f1 = f"
    using sync_matches_ok [of f "matches_of ix f"] 1 by (auto simp: sync_ok_def)
  then have "same_elsewhere (''status'' # sync_keys) f f1" "field f1 ''status'' = field f ''status''"
    by (auto simp: same_elsewhere_def sync_keys_def)
  with sync_status_ok [of "matches_of ix f" f1] show "only_resolves (matches_of ix f) f (fst (reconcile_finding ix f))"
    unfolding r only_resolves_def by (auto intro: same_trans)
  show "\<not> snd (reconcile_finding ix f) \<Longrightarrow> fst (reconcile_finding ix f) = f"
    using sync_status_ok [of "matches_of ix f" f1] m(2) unfolding r by auto
qed

lemma update_fresh: "k \<notin> set (dict_keys d) \<Longrightarrow> dict_set k v d = d @ [(k, v)]"
  by (induction d) (auto simp: dict_set_def dict_keys_def)

lemma incoming_distinct:
  "distinct (dict_keys d @ map id_of gs) \<Longrightarrow>
     foldl (\<lambda>d f. dict_set (id_of f) f d) d gs = d @ map (\<lambda>g. (id_of g, g)) gs"
proof (induction gs arbitrary: d)
  case (Cons g gs)
  then have "dict_set (id_of g) g d = d @ [(id_of g, g)]" by (simp add: update_fresh)
  with Cons show ?case by (simp add: dict_keys_def)
qed simp

lemma merge_own_snapshot:
  "map id_of gs = map id_of fs \<Longrightarrow> distinct (map id_of fs) \<Longrightarrow> merge_latest (incoming_by_id gs) fs = gs"
proof -
  assume ids: "map id_of gs = map id_of fs" "distinct (map id_of fs)"
  then have "incoming_by_id gs = map (\<lambda>g. (id_of g, g)) gs"
    using incoming_distinct [of "[]" gs] by (simp add: incoming_by_id_def dict_keys_def)
  moreover have "merge_latest (map (\<lambda>g. (id_of g, g)) gs) fs = gs"
    using ids
  proof (induction fs arbitrary: gs)
    case (Cons f fs)
    then obtain g hs where g: "gs = g # hs" "id_of g = id_of f" "map id_of hs = map id_of fs"
      by (cases gs) auto
    with Cons.prems(2) have "id_of f \<notin> set (map id_of hs)" by simp
    then have "AList.delete (id_of f) (map (\<lambda>g. (id_of g, g)) hs) = map (\<lambda>g. (id_of g, g)) hs"
      by (intro delete_id) (auto simp: image_iff)
    with g Cons.IH [of hs] Cons.prems(2) show ?case by (simp add: dict_get_def)
  qed simp
  ultimately show ?thesis by simp
qed

lemma reconciled_id: "field (fst (reconcile_finding ix f)) ''id'' = field f ''id''"
  using reconcile_finding_ok(1) [of ix f] by (simp add: only_resolves_def same_elsewhere_def sync_keys_def)

lemma list_stored:
  assumes "faithful_client client t stored"
  shows "list_findings client t w = (Inr (stored w), w)"
proof -
  obtain metadata where "get_thread_metadata_strict client t w = (Inr metadata, w)"
    "coerce_findings_list (field metadata ''findings'') = stored w" by (rule read_stored [OF assms])
  then show ?thesis by (simp add: list_findings_def get_thread_metadata_def catch_all_def and_then_def give_def)
qed

lemma reconcile_stores:
  assumes "faithful_client client t stored" "distinct (map id_of (stored w))"
  shows "stored (snd (reconcile_findings_with_review_threads loads client t threads w)) =
    map (\<lambda>f. fst (reconcile_finding (index_review_threads loads threads) f)) (stored w)"
proof -
  let ?ix = "index_review_threads loads threads"
  let ?gs = "map (\<lambda>f. fst (reconcile_finding ?ix f)) (stored w)"
  have l: "list_findings client t w = (Inr (stored w), w)" by (rule list_stored [OF assms(1)])
  have ids: "map id_of ?gs = map id_of (stored w)" by (simp add: id_of_def reconciled_id)
  show ?thesis
  proof (cases "list_ex (\<lambda>f. snd (reconcile_finding ?ix f)) (stored w)")
    case True
    have "all_have_ids ?gs"
      using stored_have_ids [OF assms(1), of w] by (simp add: all_have_ids_def list_all_iff has_id_iff reconciled_id)
    then obtain w' where "write_findings client t ?gs w = (Inr (), w')" "stored w' = ?gs"
      by (rule write_stored [OF assms(1)])
    moreover obtain metadata where "get_thread_metadata_strict client t w = (Inr metadata, w)"
      "coerce_findings_list (field metadata ''findings'') = stored w" by (rule read_stored [OF assms(1)])
    ultimately have "stored (snd (replace_findings client t ?gs w)) = ?gs" "isl (fst (replace_findings client t ?gs w)) = False"
      using merge_own_snapshot [OF ids assms(2)] by (simp_all add: replace_findings_def and_then_def)
    with l True show ?thesis
      by (auto simp: reconcile_findings_with_review_threads_def and_then_def give_def Let_def list_ex_iff comp_def
          split: prod.splits sum.splits)
  next
    case False
    then have "?gs = stored w" using reconcile_finding_ok(2) [of ?ix] by (auto simp: list_ex_iff intro: map_idI)
    with l False show ?thesis
      by (auto simp: reconcile_findings_with_review_threads_def and_then_def give_def Let_def list_ex_iff)
  qed
qed

text \<open>
  C30. A reconciliation only resolves. Reading the review threads of a pull request into the findings of a
  reviewer thread keeps every finding; it changes only the publication record, the replies and the
  status, and the status only from open to resolved, when all threads of the finding are resolved. In
  particular a dismissed finding stays dismissed, and an outdated thread does not close a finding.
\<close>

theorem reconciliation_only_resolves:
  assumes "faithful_client client t stored" "distinct (map id_of (stored w))"
  shows "list_all2 (\<lambda>f f'. only_resolves (matches_of (index_review_threads loads threads) f) f f')
    (stored w) (stored (snd (reconcile_findings_with_review_threads loads client t threads w)))"
  by (simp add: reconcile_stores [OF assms] list.rel_map reconcile_finding_ok(1) list.rel_refl)

definition resolved_thread :: fields where
  "resolved_thread =
     [(''id'', JStr ''PRRT_1''), (''is_resolved'', JBool True),
      (''comments'', JList [JDict [(''id'', JInt 7), (''author'', JStr ''open-swe[bot]''), (''body'', JStr [])],
         JDict [(''id'', JInt 8), (''author'', JStr ''ann''), (''body'', JStr ''fixed'')]])]"

definition published_finding :: "string \<Rightarrow> fields" where
  "published_finding status =
     dict_set ''github_review_comment_id'' (JInt 7) (sample_finding ''f1'' ''high'' status)"

theorem reconciliation_only_resolves_witness:
  "map (\<lambda>f. field f ''status'') (held (snd (reconcile_findings_with_review_threads (\<lambda>t. None) memory_client ''t''
       [resolved_thread] [published_finding ''open'']))) = [JStr ''resolved''] \<and>
   map (\<lambda>f. field f ''severity'') (held (snd (reconcile_findings_with_review_threads (\<lambda>t. None) memory_client ''t''
       [resolved_thread] [published_finding ''open'']))) = [JStr ''high'']"
proof -
  have h: "held [published_finding ''open''] = [published_finding ''open'']" by code_simp
  then have d: "distinct (map id_of (held [published_finding ''open'']))" by simp
  have s: "map (\<lambda>f. field f ''status'') (held (snd (reconcile_findings_with_review_threads (\<lambda>t. None)
      memory_client ''t'' [resolved_thread] [published_finding ''open'']))) = [JStr ''resolved'']" by code_simp
  have "field (published_finding ''open'') ''severity'' = JStr ''high''" by code_simp
  then have keep: "field g ''severity'' = JStr ''high''" if "only_resolves ms (published_finding ''open'') g" for ms g
    using that by (simp add: only_resolves_def same_elsewhere_def sync_keys_def)
  define r where "r = held (snd (reconcile_findings_with_review_threads (\<lambda>t. None) memory_client ''t''
      [resolved_thread] [published_finding ''open'']))"
  have "list_all2 (\<lambda>f f'. only_resolves (matches_of (index_review_threads (\<lambda>t. None) [resolved_thread]) f) f f')
      [published_finding ''open''] r"
    using reconciliation_only_resolves [OF memory_client_faithful d, of "\<lambda>t. None" "[resolved_thread]" "''t''"]
    unfolding h r_def .
  then have "map (\<lambda>f. field f ''severity'') r = [JStr ''high'']" by (auto simp: list_all2_Cons1 keep)
  with s show ?thesis unfolding r_def by blast
qed

end
