(* ===== verification/Review_Tools.thy ===== *)
theory Review_Tools
  imports Review_Reconcile
begin

section \<open>The tools that write findings\<close>

text \<open>
  Models \<open>agent/tools/add_finding.py\<close>, \<open>update_finding.py\<close> and \<open>resolve_finding_thread.py\<close>: recording a
  finding after its arguments and its anchor were checked, changing a finding, and closing its review
  threads on GitHub. A tool answers with a dictionary. The run (its configuration, token, source of ids)
  and the GitHub API for the pull request are parameters; the outcome data set is a change of the world.
  Dashes in the messages are hyphens here.
\<close>

subsection \<open>The run\<close>

record 'w pr_github =
  pg_diff :: "('w, string option) action"
  pg_threads :: "('w, fields list) action"
  pg_thread_of_comment :: "int \<Rightarrow> ('w, string option) action"
  pg_reply :: "int \<Rightarrow> string \<Rightarrow> ('w, json) action"
  pg_resolve :: "string \<Rightarrow> ('w, bool) action"

type_synonym diff_context = "(string, side_lines) dict option \<times> string"

record 'w review_env =
  re_client :: "'w thread_client"
  re_digest :: "json \<Rightarrow> string"
  re_loads :: "string \<Rightarrow> json option"
  re_configurable :: json
  re_token :: "string option"
  re_github :: "'w pr_github"
  re_new_id :: "'w \<Rightarrow> string \<times> 'w"
  re_outcome :: "fields \<Rightarrow> string \<Rightarrow> 'w \<Rightarrow> 'w"

definition runtime_thread_id :: "json \<Rightarrow> string result" where
  "runtime_thread_id configurable =
     (case nonempty_str (jget configurable ''thread_id'') of
        None \<Rightarrow> Inl (Raised ''RuntimeError'' ''No thread_id available in runtime config'')
      | Some t \<Rightarrow> Inr t)"

definition refused :: "string \<Rightarrow> fields" where
  "refused msg = [(''success'', JBool False), (''error'', JStr msg)]"

definition storage_guard :: "string \<Rightarrow> ('w, fields) action \<Rightarrow> ('w, fields) action" where
  "storage_guard thread_id m =
     catch_class ''ReviewerThreadMissingError'' m (\<lambda>e. give (thread_missing_tool_result thread_id e))"

definition severities :: "string list" where
  "severities = [''low'', ''medium'', ''high'', ''critical'']"

definition confidences :: "string list" where
  "confidences = [''low'', ''medium'', ''high'']"

subsection \<open>Adding\<close>

definition resolve_diff_context ::
  "'w review_env \<Rightarrow> diff_context \<Rightarrow> diff_context \<Rightarrow> ('w, diff_context) action" where
  "resolve_diff_context env in_state in_config =
     (case in_state of
        (Some ls, diff_text) \<Rightarrow> give (Some ls, diff_text)
      | (None, _) \<Rightarrow>
          (case in_config of
             (Some ls, diff_text) \<Rightarrow> give (Some ls, diff_text)
           | (None, _) \<Rightarrow>
               (let repo = jget (re_configurable env) ''repo''
                in if as_dict repo \<noteq> None \<and> as_str (jget repo ''owner'') \<noteq> None \<and>
                      as_str (jget repo ''name'') \<noteq> None \<and>
                      as_int (jget (re_configurable env) ''pr_number'') \<noteq> None \<and>
                      re_token env \<noteq> None \<and> re_token env \<noteq> Some []
                   then and_then (pg_diff (re_github env))
                     (\<lambda>diff. case diff of
                        None \<Rightarrow> give (None, [])
                      | Some diff_text \<Rightarrow> give (Some (compute_diff_line_set diff_text), diff_text))
                   else give (None, []))))"

definition anchored :: "finding_args \<Rightarrow> finding_args" where
  "anchored a =
     (let a1 = (if fa_start_line a \<noteq> None \<and> fa_end_line a = None then a\<lparr>fa_end_line := fa_start_line a\<rparr> else a)
      in if fa_start_line a1 = None \<and> fa_end_line a1 \<noteq> None then a1\<lparr>fa_start_line := fa_end_line a1\<rparr> else a1)"

definition side_of :: "string \<Rightarrow> side" where
  "side_of s = (if s = ''LEFT'' then LeftSide else RightSide)"

definition argument_error :: "finding_args \<Rightarrow> string option" where
  "argument_error a =
     (if normalize_finding_title (fa_title a) [] = default_finding_title
      then Some ''title must be a non-empty generated headline''
      else if fa_severity a \<notin> set severities then Some (''Invalid severity: '' @ fa_severity a)
      else if fa_confidence a \<notin> set confidences then Some (''Invalid confidence: '' @ fa_confidence a)
      else if fa_side a \<notin> {''LEFT'', ''RIGHT''} then Some (''Invalid side: '' @ fa_side a)
      else (case (fa_start_line a, fa_end_line a) of
         (Some s, Some e) \<Rightarrow> (if e < s then Some ''end_line must be >= start_line'' else None)
       | _ \<Rightarrow> None))"

definition out_of_diff :: fields where
  "out_of_diff =
     [(''success'', JBool False), (''in_diff'', JBool False),
      (''error'', JStr (''Out-of-diff findings are disabled. This finding's lines are not '' @
         ''part of this PR's diff. Only file findings anchored to a line the '' @
         ''PR changed. Do not re-anchor or retry.''))]"

definition added :: "fields \<Rightarrow> bool \<Rightarrow> bool \<Rightarrow> fields" where
  "added finding created dropped =
     [(''success'', JBool True), (''finding_id'', field finding ''id''), (''duplicate'', JBool (\<not> created))] @
     (if dropped
      then [(''suggestion_dropped'', JBool True),
        (''warning'', JStr (''Suggestion exceeded the 4-line cap and was '' @
           ''dropped - the finding was recorded with description only. Only '' @
           ''include `suggestion` for small, obvious fixes.''))]
      else [])"

definition completed_args ::
  "finding_args \<Rightarrow> string \<Rightarrow> string \<Rightarrow> finding_args" where
  "completed_args a diff_text sha =
     a\<lparr>fa_title := Some (normalize_finding_title (fa_title a) []),
       fa_suggestion := fst (clip_suggestion (fa_suggestion a)),
       fa_diff_hunk := (if diff_text = [] then None
          else extract_diff_hunk diff_text (fa_file a) (fa_start_line a) (fa_end_line a)),
       fa_sha := sha, fa_in_diff := True\<rparr>"

definition in_diff :: "(string, side_lines) dict option \<Rightarrow> finding_args \<Rightarrow> bool" where
  "in_diff line_set a =
     (case line_set of
        None \<Rightarrow> True
      | Some ls \<Rightarrow> is_range_in_diff ls (fa_file a) (fa_start_line a) (fa_end_line a) (side_of (fa_side a)))"

definition fresh_id :: "'w review_env \<Rightarrow> ('w, string) action" where
  "fresh_id env w = (case re_new_id env w of (fid, w') \<Rightarrow> (Inr fid, w'))"

definition add_finding ::
  "'w review_env \<Rightarrow> diff_context \<Rightarrow> diff_context \<Rightarrow> finding_args \<Rightarrow> ('w, fields) action" where
  "add_finding env in_state in_config args =
     (let a = anchored args
      in case argument_error a of
           Some msg \<Rightarrow> give (refused msg)
         | None \<Rightarrow>
             and_then (resolve_diff_context env in_state in_config)
               (\<lambda>(line_set, diff_text).
                  if \<not> in_diff line_set a then give out_of_diff
                  else (case runtime_thread_id (re_configurable env) of
                     Inl e \<Rightarrow> fail e
                   | Inr t \<Rightarrow>
                       storage_guard t
                         (and_then (resolve_review_head_sha (re_client env) t (re_configurable env))
                           (\<lambda>sha. and_then (fresh_id env)
                             (\<lambda>fid. and_then
                               (append_finding (re_digest env) (re_client env) t
                                  (new_finding (re_digest env) fid (completed_args a diff_text sha)))
                               (\<lambda>(finding, created).
                                  give (added finding created (snd (clip_suggestion (fa_suggestion a)))))))))))"

subsection \<open>Closing the review threads of a finding\<close>

definition normalize_note :: "string option \<Rightarrow> string option" where
  "normalize_note note =
     (case note of None \<Rightarrow> None | Some n \<Rightarrow> (if strip n = [] then None else Some (strip n)))"

definition comment_ids_for_finding :: "fields \<Rightarrow> int list" where
  "comment_ids_for_finding f =
     (let ids = int_list (field f ''github_review_comment_ids'')
      in case as_int (field f ''github_review_comment_id'') of
           None \<Rightarrow> ids | Some n \<Rightarrow> (if n \<in> set ids then ids else n # ids))"

definition thread_ids_for_finding :: "fields \<Rightarrow> string list" where
  "thread_ids_for_finding f =
     (let ids = str_list (field f ''github_review_thread_ids'')
      in case nonempty_str (field f ''github_review_thread_id'') of
           None \<Rightarrow> ids | Some k \<Rightarrow> (if k \<in> set ids then ids else k # ids))"

definition resolution_body :: "fields \<Rightarrow> string \<Rightarrow> string option" where
  "resolution_body f note =
     (case filter (\<lambda>s. strip s \<noteq> [])
        (List.map_filter as_str [JStr note, field f ''resolution_note'', field f ''last_update_note'']) of
        [] \<Rightarrow> None
      | s # ss \<Rightarrow> Some (strip s))"

definition finding_with_backfill :: "'w review_env \<Rightarrow> string \<Rightarrow> string \<Rightarrow> ('w, fields option) action" where
  "finding_with_backfill env t fid =
     and_then (get_finding (re_client env) t fid)
       (\<lambda>finding. case finding of
          None \<Rightarrow> give None
        | Some f \<Rightarrow>
            if thread_ids_for_finding f \<noteq> [] \<or> comment_ids_for_finding f \<noteq> [] then give (Some f)
            else and_then (pg_threads (re_github env))
              (\<lambda>threads. if threads = [] then give (Some f)
                 else and_then (reconcile_findings_with_review_threads (re_loads env) (re_client env) t threads)
                   (\<lambda>u. get_finding (re_client env) t fid)))"

fun add_comment_threads :: "'w pr_github \<Rightarrow> int list \<Rightarrow> string list \<Rightarrow> ('w, string list) action" where
  "add_comment_threads gh [] ids = give ids"
| "add_comment_threads gh (c # cs) ids =
     and_then (pg_thread_of_comment gh c)
       (\<lambda>found. add_comment_threads gh cs
          (case found of
             Some (k # ks) \<Rightarrow> (if (k # ks) \<in> set ids then ids else ids @ [k # ks])
           | _ \<Rightarrow> ids))"

record closing =
  cl_resolved :: "string list"
  cl_posted :: "int list"
  cl_count :: nat

definition post_resolution :: "'w pr_github \<Rightarrow> string \<Rightarrow> int option \<Rightarrow> closing \<Rightarrow> ('w, closing) action" where
  "post_resolution gh body primary s =
     (case primary of
        None \<Rightarrow> give s
      | Some c \<Rightarrow>
          (if c = 0 \<or> c \<in> set (cl_posted s) then give s
           else and_then (pg_reply gh c body)
             (\<lambda>reply. give (if truthy reply \<and> as_int (jget reply ''id'') \<noteq> None
                then s\<lparr>cl_posted := cl_posted s @ [c]\<rparr> else s))))"

fun close_threads ::
  "'w pr_github \<Rightarrow> string \<Rightarrow> string list \<Rightarrow> int list \<Rightarrow> closing \<Rightarrow> ('w, closing) action" where
  "close_threads gh body [] cs s = give s"
| "close_threads gh body (k # ks) cs s =
     (if k \<in> set (cl_resolved s) then close_threads gh body ks (tl cs) s
      else and_then (post_resolution gh body (case cs of [] \<Rightarrow> None | c # ds \<Rightarrow> Some c) s)
        (\<lambda>s1. and_then (pg_resolve gh k)
          (\<lambda>ok1. close_threads gh body ks (tl cs)
             (if ok1 then s1\<lparr>cl_resolved := cl_resolved s1 @ [k], cl_count := cl_count s1 + 1\<rparr> else s1))))"

definition closing_updates :: "string \<Rightarrow> string \<Rightarrow> string list \<Rightarrow> closing \<Rightarrow> bool \<Rightarrow> fields" where
  "closing_updates status note ids s every =
     [(''status'', JStr status), (''github_review_thread_id'', JStr (hd ids)),
      (''github_review_thread_ids'', JList (map JStr ids)),
      (''github_resolved_thread_ids'', JList (map JStr (cl_resolved s))),
      (''github_thread_resolved'', JBool every), (''last_reconciliation_note'', JStr note),
      (''resolution_note'', JStr note)] @
     (if cl_posted s = [] then []
      else [(''github_posted_resolution_comment_ids'', JList (map JInt (cl_posted s)))])"

definition closing_surface :: "string list \<Rightarrow> bool \<Rightarrow> fields" where
  "closing_surface ids every =
     [(''state'', JStr (if every then ''resolved'' else ''resolve_pending'')),
      (''github_review_thread_id'', JStr (hd ids)),
      (''last_error'', if every then JNull else JStr ''Not all GitHub threads resolved'')]"

definition closed :: "fields option \<Rightarrow> nat \<Rightarrow> fields" where
  "closed finding count =
     [(''success'', JBool True), (''finding'', case finding of None \<Rightarrow> JNull | Some f \<Rightarrow> JDict f),
      (''resolved_thread_count'', JInt (int count))]"

definition close_on_github ::
  "'w review_env \<Rightarrow> string \<Rightarrow> string \<Rightarrow> string \<Rightarrow> string \<Rightarrow> fields \<Rightarrow> string list \<Rightarrow> ('w, fields) action" where
  "close_on_github env t fid status note f ids =
     (case resolution_body f note of
        None \<Rightarrow> give (refused ''Missing resolution note'')
      | Some body \<Rightarrow>
          and_then (close_threads (re_github env) body ids (comment_ids_for_finding f)
              \<lparr>cl_resolved = str_list (field f ''github_resolved_thread_ids''),
               cl_posted = int_list (field f ''github_posted_resolution_comment_ids''), cl_count = 0\<rparr>)
            (\<lambda>s. let every = list_all (\<lambda>k. k \<in> set (cl_resolved s)) ids
                 in if cl_count s = 0 \<and> \<not> every then give (refused ''GitHub did not resolve the review thread'')
                    else and_then (update_finding_fields (re_client env) t fid (closing_updates status note ids s every))
                      (\<lambda>u. and_then (update_finding_surface (re_client env) t fid (closing_surface ids every))
                        (\<lambda>v. and_then (get_finding (re_client env) t fid)
                          (\<lambda>finding. give (closed finding (cl_count s)))))))"

definition close_finding_thread ::
  "'w review_env \<Rightarrow> string \<Rightarrow> string \<Rightarrow> string \<Rightarrow> ('w, fields) action" where
  "close_finding_thread env fid status note =
     (case runtime_thread_id (re_configurable env) of
        Inl e \<Rightarrow> fail e
      | Inr t \<Rightarrow>
          and_then (finding_with_backfill env t fid)
            (\<lambda>finding. case finding of
               None \<Rightarrow> give (refused (''No finding found with id '' @ fid))
             | Some f \<Rightarrow>
                 and_then (add_comment_threads (re_github env) (comment_ids_for_finding f) (thread_ids_for_finding f))
                   (\<lambda>ids. if ids = [] then give (refused ''Could not resolve GitHub review thread id'')
                      else close_on_github env t fid status note f ids)))"

definition has_pull_request :: "json \<Rightarrow> bool" where
  "has_pull_request configurable =
     (as_dict (jget configurable ''repo'') \<noteq> None \<and> truthy (jget (jget configurable ''repo'') ''owner'') \<and>
      truthy (jget (jget configurable ''repo'') ''name'') \<and> as_int (jget configurable ''pr_number'') \<noteq> None)"

definition emit_outcome :: "'w review_env \<Rightarrow> json \<Rightarrow> string \<Rightarrow> fields \<Rightarrow> ('w, fields) action" where
  "emit_outcome env finding status answer w =
     (Inr answer, case as_dict finding of None \<Rightarrow> w | Some f \<Rightarrow> re_outcome env f status w)"

definition note_required :: string where
  "note_required = ''Resolving or dismissing a finding requires a note with the message to post.''"

definition resolve_finding_thread ::
  "'w review_env \<Rightarrow> string \<Rightarrow> string \<Rightarrow> string \<Rightarrow> ('w, fields) action" where
  "resolve_finding_thread env fid note status =
     (if status \<notin> {''resolved'', ''dismissed''} then give (refused (''Invalid status: '' @ status))
      else (case normalize_note (Some note) of
         None \<Rightarrow> give (refused note_required)
       | Some n \<Rightarrow>
           if \<not> has_pull_request (re_configurable env) then give (refused ''Missing repo or PR info in run config'')
           else if re_token env = None \<or> re_token env = Some [] then give (refused ''No GitHub token available'')
           else and_then
             (storage_guard (str_or [] (jget (re_configurable env) ''thread_id''))
                (close_finding_thread env fid status n))
             (\<lambda>answer. if truthy (field answer ''success'')
                then emit_outcome env (field answer ''finding'') status answer else give answer)))"

subsection \<open>Updating\<close>

record update_args =
  up_status :: "string option"
  up_severity :: "string option"
  up_confidence :: "string option"
  up_title :: "string option"
  up_description :: "string option"
  up_suggestion :: "string option"
  up_note :: "string option"

definition statuses :: "string list" where
  "statuses = [''open'', ''resolved'', ''dismissed'']"

definition closes :: "string option \<Rightarrow> bool" where
  "closes status = (status \<in> {Some ''resolved'', Some ''dismissed''})"

definition update_error :: "update_args \<Rightarrow> string option" where
  "update_error u =
     (let bad = (\<lambda>v allowed. case v of None \<Rightarrow> False | Some s \<Rightarrow> s \<notin> set allowed)
      in if bad (up_status u) statuses then Some (''Invalid status: '' @ the (up_status u))
         else if bad (up_severity u) severities then Some (''Invalid severity: '' @ the (up_severity u))
         else if bad (up_confidence u) confidences then Some (''Invalid confidence: '' @ the (up_confidence u))
         else if closes (up_status u) \<and> normalize_note (up_note u) = None then Some note_required
         else (case up_title u of
            None \<Rightarrow> None
          | Some t \<Rightarrow> (if normalize_finding_title (Some t) [] = default_finding_title
                       then Some ''title must be a non-empty generated headline'' else None)))"

definition given :: "string \<Rightarrow> string option \<Rightarrow> fields" where
  "given k v = (case v of None \<Rightarrow> [] | Some s \<Rightarrow> [(k, JStr s)])"

definition dropped_suggestion :: "update_args \<Rightarrow> bool" where
  "dropped_suggestion u = (up_suggestion u \<noteq> Some [] \<and> snd (clip_suggestion (up_suggestion u)))"

definition suggestion_update :: "update_args \<Rightarrow> fields" where
  "suggestion_update u =
     (case up_suggestion u of
        None \<Rightarrow> []
      | Some s \<Rightarrow>
          (if s = [] then [(''suggestion'', JNull)]
           else if dropped_suggestion u then [] else [(''suggestion'', JStr s)]))"

definition update_fields :: "update_args \<Rightarrow> fields" where
  "update_fields u =
     given ''status'' (up_status u) @ given ''severity'' (up_severity u) @
     given ''confidence'' (up_confidence u) @
     given ''title'' (map_option (\<lambda>t. normalize_finding_title (Some t) []) (up_title u)) @
     given ''description'' (up_description u) @ suggestion_update u @
     given ''last_update_note'' (normalize_note (up_note u)) @
     (if closes (up_status u) then given ''resolution_note'' (normalize_note (up_note u)) else [])"

definition has_published_surface :: "fields \<Rightarrow> bool" where
  "has_published_surface f =
     ((case as_dict (field f ''surface'') of
         None \<Rightarrow> False
       | Some d \<Rightarrow> as_int (field d ''github_review_comment_id'') \<noteq> None \<or>
           nonempty_str (field d ''github_review_thread_id'') \<noteq> None) \<or>
      as_int (field f ''github_review_comment_id'') \<noteq> None \<or>
      nonempty_str (field f ''github_review_thread_id'') \<noteq> None \<or>
      int_list (field f ''github_review_comment_ids'') \<noteq> [] \<or>
      str_list (field f ''github_review_thread_ids'') \<noteq> [])"

definition dropped_note :: "string \<Rightarrow> bool \<Rightarrow> fields" where
  "dropped_note msg dropped =
     (if dropped
      then [(''suggestion_dropped'', JBool True),
        (''warning'', JStr (''Suggestion exceeded the 4-line cap and was '' @ msg))]
      else [])"

definition kept_suggestion :: string where
  "kept_suggestion =
     ''rejected - the finding's prior `suggestion` was left unchanged. '' @
     ''Only include `suggestion` for small, obvious fixes.''"

definition kept_suggestion_only :: string where
  "kept_suggestion_only =
     ''rejected - the finding's prior `suggestion` was left unchanged '' @
     ''and other fields were updated normally. Only include '' @
     ''`suggestion` for small, obvious fixes.''"

definition nothing_to_update :: "bool \<Rightarrow> fields" where
  "nothing_to_update dropped =
     (if dropped
      then [(''success'', JBool False), (''suggestion_dropped'', JBool True),
        (''error'', JStr (''Suggestion exceeded the 4-line cap '' @
           ''and was rejected; no other fields were provided, so '' @
           ''nothing was updated. Only include `suggestion` for '' @
           ''small, obvious fixes.''))]
      else refused ''No fields provided to update'')"

definition write_update ::
  "'w review_env \<Rightarrow> string \<Rightarrow> string \<Rightarrow> update_args \<Rightarrow> bool \<Rightarrow> fields \<Rightarrow> ('w, fields) action" where
  "write_update env t fid u delegated updates =
     storage_guard t
       (and_then
          (if up_status u \<noteq> None \<and> \<not> delegated
           then and_then (resolve_review_head_sha (re_client env) t (re_configurable env))
             (\<lambda>sha. give (if sha = [] then updates else updates @ [(''last_confirmed_sha'', JStr sha)]))
           else give updates)
          (\<lambda>updates'. and_then (update_finding_fields (re_client env) t fid updates')
             (\<lambda>updated. case updated of
                None \<Rightarrow> give (refused (''No finding found with id '' @ fid))
              | Some f \<Rightarrow>
                  (let answer = [(''success'', JBool True), (''finding'', JDict f)] @
                         dropped_note kept_suggestion_only (dropped_suggestion u)
                   in if closes (up_status u) \<and> \<not> delegated
                      then emit_outcome env (JDict f) (the (up_status u)) answer
                      else give answer))))"

definition update_finding :: "'w review_env \<Rightarrow> string \<Rightarrow> update_args \<Rightarrow> ('w, fields) action" where
  "update_finding env fid u =
     (case update_error u of
        Some msg \<Rightarrow> give (refused msg)
      | None \<Rightarrow>
          if update_fields u = [] then give (nothing_to_update (dropped_suggestion u))
          else (case runtime_thread_id (re_configurable env) of
             Inl e \<Rightarrow> fail e
           | Inr t \<Rightarrow>
               and_then
                 (catch_class ''ReviewerThreadMissingError''
                    (and_then (list_findings (re_client env) t) (\<lambda>fs. give (Inr fs)))
                    (\<lambda>e. give (Inl (thread_missing_tool_result t e))))
                 (\<lambda>read. case read of
                    Inl answer \<Rightarrow> give answer
                  | Inr fs \<Rightarrow>
                      (case find (\<lambda>f. id_of f = fid) fs of
                         None \<Rightarrow> give (refused (''No finding found with id '' @ fid))
                       | Some f \<Rightarrow>
                           if closes (up_status u) \<and> has_pull_request (re_configurable env) \<and> has_published_surface f
                           then and_then
                             (resolve_finding_thread env fid
                                (case normalize_note (up_note u) of None \<Rightarrow> [] | Some n \<Rightarrow> n) (the (up_status u)))
                             (\<lambda>resolved.
                                if \<not> truthy (field resolved ''success'')
                                then give [(''success'', JBool False),
                                  (''error'', JStr ''GitHub review thread resolution failed; finding was left open.''),
                                  (''github_resolution'', JDict resolved)]
                                else let left = filter
                                       (\<lambda>(k, v). k \<notin> {''status'', ''last_update_note'', ''resolution_note''})
                                       (update_fields u)
                                  in if left = []
                                     then give ([(''success'', JBool True), (''finding'', field resolved ''finding''),
                                         (''github_resolution'', JDict resolved)] @
                                         dropped_note kept_suggestion (dropped_suggestion u))
                                     else write_update env t fid u True left)
                           else write_update env t fid u False (update_fields u)))))"

subsection \<open>A failed resolution repeats its reply\<close>

text \<open>
  When GitHub takes the reply but does not resolve the thread, the tool answers with an error and stores
  nothing, not even that the reply was posted: the next attempt posts it again. The world is the stored
  findings with the comments that were answered.
\<close>

type_synonym reply_world = "fields list \<times> int list"

definition lift_client :: "reply_world thread_client" where
  "lift_client =
     \<lparr>tc_get = (\<lambda>t (fs, ns). (fst (tc_get memory_client t fs), (fs, ns))),
      tc_update = (\<lambda>t d (fs, ns). (Inr (), (snd (tc_update memory_client t d fs), ns))),
      tc_record = (\<lambda>t f w. (Inr (), w))\<rparr>"

definition stubborn_github :: "reply_world pr_github" where
  "stubborn_github =
     \<lparr>pg_diff = give None, pg_threads = give [], pg_thread_of_comment = (\<lambda>c. give (Some ''PRRT_1'')),
      pg_reply = (\<lambda>c body (fs, ns). (Inr (JDict [(''id'', JInt 70)]), (fs, ns @ [c]))),
      pg_resolve = (\<lambda>k. give False)\<rparr>"

definition stubborn_env :: "reply_world review_env" where
  "stubborn_env =
     \<lparr>re_client = lift_client, re_digest = (\<lambda>j. []), re_loads = (\<lambda>t. None),
      re_configurable = JDict [(''thread_id'', JStr ''t''), (''pr_number'', JInt 1),
        (''repo'', JDict [(''owner'', JStr ''o''), (''name'', JStr ''r'')])],
      re_token = Some ''tok'', re_github = stubborn_github, re_new_id = (\<lambda>w. (''f9'', w)),
      re_outcome = (\<lambda>f s w. w)\<rparr>"

definition try_resolve :: "reply_world \<Rightarrow> reply_world" where
  "try_resolve w = snd (resolve_finding_thread stubborn_env ''f1'' ''fixed'' ''resolved'' w)"

lemma failed_resolution_replies_again:
  "try_resolve (try_resolve ([published_finding ''open''], [])) = ([published_finding ''open''], [7, 7])"
  by code_simp

subsection \<open>Only checked findings are recorded\<close>

text \<open>
  The reference. \<open>changed_lines\<close> is what the run knows of the diff: the line set of the state, else that
  of the configuration, else the lines of the diff that GitHub returns when repository, pull request
  and token are known; there the lines are those of the hunks, not of the code's line set.
  \<open>anchored_to lies f\<close>: the finding has no lines, or every line from its first to its last lies there.
\<close>

definition in_line_set :: "(string, side_lines) dict \<Rightarrow> string \<Rightarrow> side \<Rightarrow> int \<Rightarrow> bool" where
  "in_line_set ls file d l \<longleftrightarrow> (\<exists>s. map_of ls file = Some s \<and> l \<in> set (lines_of_side d s))"

definition knows_pull_request :: "'w review_env \<Rightarrow> bool" where
  "knows_pull_request env \<longleftrightarrow>
     (\<exists>repo owner name n. jget (re_configurable env) ''repo'' = JDict repo \<and>
        jget (JDict repo) ''owner'' = JStr owner \<and> jget (JDict repo) ''name'' = JStr name \<and>
        as_int (jget (re_configurable env) ''pr_number'') = Some n) \<and>
     (\<exists>c cs. re_token env = Some (c # cs))"

definition changed_lines ::
  "'w review_env \<Rightarrow> diff_context \<Rightarrow> diff_context \<Rightarrow> 'w \<Rightarrow> (string \<Rightarrow> side \<Rightarrow> int \<Rightarrow> bool) option" where
  "changed_lines env in_state in_config w =
     (case (fst in_state, fst in_config) of
        (Some ls, _) \<Rightarrow> Some (in_line_set ls)
      | (None, Some ls) \<Rightarrow> Some (in_line_set ls)
      | (None, None) \<Rightarrow>
          (if knows_pull_request env
           then (case fst (pg_diff (re_github env) w) of
                   Inr (Some diff_text) \<Rightarrow> Some (covers (parse_unified_diff diff_text))
                 | _ \<Rightarrow> None)
           else None))"

definition anchored_to :: "(string \<Rightarrow> side \<Rightarrow> int \<Rightarrow> bool) \<Rightarrow> fields \<Rightarrow> bool" where
  "anchored_to lies f \<longleftrightarrow>
     (case (as_int (field f ''start_line''), as_int (field f ''end_line'')) of
        (None, None) \<Rightarrow> True
      | (Some a, Some b) \<Rightarrow>
          (\<forall>l. a \<le> l \<and> l \<le> b \<longrightarrow>
             lies (str_or [] (field f ''file''))
               (if field f ''side'' = JStr ''LEFT'' then LeftSide else RightSide) l)
      | _ \<Rightarrow> False)"

definition checked_finding :: "fields \<Rightarrow> bool" where
  "checked_finding f \<longleftrightarrow>
     field f ''severity'' \<in> JStr ` {''low'', ''medium'', ''high'', ''critical''} \<and>
     field f ''confidence'' \<in> JStr ` {''low'', ''medium'', ''high''} \<and>
     field f ''side'' \<in> JStr ` {''LEFT'', ''RIGHT''} \<and> field f ''status'' = JStr ''open'' \<and>
     (\<exists>title. field f ''title'' = JStr title \<and> title \<noteq> [] \<and> length title \<le> 120) \<and>
     (\<forall>s. field f ''suggestion'' = JStr s \<longrightarrow> length (filter (\<lambda>c. c = newline) s) < 4) \<and>
     (case (as_int (field f ''start_line''), as_int (field f ''end_line'')) of
        (None, None) \<Rightarrow> True | (Some a, Some b) \<Rightarrow> a \<le> b | _ \<Rightarrow> False)"

lemma title_length:
  "length (normalize_finding_title title description) \<le> 120 \<and> normalize_finding_title title description \<noteq> []"
proof -
  have "length (rstrip (take n s)) \<le> n" for n and s :: string
    unfolding rstrip_def using length_dropWhile_le [of is_space_c "rev (take n s)"] by simp
  from this [of 117] show ?thesis
    by (auto simp: normalize_finding_title_def default_finding_title_def max_finding_title_length_def Let_def
        intro: order_trans [where y = "117 + 3"])
qed

lemma clipped_short:
  "fst (clip_suggestion s) = Some t \<Longrightarrow> length (filter (\<lambda>c. c = newline) t) < 4"
  by (auto simp: clip_suggestion_def max_suggestion_lines_def count_char_def split: option.splits if_splits)

lemma opt_readings [simp]: "as_int (opt_int v) = v" "as_str (opt_str u) = u"
  by (simp_all add: opt_int_def opt_str_def split: option.split)

lemma argument_facts:
  assumes "argument_error a = None"
  shows "fa_severity a \<in> {''low'', ''medium'', ''high'', ''critical''}"
    "fa_confidence a \<in> {''low'', ''medium'', ''high''}" "fa_side a \<in> {''LEFT'', ''RIGHT''}"
    "fa_start_line a = Some x \<Longrightarrow> fa_end_line a = Some y \<Longrightarrow> x \<le> y"
proof -
  have "\<not> fa_severity a \<notin> set severities" "\<not> fa_confidence a \<notin> set confidences"
    "\<not> fa_side a \<notin> {''LEFT'', ''RIGHT''}"
    using assms by (auto simp only: argument_error_def option.distinct split: if_splits)
  then show "fa_severity a \<in> {''low'', ''medium'', ''high'', ''critical''}"
    "fa_confidence a \<in> {''low'', ''medium'', ''high''}" "fa_side a \<in> {''LEFT'', ''RIGHT''}"
    by (auto simp: severities_def confidences_def)
  show "fa_start_line a = Some x \<Longrightarrow> fa_end_line a = Some y \<Longrightarrow> x \<le> y"
    using assms by (auto simp: argument_error_def split: if_splits)
qed

lemma anchored_lines: "fa_start_line (anchored a) = None \<longleftrightarrow> fa_end_line (anchored a) = None"
  by (auto simp: anchored_def Let_def)

lemma new_finding_fields_read:
  fixes digest fid a diff_text sha
  defines "f \<equiv> new_finding digest fid (completed_args a diff_text sha)"
  shows "field f ''severity'' = JStr (fa_severity a)" "field f ''confidence'' = JStr (fa_confidence a)"
    "field f ''side'' = JStr (fa_side a)" "field f ''status'' = JStr ''open''"
    "field f ''title'' = JStr (normalize_finding_title (Some (normalize_finding_title (fa_title a) [])) (fa_description a))"
    "field f ''suggestion'' = opt_str (fst (clip_suggestion (fa_suggestion a)))"
    "field f ''start_line'' = opt_int (fa_start_line a)" "field f ''end_line'' = opt_int (fa_end_line a)"
    "field f ''file'' = JStr (fa_file a)"
  by (simp_all add: f_def new_finding_def completed_args_def field_def dict_get_def)

lemma new_finding_checked:
  assumes "argument_error (anchored args) = None"
  shows "checked_finding (new_finding digest fid (completed_args (anchored args) diff_text sha))"
proof -
  have "length (filter (\<lambda>c. c = newline) t) < 4" if "opt_str (fst (clip_suggestion s)) = JStr t" for s t
    using that clipped_short [of s] by (auto simp: opt_str_def split: option.splits)
  then show ?thesis
    using argument_facts [OF assms] anchored_lines [of args] title_length
    by (auto simp: checked_finding_def new_finding_fields_read split: option.split)
qed

lemma in_diff_lines:
  assumes "in_diff (Some ls) (anchored args)" "argument_error (anchored args) = None"
    and "\<And>a b file d. a \<le> b \<Longrightarrow> is_range_in_diff ls file (Some a) (Some b) d \<Longrightarrow>
           \<forall>l. a \<le> l \<and> l \<le> b \<longrightarrow> lies file d l"
  shows "anchored_to lies (new_finding digest fid (completed_args (anchored args) diff_text sha))"
proof (cases "fa_start_line (anchored args)")
  case None
  with anchored_lines [of args] show ?thesis by (simp add: anchored_to_def new_finding_fields_read)
next
  case (Some a)
  with anchored_lines [of args] obtain b where b: "fa_end_line (anchored args) = Some b" by fastforce
  have "is_range_in_diff ls (fa_file (anchored args)) (Some a) (Some b) (side_of (fa_side (anchored args)))"
    using assms(1) Some b by (simp add: in_diff_def)
  from assms(3) [OF argument_facts(4) [OF assms(2) Some b] this] show ?thesis
    using Some b by (simp add: anchored_to_def new_finding_fields_read side_of_def str_or_def)
qed

lemma line_set_range:
  "is_range_in_diff ls file (Some a) (Some b) d \<Longrightarrow> \<forall>l. a \<le> l \<and> l \<le> b \<longrightarrow> in_line_set ls file d l"
  by (auto simp: is_range_in_diff_def in_line_set_def list_all_iff split: option.splits)

lemma knows_pull_request_iff:
  "knows_pull_request env \<longleftrightarrow>
     (let repo = jget (re_configurable env) ''repo''
      in as_dict repo \<noteq> None \<and> as_str (jget repo ''owner'') \<noteq> None \<and> as_str (jget repo ''name'') \<noteq> None \<and>
         as_int (jget (re_configurable env) ''pr_number'') \<noteq> None \<and>
         re_token env \<noteq> None \<and> re_token env \<noteq> Some [])"
proof -
  have d: "as_dict j \<noteq> None \<longleftrightarrow> (\<exists>d. j = JDict d)" for j by (cases j) auto
  have s: "as_str j \<noteq> None \<longleftrightarrow> (\<exists>t. j = JStr t)" for j by (cases j) auto
  have t: "x \<noteq> None \<and> x \<noteq> Some [] \<longleftrightarrow> (\<exists>c cs. x = Some (c # cs))" for x :: "string option"
    by (cases x; cases "the x") auto
  show ?thesis unfolding knows_pull_request_def Let_def d s t [symmetric] by auto
qed

text \<open>What the check of the lines goes by is what the run knows of the diff.\<close>

lemma context_lines:
  assumes "\<And>w. stored (snd (pg_diff (re_github env) w)) = stored w"
    and "resolve_diff_context env in_state in_config w = (out, w1)"
  shows "stored w1 = stored w"
    "out = Inr (line_set, diff_text) \<Longrightarrow> argument_error (anchored args) = None \<Longrightarrow>
       in_diff line_set (anchored args) \<Longrightarrow>
       case changed_lines env in_state in_config w of None \<Rightarrow> True
       | Some lies \<Rightarrow> anchored_to lies (new_finding digest fid (completed_args (anchored args) diff_text sha))"
proof -
  obtain q w2 where g: "pg_diff (re_github env) w = (q, w2)" by fastforce
  with assms(1) [of w] have w2: "stored w2 = stored w" by simp
  note known = knows_pull_request_iff [of env, unfolded Let_def]
  show "stored w1 = stored w"
    using assms(2) g w2
    by (auto simp: resolve_diff_context_def and_then_def give_def Let_def split: option.splits sum.splits if_splits prod.splits)
  assume a: "out = Inr (line_set, diff_text)" "argument_error (anchored args) = None"
    "in_diff line_set (anchored args)"
  consider (st) ls t where "in_state = (Some ls, t)" | (cf) t ls u where "in_state = (None, t)" "in_config = (Some ls, u)"
    | (no) t u where "in_state = (None, t)" "in_config = (None, u)"
    by (cases in_state; cases in_config) (metis option.exhaust)
  then show "case changed_lines env in_state in_config w of None \<Rightarrow> True
       | Some lies \<Rightarrow> anchored_to lies (new_finding digest fid (completed_args (anchored args) diff_text sha))"
  proof cases
    case st
    with assms(2) a(1) have "line_set = Some ls" by (simp add: resolve_diff_context_def give_def)
    with st in_diff_lines [of ls args "in_line_set ls"] a(2,3) line_set_range show ?thesis
      by (simp add: changed_lines_def)
  next
    case cf
    with assms(2) a(1) have "line_set = Some ls" by (simp add: resolve_diff_context_def give_def)
    with cf in_diff_lines [of ls args "in_line_set ls"] a(2,3) line_set_range show ?thesis
      by (simp add: changed_lines_def)
  next
    case no
    show ?thesis
    proof (cases "knows_pull_request env")
      case False
      with no show ?thesis by (simp add: changed_lines_def)
    next
      case True
      show ?thesis
      proof (cases "\<exists>d. q = Inr (Some d)")
        case False
        with no True g show ?thesis
          by (auto simp: changed_lines_def split: sum.split option.split)
      next
        case True
        then obtain d where d: "q = Inr (Some d)" by blast
        have "resolve_diff_context env in_state in_config w = (Inr (Some (compute_diff_line_set d), d), w2)"
          using no \<open>knows_pull_request env\<close> [unfolded known] g d
          by (simp add: resolve_diff_context_def and_then_def give_def Let_def)
        with assms(2) a(1) have "line_set = Some (compute_diff_line_set d)" by auto
        with in_diff_lines [of "compute_diff_line_set d" args "covers (parse_unified_diff d)"] a(2,3)
          range_in_diff_iff no \<open>knows_pull_request env\<close> g d show ?thesis
          by (simp add: changed_lines_def)
      qed
    qed
  qed
qed

lemma head_sha_read:
  assumes "faithful_client client t stored"
  obtains sha where "resolve_review_head_sha client t configurable w = (Inr sha, w)"
proof -
  obtain metadata where "get_thread_metadata_strict client t w = (Inr metadata, w)"
    by (rule read_stored [OF assms])
  then have "\<exists>sha. resolve_review_head_sha client t configurable w = (Inr sha, w)"
    by (simp add: resolve_review_head_sha_def get_thread_metadata_def catch_all_def and_then_def give_def Let_def)
  then show ?thesis using that by blast
qed

lemma storage_guard_state: "snd (storage_guard t m w) = snd (m w)"
  by (auto simp: storage_guard_def catch_class_def give_def split: prod.split sum.split)

lemma append_new_state:
  assumes "faithful_client client t stored"
  shows "stored (snd (append_finding digest client t (new_finding digest fid a) w)) \<in>
    {stored w, stored w @ [new_finding digest fid a]}"
proof -
  let ?fp = "fingerprint_of digest (JStr (fa_file a)) (JStr (fa_side a)) (opt_int (fa_start_line a))
       (opt_int (fa_end_line a)) (fa_description a)"
  obtain w' where "append_finding digest client t (new_finding digest fid a) w =
       (case append_step digest ?fp (new_finding digest fid a) (stored w) of
          Inl e \<Rightarrow> Inl e | Inr (changed, fs, p) \<Rightarrow> Inr (p, id_of p = id_of (new_finding digest fid a)), w')"
    "stored w' = applied (append_step digest ?fp (new_finding digest fid a)) (stored w)"
    by (rule append_refines [OF assms new_finding_fields(4,3)])
  then show ?thesis by (auto simp: applied_def append_step_def split: sum.splits option.splits)
qed

text \<open>
  C31. Only checked findings are recorded. Adding a finding leaves the stored findings as they are or
  adds one, and a finding that is added is open, has a known severity, confidence and side, a
  non-empty title of at most 120 characters, a suggestion of at most 4 lines, and either no lines or a
  first line that is not after its last. Where the run knows a line set of the diff (from its state,
  from its configuration or from the diff that GitHub returns), every line of the finding lies in it;
  where it knows none the code skips this check (the lemma below).
\<close>

theorem only_checked_findings_are_recorded:
  assumes "faithful_client (re_client env) t stored" "runtime_thread_id (re_configurable env) = Inr t"
    and "\<And>w. stored (snd (re_new_id env w)) = stored w"
    and "\<And>w. stored (snd (pg_diff (re_github env) w)) = stored w"
  shows "stored (snd (add_finding env in_state in_config args w)) = stored w \<or>
    (\<exists>f. stored (snd (add_finding env in_state in_config args w)) = stored w @ [f] \<and> checked_finding f \<and>
      (case changed_lines env in_state in_config w of None \<Rightarrow> True | Some lies \<Rightarrow> anchored_to lies f))"
proof -
  let ?a = "anchored args"
  obtain out w0 where ctx: "resolve_diff_context env in_state in_config w = (out, w0)" by fastforce
  note lines = context_lines [where stored = stored, OF assms(4) ctx]
  show ?thesis
  proof (cases "argument_error ?a = None \<and> (\<exists>ls d. out = Inr (ls, d) \<and> in_diff ls ?a)")
    case False
    then have "stored (snd (add_finding env in_state in_config args w)) = stored w"
      using lines(1) ctx
      by (cases "argument_error ?a"; cases out) (auto simp: add_finding_def Let_def and_then_def give_def)
    then show ?thesis by simp
  next
    case True
    then obtain ls d where ok: "argument_error ?a = None" "out = Inr (ls, d)" "in_diff ls ?a" by blast
    obtain sha where sha: "resolve_review_head_sha (re_client env) t (re_configurable env) w0 = (Inr sha, w0)"
      by (rule head_sha_read [OF assms(1)])
    obtain fid w1 where fid: "re_new_id env w0 = (fid, w1)" by fastforce
    then have w1: "stored w1 = stored w" using assms(3) [of w0] lines(1) by simp
    let ?f = "new_finding (re_digest env) fid (completed_args ?a d sha)"
    have "snd (add_finding env in_state in_config args w) =
        snd (append_finding (re_digest env) (re_client env) t ?f w1)"
      using ok ctx assms(2) sha fid
      by (auto simp: add_finding_def Let_def storage_guard_state and_then_def fresh_id_def
          give_def split: prod.split sum.split)
    with append_new_state [OF assms(1), of "re_digest env" fid "completed_args ?a d sha" w1] w1
      new_finding_checked [OF ok(1), of "re_digest env" fid d sha]
      lines(2) [OF ok(2,1,3), of "re_digest env" fid sha]
    show ?thesis by auto
  qed
qed

definition memory_env :: "fields list review_env" where
  "memory_env =
     \<lparr>re_client = memory_client, re_digest = (\<lambda>j. []), re_loads = (\<lambda>t. None),
      re_configurable = JDict [(''thread_id'', JStr ''t''), (''head_sha'', JStr ''abc'')], re_token = None,
      re_github = \<lparr>pg_diff = give None, pg_threads = give [], pg_thread_of_comment = (\<lambda>c. give None),
        pg_reply = (\<lambda>c b. give JNull), pg_resolve = (\<lambda>k. give False)\<rparr>,
      re_new_id = (\<lambda>w. (''f1'', w)), re_outcome = (\<lambda>f s w. w)\<rparr>"

definition memory_line_set :: diff_context where
  "memory_line_set = (Some [(''a.py'', ([3], []))], [])"

theorem only_checked_findings_are_recorded_witness:
  "length (held (snd (add_finding memory_env memory_line_set (None, []) (leak ''x'') []))) = 1 \<and>
   (\<exists>f. held (snd (add_finding memory_env memory_line_set (None, []) (leak ''x'') [])) = [f] \<and>
      checked_finding f \<and> anchored_to (in_line_set [(''a.py'', ([3], []))]) f)"
proof -
  let ?w = "snd (add_finding memory_env memory_line_set (None, []) (leak ''x'') [])"
  have n: "length (held ?w) = 1" by code_simp
  have c: "faithful_client (re_client memory_env) ''t'' held"
    unfolding memory_env_def by (simp add: memory_client_faithful)
  have t: "runtime_thread_id (re_configurable memory_env) = Inr ''t''" by code_simp
  have i: "held (snd (re_new_id memory_env w)) = held w" for w by (simp add: memory_env_def)
  have g: "held (snd (pg_diff (re_github memory_env) w)) = held w" for w
    by (simp add: memory_env_def give_def)
  have l: "changed_lines memory_env memory_line_set (None, []) w = Some (in_line_set [(''a.py'', ([3], []))])" for w
    by (simp add: changed_lines_def memory_line_set_def)
  have "held [] = []" by code_simp
  with only_checked_findings_are_recorded [OF c t i g, of memory_line_set "(None, [])" "leak ''x''" "[]"] n l
  show ?thesis by auto
qed

text \<open>
  Without a line set nothing checks the lines: a finding on any line is recorded, as part of the diff.
\<close>

lemma unknown_diff_is_not_checked:
  "map (\<lambda>f. (field f ''start_line'', field f ''in_diff''))
     (held (snd (add_finding memory_env (None, []) (None, []) ((leak ''x'')\<lparr>fa_start_line := Some 9000, fa_end_line := Some 9000\<rparr>) []))) =
   [(JInt 9000, JBool True)]"
  by code_simp

end
