(* ===== verification/Shell_Words.thy ===== *)
theory Shell_Words
  imports Review_Diff Json
begin

section \<open>Shell words\<close>

text \<open>
  The guards of shell commands read a command through \<open>shlex.split\<close> and write one through
  \<open>shlex.quote\<close>. This theory has both functions of the standard library: the lexer of \<open>shlex\<close> in POSIX mode
  with \<open>whitespace_split\<close> and without comments, as the state machine it is, and the quoting of a word. The
  main fact is the round trip: a command line made of quoted words splits into these words.
\<close>

subsection \<open>The lexer\<close>

text \<open>
  \<open>Between\<close> is the state \<open>' '\<close> of the code, \<open>InWord\<close> the state \<open>'a'\<close>, \<open>InQuote q\<close> the state of an open quote and
  \<open>Escaped b\<close> the state after a backslash, with the state to go back to.
\<close>

datatype lex_state = Between | InWord | InQuote char | EscapedWord | EscapedQuote char

definition squote :: char where "squote = CHR 0x27"
definition dquote :: char where "dquote = CHR 0x22"
definition backslash :: char where "backslash = CHR 0x5C"

definition shell_blank :: "char \<Rightarrow> bool" where
  "shell_blank c = (c \<in> {CHR '' '', CHR 0x09, CHR 0x0A, CHR 0x0D})"

definition is_quote :: "char \<Rightarrow> bool" where
  "is_quote c = (c = squote \<or> c = dquote)"

definition lex_error :: "string \<Rightarrow> string list result" where
  "lex_error msg = Inl (value_error msg)"

fun scan_words :: "lex_state \<Rightarrow> bool \<Rightarrow> string \<Rightarrow> string \<Rightarrow> string list result" where
  "scan_words Between qd tok [] = Inr []"
| "scan_words Between qd tok (c # cs) =
     (if shell_blank c then scan_words Between False [] cs
      else if c = backslash then scan_words EscapedWord False [] cs
      else if is_quote c then scan_words (InQuote c) False [] cs
      else scan_words InWord False [c] cs)"
| "scan_words InWord qd tok [] = Inr (if tok = [] \<and> \<not> qd then [] else [tok])"
| "scan_words InWord qd tok (c # cs) =
     (if shell_blank c
      then (if tok = [] \<and> \<not> qd then scan_words Between False [] cs
            else map_sum id (\<lambda>ts. tok # ts) (scan_words Between False [] cs))
      else if is_quote c then scan_words (InQuote c) qd tok cs
      else if c = backslash then scan_words EscapedWord qd tok cs
      else scan_words InWord qd (tok @ [c]) cs)"
| "scan_words (InQuote q) qd tok [] = lex_error ''No closing quotation''"
| "scan_words (InQuote q) qd tok (c # cs) =
     (if c = q then scan_words InWord True tok cs
      else if c = backslash \<and> q = dquote then scan_words (EscapedQuote q) True tok cs
      else scan_words (InQuote q) True (tok @ [c]) cs)"
| "scan_words EscapedWord qd tok [] = lex_error ''No escaped character''"
| "scan_words EscapedWord qd tok (c # cs) = scan_words InWord qd (tok @ [c]) cs"
| "scan_words (EscapedQuote q) qd tok [] = lex_error ''No escaped character''"
| "scan_words (EscapedQuote q) qd tok (c # cs) =
     scan_words (InQuote q) qd (tok @ (if c \<noteq> backslash \<and> c \<noteq> q then [backslash, c] else [c])) cs"

definition shlex_split :: "string \<Rightarrow> string list result" where
  "shlex_split s = scan_words Between False [] s"

subsection \<open>Quoting\<close>

definition is_plain_c :: "char \<Rightarrow> bool" where
  "is_plain_c c =
     (let n = ord_c c in
        (48 \<le> n \<and> n \<le> 57) \<or> (65 \<le> n \<and> n \<le> 90) \<or> n = 95 \<or> (97 \<le> n \<and> n \<le> 122) \<or>
        c \<in> set ''@%+=:,./-'')"

definition quote_char :: "char \<Rightarrow> string" where
  "quote_char c = (if c = squote then [squote, dquote, squote, dquote, squote] else [c])"

definition shlex_quote :: "string \<Rightarrow> string" where
  "shlex_quote s =
     (if s = [] then [squote, squote]
      else if list_all is_plain_c s then s
      else [squote] @ concat (map quote_char s) @ [squote])"

definition shlex_join :: "string list \<Rightarrow> string" where
  "shlex_join ws = join '' '' (map shlex_quote ws)"

lemma plain_word_char: "is_plain_c c \<Longrightarrow> \<not> shell_blank c \<and> \<not> is_quote c \<and> c \<noteq> backslash"
  by (auto simp: is_plain_c_def shell_blank_def is_quote_def squote_def dquote_def backslash_def ord_c_def Let_def)

lemma lex_plain_word:
  "list_all is_plain_c w \<Longrightarrow> scan_words InWord qd tok (w @ s) = scan_words InWord qd (tok @ w) s"
  by (induction w arbitrary: tok) (auto dest: plain_word_char)

lemma squote_facts [simp]: "squote \<noteq> dquote" "dquote \<noteq> squote" "squote \<noteq> backslash" "dquote \<noteq> backslash"
  "is_quote squote" "is_quote dquote" "\<not> shell_blank squote" "\<not> shell_blank dquote" "shell_blank (CHR '' '')"
  "\<not> is_quote (CHR '' '')"
  by (simp_all add: squote_def dquote_def backslash_def is_quote_def shell_blank_def)

lemma lex_quoted_body:
  "scan_words (InQuote squote) True tok (concat (map quote_char w) @ s) = scan_words (InQuote squote) True (tok @ w) s"
proof (induction w arbitrary: tok)
  case (Cons c w)
  show ?case
  proof (cases "c = squote")
    case True
    with Cons show ?thesis by (simp add: quote_char_def)
  next
    case False
    with Cons show ?thesis by (simp add: quote_char_def)
  qed
qed simp

lemma lex_quote_flag:
  "w \<noteq> [] \<Longrightarrow> scan_words (InQuote squote) False tok (concat (map quote_char w) @ s) =
     scan_words (InQuote squote) True tok (concat (map quote_char w) @ s)"
  by (cases w) (simp_all add: quote_char_def)

lemma lex_word:
  "\<exists>qd. (qd \<or> w \<noteq> []) \<and> scan_words Between q tok (shlex_quote w @ s) = scan_words InWord qd w s"
proof (cases "w = [] \<or> \<not> list_all is_plain_c w")
  case True
  have "scan_words Between q tok (shlex_quote w @ s) = scan_words InWord True w s"
  proof (cases "w = []")
    case False
    with True have "shlex_quote w @ s = squote # concat (map quote_char w) @ squote # s"
      by (simp add: shlex_quote_def)
    with False show ?thesis by (simp add: lex_quote_flag lex_quoted_body)
  qed (simp add: shlex_quote_def)
  then show ?thesis by blast
next
  case False
  then obtain c cs where w: "w = c # cs" "is_plain_c c" "list_all is_plain_c cs" by (cases w) auto
  then have "scan_words Between q tok (shlex_quote w @ s) = scan_words InWord False w s"
    using plain_word_char [OF w(2)] by (simp add: shlex_quote_def lex_plain_word)
  with w(1) show ?thesis by blast
qed

lemma lex_word_end: "scan_words Between q tok (shlex_quote w) = Inr [w]"
  using lex_word [of w q tok "[]"] by auto

lemma lex_word_blank:
  "scan_words Between q tok (shlex_quote w @ CHR '' '' # s) = map_sum id (\<lambda>ts. w # ts) (scan_words Between False [] s)"
  using lex_word [of w q tok "CHR '' '' # s"] by auto

lemma lex_join: "scan_words Between q tok (shlex_join ws) = Inr ws"
proof (induction ws arbitrary: q tok rule: induct_list012)
  case (3 v w ws)
  have "shlex_join (v # w # ws) = shlex_quote v @ CHR '' '' # shlex_join (w # ws)"
    by (simp add: shlex_join_def)
  with 3 show ?case by (simp add: lex_word_blank)
qed (simp_all add: shlex_join_def lex_word_end)

text \<open>
  Quoted words come back. A command line that is built from quoted words splits into exactly these
  words, whatever characters they hold.
\<close>

theorem quoted_words_come_back: "shlex_split (shlex_join ws) = Inr ws"
  by (simp add: shlex_split_def lex_join)

end
