(* ===== verification/Push_Approval.thy ===== *)
theory Push_Approval
  imports Review_Findings
begin

section \<open>Approvals of workflow pushes\<close>

text \<open>
  Models \<open>agent/dashboard/workflow_approval.py\<close>: the approvals of pushes that change workflow files. They
  are kept in the metadata of a thread, by the fingerprint of the change; a push asks for one, a human
  decides it, and at most the 20 latest are kept. The service of the threads and the clock are parameters.
  Each operation reads the approvals, changes them and writes them back; the pure change of each is a
  definition of its own.
\<close>

subsection \<open>Reading and writing\<close>

type_synonym approvals = "(string, fields) dict"

definition approvals_key :: string where
  "approvals_key = ''workflow_push_approvals''"

definition max_approval_records :: nat where
  "max_approval_records = 20"

definition terminal_statuses :: "json list" where
  "terminal_statuses = [JStr ''approved'', JStr ''rejected'']"

fun approval_records :: "fields \<Rightarrow> approvals" where
  "approval_records [] = []"
| "approval_records ((k, v) # kvs) =
     (case (k, v) of
        (c # cs, JDict d) \<Rightarrow> (k, set_default ''fingerprint'' (JStr k) d) # approval_records kvs
      | _ \<Rightarrow> approval_records kvs)"

definition approvals_from_metadata :: "json \<Rightarrow> approvals" where
  "approvals_from_metadata metadata =
     (case as_dict (jget metadata approvals_key) of None \<Rightarrow> [] | Some raw \<Rightarrow> approval_records raw)"

definition get_workflow_push_approvals :: "'w thread_client \<Rightarrow> string \<Rightarrow> ('w, approvals) action" where
  "get_workflow_push_approvals client t =
     and_then (tc_get client t) (\<lambda>thread. give (approvals_from_metadata (jget thread ''metadata'')))"

definition record_stamp :: "fields \<Rightarrow> string" where
  "record_stamp r = str_or [] (field r ''requested_at'')"

definition record_fingerprint :: "fields \<Rightarrow> string" where
  "record_fingerprint r = str_or [] (field r ''fingerprint'')"

definition trimmed :: "approvals \<Rightarrow> approvals" where
  "trimmed a =
     foldl (\<lambda>d r. dict_set (record_fingerprint r) r d) []
       (last_n max_approval_records (sort_key record_stamp (map snd a)))"

definition save_approvals :: "'w thread_client \<Rightarrow> string \<Rightarrow> approvals \<Rightarrow> ('w, unit) action" where
  "save_approvals client t a =
     tc_update client t [(approvals_key, JDict (map (\<lambda>(k, r). (k, JDict r)) (trimmed a)))]"

definition status_of :: "approvals \<Rightarrow> string \<Rightarrow> json" where
  "status_of a fp = (case map_of a fp of None \<Rightarrow> JNull | Some r \<Rightarrow> field r ''status'')"

definition workflow_push_approved :: "'w thread_client \<Rightarrow> string \<Rightarrow> string \<Rightarrow> ('w, bool) action" where
  "workflow_push_approved client t fp =
     and_then (get_workflow_push_approvals client t) (\<lambda>a. give (status_of a fp = JStr ''approved''))"

subsection \<open>Asking, notifying, deciding\<close>

definition normalize_diff_stats :: "(string, int) dict option \<Rightarrow> nat \<Rightarrow> fields" where
  "normalize_diff_stats counts total_files =
     (case counts of
        None \<Rightarrow> [(''files'', JInt (int total_files)), (''additions'', JInt 0), (''deletions'', JInt 0)]
      | Some d \<Rightarrow>
          [(''files'', JInt (max 0 (dict_get d ''files'' (int total_files)))),
           (''additions'', JInt (max 0 (dict_get d ''additions'' 0))),
           (''deletions'', JInt (max 0 (dict_get d ''deletions'' 0)))])"

definition ask_change :: "string \<Rightarrow> fields \<Rightarrow> string \<Rightarrow> approvals \<Rightarrow> fields \<times> bool \<times> approvals option" where
  "ask_change fp review now a =
     (case map_of a fp of
        Some r \<Rightarrow>
          (if field r ''status'' \<in> set terminal_statuses then (r, False, None)
           else if field r ''status'' = JStr ''pending''
           then (merge_fields r review, False, Some (dict_set fp (merge_fields r review) a))
           else
             (let n = merge_fields [(''fingerprint'', JStr fp), (''status'', JStr ''pending'')]
                    (review @ [(''requested_at'', JStr now), (''notified'', JBool False)])
              in (n, True, Some (dict_set fp n a))))
      | None \<Rightarrow>
          (let n = merge_fields [(''fingerprint'', JStr fp), (''status'', JStr ''pending'')]
                 (review @ [(''requested_at'', JStr now), (''notified'', JBool False)])
           in (n, True, Some (dict_set fp n a))))"

definition ensure_workflow_push_pending ::
  "'w thread_client \<Rightarrow> ('w \<Rightarrow> string) \<Rightarrow> string \<Rightarrow> string \<Rightarrow> fields \<Rightarrow> ('w, fields \<times> bool) action" where
  "ensure_workflow_push_pending client clock t fp review =
     and_then (get_workflow_push_approvals client t)
       (\<lambda>a w. case ask_change fp review (clock w) a of
          (r, created, None) \<Rightarrow> (Inr (r, created), w)
        | (r, created, Some a') \<Rightarrow> and_then (save_approvals client t a') (\<lambda>u. give (r, created)) w)"

definition notify_change :: "string \<Rightarrow> string \<Rightarrow> approvals \<Rightarrow> approvals option" where
  "notify_change fp now a =
     (case map_of a fp of
        None \<Rightarrow> None
      | Some r \<Rightarrow>
          Some (dict_set fp (dict_set ''notified_at'' (JStr now) (dict_set ''notified'' (JBool True) r)) a))"

definition mark_workflow_push_notified ::
  "'w thread_client \<Rightarrow> ('w \<Rightarrow> string) \<Rightarrow> string \<Rightarrow> string \<Rightarrow> ('w, unit) action" where
  "mark_workflow_push_notified client clock t fp =
     and_then (get_workflow_push_approvals client t)
       (\<lambda>a w. case notify_change fp (clock w) a of
          None \<Rightarrow> (Inr (), w) | Some a' \<Rightarrow> save_approvals client t a' w)"

definition decided :: "bool \<Rightarrow> string \<Rightarrow> string \<Rightarrow> fields \<Rightarrow> fields" where
  "decided approved actor now r =
     dict_set ''decided_by'' (JStr actor) (dict_set ''decided_at'' (JStr now)
       (dict_set ''status'' (JStr (if approved then ''approved'' else ''rejected'')) r))"

definition decide_change :: "string \<Rightarrow> bool \<Rightarrow> string \<Rightarrow> string \<Rightarrow> approvals \<Rightarrow> (fields \<times> approvals) option" where
  "decide_change fp approved actor now a =
     (case map_of a fp of
        None \<Rightarrow> None
      | Some r \<Rightarrow> Some (decided approved actor now r, dict_set fp (decided approved actor now r) a))"

definition decide_workflow_push_approval ::
  "'w thread_client \<Rightarrow> ('w \<Rightarrow> string) \<Rightarrow> string \<Rightarrow> string \<Rightarrow> bool \<Rightarrow> string \<Rightarrow> ('w, fields option) action" where
  "decide_workflow_push_approval client clock t fp approved actor =
     and_then (get_workflow_push_approvals client t)
       (\<lambda>a w. case decide_change fp approved actor (clock w) a of
          None \<Rightarrow> (Inr None, w)
        | Some (r, a') \<Rightarrow> and_then (save_approvals client t a') (\<lambda>u. give (Some r)) w)"

subsection \<open>Only a decision approves\<close>

text \<open>
  The operations of the store as events: a push asks with the review fields of its change, the post to
  Slack is noted, a human decides. A review never sets the status or the fingerprint. What one operation
  writes is what the next one reads: \<open>approval_records\<close> gives back the records that \<open>trimmed\<close> wrote.
\<close>

datatype approval_event =
    Ask string fields string
  | Notified string string
  | Decide string bool string string

fun change_of :: "approval_event \<Rightarrow> approvals \<Rightarrow> approvals option" where
  "change_of (Ask fp review now) a = snd (snd (ask_change fp review now a))"
| "change_of (Notified fp now) a = notify_change fp now a"
| "change_of (Decide fp approved actor now) a = map_option snd (decide_change fp approved actor now a)"

definition after_event :: "approvals \<Rightarrow> approval_event \<Rightarrow> approvals" where
  "after_event a e = (case change_of e a of None \<Rightarrow> a | Some a' \<Rightarrow> trimmed a')"

fun fair_event :: "approval_event \<Rightarrow> bool" where
  "fair_event (Ask fp review now) =
     (fp \<noteq> [] \<and> ''status'' \<notin> set (dict_keys review) \<and> ''fingerprint'' \<notin> set (dict_keys review))"
| "fair_event e = True"

definition keyed :: "approvals \<Rightarrow> bool" where
  "keyed a = list_all (\<lambda>(k, r). k \<noteq> [] \<and> field r ''fingerprint'' = JStr k) a"

lemma keyed_update: "keyed a \<Longrightarrow> k \<noteq> [] \<Longrightarrow> field r ''fingerprint'' = JStr k \<Longrightarrow> keyed (dict_set k r a)"
  unfolding dict_set_def by (induction a) (auto simp: keyed_def)

lemma keyed_member: "keyed a \<Longrightarrow> map_of a k = Some r \<Longrightarrow> k \<noteq> [] \<and> field r ''fingerprint'' = JStr k"
  by (auto simp: keyed_def list_all_iff dest!: map_of_SomeD)

lemma foldl_records:
  "map_of (foldl (\<lambda>d r. dict_set (record_fingerprint r) r d) d rs) k = Some r \<Longrightarrow>
     map_of d k = Some r \<or> (r \<in> set rs \<and> record_fingerprint r = k)"
  by (induction rs arbitrary: d) (fastforce split: if_splits)+

lemma foldl_keyed:
  "keyed d \<Longrightarrow> list_all (\<lambda>r. record_fingerprint r \<noteq> [] \<and> field r ''fingerprint'' = JStr (record_fingerprint r)) rs \<Longrightarrow>
     keyed (foldl (\<lambda>d r. dict_set (record_fingerprint r) r d) d rs)"
  by (induction rs arbitrary: d) (simp_all add: keyed_update)

lemma length_foldl_records:
  "length (foldl (\<lambda>d r. dict_set (record_fingerprint r) r d) d rs) \<le> length d + length rs"
proof (induction rs arbitrary: d)
  case (Cons r rs)
  have "length (dict_set (record_fingerprint r) r d) \<le> Suc (length d)"
    unfolding dict_set_def by (induction d) auto
  with Cons [of "dict_set (record_fingerprint r) r d"] show ?case by simp
qed simp

lemma foldl_dict_ok: "dict_ok d \<Longrightarrow> dict_ok (foldl (\<lambda>d r. dict_set (record_fingerprint r) r d) d rs)"
  by (induction rs arbitrary: d) simp_all

lemma keyed_values:
  "keyed a \<Longrightarrow> r \<in> snd ` set a \<Longrightarrow> record_fingerprint r \<noteq> [] \<and> field r ''fingerprint'' = JStr (record_fingerprint r)"
  by (auto simp: keyed_def list_all_iff record_fingerprint_def str_or_def)

lemma kept_values: "set (last_n n (sort_key record_stamp (map snd a))) \<subseteq> snd ` set a"
  using set_last_n [of n "sort_key record_stamp (map snd a)"] by auto

lemma trimmed_facts:
  assumes "keyed a" "dict_ok a"
  shows "keyed (trimmed a)" "dict_ok (trimmed a)" "length (trimmed a) \<le> max_approval_records"
    and "map_of (trimmed a) k = Some r \<Longrightarrow> map_of a k = Some r"
proof -
  let ?rs = "last_n max_approval_records (sort_key record_stamp (map snd a))"
  show "keyed (trimmed a)" unfolding trimmed_def
  proof (rule foldl_keyed)
    show "list_all (\<lambda>r. record_fingerprint r \<noteq> [] \<and> field r ''fingerprint'' = JStr (record_fingerprint r)) ?rs"
      unfolding list_all_iff using kept_values keyed_values [OF assms(1)] by blast
  qed (simp add: keyed_def)
  show "dict_ok (trimmed a)" unfolding trimmed_def by (rule foldl_dict_ok) simp
  show "length (trimmed a) \<le> max_approval_records"
    using length_foldl_records [of "[]" ?rs] by (simp add: trimmed_def length_last_n)
  assume "map_of (trimmed a) k = Some r"
  then have r: "r \<in> set ?rs" "record_fingerprint r = k" using foldl_records [of "[]" ?rs k r] by (auto simp: trimmed_def)
  then obtain k' where k': "(k', r) \<in> set a" using kept_values by fastforce
  with assms(1) have "field r ''fingerprint'' = JStr k'" by (auto simp: keyed_def list_all_iff)
  with r(2) have "k' = k" by (simp add: record_fingerprint_def str_or_def)
  with k' assms(2) show "map_of a k = Some r" by (simp add: dict_lookup_mem)
qed

lemma trimmed_status: "keyed a \<Longrightarrow> dict_ok a \<Longrightarrow> status_of (trimmed a) fp \<in> {JNull, status_of a fp}"
  using trimmed_facts(4) [of a fp] by (auto simp: status_of_def split: option.splits)

lemma asked_record:
  assumes "''status'' \<notin> set (dict_keys review)" "''fingerprint'' \<notin> set (dict_keys review)"
  shows "field (merge_fields [(''fingerprint'', JStr fp), (''status'', JStr ''pending'')]
      (review @ [(''requested_at'', JStr now), (''notified'', JBool False)])) ''fingerprint'' = JStr fp"
    and "field (merge_fields [(''fingerprint'', JStr fp), (''status'', JStr ''pending'')]
      (review @ [(''requested_at'', JStr now), (''notified'', JBool False)])) ''status'' = JStr ''pending''"
proof -
  let ?us = "review @ [(''requested_at'', JStr now), (''notified'', JBool False)]"
  have k: "''status'' \<notin> set (dict_keys ?us)" "''fingerprint'' \<notin> set (dict_keys ?us)"
    using assms by (simp_all add: dict_keys_def)
  show "field (merge_fields [(''fingerprint'', JStr fp), (''status'', JStr ''pending'')] ?us) ''fingerprint'' = JStr fp"
    using field_merge_other [OF k(2)] by (simp add: field_def dict_get_def)
  show "field (merge_fields [(''fingerprint'', JStr fp), (''status'', JStr ''pending'')] ?us) ''status'' = JStr ''pending''"
    using field_merge_other [OF k(1)] by (simp add: field_def dict_get_def)
qed

text \<open>What an event does to the status of a fingerprint, before the trimming.\<close>

definition decides :: "approval_event \<Rightarrow> string \<Rightarrow> bool \<Rightarrow> bool" where
  "decides e fp approved = (case e of Decide fp' b actor now \<Rightarrow> fp' = fp \<and> b = approved | _ \<Rightarrow> False)"

lemma change_facts:
  assumes "change_of e a = Some a'" "fair_event e" "keyed a" "dict_ok a"
  shows "keyed a'" "dict_ok a'"
    and "status_of a' fp = JStr ''approved'' \<Longrightarrow>
      decides e fp True \<or> status_of a fp = JStr ''approved'' \<and> \<not> decides e fp False"
proof -
  have *: "keyed a' \<and> dict_ok a' \<and> (status_of a' fp = JStr ''approved'' \<longrightarrow>
      decides e fp True \<or> status_of a fp = JStr ''approved'' \<and> \<not> decides e fp False)"
  proof (cases e)
    case (Ask g review now)
    then have r: "g \<noteq> []" "''status'' \<notin> set (dict_keys review)" "''fingerprint'' \<notin> set (dict_keys review)"
      using assms(2) by simp_all
    consider (old) r where "map_of a g = Some r" "field r ''status'' = JStr ''pending''"
        "a' = dict_set g (merge_fields r review) a"
      | (new) "a' = dict_set g (merge_fields [(''fingerprint'', JStr g), (''status'', JStr ''pending'')]
          (review @ [(''requested_at'', JStr now), (''notified'', JBool False)])) a"
      using assms(1) Ask by (auto simp: ask_change_def Let_def split: option.splits if_splits)
    then show ?thesis
    proof cases
      case old
      then have "field (merge_fields r review) ''fingerprint'' = JStr g"
        "field (merge_fields r review) ''status'' = JStr ''pending''"
        using keyed_member [OF assms(3)] r field_merge_other by simp_all
      with old r Ask assms(3,4) show ?thesis
        by (auto simp: keyed_update status_of_def decides_def split: if_splits)
    next
      case new
      with r Ask assms(3,4) show ?thesis
        by (auto simp: keyed_update status_of_def decides_def asked_record split: if_splits)
    qed
  next
    case (Notified g now)
    then obtain r where "map_of a g = Some r"
      "a' = dict_set g (dict_set ''notified_at'' (JStr now) (dict_set ''notified'' (JBool True) r)) a"
      using assms(1) by (auto simp: notify_change_def split: option.splits)
    with Notified keyed_member [OF assms(3)] assms(3,4) show ?thesis
      by (auto simp: keyed_update status_of_def decides_def split: if_splits)
  next
    case (Decide g b actor now)
    then obtain r where "map_of a g = Some r" "a' = dict_set g (decided b actor now r) a"
      using assms(1) by (auto simp: decide_change_def split: option.splits)
    with Decide keyed_member [OF assms(3)] assms(3,4) show ?thesis
      by (auto simp: keyed_update status_of_def decides_def decided_def split: if_splits)
  qed
  then show "keyed a'" "dict_ok a'" and "status_of a' fp = JStr ''approved'' \<Longrightarrow>
      decides e fp True \<or> status_of a fp = JStr ''approved'' \<and> \<not> decides e fp False" by blast+
qed

lemma after_event_facts:
  assumes "fair_event e" "keyed a" "dict_ok a"
  shows "keyed (after_event a e)" "dict_ok (after_event a e)"
    and "length a \<le> max_approval_records \<Longrightarrow> length (after_event a e) \<le> max_approval_records"
    and "status_of (after_event a e) fp = JStr ''approved'' \<Longrightarrow>
      decides e fp True \<or> status_of a fp = JStr ''approved'' \<and> (\<not> decides e fp False)"
proof -
  have none: "change_of e a = None \<Longrightarrow> decides e fp False \<Longrightarrow> status_of a fp = JNull"
    by (auto simp: decides_def decide_change_def status_of_def split: approval_event.splits option.splits)
  have *: "keyed (after_event a e) \<and> dict_ok (after_event a e) \<and>
      (length a \<le> max_approval_records \<longrightarrow> length (after_event a e) \<le> max_approval_records) \<and>
      (status_of (after_event a e) fp = JStr ''approved'' \<longrightarrow>
        decides e fp True \<or> status_of a fp = JStr ''approved'' \<and> \<not> decides e fp False)"
  proof (cases "change_of e a")
    case None
    with assms none show ?thesis by (auto simp: after_event_def)
  next
    case (Some a')
    note c = change_facts [OF Some assms]
    from trimmed_facts(1-3) [OF c(1,2)] trimmed_status [OF c(1,2), of fp] c(3) [of fp] Some show ?thesis
      by (auto simp: after_event_def)
  qed
  then show "keyed (after_event a e)" "dict_ok (after_event a e)"
    "length a \<le> max_approval_records \<Longrightarrow> length (after_event a e) \<le> max_approval_records"
    "status_of (after_event a e) fp = JStr ''approved'' \<Longrightarrow>
      decides e fp True \<or> status_of a fp = JStr ''approved'' \<and> (\<not> decides e fp False)" by blast+
qed

lemma events_facts:
  assumes "list_all fair_event es"
  shows "keyed (foldl after_event [] es)" "dict_ok (foldl after_event [] es)"
    "length (foldl after_event [] es) \<le> max_approval_records"
  using assms by (induction es rule: rev_induct) (simp_all add: after_event_facts, simp_all add: keyed_def)

lemma approved_decision:
  "list_all fair_event es \<Longrightarrow> status_of (foldl after_event [] es) fp = JStr ''approved'' \<Longrightarrow>
     \<exists>us e vs. es = us @ e # vs \<and> decides e fp True \<and> list_all (\<lambda>v. \<not> decides v fp False) vs"
proof (induction es rule: rev_induct)
  case (snoc e es)
  let ?a = "foldl after_event [] es"
  have f: "list_all fair_event es" "fair_event e" using snoc.prems(1) by simp_all
  from after_event_facts(4) [OF f(2) events_facts(1,2) [OF f(1)], of fp] snoc.prems(2)
  consider "decides e fp True" | "status_of ?a fp = JStr ''approved''" "\<not> decides e fp False" by auto
  then show ?case
  proof cases
    case 2
    from snoc.IH [OF f(1) 2(1)] obtain us d vs where
      "es = us @ d # vs \<and> decides d fp True \<and> list_all (\<lambda>v. \<not> decides v fp False) vs" by blast
    with 2(2) have "es @ [e] = us @ d # (vs @ [e]) \<and> decides d fp True \<and>
        list_all (\<lambda>v. \<not> decides v fp False) (vs @ [e])" by simp
    then show ?thesis by blast
  qed fastforce
qed (simp add: status_of_def)

text \<open>
  C26. Only a decision approves. Whatever pushes ask for, however often the store is written and trimmed, a
  fingerprint is approved only if a human approved this very fingerprint and did not reject it
  afterwards; and the store holds at most 20 records, each under its own fingerprint.
\<close>

theorem only_a_decision_approves:
  assumes "list_all fair_event es"
  shows "length (foldl after_event [] es) \<le> 20 \<and> keyed (foldl after_event [] es) \<and>
    (status_of (foldl after_event [] es) fp = JStr ''approved'' \<longrightarrow>
      (\<exists>us e vs. es = us @ e # vs \<and> decides e fp True \<and> list_all (\<lambda>v. \<not> decides v fp False) vs))"
  using events_facts [OF assms] approved_decision [OF assms] by (simp add: max_approval_records_def)

theorem only_a_decision_approves_witness:
  "status_of (foldl after_event [] [Ask ''f'' [(''repo'', JStr ''r'')] ''1'', Decide ''f'' True ''ann'' ''2'',
      Ask ''f'' [(''repo'', JStr ''r'')] ''3'']) ''f'' = JStr ''approved'' \<and>
   (\<exists>us e vs. [Ask ''f'' [(''repo'', JStr ''r'')] ''1'', Decide ''f'' True ''ann'' ''2'',
      Ask ''f'' [(''repo'', JStr ''r'')] ''3''] = us @ e # vs \<and> decides e ''f'' True)"
proof -
  let ?es = "[Ask ''f'' [(''repo'', JStr ''r'')] ''1'', Decide ''f'' True ''ann'' ''2'', Ask ''f'' [(''repo'', JStr ''r'')] ''3'']"
  have f: "list_all fair_event ?es" by code_simp
  have a: "status_of (foldl after_event [] ?es) ''f'' = JStr ''approved''" by code_simp
  from only_a_decision_approves [OF f, of "''f''"] a show ?thesis by blast
qed

text \<open>A decision is not final: a change that was rejected can be approved later.\<close>

lemma decision_can_be_reversed:
  "status_of (foldl after_event [] [Ask ''f'' [] ''1'', Decide ''f'' False ''ann'' ''2'', Decide ''f'' True ''bob'' ''3'']) ''f'' =
     JStr ''approved''"
  by code_simp

subsection \<open>The operations take the steps\<close>

lemma approval_records_written:
  "keyed a \<Longrightarrow> approval_records (map (\<lambda>(k, r). (k, JDict r)) a) = a"
proof (induction a)
  case (Cons kr a)
  obtain k r where kr: "kr = (k, r)" by (cases kr)
  with Cons.prems have "k \<noteq> []" "field r ''fingerprint'' = JStr k" "keyed a" by (simp_all add: keyed_def)
  moreover from this have "has_field r ''fingerprint''"
    by (auto simp: field_def has_field_def dict_get_def split: option.splits)
  ultimately show ?case using Cons.IH kr by (cases k) (simp_all add: set_default_def)
qed simp

end
