(* ===== verification/Push_Guard.thy ===== *)
theory Push_Guard
  imports Shell_Words Push_Approval
begin

section \<open>The guard of workflow pushes\<close>

text \<open>
  Models \<open>agent/middleware/workflow_push_guard.py\<close>: a shell command of the agent that is a plain
  \<open>git push\<close> is inspected in the sandbox; when the push would change files under \<open>.github/workflows\<close>, the
  tool call runs only if a human approved the fingerprint of this very change, and then it runs a command
  that names the inspected commit instead of the command of the agent. Running git, the store of
  approvals, posting to Slack and SHA-256 are parameters. A tool call is the dictionary of the request;
  the answer of the sandbox is its output and exit code.
\<close>

subsection \<open>Parsing the command\<close>

record git_push =
  gp_repo_dir :: "string option"
  gp_remote :: string
  gp_local :: string
  gp_remote_ref :: string
  gp_upstream :: bool

definition unsafe_raw :: "string \<Rightarrow> bool" where
  "unsafe_raw s = list_ex (\<lambda>c. c \<in> set '';|`$<>'' \<or> c = newline \<or> c = CHR 0x0D) s"

fun without_and_and :: "string \<Rightarrow> string" where
  "without_and_and (CHR ''&'' # CHR ''&'' # cs) = without_and_and cs"
| "without_and_and (c # cs) = c # without_and_and cs"
| "without_and_and [] = []"

definition shell_operators :: "string list" where
  "shell_operators = ['';'', ''|'', ''||'', ''&'']"

definition is_operator :: "string \<Rightarrow> bool" where
  "is_operator t = (t \<in> set shell_operators \<or> t = ''&&'')"

definition ref_char :: "char \<Rightarrow> bool" where
  "ref_char c =
     (let n = ord_c c in (48 \<le> n \<and> n \<le> 57) \<or> (65 \<le> n \<and> n \<le> 90) \<or> (97 \<le> n \<and> n \<le> 122) \<or> c \<in> set ''._/@+-'')"

definition safe_ref :: "string \<Rightarrow> bool \<Rightarrow> bool" where
  "safe_ref ref allow_head =
     (if allow_head \<and> ref = ''HEAD'' then True
      else if ref = ''HEAD'' \<or> ref = [] \<or> \<not> list_all ref_char ref then False
      else \<not> list_ex (\<lambda>part. part \<in> {[], ''.'', ''..''}) (split_on CHR ''/'' ref))"

definition parse_refspec :: "string \<Rightarrow> (string \<times> string) option" where
  "parse_refspec refspec =
     (if starts_with ''-'' refspec \<or> contains ''..'' refspec then None
      else
        (case (if CHR '':'' \<in> set refspec
               then (case split_on CHR '':'' refspec of
                       [a, b] \<Rightarrow> (if a = [] \<or> b = [] then None else Some (a, b))
                     | _ \<Rightarrow> None)
               else Some (refspec, refspec)) of
           None \<Rightarrow> None
         | Some (a, b) \<Rightarrow> (if safe_ref a True \<and> safe_ref b False then Some (a, b) else None)))"

fun skip_upstream :: "string list \<Rightarrow> bool \<Rightarrow> string list \<times> bool" where
  "skip_upstream [] u = ([], u)"
| "skip_upstream (t # ts) u =
     (if t \<in> {''-u'', ''--set-upstream''} then skip_upstream ts True else (t # ts, u))"

definition parse_push_args :: "string list \<Rightarrow> string option \<Rightarrow> git_push option" where
  "parse_push_args tokens repo_dir =
     (case skip_upstream tokens False of
        ([origin, refspec], u) \<Rightarrow>
          (if origin \<noteq> ''origin'' then None
           else (case parse_refspec refspec of
              None \<Rightarrow> None
            | Some (l, r) \<Rightarrow>
                Some \<lparr>gp_repo_dir = repo_dir, gp_remote = ''origin'', gp_local = l, gp_remote_ref = r, gp_upstream = u\<rparr>))
      | _ \<Rightarrow> None)"

fun parse_git_words :: "string list \<Rightarrow> string option \<Rightarrow> git_push option" where
  "parse_git_words [] repo_dir = None"
| "parse_git_words (t # ts) repo_dir =
     (if t = ''push'' then parse_push_args ts repo_dir
      else if t = ''-C'' then (case ts of [] \<Rightarrow> None | d # ts' \<Rightarrow> parse_git_words ts' (Some d))
      else None)"

definition parse_git_tokens :: "string list \<Rightarrow> string option \<Rightarrow> git_push option" where
  "parse_git_tokens tokens repo_dir =
     (case tokens of [] \<Rightarrow> None | t # ts \<Rightarrow> (if t \<noteq> ''git'' then None else parse_git_words ts repo_dir))"

definition parse_tokens :: "string list \<Rightarrow> git_push option" where
  "parse_tokens tokens =
     (case tokens of
        cd # dir # and_and # t # ts \<Rightarrow>
          (if cd = ''cd'' \<and> and_and = ''&&''
           then (if list_ex is_operator (t # ts) then None else parse_git_tokens (t # ts) (Some dir))
           else if list_ex is_operator tokens then None
           else parse_git_tokens tokens None)
      | _ \<Rightarrow> (if list_ex is_operator tokens then None else parse_git_tokens tokens None))"

definition parse_git_push :: "string \<Rightarrow> git_push option" where
  "parse_git_push command =
     (let stripped = strip command
      in if unsafe_raw stripped \<or> CHR ''&'' \<in> set (without_and_and stripped) then None
         else (case shlex_split stripped of Inl e \<Rightarrow> None | Inr tokens \<Rightarrow> parse_tokens tokens))"

subsection \<open>Inspecting the push\<close>

record push_change =
  pc_fingerprint :: string
  pc_repo :: string
  pc_branch :: string
  pc_base_sha :: string
  pc_head_sha :: string
  pc_files :: "string list"
  pc_stats :: "(string, int) dict"
  pc_preview :: string
  pc_truncated :: bool
  pc_remote :: string
  pc_local :: string
  pc_remote_ref :: string
  pc_command :: string

type_synonym 'w shell = "string \<Rightarrow> ('w, string \<times> int option) action"

definition git_command :: "string option \<Rightarrow> string \<Rightarrow> string" where
  "git_command repo_dir args =
     (case repo_dir of
        Some (c # cs) \<Rightarrow> ''git -C '' @ shlex_quote (c # cs) @ '' '' @ args
      | _ \<Rightarrow> ''git '' @ args)"

definition run_git :: "'w shell \<Rightarrow> string option \<Rightarrow> string \<Rightarrow> ('w, string \<times> bool) action" where
  "run_git shell repo_dir args =
     catch_all
       (and_then (shell (git_command repo_dir args))
         (\<lambda>(out, code). give (strip out, code = None \<or> code = Some 0)))
       (\<lambda>e. give ([], False))"

definition first_line :: "string \<Rightarrow> string" where
  "first_line s = (case filter (\<lambda>l. l \<noteq> []) (map strip (splitlines s)) of [] \<Rightarrow> [] | l # ls \<Rightarrow> l)"

definition is_object_id :: "string \<Rightarrow> bool" where
  "is_object_id s = (40 \<le> length s \<and> length s \<le> 64 \<and> list_all is_hex_c s)"

definition drop_suffix :: "string \<Rightarrow> string \<Rightarrow> string" where
  "drop_suffix p s = (if ends_with p s then take (length s - length p) s else s)"

definition normalize_remote :: "string \<Rightarrow> string" where
  "normalize_remote remote =
     (let v = drop_suffix ''.git'' (strip remote);
          r = drop 8 v;
          user = takeWhile (\<lambda>c. c \<noteq> CHR ''/'' \<and> c \<noteq> CHR ''@'') r;
          w = (if starts_with ''https://'' v \<and> user \<noteq> [] \<and>
                  starts_with ''@github.com/'' (drop (length user) r)
               then ''https://github.com/'' @ drop (length user + 12) r else v)
      in if starts_with ''git@github.com:'' w then ''https://github.com/'' @ drop 15 w else w)"

fun preview_lines :: "nat \<Rightarrow> nat \<Rightarrow> string list \<Rightarrow> string list \<times> bool" where
  "preview_lines k chars [] = ([], False)"
| "preview_lines k chars (l # ls) =
     (if 400 \<le> k \<or> 20000 < chars + length l + 1 then ([], True)
      else (case preview_lines (k + 1) (chars + length l + 1) ls of (ps, left) \<Rightarrow> (l # ps, left)))"

definition diff_preview :: "string \<Rightarrow> string \<times> bool" where
  "diff_preview diff =
     (if length diff \<le> 20000 \<and> length (splitlines diff) \<le> 400 then (diff, False)
      else (case preview_lines 0 0 (splitlines diff) of (ps, left) \<Rightarrow> (join [newline] ps, left)))"

definition all_digits :: "string \<Rightarrow> bool" where
  "all_digits s = (s \<noteq> [] \<and> list_all is_digit_c s)"

definition count_field :: "nat \<Rightarrow> string list \<Rightarrow> int" where
  "count_field i parts = (if 3 \<le> length parts \<and> all_digits (parts ! i) then digits_value (parts ! i) else 0)"

definition diff_stats :: "string list \<Rightarrow> string \<Rightarrow> (string, int) dict" where
  "diff_stats files numstat =
     (let rows = map (split_on (CHR 0x09)) (splitlines numstat)
      in [(''files'', int (length files)), (''additions'', sum_list (map (count_field 0) rows)),
          (''deletions'', sum_list (map (count_field 1) rows))])"

definition workflow_files :: "string \<Rightarrow> string list" where
  "workflow_files out =
     py_sorted (filter (starts_with ''.github/workflows/'') (map strip (splitlines out)))"

definition fixed_words :: "git_push \<Rightarrow> string \<Rightarrow> string list" where
  "fixed_words p head =
     ''push'' # (if gp_upstream p then [''--set-upstream''] else []) @
     [gp_remote p, head @ '':refs/heads/'' @ gp_remote_ref p]"

definition push_payload :: "git_push \<Rightarrow> string \<Rightarrow> string \<Rightarrow> string \<Rightarrow> string \<Rightarrow> string list \<Rightarrow> string \<Rightarrow> json" where
  "push_payload p repo branch base head files diff =
     JDict [(''repo'', JStr repo), (''branch'', JStr branch), (''base_sha'', JStr base), (''head_sha'', JStr head),
       (''files'', JList (map JStr files)), (''diff'', JStr diff), (''remote'', JStr (gp_remote p)),
       (''local_ref'', JStr (gp_local p)), (''remote_ref'', JStr (gp_remote_ref p)),
       (''fixed_refspec'', JStr (head @ '':refs/heads/'' @ gp_remote_ref p))]"

definition push_range :: "'w shell \<Rightarrow> string \<Rightarrow> git_push \<Rightarrow> string \<Rightarrow> ('w, string \<times> string) action" where
  "push_range shell base_dir p head =
     (let tracking = ''refs/remotes/'' @ gp_remote p @ ''/'' @ gp_remote_ref p
      in and_then (run_git shell (Some base_dir) (''rev-parse --verify '' @ shlex_quote tracking))
        (\<lambda>(seen, ok1).
           if ok1 \<and> first_line seen \<noteq> []
           then and_then (run_git shell (Some base_dir) (''rev-parse '' @ shlex_quote tracking))
             (\<lambda>(base, ok2). give (shlex_quote tracking @ ''..'' @ shlex_quote head, first_line base))
           else and_then (run_git shell (Some base_dir) ''symbolic-ref --short refs/remotes/origin/HEAD'')
             (\<lambda>(upstream, ok2).
                let base_ref = (if ok2 then first_line upstream else ''origin/main'')
                in and_then (run_git shell (Some base_dir) (''merge-base '' @ shlex_quote head @ '' '' @ shlex_quote base_ref))
                  (\<lambda>(base, ok3). give (shlex_quote base_ref @ ''...'' @ shlex_quote head, first_line base)))))"

definition change_in_range ::
  "(json \<Rightarrow> string) \<Rightarrow> 'w shell \<Rightarrow> string \<Rightarrow> git_push \<Rightarrow> string \<Rightarrow> string \<Rightarrow> string \<times> string \<Rightarrow> ('w, push_change option) action"
where
  "change_in_range digest shell base_dir p branch head = (\<lambda>(span, base).
     and_then (run_git shell (Some base_dir)
         (''diff --name-only --diff-filter=ACMRTD '' @ span @ '' -- .github/workflows''))
       (\<lambda>(names, ok1).
          let files = workflow_files names
          in if \<not> ok1 \<or> files = [] then give None
             else and_then (run_git shell (Some base_dir)
                 (''diff --binary --full-index '' @ span @ '' -- .github/workflows''))
               (\<lambda>(diff, ok2).
                  if \<not> ok2 \<or> diff = [] then give None
                  else and_then (run_git shell (Some base_dir) (''diff --numstat '' @ span @ '' -- .github/workflows''))
                    (\<lambda>(numstat, ok3). and_then (run_git shell (Some base_dir) ''config --get remote.origin.url'')
                      (\<lambda>(url, ok4).
                         let repo = (if ok4 then normalize_remote (first_line url) else [])
                         in give (Some
                           \<lparr>pc_fingerprint = digest (push_payload p repo branch base head files diff),
                            pc_repo = repo, pc_branch = branch, pc_base_sha = base, pc_head_sha = head,
                            pc_files = files, pc_stats = diff_stats files (if ok3 then numstat else []),
                            pc_preview = fst (diff_preview diff), pc_truncated = snd (diff_preview diff),
                            pc_remote = gp_remote p, pc_local = gp_local p, pc_remote_ref = gp_remote_ref p,
                            pc_command = git_command (Some base_dir) (shlex_join (fixed_words p head))\<rparr>))))))"

definition workflow_change_for_push ::
  "(json \<Rightarrow> string) \<Rightarrow> 'w shell \<Rightarrow> git_push \<Rightarrow> ('w, push_change option) action" where
  "workflow_change_for_push digest shell p =
     and_then (run_git shell (gp_repo_dir p) ''rev-parse --show-toplevel'')
       (\<lambda>(top_out, ok0).
          let base_dir = first_line top_out
          in if \<not> ok0 \<or> base_dir = [] then give None
             else and_then (run_git shell (Some base_dir) ''rev-parse --abbrev-ref HEAD'')
               (\<lambda>(branch_out, ok1).
                  let branch = (if ok1 then first_line branch_out else [])
                  in if branch = [] \<or> branch = ''HEAD'' \<or> gp_remote_ref p \<noteq> branch \<or>
                        gp_local p \<notin> {''HEAD'', branch} then give None
                     else and_then (run_git shell (Some base_dir) (''rev-parse '' @ shlex_quote (gp_local p)))
                       (\<lambda>(head_out, ok2).
                          let head = (if ok2 then first_line head_out else [])
                          in if \<not> is_object_id head then give None
                             else and_then (push_range shell base_dir p head)
                               (change_in_range digest shell base_dir p branch head))))"

subsection \<open>The guard\<close>

record tool_request =
  rq_call :: json
  rq_configurable :: json

definition tool_name :: "tool_request \<Rightarrow> string option" where
  "tool_name rq = as_str (jget (rq_call rq) ''name'')"

definition tool_args :: "tool_request \<Rightarrow> fields" where
  "tool_args rq = (case as_dict (jget (rq_call rq) ''args'') of None \<Rightarrow> [] | Some d \<Rightarrow> d)"

definition tool_call_id :: "tool_request \<Rightarrow> string option" where
  "tool_call_id rq = as_str (jget (rq_call rq) ''id'')"

definition request_thread :: "tool_request \<Rightarrow> string option" where
  "request_thread rq = nonempty_str (jget (rq_configurable rq) ''thread_id'')"

definition override_command :: "tool_request \<Rightarrow> string \<Rightarrow> tool_request" where
  "override_command rq command =
     (case as_dict (rq_call rq) of
        None \<Rightarrow> rq
      | Some d \<Rightarrow>
          rq\<lparr>rq_call := JDict (dict_set ''args'' (JDict (dict_set ''command'' (JStr command) (tool_args rq))) d)\<rparr>)"

record 'w push_env =
  pe_client :: "'w thread_client"
  pe_clock :: "'w \<Rightarrow> string"
  pe_digest :: "json \<Rightarrow> string"
  pe_backend :: "string \<Rightarrow> 'w shell option"
  pe_url :: "string \<Rightarrow> string \<Rightarrow> string option"
  pe_post :: "tool_request \<Rightarrow> push_change \<Rightarrow> string option \<Rightarrow> ('w, bool) action"

definition guarded_tools :: "string list" where
  "guarded_tools = [''execute'', ''background_execute'']"

definition change_for_request :: "'w push_env \<Rightarrow> tool_request \<Rightarrow> ('w, push_change option) action" where
  "change_for_request env rq =
     (if tool_name rq \<notin> Some ` set guarded_tools then give None
      else (case as_str (field (tool_args rq) ''command'') of
         None \<Rightarrow> give None
       | Some command \<Rightarrow>
           (case parse_git_push command of
              None \<Rightarrow> give None
            | Some p \<Rightarrow>
                (case Option.bind (request_thread rq) (pe_backend env) of
                   None \<Rightarrow> give None
                 | Some shell \<Rightarrow> workflow_change_for_push (pe_digest env) shell p))))"

definition review_fields :: "push_change \<Rightarrow> string option \<Rightarrow> fields" where
  "review_fields ch url =
     [(''repo'', JStr (pc_repo ch)), (''branch'', JStr (pc_branch ch)), (''base_sha'', JStr (pc_base_sha ch)),
      (''head_sha'', JStr (pc_head_sha ch)), (''files'', JList (map JStr (pc_files ch))),
      (''diff_stats'', JDict (normalize_diff_stats (Some (pc_stats ch)) (length (pc_files ch)))),
      (''diff_preview'', JStr (pc_preview ch)), (''diff_preview_truncated'', JBool (pc_truncated ch)),
      (''approval_url'', opt_str url)]"

definition post_if_needed :: "'w push_env \<Rightarrow> tool_request \<Rightarrow> string \<Rightarrow> push_change \<Rightarrow> fields \<Rightarrow> ('w, unit) action" where
  "post_if_needed env rq t ch record =
     (if field record ''notified'' = JBool True then give ()
      else and_then (pe_post env rq ch (pe_url env t (pc_fingerprint ch)))
        (\<lambda>posted. if posted then mark_workflow_push_notified (pe_client env) (pe_clock env) t (pc_fingerprint ch)
           else give ()))"

definition approval_state :: "'w push_env \<Rightarrow> tool_request \<Rightarrow> push_change \<Rightarrow> ('w, string) action" where
  "approval_state env rq ch =
     (case request_thread rq of
        None \<Rightarrow> give ''missing_thread''
      | Some t \<Rightarrow>
          catch_all
            (and_then (workflow_push_approved (pe_client env) t (pc_fingerprint ch))
              (\<lambda>approved.
                 if approved then give ''approved''
                 else and_then (ensure_workflow_push_pending (pe_client env) (pe_clock env) t (pc_fingerprint ch)
                     (review_fields ch (pe_url env t (pc_fingerprint ch))))
                   (\<lambda>(record, created). and_then (post_if_needed env rq t ch record)
                     (\<lambda>u. give (if truthy (field record ''status'') then str_or [] (field record ''status'')
                        else ''pending'')))))
            (\<lambda>e. give ''approval_error''))"

definition blocked_content :: "push_change \<Rightarrow> string option \<Rightarrow> bool \<Rightarrow> json" where
  "blocked_content ch url rejected =
     JDict [(''status'', JStr ''error''), (''error_type'', JStr ''WorkflowPushApprovalRequired''),
       (''error'', JStr (''This git push includes GitHub workflow file changes and requires human '' @
          ''approval before Open SWE can push it. Retry the same standalone git push '' @
          ''after the thread owner approves the workflow diff in Slack or the web UI.'')),
       (''workflow_approval_status'', JStr (if rejected then ''rejected'' else ''approval_required'')),
       (''fingerprint'', JStr (pc_fingerprint ch)), (''files'', JList (map JStr (pc_files ch))),
       (''repo'', JStr (pc_repo ch)), (''branch'', JStr (pc_branch ch)), (''base_sha'', JStr (pc_base_sha ch)),
       (''head_sha'', JStr (pc_head_sha ch)),
       (''diff_stats'', JDict (map (\<lambda>(k, n). (k, JInt n)) (pc_stats ch))),
       (''diff_preview_truncated'', JBool (pc_truncated ch)), (''approval_url'', opt_str url)]"

datatype 'r tool_result = Ran 'r | Blocked json "string option"

definition handle_change ::
  "'w push_env \<Rightarrow> tool_request \<Rightarrow> (tool_request \<Rightarrow> ('w, 'r) action) \<Rightarrow> push_change \<Rightarrow> ('w, 'r tool_result) action" where
  "handle_change env rq handler ch =
     and_then (approval_state env rq ch)
       (\<lambda>state.
          if state = ''approved''
          then and_then (handler (override_command rq (pc_command ch))) (\<lambda>r. give (Ran r))
          else give (Blocked
            (blocked_content ch (case request_thread rq of None \<Rightarrow> None | Some t \<Rightarrow> pe_url env t (pc_fingerprint ch))
              (state = ''rejected''))
            (tool_call_id rq)))"

definition wrap_tool_call ::
  "'w push_env \<Rightarrow> (tool_request \<Rightarrow> ('w, 'r) action) \<Rightarrow> tool_request \<Rightarrow> ('w, 'r tool_result) action" where
  "wrap_tool_call env handler rq =
     and_then (change_for_request env rq)
       (\<lambda>change. case change of
          None \<Rightarrow> and_then (handler rq) (\<lambda>r. give (Ran r))
        | Some ch \<Rightarrow> handle_change env rq handler ch)"

subsection \<open>The command that is run\<close>

definition pinned :: "git_push \<Rightarrow> push_change \<Rightarrow> bool" where
  "pinned p ch \<longleftrightarrow>
     is_object_id (pc_head_sha ch) \<and> pc_files ch \<noteq> [] \<and>
     list_all (starts_with ''.github/workflows/'') (pc_files ch) \<and>
     (\<exists>base_dir. shlex_split (pc_command ch) =
        Inr ([''git'', ''-C'', base_dir, ''push''] @ (if gp_upstream p then [''--set-upstream''] else []) @
          [gp_remote p, pc_head_sha ch @ '':refs/heads/'' @ pc_branch ch]))"

lemma git_words: "list_all is_plain_c ''git''" "list_all is_plain_c ''-C''"
  by code_simp+

lemma command_words:
  assumes "d \<noteq> []" "ws \<noteq> []"
  shows "shlex_split (git_command (Some d) (shlex_join ws)) = Inr (''git'' # ''-C'' # d # ws)"
proof -
  have "git_command (Some d) (shlex_join ws) = shlex_join (''git'' # ''-C'' # d # ws)"
    using assms git_words by (cases d; cases ws) (simp_all add: git_command_def shlex_join_def shlex_quote_def)
  then show ?thesis by (simp add: shlex_split_def lex_join)
qed

lemma workflow_files_start: "list_all (starts_with ''.github/workflows/'') (workflow_files out)"
  by (auto simp: workflow_files_def list_all_iff)

lemma change_in_range_facts:
  assumes "change_in_range digest shell d p branch head range_base w = (Inr (Some ch), w')" "d \<noteq> []"
  shows "pc_head_sha ch = head \<and> pc_branch ch = branch \<and> pc_files ch \<noteq> [] \<and>
    list_all (starts_with ''.github/workflows/'') (pc_files ch) \<and>
    shlex_split (pc_command ch) = Inr (''git'' # ''-C'' # d # fixed_words p head)"
  using assms workflow_files_start command_words [OF assms(2), of "fixed_words p head"]
  by (cases range_base)
    (auto simp: change_in_range_def Let_def give_def fixed_words_def split: if_splits prod.splits elim!: and_then_cases)

lemma change_is_pinned:
  assumes "workflow_change_for_push digest shell p w = (Inr (Some ch), w')"
  shows "pinned p ch \<and> pc_branch ch = gp_remote_ref p \<and> gp_local p \<in> {''HEAD'', pc_branch ch}"
proof -
  from assms obtain d branch head u v range_base where
    d: "d \<noteq> []" "gp_remote_ref p = branch" "gp_local p \<in> {''HEAD'', branch}" "is_object_id head"
      "change_in_range digest shell d p branch head range_base u = (Inr (Some ch), v)"
    unfolding workflow_change_for_push_def Let_def
    by (auto simp: give_def split: if_splits prod.splits elim!: and_then_cases)
  from change_in_range_facts [OF d(5,1)] d(2-4) show ?thesis
    by (auto simp: pinned_def fixed_words_def)
qed

lemma override_args:
  assumes "tool_name rq \<noteq> None"
  shows "field (tool_args (override_command rq c)) ''command'' = JStr c"
    "tool_name (override_command rq c) = tool_name rq" "tool_call_id (override_command rq c) = tool_call_id rq"
    "rq_configurable (override_command rq c) = rq_configurable rq"
  using assms
  by (cases "rq_call rq"; simp add: override_command_def tool_args_def tool_name_def tool_call_id_def)+

lemma asked_status:
  assumes "ask_change fp review now a = (r, created, a')" "''status'' \<notin> set (dict_keys review)"
    "''fingerprint'' \<notin> set (dict_keys review)" "field r ''status'' = JStr ''approved''"
  shows "status_of a fp = JStr ''approved''"
  using assms asked_record [OF assms(2,3)] field_merge_other [OF assms(2)]
  by (auto simp: ask_change_def Let_def status_of_def split: option.splits if_splits)

lemma review_keys: "''status'' \<notin> set (dict_keys (review_fields ch url))"
  "''fingerprint'' \<notin> set (dict_keys (review_fields ch url))"
  by (simp_all add: review_fields_def dict_keys_def)

lemma approved_state_read:
  assumes "approval_state env rq ch w = (Inr ''approved'', w')"
  shows "\<exists>t a u v. request_thread rq = Some t \<and> get_workflow_push_approvals (pe_client env) t u = (Inr a, v) \<and>
    status_of a (pc_fingerprint ch) = JStr ''approved'' \<and>
    u \<in> {w, snd (get_workflow_push_approvals (pe_client env) t w)}"
proof (cases "request_thread rq")
  case None
  with assms show ?thesis by (simp add: approval_state_def give_def)
next
  case (Some t)
  obtain a v where g: "get_workflow_push_approvals (pe_client env) t w = (a, v)" by fastforce
  show ?thesis
  proof (cases a)
    case (Inl e)
    with assms Some g show ?thesis
      by (simp add: approval_state_def catch_all_def workflow_push_approved_def and_then_def give_def)
  next
    case (Inr approvals)
    show ?thesis
    proof (cases "status_of approvals (pc_fingerprint ch) = JStr ''approved''")
      case True
      with Some g Inr show ?thesis by blast
    next
      case False
      let ?m = "ensure_workflow_push_pending (pe_client env) (pe_clock env) t (pc_fingerprint ch)
          (review_fields ch (pe_url env t (pc_fingerprint ch)))"
      from assms Some g Inr False obtain r created u where e: "?m v = (Inr (r, created), u)"
        and s: "field r ''status'' = JStr ''approved''"
        by (auto simp: approval_state_def catch_all_def workflow_push_approved_def and_then_def give_def str_or_def
            split: prod.splits sum.splits if_splits option.splits elim: as_str.elims)
      from e obtain b x where b: "get_workflow_push_approvals (pe_client env) t v = (Inr b, x)"
        and c: "\<exists>a'. ask_change (pc_fingerprint ch) (review_fields ch (pe_url env t (pc_fingerprint ch)))
          (pe_clock env x) b = (r, created, a')"
        by (auto simp: ensure_workflow_push_pending_def and_then_def give_def
            split: prod.splits sum.splits option.splits)
      with s have "status_of b (pc_fingerprint ch) = JStr ''approved''"
        using asked_status review_keys by blast
      with Some g b show ?thesis by (metis insertCI snd_conv)
    qed
  qed
qed

text \<open>
  C25. An unapproved workflow push never runs. When the inspection of a tool call finds workflow files, the
  tool runs only after the store was read with this very change approved; and what runs is the same tool
  with a command that splits into a push of the inspected commit to the inspected branch, so neither a
  new commit nor a word of the agent's command can slip in. Otherwise nothing runs.
\<close>

theorem unapproved_push_never_runs:
  assumes "change_for_request env rq w = (Inr (Some ch), w1)"
  shows "\<exists>p. pinned p ch \<and>
    (case wrap_tool_call env handler rq w of
       (Inr (Ran r), w2) \<Rightarrow>
         (\<exists>rq' v. handler rq' v = (Inr r, w2) \<and> tool_name rq' = tool_name rq \<and>
           field (tool_args rq') ''command'' = JStr (pc_command ch)) \<and>
         (\<exists>t a u v. get_workflow_push_approvals (pe_client env) t u = (Inr a, v) \<and>
           status_of a (pc_fingerprint ch) = JStr ''approved'' \<and>
           u \<in> {w1, snd (get_workflow_push_approvals (pe_client env) t w1)})
     | (Inr (Blocked j i), w2) \<Rightarrow> w2 = snd (approval_state env rq ch w1) \<and> i = tool_call_id rq
     | (Inl e, w2) \<Rightarrow> True)"
proof -
  from assms obtain command p shell where c: "tool_name rq \<noteq> None"
    "workflow_change_for_push (pe_digest env) shell p w = (Inr (Some ch), w1)"
    by (auto simp: change_for_request_def give_def split: if_splits option.splits)
  then have p: "pinned p ch" using change_is_pinned [OF c(2)] by simp
  obtain st w3 where st: "approval_state env rq ch w1 = (st, w3)" by fastforce
  have w: "wrap_tool_call env handler rq w = handle_change env rq handler ch w1"
    by (simp add: wrap_tool_call_def and_then_def assms)
  show ?thesis
  proof (cases st)
    case (Inl e)
    with st p show ?thesis unfolding w by (auto simp: handle_change_def and_then_def)
  next
    case (Inr state)
    show ?thesis
    proof (cases "state = ''approved''")
      case False
      with st Inr p show ?thesis unfolding w by (auto simp: handle_change_def and_then_def give_def)
    next
      case True
      with st Inr obtain t a u v where a: "get_workflow_push_approvals (pe_client env) t u = (Inr a, v)"
        "status_of a (pc_fingerprint ch) = JStr ''approved''"
        "u \<in> {w1, snd (get_workflow_push_approvals (pe_client env) t w1)}"
        using approved_state_read [of env rq ch w1 w3] by blast
      obtain r w4 where h: "handler (override_command rq (pc_command ch)) w3 = (r, w4)" by fastforce
      show ?thesis
      proof (cases r)
        case (Inl e)
        with h st Inr True p show ?thesis unfolding w by (auto simp: handle_change_def and_then_def)
      next
        case run: (Inr x)
        have "handle_change env rq handler ch w1 = (Inr (Ran x), w4)"
          using h run st Inr True by (simp add: handle_change_def and_then_def give_def)
        with p a h run override_args [OF c(1), of "pc_command ch"] show ?thesis unfolding w by auto
      qed
    qed
  qed
qed

definition demo_sha :: string where
  "demo_sha = replicate 40 (CHR ''a'')"

definition demo_shell :: "json shell" where
  "demo_shell command =
     give (if contains ''--show-toplevel'' command then (''/r'', Some 0)
       else if contains ''--abbrev-ref'' command then (''main'', Some 0)
       else if contains ''--name-only'' command then (''.github/workflows/ci.yml'', Some 0)
       else if contains ''--binary'' command then (''+x'', Some 0)
       else if contains ''rev-parse HEAD'' command then (demo_sha, Some 0)
       else ([], Some 1))"

definition demo_env :: "json push_env" where
  "demo_env =
     \<lparr>pe_client = \<lparr>tc_get = (\<lambda>t w. (Inr (JDict [(''metadata'', w)]), w)),
         tc_update = (\<lambda>t d w. (Inr (), JDict d)), tc_record = (\<lambda>t f w. (Inr (), w))\<rparr>,
      pe_clock = (\<lambda>w. ''2026''), pe_digest = (\<lambda>j. ''fp''), pe_backend = (\<lambda>t. Some demo_shell),
      pe_url = (\<lambda>t fp. None), pe_post = (\<lambda>rq ch url. give False)\<rparr>"

definition demo_request :: "string \<Rightarrow> tool_request" where
  "demo_request command =
     \<lparr>rq_call = JDict [(''name'', JStr ''execute''), (''args'', JDict [(''command'', JStr command)]), (''id'', JStr ''c1'')],
      rq_configurable = JDict [(''thread_id'', JStr ''t'')]\<rparr>"

definition demo_change :: push_change where
  "demo_change =
     \<lparr>pc_fingerprint = ''fp'', pc_repo = [], pc_branch = ''main'', pc_base_sha = [], pc_head_sha = demo_sha,
      pc_files = [''.github/workflows/ci.yml''],
      pc_stats = [(''files'', 1), (''additions'', 0), (''deletions'', 0)], pc_preview = ''+x'', pc_truncated = False,
      pc_remote = ''origin'', pc_local = ''HEAD'', pc_remote_ref = ''main'',
      pc_command = ''git -C /r push origin '' @ demo_sha @ '':refs/heads/main''\<rparr>"

lemma demo_inspected:
  "change_for_request demo_env (demo_request ''git push origin HEAD:main'') w = (Inr (Some demo_change), w)"
  by code_simp

theorem unapproved_push_never_runs_witness:
  "(\<exists>p. pinned p demo_change) \<and>
   isl (fst (wrap_tool_call demo_env (\<lambda>rq w. (Inr (), JNull)) (demo_request ''git push origin HEAD:main'') (JDict []))) = False \<and>
   snd (wrap_tool_call demo_env (\<lambda>rq w. (Inr (), JNull)) (demo_request ''git push origin HEAD:main'') (JDict [])) =
     snd (approval_state demo_env (demo_request ''git push origin HEAD:main'') demo_change (JDict []))"
proof -
  let ?rq = "demo_request ''git push origin HEAD:main''"
  let ?r = "wrap_tool_call demo_env (\<lambda>rq w. (Inr (), JNull)) ?rq (JDict [])"
  have b: "(case fst ?r of Inr (Blocked j i) \<Rightarrow> True | _ \<Rightarrow> False) = True" by code_simp
  from unapproved_push_never_runs [OF demo_inspected [of "JDict []"], of "\<lambda>rq w. (Inr (), JNull)"] b
  show ?thesis by (cases ?r) (auto split: sum.splits tool_result.splits)
qed

text \<open>
  What the guard does not inspect runs as the agent wrote it. A push that is no plain push, or that spells
  out the full name of the branch, is not inspected: here the same change of a workflow file is pushed
  without an approval.
\<close>

lemma uninspected_push_runs:
  "parse_git_push ''git push --force origin main'' = None"
  "parse_git_push ''git push'' = None"
  "fst (change_for_request demo_env (demo_request ''git push origin HEAD:refs/heads/main'') (JDict [])) = Inr None"
  by code_simp+

end
