(* ===== verification/Pr_Guard.thy ===== *)
theory Pr_Guard
  imports Push_Guard
begin

section \<open>The guard of pull-request creation\<close>

text \<open>
  Models \<open>agent/middleware/pr_creation_guard.py\<close>: pull requests are opened by the tool
  \<open>open_pull_request\<close>, so the guard blocks shell commands that would open one another way. It splits the
  command into words, adds the words of nested \<open>sh -c\<close> commands up to three levels, and looks for
  \<open>gh pr create\<close>, for \<open>gh api\<close> posts and for \<open>curl\<close> posts to the pulls endpoint.

  The two regular expressions of the endpoint are written as functions: a segment is a text without
  \<open>/\<close> and white space.
\<close>

subsection \<open>Words\<close>

definition separators :: "string list" where
  "separators = ['';'', ''&&'', ''||'', ''|'', ''&'']"

definition shell_executables :: "string list" where
  "shell_executables = [''bash'', ''dash'', ''sh'', ''zsh'']"

definition max_expansion_depth :: nat where
  "max_expansion_depth = 3"

definition depth_token :: string where
  "depth_token = ''__pr_creation_guard_shell_expansion_depth_limit__''"

definition split_shell_tokens :: "string \<Rightarrow> string list" where
  "split_shell_tokens command = (case shlex_split command of Inr ts \<Rightarrow> ts | Inl e \<Rightarrow> words_of command)"

definition strip_quotes :: "string \<Rightarrow> string" where
  "strip_quotes s = rev (dropWhile is_quote (rev (dropWhile is_quote s)))"

definition executable_name :: "string \<Rightarrow> string" where
  "executable_name token = last (split_on CHR ''/'' (strip_quotes token))"

definition command_flag :: "string \<Rightarrow> bool" where
  "command_flag t =
     (t = ''-c'' \<or> starts_with ''-'' t \<and> \<not> starts_with ''--'' t \<and> CHR ''c'' \<in> set (tl t))"

fun shell_argument :: "string list \<Rightarrow> string option" where
  "shell_argument [] = None"
| "shell_argument (t # ts) =
     (if t \<in> set separators then None
      else if command_flag t
      then (case ts of [] \<Rightarrow> None | u # us \<Rightarrow> (if u \<in> set separators then None else Some u))
      else shell_argument ts)"

text \<open>The nested commands of a list of words, in order: the argument of each shell among them.\<close>

fun nested_commands :: "string list \<Rightarrow> string list" where
  "nested_commands [] = []"
| "nested_commands (t # ts) =
     (if executable_name t \<in> set shell_executables
      then (case shell_argument ts of None \<Rightarrow> nested_commands ts | Some c \<Rightarrow> c # nested_commands ts)
      else nested_commands ts)"

definition has_nested_shell :: "string list \<Rightarrow> bool" where
  "has_nested_shell tokens = (nested_commands tokens \<noteq> [])"

text \<open>\<open>expand k\<close> has \<open>k\<close> levels left, that is it runs at depth \<open>3 - k\<close>.\<close>

fun expand :: "nat \<Rightarrow> string list \<Rightarrow> string list" where
  "expand 0 tokens = (if has_nested_shell tokens then tokens @ [depth_token] else tokens)"
| "expand (Suc k) tokens =
     tokens @ concat (map (\<lambda>c. expand k (split_shell_tokens c)) (nested_commands tokens))"

definition shell_tokens :: "string \<Rightarrow> string list" where
  "shell_tokens command = expand max_expansion_depth (split_shell_tokens command)"

subsection \<open>Patterns\<close>

definition segment :: "string list \<Rightarrow> string list" where
  "segment ts = takeWhile (\<lambda>t. t \<notin> set separators) ts"

text \<open>The words after each call of an executable, up to the next separator.\<close>

fun calls_of :: "string \<Rightarrow> string list \<Rightarrow> string list list" where
  "calls_of exe [] = []"
| "calls_of exe (t # ts) = (if executable_name t = exe then segment ts # calls_of exe ts else calls_of exe ts)"

fun has_pair :: "string \<Rightarrow> string \<Rightarrow> string list \<Rightarrow> bool" where
  "has_pair a b (x # y # zs) = (x = a \<and> y = b \<or> has_pair a b (y # zs))"
| "has_pair a b _ = False"

definition contains_gh_pr_create :: "string list \<Rightarrow> bool" where
  "contains_gh_pr_create tokens = list_ex (has_pair ''pr'' ''create'') (calls_of ''gh'' tokens)"

definition gh_api_value_flags :: "string list" where
  "gh_api_value_flags =
     [''-X'', ''--method'', ''-H'', ''--header'', ''-F'', ''--field'', ''-f'', ''--raw-field'', ''--hostname'',
      ''--input'', ''-q'', ''--jq'', ''-p'', ''--preview'', ''--cache'', ''-t'', ''--template'']"

definition ident_char :: "char \<Rightarrow> bool" where
  "ident_char c = (let n = ord_c c in (48 \<le> n \<and> n \<le> 57) \<or> (65 \<le> n \<and> n \<le> 90) \<or> n = 95 \<or> (97 \<le> n \<and> n \<le> 122))"

definition is_assignment :: "string \<Rightarrow> bool" where
  "is_assignment t =
     (let name = takeWhile (\<lambda>c. c \<noteq> CHR ''='') t
      in CHR ''='' \<in> set t \<and> name \<noteq> [] \<and> list_all ident_char name \<and> \<not> is_digit_c (hd name))"

fun endpoint_from :: "bool \<Rightarrow> string list \<Rightarrow> string option" where
  "endpoint_from skip [] = None"
| "endpoint_from skip (t # ts) =
     (if skip then endpoint_from False ts
      else if starts_with ''-'' t
      then endpoint_from (CHR ''='' \<notin> set t \<and> t \<in> set gh_api_value_flags) ts
      else if is_assignment t then endpoint_from False ts
      else Some (strip_quotes t))"

fun gh_api_endpoint :: "string list \<Rightarrow> string option" where
  "gh_api_endpoint [] = None"
| "gh_api_endpoint (t # ts) =
     (if t = ''api''
      then (case endpoint_from False ts of None \<Rightarrow> gh_api_endpoint ts | Some e \<Rightarrow> Some e)
      else gh_api_endpoint ts)"

definition upper_c :: "char \<Rightarrow> char" where
  "upper_c c = (if 97 \<le> ord_c c \<and> ord_c c \<le> 122 then char_of (ord_c c - 32) else c)"

definition says_post :: "string \<Rightarrow> bool" where
  "says_post s = (map upper_c s = ''POST'')"

definition body_flags :: "string list" where
  "body_flags = [''-f'', ''--field'', ''-F'', ''--raw-field'', ''--input'']"

definition method_word :: "string list \<Rightarrow> string \<Rightarrow> string \<Rightarrow> bool" where
  "method_word flags joined t =
     (map upper_c t \<in> {''-XPOST'', map upper_c joined @ ''POST''} \<or>
      starts_with joined t \<and> says_post (drop (length joined) t))"

fun method_post :: "string list \<Rightarrow> string \<Rightarrow> string list \<Rightarrow> bool" where
  "method_post flags joined [] = False"
| "method_post flags joined (t # ts) =
     (method_word flags joined t \<or>
      (t \<in> set flags \<and> (case ts of [] \<Rightarrow> False | u # us \<Rightarrow> says_post u)) \<or>
      method_post flags joined ts)"

definition body_word :: "string \<Rightarrow> bool" where
  "body_word t = (t \<in> set body_flags \<or> list_ex (\<lambda>f. starts_with (f @ ''='') t) body_flags)"

definition gh_api_uses_post_or_body :: "string list \<Rightarrow> bool" where
  "gh_api_uses_post_or_body ts =
     (method_post [''-X'', ''--method''] ''--method='' ts \<or> list_ex body_word ts)"

definition path_char :: "char \<Rightarrow> bool" where
  "path_char c = (c \<noteq> CHR ''/'' \<and> \<not> is_space_c c)"

text \<open>
  \<open>repo_path s\<close>: what follows \<open>repos/<owner>/<name>/pulls\<close> at the start of \<open>s\<close>, when \<open>s\<close> has that form.
\<close>

definition path_segment :: "string \<Rightarrow> string option" where
  "path_segment s =
     (if takeWhile path_char s = [] then None
      else (case dropWhile path_char s of [] \<Rightarrow> None | c # cs \<Rightarrow> (if c = CHR ''/'' then Some cs else None)))"

definition repo_path :: "string \<Rightarrow> string option" where
  "repo_path s =
     (if \<not> starts_with ''repos/'' s then None
      else (case Option.bind (path_segment (drop 6 s)) path_segment of
         None \<Rightarrow> None
       | Some r \<Rightarrow> (if starts_with ''pulls'' r then Some (drop 5 r) else None)))"

definition ends_pulls :: "string \<Rightarrow> bool" where
  "ends_pulls s = (case repo_path s of None \<Rightarrow> False | Some r \<Rightarrow> r \<in> {[], ''/'', [newline], CHR ''/'' # [newline]})"

fun after_slash :: "string \<Rightarrow> string list" where
  "after_slash [] = []"
| "after_slash (c # cs) = (if c = CHR ''/'' then cs # after_slash cs else after_slash cs)"

definition pulls_endpoint :: "string \<Rightarrow> bool" where
  "pulls_endpoint s = list_ex ends_pulls (s # after_slash s)"

fun pulls_url :: "string \<Rightarrow> bool" where
  "pulls_url [] = False"
| "pulls_url (c # cs) =
     (starts_with ''https://api.github.com/'' (c # cs) \<and> repo_path (drop 23 (c # cs)) \<noteq> None \<or> pulls_url cs)"

definition api_creates :: "string list \<Rightarrow> bool" where
  "api_creates ts =
     (''api'' \<in> set ts \<and>
      (case gh_api_endpoint ts of None \<Rightarrow> False | Some e \<Rightarrow> pulls_endpoint e \<and> gh_api_uses_post_or_body ts))"

definition contains_gh_api_pull_create :: "string list \<Rightarrow> bool" where
  "contains_gh_api_pull_create tokens = list_ex api_creates (calls_of ''gh'' tokens)"

definition data_flags :: "string list" where
  "data_flags = [''-d'', ''--data'', ''--data-raw'', ''--json'']"

definition curl_creates :: "string list \<Rightarrow> bool" where
  "curl_creates ts =
     (list_ex pulls_url ts \<and>
      (method_post [''-X'', ''--request''] ''--request='' ts \<or> list_ex (\<lambda>t. t \<in> set data_flags) ts))"

definition contains_direct_pull_create :: "string list \<Rightarrow> bool" where
  "contains_direct_pull_create tokens = list_ex curl_creates (calls_of ''curl'' tokens)"

definition is_pr_creation_fallback_command :: "string \<Rightarrow> bool" where
  "is_pr_creation_fallback_command command =
     (let tokens = shell_tokens command
      in depth_token \<in> set tokens \<or> contains_gh_pr_create tokens \<or> contains_gh_api_pull_create tokens \<or>
         contains_direct_pull_create tokens)"

subsection \<open>The middleware\<close>

definition blocked_pr_content :: "string \<Rightarrow> json" where
  "blocked_pr_content command =
     JDict [(''status'', JStr ''error''), (''error_type'', JStr ''PullRequestCreationFallbackBlocked''),
       (''code'', JStr ''pr_creation_fallback_blocked''), (''recoverable_by_agent'', JBool False),
       (''error'', JStr (''New pull requests must be opened with the open_pull_request tool so the PR is '' @
          ''attributed to the triggering user. If open_pull_request failed, surface that '' @
          ''failure instead of falling back to gh pr create, gh api /pulls, curl, or another '' @
          ''direct PR creation path.'')),
       (''blocked_command'', JStr command)]"

definition blocked_message_for_request :: "tool_request \<Rightarrow> (json \<times> string option) option" where
  "blocked_message_for_request rq =
     (if tool_name rq \<notin> Some ` set guarded_tools then None
      else (case as_str (field (tool_args rq) ''command'') of
         None \<Rightarrow> None
       | Some command \<Rightarrow>
           (if is_pr_creation_fallback_command command
            then Some (blocked_pr_content command, tool_call_id rq) else None)))"

definition guard_tool_call ::
  "(tool_request \<Rightarrow> ('w, 'r) action) \<Rightarrow> tool_request \<Rightarrow> ('w, 'r tool_result) action" where
  "guard_tool_call handler rq =
     (case blocked_message_for_request rq of
        Some (j, i) \<Rightarrow> give (Blocked j i)
      | None \<Rightarrow> and_then (handler rq) (\<lambda>r. give (Ran r)))"

subsection \<open>What is blocked\<close>

text \<open>
  The reference, independent of the tables of the code: \<open>words_are command ts\<close> says that the shell's
  words of a command are \<open>ts\<close> (as \<open>shlex\<close> splits them, or at white space where it finds an open
  quote). \<open>opens_pr command\<close>: either one of the words runs \<open>gh\<close>, under any path, and \<open>pr create\<close>
  follows before the next separator, or one of the words runs a shell and the argument of its first
  command option is such a command again.
\<close>

definition words_are :: "string \<Rightarrow> string list \<Rightarrow> bool" where
  "words_are command ts \<longleftrightarrow>
     shlex_split command = Inr ts \<or> isl (shlex_split command) \<and> ts = words_of command"

definition is_separator :: "string \<Rightarrow> bool" where
  "is_separator t \<longleftrightarrow> t \<in> {'';'', ''&&'', ''||'', ''|'', ''&''}"

definition runs_program :: "string set \<Rightarrow> string \<Rightarrow> bool" where
  "runs_program ps exe \<longleftrightarrow> (\<exists>p \<in> ps. exe = p \<or> (\<exists>dir. exe = dir @ ''/'' @ p))"

definition is_command_option :: "string \<Rightarrow> bool" where
  "is_command_option t \<longleftrightarrow> (\<exists>xs ys. t = ''-'' @ xs @ ''c'' @ ys \<and> \<not> (\<exists>zs. t = ''--'' @ zs))"

inductive opens_pr :: "string \<Rightarrow> bool" where
  calls_gh:
    "words_are command (us @ exe # mid @ ''pr'' # ''create'' # vs) \<Longrightarrow>
     runs_program {''gh''} exe \<Longrightarrow> \<forall>t \<in> set mid. \<not> is_separator t \<Longrightarrow> opens_pr command"
| calls_shell:
    "words_are command (us @ sh # opts @ flag # c # vs) \<Longrightarrow>
     runs_program {''bash'', ''dash'', ''sh'', ''zsh''} sh \<Longrightarrow> is_command_option flag \<Longrightarrow>
     \<forall>t \<in> set opts. \<not> is_separator t \<and> \<not> is_command_option t \<Longrightarrow> opens_pr c \<Longrightarrow> opens_pr command"

lemma words_are_split: "words_are command ts \<Longrightarrow> split_shell_tokens command = ts"
  by (auto simp: words_are_def split_shell_tokens_def split: sum.splits)

lemma is_separator_iff: "is_separator t \<longleftrightarrow> t \<in> set separators"
  by (auto simp: is_separator_def separators_def)

lemma command_option_iff: "is_command_option t \<longleftrightarrow> command_flag t"
proof -
  have "(\<exists>xs ys. t = ''-'' @ xs @ ''c'' @ ys) \<longleftrightarrow> starts_with ''-'' t \<and> CHR ''c'' \<in> set (tl t)"
    by (cases t) (auto simp: starts_with_iff in_set_conv_decomp)
  moreover have "(\<exists>zs. t = ''--'' @ zs) \<longleftrightarrow> starts_with ''--'' t"
    by (auto simp: starts_with_iff)
  moreover have "command_flag ''-c''" by (simp add: command_flag_def)
  ultimately show ?thesis
    by (auto simp: is_command_option_def command_flag_def starts_with_iff)
qed

lemma executable_of_path: "CHR ''/'' \<notin> set p \<Longrightarrow> p \<noteq> [] \<Longrightarrow> \<not> is_quote (hd p) \<Longrightarrow> \<not> is_quote (last p) \<Longrightarrow>
    executable_name p = p \<and> executable_name (dir @ ''/'' @ p) = p"
proof -
  assume p: "CHR ''/'' \<notin> set p" "p \<noteq> []" "\<not> is_quote (hd p)" "\<not> is_quote (last p)"
  have front: "dropWhile is_quote (xs @ p) = dropWhile is_quote xs @ p" for xs
    using p(2,3) by (induction xs) (cases p; simp)+
  have ends: "dropWhile is_quote (rev (xs @ p)) = rev (xs @ p)" for xs
    using p(2,4) by (cases p rule: rev_cases) auto
  have strip: "strip_quotes (xs @ p) = dropWhile is_quote xs @ p" for xs
    by (simp only: strip_quotes_def front ends rev_rev_ident)
  have slash: "\<exists>ys. dropWhile is_quote (dir @ ''/'') = ys @ ''/''"
    by (induction dir) (auto simp: is_quote_def squote_def dquote_def)
  then obtain ys where "dropWhile is_quote (dir @ ''/'') = ys @ ''/''" by blast
  with strip [of "dir @ ''/''"] have "strip_quotes (dir @ ''/'' @ p) = ys @ ''/'' @ p" by simp
  moreover have "split_on CHR ''/'' p = [p]" using p(1) by (induction p) auto
  moreover have "split_on CHR ''/'' (ys @ ''/'' @ p) = split_on CHR ''/'' ys @ split_on CHR ''/'' p"
    by (induction ys) (auto split: list.splits)
  ultimately show ?thesis using strip [of "[]"] by (simp add: executable_name_def)
qed

definition creates :: "string list \<Rightarrow> bool" where
  "creates ts = (depth_token \<in> set ts \<or> contains_gh_pr_create ts)"

lemma has_pair_append: "has_pair a b xs \<Longrightarrow> has_pair a b (us @ xs @ ys)"
proof -
  assume h: "has_pair a b xs"
  have "has_pair a b (xs @ ys)" using h
    by (induction a b xs rule: has_pair.induct) auto
  then show ?thesis
  proof (induction us)
    case (Cons u us)
    then show ?case by (cases "us @ xs @ ys") auto
  qed simp
qed

lemma calls_append: "list_ex (has_pair a b) (calls_of exe ts) \<Longrightarrow> list_ex (has_pair a b) (calls_of exe (us @ ts @ vs))"
proof -
  assume h: "list_ex (has_pair a b) (calls_of exe ts)"
  have seg: "\<exists>ys. segment (xs @ vs) = segment xs @ ys" for xs
    by (induction xs) (auto simp: segment_def)
  have "list_ex (has_pair a b) (calls_of exe (ts @ vs))" using h
  proof (induction ts)
    case (Cons t ts)
    obtain ys where "segment (ts @ vs) = segment ts @ ys" using seg by blast
    with Cons has_pair_append [of a b "segment ts" "[]" ys] show ?case by (auto split: if_splits)
  qed simp
  then show ?thesis by (induction us) auto
qed

lemma creates_append: "creates ts \<Longrightarrow> creates (us @ ts @ vs)"
  using calls_append [of "''pr''" "''create''" "''gh''" ts us vs] by (auto simp: creates_def contains_gh_pr_create_def)

lemma expand_extends: "\<exists>vs. expand k ts = ts @ vs"
  by (cases k) auto

lemma nested_commands_append: "\<exists>xs. nested_commands (us @ ts) = xs @ nested_commands ts"
proof (induction us)
  case (Cons u us)
  then obtain xs where xs: "nested_commands (us @ ts) = xs @ nested_commands ts" by blast
  show ?case
  proof (cases "executable_name u \<in> set shell_executables")
    case True
    then show ?thesis
      using xs by (cases "shell_argument (us @ ts)") (auto intro: exI [of _ "x # xs" for x])
  qed (use xs in auto)
qed simp

lemma shell_argument_found:
  "\<forall>t \<in> set opts. \<not> is_separator t \<and> \<not> is_command_option t \<Longrightarrow> is_command_option flag \<Longrightarrow>
     flag \<notin> set separators \<Longrightarrow> c \<notin> set separators \<Longrightarrow> shell_argument (opts @ flag # c # vs) = Some c"
  by (induction opts) (auto simp: is_separator_iff command_option_iff)

lemma option_no_separator: "is_command_option flag \<Longrightarrow> flag \<notin> set separators"
  by (auto simp: is_command_option_def separators_def)

lemma runs_gh: "runs_program {''gh''} exe \<Longrightarrow> executable_name exe = ''gh''"
  using executable_of_path [of "''gh''"] by (auto simp: runs_program_def is_quote_def squote_def dquote_def)

lemma runs_shell:
  "runs_program {''bash'', ''dash'', ''sh'', ''zsh''} sh \<Longrightarrow> executable_name sh \<in> set shell_executables"
  using executable_of_path [of "''bash''"] executable_of_path [of "''dash''"]
    executable_of_path [of "''sh''"] executable_of_path [of "''zsh''"]
  by (auto simp: runs_program_def is_quote_def squote_def dquote_def shell_executables_def)

lemma separator_words: "t \<in> set separators \<Longrightarrow> split_shell_tokens t = [t]"
  unfolding separators_def
  by (auto simp: split_shell_tokens_def shlex_split_def shell_blank_def is_quote_def squote_def
      dquote_def backslash_def)

lemma opens_no_separator: "opens_pr c \<Longrightarrow> c \<notin> set separators"
  by (erule opens_pr.cases) (auto dest!: words_are_split dest: separator_words simp: append_eq_Cons_conv)

lemma gh_call:
  assumes "executable_name exe = ''gh''" "list_all (\<lambda>t. t \<notin> set separators) mid"
  shows "contains_gh_pr_create (us @ exe # mid @ ''pr'' # ''create'' # vs)"
proof -
  have "segment (mid @ ''pr'' # ''create'' # vs) = mid @ ''pr'' # ''create'' # segment vs"
    using assms(2) unfolding segment_def by (induction mid) (auto simp: separators_def)
  moreover have "has_pair ''pr'' ''create'' (mid @ [''pr'', ''create''] @ segment vs)"
    by (rule has_pair_append) simp
  ultimately have "list_ex (has_pair ''pr'' ''create'') (calls_of ''gh'' (exe # mid @ ''pr'' # ''create'' # vs))"
    using assms(1) by simp
  from calls_append [OF this, of us "[]"] show ?thesis by (simp add: contains_gh_pr_create_def)
qed

lemma expand_creates: "opens_pr command \<Longrightarrow> creates (expand k (split_shell_tokens command))"
proof (induction arbitrary: k rule: opens_pr.induct)
  case (calls_gh command us exe mid vs)
  from calls_gh(3) have "list_all (\<lambda>t. t \<notin> set separators) mid" by (simp add: list_all_iff is_separator_iff)
  from gh_call [OF runs_gh [OF calls_gh(2)] this, of us vs]
  have "creates (split_shell_tokens command)"
    by (simp add: words_are_split [OF calls_gh(1)] creates_def)
  moreover obtain ws where "expand k (split_shell_tokens command) = split_shell_tokens command @ ws"
    using expand_extends by blast
  ultimately show ?case using creates_append [of _ "[]" ws] by simp
next
  case (calls_shell command us sh opts flag c vs)
  have "shell_argument (opts @ flag # c # vs) = Some c"
    using calls_shell(3,4) option_no_separator opens_no_separator [OF calls_shell(5)]
    by (intro shell_argument_found)
  then have "c \<in> set (nested_commands (sh # opts @ flag # c # vs))"
    using runs_shell [OF calls_shell(2)] by simp
  then have c: "c \<in> set (nested_commands (split_shell_tokens command))"
    using nested_commands_append [of us "sh # opts @ flag # c # vs"] words_are_split [OF calls_shell(1)]
    by auto
  show ?case
  proof (cases k)
    case 0
    with c show ?thesis by (auto simp: has_nested_shell_def creates_def)
  next
    case (Suc j)
    from c obtain xs ys where "nested_commands (split_shell_tokens command) = xs @ c # ys"
      by (auto simp: in_set_conv_decomp)
    then obtain us vs where "expand k (split_shell_tokens command) = us @ expand j (split_shell_tokens c) @ vs"
      using Suc by (metis (no_types, lifting) append_assoc concat.simps(2) concat_append expand.simps(2)
          list.simps(9) map_append)
    with creates_append [OF calls_shell.IH [of j], of us vs] show ?thesis by simp
  qed
qed

text \<open>
  C27. No wrapping hides the creation of a pull request. A call of one of the two shell tools is
  answered with an error and nothing runs, if among the words of its command, as \<open>shlex\<close> splits them,
  one runs \<open>gh\<close>, under any path, and \<open>pr\<close>, \<open>create\<close> follow before the next separator word, or if one
  of the words runs a shell whose command argument is such a command, to any depth of nesting. What
  stands before and after is arbitrary. A separator that is glued to its neighbours is no word of its
  own; such commands are not covered (the lemma on glued separators below).
\<close>

theorem wrapped_pr_creation_is_blocked:
  assumes "tool_name rq = Some ''execute'' \<or> tool_name rq = Some ''background_execute''"
    and "field (tool_args rq) ''command'' = JStr command"
    and "opens_pr command"
  shows "guard_tool_call handler rq w = (Inr (Blocked (blocked_pr_content command) (tool_call_id rq)), w)"
proof -
  from expand_creates [OF assms(3)] have "is_pr_creation_fallback_command command"
    by (auto simp: is_pr_creation_fallback_command_def shell_tokens_def creates_def Let_def)
  with assms(1,2) show ?thesis
    by (auto simp: guard_tool_call_def blocked_message_for_request_def guarded_tools_def give_def)
qed

definition wrapped_command :: string where
  "wrapped_command =
     shlex_join [''env'', ''sh'', ''-e'', ''-lc'',
       shlex_join [''bash'', ''-c'', shlex_join [''/bin/sh'', ''-c'', shlex_join [''zsh'', ''-c'',
         shlex_join [''dash'', ''-c'', ''cd repo && /usr/bin/gh --repo o/r pr create --fill''], ''x'']]]]"

lemma join_words: "words_are (shlex_join ws) ws"
  by (simp add: words_are_def shlex_split_def lex_join)

lemma wrapped_command_opens: "opens_pr wrapped_command"
proof -
  have "''/bin/sh'' = ''/bin'' @ ''/'' @ ''sh''" "''/usr/bin/gh'' = ''/usr/bin'' @ ''/'' @ ''gh''" by simp_all
  then have paths: "runs_program {''bash'', ''dash'', ''sh'', ''zsh''} ''/bin/sh''" "runs_program {''gh''} ''/usr/bin/gh''"
    unfolding runs_program_def by blast+
  have names: "runs_program {''bash'', ''dash'', ''sh'', ''zsh''} sh" if "sh \<in> {''bash'', ''dash'', ''sh'', ''zsh''}" for sh
    using that unfolding runs_program_def by blast
  have shell: "runs_program {''bash'', ''dash'', ''sh'', ''zsh''} sh"
    if "sh \<in> {''bash'', ''dash'', ''sh'', ''zsh'', ''/bin/sh''}" for sh
    using that paths(1) names [of sh] by blast
  have c: "is_command_option ''-c''" "is_command_option ''-lc''" "\<not> is_command_option ''-e''"
    unfolding command_option_iff by code_simp+
  have e: "\<not> is_separator ''-e''" by (simp add: is_separator_def)
  have inner: "opens_pr ''cd repo && /usr/bin/gh --repo o/r pr create --fill''"
  proof (rule calls_gh [of _ "[''cd'', ''repo'', ''&&'']" "''/usr/bin/gh''" "[''--repo'', ''o/r'']" "[''--fill'']"])
    have "shlex_split ''cd repo && /usr/bin/gh --repo o/r pr create --fill'' =
        Inr [''cd'', ''repo'', ''&&'', ''/usr/bin/gh'', ''--repo'', ''o/r'', ''pr'', ''create'', ''--fill'']"
      by code_simp
    then show "words_are ''cd repo && /usr/bin/gh --repo o/r pr create --fill''
        ([''cd'', ''repo'', ''&&''] @ ''/usr/bin/gh'' # [''--repo'', ''o/r''] @ ''pr'' # ''create'' # [''--fill''])"
      by (simp add: words_are_def)
  qed (simp_all add: is_separator_def paths(2))
  have one: "opens_pr (shlex_join (us @ sh # opts @ flag # d # vs))"
    if "sh \<in> {''bash'', ''dash'', ''sh'', ''zsh'', ''/bin/sh''}" "is_command_option flag" "opens_pr d"
      "\<forall>t \<in> set opts. \<not> is_separator t \<and> \<not> is_command_option t" for us sh opts flag d vs
    by (rule calls_shell [OF join_words shell [OF that(1)] that(2,4,3)])
  note d1 = one [OF _ c(1) inner, of "''dash''" "[]" "[]" "[]"]
  note d2 = one [OF _ c(1) d1, of "''zsh''" "[]" "[]" "[''x'']"]
  note d3 = one [OF _ c(1) d2, of "''/bin/sh''" "[]" "[]" "[]"]
  note d4 = one [OF _ c(1) d3, of "''bash''" "[]" "[]" "[]"]
  from one [OF _ c(2) d4, of "''sh''" "[''-e'']" "[''env'']" "[]"] c(3) e show ?thesis
    by (simp add: wrapped_command_def)
qed

theorem wrapped_pr_creation_is_blocked_witness:
  "guard_tool_call (\<lambda>rq w. (Inr (), False)) (demo_request wrapped_command) True =
   (Inr (Blocked (blocked_pr_content wrapped_command) (Some ''c1'')), True)"
proof -
  let ?rq = "demo_request wrapped_command"
  have n: "tool_name ?rq = Some ''execute''" "tool_call_id ?rq = Some ''c1''"
    by (simp_all add: demo_request_def tool_name_def tool_call_id_def field_def dict_get_def)
  have c: "field (tool_args ?rq) ''command'' = JStr wrapped_command"
    by (simp add: demo_request_def tool_args_def field_def dict_get_def)
  from wrapped_pr_creation_is_blocked [OF disjI1 [OF n(1)] c wrapped_command_opens] n(2)
  show ?thesis by simp
qed

text \<open>
  Two limits of the guard. A separator that is glued to its neighbours is no word of its own, so the
  executable behind it is not seen, and \<open>gh pr new\<close>, the alias of \<open>gh pr create\<close>, is not looked for. And
  the pattern for \<open>curl\<close> has no end, so a post to an existing pull request, such as a comment on it, is
  blocked as the creation of one.
\<close>

lemma glued_separator_is_missed:
  "is_pr_creation_fallback_command ''cd repo && gh pr create''"
  "\<not> is_pr_creation_fallback_command ''cd repo;gh pr create''"
  "\<not> is_pr_creation_fallback_command ''gh pr new''"
  by code_simp+

lemma comment_is_blocked:
  "is_pr_creation_fallback_command ''curl -XPOST https://api.github.com/repos/o/r/pulls/7/comments''"
  "\<not> is_pr_creation_fallback_command ''gh api -X POST repos/o/r/pulls/7/comments''"
  "is_pr_creation_fallback_command ''gh api -X POST repos/o/r/pulls''"
  by code_simp+

end
