(* ===== verification/Run_Middleware.thy ===== *)
theory Run_Middleware
  imports Push_Guard "HOL-Library.Sublist"
begin

section \<open>Middleware of an agent run\<close>

text \<open>
  Models two middlewares of the agents: \<open>sandbox_circuit_breaker.py\<close> ends a run whose tools keep failing
  on the same sandbox and tells the user where the run was asked for, and
  \<open>repair_orphaned_tool_calls.py\<close> answers the tool calls that were interrupted. A message has its kind,
  content, tool calls and the id of the call it answers; the content is a text or a list of blocks. The
  text of a value that is no string (\<open>str\<close>) is a parameter. Dashes in the messages are hyphens here, and
  the warning sign in front of a message to the user is left out. The superscript digits, which
  \<open>str.isdigit\<close> accepts and \<open>int\<close> refuses, are not in the numbers of an issue.
\<close>

subsection \<open>Messages\<close>

datatype message_kind = HumanKind | SystemKind | AiKind | ToolKind | OtherKind

record chat_message =
  cm_kind :: message_kind
  cm_content :: json
  cm_calls :: "json list"
  cm_answers :: json
  cm_name :: "string option"
  cm_error :: bool

definition block_text :: "(json \<Rightarrow> string) \<Rightarrow> json \<Rightarrow> string" where
  "block_text py_str block =
     (case as_dict block of
        None \<Rightarrow> py_str block
      | Some d \<Rightarrow> (case dict_get d ''text'' (JStr []) of JStr s \<Rightarrow> s | v \<Rightarrow> py_str v))"

definition content_to_text :: "(json \<Rightarrow> string) \<Rightarrow> json \<Rightarrow> string" where
  "content_to_text py_str content =
     (case content of
        JStr s \<Rightarrow> s
      | JList blocks \<Rightarrow> join '' '' (map (block_text py_str) blocks)
      | v \<Rightarrow> py_str v)"

subsection \<open>The circuit breaker\<close>

definition breaker_threshold :: nat where
  "breaker_threshold = 2"

definition breaker_marker :: string where
  "breaker_marker = ''Sandbox circuit breaker triggered''"

definition id_char :: "char \<Rightarrow> bool" where
  "id_char c =
     (let n = ord_c c in (48 \<le> n \<and> n \<le> 57) \<or> (65 \<le> n \<and> n \<le> 90) \<or> (97 \<le> n \<and> n \<le> 122) \<or> c = CHR ''-'')"

definition word_at :: "string \<Rightarrow> bool" where
  "word_at s = (case s of [] \<Rightarrow> False | c # cs \<Rightarrow> is_word_c c)"

text \<open>
  \<open>longest_id n s\<close>: the longest run of at most \<open>n\<close> id characters of \<open>s\<close> that ends at a word boundary, as
  the greedy repetition with backtracking finds it.
\<close>

fun longest_id :: "nat \<Rightarrow> string \<Rightarrow> string option" where
  "longest_id 0 s = None"
| "longest_id (Suc n) s =
     (if is_word_c (s ! n) \<noteq> word_at (drop (Suc n) s) then Some (take (Suc n) s) else longest_id n s)"

fun sandbox_id_from :: "bool \<Rightarrow> string \<Rightarrow> string option" where
  "sandbox_id_from after_word [] = None"
| "sandbox_id_from after_word (c # cs) =
     (case (if \<not> after_word \<and> starts_with ''sb-'' (c # cs)
            then longest_id (length (takeWhile id_char (drop 2 cs))) (drop 2 cs) else None) of
        Some t \<Rightarrow> Some (''sb-'' @ t)
      | None \<Rightarrow> sandbox_id_from (is_word_c c) cs)"

definition extract_sandbox_id :: "string \<Rightarrow> string option" where
  "extract_sandbox_id s = sandbox_id_from False s"

text \<open>The text of \<open>getattr(message, "content", "") or ""\<close>: a content that counts as false has none.\<close>

definition spoken_text :: "(json \<Rightarrow> string) \<Rightarrow> chat_message \<Rightarrow> string" where
  "spoken_text py_str m = (if truthy (cm_content m) then content_to_text py_str (cm_content m) else [])"

definition last_has_marker :: "(json \<Rightarrow> string) \<Rightarrow> chat_message list \<Rightarrow> bool" where
  "last_has_marker py_str ms =
     (ms \<noteq> [] \<and> contains breaker_marker (spoken_text py_str (last ms)))"

definition error_sandbox :: "(json \<Rightarrow> string) \<Rightarrow> chat_message \<Rightarrow> string option" where
  "error_sandbox py_str m =
     (let t = content_to_text py_str (cm_content m)
      in if contains ''SandboxClientError'' t then extract_sandbox_id t else None)"

definition counted :: "string option \<Rightarrow> nat \<Rightarrow> (string \<times> nat) option" where
  "counted sandbox n = map_option (\<lambda>s. (s, n)) sandbox"

fun streak_from :: "(json \<Rightarrow> string) \<Rightarrow> string option \<Rightarrow> nat \<Rightarrow> chat_message list \<Rightarrow> (string \<times> nat) option" where
  "streak_from py_str sandbox n [] = counted sandbox n"
| "streak_from py_str sandbox n (m # ms) =
     (if cm_kind m = ToolKind
      then (case error_sandbox py_str m of
              None \<Rightarrow> counted sandbox n
            | Some s \<Rightarrow>
                (if sandbox = None \<or> sandbox = Some s then streak_from py_str (Some s) (n + 1) ms
                 else counted sandbox n))
      else if contains breaker_marker (spoken_text py_str m) then None
      else if cm_kind m \<in> {HumanKind, SystemKind} then counted sandbox n
      else streak_from py_str sandbox n ms)"

definition sandbox_error_streak :: "(json \<Rightarrow> string) \<Rightarrow> chat_message list \<Rightarrow> (string \<times> nat) option" where
  "sandbox_error_streak py_str ms = streak_from py_str None 0 (rev ms)"

definition sandbox_unreachable_message :: "string option \<Rightarrow> string option \<Rightarrow> bool \<Rightarrow> string" where
  "sandbox_unreachable_message sandbox_id sandbox_name replacement_attempted =
     (let named = (\<lambda>label v. case v of Some (c # cs) \<Rightarrow> [label @ c # cs] | _ \<Rightarrow> []);
          identifiers = named ''name '' sandbox_name @ named ''id '' sandbox_id;
          which = (if identifiers = [] then [] else '' ('' @ join '', '' identifiers @ '')'')
      in if replacement_attempted
         then ''This thread's sandbox'' @ which @ '' stopped responding and Open SWE could '' @
           ''not provision a replacement, so this run had nowhere to work. '' @
           ''Retrigger this thread to try again.''
         else ''This thread's sandbox'' @ which @ '' stopped responding, and Open SWE can't tell '' @
           ''whether it will come back. Open SWE will not start a replacement on its '' @
           ''own: a new sandbox is empty, so swapping one in would throw away anything '' @
           ''not yet committed and pushed while still looking like a recovery. '' @
           ''Retrigger this thread to try the same sandbox again, or start a new thread '' @
           ''to get a fresh one.'')"

definition breaker_before_model :: "(json \<Rightarrow> string) \<Rightarrow> nat \<Rightarrow> chat_message list \<Rightarrow> string option" where
  "breaker_before_model py_str threshold ms =
     (if last_has_marker py_str ms then None
      else (case sandbox_error_streak py_str ms of
         None \<Rightarrow> None
       | Some (s, n) \<Rightarrow>
           (if n \<le> threshold then None
            else Some (breaker_marker @ '': '' @ show_int (int n) @
              '' consecutive sandbox tool failures against '' @ s @ ''. '' @
              sandbox_unreachable_message (Some s) None False))))"

subsubsection \<open>Telling the user\<close>

text \<open>
  Where the notice goes: the active Slack thread of the run, else the Linear issue, else the pull request
  or issue on GitHub, for which a token is needed. Looking up the active Slack thread and the token are
  parameters; what \<open>aafter_agent\<close> swallows is a failure of the posting itself.
\<close>

datatype notice_target =
    SlackThread string string "string option"
  | LinearIssue string
  | GithubItem "string \<times> string" int
  | NoTarget

definition slack_target :: "json \<Rightarrow> (string \<times> string) option" where
  "slack_target active =
     (case (nonempty_str (jget active ''channel_id''), nonempty_str (jget active ''thread_ts'')) of
        (Some channel, Some ts) \<Rightarrow> Some (channel, ts)
      | _ \<Rightarrow> None)"

definition linear_issue_id :: "fields \<Rightarrow> string option" where
  "linear_issue_id cfg = nonempty_str (jget (field cfg ''linear_issue'') ''id'')"

definition coerce_issue_number :: "json \<Rightarrow> int option" where
  "coerce_issue_number v =
     (case as_int v of
        Some n \<Rightarrow> Some n
      | None \<Rightarrow> (case as_str v of
          Some s \<Rightarrow> (if all_digits s then Some (digits_value s) else None)
        | None \<Rightarrow> None))"

definition first_number :: "json list \<Rightarrow> int option" where
  "first_number vs = (case List.map_filter coerce_issue_number vs of [] \<Rightarrow> None | n # _ \<Rightarrow> Some n)"

definition item_repo :: "string \<times> string \<Rightarrow> json \<Rightarrow> string \<times> string" where
  "item_repo repo v =
     (case (as_str (jget v ''owner''), as_str (jget v ''name'')) of
        (Some owner, Some name) \<Rightarrow> (owner, name)
      | _ \<Rightarrow> repo)"

definition github_target :: "fields \<Rightarrow> ((string \<times> string) \<times> int) option" where
  "github_target cfg =
     (case (nonempty_str (jget (field cfg ''repo'') ''owner''), nonempty_str (jget (field cfg ''repo'') ''name'')) of
        (Some owner, Some name) \<Rightarrow>
          (let item = field cfg ''github_pr_or_issue''
           in map_option (Pair (item_repo (owner, name) (jget item ''repo'')))
                (first_number
                  [jget item ''number'', jget (field cfg ''github_issue'') ''number'', field cfg ''pr_number'']))
      | _ \<Rightarrow> None)"

definition notice_target :: "json \<Rightarrow> bool \<Rightarrow> fields \<Rightarrow> notice_target" where
  "notice_target active has_token cfg =
     (case slack_target active of
        Some (channel, ts) \<Rightarrow> SlackThread channel ts (nonempty_str (field cfg ''thread_id''))
      | None \<Rightarrow>
          (case linear_issue_id cfg of
             Some i \<Rightarrow> LinearIssue i
           | None \<Rightarrow>
               (case github_target cfg of
                  Some (repo, n) \<Rightarrow> (if has_token then GithubItem repo n else NoTarget)
                | None \<Rightarrow> NoTarget)))"

definition breaker_after_agent ::
  "(json \<Rightarrow> string) \<Rightarrow> json \<Rightarrow> bool \<Rightarrow> fields \<Rightarrow> chat_message list \<Rightarrow> (notice_target \<times> string) option" where
  "breaker_after_agent py_str active has_token config ms =
     (if ms = [] then None
      else let content = spoken_text py_str (last ms)
       in if \<not> contains breaker_marker content then None
          else (case dict_get config ''configurable'' (JDict []) of
             JDict cfg \<Rightarrow> Some (notice_target active has_token cfg,
               sandbox_unreachable_message (extract_sandbox_id content) None False)
           | _ \<Rightarrow> None))"

text \<open>A run that the breaker ends is reported: the message it leaves carries the marker.\<close>

lemma contains_prefix: "contains p (p @ s)"
proof (cases "p @ s")
  case (Cons c cs)
  then have "starts_with p (c # cs)" by (metis append_eq_conv_conj starts_with_def)
  with Cons show ?thesis by simp
qed (simp add: starts_with_def)

lemma ended_run_is_reported:
  assumes "breaker_before_model py_str n ms = Some t" "field config ''configurable'' = JDict cfg"
  shows "breaker_after_agent py_str active has_token config (ms @ [(tell)\<lparr>cm_content := JStr t\<rparr>]) =
    Some (notice_target active has_token cfg, sandbox_unreachable_message (extract_sandbox_id t) None False)"
proof -
  have "contains breaker_marker t"
    using assms(1) by (auto simp: breaker_before_model_def contains_prefix split: option.splits if_splits)
  moreover have "dict_get config ''configurable'' (JDict []) = JDict cfg"
    using assms(2) by (auto simp: field_def dict_get_def split: option.splits)
  moreover have "t \<noteq> []" using calculation(1) by (auto simp: breaker_marker_def)
  ultimately show ?thesis by (simp add: breaker_after_agent_def spoken_text_def content_to_text_def)
qed

subsubsection \<open>When the breaker ends a run\<close>

text \<open>
  The reference speaks of the messages, not of a scan. \<open>fails_on s m\<close>: \<open>m\<close> is a tool result that reports
  a client error of sandbox \<open>s\<close>. \<open>is_notice m\<close>: \<open>m\<close> is another message that carries the notice of the
  breaker. \<open>in_streak s m\<close>: \<open>m\<close> fails on \<open>s\<close>, or is no tool result, no notice and not from a human or
  the system. \<open>stuck_on s k ms\<close>: the history ends with a stretch of such messages, \<open>k\<close> of them failures
  on \<open>s\<close>, and the message before the stretch, if any, neither belongs to it nor is a notice.
\<close>

definition fails_on :: "(json \<Rightarrow> string) \<Rightarrow> string \<Rightarrow> chat_message \<Rightarrow> bool" where
  "fails_on py_str s m \<longleftrightarrow>
     cm_kind m = ToolKind \<and>
     (\<exists>u v. content_to_text py_str (cm_content m) = u @ ''SandboxClientError'' @ v) \<and>
     extract_sandbox_id (content_to_text py_str (cm_content m)) = Some s"

definition has_notice :: "(json \<Rightarrow> string) \<Rightarrow> chat_message \<Rightarrow> bool" where
  "has_notice py_str m \<longleftrightarrow> (\<exists>u v. spoken_text py_str m = u @ ''Sandbox circuit breaker triggered'' @ v)"

definition in_streak :: "(json \<Rightarrow> string) \<Rightarrow> string \<Rightarrow> chat_message \<Rightarrow> bool" where
  "in_streak py_str s m \<longleftrightarrow>
     (if cm_kind m = ToolKind then fails_on py_str s m
      else \<not> has_notice py_str m \<and> cm_kind m \<noteq> HumanKind \<and> cm_kind m \<noteq> SystemKind)"

definition stuck_on :: "(json \<Rightarrow> string) \<Rightarrow> string \<Rightarrow> nat \<Rightarrow> chat_message list \<Rightarrow> bool" where
  "stuck_on py_str s k ms \<longleftrightarrow>
     (\<exists>older stretch. ms = older @ stretch \<and> list_all (in_streak py_str s) stretch \<and>
        k = length (filter (fails_on py_str s) stretch) \<and>
        (older = [] \<or>
         \<not> in_streak py_str s (last older) \<and>
         (cm_kind (last older) = ToolKind \<or> \<not> has_notice py_str (last older))))"

definition halts :: "(json \<Rightarrow> string) \<Rightarrow> string \<Rightarrow> chat_message list \<Rightarrow> bool" where
  "halts py_str s ms \<longleftrightarrow>
     (case ms of [] \<Rightarrow> True
      | m # _ \<Rightarrow> \<not> in_streak py_str s m \<and> (cm_kind m = ToolKind \<or> \<not> has_notice py_str m))"

definition failures :: "(json \<Rightarrow> string) \<Rightarrow> string \<Rightarrow> chat_message list \<Rightarrow> nat" where
  "failures py_str s ms = length (filter (fails_on py_str s) (takeWhile (in_streak py_str s) ms))"

lemma has_notice_iff: "contains breaker_marker (spoken_text py_str m) \<longleftrightarrow> has_notice py_str m"
  by (simp add: has_notice_def contains_iff breaker_marker_def)

lemma error_sandbox_iff:
  "cm_kind m = ToolKind \<Longrightarrow> error_sandbox py_str m = Some s \<longleftrightarrow> fails_on py_str s m"
  by (auto simp: error_sandbox_def fails_on_def contains_iff Let_def)

lemma fails_on_tool: "fails_on py_str s m \<Longrightarrow> cm_kind m = ToolKind"
  by (simp add: fails_on_def)

lemma fails_on_one: "fails_on py_str s m \<Longrightarrow> fails_on py_str s' m \<Longrightarrow> s = s'"
  by (simp add: fails_on_def)

lemma in_streak_tool: "cm_kind m = ToolKind \<Longrightarrow> in_streak py_str s m \<longleftrightarrow> fails_on py_str s m"
  by (simp add: in_streak_def)

lemma in_streak_other:
  "cm_kind m \<noteq> ToolKind \<Longrightarrow>
     in_streak py_str s m \<longleftrightarrow> \<not> has_notice py_str m \<and> cm_kind m \<noteq> HumanKind \<and> cm_kind m \<noteq> SystemKind"
  by (simp add: in_streak_def)

lemma failures_Cons:
  "failures py_str s (m # ms) =
     (if in_streak py_str s m then (if fails_on py_str s m then 1 else 0) + failures py_str s ms else 0)"
  by (simp add: failures_def)

lemma halts_Cons:
  "halts py_str s (m # ms) \<longleftrightarrow> \<not> in_streak py_str s m \<and> (cm_kind m = ToolKind \<or> \<not> has_notice py_str m)"
  by (simp add: halts_def)

lemma halts_rev:
  "halts py_str s (rev ms) \<longleftrightarrow>
     ms = [] \<or> \<not> in_streak py_str s (last ms) \<and> (cm_kind (last ms) = ToolKind \<or> \<not> has_notice py_str (last ms))"
  by (cases ms rule: rev_cases) (simp_all add: halts_def)

lemmas streak_reading = in_streak_tool in_streak_other failures_Cons halts_Cons has_notice_iff counted_def

lemma streak_on:
  "streak_from py_str (Some s) n ms =
     (if halts py_str s (dropWhile (in_streak py_str s) ms) then Some (s, n + failures py_str s ms) else None)"
proof (induction ms arbitrary: n)
  case (Cons m ms)
  show ?case
  proof (cases "cm_kind m = ToolKind")
    case True
    show ?thesis
    proof (cases "fails_on py_str s m")
      case f: True
      then have "error_sandbox py_str m = Some s" using error_sandbox_iff [OF True] by simp
      with True f Cons.IH show ?thesis by (simp add: streak_reading)
    next
      case f: False
      then have "error_sandbox py_str m \<noteq> Some s" using error_sandbox_iff [OF True] by simp
      with True f show ?thesis by (simp add: streak_reading split: option.split)
    qed
  next
    case False
    with Cons.IH fails_on_tool [of py_str s m] show ?thesis by (auto simp: streak_reading)
  qed
qed (simp add: counted_def halts_def failures_def)

lemma streak_off:
  "streak_from py_str None n ms = Some (s, k) \<longleftrightarrow>
     halts py_str s (dropWhile (in_streak py_str s) ms) \<and> k = n + failures py_str s ms \<and>
     0 < failures py_str s ms"
proof (induction ms arbitrary: n)
  case (Cons m ms)
  show ?case
  proof (cases "cm_kind m = ToolKind")
    case True
    show ?thesis
    proof (cases "error_sandbox py_str m")
      case None
      then have "\<not> fails_on py_str s m" using error_sandbox_iff [OF True, of py_str s] by simp
      with True None show ?thesis by (simp add: streak_reading)
    next
      case (Some s')
      then have f: "fails_on py_str s' m" using error_sandbox_iff [OF True, of py_str s'] by simp
      have run: "streak_from py_str None n (m # ms) = streak_from py_str (Some s') (n + 1) ms"
        using True Some by simp
      show ?thesis
      proof (cases "s' = s")
        case same: True
        with True f show ?thesis unfolding run by (auto simp: streak_on streak_reading)
      next
        case other: False
        with f fails_on_one [of py_str s' m s] have "\<not> fails_on py_str s m" by blast
        with True other show ?thesis unfolding run by (simp add: streak_on streak_reading)
      qed
    qed
  next
    case False
    with Cons.IH fails_on_tool [of py_str s m] show ?thesis by (auto simp: streak_reading)
  qed
qed (simp add: counted_def failures_def)

lemma stuck_on_iff:
  "stuck_on py_str s k ms \<longleftrightarrow>
     halts py_str s (dropWhile (in_streak py_str s) (rev ms)) \<and> k = failures py_str s (rev ms)"
proof
  assume "stuck_on py_str s k ms"
  then obtain older stretch where o: "ms = older @ stretch" "list_all (in_streak py_str s) stretch"
    "k = length (filter (fails_on py_str s) stretch)" "halts py_str s (rev older)"
    unfolding stuck_on_def halts_rev by blast
  have "in_streak py_str s m" if "m \<in> set (rev stretch)" for m using o(2) that by (simp add: list_all_iff)
  moreover have "takeWhile (in_streak py_str s) (rev older) = []" "dropWhile (in_streak py_str s) (rev older) = rev older"
    using o(4) by (auto simp: halts_def split: list.splits)
  ultimately have "takeWhile (in_streak py_str s) (rev ms) = rev stretch"
    "dropWhile (in_streak py_str s) (rev ms) = rev older"
    using takeWhile_append2 [of "rev stretch" "in_streak py_str s" "rev older"]
      dropWhile_append2 [of "rev stretch" "in_streak py_str s" "rev older"] by (simp_all add: o(1))
  with o(3,4) show "halts py_str s (dropWhile (in_streak py_str s) (rev ms)) \<and> k = failures py_str s (rev ms)"
    by (simp add: failures_def rev_filter [symmetric])
next
  assume h: "halts py_str s (dropWhile (in_streak py_str s) (rev ms)) \<and> k = failures py_str s (rev ms)"
  let ?older = "rev (dropWhile (in_streak py_str s) (rev ms))"
  let ?stretch = "rev (takeWhile (in_streak py_str s) (rev ms))"
  have "ms = ?older @ ?stretch" by (metis rev_append rev_rev_ident takeWhile_dropWhile_id)
  moreover have "list_all (in_streak py_str s) ?stretch" by (auto simp: list_all_iff dest: set_takeWhileD)
  moreover have "k = length (filter (fails_on py_str s) ?stretch)"
    using h by (simp add: failures_def rev_filter [symmetric])
  moreover have "halts py_str s (rev ?older)" using h by simp
  ultimately show "stuck_on py_str s k ms" unfolding stuck_on_def halts_rev by blast
qed

text \<open>
  C39. The breaker ends exactly the stuck runs, and only once. Whatever the history is, the run is ended
  exactly when its last message does not carry the notice of the breaker and the history ends with a
  stretch in which more than \<open>threshold\<close> tool results, and all there are, fail on one and the same
  sandbox. The stretch holds no message of a human or the system and no notice, and what stands before
  it, if anything, is such a message or another tool result, but not a notice.
\<close>

theorem breaker_ends_stuck_runs:
  "breaker_before_model py_str threshold ms \<noteq> None \<longleftrightarrow>
     (ms = [] \<or> \<not> has_notice py_str (last ms)) \<and> (\<exists>s k. stuck_on py_str s k ms \<and> threshold < k)"
proof -
  have "breaker_before_model py_str threshold ms \<noteq> None \<longleftrightarrow>
      \<not> last_has_marker py_str ms \<and> (\<exists>s k. sandbox_error_streak py_str ms = Some (s, k) \<and> threshold < k)"
    by (auto simp: breaker_before_model_def not_le split: option.split)
  also have "\<dots> \<longleftrightarrow> \<not> last_has_marker py_str ms \<and> (\<exists>s k. stuck_on py_str s k ms \<and> threshold < k)"
    by (auto simp: sandbox_error_streak_def streak_off stuck_on_iff)
  finally show ?thesis by (auto simp: last_has_marker_def has_notice_iff)
qed

definition tool_failure :: "string \<Rightarrow> chat_message" where
  "tool_failure t =
     \<lparr>cm_kind = ToolKind, cm_content = JStr t, cm_calls = [], cm_answers = JStr ''c'', cm_name = None, cm_error = True\<rparr>"

definition spoken :: "message_kind \<Rightarrow> string \<Rightarrow> chat_message" where
  "spoken k t =
     \<lparr>cm_kind = k, cm_content = JStr t, cm_calls = [], cm_answers = JNull, cm_name = None, cm_error = False\<rparr>"

definition stuck_run :: "chat_message list" where
  "stuck_run =
     [spoken HumanKind ''go'', tool_failure ''SandboxClientError: sb-1 gone'', spoken AiKind [],
      tool_failure ''SandboxClientError: (sb-1)'', tool_failure ''SandboxClientError on sb-1'']"

text \<open>
  The run of three failures is ended; once it has been, the notice keeps it from being ended again, also
  behind a further failure.
\<close>

theorem breaker_ends_stuck_runs_witness:
  "stuck_on (\<lambda>v. []) ''sb-1'' 3 stuck_run \<and> breaker_before_model (\<lambda>v. []) 2 stuck_run \<noteq> None \<and>
   breaker_before_model (\<lambda>v. []) 2
     (stuck_run @ [spoken AiKind ''Sandbox circuit breaker triggered: 3'', tool_failure ''SandboxClientError: sb-1'']) = None"
proof -
  have n: "\<not> has_notice (\<lambda>v. []) (last stuck_run)" unfolding has_notice_iff [symmetric] by code_simp
  have "sandbox_error_streak (\<lambda>v. []) stuck_run = Some (''sb-1'', 3)" by code_simp
  then have s: "stuck_on (\<lambda>v. []) ''sb-1'' 3 stuck_run"
    by (simp add: sandbox_error_streak_def streak_off stuck_on_iff)
  have "breaker_before_model (\<lambda>v. []) 2
     (stuck_run @ [spoken AiKind ''Sandbox circuit breaker triggered: 3'', tool_failure ''SandboxClientError: sb-1'']) = None"
    by code_simp
  moreover have "\<exists>s k. stuck_on (\<lambda>v. []) s k stuck_run \<and> 2 < k"
    using s by (intro exI [of _ "''sb-1''"] exI [of _ 3]) simp
  ultimately show ?thesis using breaker_ends_stuck_runs [of "\<lambda>v. []" 2 stuck_run] n s by blast
qed

subsection \<open>Orphaned tool calls\<close>

definition call_key :: "json \<Rightarrow> (string \<times> string option) option" where
  "call_key call =
     (case nonempty_str (jget call ''id'') of
        None \<Rightarrow> None | Some i \<Rightarrow> Some (i, nonempty_str (jget call ''name'')))"

definition iter_tool_calls :: "chat_message \<Rightarrow> (string \<times> string option) list" where
  "iter_tool_calls m = List.map_filter call_key (cm_calls m)"

definition interrupted_payload :: "string option \<Rightarrow> json" where
  "interrupted_payload name =
     JDict ([(''status'', JStr ''error''), (''error_type'', JStr ''InterruptedToolCall''),
       (''recovery'', JStr ''tool_call_interrupted''),
       (''error'', JStr (''The previous tool call did not complete - the run was interrupted (cancelled '' @
          ''or the sandbox became unavailable) before a result was returned. No output was '' @
          ''captured. Retry the tool call if you still need it; if repository files are '' @
          ''missing, re-clone or reinitialize the workspace first.''))] @
       (case name of None \<Rightarrow> [] | Some n \<Rightarrow> [(''name'', JStr n)]))"

definition synthetic_tool_message :: "(json \<Rightarrow> string) \<Rightarrow> string \<Rightarrow> string option \<Rightarrow> chat_message" where
  "synthetic_tool_message dumps i name =
     \<lparr>cm_kind = ToolKind, cm_content = JStr (dumps (interrupted_payload name)), cm_calls = [],
      cm_answers = JStr i, cm_name = name, cm_error = True\<rparr>"

definition answered :: "chat_message list \<Rightarrow> string list" where
  "answered ms = List.map_filter (\<lambda>m. if cm_kind m = ToolKind then as_str (cm_answers m) else None) ms"

fun answer_calls ::
  "(json \<Rightarrow> string) \<Rightarrow> string list \<Rightarrow> (string \<times> string option) list \<Rightarrow> chat_message list \<times> string list" where
  "answer_calls dumps satisfied [] = ([], satisfied)"
| "answer_calls dumps satisfied ((i, name) # calls) =
     (if i \<in> set satisfied then answer_calls dumps satisfied calls
      else (case answer_calls dumps (i # satisfied) calls of
         (ms, satisfied') \<Rightarrow> (synthetic_tool_message dumps i name # ms, satisfied')))"

fun repair_from :: "(json \<Rightarrow> string) \<Rightarrow> string list \<Rightarrow> chat_message list \<Rightarrow> chat_message list" where
  "repair_from dumps satisfied [] = []"
| "repair_from dumps satisfied (m # ms) =
     (if cm_kind m \<noteq> AiKind then m # repair_from dumps satisfied ms
      else (case answer_calls dumps satisfied (iter_tool_calls m) of
         (new, satisfied') \<Rightarrow> m # new @ repair_from dumps satisfied' ms))"

definition repair_messages :: "(json \<Rightarrow> string) \<Rightarrow> chat_message list \<Rightarrow> chat_message list option" where
  "repair_messages dumps ms =
     (let r = repair_from dumps (answered ms) ms in if length r = length ms then None else Some r)"

definition sent_messages :: "(json \<Rightarrow> string) \<Rightarrow> chat_message list \<Rightarrow> chat_message list" where
  "sent_messages dumps ms = (case repair_messages dumps ms of None \<Rightarrow> ms | Some r \<Rightarrow> r)"

lemma answered_Nil [simp]: "answered [] = []"
  by (simp add: answered_def List.map_filter_def)

lemma answered_Cons:
  "answered (m # ms) =
     (case (if cm_kind m = ToolKind then as_str (cm_answers m) else None) of None \<Rightarrow> [] | Some i \<Rightarrow> [i]) @ answered ms"
  by (simp add: answered_def List.map_filter_def split: option.split)

lemma answered_append [simp]: "answered (ms @ ns) = answered ms @ answered ns"
  by (induction ms) (simp_all add: answered_Cons)

definition made_for :: "(json \<Rightarrow> string) \<Rightarrow> string list \<Rightarrow> (string \<times> string option) list \<Rightarrow> chat_message \<Rightarrow> bool" where
  "made_for dumps satisfied calls m =
     list_ex (\<lambda>c. fst c \<notin> set satisfied \<and> m = synthetic_tool_message dumps (fst c) (snd c)) calls"

lemma answer_calls_facts:
  "answer_calls dumps satisfied calls = (new, satisfied') \<Longrightarrow>
     set satisfied' = set satisfied \<union> set (map fst calls) \<and> set satisfied' = set satisfied \<union> set (answered new) \<and>
     list_all (made_for dumps satisfied calls) new"
proof (induction calls arbitrary: satisfied new)
  case (Cons c calls)
  obtain i name where c: "c = (i, name)" by (cases c)
  show ?case
  proof (cases "i \<in> set satisfied")
    case True
    with Cons.prems c have "answer_calls dumps satisfied calls = (new, satisfied')" by simp
    from Cons.IH [OF this] True c show ?thesis by (auto simp: list_all_iff made_for_def)
  next
    case False
    with Cons.prems c obtain ms where ms: "answer_calls dumps (i # satisfied) calls = (ms, satisfied')"
      "new = synthetic_tool_message dumps i name # ms" by (auto split: prod.splits)
    note ih = Cons.IH [OF ms(1)]
    have f: "set satisfied' = insert i (set satisfied) \<union> set (map fst calls)"
      "set satisfied' = insert i (set satisfied) \<union> set (answered ms)"
      "list_all (made_for dumps (i # satisfied) calls) ms"
      using ih [THEN conjunct1] ih [THEN conjunct2, THEN conjunct1] ih [THEN conjunct2, THEN conjunct2]
      by (simp_all only: list.set)
    have "answered new = i # answered ms" using ms(2) by (simp add: answered_Cons synthetic_tool_message_def)
    moreover have "list_all (made_for dumps satisfied (c # calls)) ms"
      using f(3) by (auto simp: list_all_iff made_for_def list_ex_iff)
    moreover have "made_for dumps satisfied (c # calls) (synthetic_tool_message dumps i name)"
      using False c by (simp add: made_for_def)
    ultimately show ?thesis using f(1,2) c ms(2) by auto
  qed
qed simp

lemma repair_subseq: "subseq ms (repair_from dumps satisfied ms)"
  by (induction ms arbitrary: satisfied) (auto split: prod.split intro: list_emb_append2)

lemma sent_is_repaired: "sent_messages dumps ms = repair_from dumps (answered ms) ms"
  using subseq_same_length [OF repair_subseq, of ms dumps "answered ms"]
  by (auto simp: sent_messages_def repair_messages_def Let_def)

lemma repair_answers_all:
  "m \<in> set ms \<Longrightarrow> cm_kind m = AiKind \<Longrightarrow> c \<in> set (iter_tool_calls m) \<Longrightarrow>
     fst c \<in> set satisfied \<union> set (answered (repair_from dumps satisfied ms))"
proof (induction ms arbitrary: satisfied)
  case (Cons x ms)
  obtain new sat where n: "answer_calls dumps satisfied (iter_tool_calls x) = (new, sat)" by fastforce
  note f = answer_calls_facts [OF n]
  show ?case
  proof (cases "cm_kind x = AiKind")
    case True
    show ?thesis
    proof (cases "m = x")
      case True
      with Cons.prems(3) have "fst c \<in> set satisfied \<union> set (map fst (iter_tool_calls x))" by auto
      with f have "fst c \<in> set satisfied \<union> set (answered new)" by blast
      with n \<open>cm_kind x = AiKind\<close> show ?thesis by (auto simp: answered_Cons)
    next
      case False
      with Cons.prems Cons.IH [of sat] have "fst c \<in> set sat \<union> set (answered (repair_from dumps sat ms))" by auto
      with f n True show ?thesis by (auto simp: answered_Cons)
    qed
  next
    case False
    with Cons.prems have "m \<in> set ms" by auto
    with Cons.IH [of satisfied] Cons.prems False show ?thesis by (auto simp: answered_Cons split: option.split)
  qed
qed simp

lemma repair_keeps_answered: "set (answered ms) \<subseteq> set (answered (repair_from dumps satisfied ms))"
  by (induction ms arbitrary: satisfied) (auto simp: answered_Cons split: prod.splits option.splits)

lemma repair_members:
  "x \<in> set (repair_from dumps satisfied ms) \<Longrightarrow>
     x \<in> set ms \<or> cm_kind x = ToolKind \<and> cm_error x"
proof (induction ms arbitrary: satisfied)
  case (Cons m ms)
  obtain new sat where n: "answer_calls dumps satisfied (iter_tool_calls m) = (new, sat)" by fastforce
  note f = answer_calls_facts [OF n]
  show ?case
  proof (cases "cm_kind m = AiKind")
    case True
    with Cons.prems n consider "x = m" | "x \<in> set new" | "x \<in> set (repair_from dumps sat ms)" by auto
    then show ?thesis
    proof cases
      case 2
      with f have "made_for dumps satisfied (iter_tool_calls m) x" by (auto simp: list_all_iff)
      then show ?thesis by (auto simp: made_for_def list_ex_iff synthetic_tool_message_def)
    next
      case 3
      with Cons.IH [of sat] f show ?thesis by auto
    qed simp
  next
    case False
    with Cons.prems Cons.IH [of satisfied] show ?thesis by auto
  qed
qed simp

lemma no_calls_needed:
  "(\<And>m c. m \<in> set ms \<Longrightarrow> cm_kind m = AiKind \<Longrightarrow> c \<in> set (iter_tool_calls m) \<Longrightarrow> fst c \<in> set satisfied) \<Longrightarrow>
     repair_from dumps satisfied ms = ms"
proof (induction ms)
  case (Cons m ms)
  have done1: "answer_calls dumps satisfied calls = ([], satisfied)" if "\<forall>c \<in> set calls. fst c \<in> set satisfied" for calls
    using that by (induction calls) auto
  have "repair_from dumps satisfied ms = ms" using Cons by auto
  moreover have "answer_calls dumps satisfied (iter_tool_calls m) = ([], satisfied)" if "cm_kind m = AiKind"
    by (rule done1) (use that Cons.prems [of m] in auto)
  ultimately show ?case by auto
qed simp

text \<open>
  Every tool call is answered. In the messages that are sent to the model every tool call of an AI
  message has a result; nothing of the history is dropped or moved, what is added are error results of
  calls that had none, and a repaired history needs no repair.
\<close>

theorem repaired_history_is_complete:
  "list_all (\<lambda>m. cm_kind m = AiKind \<longrightarrow>
      list_all (\<lambda>c. fst c \<in> set (answered (sent_messages dumps ms))) (iter_tool_calls m)) (sent_messages dumps ms) \<and>
   subseq ms (sent_messages dumps ms) \<and>
   list_all (\<lambda>m. m \<in> set ms \<or> cm_error m) (sent_messages dumps ms) \<and>
   repair_messages dumps (sent_messages dumps ms) = None"
proof -
  let ?r = "repair_from dumps (answered ms) ms"
  have calls: "fst c \<in> set (answered ?r)" if "m \<in> set ?r" "cm_kind m = AiKind" "c \<in> set (iter_tool_calls m)" for m c
  proof -
    have "m \<in> set ms" using repair_members [OF that(1)] that(2) by auto
    from repair_answers_all [OF this that(2,3), of "answered ms" dumps] repair_keeps_answered [of ms dumps]
    show ?thesis by blast
  qed
  have "repair_from dumps (answered ?r) ?r = ?r" by (rule no_calls_needed) (rule calls)
  moreover have "list_all (\<lambda>m. m \<in> set ms \<or> cm_error m) ?r"
    using repair_members [of _ dumps "answered ms" ms] by (auto simp: list_all_iff)
  ultimately show ?thesis using calls repair_subseq [of ms dumps "answered ms"]
    unfolding sent_is_repaired by (auto simp: list_all_iff repair_messages_def)
qed

definition interrupted_history :: "chat_message list" where
  "interrupted_history =
     [(spoken AiKind [])\<lparr>cm_calls := [JDict [(''id'', JStr ''c1''), (''name'', JStr ''execute'')]]\<rparr>, spoken HumanKind ''hello'']"

theorem repaired_history_is_complete_witness:
  "map cm_kind (sent_messages (\<lambda>v. []) interrupted_history) = [AiKind, ToolKind, HumanKind] \<and>
   subseq interrupted_history (sent_messages (\<lambda>v. []) interrupted_history)"
proof -
  have "map cm_kind (sent_messages (\<lambda>v. []) interrupted_history) = [AiKind, ToolKind, HumanKind]" by code_simp
  with repaired_history_is_complete [of "\<lambda>v. []" interrupted_history] show ?thesis by blast
qed

end
