(* ===== verification/Model_Fallback.thy ===== *)
theory Model_Fallback
  imports Json
begin

section \<open>Retrying a model call across providers\<close>

text \<open>
  Models \<open>middleware/model_fallback.py\<close>: a model call that fails for a transient reason is repeated,
  alternating between the primary and the fallback model, with the backoff of the schedule in between.
  The handler is a parameter that may answer every attempt differently. An exception is known by what
  the code reads of it: whether its class is one of the transient ones, an API status error, a bad
  request of Anthropic, or a bad request or unknown resource of OpenAI, and its status code, body and
  text. The random jitter is a parameter; floats are rationals.
\<close>

subsection \<open>Reading an exception\<close>

record call_exn =
  ce_caught :: bool
  ce_transient :: bool
  ce_api_status :: bool
  ce_status :: json
  ce_anthropic_bad :: bool
  ce_openai_bad :: bool
  ce_body :: json
  ce_text :: string

definition retryable_status_codes :: "int list" where
  "retryable_status_codes = [408, 409, 425, 429, 500, 502, 503, 504, 529]"

definition default_backoff_schedule :: "rat list" where
  "default_backoff_schedule = [0, 5, 15, 30, 45]"

definition model_outage_message :: string where
  "model_outage_message =
     ''I wasn't able to reach the language model providers after several retries '' @
     ''(both the primary and fallback models returned transient errors, e.g. '' @
     ''502/503/overloaded). This is a temporary provider or gateway outage, not a '' @
     ''problem with your task. My progress so far has been saved - please retrigger '' @
     ''the run in a few minutes to continue.''"

definition should_fallback :: "call_exn \<Rightarrow> bool" where
  "should_fallback e =
     (ce_transient e \<or>
      ce_api_status e \<and> (case as_int (ce_status e) of Some n \<Rightarrow> n \<in> set retryable_status_codes | None \<Rightarrow> False))"

definition error_body :: "call_exn \<Rightarrow> json" where
  "error_body e = (case ce_body e of JDict d \<Rightarrow> JDict d | _ \<Rightarrow> JDict [])"

definition nested_str :: "json \<Rightarrow> string list \<Rightarrow> string option" where
  "nested_str v keys = nonempty_str (foldl jget v keys)"

definition provider_message :: "call_exn \<Rightarrow> string" where
  "provider_message e =
     (case nested_str (error_body e) [''error'', ''message''] of Some m \<Rightarrow> m | None \<Rightarrow> ce_text e)"

definition access_message :: "string \<Rightarrow> string \<Rightarrow> string" where
  "access_message provider m =
     ''The selected '' @ provider @ '' model is not available to this workspace. '' @
     provider @ '' returned: '' @ m @ '' '' @
     ''Choose a different model or update the workspace's '' @ provider @ '' access and retry.''"

definition provider_access_error_message :: "call_exn \<Rightarrow> string option" where
  "provider_access_error_message e =
     (if ce_anthropic_bad e \<and>
         nested_str (error_body e) [''error'', ''details'', ''error_code''] = Some ''model_not_available''
      then Some (access_message ''Anthropic'' (provider_message e))
      else if ce_openai_bad e \<and>
         nested_str (error_body e) [''error'', ''code''] \<in> {Some ''model_not_found'', Some ''model_not_available''}
      then Some (access_message ''OpenAI'' (provider_message e))
      else None)"

subsection \<open>The attempts\<close>

text \<open>An attempt calls the primary or the fallback model; between two attempts the loop may sleep.\<close>

datatype call_event = ModelCall bool | Sleep rat

datatype 'r call_outcome = Replied 'r | Notified string | Reraised call_exn

type_synonym 'r model_handler = "nat \<Rightarrow> bool \<Rightarrow> call_exn + 'r"

definition give_up :: "bool \<Rightarrow> call_exn \<Rightarrow> 'r call_outcome" where
  "give_up surface e = (if surface then Notified model_outage_message else Reraised e)"

definition pause :: "(nat \<Rightarrow> rat \<Rightarrow> rat) \<Rightarrow> nat \<Rightarrow> rat \<Rightarrow> call_event list" where
  "pause jitter n delay = (if 0 < delay then [Sleep (delay + jitter n (delay * 25 / 100))] else [])"

fun attempts ::
  "(nat \<Rightarrow> rat \<Rightarrow> rat) \<Rightarrow> bool \<Rightarrow> 'r model_handler \<Rightarrow> nat \<Rightarrow> rat list \<Rightarrow> 'r call_outcome \<times> call_event list" where
  "attempts jitter surface handler n delays =
     (let use_fallback = (n mod 2 = 1)
      in case handler n use_fallback of
           Inr r \<Rightarrow> (Replied r, [ModelCall use_fallback])
         | Inl e \<Rightarrow>
             if \<not> ce_caught e then (Reraised e, [ModelCall use_fallback])
             else (case provider_access_error_message e of
               Some m \<Rightarrow> (Notified m, [ModelCall use_fallback])
             | None \<Rightarrow>
                 if \<not> should_fallback e then (Reraised e, [ModelCall use_fallback])
                 else (case delays of
                   [] \<Rightarrow> (give_up surface e, [ModelCall use_fallback])
                 | d # ds \<Rightarrow>
                     (case attempts jitter surface handler (n + 1) ds of
                        (out, es) \<Rightarrow> (out, ModelCall use_fallback # pause jitter n d @ es)))))"

declare attempts.simps [simp del]

definition fallback_model_call ::
  "(nat \<Rightarrow> rat \<Rightarrow> rat) \<Rightarrow> rat list \<Rightarrow> bool \<Rightarrow> 'r model_handler \<Rightarrow> 'r call_outcome \<times> call_event list" where
  "fallback_model_call jitter schedule surface handler = attempts jitter surface handler 0 schedule"

subsection \<open>What the attempts come to\<close>

definition retried :: "'r model_handler \<Rightarrow> nat \<Rightarrow> bool" where
  "retried handler n =
     (case handler n (odd n) of
        Inl e \<Rightarrow> ce_caught e \<and> provider_access_error_message e = None \<and> should_fallback e
      | Inr r \<Rightarrow> False)"

definition settled :: "call_exn + 'r \<Rightarrow> 'r call_outcome" where
  "settled res =
     (case res of
        Inr r \<Rightarrow> Replied r
      | Inl e \<Rightarrow> (case (if ce_caught e then provider_access_error_message e else None) of
          Some m \<Rightarrow> Notified m | None \<Rightarrow> Reraised e))"

definition model_calls :: "call_event list \<Rightarrow> bool list" where
  "model_calls es = List.map_filter (\<lambda>e. case e of ModelCall b \<Rightarrow> Some b | Sleep _ \<Rightarrow> None) es"

definition slept :: "call_event list \<Rightarrow> rat" where
  "slept es = sum_list (map (\<lambda>e. case e of Sleep d \<Rightarrow> d | ModelCall _ \<Rightarrow> 0) es)"

lemma model_calls_simps [simp]:
  "model_calls [] = []" "model_calls (ModelCall b # es) = b # model_calls es"
  "model_calls (pause jitter n d @ es) = model_calls es"
  by (auto simp: model_calls_def map_filter_def pause_def)

lemma slept_simps [simp]:
  "slept [] = 0" "slept (ModelCall b # es) = slept es"
  "slept (pause jitter n d @ es) = slept (pause jitter n d) + slept es"
  by (auto simp: slept_def)

lemma attempts_settled:
  "\<not> retried handler n \<Longrightarrow>
     attempts jitter surface handler n delays = (settled (handler n (odd n)), [ModelCall (odd n)])"
  by (subst attempts.simps)
    (auto simp: retried_def settled_def odd_iff_mod_2_eq_one split: sum.splits option.splits)

lemma attempts_retried:
  assumes "retried handler n"
  obtains e where "handler n (odd n) = Inl e"
    "attempts jitter surface handler n [] = (give_up surface e, [ModelCall (odd n)])"
    "attempts jitter surface handler n (d # ds) =
       (fst (attempts jitter surface handler (n + 1) ds),
        ModelCall (odd n) # pause jitter n d @ snd (attempts jitter surface handler (n + 1) ds))"
proof -
  from assms obtain e where e: "handler n (odd n) = Inl e" "ce_caught e"
    "provider_access_error_message e = None" "should_fallback e"
    by (auto simp: retried_def split: sum.splits)
  show ?thesis
    by (rule that [of e])
      (use e in \<open>auto simp: attempts.simps [of _ _ _ n] odd_iff_mod_2_eq_one Let_def split: prod.split\<close>)
qed

text \<open>The first of \<open>k\<close> attempts from \<open>n\<close> on that is not retried, as an offset; \<open>k\<close> when there is none.\<close>

fun first_settled :: "'r model_handler \<Rightarrow> nat \<Rightarrow> nat \<Rightarrow> nat" where
  "first_settled handler n 0 = 0"
| "first_settled handler n (Suc k) = (if retried handler n then Suc (first_settled handler (n + 1) k) else 0)"

lemma first_settled_le: "first_settled handler n k \<le> k"
  by (induction k arbitrary: n) auto

lemma attempts_result:
  "let k = first_settled handler n (Suc (length delays));
       (out, es) = attempts jitter surface handler n delays
   in model_calls es = map odd [n..<n + min (Suc k) (Suc (length delays))] \<and>
      (k \<le> length delays \<longrightarrow> out = settled (handler (n + k) (odd (n + k)))) \<and>
      (length delays < k \<longrightarrow>
         (\<exists>e. handler (n + length delays) (odd (n + length delays)) = Inl e \<and> out = give_up surface e))"
proof (induction delays arbitrary: n)
  case Nil
  show ?case
  proof (cases "retried handler n")
    case True
    then obtain e where "handler n (odd n) = Inl e"
      "attempts jitter surface handler n [] = (give_up surface e, [ModelCall (odd n)])"
      by (rule attempts_retried)
    with True show ?thesis by simp
  next
    case False
    then show ?thesis by (simp add: attempts_settled)
  qed
next
  case (Cons d ds)
  show ?case
  proof (cases "retried handler n")
    case True
    then have e: "attempts jitter surface handler n (d # ds) =
       (fst (attempts jitter surface handler (n + 1) ds),
        ModelCall (odd n) # pause jitter n d @ snd (attempts jitter surface handler (n + 1) ds))"
      by (rule attempts_retried)
    have up: "[n..<Suc (Suc (n + m))] = n # [Suc n..<Suc (Suc (n + m))]" for m by (simp add: upt_conv_Cons)
    obtain k where k: "k = first_settled handler (n + 1) (Suc (length ds))" by simp
    have "first_settled handler n (Suc (length (d # ds))) = Suc k" using True k by simp
    then show ?thesis
      using Cons.IH [of "n + 1", folded k] unfolding e by (simp add: Let_def case_prod_beta up del: upt.simps)
  next
    case False
    then show ?thesis by (simp add: attempts_settled)
  qed
qed

lemma attempts_sleep:
  assumes "\<And>n d. 0 \<le> d \<Longrightarrow> 0 \<le> jitter n d \<and> jitter n d \<le> d"
  shows "list_all (\<lambda>d. 0 \<le> d) delays \<Longrightarrow> slept (snd (attempts jitter surface handler n delays)) \<le> sum_list delays * 5 / 4"
proof (induction delays arbitrary: n)
  case Nil
  show ?case
    by (cases "retried handler n")
      (auto simp: attempts_settled elim!: attempts_retried [where jitter = jitter and surface = surface])
next
  case (Cons d ds)
  have p: "slept (pause jitter n d) \<le> d * 5 / 4"
    using assms [of "d * 25 / 100" n] Cons.prems by (auto simp: pause_def slept_def field_simps)
  show ?case
  proof (cases "retried handler n")
    case True
    then have "attempts jitter surface handler n (d # ds) =
       (fst (attempts jitter surface handler (n + 1) ds),
        ModelCall (odd n) # pause jitter n d @ snd (attempts jitter surface handler (n + 1) ds))"
      by (rule attempts_retried)
    with p Cons.IH [of "n + 1"] Cons.prems show ?thesis by (simp add: field_simps)
  next
    case False
    have "0 \<le> sum_list ds" using Cons.prems by (auto simp: list_all_iff intro: sum_list_nonneg)
    with False Cons.prems show ?thesis by (simp add: attempts_settled)
  qed
qed

text \<open>
  C40. A provider outage never crashes a run. With the default schedule a model call makes at most six
  attempts, alternating between the primary and the fallback model; the first attempt that does not fail
  for a transient reason decides the outcome; when all six fail the run ends with the message about the
  outage; and the sleeps take at most 118.75 seconds when the jitter is at most a quarter.
\<close>

theorem outage_is_ridden_out:
  assumes "\<And>n d. 0 \<le> d \<Longrightarrow> 0 \<le> jitter n d \<and> jitter n d \<le> d"
  shows "let k = first_settled handler 0 6;
             (out, es) = fallback_model_call jitter default_backoff_schedule True handler
         in model_calls es = take (Suc k) [False, True, False, True, False, True] \<and>
            out = (if k < 6 then settled (handler k (odd k)) else Notified model_outage_message) \<and>
            slept es \<le> 475 / 4"
proof -
  let ?k = "first_settled handler 0 6" and ?r = "fallback_model_call jitter default_backoff_schedule True handler"
  have len: "length default_backoff_schedule = 5" "sum_list default_backoff_schedule = 95"
    "list_all (\<lambda>d. 0 \<le> d) default_backoff_schedule" by (simp_all add: default_backoff_schedule_def)
  from attempts_result [of handler 0 default_backoff_schedule jitter True]
  have r: "model_calls (snd ?r) = map odd [0..<min (Suc ?k) 6]" "?k \<le> 5 \<Longrightarrow> fst ?r = settled (handler ?k (odd ?k))"
    "5 < ?k \<Longrightarrow> fst ?r = Notified model_outage_message"
    by (auto simp: fallback_model_call_def len Let_def case_prod_beta give_up_def)
  have "map odd [0..<min (Suc ?k) 6] = take (Suc ?k) [False, True, False, True, False, True]"
  proof -
    have six: "[False, True, False, True, False, True] = map odd [0..<6]" by code_simp
    show ?thesis
    proof (cases "?k \<le> 5")
      case True
      then show ?thesis unfolding six take_map by (simp add: take_upt del: upt.simps first_settled.simps)
    next
      case False
      then show ?thesis unfolding six by (simp del: upt.simps first_settled.simps)
    qed
  qed
  moreover have "slept (snd ?r) \<le> 475 / 4"
    using attempts_sleep [OF assms len(3), where surface = True and handler = handler and n = 0] by (simp add: fallback_model_call_def len)
  ultimately show ?thesis using r first_settled_le [of handler 0 6] by (auto simp: case_prod_beta Let_def)
qed

definition overload_exn :: call_exn where
  "overload_exn = \<lparr>ce_caught = True, ce_transient = False, ce_api_status = True, ce_status = JInt 529,
     ce_anthropic_bad = False, ce_openai_bad = False, ce_body = JNull, ce_text = []\<rparr>"

theorem outage_is_ridden_out_witness:
  "slept (snd (fallback_model_call (\<lambda>n d. d) default_backoff_schedule True
     (\<lambda>n use_fallback. Inl overload_exn :: call_exn + nat))) \<le> 475 / 4 \<and>
   first_settled (\<lambda>n use_fallback. Inl overload_exn :: call_exn + nat) 0 6 = 6"
proof -
  have "first_settled (\<lambda>n use_fallback. Inl overload_exn :: call_exn + nat) 0 6 = 6" by code_simp
  with outage_is_ridden_out [of "\<lambda>n d. d" "\<lambda>n use_fallback. Inl overload_exn :: call_exn + nat"]
  show ?thesis by (simp add: Let_def case_prod_beta)
qed

end
