(* ===== verification/Github_Http.thy ===== *)
theory Github_Http
  imports Json Model_Router
begin

section \<open>Requests to GitHub\<close>

text \<open>
  Models \<open>utils/github_http.py\<close>, the one place that sends requests to the GitHub API with retries, and
  \<open>utils/github_checks.py\<close>, the check run of a review. The network is a parameter: it answers a request
  with a response, loses it (a timeout or an error of the transport) or fails in another way. The
  jitter of the backoff and the clock are parameters; floats are rationals, and a \<open>Retry-After\<close> of
  infinity or of no number is outside the model. Dots that are one character in the code are three here.
\<close>

subsection \<open>Responses\<close>

record response =
  rs_status :: int
  rs_header :: "string \<Rightarrow> string option"
  rs_text :: string
  rs_json :: "json option"

datatype answer = Got response | Lost exn | Broke exn

type_synonym 'w web = "string \<Rightarrow> string \<Rightarrow> fields \<Rightarrow> 'w \<Rightarrow> answer \<times> 'w"

definition github_api_base :: string where
  "github_api_base = ''https://api.github.com''"

definition github_graphql :: string where
  "github_graphql = ''https://api.github.com/graphql''"

definition default_max_retries :: nat where
  "default_max_retries = 3"

definition github_headers :: "string \<Rightarrow> (string, string) dict" where
  "github_headers token =
     [(''Authorization'', ''Bearer '' @ token), (''Accept'', ''application/vnd.github+json''),
      (''X-GitHub-Api-Version'', ''2022-11-28'')]"

definition always_retryable_status :: "int list" where
  "always_retryable_status = [429, 503]"

definition idempotent_retryable_status :: "int list" where
  "idempotent_retryable_status = [502, 504]"

definition secondary_rate_limit_markers :: "string list" where
  "secondary_rate_limit_markers = [''secondary rate limit'', ''rate limit'']"

definition retryable_transport_methods :: "string list" where
  "retryable_transport_methods = [''GET'', ''HEAD'', ''OPTIONS'', ''PUT'', ''DELETE'']"

definition is_secondary_rate_limit :: "response \<Rightarrow> bool" where
  "is_secondary_rate_limit r =
     (rs_status r = 403 \<and>
      (rs_header r ''X-RateLimit-Remaining'' = Some ''0'' \<or>
       list_ex (\<lambda>m. contains m (py_lower (rs_text r))) secondary_rate_limit_markers))"

definition may_repeat :: "string \<Rightarrow> bool" where
  "may_repeat verb = (py_upper verb \<in> set retryable_transport_methods)"

definition is_retryable_response :: "response \<Rightarrow> string \<Rightarrow> bool" where
  "is_retryable_response r verb =
     (if rs_status r \<in> set always_retryable_status then True
      else if rs_status r \<in> set idempotent_retryable_status then may_repeat verb
      else is_secondary_rate_limit r)"

definition retry_after_seconds :: "response \<Rightarrow> rat option" where
  "retry_after_seconds r =
     (case rs_header r ''Retry-After'' of Some (c # cs) \<Rightarrow> py_float (c # cs) | _ \<Rightarrow> None)"

definition compute_backoff :: "(nat \<Rightarrow> rat \<Rightarrow> rat) \<Rightarrow> response option \<Rightarrow> nat \<Rightarrow> rat" where
  "compute_backoff jitter r attempt =
     (case (case r of None \<Rightarrow> None | Some s \<Rightarrow> retry_after_seconds s) of
        Some t \<Rightarrow> min t 60
      | None \<Rightarrow> (let base = 2 ^ attempt in min (base + jitter attempt base) 60))"

subsection \<open>A request with its retries\<close>

text \<open>
  \<open>request_from jitter web verb url args spare attempt\<close> sends the request for the attempt of that number and
  has \<open>spare\<close> retries left. The events say what was sent and slept, besides the result.
\<close>

datatype http_event = Sent answer | Slept rat

definition repeats :: "string \<Rightarrow> answer \<Rightarrow> bool" where
  "repeats verb a =
     (case a of Got r \<Rightarrow> is_retryable_response r verb | Lost e \<Rightarrow> may_repeat verb | Broke e \<Rightarrow> False)"

fun result_of :: "answer \<Rightarrow> response result" where
  "result_of (Got r) = Inr r"
| "result_of (Lost e) = Inl e"
| "result_of (Broke e) = Inl e"

fun response_of :: "answer \<Rightarrow> response option" where
  "response_of (Got r) = Some r"
| "response_of a = None"

fun request_from ::
  "(nat \<Rightarrow> rat \<Rightarrow> rat) \<Rightarrow> 'w web \<Rightarrow> string \<Rightarrow> string \<Rightarrow> fields \<Rightarrow> nat \<Rightarrow> nat \<Rightarrow> 'w
   \<Rightarrow> response result \<times> http_event list \<times> 'w" where
  "request_from jitter web verb url args 0 attempt w =
     (case web verb url args w of (a, w1) \<Rightarrow> (result_of a, [Sent a], w1))"
| "request_from jitter web verb url args (Suc spare) attempt w =
     (case web verb url args w of (a, w1) \<Rightarrow>
        (if repeats verb a
         then (case request_from jitter web verb url args spare (attempt + 1) w1 of
            (res, es, w2) \<Rightarrow> (res, Sent a # Slept (compute_backoff jitter (response_of a) attempt) # es, w2))
         else (result_of a, [Sent a], w1)))"

declare request_from.simps [simp del]

definition github_request ::
  "(nat \<Rightarrow> rat \<Rightarrow> rat) \<Rightarrow> 'w web \<Rightarrow> string \<Rightarrow> string \<Rightarrow> fields \<Rightarrow> ('w, response) action" where
  "github_request jitter web verb url args w =
     (case request_from jitter web verb url args default_max_retries 0 w of (res, es, w') \<Rightarrow> (res, w'))"

subsubsection \<open>What is sent\<close>

definition sent :: "http_event list \<Rightarrow> answer list" where
  "sent es = List.map_filter (\<lambda>e. case e of Sent a \<Rightarrow> Some a | Slept t \<Rightarrow> None) es"

definition naps :: "http_event list \<Rightarrow> rat list" where
  "naps es = List.map_filter (\<lambda>e. case e of Sent a \<Rightarrow> None | Slept t \<Rightarrow> Some t) es"

lemma event_simps [simp]:
  "sent [] = []" "sent (Sent a # es) = a # sent es" "sent (Slept t # es) = sent es"
  "naps [] = []" "naps (Sent a # es) = naps es" "naps (Slept t # es) = t # naps es"
  by (simp_all add: sent_def naps_def map_filter_def)

text \<open>An answer that says that the request was not processed.\<close>

definition unprocessed :: "answer \<Rightarrow> bool" where
  "unprocessed a =
     (case a of Got r \<Rightarrow> rs_status r \<in> {429, 503} \<or> is_secondary_rate_limit r | _ \<Rightarrow> False)"

lemma backoff_le: "compute_backoff jitter r attempt \<le> 60"
  by (simp add: compute_backoff_def Let_def split: option.split)

lemma request_settled:
  assumes "web verb url args w = (a, w1)" "spare = 0 \<or> \<not> repeats verb a"
  shows "request_from jitter web verb url args spare attempt w = (result_of a, [Sent a], w1)"
  using assms by (cases spare) (auto simp: request_from.simps)

lemma request_repeated:
  assumes "web verb url args w = (a, w1)" "repeats verb a"
  obtains t where "t \<le> 60"
    "request_from jitter web verb url args (Suc n) attempt w =
       (case request_from jitter web verb url args n (attempt + 1) w1 of
          (res, es, w2) \<Rightarrow> (res, Sent a # Slept t # es, w2))"
  by (rule that [OF backoff_le [of jitter "response_of a" attempt]])
    (use assms in \<open>simp add: request_from.simps\<close>)

lemma request_facts:
  assumes "request_from jitter web verb url args spare attempt w = (res, es, w')"
  shows "sent es \<noteq> [] \<and> length (sent es) \<le> Suc spare \<and> length (naps es) = length (sent es) - 1 \<and>
    list_all (repeats verb) (butlast (sent es)) \<and> res = result_of (last (sent es)) \<and>
    (length (sent es) \<le> spare \<longrightarrow> \<not> repeats verb (last (sent es))) \<and> list_all (\<lambda>t. t \<le> 60) (naps es)"
  using assms
proof (induction spare arbitrary: attempt w es)
  case 0
  obtain a w1 where "web verb url args w = (a, w1)" by fastforce
  then have "request_from jitter web verb url args 0 attempt w = (result_of a, [Sent a], w1)"
    by (rule request_settled) simp
  with 0 show ?case by auto
next
  case (Suc n)
  obtain a w1 where a: "web verb url args w = (a, w1)" by fastforce
  show ?case
  proof (cases "repeats verb a")
    case True
    obtain t where t: "t \<le> 60" "request_from jitter web verb url args (Suc n) attempt w =
       (case request_from jitter web verb url args n (attempt + 1) w1 of
          (res, es, w2) \<Rightarrow> (res, Sent a # Slept t # es, w2))" by (rule request_repeated [of web verb url args w a w1, OF a True])
    obtain fs where fs: "request_from jitter web verb url args n (attempt + 1) w1 = (res, fs, w')"
      "es = Sent a # Slept t # fs" using Suc.prems t(2) by (auto split: prod.splits)
    from Suc.IH [OF fs(1)] fs(2) t(1) True show ?thesis by auto
  next
    case False
    with a have "request_from jitter web verb url args (Suc n) attempt w = (result_of a, [Sent a], w1)"
      by (intro request_settled) simp_all
    with False Suc.prems show ?thesis by auto
  qed
qed

text \<open>
  A write is not sent twice by accident. A request is sent at most four times with sleeps of at most a
  minute in between, and its result is the last answer, which needs a retry only when the tries are used
  up. A request whose method is not idempotent is sent again only after an answer that says that it was
  not processed: a lost request, a gateway error or another failure is never repeated.
\<close>

theorem writes_are_not_repeated:
  assumes "request_from jitter web verb url args default_max_retries 0 w = (res, es, w')"
  shows "length (sent es) \<in> {1..4} \<and> list_all (\<lambda>t. t \<le> 60) (naps es) \<and> length (naps es) + 1 = length (sent es) \<and>
    res = result_of (last (sent es)) \<and> (length (sent es) < 4 \<longrightarrow> \<not> repeats verb (last (sent es))) \<and>
    (py_upper verb \<notin> set retryable_transport_methods \<longrightarrow> list_all unprocessed (butlast (sent es)))"
proof -
  have "unprocessed a" if "repeats verb a" "py_upper verb \<notin> set retryable_transport_methods" for a
    using that
    by (cases a) (auto simp: repeats_def unprocessed_def is_retryable_response_def may_repeat_def
      always_retryable_status_def split: if_splits)
  moreover note request_facts [OF assms]
  moreover from this have "length (sent es) \<ge> 1" by (cases "sent es") auto
  ultimately show ?thesis by (auto simp: default_max_retries_def list_all_iff)
qed

definition plain_response :: "int \<Rightarrow> response" where
  "plain_response status = \<lparr>rs_status = status, rs_header = (\<lambda>k. None), rs_text = [], rs_json = None\<rparr>"

definition busy_then_lost :: "nat web" where
  "busy_then_lost verb url args n =
     (if n = 0 then Got (plain_response 503) else Lost (Raised ''ReadTimeout'' []), n + 1)"

theorem writes_are_not_repeated_witness:
  "sent (fst (snd (request_from (\<lambda>n t. 0) busy_then_lost ''POST'' ''u'' [] default_max_retries 0 0))) =
     [Got (plain_response 503), Lost (Raised ''ReadTimeout'' [])] \<and>
   list_all unprocessed [Got (plain_response 503)]"
proof -
  obtain res es w where r:
    "request_from (\<lambda>n t. 0) busy_then_lost ''POST'' ''u'' [] default_max_retries 0 0 = (res, es, w)"
    by (metis prod_cases3)
  have rep: "\<not> may_repeat ''POST''" by code_simp
  have "sent es = [Got (plain_response 503), Lost (Raised ''ReadTimeout'' [])]"
    using r by (auto simp: request_from.simps busy_then_lost_def default_max_retries_def numeral_3_eq_3 repeats_def
      is_retryable_response_def plain_response_def always_retryable_status_def rep Let_def split: prod.splits)
  moreover have "py_upper ''POST'' \<notin> set retryable_transport_methods" by code_simp
  ultimately show ?thesis using writes_are_not_repeated [OF r] r by simp
qed

subsection \<open>Using a response\<close>

text \<open>
  \<open>raise_for_status\<close> raises unless the status is in the two hundreds; \<open>except httpx.HTTPError\<close> catches
  this error and those of the transport, whose classes are those of the library's documentation.
\<close>

definition http_error_classes :: "string list" where
  "http_error_classes =
     [''HTTPError'', ''HTTPStatusError'', ''RequestError'', ''TransportError'', ''TimeoutException'',
      ''ConnectTimeout'', ''ReadTimeout'', ''WriteTimeout'', ''PoolTimeout'', ''NetworkError'', ''ConnectError'',
      ''ReadError'', ''WriteError'', ''CloseError'', ''ProtocolError'', ''LocalProtocolError'',
      ''RemoteProtocolError'', ''ProxyError'', ''UnsupportedProtocol'', ''DecodingError'', ''TooManyRedirects'']"

definition is_http_error :: "exn \<Rightarrow> bool" where
  "is_http_error e = (exn_class e \<in> set http_error_classes)"

definition status_ok :: "response \<Rightarrow> bool" where
  "status_ok r = (200 \<le> rs_status r \<and> rs_status r \<le> 299)"

type_synonym 'w github = "string \<Rightarrow> string \<Rightarrow> fields \<Rightarrow> ('w, response) action"

text \<open>
  \<open>good gh\<close> sends a request, checks the status and gives no response when that raised an HTTP error;
  \<open>body_json\<close> is \<open>response.json()\<close>.
\<close>

definition good :: "'w github \<Rightarrow> string \<Rightarrow> string \<Rightarrow> fields \<Rightarrow> ('w, response option) action" where
  "good gh verb url args w =
     (case gh verb url args w of
        (Inl e, w') \<Rightarrow> (if is_http_error e then Inr None else Inl e, w')
      | (Inr r, w') \<Rightarrow> (Inr (if status_ok r then Some r else None), w'))"

definition body_json :: "response \<Rightarrow> ('w, json) action" where
  "body_json r =
     (case rs_json r of Some v \<Rightarrow> give v | None \<Rightarrow> fail (Raised ''JSONDecodeError'' ''Expecting value''))"

definition with_json :: "json \<Rightarrow> fields" where
  "with_json v = [(''json'', v)]"

definition repo_url :: "string \<Rightarrow> string \<Rightarrow> string \<Rightarrow> string" where
  "repo_url owner repo tail_path = github_api_base @ ''/repos/'' @ owner @ ''/'' @ repo @ tail_path"

subsection \<open>The check run of a review\<close>

definition review_check_run_name :: string where
  "review_check_run_name = ''Open SWE Review''"

definition autofix_check_run_name :: string where
  "autofix_check_run_name = ''Open SWE Auto-fix''"

definition check_output :: "string \<Rightarrow> string \<Rightarrow> json" where
  "check_output title summary = JDict [(''title'', JStr title), (''summary'', JStr summary)]"

definition details_field :: "string option \<Rightarrow> fields" where
  "details_field url = (case url of Some (c # cs) \<Rightarrow> [(''details_url'', JStr (c # cs))] | _ \<Rightarrow> [])"

definition create_review_check_run ::
  "'w github \<Rightarrow> string \<Rightarrow> string \<Rightarrow> string \<Rightarrow> string \<Rightarrow> string option \<Rightarrow> ('w, int option) action" where
  "create_review_check_run gh now owner repo head_sha details_url =
     and_then
       (good gh ''POST'' (repo_url owner repo ''/check-runs'')
         (with_json (JDict ([(''name'', JStr review_check_run_name), (''head_sha'', JStr head_sha),
           (''status'', JStr ''in_progress''), (''started_at'', JStr now),
           (''output'', check_output ''Review in progress'' ''Open SWE is reviewing this pull request...'')] @
           details_field details_url))))
       (\<lambda>r. case r of None \<Rightarrow> give None | Some r \<Rightarrow> and_then (body_json r) (\<lambda>v. give (as_int (jget v ''id''))))"

definition complete_review_check_run ::
  "'w github \<Rightarrow> string \<Rightarrow> string \<Rightarrow> string \<Rightarrow> int \<Rightarrow> string \<times> string \<times> string \<Rightarrow> ('w, bool) action" where
  "complete_review_check_run gh now owner repo check_run_id verdict =
     (case verdict of (conclusion, title, summary) \<Rightarrow>
       and_then
         (good gh ''PATCH'' (repo_url owner repo (''/check-runs/'' @ show_int check_run_id))
           (with_json (JDict [(''status'', JStr ''completed''), (''conclusion'', JStr conclusion),
             (''completed_at'', JStr now), (''output'', check_output title summary)])))
         (\<lambda>r. give (r \<noteq> None)))"

definition post_autofix_status_check ::
  "'w github \<Rightarrow> string \<Rightarrow> string \<Rightarrow> string \<Rightarrow> string \<Rightarrow> string \<Rightarrow> string \<Rightarrow> string option \<Rightarrow> ('w, bool) action" where
  "post_autofix_status_check gh now owner repo head_sha title summary details_url =
     and_then
       (good gh ''POST'' (repo_url owner repo ''/check-runs'')
         (with_json (JDict ([(''name'', JStr autofix_check_run_name), (''head_sha'', JStr head_sha),
           (''status'', JStr ''completed''), (''conclusion'', JStr ''neutral''),
           (''started_at'', JStr now), (''completed_at'', JStr now), (''output'', check_output title summary)] @
           details_field details_url))))
       (\<lambda>r. give (r \<noteq> None))"

definition issue_word :: "nat \<Rightarrow> string" where
  "issue_word n = (if n = 1 then ''issue'' else ''issues'')"

definition review_check_conclusion :: "nat \<Rightarrow> string \<times> string \<times> string" where
  "review_check_conclusion n =
     (if 0 < n
      then (''success'', ''Found '' @ show_int (int n) @ '' potential '' @ issue_word n,
        ''Open SWE surfaced '' @ show_int (int n) @ '' potential '' @ issue_word n @ '' on this pull request.'')
      else (''success'', ''No issues found'', ''Open SWE reviewed this pull request and found no issues.''))"

end
