(* ===== verification/Review_Publish.thy ===== *)
theory Review_Publish
  imports Review_Tools Github_Http
begin

section \<open>Rendering and posting a review\<close>

text \<open>
  Models \<open>agent/review/publish.py\<close>: the text of an inline comment, of the review and of the status
  comment, and the calls of the GitHub API that post and read them. The requests go through the
  \<open>github_request\<close> of the theory before; the text of a JSON value is a parameter. A loop over the pages of
  a list has no bound in the code, so it is a partial function here: not returning is \<open>None\<close>, and that
  it returns is proved for a list that ends. The lines of a finding are integers or null. Emoji stand as
  their short codes, the dots of three characters and the bullet as ASCII.
\<close>

subsection \<open>Comments\<close>

definition severity_emoji :: "string \<Rightarrow> string" where
  "severity_emoji severity =
     dict_get [(''critical'', '':red_circle:''), (''high'', '':orange_circle:''), (''medium'', '':yellow_circle:''),
       (''low'', '':blue_circle:'')] severity '':yellow_circle:''"

definition first_line_of :: "string \<Rightarrow> string" where
  "first_line_of s = hd (split_on newline s)"

definition later_lines :: "string \<Rightarrow> string" where
  "later_lines s = strip (join [newline] (tl (split_on newline s)))"

definition split_title_and_detail :: "string \<Rightarrow> json \<Rightarrow> string \<times> string" where
  "split_title_and_detail description title =
     (let given = str_or [] title
      in if strip given \<noteq> []
         then (let name = normalize_finding_title (Some given) []; detail = strip description
           in (name,
               if detail \<noteq> [] \<and> normalize_finding_title (Some (first_line_of description)) [] = name
               then later_lines description else detail))
         else if description = [] then (normalize_finding_title None [], [])
         else (let opening = strip (first_line_of description); detail = later_lines description;
                   name = normalize_finding_title (Some opening) []
           in if detail = [] \<and> name \<noteq> squeeze opening then (name, description) else (name, detail)))"

definition line_text :: "json \<Rightarrow> string" where
  "line_text v = (case as_int v of None \<Rightarrow> [] | Some n \<Rightarrow> show_int n)"

definition line_label :: "json \<Rightarrow> json \<Rightarrow> string" where
  "line_label start_line end_line =
     (if start_line = JNull \<or> start_line = end_line then ''line '' @ line_text end_line
      else ''lines '' @ line_text start_line @ ''-'' @ line_text end_line)"

definition format_line_reference :: "json \<Rightarrow> json \<Rightarrow> string" where
  "format_line_reference start_line end_line =
     (if end_line = JNull then [] else ''*(Refers to '' @ line_label start_line end_line @ '')*'')"

definition feedback_line :: string where
  "feedback_line =
     ''*Your feedback helps Open SWE learn. React with :+1: or :-1: to tell us if this review comment was useful.*''"

definition described :: "fields \<Rightarrow> string" where
  "described f = strip (str_or [] (field f ''description''))"

definition severity_of :: "fields \<Rightarrow> string" where
  "severity_of f = (case nonempty_str (field f ''severity'') of None \<Rightarrow> ''medium'' | Some s \<Rightarrow> s)"

definition comment_parts :: "fields \<Rightarrow> string list" where
  "comment_parts f =
     (let (title, detail) = split_title_and_detail (described f) (field f ''title'');
          line_ref = format_line_reference (field f ''start_line'') (field f ''end_line'')
      in [[], severity_emoji (severity_of f) @ '' **'' @ title @ ''**''] @
         (if detail = [] then [] else [[], detail]) @
         (if line_ref = [] then [] else [[], line_ref]) @
         [[], ''---'', feedback_line])"

definition render_inline_comment_body :: "(json \<Rightarrow> string) \<Rightarrow> fields \<Rightarrow> string" where
  "render_inline_comment_body dumps f =
     (let body = join [newline] (comment_marker dumps f # comment_parts f)
      in case nonempty_str (field f ''suggestion'') of
           None \<Rightarrow> body
         | Some s \<Rightarrow> body @ [newline, newline] @ ''```suggestion'' @ [newline] @ s @ [newline] @ ''```'')"

definition render_inline_comment_payload :: "(json \<Rightarrow> string) \<Rightarrow> fields \<Rightarrow> fields option" where
  "render_inline_comment_payload dumps f =
     (let start_line = field f ''start_line''; end_line = field f ''end_line''; s = side_field f
      in if \<not> truthy (field f ''file'') \<or> end_line = JNull then None
         else Some ([(''path'', field f ''file''), (''line'', end_line), (''side'', s),
             (''body'', JStr (render_inline_comment_body dumps f))] @
           (if start_line = JNull \<or> start_line = end_line then []
            else [(''start_line'', start_line), (''start_side'', s)])))"

subsection \<open>The review and the status comment\<close>

definition review_summary_marker :: "int \<Rightarrow> string" where
  "review_summary_marker pr_number = ''<!-- open-swe-reviewer pr='' @ show_int pr_number @ '' -->''"

definition counted_noun :: "nat \<Rightarrow> string" where
  "counted_noun n = (if n = 1 then ''finding'' else ''findings'')"

definition out_of_diff_item :: "fields \<Rightarrow> string" where
  "out_of_diff_item f =
     (let (title, detail) = split_title_and_detail (described f) (field f ''title'');
          file_name = (case nonempty_str (field f ''file'') of None \<Rightarrow> ''?'' | Some s \<Rightarrow> s);
          location = file_name @
            (if field f ''end_line'' = JNull then []
             else '' '' @ line_label (field f ''start_line'') (field f ''end_line''))
      in ''- '' @ severity_emoji (severity_of f) @ '' **'' @ title @ ''** - `'' @ location @ ''`'' @
         (if detail = [] then [] else newline # ''  '' @ detail))"

definition render_out_of_diff_section :: "fields list \<Rightarrow> string" where
  "render_out_of_diff_section findings =
     ''<details>'' @ [newline] @ ''<summary>:mag: '' @ show_int (int (length findings)) @ '' out-of-diff '' @
     counted_noun (length findings) @ ''</summary>'' @ [newline, newline] @
     ''These relate to code outside this PR's changed lines.'' @ [newline, newline] @
     join [newline] (map out_of_diff_item findings) @ [newline] @ ''</details>''"

definition review_headline :: "nat \<Rightarrow> fields list \<Rightarrow> string" where
  "review_headline surfaced_count outside =
     (if surfaced_count = 0 \<and> outside = []
      then ''## :white_check_mark: Open SWE Review: No issues found'' @ [newline, newline] @
        ''Open SWE reviewed this PR and found no potential bugs to report.''
      else if surfaced_count = 0 then ''**Open SWE Review** found no issues in the changed lines.''
      else ''**Open SWE Review** found '' @ show_int (int surfaced_count) @ '' potential '' @
        issue_word surfaced_count @ ''.'')"

definition link :: "string \<Rightarrow> string option \<Rightarrow> string list" where
  "link label url = (case url of Some (c # cs) \<Rightarrow> [''['' @ label @ ''](''  @ c # cs @ '')''] | _ \<Rightarrow> [])"

definition links_part :: "string option \<Rightarrow> string option \<Rightarrow> string list" where
  "links_part ui_url trace_url =
     (let ls = link ''Open in Web'' ui_url @ link ''View Open SWE trace'' trace_url
      in if ls = [] then [] else [join '' * '' ls])"

definition blank_line :: string where
  "blank_line = [newline, newline]"

definition render_review_body ::
  "int \<Rightarrow> nat \<Rightarrow> string option \<Rightarrow> string option \<Rightarrow> fields list \<Rightarrow> nat \<Rightarrow> string" where
  "render_review_body pr_number surfaced_count trace_url ui_url outside additional =
     join blank_line
       ([review_headline surfaced_count outside] @
        (if 0 < additional
         then [show_int (int additional) @ '' additional '' @ counted_noun additional @ '' can be viewed in the web app.'']
         else []) @
        (if outside = [] then [] else [render_out_of_diff_section outside]) @
        links_part ui_url trace_url @ [review_summary_marker pr_number])"

definition status_comment_marker :: "int \<Rightarrow> string" where
  "status_comment_marker pr_number = ''<!-- open-swe-reviewer-status pr='' @ show_int pr_number @ '' -->''"

definition render_status_comment :: "int \<Rightarrow> string option \<Rightarrow> string option \<Rightarrow> string" where
  "render_status_comment pr_number ui_url trace_url =
     join blank_line
       ([''## :mag: Open SWE Review: in progress'' @ [newline, newline] @ ''Open SWE is reviewing this PR...''] @
        links_part ui_url trace_url @ [status_comment_marker pr_number])"

text \<open>A rendered comment can be told apart: the marker is read back from the body, whatever it says.\<close>

lemma body_starts_with_marker:
  obtains others where "render_inline_comment_body dumps f = comment_marker dumps f @ others"
proof -
  obtain p ps where "comment_parts f = p # ps"
    by (cases "comment_parts f") (auto simp: comment_parts_def Let_def split: prod.splits)
  then obtain o1 where o1: "join [newline] (comment_marker dumps f # comment_parts f) = comment_marker dumps f @ o1"
    by simp
  show ?thesis
    by (cases "nonempty_str (field f ''suggestion'')")
      (use o1 in \<open>auto intro!: that simp: render_inline_comment_body_def Let_def\<close>)
qed

lemma rendered_comment_names_finding:
  assumes "loads (dumps (marker_payload f)) = Some (marker_payload f)"
    and "dumps (marker_payload f) = CHR ''{'' # u @ ''}''" "\<not> contains ''-->'' u"
    and "field f ''id'' = JStr (a # fid)" "field f ''file'' = JStr (b # path)"
    and "side_field f = JStr d" "d = ''LEFT'' \<or> d = ''RIGHT''"
  shows "map_option (\<lambda>m. field m ''id'') (parse_review_comment_marker loads (render_inline_comment_body dumps f)) =
    Some (JStr (a # fid))"
proof -
  obtain others where o: "render_inline_comment_body dumps f = comment_marker dumps f @ others"
    by (rule body_starts_with_marker)
  show ?thesis unfolding o
    by (subst comment_names_its_finding [where u = u and a = a and fid = fid and b = b and path = path and d = d])
      (use assms in \<open>auto simp: field_def dict_get_def\<close>)
qed

subsection \<open>The API\<close>

definition extra_fields :: "fields \<Rightarrow> thread_fields" where
  "extra_fields d =
     \<lparr>tf_pr = None, tf_last_reviewed_sha = None, tf_head_sha = None, tf_watch = None, tf_findings = None,
      tf_slack_thread = None, tf_extra = d\<rparr>"

definition pull_url :: "string \<Rightarrow> string \<Rightarrow> int \<Rightarrow> string \<Rightarrow> string" where
  "pull_url owner repo pr_number tail_path =
     repo_url owner repo (''/pulls/'' @ show_int pr_number @ tail_path)"

definition post_status_comment ::
  "'w github \<Rightarrow> string \<Rightarrow> string \<Rightarrow> int \<Rightarrow> string \<Rightarrow> ('w, int option) action" where
  "post_status_comment gh owner repo pr_number body =
     and_then
       (good gh ''POST'' (repo_url owner repo (''/issues/'' @ show_int pr_number @ ''/comments''))
         (with_json (JDict [(''body'', JStr body)])))
       (\<lambda>r. case r of None \<Rightarrow> give None | Some r \<Rightarrow> and_then (body_json r) (\<lambda>v. give (as_int (jget v ''id''))))"

definition delete_status_comment :: "'w github \<Rightarrow> string \<Rightarrow> string \<Rightarrow> int \<Rightarrow> ('w, bool) action" where
  "delete_status_comment gh owner repo comment_id w =
     (case gh ''DELETE'' (repo_url owner repo (''/issues/comments/'' @ show_int comment_id)) [] w of
        (Inl e, w') \<Rightarrow> (if is_http_error e then Inr False else Inl e, w')
      | (Inr r, w') \<Rightarrow> (Inr (rs_status r = 404 \<or> status_ok r), w'))"

definition post_review_started_comment ::
  "'w thread_client \<Rightarrow> 'w github \<Rightarrow> string \<Rightarrow> string \<Rightarrow> string \<Rightarrow> int \<Rightarrow> string option \<Rightarrow> string option
   \<Rightarrow> ('w, int option) action" where
  "post_review_started_comment client gh t owner repo pr_number ui_url trace_url =
     and_then (get_thread_metadata client t)
       (\<lambda>metadata. and_then
          (case as_int (field metadata ''status_comment_id'') of
             None \<Rightarrow> give True | Some n \<Rightarrow> delete_status_comment gh owner repo n)
          (\<lambda>gone. and_then
             (post_status_comment gh owner repo pr_number (render_status_comment pr_number ui_url trace_url))
             (\<lambda>new_id. and_then
                (set_reviewer_thread_metadata client t (extra_fields [(''status_comment_id'', opt_int new_id)]))
                (\<lambda>u. give new_id))))"

definition clear_review_started_comment ::
  "'w thread_client \<Rightarrow> 'w github \<Rightarrow> string \<Rightarrow> string \<Rightarrow> string \<Rightarrow> ('w, unit) action" where
  "clear_review_started_comment client gh t owner repo =
     and_then (get_thread_metadata client t)
       (\<lambda>metadata. case as_int (field metadata ''status_comment_id'') of
          None \<Rightarrow> give ()
        | Some n \<Rightarrow>
            and_then (delete_status_comment gh owner repo n)
              (\<lambda>gone. set_reviewer_thread_metadata client t (extra_fields [(''status_comment_id'', JNull)])))"

definition pending_result :: "string \<times> string \<times> string \<Rightarrow> json" where
  "pending_result verdict =
     (case verdict of (conclusion, title, summary) \<Rightarrow>
        JDict [(''conclusion'', JStr conclusion), (''title'', JStr title), (''summary'', JStr summary)])"

definition settle_review_check_run ::
  "'w thread_client \<Rightarrow> 'w github \<Rightarrow> string \<Rightarrow> string \<Rightarrow> string \<Rightarrow> string \<Rightarrow> string \<times> string \<times> string
   \<Rightarrow> ('w, unit) action" where
  "settle_review_check_run client gh now t owner repo verdict =
     and_then (get_thread_metadata client t)
       (\<lambda>metadata. case as_int (field metadata ''review_check_run_id'') of
          None \<Rightarrow> give ()
        | Some n \<Rightarrow>
            and_then (complete_review_check_run gh now owner repo n verdict)
              (\<lambda>settled. set_reviewer_thread_metadata client t
                 (extra_fields (if settled
                    then [(''review_check_run_id'', JNull), (''review_check_pending_result'', JNull)]
                    else [(''review_check_pending_result'', pending_result verdict)]))))"

subsubsection \<open>Posting\<close>

definition anchor_error :: "json \<Rightarrow> bool" where
  "anchor_error e =
     (case as_str e of
        None \<Rightarrow> False
      | Some s \<Rightarrow> contains ''Path could not be resolved'' s \<or> contains ''Line could not be resolved'' s)"

definition raw_errors :: "response \<Rightarrow> json list" where
  "raw_errors r =
     (if rs_status r \<noteq> 422 then []
      else (case rs_json r of
          Some (JDict d) \<Rightarrow> (case as_list (dict_get d ''errors'' (JList [])) of None \<Rightarrow> [] | Some es \<Rightarrow> es)
        | _ \<Rightarrow> []))"

definition rejected :: "response \<Rightarrow> fields" where
  "rejected r =
     [(''_error'', JStr (''HTTP '' @ show_int (rs_status r) @ '': '' @ take 500 (rs_text r))),
      (''_error_kind'', if list_ex anchor_error (raw_errors r) then JStr ''unresolved_anchor'' else JNull),
      (''_raw_errors'', JList (raw_errors r)), (''_status'', JInt (rs_status r))]"

definition review_request :: "string \<Rightarrow> string \<Rightarrow> fields list \<Rightarrow> json" where
  "review_request head_sha body comments =
     JDict [(''commit_id'', JStr head_sha), (''event'', JStr ''COMMENT''), (''body'', JStr body),
       (''comments'', JList (map JDict comments))]"

definition auth_error :: "string \<Rightarrow> exn" where
  "auth_error what = Raised ''GitHubAuthError'' (''GitHub returned 401 '' @ what)"

definition post_pull_request_review ::
  "'w github \<Rightarrow> string \<Rightarrow> string \<Rightarrow> int \<Rightarrow> string \<Rightarrow> string \<Rightarrow> fields list \<Rightarrow> ('w, fields) action" where
  "post_pull_request_review gh owner repo pr_number head_sha body comments w =
     (case gh ''POST'' (pull_url owner repo pr_number ''/reviews'') (with_json (review_request head_sha body comments)) w of
        (Inl e, w') \<Rightarrow>
          (if is_http_error e then Inr [(''_error'', JStr (exn_class e @ '': '' @ exn_str e))] else Inl e, w')
      | (Inr r, w') \<Rightarrow>
          (if rs_status r = 401
           then Inl (auth_error (''posting PR review for '' @ owner @ ''/'' @ repo @ ''#'' @ show_int pr_number))
           else if \<not> status_ok r then Inr (rejected r)
           else (case rs_json r of
               None \<Rightarrow> Inl (Raised ''JSONDecodeError'' ''Expecting value'')
             | Some (JDict d) \<Rightarrow> Inr d
             | Some v \<Rightarrow> Inr [(''_error'', JStr (''HTTP '' @ show_int (rs_status r) @
                 '': non-dict response body: '' @ take 500 (rs_text r)))]), w'))"

definition reply_to_review_comment ::
  "'w github \<Rightarrow> string \<Rightarrow> string \<Rightarrow> int \<Rightarrow> int \<Rightarrow> string \<Rightarrow> ('w, fields option) action" where
  "reply_to_review_comment gh owner repo pr_number comment_id body w =
     (case gh ''POST'' (pull_url owner repo pr_number (''/comments/'' @ show_int comment_id @ ''/replies''))
         (with_json (JDict [(''body'', JStr body)])) w of
        (Inl e, w') \<Rightarrow> (if is_http_error e then Inr None else Inl e, w')
      | (Inr r, w') \<Rightarrow>
          (if rs_status r = 401 then Inl (auth_error (''replying to review comment '' @ show_int comment_id))
           else if \<not> status_ok r then Inr None
           else (case rs_json r of
               None \<Rightarrow> Inl (Raised ''JSONDecodeError'' ''Expecting value'') | Some v \<Rightarrow> Inr (as_dict v)), w'))"

definition resolve_mutation :: string where
  "resolve_mutation =
     ''mutation Resolve($threadId: ID!) { resolveReviewThread(input: {threadId: $threadId}) { thread { id isResolved } } }''"

definition graphql :: "string \<Rightarrow> fields \<Rightarrow> fields" where
  "graphql query variables = with_json (JDict [(''query'', JStr query), (''variables'', JDict variables)])"

definition resolve_review_thread :: "'w github \<Rightarrow> string \<Rightarrow> ('w, bool) action" where
  "resolve_review_thread gh thread_node_id =
     and_then
       (good gh ''POST'' github_graphql (graphql resolve_mutation [(''threadId'', JStr thread_node_id)]))
       (\<lambda>r. case r of
          None \<Rightarrow> give False
        | Some r \<Rightarrow> and_then (body_json r)
            (\<lambda>v. give (\<not> truthy (jget v ''errors'') \<and>
               truthy (jget (jget (jget (jget v ''data'') ''resolveReviewThread'') ''thread'') ''isResolved''))))"

subsubsection \<open>Lists in pages\<close>

definition page_params :: "int \<Rightarrow> fields" where
  "page_params page = [(''params'', JDict [(''per_page'', JInt 100), (''page'', JInt page)])]"

definition has_marker :: "string \<Rightarrow> json \<Rightarrow> bool" where
  "has_marker marker review = contains marker (str_or [] (jget review ''body''))"

text \<open>The JSON body of a checked answer: no answer, an answer that is no JSON text, or a value.\<close>

definition listing :: "'w github \<Rightarrow> string \<Rightarrow> int \<Rightarrow> ('w, json option) action" where
  "listing gh url page =
     and_then (good gh ''GET'' url (page_params page))
       (\<lambda>r. case r of None \<Rightarrow> give None | Some r \<Rightarrow> and_then (body_json r) (\<lambda>v. give (Some v)))"

partial_function (option) find_review ::
  "'w github \<Rightarrow> string \<Rightarrow> string \<Rightarrow> int \<Rightarrow> 'w \<Rightarrow> (bool option result \<times> 'w) option" where
  "find_review gh url marker page w =
     (case listing gh url page w of
        (Inl e, w1) \<Rightarrow> Some (Inl e, w1)
      | (Inr v, w1) \<Rightarrow>
          (case (case v of None \<Rightarrow> None | Some v \<Rightarrow> as_list v) of
             None \<Rightarrow> Some (Inr None, w1)
           | Some reviews \<Rightarrow>
               (if list_ex (has_marker marker) reviews then Some (Inr (Some True), w1)
                else if length reviews < 100 then Some (Inr (Some False), w1)
                else find_review gh url marker (page + 1) w1)))"

definition open_swe_review_exists ::
  "'w github \<Rightarrow> string \<Rightarrow> string \<Rightarrow> int \<Rightarrow> 'w \<Rightarrow> (bool option result \<times> 'w) option" where
  "open_swe_review_exists gh owner repo pr_number =
     find_review gh (pull_url owner repo pr_number ''/reviews'') (review_summary_marker pr_number) 1"

partial_function (option) comments_from ::
  "'w github \<Rightarrow> string \<Rightarrow> int \<Rightarrow> fields list \<Rightarrow> 'w \<Rightarrow> (fields list result \<times> 'w) option" where
  "comments_from gh url page found w =
     (case listing gh url page w of
        (Inl e, w1) \<Rightarrow> Some (Inl e, w1)
      | (Inr v, w1) \<Rightarrow>
          (case (case v of None \<Rightarrow> None | Some v \<Rightarrow> as_list v) of
             None \<Rightarrow> Some (Inr found, w1)
           | Some items \<Rightarrow>
               (if length items < 100 then Some (Inr (found @ List.map_filter as_dict items), w1)
                else comments_from gh url (page + 1) (found @ List.map_filter as_dict items) w1)))"

definition fetch_review_comments ::
  "'w github \<Rightarrow> string \<Rightarrow> string \<Rightarrow> int \<Rightarrow> int \<Rightarrow> 'w \<Rightarrow> (fields list result \<times> 'w) option" where
  "fetch_review_comments gh owner repo pr_number review_id =
     comments_from gh (pull_url owner repo pr_number (''/reviews/'' @ show_int review_id @ ''/comments'')) 1 []"

subsubsection \<open>Review threads\<close>

definition threads_query :: string where
  "threads_query =
     ''query Threads($owner: String!, $repo: String!, $pr: Int!, $cursor: String, $perThread: Int!) '' @
     ''{ repository(owner: $owner, name: $repo) { pullRequest(number: $pr) '' @
     ''{ reviewThreads(first: 50, after: $cursor) { pageInfo { hasNextPage endCursor } '' @
     ''nodes { id isResolved isOutdated path line originalLine '' @
     ''comments(first: $perThread) { nodes { databaseId author { login } authorAssociation body createdAt } } } } } } }''"

definition thread_ids_query :: string where
  "thread_ids_query =
     ''query Threads($owner: String!, $repo: String!, $pr: Int!, $cursor: String) '' @
     ''{ repository(owner: $owner, name: $repo) { pullRequest(number: $pr) '' @
     ''{ reviewThreads(first: 50, after: $cursor) { pageInfo { hasNextPage endCursor } '' @
     ''nodes { id comments(first: 50) { nodes { databaseId } } } } } } }''"

definition text_field :: "json \<Rightarrow> string \<Rightarrow> json" where
  "text_field v k = JStr (str_or [] (jget v k))"

definition list_or_empty :: "json \<Rightarrow> json list" where
  "list_or_empty v = (case as_list v of None \<Rightarrow> [] | Some xs \<Rightarrow> xs)"

definition thread_comment :: "json \<Rightarrow> json" where
  "thread_comment c =
     JDict [(''id'', optional_int (jget c ''databaseId'')),
       (''author'', JStr (str_or ''unknown'' (jget (jget c ''author'') ''login''))),
       (''author_association'', text_field c ''authorAssociation''), (''body'', text_field c ''body''),
       (''created_at'', text_field c ''createdAt'')]"

definition is_dict :: "json \<Rightarrow> bool" where
  "is_dict v = (as_dict v \<noteq> None)"

definition thread_record :: "json \<Rightarrow> fields" where
  "thread_record thread =
     [(''id'', text_field thread ''id''), (''path'', text_field thread ''path''),
      (''line'', optional_int (jget thread ''line'')), (''original_line'', optional_int (jget thread ''originalLine'')),
      (''is_resolved'', JBool (truthy (jget thread ''isResolved''))),
      (''is_outdated'', JBool (truthy (jget thread ''isOutdated''))),
      (''comments'',
       JList (map thread_comment (filter is_dict (list_or_empty (jget (jget thread ''comments'') ''nodes'')))))]"

definition thread_variables :: "string \<Rightarrow> string \<Rightarrow> int \<Rightarrow> json \<Rightarrow> fields" where
  "thread_variables owner repo pr_number cursor =
     [(''owner'', JStr owner), (''repo'', JStr repo), (''pr'', JInt pr_number), (''cursor'', cursor)]"

definition threads_page :: "'w github \<Rightarrow> string \<Rightarrow> fields \<Rightarrow> ('w, json option) action" where
  "threads_page gh query variables =
     and_then (good gh ''POST'' github_graphql (graphql query variables))
       (\<lambda>r. case r of
          None \<Rightarrow> give None
        | Some r \<Rightarrow> and_then (body_json r)
            (\<lambda>v. give (let threads =
                 jget (jget (jget (jget v ''data'') ''repository'') ''pullRequest'') ''reviewThreads''
               in if is_dict threads then Some threads else None)))"

definition has_next :: "json \<Rightarrow> bool" where
  "has_next threads = truthy (jget (jget threads ''pageInfo'') ''hasNextPage'')"

definition end_cursor :: "json \<Rightarrow> json" where
  "end_cursor threads = jget (jget threads ''pageInfo'') ''endCursor''"

partial_function (option) threads_from ::
  "'w github \<Rightarrow> (json \<Rightarrow> fields) \<Rightarrow> nat \<Rightarrow> json \<Rightarrow> fields list \<Rightarrow> 'w \<Rightarrow> (fields list result \<times> 'w) option" where
  "threads_from gh variables max_threads cursor found w =
     (if max_threads \<le> length found then Some (Inr found, w)
      else (case threads_page gh threads_query (variables cursor) w of
         (Inl e, w1) \<Rightarrow> Some (Inl e, w1)
       | (Inr None, w1) \<Rightarrow> Some (Inr found, w1)
       | (Inr (Some threads), w1) \<Rightarrow>
           (let found' = take max_threads
                  (found @ map thread_record (filter is_dict (list_or_empty (jget threads ''nodes''))))
            in if has_next threads then threads_from gh variables max_threads (end_cursor threads) found' w1
               else Some (Inr found', w1))))"

definition fetch_pr_review_threads ::
  "'w github \<Rightarrow> string \<Rightarrow> string \<Rightarrow> int \<Rightarrow> 'w \<Rightarrow> (fields list result \<times> 'w) option" where
  "fetch_pr_review_threads gh owner repo pr_number =
     threads_from gh (\<lambda>cursor. thread_variables owner repo pr_number cursor @ [(''perThread'', JInt 20)]) 100 JNull []"

definition holds_comment :: "int \<Rightarrow> json \<Rightarrow> bool" where
  "holds_comment comment_id thread =
     list_ex (\<lambda>c. num_of (jget c ''databaseId'') = Some (of_int comment_id))
       (list_or_empty (jget (jget thread ''comments'') ''nodes''))"

partial_function (option) thread_id_from ::
  "'w github \<Rightarrow> (json \<Rightarrow> fields) \<Rightarrow> int \<Rightarrow> json \<Rightarrow> 'w \<Rightarrow> (string option result \<times> 'w) option" where
  "thread_id_from gh variables comment_id cursor w =
     (case threads_page gh thread_ids_query (variables cursor) w of
        (Inl e, w1) \<Rightarrow> Some (Inl e, w1)
      | (Inr None, w1) \<Rightarrow> Some (Inr None, w1)
      | (Inr (Some threads), w1) \<Rightarrow>
          (case find (holds_comment comment_id) (list_or_empty (jget threads ''nodes'')) of
             Some thread \<Rightarrow> Some (Inr (as_str (jget thread ''id'')), w1)
           | None \<Rightarrow>
               (if has_next threads then thread_id_from gh variables comment_id (end_cursor threads) w1
                else Some (Inr None, w1))))"

definition fetch_review_thread_id_for_comment ::
  "'w github \<Rightarrow> string \<Rightarrow> string \<Rightarrow> int \<Rightarrow> int \<Rightarrow> 'w \<Rightarrow> (string option result \<times> 'w) option" where
  "fetch_review_thread_id_for_comment gh owner repo pr_number comment_id =
     thread_id_from gh (thread_variables owner repo pr_number) comment_id JNull"

subsection \<open>Reading the pages of a list\<close>

text \<open>A server that gives a list in pages of a hundred, the first page being number 1.\<close>

definition page_of :: "json list \<Rightarrow> nat \<Rightarrow> json list" where
  "page_of items n = take 100 (drop (100 * n) items)"

definition serves :: "'w github \<Rightarrow> string \<Rightarrow> json list \<Rightarrow> bool" where
  "serves gh url items \<longleftrightarrow>
     (\<forall>n w. listing gh url (int n + 1) w = (Inr (Some (JList (page_of items n))), w))"

lemma page_split: "drop (100 * n) items = page_of items n @ drop (100 * Suc n) items"
  using append_take_drop_id [of 100 "drop (100 * n) items"] by (simp add: page_of_def add.commute)

lemma last_page: "length (page_of items n) < 100 \<Longrightarrow> drop (100 * Suc n) items = []"
  by (auto simp: page_of_def)

lemma full_page: "\<not> length (page_of items n) < 100 \<Longrightarrow> length (drop (100 * Suc n) items) < length (drop (100 * n) items)"
  by (auto simp: page_of_def)

lemma find_review_served:
  assumes "serves gh url items"
  shows "find_review gh url marker (int n + 1) w =
    Some (Inr (Some (list_ex (has_marker marker) (drop (100 * n) items))), w)"
proof (induction "length (drop (100 * n) items)" arbitrary: n rule: less_induct)
  case less
  have v: "listing gh url (int n + 1) w = (Inr (Some (JList (page_of items n))), w)"
    using assms by (simp add: serves_def)
  show ?case
  proof (cases "list_ex (has_marker marker) (page_of items n) \<or> length (page_of items n) < 100")
    case True
    have "list_ex (has_marker marker) (drop (100 * n) items) = list_ex (has_marker marker) (page_of items n)"
      using True last_page [of items n] by (subst page_split) auto
    with v True show ?thesis by (subst find_review.simps) auto
  next
    case False
    then have "find_review gh url marker (int n + 1) w = find_review gh url marker (int (Suc n) + 1) w"
      using v by (subst find_review.simps) (simp add: add.commute)
    also have "\<dots> = Some (Inr (Some (list_ex (has_marker marker) (drop (100 * Suc n) items))), w)"
      using full_page [of items n] False by (intro less.hyps) blast
    finally show ?thesis using False by (subst page_split) simp
  qed
qed

lemma comments_from_served:
  assumes "serves gh url items"
  shows "comments_from gh url (int n + 1) found w =
    Some (Inr (found @ List.map_filter as_dict (drop (100 * n) items)), w)"
proof (induction "length (drop (100 * n) items)" arbitrary: n found rule: less_induct)
  case less
  let ?found = "found @ List.map_filter as_dict (page_of items n)"
  have v: "listing gh url (int n + 1) w = (Inr (Some (JList (page_of items n))), w)"
    using assms by (simp add: serves_def)
  have split: "List.map_filter as_dict (drop (100 * n) items) =
      List.map_filter as_dict (page_of items n) @ List.map_filter as_dict (drop (100 * Suc n) items)"
    by (subst page_split) (simp add: map_filter_def)
  show ?case
  proof (cases "length (page_of items n) < 100")
    case True
    with v last_page [OF True] show ?thesis
      unfolding split by (subst comments_from.simps) (simp add: map_filter_def)
  next
    case False
    then have "comments_from gh url (int n + 1) found w = comments_from gh url (int (Suc n) + 1) ?found w"
      using v by (subst comments_from.simps) (simp add: add.commute)
    also have "\<dots> = Some (Inr (?found @ List.map_filter as_dict (drop (100 * Suc n) items)), w)"
      using full_page [OF False] by (intro less.hyps) blast
    finally show ?thesis unfolding split by simp
  qed
qed

text \<open>
  Reading a list in pages returns and misses nothing. On a server that gives a finite list in pages, the
  search for an earlier review ends and says yes exactly when one of all reviews carries the marker, and
  reading the comments of a review ends with all of them, once each and in order.
\<close>

theorem paged_lists_are_read_completely:
  assumes "serves gh (pull_url owner repo pr_number ''/reviews'') reviews"
    and "serves gh (pull_url owner repo pr_number (''/reviews/'' @ show_int review_id @ ''/comments'')) comments"
  shows "open_swe_review_exists gh owner repo pr_number w =
      Some (Inr (Some (list_ex (has_marker (review_summary_marker pr_number)) reviews)), w) \<and>
    fetch_review_comments gh owner repo pr_number review_id w = Some (Inr (List.map_filter as_dict comments), w)"
  using find_review_served [OF assms(1), of "review_summary_marker pr_number" 0 w]
    comments_from_served [OF assms(2), of 0 "[]" w]
  by (simp add: open_swe_review_exists_def fetch_review_comments_def)

definition page_server :: "json list \<Rightarrow> unit github" where
  "page_server items verb url args w =
     (case as_int (jget (field args ''params'') ''page'') of
        None \<Rightarrow> (Inr (plain_response 400), w)
      | Some n \<Rightarrow> (Inr ((plain_response 200)\<lparr>rs_json := Some (JList (page_of items (nat (n - 1))))\<rparr>), w))"

lemma page_server_serves: "serves (page_server items) url items"
  by (simp add: serves_def listing_def page_server_def good_def and_then_def body_json_def give_def status_ok_def
    plain_response_def page_params_def field_def dict_get_def)

theorem paged_lists_are_read_completely_witness:
  "open_swe_review_exists (page_server (replicate 100 JNull @ [JDict [(''body'', JStr (review_summary_marker 7))]]))
     ''o'' ''r'' 7 () = Some (Inr (Some True), ())"
proof -
  have "list_ex (has_marker (review_summary_marker 7))
      (replicate 100 JNull @ [JDict [(''body'', JStr (review_summary_marker 7))]])"
    using contains_iff [of "review_summary_marker 7" "review_summary_marker 7"]
    by (simp add: has_marker_def field_def dict_get_def str_or_def) (metis append_Nil append_Nil2)
  with paged_lists_are_read_completely [OF page_server_serves page_server_serves, where w = "()"]
  show ?thesis by metis
qed

text \<open>A failed page makes the answer unknown, never a no.\<close>

lemma failed_page_is_unknown:
  "listing gh url page w = (Inr None, w') \<Longrightarrow> find_review gh url marker page w = Some (Inr None, w')"
  by (subst find_review.simps) simp

end
