(* ===== verification/Publish_Review.thy ===== *)
theory Publish_Review
  imports Review_Publish
begin

section \<open>Publishing a review\<close>

text \<open>
  Models \<open>agent/tools/publish_review.py\<close>: choosing the findings that are new on GitHub, posting them as one
  review with a second try when GitHub refuses an anchor, recording where each finding went, resolving
  the threads of findings that were closed, and the dry run of an evaluation. The calls of the API that
  loop over pages, the trace links, the usage records and Slack are parameters, which belong to the pull
  request of the run; everything else goes through the store of the findings and the requests of the
  theories before. Dashes in the messages are hyphens here.
\<close>

subsection \<open>The run\<close>

record 'w publish_env =
  pb_run :: "'w review_env"
  pb_dumps :: "json \<Rightarrow> string"
  pb_gh :: "'w github"
  pb_now :: string
  pb_state_lines :: "(string, side_lines) dict option"
  pb_config_lines :: "(string, side_lines) dict option"
  pb_exists :: "('w, bool option) action"
  pb_comments :: "json \<Rightarrow> ('w, fields list) action"
  pb_trace_links :: "('w, bool) action"
  pb_trace_url :: "string \<Rightarrow> ('w, string option) action"
  pb_ui_url :: "string option"
  pb_usage :: "string \<Rightarrow> fields list \<Rightarrow> 'w \<Rightarrow> 'w"
  pb_slack :: "string \<Rightarrow> string \<Rightarrow> string \<Rightarrow> string \<Rightarrow> ('w, unit) action"
  pb_invalidate :: "string \<Rightarrow> ('w, unit) action"

definition pb_client :: "'w publish_env \<Rightarrow> 'w thread_client" where
  "pb_client env = re_client (pb_run env)"

record pull_target =
  pt_owner :: string
  pt_repo :: string
  pt_number :: int

definition reviewed_fields :: "string \<Rightarrow> fields \<Rightarrow> thread_fields" where
  "reviewed_fields head_sha d = (extra_fields d)\<lparr>tf_last_reviewed_sha := Some head_sha\<rparr>"

subsection \<open>The findings that are new\<close>

definition is_open :: "fields \<Rightarrow> bool" where
  "is_open f = (dict_get f ''status'' (JStr ''open'') = JStr ''open'')"

definition on_diff :: "fields \<Rightarrow> bool" where
  "on_diff f = truthy (dict_get f ''in_diff'' (JBool True))"

definition still_new :: "bool \<Rightarrow> string \<Rightarrow> fields \<Rightarrow> bool" where
  "still_new re_review head_sha f =
     (as_int (field f ''github_review_comment_id'') = None \<and>
      (re_review \<longrightarrow> field f ''first_seen_sha'' = JStr head_sha))"

definition with_payload :: "(json \<Rightarrow> string) \<Rightarrow> fields list \<Rightarrow> (fields \<times> fields) list" where
  "with_payload dumps fs = List.map_filter (\<lambda>f. map_option (Pair f) (render_inline_comment_payload dumps f)) fs"

record selection =
  sl_pairs :: "(fields \<times> fields) list"
  sl_open :: nat
  sl_additional :: nat

definition additional_count :: "string \<Rightarrow> fields list \<Rightarrow> fields list \<Rightarrow> nat" where
  "additional_count threshold eligible fs =
     length (filter (\<lambda>f. field f ''id'' \<notin> set (map (\<lambda>g. field g ''id'') eligible) \<and> is_open f \<and>
       finding_rank f < dict_get severity_order threshold 0) fs)"

definition select_findings ::
  "(json \<Rightarrow> string) \<Rightarrow> bool \<Rightarrow> string \<Rightarrow> string \<Rightarrow> nat \<Rightarrow> fields list \<Rightarrow> selection result" where
  "select_findings dumps re_review head_sha threshold cap findings =
     (let fresh_ones = filter (still_new re_review head_sha) findings;
          here = filter on_diff fresh_ones
      in case filter_findings_for_publish here threshold cap of
           Inl e \<Rightarrow> Inl e
         | Inr eligible \<Rightarrow>
             Inr \<lparr>sl_pairs = with_payload dumps eligible, sl_open = length (filter is_open fresh_ones),
               sl_additional = additional_count threshold eligible here\<rparr>)"

subsection \<open>Before posting\<close>

definition backfill_findings :: "'w publish_env \<Rightarrow> string \<Rightarrow> ('w, fields list) action" where
  "backfill_findings env t =
     and_then (list_findings (pb_client env) t)
       (\<lambda>findings. if findings = [] then give findings
          else and_then (pg_threads (re_github (pb_run env)))
            (\<lambda>threads. if threads = [] then give findings
               else reconcile_findings_with_review_threads (re_loads (pb_run env)) (pb_client env) t threads))"

definition resolve_trace_url :: "'w publish_env \<Rightarrow> string \<Rightarrow> json \<Rightarrow> ('w, string option) action" where
  "resolve_trace_url env t config_override =
     (if config_override = JBool False then give None
      else and_then (pb_trace_links env)
        (\<lambda>enabled. if \<not> enabled \<or> t = [] then give None else pb_trace_url env t))"

definition already_reviewed :: "'w publish_env \<Rightarrow> string \<Rightarrow> bool \<Rightarrow> ('w, bool) action" where
  "already_reviewed env t re_review =
     (if re_review then give True
      else and_then (get_thread_metadata (pb_client env) t)
        (\<lambda>metadata. if get_thread_last_reviewed_sha metadata \<noteq> None then give True
           else and_then (pb_exists env) (\<lambda>found. give (found = Some True))))"

subsection \<open>Posting\<close>

definition resolve_diff_line_set :: "'w publish_env \<Rightarrow> ('w, (string, side_lines) dict option) action" where
  "resolve_diff_line_set env =
     (case (pb_state_lines env, pb_config_lines env) of
        (Some ls, _) \<Rightarrow> give (Some ls)
      | (None, Some ls) \<Rightarrow> give (Some ls)
      | (None, None) \<Rightarrow>
          and_then (pg_diff (re_github (pb_run env))) (\<lambda>d. give (map_option compute_diff_line_set d)))"

definition payload_range :: "fields \<times> fields \<Rightarrow> int option \<times> int option" where
  "payload_range p =
     (case p of (f, payload) \<Rightarrow>
        (let start_line = as_int (field f ''start_line''); end_line = as_int (field f ''end_line'');
             line = as_int (field payload ''line'')
         in if end_line = None
            then (if start_line = None then line else start_line, line) else (start_line, end_line)))"

definition anchored_in :: "(string, side_lines) dict \<Rightarrow> fields \<times> fields \<Rightarrow> bool" where
  "anchored_in ls p =
     (case as_str (field (snd p) ''path'') of
        None \<Rightarrow> False
      | Some path \<Rightarrow>
          (case payload_range p of (start_line, end_line) \<Rightarrow>
             is_range_in_diff ls path start_line end_line
               (if field (fst p) ''side'' = JStr ''LEFT'' then LeftSide else RightSide)))"

definition filter_against_pr_diff ::
  "'w publish_env \<Rightarrow> (fields \<times> fields) list \<Rightarrow> ('w, (fields \<times> fields) list \<times> string list) action" where
  "filter_against_pr_diff env pairs =
     and_then (resolve_diff_line_set env)
       (\<lambda>lines. give (case lines of
          None \<Rightarrow> (pairs, [])
        | Some ls \<Rightarrow>
            (filter (anchored_in ls) pairs,
             List.map_filter (\<lambda>p. as_str (field (fst p) ''id'')) (filter (\<lambda>p. \<not> anchored_in ls p) pairs))))"

definition post_failed :: "string \<Rightarrow> fields" where
  "post_failed msg = refused (''Failed to POST PR review: '' @ msg)"

definition post_failed_on :: "string \<Rightarrow> string list \<Rightarrow> fields" where
  "post_failed_on msg dropped =
     post_failed msg @
     [(''unresolvable_findings'', JList (map JStr dropped)),
      (''hint'', JStr (''Call update_finding(status='resolved') on these ids '' @
         ''or fix their file/line before retrying.''))]"

definition error_text :: "string \<Rightarrow> fields \<Rightarrow> string" where
  "error_text fallback r = str_or fallback (field r ''_error'')"

datatype posting = Refusal fields | Posted fields "(fields \<times> fields) list" "string list"

definition post_pairs ::
  "'w publish_env \<Rightarrow> pull_target \<Rightarrow> string \<Rightarrow> string option \<Rightarrow> nat \<Rightarrow> (fields \<times> fields) list \<Rightarrow> ('w, fields) action" where
  "post_pairs env pt head_sha trace_url additional pairs =
     post_pull_request_review (pb_gh env) (pt_owner pt) (pt_repo pt) (pt_number pt) head_sha
       (render_review_body (pt_number pt) (length pairs) trace_url (pb_ui_url env) [] additional) (map snd pairs)"

definition post_review ::
  "'w publish_env \<Rightarrow> pull_target \<Rightarrow> string \<Rightarrow> string option \<Rightarrow> selection \<Rightarrow> ('w, posting) action" where
  "post_review env pt head_sha trace_url sel =
     and_then (post_pairs env pt head_sha trace_url (sl_additional sel) (sl_pairs sel))
       (\<lambda>r. if field r ''_error_kind'' = JStr ''unresolved_anchor''
          then and_then (filter_against_pr_diff env (sl_pairs sel))
            (\<lambda>(valid, dropped).
               if dropped \<noteq> [] \<and> valid \<noteq> []
               then and_then (post_pairs env pt head_sha trace_url (sl_additional sel) valid)
                 (\<lambda>again. give (if has_field again ''_error''
                    then Refusal (post_failed_on (error_text ''unknown error'' again) dropped)
                    else Posted again valid dropped))
               else give (Refusal (post_failed_on (error_text [] r) dropped)))
          else if has_field r ''_error'' then give (Refusal (post_failed (error_text [] r)))
          else give (Posted r (sl_pairs sel) []))"

subsection \<open>Recording where the findings went\<close>

definition set_surface :: "fields \<Rightarrow> fields \<Rightarrow> fields" where
  "set_surface surface f = dict_set ''surface'' (JDict surface) f"

definition pair_ids :: "(fields \<times> fields) list \<Rightarrow> string list" where
  "pair_ids pairs = List.map_filter (\<lambda>p. as_str (field (fst p) ''id'')) pairs"

definition apply_review_id :: "string list \<Rightarrow> json \<Rightarrow> fields \<Rightarrow> fields \<times> bool" where
  "apply_review_id fids review_id f =
     (case as_str (field f ''id'') of
        None \<Rightarrow> (f, False)
      | Some fid \<Rightarrow>
          (if fid \<in> set fids \<and> field f ''github_review_id'' \<noteq> review_id
           then let f1 = dict_set ''github_review_id'' review_id f
             in (set_surface (dict_set ''github_review_id'' review_id (coerce_surface f1 fid)) f1, True)
           else (f, False)))"

definition add_comment_id :: "int \<Rightarrow> fields \<Rightarrow> fields" where
  "add_comment_id n f =
     (let ids = int_list (field f ''github_review_comment_ids'')
      in if n \<in> set ids then f
         else dict_set ''github_review_comment_ids'' (JList (map JInt (ids @ [n]))) f)"

definition truthy_or :: "json \<Rightarrow> json \<Rightarrow> json" where
  "truthy_or v u = (if truthy v then v else u)"

definition apply_comment_id :: "(string, int) dict \<Rightarrow> string option \<Rightarrow> fields \<Rightarrow> fields \<times> bool" where
  "apply_comment_id ids run_id f =
     (case as_str (field f ''id'') of
        None \<Rightarrow> (f, False)
      | Some fid \<Rightarrow>
          (case map_of ids fid of
             None \<Rightarrow> (f, False)
           | Some n \<Rightarrow>
               (let f1 = add_comment_id n (dict_set ''github_review_comment_id'' (JInt n) f);
                    surface = merge_fields (coerce_surface f1 fid)
                      [(''state'', JStr ''surfaced''), (''github_review_comment_id'', JInt n),
                       (''severity_threshold_at_publish'', field f1 ''severity''),
                       (''surfaced_at_sha'', truthy_or (field f1 ''last_confirmed_sha'') (field f1 ''first_seen_sha''))];
                    f2 = set_surface surface f1
                in (case run_id of Some (c # cs) \<Rightarrow> dict_set ''github_review_run_id'' (JStr (c # cs)) f2 | _ \<Rightarrow> f2,
                    True))))"

definition mark_comment :: "(string \<Rightarrow> json option) \<Rightarrow> (string, int) dict \<Rightarrow> fields \<Rightarrow> (string, int) dict" where
  "mark_comment loads d c =
     (case (as_str (dict_get c ''body'' (JStr [])), as_int (field c ''id'')) of
        (Some body, Some n) \<Rightarrow>
          (case parse_review_comment_marker loads body of
             None \<Rightarrow> d | Some m \<Rightarrow> dict_set (str_or [] (field m ''id'')) n d)
      | _ \<Rightarrow> d)"

definition comment_id_by_finding_id ::
  "(string \<Rightarrow> json option) \<Rightarrow> (fields \<times> fields) list \<Rightarrow> fields list \<Rightarrow> (string, int) dict" where
  "comment_id_by_finding_id loads pairs comments =
     (let marked = foldl (mark_comment loads) [] comments
      in List.map_filter (\<lambda>fid. map_option (Pair fid) (map_of marked fid)) (pair_ids pairs))"

definition publication_change ::
  "(string \<Rightarrow> json option) \<Rightarrow> json \<Rightarrow> (fields \<times> fields) list \<Rightarrow> fields list \<Rightarrow> string option \<Rightarrow> fields \<Rightarrow> fields \<times> bool" where
  "publication_change loads review_id pairs comments run_id f =
     (let (f1, u1) = apply_review_id (pair_ids pairs) review_id f;
          (f2, u2) = apply_comment_id (comment_id_by_finding_id loads pairs comments) run_id f1
      in (f2, u1 \<or> u2))"

definition rewrite_findings :: "'w thread_client \<Rightarrow> string \<Rightarrow> (fields \<times> bool) list \<Rightarrow> ('w, unit) action" where
  "rewrite_findings client t changes =
     (if list_ex snd changes then replace_findings client t (map fst changes) else give ())"

definition record_review_publication ::
  "'w publish_env \<Rightarrow> string \<Rightarrow> json \<Rightarrow> (fields \<times> fields) list \<Rightarrow> fields list \<Rightarrow> string option \<Rightarrow> ('w, unit) action" where
  "record_review_publication env t review_id pairs comments run_id =
     and_then (list_findings (pb_client env) t)
       (\<lambda>latest. rewrite_findings (pb_client env) t
          (map (publication_change (re_loads (pb_run env)) review_id pairs comments run_id) latest))"

definition missing_comment_ids :: "fields list \<Rightarrow> (fields \<times> fields) list \<Rightarrow> bool" where
  "missing_comment_ids findings pairs =
     list_ex (\<lambda>f. (case as_str (field f ''id'') of None \<Rightarrow> False | Some fid \<Rightarrow> fid \<in> set (pair_ids pairs)) \<and>
       as_int (field f ''github_review_comment_id'') = None) findings"

subsubsection \<open>The threads of the comments\<close>

definition thread_by_comment :: "fields list \<Rightarrow> (int, string) dict" where
  "thread_by_comment threads =
     foldl (\<lambda>d thread. case nonempty_str (field thread ''id'') of
          None \<Rightarrow> d
        | Some k \<Rightarrow> foldl (\<lambda>d c. case as_int (field c ''id'') of None \<Rightarrow> d | Some n \<Rightarrow> dict_set n k d) d
            (comments_of thread))
       [] threads"

definition attach_thread :: "string \<Rightarrow> string \<Rightarrow> fields \<times> string list \<Rightarrow> fields \<times> string list" where
  "attach_thread fid k s =
     (case s of (f, ids) \<Rightarrow>
        (let f1 = (if as_str (field f ''github_review_thread_id'') = None
                   then dict_set ''github_review_thread_id'' (JStr k) f else f);
             ids' = (if k \<in> set ids then ids else ids @ [k]);
             f2 = (if k \<in> set ids then f1 else dict_set ''github_review_thread_ids'' (JList (map JStr ids')) f1)
         in (set_surface (merge_fields (coerce_surface f2 fid)
               [(''state'', JStr ''surfaced''), (''github_review_thread_id'', JStr k)]) f2, ids')))"

definition needs_thread_ids :: "fields \<Rightarrow> bool" where
  "needs_thread_ids f =
     (as_str (field f ''id'') \<noteq> None \<and> comment_ids_for_finding f \<noteq> [] \<and> thread_ids_for_finding f = [])"

definition thread_change :: "(int, string) dict \<Rightarrow> fields \<Rightarrow> fields \<times> bool" where
  "thread_change known f =
     (case as_str (field f ''id'') of
        None \<Rightarrow> (f, False)
      | Some fid \<Rightarrow>
          (let ks = (if needs_thread_ids f then List.map_filter (map_of known) (comment_ids_for_finding f) else [])
           in (fst (foldl (\<lambda>s k. attach_thread fid k s) (f, thread_ids_for_finding f) ks), ks \<noteq> [])))"

definition store_thread_ids :: "'w publish_env \<Rightarrow> string \<Rightarrow> ('w, unit) action" where
  "store_thread_ids env t =
     and_then (list_findings (pb_client env) t)
       (\<lambda>findings. if \<not> list_ex needs_thread_ids findings then give ()
          else and_then (pg_threads (re_github (pb_run env)))
            (\<lambda>threads. rewrite_findings (pb_client env) t (map (thread_change (thread_by_comment threads)) findings)))"

subsubsection \<open>Findings that were closed\<close>

fun settle_threads ::
  "'w pr_github \<Rightarrow> string option \<Rightarrow> string list \<Rightarrow> int list \<Rightarrow> closing \<Rightarrow> ('w, closing) action" where
  "settle_threads gh body [] cs s = give s"
| "settle_threads gh body (k # ks) cs s =
     (if k \<in> set (cl_resolved s) then settle_threads gh body ks (tl cs) s
      else and_then
        (case body of
           None \<Rightarrow> give s
         | Some b \<Rightarrow> post_resolution gh b (case cs of [] \<Rightarrow> None | c # ds \<Rightarrow> Some c) s)
        (\<lambda>s1. and_then (pg_resolve gh k)
          (\<lambda>ok1. settle_threads gh body ks (tl cs)
             (if ok1 then s1\<lparr>cl_resolved := cl_resolved s1 @ [k], cl_count := cl_count s1 + 1\<rparr> else s1))))"

definition settled_finding :: "string list \<Rightarrow> closing \<Rightarrow> fields \<Rightarrow> fields" where
  "settled_finding ks s f =
     (let f1 = (if cl_resolved s = [] then f
                else dict_set ''github_resolved_thread_ids'' (JList (map JStr (cl_resolved s))) f);
          f2 = (if cl_posted s = [] then f1
                else dict_set ''github_posted_resolution_comment_ids'' (JList (map JInt (cl_posted s))) f1);
          f3 = dict_set ''github_review_thread_ids'' (JList (map JStr ks)) f2;
          f4 = (if as_str (field f3 ''github_review_thread_id'') = None
                then dict_set ''github_review_thread_id'' (JStr (hd ks)) f3 else f3)
      in if \<not> list_all (\<lambda>k. k \<in> set (cl_resolved s)) ks then f4
         else (let f5 = dict_set ''github_thread_resolved'' (JBool True) f4
           in case as_str (field f5 ''id'') of
                None \<Rightarrow> f5
              | Some fid \<Rightarrow>
                  set_surface (merge_fields (coerce_surface f5 fid)
                    [(''state'', JStr ''resolved''), (''github_review_thread_id'', JStr (hd ks))]) f5))"

definition opening_of :: "fields \<Rightarrow> closing" where
  "opening_of f =
     \<lparr>cl_resolved = str_list (field f ''github_resolved_thread_ids''),
      cl_posted = int_list (field f ''github_posted_resolution_comment_ids''), cl_count = 0\<rparr>"

text \<open>The changed finding, how many threads were resolved, and whether anything changed on GitHub.\<close>

definition settle_finding :: "'w publish_env \<Rightarrow> fields \<Rightarrow> ('w, fields \<times> nat \<times> bool) action" where
  "settle_finding env f =
     (if field f ''status'' \<notin> {JStr ''resolved'', JStr ''dismissed''} then give (f, 0, False)
      else and_then
        (add_comment_threads (re_github (pb_run env)) (comment_ids_for_finding f) (thread_ids_for_finding f))
        (\<lambda>ks. if ks = [] then give (f, 0, False)
           else and_then
             (settle_threads (re_github (pb_run env)) (resolution_body f []) ks (comment_ids_for_finding f) (opening_of f))
             (\<lambda>s. give (settled_finding ks s f, cl_count s,
                cl_count s \<noteq> 0 \<or> cl_posted s \<noteq> cl_posted (opening_of f)))))"

fun settle_findings :: "'w publish_env \<Rightarrow> fields list \<Rightarrow> ('w, (fields \<times> nat \<times> bool) list) action" where
  "settle_findings env [] = give []"
| "settle_findings env (f # fs) =
     and_then (settle_finding env f) (\<lambda>r. and_then (settle_findings env fs) (\<lambda>rs. give (r # rs)))"

definition resolve_closed_threads :: "'w publish_env \<Rightarrow> fields list \<Rightarrow> ('w, nat) action" where
  "resolve_closed_threads env findings =
     and_then (settle_findings env findings)
       (\<lambda>rs. and_then
          (if list_ex (\<lambda>r. snd (snd r)) rs
           then (case runtime_thread_id (re_configurable (pb_run env)) of
               Inl e \<Rightarrow> fail e
             | Inr t \<Rightarrow> replace_findings (pb_client env) t (map fst rs))
           else give ())
          (\<lambda>u. give (sum_list (map (\<lambda>r. fst (snd r)) rs))))"

subsection \<open>The run of the tool\<close>

definition slack_headline :: "nat \<Rightarrow> string" where
  "slack_headline n =
     (if n = 0 then ''*Open SWE Review*: No issues found.''
      else ''*Open SWE Review* found '' @ show_int (int n) @ '' potential '' @ issue_word n @ ''.'')"

definition review_link :: "pull_target \<Rightarrow> json \<Rightarrow> string" where
  "review_link pt review_id =
     ''https://github.com/'' @ pt_owner pt @ ''/'' @ pt_repo pt @ ''/pull/'' @ show_int (pt_number pt) @
     (case as_int review_id of None \<Rightarrow> [] | Some n \<Rightarrow> ''#pullrequestreview-'' @ show_int n)"

definition post_slack_completion :: "'w publish_env \<Rightarrow> string \<Rightarrow> pull_target \<Rightarrow> json \<Rightarrow> nat \<Rightarrow> ('w, unit) action" where
  "post_slack_completion env t pt review_id n =
     and_then (get_thread_metadata (pb_client env) t)
       (\<lambda>metadata. case get_thread_slack_ref metadata of
          None \<Rightarrow> give ()
        | Some d \<Rightarrow>
            pb_slack env (str_or [] (field d ''channel_id'')) (str_or [] (field d ''thread_ts''))
              (slack_headline n @ '' <'' @ review_link pt review_id @ ''|View review>'') t)"

definition record_usage :: "'w publish_env \<Rightarrow> string \<Rightarrow> string \<Rightarrow> ('w, unit) action" where
  "record_usage env t head_sha =
     and_then (list_findings (pb_client env) t) (\<lambda>fs w. (Inr (), pb_usage env head_sha fs w))"

text \<open>The books of a review that is over: the reviewed commit, usage, the status comment and the check.\<close>

definition close_books :: "'w publish_env \<Rightarrow> string \<Rightarrow> pull_target \<Rightarrow> string \<Rightarrow> nat \<Rightarrow> fields \<Rightarrow> ('w, fields) action" where
  "close_books env t pt head_sha n reply =
     and_then (set_reviewer_thread_metadata (pb_client env) t (reviewed_fields head_sha []))
       (\<lambda>u. and_then (record_usage env t head_sha)
         (\<lambda>u. and_then (clear_review_started_comment (pb_client env) (pb_gh env) t (pt_owner pt) (pt_repo pt))
           (\<lambda>u. and_then
              (settle_review_check_run (pb_client env) (pb_gh env) (pb_now env) t (pt_owner pt) (pt_repo pt)
                 (review_check_conclusion n))
              (\<lambda>u. give reply))))"

definition published :: "json \<Rightarrow> nat \<Rightarrow> nat \<Rightarrow> nat \<Rightarrow> fields" where
  "published review_id shown hidden n =
     [(''success'', JBool True), (''review_id'', review_id), (''surfaced_count'', JInt (int shown)),
      (''hidden_count'', JInt (int hidden)), (''resolved_thread_count'', JInt (int n))]"

definition skip_review :: "'w publish_env \<Rightarrow> string \<Rightarrow> pull_target \<Rightarrow> string \<Rightarrow> selection \<Rightarrow> fields list \<Rightarrow> ('w, fields) action" where
  "skip_review env t pt head_sha sel findings =
     and_then (resolve_closed_threads env findings)
       (\<lambda>n. close_books env t pt head_sha 0
          (published JNull 0 (sl_open sel) n @ [(''skipped_empty_re_review'', JBool True)]))"

definition current_reviewer_run :: "'w publish_env \<Rightarrow> string \<Rightarrow> string option \<Rightarrow> ('w, string option) action" where
  "current_reviewer_run env t run_id =
     (case run_id of
        Some r \<Rightarrow> give (Some r)
      | None \<Rightarrow>
          and_then (get_thread_metadata (pb_client env) t)
            (\<lambda>metadata. give (nonempty_str (field metadata ''current_reviewer_run_id''))))"

definition record_posted ::
  "'w publish_env \<Rightarrow> string \<Rightarrow> string option \<Rightarrow> json \<Rightarrow> (fields \<times> fields) list \<Rightarrow> ('w, unit) action" where
  "record_posted env t run_id review_id pairs =
     (if review_id = JNull \<or> pairs = [] then give ()
      else and_then (pb_comments env review_id)
        (\<lambda>comments. and_then (current_reviewer_run env t run_id)
          (\<lambda>run. and_then (record_review_publication env t review_id pairs comments run)
            (\<lambda>u. and_then (list_findings (pb_client env) t)
              (\<lambda>current. and_then
                 (if missing_comment_ids current pairs then backfill_findings env t else give [])
                 (\<lambda>u. store_thread_ids env t))))))"

definition finish_review ::
  "'w publish_env \<Rightarrow> string \<Rightarrow> pull_target \<Rightarrow> string \<Rightarrow> bool \<Rightarrow> string option \<Rightarrow> selection \<Rightarrow> fields \<Rightarrow>
   (fields \<times> fields) list \<Rightarrow> string list \<Rightarrow> ('w, fields) action" where
  "finish_review env t pt head_sha re_review run_id sel r pairs dropped =
     (let review_id = field r ''id''
      in and_then (record_posted env t run_id review_id pairs)
        (\<lambda>u. and_then (list_findings (pb_client env) t)
          (\<lambda>findings. and_then (resolve_closed_threads env findings)
            (\<lambda>n. and_then
               (if re_review then give () else post_slack_completion env t pt review_id (length pairs))
               (\<lambda>u. close_books env t pt head_sha (length pairs)
                  (published review_id (length pairs) (sl_open sel - length pairs) n @
                   (if dropped = [] then []
                    else [(''unresolvable_findings'', JList (map JStr dropped)),
                      (''hint'', JStr (''Some findings had anchors not in the PR diff; '' @
                         ''call update_finding to fix or resolve them.''))])))))))"

definition publish_review_async ::
  "'w publish_env \<Rightarrow> pull_target \<Rightarrow> string \<Rightarrow> string \<Rightarrow> nat \<Rightarrow> bool \<Rightarrow> string option \<Rightarrow> json \<Rightarrow> ('w, fields) action" where
  "publish_review_async env pt config_head threshold cap re_review run_id trace_override =
     (case runtime_thread_id (re_configurable (pb_run env)) of
        Inl e \<Rightarrow> fail e
      | Inr t \<Rightarrow>
          and_then (resolve_review_head_sha (pb_client env) t (JDict [(''head_sha'', JStr config_head)]))
            (\<lambda>head_sha. and_then (resolve_trace_url env t trace_override)
              (\<lambda>trace_url. and_then (backfill_findings env t)
                (\<lambda>findings.
                   case select_findings (pb_dumps env) re_review head_sha threshold cap findings of
                     Inl e \<Rightarrow> fail e
                   | Inr sel \<Rightarrow>
                       and_then (if sl_pairs sel = [] then already_reviewed env t re_review else give False)
                         (\<lambda>skip. if skip then skip_review env t pt head_sha sel findings
                            else and_then (post_review env pt head_sha trace_url sel)
                              (\<lambda>posted. case posted of
                                 Refusal reply \<Rightarrow> give reply
                               | Posted r pairs dropped \<Rightarrow>
                                   finish_review env t pt head_sha re_review run_id sel r pairs dropped))))))"

subsection \<open>The tool\<close>

definition is_reviewer_eval_mode :: "json \<Rightarrow> bool" where
  "is_reviewer_eval_mode configurable =
     (jget configurable ''reviewer_eval'' = JBool True \<or> jget configurable ''eval'' = JBool True)"

definition has_publication_identity :: "fields \<Rightarrow> bool" where
  "has_publication_identity f =
     (as_int (field f ''github_review_comment_id'') \<noteq> None \<or> as_int (field f ''github_review_id'') \<noteq> None)"

definition eval_publication :: "(fields \<times> fields) list \<Rightarrow> string \<Rightarrow> nat \<Rightarrow> json" where
  "eval_publication pairs threshold cap =
     JDict [(''finding_ids'', JList (map JStr (pair_ids pairs))), (''severity_threshold'', JStr threshold),
       (''cap'', JInt (int cap))]"

definition eval_dry_run :: "'w publish_env \<Rightarrow> string \<Rightarrow> string \<Rightarrow> nat \<Rightarrow> ('w, fields) action" where
  "eval_dry_run env head_sha threshold cap =
     (case runtime_thread_id (re_configurable (pb_run env)) of
        Inl e \<Rightarrow> fail e
      | Inr t \<Rightarrow>
          and_then (list_findings (pb_client env) t)
            (\<lambda>findings.
               let unpublished = filter (\<lambda>f. \<not> has_publication_identity f) findings
               in case filter_findings_for_publish (filter on_diff unpublished) threshold cap of
                    Inl e \<Rightarrow> fail e
                  | Inr eligible \<Rightarrow>
                      (let pairs = with_payload (pb_dumps env) eligible
                       in and_then
                         (set_reviewer_thread_metadata (pb_client env) t
                            (reviewed_fields head_sha
                               [(''reviewer_eval_publication'', eval_publication pairs threshold cap)]))
                         (\<lambda>u. give [(''success'', JBool True), (''dry_run'', JBool True), (''review_id'', JNull),
                            (''surfaced_count'', JInt (int (length pairs))),
                            (''hidden_count'', JInt (int (length (filter is_open unpublished) - length pairs))),
                            (''resolved_thread_count'', JInt 0)]))))"

definition eval_threshold :: "json \<Rightarrow> string \<Rightarrow> string" where
  "eval_threshold configurable threshold =
     (case as_str (jget configurable ''reviewer_eval_severity_threshold'') of
        None \<Rightarrow> threshold | Some s \<Rightarrow> (if s \<in> set severities then s else threshold))"

definition eval_cap :: "json \<Rightarrow> nat" where
  "eval_cap configurable =
     (case jget configurable ''reviewer_eval_cap'' of
        JInt n \<Rightarrow> (if n < 0 then review_finding_cap else nat n)
      | v \<Rightarrow> review_finding_cap)"

definition current_run_id :: "json \<Rightarrow> json \<Rightarrow> string option" where
  "current_run_id config configurable =
     (case nonempty_str (jget config ''run_id'') of
        Some r \<Rightarrow> Some r | None \<Rightarrow> nonempty_str (jget configurable ''run_id''))"

definition auth_refusal :: "exn \<Rightarrow> fields" where
  "auth_refusal e =
     refused (''GitHub returned 401 - the cached OAuth token is invalid or revoked. '' @
       ''Please re-authenticate and trigger the review again.'') @ [(''auth_error'', JStr (exn_str e))]"

definition forget_token :: "'w publish_env \<Rightarrow> exn \<Rightarrow> ('w, fields) action" where
  "forget_token env e =
     (case runtime_thread_id (re_configurable (pb_run env)) of
        Inl e' \<Rightarrow> fail e'
      | Inr t \<Rightarrow> and_then (pb_invalidate env t) (\<lambda>u. give (auth_refusal e)))"

definition publish_review :: "'w publish_env \<Rightarrow> json \<Rightarrow> string \<Rightarrow> ('w, fields) action" where
  "publish_review env config threshold =
     (let configurable = re_configurable (pb_run env); repo = jget configurable ''repo'';
          t = str_or [] (jget configurable ''thread_id'')
      in if threshold \<notin> set severities then give (refused (''Invalid severity_threshold: '' @ threshold))
         else if \<not> truthy (jget repo ''owner'') \<or> \<not> truthy (jget repo ''name'')
         then give (refused ''Missing repo info in run config'')
         else (case (as_int (jget configurable ''pr_number''), nonempty_str (jget configurable ''head_sha'')) of
            (None, _) \<Rightarrow> give (refused ''Missing pr_number in run config'')
          | (Some n, None) \<Rightarrow> give (refused ''Missing head_sha in run config'')
          | (Some n, Some head_sha) \<Rightarrow>
              if is_reviewer_eval_mode configurable
              then storage_guard t
                (eval_dry_run env head_sha (eval_threshold configurable threshold) (eval_cap configurable))
              else if re_token (pb_run env) = None \<or> re_token (pb_run env) = Some []
              then give (refused ''No GitHub token available'')
              else catch_class ''GitHubAuthError''
                (storage_guard t
                  (publish_review_async env
                     \<lparr>pt_owner = str_or [] (jget repo ''owner''), pt_repo = str_or [] (jget repo ''name''),
                      pt_number = n\<rparr>
                     head_sha threshold review_finding_cap (truthy (jget configurable ''re_review''))
                     (current_run_id config configurable) (jget configurable ''review_trace_link_enabled'')))
                (forget_token env)))"

end
