(* ===== verification/Publish_Safety.thy ===== *)
theory Publish_Safety
  imports Publish_Review
begin

section \<open>What publishing a review guarantees\<close>

text \<open>
  Three guarantees of the publishing tool: what is chosen is new on GitHub and eligible, what was posted and
  recorded is never posted again, and the reviewed commit of a thread moves exactly with a publication
  that succeeded. The last is shown in the style of a Hoare logic: \<open>keeps R m\<close> says that an action leaves
  the reading \<open>R\<close> of the world alone, \<open>advances R h m\<close> that it moves it to \<open>h\<close> exactly when it answers
  with success, and both are closed under sequencing.
\<close>

subsection \<open>What is chosen\<close>

lemma with_payload_mem:
  "p \<in> set (with_payload dumps fs) \<longleftrightarrow> fst p \<in> set fs \<and> render_inline_comment_payload dumps (fst p) = Some (snd p)"
  by (cases p) (force simp: with_payload_def map_filter_def)

lemma eligible_facts:
  assumes "filter_findings_for_publish fs threshold cap = Inr out"
  obtains bar where "map_of severity_order threshold = Some bar" "length out \<le> cap"
    "set out \<subseteq> {f \<in> set fs. is_eligible bar f}"
proof -
  from assms obtain bar where b: "map_of severity_order threshold = Some bar"
    "out = take cap (sort_key publish_key (filter (is_eligible bar) fs))"
    by (auto simp: filter_findings_for_publish_def split: option.splits)
  then show ?thesis using that [of bar] set_take_subset [of cap "sort_key publish_key (filter (is_eligible bar) fs)"]
    by auto
qed

lemma length_with_payload: "length (with_payload dumps fs) \<le> length fs"
  by (simp add: with_payload_def map_filter_def)

lemma payload_facts:
  assumes "render_inline_comment_payload dumps f = Some p"
  shows "truthy (field f ''file'')" "field f ''end_line'' \<noteq> JNull" "field p ''path'' = field f ''file''"
    "field p ''line'' = field f ''end_line''" "field p ''body'' = JStr (render_inline_comment_body dumps f)"
  using assms by (auto simp: render_inline_comment_payload_def field_def dict_get_def Let_def split: if_splits)

text \<open>
  Only new and eligible findings are chosen. At most as many findings as the cap are chosen for a review.
  Each is a stored finding without a comment on GitHub, open, on the diff, at or above the threshold, with
  a file and a line, and, in a re-review, first seen at the reviewed commit; its comment is anchored at
  its own file and last line.
\<close>

theorem only_new_findings_are_chosen:
  assumes "select_findings dumps re_review head_sha threshold cap findings = Inr sel"
  shows "length (sl_pairs sel) \<le> cap \<and>
    list_all (\<lambda>(f, p). f \<in> set findings \<and> as_int (field f ''github_review_comment_id'') = None \<and> is_open f \<and>
      on_diff f \<and> dict_get severity_order threshold 0 \<le> finding_rank f \<and> truthy (field f ''file'') \<and>
      (re_review \<longrightarrow> field f ''first_seen_sha'' = JStr head_sha) \<and>
      field p ''path'' = field f ''file'' \<and> field p ''line'' = field f ''end_line'' \<and> field p ''line'' \<noteq> JNull)
      (sl_pairs sel)"
proof -
  let ?here = "filter on_diff (filter (still_new re_review head_sha) findings)"
  from assms obtain out where o: "filter_findings_for_publish ?here threshold cap = Inr out"
    "sl_pairs sel = with_payload dumps out" by (auto simp: select_findings_def Let_def split: sum.splits)
  obtain bar where b: "map_of severity_order threshold = Some bar" "length out \<le> cap"
    "set out \<subseteq> {f \<in> set ?here. is_eligible bar f}" by (rule eligible_facts [OF o(1)])
  have "dict_get severity_order threshold 0 = bar" using b(1) by (simp add: dict_get_def)
  then show ?thesis using o(2) b(2,3) length_with_payload [of dumps out]
    by (auto simp: list_all_iff with_payload_mem still_new_def is_eligible_def is_open_def
        payload_facts(2,4) dest: payload_facts(1,3))
qed

definition chosen_finding :: fields where
  "chosen_finding =
     [(''id'', JStr ''f1''), (''severity'', JStr ''high''), (''file'', JStr ''a.py''), (''end_line'', JInt 3)]"

definition braces :: "json \<Rightarrow> string" where
  "braces v = ''{}''"

lemma chosen_finding_selected:
  obtains sel p where "select_findings braces False ''c0ffee0'' ''medium'' 6 [chosen_finding] = Inr sel"
    "sl_pairs sel = [(chosen_finding, p)]" "render_inline_comment_payload braces chosen_finding = Some p"
proof -
  have r: "finding_rank chosen_finding = 2"
    by (simp add: chosen_finding_def finding_rank_def severity_order_def dict_get_def)
  have e: "filter_findings_for_publish [chosen_finding] ''medium'' 6 = Inr [chosen_finding]"
    by (simp add: filter_findings_for_publish_def severity_order_def is_eligible_def r)
      (simp add: chosen_finding_def dict_get_def)
  have n: "filter on_diff (filter (still_new False ''c0ffee0'') [chosen_finding]) = [chosen_finding]"
    by (simp add: chosen_finding_def on_diff_def still_new_def field_def dict_get_def)
  have "\<exists>p. render_inline_comment_payload braces chosen_finding = Some p"
    by (simp add: chosen_finding_def render_inline_comment_payload_def field_def dict_get_def Let_def)
  then obtain p where p: "render_inline_comment_payload braces chosen_finding = Some p" ..
  then have "with_payload braces [chosen_finding] = [(chosen_finding, p)]"
    by (simp add: with_payload_def map_filter_def)
  with e n p that show ?thesis by (simp add: select_findings_def Let_def)
qed

theorem only_new_findings_are_chosen_witness:
  "\<exists>sel. select_findings braces False ''c0ffee0'' ''medium'' 6 [chosen_finding] = Inr sel \<and> length (sl_pairs sel) = 1"
proof -
  obtain sel p where s: "select_findings braces False ''c0ffee0'' ''medium'' 6 [chosen_finding] = Inr sel"
    "sl_pairs sel = [(chosen_finding, p)]" by (rule chosen_finding_selected)
  with only_new_findings_are_chosen [OF s(1)] show ?thesis by auto
qed

subsection \<open>What was posted is not posted again\<close>

lemma coerce_surface_id: "field (set_surface s f) k = (if k = ''surface'' then JDict s else field f k)"
  by (simp add: set_surface_def)

lemma apply_review_id_fields:
  "k \<notin> {''github_review_id'', ''surface''} \<Longrightarrow> field (fst (apply_review_id fids rid f)) k = field f k"
  by (auto simp: apply_review_id_def Let_def coerce_surface_id split: option.splits)

lemma apply_comment_id_fields:
  "k \<notin> {''github_review_comment_id'', ''github_review_comment_ids'', ''surface'', ''github_review_run_id''} \<Longrightarrow>
     field (fst (apply_comment_id ids run f)) k = field f k"
  by (auto simp: apply_comment_id_def Let_def coerce_surface_id add_comment_id_def split: option.splits list.splits)

lemma apply_comment_id_recorded:
  assumes "field f ''id'' = JStr fid" "map_of ids fid = Some n"
  shows "field (fst (apply_comment_id ids run f)) ''github_review_comment_id'' = JInt n"
  using assms
  by (auto simp: apply_comment_id_def Let_def coerce_surface_id add_comment_id_def split: option.splits list.splits)

definition publication_keys :: "string list" where
  "publication_keys =
     [''github_review_id'', ''github_review_comment_id'', ''github_review_comment_ids'', ''surface'',
      ''github_review_run_id'']"

lemma publication_change_fields:
  "k \<notin> set publication_keys \<Longrightarrow> field (fst (publication_change loads rid pairs cs run f)) k = field f k"
  by (simp add: publication_change_def case_prod_beta publication_keys_def apply_comment_id_fields apply_review_id_fields)

lemma publication_change_same:
  "\<not> snd (publication_change loads rid pairs cs run f) \<Longrightarrow> fst (publication_change loads rid pairs cs run f) = f"
  by (auto simp: publication_change_def case_prod_beta apply_review_id_def apply_comment_id_def Let_def
      split: option.splits if_splits)

lemma publication_change_recorded:
  assumes "field f ''id'' = JStr fid" "map_of (comment_id_by_finding_id loads pairs cs) fid = Some n"
  shows "field (fst (publication_change loads rid pairs cs run f)) ''github_review_comment_id'' = JInt n"
proof -
  let ?f1 = "fst (apply_review_id (pair_ids pairs) rid f)"
  have "field ?f1 ''id'' = JStr fid" using assms(1) by (simp add: apply_review_id_fields)
  from apply_comment_id_recorded [OF this assms(2)] show ?thesis
    by (simp add: publication_change_def case_prod_beta)
qed

lemma map_of_filtered_None:
  "map_of d fid = None \<Longrightarrow> map_of (List.map_filter (\<lambda>i. map_option (Pair i) (map_of d i)) fids) fid = None"
  by (induction fids) (auto simp: map_filter_simps split: option.splits)

lemma map_of_filtered:
  "fid \<in> set fids \<Longrightarrow> map_of (List.map_filter (\<lambda>i. map_option (Pair i) (map_of d i)) fids) fid = map_of d fid"
proof (induction fids)
  case (Cons i fids)
  then show ?case
    by (cases "map_of d i"; cases "fid \<in> set fids") (auto simp: map_filter_simps map_of_filtered_None)
qed simp

lemma as_str_Some: "as_str v = Some s \<longleftrightarrow> v = JStr s"
  by (cases v) simp_all

lemma pair_ids_mem: "fid \<in> set (pair_ids ps) \<longleftrightarrow> (\<exists>p \<in> set ps. field (fst p) ''id'' = JStr fid)"
  by (induction ps) (auto simp: pair_ids_def map_filter_simps as_str_Some split: option.splits)

lemma mark_comment_keeps:
  "map_of d fid \<noteq> None \<Longrightarrow> map_of (mark_comment loads d c) fid \<noteq> None"
  by (auto simp: mark_comment_def dict_set_lookup split: option.splits)

lemma marks_keep:
  "map_of d fid \<noteq> None \<Longrightarrow> map_of (foldl (mark_comment loads) d cs) fid \<noteq> None"
proof (induction cs arbitrary: d)
  case (Cons c cs)
  from Cons.IH [OF mark_comment_keeps [OF Cons.prems]] show ?case by simp
qed simp

lemma marked_comment:
  assumes "c \<in> set cs" "field c ''body'' = JStr body" "as_int (field c ''id'') = Some n"
    and "map_option (\<lambda>m. field m ''id'') (parse_review_comment_marker loads body) = Some (JStr fid)"
  shows "map_of (foldl (mark_comment loads) d cs) fid \<noteq> None"
  using assms(1)
proof (induction cs arbitrary: d)
  case (Cons x xs)
  show ?case
  proof (cases "c \<in> set xs")
    case False
    with Cons.prems have x: "x = c" by simp
    have "dict_get c ''body'' (JStr []) = JStr body"
      using assms(2) by (auto simp: field_def dict_get_def split: option.splits)
    then have "map_of (mark_comment loads d c) fid \<noteq> None"
      using assms(3,4) by (auto simp: mark_comment_def dict_set_lookup str_or_def)
    from marks_keep [OF this] show ?thesis using x by simp
  next
    case True
    with Cons.IH show ?thesis by simp
  qed
qed simp

lemma rewrite_stores:
  assumes "faithful_client client t stored" "distinct (map id_of (stored w))"
    and "\<And>f. field (fst (change f)) ''id'' = field f ''id''" "\<And>f. \<not> snd (change f) \<Longrightarrow> fst (change f) = f"
  obtains w' where "rewrite_findings client t (map change (stored w)) w = (Inr (), w')"
    "stored w' = map (\<lambda>f. fst (change f)) (stored w)"
proof (cases "list_ex snd (map change (stored w))")
  case True
  let ?gs = "map (\<lambda>f. fst (change f)) (stored w)"
  have ids: "map id_of ?gs = map id_of (stored w)" by (simp add: id_of_def assms(3))
  obtain metadata where m: "get_thread_metadata_strict client t w = (Inr metadata, w)"
    "coerce_findings_list (field metadata ''findings'') = stored w" by (rule read_stored [OF assms(1)])
  have have_ids: "all_have_ids ?gs"
    using stored_have_ids [OF assms(1), of w] assms(3)
    by (auto simp: all_have_ids_def list_all_iff coerce_finding_def split: option.splits)
  obtain v where v: "write_findings client t ?gs w = (Inr (), v)" "stored v = ?gs"
    by (rule write_stored [OF assms(1) have_ids])
  have "replace_findings client t ?gs w = (Inr (), v)"
    using m v(1) merge_own_snapshot [OF ids assms(2)] by (simp add: replace_findings_def and_then_def)
  with True v(2) show ?thesis by (intro that [of v]) (simp_all add: rewrite_findings_def comp_def)
next
  case False
  then have "map (\<lambda>f. fst (change f)) (stored w) = stored w"
    using assms(4) by (intro map_idI) (auto simp: list_ex_iff)
  with False show ?thesis by (intro that [of w]) (simp_all add: rewrite_findings_def give_def)
qed

lemma record_stores:
  fixes env :: "'w publish_env"
  assumes "faithful_client (pb_client env) t stored" "distinct (map id_of (stored w))"
  obtains w' where "record_review_publication env t review_id pairs comments run_id w = (Inr (), w')"
    "stored w' = map (\<lambda>f. fst (publication_change (re_loads (pb_run env)) review_id pairs comments run_id f)) (stored w)"
proof -
  let ?change = "publication_change (re_loads (pb_run env)) review_id pairs comments run_id"
  have keeps: "field (fst (?change f)) ''id'' = field f ''id''" for f
    by (simp add: publication_change_fields publication_keys_def)
  obtain w' where r: "rewrite_findings (pb_client env) t (map ?change (stored w)) w = (Inr (), w')"
    "stored w' = map (\<lambda>f. fst (?change f)) (stored w)"
    by (rule rewrite_stores [where change = ?change, OF assms keeps publication_change_same])
  with list_stored [OF assms(1), of w] that [of w'] show ?thesis by (simp add: record_review_publication_def)
qed

text \<open>The findings whose marker the JSON library reads back from what it wrote.\<close>

definition marked_well :: "(string \<Rightarrow> json option) \<Rightarrow> (json \<Rightarrow> string) \<Rightarrow> fields \<Rightarrow> bool" where
  "marked_well loads dumps f \<longleftrightarrow>
     loads (dumps (marker_payload f)) = Some (marker_payload f) \<and>
     (\<exists>u. dumps (marker_payload f) = CHR ''{'' # u @ ''}'' \<and> \<not> contains ''-->'' u) \<and>
     (\<exists>a fid. field f ''id'' = JStr (a # fid)) \<and> (\<exists>b path. field f ''file'' = JStr (b # path)) \<and>
     side_field f \<in> {JStr ''LEFT'', JStr ''RIGHT''}"

lemma marked_well_names:
  assumes "marked_well loads dumps f"
  obtains fid where "field f ''id'' = JStr fid"
    "map_option (\<lambda>m. field m ''id'') (parse_review_comment_marker loads (render_inline_comment_body dumps f)) =
       Some (JStr fid)"
proof -
  from assms obtain u a fid b path where "dumps (marker_payload f) = CHR ''{'' # u @ ''}''" "\<not> contains ''-->'' u"
    "field f ''id'' = JStr (a # fid)" "field f ''file'' = JStr (b # path)"
    "loads (dumps (marker_payload f)) = Some (marker_payload f)" "side_field f \<in> {JStr ''LEFT'', JStr ''RIGHT''}"
    unfolding marked_well_def by blast
  with rendered_comment_names_finding [of loads dumps f u a fid b path] that show ?thesis by auto
qed


definition remembering_env :: "fields list publish_env \<Rightarrow> fields list publish_env" where
  "remembering_env env =
     env\<lparr>pb_dumps := braces,
       pb_run := (pb_run env)\<lparr>re_client := memory_client, re_loads := \<lambda>t. Some (marker_payload chosen_finding)\<rparr>\<rparr>"


subsection \<open>The reviewed commit moves with a publication\<close>

definition keeps :: "('w \<Rightarrow> 'r) \<Rightarrow> ('w, 'a) action \<Rightarrow> bool" where
  "keeps R m \<longleftrightarrow> (\<forall>w. R (snd (m w)) = R w)"

definition moves :: "('w \<Rightarrow> 'r) \<Rightarrow> 'r \<Rightarrow> ('w, fields) action \<Rightarrow> bool" where
  "moves R r m \<longleftrightarrow> (\<forall>w reply w'. m w = (Inr reply, w') \<longrightarrow>
     R w' = (if field reply ''success'' = JBool True then r else R w))"

named_theorems frame

lemma keeps_then [frame]: "keeps R m \<Longrightarrow> (\<And>x. keeps R (k x)) \<Longrightarrow> keeps R (and_then m k)"
  by (auto simp: keeps_def and_then_def split: prod.splits sum.splits) (metis snd_conv)+

lemma keeps_give [frame]: "keeps R (give x)" and keeps_fail [frame]: "keeps R (fail e)"
  by (simp_all add: keeps_def give_def fail_def)

lemma keeps_catch [frame]:
  "keeps R m \<Longrightarrow> (\<And>e. keeps R (h e)) \<Longrightarrow> keeps R (catch_all m h)"
  "keeps R m \<Longrightarrow> (\<And>e. keeps R (h e)) \<Longrightarrow> keeps R (catch_class cls m h)"
  by (auto simp: keeps_def catch_all_def catch_class_def split: prod.splits sum.splits) (metis snd_conv)+

lemma keeps_if [frame]: "(b \<Longrightarrow> keeps R m) \<Longrightarrow> (\<not> b \<Longrightarrow> keeps R n) \<Longrightarrow> keeps R (if b then m else n)"
  by simp

lemma moves_after: "keeps R m \<Longrightarrow> (\<And>x. moves R r (k x)) \<Longrightarrow> moves R r (and_then m k)"
  by (auto simp: keeps_def moves_def and_then_def split: prod.splits sum.splits) (metis snd_conv)+

lemma moves_if: "(b \<Longrightarrow> moves R r m) \<Longrightarrow> (\<not> b \<Longrightarrow> moves R r n) \<Longrightarrow> moves R r (if b then m else n)"
  by simp

lemma merge_lookup: "map_of us k = None \<Longrightarrow> map_of (merge_fields d us) k = map_of d k"
  by (induction us arbitrary: d) (auto simp: dict_set_lookup split: if_splits)

text \<open>
  What a reading of the world needs for it to be the reviewed commit of the thread: only writing the field
  \<open>last_reviewed_sha\<close> sets it, and nothing that the run calls moves it otherwise.
\<close>

definition quiet_client :: "('w \<Rightarrow> string option) \<Rightarrow> 'w thread_client \<Rightarrow> bool" where
  "quiet_client R client \<longleftrightarrow>
     (\<forall>t. keeps R (tc_get client t)) \<and> (\<forall>t f. keeps R (tc_record client t f)) \<and>
     (\<forall>t d. map_of d ''last_reviewed_sha'' = None \<longrightarrow> keeps R (tc_update client t d)) \<and>
     (\<forall>t d w w' sha. map_of d ''last_reviewed_sha'' = Some (JStr sha) \<and> tc_update client t d w = (Inr (), w') \<longrightarrow>
        R w' = Some sha)"

definition quiet_pull_request :: "('w \<Rightarrow> string option) \<Rightarrow> 'w pr_github \<Rightarrow> bool" where
  "quiet_pull_request R gh \<longleftrightarrow>
     keeps R (pg_diff gh) \<and> keeps R (pg_threads gh) \<and> (\<forall>c. keeps R (pg_thread_of_comment gh c)) \<and>
     (\<forall>c b. keeps R (pg_reply gh c b)) \<and> (\<forall>k. keeps R (pg_resolve gh k))"

definition quiet_run :: "('w \<Rightarrow> string option) \<Rightarrow> 'w publish_env \<Rightarrow> bool" where
  "quiet_run R env \<longleftrightarrow>
     quiet_client R (pb_client env) \<and> quiet_pull_request R (re_github (pb_run env)) \<and>
     (\<forall>verb url args. keeps R (pb_gh env verb url args)) \<and> keeps R (pb_exists env) \<and>
     (\<forall>v. keeps R (pb_comments env v)) \<and> keeps R (pb_trace_links env) \<and> (\<forall>t. keeps R (pb_trace_url env t)) \<and>
     (\<forall>h fs w. R (pb_usage env h fs w) = R w) \<and> (\<forall>c ts text t. keeps R (pb_slack env c ts text t))"

lemma keeps_answer [frame]: "keeps R m \<Longrightarrow> keeps R (\<lambda>w. case m w of (Inl e, w') \<Rightarrow> (f e, w') | (Inr x, w') \<Rightarrow> (g x, w'))"
  by (auto simp: keeps_def split: prod.splits sum.splits) (metis snd_conv)+

lemma store_keeps [frame]:
  assumes "quiet_client R client"
  shows "keeps R (get_thread_metadata client t)" "keeps R (list_findings client t)"
    "keeps R (replace_findings client t fs)" "keeps R (rewrite_findings client t changes)"
    "keeps R (resolve_review_head_sha client t v)"
    "map_of (tf_extra d) ''last_reviewed_sha'' = None \<Longrightarrow> tf_last_reviewed_sha d = None \<Longrightarrow>
       keeps R (set_reviewer_thread_metadata client t d)"
proof -
  have strict: "keeps R (get_thread_metadata_strict client t)"
    unfolding get_thread_metadata_strict_def using assms by (auto simp: quiet_client_def intro!: frame)
  show g: "keeps R (get_thread_metadata client t)"
    unfolding get_thread_metadata_def by (intro frame strict)
  have told: "keeps R (record_all client t fs)" for fs
    using assms by (induction fs) (auto simp: quiet_client_def keeps_def)
  show l: "keeps R (list_findings client t)" unfolding list_findings_def by (intro frame g)
  have "keeps R (write_findings client t fs)" for fs
    unfolding write_findings_def using assms by (auto simp: quiet_client_def intro!: frame told)
  then show r: "keeps R (replace_findings client t fs)" for fs
    unfolding replace_findings_def by (intro frame strict)
  show "keeps R (rewrite_findings client t changes)" unfolding rewrite_findings_def by (intro frame r)
  show "keeps R (resolve_review_head_sha client t v)"
    unfolding resolve_review_head_sha_def Let_def by (intro frame g)
  show "keeps R (set_reviewer_thread_metadata client t d)"
    if "map_of (tf_extra d) ''last_reviewed_sha'' = None" "tf_last_reviewed_sha d = None"
    unfolding set_reviewer_thread_metadata_def using assms that
    by (auto simp: quiet_client_def reviewer_metadata_def opt_field_def dict_set_lookup merge_lookup
        intro!: frame split: option.splits)
qed

lemma github_keeps [frame]:
  assumes "\<And>verb url args. keeps R (gh verb url args)"
  shows "keeps R (good gh verb url args)" "keeps R (delete_status_comment gh owner repo n)"
    "keeps R (complete_review_check_run gh now owner repo k verdict)"
    "keeps R (post_pull_request_review gh owner repo pr head body cs)"
proof -
  show g: "keeps R (good gh verb url args)" for verb url args
    using assms [of verb url args] unfolding keeps_def good_def by (auto split: prod.splits sum.splits) (metis snd_conv)+
  show "keeps R (delete_status_comment gh owner repo n)"
    using assms unfolding keeps_def delete_status_comment_def by (auto split: prod.splits sum.splits) (metis snd_conv)+
  show "keeps R (post_pull_request_review gh owner repo pr head body cs)"
    using assms unfolding keeps_def post_pull_request_review_def
    by (auto split: prod.splits sum.splits) (metis snd_conv)+
  show "keeps R (complete_review_check_run gh now owner repo k verdict)"
    unfolding complete_review_check_run_def by (cases verdict) (auto intro!: frame g)
qed

lemma threads_keep [frame]:
  assumes "quiet_pull_request R gh"
  shows "keeps R (pg_threads gh)" "keeps R (pg_diff gh)" "keeps R (add_comment_threads gh cs ids)"
    "keeps R (settle_threads gh body ks cs s)"
proof -
  show "keeps R (pg_threads gh)" "keeps R (pg_diff gh)" using assms by (simp_all add: quiet_pull_request_def)
  show "keeps R (add_comment_threads gh cs ids)"
    using assms by (induction cs arbitrary: ids) (auto simp: quiet_pull_request_def intro!: frame)
  have "keeps R (post_resolution gh b c s)" for b c s
    using assms by (cases c) (auto simp: post_resolution_def quiet_pull_request_def intro!: frame)
  then show "keeps R (settle_threads gh body ks cs s)"
    using assms by (induction gh body ks cs s rule: settle_threads.induct)
      (auto simp: quiet_pull_request_def intro!: frame split: option.splits)
qed

lemma run_keeps [frame]:
  assumes "quiet_run R env"
  shows "keeps R (backfill_findings env t)" "keeps R (resolve_trace_url env t v)"
    "keeps R (already_reviewed env t re_review)" "keeps R (record_posted env t run_id review_id pairs)"
    "keeps R (resolve_closed_threads env findings)" "keeps R (post_slack_completion env t pt review_id n)"
    "keeps R (record_usage env t head)" "keeps R (filter_against_pr_diff env pairs)"
    "keeps R (post_pairs env pt head trace_url additional pairs)" "keeps R (post_review env pt head trace_url sel)"
proof -
  from assms have q: "quiet_client R (pb_client env)" "quiet_pull_request R (re_github (pb_run env))"
    "\<And>verb url args. keeps R (pb_gh env verb url args)" "keeps R (pb_exists env)"
    "\<And>v. keeps R (pb_comments env v)" "keeps R (pb_trace_links env)" "\<And>t. keeps R (pb_trace_url env t)"
    "\<And>h fs w. R (pb_usage env h fs w) = R w" "\<And>c ts text t. keeps R (pb_slack env c ts text t)"
    by (simp_all add: quiet_run_def)
  show b: "keeps R (backfill_findings env t)"
    unfolding backfill_findings_def reconcile_findings_with_review_threads_def Let_def by (intro frame q)
  show "keeps R (resolve_trace_url env t v)" unfolding resolve_trace_url_def by (intro frame q)
  show "keeps R (already_reviewed env t re_review)" unfolding already_reviewed_def by (intro frame q)
  have "keeps R (store_thread_ids env t)" unfolding store_thread_ids_def by (intro frame q)
  then show "keeps R (record_posted env t run_id review_id pairs)"
    unfolding record_posted_def current_reviewer_run_def record_review_publication_def
    by (auto intro!: frame q b split: option.splits)
  have "keeps R (settle_finding env f)" for f
    unfolding settle_finding_def by (intro frame q)
  then have "keeps R (settle_findings env fs)" for fs
    by (induction fs) (auto intro!: frame)
  then show "keeps R (resolve_closed_threads env findings)"
    unfolding resolve_closed_threads_def by (auto intro!: frame q split: sum.splits)
  show "keeps R (post_slack_completion env t pt review_id n)"
    unfolding post_slack_completion_def by (auto intro!: frame q split: option.splits)
  have "keeps R (\<lambda>w. (Inr (), pb_usage env head fs w))" for fs by (simp add: keeps_def q(8))
  then show "keeps R (record_usage env t head)" unfolding record_usage_def by (intro frame q)
  show f: "keeps R (filter_against_pr_diff env pairs)" for pairs
    unfolding filter_against_pr_diff_def resolve_diff_line_set_def by (auto intro!: frame q split: option.splits)
  show p: "keeps R (post_pairs env pt head trace_url additional pairs)" for additional pairs
    unfolding post_pairs_def by (intro frame q)
  show "keeps R (post_review env pt head trace_url sel)"
    unfolding post_review_def by (auto intro!: frame f p split: prod.splits)
qed

lemma moves_close_books:
  assumes "quiet_run R env" "field reply ''success'' = JBool True"
  shows "moves R (Some head) (close_books env t pt head n reply)"
proof -
  from assms(1) have q: "quiet_client R (pb_client env)" "\<And>verb url args. keeps R (pb_gh env verb url args)"
    by (simp_all add: quiet_run_def)
  let ?set = "set_reviewer_thread_metadata (pb_client env) t (reviewed_fields head [])"
  let ?books = "and_then (record_usage env t head)
         (\<lambda>u. and_then (clear_review_started_comment (pb_client env) (pb_gh env) t (pt_owner pt) (pt_repo pt))
           (\<lambda>u. and_then
              (settle_review_check_run (pb_client env) (pb_gh env) (pb_now env) t (pt_owner pt) (pt_repo pt)
                 (review_check_conclusion n))
              (\<lambda>u. give reply)))"
  have "keeps R (clear_review_started_comment (pb_client env) (pb_gh env) t owner repo)" for owner repo
    unfolding clear_review_started_comment_def
    by (auto intro!: frame q split: option.splits simp: extra_fields_def)
  moreover have "keeps R (settle_review_check_run (pb_client env) (pb_gh env) now t owner repo verdict)"
    for now owner repo verdict
    unfolding settle_review_check_run_def
    by (auto intro!: frame q split: option.splits simp: extra_fields_def)
  ultimately have k: "keeps R ?books" using assms(1) by (intro frame)
  have s: "R w' = Some head" if "?set w = (Inr (), w')" for w w'
  proof -
    have "reviewer_metadata (reviewed_fields head []) = dict_set ''last_reviewed_sha'' (JStr head) [(''kind'', JStr ''reviewer'')]"
      by (simp add: reviewer_metadata_def reviewed_fields_def extra_fields_def opt_field_def)
    with that have "tc_update (pb_client env) t (dict_set ''last_reviewed_sha'' (JStr head) [(''kind'', JStr ''reviewer'')]) w =
        (Inr (), w')"
      by (auto simp: set_reviewer_thread_metadata_def catch_class_def fail_def split: prod.splits sum.splits if_splits)
    moreover have "map_of (dict_set ''last_reviewed_sha'' (JStr head) [(''kind'', JStr ''reviewer'')]) ''last_reviewed_sha'' =
        Some (JStr head)" by (simp add: dict_set_lookup)
    ultimately show ?thesis using q(1) unfolding quiet_client_def by blast
  qed
  have r: "x = reply" if "?books w = (Inr x, w')" for w w' x
    using that by (auto simp: and_then_def give_def split: prod.splits sum.splits)
  show ?thesis unfolding moves_def
  proof (intro allI impI)
    fix w x w' assume c: "close_books env t pt head n reply w = (Inr x, w')"
    then obtain v where v: "?set w = (Inr (), v)" "?books v = (Inr x, w')"
      by (auto simp: close_books_def and_then_def split: prod.splits sum.splits)
    from k v(2) have "R w' = R v" unfolding keeps_def by (metis snd_conv)
    with s [OF v(1)] r [OF v(2)] assms(2) show "R w' = (if field x ''success'' = JBool True then Some head else R w)"
      by simp
  qed
qed

lemma field_published: "field (published v a b n @ xs) ''success'' = JBool True"
  by (simp add: published_def field_def dict_get_def)

lemma moves_give: "field reply ''success'' \<noteq> JBool True \<Longrightarrow> moves R r (give reply)"
  by (simp add: moves_def give_def)

lemma moves_fail: "moves R r (fail e)"
  by (simp add: moves_def fail_def)

lemma moves_after_result:
  "keeps R m \<Longrightarrow> (\<And>w x w'. m w = (Inr x, w') \<Longrightarrow> moves R r (k x)) \<Longrightarrow> moves R r (and_then m k)"
  by (auto simp: keeps_def moves_def and_then_def split: prod.splits sum.splits) (metis snd_conv)+

lemma moves_select:
  "(\<And>x. moves R r (k x)) \<Longrightarrow> moves R r (case s of Inl e \<Rightarrow> fail e | Inr x \<Rightarrow> k x)"
  by (simp add: moves_fail split: sum.split)

lemma moves_publication:
  assumes "quiet_run R env"
  shows "moves R (Some head) (skip_review env t pt head sel findings)"
    "moves R (Some head) (finish_review env t pt head re_review run_id sel reply pairs dropped)"
proof -
  show "moves R (Some head) (skip_review env t pt head sel findings)"
    unfolding skip_review_def
    by (intro moves_after moves_close_books run_keeps(5) assms field_published)
  have "field (published v a b n) ''success'' = JBool True" for v a b n
    using field_published [of v a b n "[]"] by simp
  moreover from assms have "quiet_client R (pb_client env)" by (simp add: quiet_run_def)
  ultimately show "moves R (Some head) (finish_review env t pt head re_review run_id sel reply pairs dropped)"
    unfolding finish_review_def Let_def
    by (auto intro!: moves_after moves_close_books frame assms simp: field_published)
qed

lemma refusal_fails:
  assumes "post_review env pt head trace_url sel w = (Inr (Refusal reply), w')"
  shows "field reply ''success'' = JBool False"
  using assms
  by (auto simp: post_review_def and_then_def give_def post_failed_def post_failed_on_def refused_def field_def
      dict_get_def split: prod.splits sum.splits if_splits)

text \<open>
  C24. The reviewed commit moves with a publication. When publishing a review answers, the reviewed commit of
  the thread is the head the review was made for exactly when the answer reports success; a refusal, of an
  anchor or of the whole request, leaves it where it was, so the next review covers the same commits again.
\<close>

theorem reviewed_commit_moves_with_publication:
  assumes "quiet_run R env" "runtime_thread_id (re_configurable (pb_run env)) = Inr t"
    and "resolve_review_head_sha (pb_client env) t (JDict [(''head_sha'', JStr config_head)]) w = (Inr head_sha, v)"
    and "publish_review_async env pt config_head threshold cap re_review run_id trace_override w = (Inr reply, w')"
  shows "R w' = (if field reply ''success'' = JBool True then Some head_sha else R w)"
proof -
  let ?run = "and_then (resolve_trace_url env t trace_override)
      (\<lambda>trace_url. and_then (backfill_findings env t)
        (\<lambda>findings.
           case select_findings (pb_dumps env) re_review head_sha threshold cap findings of
             Inl e \<Rightarrow> fail e
           | Inr sel \<Rightarrow>
               and_then (if sl_pairs sel = [] then already_reviewed env t re_review else give False)
                 (\<lambda>skip. if skip then skip_review env t pt head_sha sel findings
                    else and_then (post_review env pt head_sha trace_url sel)
                      (\<lambda>posted. case posted of
                         Refusal reply \<Rightarrow> give reply
                       | Posted r pairs dropped \<Rightarrow>
                           finish_review env t pt head_sha re_review run_id sel r pairs dropped))))"
  have post: "moves R (Some head_sha) (and_then (post_review env pt head_sha trace_url sel)
      (\<lambda>posted. case posted of
         Refusal reply \<Rightarrow> give reply
       | Posted r pairs dropped \<Rightarrow> finish_review env t pt head_sha re_review run_id sel r pairs dropped))"
    for trace_url sel
  proof (rule moves_after_result [OF run_keeps(10) [OF assms(1)]])
    fix u posted u'
    assume "post_review env pt head_sha trace_url sel u = (Inr posted, u')"
    then show "moves R (Some head_sha) (case posted of Refusal reply \<Rightarrow> give reply
       | Posted r pairs dropped \<Rightarrow> finish_review env t pt head_sha re_review run_id sel r pairs dropped)"
      by (cases posted) (auto intro!: moves_give moves_publication(2) [OF assms(1)] dest: refusal_fails)
  qed
  have "moves R (Some head_sha) ?run"
    by (intro moves_after moves_select moves_if run_keeps(1-3) [OF assms(1)] moves_publication(1) [OF assms(1)] post
        keeps_if keeps_give)
  moreover have "?run v = (Inr reply, w')"
    using assms(2-4) by (simp add: publish_review_async_def)
  moreover have "R v = R w"
  proof -
    from assms(1) have "quiet_client R (pb_client env)" by (simp add: quiet_run_def)
    from store_keeps(5) [OF this, of t "JDict [(''head_sha'', JStr config_head)]"] assms(3) show ?thesis
      by (simp add: keeps_def) (metis snd_conv)
  qed
  ultimately show ?thesis by (simp add: moves_def)
qed

definition metadata_client :: "fields thread_client" where
  "metadata_client =
     \<lparr>tc_get = (\<lambda>t w. (Inr (JDict [(''metadata'', JDict w)]), w)),
      tc_update = (\<lambda>t d w. (Inr (), d @ w)),
      tc_record = (\<lambda>t f w. (Inr (), w))\<rparr>"

definition silent_pull_request :: "'w pr_github" where
  "silent_pull_request =
     \<lparr>pg_diff = give None, pg_threads = give [], pg_thread_of_comment = (\<lambda>c. give None),
      pg_reply = (\<lambda>c b. give JNull), pg_resolve = (\<lambda>k. give False)\<rparr>"

definition silent_env :: "fields publish_env" where
  "silent_env =
     \<lparr>pb_run = \<lparr>re_client = metadata_client, re_digest = (\<lambda>v. []), re_loads = (\<lambda>s. None),
        re_configurable = JDict [(''thread_id'', JStr ''t'')], re_token = None, re_github = silent_pull_request,
        re_new_id = Pair [], re_outcome = (\<lambda>f s w. w)\<rparr>,
      pb_dumps = (\<lambda>v. []), pb_gh = (\<lambda>verb url args. fail (Raised ''HTTPError'' ''offline'')), pb_now = [],
      pb_state_lines = None, pb_config_lines = None, pb_exists = give None, pb_comments = (\<lambda>v. give []),
      pb_trace_links = give False, pb_trace_url = (\<lambda>t. give None), pb_ui_url = None,
      pb_usage = (\<lambda>h fs w. w), pb_slack = (\<lambda>c ts text t. give ()), pb_invalidate = (\<lambda>t. give ())\<rparr>"

definition reviewed_commit :: "fields \<Rightarrow> string option" where
  "reviewed_commit w = (case map_of w ''last_reviewed_sha'' of Some v \<Rightarrow> as_str v | None \<Rightarrow> None)"

lemma silent_env_quiet: "quiet_run reviewed_commit silent_env"
  by (simp add: quiet_run_def quiet_client_def quiet_pull_request_def silent_env_def silent_pull_request_def pb_client_def
      metadata_client_def keeps_def give_def fail_def reviewed_commit_def map_add_def)

theorem reviewed_commit_moves_with_publication_witness:
  "\<exists>w'. fst (publish_review_async silent_env \<lparr>pt_owner = ''o'', pt_repo = ''r'', pt_number = 1\<rparr> ''c0ffee0'' ''medium'' 6 True
       None JNull [(''last_reviewed_sha'', JStr ''badc0de'')]) = Inr w' \<and>
     reviewed_commit (snd (publish_review_async silent_env \<lparr>pt_owner = ''o'', pt_repo = ''r'', pt_number = 1\<rparr>
       ''c0ffee0'' ''medium'' 6 True None JNull [(''last_reviewed_sha'', JStr ''badc0de'')])) = Some ''c0ffee0''"
proof -
  let ?w = "[(''last_reviewed_sha'', JStr ''badc0de'')]"
  let ?run = "publish_review_async silent_env \<lparr>pt_owner = ''o'', pt_repo = ''r'', pt_number = 1\<rparr> ''c0ffee0'' ''medium'' 6 True
       None JNull ?w"
  have t: "runtime_thread_id (re_configurable (pb_run silent_env)) = Inr ''t''" by code_simp
  have h: "resolve_review_head_sha (pb_client silent_env) ''t'' (JDict [(''head_sha'', JStr ''c0ffee0'')]) ?w =
      (Inr ''c0ffee0'', ?w)" by code_simp
  have r: "map_sum (\<lambda>e. ()) (\<lambda>f. field f ''success'') (fst ?run) = Inr (JBool True)" by code_simp
  then obtain reply where "fst ?run = Inr reply" "field reply ''success'' = JBool True"
    by (cases "fst ?run") auto
  moreover from this have "?run = (Inr reply, snd ?run)" by (metis prod.collapse)
  ultimately show ?thesis using reviewed_commit_moves_with_publication [OF silent_env_quiet t h] by simp
qed

end
