(* ===== verification/Url_Safety.thy ===== *)
theory Url_Safety
  imports Github_Http Review_Diff "HOL-Library.Word"
begin

section \<open>Requests to the open web\<close>

text \<open>
  Models \<open>agent/utils/url_safety.py\<close>: the addresses of \<open>ipaddress\<close> as words of 32 and 128 bits with the
  tables of special networks, the parts of a URL as \<open>urllib.parse\<close> splits them, the check that a host
  resolves to public addresses only, and the loop that follows redirects with the address pinned and the
  check repeated on every hop. The resolver and the HTTP client are parameters; every request that is
  sent is kept in a log, next to the world.
\<close>

subsection \<open>Addresses\<close>

datatype ip = V4 "32 word" | V6 "128 word"

definition from_parts :: "nat \<Rightarrow> nat list \<Rightarrow> 'a::len word" where
  "from_parts b ns = foldl (\<lambda>w n. push_bit b w + of_nat n) 0 ns"

definition net4 :: "nat list \<Rightarrow> 32 word" where
  "net4 ns = push_bit (8 * (4 - length ns)) (from_parts 8 ns)"

definition net6 :: "nat list \<Rightarrow> 128 word" where
  "net6 ns = push_bit (16 * (8 - length ns)) (from_parts 16 ns)"

definition in_network :: "'a::len word \<Rightarrow> nat \<Rightarrow> 'a word \<Rightarrow> bool" where
  "in_network net n ip = (drop_bit (LENGTH('a) - n) ip = drop_bit (LENGTH('a) - n) net)"

definition in_some :: "('a::len word \<times> nat) list \<Rightarrow> 'a word \<Rightarrow> bool" where
  "in_some nets ip = list_ex (\<lambda>(net, n). in_network net n ip) nets"

definition private4 :: "(32 word \<times> nat) list" where
  "private4 =
     [(net4 [0], 8), (net4 [10], 8), (net4 [127], 8), (net4 [169, 254], 16), (net4 [172, 16], 12),
      (net4 [192, 0, 0], 24), (net4 [192, 0, 0, 170], 31), (net4 [192, 0, 2], 24), (net4 [192, 168], 16),
      (net4 [198, 18], 15), (net4 [198, 51, 100], 24), (net4 [203, 0, 113], 24), (net4 [240], 4),
      (net4 [255, 255, 255, 255], 32)]"

definition private4_exceptions :: "(32 word \<times> nat) list" where
  "private4_exceptions = [(net4 [192, 0, 0, 9], 32), (net4 [192, 0, 0, 10], 32)]"

definition private6 :: "(128 word \<times> nat) list" where
  "private6 =
     [(1, 128), (0, 128), (net6 [0, 0, 0, 0, 0, 0xFFFF], 96), (net6 [0x64, 0xFF9B, 1], 48), (net6 [0x100], 64),
      (net6 [0x2001], 23), (net6 [0x2001, 0xDB8], 32), (net6 [0x2002], 16), (net6 [0xFC00], 7),
      (net6 [0xFE80], 10)]"

definition private6_exceptions :: "(128 word \<times> nat) list" where
  "private6_exceptions =
     [(net6 [0x2001, 1, 0, 0, 0, 0, 0, 1], 128), (net6 [0x2001, 1, 0, 0, 0, 0, 0, 2], 128), (net6 [0x2001, 3], 32),
      (net6 [0x2001, 4, 0x112], 48), (net6 [0x2001, 0x20], 28), (net6 [0x2001, 0x30], 28)]"

definition ipv4_mapped :: "128 word \<Rightarrow> 32 word option" where
  "ipv4_mapped w = (if drop_bit 32 w = 0xFFFF then Some (ucast w) else None)"

definition is_private4 :: "32 word \<Rightarrow> bool" where
  "is_private4 w = (in_some private4 w \<and> \<not> in_some private4_exceptions w)"

fun is_private :: "ip \<Rightarrow> bool" where
  "is_private (V4 w) = is_private4 w"
| "is_private (V6 w) =
     (case ipv4_mapped w of
        Some m \<Rightarrow> is_private4 m
      | None \<Rightarrow> in_some private6 w \<and> \<not> in_some private6_exceptions w)"

fun is_global :: "ip \<Rightarrow> bool" where
  "is_global (V4 w) = (\<not> in_network (net4 [100, 64]) 10 w \<and> \<not> is_private (V4 w))"
| "is_global (V6 w) = (\<not> is_private (V6 w))"

fun unmapped :: "ip \<Rightarrow> ip" where
  "unmapped (V4 w) = V4 w"
| "unmapped (V6 w) = (case ipv4_mapped w of Some m \<Rightarrow> V4 m | None \<Rightarrow> V6 w)"

subsection \<open>Reading addresses\<close>

definition dec_value :: "string \<Rightarrow> nat" where
  "dec_value s = foldl (\<lambda>n c. 10 * n + (ord_c c - 48)) 0 s"

definition octet_ok :: "string \<Rightarrow> bool" where
  "octet_ok s =
     (s \<noteq> [] \<and> list_all is_digit_c s \<and> length s \<le> 3 \<and> (s = ''0'' \<or> hd s \<noteq> CHR ''0'') \<and> dec_value s \<le> 255)"

definition parse_ipv4 :: "string \<Rightarrow> 32 word option" where
  "parse_ipv4 s =
     (let octets = split_on (CHR ''.'') s
      in if CHR ''/'' \<notin> set s \<and> length octets = 4 \<and> list_all octet_ok octets
         then Some (from_parts 8 (map dec_value octets)) else None)"

definition hex_digit :: "char \<Rightarrow> nat" where
  "hex_digit c = (let n = ord_c c in if n \<le> 57 then n - 48 else if n \<le> 70 then n - 55 else n - 87)"

definition hex_value :: "string \<Rightarrow> nat" where
  "hex_value s = foldl (\<lambda>n c. 16 * n + hex_digit c) 0 s"

text \<open>The groups between colons; an empty group is \<open>None\<close>, and a last group in dots gives two.\<close>

fun hextet :: "string \<Rightarrow> nat option option" where
  "hextet [] = Some None"
| "hextet (c # cs) = (if list_all is_hex_c (c # cs) \<and> length cs \<le> 3 then Some (Some (hex_value (c # cs))) else None)"

fun hextets :: "string list \<Rightarrow> nat option list option" where
  "hextets [] = Some []"
| "hextets (s # ss) =
     (if ss = [] \<and> CHR ''.'' \<in> set s
      then map_option (\<lambda>w. [Some (unat (drop_bit 16 w)), Some (unat (take_bit 16 w))]) (parse_ipv4 s)
      else case hextet s of None \<Rightarrow> None | Some g \<Rightarrow> map_option (Cons g) (hextets ss))"

definition fill_groups :: "nat option list \<Rightarrow> nat \<Rightarrow> nat list option" where
  "fill_groups gs i =
     (let hi = take i gs; lo = drop (Suc i) gs;
          hi' = (if hd gs = None then tl hi else hi); lo' = (if last gs = None then butlast lo else lo)
      in if (hd gs = None \<and> hi' \<noteq> []) \<or> (last gs = None \<and> lo' \<noteq> []) \<or> 8 \<le> length hi' + length lo' then None
         else Some (map the hi' @ replicate (8 - (length hi' + length lo')) 0 @ map the lo'))"

definition expand_groups :: "nat option list \<Rightarrow> nat list option" where
  "expand_groups gs =
     (if 9 < length gs then None
      else case filter (\<lambda>i. gs ! i = None) [1..<length gs - 1] of
          [] \<Rightarrow> (if length gs = 8 \<and> hd gs \<noteq> None \<and> last gs \<noteq> None then Some (map the gs) else None)
        | [i] \<Rightarrow> fill_groups gs i
        | _ \<Rightarrow> None)"

definition parse_ipv6 :: "string \<Rightarrow> 128 word option" where
  "parse_ipv6 s =
     (let addr = takeWhile (\<lambda>c. c \<noteq> CHR ''%'') s; zone = drop (Suc (length addr)) s;
          parts = split_on (CHR '':'') addr
      in if CHR ''/'' \<in> set s \<or> (CHR ''%'' \<in> set s \<and> (zone = [] \<or> CHR ''%'' \<in> set zone)) \<or> length parts < 3 then None
         else (case hextets parts of
             None \<Rightarrow> None | Some gs \<Rightarrow> map_option (from_parts 16) (expand_groups gs)))"

definition ip_address :: "string \<Rightarrow> ip option" where
  "ip_address s =
     (case parse_ipv4 s of Some w \<Rightarrow> Some (V4 w) | None \<Rightarrow> map_option V6 (parse_ipv6 s))"

definition public_address :: "string \<Rightarrow> bool" where
  "public_address s = (case ip_address s of None \<Rightarrow> False | Some ip \<Rightarrow> is_global (unmapped ip))"

subsection \<open>The parts of a URL\<close>

definition before_char :: "char \<Rightarrow> string \<Rightarrow> string" where
  "before_char d s = takeWhile (\<lambda>c. c \<noteq> d) s"

definition after_char :: "char \<Rightarrow> string \<Rightarrow> string" where
  "after_char d s = drop (Suc (length (before_char d s))) s"

definition after_last :: "char \<Rightarrow> string \<Rightarrow> string" where
  "after_last d s = rev (takeWhile (\<lambda>c. c \<noteq> d) (rev s))"

record url_parts =
  ur_scheme :: string
  ur_netloc :: string
  ur_path :: string
  ur_params :: string
  ur_query :: string
  ur_fragment :: string

definition url_value_error :: "string \<Rightarrow> exn" where
  "url_value_error msg = Raised ''ValueError'' msg"

definition is_letter :: "char \<Rightarrow> bool" where
  "is_letter c = (let n = ord_c c in (65 \<le> n \<and> n \<le> 90) \<or> (97 \<le> n \<and> n \<le> 122))"

definition scheme_char :: "char \<Rightarrow> bool" where
  "scheme_char c = (is_letter c \<or> is_digit_c c \<or> c \<in> set ''+-.'')"

definition clean_url :: "string \<Rightarrow> string" where
  "clean_url s =
     filter (\<lambda>c. ord_c c \<notin> {9, 10, 13}) (dropWhile (\<lambda>c. ord_c c \<le> 32) s)"

definition split_scheme :: "string \<Rightarrow> string \<Rightarrow> string \<times> string" where
  "split_scheme d s =
     (let h = before_char (CHR '':'') s
      in if CHR '':'' \<in> set s \<and> h \<noteq> [] \<and> is_letter (hd h) \<and> list_all scheme_char h
         then (py_lower h, after_char (CHR '':'') s) else (d, s))"

definition future_host :: "string \<Rightarrow> bool" where
  "future_host h =
     (let version = before_char (CHR ''.'') (tl h); address = after_char (CHR ''.'') h
      in version \<noteq> [] \<and> list_all is_hex_c version \<and> CHR ''.'' \<in> set h \<and> address \<noteq> [] \<and>
         newline \<notin> set address)"

definition check_bracketed_host :: "string \<Rightarrow> unit result" where
  "check_bracketed_host h =
     (if starts_with ''v'' h
      then (if future_host h then Inr () else Inl (url_value_error ''IPvFuture address is invalid''))
      else (case ip_address h of
          None \<Rightarrow> Inl (url_value_error (quoted h @ '' does not appear to be an IPv4 or IPv6 address''))
        | Some (V4 w) \<Rightarrow> Inl (url_value_error ''An IPv4 address cannot be in brackets'')
        | Some (V6 w) \<Rightarrow> Inr ()))"

definition check_netloc :: "string \<Rightarrow> unit result" where
  "check_netloc netloc =
     (if (CHR ''['' \<in> set netloc) \<noteq> (CHR '']'' \<in> set netloc) then Inl (url_value_error ''Invalid IPv6 URL'')
      else if CHR ''['' \<in> set netloc
      then check_bracketed_host (before_char (CHR '']'') (after_char (CHR ''['') netloc))
      else Inr ())"

definition params_schemes :: "string list" where
  "params_schemes =
     [[], ''ftp'', ''hdl'', ''prospero'', ''http'', ''imap'', ''https'', ''shttp'', ''rtsp'', ''rtsps'', ''rtspu'',
      ''sip'', ''sips'', ''mms'', ''sftp'', ''tel'']"

definition split_params :: "string \<Rightarrow> string \<times> string" where
  "split_params path =
     (let name = after_last (CHR ''/'') path
      in (take (length path - length name) path @ before_char (CHR '';'') name, after_char (CHR '';'') name))"

definition urlparse :: "string \<Rightarrow> string \<Rightarrow> url_parts result" where
  "urlparse d url =
     (let (scheme, s) = split_scheme d (clean_url url);
          stops = set ''/?#'';
          netloc = (if starts_with ''//'' s then takeWhile (\<lambda>c. c \<notin> stops) (drop 2 s) else []);
          s1 = (if starts_with ''//'' s then drop (2 + length netloc) s else s);
          s2 = before_char (CHR ''#'') s1;
          path = before_char (CHR ''?'') s2;
          (p, params) = (if scheme \<in> set params_schemes \<and> CHR '';'' \<in> set path then split_params path else (path, []))
      in case check_netloc netloc of
           Inl e \<Rightarrow> Inl e
         | Inr u \<Rightarrow>
             Inr \<lparr>ur_scheme = scheme, ur_netloc = netloc, ur_path = p, ur_params = params,
               ur_query = after_char (CHR ''?'') s2, ur_fragment = after_char (CHR ''#'') s1\<rparr>)"

definition netloc_schemes :: "string list" where
  "netloc_schemes =
     [[], ''ftp'', ''http'', ''gopher'', ''nntp'', ''telnet'', ''imap'', ''wais'', ''file'', ''mms'', ''https'',
      ''shttp'', ''snews'', ''prospero'', ''rtsp'', ''rtsps'', ''rtspu'', ''rsync'', ''svn'', ''svn+ssh'', ''sftp'',
      ''nfs'', ''git'', ''git+ssh'', ''ws'', ''wss'']"

definition urlunparse :: "url_parts \<Rightarrow> string" where
  "urlunparse u =
     (let url = (if ur_params u = [] then ur_path u else ur_path u @ '';'' @ ur_params u);
          rooted = (if url = [] \<or> starts_with ''/'' url then url else CHR ''/'' # url);
          s1 = (if ur_netloc u \<noteq> [] \<or> (ur_scheme u \<noteq> [] \<and> ur_scheme u \<in> set netloc_schemes) \<or> starts_with ''//'' url
                then ''//'' @ ur_netloc u @ rooted else url);
          s2 = (if ur_scheme u = [] then s1 else ur_scheme u @ '':'' @ s1);
          s3 = (if ur_query u = [] then s2 else s2 @ ''?'' @ ur_query u)
      in if ur_fragment u = [] then s3 else s3 @ ''#'' @ ur_fragment u)"

definition host_info :: "url_parts \<Rightarrow> string \<times> string" where
  "host_info u =
     (let info = after_last (CHR ''@'') (ur_netloc u)
      in if CHR ''['' \<in> set info
         then (let b = after_char (CHR ''['') info
           in (before_char (CHR '']'') b, after_char (CHR '':'') (after_char (CHR '']'') b)))
         else (before_char (CHR '':'') info, after_char (CHR '':'') info))"

definition hostname :: "url_parts \<Rightarrow> string option" where
  "hostname u =
     (case fst (host_info u) of
        [] \<Rightarrow> None
      | c # cs \<Rightarrow>
          (let h = before_char (CHR ''%'') (c # cs) in Some (py_lower h @ drop (length h) (c # cs))))"

definition port_of :: "url_parts \<Rightarrow> nat option result" where
  "port_of u =
     (let p = snd (host_info u)
      in if p = [] then Inr None
         else if \<not> list_all is_digit_c p
         then Inl (url_value_error (''Port could not be cast to integer value as '' @ quoted p))
         else if 65535 < dec_value p then Inl (url_value_error ''Port out of range 0-65535'')
         else Inr (Some (dec_value p)))"

subsubsection \<open>Joining a reference to its base\<close>

definition relative_schemes :: "string list" where
  "relative_schemes =
     [[], ''ftp'', ''http'', ''gopher'', ''nntp'', ''imap'', ''wais'', ''file'', ''https'', ''shttp'', ''mms'',
      ''prospero'', ''rtsp'', ''rtsps'', ''rtspu'', ''sftp'', ''svn'', ''svn+ssh'', ''ws'', ''wss'']"

definition path_segments :: "string \<Rightarrow> string \<Rightarrow> string list" where
  "path_segments base path =
     (let bs = split_on (CHR ''/'') base; base_parts = (if last bs = [] then bs else butlast bs);
          segments = base_parts @ split_on (CHR ''/'') path
      in if starts_with ''/'' path then split_on (CHR ''/'') path
         else if length segments < 2 then segments
         else hd segments # filter (\<lambda>s. s \<noteq> []) (butlast (tl segments)) @ [last segments])"

definition resolve_segments :: "string list \<Rightarrow> string list" where
  "resolve_segments segments =
     (let resolved = foldl (\<lambda>acc s. if s = ''..'' then butlast acc else if s = ''.'' then acc else acc @ [s]) [] segments
      in if last segments \<in> {''.'', ''..''} then resolved @ [[]] else resolved)"

definition or_slash :: "string \<Rightarrow> string" where
  "or_slash s = (if s = [] then ''/'' else s)"

definition urljoin :: "string \<Rightarrow> string \<Rightarrow> string result" where
  "urljoin base url =
     (if base = [] then Inr url
      else if url = [] then Inr base
      else (case urlparse [] base of
          Inl e \<Rightarrow> Inl e
        | Inr b \<Rightarrow>
            (case urlparse (ur_scheme b) url of
               Inl e \<Rightarrow> Inl e
             | Inr u \<Rightarrow>
                 Inr (if ur_scheme u \<noteq> ur_scheme b \<or> ur_scheme u \<notin> set relative_schemes then url
                   else if ur_scheme u \<in> set netloc_schemes \<and> ur_netloc u \<noteq> [] then urlunparse u
                   else let u1 = (if ur_scheme u \<in> set netloc_schemes then u\<lparr>ur_netloc := ur_netloc b\<rparr> else u)
                     in if ur_path u1 = [] \<and> ur_params u1 = []
                        then urlunparse (u1\<lparr>ur_path := ur_path b, ur_params := ur_params b,
                          ur_query := (if ur_query u1 = [] then ur_query b else ur_query u1)\<rparr>)
                        else urlunparse (u1\<lparr>ur_path :=
                          or_slash (join ''/'' (resolve_segments (path_segments (ur_path b) (ur_path u1))))\<rparr>)))))"

subsection \<open>The check of a host\<close>

datatype check = Safe string "string list" | Blocked string

definition validate_addresses :: "string \<Rightarrow> string list \<Rightarrow> check" where
  "validate_addresses host ips =
     (case dropWhile public_address ips of
        [] \<Rightarrow> Safe host ips
      | ip # rs \<Rightarrow>
          Blocked ((if ip_address ip = None then ''Could not parse resolved address: ''
            else ''URL resolves to blocked address: '') @ ip))"

record request =
  rq_hop :: string
  rq_verb :: string
  rq_ip :: string
  rq_target :: string
  rq_caller :: "(string, string) dict"
  rq_headers :: "(string, string) dict"
  rq_sni :: string
  rq_args :: fields

record 'w web_env =
  we_resolve :: "string \<Rightarrow> ('w, string list) action"
  we_send :: "request \<Rightarrow> ('w, response) action"
  we_headers :: "string \<Rightarrow> string \<Rightarrow> (string, string) dict"

definition resolve_and_validate :: "'w web_env \<Rightarrow> string \<Rightarrow> 'w \<Rightarrow> check \<times> 'w" where
  "resolve_and_validate env url w =
     (case urlparse [] url of
        Inl e \<Rightarrow> (Blocked (''URL validation error: '' @ exn_str e), w)
      | Inr u \<Rightarrow>
          (if ur_scheme u \<notin> {''http'', ''https''}
           then (Blocked (''Unsupported URL scheme: '' @ (if ur_scheme u = [] then ''<missing>'' else ur_scheme u)), w)
           else (case hostname u of
               None \<Rightarrow> (Blocked ''Could not parse hostname from URL'', w)
             | Some host \<Rightarrow>
                 (case we_resolve env host w of
                    (Inl e, w') \<Rightarrow>
                      (Blocked (if exn_class e = ''gaierror'' then ''Could not resolve hostname: '' @ host
                         else ''URL validation error: '' @ exn_str e), w')
                  | (Inr [], w') \<Rightarrow> (Blocked (''Could not resolve hostname: '' @ host), w')
                  | (Inr ips, w') \<Rightarrow> (validate_addresses host ips, w')))))"

definition is_url_safe :: "'w web_env \<Rightarrow> string \<Rightarrow> 'w \<Rightarrow> (bool \<times> string) \<times> 'w" where
  "is_url_safe env url w =
     (case resolve_and_validate env url w of
        (Safe host ips, w') \<Rightarrow> ((True, []), w') | (Blocked reason, w') \<Rightarrow> ((False, reason), w'))"

subsection \<open>One hop\<close>

definition blocked_response :: "string \<Rightarrow> string \<Rightarrow> fields" where
  "blocked_response url reason =
     [(''success'', JBool False), (''status_code'', JInt 0), (''headers'', JDict []),
      (''content'', JStr (''Request blocked: '' @ reason)), (''url'', JStr url)]"

definition host_literal :: "string \<Rightarrow> string" where
  "host_literal ip = (if CHR '':'' \<in> set ip then ''['' @ ip @ '']'' else ip)"

definition pinned_url :: "string \<Rightarrow> string \<Rightarrow> string result" where
  "pinned_url url ip =
     (case urlparse [] url of
        Inl e \<Rightarrow> Inl e
      | Inr u \<Rightarrow>
          (case port_of u of
             Inl e \<Rightarrow> Inl e
           | Inr p \<Rightarrow>
               Inr (urlunparse (u\<lparr>ur_netloc :=
                 (case p of Some (Suc n) \<Rightarrow> host_literal ip @ '':'' @ show_nat (Suc n) | _ \<Rightarrow> host_literal ip)\<rparr>))))"

definition origin :: "string \<Rightarrow> (string \<times> string \<times> int) result" where
  "origin url =
     (case urlparse [] url of
        Inl e \<Rightarrow> Inl e
      | Inr u \<Rightarrow>
          Inr (py_lower (ur_scheme u), (case hostname u of None \<Rightarrow> [] | Some h \<Rightarrow> py_lower h),
            (case port_of u of
               Inl e \<Rightarrow> -1
             | Inr (Some (Suc n)) \<Rightarrow> int (Suc n)
             | Inr p \<Rightarrow> (if py_lower (ur_scheme u) = ''https'' then 443 else 80))))"

definition sensitive_headers :: "string list" where
  "sensitive_headers = [''authorization'', ''cookie'', ''proxy-authorization'']"

definition entity_headers :: "string list" where
  "entity_headers = [''content-encoding'', ''content-language'', ''content-length'', ''content-type'']"

definition is_sensitive_header :: "string \<Rightarrow> bool" where
  "is_sensitive_header name =
     (let n = py_lower name in n \<in> set sensitive_headers \<or> contains ''api-key'' n \<or> ends_with ''-token'' n)"

definition redirect_method :: "string \<Rightarrow> int \<Rightarrow> string" where
  "redirect_method verb status =
     (if status = 303 \<and> verb \<noteq> ''HEAD'' then ''GET''
      else if status = 302 \<and> verb \<noteq> ''HEAD'' then ''GET''
      else if status = 301 \<and> verb = ''POST'' then ''GET''
      else verb)"

definition redirect_codes :: "int list" where
  "redirect_codes = [301, 302, 303, 307, 308]"

definition dict_union :: "('k, 'v) dict \<Rightarrow> ('k, 'v) dict \<Rightarrow> ('k, 'v) dict" where
  "dict_union d e = foldl (\<lambda>d (k, v). dict_set k v d) d e"

record hop =
  hp_verb :: string
  hp_url :: string
  hp_caller :: "(string, string) dict"
  hp_args :: fields

definition send_logged :: "'w web_env \<Rightarrow> request \<Rightarrow> ('w \<times> request list, response) action" where
  "send_logged env r s =
     (case we_send env r (fst s) of (res, w') \<Rightarrow> (res, (w', snd s @ [r])))"

definition connection_lost :: "exn \<Rightarrow> bool" where
  "connection_lost e = (exn_class e \<in> {''ConnectError'', ''ConnectTimeout''})"

definition hop_headers :: "'w web_env \<Rightarrow> string \<Rightarrow> hop \<Rightarrow> (string, string) dict" where
  "hop_headers env url h =
     dict_set ''Host'' (case urlparse [] (hp_url h) of Inl e \<Rightarrow> [] | Inr u \<Rightarrow> ur_netloc u)
       (dict_union (hp_caller h) (we_headers env url (hp_url h)))"

definition request_for :: "'w web_env \<Rightarrow> string \<Rightarrow> hop \<Rightarrow> string \<Rightarrow> string \<Rightarrow> request result" where
  "request_for env url h host ip =
     map_sum id (\<lambda>target. \<lparr>rq_hop = hp_url h, rq_verb = hp_verb h, rq_ip = ip, rq_target = target, rq_caller = hp_caller h,
       rq_headers = hop_headers env url h, rq_sni = host, rq_args = hp_args h\<rparr>) (pinned_url (hp_url h) ip)"

fun try_pinned :: "'w web_env \<Rightarrow> string \<Rightarrow> hop \<Rightarrow> string \<Rightarrow> string list \<Rightarrow> ('w \<times> request list, response) action" where
  "try_pinned env url h host [] s = (Inl (Raised ''ConnectError'' ''No response received from pinned address''), s)"
| "try_pinned env url h host (ip # ips) s =
     (case request_for env url h host ip of
        Inl e \<Rightarrow> (Inl e, s)
      | Inr r \<Rightarrow>
          (case send_logged env r s of
             (Inl e, s') \<Rightarrow>
               (if connection_lost e \<and> ips \<noteq> [] then try_pinned env url h host ips s' else (Inl e, s'))
           | (Inr x, s') \<Rightarrow> (Inr x, s')))"

subsection \<open>Following redirects\<close>

definition cross_origin :: "string \<Rightarrow> string \<Rightarrow> bool result" where
  "cross_origin url next_url =
     (case (origin url, origin next_url) of
        (Inl e, _) \<Rightarrow> Inl e | (Inr a, Inl e) \<Rightarrow> Inl e | (Inr a, Inr b) \<Rightarrow> Inr (a \<noteq> b))"

definition without_keys :: "string list \<Rightarrow> fields \<Rightarrow> fields" where
  "without_keys ks d = filter (\<lambda>(k, v). k \<notin> set ks) d"

definition drop_credentials :: "bool \<Rightarrow> hop \<Rightarrow> hop" where
  "drop_credentials crossing h =
     (if crossing
      then h\<lparr>hp_caller := filter (\<lambda>(k, v). \<not> is_sensitive_header k) (hp_caller h),
        hp_args := without_keys [''auth'', ''cookies''] (hp_args h)\<rparr>
      else h)"

definition switch_method :: "string \<Rightarrow> hop \<Rightarrow> hop" where
  "switch_method verb h =
     (if verb \<noteq> hp_verb h
      then h\<lparr>hp_verb := verb, hp_caller := filter (\<lambda>(k, v). py_lower k \<notin> set entity_headers) (hp_caller h),
        hp_args := without_keys [''data'', ''content'', ''json''] (hp_args h)\<rparr>
      else h)"

definition next_hop :: "hop \<Rightarrow> int \<Rightarrow> string \<Rightarrow> hop result" where
  "next_hop h status location =
     (case urljoin (hp_url h) location of
        Inl e \<Rightarrow> Inl e
      | Inr next_url \<Rightarrow>
          (case cross_origin (hp_url h) next_url of
             Inl e \<Rightarrow> Inl e
           | Inr crossing \<Rightarrow>
               Inr ((switch_method (redirect_method (hp_verb h) status)
                 (drop_credentials crossing (h\<lparr>hp_args := without_keys [''params''] (hp_args h)\<rparr>)))
                 \<lparr>hp_url := next_url\<rparr>)))"

datatype outcome = Response response | Refused_by_us fields

definition location_of :: "response \<Rightarrow> string option" where
  "location_of r = (case rs_header r ''Location'' of Some (c # cs) \<Rightarrow> Some (c # cs) | _ \<Rightarrow> None)"

text \<open>\<open>follow env url n h\<close> is the loop with \<open>n\<close> redirects left.\<close>

fun follow :: "'w web_env \<Rightarrow> string \<Rightarrow> nat \<Rightarrow> hop \<Rightarrow> ('w \<times> request list, outcome) action" where
  "follow env url n h (w, requests) =
     (case resolve_and_validate env (hp_url h) w of
        (Blocked reason, w') \<Rightarrow> (Inr (Refused_by_us (blocked_response (hp_url h) reason)), (w', requests))
      | (Safe host ips, w') \<Rightarrow>
          (case try_pinned env url h host (uniq ips) (w', requests) of
             (Inl e, s') \<Rightarrow> (Inl e, s')
           | (Inr r, s') \<Rightarrow>
               (if rs_status r \<notin> set redirect_codes then (Inr (Response r), s')
                else (case location_of r of
                    None \<Rightarrow> (Inr (Response r), s')
                  | Some location \<Rightarrow>
                      (case n of
                         0 \<Rightarrow> (Inr (Refused_by_us (blocked_response (hp_url h) ''Too many redirects'')), s')
                       | Suc m \<Rightarrow>
                           (case next_hop h (rs_status r) location of
                              Inl e \<Rightarrow> (Inl e, s')
                            | Inr h' \<Rightarrow> follow env url m h' s'))))))"

definition max_redirects :: nat where
  "max_redirects = 5"

definition request_with_safe_redirects ::
  "'w web_env \<Rightarrow> string \<Rightarrow> string \<Rightarrow> (string, string) dict \<Rightarrow> fields \<Rightarrow> ('w \<times> request list, outcome) action" where
  "request_with_safe_redirects env verb url headers args =
     follow env url max_redirects \<lparr>hp_verb = py_upper verb, hp_url = url, hp_caller = headers, hp_args = args\<rparr>"

subsection \<open>No request leaves the public web\<close>

definition resolved_to :: "'w web_env \<Rightarrow> string \<Rightarrow> string \<Rightarrow> bool" where
  "resolved_to env host ip \<longleftrightarrow> (\<exists>w ips w'. we_resolve env host w = (Inr ips, w') \<and> ip \<in> set ips)"

definition secrets :: "(string, string) dict \<Rightarrow> fields \<Rightarrow> string list" where
  "secrets headers args =
     filter is_sensitive_header (map fst headers) @ filter (\<lambda>k. k \<in> {''auth'', ''cookies''}) (map fst args)"

definition body_args :: "fields \<Rightarrow> string list" where
  "body_args args = filter (\<lambda>k. k \<in> {''data'', ''content'', ''json''}) (map fst args)"

definition hop_of :: "request \<Rightarrow> hop" where
  "hop_of r = \<lparr>hp_verb = rq_verb r, hp_url = rq_hop r, hp_caller = rq_caller r, hp_args = rq_args r\<rparr>"

definition to_public_host :: "'w web_env \<Rightarrow> string \<Rightarrow> request \<Rightarrow> bool" where
  "to_public_host env url r \<longleftrightarrow>
     rq_headers r = hop_headers env url (hop_of r) \<and> public_address (rq_ip r) \<and> resolved_to env (rq_sni r) (rq_ip r) \<and>
     pinned_url (rq_hop r) (rq_ip r) = Inr (rq_target r) \<and>
     (\<exists>u. urlparse [] (rq_hop r) = Inr u \<and> ur_scheme u \<in> {''http'', ''https''} \<and> hostname u = Some (rq_sni r))"

definition keeps_secrets :: "string \<Rightarrow> string \<Rightarrow> (string, string) dict \<Rightarrow> request \<Rightarrow> bool" where
  "keeps_secrets verb url headers r \<longleftrightarrow>
     set (rq_caller r) \<subseteq> set headers \<and> (secrets (rq_caller r) (rq_args r) = [] \<or> origin (rq_hop r) = origin url) \<and>
     (body_args (rq_args r) = [] \<or> rq_verb r = verb)"

definition hop_ok :: "string \<Rightarrow> string \<Rightarrow> (string, string) dict \<Rightarrow> hop \<Rightarrow> bool" where
  "hop_ok verb url headers h \<longleftrightarrow>
     set (hp_caller h) \<subseteq> set headers \<and> (secrets (hp_caller h) (hp_args h) = [] \<or> origin (hp_url h) = origin url) \<and>
     (body_args (hp_args h) = [] \<or> hp_verb h = verb)"

lemma validate_safe:
  "validate_addresses h vs = Safe host ips \<Longrightarrow> h = host \<and> vs = ips \<and> list_all public_address ips"
  by (auto simp: validate_addresses_def dropWhile_eq_Nil_conv list_all_iff split: list.splits)

lemma validated_addresses:
  assumes "resolve_and_validate env url w = (Safe host ips, w')" "ip \<in> set ips"
  shows "public_address ip" "resolved_to env host ip"
    "\<exists>u. urlparse [] url = Inr u \<and> ur_scheme u \<in> {''http'', ''https''} \<and> hostname u = Some host"
proof -
  from assms(1) obtain u h v vs where u: "urlparse [] url = Inr u" "ur_scheme u \<in> {''http'', ''https''}"
      "hostname u = Some h" "we_resolve env h w = (Inr (v # vs), w')" "validate_addresses h (v # vs) = Safe host ips"
    by (auto simp: resolve_and_validate_def split: sum.splits prod.splits if_splits option.splits list.splits)
  note vs = validate_safe [OF u(5)]
  show "public_address ip" using vs assms(2) by (simp add: list_all_iff)
  show "resolved_to env host ip" unfolding resolved_to_def using u(4) vs assms(2) by auto
  show "\<exists>u. urlparse [] url = Inr u \<and> ur_scheme u \<in> {''http'', ''https''} \<and> hostname u = Some host"
    using u(1-3) vs by blast
qed

lemma without_keys_mem: "map fst (without_keys ks d) = filter (\<lambda>k. k \<notin> set ks) (map fst d)"
  by (induction d) (auto simp: without_keys_def)

lemma dropped_secrets:
  "secrets (filter (\<lambda>(k, v). \<not> is_sensitive_header k) headers) (without_keys [''auth'', ''cookies''] args) = []"
  by (auto simp: secrets_def without_keys_mem filter_empty_conv)

lemma dropped_body: "body_args (without_keys [''data'', ''content'', ''json''] args) = []"
  by (auto simp: body_args_def without_keys_mem filter_empty_conv)

lemma filtered_none:
  "secrets headers args = [] \<Longrightarrow> secrets (filter P headers) (without_keys ks args) = []"
  "body_args args = [] \<Longrightarrow> body_args (without_keys ks args) = []"
  by (auto simp: secrets_def body_args_def without_keys_mem filter_empty_conv)

lemma filter_all: "filter (\<lambda>x. True) xs = xs"
  by simp

lemma next_hop_ok:
  assumes "hop_ok verb url headers h" "next_hop h status location = Inr h'"
  shows "hop_ok verb url headers h'"
proof -
  let ?h1 = "h\<lparr>hp_args := without_keys [''params''] (hp_args h)\<rparr>"
  from assms(2) obtain u crossing where u: "cross_origin (hp_url h) u = Inr crossing"
    "h' = (switch_method (redirect_method (hp_verb h) status) (drop_credentials crossing ?h1))\<lparr>hp_url := u\<rparr>"
    by (auto simp: next_hop_def split: sum.splits)
  have same: "origin u = origin (hp_url h)" if "\<not> crossing"
    using u(1) that by (auto simp: cross_origin_def split: sum.splits)
  have none: "secrets (hp_caller ?h1) (hp_args ?h1) = []" if "secrets (hp_caller h) (hp_args h) = []"
    using filtered_none(1) [OF that, of "\<lambda>x. True" "[''params'']"] by simp
  have d: "crossing \<and> secrets (hp_caller g) (hp_args g) = [] \<or>
      \<not> crossing \<and> (secrets (hp_caller g) (hp_args g) = [] \<or> origin u = origin url)"
    if "g = drop_credentials crossing ?h1" for g
    using that assms(1) none same dropped_secrets [of "hp_caller h" "hp_args ?h1"]
    by (auto simp: drop_credentials_def hop_ok_def)
  have b: "body_args (hp_args g) = [] \<or> hp_verb g = verb" if "g = drop_credentials crossing ?h1" for g
    using that assms(1) filtered_none(2) by (auto simp: drop_credentials_def hop_ok_def)
  have s: "secrets (hp_caller (switch_method v g)) (hp_args (switch_method v g)) = []"
    if "secrets (hp_caller g) (hp_args g) = []" for v g
    using that filtered_none(1) [OF that] by (simp add: switch_method_def)
  have m: "body_args (hp_args (switch_method v g)) = [] \<or> hp_verb (switch_method v g) = verb"
    if "body_args (hp_args g) = [] \<or> hp_verb g = verb" for v g
    using that by (auto simp: switch_method_def dropped_body)
  have c: "set (hp_caller (switch_method v (drop_credentials crossing ?h1))) \<subseteq> set headers" for v
    using assms(1) by (auto simp: switch_method_def drop_credentials_def hop_ok_def)
  show ?thesis unfolding u(2) hop_ok_def using d [OF refl] b [OF refl] s m c by auto
qed

lemma hop_eta: "\<lparr>hp_verb = hp_verb h, hp_url = hp_url h, hp_caller = hp_caller h, hp_args = hp_args h\<rparr> = h"
  by simp

lemma tried_addresses:
  assumes "try_pinned env url h host ips (w, requests) = (res, (w', requests'))"
    and "hop_ok verb base headers h" "\<And>ip. ip \<in> set ips \<Longrightarrow> public_address ip \<and> resolved_to env host ip"
    and "\<exists>u. urlparse [] (hp_url h) = Inr u \<and> ur_scheme u \<in> {''http'', ''https''} \<and> hostname u = Some host"
    and "list_all (to_public_host env url) requests" "list_all (keeps_secrets verb base headers) requests"
  shows "list_all (to_public_host env url) requests' \<and> list_all (keeps_secrets verb base headers) requests'"
  using assms
proof (induction ips arbitrary: w requests)
  case (Cons ip ips)
  show ?case
  proof (cases "request_for env url h host ip")
    case (Inl e)
    with Cons.prems show ?thesis by simp
  next
    case (Inr r)
    then have r: "pinned_url (hp_url h) ip = Inr (rq_target r)" "rq_hop r = hp_url h" "rq_ip r = ip" "rq_sni r = host"
      "rq_caller r = hp_caller h" "rq_args r = hp_args h" "rq_verb r = hp_verb h" "rq_headers r = hop_headers env url (hop_of r)"
      by (auto simp: hop_eta request_for_def map_sum_def hop_of_def split: sum.splits)
    from Cons.prems(2,3,4) r have ok: "to_public_host env url r" "keeps_secrets verb base headers r"
      by (auto simp: to_public_host_def keeps_secrets_def hop_ok_def)
    obtain x v where v: "we_send env r w = (x, v)" by (cases "we_send env r w") simp
    from Cons.prems(5,6) ok have l: "list_all (to_public_host env url) (requests @ [r])"
      "list_all (keeps_secrets verb base headers) (requests @ [r])" by simp_all
    show ?thesis
    proof (cases "\<exists>e. x = Inl e \<and> connection_lost e \<and> ips \<noteq> []")
      case True
      with Cons.prems(1) Inr v have "try_pinned env url h host ips (v, requests @ [r]) = (res, (w', requests'))"
        by (auto simp: send_logged_def)
      from Cons.IH [OF this Cons.prems(2) _ Cons.prems(4) l] Cons.prems(3) show ?thesis by simp
    next
      case False
      with Cons.prems(1) Inr v have "requests' = requests @ [r]"
        by (auto simp: send_logged_def split: sum.splits if_splits)
      with l show ?thesis by simp
    qed
  qed
qed simp

lemma hop_requests:
  assumes "follow env url n h (w, requests) = (res, (w', requests'))" "hop_ok verb base headers h"
    and "list_all (to_public_host env url) requests" "list_all (keeps_secrets verb base headers) requests"
  obtains v rs where "list_all (to_public_host env url) rs" "list_all (keeps_secrets verb base headers) rs"
    "requests' = rs \<or> (\<exists>m h'. n = Suc m \<and> hop_ok verb base headers h' \<and> follow env url m h' (v, rs) = (res, (w', requests')))"
proof (cases "resolve_and_validate env (hp_url h) w")
  case (Pair c v)
  show ?thesis
  proof (cases c)
    case (Blocked reason)
    with Pair assms that [of requests] show ?thesis by simp
  next
    case (Safe host ips)
    note safe = validated_addresses [OF Pair [unfolded Safe]]
    obtain x v2 rs where t: "try_pinned env url h host (uniq ips) (v, requests) = (x, (v2, rs))"
      by (cases "try_pinned env url h host (uniq ips) (v, requests)") auto
    have host: "\<exists>u. urlparse [] (hp_url h) = Inr u \<and> ur_scheme u \<in> {''http'', ''https''} \<and> hostname u = Some host"
      using Pair Safe by (auto simp: resolve_and_validate_def validate_addresses_def
          split: sum.splits prod.splits if_splits option.splits list.splits)
    have addresses: "public_address ip \<and> resolved_to env host ip" if "ip \<in> set (uniq ips)" for ip
      using safe(1,2) that by simp
    have l: "list_all (to_public_host env url) rs \<and> list_all (keeps_secrets verb base headers) rs"
      by (rule tried_addresses [OF t assms(2) addresses host assms(3,4)])
    have "requests' = rs \<or> (\<exists>m h'. n = Suc m \<and> hop_ok verb base headers h' \<and> follow env url m h' (v2, rs) = (res, (w', requests')))"
      using assms(1) Pair Safe t next_hop_ok [OF assms(2)] by (auto split: sum.splits if_splits option.splits nat.splits)
    with l that [of rs v2] show ?thesis by blast
  qed
qed

lemma followed_requests:
  assumes "follow env url n h (w, requests) = (res, (w', requests'))" "hop_ok verb base headers h"
    and "list_all (to_public_host env url) requests" "list_all (keeps_secrets verb base headers) requests"
  shows "list_all (to_public_host env url) requests' \<and> list_all (keeps_secrets verb base headers) requests'"
  using assms
proof (induction n arbitrary: h w requests)
  case 0
  from 0 show ?case by (rule hop_requests) auto
next
  case (Suc n)
  from Suc.prems show ?case by (rule hop_requests) (use Suc.IH in blast)
qed

lemma guarded_requests:
  assumes "request_with_safe_redirects env verb url headers args (w, []) = (res, (w', requests))" "r \<in> set requests"
  shows "to_public_host env url r \<and> keeps_secrets (py_upper verb) url headers r"
proof -
  let ?h = "\<lparr>hp_verb = py_upper verb, hp_url = url, hp_caller = headers, hp_args = args\<rparr>"
  have "hop_ok (py_upper verb) url headers ?h" by (simp add: hop_ok_def)
  from followed_requests [OF assms(1) [unfolded request_with_safe_redirects_def] this] assms(2)
  show ?thesis by (simp add: list_all_iff)
qed

text \<open>
  C15. No request leaves the public web. Whatever the host names resolve to and whatever redirects the
  servers answer with, every request that is sent goes to an address that was resolved for the host of its
  own hop and is public, also when it is an IPv4 address in IPv6 clothing; its URL is that hop's, over HTTP
  or HTTPS, with the address in place of the host. Its headers are the caller's and those made for this hop,
  with the host. Credentials of the caller are only sent to the origin of
  the first URL, and a body only with the method that was asked for.
\<close>

theorem requests_stay_on_the_public_web:
  assumes "request_with_safe_redirects env verb url headers args (w, []) = (res, (w', requests))"
  shows "list_all (\<lambda>r. rq_headers r = hop_headers env url (hop_of r) \<and> set (rq_caller r) \<subseteq> set headers \<and>
      public_address (rq_ip r) \<and> resolved_to env (rq_sni r) (rq_ip r) \<and>
      pinned_url (rq_hop r) (rq_ip r) = Inr (rq_target r) \<and>
      (\<exists>u. urlparse [] (rq_hop r) = Inr u \<and> ur_scheme u \<in> {''http'', ''https''} \<and> hostname u = Some (rq_sni r)) \<and>
      (secrets (rq_caller r) (rq_args r) = [] \<or> origin (rq_hop r) = origin url) \<and>
      (body_args (rq_args r) = [] \<or> rq_verb r = py_upper verb)) requests"
  using guarded_requests [OF assms] by (simp add: to_public_host_def keeps_secrets_def list_all_iff)

text \<open>A server of the example redirects to a host inside, under a name that resolves to a public address.\<close>

definition sample_web :: "nat web_env" where
  "sample_web =
     \<lparr>we_resolve = (\<lambda>host w. (Inr (if host = ''in.example'' then [''10.0.0.5''] else [''8.8.8.8'']), w)),
      we_send = (\<lambda>r w. (Inr \<lparr>rs_status = 302,
        rs_header = (\<lambda>k. if k = ''Location'' then Some (if w = 0 then ''https://cdn.example/x'' else ''http://in.example/'') else None),
        rs_text = [], rs_json = None\<rparr>, w + 1)),
      we_headers = (\<lambda>u v. [])\<rparr>"

theorem requests_stay_on_the_public_web_witness:
  "list_all (\<lambda>r. public_address (rq_ip r))
     (snd (snd (request_with_safe_redirects sample_web ''post'' ''https://api.example/v1''
       [(''Authorization'', ''Bearer x'')] [(''json'', JNull)] (0, [])))) \<and>
   map (\<lambda>r. (rq_verb r, rq_target r, map fst (rq_caller r)))
     (snd (snd (request_with_safe_redirects sample_web ''post'' ''https://api.example/v1''
       [(''Authorization'', ''Bearer x'')] [(''json'', JNull)] (0, [])))) =
     [(''POST'', ''https://8.8.8.8/v1'', [''Authorization'']), (''GET'', ''https://8.8.8.8/x'', [])]"
proof -
  let ?run = "request_with_safe_redirects sample_web ''post'' ''https://api.example/v1''
       [(''Authorization'', ''Bearer x'')] [(''json'', JNull)] (0, [])"
  have "?run = (fst ?run, (fst (snd ?run), snd (snd ?run)))" by simp
  from requests_stay_on_the_public_web [OF this]
  have "list_all (\<lambda>r. public_address (rq_ip r)) (snd (snd ?run))" by (simp add: list_all_iff)
  moreover have "map (\<lambda>r. (rq_verb r, rq_target r, map fst (rq_caller r))) (snd (snd ?run)) =
     [(''POST'', ''https://8.8.8.8/v1'', [''Authorization'']), (''GET'', ''https://8.8.8.8/x'', [])]" by code_simp
  ultimately show ?thesis by blast
qed

text \<open>
  What counts as public are the addresses that \<open>ipaddress\<close> calls global: a multicast address does, and so
  do the addresses of a NAT64 gateway that stand for the loopback interface.
\<close>

lemma ipv6_read:
  assumes "parse_ipv4 s = None" "hextets (split_on (CHR '':'') s) = Some gs" "expand_groups gs = Some ns"
    "CHR ''/'' \<notin> set s" "CHR ''%'' \<notin> set s" "3 \<le> length (split_on (CHR '':'') s)"
  shows "ip_address s = Some (V6 (from_parts 16 ns))"
proof -
  have t: "takeWhile (\<lambda>c. c \<noteq> CHR ''%'') s = s" using assms(5) by (auto simp: takeWhile_eq_all_conv)
  show ?thesis unfolding ip_address_def parse_ipv6_def Let_def t using assms by simp
qed

lemma multicast_and_nat64_pass:
  "public_address ''224.0.0.1''" "public_address ''64:ff9b::7f00:1''" "public_address ''::7f00:1''"
proof -
  note hex = hex_value_def hex_digit_def is_hex_c_def is_digit_c_def ord_c_def
  have groups: "expand_groups [Some a, Some b, None, Some c, Some d] = Some [a, b, 0, 0, 0, 0, c, d]"
    "expand_groups [None, None, Some c, Some d] = Some [0, 0, 0, 0, 0, 0, c, d]" for a b c d
    by (simp_all add: expand_groups_def fill_groups_def upt_rec numeral_eq_Suc Let_def)
  have v4: "parse_ipv4 ''64:ff9b::7f00:1'' = None" "parse_ipv4 ''::7f00:1'' = None" by code_simp+
  note nets = public_address_def from_parts_def ipv4_mapped_def in_some_def private6_def in_network_def net6_def
  show "public_address ''224.0.0.1''" by code_simp
  have s: "split_on (CHR '':'') ''64:ff9b::7f00:1'' = [''64'', ''ff9b'', [], ''7f00'', ''1'']"
    "split_on (CHR '':'') ''::7f00:1'' = [[], [], ''7f00'', ''1'']" by code_simp+
  have "hextets (split_on (CHR '':'') ''64:ff9b::7f00:1'') = Some [Some 0x64, Some 0xFF9B, None, Some 0x7F00, Some 1]"
    unfolding s by (simp add: hex)
  from ipv6_read [OF _ this, of "[0x64, 0xFF9B, 0, 0, 0, 0, 0x7F00, 1]"]
  have "ip_address ''64:ff9b::7f00:1'' = Some (V6 (from_parts 16 [0x64, 0xFF9B, 0, 0, 0, 0, 0x7F00, 1]))"
    by (simp add: s v4 groups)
  then show "public_address ''64:ff9b::7f00:1''" by (simp add: nets)
  have "hextets (split_on (CHR '':'') ''::7f00:1'') = Some [None, None, Some 0x7F00, Some 1]"
    unfolding s by (simp add: hex)
  from ipv6_read [OF _ this, of "[0, 0, 0, 0, 0, 0, 0x7F00, 1]"]
  have "ip_address ''::7f00:1'' = Some (V6 (from_parts 16 [0, 0, 0, 0, 0, 0, 0x7F00, 1]))"
    by (simp add: s v4 groups)
  then show "public_address ''::7f00:1''" by (simp add: nets)
qed

text \<open>
  A URL with user information keeps it in the \<open>Host\<close> header, where no user information belongs, and loses
  it from the URL, so no authentication is sent either; a port that is no number is an exception of the
  caller and not a blocked request.
\<close>

lemma user_info_goes_to_host_header:
  "map_of (hop_headers env url \<lparr>hp_verb = ''GET'', hp_url = ''http://u:p@a.example/'', hp_caller = [], hp_args = []\<rparr>) ''Host'' =
     Some ''u:p@a.example''"
  "pinned_url ''http://u:p@a.example/'' ''8.8.8.8'' = Inr ''http://8.8.8.8/''"
  "pinned_url ''http://a.example:x/'' ''8.8.8.8'' =
     Inl (url_value_error (''Port could not be cast to integer value as '' @ quoted ''x''))"
proof -
  have "map_sum id ur_netloc (urlparse [] ''http://u:p@a.example/'') = Inr ''u:p@a.example''" by code_simp
  then obtain u where "urlparse [] ''http://u:p@a.example/'' = Inr u" "ur_netloc u = ''u:p@a.example''"
    by (cases "urlparse [] ''http://u:p@a.example/''") auto
  then show "map_of (hop_headers env url \<lparr>hp_verb = ''GET'', hp_url = ''http://u:p@a.example/'', hp_caller = [], hp_args = []\<rparr>)
      ''Host'' = Some ''u:p@a.example''" by (simp add: hop_headers_def dict_set_lookup)
qed code_simp+

end
