(* ===== verification/Web_Tools.thy ===== *)
theory Web_Tools
  imports Url_Safety Classifier
begin

section \<open>The tools that read the web\<close>

text \<open>
  Models \<open>agent/tools/http_request.py\<close>, \<open>agent/tools/fetch_url.py\<close>, the chunks of
  \<open>agent/tools/_sandbox_output.py\<close> and the images of \<open>agent/utils/multimodal.py\<close>, all on top of the
  guarded requests. Serialisation, the conversion to markdown, base64, the guess of a content type, the
  file in the sandbox and the text of an HTTP status error are parameters. The URL of a response is the
  URL of the request that got it, which is the pinned one.
\<close>

subsection \<open>Chunks\<close>

definition output_chunk_chars :: nat where
  "output_chunk_chars = 500"

function chunks :: "nat \<Rightarrow> string \<Rightarrow> string list" where
  "chunks n s = (if length s \<le> n \<or> n = 0 then [s] else take n s # chunks n (drop n s))"
  by pat_completeness auto
termination by (relation "measure (\<lambda>(n, s). length s)") auto

declare chunks.simps [simp del]

definition chunk_record :: "nat \<Rightarrow> string \<Rightarrow> json" where
  "chunk_record i s = JDict [(''chunk'', JInt (int i)), (''text'', JStr s)]"

definition chunk_output_as_jsonl :: "(json \<Rightarrow> string) \<Rightarrow> string \<Rightarrow> string" where
  "chunk_output_as_jsonl dumps content =
     join [newline] (map (\<lambda>(i, s). dumps (chunk_record i s)) (enumerate 1 (chunks output_chunk_chars content)))"

subsection \<open>The requests of the agent\<close>

record 'w web_tools =
  wt_web :: "'w web_env"
  wt_dumps :: "json \<Rightarrow> string"
  wt_line :: "json \<Rightarrow> string"
  wt_write :: "string \<Rightarrow> string \<Rightarrow> ('w, string) action"
  wt_headers :: "response \<Rightarrow> fields"
  wt_status_error :: "response \<Rightarrow> exn"
  wt_markdown :: "string \<Rightarrow> string"
  wt_bytes :: "response \<Rightarrow> string"
  wt_base64 :: "string \<Rightarrow> string"
  wt_guess :: "string \<Rightarrow> string option"

definition inline_limit :: int where
  "inline_limit = 100000"

definition timeout_classes :: "string list" where
  "timeout_classes = [''TimeoutException'', ''ConnectTimeout'', ''ReadTimeout'', ''WriteTimeout'', ''PoolTimeout'']"

definition no_response :: "string \<Rightarrow> string \<Rightarrow> fields" where
  "no_response url content =
     [(''success'', JBool False), (''status_code'', JInt 0), (''headers'', JDict []), (''content'', JStr content),
      (''url'', JStr url)]"

definition request_args :: "fields \<Rightarrow> json \<Rightarrow> fields" where
  "request_args params data =
     (if params = [] then [] else [(''params'', JDict params)]) @
     (if \<not> truthy data then []
      else (case data of JDict d \<Rightarrow> [(''json'', data)] | v \<Rightarrow> [(''content'', v)]))"

definition final_url :: "request list \<Rightarrow> string" where
  "final_url requests = (if requests = [] then [] else rq_target (last requests))"

definition response_result :: "'w web_tools \<Rightarrow> response \<Rightarrow> string \<Rightarrow> fields" where
  "response_result wt r url =
     [(''success'', JBool (rs_status r < 400)), (''status_code'', JInt (rs_status r)),
      (''headers'', JDict (wt_headers wt r)),
      (''content'', case rs_json r of Some v \<Rightarrow> v | None \<Rightarrow> JStr (rs_text r)), (''url'', JStr url)]"

definition offload_large_response :: "'w web_tools \<Rightarrow> fields \<Rightarrow> ('w, fields) action" where
  "offload_large_response wt result w =
     (let serialized = wt_dumps wt (JDict result)
      in if int (length serialized) \<le> inline_limit then (Inr result, w)
         else (case wt_write wt ''http-response'' (chunk_output_as_jsonl (wt_line wt) serialized) w of
             (Inl e, w') \<Rightarrow>
               (Inr [(''success'', JBool False), (''status_code'', field result ''status_code''), (''headers'', JDict []),
                  (''content'', JStr ''Response exceeded the inline limit and could not be saved to the sandbox''),
                  (''url'', field result ''url''), (''response_chars'', JInt (int (length serialized)))], w')
           | (Inr path, w') \<Rightarrow>
               (Inr [(''success'', field result ''success''), (''status_code'', field result ''status_code''),
                  (''url'', field result ''url''), (''response_path'', JStr path),
                  (''response_chars'', JInt (int (length serialized)))], w')))"

definition http_request ::
  "'w web_tools \<Rightarrow> string \<Rightarrow> string \<Rightarrow> (string, string) dict \<Rightarrow> json \<Rightarrow> fields \<Rightarrow> int \<Rightarrow> ('w, fields) action" where
  "http_request wt url verb headers data params timeout w =
     (case request_with_safe_redirects (wt_web wt) verb url headers (request_args params data) (w, []) of
        (Inl e, (w', requests)) \<Rightarrow>
          (if exn_class e \<in> set timeout_classes
           then Inr (no_response url (''Request timed out after '' @ show_int timeout @ '' seconds''))
           else if is_http_error e then Inr (no_response url (''Request error: '' @ exn_str e))
           else Inl e, w')
      | (Inr (Refused_by_us d), (w', requests)) \<Rightarrow> (Inr d, w')
      | (Inr (Response r), (w', requests)) \<Rightarrow>
          offload_large_response wt (response_result wt r (final_url requests)) w')"

definition raise_for_status :: "'w web_tools \<Rightarrow> response \<Rightarrow> unit result" where
  "raise_for_status wt r = (if status_ok r then Inr () else Inl (wt_status_error wt r))"

definition fetch_agent :: "(string, string) dict" where
  "fetch_agent = [(''User-Agent'', ''Mozilla/5.0 (compatible; DeepAgents/1.0)'')]"

definition truncated_markdown :: "string \<Rightarrow> string" where
  "truncated_markdown s =
     (if int (length s) \<le> inline_limit then s
      else take (nat inline_limit) s @ [newline] @ ''... [content truncated: 100000/'' @ show_nat (length s) @ '' chars]'' @
        [newline])"

definition fetch_failed :: "exn \<Rightarrow> string \<Rightarrow> fields result" where
  "fetch_failed e url =
     (if is_http_error e then Inr [(''error'', JStr (''Fetch URL error: '' @ exn_str e)), (''url'', JStr url)] else Inl e)"

definition fetch_url :: "'w web_tools \<Rightarrow> string \<Rightarrow> ('w, fields) action" where
  "fetch_url wt url w =
     (case request_with_safe_redirects (wt_web wt) ''GET'' url fetch_agent [] (w, []) of
        (Inl e, (w', requests)) \<Rightarrow> (fetch_failed e url, w')
      | (Inr (Refused_by_us d), (w', requests)) \<Rightarrow>
          (Inr [(''error'', field d ''content''), (''status_code'', field d ''status_code''), (''url'', field d ''url'')], w')
      | (Inr (Response r), (w', requests)) \<Rightarrow>
          (case raise_for_status wt r of
             Inl e \<Rightarrow> (fetch_failed e url, w')
           | Inr u \<Rightarrow>
               (let content = truncated_markdown (wt_markdown wt (rs_text r))
                in (Inr [(''url'', JStr (final_url requests)), (''markdown_content'', JStr content),
                     (''status_code'', JInt (rs_status r)), (''content_length'', JInt (int (length content)))], w'))))"

subsection \<open>The images of a message\<close>

definition nonstop :: rx where
  "nonstop = Cls (\<lambda>c. \<not> is_space_c c \<and> c \<noteq> CHR '')'')"

definition image_markdown_rx :: rx where
  "image_markdown_rx =
     cat [Lit ''!['', star (Cls (\<lambda>c. c \<noteq> CHR '']'')), Lit '']('',
       Grp 1 (cat [Lit ''http'', opt (Lit ''s''), Lit ''://'', plus1 nonstop]), Lit '')'']"

definition image_url_rx :: rx where
  "image_url_rx =
     Grp 1 (cat [LitI ''http'', opt (LitI ''s''), Lit ''://'', plus1 nonstop, Lit ''.'',
       alts [LitI ''png'', cat [LitI ''jp'', opt (LitI ''e''), LitI ''g''], LitI ''gif'', LitI ''webp'', LitI ''bmp'', LitI ''tiff''],
       opt (cat [Lit ''?'', plus1 nonstop])])"

definition extract_image_urls :: "string \<Rightarrow> string list" where
  "extract_image_urls t =
     uniq (map (group_text 1) (find_all image_markdown_rx t) @ map (group_text 1) (find_all image_url_rx t))"

datatype image_host = LinearHost | SlackHost

definition of_host :: "string \<Rightarrow> string \<Rightarrow> bool" where
  "of_host d host = (host = d \<or> ends_with (''.'' @ d) host)"

definition image_provider :: "string \<Rightarrow> image_host option result" where
  "image_provider url =
     (case urlparse [] url of
        Inl e \<Rightarrow> Inl e
      | Inr u \<Rightarrow>
          (let host = (case hostname u of None \<Rightarrow> [] | Some h \<Rightarrow> py_lower h)
           in Inr (if of_host ''uploads.linear.app'' host then Some LinearHost
                else if of_host ''files.slack.com'' host then Some SlackHost else None)))"

text \<open>The keys are the environment variables \<open>LINEAR_API_KEY\<close> and \<open>SLACK_BOT_TOKEN\<close>, empty when unset.\<close>

definition image_auth_headers_for_url :: "string \<Rightarrow> string \<Rightarrow> string \<Rightarrow> string \<Rightarrow> (string, string) dict" where
  "image_auth_headers_for_url linear_key slack_token original current =
     (case (image_provider original, image_provider current) of
        (Inr (Some p), Inr q) \<Rightarrow>
          (if q \<noteq> Some p then []
           else (case p of
               LinearHost \<Rightarrow> (if linear_key = [] then [] else [(''Authorization'', linear_key)])
             | SlackHost \<Rightarrow> (if slack_token = [] then [] else [(''Authorization'', ''Bearer '' @ slack_token)])))
      | _ \<Rightarrow> [])"

datatype content_block = ImageBlock string string | TextBlock string

definition max_image_bytes :: int where
  "max_image_bytes = 10 * 1024 * 1024"

definition supported_images :: "string list" where
  "supported_images = [''image/jpeg'', ''image/png'', ''image/gif'', ''image/webp'']"

definition content_type_of :: "'w web_tools \<Rightarrow> response \<Rightarrow> string \<Rightarrow> string option" where
  "content_type_of wt r url =
     (let stated = strip (before_char (CHR '';'') (case rs_header r ''Content-Type'' of None \<Rightarrow> [] | Some s \<Rightarrow> s))
      in if stated \<noteq> [] then Some stated
         else (case wt_guess wt url of Some (c # cs) \<Rightarrow> Some (c # cs) | _ \<Rightarrow> None))"

definition image_block :: "'w web_tools \<Rightarrow> response \<Rightarrow> string \<Rightarrow> content_block option" where
  "image_block wt r url =
     (if \<not> status_ok r then None
      else (case content_type_of wt r url of
          None \<Rightarrow> None
        | Some mime \<Rightarrow>
            (if mime \<notin> set supported_images then None
             else if max_image_bytes < int (length (wt_bytes wt r))
             then Some (TextBlock ''An attached image was skipped because it exceeded the 10 MiB size limit.'')
             else Some (ImageBlock (wt_base64 wt (wt_bytes wt r)) mime))))"

definition image_env :: "'w web_tools \<Rightarrow> string \<Rightarrow> string \<Rightarrow> 'w web_env" where
  "image_env wt linear_key slack_token =
     (wt_web wt)\<lparr>we_headers := image_auth_headers_for_url linear_key slack_token\<rparr>"

definition fetch_image_block ::
  "'w web_tools \<Rightarrow> string \<Rightarrow> string \<Rightarrow> string \<Rightarrow> 'w \<Rightarrow> content_block option \<times> 'w \<times> request list" where
  "fetch_image_block wt linear_key slack_token url w =
     (case request_with_safe_redirects (image_env wt linear_key slack_token) ''GET'' url [] [] (w, []) of
        (Inr (Response r), s) \<Rightarrow> (image_block wt r url, s)
      | (res, s) \<Rightarrow> (None, s))"

subsection \<open>The chunks hold the text\<close>

text \<open>
  The chunks of a large response, put together again, are the response, and each chunk has at most as many
  characters as was asked for; only the last one may be shorter.
\<close>

theorem chunks_hold_the_text:
  assumes "0 < n"
  shows "concat (chunks n s) = s \<and> list_all (\<lambda>c. length c \<le> n) (chunks n s) \<and>
    list_all (\<lambda>c. length c = n) (butlast (chunks n s))"
  using assms
proof (induction n s rule: chunks.induct)
  case (1 n s)
  show ?case
  proof (cases "length s \<le> n")
    case True
    then show ?thesis by (simp add: chunks.simps [of n s])
  next
    case False
    with 1 have "concat (chunks n (drop n s)) = drop n s" "list_all (\<lambda>c. length c \<le> n) (chunks n (drop n s))"
      "list_all (\<lambda>c. length c = n) (butlast (chunks n (drop n s)))" by auto
    with False "1.prems" show ?thesis by (simp add: chunks.simps [of n s])
  qed
qed

theorem chunks_hold_the_text_witness:
  "concat (chunks 3 ''abcdefgh'') = ''abcdefgh'' \<and> chunks 3 ''abcdefgh'' = [''abc'', ''def'', ''gh'']"
  using chunks_hold_the_text [of 3 "''abcdefgh''"] by (simp add: chunks.simps)

subsection \<open>The keys of the image hosts\<close>

text \<open>
  The keys stay with their host. While an image of a message is fetched, through any redirects, a request
  carries an authorization only when both the image and the hop are files of the same service, and then the
  key of that service; like all requests of the guard it goes to a public address of the hop's own host.
\<close>

theorem image_keys_stay_with_their_host:
  assumes "fetch_image_block wt linear_key slack_token url w = (block, (w', requests))"
  shows "list_all (\<lambda>r. public_address (rq_ip r) \<and> resolved_to (image_env wt linear_key slack_token) (rq_sni r) (rq_ip r) \<and>
    (case map_of (rq_headers r) ''Authorization'' of
       None \<Rightarrow> True
     | Some key \<Rightarrow> \<exists>p. image_provider url = Inr (Some p) \<and> image_provider (rq_hop r) = Inr (Some p) \<and>
         key = (case p of LinearHost \<Rightarrow> linear_key | SlackHost \<Rightarrow> ''Bearer '' @ slack_token))) requests"
proof -
  let ?env = "image_env wt linear_key slack_token"
  obtain res where "request_with_safe_redirects ?env ''GET'' url [] [] (w, []) = (res, (w', requests))"
    using assms by (auto simp: fetch_image_block_def split: prod.splits sum.splits outcome.splits)
  note safe = guarded_requests [OF this]
  have headers: "we_headers ?env = image_auth_headers_for_url linear_key slack_token" by (simp add: image_env_def)
  have key: "case map_of (hop_headers ?env url h) ''Authorization'' of
       None \<Rightarrow> True
     | Some key \<Rightarrow> \<exists>p. image_provider url = Inr (Some p) \<and> image_provider (hp_url h) = Inr (Some p) \<and>
         key = (case p of LinearHost \<Rightarrow> linear_key | SlackHost \<Rightarrow> ''Bearer '' @ slack_token)"
    if "hp_caller h = []" for h
    using that by (auto simp: hop_headers_def headers dict_union_def dict_set_lookup image_auth_headers_for_url_def
        split: option.splits sum.splits if_splits image_host.splits)
  show ?thesis unfolding list_all_iff
  proof
    fix r assume "r \<in> set requests"
    from safe [OF this] have r: "rq_headers r = hop_headers ?env url (hop_of r)" "hp_caller (hop_of r) = []"
      "hp_url (hop_of r) = rq_hop r" "public_address (rq_ip r)" "resolved_to ?env (rq_sni r) (rq_ip r)"
      by (simp_all add: to_public_host_def keeps_secrets_def hop_of_def)
    from key [OF r(2)] show "public_address (rq_ip r) \<and> resolved_to ?env (rq_sni r) (rq_ip r) \<and>
      (case map_of (rq_headers r) ''Authorization'' of
         None \<Rightarrow> True
       | Some key \<Rightarrow> \<exists>p. image_provider url = Inr (Some p) \<and> image_provider (rq_hop r) = Inr (Some p) \<and>
           key = (case p of LinearHost \<Rightarrow> linear_key | SlackHost \<Rightarrow> ''Bearer '' @ slack_token))"
      unfolding r(1,3) using r(4,5) by blast
  qed
qed

text \<open>The image of the example lies with Slack, which redirects to a host elsewhere: the second request has no key.\<close>

definition sample_tools :: "nat web_tools" where
  "sample_tools =
     \<lparr>wt_web = sample_web\<lparr>we_send := (\<lambda>r w. (Inr (if w = 0
          then \<lparr>rs_status = 302, rs_header = (\<lambda>k. Some ''https://cdn.example/x.png''), rs_text = [], rs_json = None\<rparr>
          else \<lparr>rs_status = 200, rs_header = (\<lambda>k. Some ''image/png; q=1''), rs_text = ''PNG'', rs_json = None\<rparr>), w + 1))\<rparr>,
      wt_dumps = (\<lambda>v. []), wt_line = (\<lambda>v. []), wt_write = (\<lambda>n t w. (Inr n, w)), wt_headers = (\<lambda>r. []),
      wt_status_error = (\<lambda>r. Raised ''HTTPStatusError'' []), wt_markdown = id, wt_bytes = rs_text, wt_base64 = id,
      wt_guess = (\<lambda>u. None)\<rparr>"

theorem image_keys_stay_with_their_host_witness:
  "fst (fetch_image_block sample_tools ''lk'' ''xoxb'' ''https://files.slack.com/a.png'' 0) = Some (ImageBlock ''PNG'' ''image/png'') \<and>
   map (\<lambda>r. map_of (rq_headers r) ''Authorization'')
     (snd (snd (fetch_image_block sample_tools ''lk'' ''xoxb'' ''https://files.slack.com/a.png'' 0))) =
     [Some ''Bearer xoxb'', None] \<and>
   list_all (\<lambda>r. public_address (rq_ip r))
     (snd (snd (fetch_image_block sample_tools ''lk'' ''xoxb'' ''https://files.slack.com/a.png'' 0)))"
proof -
  let ?run = "fetch_image_block sample_tools ''lk'' ''xoxb'' ''https://files.slack.com/a.png'' 0"
  have "?run = (fst ?run, (fst (snd ?run), snd (snd ?run)))" by simp
  from image_keys_stay_with_their_host [OF this]
  have "list_all (\<lambda>r. public_address (rq_ip r)) (snd (snd ?run))" by (simp add: list_all_iff)
  moreover have "fst ?run = Some (ImageBlock ''PNG'' ''image/png'') \<and>
    map (\<lambda>r. map_of (rq_headers r) ''Authorization'') (snd (snd ?run)) = [Some ''Bearer xoxb'', None]" by code_simp
  ultimately show ?thesis by blast
qed

text \<open>
  The URL that the tools report is that of the last request, in which an address stands for the host: it is
  not the final URL that the documentation of \<open>fetch_url\<close> promises.
\<close>

lemma reported_url_is_pinned:
  "fst (fetch_url sample_tools ''https://a.example/x'' 1) =
     Inr [(''url'', JStr ''https://8.8.8.8/x''), (''markdown_content'', JStr ''PNG''), (''status_code'', JInt 200),
       (''content_length'', JInt 3)]"
  by code_simp

text \<open>
  The scheme plays no part: a link to a file of the service over plain HTTP gets the key too, in clear text.
\<close>

lemma image_key_over_plain_http:
  "image_auth_headers_for_url ''key'' [] ''http://uploads.linear.app/a.png'' ''http://uploads.linear.app/a.png'' =
     [(''Authorization'', ''key'')]"
  by code_simp

end
