(* ===== verification/Github_Ci.thy ===== *)
theory Github_Ci
  imports Publish_Review
begin

section \<open>The CI state of a commit\<close>

text \<open>
  Models \<open>agent/utils/github_ci.py\<close>: the complete sets of check runs and commit statuses of a commit, the
  failing ones, the failures inherited from the base, pull requests and permissions, and what a CI webhook
  says. A listing is read page by page until a page that is not full; as it might go on for ever, not
  returning is the value \<open>None\<close> of the reader.
\<close>

subsection \<open>Reading\<close>

definition failing_conclusions :: "json list" where
  "failing_conclusions = map JStr [''failure'', ''timed_out'', ''action_required'']"

definition failing_states :: "json list" where
  "failing_states = [JStr ''failure'', JStr ''error'']"

definition open_swe_check_names :: "json list" where
  "open_swe_check_names = [JStr review_check_run_name, JStr autofix_check_run_name]"

definition ci_params :: "fields \<Rightarrow> int \<Rightarrow> fields" where
  "ci_params extra page =
     [(''params'', JDict ([(''per_page'', JStr ''100''), (''page'', JStr (show_int page))] @ extra))]"

definition read_json :: "'w github \<Rightarrow> string \<Rightarrow> fields \<Rightarrow> ('w, json option) action" where
  "read_json gh url args =
     and_then (good gh ''GET'' url args)
       (\<lambda>r. case r of None \<Rightarrow> give None | Some r \<Rightarrow> and_then (body_json r) (\<lambda>v. give (Some v)))"

partial_function (option) collect ::
  "'w github \<Rightarrow> string \<Rightarrow> string \<Rightarrow> fields \<Rightarrow> int \<Rightarrow> fields list \<Rightarrow> 'w \<Rightarrow> (fields list option result \<times> 'w) option" where
  "collect gh url key extra page found w =
     (case read_json gh url (ci_params extra page) w of
        (Inl e, w1) \<Rightarrow> Some (Inl e, w1)
      | (Inr None, w1) \<Rightarrow> Some (Inr None, w1)
      | (Inr (Some v), w1) \<Rightarrow>
          (case as_list (jget v key) of
             None \<Rightarrow> Some (Inr (Some found), w1)
           | Some items \<Rightarrow>
               (if length items < 100 then Some (Inr (Some (found @ List.map_filter as_dict items)), w1)
                else collect gh url key extra (page + 1) (found @ List.map_filter as_dict items) w1)))"

definition commit_url :: "string \<Rightarrow> string \<Rightarrow> string \<Rightarrow> string \<Rightarrow> string" where
  "commit_url owner repo ref tail_path = repo_url owner repo (''/commits/'' @ ref @ tail_path)"

definition foreign_check :: "fields \<Rightarrow> bool" where
  "foreign_check run = (field run ''name'' \<notin> set open_swe_check_names)"

definition map_answer :: "('a \<Rightarrow> 'b) \<Rightarrow> ('a option result \<times> 'w) option \<Rightarrow> ('b option result \<times> 'w) option" where
  "map_answer f = map_option (map_prod (map_sum id (map_option f)) id)"

definition list_check_runs ::
  "'w github \<Rightarrow> string \<Rightarrow> string \<Rightarrow> string \<Rightarrow> 'w \<Rightarrow> (fields list option result \<times> 'w) option" where
  "list_check_runs gh owner repo ref w =
     map_answer (filter foreign_check)
       (collect gh (commit_url owner repo ref ''/check-runs'') ''check_runs'' [(''filter'', JStr ''latest'')] 1 [] w)"

fun latest_statuses :: "string list \<Rightarrow> fields list \<Rightarrow> fields list" where
  "latest_statuses seen [] = []"
| "latest_statuses seen (s # ss) =
     (let key = str_or [] (field s ''context'')
      in if key \<in> set seen then latest_statuses seen ss else s # latest_statuses (key # seen) ss)"

definition list_commit_statuses ::
  "'w github \<Rightarrow> string \<Rightarrow> string \<Rightarrow> string \<Rightarrow> 'w \<Rightarrow> (fields list option result \<times> 'w) option" where
  "list_commit_statuses gh owner repo ref w =
     map_answer (latest_statuses []) (collect gh (commit_url owner repo ref ''/status'') ''statuses'' [] 1 [] w)"

definition failing_run :: "fields \<Rightarrow> bool" where
  "failing_run run = (field run ''status'' = JStr ''completed'' \<and> field run ''conclusion'' \<in> set failing_conclusions)"

definition failing_status :: "fields \<Rightarrow> bool" where
  "failing_status s = (field s ''state'' \<in> set failing_states)"

definition failing_check_of :: "fields \<Rightarrow> fields" where
  "failing_check_of run =
     [(''name'', truthy_or (field run ''name'') (JStr [])), (''conclusion'', field run ''conclusion''),
      (''details_url'', truthy_or (truthy_or (field run ''details_url'') (field run ''html_url'')) (JStr []))]"

definition failing_status_of :: "fields \<Rightarrow> fields" where
  "failing_status_of s =
     [(''name'', truthy_or (field s ''context'') (JStr [])), (''conclusion'', field s ''state''),
      (''details_url'', truthy_or (field s ''target_url'') (JStr []))]"

definition list_failing_check_runs ::
  "'w github \<Rightarrow> string \<Rightarrow> string \<Rightarrow> string \<Rightarrow> 'w \<Rightarrow> (fields list option result \<times> 'w) option" where
  "list_failing_check_runs gh owner repo ref w =
     map_answer (\<lambda>rs. map failing_check_of (filter failing_run rs)) (list_check_runs gh owner repo ref w)"

definition list_failing_statuses ::
  "'w github \<Rightarrow> string \<Rightarrow> string \<Rightarrow> string \<Rightarrow> 'w \<Rightarrow> (fields list option result \<times> 'w) option" where
  "list_failing_statuses gh owner repo ref w =
     map_answer (\<lambda>ss. map failing_status_of (filter failing_status ss)) (list_commit_statuses gh owner repo ref w)"

definition failing_names :: "fields list option \<Rightarrow> json set" where
  "failing_names checks =
     (case checks of None \<Rightarrow> {} | Some cs \<Rightarrow> set (filter truthy (map (\<lambda>c. field c ''name'') cs)))"

definition names_failing_on_base ::
  "'w github \<Rightarrow> string \<Rightarrow> string \<Rightarrow> string \<Rightarrow> 'w \<Rightarrow> (json set result \<times> 'w) option" where
  "names_failing_on_base gh owner repo base_sha w =
     (if base_sha = [] then Some (Inr {}, w)
      else (case list_failing_check_runs gh owner repo base_sha w of
          None \<Rightarrow> None
        | Some (Inl e, w1) \<Rightarrow> Some (Inl e, w1)
        | Some (Inr checks, w1) \<Rightarrow>
            (case list_failing_statuses gh owner repo base_sha w1 of
               None \<Rightarrow> None
             | Some (Inl e, w2) \<Rightarrow> Some (Inl e, w2)
             | Some (Inr sts, w2) \<Rightarrow> Some (Inr (failing_names checks \<union> failing_names sts), w2))))"

subsection \<open>Pull requests and permissions\<close>

definition as_first :: "json \<Rightarrow> fields option" where
  "as_first v = (case v of JList (JDict d # xs) \<Rightarrow> Some d | _ \<Rightarrow> None)"

definition fetch_open_pr_for_branch ::
  "'w github \<Rightarrow> string \<Rightarrow> string \<Rightarrow> string \<Rightarrow> ('w, fields option) action" where
  "fetch_open_pr_for_branch gh owner repo branch =
     and_then
       (read_json gh (repo_url owner repo ''/pulls'')
         [(''params'', JDict [(''head'', JStr (owner @ '':'' @ branch)), (''state'', JStr ''open''), (''per_page'', JStr ''1'')])])
       (\<lambda>v. give (case v of None \<Rightarrow> None | Some v \<Rightarrow> as_first v))"

definition fetch_pr :: "'w github \<Rightarrow> string \<Rightarrow> string \<Rightarrow> int \<Rightarrow> ('w, fields option) action" where
  "fetch_pr gh owner repo pr_number =
     and_then (read_json gh (pull_url owner repo pr_number []) [])
       (\<lambda>v. give (case v of None \<Rightarrow> None | Some v \<Rightarrow> as_dict v))"

definition head_commit_author_login :: "'w github \<Rightarrow> string \<Rightarrow> string \<Rightarrow> string \<Rightarrow> ('w, string option) action" where
  "head_commit_author_login gh owner repo sha =
     and_then (read_json gh (commit_url owner repo sha []) [])
       (\<lambda>v. give (case v of None \<Rightarrow> None | Some v \<Rightarrow> nonempty_str (jget (jget v ''author'') ''login'')))"

definition write_permissions :: "json list" where
  "write_permissions = map JStr [''admin'', ''maintain'', ''write'']"

definition has_repo_write_permission :: "'w github \<Rightarrow> string \<Rightarrow> string \<Rightarrow> string \<Rightarrow> ('w, bool) action" where
  "has_repo_write_permission gh owner repo username =
     (if username = [] then give False
      else and_then (read_json gh (repo_url owner repo (''/collaborators/'' @ username @ ''/permission'')) [])
        (\<lambda>v. give (case v of
           Some (JDict d) \<Rightarrow> field d ''permission'' \<in> set write_permissions | _ \<Rightarrow> False)))"

subsection \<open>Webhooks\<close>

text \<open>
  \<open>node payload k\<close> is \<open>payload.get(k) or {}\<close>; a node that is a value of another kind than a dictionary
  raises in the code and is outside the model.
\<close>

definition node :: "fields \<Rightarrow> string \<Rightarrow> json" where
  "node payload k = truthy_or (field payload k) (JDict [])"

definition suite_events :: "string list" where
  "suite_events = [''check_run'', ''check_suite'', ''workflow_run'']"

definition branch_from_check_payload :: "fields \<Rightarrow> string \<Rightarrow> json" where
  "branch_from_check_payload payload event_type =
     (if event_type = ''check_run''
      then truthy_or (jget (truthy_or (jget (node payload ''check_run'') ''check_suite'') (JDict [])) ''head_branch'') (JStr [])
      else if event_type = ''check_suite'' then truthy_or (jget (node payload ''check_suite'') ''head_branch'') (JStr [])
      else if event_type = ''workflow_run'' then truthy_or (jget (node payload ''workflow_run'') ''head_branch'') (JStr [])
      else if event_type = ''status''
      then (case as_first (field payload ''branches'') of
          None \<Rightarrow> JStr [] | Some b \<Rightarrow> truthy_or (field b ''name'') (JStr []))
      else JStr [])"

definition head_sha_from_check_payload :: "fields \<Rightarrow> string \<Rightarrow> json" where
  "head_sha_from_check_payload payload event_type =
     (if event_type \<in> set suite_events then truthy_or (jget (node payload event_type) ''head_sha'') (JStr [])
      else if event_type = ''status'' then truthy_or (field payload ''sha'') (JStr [])
      else JStr [])"

definition is_failing_ci_payload :: "fields \<Rightarrow> string \<Rightarrow> bool" where
  "is_failing_ci_payload payload event_type =
     (if event_type \<in> set suite_events
      then jget (node payload event_type) ''status'' = JStr ''completed'' \<and>
        jget (node payload event_type) ''conclusion'' \<in> set failing_conclusions
      else event_type = ''status'' \<and> field payload ''state'' \<in> set failing_states)"

subsection \<open>Complete sets\<close>

text \<open>
  \<open>lists gh url key extra items\<close>: the server gives the list under the key in pages of a hundred.
\<close>

definition lists :: "'w github \<Rightarrow> string \<Rightarrow> string \<Rightarrow> fields \<Rightarrow> json list \<Rightarrow> bool" where
  "lists gh url key extra items \<longleftrightarrow>
     (\<forall>n w. read_json gh url (ci_params extra (int n + 1)) w =
       (Inr (Some (JDict [(key, JList (page_of items n))])), w))"

lemma collect_lists:
  assumes "lists gh url key extra items"
  shows "collect gh url key extra (int n + 1) found w =
    Some (Inr (Some (found @ List.map_filter as_dict (drop (100 * n) items))), w)"
proof (induction "length (drop (100 * n) items)" arbitrary: n found rule: less_induct)
  case less
  let ?found = "found @ List.map_filter as_dict (page_of items n)"
  have v: "read_json gh url (ci_params extra (int n + 1)) w = (Inr (Some (JDict [(key, JList (page_of items n))])), w)"
    using assms by (simp add: lists_def)
  have split: "List.map_filter as_dict (drop (100 * n) items) =
      List.map_filter as_dict (page_of items n) @ List.map_filter as_dict (drop (100 * Suc n) items)"
    by (subst page_split) (simp add: map_filter_def)
  show ?case
  proof (cases "length (page_of items n) < 100")
    case True
    with v last_page [OF True] show ?thesis
      unfolding split by (subst collect.simps) (simp add: map_filter_def field_def dict_get_def)
  next
    case False
    then have "collect gh url key extra (int n + 1) found w = collect gh url key extra (int (Suc n) + 1) ?found w"
      using v by (subst collect.simps) (simp add: add.commute field_def dict_get_def)
    also have "\<dots> = Some (Inr (Some (?found @ List.map_filter as_dict (drop (100 * Suc n) items))), w)"
      using full_page [OF False] by (intro less.hyps) blast
    finally show ?thesis unfolding split by simp
  qed
qed

lemma latest_statuses_spec:
  "set (latest_statuses seen ss) \<subseteq> set ss"
  "distinct (map (\<lambda>s. str_or [] (field s ''context'')) (latest_statuses seen ss))"
  "set (map (\<lambda>s. str_or [] (field s ''context'')) (latest_statuses seen ss)) =
     set (map (\<lambda>s. str_or [] (field s ''context'')) ss) - set seen"
proof -
  have "set (latest_statuses seen ss) \<subseteq> set ss \<and>
    distinct (map (\<lambda>s. str_or [] (field s ''context'')) (latest_statuses seen ss)) \<and>
    set (map (\<lambda>s. str_or [] (field s ''context'')) (latest_statuses seen ss)) =
     set (map (\<lambda>s. str_or [] (field s ''context'')) ss) - set seen"
    by (induction seen ss rule: latest_statuses.induct) (auto simp: Let_def)
  then show "set (latest_statuses seen ss) \<subseteq> set ss"
    "distinct (map (\<lambda>s. str_or [] (field s ''context'')) (latest_statuses seen ss))"
    "set (map (\<lambda>s. str_or [] (field s ''context'')) (latest_statuses seen ss)) =
     set (map (\<lambda>s. str_or [] (field s ''context'')) ss) - set seen" by blast+
qed

text \<open>
  The CI state is read completely. On a server that lists the check runs and statuses of a commit in pages,
  reading ends; it gives every check run but those of Open SWE itself, in order, and one status per context,
  the first that is listed, for every context there is.
\<close>

theorem ci_state_is_read_completely:
  assumes "lists gh (commit_url owner repo ref ''/check-runs'') ''check_runs'' [(''filter'', JStr ''latest'')] runs"
    and "lists gh (commit_url owner repo ref ''/status'') ''statuses'' [] sts"
  shows "list_check_runs gh owner repo ref w =
      Some (Inr (Some (filter foreign_check (List.map_filter as_dict runs))), w) \<and>
    (\<exists>ss. list_commit_statuses gh owner repo ref w = Some (Inr (Some ss), w) \<and>
      distinct (map (\<lambda>s. str_or [] (field s ''context'')) ss) \<and> set ss \<subseteq> set (List.map_filter as_dict sts) \<and>
      set (map (\<lambda>s. str_or [] (field s ''context'')) ss) =
        set (map (\<lambda>s. str_or [] (field s ''context'')) (List.map_filter as_dict sts)))"
  using collect_lists [OF assms(1), of 0 "[]" w] collect_lists [OF assms(2), of 0 "[]" w]
    latest_statuses_spec [of "[]" "List.map_filter as_dict sts"]
  by (simp add: list_check_runs_def list_commit_statuses_def map_answer_def)

definition ci_server :: "json list \<Rightarrow> json list \<Rightarrow> unit github" where
  "ci_server runs sts verb url args w =
     (let page = jget (field args ''params'') ''page'';
          (key, items) = (if ends_with ''/status'' url then (''statuses'', sts) else (''check_runs'', runs))
      in (Inr ((plain_response 200)\<lparr>rs_json :=
           Some (JDict [(key, JList (if page = JStr ''1'' then items else []))])\<rparr>), w))"

lemma show_int_one: "show_int (int n + 1) = ''1'' \<longleftrightarrow> n = 0"
proof (cases "int n + 1 < 10")
  case True
  have one: "char_of (49 :: nat) = CHR ''1''" by code_simp
  from True have "show_pos (int n + 1) = [char_of (49 + n)]" by (subst show_pos.simps) (simp add: nat_add_distrib)
  moreover have "char_of (49 + n) = CHR ''1'' \<longleftrightarrow> n = 0"
  proof
    assume "char_of (49 + n) = CHR ''1''"
    then have "of_char (char_of (49 + n) :: char) = (49 :: nat)" by simp
    with True show "n = 0" by (simp only: of_char_of) simp
  qed (simp add: one)
  ultimately show ?thesis by (simp add: show_int_def)
next
  case False
  have "show_pos k \<noteq> []" for k by (subst show_pos.simps) simp
  then have "length (show_pos (int n + 1)) \<noteq> 1"
    using False by (subst show_pos.simps) simp
  with False show ?thesis by (auto simp: show_int_def)
qed

lemma ci_server_lists:
  assumes "length runs \<le> 100" "length sts \<le> 100"
  shows "lists (ci_server runs sts) (commit_url owner repo ref ''/check-runs'') ''check_runs'' extra runs"
    "lists (ci_server runs sts) (commit_url owner repo ref ''/status'') ''statuses'' extra sts"
proof -
  have u: "ends_with ''/status'' (commit_url owner repo ref ''/status'')"
    "\<not> ends_with ''/status'' (commit_url owner repo ref ''/check-runs'')"
  proof -
    have e: "ends_with p (x @ y) \<longleftrightarrow> ends_with p y" if "length p \<le> length y" for p x y :: string
      using that by (simp add: ends_with_def)
    have "commit_url owner repo ref t = (github_api_base @ ''/repos/'' @ owner @ ''/'' @ repo @ ''/commits/'' @ ref) @ t" for t
      by (simp add: commit_url_def repo_url_def)
    note split = this
    show "ends_with ''/status'' (commit_url owner repo ref ''/status'')"
      unfolding split by (subst e) (simp_all add: ends_with_def)
    show "\<not> ends_with ''/status'' (commit_url owner repo ref ''/check-runs'')"
      unfolding split by (subst e) (simp_all add: ends_with_def)
  qed
  have p: "page_of items n = (if n = 0 then items else [])" if "length items \<le> 100" for n and items :: "json list"
    using that by (auto simp: page_of_def)
  show "lists (ci_server runs sts) (commit_url owner repo ref ''/check-runs'') ''check_runs'' extra runs"
    "lists (ci_server runs sts) (commit_url owner repo ref ''/status'') ''statuses'' extra sts"
    by (simp_all add: lists_def read_json_def ci_server_def good_def and_then_def body_json_def give_def status_ok_def
        plain_response_def ci_params_def field_def dict_get_def u p assms show_int_one)
qed

theorem ci_state_is_read_completely_witness:
  "list_check_runs (ci_server [JDict [(''name'', JStr ''tests'')], JDict [(''name'', JStr review_check_run_name)]] [])
     ''o'' ''r'' ''c0ffee0'' () = Some (Inr (Some [[(''name'', JStr ''tests'')]]), ())"
proof -
  let ?runs = "[JDict [(''name'', JStr ''tests'')], JDict [(''name'', JStr review_check_run_name)]]"
  have s: "length ?runs \<le> 100" "length ([] :: json list) \<le> 100" by simp_all
  have "filter foreign_check (List.map_filter as_dict ?runs) = [[(''name'', JStr ''tests'')]]" by code_simp
  with ci_state_is_read_completely [OF ci_server_lists(1) [OF s] ci_server_lists(2) [OF s], of "''o''" "''r''" "''c0ffee0''" "()"]
  show ?thesis by simp
qed

text \<open>
  Write access is never assumed: without a user name, on any error and for any other permission than
  \<open>admin\<close>, \<open>maintain\<close> and \<open>write\<close>, the answer is no.
\<close>

lemma write_permission_fails_closed:
  assumes "has_repo_write_permission gh owner repo username w = (Inr True, w')"
  shows "username \<noteq> [] \<and>
    (\<exists>r d. gh ''GET'' (repo_url owner repo (''/collaborators/'' @ username @ ''/permission'')) [] w = (Inr r, w') \<and>
      status_ok r \<and> rs_json r = Some (JDict d) \<and> field d ''permission'' \<in> set write_permissions)"
  using assms
  by (auto simp: has_repo_write_permission_def read_json_def and_then_def good_def body_json_def give_def fail_def
      split: if_splits prod.splits sum.splits option.splits json.splits)

end
