(* ===== verification/Action_Costs.thy ===== *)
theory Action_Costs
  imports Json
begin

section \<open>A logic of costs for actions on services\<close>

text \<open>
  Bounds on how often a component does something follow one pattern: a reading \<open>state\<close> of the world carries
  credits, every interesting result uses one up, and no other step adds any. \<open>costs\<close> says this of an action
  that starts where the reading is \<open>start\<close>: it keeps the invariant \<open>ok\<close> and leaves at most \<open>n\<close> credits,
  counting one for a result with \<open>D\<close>. There is a rule for each way the code composes actions. \<open>quiet\<close>
  actions leave the reading alone, as the calls of other services do.
\<close>

definition swallow :: "('w, 'a) action \<Rightarrow> ('w, unit) action" where
  "swallow m w = (Inr (), snd (m w))"

definition quiet :: "('w \<Rightarrow> 's) \<Rightarrow> ('w, 'a) action \<Rightarrow> bool" where
  "quiet state m \<longleftrightarrow> (\<forall>w. state (snd (m w)) = state w)"

definition costs ::
  "('w \<Rightarrow> 's) \<Rightarrow> ('s \<Rightarrow> nat) \<Rightarrow> ('s \<Rightarrow> bool) \<Rightarrow> ('a \<Rightarrow> bool) \<Rightarrow> 's \<Rightarrow> nat \<Rightarrow> ('w, 'a) action \<Rightarrow> bool" where
  "costs state credit ok D start n m \<longleftrightarrow>
     (\<forall>w r w'. state w = start \<and> m w = (r, w') \<longrightarrow> ok (state w') \<and>
        credit (state w') + (case r of Inl e \<Rightarrow> 0 | Inr x \<Rightarrow> of_bool (D x)) \<le> n)"

lemma quietD: "quiet state m \<Longrightarrow> m w = (r, w') \<Longrightarrow> state w' = state w"
  by (metis quiet_def snd_conv)

lemma costsD:
  "costs state credit ok D start n m \<Longrightarrow> state w = start \<Longrightarrow> m w = (r, w') \<Longrightarrow>
     ok (state w') \<and> credit (state w') + (case r of Inl e \<Rightarrow> 0 | Inr x \<Rightarrow> of_bool (D x)) \<le> n"
  unfolding costs_def by blast

lemma costs_bind:
  assumes "\<And>w r w'. state w = start \<Longrightarrow> m w = (r, w') \<Longrightarrow>
     (case r of Inl e \<Rightarrow> ok (state w') \<and> credit (state w') \<le> n | Inr x \<Rightarrow> costs state credit ok D (state w') n (k x))"
  shows "costs state credit ok D start n (and_then m k)"
  unfolding costs_def
proof (intro allI impI)
  fix w r w' assume a: "state w = start \<and> and_then m k w = (r, w')"
  obtain x v where x: "m w = (x, v)" by (cases "m w") simp
  from assms [OF conjunct1 [OF a] x]
  have b: "case x of Inl e \<Rightarrow> ok (state v) \<and> credit (state v) \<le> n | Inr x \<Rightarrow> costs state credit ok D (state v) n (k x)" .
  show "ok (state w') \<and> credit (state w') + (case r of Inl e \<Rightarrow> 0 | Inr x \<Rightarrow> of_bool (D x)) \<le> n"
  proof (cases x)
    case (Inl e)
    with a x b show ?thesis by auto
  next
    case (Inr y)
    with a x have "k y v = (r, w')" by simp
    with b Inr costsD [of state credit ok D "state v" n "k y" v r w'] show ?thesis by simp
  qed
qed

lemma costs_quiet_result:
  assumes "quiet state m" "ok start" "credit start \<le> n"
    and "\<And>w x w'. m w = (Inr x, w') \<Longrightarrow> costs state credit ok D start n (k x)"
  shows "costs state credit ok D start n (and_then m k)"
  by (rule costs_bind) (use assms in \<open>auto dest: quietD split: sum.split\<close>)

lemma costs_then:
  assumes "costs state credit ok (\<lambda>x. False) start n m"
    and "\<And>x start'. ok start' \<Longrightarrow> credit start' \<le> n \<Longrightarrow> costs state credit ok D start' n (k x)"
  shows "costs state credit ok D start n (and_then m k)"
  by (rule costs_bind) (use assms in \<open>auto dest!: costsD split: sum.splits\<close>)

lemma costs_quiet_then:
  "quiet state m \<Longrightarrow> ok start \<Longrightarrow> credit start \<le> n \<Longrightarrow>
     (\<And>x. costs state credit ok D start n (k x)) \<Longrightarrow> costs state credit ok D start n (and_then m k)"
  by (rule costs_quiet_result)

lemma costs_give: "ok start \<Longrightarrow> credit start + of_bool (D x) \<le> n \<Longrightarrow> costs state credit ok D start n (give x)"
  by (simp add: costs_def give_def)

lemma quiet_rules:
  "quiet state (give x)" "quiet state (fail e)"
  "quiet state m \<Longrightarrow> (\<And>x. quiet state (k x)) \<Longrightarrow> quiet state (and_then m k)"
  "quiet state m \<Longrightarrow> (\<And>e. quiet state (h e)) \<Longrightarrow> quiet state (catch_all m h)"
  "quiet state m \<Longrightarrow> quiet state (swallow m)"
  by (auto simp: quiet_def give_def fail_def and_then_def catch_all_def swallow_def split: prod.splits sum.splits)
    (metis snd_conv)+

lemma costs_if: "(b \<Longrightarrow> costs state credit ok D start n m) \<Longrightarrow> (\<not> b \<Longrightarrow> costs state credit ok D start n m') \<Longrightarrow>
    costs state credit ok D start n (if b then m else m')"
  by simp

lemma costs_catch:
  assumes "quiet state m" "ok start" "credit start + 1 \<le> n" "\<And>e. costs state credit ok D start n (h e)"
  shows "costs state credit ok D start n (catch_all m h)"
  unfolding costs_def
proof (intro allI impI)
  fix w r w' assume a: "state w = start \<and> catch_all m h w = (r, w')"
  obtain x u where x: "m w = (x, u)" by (cases "m w") simp
  have u: "state u = start" using quietD [OF assms(1) x] a by simp
  show "ok (state w') \<and> credit (state w') + (case r of Inl e \<Rightarrow> 0 | Inr x \<Rightarrow> of_bool (D x)) \<le> n"
  proof (cases x)
    case (Inl e)
    with a x have "h e u = (r, w')" by (simp add: catch_all_def)
    with costsD [OF assms(4) u] show ?thesis by blast
  next
    case (Inr y)
    with a x u assms(2,3) show ?thesis by (auto simp: catch_all_def)
  qed
qed

lemma costs_map:
  assumes "costs state credit ok D start n m" "\<And>x. D' (f x) \<longrightarrow> D x"
  shows "costs state credit ok D' start n (and_then m (\<lambda>x. give (f x)))"
  unfolding costs_def
proof (intro allI impI)
  fix w r w' assume a: "state w = start \<and> and_then m (\<lambda>x. give (f x)) w = (r, w')"
  obtain x u where x: "m w = (x, u)" by (cases "m w") simp
  from costsD [OF assms(1) _ x] a have c: "ok (state u)"
    "credit (state u) + (case x of Inl e \<Rightarrow> 0 | Inr x \<Rightarrow> of_bool (D x)) \<le> n" by blast+
  show "ok (state w') \<and> credit (state w') + (case r of Inl e \<Rightarrow> 0 | Inr x \<Rightarrow> of_bool (D' x)) \<le> n"
    using a x c assms(2) by (cases x) (fastforce simp: give_def split: if_splits)+
qed

end
