(* ===== verification/Baby_Safety.thy ===== *)
theory Baby_Safety
  imports Baby_Sit
begin

section \<open>A head is handed to the agent a bounded number of times\<close>

text \<open>
  Every failing state of a head costs the watch one of three credits: a watch has as many left as reruns may
  still be recorded for its head, one less once the present state was handed to the agent. The proof is in
  the logic of costs, with one more rule per operation of the store.
\<close>

subsection \<open>Credits\<close>

definition credits :: "'w baby_env \<Rightarrow> string \<Rightarrow> watch option \<Rightarrow> nat" where
  "credits env head_sha watch =
     (case watch of
        None \<Rightarrow> 0
      | Some v \<Rightarrow>
          (if wa_head_sha v \<noteq> head_sha then max_retries_per_head
           else (max_retries_per_head - wa_retry_count v) -
             (if failure_key env head_sha (wa_retry_count v) \<in> set (wa_dispatch_keys v) then 1 else 0)))"

definition of_key :: "string \<Rightarrow> watch option \<Rightarrow> bool" where
  "of_key key watch = (case watch of None \<Rightarrow> True | Some v \<Rightarrow> wa_key v = key)"

text \<open>
  \<open>watches env watch key head_sha\<close>: \<open>watch\<close> reads what the store has under the key, a failed operation of
  the store changes nothing, nothing else changes it, and the pull request is at the given head throughout.
\<close>

definition watches :: "'w baby_env \<Rightarrow> ('w \<Rightarrow> watch option) \<Rightarrow> string \<Rightarrow> string \<Rightarrow> bool" where
  "watches env watch key head_sha \<longleftrightarrow>
     (\<forall>w r w'. be_get env key w = (r, w') \<longrightarrow> watch w' = watch w \<and> (\<forall>x. r = Inr x \<longrightarrow> x = watch w)) \<and>
     (\<forall>v w r w'. be_put env key v w = (r, w') \<longrightarrow> watch w' = (if r = Inr () then Some v else watch w)) \<and>
     (\<forall>w r w'. be_delete env key w = (r, w') \<longrightarrow> watch w' = (if r = Inr () then None else watch w)) \<and>
     (\<forall>k. quiet watch (be_lock env k) \<and> quiet watch (be_unlock env k)) \<and>
     (\<forall>k. quiet watch (be_cron_delete env k)) \<and> (\<forall>n. quiet watch (be_token env n)) \<and>
     (\<forall>t a b c. quiet watch (be_checks env t a b c) \<and> quiet watch (be_statuses env t a b c)) \<and>
     (\<forall>a b c. quiet watch (be_slack env a b c)) \<and> (\<forall>a b. quiet watch (be_linear env a b)) \<and>
     (\<forall>a b n c d. quiet watch (be_comment env a b n c d)) \<and> (\<forall>a b c d. quiet watch (be_dispatch env a b c d)) \<and>
     (\<forall>t a b n. quiet watch (fetch_pr (be_gh env t) a b n)) \<and>
     (\<forall>t a b n w pr w'. fetch_pr (be_gh env t) a b n w = (Inr (Some pr), w') \<longrightarrow>
        nonempty_str (jget (field pr ''head'') ''sha'') \<in> {None, Some head_sha})"

lemma watchesD:
  assumes "watches env watch key h"
  shows "be_get env key w = (r, w') \<Longrightarrow> watch w' = watch w"
    and "be_get env key w = (Inr x, w') \<Longrightarrow> x = watch w"
    and "be_put env key v w = (p, w') \<Longrightarrow> watch w' = (if p = Inr () then Some v else watch w)"
    and "be_delete env key w = (p, w') \<Longrightarrow> watch w' = (if p = Inr () then None else watch w)"
    and "quiet watch (be_cron_delete env c)"
    and "fetch_pr (be_gh env t) a b n w = (Inr (Some pr), w') \<Longrightarrow>
       nonempty_str (jget (field pr ''head'') ''sha'') = None \<or> nonempty_str (jget (field pr ''head'') ''sha'') = Some h"
proof -
  note a = assms [unfolded watches_def]
  from a show "be_get env key w = (r, w') \<Longrightarrow> watch w' = watch w" by simp
  from a show "be_get env key w = (Inr x, w') \<Longrightarrow> x = watch w" by simp
  from a show "be_put env key v w = (p, w') \<Longrightarrow> watch w' = (if p = Inr () then Some v else watch w)" by simp
  from a show "be_delete env key w = (p, w') \<Longrightarrow> watch w' = (if p = Inr () then None else watch w)" by simp
  from a show "quiet watch (be_cron_delete env c)" by simp
  from a show "fetch_pr (be_gh env t) a b n w = (Inr (Some pr), w') \<Longrightarrow>
       nonempty_str (jget (field pr ''head'') ''sha'') = None \<or> nonempty_str (jget (field pr ''head'') ''sha'') = Some h"
    by blast
qed

lemma costs_get_then:
  assumes "watches env watch key h" "of_key key start" "credit start \<le> n"
    and "costs watch credit (of_key key) D start n (k start)"
  shows "costs watch credit (of_key key) D start n (and_then (be_get env key) k)"
  by (rule costs_bind) (use assms watchesD(1,2) [OF assms(1)] in \<open>force split: sum.split\<close>)

lemma put_watch_result:
  assumes "watches env watch key h" "wa_key v = key" "put_watch env v w = (r, w')"
  shows "watch w' = watch w \<and> (\<exists>e. r = Inl e) \<or>
    watch w' = Some (v\<lparr>wa_updated_at := be_now env w\<rparr>) \<and> r = Inr (v\<lparr>wa_updated_at := be_now env w\<rparr>)"
proof -
  let ?v = "v\<lparr>wa_updated_at := be_now env w\<rparr>"
  obtain x u where x: "be_put env key ?v w = (x, u)" by (cases "be_put env key ?v w") simp
  with watchesD(3) [OF assms(1)] have "watch u = (if x = Inr () then Some ?v else watch w)" by blast
  with assms(2,3) x show ?thesis
    by (auto simp: put_watch_def Let_def and_then_def give_def split: sum.splits if_splits)
qed

lemma costs_put_then:
  assumes "watches env watch key h" "wa_key v = key" "of_key key start" "credit start \<le> n"
    and "\<And>t. costs watch credit (of_key key) D (Some (v\<lparr>wa_updated_at := t\<rparr>)) n (k (v\<lparr>wa_updated_at := t\<rparr>))"
  shows "costs watch credit (of_key key) D start n (and_then (put_watch env v) k)"
  by (rule costs_bind) (use assms(3-5) put_watch_result [OF assms(1,2)] in \<open>fastforce split: sum.split\<close>)

lemma costs_delete_then:
  assumes "watches env watch key h" "of_key key start" "credit start \<le> n"
    and "costs watch credit (of_key key) D None n (k ())"
  shows "costs watch credit (of_key key) D start n (and_then (be_delete env key) k)"
  by (rule costs_bind) (use assms(2-4) watchesD(4) [OF assms(1)] in \<open>fastforce split: sum.split\<close>)

subsection \<open>The operations\<close>

lemma credits_upd [simp]:
  "credits env h (Some (v\<lparr>wa_updated_at := t\<rparr>)) = credits env h (Some v)"
  "credits env h (Some (v\<lparr>wa_active := b\<rparr>)) = credits env h (Some v)"
  "credits env h (Some (v\<lparr>wa_settled_at := x\<rparr>)) = credits env h (Some v)"
  "credits env h (Some (v\<lparr>wa_settled_key := k\<rparr>)) = credits env h (Some v)"
  "credits env h (Some (v\<lparr>wa_errors := n\<rparr>)) = credits env h (Some v)"
  "credits env h (Some (v\<lparr>wa_installation := i\<rparr>)) = credits env h (Some v)"
  "credits env h (Some (v\<lparr>wa_delivery_ids := ids\<rparr>)) = credits env h (Some v)"
  "credits env h (Some (v\<lparr>wa_alert_keys := ids\<rparr>)) = credits env h (Some v)"
  "credits env h (Some (v\<lparr>wa_head_ref := k\<rparr>)) = credits env h (Some v)"
  by (simp_all add: credits_def)

lemma credits_none [simp]: "credits env h None = 0" and of_key_none [simp]: "of_key key None"
  and of_key_some [simp]: "of_key key (Some v) \<longleftrightarrow> wa_key v = key"
  by (simp_all add: credits_def of_key_def)

abbreviation spends ::
  "'w baby_env \<Rightarrow> ('w \<Rightarrow> watch option) \<Rightarrow> string \<Rightarrow> string \<Rightarrow> ('a \<Rightarrow> bool) \<Rightarrow> watch option \<Rightarrow> nat \<Rightarrow> ('w, 'a) action \<Rightarrow> bool" where
  "spends env watch key h D start n m \<equiv> costs watch (credits env h) (of_key key) D start n m"

lemma costs_stop:
  assumes q: "watches env watch key h" and "of_key key start" "credits env h start \<le> n" "\<And>x. \<not> D x"
  shows "spends env watch key h D start n (stop_watch env key)"
proof (cases start)
  case None
  then show ?thesis unfolding stop_watch_def using assms by (auto intro!: costs_get_then costs_give)
next
  case (Some v)
  have kill: "spends env watch key h D start n (and_then (be_delete env key) (\<lambda>u. give True))"
    using assms by (auto intro!: costs_delete_then costs_give)
  have keep: "spends env watch key h D start n (and_then (put_watch env (v\<lparr>wa_active := False\<rparr>)) (\<lambda>u. give True))"
    by (rule costs_put_then [OF q]) (use assms Some in \<open>auto intro!: costs_give\<close>)
  have split: "spends env watch key h D start n
     (\<lambda>w. case be_cron_delete env c w of
        (Inl e, w') \<Rightarrow> and_then (put_watch env (v\<lparr>wa_active := False\<rparr>)) (\<lambda>u. give True) w'
      | (Inr u, w') \<Rightarrow> and_then (be_delete env key) (\<lambda>u. give True) w')" for c
    unfolding costs_def
  proof (intro allI impI)
    fix w r w'
    assume a: "watch w = start \<and> (case be_cron_delete env c w of
        (Inl e, w') \<Rightarrow> and_then (put_watch env (v\<lparr>wa_active := False\<rparr>)) (\<lambda>u. give True) w'
      | (Inr u, w') \<Rightarrow> and_then (be_delete env key) (\<lambda>u. give True) w') = (r, w')"
    obtain x u where x: "be_cron_delete env c w = (x, u)" by (cases "be_cron_delete env c w") simp
    have "watch u = start" using quietD [OF watchesD(5) [OF q] x] a by simp
    with a x kill keep show "of_key key (watch w') \<and> credits env h (watch w') + (case r of Inl e \<Rightarrow> 0 | Inr x \<Rightarrow> of_bool (D x)) \<le> n"
      unfolding costs_def by (cases x) auto
  qed
  show ?thesis unfolding stop_watch_def using assms(2,3) Some kill split
    by (intro costs_get_then [OF q]) (auto split: option.splits list.splits)
qed

lemma quiet_actions:
  assumes "watches env watch key h"
  shows "quiet watch (notify_watch env v message)" "quiet watch (watch_token env v)"
    "quiet watch (be_dispatch env a b c d)" "quiet watch (be_checks env t x y z)" "quiet watch (be_statuses env t x y z)"
    "quiet watch (fetch_pr (be_gh env t) x y n)" "quiet watch (be_lock env k)" "quiet watch (be_unlock env k)"
proof -
  from assms have q: "\<And>n. quiet watch (be_token env n)" "\<And>a b c. quiet watch (be_slack env a b c)"
    "\<And>a b. quiet watch (be_linear env a b)" "\<And>a b n c d. quiet watch (be_comment env a b n c d)"
    by (simp_all add: watches_def)
  show t: "quiet watch (watch_token env v)" unfolding watch_token_def
    by (cases "wa_installation v") (auto intro!: quiet_rules q)
  have "quiet watch (notify_github env v message)"
    unfolding notify_github_def by (auto intro!: quiet_rules q t split: option.splits list.splits)
  then show "quiet watch (notify_watch env v message)"
    unfolding notify_watch_def by (auto intro!: quiet_rules q split: option.splits)
qed (use assms in \<open>simp_all add: watches_def\<close>)

lemma costs_finish:
  assumes q: "watches env watch key h" and s: "of_key key start" "credits env h start \<le> n" and v: "wa_key v = key"
  shows "spends env watch key h (\<lambda>s. s = ''dispatched'') start n (finish_watch env v message)"
proof -
  have stop: "spends env watch key h (\<lambda>s. s = ''dispatched'') start n (and_then (stop_watch env key) (\<lambda>u. give ''stopped''))"
    by (rule costs_then [OF costs_stop [OF q s]]) (auto intro!: costs_give)
  show ?thesis unfolding finish_watch_def v
    by (intro costs_quiet_then quiet_actions [OF q] quiet_rules s stop) (auto intro!: quiet_rules quiet_actions [OF q])
qed

lemma costs_error:
  assumes q: "watches env watch key h" and s: "of_key key start" "credits env h start \<le> n"
    and v: "wa_key v = key" "credits env h (Some v) \<le> n"
  shows "spends env watch key h (\<lambda>s. s = ''dispatched'') start n (record_evaluation_error env v detail)"
  unfolding record_evaluation_error_def Let_def
  by (intro costs_put_then [OF q] costs_if costs_give costs_finish [OF q]) (simp_all add: s v)

lemma credits_follow: "credits env h (Some (follow_head v h ref)) = credits env h (Some v)"
  by (cases "nonempty_str ref"; cases "h = wa_head_sha v") (simp_all add: follow_head_def credits_def)

lemma follow_head_fields: "wa_key (follow_head v h ref) = wa_key v" "wa_head_sha (follow_head v h ref) = h"
  by (auto simp: follow_head_def Let_def split: option.splits)

lemma last_n_last: "xs \<noteq> [] \<Longrightarrow> 0 < n \<Longrightarrow> last xs \<in> set (last_n n xs)"
  by (simp add: last_n_def) (metis Suc_diff_le diff_less last_drop last_in_set drop_eq_Nil length_greater_0_conv linorder_not_le)

lemma costs_dispatch:
  assumes q: "watches env watch key h" and s: "of_key key start" "credits env h start \<le> n"
    and v: "wa_key v = key" "credits env h (Some v) \<le> n" "wa_head_sha v = h" "wa_retry_count v < max_retries_per_head"
  shows "spends env watch key h (\<lambda>s. s = ''dispatched'') start n (dispatch_failure env key v failures)"
proof (cases "failure_key env h (wa_retry_count v) \<in> set (wa_dispatch_keys v)")
  case True
  show ?thesis unfolding dispatch_failure_def Let_def v(3) using True
    by simp (rule costs_put_then [OF q]; use s v in \<open>auto intro!: costs_give\<close>)
next
  case False
  let ?fp = "failure_key env h (wa_retry_count v)"
  let ?v1 = "v\<lparr>wa_dispatch_keys := last_n max_dispatch_keys (wa_dispatch_keys v @ [?fp])\<rparr>"
  have in_keys: "?fp \<in> set (wa_dispatch_keys ?v1)"
    using last_n_last [of "wa_dispatch_keys v @ [?fp]" max_dispatch_keys] by (simp add: max_dispatch_keys_def)
  have c: "credits env h (Some v) = max_retries_per_head - wa_retry_count v"
    "credits env h (Some ?v1) + 1 = max_retries_per_head - wa_retry_count v"
    using False in_keys v(3,4) by (simp_all add: credits_def)
  have given: "spends env watch key h (\<lambda>s. s = ''dispatched'') (Some (?v1\<lparr>wa_updated_at := t\<rparr>)) n
     (catch_all
        (and_then
           (be_dispatch env (wa_thread_id v') (failure_prompt env v' failures) (dispatch_config v')
              (be_str env (field (dispatch_config v') ''source'')))
           (\<lambda>u. give ''dispatched''))
        (\<lambda>e. and_then (be_get env key)
           (\<lambda>latest. let l = (case latest of None \<Rightarrow> v' | Some l \<Rightarrow> l)
              in and_then
                (put_watch env (l\<lparr>wa_dispatch_keys := filter (\<lambda>k. k \<noteq> ?fp) (wa_dispatch_keys l)\<rparr>))
                (\<lambda>u. give ''error''))))" for t v'
  proof (rule costs_catch)
    show "quiet watch (and_then (be_dispatch env (wa_thread_id v') (failure_prompt env v' failures) (dispatch_config v')
              (be_str env (field (dispatch_config v') ''source''))) (\<lambda>u. give ''dispatched''))"
      by (intro quiet_rules quiet_actions [OF q])
    show "of_key key (Some (?v1\<lparr>wa_updated_at := t\<rparr>))" using v(1) by simp
    show room: "credits env h (Some (?v1\<lparr>wa_updated_at := t\<rparr>)) + 1 \<le> n" using c v(2) by simp
    show "spends env watch key h (\<lambda>s. s = ''dispatched'') (Some (?v1\<lparr>wa_updated_at := t\<rparr>)) n
        (and_then (be_get env key)
           (\<lambda>latest. let l = (case latest of None \<Rightarrow> v' | Some l \<Rightarrow> l)
              in and_then
                (put_watch env (l\<lparr>wa_dispatch_keys := filter (\<lambda>k. k \<noteq> ?fp) (wa_dispatch_keys l)\<rparr>))
                (\<lambda>u. give ''error'')))"
      unfolding Let_def
      by (intro costs_get_then [OF q] costs_put_then [OF q] costs_give)
        (use room v False in \<open>simp_all add: credits_def\<close>)
  qed
  have "spends env watch key h (\<lambda>s. s = ''dispatched'') start n
      (and_then (put_watch env ?v1)
        (\<lambda>v'. catch_all
           (and_then
              (be_dispatch env (wa_thread_id v') (failure_prompt env v' failures) (dispatch_config v')
                 (be_str env (field (dispatch_config v') ''source'')))
              (\<lambda>u. give ''dispatched''))
           (\<lambda>e. and_then (be_get env key)
              (\<lambda>latest. let l = (case latest of None \<Rightarrow> v' | Some l \<Rightarrow> l)
                 in and_then
                   (put_watch env (l\<lparr>wa_dispatch_keys := filter (\<lambda>k. k \<noteq> ?fp) (wa_dispatch_keys l)\<rparr>))
                   (\<lambda>u. give ''error'')))))"
    by (rule costs_put_then [OF q _ s given]) (simp add: v(1))
  with False show ?thesis by (simp only: dispatch_failure_def Let_def v(3) if_False)
qed

lemma costs_act:
  assumes q: "watches env watch key h" and s: "of_key key start" "credits env h start \<le> n"
    and v: "wa_key v = key" "credits env h (Some v) \<le> n" "wa_head_sha v = h"
  shows "spends env watch key h (\<lambda>s. s = ''dispatched'') start n (act_on_checks env key v runs sts)"
proof (cases "aggregate_state runs sts")
  case (CiFailure failures)
  then show ?thesis unfolding act_on_checks_def
    by simp (intro conjI impI costs_finish [OF q] costs_dispatch [OF q]; simp add: s v)
next
  case CiPending
  then show ?thesis unfolding act_on_checks_def
    by simp (intro costs_put_then [OF q] costs_give; simp add: s v)
next
  case CiBlocked
  then show ?thesis unfolding act_on_checks_def by simp (intro costs_finish [OF q]; simp add: s v)
next
  case CiSuccess
  have settled: "wa_key v' = key \<and> credits env h (Some v') = credits env h (Some v)"
    if "check_set_settled v k now = (b, v')" for k now b v'
    using that v(1) by (auto simp: check_set_settled_def split: if_splits option.splits stamp.splits)
  show ?thesis unfolding costs_def
  proof (intro allI impI)
    fix w r w' assume a: "watch w = start \<and> act_on_checks env key v runs sts w = (r, w')"
    obtain b v' where b: "check_set_settled v (check_set_key env runs sts) (be_now env w) = (b, v')" by fastforce
    note v' = settled [OF b]
    define message where "message = ''*`/baby-sit` complete:* '' @ wa_pr_url v @ '' has no pending or failing checks.''"
    have cost: "spends env watch key h (\<lambda>s. s = ''dispatched'') start n
        (if b then finish_watch env v' message else and_then (put_watch env v') (\<lambda>u. give ''settling''))"
      by (intro costs_if costs_finish [OF q] costs_put_then [OF q] costs_give; simp add: s v v')
    have same: "(if b then finish_watch env v' message else and_then (put_watch env v') (\<lambda>u. give ''settling'')) w = (r, w')"
      using a b CiSuccess by (cases b) (simp_all add: act_on_checks_def message_def)
    show "of_key key (watch w') \<and>
        credits env h (watch w') + (case r of Inl e \<Rightarrow> 0 | Inr s \<Rightarrow> of_bool (s = ''dispatched'')) \<le> n"
      by (rule costsD [OF cost _ same]) (use a in blast)
  qed
qed

lemma costs_locked:
  assumes q: "watches env watch key h" and s: "of_key key start" "credit start \<le> n" "\<not> D busy"
    and m: "costs watch credit (of_key key) D start n m"
  shows "costs watch credit (of_key key) D start n (with_lock env key busy m)"
  unfolding costs_def
proof (intro allI impI)
  fix w r w' assume a: "watch w = start \<and> with_lock env key busy m w = (r, w')"
  obtain x u where x: "be_lock env key w = (x, u)" by (cases "be_lock env key w") simp
  have u: "watch u = start" using quietD [OF quiet_actions(7) [OF q] x] a by simp
  obtain y v where y: "m u = (y, v)" by (cases "m u") simp
  obtain z t where z: "be_unlock env key v = (z, t)" by (cases "be_unlock env key v") simp
  have t: "watch t = watch v" by (rule quietD [OF quiet_actions(8) [OF q] z])
  show "of_key key (watch w') \<and> credit (watch w') + (case r of Inl e \<Rightarrow> 0 | Inr x \<Rightarrow> of_bool (D x)) \<le> n"
    using a x u s costsD [OF m u y] t y z by (cases x) (auto simp: with_lock_def)
qed

lemma costs_evaluate:
  assumes q: "watches env watch key h" and s: "of_key key start" "credits env h start \<le> n"
  shows "spends env watch key h (\<lambda>s. s = ''dispatched'') start n (evaluate_locked env key token)"
proof (cases start)
  case None
  then show ?thesis unfolding evaluate_locked_def
    by (intro costs_get_then [OF q]) (use s in \<open>auto intro!: costs_give\<close>)
next
  case (Some v)
  with s have v: "wa_key v = key" "credits env h (Some v) \<le> n" by simp_all
  have s': "of_key key (Some v)" using v by simp
  have failed: "spends env watch key h (\<lambda>s. s = ''dispatched'') start n (record_evaluation_error env v detail)" for detail
    by (rule costs_error [OF q s v])
  have head: "spends env watch key h (\<lambda>s. s = ''dispatched'') start n
      (evaluate_head env key tok (follow_head v h ref) h)" for tok ref
    unfolding evaluate_head_def
  proof (intro costs_quiet_then quiet_actions [OF q] s)
    fix runs sts
    show "spends env watch key h (\<lambda>s. s = ''dispatched'') start n
        (case (runs, sts) of (Some rs, Some ss) \<Rightarrow> act_on_checks env key (follow_head v h ref\<lparr>wa_errors := 0\<rparr>) rs ss
          | _ \<Rightarrow> record_evaluation_error env (follow_head v h ref) ''CI status unavailable'')"
      by (cases runs; cases sts)
        (auto intro!: costs_act [OF q s] costs_error [OF q s] simp: follow_head_fields credits_follow v)
  qed
  have opened: "spends env watch key h (\<lambda>s. s = ''dispatched'') start n (evaluate_open env key tok v pr)"
    if "nonempty_str (jget (field pr ''head'') ''sha'') = None \<or> nonempty_str (jget (field pr ''head'') ''sha'') = Some h"
    for tok pr
    using that unfolding evaluate_open_def by (elim disjE) (simp_all only: option.case failed head)
  have found: "spends env watch key h (\<lambda>s. s = ''dispatched'') start n (evaluate_found env key tok v pr)"
    if "fetch_pr (be_gh env tok) a b m w = (Inr pr, w')" for tok a b m w pr w'
  proof -
    have "pr = None \<or> (\<exists>d. pr = Some d \<and> (nonempty_str (jget (field d ''head'') ''sha'') = None \<or>
        nonempty_str (jget (field d ''head'') ''sha'') = Some h))"
      using that watchesD(6) [OF q] by (cases pr) blast+
    then show ?thesis
      using failed opened costs_finish [OF q s v(1)] by (auto simp: evaluate_found_def split: list.split)
  qed
  have token: "spends env watch key h (\<lambda>s. s = ''dispatched'') start n (evaluate_with env key v tok)" for tok
  proof (cases "\<exists>c cs. tok = Some (c # cs)")
    case True
    then obtain c cs where t: "tok = Some (c # cs)" by blast
    show ?thesis unfolding evaluate_with_def t option.case list.case
      by (rule costs_quiet_result, rule quiet_actions(6) [OF q], rule s(1), rule s(2), rule found)
  next
    case False
    then have "tok = None \<or> tok = Some []" by (metis list.exhaust option.exhaust)
    then show ?thesis using failed by (auto simp: evaluate_with_def)
  qed
  have stop: "spends env watch key h (\<lambda>s. s = ''dispatched'') start n (and_then (stop_watch env key) (\<lambda>u. give ''stopped''))"
    by (rule costs_then [OF costs_stop [OF q s]]) (auto intro!: costs_give)
  have get_token: "quiet watch (given_token env v token)"
    by (auto simp: given_token_def intro!: quiet_rules quiet_actions [OF q] split: option.split list.split)
  have "spends env watch key h (\<lambda>s. s = ''dispatched'') start n
     (if \<not> wa_active v then and_then (stop_watch env key) (\<lambda>u. give ''stopped'')
      else and_then (given_token env v token) (evaluate_with env key v))"
    by (intro costs_if stop costs_quiet_then get_token s token)
  then have "spends env watch key h (\<lambda>s. s = ''dispatched'') start n
     (case start of None \<Rightarrow> give ''missing''
      | Some v \<Rightarrow>
          if \<not> wa_active v then and_then (stop_watch env key) (\<lambda>u. give ''stopped'')
          else and_then (given_token env v token) (evaluate_with env key v))"
    by (simp only: Some option.case)
  then show ?thesis unfolding evaluate_locked_def
    by - (rule costs_get_then, rule q, rule s(1), rule s(2))
qed

lemma costs_delivered:
  assumes q: "watches env watch key h" and s: "of_key key start" "credits env h start \<le> n"
    and c: "wa_key c = key" "credits env h (Some c) \<le> n"
  shows "spends env watch key h (\<lambda>b. b) start n (evaluate_delivered env c)"
  unfolding evaluate_delivered_def c(1)
proof (rule costs_put_then, rule q, rule c(1), rule s(1), rule s(2))
  fix t
  have c': "of_key key (Some (c\<lparr>wa_updated_at := t\<rparr>))" "credits env h (Some (c\<lparr>wa_updated_at := t\<rparr>)) \<le> n"
    using c by simp_all
  show "spends env watch key h (\<lambda>b. b) (Some (c\<lparr>wa_updated_at := t\<rparr>)) n
      (and_then (watch_token env c)
        (\<lambda>token. and_then (evaluate_locked env key token) (\<lambda>status. give (status = ''dispatched''))))"
  proof (rule costs_quiet_then)
    show "quiet watch (watch_token env c)" by (intro quiet_actions [OF q])
    show "of_key key (Some (c\<lparr>wa_updated_at := t\<rparr>))" "credits env h (Some (c\<lparr>wa_updated_at := t\<rparr>)) \<le> n"
      by (rule c')+
    show "spends env watch key h (\<lambda>b. b) (Some (c\<lparr>wa_updated_at := t\<rparr>)) n
        (and_then (evaluate_locked env key token) (\<lambda>status. give (status = ''dispatched'')))" for token
      by (rule costs_map, rule costs_evaluate, rule q, rule c'(1), rule c'(2)) simp
  qed
qed

lemma costs_deliver:
  assumes q: "watches env watch key h" and s: "of_key key start" "credits env h start \<le> n"
  shows "spends env watch key h (\<lambda>b. b) start n (deliver env installation delivery_id key)"
proof -
  have c: "wa_key (adopt_installation i v) = wa_key v" "credits env h (Some (adopt_installation i v)) = credits env h (Some v)"
    for i v by (cases i; simp add: adopt_installation_def)+
  have to: "spends env watch key h (\<lambda>b. b) start n (deliver_to env delivery_id v)"
    if v: "wa_key v = key" "credits env h (Some v) \<le> n" for v
  proof (cases "\<exists>d ds. delivery_id = Some (d # ds)")
    case True
    then obtain d ds where d: "delivery_id = Some (d # ds)" by blast
    show ?thesis unfolding deliver_to_def d option.case list.case
      by (rule costs_if, rule costs_give, rule s(1), use s(2) in simp, rule costs_delivered, rule q, rule s(1), rule s(2))
        (use v in simp_all)
  next
    case False
    then have "delivery_id = None \<or> delivery_id = Some []" by (metis list.exhaust option.exhaust)
    then have "deliver_to env delivery_id v = evaluate_delivered env v" by (auto simp: deliver_to_def)
    then show ?thesis by (simp only: costs_delivered [OF q s v])
  qed
  show ?thesis unfolding deliver_def
  proof (rule costs_locked, rule q, rule s(1), rule s(2), simp, rule costs_get_then, rule q, rule s(1), rule s(2), cases start)
    case None
    then show "spends env watch key h (\<lambda>b. b) start n (case start of None \<Rightarrow> give False
        | Some c \<Rightarrow> if wa_active c then deliver_to env delivery_id (adopt_installation installation c) else give False)"
      using s by (simp add: costs_give)
  next
    case (Some v)
    then show "spends env watch key h (\<lambda>b. b) start n (case start of None \<Rightarrow> give False
        | Some c \<Rightarrow> if wa_active c then deliver_to env delivery_id (adopt_installation installation c) else give False)"
      using s c to [of "adopt_installation installation v"] by (simp add: costs_give)
  qed
qed

lemma credits_retry:
  assumes "wa_retry_count v < max_retries_per_head"
  shows "credits env h (Some (v\<lparr>wa_retry_count := wa_retry_count v + 1\<rparr>)) \<le> credits env h (Some v)"
  using assms by (auto simp: credits_def)

lemma costs_retry:
  assumes q: "watches env watch key h" and s: "of_key key start" "credits env h start \<le> n"
  shows "spends env watch key h (\<lambda>x. False) start n (record_retry env key thread_id head check_name evidence url)"
proof (cases start)
  case None
  with s show ?thesis unfolding record_retry_def record_retry_locked_def
    by - (rule costs_locked, rule q, rule s(1), rule s(2), simp, rule costs_get_then, rule q, rule s(1), rule s(2),
      simp add: costs_give)
next
  case (Some v)
  have refused: "spends env watch key h (\<lambda>x. False) start n (give (retry_refused msg))" for msg
    using s by (simp add: costs_give)
  have noted: "spends env watch key h (\<lambda>x. False) start n
      (and_then (put_watch env v2) (\<lambda>u. and_then (if b then give False else notify_watch env v2 msg) (\<lambda>u. give reply)))"
    if "wa_key v2 = key" "credits env h (Some v2) \<le> n" for v2 b msg reply
  proof (rule costs_put_then, rule q, rule that(1), rule s(1), rule s(2))
    fix t
    show "spends env watch key h (\<lambda>x. False) (Some (v2\<lparr>wa_updated_at := t\<rparr>)) n
        (and_then (if b then give False else notify_watch env v2 msg) (\<lambda>u. give reply))"
      by (cases b; intro costs_quiet_then costs_give) (use that in \<open>auto intro!: quiet_rules quiet_actions [OF q]\<close>)
  qed
  have once_more: "credits env h (Some (v\<lparr>wa_retry_count := wa_retry_count v + 1\<rparr>)) \<le> n \<and>
      credits env h (Some (v\<lparr>wa_retry_count := wa_retry_count v + 1, wa_alert_keys := ks\<rparr>)) \<le> n"
    if "wa_retry_count v < max_retries_per_head" for ks
    using le_trans [OF credits_retry [OF that, of env h] s(2) [unfolded Some]] by simp
  from Some s have k: "wa_key v = key" by simp
  show ?thesis unfolding record_retry_def record_retry_locked_def
    by (rule costs_locked, rule q, rule s(1), rule s(2), simp, rule costs_get_then, rule q, rule s(1), rule s(2),
        unfold Some option.case, (rule costs_if, rule refused [unfolded Some])+, unfold Let_def,
        rule noted [unfolded Some])
      (use k once_more in \<open>auto simp: not_le\<close>)
qed

subsection \<open>Sequences of operations\<close>

text \<open>What happens to one watch, in any order: a timer, a CI webhook, a recorded rerun, a stop.\<close>

datatype baby_op =
    TimerFires "string option"
  | WebhookArrives "int option" "string option"
  | RerunRecorded string string string string string
  | WatchStopped

definition run_op :: "'w baby_env \<Rightarrow> string \<Rightarrow> baby_op \<Rightarrow> ('w, bool) action" where
  "run_op env key op =
     (case op of
        TimerFires token \<Rightarrow> and_then (evaluate_watch env key token) (\<lambda>status. give (status = ''dispatched''))
      | WebhookArrives installation delivery_id \<Rightarrow> deliver env installation delivery_id key
      | RerunRecorded thread_id head_sha check_name evidence details_url \<Rightarrow>
          and_then (record_retry env key thread_id head_sha check_name evidence details_url) (\<lambda>reply. give False)
      | WatchStopped \<Rightarrow> and_then (stop_watch env key) (\<lambda>stopped. give False))"

fun dispatches :: "'w baby_env \<Rightarrow> string \<Rightarrow> baby_op list \<Rightarrow> 'w \<Rightarrow> nat" where
  "dispatches env key [] w = 0"
| "dispatches env key (op # ops) w =
     (case run_op env key op w of
        (Inr True, w') \<Rightarrow> Suc (dispatches env key ops w')
      | (r, w') \<Rightarrow> dispatches env key ops w')"

lemma costs_op:
  assumes q: "watches env watch key h" and s: "of_key key start" "credits env h start \<le> n"
  shows "spends env watch key h (\<lambda>b. b) start n (run_op env key op)"
proof (cases op)
  case (TimerFires token)
  have locked: "spends env watch key h (\<lambda>s. s = ''dispatched'') start n (evaluate_watch env key token)"
    unfolding evaluate_watch_def
    by (rule costs_locked, rule q, rule s(1), rule s(2), simp, rule costs_evaluate, rule q, rule s(1), rule s(2))
  show ?thesis unfolding run_op_def TimerFires baby_op.case by (rule costs_map, rule locked) simp
next
  case (WebhookArrives installation delivery_id)
  show ?thesis unfolding run_op_def WebhookArrives baby_op.case by (rule costs_deliver, rule q, rule s(1), rule s(2))
next
  case (RerunRecorded thread_id head_sha check_name evidence details_url)
  show ?thesis unfolding run_op_def RerunRecorded baby_op.case
    by (rule costs_map, rule costs_retry, rule q, rule s(1), rule s(2)) simp
next
  case WatchStopped
  show ?thesis unfolding run_op_def WatchStopped baby_op.case
    by (rule costs_map [where D = "\<lambda>x. False"], rule costs_stop, rule q, rule s(1), rule s(2)) simp_all
qed

lemma dispatches_cost:
  assumes q: "watches env watch key h"
  shows "of_key key (watch w) \<Longrightarrow> dispatches env key ops w \<le> credits env h (watch w)"
proof (induction ops arbitrary: w)
  case (Cons op ops)
  obtain r w' where r: "run_op env key op w = (r, w')" by (cases "run_op env key op w") simp
  have paid: "of_key key (watch w') \<and>
      credits env h (watch w') + (case r of Inl e \<Rightarrow> 0 | Inr b \<Rightarrow> of_bool b) \<le> credits env h (watch w)"
    by (rule costsD, rule costs_op, rule q, rule Cons.prems, rule order_refl, rule refl, rule r)
  with Cons.IH [of w'] show ?case
    by (cases r; cases "projr r") (simp_all add: r)
qed simp

lemma credits_bound: "credits env h watch \<le> max_retries_per_head"
  by (simp add: credits_def split: option.split)

text \<open>
  C10. While a pull request stays at one head, a watch hands its failing checks to the agent at most three times,
  whatever the timers, webhooks, recorded reruns and stops, in any order and with any failure of GitHub, the
  channels and the store on the way.
\<close>

theorem at_most_three_dispatches:
  assumes "watches env watch key h" "of_key key (watch w)"
  shows "dispatches env key ops w \<le> max_retries_per_head"
  using dispatches_cost [OF assms(1), of w ops] credits_bound [of env h "watch w"] assms(2) by simp

text \<open>A store that holds one watch, and a pull request whose tests fail for ever.\<close>

definition one_pr :: "watch option github" where
  "one_pr verb url args w =
     (Inr ((plain_response 200)\<lparr>rs_json := Some (JDict [(''state'', JStr ''open''),
        (''head'', JDict [(''sha'', JStr ''c0ffee'')])])\<rparr>), w)"

definition one_watch_env :: "watch option baby_env" where
  "one_watch_env =
     \<lparr>be_now = \<lambda>w. 0, be_get = \<lambda>k w. (Inr w, w), be_put = \<lambda>k v w. (Inr (), Some v), be_delete = \<lambda>k w. (Inr (), None),
      be_active = \<lambda>a b. give [], be_lock = \<lambda>k. give (), be_unlock = \<lambda>k. give (), be_cron_search = \<lambda>k. give [],
      be_cron_create = \<lambda>k. give (JDict [(''cron_id'', JStr ''c'')]), be_cron_delete = \<lambda>k. give (),
      be_token = \<lambda>n. give (Some ''t''), be_gh = \<lambda>t. one_pr,
      be_checks = \<lambda>t a b c. give (Some [[(''name'', JStr ''tests''), (''status'', JStr ''completed''),
        (''conclusion'', JStr ''failure'')]]),
      be_statuses = \<lambda>t a b c. give (Some []), be_slack = \<lambda>a b c. give True, be_linear = \<lambda>a b. give True,
      be_comment = \<lambda>a b n c d. give True, be_dispatch = \<lambda>a b c d. give (), be_sha = \<lambda>s. s, be_str = \<lambda>v. []\<rparr>"

definition failing_watch :: watch where
  "failing_watch =
     fresh_watch None \<lparr>pf_owner = ''o'', pf_repo = ''r'', pf_number = 7, pf_url = ''u''\<rparr> ''c0ffee'' ''b'' (Some 1) ''t'' [] [] 0"

definition rerun :: baby_op where
  "rerun = RerunRecorded ''t'' ''c0ffee'' ''tests'' ''timeout'' []"

lemma one_watch_env_watches: "watches one_watch_env id (wa_key failing_watch) ''c0ffee''"
  by (auto simp: watches_def one_watch_env_def quiet_def give_def fetch_pr_def read_json_def good_def one_pr_def
      and_then_def body_json_def status_ok_def plain_response_def field_def dict_get_def nonempty_str_def)

theorem at_most_three_dispatches_witness:
  "dispatches one_watch_env (wa_key failing_watch)
     [TimerFires None, WebhookArrives (Some 2) (Some ''d''), rerun, TimerFires None, rerun, TimerFires None, rerun,
      TimerFires None] (Some failing_watch) = 3 \<and>
   dispatches one_watch_env (wa_key failing_watch) [rerun, TimerFires None, WatchStopped, TimerFires None]
     (Some failing_watch) \<le> max_retries_per_head"
proof
  show "dispatches one_watch_env (wa_key failing_watch)
     [TimerFires None, WebhookArrives (Some 2) (Some ''d''), rerun, TimerFires None, rerun, TimerFires None, rerun,
      TimerFires None] (Some failing_watch) = 3"
    by code_simp
  show "dispatches one_watch_env (wa_key failing_watch) [rerun, TimerFires None, WatchStopped, TimerFires None]
     (Some failing_watch) \<le> max_retries_per_head"
    by (rule at_most_three_dispatches [OF one_watch_env_watches]) simp
qed

end
