(* ===== verification/Plan_Review.thy ===== *)
theory Plan_Review
  imports Action_Costs Publish_Review
begin

section \<open>Plans and their review\<close>

text \<open>
  Models the review of implementation plans: \<open>agent/dashboard/plan_store.py\<close> (the published plan, its status
  and its comments), \<open>agent/dashboard/plan_api.py\<close> (reading, editing, commenting, approving and rejecting in
  the dashboard), \<open>agent/tools/save_plan.py\<close>, \<open>approve_plan.py\<close> and \<open>enter_plan_mode.py\<close>, the filter of
  \<open>agent/middleware/plan_mode.py\<close> and the owner and source of a thread from \<open>agent/dashboard/thread_api.py\<close>.
  The store, the threads, the sandbox, the dispatch of runs, Slack, the clock, identifiers and \<open>str\<close> on
  values that are no strings are parameters. An \<open>HTTPException\<close> is an error with its status in the text.
  The thread locks make each decision one step.
\<close>

record 'w plan_env =
  pe_now :: "'w \<Rightarrow> string"
  pe_today :: "'w \<Rightarrow> string"
  pe_uuid :: "'w \<Rightarrow> string"
  pe_get :: "string \<Rightarrow> ('w, json) action"
  pe_put :: "string \<Rightarrow> fields \<Rightarrow> ('w, unit) action"
  pe_comments :: "string \<Rightarrow> ('w, json list) action"
  pe_comment_put :: "string \<Rightarrow> string \<Rightarrow> fields \<Rightarrow> ('w, unit) action"
  pe_comment_delete :: "string \<Rightarrow> string \<Rightarrow> ('w, unit) action"
  pe_thread :: "string \<Rightarrow> ('w, json) action"
  pe_update :: "string \<Rightarrow> fields \<Rightarrow> ('w, unit) action"
  pe_read_file :: "string \<Rightarrow> string \<Rightarrow> ('w, json) action"
  pe_write_file :: "string \<Rightarrow> string \<Rightarrow> string \<Rightarrow> ('w, unit) action"
  pe_dispatch :: "string \<Rightarrow> string \<Rightarrow> fields \<Rightarrow> string \<Rightarrow> ('w, string) action"
  pe_slack :: "string \<Rightarrow> string \<Rightarrow> string \<Rightarrow> ('w, bool) action"
  pe_str :: "json \<Rightarrow> string"

definition py_text :: "'w plan_env \<Rightarrow> json \<Rightarrow> string" where
  "py_text env v = (case as_str v of Some s \<Rightarrow> s | None \<Rightarrow> pe_str env v)"

definition py_text_or_empty :: "'w plan_env \<Rightarrow> json \<Rightarrow> string" where
  "py_text_or_empty env v = (if truthy v then py_text env v else [])"

definition http_error :: "nat \<Rightarrow> string \<Rightarrow> exn" where
  "http_error code detail = Raised ''HTTPException'' (show_nat code @ '': '' @ detail)"

subsection \<open>The published plan\<close>

definition plan_file_directory :: string where
  "plan_file_directory = ''/workspace/plans''"

datatype plan_status = PlanPlanning | PlanReady | PlanShared | PlanRevising | PlanApproved | PlanCancelled

fun plan_status_name :: "plan_status \<Rightarrow> string" where
  "plan_status_name PlanPlanning = ''planning''"
| "plan_status_name PlanReady = ''ready''"
| "plan_status_name PlanShared = ''shared''"
| "plan_status_name PlanRevising = ''revising''"
| "plan_status_name PlanApproved = ''approved''"
| "plan_status_name PlanCancelled = ''cancelled''"

abbreviation status_json :: "plan_status \<Rightarrow> json" where
  "status_json st \<equiv> JStr (plan_status_name st)"

definition text_or :: "string \<Rightarrow> string \<Rightarrow> string" where
  "text_or d s = (if s = [] then d else s)"

definition make_plan_approver :: "string \<Rightarrow> string \<Rightarrow> string \<Rightarrow> fields" where
  "make_plan_approver actor_id name source =
     [(''id'', JStr (text_or (text_or ''unknown'' (strip name)) (strip actor_id))),
      (''name'', JStr (text_or (text_or ''Unknown user'' (strip actor_id)) (strip name))),
      (''source'', JStr (text_or ''unknown'' (strip source)))]"

text \<open>An approver that is read from a record goes through the same normalization.\<close>

definition approver_from :: "'w plan_env \<Rightarrow> fields \<Rightarrow> fields" where
  "approver_from env f =
     make_plan_approver (py_text_or_empty env (field f ''id'')) (py_text_or_empty env (field f ''name''))
       (py_text_or_empty env (field f ''source''))"

definition slug_char :: "char \<Rightarrow> bool" where
  "slug_char c = (let n = ord_c c in (65 \<le> n \<and> n \<le> 90) \<or> (97 \<le> n \<and> n \<le> 122) \<or> (48 \<le> n \<and> n \<le> 57) \<or> c = CHR ''-'')"

fun dash_runs :: "bool \<Rightarrow> string \<Rightarrow> string" where
  "dash_runs b [] = []"
| "dash_runs b (c # cs) =
     (if slug_char c then c # dash_runs False cs else if b then dash_runs True cs else CHR ''-'' # dash_runs True cs)"

definition strip_dashes :: "string \<Rightarrow> string" where
  "strip_dashes s = rev (lstrip_chars ''-'' (rev (lstrip_chars ''-'' s)))"

definition plan_file_path_for_thread :: "string \<Rightarrow> string \<Rightarrow> string" where
  "plan_file_path_for_thread date thread_id =
     (let slug = take 48 (py_lower (strip_dashes (dash_runs False thread_id)))
      in plan_file_directory @ ''/'' @ date @ ''-'' @ text_or ''plan'' slug @ ''.html'')"

definition get_plan_content :: "'w plan_env \<Rightarrow> string \<Rightarrow> bool \<Rightarrow> ('w, fields option) action" where
  "get_plan_content env t raise_on_error =
     catch_all (and_then (pe_get env t) (\<lambda>item. give (as_dict item)))
       (\<lambda>e. if raise_on_error then fail e else give None)"

definition or_nothing :: "fields option \<Rightarrow> fields" where
  "or_nothing content = (case content of None \<Rightarrow> [] | Some d \<Rightarrow> d)"

definition stored_plan_file_path :: "'w plan_env \<Rightarrow> string \<Rightarrow> ('w, string option) action" where
  "stored_plan_file_path env t =
     and_then (get_plan_content env t False) (\<lambda>c. give (nonempty_str (field (or_nothing c) ''plan_file_path'')))"

definition merge_thread_metadata :: "'w plan_env \<Rightarrow> string \<Rightarrow> fields \<Rightarrow> ('w, unit) action" where
  "merge_thread_metadata env t metadata = swallow (pe_update env t metadata)"

subsection \<open>Comments\<close>

definition stamp_of :: "'w plan_env \<Rightarrow> fields \<Rightarrow> string" where
  "stamp_of env c = py_text env (dict_get c ''created_at'' (JStr []))"

definition list_plan_comments :: "'w plan_env \<Rightarrow> string \<Rightarrow> bool \<Rightarrow> ('w, fields list) action" where
  "list_plan_comments env t raise_on_error =
     catch_all
       (and_then (pe_comments env t)
          (\<lambda>items. give (sort_key (stamp_of env) (filter (\<lambda>c. c \<noteq> []) (List.map_filter as_dict items)))))
       (\<lambda>e. if raise_on_error then fail e else give [])"

fun delete_comments :: "'w plan_env \<Rightarrow> string \<Rightarrow> fields list \<Rightarrow> ('w, unit) action" where
  "delete_comments env t [] = give ()"
| "delete_comments env t (c # cs) =
     and_then (case nonempty_str (field c ''id'') of None \<Rightarrow> give () | Some i \<Rightarrow> pe_comment_delete env t i)
       (\<lambda>u. delete_comments env t cs)"

definition clear_plan_comments :: "'w plan_env \<Rightarrow> string \<Rightarrow> ('w, unit) action" where
  "clear_plan_comments env t = and_then (list_plan_comments env t False) (delete_comments env t)"

definition add_plan_comment :: "'w plan_env \<Rightarrow> string \<Rightarrow> string \<Rightarrow> string \<Rightarrow> string \<Rightarrow> ('w, fields) action" where
  "add_plan_comment env t author author_login body w =
     (let c = [(''id'', JStr (pe_uuid env w)), (''author'', JStr author), (''author_login'', JStr author_login),
        (''body'', JStr body), (''created_at'', JStr (pe_now env w))]
      in and_then (pe_comment_put env t (pe_uuid env w) c) (\<lambda>u. give c) w)"

fun comment_lines :: "'w plan_env \<Rightarrow> nat \<Rightarrow> fields list \<Rightarrow> string list" where
  "comment_lines env n [] = []"
| "comment_lines env n (c # cs) =
     (let body = strip (py_text env (dict_get c ''body'' (JStr [])))
      in if body = [] then comment_lines env n cs
         else (show_nat n @ ''. '' @ strip (py_text env (truthy_or (field c ''author'') (JStr ''reviewer''))) @ '': '' @ body) #
           comment_lines env (n + 1) cs)"

definition format_comments :: "'w plan_env \<Rightarrow> fields list \<Rightarrow> string" where
  "format_comments env cs = join [newline] (comment_lines env 1 cs)"

subsection \<open>Publishing and changing the status\<close>

definition opt_field :: "string \<Rightarrow> string option \<Rightarrow> fields" where
  "opt_field k v = (case v of None \<Rightarrow> [] | Some s \<Rightarrow> [(k, JStr s)])"

definition path_field :: "string option \<Rightarrow> fields" where
  "path_field v = (case v of Some (c # cs) \<Rightarrow> [(''plan_file_path'', JStr (c # cs))] | _ \<Rightarrow> [])"

definition mode_field :: "bool option \<Rightarrow> fields" where
  "mode_field b = (case b of None \<Rightarrow> [] | Some b \<Rightarrow> [(''plan_mode'', JBool b)])"

definition plan_record :: "string option \<Rightarrow> string option \<Rightarrow> plan_status \<Rightarrow> string option \<Rightarrow> fields" where
  "plan_record html markdown st path =
     [(''status'', status_json st)] @ opt_field ''html'' html @ opt_field ''markdown'' markdown @ path_field path"

definition settle_publication :: "'w plan_env \<Rightarrow> string \<Rightarrow> plan_status \<Rightarrow> bool \<Rightarrow> bool option \<Rightarrow> ('w, unit) action" where
  "settle_publication env t st clear_comments plan_mode =
     and_then (if clear_comments then swallow (clear_plan_comments env t) else give ())
       (\<lambda>u. merge_thread_metadata env t ([(''plan_status'', status_json st)] @ mode_field plan_mode))"

definition save_plan_content ::
  "'w plan_env \<Rightarrow> string \<Rightarrow> string option \<Rightarrow> string option \<Rightarrow> plan_status \<Rightarrow> bool \<Rightarrow> string option \<Rightarrow> bool option
   \<Rightarrow> ('w, unit) action" where
  "save_plan_content env t html markdown st clear_comments path plan_mode =
     and_then (if path = None then stored_plan_file_path env t else give path)
       (\<lambda>path. and_then (pe_put env t (plan_record html markdown st path))
         (\<lambda>u. settle_publication env t st clear_comments plan_mode))"

definition kept_fields :: "fields \<Rightarrow> string list \<Rightarrow> fields" where
  "kept_fields d ks = List.map_filter (\<lambda>k. map_option (\<lambda>s. (k, JStr s)) (as_str (field d k))) ks"

definition enters_after_share :: "fields \<Rightarrow> plan_status \<Rightarrow> bool" where
  "enters_after_share existing st = (field existing ''status'' = status_json PlanShared \<and> st = PlanPlanning)"

definition status_record :: "fields \<Rightarrow> plan_status \<Rightarrow> fields" where
  "status_record existing st =
     [(''status'', status_json st)] @
     (if enters_after_share existing st then [(''html'', JStr [])]
      else kept_fields existing [''html'', ''markdown''] @ path_field (nonempty_str (field existing ''plan_file_path'')))"

text \<open>The fields that an approval adds to the record, and to the metadata with a prefix.\<close>

definition approval_fields :: "'w plan_env \<Rightarrow> string \<Rightarrow> plan_status \<Rightarrow> fields option \<Rightarrow> string \<Rightarrow> fields" where
  "approval_fields env prefix st approved_by now =
     (case approved_by of
        Some a \<Rightarrow>
          (if st = PlanApproved
           then [(prefix @ ''approved_by'', JDict (approver_from env a)), (prefix @ ''approved_at'', JStr now)] else [])
      | None \<Rightarrow> [])"

definition set_plan_status ::
  "'w plan_env \<Rightarrow> string \<Rightarrow> plan_status \<Rightarrow> bool option \<Rightarrow> fields option \<Rightarrow> ('w, unit) action" where
  "set_plan_status env t st plan_mode approved_by =
     and_then (get_plan_content env t False)
       (\<lambda>existing w. and_then
         (pe_put env t (status_record (or_nothing existing) st @ approval_fields env [] st approved_by (pe_now env w)))
         (\<lambda>u. merge_thread_metadata env t
            ([(''plan_status'', status_json st)] @ approval_fields env ''plan_'' st approved_by (pe_now env w) @
             mode_field plan_mode)) w)"

definition write_plan_to_sandbox :: "'w plan_env \<Rightarrow> string \<Rightarrow> string \<Rightarrow> string \<Rightarrow> ('w, string) action" where
  "write_plan_to_sandbox env t content path w =
     and_then (swallow (pe_write_file env t (text_or (plan_file_path_for_thread (pe_today env w) t) path) content))
       (\<lambda>u. give (text_or (plan_file_path_for_thread (pe_today env w) t) path)) w"

subsection \<open>Threads and users\<close>

definition thread_metadata :: "'w plan_env \<Rightarrow> string \<Rightarrow> ('w, fields) action" where
  "thread_metadata env t =
     catch_all (and_then (pe_thread env t) (\<lambda>thread. give (or_nothing (as_dict (jget thread ''metadata'')))))
       (\<lambda>e. fail (http_error 404 ''thread not found''))"

definition surfaced_sources :: "string list" where
  "surfaced_sources = [''dashboard'', ''github'', ''slack'', ''linear'', ''schedule'']"

definition thread_source :: "fields \<Rightarrow> string" where
  "thread_source m = (case nonempty_str (field m ''source'') of None \<Rightarrow> ''dashboard'' | Some s \<Rightarrow> s)"

definition stripped_str :: "json \<Rightarrow> string option" where
  "stripped_str v = (case as_str v of None \<Rightarrow> None | Some s \<Rightarrow> (if strip s = [] then None else Some (strip s)))"

definition thread_owner_login :: "fields \<Rightarrow> string option" where
  "thread_owner_login m = stripped_str (field m ''github_login'')"

definition thread_owner_email :: "fields \<Rightarrow> string option" where
  "thread_owner_email m = map_option py_lower (stripped_str (field m ''triggering_user_email''))"

definition user_owns_thread :: "fields \<Rightarrow> string \<Rightarrow> string option \<Rightarrow> bool" where
  "user_owns_thread m login email =
     (thread_source m \<in> set surfaced_sources \<and>
      (thread_owner_login m = Some login \<or>
       (case email of Some (c # cs) \<Rightarrow> thread_owner_email m = Some (py_lower (strip (c # cs))) | _ \<Rightarrow> False)))"

definition thread_is_readable :: "fields \<Rightarrow> bool" where
  "thread_is_readable m = (thread_source m \<in> set surfaced_sources)"

definition metadata_repo :: "fields \<Rightarrow> (string \<times> string) option" where
  "metadata_repo m =
     (case (nonempty_str (field m ''repo_owner''), nonempty_str (field m ''repo_name'')) of
        (Some ow, Some n) \<Rightarrow> Some (ow, n)
      | _ \<Rightarrow>
          (case (nonempty_str (jget (field m ''repo'') ''owner''), nonempty_str (jget (field m ''repo'') ''name'')) of
             (Some ow, Some n) \<Rightarrow> Some (ow, n) | _ \<Rightarrow> None))"

text \<open>The session of a dashboard user: login, mail address and display name.\<close>

record session =
  se_sub :: string
  se_email :: "string option"
  se_name :: "string option"

definition display_name :: "session \<Rightarrow> string" where
  "display_name u = (case se_name u of Some (c # cs) \<Rightarrow> c # cs | _ \<Rightarrow> se_sub u)"

subsection \<open>The dashboard\<close>

definition readable_metadata :: "'w plan_env \<Rightarrow> string \<Rightarrow> ('w, fields) action" where
  "readable_metadata env t =
     and_then (thread_metadata env t)
       (\<lambda>m. if thread_is_readable m then give m else fail (http_error 404 ''thread not found''))"

definition reject_shared_content :: "fields \<Rightarrow> ('w, unit) action" where
  "reject_shared_content content =
     (if field content ''status'' = status_json PlanShared
      then fail (http_error 409 ''shared content is not an implementation plan'') else give ())"

definition get_plan :: "'w plan_env \<Rightarrow> string \<Rightarrow> session \<Rightarrow> ('w, fields) action" where
  "get_plan env t u =
     and_then (readable_metadata env t)
       (\<lambda>m. and_then (get_plan_content env t False)
         (\<lambda>c. let content = or_nothing c;
                  approved_by = truthy_or (field content ''approved_by'') (field m ''plan_approved_by'');
                  approved_at = truthy_or (field content ''approved_at'') (field m ''plan_approved_at'')
              in give
                [(''threadId'', JStr t),
                 (''status'', truthy_or (field content ''status'') (truthy_or (field m ''plan_status'') (status_json PlanPlanning))),
                 (''html'', dict_get content ''html'' (JStr [])), (''markdown'', dict_get content ''markdown'' (JStr [])),
                 (''isOwner'', JBool (user_owns_thread m (se_sub u) (se_email u))),
                 (''approvedBy'', case as_dict approved_by of None \<Rightarrow> JNull | Some a \<Rightarrow> JDict (approver_from env a)),
                 (''approvedAt'', case as_str approved_at of None \<Rightarrow> JNull | Some s \<Rightarrow> JStr s),
                 (''user'', JDict [(''id'', JStr (se_sub u)), (''login'', JStr (se_sub u)), (''email'', opt_str (se_email u)),
                   (''name'', JStr (display_name u))])]))"

definition legacy_markdown :: "fields \<Rightarrow> bool" where
  "legacy_markdown content = (as_str (field content ''markdown'') \<noteq> None \<and> \<not> truthy (field content ''html''))"

definition update_plan :: "'w plan_env \<Rightarrow> string \<Rightarrow> string option \<Rightarrow> string option \<Rightarrow> session \<Rightarrow> ('w, fields) action" where
  "update_plan env t html markdown u =
     and_then (thread_metadata env t)
       (\<lambda>m. if \<not> user_owns_thread m (se_sub u) (se_email u) then fail (http_error 403 ''only the plan owner can edit the plan'')
         else and_then (get_plan_content env t False)
          (\<lambda>c. let content = or_nothing c;
                  legacy = legacy_markdown content;
                  value = strip (case (if legacy then markdown else html) of None \<Rightarrow> [] | Some s \<Rightarrow> s);
                  st = truthy_or (field content ''status'') (truthy_or (field m ''plan_status'') (status_json PlanPlanning))
              in and_then (reject_shared_content content)
                (\<lambda>v. if value = []
                   then fail (http_error 422 (''plan '' @ (if legacy then ''markdown'' else ''html'') @ '' cannot be empty''))
                   else if st \<in> {status_json PlanApproved, status_json PlanCancelled}
                   then fail (http_error 409 (''cannot edit a '' @ py_text env st @ '' plan''))
                   else (\<lambda>w. let path = (case as_str (field content ''plan_file_path'') of
                             None \<Rightarrow> plan_file_path_for_thread (pe_today env w) t | Some p \<Rightarrow> p)
                     in and_then
                       (save_plan_content env t (if legacy then None else Some value) (if legacy then Some value else None)
                          PlanReady False (Some path) (Some True))
                       (\<lambda>v. and_then (write_plan_to_sandbox env t value path)
                          (\<lambda>p. give [(''status'', status_json PlanReady),
                             (if legacy then ''markdown'' else ''html'', JStr value)])) w))))"

definition get_plan_comments :: "'w plan_env \<Rightarrow> string \<Rightarrow> ('w, fields list) action" where
  "get_plan_comments env t = and_then (readable_metadata env t) (\<lambda>m. list_plan_comments env t False)"

definition post_plan_comment :: "'w plan_env \<Rightarrow> string \<Rightarrow> string \<Rightarrow> session \<Rightarrow> ('w, fields) action" where
  "post_plan_comment env t body u =
     and_then (readable_metadata env t)
       (\<lambda>m. and_then (get_plan_content env t False)
         (\<lambda>c. and_then (reject_shared_content (or_nothing c))
           (\<lambda>v. if strip body = [] then fail (http_error 422 ''comment body cannot be empty'')
             else add_plan_comment env t (display_name u) (se_sub u) (strip body))))"

definition remove_plan_comment :: "'w plan_env \<Rightarrow> string \<Rightarrow> string \<Rightarrow> session \<Rightarrow> ('w, unit) action" where
  "remove_plan_comment env t comment_id u =
     and_then (readable_metadata env t)
       (\<lambda>m. and_then (get_plan_content env t False)
         (\<lambda>c. and_then (reject_shared_content (or_nothing c))
           (\<lambda>v. and_then (list_plan_comments env t False)
             (\<lambda>comments. case find (\<lambda>c. field c ''id'' = JStr comment_id) comments of
                None \<Rightarrow> fail (http_error 404 ''comment not found'')
              | Some target \<Rightarrow>
                  (if field target ''author_login'' \<noteq> JStr (se_sub u) \<and> \<not> user_owns_thread m (se_sub u) (se_email u)
                   then fail (http_error 403 ''only the author or the plan owner can delete a comment'')
                   else pe_comment_delete env t comment_id)))))"

subsection \<open>Decisions\<close>

definition followup_config :: "string \<Rightarrow> fields \<Rightarrow> bool \<Rightarrow> fields" where
  "followup_config t m plan_mode =
     [(''thread_id'', JStr t), (''source'', JStr (text_or ''slack'' (thread_source m)))] @
     opt_field ''user_email'' (nonempty_str (field m ''triggering_user_email'')) @
     opt_field ''github_login'' (nonempty_str (field m ''github_login'')) @
     (case metadata_repo m of None \<Rightarrow> [] | Some (ow, n) \<Rightarrow> [(''repo'', JDict [(''owner'', JStr ow), (''name'', JStr n)])]) @
     (case as_dict (jget (field m ''source_context'') ''slack_thread'') of
        None \<Rightarrow> [] | Some d \<Rightarrow> [(''slack_thread'', JDict d)]) @
     [(''plan_mode'', JBool plan_mode)]"

definition dispatch_followup :: "'w plan_env \<Rightarrow> string \<Rightarrow> fields \<Rightarrow> string \<Rightarrow> bool \<Rightarrow> ('w, string) action" where
  "dispatch_followup env t m text plan_mode =
     pe_dispatch env t text (followup_config t m plan_mode) (text_or ''slack'' (thread_source m))"

definition slack_thread_from_metadata :: "fields \<Rightarrow> (string \<times> string) option" where
  "slack_thread_from_metadata m =
     (let thread = jget (field m ''source_context'') ''slack_thread''
      in case (stripped_str (jget thread ''channel_id''), stripped_str (jget thread ''thread_ts'')) of
           (Some c, Some ts) \<Rightarrow> Some (c, ts) | _ \<Rightarrow> None)"

definition post_plan_approved :: "'w plan_env \<Rightarrow> fields \<Rightarrow> nat \<Rightarrow> string \<Rightarrow> ('w, unit) action" where
  "post_plan_approved env m n actor =
     (case slack_thread_from_metadata m of
        None \<Rightarrow> give ()
      | Some (channel, ts) \<Rightarrow>
          swallow (pe_slack env channel ts (''Plan approved with '' @ show_nat n @ '' comments by '' @ actor)))"

definition guidance :: "string \<Rightarrow> string \<Rightarrow> string" where
  "guidance kind plan =
     ''The plan has been approved. Use the reviewed '' @ kind @ '' below '' @
     ''as the implementation guide. Apply reasonable engineering judgment where details '' @
     ''need adjustment while preserving its goals and reviewer edits:'' @ [newline, newline] @ plan"

definition with_feedback :: "string \<Rightarrow> string \<Rightarrow> string" where
  "with_feedback feedback text =
     (if feedback = [] then text
      else text @ [newline, newline] @ ''Also take this reviewer feedback into account:'' @ [newline, newline] @ feedback)"

definition approved_text :: "string \<Rightarrow> string \<Rightarrow> string \<Rightarrow> string" where
  "approved_text html markdown feedback =
     with_feedback feedback
       (if html \<noteq> [] then guidance ''self-contained HTML artifact'' html
        else if markdown \<noteq> [] then guidance ''Markdown plan'' markdown
        else ''The plan has been approved. Implement it now as described in the plan.'')"

definition plan_text :: "'w plan_env \<Rightarrow> fields \<Rightarrow> string \<Rightarrow> string" where
  "plan_text env content k = strip (py_text env (dict_get content k (JStr [])))"

definition ready_for_review :: "fields \<Rightarrow> fields \<Rightarrow> bool" where
  "ready_for_review m content =
     (field m ''plan_status'' = status_json PlanReady \<and> field content ''status'' = status_json PlanReady)"

definition approve_ready ::
  "'w plan_env \<Rightarrow> string \<Rightarrow> fields \<Rightarrow> fields \<Rightarrow> fields \<Rightarrow> fields list \<Rightarrow> ('w, fields) action" where
  "approve_ready env t approver m content comments =
     and_then (set_plan_status env t PlanApproved (Some False) (Some approver))
       (\<lambda>u. and_then
         (catch_all
            (dispatch_followup env t m
               (approved_text (plan_text env content ''html'') (plan_text env content ''markdown'') (format_comments env comments))
               False)
            (\<lambda>e. and_then (set_plan_status env t PlanReady (Some True) None) (\<lambda>u. fail e)))
         (\<lambda>run_id. and_then (post_plan_approved env m (length comments) (py_text env (field approver ''name'')))
            (\<lambda>u. give [(''status'', status_json PlanApproved), (''run_id'', JStr run_id)])))"

definition approve_plan_for_thread :: "'w plan_env \<Rightarrow> string \<Rightarrow> fields \<Rightarrow> ('w, fields) action" where
  "approve_plan_for_thread env t approver =
     and_then (thread_metadata env t)
       (\<lambda>m. and_then (get_plan_content env t True)
         (\<lambda>c. let content = or_nothing c
           in and_then (reject_shared_content content)
             (\<lambda>u. if field m ''plan_mode'' \<noteq> JBool True \<or> \<not> ready_for_review m content
                then give [(''status'', JStr (py_text env (truthy_or (field content ''status'')
                    (truthy_or (field m ''plan_status'') (status_json PlanPlanning))))), (''already_approved'', JBool True)]
                else and_then (list_plan_comments env t True) (approve_ready env t (approver_from env approver) m content))))"

definition approval_actor_name :: "session \<Rightarrow> string" where
  "approval_actor_name u = text_or ''User'' (strip (text_or ''User'' (display_name u)))"

definition approve_plan_api :: "'w plan_env \<Rightarrow> string \<Rightarrow> session \<Rightarrow> ('w, fields) action" where
  "approve_plan_api env t u =
     and_then (readable_metadata env t)
       (\<lambda>m. approve_plan_for_thread env t (make_plan_approver (strip (se_sub u)) (approval_actor_name u) ''dashboard''))"

definition rejection_text :: "string \<Rightarrow> string" where
  "rejection_text feedback =
     ''The plan needs changes before implementation. Address this reviewer feedback in the '' @
     ''existing self-contained HTML file under /workspace/plans/, then publish an updated '' @
     ''artifact with the save_plan tool:'' @ [newline, newline] @ text_or ''(no specific comments were left)'' feedback"

definition reject_plan :: "'w plan_env \<Rightarrow> string \<Rightarrow> bool \<Rightarrow> ('w, fields) action" where
  "reject_plan env t dispatch =
     and_then (readable_metadata env t)
       (\<lambda>u. and_then (thread_metadata env t)
         (\<lambda>m. and_then (get_plan_content env t True)
           (\<lambda>c. let content = or_nothing c
             in and_then (reject_shared_content content)
               (\<lambda>u. if \<not> ready_for_review m content then fail (http_error 409 ''plan is no longer ready for review'')
                  else and_then (set_plan_status env t PlanRevising (Some True) None)
                    (\<lambda>u. if \<not> dispatch then give [(''status'', status_json PlanRevising)]
                       else and_then (list_plan_comments env t True)
                         (\<lambda>comments. and_then
                            (dispatch_followup env t m (rejection_text (format_comments env comments)) True)
                            (\<lambda>run_id. give [(''status'', status_json PlanRevising)])))))))"

subsection \<open>The tool \<open>save_plan\<close>\<close>

definition max_plan_lines :: nat where
  "max_plan_lines = 20 * 1000"

definition refused :: "string \<Rightarrow> fields" where
  "refused msg = [(''success'', JBool False), (''error'', JStr msg)]"

definition is_html_path :: "string \<Rightarrow> bool" where
  "is_html_path path =
     (CHR 0x00 \<notin> set path \<and> starts_with (plan_file_directory @ ''/'') path \<and>
      (let name = drop (length (plan_file_directory @ ''/'')) path
       in name \<noteq> [] \<and> CHR ''/'' \<notin> set name \<and> ends_with ''.html'' (py_lower name)))"

definition validate_html :: "string \<Rightarrow> string option" where
  "validate_html content =
     (let l = py_lower content
      in if \<not> contains ''<html'' l \<or> \<not> contains ''<head'' l \<or> \<not> contains ''<body'' l
         then Some ''plan file must be a complete HTML document with html, head, and body elements''
         else if \<not> contains ''<title'' l then Some ''plan file must include a descriptive title''
         else if contains ''<script'' l then Some ''plan HTML cannot include scripts''
         else if contains ''<iframe'' l \<or> contains ''<object'' l \<or> contains ''<embed'' l
         then Some ''plan HTML cannot include nested embeds''
         else if contains ''<form'' l then Some ''plan HTML cannot include forms''
         else None)"

definition read_plan_file :: "'w plan_env \<Rightarrow> string \<Rightarrow> string \<Rightarrow> ('w, string) action" where
  "read_plan_file env t path =
     and_then (pe_read_file env t path)
       (\<lambda>result. let data = jget result ''file_data''; encoding = jget data ''encoding''
          in if truthy (jget result ''error'')
             then fail (Raised ''ValueError'' (py_text env (jget result ''error'')))
             else if data = JNull then fail (Raised ''ValueError'' ''plan file could not be read'')
             else if encoding \<noteq> JNull \<and> encoding \<noteq> JStr ''utf-8''
             then fail (Raised ''ValueError'' ''plan file must be UTF-8 text'')
             else (case as_str (jget data ''content'') of
                 None \<Rightarrow> fail (Raised ''ValueError'' ''plan file content was not text'')
               | Some s \<Rightarrow>
                   (if max_plan_lines \<le> count_char newline s + 1
                    then fail (Raised ''ValueError'' ''plan file is too large'') else give s)))"

text \<open>The state of a run: whether its channel \<open>plan_mode\<close> is set, and to what.\<close>

definition run_in_plan_mode :: "bool option \<Rightarrow> fields \<Rightarrow> bool" where
  "run_in_plan_mode state configurable = (state = Some True \<or> field configurable ''plan_mode'' = JBool True)"

definition publish_file :: "'w plan_env \<Rightarrow> string \<Rightarrow> bool \<Rightarrow> string \<Rightarrow> string \<Rightarrow> ('w, fields) action" where
  "publish_file env t active path s =
     (if s = [] then give (refused ''plan file cannot be empty'')
      else (case validate_html s of
          Some e \<Rightarrow> give (refused e)
        | None \<Rightarrow>
            and_then
              (save_plan_content env t (Some s) None (if active then PlanReady else PlanShared) True
                 (Some path) (if active then Some True else None))
              (\<lambda>u. give [(''success'', JBool True), (''path'', JStr path)])))"

definition save_plan :: "'w plan_env \<Rightarrow> bool option \<Rightarrow> fields \<Rightarrow> string \<Rightarrow> ('w, fields) action" where
  "save_plan env state configurable plan_file_path =
     (let path = strip plan_file_path; active = run_in_plan_mode state configurable;
          t = py_text env (field configurable ''thread_id'')
      in if path = [] then give (refused ''plan_file_path cannot be empty'')
         else if \<not> is_html_path path
         then give (refused (''plan_file_path must point to an HTML file in '' @ plan_file_directory))
         else if \<not> truthy (field configurable ''thread_id'') then give (refused ''no thread_id in run config'')
         else catch_all
           (and_then (read_plan_file env t path)
              (\<lambda>s. publish_file env t active path (strip s)))
           (\<lambda>e. give (refused (''failed to save plan: '' @ exn_str e))))"

subsection \<open>The tools \<open>approve_plan\<close> and \<open>enter_plan_mode\<close>\<close>

text \<open>A tool that changes the state of the run answers with a command: the new plan mode and the message.\<close>

definition command :: "bool \<Rightarrow> string \<Rightarrow> string \<Rightarrow> fields" where
  "command plan_mode text tool_call_id =
     [(''update'', JDict [(''plan_mode'', JBool plan_mode),
        (''messages'', JList [JDict [(''content'', JStr text), (''tool_call_id'', JStr tool_call_id)]])])]"

definition run_metadata :: "'w plan_env \<Rightarrow> string \<Rightarrow> ('w, fields) action" where
  "run_metadata env t = and_then (pe_thread env t) (\<lambda>thread. give (or_nothing (as_dict (jget thread ''metadata''))))"

definition active_plan_mode :: "bool option \<Rightarrow> fields \<Rightarrow> fields \<Rightarrow> bool" where
  "active_plan_mode state configurable metadata =
     (case state of
        Some b \<Rightarrow> b
      | None \<Rightarrow> field configurable ''plan_mode'' = JBool True \<or> field metadata ''plan_mode'' = JBool True)"

definition current_approver :: "'w plan_env \<Rightarrow> fields \<Rightarrow> fields" where
  "current_approver env configurable =
     (let source = py_text env (truthy_or (field configurable ''source'') (JStr ''agent''));
          thread = field configurable ''slack_thread'';
          actor = truthy_or (jget thread ''triggering_user_id'')
            (truthy_or (field configurable ''github_login'')
              (truthy_or (field configurable ''user_email'') (JStr [])));
          name = truthy_or (jget thread ''triggering_user_name'')
            (truthy_or (field configurable ''github_login'') (JStr (py_text env actor)))
      in make_plan_approver (py_text env actor) (py_text env name) source)"

definition approved_message :: "string \<Rightarrow> string \<Rightarrow> string" where
  "approved_message plan feedback =
     with_feedback feedback
       (if plan \<noteq> []
        then ''Plan mode is now inactive because the plan was approved. Use the reviewed plan '' @
          ''below as the implementation guide. Apply reasonable engineering judgment where '' @
          ''details need adjustment while preserving its goals and reviewer edits:'' @ [newline, newline] @ plan
        else ''Plan mode is now inactive because the plan was approved. '' @
          ''Implement now as described in the approved plan.'')"

definition approve_plan_tool :: "'w plan_env \<Rightarrow> bool option \<Rightarrow> fields \<Rightarrow> string \<Rightarrow> ('w, fields) action" where
  "approve_plan_tool env state configurable tool_call_id =
     (let t = py_text env (field configurable ''thread_id'')
      in if \<not> truthy (field configurable ''thread_id'') then give (refused ''no thread_id in run config'')
         else catch_all
           (and_then (run_metadata env t)
              (\<lambda>m. if \<not> active_plan_mode state configurable m then give (refused ''plan mode is not active for this thread'')
                 else and_then (get_plan_content env t True)
                   (\<lambda>c. let content = or_nothing c
                     in if field content ''status'' = status_json PlanShared
                        then give (refused ''shared content is not an implementation plan'')
                        else and_then (list_plan_comments env t True)
                          (\<lambda>comments. and_then
                             (set_plan_status env t PlanApproved (Some False) (Some (current_approver env configurable)))
                             (\<lambda>u. give (command False
                                (approved_message
                                  (strip (py_text env (truthy_or (field content ''html'')
                                     (truthy_or (field content ''markdown'') (JStr [])))))
                                  (format_comments env comments)) tool_call_id))))))
           (\<lambda>e. give (refused (''failed to approve plan: '' @ exn_str e))))"

definition entered_message :: string where
  "entered_message =
     ''Plan mode is active. Stay read-only for the target repo: research the codebase, '' @
     ''create or edit a dated, self-contained HTML artifact under `/workspace/plans/`, then '' @
     ''publish it with the `save_plan` tool and share the plan-review link in the source '' @
     ''channel. Do not edit repo files, commit, push, or open a PR - wait for the user to '' @
     ''approve the plan.''"

text \<open>\<open>mark\<close> is the marking of the turn's checkpoint, for the latest message of a human, when it has one.\<close>

definition enter_plan_mode ::
  "'w plan_env \<Rightarrow> (string \<Rightarrow> string \<Rightarrow> ('w, unit) action) \<Rightarrow> fields \<Rightarrow> string option \<Rightarrow> string \<Rightarrow> ('w, fields) action" where
  "enter_plan_mode env mark configurable turn_key tool_call_id =
     and_then
       (if truthy (field configurable ''thread_id'')
        then swallow
          (and_then (set_plan_status env (py_text env (field configurable ''thread_id'')) PlanPlanning (Some True) None)
             (\<lambda>u. case turn_key of None \<Rightarrow> give () | Some k \<Rightarrow> mark (py_text env (field configurable ''thread_id'')) k))
        else give ())
       (\<lambda>u. give (command True entered_message tool_call_id))"

subsection \<open>The tools of a run in plan mode\<close>

definition plan_mode_excluded_tools :: "string list" where
  "plan_mode_excluded_tools =
     [''task'', ''background_execute'', ''background_task'', ''http_request'', ''manage_baby_sit'', ''manage_thread'',
      ''open_pull_request'', ''recreate_sandbox'', ''request_pr_review'', ''save_user_skill'', ''delete_user_skill'',
      ''slack_move_thread'', ''slack_start_new_thread'', ''linear_create_issue'', ''linear_update_issue'',
      ''linear_delete_issue'', ''save_environment'', ''capture_environment_snapshot'', ''delete_environment'']"

text \<open>The state of the run after \<open>before_agent\<close>, and the mode a request is filtered by.\<close>

definition before_agent :: "bool \<Rightarrow> bool option" where
  "before_agent initial = Some initial"

definition request_in_plan_mode :: "bool \<Rightarrow> bool option \<Rightarrow> bool" where
  "request_in_plan_mode initial state = (case state of Some b \<Rightarrow> b | None \<Rightarrow> initial)"

definition tools_for_request :: "string list \<Rightarrow> bool \<Rightarrow> bool option \<Rightarrow> string option list \<Rightarrow> string option list" where
  "tools_for_request excluded initial state tools =
     (if excluded = [] \<or> \<not> request_in_plan_mode initial state then tools
      else filter (\<lambda>t. case t of None \<Rightarrow> True | Some n \<Rightarrow> n \<notin> set excluded) tools)"

end
