(* ===== verification/Plan_Safety.thy ===== *)
theory Plan_Safety
  imports Plan_Review "HOL-Library.Multiset"
begin

section \<open>Every plan is implemented at most once\<close>

text \<open>
  The first part bounds the runs that implement a plan, in the logic of costs: a record that is ready for
  review is worth one run, publishing and editing make a record ready, and nothing else does; every run started
  is either answered by the approval that started it or one whose dispatch raised. The second part
  says what such a run is told, what \<open>save_plan\<close> publishes, that shared documents are no plans, and which
  tools a run in plan mode is offered.
\<close>

subsection \<open>What changes the record\<close>

definition is_ready :: "fields option \<Rightarrow> bool" where
  "is_ready c = (field (or_nothing c) ''status'' = status_json PlanReady)"

definition plan_credit :: "fields option \<Rightarrow> nat" where
  "plan_credit c = of_bool (is_ready c)"

text \<open>
  \<open>plans env plan t\<close>: \<open>plan\<close> reads the record of the thread, a failed operation of the store changes nothing,
  and no other service touches it.
\<close>

definition plans :: "'w plan_env \<Rightarrow> ('w \<Rightarrow> fields option) \<Rightarrow> string \<Rightarrow> bool" where
  "plans env plan t \<longleftrightarrow>
     (\<forall>w r w'. pe_get env t w = (r, w') \<longrightarrow> plan w' = plan w \<and> (\<forall>v. r = Inr v \<longrightarrow> as_dict v = plan w)) \<and>
     (\<forall>f w r w'. pe_put env t f w = (r, w') \<longrightarrow> plan w' = (if r = Inr () then Some f else plan w)) \<and>
     quiet plan (pe_comments env t) \<and> (\<forall>i f. quiet plan (pe_comment_put env t i f)) \<and>
     (\<forall>i. quiet plan (pe_comment_delete env t i)) \<and> quiet plan (pe_thread env t) \<and>
     (\<forall>f. quiet plan (pe_update env t f)) \<and> (\<forall>p. quiet plan (pe_read_file env t p)) \<and>
     (\<forall>p s. quiet plan (pe_write_file env t p s)) \<and> (\<forall>s c k. quiet plan (pe_dispatch env t s c k)) \<and>
     (\<forall>c ts s. quiet plan (pe_slack env c ts s))"

lemma plansD:
  assumes "plans env plan t"
  shows "pe_get env t w = (r, w') \<Longrightarrow> plan w' = plan w" "pe_get env t w = (Inr v, w') \<Longrightarrow> as_dict v = plan w"
    "pe_put env t f w = (p, w') \<Longrightarrow> plan w' = (if p = Inr () then Some f else plan w)"
    and plans_quiet: "quiet plan (pe_comments env t)" "quiet plan (pe_comment_put env t i f)"
    "quiet plan (pe_comment_delete env t i)" "quiet plan (pe_thread env t)" "quiet plan (pe_update env t f)"
    "quiet plan (pe_read_file env t i)" "quiet plan (pe_write_file env t i i')" "quiet plan (pe_dispatch env t i f i')"
    "quiet plan (pe_slack env i i' i'')"
  using assms by (simp_all add: plans_def)

lemma quiet_set: "(\<And>w r w'. m w = (r, w') \<Longrightarrow> state w' = state w) \<Longrightarrow> quiet state m"
  by (metis quiet_def prod.collapse)

lemma quiet_content:
  assumes q: "plans env plan t"
  shows "quiet plan (get_plan_content env t b)" "quiet plan (stored_plan_file_path env t)"
proof -
  have "quiet plan (pe_get env t)" by (rule quiet_set) (rule plansD(1) [OF q])
  then show g: "quiet plan (get_plan_content env t b)" for b
    unfolding get_plan_content_def by (auto intro!: quiet_rules)
  show "quiet plan (stored_plan_file_path env t)"
    unfolding stored_plan_file_path_def by (auto intro!: quiet_rules g)
qed

lemma content_read:
  assumes q: "plans env plan t" and "get_plan_content env t b w = (Inr c, w')"
  shows "c = plan w \<or> \<not> b \<and> c = None"
proof -
  obtain x u where x: "pe_get env t w = (x, u)" by (cases "pe_get env t w") simp
  with assms plansD(2) [OF q] show ?thesis
    by (cases x) (auto simp: get_plan_content_def catch_all_def give_def fail_def split: if_splits)
qed

lemma quiet_comments:
  assumes q: "plans env plan t"
  shows "quiet plan (list_plan_comments env t b)" "quiet plan (delete_comments env t cs)"
    "quiet plan (clear_plan_comments env t)" "quiet plan (merge_thread_metadata env t f)"
    "quiet plan (thread_metadata env t)" "quiet plan (readable_metadata env t)" "quiet plan (reject_shared_content d)"
    "quiet plan (post_plan_approved env d n s)" "quiet plan (dispatch_followup env t d s b)" "quiet plan (run_metadata env t)"
proof -
  note quiet = quiet_rules plans_quiet [OF q]
  show l: "quiet plan (list_plan_comments env t b)" for b
    unfolding list_plan_comments_def by (auto intro!: quiet)
  show d: "quiet plan (delete_comments env t cs)" for cs
    by (induction cs) (auto intro!: quiet split: option.split)
  show "quiet plan (clear_plan_comments env t)" unfolding clear_plan_comments_def by (auto intro!: quiet l d)
  show "quiet plan (merge_thread_metadata env t f)" unfolding merge_thread_metadata_def by (auto intro!: quiet)
  show m: "quiet plan (thread_metadata env t)" unfolding thread_metadata_def by (auto intro!: quiet)
  show "quiet plan (readable_metadata env t)" unfolding readable_metadata_def by (auto intro!: quiet m)
  show "quiet plan (reject_shared_content d)" unfolding reject_shared_content_def by (auto intro!: quiet)
  show "quiet plan (post_plan_approved env d n s)"
    unfolding post_plan_approved_def by (auto intro!: quiet split: option.split)
  show "quiet plan (dispatch_followup env t d s b)" unfolding dispatch_followup_def by (auto intro!: quiet)
  show "quiet plan (run_metadata env t)" unfolding run_metadata_def by (auto intro!: quiet)
qed

lemma put_then_quiet:
  assumes q: "plans env plan t" and k: "quiet plan (k ())" "\<And>w r w'. k () w = (r, w') \<Longrightarrow> \<exists>x. r = Inr x"
    and r: "and_then (pe_put env t f) k w = (r, w')"
  shows "plan w' = plan w \<and> (\<exists>e. r = Inl e) \<or> plan w' = Some f \<and> (\<exists>x. r = Inr x)"
proof -
  obtain p u where p: "pe_put env t f w = (p, u)" by (cases "pe_put env t f w") simp
  note u = plansD(3) [OF q p]
  show ?thesis
  proof (cases p)
    case (Inl e)
    with r p u show ?thesis by auto
  next
    case (Inr x)
    with r p have k': "k () u = (r, w')" by simp
    from quietD [OF k(1) k'] k(2) [OF k'] u Inr show ?thesis by simp
  qed
qed

lemma swallow_gives: "swallow m w = (r, w') \<Longrightarrow> \<exists>x. r = Inr x"
  by (auto simp: swallow_def)

lemma set_plan_status_result:
  assumes q: "plans env plan t" and r: "set_plan_status env t st b a w = (r, w')"
  shows "plan w' = plan w \<and> (\<exists>e. r = Inl e) \<or>
    r = Inr () \<and> (\<exists>c s. (c = plan w \<or> c = None) \<and> plan w' = Some s \<and>
      s = status_record (or_nothing c) st @ approval_fields env [] st a (pe_now env (snd (get_plan_content env t False w))))"
proof -
  obtain c u where c: "get_plan_content env t False w = (c, u)" by (cases "get_plan_content env t False w") simp
  have u: "plan u = plan w" by (rule quietD [OF quiet_content(1) [OF q] c])
  show ?thesis
  proof (cases c)
    case (Inl e)
    with r c u show ?thesis by (auto simp: set_plan_status_def)
  next
    case (Inr e)
    let ?f = "status_record (or_nothing e) st @ approval_fields env [] st a (pe_now env u)"
    have "and_then (pe_put env t ?f) (\<lambda>x. merge_thread_metadata env t
        ([(''plan_status'', status_json st)] @ approval_fields env ''plan_'' st a (pe_now env u) @ mode_field b)) u = (r, w')"
      using r c Inr by (simp add: set_plan_status_def)
    from put_then_quiet [OF q _ _ this]
    have "plan w' = plan u \<and> (\<exists>e. r = Inl e) \<or> plan w' = Some ?f \<and> (\<exists>x. r = Inr x)"
      using quiet_comments(4) [OF q] by (auto simp: merge_thread_metadata_def swallow_def)
    moreover have "e = plan w \<or> e = None" using content_read [OF q c [unfolded Inr]] by blast
    ultimately show ?thesis using u c by auto
  qed
qed

lemma status_of_record: "field (status_record d st @ f) ''status'' = status_json st"
  by (simp add: status_record_def field_def dict_get_def)

lemma status_of_plan_record: "field (plan_record h m st p) ''status'' = status_json st"
  by (simp add: plan_record_def field_def dict_get_def)

lemma settled:
  assumes "plans env plan t"
  shows "quiet plan (settle_publication env t st c b)" "settle_publication env t st c b w = (r, w') \<Longrightarrow> r = Inr ()"
  unfolding settle_publication_def
  by (auto intro!: quiet_rules quiet_comments [OF assms])
    (auto simp: merge_thread_metadata_def swallow_def give_def and_then_def split: if_splits)

lemma save_plan_content_result:
  assumes q: "plans env plan t" and r: "save_plan_content env t h m st cl p b w = (r, w')"
  shows "plan w' = plan w \<and> (\<exists>e. r = Inl e) \<or> r = Inr () \<and> (\<exists>p'. plan w' = Some (plan_record h m st p'))"
proof -
  let ?path = "if p = None then stored_plan_file_path env t else give p"
  obtain x u where x: "?path w = (x, u)" by (cases "?path w") simp
  have "quiet plan ?path" by (auto intro!: quiet_rules quiet_content [OF q])
  then have u: "plan u = plan w" by (rule quietD) (rule x)
  show ?thesis
  proof (cases x)
    case (Inl e)
    with r x u show ?thesis by (auto simp: save_plan_content_def)
  next
    case (Inr p')
    have "and_then (pe_put env t (plan_record h m st p')) (\<lambda>u. settle_publication env t st cl b) u = (r, w')"
      using r x Inr by (simp add: save_plan_content_def)
    from put_then_quiet [OF q settled(1) [OF q] _ this] settled(2) [OF q]
    have "plan w' = plan u \<and> (\<exists>e. r = Inl e) \<or> plan w' = Some (plan_record h m st p') \<and> (\<exists>x. r = Inr x)" by blast
    then show ?thesis using u by auto
  qed
qed

subsection \<open>Costs of the operations\<close>

abbreviation implements ::
  "('w \<Rightarrow> fields option) \<Rightarrow> ('a \<Rightarrow> bool) \<Rightarrow> fields option \<Rightarrow> nat \<Rightarrow> ('w, 'a) action \<Rightarrow> bool" where
  "implements plan D start n m \<equiv> costs plan plan_credit (\<lambda>c. True) D start n m"

lemma costs_quiet:
  assumes "quiet state m" "ok start" "credit start \<le> n" "\<And>x. \<not> D x"
  shows "costs state credit ok D start n m"
  unfolding costs_def using assms by (auto dest: quietD split: sum.split)

lemma costs_read_then:
  assumes q: "plans env plan t" and "plan_credit start \<le> n"
    and "\<And>c. c = start \<or> \<not> b \<and> c = None \<Longrightarrow> implements plan D start n (k c)"
  shows "implements plan D start n (and_then (get_plan_content env t b) k)"
proof (rule costs_bind)
  fix w r w' assume w: "plan w = start" "get_plan_content env t b w = (r, w')"
  then have "plan w' = start" using quietD [OF quiet_content(1) [OF q]] by blast
  with w assms(2,3) content_read [OF q, of b w]
  show "case r of Inl e \<Rightarrow> True \<and> plan_credit (plan w') \<le> n | Inr x \<Rightarrow> implements plan D (plan w') n (k x)"
    by (auto split: sum.split)
qed

lemma costs_status_then:
  assumes q: "plans env plan t" and "plan_credit start \<le> n"
    and "\<And>s. field s ''status'' = status_json st \<Longrightarrow> implements plan D (Some s) n (k ())"
  shows "implements plan D start n (and_then (set_plan_status env t st b a) k)"
proof (rule costs_bind)
  fix w r w' assume "plan w = start" "set_plan_status env t st b a w = (r, w')"
  with set_plan_status_result [OF q, of st b a w r w'] assms(2,3) status_of_record
  show "case r of Inl e \<Rightarrow> True \<and> plan_credit (plan w') \<le> n | Inr x \<Rightarrow> implements plan D (plan w') n (k x)"
    by (auto split: sum.split)
qed

lemma credit_of_status: "field s ''status'' = status_json st \<Longrightarrow> plan_credit (Some s) = of_bool (st = PlanReady)"
  by (cases st) (simp_all add: plan_credit_def is_ready_def or_nothing_def)

lemma costs_approve:
  assumes q: "plans env plan t" and n: "plan_credit start \<le> n"
  shows "implements plan (\<lambda>r. field r ''run_id'' \<noteq> JNull) start n (approve_plan_for_thread env t approver)"
proof -
  note quiet = quiet_comments [OF q]
  have none: "implements plan (\<lambda>r. field r ''run_id'' \<noteq> JNull) start n
      (give [(''status'', v), (''already_approved'', JBool True)])" for v
    by (rule costs_give) (use n in \<open>simp_all add: field_def dict_get_def\<close>)
  have ready: "implements plan (\<lambda>r. field r ''run_id'' \<noteq> JNull) start n (approve_ready env t a m content comments)"
    if r: "is_ready start" for a m content comments
    unfolding approve_ready_def
  proof (rule costs_status_then [OF q n])
    fix s assume s: "field s ''status'' = status_json PlanApproved"
    have one: "plan_credit (Some s) + 1 \<le> n" using n r credit_of_status [OF s] by (simp add: plan_credit_def [of start])
    have handler: "implements plan (\<lambda>r. False) (Some s) n
        (and_then (set_plan_status env t PlanReady (Some True) None) (\<lambda>u. fail e))" for e :: exn
    proof (rule costs_status_then [OF q])
      show "plan_credit (Some s) \<le> n" using one by simp
      fix s' assume s': "field s' ''status'' = status_json PlanReady"
      show "implements plan (\<lambda>r. False) (Some s') n (fail e)"
        using one credit_of_status [OF s'] by (simp add: costs_def fail_def)
    qed
    show "implements plan (\<lambda>r. field r ''run_id'' \<noteq> JNull) (Some s) n
        (and_then
          (catch_all (dispatch_followup env t m msg False)
            (\<lambda>e. and_then (set_plan_status env t PlanReady (Some True) None) (\<lambda>u. fail e)))
          (\<lambda>run_id. and_then (post_plan_approved env m k actor) (\<lambda>u. give [(''status'', st), (''run_id'', JStr run_id)])))"
      for msg k actor st
    proof (rule costs_bind)
      fix w r w'
      assume w: "plan w = Some s" and d: "catch_all (dispatch_followup env t m msg False)
            (\<lambda>e. and_then (set_plan_status env t PlanReady (Some True) None) (\<lambda>u. fail e)) w = (r, w')"
      obtain x u where x: "dispatch_followup env t m msg False w = (x, u)"
        by (cases "dispatch_followup env t m msg False w") simp
      have u: "plan u = Some s" using quietD [OF quiet(9) x] w by simp
      show "case r of Inl e \<Rightarrow> True \<and> plan_credit (plan w') \<le> n
          | Inr run_id \<Rightarrow> implements plan (\<lambda>r. field r ''run_id'' \<noteq> JNull) (plan w') n
              (and_then (post_plan_approved env m k actor) (\<lambda>u. give [(''status'', st), (''run_id'', JStr run_id)]))"
      proof (cases x)
        case (Inl e)
        with d x have h: "and_then (set_plan_status env t PlanReady (Some True) None) (\<lambda>u. fail e) u = (r, w')"
          by (simp add: catch_all_def)
        then have "\<exists>e. r = Inl e" by (auto simp: and_then_def fail_def split: prod.splits sum.splits)
        with costsD [OF handler u h] show ?thesis by auto
      next
        case (Inr run_id)
        with d x u have "r = Inr run_id" "plan w' = Some s" by (auto simp: catch_all_def)
        moreover have "implements plan (\<lambda>r. field r ''run_id'' \<noteq> JNull) (Some s) n
            (and_then (post_plan_approved env m k actor) (\<lambda>u. give [(''status'', st), (''run_id'', JStr run_id)]))"
          by (rule costs_quiet_then, rule quiet(8), simp, use one in simp, rule costs_give) (use one in simp_all)
        ultimately show ?thesis by simp
      qed
    qed
  qed
  show ?thesis unfolding approve_plan_for_thread_def Let_def
  proof (rule costs_quiet_then, rule quiet(5), simp, rule n, rule costs_read_then [OF q n], rule costs_quiet_then,
      rule quiet(7), simp, rule n, rule costs_if, rule none, rule costs_quiet_then, rule quiet(1), simp, rule n, rule ready)
    fix m c
    assume "c = start \<or> \<not> True \<and> c = None"
      "\<not> (field m ''plan_mode'' \<noteq> JBool True \<or> \<not> ready_for_review m (or_nothing c))"
    then show "is_ready start" by (simp add: ready_for_review_def is_ready_def)
  qed
qed

text \<open>Operations that start no run that implements a plan.\<close>

abbreviation idle :: "('w \<Rightarrow> fields option) \<Rightarrow> fields option \<Rightarrow> nat \<Rightarrow> ('w, 'a) action \<Rightarrow> bool" where
  "idle plan start n m \<equiv> implements plan (\<lambda>x. False) start n m"

lemma idle_quiet: "quiet plan m \<Longrightarrow> plan_credit start \<le> n \<Longrightarrow> idle plan start n m"
  by (rule costs_quiet) simp_all

lemma credit_le: "plan_credit c \<le> 1"
  by (simp add: plan_credit_def)

lemma idle_set_status:
  assumes q: "plans env plan t" and n: "plan_credit start \<le> n" and st: "st \<noteq> PlanReady"
    and k: "\<And>s. plan_credit (Some s) = 0 \<Longrightarrow> idle plan (Some s) n (k ())"
  shows "idle plan start n (and_then (set_plan_status env t st b a) k)"
proof (rule costs_status_then [OF q n])
  fix s assume "field s ''status'' = status_json st"
  from credit_of_status [OF this] st show "idle plan (Some s) n (k ())" by (intro k) simp
qed

lemma idle_reject:
  assumes q: "plans env plan t" and n: "plan_credit start \<le> n"
  shows "idle plan start n (reject_plan env t b)"
proof -
  note quiet = quiet_comments [OF q]
  have told: "quiet plan (if \<not> b then give [(''status'', status_json PlanRevising)]
      else and_then (list_plan_comments env t True)
        (\<lambda>comments. and_then (dispatch_followup env t m (rejection_text (format_comments env comments)) True)
          (\<lambda>run_id. give [(''status'', status_json PlanRevising)])))" for m
    by (auto intro!: quiet_rules quiet)
  have revised: "idle plan start n (and_then (set_plan_status env t PlanRevising (Some True) None)
      (\<lambda>u. if \<not> b then give [(''status'', status_json PlanRevising)]
      else and_then (list_plan_comments env t True)
        (\<lambda>comments. and_then (dispatch_followup env t m (rejection_text (format_comments env comments)) True)
          (\<lambda>run_id. give [(''status'', status_json PlanRevising)]))))" for m
    by (rule idle_set_status [OF q n]) (rule plan_status.distinct, rule idle_quiet, rule told, simp_all)
  show ?thesis unfolding reject_plan_def Let_def
    by (rule costs_quiet_then, rule quiet(6), simp, rule n, rule costs_quiet_then, rule quiet(5), simp, rule n,
        rule costs_read_then [OF q n], rule costs_quiet_then, rule quiet(7), simp, rule n, rule costs_if,
        rule idle_quiet, rule quiet_rules, rule n, rule revised)
qed

lemma costs_catch_idle:
  assumes "idle plan start n m" "\<And>e. quiet plan (h e)"
  shows "idle plan start n (catch_all m h)"
  unfolding costs_def
proof (intro allI impI)
  fix w r w' assume a: "plan w = start \<and> catch_all m h w = (r, w')"
  obtain x u where x: "m w = (x, u)" by (cases "m w") simp
  have u: "plan_credit (plan u) \<le> n" using costsD [OF assms(1) conjunct1 [OF a] x] by simp
  show "True \<and> plan_credit (plan w') + (case r of Inl e \<Rightarrow> 0 | Inr x \<Rightarrow> of_bool False) \<le> n"
    using a x u quietD [OF assms(2)] by (cases x) (auto simp: catch_all_def split: sum.split)
qed

lemma idle_approve_tool:
  assumes q: "plans env plan (py_text env (field configurable ''thread_id''))" (is "plans env plan ?t")
    and n: "plan_credit start \<le> n"
  shows "idle plan start n (approve_plan_tool env state configurable i)"
proof -
  note quiet = quiet_comments [OF q]
  have no: "idle plan start n (give (refused msg))" for msg by (rule idle_quiet [OF _ n]) (rule quiet_rules)
  have set: "idle plan start n (and_then (set_plan_status env ?t PlanApproved b a) (\<lambda>u. give x))" for a b and x :: fields
    by (rule idle_set_status [OF q n]) (rule plan_status.distinct, rule idle_quiet, rule quiet_rules, simp_all)
  show ?thesis unfolding approve_plan_tool_def Let_def
    by (rule costs_if, rule no, rule costs_catch_idle, rule costs_quiet_then, rule quiet(10), simp, rule n,
        rule costs_if, rule no, rule costs_read_then [OF q n], rule costs_if, rule no, rule costs_quiet_then,
        rule quiet(1), simp, rule n, rule set, rule quiet_rules)
qed

lemma idle_publishes:
  assumes q: "plans env plan t" and k: "\<And>start. idle plan start 1 (k ())"
  shows "idle plan start 1 (and_then (save_plan_content env t h m st c p b) k)"
proof (rule costs_bind)
  fix w r w' assume "plan w = start" "save_plan_content env t h m st c p b w = (r, w')"
  with k credit_le save_plan_content_result [OF q, of h m st c p b w r w']
  show "case r of Inl e \<Rightarrow> True \<and> plan_credit (plan w') \<le> 1 | Inr x \<Rightarrow> idle plan (plan w') 1 (k x)"
    by (auto split: sum.split)
qed

lemma idle_save:
  assumes q: "plans env plan (py_text env (field configurable ''thread_id''))" (is "plans env plan ?t")
  shows "idle plan start 1 (save_plan env state configurable path)"
proof -
  note n = credit_le [of start]
  have no: "idle plan start 1 (give (refused msg))" for msg by (rule idle_quiet [OF _ n]) (rule quiet_rules)
  have saved: "idle plan start 1 (publish_file env ?t b p s)" for b p s
    unfolding publish_file_def
    by (rule costs_if, rule no, split option.split, intro conjI allI impI, rule idle_publishes [OF q], rule idle_quiet,
        rule quiet_rules, rule credit_le, rule no)
  have readable: "quiet plan (read_plan_file env ?t p)" for p
    unfolding read_plan_file_def Let_def by (auto intro!: quiet_rules plans_quiet [OF q] split: option.split)
  show ?thesis unfolding save_plan_def Let_def
    by (rule costs_if, rule no, rule costs_if, rule no, rule costs_if, rule no, rule costs_catch_idle,
        rule costs_quiet_then, rule readable, simp, rule n, rule saved, rule quiet_rules)
qed

lemma idle_edit:
  assumes q: "plans env plan t"
  shows "idle plan start 1 (update_plan env t h m u)"
proof -
  note n = credit_le [of start] and quiet = quiet_comments [OF q]
  have no: "idle plan start 1 (fail e)" for e by (rule idle_quiet [OF _ n]) (rule quiet_rules)
  have mirror: "quiet plan (write_plan_to_sandbox env t s p)" for s p
    unfolding quiet_def
  proof
    fix w
    have "snd (write_plan_to_sandbox env t s p w) =
        snd (pe_write_file env t (text_or (plan_file_path_for_thread (pe_today env w) t) p) s w)"
      by (simp add: write_plan_to_sandbox_def and_then_def give_def swallow_def)
    then show "plan (snd (write_plan_to_sandbox env t s p w)) = plan w"
      using plans_quiet(7) [OF q] by (simp add: quiet_def)
  qed
  have saved: "idle plan start 1 (and_then (save_plan_content env t h m PlanReady False p (Some True))
      (\<lambda>v. and_then (write_plan_to_sandbox env t s p') (\<lambda>x. give y)))" for h m p s p' and y :: fields
    by (rule idle_publishes [OF q]) (rule idle_quiet, rule quiet_rules, rule mirror, rule quiet_rules, rule credit_le)
  have edited: "idle plan start 1 (\<lambda>w. and_then (save_plan_content env t h m PlanReady False (Some (g w)) (Some True))
      (\<lambda>v. and_then (write_plan_to_sandbox env t s (g w)) (\<lambda>x. give y)) w)" for h m s g and y :: fields
    using saved [of h m _ s _ y] unfolding costs_def by blast
  show ?thesis unfolding update_plan_def Let_def
    by (rule costs_quiet_then, rule quiet(5), simp, rule n, rule costs_if, rule no, rule costs_read_then [OF q n],
        rule costs_quiet_then, rule quiet(7), simp, rule n, rule costs_if, rule no, rule costs_if, rule no, rule edited)
qed

subsection \<open>Sequences of operations\<close>

text \<open>Everything the dashboard, the channels and the agent do with the plan of one thread.\<close>

datatype plan_op =
    Publish "bool option" fields string
  | Edit "string option" "string option" session
  | View session
  | CommentOn string session
  | ListComments
  | RemoveComment string session
  | Approve fields
  | ApproveInRun "bool option" fields string
  | Reject bool
  | EnterPlanMode fields "string option" string

fun publishes :: "plan_op \<Rightarrow> bool" where
  "publishes (Publish state configurable path) = True"
| "publishes (Edit h m u) = True"
| "publishes op = False"

text \<open>The operation is about the thread: a tool reads the thread from the configuration of its run.\<close>

fun in_thread :: "'w plan_env \<Rightarrow> string \<Rightarrow> plan_op \<Rightarrow> bool" where
  "in_thread env t (Publish state configurable path) = (py_text env (field configurable ''thread_id'') = t)"
| "in_thread env t (ApproveInRun state configurable i) = (py_text env (field configurable ''thread_id'') = t)"
| "in_thread env t (EnterPlanMode configurable k i) = (py_text env (field configurable ''thread_id'') = t)"
| "in_thread env t op = True"

definition quietly :: "('w, 'a) action \<Rightarrow> ('w, bool) action" where
  "quietly m = and_then m (\<lambda>x. give False)"

text \<open>Whether an operation started a run that implements the plan.\<close>

fun run_plan_op ::
  "'w plan_env \<Rightarrow> (string \<Rightarrow> string \<Rightarrow> ('w, unit) action) \<Rightarrow> string \<Rightarrow> plan_op \<Rightarrow> ('w, bool) action" where
  "run_plan_op env mark t (Publish state configurable path) = quietly (save_plan env state configurable path)"
| "run_plan_op env mark t (Edit h m u) = quietly (update_plan env t h m u)"
| "run_plan_op env mark t (View u) = quietly (get_plan env t u)"
| "run_plan_op env mark t (CommentOn body u) = quietly (post_plan_comment env t body u)"
| "run_plan_op env mark t ListComments = quietly (get_plan_comments env t)"
| "run_plan_op env mark t (RemoveComment i u) = quietly (remove_plan_comment env t i u)"
| "run_plan_op env mark t (Approve approver) =
     and_then (approve_plan_for_thread env t approver) (\<lambda>r. give (field r ''run_id'' \<noteq> JNull))"
| "run_plan_op env mark t (ApproveInRun state configurable i) = quietly (approve_plan_tool env state configurable i)"
| "run_plan_op env mark t (Reject b) = quietly (reject_plan env t b)"
| "run_plan_op env mark t (EnterPlanMode configurable k i) = quietly (enter_plan_mode env mark configurable k i)"

text \<open>
  \<open>perform\<close> is the world after a sequence of operations; \<open>answered\<close> counts the approvals whose answer names
  a run.
\<close>

fun perform ::
  "'w plan_env \<Rightarrow> (string \<Rightarrow> string \<Rightarrow> ('w, unit) action) \<Rightarrow> string \<Rightarrow> plan_op list \<Rightarrow> 'w \<Rightarrow> 'w" where
  "perform env mark t [] w = w"
| "perform env mark t (op # ops) w = perform env mark t ops (snd (run_plan_op env mark t op w))"

fun answered ::
  "'w plan_env \<Rightarrow> (string \<Rightarrow> string \<Rightarrow> ('w, unit) action) \<Rightarrow> string \<Rightarrow> plan_op list \<Rightarrow> 'w \<Rightarrow> nat" where
  "answered env mark t [] w = 0"
| "answered env mark t (op # ops) w =
     (case run_plan_op env mark t op w of
        (Inr True, w') \<Rightarrow> Suc (answered env mark t ops w')
      | (r, w') \<Rightarrow> answered env mark t ops w')"

text \<open>
  The runs that exist. \<open>starts env runs t\<close>: \<open>runs\<close> reads two numbers of the world, the runs started so far
  that implement the plan of the thread, that is outside plan mode, and those among them whose dispatch
  raised. A dispatch that answers has started its run, one that raises may have, and no other service starts
  one.
\<close>

definition starts :: "'w plan_env \<Rightarrow> ('w \<Rightarrow> nat \<times> nat) \<Rightarrow> string \<Rightarrow> bool" where
  "starts env runs t \<longleftrightarrow>
     (\<forall>s c k w r w'. pe_dispatch env t s c k w = (r, w') \<longrightarrow>
        (if field c ''plan_mode'' = JBool True then runs w' = runs w
         else case r of
             Inr i \<Rightarrow> runs w' = (fst (runs w) + 1, snd (runs w))
           | Inl e \<Rightarrow> runs w' \<in> {runs w, (fst (runs w) + 1, snd (runs w) + 1)})) \<and>
     quiet runs (pe_get env t) \<and> (\<forall>f. quiet runs (pe_put env t f)) \<and>
     quiet runs (pe_comments env t) \<and> (\<forall>i f. quiet runs (pe_comment_put env t i f)) \<and>
     (\<forall>i. quiet runs (pe_comment_delete env t i)) \<and> quiet runs (pe_thread env t) \<and>
     (\<forall>f. quiet runs (pe_update env t f)) \<and> (\<forall>p. quiet runs (pe_read_file env t p)) \<and>
     (\<forall>p s. quiet runs (pe_write_file env t p s)) \<and> (\<forall>c ts s. quiet runs (pe_slack env c ts s))"

lemma quietly_idle: "idle plan start n m \<Longrightarrow> implements plan (\<lambda>b. b) start n (quietly m)"
  unfolding quietly_def by (rule costs_map) simp_all

lemma quietly_quiet: "quiet plan m \<Longrightarrow> plan_credit start \<le> n \<Longrightarrow> implements plan (\<lambda>b. b) start n (quietly m)"
  by (rule quietly_idle) (rule idle_quiet)

lemma quiet_views:
  assumes q: "plans env plan t"
  shows "quiet plan (get_plan env t u)" "quiet plan (post_plan_comment env t body u)"
    "quiet plan (get_plan_comments env t)" "quiet plan (remove_plan_comment env t i u)"
proof -
  note quiet = quiet_rules quiet_comments [OF q] quiet_content [OF q] plans_quiet [OF q]
  show "quiet plan (get_plan env t u)" unfolding get_plan_def Let_def by (auto intro!: quiet)
  have "quiet plan (add_plan_comment env t a l b)" for a l b
    unfolding quiet_def
  proof
    fix w
    have "snd (add_plan_comment env t a l b w) = snd (pe_comment_put env t (pe_uuid env w)
        [(''id'', JStr (pe_uuid env w)), (''author'', JStr a), (''author_login'', JStr l), (''body'', JStr b),
         (''created_at'', JStr (pe_now env w))] w)"
      by (auto simp: add_plan_comment_def Let_def and_then_def give_def split: prod.split sum.split)
    then show "plan (snd (add_plan_comment env t a l b w)) = plan w"
      using plans_quiet(2) [OF q] by (simp add: quiet_def)
  qed
  then show "quiet plan (post_plan_comment env t body u)"
    unfolding post_plan_comment_def by (auto intro!: quiet)
  show "quiet plan (get_plan_comments env t)" unfolding get_plan_comments_def by (auto intro!: quiet)
  show "quiet plan (remove_plan_comment env t i u)"
    unfolding remove_plan_comment_def by (auto intro!: quiet split: option.split)
qed

lemma swallow_idle:
  assumes "idle plan start n m"
  shows "idle plan start n (swallow m)"
  unfolding costs_def
proof (intro allI impI)
  fix w r w' assume a: "plan w = start \<and> swallow m w = (r, w')"
  then have "m w = (fst (m w), w')" by (auto simp: swallow_def)
  from costsD [OF assms conjunct1 [OF a] this]
  show "True \<and> plan_credit (plan w') + (case r of Inl e \<Rightarrow> 0 | Inr x \<Rightarrow> of_bool False) \<le> n"
    by (auto split: sum.splits)
qed

lemma idle_enter:
  assumes q: "plans env plan (py_text env (field configurable ''thread_id''))" (is "plans env plan ?t")
    and m: "\<And>t k. quiet plan (mark t k)" and n: "plan_credit start \<le> n"
  shows "idle plan start n (enter_plan_mode env mark configurable k i)"
proof -
  have marked: "quiet plan (case k of None \<Rightarrow> give () | Some k \<Rightarrow> mark ?t k)"
    by (auto intro!: quiet_rules m split: option.split)
  have entered: "idle plan start n (and_then (set_plan_status env ?t PlanPlanning (Some True) None)
      (\<lambda>u. case k of None \<Rightarrow> give () | Some k \<Rightarrow> mark ?t k))"
    by (rule idle_set_status [OF q n]) (simp, rule idle_quiet, rule marked, simp)
  show ?thesis unfolding enter_plan_mode_def
    by (rule costs_then, rule costs_if, rule swallow_idle, rule entered, rule idle_quiet, rule quiet_rules, rule n,
        rule idle_quiet, rule quiet_rules)
qed

lemma costs_plan_op:
  assumes q: "plans env plan t" and m: "\<And>t k. quiet plan (mark t k)" and t: "in_thread env t op"
  shows "implements plan (\<lambda>b. b) start (if publishes op then 1 else plan_credit start) (run_plan_op env mark t op)"
proof -
  note start = order_refl [of "plan_credit start"]
  show ?thesis
  proof (cases op)
    case (Publish state configurable path)
    with t q have "idle plan start 1 (save_plan env state configurable path)" by (intro idle_save) simp
    with Publish show ?thesis by (simp add: quietly_idle del: One_nat_def)
  next
    case (Edit h m u)
    with quietly_idle [OF idle_edit [OF q]] show ?thesis by (simp del: One_nat_def)
  next
    case (Approve approver)
    show ?thesis unfolding Approve by (simp, rule costs_map, rule costs_approve, rule q, rule start) simp
  next
    case (ApproveInRun state configurable i)
    with t q have "idle plan start (plan_credit start) (approve_plan_tool env state configurable i)"
      by (intro idle_approve_tool) simp_all
    with ApproveInRun show ?thesis by (simp add: quietly_idle)
  next
    case (EnterPlanMode configurable k i)
    with t q have "idle plan start (plan_credit start) (enter_plan_mode env mark configurable k i)"
      by (intro idle_enter m) simp_all
    with EnterPlanMode show ?thesis by (simp add: quietly_idle)
  qed (simp_all add: quietly_quiet quiet_views [OF q] quietly_idle idle_reject [OF q])
qed

lemma answered_cost:
  assumes q: "plans env plan t" and m: "\<And>t k. quiet plan (mark t k)"
  shows "list_all (in_thread env t) ops \<Longrightarrow>
     answered env mark t ops w \<le> plan_credit (plan w) + length (filter publishes ops)"
proof (induction ops arbitrary: w)
  case (Cons op ops)
  obtain r w' where r: "run_plan_op env mark t op w = (r, w')" by (cases "run_plan_op env mark t op w") simp
  from Cons.prems have op: "in_thread env t op" "list_all (in_thread env t) ops" by simp_all
  have paid: "plan_credit (plan w') + (case r of Inl e \<Rightarrow> 0 | Inr b \<Rightarrow> of_bool b)
      \<le> (if publishes op then 1 else plan_credit (plan w))"
    using costsD [OF costs_plan_op [OF q m op(1)] refl r] by simp
  with Cons.IH [OF op(2), of w'] show ?case
    by (cases r; cases "projr r") (auto simp: r split: if_splits)
qed simp

subsection \<open>Which operations start a run\<close>

lemma startsD:
  assumes "starts env runs t"
  shows "quiet runs (pe_get env t)" "quiet runs (pe_put env t f)" "quiet runs (pe_comments env t)"
    "quiet runs (pe_comment_put env t i f)" "quiet runs (pe_comment_delete env t i)" "quiet runs (pe_thread env t)"
    "quiet runs (pe_update env t f)" "quiet runs (pe_read_file env t i)" "quiet runs (pe_write_file env t i i')"
    "quiet runs (pe_slack env i i' i'')"
  using assms by (simp_all add: starts_def)

lemma followup_mode: "field (followup_config t m b) ''plan_mode'' = JBool b"
  by (auto simp: followup_config_def field_def dict_get_def opt_field_def split: option.split)

lemma quiet_if: "quiet state m \<Longrightarrow> quiet state m' \<Longrightarrow> quiet state (if b then m else m')"
  by simp

lemma quiet_at: "(\<And>a. quiet state (\<lambda>w. f a w)) \<Longrightarrow> quiet state (\<lambda>w. f (g w) w)"
  by (simp add: quiet_def)

lemma quiet_runs_parts:
  assumes q: "starts env runs t"
  shows "quiet runs (get_plan_content env t b)" "quiet runs (list_plan_comments env t b)"
    "quiet runs (set_plan_status env t st b' a)" "quiet runs (save_plan_content env t h m st cl p b')"
    "quiet runs (thread_metadata env t)" "quiet runs (readable_metadata env t)" "quiet runs (reject_shared_content d)"
    "quiet runs (run_metadata env t)" "quiet runs (read_plan_file env t i)" "quiet runs (post_plan_approved env d n s)"
    "quiet runs (write_plan_to_sandbox env t s i)" "quiet runs (add_plan_comment env t i i' s)"
    "quiet runs (dispatch_followup env t d s True)"
proof -
  note quiet = quiet_rules startsD [OF q]
  show g: "quiet runs (get_plan_content env t b)" for b
    unfolding get_plan_content_def by (auto intro!: quiet)
  show l: "quiet runs (list_plan_comments env t b)" for b
    unfolding list_plan_comments_def by (auto intro!: quiet)
  have u: "quiet runs (merge_thread_metadata env t f)" for f
    unfolding merge_thread_metadata_def by (auto intro!: quiet)
  have d: "quiet runs (delete_comments env t cs)" for cs
    by (induction cs) (auto intro!: quiet split: option.split)
  have c: "quiet runs (clear_plan_comments env t)" unfolding clear_plan_comments_def by (auto intro!: quiet l d)
  show "quiet runs (set_plan_status env t st b' a)" unfolding set_plan_status_def
    by (rule quiet_rules(3) [OF g], rule quiet_at [where g = "pe_now env"], rule quiet_rules(3), rule startsD [OF q], rule u)
  show "quiet runs (save_plan_content env t h m st cl p b')"
    unfolding save_plan_content_def settle_publication_def stored_plan_file_path_def by (auto intro!: quiet u g c)
  show tm: "quiet runs (thread_metadata env t)" unfolding thread_metadata_def by (auto intro!: quiet)
  show "quiet runs (readable_metadata env t)" unfolding readable_metadata_def by (auto intro!: quiet tm)
  show "quiet runs (reject_shared_content d)" unfolding reject_shared_content_def by (auto intro!: quiet)
  show "quiet runs (run_metadata env t)" unfolding run_metadata_def by (auto intro!: quiet)
  show "quiet runs (read_plan_file env t i)"
    unfolding read_plan_file_def Let_def by (auto intro!: quiet split: option.split)
  show "quiet runs (post_plan_approved env d n s)"
    unfolding post_plan_approved_def by (auto intro!: quiet split: option.split)
  show "quiet runs (write_plan_to_sandbox env t s i)" unfolding write_plan_to_sandbox_def [abs_def]
    by (rule quiet_at [where g = "pe_today env"]) (auto intro!: quiet)
  have "quiet runs (\<lambda>w. and_then (pe_comment_put env t (fst z) [(''id'', JStr (fst z)), (''author'', JStr i),
        (''author_login'', JStr i'), (''body'', JStr s), (''created_at'', JStr (snd z))]) (\<lambda>u. give c) w)" for z c
    by (auto intro!: quiet)
  then show "quiet runs (add_plan_comment env t i i' s)"
    unfolding add_plan_comment_def [abs_def] Let_def quiet_def by (metis fst_conv snd_conv)
  show "quiet runs (dispatch_followup env t d s True)"
    unfolding dispatch_followup_def using q followup_mode [of t d True]
    by (intro quiet_set) (simp add: starts_def)
qed

text \<open>
  \<open>books runs D m\<close>: the action starts one run if its result has \<open>D\<close>, and no other unless its dispatch was lost.
\<close>

definition books :: "('w \<Rightarrow> nat \<times> nat) \<Rightarrow> ('a \<Rightarrow> bool) \<Rightarrow> ('w, 'a) action \<Rightarrow> bool" where
  "books runs D m \<longleftrightarrow>
     (\<forall>w r w'. m w = (r, w') \<longrightarrow> snd (runs w) \<le> snd (runs w') \<and>
        fst (runs w') + snd (runs w) =
          fst (runs w) + snd (runs w') + (case r of Inl e \<Rightarrow> 0 | Inr x \<Rightarrow> of_bool (D x)))"

lemma booksD:
  assumes "books runs D m" "m w = (r, w')"
  shows "snd (runs w) \<le> snd (runs w')"
    "fst (runs w') + snd (runs w) =
       fst (runs w) + snd (runs w') + (case r of Inl e \<Rightarrow> 0 | Inr x \<Rightarrow> of_bool (D x))"
  using assms unfolding books_def by blast+

lemma books_quiet: "quiet runs m \<Longrightarrow> (\<And>x. \<not> D x) \<Longrightarrow> books runs D m"
  unfolding books_def by (auto dest: quietD split: sum.split)

lemma books_give: "\<not> D x \<Longrightarrow> books runs D (give x)"
  by (simp add: books_def give_def)

lemma books_if: "books runs D m \<Longrightarrow> books runs D m' \<Longrightarrow> books runs D (if b then m else m')"
  by simp

lemma books_map:
  assumes "books runs D m"
  shows "books runs (\<lambda>b. b) (and_then m (\<lambda>x. give (D x)))"
  unfolding books_def
proof (intro allI impI)
  fix w r w' assume a: "and_then m (\<lambda>x. give (D x)) w = (r, w')"
  obtain x u where x: "m w = (x, u)" by (cases "m w") simp
  from booksD [OF assms x] a x show "snd (runs w) \<le> snd (runs w') \<and> fst (runs w') + snd (runs w) =
      fst (runs w) + snd (runs w') + (case r of Inl e \<Rightarrow> 0 | Inr x \<Rightarrow> of_bool x)"
    by (cases x) (auto simp: give_def)
qed

lemma books_then:
  assumes "quiet runs m" "\<And>x. books runs D (k x)"
  shows "books runs D (and_then m k)"
  unfolding books_def
proof (intro allI impI)
  fix w r w' assume a: "and_then m k w = (r, w')"
  obtain x u where x: "m w = (x, u)" by (cases "m w") simp
  have u: "runs u = runs w" by (rule quietD [OF assms(1) x])
  show "snd (runs w) \<le> snd (runs w') \<and> fst (runs w') + snd (runs w) =
      fst (runs w) + snd (runs w') + (case r of Inl e \<Rightarrow> 0 | Inr x \<Rightarrow> of_bool (D x))"
  proof (cases x)
    case (Inl e)
    with a x u show ?thesis by auto
  next
    case (Inr y)
    with a x have "k y u = (r, w')" by simp
    from booksD [OF assms(2) this] u show ?thesis by simp
  qed
qed

lemma books_dispatch:
  assumes q: "starts env runs t" and h: "\<And>e. quiet runs (h e)" "\<And>e w. isl (fst (h e w))"
    and k: "\<And>x. quiet runs (k x)" "\<And>x w. \<exists>y. fst (k x w) = Inr y \<and> D y"
  shows "books runs D (and_then (catch_all (dispatch_followup env t m s False) h) k)"
  unfolding books_def
proof (intro allI impI)
  fix w r w' assume a: "and_then (catch_all (dispatch_followup env t m s False) h) k w = (r, w')"
  obtain x u where x: "dispatch_followup env t m s False w = (x, u)"
    by (cases "dispatch_followup env t m s False w") simp
  have s: "case x of Inr i \<Rightarrow> runs u = (fst (runs w) + 1, snd (runs w))
           | Inl e \<Rightarrow> runs u \<in> {runs w, (fst (runs w) + 1, snd (runs w) + 1)}"
    using q x followup_mode [of t m False] unfolding starts_def dispatch_followup_def
    by (auto split: if_splits)
  show "snd (runs w) \<le> snd (runs w') \<and> fst (runs w') + snd (runs w) =
      fst (runs w) + snd (runs w') + (case r of Inl e \<Rightarrow> 0 | Inr x \<Rightarrow> of_bool (D x))"
  proof (cases x)
    case (Inl e)
    obtain y v where y: "h e u = (y, v)" by (cases "h e u") simp
    with h(2) [of e u] obtain e' where "y = Inl e'" by (cases y) auto
    with a x y Inl have "r = Inl e'" "w' = v" by (auto simp: catch_all_def)
    with quietD [OF h(1) y] s Inl show ?thesis by auto
  next
    case (Inr i)
    with a x have "k i u = (r, w')" by (simp add: catch_all_def)
    with quietD [OF k(1) this] k(2) [of i u] s Inr show ?thesis by auto
  qed
qed

lemma books_approve:
  assumes q: "starts env runs t"
  shows "books runs (\<lambda>r. field r ''run_id'' \<noteq> JNull) (approve_plan_for_thread env t approver)"
proof -
  note parts = quiet_runs_parts [OF q]
  have ready: "books runs (\<lambda>r. field r ''run_id'' \<noteq> JNull) (approve_ready env t a m content comments)"
    for a m content comments
    unfolding approve_ready_def
  proof (rule books_then [OF parts(3)], rule books_dispatch [OF q])
    show "quiet runs (and_then (set_plan_status env t PlanReady (Some True) None) (\<lambda>u. fail e))" for e :: exn
      by (auto intro!: quiet_rules parts)
    show "isl (fst (and_then (set_plan_status env t PlanReady (Some True) None) (\<lambda>u. fail e) w))" for e :: exn and w
      by (auto simp: and_then_def fail_def split: prod.split sum.split)
    show "quiet runs (and_then (post_plan_approved env m k actor) (\<lambda>u. give [(''status'', st), (''run_id'', JStr i)]))"
      for k actor st i by (auto intro!: quiet_rules parts)
    show "\<exists>y. fst (and_then (post_plan_approved env m k actor) (\<lambda>u. give [(''status'', st), (''run_id'', JStr i)]) w) = Inr y \<and>
        field y ''run_id'' \<noteq> JNull" for k actor st i w
      by (auto simp: and_then_def give_def post_plan_approved_def swallow_def field_def dict_get_def
          split: prod.split sum.split option.split)
  qed
  show ?thesis unfolding approve_plan_for_thread_def Let_def
  proof (rule books_then [OF parts(5)], rule books_then [OF parts(1)], rule books_then [OF parts(7)])
    fix m c
    show "books runs (\<lambda>r. field r ''run_id'' \<noteq> JNull)
        (if field m ''plan_mode'' \<noteq> JBool True \<or> \<not> ready_for_review m (or_nothing c)
         then give [(''status'', JStr (py_text env (truthy_or (field (or_nothing c) ''status'')
                (truthy_or (field m ''plan_status'') (status_json PlanPlanning))))), (''already_approved'', JBool True)]
         else and_then (list_plan_comments env t True)
                (approve_ready env t (approver_from env approver) m (or_nothing c)))"
      by (rule books_if, rule books_give, simp add: field_def dict_get_def, rule books_then [OF parts(2) ready])
  qed
qed

lemma books_plan_op:
  assumes q: "starts env runs t" and m: "\<And>t k. quiet runs (mark t k)" and t: "in_thread env t op"
  shows "books runs (\<lambda>b. b) (run_plan_op env mark t op)"
proof -
  note quiet = quiet_rules quiet_runs_parts [OF q] startsD [OF q]
  have here: "starts env runs (py_text env (field configurable ''thread_id''))"
    if "in_thread env t op = (py_text env (field configurable ''thread_id'') = t)" for configurable
    using that t q by simp
  show ?thesis
  proof (cases op)
    case (Publish state configurable path)
    note parts = quiet_rules quiet_runs_parts [OF here [unfolded Publish, OF in_thread.simps(1)]]
    have "quiet runs (save_plan env state configurable path)"
      unfolding save_plan_def Let_def publish_file_def by (auto intro!: parts split: option.split)
    with Publish show ?thesis by (simp add: quietly_def books_then books_give)
  next
    case (Edit h m u)
    have saved: "quiet runs (and_then (save_plan_content env t h m PlanReady False p (Some True))
        (\<lambda>v. and_then (write_plan_to_sandbox env t s p') (\<lambda>x. give y)))" for h m p s p' and y :: fields
      by (auto intro!: quiet)
    have edited: "quiet runs (\<lambda>w. and_then (save_plan_content env t h m PlanReady False (Some (g w)) (Some True))
        (\<lambda>v. and_then (write_plan_to_sandbox env t s (g w)) (\<lambda>x. give y)) w)" for h m s g and y :: fields
      using saved [of h m _ s _ y] unfolding quiet_def by blast
    note parts = quiet_runs_parts [OF q]
    have "quiet runs (update_plan env t h m u)" unfolding update_plan_def Let_def
      by (rule quiet_rules(3) [OF parts(5)], rule quiet_if, rule quiet_rules, rule quiet_rules(3) [OF parts(1)],
          rule quiet_rules(3) [OF parts(7)], rule quiet_if, rule quiet_rules, rule quiet_if, rule quiet_rules, rule edited)
    with Edit show ?thesis by (simp add: quietly_def books_then books_give)
  next
    case (View u)
    have "quiet runs (get_plan env t u)" unfolding get_plan_def Let_def by (auto intro!: quiet)
    with View show ?thesis by (simp add: quietly_def books_then books_give)
  next
    case (CommentOn body u)
    have "quiet runs (post_plan_comment env t body u)" unfolding post_plan_comment_def by (auto intro!: quiet)
    with CommentOn show ?thesis by (simp add: quietly_def books_then books_give)
  next
    case ListComments
    have "quiet runs (get_plan_comments env t)" unfolding get_plan_comments_def by (auto intro!: quiet)
    with ListComments show ?thesis by (simp add: quietly_def books_then books_give)
  next
    case (RemoveComment i u)
    have "quiet runs (remove_plan_comment env t i u)"
      unfolding remove_plan_comment_def by (auto intro!: quiet split: option.split)
    with RemoveComment show ?thesis by (simp add: quietly_def books_then books_give)
  next
    case (Approve approver)
    show ?thesis unfolding Approve by (simp only: run_plan_op.simps) (rule books_map [OF books_approve [OF q]])
  next
    case (ApproveInRun state configurable i)
    note parts = quiet_rules quiet_runs_parts [OF here [unfolded ApproveInRun, OF in_thread.simps(2)]]
    have "quiet runs (approve_plan_tool env state configurable i)"
      unfolding approve_plan_tool_def Let_def by (auto intro!: parts)
    with ApproveInRun show ?thesis by (simp add: quietly_def books_then books_give)
  next
    case (Reject b)
    note parts = quiet_runs_parts [OF q]
    have "quiet runs (reject_plan env t b)" unfolding reject_plan_def Let_def
      by (rule quiet_rules(3) [OF parts(6)], rule quiet_rules(3) [OF parts(5)], rule quiet_rules(3) [OF parts(1)],
          rule quiet_rules(3) [OF parts(7)], rule quiet_if, rule quiet_rules, rule quiet_rules(3) [OF parts(3)],
          rule quiet_if, rule quiet_rules, rule quiet_rules(3) [OF parts(2)],
          rule quiet_rules(3) [OF parts(13)], rule quiet_rules)
    with Reject show ?thesis by (simp add: quietly_def books_then books_give)
  next
    case (EnterPlanMode configurable k i)
    note parts = quiet_rules quiet_runs_parts [OF here [unfolded EnterPlanMode, OF in_thread.simps(3)]]
    have "quiet runs (enter_plan_mode env mark configurable k i)"
      unfolding enter_plan_mode_def by (auto intro!: parts m split: option.split)
    with EnterPlanMode show ?thesis by (simp add: quietly_def books_then books_give)
  qed
qed

lemma runs_answered:
  assumes q: "starts env runs t" and m: "\<And>t k. quiet runs (mark t k)"
  shows "list_all (in_thread env t) ops \<Longrightarrow>
     snd (runs w) \<le> snd (runs (perform env mark t ops w)) \<and>
     fst (runs (perform env mark t ops w)) + snd (runs w) =
       fst (runs w) + snd (runs (perform env mark t ops w)) + answered env mark t ops w"
proof (induction ops arbitrary: w)
  case (Cons op ops)
  obtain r w' where r: "run_plan_op env mark t op w = (r, w')" by (cases "run_plan_op env mark t op w") simp
  from Cons.prems have op: "in_thread env t op" "list_all (in_thread env t) ops" by simp_all
  from booksD [OF books_plan_op [OF q m op(1)] r] Cons.IH [OF op(2), of w'] show ?case
    by (cases r; cases "projr r") (auto simp: r split: if_splits)
qed simp

text \<open>
  C38. Every plan is implemented at most once, lost dispatches aside: in any sequence of publishing, editing,
  viewing, commenting, approving, rejecting and re-entering plan mode, with any failure of the store and the
  services on the way, the runs started that implement the plan are at most one for each time a plan was
  published or edited, one more when the plan was ready at the start, and one for each of these runs whose
  dispatch raised although the run had started.
\<close>

theorem plan_implemented_at_most_once:
  assumes "plans env plan t" "starts env runs t"
    and "\<And>t k. quiet plan (mark t k)" "\<And>t k. quiet runs (mark t k)" "list_all (in_thread env t) ops"
  shows "let before = runs w; after' = runs (perform env mark t ops w)
    in snd before \<le> snd after' \<and>
      fst after' - fst before \<le> of_bool (is_ready (plan w)) + length (filter publishes ops) + (snd after' - snd before)"
proof -
  have "answered env mark t ops w \<le> of_bool (is_ready (plan w)) + length (filter publishes ops)"
    using answered_cost [where mark = mark, OF assms(1,3,5)] by (simp add: plan_credit_def)
  with runs_answered [where mark = mark and w = w, OF assms(2,4,5)] show ?thesis
    unfolding Let_def by arith
qed

text \<open>
  A store of one plan, with the metadata of its thread and the count of the runs started and of those lost.
  Its dispatch answers, or starts the run and raises.
\<close>

type_synonym one_plan = "fields option \<times> fields \<times> nat \<times> nat"

definition plan_env_with :: "bool \<Rightarrow> one_plan plan_env" where
  "plan_env_with answers =
     \<lparr>pe_now = \<lambda>w. ''now'', pe_today = \<lambda>w. ''day'', pe_uuid = \<lambda>w. ''id'',
      pe_get = \<lambda>t w. (Inr (case fst w of None \<Rightarrow> JNull | Some d \<Rightarrow> JDict d), w),
      pe_put = \<lambda>t f w. (Inr (), (Some f, snd w)),
      pe_comments = \<lambda>t. give [JDict [(''body'', JStr ''later''), (''created_at'', JStr ''2'')], JNull,
        JDict [(''body'', JStr ''first''), (''created_at'', JStr ''1'')]],
      pe_comment_put = \<lambda>t i f. give (), pe_comment_delete = \<lambda>t i. give (),
      pe_thread = \<lambda>t w. (Inr (JDict [(''metadata'', JDict (fst (snd w)))]), w),
      pe_update = \<lambda>t f w. (Inr (), (fst w, merge_fields (fst (snd w)) f, snd (snd w))),
      pe_read_file = \<lambda>t p. give (JDict [(''file_data'', JDict [(''content'',
        JStr ''<html><head><title>p</title></head><body>plan</body></html>'')])]),
      pe_write_file = \<lambda>t p s. give (),
      pe_dispatch = \<lambda>t s c k w. (case w of (p, m, n, l) \<Rightarrow>
        if field c ''plan_mode'' = JBool True then (Inr ''revision'', w)
        else if answers then (Inr ''run'', (p, m, n + 1, l))
        else (Inl (Raised ''TimeoutError'' []), (p, m, n + 1, l + 1))),
      pe_slack = \<lambda>c t s. give True, pe_str = \<lambda>v. []\<rparr>"

abbreviation one_plan_env :: "one_plan plan_env" where
  "one_plan_env \<equiv> plan_env_with True"

definition publish_plan :: plan_op where
  "publish_plan = Publish (Some True) [(''thread_id'', JStr ''t'')] ''/workspace/plans/p.html''"

lemma plan_env_with_plans: "plans (plan_env_with b) fst t"
  by (auto simp: plans_def plan_env_with_def quiet_def give_def split: option.split)

lemma plan_env_with_starts: "starts (plan_env_with b) (\<lambda>w. snd (snd w)) t"
  by (auto simp: starts_def plan_env_with_def quiet_def give_def)

theorem plan_implemented_at_most_once_witness:
  "snd (snd (perform one_plan_env (\<lambda>t k. give ()) ''t''
     [publish_plan, Approve [], Approve [], Reject True, publish_plan, Approve []] (None, [], 0, 0))) = (2, 0) \<and>
   fst (snd (snd (perform one_plan_env (\<lambda>t k. give ()) ''t''
     [Approve [], publish_plan, Reject False, Approve []] (None, [], 0, 0)))) \<le> 1"
proof
  show "snd (snd (perform one_plan_env (\<lambda>t k. give ()) ''t''
     [publish_plan, Approve [], Approve [], Reject True, publish_plan, Approve []] (None, [], 0, 0))) = (2, 0)"
    by code_simp
  have l: "snd (snd (snd (perform one_plan_env (\<lambda>t k. give ()) ''t''
     [Approve [], publish_plan, Reject False, Approve []] (None, [], 0, 0)))) = 0"
    by code_simp
  have "list_all (in_thread one_plan_env ''t'') [Approve [], publish_plan, Reject False, Approve []]"
    by (simp add: publish_plan_def py_text_def field_def dict_get_def)
  from plan_implemented_at_most_once
      [where mark = "\<lambda>t k. give ()" and w = "(None, [], 0, 0)",
        OF plan_env_with_plans plan_env_with_starts quiet_rules(1) quiet_rules(1) this] l
  show "fst (snd (snd (perform one_plan_env (\<lambda>t k. give ()) ''t''
     [Approve [], publish_plan, Reject False, Approve []] (None, [], 0, 0)))) \<le> 1"
    by (simp add: is_ready_def or_nothing_def publish_plan_def field_def dict_get_def Let_def)
qed

text \<open>
  A dispatch that started its run and then raised puts the plan back to ready: the next approval starts a
  second run of the same plan.
\<close>

lemma lost_dispatch_starts_two_runs:
  "fst (snd (snd (perform (plan_env_with False) (\<lambda>t k. give ()) ''t''
     [publish_plan, Approve [], Approve []] (None, [], 0, 0)))) = 2"
  by code_simp

subsection \<open>What is published, and what a run is told\<close>

lemma published_at_path:
  assumes q: "plans env plan t" and r: "save_plan_content env t h m st c (Some p) b w = (Inr u, w')"
  shows "plan w' = Some (plan_record h m st (Some p))"
proof -
  have "and_then (pe_put env t (plan_record h m st (Some p))) (\<lambda>u. settle_publication env t st c b) w = (Inr u, w')"
    using r by (simp add: save_plan_content_def give_def and_then_def)
  from put_then_quiet [OF q settled(1) [OF q] _ this] settled(2) [OF q] show ?thesis by blast
qed

lemma and_then_gave: "and_then m k w = (Inr y, w') \<Longrightarrow> \<exists>x w1. m w = (Inr x, w1) \<and> k x w1 = (Inr y, w')"
  by (auto simp: and_then_def split: prod.splits sum.splits)

text \<open>
  Tags by their text, apart from the checks of the code: \<open>opens_tag s name\<close>, somewhere in \<open>s\<close> the character
  \<open><\<close> stands before the letters of the name, in either case.
\<close>

definition either_case :: "char \<Rightarrow> char \<Rightarrow> bool" where
  "either_case x y \<longleftrightarrow> x = y \<or> (65 \<le> (of_char x :: nat) \<and> of_char x \<le> (90 :: nat) \<and> of_char y = of_char x + (32 :: nat))"

definition opens_tag :: "string \<Rightarrow> string \<Rightarrow> bool" where
  "opens_tag s name \<longleftrightarrow> (\<exists>a b c. s = a @ ''<'' @ b @ c \<and> list_all2 either_case b name)"

definition small_letters :: "string \<Rightarrow> bool" where
  "small_letters s = list_all (\<lambda>c. 97 \<le> ord_c c \<and> ord_c c \<le> 122) s"

lemma lower_letter:
  assumes "97 \<le> ord_c d" "ord_c d \<le> 122"
  shows "lower_c x = d \<longleftrightarrow> either_case x d"
proof (cases "is_upper_c x")
  case True
  then have x: "ord_c x \<le> 222" by (auto simp: is_upper_c_def Let_def)
  then have "ord_c (char_of (ord_c x + 32)) = ord_c x + 32" by (simp add: ord_c_def)
  then have "lower_c x = d \<longleftrightarrow> ord_c x + 32 = ord_c d" using True
    by (metis lower_c_def ord_c_inject)
  then show ?thesis using True assms
    by (auto simp: either_case_def is_upper_c_def Let_def ord_c_def)
next
  case False
  then show ?thesis by (auto simp: lower_c_def either_case_def is_upper_c_def Let_def ord_c_def)
qed

lemma lower_letters: "small_letters n \<Longrightarrow> py_lower b = n \<longleftrightarrow> list_all2 either_case b n"
proof (induction n arbitrary: b)
  case (Cons d n)
  then show ?case by (cases b) (auto simp: small_letters_def py_lower_def lower_letter)
qed (simp add: py_lower_def)

lemma lower_mark: "c \<in> {CHR ''<'', CHR ''.''} \<Longrightarrow> lower_c x = c \<longleftrightarrow> x = c"
  by (auto simp: lower_c_def is_upper_c_def Let_def ord_c_def dest!: arg_cong [of "char_of _" _ "of_char :: char \<Rightarrow> nat"])

lemma lower_splits:
  assumes "c \<in> {CHR ''<'', CHR ''.''}" "small_letters n"
  shows "(\<exists>u v. py_lower s = u @ (c # n) @ v \<and> P (length v)) \<longleftrightarrow>
    (\<exists>a b v. s = a @ [c] @ b @ v \<and> list_all2 either_case b n \<and> P (length v))"
proof
  assume "\<exists>u v. py_lower s = u @ (c # n) @ v \<and> P (length v)"
  then obtain u v where uv: "map lower_c s = u @ (c # n) @ v" "P (length v)" by (auto simp: py_lower_def)
  from uv(1) obtain a s1 where s1: "s = a @ s1" "map lower_c s1 = (c # n) @ v" by (auto simp: map_eq_append_conv)
  then obtain x b v1 where x: "s1 = x # b @ v1" "lower_c x = c" "map lower_c b = n" "map lower_c v1 = v"
    by (auto simp: map_eq_append_conv)
  with assms s1 uv(2) show "\<exists>a b v. s = a @ [c] @ b @ v \<and> list_all2 either_case b n \<and> P (length v)"
    using lower_letters [OF assms(2), of b] lower_mark [OF assms(1), of x]
    by (intro exI [of _ a] exI [of _ b] exI [of _ v1]) (auto simp: py_lower_def)
next
  assume "\<exists>a b v. s = a @ [c] @ b @ v \<and> list_all2 either_case b n \<and> P (length v)"
  then obtain a b v where s: "s = a @ [c] @ b @ v" "list_all2 either_case b n" "P (length v)" by blast
  with lower_letters [OF assms(2), of b] lower_mark [OF assms(1), of c]
  show "\<exists>u v. py_lower s = u @ (c # n) @ v \<and> P (length v)"
    by (intro exI [of _ "py_lower a"] exI [of _ "py_lower v"]) (auto simp: py_lower_def)
qed

lemma contains_tag: "small_letters n \<Longrightarrow> contains (CHR ''<'' # n) (py_lower s) \<longleftrightarrow> opens_tag s n"
  using lower_splits [of "CHR ''<''" n s "\<lambda>k. True"] by (simp add: contains_iff opens_tag_def)

lemma html_suffix:
  "ends_with ''.html'' (py_lower s) \<longleftrightarrow> (\<exists>a b. s = a @ ''.'' @ b \<and> list_all2 either_case b ''html'')"
proof -
  have "small_letters ''html''" by code_simp
  from lower_splits [OF _ this, of "CHR ''.''" s "\<lambda>k. k = 0"] show ?thesis by (simp add: ends_with_iff)
qed

lemma validated:
  "validate_html s = None \<longleftrightarrow>
     list_all (opens_tag s) [''html'', ''head'', ''body'', ''title''] \<and>
     list_all (\<lambda>n. \<not> opens_tag s n) [''script'', ''iframe'', ''object'', ''embed'', ''form'']"
proof -
  have l: "small_letters ''html''" "small_letters ''head''" "small_letters ''body''" "small_letters ''title''"
    "small_letters ''script''" "small_letters ''iframe''" "small_letters ''object''" "small_letters ''embed''"
    "small_letters ''form''" by code_simp+
  show ?thesis using l [THEN contains_tag, of s] by (simp add: validate_html_def Let_def) blast
qed

lemma plan_path:
  assumes "is_html_path p"
  shows "\<exists>name. p = ''/workspace/plans/'' @ name \<and> CHR ''/'' \<notin> set name \<and>
    (\<exists>a b. name = a @ ''.'' @ b \<and> list_all2 either_case b ''html'')"
proof -
  from assms obtain name where n: "p = (plan_file_directory @ ''/'') @ name"
    by (auto simp: is_html_path_def Let_def starts_with_iff)
  with assms have "CHR ''/'' \<notin> set name" "ends_with ''.html'' (py_lower name)"
    by (simp_all add: is_html_path_def Let_def)
  with n html_suffix [of name] show ?thesis by (simp add: plan_file_directory_def)
qed

lemma file_read:
  assumes "read_plan_file env t p w = (Inr s, w')"
  shows "\<exists>result. pe_read_file env t p w = (Inr result, w') \<and> jget (jget result ''file_data'') ''content'' = JStr s"
  using assms and_then_gave [of "pe_read_file env t p" _ w s w']
  by (fastforce simp: read_plan_file_def Let_def fail_def give_def elim: as_str.elims split: if_splits option.splits)

text \<open>
  C37. What \<open>save_plan\<close> publishes was checked: the text of the file at the path, without the white space around
  it, a file with the suffix \<open>.html\<close> directly under the directory of the plans, whose text has the tags of a
  complete document and no tag \<open>script\<close>, \<open>iframe\<close>, \<open>object\<close>, \<open>embed\<close> or \<open>form\<close>, in either case. Attributes
  are not looked at: an inline handler passes. The plan is ready for review exactly when the run is in plan
  mode, and shared otherwise.
\<close>

theorem published_plan_is_checked:
  assumes q: "plans env plan (py_text env (field configurable ''thread_id''))"
    and r: "save_plan env state configurable path w = (Inr reply, w')" "field reply ''success'' = JBool True"
  shows "\<exists>name result w1 content html.
    strip path = ''/workspace/plans/'' @ name \<and> CHR ''/'' \<notin> set name \<and>
    (\<exists>a b. name = a @ ''.'' @ b \<and> list_all2 either_case b ''html'') \<and>
    pe_read_file env (py_text env (field configurable ''thread_id'')) (strip path) w = (Inr result, w1) \<and>
    jget (jget result ''file_data'') ''content'' = JStr content \<and> html = strip content \<and> html \<noteq> [] \<and>
    list_all (opens_tag html) [''html'', ''head'', ''body'', ''title''] \<and>
    list_all (\<lambda>n. \<not> opens_tag html n) [''script'', ''iframe'', ''object'', ''embed'', ''form''] \<and>
    plan w' = Some
      [(''status'', JStr (if state = Some True \<or> field configurable ''plan_mode'' = JBool True then ''ready'' else ''shared'')),
       (''html'', JStr html), (''plan_file_path'', JStr (strip path))]"
proof -
  let ?t = "py_text env (field configurable ''thread_id'')"
  let ?st = "if run_in_plan_mode state configurable then PlanReady else PlanShared"
  let ?mode = "if run_in_plan_mode state configurable then Some True else None"
  have no [simp]: "field (refused msg) ''success'' = JBool False" for msg
    by (simp add: refused_def field_def dict_get_def)
  have p: "is_html_path (strip path)" "strip path \<noteq> []"
    using r by (auto simp: save_plan_def Let_def give_def split: if_splits)
  let ?file = "\<lambda>s. publish_file env ?t (run_in_plan_mode state configurable) (strip path) (strip s)"
  have "and_then (read_plan_file env ?t (strip path)) ?file w = (Inr reply, w')"
    using r by (auto simp: save_plan_def Let_def give_def catch_all_def split: if_splits sum.splits prod.splits)
  from and_then_gave [OF this] obtain s w1 where s: "read_plan_file env ?t (strip path) w = (Inr s, w1)"
    "?file s w1 = (Inr reply, w')" by blast
  with r(2) have v: "strip s \<noteq> []" "validate_html (strip s) = None"
    "and_then (save_plan_content env ?t (Some (strip s)) None ?st True (Some (strip path)) ?mode)
       (\<lambda>u. give [(''success'', JBool True), (''path'', JStr (strip path))]) w1 = (Inr reply, w')"
    by (auto simp: publish_file_def give_def split: if_splits option.splits)
  from and_then_gave [OF v(3)] obtain u where
    "save_plan_content env ?t (Some (strip s)) None ?st True (Some (strip path)) ?mode w1 = (Inr u, w')"
    by (auto simp: give_def)
  from published_at_path [OF q this] p(2) have "plan w' = Some
      [(''status'', JStr (if state = Some True \<or> field configurable ''plan_mode'' = JBool True then ''ready'' else ''shared'')),
       (''html'', JStr (strip s)), (''plan_file_path'', JStr (strip path))]"
    by (auto simp: plan_record_def opt_field_def path_field_def run_in_plan_mode_def split: list.split)
  with file_read [OF s(1)] plan_path [OF p(1)] v(1) v(2) [unfolded validated] show ?thesis by blast
qed

theorem published_plan_is_checked_witness:
  "\<exists>html. opens_tag html ''title'' \<and> \<not> opens_tag html ''script'' \<and>
     fst (snd (save_plan one_plan_env (Some True) [(''thread_id'', JStr ''t'')] ''/workspace/plans/p.html'' (None, [], 0, 0))) =
       Some [(''status'', JStr ''ready''), (''html'', JStr html), (''plan_file_path'', JStr ''/workspace/plans/p.html'')]"
proof -
  let ?r = "save_plan one_plan_env (Some True) [(''thread_id'', JStr ''t'')] ''/workspace/plans/p.html'' (None, [], 0, 0)"
  have r: "(case ?r of (Inr reply, w') \<Rightarrow> field reply ''success'' = JBool True | _ \<Rightarrow> False)" by code_simp
  then obtain reply w' where w: "?r = (Inr reply, w')" "field reply ''success'' = JBool True"
    by (auto split: prod.splits sum.splits)
  have p: "strip ''/workspace/plans/p.html'' = ''/workspace/plans/p.html''" by code_simp
  from published_plan_is_checked [OF plan_env_with_plans w] w(1) p show ?thesis by auto
qed

text \<open>The check reads tags only: a document with an inline handler is published.\<close>

lemma inline_handler_is_published:
  "validate_html ''<html><head><title>p</title></head><body onload=run()>plan</body></html>'' = None"
  by code_simp

lemma approve_ready_ok:
  assumes q: "plans env plan t" and r: "approve_ready env t approver m content comments w = (Inr reply, w')"
  shows "field (or_nothing (plan w')) ''status'' = status_json PlanApproved \<and>
    (\<exists>source w1 w2 run_id.
       pe_dispatch env t
         (approved_text (plan_text env content ''html'') (plan_text env content ''markdown'') (format_comments env comments))
         (followup_config t m False) source w1 = (Inr run_id, w2) \<and> field reply ''run_id'' = JStr run_id)"
proof -
  define msg where "msg = approved_text (plan_text env content ''html'') (plan_text env content ''markdown'')
      (format_comments env comments)"
  note quiet = quiet_comments [OF q]
  from and_then_gave [OF r [unfolded approve_ready_def, folded msg_def]] obtain u w1 where
    s: "set_plan_status env t PlanApproved (Some False) (Some approver) w = (Inr u, w1)" and
    k: "and_then
         (catch_all (dispatch_followup env t m msg False)
            (\<lambda>e. and_then (set_plan_status env t PlanReady (Some True) None) (\<lambda>u. fail e)))
         (\<lambda>run_id. and_then (post_plan_approved env m (length comments) (py_text env (field approver ''name'')))
            (\<lambda>u. give [(''status'', status_json PlanApproved), (''run_id'', JStr run_id)])) w1 = (Inr reply, w')"
    by blast
  from set_plan_status_result [OF q s] have st: "field (or_nothing (plan w1)) ''status'' = status_json PlanApproved"
    by (auto simp: or_nothing_def status_of_record)
  from and_then_gave [OF k] obtain run_id w2 where
    d: "catch_all (dispatch_followup env t m msg False)
            (\<lambda>e. and_then (set_plan_status env t PlanReady (Some True) None) (\<lambda>u. fail e)) w1 = (Inr run_id, w2)" and
    k: "and_then (post_plan_approved env m (length comments) (py_text env (field approver ''name'')))
            (\<lambda>u. give [(''status'', status_json PlanApproved), (''run_id'', JStr run_id)]) w2 = (Inr reply, w')" by blast
  have d': "dispatch_followup env t m msg False w1 = (Inr run_id, w2)"
    using d by (auto simp: catch_all_def and_then_def fail_def split: prod.splits sum.splits)
  from and_then_gave [OF k] obtain v w3 where
    v: "post_plan_approved env m (length comments) (py_text env (field approver ''name'')) w2 = (Inr v, w3)"
    "reply = [(''status'', status_json PlanApproved), (''run_id'', JStr run_id)]" "w' = w3"
    by (auto simp: give_def)
  have "plan w' = plan w1" using quietD [OF quiet(9) d'] quietD [OF quiet(8) v(1)] v(3) by simp
  with st d' v(2) show ?thesis
    unfolding msg_def dispatch_followup_def by (auto simp: field_def dict_get_def)
qed

lemma join_carries: "x \<in> set xs \<Longrightarrow> \<exists>a b. join sep xs = a @ x @ b"
proof (induction xs)
  case (Cons y ys)
  show ?case
  proof (cases "x = y")
    case True
    then have "join sep (y # ys) = [] @ x @ (if ys = [] then [] else sep @ join sep ys)"
      by (cases ys) simp_all
    then show ?thesis by blast
  next
    case False
    with Cons obtain a b where ab: "join sep ys = a @ x @ b" "ys \<noteq> []" by fastforce
    then have "join sep (y # ys) = (y @ sep @ a) @ x @ b" by (simp add: join_Cons)
    then show ?thesis by blast
  qed
qed simp

text \<open>The text of a comment, and that one text is a part of another.\<close>

definition remark :: "'w plan_env \<Rightarrow> fields \<Rightarrow> string" where
  "remark env c = strip (py_text env (dict_get c ''body'' (JStr [])))"

definition part_of :: "string \<Rightarrow> string \<Rightarrow> bool" where
  "part_of p s \<longleftrightarrow> (\<exists>a b. s = a @ p @ b)"

lemma part_of_append: "part_of p s \<Longrightarrow> part_of p (a @ s @ b)"
  unfolding part_of_def by (metis append.assoc)

lemma comment_line_of:
  "c \<in> set cs \<Longrightarrow> remark env c \<noteq> [] \<Longrightarrow> \<exists>a. a @ remark env c \<in> set (comment_lines env n cs)"
proof (induction cs arbitrary: n)
  case (Cons d cs)
  show ?case
  proof (cases "c = d")
    case True
    with Cons.prems(2) have "(show_nat n @ ''. '' @ strip (py_text env (truthy_or (field c ''author'') (JStr ''reviewer''))) @ '': '')
        @ remark env c \<in> set (comment_lines env n (d # cs))"
      by (simp add: remark_def Let_def)
    then show ?thesis by blast
  next
    case False
    with Cons.prems have "c \<in> set cs" by simp
    from Cons.IH [OF this Cons.prems(2), of n] Cons.IH [OF this Cons.prems(2), of "n + 1"] show ?thesis
      by (auto simp: Let_def)
  qed
qed simp

lemma comments_carried:
  assumes "c \<in> set cs" "remark env c \<noteq> []"
  shows "part_of (remark env c) (format_comments env cs)"
proof -
  obtain a where "a @ remark env c \<in> set (comment_lines env 1 cs)" using comment_line_of [OF assms] by blast
  from join_carries [OF this, of "[newline]"] obtain u v where
    "format_comments env cs = (u @ a) @ remark env c @ v" by (auto simp: format_comments_def)
  then show ?thesis unfolding part_of_def by blast
qed

lemma approved_text_carries:
  "html \<noteq> [] \<Longrightarrow> part_of html (approved_text html markdown feedback)"
  "html = [] \<Longrightarrow> markdown \<noteq> [] \<Longrightarrow> part_of markdown (approved_text html markdown feedback)"
  "p \<noteq> [] \<Longrightarrow> part_of p feedback \<Longrightarrow> part_of p (approved_text html markdown feedback)"
proof -
  have g: "part_of s (guidance kind s)" for kind s
  proof -
    have "\<exists>a. guidance kind s = a @ s @ []"
      unfolding guidance_def by (simp only: append_assoc [symmetric] append_Nil2) blast
    then show ?thesis unfolding part_of_def by blast
  qed
  have f: "part_of s msg \<Longrightarrow> part_of s (with_feedback feedback msg)" for s msg
    using part_of_append [of s msg "[]"] by (simp add: with_feedback_def)
  show "part_of html (approved_text html markdown feedback)" if "html \<noteq> []"
    using that f [OF g] by (simp add: approved_text_def)
  show "part_of markdown (approved_text html markdown feedback)" if "html = []" "markdown \<noteq> []"
    using that f [OF g] by (simp add: approved_text_def)
  show "part_of p (approved_text html markdown feedback)" if p: "p \<noteq> []" "part_of p feedback"
  proof -
    from p have "feedback \<noteq> []" by (auto simp: part_of_def)
    then have "\<exists>a. approved_text html markdown feedback = a @ feedback @ []"
      unfolding approved_text_def with_feedback_def by (simp only: if_False append_assoc [symmetric]) simp
    then show ?thesis using part_of_append [OF p(2)] by metis
  qed
qed

lemma comments_read:
  assumes "list_plan_comments env t True w = (Inr cs, w')"
  shows "\<exists>items. pe_comments env t w = (Inr items, w') \<and> mset cs = mset [d. JDict d \<leftarrow> items, d \<noteq> []] \<and>
    sorted (map (stamp_of env) cs)"
proof -
  obtain x u where x: "pe_comments env t w = (x, u)" by (cases "pe_comments env t w") simp
  with assms obtain items where i: "x = Inr items" "u = w'"
    "cs = sort_key (stamp_of env) (filter (\<lambda>c. c \<noteq> []) (List.map_filter as_dict items))"
    by (cases x) (auto simp: list_plan_comments_def catch_all_def give_def fail_def)
  have "filter (\<lambda>c. c \<noteq> []) (List.map_filter as_dict items) = [d. JDict d \<leftarrow> items, d \<noteq> []]"
  proof (induction items)
    case (Cons x items)
    then show ?case by (cases x) (simp_all add: List.map_filter_def)
  qed (simp add: List.map_filter_def)
  with i x show ?thesis by simp
qed

text \<open>
  C12. A run that implements a plan is told the plan that was under review. An approval that starts a run
  reads the thread, the record and the comments, one after the other; it found the thread and the record
  ready, and hands the run the text of exactly that record, its HTML or else its Markdown, with exactly the
  stored comments in the order of their time: the plan and every comment that is not blank are parts of the
  message. The record is approved afterwards.
\<close>

theorem approved_run_gets_the_reviewed_plan:
  assumes q: "plans env plan t"
    and r: "approve_plan_for_thread env t approver w = (Inr reply, w')" "field reply ''run_id'' \<noteq> JNull"
  shows "is_ready (plan w) \<and> field (or_nothing (plan w')) ''status'' = status_json PlanApproved \<and>
    (\<exists>thread w1 v w2 items w3 m cs html markdown message source w4 w5 run_id.
       pe_thread env t w = (Inr thread, w1) \<and> pe_get env t w1 = (Inr v, w2) \<and> as_dict v = plan w \<and>
       pe_comments env t w2 = (Inr items, w3) \<and>
       m = or_nothing (as_dict (jget thread ''metadata'')) \<and>
       field m ''plan_mode'' = JBool True \<and> field m ''plan_status'' = status_json PlanReady \<and>
       mset cs = mset [d. JDict d \<leftarrow> items, d \<noteq> []] \<and> sorted (map (stamp_of env) cs) \<and>
       html = plan_text env (or_nothing (plan w)) ''html'' \<and>
       markdown = plan_text env (or_nothing (plan w)) ''markdown'' \<and>
       message = approved_text html markdown (format_comments env cs) \<and>
       (html \<noteq> [] \<longrightarrow> part_of html message) \<and> (html = [] \<longrightarrow> markdown \<noteq> [] \<longrightarrow> part_of markdown message) \<and>
       (\<forall>d. JDict d \<in> set items \<longrightarrow> remark env d \<noteq> [] \<longrightarrow> part_of (remark env d) message) \<and>
       pe_dispatch env t message (followup_config t m False) source w4 = (Inr run_id, w5) \<and>
       field reply ''run_id'' = JStr run_id)"
proof -
  note quiet = quiet_comments [OF q]
  from and_then_gave [OF r(1) [unfolded approve_plan_for_thread_def]] obtain m w1 where
    m: "thread_metadata env t w = (Inr m, w1)" and
    "and_then (get_plan_content env t True)
         (\<lambda>c. let content = or_nothing c
           in and_then (reject_shared_content content)
             (\<lambda>u. if field m ''plan_mode'' \<noteq> JBool True \<or> \<not> ready_for_review m content
                then give [(''status'', JStr (py_text env (truthy_or (field content ''status'')
                    (truthy_or (field m ''plan_status'') (status_json PlanPlanning))))), (''already_approved'', JBool True)]
                else and_then (list_plan_comments env t True)
                  (approve_ready env t (approver_from env approver) m content))) w1 = (Inr reply, w')" by blast
  from and_then_gave [OF this(2)] obtain c w2 where
    c: "get_plan_content env t True w1 = (Inr c, w2)" and
    k: "and_then (reject_shared_content (or_nothing c))
             (\<lambda>u. if field m ''plan_mode'' \<noteq> JBool True \<or> \<not> ready_for_review m (or_nothing c)
                then give [(''status'', JStr (py_text env (truthy_or (field (or_nothing c) ''status'')
                    (truthy_or (field m ''plan_status'') (status_json PlanPlanning))))), (''already_approved'', JBool True)]
                else and_then (list_plan_comments env t True)
                  (approve_ready env t (approver_from env approver) m (or_nothing c))) w2 = (Inr reply, w')"
    unfolding Let_def by blast
  from m obtain thread where th: "pe_thread env t w = (Inr thread, w1)" "m = or_nothing (as_dict (jget thread ''metadata''))"
    by (cases "pe_thread env t w"; cases "fst (pe_thread env t w)")
      (auto simp: thread_metadata_def catch_all_def give_def fail_def)
  from c obtain v where v: "pe_get env t w1 = (Inr v, w2)" "c = as_dict v"
    by (cases "pe_get env t w1"; cases "fst (pe_get env t w1)")
      (auto simp: get_plan_content_def catch_all_def give_def fail_def)
  have p1: "plan w1 = plan w" using quietD [OF quiet(5) m] .
  have c': "c = plan w" using content_read [OF q c] p1 by simp
  from and_then_gave [OF k] obtain u w3 where
    rej: "reject_shared_content (or_nothing c) w2 = (Inr u, w3)" and
    k: "(if field m ''plan_mode'' \<noteq> JBool True \<or> \<not> ready_for_review m (or_nothing c)
                then give [(''status'', JStr (py_text env (truthy_or (field (or_nothing c) ''status'')
                    (truthy_or (field m ''plan_status'') (status_json PlanPlanning))))), (''already_approved'', JBool True)]
                else and_then (list_plan_comments env t True)
                  (approve_ready env t (approver_from env approver) m (or_nothing c))) w3 = (Inr reply, w')" by blast
  have w3: "w3 = w2" using rej by (auto simp: reject_shared_content_def give_def fail_def split: if_splits)
  from k have ready: "field m ''plan_mode'' = JBool True" "ready_for_review m (or_nothing c)"
    using r(2) by (auto simp: give_def field_def dict_get_def split: if_splits)
  with k w3 have "and_then (list_plan_comments env t True)
      (approve_ready env t (approver_from env approver) m (or_nothing c)) w2 = (Inr reply, w')" by simp
  from and_then_gave [OF this] obtain cs w4 where cs: "list_plan_comments env t True w2 = (Inr cs, w4)"
    "approve_ready env t (approver_from env approver) m (or_nothing c) cs w4 = (Inr reply, w')" by blast
  from comments_read [OF cs(1)] obtain items where items: "pe_comments env t w2 = (Inr items, w4)"
    "mset cs = mset [d. JDict d \<leftarrow> items, d \<noteq> []]" "sorted (map (stamp_of env) cs)" by blast
  let ?html = "plan_text env (or_nothing (plan w)) ''html''" and ?markdown = "plan_text env (or_nothing (plan w)) ''markdown''"
  let ?message = "approved_text ?html ?markdown (format_comments env cs)"
  from approve_ready_ok [OF q cs(2)] c' obtain source wa wb run_id where
    d: "field (or_nothing (plan w')) ''status'' = status_json PlanApproved"
    "pe_dispatch env t ?message (followup_config t m False) source wa = (Inr run_id, wb)"
    "field reply ''run_id'' = JStr run_id" by blast
  have told: "part_of (remark env e) ?message" if "JDict e \<in> set items" "remark env e \<noteq> []" for e
  proof (rule approved_text_carries(3) [OF that(2) comments_carried [OF _ that(2)]])
    have "e \<noteq> []" using that(2) by (auto simp: remark_def dict_get_def py_text_def strip_def lstrip_def rstrip_def)
    with that(1) have "e \<in># mset [d. JDict d \<leftarrow> items, d \<noteq> []]" by force
    then show "e \<in> set cs" unfolding items(2) [symmetric] by simp
  qed
  from ready c' have "is_ready (plan w)" "field m ''plan_status'' = status_json PlanReady"
    by (simp_all add: ready_for_review_def is_ready_def)
  moreover have "as_dict v = plan w" using v(2) c' by simp
  ultimately show ?thesis using d th v(1) items ready(1) told
      approved_text_carries(1,2) [of ?html ?markdown "format_comments env cs"] by blast
qed

definition ready_world :: one_plan where
  "ready_world =
     (Some [(''status'', JStr ''ready''), (''html'', JStr '' plan '')],
      [(''plan_mode'', JBool True), (''plan_status'', JStr ''ready'')], 0, 0)"

theorem approved_run_gets_the_reviewed_plan_witness:
  "field (or_nothing (fst (snd (approve_plan_for_thread one_plan_env ''t'' [] ready_world)))) ''status'' =
     status_json PlanApproved \<and>
   (\<exists>message c k w4 w5. pe_dispatch one_plan_env ''t'' message c k w4 = (Inr ''run'', w5) \<and>
      part_of ''plan'' message \<and> part_of ''first'' message \<and> part_of ''later'' message)"
proof -
  let ?r = "approve_plan_for_thread one_plan_env ''t'' [] ready_world"
  have "(case ?r of (Inr reply, w') \<Rightarrow> field reply ''run_id'' = JStr ''run'' | _ \<Rightarrow> False)" by code_simp
  then obtain reply w' where w: "?r = (Inr reply, w')" "field reply ''run_id'' = JStr ''run''"
    by (auto split: prod.splits sum.splits)
  then have "field reply ''run_id'' \<noteq> JNull" by simp
  from approved_run_gets_the_reviewed_plan [OF plan_env_with_plans w(1) this] obtain w2 items w3 message c k w4 w5 html run_id
    where o: "field (or_nothing (fst w')) ''status'' = status_json PlanApproved"
      "pe_comments one_plan_env ''t'' w2 = (Inr items, w3)"
      "html = plan_text one_plan_env (or_nothing (fst ready_world)) ''html''"
      "html \<noteq> [] \<longrightarrow> part_of html message"
      "\<forall>d. JDict d \<in> set items \<longrightarrow> remark one_plan_env d \<noteq> [] \<longrightarrow> part_of (remark one_plan_env d) message"
      "pe_dispatch one_plan_env ''t'' message c k w4 = (Inr run_id, w5)" "field reply ''run_id'' = JStr run_id"
    by blast
  let ?first = "[(''body'', JStr ''first''), (''created_at'', JStr ''1'')]"
  let ?later = "[(''body'', JStr ''later''), (''created_at'', JStr ''2'')]"
  have "JDict ?first \<in> set items" "JDict ?later \<in> set items" using o(2) by (auto simp: plan_env_with_def give_def)
  moreover have "remark one_plan_env ?first = ''first''" "remark one_plan_env ?later = ''later''" by code_simp+
  ultimately have "part_of ''first'' message" "part_of ''later'' message"
    using o(5) [rule_format, of ?first] o(5) [rule_format, of ?later] by simp_all
  moreover have "plan_text one_plan_env (or_nothing (fst ready_world)) ''html'' = ''plan''" by code_simp
  ultimately have told: "part_of ''plan'' message \<and> part_of ''first'' message \<and> part_of ''later'' message"
    using o(3,4) by simp
  have "run_id = ''run''" using w(2) o(7) by simp
  with o(6) told have "\<exists>message c k w4 w5. pe_dispatch one_plan_env ''t'' message c k w4 = (Inr ''run'', w5) \<and>
      part_of ''plan'' message \<and> part_of ''first'' message \<and> part_of ''later'' message" by blast
  with o(1) w(1) show ?thesis by (simp only: snd_conv)
qed

subsection \<open>Further facts\<close>

text \<open>A plan whose record cannot be read when its status changes is lost: the new record has the status only.\<close>

lemma unreadable_plan_is_wiped:
  assumes "pe_get env t w = (Inl e, w1)"
  shows "set_plan_status env t st plan_mode None w =
    and_then (pe_put env t [(''status'', status_json st)])
      (\<lambda>u. merge_thread_metadata env t ([(''plan_status'', status_json st)] @ mode_field plan_mode)) w1"
  using assms
  by (simp add: set_plan_status_def get_plan_content_def and_then_def catch_all_def give_def or_nothing_def
      status_record_def enters_after_share_def kept_fields_def path_field_def approval_fields_def field_def dict_get_def
      nonempty_str_def)

text \<open>A plan that was never published is reported as already approved.\<close>

lemma unpublished_plan_reported_approved:
  assumes "thread_metadata env t w = (Inr m, w1)" "pe_get env t w1 = (Inr JNull, w2)"
  shows "\<exists>st. approve_plan_for_thread env t approver w = (Inr [(''status'', JStr st), (''already_approved'', JBool True)], w2)"
  using assms
  by (simp add: approve_plan_for_thread_def get_plan_content_def and_then_def catch_all_def give_def or_nothing_def
      reject_shared_content_def ready_for_review_def field_def dict_get_def)

text \<open>
  The approver of an earlier plan is shown as the approver of a new one: only the record of the plan forgets
  an approval, the metadata of the thread keeps it.
\<close>

lemma earlier_approver_is_shown:
  assumes "readable_metadata env t w = (Inr m, w1)" "pe_get env t w1 = (Inr (JDict d), w2)"
    and "field d ''status'' = status_json PlanReady" "field d ''approved_by'' = JNull"
    and "field m ''plan_approved_by'' = JDict (a # b)"
  shows "\<exists>r. get_plan env t u w = (Inr r, w2) \<and> field r ''status'' = status_json PlanReady \<and>
    field r ''approvedBy'' = JDict (approver_from env (a # b))"
  using assms
  by (simp add: get_plan_def get_plan_content_def and_then_def catch_all_def give_def or_nothing_def Let_def
      truthy_or_def field_def dict_get_def)

text \<open>A run in plan mode is offered no excluded tool, and keeps every other tool it had.\<close>

lemma plan_mode_hides_tools:
  assumes "state = Some True"
  shows "Some n \<in> set (tools_for_request plan_mode_excluded_tools initial state tools) \<longleftrightarrow>
    Some n \<in> set tools \<and> n \<notin> set plan_mode_excluded_tools"
  using assms by (auto simp: tools_for_request_def request_in_plan_mode_def plan_mode_excluded_tools_def)

end
