(* ===== verification/Input_Messages.thy ===== *)
theory Input_Messages
  imports Publish_Review
begin

section \<open>The messages a model is given\<close>

text \<open>
  Models \<open>agent/input_messages.py\<close>: every message for a model is an XML envelope that names its sender, and
  the people, channels and systems it mentions are introduced once, recognized by a hash. \<open>html.escape\<close> and
  the text operations are written out. The parser of \<open>xml.etree\<close> is a parameter, by what the code reads of a
  parsed text: the tag of the root, its attribute \<open>hash\<close>, the text of the tree without that attribute, and
  the sender and the content of each message in it. SHA-256 and \<open>str\<close> on values that are no strings are
  parameters too.
\<close>

subsection \<open>Escaping\<close>

definition xml_char :: "char \<Rightarrow> string" where
  "xml_char c =
     (if c = CHR ''&'' then ''&amp;'' else if c = CHR ''<'' then ''&lt;'' else if c = CHR ''>'' then ''&gt;'' else [c])"

definition xml_text :: "string \<Rightarrow> string" where
  "xml_text s = concat (map xml_char s)"

definition xml_quote_char :: "char \<Rightarrow> string" where
  "xml_quote_char c =
     (if c = CHR 0x22 then ''&quot;'' else if c = CHR 0x27 then ''&#x27;'' else xml_char c)"

definition xml_attr :: "string \<Rightarrow> string" where
  "xml_attr s = concat (map xml_quote_char s)"

definition quoted_attr :: "string \<Rightarrow> string" where
  "quoted_attr s = [CHR 0x22] @ s @ [CHR 0x22]"

subsection \<open>Fallible steps\<close>

definition ok_then :: "'a result \<Rightarrow> ('a \<Rightarrow> 'b result) \<Rightarrow> 'b result" where
  "ok_then r k = (case r of Inl e \<Rightarrow> Inl e | Inr x \<Rightarrow> k x)"

fun each :: "('a \<Rightarrow> 'b result) \<Rightarrow> 'a list \<Rightarrow> 'b list result" where
  "each f [] = Inr []"
| "each f (x # xs) = ok_then (f x) (\<lambda>y. ok_then (each f xs) (\<lambda>ys. Inr (y # ys)))"

definition value_error :: "string \<Rightarrow> exn" where
  "value_error s = Raised ''ValueError'' s"

subsection \<open>Identities\<close>

datatype entity_kind = PersonEntity | ChannelEntity | SystemEntity

fun entity_kind_name :: "entity_kind \<Rightarrow> string" where
  "entity_kind_name PersonEntity = ''person''"
| "entity_kind_name ChannelEntity = ''channel''"
| "entity_kind_name SystemEntity = ''system''"

fun entity_fields :: "entity_kind \<Rightarrow> string list" where
  "entity_fields PersonEntity =
     [''display_name'', ''handle'', ''platform'', ''github_login'', ''email'', ''timezone'', ''open_swe_account'']"
| "entity_fields ChannelEntity = [''platform'', ''name'', ''thread_id'', ''topic'', ''purpose'']"
| "entity_fields SystemEntity = [''display_name'', ''platform'', ''sender_type'']"

definition untrusted_entity_fields :: "string list" where
  "untrusted_entity_fields = [''topic'', ''purpose'']"

record xml_env =
  xe_root :: "string \<Rightarrow> (string \<times> string option \<times> string) option"
  xe_messages :: "string \<Rightarrow> (string option \<times> string option) list option"
  xe_sha :: "string \<Rightarrow> string"
  xe_str :: "json \<Rightarrow> string"

definition shown :: "xml_env \<Rightarrow> json \<Rightarrow> string" where
  "shown env v = (case as_str v of Some s \<Rightarrow> s | None \<Rightarrow> xe_str env v)"

definition validate_entity_id :: "json \<Rightarrow> string result" where
  "validate_entity_id v =
     (case as_str v of
        None \<Rightarrow> Inl (value_error ''entity id must be a non-empty namespaced identifier'')
      | Some s \<Rightarrow>
          (if strip s = [] \<or> CHR '':'' \<notin> set s
           then Inl (value_error ''entity id must be a non-empty namespaced identifier'')
           else if list_ex (\<lambda>c. is_space_c c \<or> c \<in> {CHR ''<'', CHR ''>'', CHR 0x22, CHR 0x27}) s
           then Inl (value_error ''entity id contains invalid characters'')
           else Inr s))"

fun replace_first :: "char \<Rightarrow> string \<Rightarrow> string \<Rightarrow> string" where
  "replace_first d r [] = []"
| "replace_first d r (c # cs) = (if c = d then r @ cs else c # replace_first d r cs)"

definition tagged :: "string \<Rightarrow> string \<Rightarrow> string" where
  "tagged name body = ''<'' @ name @ ''>'' @ body @ ''</'' @ name @ ''>''"

definition entity_child :: "xml_env \<Rightarrow> fields \<Rightarrow> string \<Rightarrow> string option" where
  "entity_child env identity k =
     (let v = field identity k
      in if v = JNull \<or> v = JStr [] then None
         else Some (''<'' @ k @ (if k \<in> set untrusted_entity_fields then '' trust='' @ quoted_attr ''untrusted'' else []) @
           ''>'' @ xml_text (shown env v) @ ''</'' @ k @ ''>''))"

definition canonical_entity :: "xml_env \<Rightarrow> fields \<Rightarrow> entity_kind \<Rightarrow> string \<Rightarrow> string" where
  "canonical_entity env identity kind eid =
     (let body = join [newline] (List.map_filter (entity_child env identity) (entity_fields kind))
      in ''<dynamic-context kind='' @ quoted_attr (entity_kind_name kind) @ '' id='' @ quoted_attr (xml_attr eid) @ ''>'' @
         (if body = [] then [] else [newline] @ body @ [newline]) @ ''</dynamic-context>'')"

definition entity_message :: "xml_env \<Rightarrow> fields \<Rightarrow> entity_kind \<Rightarrow> string result" where
  "entity_message env identity kind =
     ok_then (validate_entity_id (field identity ''id''))
       (\<lambda>eid. let canonical = canonical_entity env identity kind eid
         in Inr (replace_first (CHR ''>'') ('' hash='' @ quoted_attr (xe_sha env canonical) @ ''>'') canonical))"

definition user_message :: "json \<Rightarrow> fields" where
  "user_message content = [(''role'', JStr ''user''), (''content'', content)]"

subsection \<open>Envelopes\<close>

definition isalnum :: "string \<Rightarrow> bool" where
  "isalnum s = (s \<noteq> [] \<and> list_all (\<lambda>c. is_word_c c \<and> c \<noteq> CHR ''_'') s)"

definition data_name_ok :: "string \<Rightarrow> bool" where
  "data_name_ok name = isalnum (filter (\<lambda>c. c \<noteq> CHR ''_'' \<and> c \<noteq> CHR ''-'') name)"

fun data_element :: "xml_env \<Rightarrow> string \<Rightarrow> json \<Rightarrow> string result"
  and data_fields :: "xml_env \<Rightarrow> (string \<times> json) list \<Rightarrow> string list result"
  and data_items :: "xml_env \<Rightarrow> json list \<Rightarrow> string list result" where
  "data_element env name v =
     (if \<not> data_name_ok name then Inl (value_error (''invalid structured data field: '' @ name))
      else (case v of
          JDict d \<Rightarrow> ok_then (data_fields env d) (\<lambda>xs. Inr (tagged name ([newline] @ join [newline] xs @ [newline])))
        | JList vs \<Rightarrow> ok_then (data_items env vs) (\<lambda>xs. Inr (tagged name ([newline] @ join [newline] xs @ [newline])))
        | _ \<Rightarrow> Inr (tagged name (xml_text (shown env v)))))"
| "data_fields env [] = Inr []"
| "data_fields env ((k, v) # d) = ok_then (data_element env k v) (\<lambda>x. ok_then (data_fields env d) (\<lambda>xs. Inr (x # xs)))"
| "data_items env [] = Inr []"
| "data_items env (v # vs) =
     ok_then (data_element env ''item'' v) (\<lambda>x. ok_then (data_items env vs) (\<lambda>xs. Inr (x # xs)))"

datatype message_kind = HumanMessage | SystemMessage

fun message_kind_name :: "message_kind \<Rightarrow> string" where
  "message_kind_name HumanMessage = ''human''"
| "message_kind_name SystemMessage = ''system''"

record input_context =
  ic_sender :: json
  ic_surface :: string
  ic_kind :: message_kind
  ic_channel :: json
  ic_data :: fields

definition envelope_close :: string where
  "envelope_close = ''</input-message>''"

definition attribute :: "string \<Rightarrow> string \<Rightarrow> string" where
  "attribute k v = k @ ''='' @ quoted_attr v"

definition channel_attribute :: "json \<Rightarrow> string list result" where
  "channel_attribute v =
     (if truthy v then ok_then (validate_entity_id v) (\<lambda>c. Inr [attribute ''channel'' (xml_attr c)]) else Inr [])"

definition serialize_message :: "xml_env \<Rightarrow> string \<Rightarrow> input_context \<Rightarrow> string result" where
  "serialize_message env s ctx =
     ok_then (validate_entity_id (ic_sender ctx))
       (\<lambda>sender. ok_then (channel_attribute (ic_channel ctx))
         (\<lambda>channel. ok_then (data_fields env (ic_data ctx))
           (\<lambda>children. Inr
             (''<input-message '' @
              join '' '' ([attribute ''sender'' (xml_attr sender)] @ channel @
                [attribute ''surface'' (ic_surface ctx), attribute ''kind'' (message_kind_name (ic_kind ctx))]) @
              ''>'' @ [newline] @ join [newline] (children @ [tagged ''content'' (xml_text s)]) @ [newline] @ envelope_close))))"

text \<open>\<open>str.rfind\<close>: the place of the last occurrence.\<close>

fun rfind :: "string \<Rightarrow> string \<Rightarrow> nat option" where
  "rfind p [] = (if p = [] then Some 0 else None)"
| "rfind p (c # cs) =
     (case rfind p cs of Some n \<Rightarrow> Some (Suc n) | None \<Rightarrow> (if starts_with p (c # cs) then Some 0 else None))"

definition splice_envelope_data :: "string \<Rightarrow> string \<Rightarrow> string option" where
  "splice_envelope_data s element =
     (if \<not> contains ''<input-message '' s then None
      else map_option (\<lambda>n. take n s @ element @ [newline] @ drop n s) (rfind envelope_close s))"

definition text_block :: "json \<Rightarrow> string option" where
  "text_block block = (if jget block ''type'' = JStr ''text'' then as_str (jget block ''text'') else None)"

definition with_text :: "json \<Rightarrow> string \<Rightarrow> json" where
  "with_text block s = (case block of JDict d \<Rightarrow> JDict (dict_set ''text'' (JStr s) d) | v \<Rightarrow> v)"

text \<open>The last block that has an envelope gets the element.\<close>

fun splice_blocks :: "json list \<Rightarrow> string \<Rightarrow> json list option" where
  "splice_blocks [] element = None"
| "splice_blocks (b # bs) element =
     (case splice_blocks bs element of
        Some cs \<Rightarrow> Some (b # cs)
      | None \<Rightarrow>
          (case text_block b of
             None \<Rightarrow> None
           | Some s \<Rightarrow> map_option (\<lambda>s'. with_text b s' # bs) (splice_envelope_data s element)))"

definition append_message_data :: "xml_env \<Rightarrow> json \<Rightarrow> string \<Rightarrow> json \<Rightarrow> json option result" where
  "append_message_data env content name v =
     ok_then (data_element env name v)
       (\<lambda>element. Inr (case content of
          JStr s \<Rightarrow> map_option JStr (splice_envelope_data s element)
        | JList bs \<Rightarrow> map_option JList (splice_blocks bs element)
        | _ \<Rightarrow> None))"

definition structured_block :: "xml_env \<Rightarrow> input_context \<Rightarrow> json \<Rightarrow> json result" where
  "structured_block env ctx block =
     (case text_block block of
        Some s \<Rightarrow> ok_then (serialize_message env s ctx) (\<lambda>s'. Inr (with_text block s'))
      | None \<Rightarrow> Inr block)"

definition structured_content :: "xml_env \<Rightarrow> json \<Rightarrow> input_context \<Rightarrow> json result" where
  "structured_content env content ctx =
     (case content of
        JStr s \<Rightarrow> ok_then (serialize_message env s ctx) (\<lambda>s'. Inr (JStr s'))
      | JList bs \<Rightarrow> ok_then (each (structured_block env ctx) bs) (\<lambda>bs'. Inr (JList bs'))
      | v \<Rightarrow> Inr v)"

subsection \<open>Reading messages back\<close>

definition parts_of :: "json \<Rightarrow> json list" where
  "parts_of content = (case content of JList vs \<Rightarrow> vs | v \<Rightarrow> [v])"

definition part_text :: "json \<Rightarrow> string option" where
  "part_text v = as_str (case v of JDict d \<Rightarrow> field d ''text'' | u \<Rightarrow> u)"

definition messages_in :: "xml_env \<Rightarrow> json \<Rightarrow> (string option \<times> string option) list" where
  "messages_in env v =
     (case part_text v of
        None \<Rightarrow> []
      | Some s \<Rightarrow> (if contains ''<input-message'' s then (case xe_messages env s of None \<Rightarrow> [] | Some ms \<Rightarrow> ms) else []))"

definition message_sender_id :: "xml_env \<Rightarrow> json \<Rightarrow> string option" where
  "message_sender_id env content =
     (case filter (\<lambda>s. s \<noteq> []) (List.map_filter fst (concat (map (messages_in env) (parts_of content)))) of
        [] \<Rightarrow> None | s # ss \<Rightarrow> Some s)"

definition input_message_text :: "xml_env \<Rightarrow> json \<Rightarrow> string option" where
  "input_message_text env content =
     (let texts = filter (\<lambda>s. s \<noteq> [])
        (map strip (List.map_filter snd (concat (map (messages_in env) (parts_of content)))))
      in if texts = [] then None else Some (join [newline, newline] texts))"

definition part_hash :: "xml_env \<Rightarrow> json \<Rightarrow> string option" where
  "part_hash env v =
     (case part_text v of
        None \<Rightarrow> None
      | Some s \<Rightarrow>
          (if \<not> contains ''<dynamic-context'' s then None
           else (case xe_root env s of
               None \<Rightarrow> None
             | Some (tag, claimed, canonical) \<Rightarrow>
                 (if tag = ''dynamic-context'' \<and> (claimed = None \<or> claimed = Some (xe_sha env canonical))
                  then Some (xe_sha env canonical) else None))))"

definition dynamic_context_hash :: "xml_env \<Rightarrow> json \<Rightarrow> string option" where
  "dynamic_context_hash env content =
     (case List.map_filter (part_hash env) (parts_of content) of [] \<Rightarrow> None | h # hs \<Rightarrow> Some h)"

fun context_messages_from :: "xml_env \<Rightarrow> string list \<Rightarrow> json list \<Rightarrow> json list" where
  "context_messages_from env hashes [] = []"
| "context_messages_from env hashes (m # ms) =
     (case dynamic_context_hash env (jget m ''content'') of
        Some h \<Rightarrow>
          (if h \<in> set hashes then context_messages_from env hashes ms else m # context_messages_from env (hashes @ [h]) ms)
      | None \<Rightarrow> context_messages_from env hashes ms)"

definition dynamic_context_messages :: "xml_env \<Rightarrow> json list \<Rightarrow> json list" where
  "dynamic_context_messages env ms = context_messages_from env [] ms"

definition dynamic_context_hashes_from_messages :: "xml_env \<Rightarrow> json list \<Rightarrow> string list" where
  "dynamic_context_hashes_from_messages env ms =
     List.map_filter (\<lambda>m. dynamic_context_hash env (jget m ''content'')) (dynamic_context_messages env ms)"

definition injected_hashes_from_metadata :: "json \<Rightarrow> string list" where
  "injected_hashes_from_metadata metadata =
     (case as_list (jget metadata ''injected_dynamic_context_hashes'') of
        None \<Rightarrow> [] | Some vs \<Rightarrow> List.map_filter nonempty_str vs)"

subsection \<open>Building the input of a run\<close>

record introductions =
  it_people :: "fields list"
  it_channels :: "fields list"
  it_systems :: "fields list"

definition nobody :: introductions where
  "nobody = \<lparr>it_people = [], it_channels = [], it_systems = []\<rparr>"

definition identities :: "introductions \<Rightarrow> (fields \<times> entity_kind) list" where
  "identities it =
     map (\<lambda>p. (p, PersonEntity)) (it_people it) @ map (\<lambda>c. (c, ChannelEntity)) (it_channels it) @
     map (\<lambda>s. (s, SystemEntity)) (it_systems it)"

text \<open>Each identity is introduced when its hash is new; the hashes that were introduced are the second result.\<close>

fun introduce :: "xml_env \<Rightarrow> (fields \<times> entity_kind) list \<Rightarrow> string list \<Rightarrow> (fields list \<times> string list) result" where
  "introduce env [] injected = Inr ([], injected)"
| "introduce env ((identity, kind) # ids) injected =
     ok_then (entity_message env identity kind)
       (\<lambda>s. case dynamic_context_hash env (JStr s) of
          None \<Rightarrow> introduce env ids injected
        | Some h \<Rightarrow>
            (if h \<in> set injected then introduce env ids injected
             else ok_then (introduce env ids (injected @ [h]))
               (\<lambda>(ms, injected'). Inr (user_message (JStr s) # ms, injected'))))"

definition build_input_messages ::
  "xml_env \<Rightarrow> json \<Rightarrow> input_context \<Rightarrow> introductions \<Rightarrow> string list \<Rightarrow> (fields list \<times> string list) result" where
  "build_input_messages env content ctx it injected =
     ok_then (introduce env (identities it) injected)
       (\<lambda>(ms, injected'). ok_then (structured_content env content ctx)
         (\<lambda>c. Inr (ms @ [user_message c], injected')))"

definition filter_new_dynamic_contexts :: "xml_env \<Rightarrow> fields list \<Rightarrow> string list \<Rightarrow> fields list \<times> string list" where
  "filter_new_dynamic_contexts env ms injected =
     (let hash = (\<lambda>m. case as_str (field m ''content'') of
            None \<Rightarrow> None
          | Some s \<Rightarrow> (if contains ''<dynamic-context'' s then dynamic_context_hash env (JStr s) else None))
      in (filter (\<lambda>m. case hash m of None \<Rightarrow> True | Some h \<Rightarrow> h \<notin> set injected) ms,
          filter (\<lambda>h. h \<notin> set injected) (List.map_filter hash ms)))"

subsection \<open>The system prompt\<close>

definition system_entity_id :: string where
  "system_entity_id = ''system:open-swe''"

definition system_wrapper_marker :: string where
  "system_wrapper_marker = ''<system-instructions format='' @ quoted_attr ''open-swe-v1'' @ ''>''"

definition system_close :: string where
  "system_close = ''</system-instructions>''"

definition system_context :: input_context where
  "system_context =
     \<lparr>ic_sender = JStr system_entity_id, ic_surface = ''automation'', ic_kind = SystemMessage, ic_channel = JNull, ic_data = []\<rparr>"

definition open_swe_identity :: fields where
  "open_swe_identity =
     [(''id'', JStr system_entity_id), (''display_name'', JStr ''Open SWE''), (''platform'', JStr ''open-swe'')]"

definition wrap_system_prompt :: "xml_env \<Rightarrow> string \<Rightarrow> string list \<Rightarrow> string result" where
  "wrap_system_prompt env s additions =
     (if starts_with system_wrapper_marker s \<and> ends_with system_close s
      then (if additions = [] then Inr s
            else ok_then (each (\<lambda>a. serialize_message env a system_context) additions)
              (\<lambda>xs. let extra = join [newline] (filter (\<lambda>x. \<not> contains x s) xs)
                in Inr (if extra = [] then s
                  else take (length s - length system_close) s @ extra @ [newline] @ system_close)))
      else ok_then (entity_message env open_swe_identity SystemEntity)
        (\<lambda>identity. ok_then (serialize_message env s system_context)
          (\<lambda>message. ok_then (each (\<lambda>a. serialize_message env a system_context) additions)
            (\<lambda>extras. Inr (join [newline] ([system_wrapper_marker, identity, message] @ extras @ [system_close]))))))"

end
