(* ===== verification/Run_Completion.thy ===== *)
theory Run_Completion
  imports Input_Messages Url_Safety Pr_Guard Action_Costs
begin

section \<open>Dispatching runs, and what happens when one ends\<close>

text \<open>
  Models \<open>agent/dispatch.py\<close>, the one way every run is created, \<open>agent/completion.py\<close>, the webhook the
  platform calls when a run ends, its route in \<open>agent/api/health.py\<close>, the scheduling of
  \<open>agent/session_cost.py\<close> and the links of \<open>agent/utils/dashboard_links.py\<close>. The platform, GitHub, Slack,
  Linear, fresh identifiers and the environment variables are parameters. The icon of a notice is left out.
\<close>

subsection \<open>The callback address\<close>

definition loopback_hosts :: "string list" where
  "loopback_hosts = [''localhost'', ''127.0.0.1'', ''::1'']"

definition is_loopback_webhook :: "string \<Rightarrow> bool result" where
  "is_loopback_webhook url =
     ok_then (urlparse [] url)
       (\<lambda>u. Inr (ur_scheme u \<notin> {''http'', ''https''} \<or> ur_netloc u = [] \<or>
          py_lower (case hostname u of None \<Rightarrow> [] | Some h \<Rightarrow> h) \<in> set loopback_hosts))"

definition resolve_completion_webhook_url :: "string \<Rightarrow> string option \<Rightarrow> string option result" where
  "resolve_completion_webhook_url base secret =
     (case secret of
        Some (c # cs) \<Rightarrow>
          ok_then (is_loopback_webhook base)
            (\<lambda>b. Inr (if b then None
               else if CHR ''?'' \<in> set base then Some base else Some (base @ ''?token='' @ c # cs)))
      | _ \<Rightarrow> Inr None)"

subsection \<open>Creating runs\<close>

definition event_streaming_key :: string where
  "event_streaming_key = ''__event_streaming_v2''"

definition v2_run_stream_modes :: "string list" where
  "v2_run_stream_modes = [''values'', ''updates'', ''messages'', ''custom'', ''tasks'', ''checkpoints'']"

definition dict_or_empty :: "json \<Rightarrow> fields" where
  "dict_or_empty v = (case as_dict v of None \<Rightarrow> [] | Some d \<Rightarrow> d)"

definition prepare_run_config :: "string \<Rightarrow> fields \<Rightarrow> fields option \<Rightarrow> fields" where
  "prepare_run_config fresh config metadata =
     (let configurable = dict_set event_streaming_key (JBool True)
            (set_default ''prepare_run_id'' (JStr fresh) (dict_or_empty (field config ''configurable'')));
          merged = merge_fields (dict_or_empty (field config ''metadata'')) (case metadata of None \<Rightarrow> [] | Some m \<Rightarrow> m)
      in dict_set ''metadata'' (JDict (dict_set ''prepare_run_id'' (field configurable ''prepare_run_id'') merged))
           (dict_set ''configurable'' (JDict configurable) config))"

record 'w run_env =
  re_create :: "string option \<Rightarrow> string \<Rightarrow> fields \<Rightarrow> ('w, json) action"
  re_threads :: "'w thread_client"
  re_token :: "('w, string option) action"
  re_gh :: "string \<Rightarrow> 'w github"
  re_slack :: "json \<Rightarrow> json \<Rightarrow> string \<Rightarrow> string \<Rightarrow> ('w, bool) action"
  re_linear :: "json \<Rightarrow> string \<Rightarrow> ('w, bool) action"
  re_comment :: "fields \<Rightarrow> int \<Rightarrow> string \<Rightarrow> string \<Rightarrow> ('w, bool) action"
  re_now :: "'w \<Rightarrow> string"
  re_uuid :: "'w \<Rightarrow> string"
  re_xml :: xml_env
  re_dashboard :: string
  re_url_quote :: "string \<Rightarrow> string"
  re_secret :: "string option"
  re_webhook :: "string option"

record run_options =
  ro_strategy :: string
  ro_durability :: string
  ro_if_not_exists :: string
  ro_resumable :: bool
  ro_after :: "json option"

definition durable :: run_options where
  "durable = \<lparr>ro_strategy = ''interrupt'', ro_durability = ''sync'', ro_if_not_exists = ''create'', ro_resumable = True, ro_after = None\<rparr>"

definition run_arguments :: "string option \<Rightarrow> json \<Rightarrow> fields \<Rightarrow> run_options \<Rightarrow> fields" where
  "run_arguments webhook input config opts =
     [(''input'', input), (''config'', JDict config), (''metadata'', field config ''metadata''),
      (''multitask_strategy'', JStr (ro_strategy opts)), (''durability'', JStr (ro_durability opts)),
      (''if_not_exists'', JStr (ro_if_not_exists opts)), (''stream_mode'', JList (map JStr v2_run_stream_modes)),
      (''stream_subgraphs'', JBool True), (''stream_resumable'', JBool (ro_resumable opts))] @
     (case webhook of Some (c # cs) \<Rightarrow> [(''webhook'', JStr (c # cs))] | _ \<Rightarrow> []) @
     (case ro_after opts of None \<Rightarrow> [] | Some s \<Rightarrow> [(''after_seconds'', s)])"

definition create_durable_run ::
  "'w run_env \<Rightarrow> string \<Rightarrow> string \<Rightarrow> json \<Rightarrow> fields \<Rightarrow> fields option \<Rightarrow> run_options \<Rightarrow> ('w, json) action" where
  "create_durable_run env t assistant input config metadata opts w =
     re_create env (Some t) assistant
       (run_arguments (re_webhook env) input (prepare_run_config (re_uuid env w) config metadata) opts) w"

subsection \<open>The input of a dispatched run\<close>

definition surfaces :: "string list" where
  "surfaces = [''slack'', ''linear'', ''github'', ''web'', ''desktop'', ''eval'']"

definition surface_of :: "string \<Rightarrow> string" where
  "surface_of source = (if source \<in> set surfaces then source else ''automation'')"

definition given :: "string \<Rightarrow> json \<Rightarrow> fields" where
  "given k v = (case nonempty_str v of None \<Rightarrow> [] | Some s \<Rightarrow> [(k, JStr s)])"

definition slack_person :: "fields \<Rightarrow> json \<Rightarrow> string \<Rightarrow> fields" where
  "slack_person configurable thread sender =
     [(''id'', JStr sender), (''platform'', JStr ''slack'')] @
     given ''display_name'' (jget thread ''triggering_user_name'') @
     given ''timezone'' (jget thread ''triggering_user_timezone'') @
     given ''github_login'' (field configurable ''github_login'') @ given ''email'' (field configurable ''user_email'')"

definition slack_channel :: "json \<Rightarrow> string \<Rightarrow> fields" where
  "slack_channel thread channel_id =
     (let context = jget thread ''channel_context''
      in [(''id'', JStr channel_id), (''platform'', JStr ''slack'')] @
         given ''name'' (truthy_or (jget context ''name'') (jget context ''name_normalized'')) @
         given ''topic'' (jget context ''topic'') @ given ''purpose'' (jget context ''purpose'') @
         given ''thread_id'' (jget thread ''thread_ts''))"

definition cased_c :: "char \<Rightarrow> bool" where
  "cased_c c = (let n = ord_c c in is_upper_c c \<or> (97 \<le> n \<and> n \<le> 122) \<or> (223 \<le> n \<and> n \<noteq> 247))"

fun title_from :: "bool \<Rightarrow> string \<Rightarrow> string" where
  "title_from cased [] = []"
| "title_from cased (c # cs) =
     (if cased_c c then (if cased then lower_c c else upper_c c) # title_from True cs
      else c # title_from False cs)"

definition map_char :: "char \<Rightarrow> char \<Rightarrow> string \<Rightarrow> string" where
  "map_char a b s = map (\<lambda>c. if c = a then b else c) s"

definition system_sender :: "string \<Rightarrow> fields" where
  "system_sender source =
     [(''id'', JStr (''system:'' @ map_char (CHR ''_'') (CHR ''-'') source)),
      (''display_name'', JStr (title_from False (map_char (CHR ''-'') (CHR '' '') source))), (''platform'', JStr ''open-swe'')]"

definition sender_of :: "string \<Rightarrow> fields \<Rightarrow> (string \<times> fields \<times> entity_kind)" where
  "sender_of source configurable =
     (let thread = field configurable ''slack_thread''; surface = surface_of source;
          login = nonempty_str (field configurable ''github_login''); email = nonempty_str (field configurable ''user_email'');
          github = map_option (\<lambda>l. (''github:'' @ l, [(''id'', JStr (''github:'' @ l)), (''platform'', JStr ''github''),
             (''github_login'', JStr l)] @ given ''email'' (opt_str email), PersonEntity)) login;
          system = (''system:'' @ map_char (CHR ''_'') (CHR ''-'') source, system_sender source, SystemEntity);
          other = (case github of Some p \<Rightarrow> p
            | None \<Rightarrow> (case email of
                Some e \<Rightarrow> (if surface = ''linear''
                  then (''linear:'' @ py_lower e, [(''id'', JStr (''linear:'' @ py_lower e)), (''platform'', JStr ''linear''),
                    (''email'', JStr e)], PersonEntity) else system)
              | None \<Rightarrow> system))
      in if surface = ''slack'' then (case nonempty_str (jget thread ''triggering_user_id'') of
             Some i \<Rightarrow> (''slack:'' @ i, slack_person configurable thread (''slack:'' @ i), PersonEntity)
           | None \<Rightarrow> other)
         else other)"

definition channel_of :: "string \<Rightarrow> fields \<Rightarrow> (string \<times> fields) option" where
  "channel_of source configurable =
     (let thread = field configurable ''slack_thread''
      in if surface_of source \<noteq> ''slack'' then None
         else map_option (\<lambda>c. (''slack:'' @ c, slack_channel thread (''slack:'' @ c))) (nonempty_str (jget thread ''channel_id'')))"

definition dispatch_context :: "string \<Rightarrow> fields \<Rightarrow> input_context" where
  "dispatch_context source configurable =
     (case sender_of source configurable of
        (sender, who, kind) \<Rightarrow>
          \<lparr>ic_sender = JStr sender, ic_surface = surface_of source,
           ic_kind = (if kind = PersonEntity then HumanMessage else SystemMessage),
           ic_channel = (case channel_of source configurable of None \<Rightarrow> JNull | Some (c, d) \<Rightarrow> JStr c), ic_data = []\<rparr>)"

definition dispatch_introductions :: "string \<Rightarrow> fields \<Rightarrow> introductions" where
  "dispatch_introductions source configurable =
     (case sender_of source configurable of
        (sender, who, kind) \<Rightarrow>
          \<lparr>it_people = (if kind = PersonEntity then [who] else []),
           it_channels = (case channel_of source configurable of None \<Rightarrow> [] | Some (c, d) \<Rightarrow> [d]),
           it_systems = (if kind = PersonEntity then [] else [who])\<rparr>)"

definition run_input :: "fields list \<Rightarrow> json" where
  "run_input ms = JDict [(''messages'', JList (map JDict ms))]"

definition dispatch_input :: "xml_env \<Rightarrow> json \<Rightarrow> string \<Rightarrow> fields \<Rightarrow> json result" where
  "dispatch_input env content source configurable =
     ok_then (build_input_messages env content (dispatch_context source configurable) (dispatch_introductions source configurable) [])
       (\<lambda>(ms, injected). Inr (run_input ms))"

text \<open>A dispatch has a prebuilt input, or content with the identities of its source or without them.\<close>

record dispatch_request =
  dq_content :: "json option"
  dq_input :: "json option"
  dq_context :: "input_context option"
  dq_introductions :: "introductions option"

definition input_for :: "xml_env \<Rightarrow> dispatch_request \<Rightarrow> string \<Rightarrow> fields \<Rightarrow> json result" where
  "input_for env q source configurable =
     (case dq_input q of
        Some i \<Rightarrow>
          (if dq_content q \<noteq> None \<or> dq_context q \<noteq> None \<or> dq_introductions q \<noteq> None
           then Inl (value_error ''prebuilt input cannot be combined with content or source identities'') else Inr i)
      | None \<Rightarrow>
          (case dq_content q of
             None \<Rightarrow> Inl (value_error ''content is required when input is not provided'')
           | Some content \<Rightarrow>
               (case dq_context q of
                  None \<Rightarrow> dispatch_input env content source configurable
                | Some ctx \<Rightarrow>
                    ok_then (build_input_messages env content ctx (case dq_introductions q of None \<Rightarrow> nobody | Some it \<Rightarrow> it) [])
                      (\<lambda>(ms, injected). Inr (run_input ms)))))"

definition dispatch_agent_run ::
  "'w run_env \<Rightarrow> string \<Rightarrow> dispatch_request \<Rightarrow> fields \<Rightarrow> string \<Rightarrow> string \<Rightarrow> fields \<Rightarrow> string \<Rightarrow> ('w, json) action" where
  "dispatch_agent_run env t q configurable source assistant metadata strategy =
     (case input_for (re_xml env) q source configurable of
        Inl e \<Rightarrow> fail e
      | Inr i \<Rightarrow> create_durable_run env t assistant i [(''configurable'', JDict configurable)] (Some metadata)
          (durable\<lparr>ro_strategy := strategy\<rparr>))"

subsection \<open>Who may call back\<close>

definition ascii :: "string \<Rightarrow> bool" where
  "ascii s = list_all (\<lambda>c. ord_c c < 128) s"

text \<open>\<open>hmac.compare_digest\<close> takes ASCII strings only.\<close>

definition verify_run_complete_token :: "string option \<Rightarrow> string option \<Rightarrow> bool result" where
  "verify_run_complete_token secret token =
     (case (secret, token) of
        (Some (c # cs), Some s) \<Rightarrow>
          (if ascii s \<and> ascii (c # cs) then Inr (s = c # cs)
           else Inl (Raised ''TypeError'' ''comparing strings with non-ASCII characters is not supported''))
      | _ \<Rightarrow> Inr False)"

text \<open>The query of a URL as the server reads it: \<open>+\<close> is a space, \<open>%\<close> with two digits a character.\<close>

definition hex_c :: "char \<Rightarrow> bool" where
  "hex_c c = (let n = ord_c c in (48 \<le> n \<and> n \<le> 57) \<or> (65 \<le> n \<and> n \<le> 70) \<or> (97 \<le> n \<and> n \<le> 102))"

fun unquote_plus :: "string \<Rightarrow> string" where
  "unquote_plus [] = []"
| "unquote_plus (c # cs) =
     (if c = CHR ''+'' then CHR '' '' # unquote_plus cs
      else if c = CHR ''%'' then
        (case cs of
           a # b # ds \<Rightarrow>
             (if hex_c a \<and> hex_c b then char_of (hex_digit a * 16 + hex_digit b) # unquote_plus ds
              else c # unquote_plus cs)
         | _ \<Rightarrow> c # unquote_plus cs)
      else c # unquote_plus cs)"

definition query_pair :: "string \<Rightarrow> string \<times> string" where
  "query_pair s = (unquote_plus (before_char (CHR ''='') s), unquote_plus (after_char (CHR ''='') s))"

definition query_get :: "string \<Rightarrow> string \<Rightarrow> string option" where
  "query_get k url =
     map_of (rev (map query_pair (filter (\<lambda>s. s \<noteq> []) (split_on (CHR ''&'') (after_char (CHR ''?'') (before_char (CHR ''#'') url)))))) k"

subsection \<open>The end of a run\<close>

definition terminal_failures :: "json list" where
  "terminal_failures = [JStr ''error'', JStr ''timeout'']"

definition max_reply_run_ids :: nat where
  "max_reply_run_ids = 20"

definition dashboard_thread_url :: "'w run_env \<Rightarrow> string \<Rightarrow> string option" where
  "dashboard_thread_url env t =
     (let base = rev (lstrip_chars ''/'' (rev (strip (re_dashboard env))))
      in if base = [] \<or> t = [] then None else Some (base @ ''/agents/'' @ re_url_quote env t))"

definition failure_text :: "string \<Rightarrow> string option \<Rightarrow> string" where
  "failure_text status url =
     ''Open SWE wasn't able to finish that - the run '' @
     (if status = ''timeout'' then ''timed out'' else if status = ''interrupted'' then ''was interrupted before it could finish''
      else ''hit an unexpected error'') @ ''. Send another message and it will pick this back up.'' @
     (case url of Some (c # cs) \<Rightarrow> '' You can view the error in <'' @ (c # cs) @ ''|Open SWE Web>.'' | _ \<Rightarrow> [])"

definition review_verdict :: "'w run_env \<Rightarrow> json \<Rightarrow> string \<times> string \<times> string" where
  "review_verdict env pending =
     (let text = (\<lambda>k d. if truthy (jget pending k) then shown (re_xml env) (jget pending k) else d)
      in case as_str (jget pending ''conclusion'') of
           Some c \<Rightarrow>
             (if c \<in> {''success'', ''neutral'', ''failure''}
              then (c, text ''title'' ''Review completed'', text ''summary'' [])
              else (''neutral'', ''Review did not complete'',
                ''The Open SWE review run ended without publishing a review. '' @
                ''Re-trigger the review by pushing a commit or re-requesting it.''))
         | None \<Rightarrow> (''neutral'', ''Review did not complete'',
             ''The Open SWE review run ended without publishing a review. '' @
             ''Re-trigger the review by pushing a commit or re-requesting it.''))"

text \<open>A list or a dictionary cannot be looked up in a set: it raises.\<close>

definition unhashable :: "json \<Rightarrow> bool" where
  "unhashable v = (as_list v \<noteq> None \<or> as_dict v \<noteq> None)"

definition settle_failed_reviewer_check :: "'w run_env \<Rightarrow> string \<Rightarrow> fields \<Rightarrow> ('w, unit) action" where
  "settle_failed_reviewer_check env t m =
     (if field m ''kind'' \<noteq> JStr ''reviewer'' \<or> as_int (field m ''review_check_run_id'') = None then give ()
      else (case (nonempty_str (jget (field m ''pr'') ''owner''), nonempty_str (jget (field m ''pr'') ''name'')) of
          (Some owner, Some repo) \<Rightarrow>
            swallow (and_then (re_token env)
              (\<lambda>token. case token of
                 Some (c # cs) \<Rightarrow>
                   if unhashable (jget (field m ''review_check_pending_result'') ''conclusion'')
                   then fail (Raised ''TypeError'' ''unhashable type'')
                   else (\<lambda>w. settle_review_check_run (re_threads env) (re_gh env (c # cs)) (re_now env w) t owner repo
                      (review_verdict env (field m ''review_check_pending_result'')) w)
               | _ \<Rightarrow> give ()))
        | _ \<Rightarrow> give ()))"

definition post_failure_reply :: "'w run_env \<Rightarrow> string \<Rightarrow> fields \<Rightarrow> string \<Rightarrow> ('w, bool) action" where
  "post_failure_reply env t m status =
     (let source = field m ''source''; ctx = field m ''source_context''; thread = jget ctx ''slack_thread'';
          text = failure_text status None
      in if source = JStr ''slack'' \<or> as_dict thread \<noteq> None
         then (if truthy (jget thread ''channel_id'') \<and> truthy (jget thread ''thread_ts'')
            then re_slack env (jget thread ''channel_id'') (jget thread ''thread_ts'')
              (failure_text status (dashboard_thread_url env t)) t
            else give False)
         else if source = JStr ''linear''
         then (let i = jget (jget ctx ''linear_issue'') ''id''
           in if truthy i then re_linear env i text else give False)
         else if source \<in> {JStr ''github'', JStr ''github_issue''}
         then (let number = jget ctx ''pr_number'';
                   number = (if number = JNull then jget (jget ctx ''github_issue'') ''number'' else number)
           in case (as_dict (field m ''repo''), as_int number) of
                (Some repo, Some n) \<Rightarrow>
                  and_then (re_token env)
                    (\<lambda>token. case token of Some (c # cs) \<Rightarrow> re_comment env repo n text (c # cs) | _ \<Rightarrow> give False)
              | _ \<Rightarrow> give False)
         else give False)"

text \<open>The run ids under two keys of the metadata: the list, and the latest one in the form before the list.\<close>

definition noted_run_ids :: "string \<Rightarrow> string \<Rightarrow> fields \<Rightarrow> string list" where
  "noted_run_ids list_key latest_key m =
     (let ids = (case as_list (field m list_key) of None \<Rightarrow> [] | Some vs \<Rightarrow> List.map_filter nonempty_str vs)
      in case nonempty_str (field m latest_key) of
           Some l \<Rightarrow> (if l \<in> set ids then ids else ids @ [l]) | None \<Rightarrow> ids)"

definition noting_run_id :: "string \<Rightarrow> string \<Rightarrow> fields \<Rightarrow> string \<Rightarrow> fields" where
  "noting_run_id list_key latest_key m run_id =
     [(latest_key, JStr run_id),
      (list_key, JList (map JStr (last_n max_reply_run_ids
         (filter (\<lambda>i. i \<noteq> run_id) (noted_run_ids list_key latest_key m) @ [run_id]))))]"

definition reply_list_key :: string where "reply_list_key = ''failure_reply_posted_run_ids''"
definition reply_latest_key :: string where "reply_latest_key = ''failure_reply_posted_run_id''"
definition reply_flag :: string where "reply_flag = ''failure_reply_posted''"
definition cost_list_key :: string where "cost_list_key = ''session_cost_refresh_scheduled_run_ids''"
definition cost_latest_key :: string where "cost_latest_key = ''session_cost_refresh_scheduled_run_id''"

definition posted_failure_run_ids :: "fields \<Rightarrow> string list" where
  "posted_failure_run_ids m = noted_run_ids reply_list_key reply_latest_key m"

definition failure_reply_metadata :: "fields \<Rightarrow> string option \<Rightarrow> fields" where
  "failure_reply_metadata m run_id =
     (case run_id of None \<Rightarrow> [(reply_flag, JBool True)] | Some r \<Rightarrow> noting_run_id reply_list_key reply_latest_key m r)"

definition scheduled_cost_run_ids :: "fields \<Rightarrow> string list" where
  "scheduled_cost_run_ids m = noted_run_ids cost_list_key cost_latest_key m"

definition cost_refresh_metadata :: "fields \<Rightarrow> string \<Rightarrow> fields" where
  "cost_refresh_metadata m run_id = noting_run_id cost_list_key cost_latest_key m run_id"

definition answer :: "string \<Rightarrow> string \<Rightarrow> fields" where
  "answer status reason = [(''status'', JStr status), (''reason'', JStr reason)]"

subsection \<open>The cost of a session\<close>

definition retry_delays :: "nat list" where
  "retry_delays = [15, 30, 60, 120, 240]"

definition refresh_keys :: "string list" where
  "refresh_keys = [''agent_thread_id'', ''run_id'', ''prepare_run_id'', ''channel_id'', ''thread_ts'']"

definition refresh_payload :: "fields \<Rightarrow> nat \<Rightarrow> fields option" where
  "refresh_payload state attempt =
     (if list_all (\<lambda>k. nonempty_str (field state k) \<noteq> None) refresh_keys
      then Some ([(''task'', JStr ''session_cost'')] @ map (\<lambda>k. (k, field state k)) refresh_keys @ [(''attempt'', JInt (int attempt))])
      else None)"

definition schedule_session_cost_refresh :: "'w run_env \<Rightarrow> fields \<Rightarrow> nat \<Rightarrow> ('w, bool) action" where
  "schedule_session_cost_refresh env state attempt =
     (if length retry_delays \<le> attempt then give False
      else (case refresh_payload state attempt of
          None \<Rightarrow> give False
        | Some payload \<Rightarrow>
            catch_all
              (and_then (re_create env None ''scheduler''
                 [(''input'', JDict payload),
                  (''metadata'', JDict [(''kind'', JStr ''session_cost_refresh''), (''run_id'', field payload ''run_id'')]),
                  (''after_seconds'', JInt (int (retry_delays ! attempt))), (''on_completion'', JStr ''delete'')])
                 (\<lambda>r. give True))
              (\<lambda>e. give False)))"

definition run_thread :: "'w run_env \<Rightarrow> string \<Rightarrow> (fields \<Rightarrow> ('w, fields) action) \<Rightarrow> ('w, fields) action" where
  "run_thread env t k w =
     (case tc_get (re_threads env) t w of
        (Inl e, w1) \<Rightarrow> (Inr (answer ''error'' ''thread fetch failed''), w1)
      | (Inr thread, w1) \<Rightarrow> k (dict_or_empty (jget thread ''metadata'')) w1)"

definition schedule_success_cost_refresh :: "'w run_env \<Rightarrow> string \<Rightarrow> string option \<Rightarrow> fields \<Rightarrow> ('w, fields) action" where
  "schedule_success_cost_refresh env t run_id payload =
     (case (run_id, nonempty_str (jget (field payload ''metadata'') ''prepare_run_id'')) of
        (None, _) \<Rightarrow> give (answer ''ignored'' ''missing run_id'')
      | (Some r, None) \<Rightarrow> give (answer ''ignored'' ''missing prepare_run_id'')
      | (Some r, Some p) \<Rightarrow>
          run_thread env t
            (\<lambda>m. let thread = jget (field m ''source_context'') ''slack_thread''
               in if field m ''kind'' = JStr ''reviewer'' then give (answer ''ignored'' ''not an agent Slack run'')
                  else if r \<in> set (scheduled_cost_run_ids m)
                  then give (answer ''ignored'' ''cost refresh already scheduled for run'')
                  else if nonempty_str (jget thread ''channel_id'') = None then give (answer ''ignored'' ''no Slack channel'')
                  else if nonempty_str (jget thread ''thread_ts'') = None then give (answer ''ignored'' ''no Slack thread'')
                  else and_then
                    (schedule_session_cost_refresh env
                       [(''agent_thread_id'', JStr t), (''run_id'', JStr r), (''prepare_run_id'', JStr p),
                        (''channel_id'', jget thread ''channel_id''), (''thread_ts'', jget thread ''thread_ts'')] 0)
                    (\<lambda>scheduled. if \<not> scheduled then give (answer ''error'' ''cost refresh scheduling failed'')
                       else and_then (swallow (tc_update (re_threads env) t (cost_refresh_metadata m r)))
                         (\<lambda>u. give (answer ''ok'' ''cost refresh scheduled'')))))"

subsection \<open>The webhook\<close>

definition report_failure :: "'w run_env \<Rightarrow> string \<Rightarrow> string option \<Rightarrow> string \<Rightarrow> fields \<Rightarrow> ('w, fields) action" where
  "report_failure env t run_id status m =
     and_then (settle_failed_reviewer_check env t m)
       (\<lambda>u. if run_id = None \<and> truthy (field m reply_flag) then give (answer ''ignored'' ''failure reply already posted'')
         else if (case run_id of None \<Rightarrow> False | Some r \<Rightarrow> r \<in> set (posted_failure_run_ids m))
         then give (answer ''ignored'' ''failure reply already posted for run'')
         else and_then (post_failure_reply env t m status)
           (\<lambda>posted. if \<not> posted then give (answer ''ignored'' ''no reply posted'')
              else and_then (swallow (tc_update (re_threads env) t (failure_reply_metadata m run_id)))
                (\<lambda>u. give (answer ''ok'' ''failure reply posted''))))"

definition handle_run_completion :: "'w run_env \<Rightarrow> fields \<Rightarrow> ('w, fields) action" where
  "handle_run_completion env payload =
     (let status = field payload ''status''; run_id = nonempty_str (field payload ''run_id'')
      in case nonempty_str (field payload ''thread_id'') of
           None \<Rightarrow> give (answer ''ignored'' ''missing thread_id'')
         | Some t \<Rightarrow>
             (if status = JStr ''success'' then schedule_success_cost_refresh env t run_id payload
              else if unhashable status then fail (Raised ''TypeError'' ''unhashable type'')
              else if status \<in> set terminal_failures \<and> jget (field payload ''metadata'') ''kind'' = JStr ''thread_wakeup''
              then give (answer ''ignored'' ''automated wakeup failure'')
              else if status \<notin> set terminal_failures
              then give (answer ''ignored'' (''non-failure status: '' @ shown (re_xml env) status))
              else run_thread env t (report_failure env t run_id (shown (re_xml env) status))))"

definition run_complete_webhook :: "'w run_env \<Rightarrow> string option \<Rightarrow> json result \<Rightarrow> ('w, fields) action" where
  "run_complete_webhook env token body =
     (case verify_run_complete_token (re_secret env) token of
        Inl e \<Rightarrow> fail e
      | Inr ok \<Rightarrow>
          (if \<not> ok then fail (Raised ''HTTPException'' ''401: Invalid run-complete token'')
           else (case body of
               Inl e \<Rightarrow> give [(''status'', JStr ''error''), (''message'', JStr ''Invalid JSON'')]
             | Inr v \<Rightarrow>
                 (case as_dict v of
                    None \<Rightarrow> give (answer ''ignored'' ''payload not an object'')
                  | Some payload \<Rightarrow> handle_run_completion env payload))))"

end
