(* ===== verification/Completion_Safety.thy ===== *)
theory Completion_Safety
  imports Run_Completion Publish_Safety
begin

section \<open>Callbacks are authentic, and failures are reported once\<close>

subsection \<open>The callback address\<close>

text \<open>A secret that survives a query as it is: ASCII without the characters that mean something there.\<close>

definition plain_secret :: "string \<Rightarrow> bool" where
  "plain_secret s = (s \<noteq> [] \<and> ascii s \<and> list_all (\<lambda>c. c \<notin> {CHR ''&'', CHR ''#'', CHR ''+'', CHR ''%''}) s)"

lemma unquote_plain: "list_all (\<lambda>c. c \<noteq> CHR ''+'' \<and> c \<noteq> CHR ''%'') s \<Longrightarrow> unquote_plus s = s"
  by (induction s) auto

lemma split_on_none: "d \<notin> set s \<Longrightarrow> split_on d s = [s]"
  by (induction s) auto

lemma before_char_none: "d \<notin> set s \<Longrightarrow> before_char d s = s"
  unfolding before_char_def by (simp add: takeWhile_eq_all_conv) blast

lemma before_char_first: "d \<notin> set s \<Longrightarrow> before_char d (s @ d # t) = s"
  unfolding before_char_def by (induction s) auto

lemma after_char_first: "d \<notin> set s \<Longrightarrow> after_char d (s @ d # t) = t"
  by (simp add: after_char_def before_char_first)

text \<open>
  C35. The platform's callbacks are accepted: the token that the route reads from the address every run is created
  with is the secret, for a secret without characters that mean something in a query.
\<close>

theorem own_callback_is_accepted:
  assumes "resolve_completion_webhook_url base (Some secret) = Inr (Some url)"
    and "CHR ''?'' \<notin> set base" "CHR ''#'' \<notin> set base" "plain_secret secret"
  shows "verify_run_complete_token (Some secret) (query_get ''token'' url) = Inr True"
proof -
  have p4: "secret \<noteq> []" "ascii secret" "\<forall>c\<in>set secret. c \<notin> {CHR ''&'', CHR ''#'', CHR ''+'', CHR ''%''}"
    using assms(4) unfolding plain_secret_def list_all_iff by blast+
  have u: "unquote_plus secret = secret"
  proof (rule unquote_plain)
    show "list_all (\<lambda>c. c \<noteq> CHR ''+'' \<and> c \<noteq> CHR ''%'') secret" using p4(3) unfolding list_all_iff by blast
  qed
  have s: "secret \<noteq> []" "ascii secret" "CHR ''&'' \<notin> set secret" "CHR ''#'' \<notin> set secret"
    using p4 by blast+
  from assms(1,2) s(1) have url: "url = base @ CHR ''?'' # (''token'' @ CHR ''='' # secret)"
    by (cases secret) (auto simp: resolve_completion_webhook_url_def ok_then_def split: sum.splits if_splits)
  have q: "after_char (CHR ''?'') (before_char (CHR ''#'') url) = ''token'' @ CHR ''='' # secret"
  proof -
    have "before_char (CHR ''#'') url = url" using assms(3) s(4) by (intro before_char_none) (simp add: url)
    then show ?thesis unfolding url by (simp only: after_char_first [OF assms(2)])
  qed
  have p: "query_pair (''token'' @ CHR ''='' # secret) = (''token'', secret)"
  proof -
    have "before_char (CHR ''='') (''token'' @ CHR ''='' # secret) = ''token''"
      "after_char (CHR ''='') (''token'' @ CHR ''='' # secret) = secret"
      by (rule before_char_first after_char_first; simp)+
    moreover have "unquote_plus ''token'' = ''token''" by (rule unquote_plain) simp
    ultimately show ?thesis by (simp only: query_pair_def u)
  qed
  have "split_on (CHR ''&'') (''token'' @ CHR ''='' # secret) = [''token'' @ CHR ''='' # secret]"
    using s(3) by (intro split_on_none) simp
  then have "query_get ''token'' url = Some secret" by (simp add: query_get_def q p del: append.simps)
  with s(1,2) show ?thesis by (cases secret) (simp_all add: verify_run_complete_token_def)
qed

theorem own_callback_is_accepted_witness:
  "\<exists>url. resolve_completion_webhook_url ''https://h/webhooks/run-complete'' (Some ''s3cret'') = Inr (Some url) \<and>
     verify_run_complete_token (Some ''s3cret'') (query_get ''token'' url) = Inr True"
proof -
  have r: "resolve_completion_webhook_url ''https://h/webhooks/run-complete'' (Some ''s3cret'') =
      Inr (Some ''https://h/webhooks/run-complete?token=s3cret'')" by code_simp
  have "plain_secret ''s3cret''" by code_simp
  from own_callback_is_accepted [OF r _ _ this] r show ?thesis by simp
qed

text \<open>A secret with a plus sign, as base 64 has, is read back with a space: every callback is rejected.\<close>

lemma secret_with_plus_is_rejected:
  "(case resolve_completion_webhook_url ''https://h/webhooks/run-complete'' (Some ''a+b'') of
      Inr (Some url) \<Rightarrow> verify_run_complete_token (Some ''a+b'') (query_get ''token'' url) | r \<Rightarrow> Inr True) = Inr False"
  by code_simp

text \<open>An address with a query of its own gets no token.\<close>

lemma address_with_query_gets_no_token:
  "resolve_completion_webhook_url base (Some (c # cs)) = Inr (Some url) \<Longrightarrow> CHR ''?'' \<in> set base \<Longrightarrow> url = base"
  by (auto simp: resolve_completion_webhook_url_def ok_then_def split: sum.splits if_splits)

text \<open>
  A callback without the secret changes nothing: with another token or none, or as long as no secret is
  configured, the route raises before it reads the payload.
\<close>

lemma forged_callbacks_do_nothing:
  assumes "re_secret env \<in> {None, Some []} \<or> token \<noteq> re_secret env"
  shows "\<exists>e. run_complete_webhook env token body w = (Inl e, w)"
  using assms
  by (auto simp: run_complete_webhook_def verify_run_complete_token_def fail_def split: option.splits list.splits)

subsection \<open>One reply for a failed run\<close>

text \<open>What the ids of the answered runs are after a reply to \<open>run_id\<close>.\<close>

definition noting :: "string \<Rightarrow> string list \<Rightarrow> string list" where
  "noting run_id ids = last_n max_reply_run_ids (filter (\<lambda>i. i \<noteq> run_id) ids @ [run_id])"

text \<open>
  \<open>reply_account env t posted\<close>: \<open>posted\<close> reads which runs the metadata of the thread has as answered. Reading
  the thread gives them, writing both fields succeeds and is read back, and nothing else changes them.
\<close>

definition reply_account :: "'w run_env \<Rightarrow> string \<Rightarrow> ('w \<Rightarrow> string list) \<Rightarrow> bool" where
  "reply_account env t posted \<longleftrightarrow>
     (\<forall>k. keeps posted (tc_get (re_threads env) k)) \<and>
     (\<forall>w thread w'. tc_get (re_threads env) t w = (Inr thread, w') \<longrightarrow>
        posted_failure_run_ids (dict_or_empty (jget thread ''metadata'')) = posted w) \<and>
     (\<forall>k d. k \<noteq> t \<or> reply_list_key \<notin> set (dict_keys d) \<and> reply_latest_key \<notin> set (dict_keys d) \<longrightarrow>
        keeps posted (tc_update (re_threads env) k d)) \<and>
     (\<forall>d w. dict_ok d \<and> reply_list_key \<in> set (dict_keys d) \<and> reply_latest_key \<in> set (dict_keys d) \<longrightarrow>
        posted (snd (tc_update (re_threads env) t d w)) = posted_failure_run_ids d) \<and>
     (\<forall>a b c. keeps posted (re_create env a b c)) \<and> keeps posted (re_token env) \<and>
     (\<forall>t verb url args. keeps posted (re_gh env t verb url args)) \<and>
     (\<forall>a b c d. keeps posted (re_slack env a b c d)) \<and> (\<forall>a b. keeps posted (re_linear env a b)) \<and>
     (\<forall>a n b c. keeps posted (re_comment env a n b c))"

lemma keeps_swallow [frame]: "keeps R m \<Longrightarrow> keeps R (swallow m)"
  by (simp add: keeps_def swallow_def)

lemma keeps_at: "(\<And>x. keeps R (k x)) \<Longrightarrow> keeps R (\<lambda>w. k (f w) w)"
  by (simp add: keeps_def)

lemma keepsD: "keeps R m \<Longrightarrow> m w = (x, w') \<Longrightarrow> R w' = R w"
  unfolding keeps_def by (metis snd_conv)

lemma reply_accountD:
  assumes "reply_account env t posted"
  shows "keeps posted (tc_get (re_threads env) k)"
    and "tc_get (re_threads env) t w = (Inr thread, w') \<Longrightarrow>
       posted_failure_run_ids (dict_or_empty (jget thread ''metadata'')) = posted w"
    and "k \<noteq> t \<or> reply_list_key \<notin> set (dict_keys d) \<and> reply_latest_key \<notin> set (dict_keys d) \<Longrightarrow>
        keeps posted (tc_update (re_threads env) k d)"
    and "dict_ok d \<Longrightarrow> reply_list_key \<in> set (dict_keys d) \<Longrightarrow> reply_latest_key \<in> set (dict_keys d) \<Longrightarrow>
        posted (snd (tc_update (re_threads env) t d w)) = posted_failure_run_ids d"
    and "keeps posted (re_create env a b c)" "keeps posted (re_token env)"
    and "keeps posted (re_gh env tok verb url args)"
    and "keeps posted (re_slack env sa sb sc sd)" "keeps posted (re_linear env la lb)"
    and "keeps posted (re_comment env ca n cb cc)"
proof -
  note a = assms [unfolded reply_account_def]
  from a show "keeps posted (tc_get (re_threads env) k)" by simp
  from a show "tc_get (re_threads env) t w = (Inr thread, w') \<Longrightarrow>
       posted_failure_run_ids (dict_or_empty (jget thread ''metadata'')) = posted w" by simp
  from a show "k \<noteq> t \<or> reply_list_key \<notin> set (dict_keys d) \<and> reply_latest_key \<notin> set (dict_keys d) \<Longrightarrow>
        keeps posted (tc_update (re_threads env) k d)" by simp
  from a show "dict_ok d \<Longrightarrow> reply_list_key \<in> set (dict_keys d) \<Longrightarrow> reply_latest_key \<in> set (dict_keys d) \<Longrightarrow>
        posted (snd (tc_update (re_threads env) t d w)) = posted_failure_run_ids d" by simp
  from a show "keeps posted (re_create env a b c)" "keeps posted (re_token env)"
    "keeps posted (re_gh env tok verb url args)" "keeps posted (re_slack env sa sb sc sd)"
    "keeps posted (re_linear env la lb)" "keeps posted (re_comment env ca n cb cc)" by simp_all
qed

lemma nonempty_str_simps [simp]: "nonempty_str (JStr a) = (if a = [] then None else Some a)"
  by (cases a) (simp_all add: nonempty_str_def)

lemma nonempty_str_Some: "nonempty_str v = Some s \<Longrightarrow> s \<noteq> []"
  by (auto simp: nonempty_str_def split: option.splits list.splits)

lemma noted_nonempty: "[] \<notin> set (noted_run_ids a b m)"
  by (auto simp: noted_run_ids_def Let_def List.map_filter_def dest: nonempty_str_Some split: option.splits if_splits)

lemma readable_ids: "[] \<notin> set ids \<Longrightarrow> List.map_filter nonempty_str (map JStr ids) = ids"
  by (induction ids) (auto simp: List.map_filter_simps)

lemma noted_read:
  assumes "r \<noteq> []"
  shows "posted_failure_run_ids (failure_reply_metadata m (Some r)) = noting r (posted_failure_run_ids m)"
proof -
  let ?ids = "noting r (posted_failure_run_ids m)"
  have ne: "[] \<notin> set ?ids"
    using noted_nonempty set_last_n assms unfolding noting_def posted_failure_run_ids_def by fastforce
  have "r \<in> set ?ids" by (simp add: noting_def last_n_def max_reply_run_ids_def)
  with assms ne show ?thesis
    by (cases r) (simp_all add: failure_reply_metadata_def noting_run_id_def posted_failure_run_ids_def noted_run_ids_def
        field_def dict_get_def reply_list_key_def reply_latest_key_def readable_ids noting_def)
qed

text \<open>The messages the platform delivers: a token and a body. One for a run names the thread and the run.\<close>

type_synonym delivery = "string option \<times> json result"

definition for_run :: "string \<Rightarrow> string \<Rightarrow> delivery \<Rightarrow> bool" where
  "for_run t r d =
     (case snd d of
        Inl e \<Rightarrow> False
      | Inr v \<Rightarrow> (case as_dict v of
            None \<Rightarrow> False
          | Some p \<Rightarrow> nonempty_str (field p ''thread_id'') = Some t \<and> nonempty_str (field p ''run_id'') = Some r))"

definition replied :: "fields result \<Rightarrow> bool" where
  "replied x = (x = Inr (answer ''ok'' ''failure reply posted''))"

fun replies :: "'w run_env \<Rightarrow> string \<Rightarrow> string \<Rightarrow> delivery list \<Rightarrow> 'w \<Rightarrow> nat" where
  "replies env t r [] w = 0"
| "replies env t r (d # ds) w =
     (case run_complete_webhook env (fst d) (snd d) w of
        (x, w') \<Rightarrow> (if for_run t r d \<and> replied x then 1 else 0) + replies env t r ds w')"

lemma answers_differ [simp]:
  "replied (Inr (answer ''ignored'' s)) = False" "replied (Inr (answer ''error'' s)) = False" "replied (Inl e) = False"
  by (simp_all add: replied_def answer_def)

lemma keys_apart:
  "reply_list_key \<notin> set (dict_keys [(reply_flag, v)])" "reply_latest_key \<notin> set (dict_keys [(reply_flag, v)])"
  "reply_list_key \<notin> set (dict_keys (cost_refresh_metadata m r))"
  "reply_latest_key \<notin> set (dict_keys (cost_refresh_metadata m r))"
  "reply_list_key \<in> set (dict_keys (failure_reply_metadata m (Some r)))"
  "reply_latest_key \<in> set (dict_keys (failure_reply_metadata m (Some r)))"
  "dict_ok (failure_reply_metadata m (Some r))"
  by (simp_all add: dict_ok_def dict_keys_def cost_refresh_metadata_def failure_reply_metadata_def noting_run_id_def reply_list_key_def
      reply_latest_key_def reply_flag_def cost_list_key_def cost_latest_key_def)

lemma merged_keys: "set (dict_keys (merge_fields d us)) = set (dict_keys d) \<union> set (dict_keys us)"
  by (induction us arbitrary: d) (simp add: dict_keys_def, clarsimp simp: dict_set_keys, simp add: dict_keys_def)

lemma reviewer_keys: "set (dict_keys (reviewer_metadata (extra_fields d))) = insert ''kind'' (set (dict_keys d))"
  unfolding reviewer_metadata_def merged_keys by (simp add: extra_fields_def opt_field_def dict_keys_def)

lemma settling_keeps:
  assumes "reply_account env t posted"
  shows "keeps posted (settle_failed_reviewer_check env k m)"
proof -
  note q = reply_accountD [OF assms]
  have u: "keeps posted (set_reviewer_thread_metadata (re_threads env) k (extra_fields d))"
    if "reply_list_key \<notin> set (dict_keys d)" "reply_latest_key \<notin> set (dict_keys d)" for k d
  proof -
    have "reply_list_key \<notin> set (dict_keys (reviewer_metadata (extra_fields d)))"
      "reply_latest_key \<notin> set (dict_keys (reviewer_metadata (extra_fields d)))"
      using that unfolding reviewer_keys by (simp_all add: reply_list_key_def reply_latest_key_def)
    then show ?thesis unfolding set_reviewer_thread_metadata_def by (intro frame q(3)) simp
  qed
  have st: "keeps posted (get_thread_metadata_strict (re_threads env) k)" for k
    unfolding get_thread_metadata_strict_def by (intro frame q(1))
  have g: "keeps posted (get_thread_metadata (re_threads env) k)" for k
    unfolding get_thread_metadata_def by (intro keeps_catch keeps_if keeps_give keeps_fail st)
  have c: "keeps posted (complete_review_check_run (re_gh env tok) now owner repo n verdict)" for tok now owner repo n verdict
    by (rule github_keeps(3)) (rule q(7))
  have s: "keeps posted (settle_review_check_run (re_threads env) (re_gh env tok) now k owner repo verdict)"
    for tok now k owner repo verdict
    unfolding settle_review_check_run_def
    by (rule keeps_then [OF g], split option.split, intro conjI impI allI keeps_give keeps_then [OF c] u)
      (simp_all add: reply_list_key_def reply_latest_key_def dict_keys_def)
  have p: "keeps posted (\<lambda>w. settle_review_check_run (re_threads env) (re_gh env tok) (re_now env w) k owner repo verdict w)"
    for tok k owner repo verdict by (rule keeps_at) (rule s)
  show ?thesis unfolding settle_failed_reviewer_check_def
    by (auto intro!: keeps_give keeps_fail keeps_swallow keeps_then q(6) p split: option.split list.split)
qed

lemma posting_keeps:
  assumes "reply_account env t posted"
  shows "keeps posted (post_failure_reply env k m status)"
proof -
  note q = reply_accountD [OF assms]
  show ?thesis unfolding post_failure_reply_def Let_def
    by (auto intro!: keeps_give keeps_then q(6) q(8) q(9) q(10) split: option.split list.split)
qed

text \<open>A write by a callback to the metadata of the thread, or of another one.\<close>

lemma noted_write:
  assumes "reply_account env t posted" "nonempty_str v = Some r" "posted_failure_run_ids m = posted w"
  shows "posted (snd (tc_update (re_threads env) t (failure_reply_metadata m (Some r)) w)) = noting r (posted w)"
  using reply_accountD(4) [OF assms(1), of "failure_reply_metadata m (Some r)"] noted_read [of r m] assms(2,3)
  by (simp add: keys_apart nonempty_str_Some)

lemma report_notes:
  assumes "reply_account env t posted" "run_id = nonempty_str v" "report_failure env t run_id status m w = (x, w')"
    and "posted_failure_run_ids m = posted w"
  shows "posted w' = posted w \<and> (replied x \<longrightarrow> run_id = None) \<or>
     (\<exists>r. run_id = Some r \<and> r \<notin> set (posted w) \<and> posted w' = noting r (posted w))"
proof -
  obtain a w1 where s: "settle_failed_reviewer_check env t m w = (a, w1)" by (metis surj_pair)
  obtain b w2 where p: "post_failure_reply env t m status w1 = (b, w2)" by (metis surj_pair)
  have k: "posted w1 = posted w" "posted w2 = posted w"
    using keepsD [OF settling_keeps [OF assms(1)] s] keepsD [OF posting_keeps [OF assms(1)] p] by simp_all
  obtain c w3 where u: "tc_update (re_threads env) t (failure_reply_metadata m run_id) w2 = (c, w3)" by (metis surj_pair)
  have n: "posted w3 = (case run_id of None \<Rightarrow> posted w | Some r \<Rightarrow> noting r (posted w))"
  proof (cases run_id)
    case None
    have "keeps posted (tc_update (re_threads env) t (failure_reply_metadata m None))"
      using reply_accountD(3) [OF assms(1), of t "failure_reply_metadata m None"]
      by (simp add: failure_reply_metadata_def keys_apart)
    with None u k show ?thesis by (auto dest: keepsD)
  next
    case (Some r)
    with assms(2) have v: "nonempty_str v = Some r" by simp
    show ?thesis using noted_write [OF assms(1) v, of m w2] Some assms(4) u k by simp
  qed
  show ?thesis
    using assms(3,4) s p u k n
    by (cases a; cases b; cases run_id)
      (auto simp: report_failure_def and_then_def swallow_def give_def split: if_splits)
qed

lemma elsewhere_keeps:
  assumes "reply_account env t posted" "k \<noteq> t"
  shows "keeps posted (report_failure env k run_id status m)"
  unfolding report_failure_def
  by (intro keeps_then keeps_if keeps_give keeps_swallow settling_keeps [OF assms(1)] posting_keeps [OF assms(1)]
      reply_accountD(3) [OF assms(1)]) (simp add: assms(2))

lemma success_keeps:
  assumes "reply_account env t posted"
  shows "keeps posted (schedule_success_cost_refresh env k run_id payload)"
    and "\<not> replied (fst (schedule_success_cost_refresh env k run_id payload w))"
proof -
  note q = reply_accountD [OF assms]
  have r: "keeps posted (schedule_session_cost_refresh env st n)" for st n
    unfolding schedule_session_cost_refresh_def
    by (auto intro!: keeps_give keeps_then keeps_catch q(5) split: option.split)
  have u: "keeps posted (tc_update (re_threads env) k (cost_refresh_metadata m s))" for m s
    by (rule q(3)) (simp add: keys_apart)
  have thread: "keeps posted (run_thread env k f)" if "\<And>m. keeps posted (f m)" for f
    using that keepsD [OF q(1) [of k]] unfolding keeps_def run_thread_def
    by (auto split: prod.split sum.split)
  show "keeps posted (schedule_success_cost_refresh env k run_id payload)"
    unfolding schedule_success_cost_refresh_def Let_def
    by (cases run_id; cases "nonempty_str (jget (field payload ''metadata'') ''prepare_run_id'')")
      (simp_all only: prod.case option.case, (rule keeps_give | rule thread keeps_if keeps_then keeps_swallow r u)+)
  show "\<not> replied (fst (schedule_success_cost_refresh env k run_id payload w))"
    unfolding schedule_success_cost_refresh_def
    by (auto simp: Let_def run_thread_def and_then_def give_def swallow_def replied_def answer_def schedule_session_cost_refresh_def
        split: option.splits prod.splits sum.splits if_splits)
qed

lemma failure_notes:
  assumes "reply_account env t posted" "run_thread env k (report_failure env k (nonempty_str v) status) w = (x, w')"
  shows "posted w' = posted w \<and> (k = t \<and> nonempty_str v \<noteq> None \<longrightarrow> \<not> replied x) \<or>
     (\<exists>r. k = t \<and> nonempty_str v = Some r \<and> r \<notin> set (posted w) \<and> posted w' = noting r (posted w))"
proof -
  obtain a w1 where g: "tc_get (re_threads env) k w = (a, w1)" by (metis surj_pair)
  have w1: "posted w1 = posted w" by (rule keepsD [OF reply_accountD(1) [OF assms(1)] g])
  show ?thesis
  proof (cases a)
    case (Inl e)
    with assms(2) g w1 show ?thesis by (auto simp: run_thread_def)
  next
    case (Inr thread)
    with assms(2) g have r: "report_failure env k (nonempty_str v) status (dict_or_empty (jget thread ''metadata'')) w1 = (x, w')"
      by (simp add: run_thread_def)
    show ?thesis
    proof (cases "k = t")
      case False
      from keepsD [OF elsewhere_keeps [OF assms(1) False] r] w1 False show ?thesis by simp
    next
      case True
      from reply_accountD(2) [OF assms(1)] g Inr True w1
      have "posted_failure_run_ids (dict_or_empty (jget thread ''metadata'')) = posted w1" by simp
      from report_notes [OF assms(1) refl r [unfolded True] this] w1 True show ?thesis by auto
    qed
  qed
qed

lemma webhook_notes:
  assumes "reply_account env t posted" "run_complete_webhook env (fst d) (snd d) w = (x, w')"
  shows "posted w' = posted w \<and> (\<forall>r. for_run t r d \<longrightarrow> \<not> replied x) \<or>
     (\<exists>r. for_run t r d \<and> r \<notin> set (posted w) \<and> posted w' = noting r (posted w))"
proof (cases "\<exists>v p. verify_run_complete_token (re_secret env) (fst d) = Inr True \<and> snd d = Inr v \<and> as_dict v = Some p")
  case False
  with assms(2) show ?thesis
    by (auto simp: run_complete_webhook_def fail_def give_def for_run_def replied_def answer_def split: sum.splits option.splits if_splits)
next
  case True
  then obtain v p where d: "verify_run_complete_token (re_secret env) (fst d) = Inr True" "snd d = Inr v" "as_dict v = Some p"
    by blast
  with assms(2) have h: "handle_run_completion env p w = (x, w')" by (simp add: run_complete_webhook_def)
  have f: "for_run t r d \<longleftrightarrow> nonempty_str (field p ''thread_id'') = Some t \<and> nonempty_str (field p ''run_id'') = Some r" for r
    using d by (simp add: for_run_def)
  show ?thesis
  proof (cases "nonempty_str (field p ''thread_id'')")
    case None
    with f h show ?thesis by (simp add: handle_run_completion_def Let_def give_def)
  next
    case (Some k)
    let ?run = "run_thread env k (report_failure env k (nonempty_str (field p ''run_id'')) (shown (re_xml env) (field p ''status'')))"
    from h Some consider "schedule_success_cost_refresh env k (nonempty_str (field p ''run_id'')) p w = (x, w')"
      | "?run w = (x, w')" | "w' = w" "\<not> replied x"
      by (auto simp: handle_run_completion_def Let_def give_def fail_def split: if_splits)
    then show ?thesis
    proof cases
      case 1
      with keepsD [OF success_keeps(1) [OF assms(1)] 1] success_keeps(2) [OF assms(1), of k "nonempty_str (field p ''run_id'')" p w]
      show ?thesis by simp
    next
      case 2
      from failure_notes [OF assms(1) 2] Some f show ?thesis by auto
    qed simp
  qed
qed

text \<open>A run stays among the twenty ids that are kept until twenty other runs were answered after it.\<close>

definition held_at :: "string \<Rightarrow> nat \<Rightarrow> string list \<Rightarrow> bool" where
  "held_at r k ids \<longleftrightarrow> (\<exists>a b. ids = a @ r # b \<and> length b \<le> k)"

lemma last_n_append: "length ys \<le> n \<Longrightarrow> last_n n (xs @ ys) = last_n (n - length ys) xs @ ys"
  by (simp add: last_n_def)

lemma held_at_first: "held_at r 0 (noting r ids)"
  unfolding held_at_def noting_def by (simp add: last_n_append max_reply_run_ids_def)

lemma held_at_next:
  assumes "held_at r k ids" "s \<noteq> r" "k + 2 \<le> max_reply_run_ids"
  shows "held_at r (Suc k) (noting s ids)"
proof -
  obtain a b where ids: "ids = a @ r # b" "length b \<le> k" using assms(1) by (auto simp: held_at_def)
  let ?f = "filter (\<lambda>i. i \<noteq> s)"
  have l: "length (?f b) \<le> k" using ids(2) length_filter_le [of "\<lambda>i. i \<noteq> s" b] by linarith
  have "noting s ids = last_n max_reply_run_ids (?f a @ (r # ?f b @ [s]))"
    using assms(2) by (auto simp: noting_def ids(1))
  also have "\<dots> = last_n (max_reply_run_ids - length (r # ?f b @ [s])) (?f a) @ (r # ?f b @ [s])"
    by (rule last_n_append) (use assms(3) l in simp)
  finally show ?thesis using l unfolding held_at_def by fastforce
qed

lemma held_at_mem: "held_at r k ids \<Longrightarrow> r \<in> set ids"
  by (auto simp: held_at_def)

lemma for_run_same: "for_run t r d \<Longrightarrow> for_run t s d \<Longrightarrow> s = r"
  by (auto simp: for_run_def split: sum.splits option.splits)

lemma webhook_run:
  assumes "reply_account env t posted" "run_complete_webhook env (fst d) (snd d) w = (x, w')" "for_run t r d"
  shows "posted w' = posted w \<and> \<not> replied x \<or> r \<notin> set (posted w) \<and> posted w' = noting r (posted w)"
  using webhook_notes [OF assms(1,2)]
proof (elim disjE exE conjE)
  fix s assume s: "for_run t s d" "s \<notin> set (posted w)" "posted w' = noting s (posted w)"
  from for_run_same [OF assms(3) s(1)] s show ?thesis by simp
qed (use assms(3) in blast)

lemma webhook_other_run:
  assumes "reply_account env t posted" "run_complete_webhook env (fst d) (snd d) w = (x, w')" "\<not> for_run t r d"
  shows "posted w' = posted w \<or> (\<exists>s. s \<noteq> r \<and> posted w' = noting s (posted w))"
  using webhook_notes [OF assms(1,2)] assms(3) by metis

definition others :: "string \<Rightarrow> string \<Rightarrow> delivery list \<Rightarrow> nat" where
  "others t r ds = length (filter (\<lambda>d. \<not> for_run t r d) ds)"

lemma no_more_replies:
  assumes "reply_account env t posted"
  shows "held_at r k (posted w) \<Longrightarrow> k + others t r ds < max_reply_run_ids \<Longrightarrow> replies env t r ds w = 0"
proof (induction ds arbitrary: k w)
  case (Cons d ds)
  obtain x w' where x: "run_complete_webhook env (fst d) (snd d) w = (x, w')" by (metis surj_pair)
  show ?case
  proof (cases "for_run t r d")
    case True
    from webhook_run [OF assms x True] held_at_mem [OF Cons.prems(1)]
    have "posted w' = posted w" "\<not> replied x" by simp_all
    with Cons.IH [of k w'] Cons.prems True x show ?thesis by (simp add: others_def)
  next
    case False
    from webhook_other_run [OF assms x False] consider "posted w' = posted w"
      | s where "s \<noteq> r" "posted w' = noting s (posted w)" by blast
    then show ?thesis
    proof cases
      case 1
      with Cons.IH [of k w'] Cons.prems False x show ?thesis by (simp add: others_def)
    next
      case 2
      have "held_at r (Suc k) (posted w')"
        unfolding 2(2) by (rule held_at_next [OF Cons.prems(1) 2(1)]) (use Cons.prems(2) False in \<open>simp add: others_def\<close>)
      with Cons.IH [of "Suc k" w'] Cons.prems False x show ?thesis by (simp add: others_def)
    qed
  qed
qed simp

text \<open>
  C33. A failure is reported once: however often and in whatever order the platform delivers the ends of runs, at most
  one of the deliveries for a run posts a reply, when fewer than twenty others come in.
\<close>

theorem failure_is_reported_once:
  assumes "reply_account env t posted" "others t r ds < max_reply_run_ids"
  shows "replies env t r ds w \<le> 1"
  using assms(2)
proof (induction ds arbitrary: w)
  case (Cons d ds)
  obtain x w' where x: "run_complete_webhook env (fst d) (snd d) w = (x, w')" by (metis surj_pair)
  have less: "others t r ds < max_reply_run_ids" using Cons.prems by (simp add: others_def split: if_splits)
  show ?case
  proof (cases "for_run t r d \<and> replied x")
    case True
    with webhook_run [OF assms(1) x] have "posted w' = noting r (posted w)" by blast
    with held_at_first have "held_at r 0 (posted w')" by simp
    from no_more_replies [OF assms(1) this] less x show ?thesis by simp
  next
    case False
    with Cons.IH [OF less, of w'] x show ?thesis by auto
  qed
qed simp

text \<open>One thread, opened for a Linear issue, where every comment is taken.\<close>

definition linear_thread :: "fields run_env" where
  "linear_thread =
     \<lparr>re_create = \<lambda>a b c. give JNull,
      re_threads = \<lparr>tc_get = \<lambda>k w. (Inr (JDict [(''metadata'', JDict w)]), w),
        tc_update = \<lambda>k d w. (Inr (), if k = ''t'' then merge_fields w d else w), tc_record = \<lambda>k d. give ()\<rparr>,
      re_token = give None, re_gh = \<lambda>tok verb url args. fail (Raised ''HTTPError'' []),
      re_slack = \<lambda>a b c d. give False, re_linear = \<lambda>a b. give True, re_comment = \<lambda>a n b c. give False,
      re_now = \<lambda>w. [], re_uuid = \<lambda>w. [],
      re_xml = \<lparr>xe_root = \<lambda>s. None, xe_messages = \<lambda>s. None, xe_sha = \<lambda>s. s, xe_str = \<lambda>v. []\<rparr>,
      re_dashboard = [], re_url_quote = \<lambda>s. s, re_secret = Some ''s'', re_webhook = None\<rparr>"

definition failed :: "string \<Rightarrow> delivery" where
  "failed r = (Some ''s'', Inr (JDict [(''thread_id'', JStr ''t''), (''run_id'', JStr r), (''status'', JStr ''error'')]))"

lemma linear_thread_account: "reply_account linear_thread ''t'' posted_failure_run_ids"
  unfolding reply_account_def
  by (auto simp: linear_thread_def keeps_def give_def fail_def dict_or_empty_def posted_failure_run_ids_def noted_run_ids_def
      field_merge field_merge_other) (simp_all add: field_def dict_get_def)

theorem failure_is_reported_once_witness:
  "replies linear_thread ''t'' ''r1'' [failed ''r1'', failed ''r2'', failed ''r1'', failed ''r1'']
     [(''source'', JStr ''linear''), (''source_context'', JDict [(''linear_issue'', JDict [(''id'', JStr ''i'')])])] = 1"
  (is "replies _ _ _ ?ds ?w = 1")
proof -
  have o: "others ''t'' ''r1'' ?ds < max_reply_run_ids" by code_simp
  have "0 < replies linear_thread ''t'' ''r1'' ?ds ?w" by code_simp
  with failure_is_reported_once [OF linear_thread_account o, of ?w] show ?thesis by linarith
qed

end
