(* ===== verification/Message_Queue.thy ===== *)
theory Message_Queue
  imports Input_Messages Action_Costs
begin

section \<open>Messages that arrive while the agent works\<close>

text \<open>
  Models \<open>agent/middleware/check_message_queue.py\<close>: before every call of the model the messages queued for
  the thread are put into the conversation, each in an envelope, and the queue is cleared. The store, the
  model of the thread and whether it takes images, fetching an image and the guidance text for the dashboard
  are parameters. Anything that is raised is logged, and then the hook changes nothing of the state of the run.
\<close>

record 'w queue_env =
  qe_xml :: xml_env
  qe_store :: "('w, bool) action"
  qe_event :: "string \<Rightarrow> ('w, json) action"
  qe_event_delete :: "string \<Rightarrow> ('w, unit) action"
  qe_queue :: "string \<Rightarrow> ('w, json) action"
  qe_queue_delete :: "string \<Rightarrow> ('w, unit) action"
  qe_queue_put :: "string \<Rightarrow> fields \<Rightarrow> ('w, unit) action"
  qe_model :: "string \<Rightarrow> ('w, json) action"
  qe_images :: "string \<Rightarrow> bool"
  qe_fetch :: "json \<Rightarrow> ('w, json option) action"
  qe_guidance :: string

definition attribute_error :: exn where
  "attribute_error = Raised ''AttributeError'' ''get''"

definition type_error :: exn where
  "type_error = Raised ''TypeError'' ''not iterable''"

subsection \<open>Blocks\<close>

definition text_json :: "json \<Rightarrow> json" where
  "text_json s = JDict [(''type'', JStr ''text''), (''text'', s)]"

definition resolve_thread_model_id :: "'w queue_env \<Rightarrow> string \<Rightarrow> ('w, string option) action" where
  "resolve_thread_model_id env t =
     catch_all (and_then (qe_model env t) (\<lambda>thread. give (nonempty_str (jget (jget thread ''metadata'') ''model''))))
       (\<lambda>e. give None)"

definition vision_not_supported_warning :: "string \<Rightarrow> nat \<Rightarrow> string" where
  "vision_not_supported_warning model n =
     [newline, newline] @ ''**Note:** '' @ show_nat n @ '' image(s) were attached but the current model ('' @ model @
     '') does not support image input. The images were not included. '' @
     ''Please switch to a vision-enabled model to process images.''"

text \<open>The elements a loop over the value sees: of a list its items, of a string its characters.\<close>

definition iterated :: "json \<Rightarrow> json list option" where
  "iterated v =
     (case v of
        JList vs \<Rightarrow> Some vs | JStr s \<Rightarrow> Some (map (\<lambda>c. JStr [c]) s) | JDict d \<Rightarrow> Some (map (\<lambda>(k, v). JStr k) d) | _ \<Rightarrow> None)"

fun fetch_blocks :: "'w queue_env \<Rightarrow> json list \<Rightarrow> ('w, json list) action" where
  "fetch_blocks env [] = give []"
| "fetch_blocks env (u # us) =
     and_then (qe_fetch env u)
       (\<lambda>b. and_then (fetch_blocks env us) (\<lambda>bs. give (case b of None \<Rightarrow> bs | Some b \<Rightarrow> b # bs)))"

definition text_blocks :: "fields \<Rightarrow> json list" where
  "text_blocks payload =
     (let v = dict_get payload ''text'' (JStr []) in if truthy v then [text_json v] else [])"

definition image_blocks :: "fields \<Rightarrow> json list" where
  "image_blocks payload =
     (case as_list (field payload ''images'') of None \<Rightarrow> [] | Some vs \<Rightarrow> filter (\<lambda>v. as_dict v \<noteq> None) vs)"

definition warned :: "string \<Rightarrow> nat \<Rightarrow> fields \<Rightarrow> json list result" where
  "warned model n payload =
     (if text_blocks payload = [] then Inr (image_blocks payload)
      else (case as_str (field payload ''text'') of
          None \<Rightarrow> Inl type_error
        | Some s \<Rightarrow> Inr (text_json (JStr (s @ vision_not_supported_warning model n)) # image_blocks payload)))"

definition build_blocks :: "'w queue_env \<Rightarrow> fields \<Rightarrow> string option \<Rightarrow> ('w, json list) action" where
  "build_blocks env payload model =
     (let urls = field payload ''image_urls''; blocks = text_blocks payload @ image_blocks payload
      in if \<not> truthy urls then give blocks
         else (case iterated urls of
             None \<Rightarrow> fail type_error
           | Some us \<Rightarrow>
               (case model of
                  Some m \<Rightarrow>
                    (if qe_images env m then and_then (fetch_blocks env us) (\<lambda>bs. give (blocks @ bs))
                     else (case warned m (length us) payload of Inl e \<Rightarrow> fail e | Inr bs \<Rightarrow> give bs))
                | None \<Rightarrow> and_then (fetch_blocks env us) (\<lambda>bs. give (blocks @ bs)))))"

definition block_text :: "json \<Rightarrow> string option" where
  "block_text b = (case text_block b of Some (c # cs) \<Rightarrow> Some (c # cs) | _ \<Rightarrow> None)"

definition merge_text_blocks :: "json list \<Rightarrow> json list" where
  "merge_text_blocks blocks =
     (let texts = List.map_filter block_text blocks
      in (if texts = [] then [] else [text_json (JStr (join [newline, newline] texts))]) @
         filter (\<lambda>b. jget b ''type'' \<noteq> JStr ''text'') blocks)"

subsection \<open>The conversation so far, and what was not sent yet\<close>

definition queue_system :: fields where
  "queue_system =
     [(''id'', JStr ''system:thread-queue''), (''display_name'', JStr ''Queued message''), (''platform'', JStr ''open-swe'')]"

definition handoff_system :: fields where
  "handoff_system =
     [(''id'', JStr ''system:dashboard-handoff''), (''display_name'', JStr ''Dashboard handoff''),
      (''platform'', JStr ''open-swe'')]"

definition automation :: "string \<Rightarrow> input_context" where
  "automation sender =
     \<lparr>ic_sender = JStr sender, ic_surface = ''automation'', ic_kind = SystemMessage, ic_channel = JNull, ic_data = []\<rparr>"

record queue_state =
  qs_updates :: "fields list"
  qs_blocks :: "json list"
  qs_injected :: "string list"
  qs_blocked :: "bool option"
  qs_handoff :: bool

definition flush_blocks :: "xml_env \<Rightarrow> queue_state \<Rightarrow> queue_state result" where
  "flush_blocks xml q =
     (if qs_blocks q = [] then Inr q
      else if list_ex (\<lambda>b. as_dict b = None) (qs_blocks q) then Inl attribute_error
      else ok_then
        (build_input_messages xml (JList (merge_text_blocks (qs_blocks q))) (automation ''system:thread-queue'')
           (nobody\<lparr>it_systems := [queue_system]\<rparr>) (qs_injected q))
        (\<lambda>(ms, injected). Inr (q\<lparr>qs_updates := qs_updates q @ ms, qs_blocks := [], qs_injected := injected\<rparr>)))"

definition message_update :: "fields list \<Rightarrow> bool option \<Rightarrow> string option \<Rightarrow> fields option" where
  "message_update queued blocked prompt =
     (if queued = [] then None
      else Some ([(''messages'', JList (map JDict queued))] @
        (case blocked of None \<Rightarrow> [] | Some b \<Rightarrow> [(''plan_approval_blocked'', JBool b)]) @
        (case prompt of None \<Rightarrow> [] | Some p \<Rightarrow> [(''rendered_system_prompt'', JStr p)])))"

subsection \<open>Events of watched pull requests\<close>

definition event_message :: "json \<Rightarrow> string" where
  "event_message details =
     (let joined = join [newline, newline]
        (case as_list details of None \<Rightarrow> [] | Some vs \<Rightarrow> List.map_filter nonempty_str vs)
      in ''A PR babysitting event arrived while you were already working on this PR. '' @
         ''Do not start a separate run for that event. Before finishing, re-check the '' @
         ''PR's latest CI status and review comments, then address any newly failed '' @
         ''checks or actionable comments that are clear and deterministic.'' @
         (if joined = [] then []
          else [newline, newline] @ ''Newly arrived feedback to address:'' @ [newline] @ joined))"

definition consume_event :: "'w queue_env \<Rightarrow> string \<Rightarrow> ('w, string option) action" where
  "consume_event env t w =
     (case qe_event env t w of
        (Inl e, w1) \<Rightarrow> (Inr None, w1)
      | (Inr item, w1) \<Rightarrow>
          (if \<not> truthy (jget item ''reason'') then (Inr None, w1)
           else and_then (swallow (qe_event_delete env t)) (\<lambda>u. give (Some (event_message (jget item ''details'')))) w1))"

subsection \<open>One queued message\<close>

definition person_keys :: "string list" where
  "person_keys = [''display_name'', ''handle'', ''platform'', ''github_login'', ''email'', ''timezone'']"

definition queued_person :: "json \<Rightarrow> fields option" where
  "queued_person sender =
     map_option
       (\<lambda>i. (''id'', JStr i) # List.map_filter (\<lambda>k. map_option (\<lambda>s. (k, JStr s)) (as_str (jget sender k))) person_keys)
       (as_str (jget sender ''id''))"

definition handoff_body :: string where
  "handoff_body =
     ''This follow-up was sent from Web. The conversation has moved to Web, so answer in '' @
     ''the dashboard stream with a normal assistant message. Do not call slack_thread_reply '' @
     ''unless a later Slack message explicitly moves the conversation back to Slack.''"

definition hand_off :: "xml_env \<Rightarrow> json \<Rightarrow> queue_state \<Rightarrow> queue_state result" where
  "hand_off xml content q =
     ok_then
       (build_input_messages xml (JStr handoff_body) (automation ''system:dashboard-handoff'')
          (nobody\<lparr>it_systems := [handoff_system]\<rparr>) (qs_injected q))
       (\<lambda>(ms, injected). ok_then (flush_blocks xml (q\<lparr>qs_injected := injected\<rparr>))
         (\<lambda>q. Inr (q\<lparr>qs_updates := qs_updates q @ ms, qs_handoff := True,
            qs_blocked := (if jget content ''from_owner'' = JBool True then Some False
              else if qs_blocked q = None then Some True else qs_blocked q)\<rparr>)))"

definition add_person_message :: "xml_env \<Rightarrow> fields \<Rightarrow> json list \<Rightarrow> queue_state \<Rightarrow> queue_state result" where
  "add_person_message xml person blocks q =
     ok_then
       (build_input_messages xml (JList blocks)
          \<lparr>ic_sender = field person ''id'', ic_surface = ''web'', ic_kind = HumanMessage, ic_channel = JNull, ic_data = []\<rparr>
          (nobody\<lparr>it_people := [person]\<rparr>) (qs_injected q))
       (\<lambda>(ms, injected). ok_then (flush_blocks xml (q\<lparr>qs_injected := injected\<rparr>))
         (\<lambda>q. Inr (q\<lparr>qs_updates := qs_updates q @ ms\<rparr>)))"

definition has_payload :: "fields \<Rightarrow> bool" where
  "has_payload d = (has_field d ''text'' \<or> has_field d ''image_urls'' \<or> has_field d ''images'')"

definition add_content :: "'w queue_env \<Rightarrow> string option \<Rightarrow> json \<Rightarrow> queue_state \<Rightarrow> ('w, queue_state) action" where
  "add_content env model content q =
     (case content of
        JDict d \<Rightarrow>
          (if has_payload d
           then and_then (build_blocks env d model)
             (\<lambda>blocks. case queued_person (field d ''sender'') of
                Some person \<Rightarrow> (\<lambda>w. (add_person_message (qe_xml env) person blocks q, w))
              | None \<Rightarrow> give (q\<lparr>qs_blocks := qs_blocks q @ blocks\<rparr>))
           else give q)
      | JList bs \<Rightarrow> give (q\<lparr>qs_blocks := qs_blocks q @ bs\<rparr>)
      | JStr (c # cs) \<Rightarrow> give (q\<lparr>qs_blocks := qs_blocks q @ [text_json (JStr (c # cs))]\<rparr>)
      | _ \<Rightarrow> give q)"

definition add_message :: "'w queue_env \<Rightarrow> string option \<Rightarrow> json \<Rightarrow> queue_state \<Rightarrow> ('w, queue_state) action" where
  "add_message env model msg q w =
     (case as_dict msg of
        None \<Rightarrow> (Inl attribute_error, w)
      | Some m \<Rightarrow>
          (let content = field m ''content''
           in case (if jget content ''source'' = JStr ''dashboard'' then hand_off (qe_xml env) content q else Inr q) of
                Inl e \<Rightarrow> (Inl e, w)
              | Inr q' \<Rightarrow> add_content env model content q' w))"

fun add_messages :: "'w queue_env \<Rightarrow> string option \<Rightarrow> json list \<Rightarrow> queue_state \<Rightarrow> ('w, queue_state) action" where
  "add_messages env model [] q = give q"
| "add_messages env model (m # ms) q = and_then (add_message env model m q) (add_messages env model ms)"

subsection \<open>The hook\<close>

definition has_image :: "json \<Rightarrow> bool result" where
  "has_image msg =
     (case as_dict msg of
        None \<Rightarrow> Inl attribute_error
      | Some m \<Rightarrow> Inr (truthy (jget (field m ''content'') ''image_urls'') \<or> truthy (jget (field m ''content'') ''images'')))"

text \<open>\<open>any\<close> stops at the first message with an image.\<close>

fun any_image :: "json list \<Rightarrow> bool result" where
  "any_image [] = Inr False"
| "any_image (m # ms) = ok_then (has_image m) (\<lambda>b. if b then Inr True else any_image ms)"

fun find_from :: "string \<Rightarrow> string \<Rightarrow> nat option" where
  "find_from p [] = (if p = [] then Some 0 else None)"
| "find_from p (c # cs) = (if starts_with p (c # cs) then Some 0 else map_option Suc (find_from p cs))"

definition guidance_open :: string where "guidance_open = ''<open_swe_source_context>''"
definition guidance_close :: string where "guidance_close = ''</open_swe_source_context>''"

definition replace_source_guidance :: "string \<Rightarrow> string \<Rightarrow> string" where
  "replace_source_guidance guidance prompt =
     (case find_from guidance_open prompt of
        None \<Rightarrow> prompt
      | Some i \<Rightarrow>
          (case find_from guidance_close (drop i prompt) of
             None \<Rightarrow> prompt
           | Some j \<Rightarrow>
               take i prompt @ guidance_open @ [newline] @ guidance @ [newline] @ guidance_close @
               drop (i + j + length guidance_close) prompt))"

definition flushed_update :: "xml_env \<Rightarrow> queue_state \<Rightarrow> bool option \<Rightarrow> string option \<Rightarrow> fields option result" where
  "flushed_update xml q blocked prompt =
     ok_then (flush_blocks xml q) (\<lambda>q. Inr (message_update (qs_updates q) blocked prompt))"

definition inject_queued :: "'w queue_env \<Rightarrow> string \<Rightarrow> json list \<Rightarrow> json \<Rightarrow> queue_state \<Rightarrow> ('w, fields option) action" where
  "inject_queued env t ms prompt q =
     (case any_image ms of
        Inl e \<Rightarrow> fail e
      | Inr images \<Rightarrow>
          and_then (if images then resolve_thread_model_id env t else give None)
            (\<lambda>model. and_then (add_messages env model ms q)
              (\<lambda>q w. (flushed_update (qe_xml env) q (qs_blocked q)
                 (if qs_handoff q then map_option (replace_source_guidance (qe_guidance env)) (as_str prompt) else None), w))))"

definition start_state :: "xml_env \<Rightarrow> json list \<Rightarrow> string option \<Rightarrow> queue_state" where
  "start_state xml history event =
     \<lparr>qs_updates = [], qs_blocks = (case event of None \<Rightarrow> [] | Some s \<Rightarrow> [text_json (JStr s)]),
      qs_injected = dynamic_context_hashes_from_messages xml history, qs_blocked = None, qs_handoff = False\<rparr>"

definition read_queue :: "'w queue_env \<Rightarrow> string \<Rightarrow> json \<Rightarrow> queue_state \<Rightarrow> ('w, fields option) action" where
  "read_queue env t prompt q w =
     (case qe_queue env t w of
        (Inl e, w1) \<Rightarrow> (flushed_update (qe_xml env) q None None, w1)
      | (Inr JNull, w1) \<Rightarrow> (flushed_update (qe_xml env) q None None, w1)
      | (Inr item, w1) \<Rightarrow>
          and_then (qe_queue_delete env t)
            (\<lambda>u. case jget item ''messages'' of
               JList (m # ms) \<Rightarrow> inject_queued env t (m # ms) prompt q
             | v \<Rightarrow> (if truthy v then fail type_error
                 else (\<lambda>w2. (flushed_update (qe_xml env) q None None, w2)))) w1)"

definition check_message_queue :: "'w queue_env \<Rightarrow> string option \<Rightarrow> json list \<Rightarrow> json \<Rightarrow> ('w, fields option) action" where
  "check_message_queue env thread_id history prompt =
     (case thread_id of
        Some (c # cs) \<Rightarrow>
          catch_all
            (and_then (catch_all (qe_store env) (\<lambda>e. give False))
               (\<lambda>there.
                  if \<not> there then give None
                  else and_then (consume_event env (c # cs))
                    (\<lambda>event. read_queue env (c # cs) prompt (start_state (qe_xml env) history event))))
            (\<lambda>e. give None)
      | _ \<Rightarrow> give None)"

subsection \<open>Queueing a message\<close>

definition max_queued_messages :: nat where
  "max_queued_messages = 100"

definition queued_before :: "'w queue_env \<Rightarrow> string \<Rightarrow> ('w, json) action" where
  "queued_before env t =
     catch_all
       (and_then (qe_queue env t)
          (\<lambda>item. if \<not> truthy item then give (JList [])
             else (case as_dict item of
                 None \<Rightarrow> fail attribute_error | Some d \<Rightarrow> give (dict_get d ''messages'' (JList [])))))
       (\<lambda>e. give (JList []))"

definition queue_message_for_thread :: "'w queue_env \<Rightarrow> string \<Rightarrow> json \<Rightarrow> ('w, bool) action" where
  "queue_message_for_thread env t content =
     catch_all
       (and_then (queued_before env t)
          (\<lambda>v. case as_list v of
             None \<Rightarrow> fail attribute_error
           | Some ms \<Rightarrow>
               and_then
                 (qe_queue_put env t [(''messages'', JList (last_n max_queued_messages (ms @ [JDict [(''content'', content)]])))])
                 (\<lambda>u. give True)))
       (\<lambda>e. give False)"

end
