(* ===== verification/Message_Safety.thy ===== *)
theory Message_Safety
  imports Message_Queue
begin

section \<open>Envelopes hold, and queued messages arrive\<close>

text \<open>
  The text of a message cannot leave its envelope: it is escaped, and can be read back. What was queued for
  the agent is in the messages of the next call of the model, as long as nothing is raised on the way; the
  last lemmas show what is lost otherwise.
\<close>

subsection \<open>Escaping\<close>

lemma xml_text_append [simp]: "xml_text (s @ t) = xml_text s @ xml_text t"
  by (simp add: xml_text_def)

lemma xml_text_Nil [simp]: "xml_text [] = []"
  by (simp add: xml_text_def)

lemma xml_text_plain: "CHR ''<'' \<notin> set (xml_text s)" "CHR ''>'' \<notin> set (xml_text s)"
  by (auto simp: xml_text_def xml_char_def split: if_splits)

text \<open>Reading escaped text, as a parser of XML does for the entities the code writes.\<close>

function xml_read :: "string \<Rightarrow> string" where
  "xml_read [] = []"
| "xml_read (c # s) =
     (if starts_with ''&amp;'' (c # s) then CHR ''&'' # xml_read (drop 4 s)
      else if starts_with ''&lt;'' (c # s) then CHR ''<'' # xml_read (drop 3 s)
      else if starts_with ''&gt;'' (c # s) then CHR ''>'' # xml_read (drop 3 s)
      else c # xml_read s)"
  by pat_completeness auto
termination by (relation "measure length") auto

lemma xml_read_text: "xml_read (xml_text s) = s"
proof (induction s)
  case (Cons c s)
  show ?case
  proof (cases "c = CHR ''&'' \<or> c = CHR ''<'' \<or> c = CHR ''>''")
    case True
    with Cons.IH show ?thesis by (auto simp: xml_text_def xml_char_def starts_with_def)
  next
    case False
    with Cons.IH show ?thesis by (simp add: xml_text_def xml_char_def starts_with_def)
  qed
qed (simp add: xml_text_def)

lemma serialized:
  assumes "serialize_message env s ctx = Inr out"
  shows "\<exists>before. \<forall>s'. serialize_message env s' ctx =
    Inr (before @ ''<content>'' @ xml_text s' @ ''</content>'' @ [newline] @ envelope_close)"
proof -
  from assms obtain sender channel children where
    p: "validate_entity_id (ic_sender ctx) = Inr sender" "channel_attribute (ic_channel ctx) = Inr channel"
      "data_fields env (ic_data ctx) = Inr children"
    by (auto simp: serialize_message_def ok_then_def split: sum.splits)
  have j: "join [newline] (children @ [c]) = (if children = [] then [] else join [newline] children @ [newline]) @ c" for c
    by (induction children rule: induct_list012) auto
  let ?before = "''<input-message '' @
      join '' '' ([attribute ''sender'' (xml_attr sender)] @ channel @
        [attribute ''surface'' (ic_surface ctx), attribute ''kind'' (message_kind_name (ic_kind ctx))]) @
      ''>'' @ [newline] @ (if children = [] then [] else join [newline] children @ [newline])"
  have "serialize_message env s' ctx =
      Inr (?before @ ''<content>'' @ xml_text s' @ ''</content>'' @ [newline] @ envelope_close)" for s'
    by (simp add: serialize_message_def ok_then_def p j tagged_def)
  then show ?thesis by blast
qed

text \<open>
  \<open>enclosed s out\<close>: \<open>out\<close> is one envelope, written out here in full, and its content, which has no
  markup, reads as a text with \<open>s\<close> in it.
\<close>

definition enclosed :: "string \<Rightarrow> string \<Rightarrow> bool" where
  "enclosed s out \<longleftrightarrow>
     (\<exists>head content u v.
        out = ''<input-message '' @ head @ ''<content>'' @ content @ ''</content>'' @ [newline] @
          ''</input-message>'' \<and>
        CHR ''<'' \<notin> set content \<and> CHR ''>'' \<notin> set content \<and> xml_read content = u @ s @ v)"

lemma serialized_encloses:
  assumes "serialize_message env s ctx = Inr out" "contains p s"
  shows "enclosed p out"
proof -
  have j: "join [newline] (cs @ [c]) = (if cs = [] then [] else join [newline] cs @ [newline]) @ c" for cs c
    by (induction cs rule: induct_list012) auto
  from assms(1) obtain head where
    "out = ''<input-message '' @ head @ ''<content>'' @ xml_text s @ ''</content>'' @ [newline] @ ''</input-message>''"
    by (auto simp: serialize_message_def ok_then_def j tagged_def envelope_close_def split: sum.splits)
  moreover from assms(2) obtain u v where "s = u @ p @ v" by (auto simp: contains_iff)
  ultimately show ?thesis
    using xml_text_plain xml_read_text unfolding enclosed_def by blast
qed

text \<open>
  C34. The text of a message stays in its envelope: whatever the text, the envelope around it is the same, the
  text adds no markup to it, and reading the content gives back the text.
\<close>

theorem text_stays_in_its_envelope:
  assumes "serialize_message env s ctx = Inr out"
  shows "\<exists>before content. out = before @ ''<content>'' @ content @ ''</content>'' @ [newline] @ envelope_close \<and>
    CHR ''<'' \<notin> set content \<and> CHR ''>'' \<notin> set content \<and> xml_read content = s \<and>
    (\<forall>s'. \<exists>content'. serialize_message env s' ctx =
       Inr (before @ ''<content>'' @ content' @ ''</content>'' @ [newline] @ envelope_close))"
proof -
  from serialized [OF assms] obtain before where
    b: "\<And>s'. serialize_message env s' ctx =
      Inr (before @ ''<content>'' @ xml_text s' @ ''</content>'' @ [newline] @ envelope_close)" by blast
  with assms xml_text_plain xml_read_text show ?thesis
    by (intro exI [of _ before] exI [of _ "xml_text s"]) auto
qed

definition plain_xml :: xml_env where
  "plain_xml =
     \<lparr>xe_root = \<lambda>s. Some (''dynamic-context'', None, s), xe_messages = \<lambda>s. None, xe_sha = \<lambda>s. s, xe_str = \<lambda>v. []\<rparr>"

theorem text_stays_in_its_envelope_witness:
  "\<exists>out before content. serialize_message plain_xml ''</content></input-message>'' system_context = Inr out \<and>
     out = before @ ''<content>'' @ content @ ''</content>'' @ [newline] @ envelope_close \<and> CHR ''<'' \<notin> set content"
proof -
  have "(case serialize_message plain_xml ''</content></input-message>'' system_context of Inl e \<Rightarrow> False | Inr r \<Rightarrow> True)"
    by code_simp
  then obtain out where out: "serialize_message plain_xml ''</content></input-message>'' system_context = Inr out"
    by (auto split: sum.splits)
  with text_stays_in_its_envelope [OF out] show ?thesis by blast
qed

subsection \<open>Where a text is\<close>

text \<open>\<open>carries s m\<close>: the content of the message, or one of its text blocks, is an envelope around \<open>s\<close>.\<close>

definition content_carries :: "string \<Rightarrow> json \<Rightarrow> bool" where
  "content_carries s content =
     (case content of
        JStr u \<Rightarrow> enclosed s u
      | JList bs \<Rightarrow> list_ex (\<lambda>b. case text_block b of None \<Rightarrow> False | Some u \<Rightarrow> enclosed s u) bs
      | _ \<Rightarrow> False)"

definition carries :: "string \<Rightarrow> fields \<Rightarrow> bool" where
  "carries s m = content_carries s (field m ''content'')"

definition block_holds :: "string \<Rightarrow> json \<Rightarrow> bool" where
  "block_holds s b = (case block_text b of None \<Rightarrow> False | Some u \<Rightarrow> contains s u)"

definition holds :: "string \<Rightarrow> queue_state \<Rightarrow> bool" where
  "holds s q \<longleftrightarrow> list_ex (carries s) (qs_updates q) \<or> list_ex (block_holds s) (qs_blocks q)"

definition content_texts :: "json \<Rightarrow> string list" where
  "content_texts content =
     (case content of
        JStr s \<Rightarrow> (if s = [] then [] else [s])
      | JList bs \<Rightarrow> List.map_filter block_text bs
      | JDict d \<Rightarrow> (case nonempty_str (field d ''text'') of None \<Rightarrow> [] | Some s \<Rightarrow> [s])
      | _ \<Rightarrow> [])"

definition message_texts :: "json \<Rightarrow> string list" where
  "message_texts msg = content_texts (jget msg ''content'')"

lemma contains_trans: "contains p s \<Longrightarrow> contains s t \<Longrightarrow> contains p t"
  using contains_append by (fastforce simp: contains_iff)

lemma contains_self [simp]: "contains s s"
  unfolding contains_iff by (rule exI [of _ "[]"], rule exI [of _ "[]"]) simp

lemma contains_joined: "s \<in> set ss \<Longrightarrow> contains s (join sep ss)"
proof (induction ss rule: induct_list012)
  case (2 x)
  then show ?case by simp
next
  case (3 x y zs)
  then consider "s = x" | "s \<in> set (y # zs)" by auto
  then show ?case
  proof cases
    case 1
    have "contains s ([] @ s @ sep @ join sep (y # zs))" by (rule contains_append) simp
    with 1 show ?thesis by simp
  next
    case 2
    with 3(2) have "contains s (join sep (y # zs))" by blast
    then have "contains s ((x @ sep) @ join sep (y # zs) @ [])" by (rule contains_append)
    then show ?thesis by simp
  qed
qed simp

lemma structured_carries:
  assumes "structured_content env (JList bs) ctx = Inr content" "b \<in> set bs" "text_block b = Some u" "contains s u"
  shows "content_carries s content"
proof -
  from assms(1) obtain bs' where bs': "each (structured_block env ctx) bs = Inr bs'" "content = JList bs'"
    by (auto simp: structured_content_def ok_then_def split: sum.splits)
  have texted: "text_block (with_text b v) = Some v" if "text_block b = Some u" for v b
    using that by (cases b) (auto simp: text_block_def with_text_def split: if_splits)
  from bs'(1) assms(2) have "\<exists>b'\<in>set bs'. \<exists>v. text_block b' = Some v \<and> enclosed s v"
  proof (induction bs arbitrary: bs')
    case (Cons c cs)
    from Cons.prems(1) obtain c' cs' where c: "structured_block env ctx c = Inr c'" "each (structured_block env ctx) cs = Inr cs'"
      "bs' = c' # cs'" by (auto simp: ok_then_def split: sum.splits)
    show ?case
    proof (cases "c = b")
      case True
      with c(1) assms(3) obtain v where v: "serialize_message env u ctx = Inr v" "c' = with_text b v"
        by (auto simp: structured_block_def ok_then_def split: sum.splits)
      have "enclosed s v" by (rule serialized_encloses [OF v(1) assms(4)])
      with texted [OF assms(3)] v(2) c(3) show ?thesis by auto
    next
      case False
      with Cons.prems(2) Cons.IH [OF c(2)] c(3) show ?thesis by auto
    qed
  qed simp
  with bs'(2) show ?thesis by (auto simp: content_carries_def list_ex_iff split: option.splits)
qed

lemma built_carries:
  assumes "build_input_messages env (JList bs) ctx it injected = Inr (ms, injected')"
    and "b \<in> set bs" "text_block b = Some u" "contains s u"
  shows "list_ex (carries s) ms"
proof -
  from assms(1) obtain as content where "ms = as @ [user_message content]" "structured_content env (JList bs) ctx = Inr content"
    by (auto simp: build_input_messages_def ok_then_def split: sum.splits prod.splits)
  with structured_carries [OF _ assms(2-4)] show ?thesis
    by (auto simp: carries_def user_message_def field_def dict_get_def)
qed

lemma block_text_block: "block_text b = Some u \<Longrightarrow> text_block b = Some u"
  by (auto simp: block_text_def split: option.splits list.splits)

lemma flush_holds:
  assumes "flush_blocks xml q = Inr q'" "holds s q"
  shows "list_ex (carries s) (qs_updates q')"
proof (cases "qs_blocks q = []")
  case True
  with assms show ?thesis by (simp add: flush_blocks_def holds_def)
next
  case False
  with assms(1) obtain ms injected where q: "build_input_messages xml (JList (merge_text_blocks (qs_blocks q)))
      (automation ''system:thread-queue'') (nobody\<lparr>it_systems := [queue_system]\<rparr>) (qs_injected q) = Inr (ms, injected)"
    "qs_updates q' = qs_updates q @ ms"
    by (auto simp: flush_blocks_def ok_then_def split: if_splits sum.splits prod.splits)
  show ?thesis
  proof (cases "list_ex (block_holds s) (qs_blocks q)")
    case True
    then obtain b u where b: "b \<in> set (qs_blocks q)" "block_text b = Some u" "contains s u"
      by (auto simp: list_ex_iff block_holds_def split: option.splits)
    let ?texts = "List.map_filter block_text (qs_blocks q)"
    have u: "u \<in> set ?texts" using b(1,2) by (force simp: List.map_filter_def)
    then have "text_json (JStr (join [newline, newline] ?texts)) \<in> set (merge_text_blocks (qs_blocks q))"
      by (cases ?texts) (simp_all add: merge_text_blocks_def)
    moreover have "text_block (text_json (JStr v)) = Some v" for v
      by (simp add: text_block_def text_json_def field_def dict_get_def)
    ultimately have "list_ex (carries s) ms"
      using built_carries [OF q(1)] contains_trans [OF b(3) contains_joined [OF u]] by blast
    with q(2) show ?thesis by simp
  next
    case False
    with assms(2) q(2) show ?thesis by (simp add: holds_def)
  qed
qed

lemma flush_updates:
  "flush_blocks xml q = Inr q' \<Longrightarrow> qs_blocks q' = [] \<and> (\<exists>ms. qs_updates q' = qs_updates q @ ms)"
  by (auto simp: flush_blocks_def ok_then_def split: if_splits sum.splits prod.splits)

lemma holds_updates: "list_ex (carries s) (qs_updates q) \<Longrightarrow> holds s q"
  by (simp add: holds_def)

lemma hand_off_holds: "hand_off xml content q = Inr q' \<Longrightarrow> holds s q \<Longrightarrow> holds s q'"
  by (auto simp: hand_off_def ok_then_def holds_def split: sum.splits prod.splits
      dest!: flush_holds [where s = s] simp flip: holds_def) (auto simp: holds_def)

lemma add_person_holds:
  assumes "add_person_message xml person blocks q = Inr q'"
  shows "holds s q \<Longrightarrow> holds s q'"
    and "b \<in> set blocks \<Longrightarrow> text_block b = Some u \<Longrightarrow> contains s u \<Longrightarrow> holds s q'"
proof -
  from assms obtain ms injected q1 where m: "build_input_messages xml (JList blocks)
      \<lparr>ic_sender = field person ''id'', ic_surface = ''web'', ic_kind = HumanMessage, ic_channel = JNull, ic_data = []\<rparr>
      (nobody\<lparr>it_people := [person]\<rparr>) (qs_injected q) = Inr (ms, injected)"
    "flush_blocks xml (q\<lparr>qs_injected := injected\<rparr>) = Inr q1" "q' = q1\<lparr>qs_updates := qs_updates q1 @ ms\<rparr>"
    by (auto simp: add_person_message_def ok_then_def split: sum.splits prod.splits)
  show "holds s q'" if "holds s q"
    using flush_holds [OF m(2), of s] that m(3) by (simp add: holds_def)
  show "holds s q'" if "b \<in> set blocks" "text_block b = Some u" "contains s u"
    using built_carries [OF m(1) that] m(3) by (simp add: holds_def)
qed

subsection \<open>The messages of the queue\<close>

lemma block_text_json: "s \<noteq> [] \<Longrightarrow> block_text (text_json (JStr s)) = Some s"
  by (cases s) (simp_all add: block_text_def text_block_def text_json_def field_def dict_get_def)

lemma build_blocks_text:
  assumes "build_blocks env d model w = (Inr bs, w')" "nonempty_str (field d ''text'') = Some s"
  shows "\<exists>b\<in>set bs. \<exists>u. block_text b = Some u \<and> contains s u"
proof -
  from assms(2) have s: "field d ''text'' = JStr s" "s \<noteq> []"
    by (auto simp: nonempty_str_def split: option.splits list.splits elim!: as_str.elims)
  then have "dict_get d ''text'' (JStr []) = JStr s" by (auto simp: field_def dict_get_def split: option.splits)
  with s(2) have t: "text_blocks d = [text_json (JStr s)]" by (simp add: text_blocks_def Let_def)
  have w: "block_text (text_json (JStr (s @ v))) = Some (s @ v)" for v using s(2) by (intro block_text_json) simp
  have "contains s (s @ v)" for v using contains_append [of s s "[]" v] by simp
  moreover have "(\<exists>v. text_json (JStr (s @ v)) \<in> set bs)"
  proof (cases "\<exists>bs'. bs = text_blocks d @ bs'")
    case True
    then show ?thesis by (auto simp: t intro: exI [of _ "[]"])
  next
    case False
    with assms(1) obtain m n where "warned m n d = Inr bs"
      by (auto simp: build_blocks_def Let_def give_def fail_def and_then_def
          split: if_splits option.splits sum.splits prod.splits)
    then show ?thesis by (auto simp: warned_def t s)
  qed
  ultimately show ?thesis using w by blast
qed

lemma holds_block: "b \<in> set (qs_blocks q) \<Longrightarrow> block_text b = Some u \<Longrightarrow> contains s u \<Longrightarrow> holds s q"
  by (force simp: holds_def list_ex_iff block_holds_def)

lemma add_content_holds:
  assumes "add_content env model content q w = (Inr q', w')"
  shows "holds s q \<Longrightarrow> holds s q'" and "s \<in> set (content_texts content) \<Longrightarrow> holds s q'"
proof -
  have "(holds s q \<longrightarrow> holds s q') \<and> (s \<in> set (content_texts content) \<longrightarrow> holds s q')"
  proof (cases content)
    case (JStr t)
    then show ?thesis using assms block_text_json [of t]
      by (cases t) (auto simp: add_content_def give_def holds_def content_texts_def block_holds_def)
  next
    case (JList bs)
    with assms have q': "q' = q\<lparr>qs_blocks := qs_blocks q @ bs\<rparr>" by (simp add: add_content_def give_def)
    have "holds s q'" if "s \<in> set (List.map_filter block_text bs)"
      using that by (auto simp: List.map_filter_def q' intro!: holds_block [of _ _ s])
    with JList show ?thesis by (auto simp: content_texts_def q' holds_def)
  next
    case (JDict d)
    show ?thesis
    proof (cases "has_payload d")
      case False
      then have "field d ''text'' = JNull" by (auto simp: has_payload_def has_field_def field_def dict_get_def)
      with False assms JDict show ?thesis by (simp add: add_content_def give_def content_texts_def nonempty_str_def)
    next
      case True
      with assms JDict obtain blocks w1 where b: "build_blocks env d model w = (Inr blocks, w1)"
        "(case queued_person (field d ''sender'') of
           Some person \<Rightarrow> (\<lambda>w. (add_person_message (qe_xml env) person blocks q, w))
         | None \<Rightarrow> give (q\<lparr>qs_blocks := qs_blocks q @ blocks\<rparr>)) w1 = (Inr q', w')"
        by (auto simp: add_content_def and_then_def split: prod.splits sum.splits)
      show ?thesis
      proof (cases "queued_person (field d ''sender'')")
        case None
        with b(2) have q': "q' = q\<lparr>qs_blocks := qs_blocks q @ blocks\<rparr>" by (simp add: give_def)
        have "holds s q'" if "nonempty_str (field d ''text'') = Some s"
          using build_blocks_text [OF b(1) that] by (auto simp: q' intro: holds_block)
        with JDict q' show ?thesis by (auto simp: content_texts_def holds_def split: option.splits)
      next
        case (Some person)
        with b(2) have q': "add_person_message (qe_xml env) person blocks q = Inr q'" by simp
        have "holds s q'" if "nonempty_str (field d ''text'') = Some s"
          using build_blocks_text [OF b(1) that] add_person_holds(2) [OF q'] block_text_block by blast
        with JDict add_person_holds(1) [OF q'] show ?thesis by (auto simp: content_texts_def split: option.splits)
      qed
    qed
  qed (use assms in \<open>simp_all add: add_content_def give_def content_texts_def\<close>)
  then show "holds s q \<Longrightarrow> holds s q'" "s \<in> set (content_texts content) \<Longrightarrow> holds s q'" by blast+
qed

lemma add_message_holds:
  assumes "add_message env model msg q w = (Inr q', w')"
  shows "holds s q \<Longrightarrow> holds s q'" and "s \<in> set (message_texts msg) \<Longrightarrow> holds s q'"
proof -
  from assms obtain m q1 where m: "msg = JDict m" "add_content env model (field m ''content'') q1 w = (Inr q', w')"
    "q1 = q \<or> hand_off (qe_xml env) (field m ''content'') q = Inr q1"
    by (auto simp: add_message_def Let_def split: option.splits sum.splits if_splits elim!: as_dict.elims)
  show "holds s q'" if "holds s q" using m(3) that hand_off_holds add_content_holds(1) [OF m(2)] by blast
  show "holds s q'" if "s \<in> set (message_texts msg)"
    using that m(1) add_content_holds(2) [OF m(2)] by (simp add: message_texts_def)
qed

lemma add_messages_holds:
  "add_messages env model ms q w = (Inr q', w') \<Longrightarrow>
     (holds s q \<longrightarrow> holds s q') \<and> (\<forall>m\<in>set ms. s \<in> set (message_texts m) \<longrightarrow> holds s q')"
proof (induction ms arbitrary: q w)
  case (Cons m ms)
  from Cons.prems obtain q1 w1 where q1: "add_message env model m q w = (Inr q1, w1)"
    "add_messages env model ms q1 w1 = (Inr q', w')"
    by (auto simp: and_then_def split: prod.splits sum.splits)
  from Cons.IH [OF q1(2)] add_message_holds [OF q1(1)] show ?case by auto
qed (simp add: give_def)

text \<open>
  C36. Nothing that was queued is lost: when the hook answers with messages, every text of every message that was
  in the queue is in one of them, inside the content of an envelope: a text block or the whole content of the
  message is \<open><input-message ...>\<close> with its content element, the escaped content has no markup of its own, and
  reading it gives back a text that has the queued one in it.
\<close>

theorem queued_texts_reach_the_model:
  assumes r: "check_message_queue env (Some t) history prompt w = (Inr (Some update), w')" "t \<noteq> []"
    and queue: "qe_queue env t (snd (consume_event env t (snd (qe_store env w)))) = (Inr item, w1)"
      "jget item ''messages'' = JList ms"
    and s: "m \<in> set ms" "s \<in> set (message_texts m)"
  shows "\<exists>sent. field update ''messages'' = JList (map JDict sent) \<and> list_ex (carries s) sent"
proof -
  obtain q0 w0 where st: "qe_store env w = (q0, w0)" by fastforce
  obtain event u where e: "consume_event env t w0 = (Inr event, u)"
    by (cases "consume_event env t w0") (auto simp: consume_event_def and_then_def swallow_def give_def
        split: prod.splits sum.splits if_splits)
  from s(1) obtain m1 ms1 where ms: "ms = m1 # ms1" by (cases ms) auto
  from r e st have "read_queue env t prompt (start_state (qe_xml env) history event) u = (Inr (Some update), w')"
    by (cases t) (auto simp: check_message_queue_def catch_all_def give_def and_then_def
        split: prod.splits sum.splits if_splits)
  moreover from queue(2) ms have "item \<noteq> JNull" by auto
  ultimately obtain w2 where "inject_queued env t ms prompt (start_state (qe_xml env) history event) w2 = (Inr (Some update), w')"
    using queue e ms st by (auto simp: read_queue_def and_then_def split: json.splits prod.splits sum.splits)
  then obtain model w3 q w4 where q: "add_messages env model ms (start_state (qe_xml env) history event) w3 = (Inr q, w4)"
    "\<exists>prompt. flushed_update (qe_xml env) q (qs_blocked q) prompt = Inr (Some update)"
    by (auto simp: inject_queued_def and_then_def fail_def split: prod.splits sum.splits) blast
  from add_messages_holds [OF q(1), of s] s have held: "holds s q" by blast
  from q(2) obtain q' prompt' where q': "flush_blocks (qe_xml env) q = Inr q'"
    "message_update (qs_updates q') (qs_blocked q) prompt' = Some update"
    by (cases "flush_blocks (qe_xml env) q") (auto simp: flushed_update_def ok_then_def)
  from flush_holds [OF q'(1) held] q'(2) show ?thesis
    by (auto simp: message_update_def field_def dict_get_def split: if_splits)
qed

text \<open>A store with a queue: the messages and whether the store fails.\<close>

definition queue_store :: "json queue_env" where
  "queue_store =
     \<lparr>qe_xml = plain_xml, qe_store = give True, qe_event = \<lambda>t. give JNull, qe_event_delete = \<lambda>t. give (), qe_queue = \<lambda>t w. (Inr w, w),
      qe_queue_delete = \<lambda>t w. (Inr (), JNull), qe_queue_put = \<lambda>t f w. (Inr (), JDict f), qe_model = \<lambda>t. give JNull,
      qe_images = \<lambda>m. True, qe_fetch = \<lambda>u. give None, qe_guidance = []\<rparr>"

definition two_queued :: "json \<Rightarrow> json" where
  "two_queued second =
     JDict [(''messages'', JList [JDict [(''content'', JStr ''a < b'')], JDict [(''content'', second)]])]"

theorem queued_texts_reach_the_model_witness:
  "\<exists>update sent.
     check_message_queue queue_store (Some ''t'') [] JNull (two_queued (JStr ''ok'')) = (Inr (Some update), JNull) \<and>
     field update ''messages'' = JList (map JDict sent) \<and> list_ex (carries ''a < b'') sent"
proof -
  let ?w = "two_queued (JStr ''ok'')"
  have "(case check_message_queue queue_store (Some ''t'') [] JNull ?w of (Inr (Some u), JNull) \<Rightarrow> True | _ \<Rightarrow> False)"
    by code_simp
  then obtain update where u: "check_message_queue queue_store (Some ''t'') [] JNull ?w = (Inr (Some update), JNull)"
    by (auto split: prod.splits sum.splits option.splits json.splits)
  have q: "qe_queue queue_store ''t'' (snd (consume_event queue_store ''t'' (snd (qe_store queue_store ?w)))) = (Inr ?w, ?w)"
    by (simp add: queue_store_def consume_event_def give_def)
  have ms: "jget ?w ''messages'' = JList [JDict [(''content'', JStr ''a < b'')], JDict [(''content'', JStr ''ok'')]]"
    by (simp add: two_queued_def field_def dict_get_def)
  have m: "JDict [(''content'', JStr ''a < b'')] \<in> set [JDict [(''content'', JStr ''a < b'')], JDict [(''content'', JStr ''ok'')]]"
    by simp
  have s: "''a < b'' \<in> set (message_texts (JDict [(''content'', JStr ''a < b'')]))"
    by (simp add: message_texts_def content_texts_def field_def dict_get_def)
  from queued_texts_reach_the_model [OF u _ q ms m s] u show ?thesis by auto
qed

subsection \<open>What is lost\<close>

text \<open>
  The queue is cleared before it is read: one message with an invalid sender makes the hook give up, and
  every queued message is gone.
\<close>

lemma invalid_sender_loses_the_queue:
  "check_message_queue queue_store (Some ''t'') [] JNull
     (two_queued (JDict [(''text'', JStr ''x''), (''sender'', JDict [(''id'', JStr ''github:o neil'')])])) = (Inr None, JNull)"
  by code_simp

text \<open>When the queue cannot be read, queueing a message drops the messages that were queued before.\<close>

lemma unreadable_queue_is_replaced:
  assumes "qe_queue env t w = (Inl e, w1)" "qe_queue_put env t [(''messages'', JList [JDict [(''content'', c)]])] w1 = (Inr (), w2)"
  shows "queue_message_for_thread env t c w = (Inr True, w2)"
  using assms
  by (simp add: queue_message_for_thread_def queued_before_def catch_all_def and_then_def give_def max_queued_messages_def
      last_n_def)

text \<open>One message of the owner in a batch unblocks the approval for the messages of others in it.\<close>

lemma owner_unblocks_the_batch:
  assumes "hand_off xml c q = Inr q1" "hand_off xml c' q1 = Inr q2"
    and "jget c ''from_owner'' = JBool True"
  shows "qs_blocked q2 = Some False"
proof -
  have blocked: "flush_blocks xml q = Inr q' \<Longrightarrow> qs_blocked q' = qs_blocked q" for q q'
    by (auto simp: flush_blocks_def ok_then_def split: if_splits sum.splits prod.splits)
  from assms(1,3) have "qs_blocked q1 = Some False"
    by (auto simp: hand_off_def ok_then_def split: sum.splits prod.splits)
  with assms(2) show ?thesis
    by (auto simp: hand_off_def ok_then_def split: sum.splits prod.splits dest!: blocked)
qed

subsection \<open>Introductions\<close>

text \<open>Nobody is introduced twice: the hashes of new introductions are new, and remembered.\<close>

lemma introduced_once:
  "introduce env ids injected = Inr (ms, injected') \<Longrightarrow> distinct injected \<Longrightarrow>
     distinct injected' \<and> (\<exists>new. injected' = injected @ new \<and>
       map (\<lambda>m. dynamic_context_hash env (field m ''content'')) ms = map Some new)"
proof (induction env ids injected arbitrary: ms injected' rule: introduce.induct)
  case (2 env identity kind ids injected)
  from "2.prems"(1) obtain s where s: "entity_message env identity kind = Inr s"
    by (auto simp: ok_then_def split: sum.splits)
  show ?case
  proof (cases "dynamic_context_hash env (JStr s)")
    case None
    with s "2.prems" "2.IH"(1) show ?thesis by (simp add: ok_then_def)
  next
    case (Some h)
    show ?thesis
    proof (cases "h \<in> set injected")
      case True
      with s Some "2.prems" "2.IH"(2) show ?thesis by (simp add: ok_then_def)
    next
      case False
      with s Some "2.prems"(1) obtain ms1 where m: "introduce env ids (injected @ [h]) = Inr (ms1, injected')"
        "ms = user_message (JStr s) # ms1" by (auto simp: ok_then_def split: sum.splits prod.splits)
      from "2.prems"(2) False have "distinct (injected @ [h])" by simp
      from "2.IH"(3) [OF Some False m(1) this] Some m(2) show ?thesis
        by (auto simp: user_message_def field_def dict_get_def)
    qed
  qed
qed simp

end
