(* ===== verification/Spec2Isabelle.thy ===== *)
theory Spec2Isabelle
  imports Plan_Dag Budget Model_Router Tool_Errors Execution_Policy Risk Classifier Planner Verifier Trace Tool_Loop Pull_Request Mcp Tool_Registry Agents Graph_State Runtime Nodes Workflow Run_Books Runner Review_Diff Json Review_Groups Review_Reconcile Review_Tools Push_Guard Pr_Guard Run_Middleware Model_Fallback Github_Http Review_Publish Publish_Review Publish_Safety Web_Tools Github_Ci Baby_Safety Plan_Safety Completion_Safety Message_Safety
begin

text \<open>
  A verification library for SWE-Forge, the autonomous software engineering control plane under
  \<open>src/agent/sweforge\<close>, and for the parts of the agent platform around it (\<open>src/agent\<close>) that keep a
  protocol of their own: reviews of pull requests, guards of shell commands, approvals of plans and of
  workflow pushes, message queues, completion of runs, and requests to the outside.

  The program. A run of the control plane gets a task and a repository. It analyses the repository, plans
  the task with a model, lets agents implement the subtasks, verifies the change by running tests in an
  execution backend, recovers from failures a bounded number of times, has the result reviewed and scored
  for risk, and ends with a final status; a change of high risk waits for a human. Around it, long-lived
  threads talk to humans: they publish plans, ask for approvals, review pull requests and report when runs
  end.

  How the parts interact. \<open>graph/workflow.py\<close> is the machine: each node reads the state of the graph,
  works on the shared runtime (tools, budget, ledger, verifier, memory, trace) and returns a partial update,
  which the reducers of \<open>state/graph_state.py\<close> merge; routers then choose the next node. Nodes call tools
  through \<open>call_tool\<close>, which asks the budget and goes through the guard of the tool registry; agents run
  the tool loop with the tools their contract grants; models are chosen by the router and every call is in
  its ledger. Everything outside (models, shell, file system, GitHub, Slack, the thread service, clocks,
  identifiers, digests) is a parameter: an action on a world \<open>'w\<close> that may answer differently each time
  and may raise. An exception is a value of \<open>exn\<close>, a fallible step has type \<open>exn + 'a\<close>, and a world is
  passed explicitly; nothing is assumed of a parameter but what a theorem names.

  Foundations.
  \<^item> \<open>Prelude\<close>: errors, the string, list and dictionary operations of Python, rounding, collections of
    simplification rules. Characters are the 256 of Isabelle's \<open>char\<close>, so text is Latin 1.
  \<^item> \<open>Regex\<close>: the part of \<open>re\<close> the tables use. \<open>Json\<close>: JSON values with the readings \<open>d.get(k)\<close>.
    \<open>Shell_Words\<close>: \<open>shlex.split\<close> as a state machine, and \<open>shlex.quote\<close>.
  \<^item> \<open>Action_Costs\<close>: a logic of costs for actions (which results use up a credit), for bounds on how
    often something happens.
  \<^item> \<open>Interfaces\<close>: the locales of the laws that clients rely on; each is interpreted on the model's own
    definitions in the theory that provides them.

  The control plane (\<open>src/agent/sweforge\<close>).
  \<^item> \<open>Schemas\<close>, \<open>Plan_Dag\<close>: the records of \<open>schemas.py\<close> with their validators; Kahn's loop accepts a plan
    exactly when it is acyclic, and then it has layers.
  \<^item> \<open>Tool_Errors\<close>, \<open>Budget\<close>, \<open>Execution_Policy\<close>, \<open>Model_Router\<close>: policy of tool errors, the budget with its
    limits, retry and fallback of model calls, tiers, prices and the ledger.
  \<^item> \<open>Repo_Analyzer\<close>, \<open>Repo_Graph\<close>, \<open>Memory_Store\<close>, \<open>Planner\<close>: analysis of the repository, its dependency
    graph, memory of earlier tasks, planning with fallback.
  \<^item> \<open>Backends\<close>, \<open>Verifier\<close>, \<open>Classifier\<close>, \<open>Risk\<close>, \<open>Pull_Request\<close>: the execution backends on a tree of
    directories, files and symbolic links; what a verification runs and reports; failures; risk; the gate
    of the pull request.
  \<^item> \<open>Trace\<close>, \<open>Tool_Registry\<close>, \<open>Mcp\<close>, \<open>Tool_Loop\<close>, \<open>Agents\<close>: traces with redaction, the guarded tools and
    their ledger, capabilities of MCP servers, the conversation with tools, agents and reviewer.
  \<^item> \<open>Graph_State\<close>, \<open>Runtime\<close>, \<open>Nodes\<close>, \<open>Workflow\<close>, \<open>Run_Books\<close>, \<open>Runner\<close>: state, runtime, the 17 nodes, routers
    and graph, what every step keeps of the books, the runner and the registered graph.

  The platform around it (\<open>src/agent\<close>).
  \<^item> \<open>Review_Diff\<close>, \<open>Review_Groups\<close>, \<open>Review_Findings\<close>, \<open>Review_Reconcile\<close>, \<open>Review_Tools\<close>, \<open>Review_Publish\<close>,
    \<open>Publish_Review\<close>, \<open>Publish_Safety\<close>: the review of a pull request, from the diff to the comments on GitHub.
  \<^item> \<open>Github_Http\<close>, \<open>Github_Ci\<close>, \<open>Url_Safety\<close>, \<open>Web_Tools\<close>: requests to GitHub and to the open web.
  \<^item> \<open>Push_Approval\<close>, \<open>Push_Guard\<close>, \<open>Pr_Guard\<close>, \<open>Run_Middleware\<close>, \<open>Model_Fallback\<close>: guards of shell commands and
    middleware of a run.
  \<^item> \<open>Baby_Sit\<close>, \<open>Baby_Safety\<close>: watching the CI of a pull request. \<open>Plan_Review\<close>, \<open>Plan_Safety\<close>: plans and their
    approval.
  \<^item> \<open>Input_Messages\<close>, \<open>Message_Queue\<close>, \<open>Message_Safety\<close>, \<open>Run_Completion\<close>, \<open>Completion_Safety\<close>: the envelopes of
    messages, the queue of a thread, dispatch and completion of runs.

  What the lemmas show. Of each component: its validators and invariants, the result of each operation on
  every branch, errors included, and where a loop is hard, that it ends. Of the whole: an abstract control
  graph that the workflow refines (\<open>Workflow\<close>), from which the bound on the length of a run, the bound on
  recovery and the meaning of the final status follow; budget and ledger along every path (\<open>Runtime\<close>,
  \<open>Run_Books\<close>); and below, what a status \<open>completed\<close> rests on. Sequences of events with failing services
  are lists of operations (approvals, deliveries, events of CI), with invariants by induction over the list.

  Bounds and fuel. \<open>run_flow\<close> has the recursion limit of the graph as fuel; a run takes at most
  \<open>13 + 3 * max_recovery\<close> nodes, so the limit of 60 is enough for up to 15 recoveries. The nesting of shell
  commands is expanded three levels deep, as in the code; \<open>walk\<close> follows as many links as there are, more
  than which only a loop can need. Attempts of a model call are six, of a GitHub request four, redirects
  five, dispatches for a head of a pull request three, remembered run identifiers 20, queued messages 100:
  all literals of the code. Other loops are structural or have a termination proof.

  What is not modelled. Threads and locks: an operation under a lock is one step, layers of subtasks run in
  order (the default of one worker), and interleavings of handlers without a lock are findings, not
  theorems. The wording of prompts, argument schemas of third-party libraries, JSON text, digests and
  floating-point rounding beyond \<open>round\<close> are parameters or left out. Of the platform, the web framework,
  webhooks, the clients of external services, the set-up of agents and the user interface are not modelled.
  Where the code departs from what its documents or tests say, a lemma shows the behaviour of the code.
\<close>

section \<open>Properties that span components\<close>

subsection \<open>Green is measured\<close>

text \<open>
  \<open>green_commands sv vf changed full w v\<close>: run from the world \<open>w\<close>, the commands that the verifier \<open>vf\<close> plans for
  the changed files end without an exception, every test command, at least one, with exit code 0 in
  time, no gate with a red verdict, and \<open>v\<close> is the report of these runs. \<open>off_code_step\<close>: a step of the graph
  that runs neither of the nodes that write code.
\<close>

definition green_commands ::
  "'w services \<Rightarrow> verifier \<Rightarrow> string list \<Rightarrow> bool \<Rightarrow> 'w \<Rightarrow> verification_result \<Rightarrow> bool" where
  "green_commands sv vf changed full w v \<longleftrightarrow>
     (\<exists>tests gates w'.
        run_all (sv_run sv) (vf_timeout vf) (all_commands (build_plan vf changed full)) w
          = (Inr (tests @ gates), w') \<and>
        length tests = length (vp_test_commands (build_plan vf changed full)) \<and> tests \<noteq> [] \<and>
        (\<forall>r \<in> set tests. ended_well r) \<and> (\<forall>r \<in> set gates. gate_verdict r \<noteq> Some False) \<and>
        reports (build_plan vf changed full) tests gates (sv_now sv w' - sv_now sv w) v)"

definition off_code_step :: "('m, 'w) flow_env \<Rightarrow> 'w flow \<Rightarrow> 'w flow \<Rightarrow> bool" where
  "off_code_step env c d \<longleftrightarrow> flow_step env c d \<and> fst c \<notin> {At Implementation, At Recovery, At Verification}"

lemma test_commands_nonempty: "vp_test_commands (build_plan vf changed full) \<noteq> []"
  by (simp add: build_plan_def Let_def)

lemma verify_green:
  assumes "verify (sv_run sv) (sv_now sv) changed full (vf, w) = (Inr v, (vf', w'))" "vr_passed v"
  shows "green_commands sv vf changed full w v"
proof -
  let ?p = "build_plan vf changed full"
  from assms(1) have "run_plan (sv_run sv) (sv_now sv) (vf_timeout vf) ?p w = (Inr v, w')"
    by (auto simp: verify_def split: prod.splits sum.splits)
  then obtain tests gates where r:
    "run_all (sv_run sv) (vf_timeout vf) (all_commands ?p) w = (Inr (tests @ gates), w')"
    "length tests = length (vp_test_commands ?p)" "reports ?p tests gates (sv_now sv w' - sv_now sv w) v"
    by (rule run_plan_result)
  have "tests \<noteq> []" using r(2) test_commands_nonempty [of vf changed full] by auto
  moreover have "(\<forall>r \<in> set tests. ended_well r) \<and> (\<forall>r \<in> set gates. gate_verdict r \<noteq> Some False)"
    using r(3) assms(2) by (simp add: reports_def)
  ultimately show ?thesis using r unfolding green_commands_def by blast
qed

lemma guard_context:
  assumes "guard sv name args f cx = (r, cx')" "f cx = (out, c1)"
  shows "tx_verifier cx' = tx_verifier c1" "r = ToolOk x \<Longrightarrow> out = Inr x"
proof -
  have tr: "tx_verifier (trace_tool sv name seconds args r c) = tx_verifier c" for seconds r c
    by (auto simp: trace_tool_def Let_def split: option.split prod.split)
  from assms show "tx_verifier cx' = tx_verifier c1" "r = ToolOk x \<Longrightarrow> out = Inr x"
    by (auto simp: guard_def Let_def tr reply_of_def split: sum.splits)
qed

lemma run_verifier_cases:
  assumes "run_verifier sv vf changed full cx = (out, c1)"
  shows "case out of
      Inl e \<Rightarrow> tx_verifier c1 = Some vf
    | Inr v \<Rightarrow> tx_verifier c1 = Some (vf\<lparr>vf_last := Some v\<rparr>) \<and>
        (vr_passed v \<longrightarrow> green_commands sv vf changed full (tx_world cx) v)"
proof -
  obtain o' vf' w' where o: "verify (sv_run sv) (sv_now sv) changed full (vf, tx_world cx) = (o', (vf', w'))"
    by (metis prod.exhaust)
  have last: "vf' = (case o' of Inl e \<Rightarrow> vf | Inr v \<Rightarrow> vf\<lparr>vf_last := Some v\<rparr>)"
    using o by (auto simp: verify_def split: prod.splits sum.splits)
  from assms o have out: "out = o'" "tx_verifier c1 = Some vf'" by (auto simp: run_verifier_def)
  show ?thesis
  proof (cases o')
    case (Inr v)
    from verify_green [OF o [unfolded Inr]] out last Inr show ?thesis by simp
  qed (simp add: out last)
qed

lemma run_validation_cases:
  assumes "run_validation sv changed full cx = (out, c1)" "tx_verifier cx = Some vf"
  shows "case out of
      Inl e \<Rightarrow> tx_verifier c1 = Some vf
    | Inr (v0, summary) \<Rightarrow> \<exists>v. tx_verifier c1 = Some (vf\<lparr>vf_last := Some v\<rparr>) \<and>
        (vr_passed v \<longrightarrow> green_commands sv vf changed full (tx_world cx) v)"
proof -
  obtain o' c' where o: "run_verifier sv vf changed full cx = (o', c')" by fastforce
  with assms run_verifier_cases [OF o] show ?thesis
    by (cases o') (auto simp: run_validation_def and_then_def)
qed

text \<open>The call of the tool that the node makes first.\<close>

definition validation_call ::
  "('m, 'w) flow_env \<Rightarrow> string list \<Rightarrow> bool \<Rightarrow> 'w runtime \<Rightarrow>
     (verification_result \<times> string) call_reply \<times> 'w runtime" where
  "validation_call env changed full rt =
     call_tool env ''run_validation'' [(''changed_files'', list_val changed), (''full_suite'', VBool full)]
       (run_validation (en_services env) changed full) ''verification'' rt"

lemma validation_call_cases:
  assumes "validation_call env changed full rt = (r, rt1)" "tx_verifier (rt_context rt) = Some vf"
  shows "rt_config rt1 = rt_config rt"
    "case answer_of r of
      None \<Rightarrow> tx_verifier (rt_context rt1) = Some vf
    | Some x \<Rightarrow> \<exists>v. tx_verifier (rt_context rt1) = Some (vf\<lparr>vf_last := Some v\<rparr>) \<and>
        (vr_passed v \<longrightarrow> green_commands (en_services env) vf changed full (tx_world (rt_context rt)) v)"
proof -
  let ?f = "run_validation (en_services env) changed full"
  let ?cx = "(rt_context rt)\<lparr>tx_node := Some ''verification'', tx_agent := None\<rparr>"
  have reg: "''run_validation'' \<in> set tool_names" by code_simp
  obtain b rt2 where b: "tool_budget_exceeded env (rt\<lparr>rt_context := ?cx\<rparr>) = (b, rt2)" by fastforce
  then have rt2: "rt_context rt2 = ?cx" "rt_config rt2 = rt_config rt"
    by (auto simp: tool_budget_exceeded_def split: prod.splits)
  obtain t cx' where g: "guard (en_services env) ''run_validation''
      [(''changed_files'', list_val changed), (''full_suite'', VBool full)] ?f ?cx = (t, cx')" by fastforce
  obtain out c1 where f: "?f ?cx = (out, c1)" by fastforce
  show "rt_config rt1 = rt_config rt"
    using assms(1) b rt2 g reg by (cases b) (auto simp: validation_call_def call_tool_def)
  show "case answer_of r of
      None \<Rightarrow> tx_verifier (rt_context rt1) = Some vf
    | Some x \<Rightarrow> \<exists>v. tx_verifier (rt_context rt1) = Some (vf\<lparr>vf_last := Some v\<rparr>) \<and>
        (vr_passed v \<longrightarrow> green_commands (en_services env) vf changed full (tx_world (rt_context rt)) v)"
  proof (cases b)
    case True
    with assms b rt2 reg show ?thesis by (auto simp: validation_call_def call_tool_def answer_of_def)
  next
    case False
    with assms(1) b rt2 g reg have r: "r = Answered t" "rt_context rt1 = cx'"
      by (auto simp: validation_call_def call_tool_def)
    note c = run_validation_cases [OF f, of vf] guard_context [OF g f]
    show ?thesis
    proof (cases out)
      case (Inl e)
      with c assms(2) r show ?thesis by (auto simp: answer_of_def split: tool_reply.splits)
    next
      case (Inr x)
      with f g have "t = ToolOk x" by (auto simp: guard_def Let_def reply_of_def)
      with Inr c assms(2) r show ?thesis by (cases x) (simp add: answer_of_def)
    qed
  qed
qed

lemma verify_now_green:
  assumes "verify_now env vf changed rt = (Inr v, rt')" "vr_passed v" "tx_verifier (rt_context rt) = Some vf"
  shows "\<exists>w. green_commands (en_services env) vf changed (wc_full_suite (rt_config rt)) w v \<and>
    w \<in> {tx_world (rt_context rt),
         tx_world (rt_context (snd (validation_call env changed (wc_full_suite (rt_config rt)) rt)))}"
proof -
  define full where "full = wc_full_suite (rt_config rt)"
  obtain r rt1 where c: "validation_call env changed full rt = (r, rt1)" by fastforce
  note cs = validation_call_cases [OF c assms(3)]
  define vf1 where "vf1 = (case tx_verifier (rt_context rt1) of None \<Rightarrow> vf | Some v \<Rightarrow> v)"
  have vn: "verify_now env vf changed rt = (case answer_of r of
       Some (v, summary) \<Rightarrow> (Inr (case vf_last vf1 of Some v1 \<Rightarrow> v1 | None \<Rightarrow> v), rt1)
     | None \<Rightarrow> verify_directly env vf1 changed rt1)"
    unfolding vf1_def using c by (simp add: verify_now_def validation_call_def Let_def flip: full_def)
  show ?thesis
  proof (cases "answer_of r")
    case None
    with cs have "vf1 = vf" by (simp add: vf1_def)
    with None vn assms(1) have "verify_directly env vf changed rt1 = (Inr v, rt')" by simp
    then obtain c1 where "run_verifier (en_services env) vf changed full (rt_context rt1) = (Inr v, c1)"
      by (auto simp: verify_directly_def cs(1) full_def split: prod.splits)
    from run_verifier_cases [OF this] assms(2) c show ?thesis by (auto simp flip: full_def)
  next
    case (Some x)
    with cs obtain u where u: "tx_verifier (rt_context rt1) = Some (vf\<lparr>vf_last := Some u\<rparr>)"
      "vr_passed u \<longrightarrow> green_commands (en_services env) vf changed full (tx_world (rt_context rt)) u" by auto
    from vn assms(1) Some u(1) have "v = u" by (cases x) (simp add: vf1_def)
    with u(2) assms(2) show ?thesis by (auto simp flip: full_def)
  qed
qed

text \<open>
  \<open>verified_at env s rt v\<close>: \<open>v\<close> is the report of commands that the verification node ran when it started
  with the state \<open>s\<close> and the runtime \<open>rt\<close>. \<open>backed env start c\<close>: unless the run is about to verify or crashed, a
  green report in the state of \<open>c\<close> was written by a step that ran the verification node, and no step after
  it wrote code or verified.
\<close>

definition verified_at ::
  "('m, 'w) flow_env \<Rightarrow> flow_state \<Rightarrow> 'w runtime \<Rightarrow> verification_result \<Rightarrow> bool" where
  "verified_at env s rt v \<longleftrightarrow>
     (\<exists>vf w. tx_verifier (rt_context rt) = Some vf \<and>
        green_commands (en_services env) vf (Nodes.changed_files s rt) (wc_full_suite (rt_config rt)) w v \<and>
        (w = tx_world (rt_context rt) \<or>
         w = tx_world (rt_context (snd (validation_call env (Nodes.changed_files s rt)
               (wc_full_suite (rt_config rt)) rt)))))"

definition backed :: "('m, 'w) flow_env \<Rightarrow> 'w flow \<Rightarrow> 'w flow \<Rightarrow> bool" where
  "backed env start c \<longleftrightarrow>
     (\<forall>v. sw_test_results (fst (snd c)) = Some v \<longrightarrow> vr_passed v \<longrightarrow>
        (\<exists>e. fst c = Crashed e) \<or> fst c \<in> {At Implementation, At Verification} \<or>
        (\<exists>s0 rt0 d. (flow_step env)\<^sup>*\<^sup>* start (At Verification, s0, rt0) \<and>
           flow_step env (At Verification, s0, rt0) d \<and> verified_at env s0 rt0 v \<and>
           sw_test_results (fst (snd d)) = Some v \<and> (off_code_step env)\<^sup>*\<^sup>* d c))"

lemma verification_green:
  assumes "run_node env Verification s rt = (Inr u, rt')" "su_test_results u = Some (Some v)" "vr_passed v"
  shows "verified_at env s rt v"
proof -
  from assms(1) obtain rt1 where "verification env s rt = (Inr u, rt1)"
    by (auto simp: run_node_def split: prod.splits sum.splits)
  with assms(2) obtain vf rt2 where vf: "tx_verifier (rt_context rt) = Some vf"
    "verify_now env vf (Nodes.changed_files s rt) rt = (Inr v, rt2)"
    by (auto simp: verification_def split: option.splits prod.splits sum.splits)
  from verify_now_green [OF vf(2) assms(3) vf(1)] vf(1) show ?thesis unfolding verified_at_def by blast
qed

lemma verification_writes:
  "run_node env Verification s rt = (Inr u, rt') \<Longrightarrow> \<exists>v. su_test_results u = Some v"
  by (auto simp: run_node_def verification_def split: option.splits prod.splits sum.splits)

lemma backed_step:
  assumes "flow_step env c d" "backed env start c" "(flow_step env)\<^sup>*\<^sup>* start c"
  shows "backed env start d"
proof -
  obtain n s rt where c: "c = (At n, s, rt)" and d: "d = advance env n s rt"
    using assms(1) by (cases rule: flow_step.cases) auto
  obtain out rt1 where r: "run_node env n s rt = (out, rt1)" by fastforce
  show ?thesis
  proof (cases out)
    case (Inl e)
    with c d r show ?thesis by (simp add: advance_def backed_def)
  next
    case (Inr u)
    obtain p rt2 where p: "route env n (merge_update u s) rt1 = (p, rt2)" by fastforce
    with Inr r d have d': "d = (p, merge_update u s, rt2)" by (simp add: advance_def Let_def)
    consider "n = Verification" | "n \<in> {Implementation, Recovery}"
      | "n \<notin> {Verification, Implementation, Recovery}" by blast
    then show ?thesis
    proof cases
      case 1
      from verification_writes r Inr 1 obtain x where x: "su_test_results u = Some x" by blast
      {
        fix v
        assume v: "sw_test_results (merge_update u s) = Some v" "vr_passed v"
        with x have "su_test_results u = Some (Some v)" by simp
        from verification_green [OF r [unfolded Inr 1] this v(2)] assms(1,3) c d' v 1
        have "\<exists>s0 rt0 d0. (flow_step env)\<^sup>*\<^sup>* start (At Verification, s0, rt0) \<and>
           flow_step env (At Verification, s0, rt0) d0 \<and> verified_at env s0 rt0 v \<and>
           sw_test_results (fst (snd d0)) = Some v \<and> (off_code_step env)\<^sup>*\<^sup>* d0 d"
          by (intro exI [of _ s] exI [of _ rt] exI [of _ d]) simp
      }
      then show ?thesis unfolding backed_def d' by simp
    next
      case 2
      with p have "p = At Verification" by auto
      then show ?thesis by (simp add: backed_def d')
    next
      case 3
      with run_node_owned [OF r [unfolded Inr]] have "su_test_results u = None" by (simp add: owned_update_def)
      then have same: "sw_test_results (merge_update u s) = sw_test_results s" by simp
      have "off_code_step env c d" using assms(1) c 3 by (simp add: off_code_step_def)
      {
        fix v
        assume v: "sw_test_results s = Some v" "vr_passed v"
        with assms(2) c 3 obtain s0 rt0 d0 where o: "(flow_step env)\<^sup>*\<^sup>* start (At Verification, s0, rt0)"
          "flow_step env (At Verification, s0, rt0) d0" "verified_at env s0 rt0 v"
          "sw_test_results (fst (snd d0)) = Some v" "(off_code_step env)\<^sup>*\<^sup>* d0 c"
          unfolding backed_def by auto
        from rtranclp.rtrancl_into_rtrancl [OF o(5) \<open>off_code_step env c d\<close>] o(1-4)
        have "\<exists>s0 rt0 d0. (flow_step env)\<^sup>*\<^sup>* start (At Verification, s0, rt0) \<and>
           flow_step env (At Verification, s0, rt0) d0 \<and> verified_at env s0 rt0 v \<and>
           sw_test_results (fst (snd d0)) = Some v \<and> (off_code_step env)\<^sup>*\<^sup>* d0 d" by blast
      }
      then show ?thesis unfolding backed_def d' fst_conv snd_conv same by blast
    qed
  qed
qed

lemma backed_path:
  assumes "(flow_step env)\<^sup>*\<^sup>* (start_flow task repository rt) c"
  shows "backed env (start_flow task repository rt) c"
  using assms
proof (induction rule: rtranclp_induct)
  case base
  then show ?case by (simp add: start_flow_def backed_def initial_state_def)
next
  case (step c d)
  then show ?case by (blast intro: backed_step)
qed

text \<open>
  C1. Completed means tested. A run ends \<open>completed\<close>, with findings or not, only on the report of commands
  that its own last verification ran. There is a step of the run that executed the verification node, and
  after it no step executed that node or one of the two nodes that write code. With the verifier, the
  changed files and the configuration of that step, the commands of the plan, run in order from the world
  in which the node calls its validation tool, or from the world which that call left if it failed and the
  node ran the verifier itself, ended without an exception: at least one test command, all with exit
  code 0 and in time, and no gate with a red verdict. The report of exactly these runs, with their counts,
  errors, output and time, is what the step wrote into the state and what the run ends with: no answer of a
  model or of a reviewer, and no older or other report, can stand in for it.
\<close>

theorem completed_means_tested:
  assumes "(flow_step env)\<^sup>*\<^sup>* (start_flow task repository rt) (Ended, s, rt')"
    and "sw_final_status s \<in> {Completed, CompletedWithFindings}"
  shows "\<exists>s0 rt0 d v vf w.
    (flow_step env)\<^sup>*\<^sup>* (start_flow task repository rt) (At Verification, s0, rt0) \<and>
    flow_step env (At Verification, s0, rt0) d \<and>
    (\<lambda>a b. flow_step env a b \<and> fst a \<notin> {At Implementation, At Recovery, At Verification})\<^sup>*\<^sup>*
      d (Ended, s, rt') \<and>
    sw_test_results (fst (snd d)) = Some v \<and> sw_test_results s = Some v \<and>
    tx_verifier (rt_context rt0) = Some vf \<and>
    green_commands (en_services env) vf (Nodes.changed_files s0 rt0) (wc_full_suite (rt_config rt0)) w v \<and>
    (w = tx_world (rt_context rt0) \<or>
     w = tx_world (rt_context (snd (validation_call env (Nodes.changed_files s0 rt0)
           (wc_full_suite (rt_config rt0)) rt0))))"
proof -
  let ?start = "start_flow task repository rt"
  have "is_green s"
    using ended_earned [OF assms(1)] assms(2) by (auto simp: earned_def verdicts_def)
  then obtain v where v: "sw_test_results s = Some v" "vr_passed v"
    by (auto simp: is_green_def split: option.splits)
  with backed_path [OF assms(1)] obtain s0 rt0 d where o:
    "(flow_step env)\<^sup>*\<^sup>* ?start (At Verification, s0, rt0)" "flow_step env (At Verification, s0, rt0) d"
    "verified_at env s0 rt0 v" "sw_test_results (fst (snd d)) = Some v" "(off_code_step env)\<^sup>*\<^sup>* d (Ended, s, rt')"
    unfolding backed_def by auto
  from o(3) obtain vf w where vf: "tx_verifier (rt_context rt0) = Some vf"
    "green_commands (en_services env) vf (Nodes.changed_files s0 rt0) (wc_full_suite (rt_config rt0)) w v"
    "w = tx_world (rt_context rt0) \<or> w = tx_world (rt_context (snd (validation_call env (Nodes.changed_files s0 rt0)
       (wc_full_suite (rt_config rt0)) rt0)))"
    unfolding verified_at_def by blast
  from o(1,2,4) v(1) vf o(5) [unfolded off_code_step_def [abs_def]] show ?thesis by blast
qed

theorem completed_means_tested_witness:
  "\<exists>s rt' s0 rt0 v vf w. run_flow green_env 60 bare_flow = Some (Ended, s, rt') \<and>
     (flow_step green_env)\<^sup>*\<^sup>* bare_flow (At Verification, s0, rt0) \<and> sw_test_results s = Some v \<and>
     green_commands (en_services green_env) vf (Nodes.changed_files s0 rt0) (wc_full_suite (rt_config rt0)) w v"
proof -
  from bare_run obtain s rt' where r: "run_flow green_env 60 bare_flow = Some (Ended, s, rt')"
    "sw_final_status s = Completed" by (auto simp del: run_flow.simps)
  have "sw_final_status s \<in> {Completed, CompletedWithFindings}" using r(2) by simp
  from completed_means_tested [OF run_flow_path [OF r(1)] this] obtain s0 rt0 v vf w where
    "(flow_step green_env)\<^sup>*\<^sup>* bare_flow (At Verification, s0, rt0)" "sw_test_results s = Some v"
    "green_commands (en_services green_env) vf (Nodes.changed_files s0 rt0) (wc_full_suite (rt_config rt0)) w v"
    by (elim exE conjE) (rule that)
  with r(1) show ?thesis by (intro exI conjI)
qed

end
